(* ===== verification/Ncfg_Prelude.thy ===== *)
theory Ncfg_Prelude
  imports Main "HOL-Library.Word" "HOL-Library.Code_Target_Numeral"
begin

text \<open>
  Shared vocabulary of the development: bytes at their width, byte strings, the C idioms the
  sources share (NUL-terminated text, the truncation of \<^verbatim>\<open>snprintf\<close>, decimal and hexadecimal
  printing) and the generic list and word lemmas the component theories use.

  Sizes and offsets (\<^verbatim>\<open>size_t\<close>) are \<^typ>\<open>nat\<close>; the components state where they stay below
  \<open>2 ^ 64\<close>.  A pointer that may be NULL is an \<open>option\<close> where the code tells the two apart; the
  NULL-argument guards at the entry of the library functions are not represented, because every
  argument of a HOL function exists.
\<close>

unbundle bit_operations_syntax

type_synonym byte = "8 word"
type_synonym bytes = "byte list"

abbreviation ch :: "char \<Rightarrow> byte" where
  "ch c \<equiv> of_char c"

abbreviation NL :: byte where
  "NL \<equiv> 10"

named_theorems buf_simps \<open>laws of the byte buffer\<close>
named_theorems advance_intros \<open>cursor operations only move forward\<close>

subsection \<open>Text\<close>

definition ascii :: "string \<Rightarrow> bytes" where
  "ascii s = map of_char s"

definition cstr :: "bytes \<Rightarrow> bytes" where
  "cstr s = takeWhile (\<lambda>b. b \<noteq> 0) s"

text \<open>The size of every error buffer.\<close>

definition NCFG_ERROR_MAX :: nat where
  "NCFG_ERROR_MAX = 512"

definition snprintf_text :: "nat \<Rightarrow> bytes \<Rightarrow> bytes" where
  "snprintf_text n s = take (n - 1) s"

fun decimal :: "nat \<Rightarrow> bytes" where
  "decimal n = (if n < 10 then [48 + of_nat n] else decimal (n div 10) @ [48 + of_nat (n mod 10)])"

declare decimal.simps [simp del]

definition decimal_int :: "int \<Rightarrow> bytes" where
  "decimal_int i = (if i < 0 then ch CHR ''-'' # decimal (nat (- i)) else decimal (nat i))"

definition hex_digits :: bytes where
  "hex_digits = ascii ''0123456789abcdef''"

lemma ascii_simps [simp]:
  "ascii [] = []"
  "ascii (c # s) = of_char c # ascii s"
  by (simp_all add: ascii_def)

lemma ascii_append [simp]: "ascii (s @ t) = ascii s @ ascii t"
  by (simp add: ascii_def)

lemma length_ascii [simp]: "length (ascii s) = length s"
  by (simp add: ascii_def)

lemma length_snprintf_text: "0 < n \<Longrightarrow> length (snprintf_text n s) < n"
  by (simp add: snprintf_text_def)

lemma cstr_no_nul: "0 \<notin> set (cstr s)"
  by (auto simp: cstr_def dest: set_takeWhileD)

lemma cstr_id: "0 \<notin> set s \<Longrightarrow> cstr s = s"
  by (auto simp: cstr_def takeWhile_eq_all_conv)

lemma decimal_less_10: "n < 10 \<Longrightarrow> decimal n = [48 + of_nat n]"
  by (simp add: decimal.simps)

lemma decimal_ge_10:
  "10 \<le> n \<Longrightarrow> decimal n = decimal (n div 10) @ [48 + of_nat (n mod 10)]"
  by (subst decimal.simps) simp

lemma decimal_nonempty [simp]: "decimal n \<noteq> []"
  by (subst decimal.simps) simp

lemma unat_less: "unat (w :: 'a::len word) < 2 ^ LENGTH('a)"
  by (rule unsigned_less)

lemma unat_digit: "d < 10 \<Longrightarrow> unat (48 + of_nat d :: byte) = 48 + d"
  by (simp add: unat_word_ariths unat_of_nat)

definition is_digit :: "byte \<Rightarrow> bool" where
  "is_digit b \<longleftrightarrow> 48 \<le> b \<and> b \<le> 57"

definition digit_value :: "byte \<Rightarrow> nat" where
  "digit_value b = unat b - 48"

definition decimal_value :: "bytes \<Rightarrow> nat" where
  "decimal_value ds = foldl (\<lambda>n b. 10 * n + digit_value b) 0 ds"

lemma is_digit_unat: "is_digit b \<longleftrightarrow> 48 \<le> unat b \<and> unat b \<le> 57"
  by (simp add: is_digit_def word_le_nat_alt)

lemma digit_value_digit: "d < 10 \<Longrightarrow> digit_value (48 + of_nat d) = d"
  by (simp add: digit_value_def unat_digit)

lemma is_digit_digit: "d < 10 \<Longrightarrow> is_digit (48 + of_nat d)"
  by (simp add: is_digit_unat unat_digit)

lemma decimal_value_snoc [simp]:
  "decimal_value (ds @ [b]) = 10 * decimal_value ds + digit_value b"
  by (simp add: decimal_value_def)

lemma decimal_value_Nil [simp]: "decimal_value [] = 0"
  by (simp add: decimal_value_def)

lemma decimal_digits: "b \<in> set (decimal n) \<Longrightarrow> is_digit b"
proof (induction n rule: decimal.induct)
  case (1 n)
  show ?case
  proof (cases "n < 10")
    case True
    with 1(2) show ?thesis by (simp add: decimal_less_10 is_digit_digit)
  next
    case False
    with 1 show ?thesis by (auto simp: decimal_ge_10 is_digit_digit)
  qed
qed

lemma decimal_value_decimal [simp]: "decimal_value (decimal n) = n"
proof (induction n rule: decimal.induct)
  case (1 n)
  show ?case
  proof (cases "n < 10")
    case True
    then show ?thesis
      using decimal_value_snoc [of "[]"] by (simp add: decimal_less_10 digit_value_digit)
  next
    case False
    with 1 show ?thesis by (simp add: decimal_ge_10 digit_value_digit)
  qed
qed

text \<open>Decimal accumulation at 64 bits, with the overflow test the readers of numbers share.\<close>

lemma unat_digit_word: "is_digit b \<Longrightarrow> unat (ucast (b - 48) :: 64 word) = digit_value b"
proof -
  assume "is_digit b"
  then have "unat (b - 48) = digit_value b"
    by (simp add: digit_value_def unat_sub is_digit_def)
  moreover have "unat (ucast (b - 48) :: 64 word) = take_bit 64 (unat (b - 48))"
    by (simp add: unsigned_ucast_eq)
  moreover have "unat (b - 48) < 2 ^ 64"
    using unat_less [of "b - 48"] by simp
  ultimately show ?thesis by (simp add: take_bit_nat_eq_self)
qed

lemma digit_value_le: "is_digit b \<Longrightarrow> digit_value b \<le> 9"
  by (auto simp: digit_value_def is_digit_unat)

lemma overflow_test:
  fixes limit v d :: "64 word"
  assumes "unat d \<le> unat limit"
  shows "(limit - d) div 10 < v \<longleftrightarrow> unat limit < 10 * unat v + unat d"
proof -
  have "unat (limit - d) = unat limit - unat d"
    using assms by (simp add: unat_sub word_le_nat_alt)
  then have "unat ((limit - d) div 10) = (unat limit - unat d) div 10"
    by (simp add: unat_div)
  then show ?thesis using assms by (simp add: word_less_nat_alt) linarith
qed

abbreviation accum :: "nat \<Rightarrow> bytes \<Rightarrow> nat" where
  "accum \<equiv> foldl (\<lambda>n b. 10 * n + digit_value b)"

lemma accum_ge: "n \<le> accum n ds"
proof (induction ds arbitrary: n)
  case (Cons d ds)
  from Cons [of "10 * n + digit_value d"] show ?case by simp
qed simp

subsection \<open>Lists and slices\<close>

definition slice :: "nat \<Rightarrow> nat \<Rightarrow> 'a list \<Rightarrow> 'a list" where
  "slice i j xs = take (j - i) (drop i xs)"

lemma slice_self [simp]: "slice i i xs = []"
  by (simp add: slice_def)

lemma length_slice: "j \<le> length xs \<Longrightarrow> length (slice i j xs) = j - i"
  by (simp add: slice_def)

lemma slice_snoc:
  "i \<le> j \<Longrightarrow> j < length xs \<Longrightarrow> slice i (Suc j) xs = slice i j xs @ [xs ! j]"
  by (simp add: slice_def Suc_diff_le take_Suc_conv_app_nth)

lemma slice_Cons:
  "i < j \<Longrightarrow> i < length xs \<Longrightarrow> slice i j xs = xs ! i # slice (Suc i) j xs"
  by (simp add: slice_def Cons_nth_drop_Suc [symmetric] take_Cons')

lemma slice_append:
  assumes "i \<le> j" "j \<le> k"
  shows "slice i j xs @ slice j k xs = slice i k xs"
proof -
  have "take ((j - i) + (k - j)) (drop i xs) =
      take (j - i) (drop i xs) @ take (k - j) (drop (j - i) (drop i xs))"
    by (rule take_add)
  with assms show ?thesis by (simp add: slice_def)
qed

lemma set_slice: "x \<in> set (slice i j xs) \<Longrightarrow> x \<in> set xs"
  by (auto simp: slice_def dest: in_set_takeD in_set_dropD)

lemma sint_word_of_int:
  "- (2 ^ 63) \<le> z \<Longrightarrow> z < 2 ^ 63 \<Longrightarrow> sint (word_of_int z :: 64 word) = z"
  by (simp add: signed_of_int signed_take_bit_int_eq_self)

subsection \<open>The sticky failure\<close>

text \<open>
  The discipline the containers share -- journal, plan and buffer alike: a failed addition marks the
  container for good, so that a caller may add many times and check once.
\<close>

locale sticky_list =
  fixes add :: "'l \<Rightarrow> 'r \<Rightarrow> 'l"
    and contents :: "'l \<Rightarrow> 'r list"
    and failed :: "'l \<Rightarrow> bool"
  assumes add_kept: "\<not> failed (add l r) \<Longrightarrow> contents (add l r) = contents l @ [r] \<and> \<not> failed l"
begin

lemma adds_kept: "\<not> failed (foldl add l rs) \<Longrightarrow> contents (foldl add l rs) = contents l @ rs \<and> \<not> failed l"
proof (induction rs arbitrary: l)
  case (Cons r rs)
  from Cons.prems Cons.IH [of "add l r"] have "contents (foldl add (add l r) rs) = contents (add l r) @ rs"
    and "\<not> failed (add l r)" by simp_all
  with add_kept [of l r] show ?case by simp
qed simp

lemma adds_sticky: "failed l \<Longrightarrow> failed (foldl add l rs)"
  using adds_kept by blast

lemma adds_lost: "contents (foldl add l rs) \<noteq> contents l @ rs \<Longrightarrow> failed (foldl add l rs)"
  using adds_kept by blast

end

end
