(* ===== verification/Ncfg_Buf.thy ===== *)
theory Ncfg_Buf
  imports Ncfg_Prelude
begin

text \<open>
  The growable buffer of \<^verbatim>\<open>c/src/base/buf.c\<close>: a block that doubles, a ceiling, and a failure
  flag that sticks.  \<^verbatim>\<open>realloc\<close> is a parameter \<open>mem\<close>: \<open>mem n\<close> says whether a block of \<open>n\<close>
  bytes is granted.  The locale \<open>byte_sink\<close> states what the clients of a buffer rely on (the
  lexer's string and hook bodies, the JSON writer, the line framer); it is interpreted below on
  the buffer's own operations with memory that is granted.
\<close>

subsection \<open>State and operations\<close>

text \<open>
  \<open>bdata\<close> is the block up to its terminator, or \<open>None\<close> for the NULL of a buffer that never
  allocated; the terminating NUL is always there and is not part of it.
\<close>

record buf =
  bdata :: "bytes option"
  blength :: nat
  bcapacity :: nat
  blimit :: nat
  bfailed :: bool

definition DEFAULT_LIMIT :: nat where
  "DEFAULT_LIMIT = 16 * 1024 * 1024"

definition FIRST_CAPACITY :: nat where
  "FIRST_CAPACITY = 256"

definition ncfg_buf_init :: "nat \<Rightarrow> buf" where
  "ncfg_buf_init limit =
     \<lparr>bdata = None, blength = 0, bcapacity = 0,
      blimit = (if limit \<noteq> 0 then limit else DEFAULT_LIMIT), bfailed = False\<rparr>"

definition ncfg_buf_free :: "buf \<Rightarrow> buf" where
  "ncfg_buf_free buf = buf\<lparr>bdata := None, blength := 0, bcapacity := 0, bfailed := False\<rparr>"

text \<open>The doubling loop of \<^verbatim>\<open>reserve\<close>; a capacity of zero never reaches it.\<close>

function double_until :: "nat \<Rightarrow> nat \<Rightarrow> nat" where
  "double_until capacity needed =
     (if 0 < capacity \<and> capacity < needed then double_until (capacity * 2) needed else capacity)"
  by pat_completeness auto
termination
  by (relation "measure (\<lambda>(capacity, needed). needed - capacity)") auto

declare double_until.simps [simp del]

definition reserve :: "(nat \<Rightarrow> bool) \<Rightarrow> buf \<Rightarrow> nat \<Rightarrow> bool \<times> buf" where
  "reserve mem buf wanted =
     (if bfailed buf then (False, buf)
      else if wanted > blimit buf - blength buf then (False, buf\<lparr>bfailed := True\<rparr>)
      else let needed = blength buf + wanted + 1 in
        if needed \<le> bcapacity buf then (True, buf)
        else let capacity =
               double_until (if bcapacity buf \<noteq> 0 then bcapacity buf else FIRST_CAPACITY) needed in
          if \<not> mem capacity then (False, buf\<lparr>bfailed := True\<rparr>)
          else (True, buf\<lparr>bdata := Some (case bdata buf of None \<Rightarrow> [] | Some d \<Rightarrow> d),
                          bcapacity := capacity\<rparr>))"

text \<open>Copying behind the text and moving the terminator, once there is room.\<close>

definition buf_put :: "buf \<Rightarrow> bytes \<Rightarrow> buf" where
  "buf_put buf bs =
     buf\<lparr>bdata := map_option (\<lambda>d. take (blength buf) d @ bs) (bdata buf),
         blength := blength buf + length bs\<rparr>"

definition ncfg_buf_add :: "(nat \<Rightarrow> bool) \<Rightarrow> buf \<Rightarrow> bytes \<Rightarrow> buf" where
  "ncfg_buf_add mem buf bs =
     (if bs = [] then buf
      else case reserve mem buf (length bs) of
        (False, buf) \<Rightarrow> buf
      | (True, buf) \<Rightarrow> buf_put buf bs)"

definition ncfg_buf_add_text :: "(nat \<Rightarrow> bool) \<Rightarrow> buf \<Rightarrow> bytes \<Rightarrow> buf" where
  "ncfg_buf_add_text mem buf text = ncfg_buf_add mem buf (cstr text)"

definition ncfg_buf_add_char :: "(nat \<Rightarrow> bool) \<Rightarrow> buf \<Rightarrow> byte \<Rightarrow> buf" where
  "ncfg_buf_add_char mem buf one = ncfg_buf_add mem buf [one]"

text \<open>
  \<^verbatim>\<open>ncfg_buf_addf\<close> is given what \<^verbatim>\<open>vsnprintf\<close> makes of its format and arguments: the text, or
  \<open>None\<close> for a negative return.  Unlike \<^verbatim>\<open>ncfg_buf_add\<close> it reserves even for an empty text.
\<close>

definition ncfg_buf_addf :: "(nat \<Rightarrow> bool) \<Rightarrow> buf \<Rightarrow> bytes option \<Rightarrow> buf" where
  "ncfg_buf_addf mem buf formatted =
     (if bfailed buf then buf
      else case formatted of
        None \<Rightarrow> buf\<lparr>bfailed := True\<rparr>
      | Some text \<Rightarrow>
          (case reserve mem buf (length text) of
             (False, buf) \<Rightarrow> buf
           | (True, buf) \<Rightarrow> buf_put buf text))"

definition ncfg_buf_failed :: "buf \<Rightarrow> bool" where
  "ncfg_buf_failed buf = bfailed buf"

definition ncfg_buf_text :: "buf \<Rightarrow> bytes" where
  "ncfg_buf_text buf =
     (if bfailed buf then [] else case bdata buf of None \<Rightarrow> [] | Some d \<Rightarrow> d)"

definition ncfg_buf_take :: "buf \<Rightarrow> bytes option \<times> nat \<times> buf" where
  "ncfg_buf_take buf =
     (if bfailed buf \<or> bdata buf = None then (None, 0, buf)
      else (bdata buf, blength buf, buf\<lparr>bdata := None, blength := 0, bcapacity := 0\<rparr>))"

subsection \<open>Invariant\<close>

definition buf_contents :: "buf \<Rightarrow> bytes" where
  "buf_contents buf = (case bdata buf of None \<Rightarrow> [] | Some d \<Rightarrow> d)"

definition buf_room :: "buf \<Rightarrow> nat" where
  "buf_room buf = blimit buf - blength buf"

text \<open>
  The block holds the text and its terminator, the text is as long as the buffer says and never
  longer than the limit, and only an allocated buffer has a capacity.
\<close>

definition buf_inv :: "buf \<Rightarrow> bool" where
  "buf_inv buf \<longleftrightarrow>
     blength buf = length (buf_contents buf) \<and> blength buf \<le> blimit buf \<and>
     (bdata buf = None \<longleftrightarrow> bcapacity buf = 0) \<and>
     (bdata buf \<noteq> None \<longrightarrow> blength buf < bcapacity buf)"

lemma double_until_ge: "0 < c \<Longrightarrow> n \<le> double_until c n \<and> c \<le> double_until c n"
proof (induction c n rule: double_until.induct)
  case (1 c n)
  then show ?case by (cases "c < n") (auto simp: double_until.simps [of c n])
qed

lemma double_until_le: "0 < c \<Longrightarrow> double_until c n \<le> max c (2 * n)"
proof (induction c n rule: double_until.induct)
  case (1 c n)
  then show ?case by (cases "c < n") (auto simp: double_until.simps [of c n])
qed

lemma reserve_result:
  assumes "buf_inv b" "reserve mem b w = (ok, b')"
  shows "buf_inv b'" "buf_contents b' = buf_contents b" "blength b' = blength b"
    "blimit b' = blimit b" "bfailed b' \<longleftrightarrow> \<not> ok"
    "ok \<Longrightarrow> w \<le> buf_room b \<and> blength b + w < bcapacity b' \<and> bdata b' \<noteq> None"
  using assms double_until_ge [of "if bcapacity b \<noteq> 0 then bcapacity b else FIRST_CAPACITY" "blength b + w + 1"]
  by (auto simp: reserve_def Let_def buf_inv_def buf_contents_def buf_room_def FIRST_CAPACITY_def
      split: if_splits option.splits)

lemma buf_put_result:
  assumes "buf_inv b" "bdata b \<noteq> None"
  shows "buf_contents (buf_put b xs) = buf_contents b @ xs"
    "blength (buf_put b xs) = blength b + length xs" "blimit (buf_put b xs) = blimit b"
    "bfailed (buf_put b xs) = bfailed b"
    "length xs \<le> buf_room b \<Longrightarrow> blength b + length xs < bcapacity b \<Longrightarrow> buf_inv (buf_put b xs)"
  using assms by (auto simp: buf_inv_def buf_contents_def buf_put_def buf_room_def)

lemma reserve_granted:
  assumes "\<not> bfailed b" "w \<le> buf_room b"
  shows "fst (reserve (\<lambda>_. True) b w)"
  using assms by (simp add: reserve_def Let_def buf_room_def)

lemma reserve_over: "buf_room b < w \<Longrightarrow> \<not> fst (reserve mem b w)"
  by (simp add: reserve_def buf_room_def)

text \<open>The two ways an append ends, for a text that is not empty.\<close>

lemma ncfg_buf_add_cases:
  assumes "buf_inv b" "xs \<noteq> []"
  obtains (put) b' where "ncfg_buf_add mem b xs = buf_put b' xs" "reserve mem b (length xs) = (True, b')"
      "buf_inv b'" "buf_contents b' = buf_contents b" "blength b' = blength b" "blimit b' = blimit b"
      "\<not> bfailed b'" "bdata b' \<noteq> None" "length xs \<le> buf_room b'" "blength b' + length xs < bcapacity b'"
  | (refused) b' where "ncfg_buf_add mem b xs = b'" "reserve mem b (length xs) = (False, b')"
      "buf_inv b'" "bfailed b'"
proof (cases "reserve mem b (length xs)")
  case (Pair ok b')
  note r = reserve_result [OF assms(1) Pair]
  show ?thesis
  proof (cases ok)
    case True
    with r Pair assms(2) show ?thesis
      by (intro put [of b']) (simp_all add: ncfg_buf_add_def buf_room_def)
  next
    case False
    with r Pair assms(2) show ?thesis
      by (intro refused [of b']) (simp_all add: ncfg_buf_add_def)
  qed
qed

lemma buf_inv_init: "buf_inv (ncfg_buf_init limit)"
  by (simp add: buf_inv_def ncfg_buf_init_def buf_contents_def)

lemma buf_inv_free: "buf_inv (ncfg_buf_free b)"
  by (simp add: buf_inv_def ncfg_buf_free_def buf_contents_def)

lemma buf_inv_add:
  assumes "buf_inv b"
  shows "buf_inv (ncfg_buf_add mem b xs)"
proof (cases "xs = []")
  case True
  with assms show ?thesis by (simp add: ncfg_buf_add_def)
next
  case False
  from assms False show ?thesis
    by (cases rule: ncfg_buf_add_cases [of b xs mem]) (simp_all add: buf_put_result)
qed

lemma buf_inv_take: "buf_inv b \<Longrightarrow> buf_inv (snd (snd (ncfg_buf_take b)))"
  by (auto simp: ncfg_buf_take_def buf_inv_def buf_contents_def)

lemma add_failed: "bfailed b \<Longrightarrow> ncfg_buf_add mem b xs = b"
  by (simp add: ncfg_buf_add_def reserve_def)

lemma addf_add: "xs \<noteq> [] \<Longrightarrow> ncfg_buf_addf mem b (Some xs) = ncfg_buf_add mem b xs"
  by (simp add: ncfg_buf_addf_def ncfg_buf_add_def reserve_def)

lemma add_ok:
  assumes "buf_inv b" "\<not> bfailed b" "length xs \<le> buf_room b"
  shows "\<not> bfailed (ncfg_buf_add (\<lambda>_. True) b xs) \<and>
    buf_contents (ncfg_buf_add (\<lambda>_. True) b xs) = buf_contents b @ xs \<and>
    buf_room (ncfg_buf_add (\<lambda>_. True) b xs) = buf_room b - length xs"
proof (cases "xs = []")
  case True
  with assms(2) show ?thesis by (simp add: ncfg_buf_add_def)
next
  case False
  from assms(1) False show ?thesis
  proof (cases rule: ncfg_buf_add_cases [of b xs "\<lambda>_. True"])
    case (put b')
    then show ?thesis by (simp add: buf_put_result buf_room_def)
  next
    case (refused b')
    with reserve_granted [OF assms(2,3)] show ?thesis by simp
  qed
qed

lemma add_over:
  assumes "buf_inv b" "buf_room b < length xs"
  shows "bfailed (ncfg_buf_add mem b xs)"
proof -
  from assms(2) have "xs \<noteq> []" by auto
  with assms(1) show ?thesis
  proof (cases rule: ncfg_buf_add_cases [of b xs mem])
    case (put b')
    with reserve_over [OF assms(2), of mem] show ?thesis by simp
  next
    case (refused b')
    then show ?thesis by simp
  qed
qed

subsection \<open>What a client of a buffer relies on\<close>

locale byte_sink =
  fixes add :: "'b \<Rightarrow> bytes \<Rightarrow> 'b"
    and failed :: "'b \<Rightarrow> bool"
    and contents :: "'b \<Rightarrow> bytes"
    and room :: "'b \<Rightarrow> nat"
    and inv :: "'b \<Rightarrow> bool"
  assumes sink_inv: "inv b \<Longrightarrow> inv (add b xs)"
    and sink_ok: "inv b \<Longrightarrow> \<not> failed b \<Longrightarrow> length xs \<le> room b \<Longrightarrow>
      \<not> failed (add b xs) \<and> contents (add b xs) = contents b @ xs \<and> room (add b xs) = room b - length xs"
    and sink_over: "inv b \<Longrightarrow> room b < length xs \<Longrightarrow> failed (add b xs)"
    and sink_sticky: "failed b \<Longrightarrow> failed (add b xs)"
begin

definition add_all :: "'b \<Rightarrow> bytes list \<Rightarrow> 'b" where
  "add_all b xss = foldl add b xss"

lemma add_all_inv: "inv b \<Longrightarrow> inv (add_all b xss)"
  by (induction xss arbitrary: b) (auto simp: add_all_def sink_inv)

lemma add_all_sticky: "failed b \<Longrightarrow> failed (add_all b xss)"
  by (induction xss arbitrary: b) (auto simp: add_all_def sink_sticky)

lemma add_all_ok:
  "inv b \<Longrightarrow> \<not> failed b \<Longrightarrow> length (concat xss) \<le> room b \<Longrightarrow>
     \<not> failed (add_all b xss) \<and> contents (add_all b xss) = contents b @ concat xss"
proof (induction xss arbitrary: b)
  case Nil
  then show ?case by (simp add: add_all_def)
next
  case (Cons xs xss)
  from Cons.prems have ok: "\<not> failed (add b xs) \<and> contents (add b xs) = contents b @ xs \<and>
      room (add b xs) = room b - length xs"
    by (intro sink_ok) simp_all
  with Cons.prems have "\<not> failed (add_all (add b xs) xss) \<and>
      contents (add_all (add b xs) xss) = contents (add b xs) @ concat xss"
    by (intro Cons.IH) (simp_all add: sink_inv)
  with ok show ?case by (simp add: add_all_def)
qed

lemma add_all_over:
  "inv b \<Longrightarrow> room b < length (concat xss) \<Longrightarrow> failed (add_all b xss)"
proof (induction xss arbitrary: b)
  case Nil
  then show ?case by simp
next
  case (Cons xs xss)
  show ?case
  proof (cases "failed b \<or> room b < length xs")
    case True
    with Cons.prems have "failed (add b xs)" by (auto intro: sink_over sink_sticky)
    from add_all_sticky [OF this] show ?thesis by (simp add: add_all_def)
  next
    case False
    with Cons.prems sink_ok [of b xs] have "room (add b xs) < length (concat xss)" by auto
    with Cons.IH [of "add b xs"] Cons.prems show ?thesis by (simp add: add_all_def sink_inv)
  qed
qed

text \<open>Success at the end is success throughout, and then nothing was lost.\<close>

lemma add_all_faithful:
  assumes "inv b" "\<not> failed (add_all b xss)"
  shows "contents (add_all b xss) = contents b @ concat xss"
    and "length (concat xss) \<le> room b"
proof -
  from assms show fits: "length (concat xss) \<le> room b"
    using add_all_over by (metis leI)
  from assms have "\<not> failed b" using add_all_sticky by blast
  with assms(1) fits show "contents (add_all b xss) = contents b @ concat xss"
    using add_all_ok by blast
qed

end

abbreviation granted :: "nat \<Rightarrow> bool" where
  "granted \<equiv> (\<lambda>_. True)"

interpretation sink: byte_sink "ncfg_buf_add granted" ncfg_buf_failed buf_contents buf_room buf_inv
proof unfold_locales
  show "buf_inv b \<Longrightarrow> buf_inv (ncfg_buf_add granted b xs)" for b xs
    by (rule buf_inv_add)
  show "buf_inv b \<Longrightarrow> \<not> ncfg_buf_failed b \<Longrightarrow> length xs \<le> buf_room b \<Longrightarrow>
      \<not> ncfg_buf_failed (ncfg_buf_add granted b xs) \<and>
      buf_contents (ncfg_buf_add granted b xs) = buf_contents b @ xs \<and>
      buf_room (ncfg_buf_add granted b xs) = buf_room b - length xs" for b xs
    unfolding ncfg_buf_failed_def by (rule add_ok)
  show "buf_inv b \<Longrightarrow> buf_room b < length xs \<Longrightarrow> ncfg_buf_failed (ncfg_buf_add granted b xs)" for b xs
    unfolding ncfg_buf_failed_def by (rule add_over)
  show "ncfg_buf_failed b \<Longrightarrow> ncfg_buf_failed (ncfg_buf_add granted b xs)" for b xs
    by (simp add: ncfg_buf_failed_def add_failed)
qed


subsection \<open>Properties\<close>

lemma blimit_add: "blimit (ncfg_buf_add mem b xs) = blimit b"
  by (simp add: ncfg_buf_add_def reserve_def Let_def buf_put_def split: prod.splits bool.splits)

lemma blimit_foldl_add: "blimit (foldl (ncfg_buf_add mem) b xss) = blimit b"
  by (induction xss arbitrary: b) (simp_all add: blimit_add)

lemma buf_inv_foldl_add: "buf_inv b \<Longrightarrow> buf_inv (foldl (ncfg_buf_add mem) b xss)"
  by (induction xss arbitrary: b) (simp_all add: buf_inv_add)

lemma buf_text_contents: "\<not> bfailed b \<Longrightarrow> ncfg_buf_text b = buf_contents b"
  by (simp add: ncfg_buf_text_def buf_contents_def)

lemma init_fields:
  "\<not> bfailed (ncfg_buf_init limit)" "buf_contents (ncfg_buf_init limit) = []"
  "buf_room (ncfg_buf_init limit) = (if limit \<noteq> 0 then limit else DEFAULT_LIMIT)"
  "blimit (ncfg_buf_init limit) = (if limit \<noteq> 0 then limit else DEFAULT_LIMIT)"
  by (simp_all add: ncfg_buf_init_def buf_contents_def buf_room_def)

text \<open>
  Appending is all or nothing: a fresh buffer given any sequence of appends (with memory
  granted) fails exactly when their total length passes its ceiling -- the caller's, or sixteen
  megabytes where the caller states none -- and otherwise its text is the concatenation of
  everything appended, in order.  A failed buffer hands out no text at all.
\<close>

theorem buf_all_or_nothing:
  "ncfg_buf_failed (foldl (ncfg_buf_add granted) (ncfg_buf_init limit) xss) =
     ((if limit \<noteq> 0 then limit else DEFAULT_LIMIT) < length (concat xss)) \<and>
   ncfg_buf_text (foldl (ncfg_buf_add granted) (ncfg_buf_init limit) xss) =
     (if (if limit \<noteq> 0 then limit else DEFAULT_LIMIT) < length (concat xss) then [] else concat xss)"
proof -
  let ?b = "ncfg_buf_init limit"
  have fold: "foldl (ncfg_buf_add granted) ?b xss = sink.add_all ?b xss"
    by (simp add: sink.add_all_def)
  show ?thesis
  proof (cases "buf_room ?b < length (concat xss)")
    case True
    from sink.add_all_over [OF buf_inv_init True] True show ?thesis
      by (simp add: fold init_fields ncfg_buf_failed_def ncfg_buf_text_def)
  next
    case False
    with sink.add_all_ok [OF buf_inv_init, of limit xss] show ?thesis
      by (simp add: fold init_fields ncfg_buf_failed_def buf_text_contents)
  qed
qed

lemma bcapacity_add_le:
  assumes "buf_inv b" "bcapacity b \<le> max FIRST_CAPACITY (2 * (blimit b + 1))"
  shows "bcapacity (ncfg_buf_add mem b xs) \<le> max FIRST_CAPACITY (2 * (blimit b + 1))"
proof -
  let ?c = "if bcapacity b \<noteq> 0 then bcapacity b else FIRST_CAPACITY"
  have "double_until ?c (blength b + length xs + 1) \<le> max ?c (2 * (blength b + length xs + 1))"
    by (rule double_until_le) (simp add: FIRST_CAPACITY_def)
  with assms show ?thesis
    by (auto simp: ncfg_buf_add_def reserve_def Let_def buf_put_def buf_inv_def FIRST_CAPACITY_def
        split: prod.splits bool.splits if_splits)
qed

lemma bcapacity_foldl_le:
  "buf_inv c \<Longrightarrow> bcapacity c \<le> max FIRST_CAPACITY (2 * (blimit c + 1)) \<Longrightarrow>
     bcapacity (foldl (ncfg_buf_add mem) c xss) \<le> max FIRST_CAPACITY (2 * (blimit c + 1))"
proof (induction xss arbitrary: c)
  case Nil
  then show ?case by simp
next
  case (Cons xs xss)
  from Cons.prems have "bcapacity (ncfg_buf_add mem c xs) \<le> max FIRST_CAPACITY (2 * (blimit c + 1))"
    by (rule bcapacity_add_le)
  with Cons.IH [of "ncfg_buf_add mem c xs"] Cons.prems(1) show ?case
    by (simp only: foldl_Cons blimit_add buf_inv_add)
qed

text \<open>
  Whatever the allocator does, the block a buffer holds is at most twice its ceiling plus the
  terminator (or the first allocation), the text and its terminator fit in it, and the text never
  passes the ceiling.  So for every ceiling below \<open>2 ^ 62\<close> no size computed on the way wraps.
\<close>

theorem buf_capacity_bound:
  "let b = foldl (ncfg_buf_add mem) (ncfg_buf_init limit) xss in
     bcapacity b \<le> max FIRST_CAPACITY (2 * (blimit b + 1)) \<and>
     blength b \<le> blimit b \<and> (bdata b = None \<or> blength b < bcapacity b) \<and>
     length (buf_contents b) = blength b"
proof -
  let ?b = "foldl (ncfg_buf_add mem) (ncfg_buf_init limit) xss"
  have "bcapacity ?b \<le> max FIRST_CAPACITY (2 * (blimit (ncfg_buf_init limit) + 1))"
    by (rule bcapacity_foldl_le) (simp_all only: buf_inv_init, simp add: ncfg_buf_init_def)
  moreover have "buf_inv ?b"
    by (intro buf_inv_foldl_add buf_inv_init)
  ultimately show ?thesis by (auto simp: buf_inv_def blimit_foldl_add)
qed

end
