(* ===== verification/Ncfg_Lex.thy ===== *)
theory Ncfg_Lex
  imports Ncfg_Buf
begin

text \<open>
  The lexer of \<^verbatim>\<open>c/src/compile/lex.c\<close>: a cursor over one file's text that hands out tokens with
  their spans, and the one production that is not tokenised, a hook body taken as raw lines.
  A call returns its result and the cursor after it; a failure is a value of \<open>lex_error\<close> (its
  sentence is \<open>lex_error_text\<close>) and leaves \<open>error_span\<close> on the cursor, as the code does.
  Allocation is granted throughout; the ceiling of the text buffer is kept.
\<close>

subsection \<open>Spans, tokens and the cursor\<close>

record span =
  sp_offset :: nat
  sp_length :: nat
  sp_line :: nat
  sp_column :: nat

datatype token_kind =
    TOKEN_IDENT bytes
  | TOKEN_STRING bytes
  | TOKEN_NUMBER "64 word"
  | TOKEN_BOOL bool
  | TOKEN_LBRACE
  | TOKEN_RBRACE
  | TOKEN_LBRACKET
  | TOKEN_RBRACKET
  | TOKEN_EQUALS
  | TOKEN_COMMA
  | TOKEN_TERMINATOR
  | TOKEN_EOF

record token =
  tkind :: token_kind
  tspan :: span

record lexer =
  ltext :: bytes
  lpos :: nat
  lline :: nat
  lcolumn :: nat
  lerror_span :: span

datatype lex_error =
    Expected_Digits
  | Float_Refused
  | Number_Too_Wide bytes
  | Unterminated_String
  | Unknown_Escape byte
  | Not_Utf8
  | String_Too_Long
  | Unexpected_Character byte
  | Unterminated_Hook
  | Hook_Too_Long

definition ncfg_is_ident_start :: "byte \<Rightarrow> bool" where
  "ncfg_is_ident_start byte \<longleftrightarrow>
     ch CHR ''a'' \<le> byte \<and> byte \<le> ch CHR ''z'' \<or>
     ch CHR ''A'' \<le> byte \<and> byte \<le> ch CHR ''Z'' \<or> byte = ch CHR ''_''"

definition ncfg_is_ident_continue :: "byte \<Rightarrow> bool" where
  "ncfg_is_ident_continue byte \<longleftrightarrow>
     ncfg_is_ident_start byte \<or> ch CHR ''0'' \<le> byte \<and> byte \<le> ch CHR ''9'' \<or>
     byte = ch CHR ''-'' \<or> byte = ch CHR ''.''"

definition peek_byte :: "lexer \<Rightarrow> byte option" where
  "peek_byte lexer =
     (if length (ltext lexer) \<le> lpos lexer then None else Some (ltext lexer ! lpos lexer))"

definition bump :: "lexer \<Rightarrow> byte option \<times> lexer" where
  "bump lexer =
     (case peek_byte lexer of
        None \<Rightarrow> (None, lexer)
      | Some byte \<Rightarrow>
          (Some byte,
           if byte = NL then lexer\<lparr>lpos := lpos lexer + 1, lline := lline lexer + 1, lcolumn := 1\<rparr>
           else lexer\<lparr>lpos := lpos lexer + 1, lcolumn := lcolumn lexer + 1\<rparr>))"

definition span_here :: "lexer \<Rightarrow> span" where
  "span_here lexer =
     \<lparr>sp_offset = lpos lexer, sp_length = 0, sp_line = lline lexer, sp_column = lcolumn lexer\<rparr>"

definition span_to :: "lexer \<Rightarrow> span \<Rightarrow> span" where
  "span_to lexer start = start\<lparr>sp_length := lpos lexer - sp_offset start\<rparr>"

definition fail :: "lexer \<Rightarrow> span \<Rightarrow> lex_error \<Rightarrow> (lex_error + 'a) \<times> lexer" where
  "fail lexer span e = (Inl e, lexer\<lparr>lerror_span := span\<rparr>)"

definition describe_byte :: "byte \<Rightarrow> bytes" where
  "describe_byte byte =
     (if 0x20 \<le> byte \<and> byte < 0x7f then [byte]
      else ascii [CHR 0x5C, CHR ''x''] @
        [hex_digits ! unat (drop_bit 4 byte), hex_digits ! unat (byte AND 0xf)])"

definition NUMBER_SHOWN :: nat where
  "NUMBER_SHOWN = 40"

text \<open>The sentence each failure puts in the error buffer, as \<^verbatim>\<open>ncfg_error_setv\<close> cuts it.\<close>

definition lex_error_text :: "lex_error \<Rightarrow> bytes" where
  "lex_error_text e = snprintf_text NCFG_ERROR_MAX (case e of
       Expected_Digits \<Rightarrow> ascii ''expected digits after `-`''
     | Float_Refused \<Rightarrow> ascii ''numbers in this language are integers: no value in the desired-state document is a float''
     | Number_Too_Wide shown \<Rightarrow> ascii ''number '' @ cstr shown @ ascii '' does not fit in 64 bits''
     | Unterminated_String \<Rightarrow> ascii ''unterminated string: a string runs to its closing quote, across lines if need be''
     | Unknown_Escape byte \<Rightarrow> ascii ''unknown escape `'' @ [ch CHR 0x5C] @ describe_byte byte @
         ascii ''`: the escapes are '' @ ascii [CHR 0x5C, CHR 0x22, CHR '' '', CHR 0x5C, CHR 0x5C] @
         ascii '' '' @ ascii [CHR 0x5C, CHR ''n''] @ ascii '' and '' @ ascii [CHR 0x5C, CHR ''t'']
     | Not_Utf8 \<Rightarrow> ascii ''string is not valid UTF-8''
     | String_Too_Long \<Rightarrow> ascii ''cannot hold a string that long: out of memory, or past the buffer's ceiling''
     | Unexpected_Character byte \<Rightarrow> ascii ''unexpected character `'' @ describe_byte byte @ ascii ''`''
     | Unterminated_Hook \<Rightarrow> ascii ''unterminated hook body: a hook body ends at the first line containing only a closing brace''
     | Hook_Too_Long \<Rightarrow> ascii ''cannot hold a hook body that long: out of memory, or past the buffer's ceiling'')"

text \<open>
  \<^verbatim>\<open>take_text\<close>: the buffer's bytes, the empty text for a buffer that never allocated, and
  nothing for one that failed.
\<close>

definition take_text :: "buf \<Rightarrow> bytes option" where
  "take_text buf =
     (if ncfg_buf_failed buf then None
      else case ncfg_buf_take buf of
        (Some taken, _, _) \<Rightarrow> Some taken
      | (None, _, _) \<Rightarrow> Some [])"

subsection \<open>Scanning loops\<close>

lemma bump_lpos: "peek_byte l = Some b \<Longrightarrow> lpos (snd (bump l)) = lpos l + 1 \<and> lpos l < length (ltext l)"
  by (auto simp: bump_def peek_byte_def split: if_splits)

lemma bump_ltext [simp]: "ltext (snd (bump l)) = ltext l"
  by (simp add: bump_def split: option.splits)

text \<open>\<^verbatim>\<open>while (byte >= 0 && p(byte)) { bump; byte = peek_byte; }\<close>\<close>

function bump_while :: "(byte \<Rightarrow> bool) \<Rightarrow> lexer \<Rightarrow> lexer" where
  "bump_while p lexer =
     (case peek_byte lexer of
        Some byte \<Rightarrow> if p byte then bump_while p (snd (bump lexer)) else lexer
      | None \<Rightarrow> lexer)"
  by pat_completeness auto
termination
  by (relation "measure (\<lambda>(p, l). length (ltext l) - lpos l)") (auto dest!: bump_lpos)

declare bump_while.simps [simp del]

lemma bump_while_lpos: "lpos l \<le> lpos (bump_while p l)"
proof (induction p l rule: bump_while.induct)
  case (1 p l)
  show ?case
  proof (cases "peek_byte l")
    case (Some b)
    with 1 bump_lpos [OF Some] show ?thesis by (fastforce simp: bump_while.simps [of p l])
  qed (simp add: bump_while.simps [of p l])
qed

lemma bump_while_ltext [simp]: "ltext (bump_while p l) = ltext l"
proof (induction p l rule: bump_while.induct)
  case (1 p l)
  then show ?case by (subst bump_while.simps) (auto split: option.splits)
qed

lemma bump_while_lpos_less:
  "peek_byte l = Some b \<Longrightarrow> p b \<Longrightarrow> lpos l < lpos (bump_while p l)"
  using bump_while_lpos [of "snd (bump l)" p] bump_lpos [of l b]
  by (simp add: bump_while.simps [of p l])

function skip_trivia :: "lexer \<Rightarrow> lexer" where
  "skip_trivia lexer =
     (case peek_byte lexer of
        Some byte \<Rightarrow>
          if byte = ch CHR '' '' \<or> byte = 9 \<or> byte = 13 then skip_trivia (snd (bump lexer))
          else if byte = ch CHR ''#'' then skip_trivia (bump_while (\<lambda>next. next \<noteq> NL) lexer)
          else lexer
      | None \<Rightarrow> lexer)"
  by pat_completeness auto
termination
proof (relation "measure (\<lambda>l. length (ltext l) - lpos l)", goal_cases)
  case (3 l b)
  from 3(3) have "b \<noteq> NL" by simp
  with 3(1) have "lpos l < lpos (bump_while (\<lambda>next. next \<noteq> NL) l)" by (rule bump_while_lpos_less)
  moreover from 3(1) have "lpos l < length (ltext l)" by (rule bump_lpos [THEN conjunct2])
  ultimately show ?case by simp
qed (auto dest!: bump_lpos)

declare skip_trivia.simps [simp del]

definition lex_ident :: "lexer \<Rightarrow> span \<Rightarrow> (lex_error + token) \<times> lexer" where
  "lex_ident lexer start =
     (let begin = lpos lexer;
          lexer = bump_while ncfg_is_ident_continue lexer;
          word = slice begin (lpos lexer) (ltext lexer);
          sp = span_to lexer start
      in if word = ascii ''true'' then (Inr \<lparr>tkind = TOKEN_BOOL True, tspan = sp\<rparr>, lexer)
         else if word = ascii ''false'' then (Inr \<lparr>tkind = TOKEN_BOOL False, tspan = sp\<rparr>, lexer)
         else (Inr \<lparr>tkind = TOKEN_IDENT word, tspan = sp\<rparr>, lexer))"

text \<open>The digit loop: the magnitude so far, at 64 bits, and whether it overflowed.\<close>

function lex_digits :: "64 word \<Rightarrow> lexer \<Rightarrow> 64 word \<Rightarrow> bool \<Rightarrow> 64 word \<times> bool \<times> lexer" where
  "lex_digits limit lexer value overflowed =
     (case peek_byte lexer of
        Some byte \<Rightarrow>
          if ch CHR ''0'' \<le> byte \<and> byte \<le> ch CHR ''9'' then
            let digit = ucast (byte - ch CHR ''0'') :: 64 word;
                overflowed = (overflowed \<or> (limit - digit) div 10 < value);
                value = (if overflowed then value else value * 10 + digit)
            in lex_digits limit (snd (bump lexer)) value overflowed
          else (value, overflowed, lexer)
      | None \<Rightarrow> (value, overflowed, lexer))"
  by pat_completeness auto
termination
  by (relation "measure (\<lambda>(limit, l, value, ov). length (ltext l) - lpos l)") (auto dest!: bump_lpos)

declare lex_digits.simps [simp del]

definition INT64_MAX :: "64 word" where
  "INT64_MAX = 0x7fffffffffffffff"

definition lex_number :: "lexer \<Rightarrow> span \<Rightarrow> (lex_error + token) \<times> lexer" where
  "lex_number lexer start =
     (let begin = lpos lexer;
          negative = (peek_byte lexer = Some (ch CHR ''-''));
          lexer = (if negative then snd (bump lexer) else lexer);
          digits_begin = lpos lexer;
          limit = (if negative then INT64_MAX + 1 else INT64_MAX);
          (value, overflowed, lexer) = lex_digits limit lexer 0 False
      in if lpos lexer = digits_begin then fail lexer (span_to lexer start) Expected_Digits
         else if peek_byte lexer = Some (ch CHR ''.'') then
           fail lexer (span_to lexer start) Float_Refused
         else if overflowed then
           fail lexer (span_to lexer start)
             (Number_Too_Wide (take NUMBER_SHOWN (slice begin (lpos lexer) (ltext lexer))))
         else (Inr \<lparr>tkind = TOKEN_NUMBER (if \<not> negative \<or> value = 0 then value
                                         else - (value - 1) - 1),
                    tspan = span_to lexer start\<rparr>, lexer))"

subsection \<open>Strings\<close>

definition utf8_sequence_length :: "byte \<Rightarrow> nat" where
  "utf8_sequence_length lead =
     (if lead < 0x80 then 1
      else if drop_bit 5 lead = 0x06 then 2
      else if drop_bit 4 lead = 0x0e then 3
      else if drop_bit 3 lead = 0x1e then 4
      else 1)"

definition utf8_is_valid :: "bytes \<Rightarrow> bool" where
  "utf8_is_valid bs =
     (let lead = bs ! 0; first = (if 1 < length bs then bs ! 1 else 0) in
      if \<not> list_all (\<lambda>b. 0x80 \<le> b \<and> b \<le> 0xbf) (tl bs) then False
      else if length bs = 1 then lead < 0x80
      else if length bs = 2 then 0xc2 \<le> lead \<and> lead \<le> 0xdf
      else if length bs = 3 then
        (if lead = 0xe0 then 0xa0 \<le> first
         else if lead = 0xed then first \<le> 0x9f
         else 0xe1 \<le> lead \<and> lead \<le> 0xef)
      else if length bs = 4 then
        (if lead = 0xf0 then 0x90 \<le> first
         else if lead = 0xf4 then first \<le> 0x8f
         else 0xf1 \<le> lead \<and> lead \<le> 0xf3)
      else False)"

text \<open>The bytes of a sequence behind its lead, or \<open>None\<close> where the text ran out.\<close>

fun read_sequence :: "nat \<Rightarrow> lexer \<Rightarrow> bytes option \<times> lexer" where
  "read_sequence 0 lexer = (Some [], lexer)"
| "read_sequence (Suc n) lexer =
     (case bump lexer of
        (None, lexer) \<Rightarrow> (None, lexer)
      | (Some byte, lexer) \<Rightarrow>
          (case read_sequence n lexer of
             (None, lexer) \<Rightarrow> (None, lexer)
           | (Some rest, lexer) \<Rightarrow> (Some (byte # rest), lexer)))"

lemma bump_SomeD:
  "bump l = (Some b, l') \<Longrightarrow> ltext l' = ltext l \<and> lpos l' = lpos l + 1 \<and> lpos l < length (ltext l) \<and>
     b = ltext l ! lpos l"
  by (auto simp: bump_def peek_byte_def split: option.splits if_splits)

lemma bump_NoneD: "bump l = (None, l') \<Longrightarrow> l' = l \<and> length (ltext l) \<le> lpos l"
  by (auto simp: bump_def peek_byte_def split: option.splits if_splits)

lemma read_sequence_mono:
  "read_sequence n l = (r, l') \<Longrightarrow> ltext l' = ltext l \<and> lpos l \<le> lpos l'"
proof (induction n arbitrary: l r l')
  case (Suc n)
  then show ?case
    by (fastforce split: prod.splits option.splits dest: bump_SomeD bump_NoneD)
qed simp

definition escape_value :: "byte \<Rightarrow> byte option" where
  "escape_value escaped =
     (if escaped = ch CHR 0x22 then Some (ch CHR 0x22)
      else if escaped = ch CHR 0x5C then Some (ch CHR 0x5C)
      else if escaped = ch CHR ''n'' then Some NL
      else if escaped = ch CHR ''t'' then Some 9
      else None)"

function lex_string_loop :: "lexer \<Rightarrow> span \<Rightarrow> buf \<Rightarrow> (lex_error + buf) \<times> lexer" where
  "lex_string_loop lexer start text =
     (case bump lexer of
        (None, lexer) \<Rightarrow> fail lexer (span_to lexer start) Unterminated_String
      | (Some byte, lexer) \<Rightarrow>
          if byte = ch CHR 0x22 then (Inr text, lexer)
          else if byte = ch CHR 0x5C then
            (let escape = span_here lexer in
             case bump lexer of
               (None, lexer) \<Rightarrow> fail lexer (span_to lexer start) Unterminated_String
             | (Some escaped, lexer) \<Rightarrow>
                 (case escape_value escaped of
                    Some value \<Rightarrow>
                      lex_string_loop lexer start (ncfg_buf_add_char granted text value)
                  | None \<Rightarrow> fail lexer (escape\<lparr>sp_length := 1\<rparr>) (Unknown_Escape escaped)))
          else
            (case read_sequence (utf8_sequence_length byte - 1) lexer of
               (None, lexer) \<Rightarrow> fail lexer (span_to lexer start) Unterminated_String
             | (Some rest, lexer) \<Rightarrow>
                 if \<not> utf8_is_valid (byte # rest) then
                   fail lexer (span_to lexer start) Not_Utf8
                 else lex_string_loop lexer start (ncfg_buf_add granted text (byte # rest))))"
  by pat_completeness auto
termination
  by (relation "measure (\<lambda>(l, start, text). length (ltext l) - lpos l)")
    (auto dest!: bump_SomeD [OF sym] read_sequence_mono [OF sym])

declare lex_string_loop.simps [simp del]

definition lex_string :: "lexer \<Rightarrow> span \<Rightarrow> (lex_error + token) \<times> lexer" where
  "lex_string lexer start =
     (case lex_string_loop (snd (bump lexer)) start (ncfg_buf_init 0) of
        (Inl e, lexer) \<Rightarrow> (Inl e, lexer)
      | (Inr text, lexer) \<Rightarrow>
          (case take_text text of
             None \<Rightarrow> fail lexer (span_to lexer start) String_Too_Long
           | Some taken \<Rightarrow>
               (Inr \<lparr>tkind = TOKEN_STRING taken, tspan = span_to lexer start\<rparr>, lexer)))"

subsection \<open>The entry points\<close>

definition no_span :: span where
  "no_span = \<lparr>sp_offset = 0, sp_length = 0, sp_line = 1, sp_column = 1\<rparr>"

definition ncfg_lexer_init :: "bytes \<Rightarrow> lexer" where
  "ncfg_lexer_init text =
     \<lparr>ltext = text, lpos = 0, lline = 1, lcolumn = 1, lerror_span = no_span\<rparr>"

definition ncfg_lexer_span :: "lexer \<Rightarrow> span" where
  "ncfg_lexer_span lexer = span_here lexer"

definition ncfg_lexer_error_span :: "lexer \<Rightarrow> span" where
  "ncfg_lexer_error_span lexer = lerror_span lexer"

definition punctuation :: "byte \<Rightarrow> token_kind option" where
  "punctuation byte =
     (if byte = NL \<or> byte = ch CHR '';'' then Some TOKEN_TERMINATOR
      else if byte = ch CHR ''{'' then Some TOKEN_LBRACE
      else if byte = ch CHR ''}'' then Some TOKEN_RBRACE
      else if byte = ch CHR ''['' then Some TOKEN_LBRACKET
      else if byte = ch CHR '']'' then Some TOKEN_RBRACKET
      else if byte = ch CHR ''='' then Some TOKEN_EQUALS
      else if byte = ch CHR '','' then Some TOKEN_COMMA
      else None)"

definition ncfg_lexer_next :: "lexer \<Rightarrow> (lex_error + token) \<times> lexer" where
  "ncfg_lexer_next lexer =
     (let lexer = skip_trivia lexer; span = span_here lexer in
      case peek_byte lexer of
        None \<Rightarrow> (Inr \<lparr>tkind = TOKEN_EOF, tspan = span\<rparr>, lexer)
      | Some byte \<Rightarrow>
          (case punctuation byte of
             Some kind \<Rightarrow>
               (let lexer = snd (bump lexer) in (Inr \<lparr>tkind = kind, tspan = span_to lexer span\<rparr>, lexer))
           | None \<Rightarrow>
               if byte = ch CHR 0x22 then lex_string lexer span
               else if byte = ch CHR ''-'' \<or> ch CHR ''0'' \<le> byte \<and> byte \<le> ch CHR ''9'' then
                 lex_number lexer span
               else if ncfg_is_ident_start byte then lex_ident lexer span
               else let lexer = snd (bump lexer) in
                 fail lexer (span_to lexer span) (Unexpected_Character byte)))"

definition ncfg_token_describe :: "nat \<Rightarrow> token \<Rightarrow> bytes" where
  "ncfg_token_describe out_size token = snprintf_text out_size (case tkind token of
       TOKEN_IDENT text \<Rightarrow> ascii ''`'' @ cstr text @ ascii ''`''
     | TOKEN_STRING _ \<Rightarrow> ascii ''a string''
     | TOKEN_NUMBER _ \<Rightarrow> ascii ''a number''
     | TOKEN_BOOL _ \<Rightarrow> ascii ''a boolean''
     | TOKEN_LBRACE \<Rightarrow> ascii ''`{`''
     | TOKEN_RBRACE \<Rightarrow> ascii ''`}`''
     | TOKEN_LBRACKET \<Rightarrow> ascii ''`[`''
     | TOKEN_RBRACKET \<Rightarrow> ascii ''`]`''
     | TOKEN_EQUALS \<Rightarrow> ascii ''`=`''
     | TOKEN_COMMA \<Rightarrow> ascii ''`,`''
     | TOKEN_TERMINATOR \<Rightarrow> ascii ''end of statement''
     | TOKEN_EOF \<Rightarrow> ascii ''end of file'')"

subsection \<open>Hook bodies\<close>

definition is_space :: "byte \<Rightarrow> bool" where
  "is_space one \<longleftrightarrow>
     one = ch CHR '' '' \<or> one = 9 \<or> one = 13 \<or> one = 10 \<or> one = 11 \<or> one = 12"

definition is_closing_line :: "bytes \<Rightarrow> bool" where
  "is_closing_line line =
     (let line = rev (dropWhile is_space (rev line)) in dropWhile is_space line = [ch CHR ''}''])"

text \<open>\<^verbatim>\<open>byte = bump; while (byte >= 0 && byte != '\n') byte = bump;\<close>\<close>

function scan_line :: "lexer \<Rightarrow> lexer" where
  "scan_line lexer =
     (case bump lexer of
        (None, lexer) \<Rightarrow> lexer
      | (Some byte, lexer) \<Rightarrow> if byte = NL then lexer else scan_line lexer)"
  by pat_completeness auto
termination
  by (relation "measure (\<lambda>l. length (ltext l) - lpos l)") (auto dest!: bump_SomeD[OF sym])

declare scan_line.simps [simp del]

lemma scan_line_mono: "ltext (scan_line l) = ltext l \<and> lpos l \<le> lpos (scan_line l)"
proof (induction l rule: scan_line.induct)
  case (1 l)
  show ?case
  proof (cases "bump l")
    case (Pair r l')
    with 1 [OF Pair [symmetric]] show ?thesis
      by (cases r) (force simp: scan_line.simps [of l] dest: bump_SomeD bump_NoneD)+
  qed
qed

lemma scan_line_less: "lpos l < length (ltext l) \<Longrightarrow> lpos l < lpos (scan_line l)"
proof (cases "bump l")
  case (Pair r l')
  assume "lpos l < length (ltext l)"
  with Pair obtain b where "r = Some b" by (cases r) (auto dest: bump_NoneD)
  with Pair show ?thesis
    using scan_line_mono [of l'] by (auto simp: scan_line.simps [of l] dest: bump_SomeD)
qed

function hook_body_loop :: "lexer \<Rightarrow> span \<Rightarrow> buf \<Rightarrow> (lex_error + buf) \<times> lexer" where
  "hook_body_loop lexer opened body =
     (if length (ltext lexer) \<le> lpos lexer then
        fail lexer (opened\<lparr>sp_length := length (ltext lexer) - sp_offset opened\<rparr>) Unterminated_Hook
      else
        let line_begin = lpos lexer;
            lexer = scan_line lexer;
            line = slice line_begin (lpos lexer) (ltext lexer)
        in if is_closing_line line then (Inr body, lexer)
           else hook_body_loop lexer opened (ncfg_buf_add granted body line))"
  by pat_completeness auto
termination
proof (relation "measure (\<lambda>(l, opened, body). length (ltext l) - lpos l)", goal_cases)
  case (2 l opened body line_begin l' line)
  then have "lpos l < lpos l'" by (simp add: scan_line_less)
  with 2 show ?case by (simp add: scan_line_mono)
qed simp

declare hook_body_loop.simps [simp del]

definition ncfg_lexer_hook_body :: "lexer \<Rightarrow> (lex_error + bytes) \<times> lexer" where
  "ncfg_lexer_hook_body lexer =
     (let opened = span_here lexer in
      case hook_body_loop lexer opened (ncfg_buf_init 0) of
        (Inl e, lexer) \<Rightarrow> (Inl e, lexer)
      | (Inr body, lexer) \<Rightarrow>
          (case take_text body of
             None \<Rightarrow> fail lexer (opened\<lparr>sp_length := lpos lexer - sp_offset opened\<rparr>) Hook_Too_Long
           | Some text \<Rightarrow> (Inr text, lexer)))"

end
