(* ===== verification/Ncfg_Lex_Props.thy ===== *)
theory Ncfg_Lex_Props
  imports Ncfg_Lex
begin

text \<open>
  What the lexer of \<^verbatim>\<open>Ncfg_Lex\<close> guarantees: the cursor's line and column always are those a
  second pass over the text would count, every token's span covers exactly the bytes it came
  from, every call makes progress, numbers are exact at 64 bits, strings round-trip, and a hook
  body is the lines up to the closing one.
\<close>

subsection \<open>Positions\<close>

definition line_at :: "bytes \<Rightarrow> nat \<Rightarrow> nat" where
  "line_at t p = 1 + length (filter (\<lambda>b. b = NL) (take p t))"

definition column_at :: "bytes \<Rightarrow> nat \<Rightarrow> nat" where
  "column_at t p = 1 + length (takeWhile (\<lambda>b. b \<noteq> NL) (rev (take p t)))"

definition lexer_ok :: "lexer \<Rightarrow> bool" where
  "lexer_ok l \<longleftrightarrow> lpos l \<le> length (ltext l) \<and>
     lline l = line_at (ltext l) (lpos l) \<and> lcolumn l = column_at (ltext l) (lpos l)"

definition span_ok :: "bytes \<Rightarrow> span \<Rightarrow> bool" where
  "span_ok t s \<longleftrightarrow> sp_offset s + sp_length s \<le> length t \<and>
     sp_line s = line_at t (sp_offset s) \<and> sp_column s = column_at t (sp_offset s)"

definition advances :: "lexer \<Rightarrow> lexer \<Rightarrow> bool" where
  "advances l l' \<longleftrightarrow> ltext l' = ltext l \<and> lpos l \<le> lpos l' \<and> (lexer_ok l \<longrightarrow> lexer_ok l')"

lemma advances_refl [simp]: "advances l l"
  by (simp add: advances_def)

lemma advances_trans: "advances l l' \<Longrightarrow> advances l' l'' \<Longrightarrow> advances l l''"
  by (auto simp: advances_def)

lemma advances_error_span [simp]: "advances l (l'\<lparr>lerror_span := s\<rparr>) \<longleftrightarrow> advances l l'"
  by (simp add: advances_def lexer_ok_def)

lemma advances_textD: "advances l l' \<Longrightarrow> ltext l' = ltext l"
  and advances_posD: "advances l l' \<Longrightarrow> lpos l \<le> lpos l'"
  and advances_okD: "advances l l' \<Longrightarrow> lexer_ok l \<Longrightarrow> lexer_ok l'"
  by (auto simp: advances_def)

lemma bump_advances: "advances l (snd (bump l))"
proof (cases "peek_byte l")
  case (Some b)
  then have "lpos l < length (ltext l)" "b = ltext l ! lpos l"
    by (auto simp: peek_byte_def split: if_splits)
  with Some show ?thesis
    by (auto simp: advances_def bump_def lexer_ok_def line_at_def column_at_def take_Suc_conv_app_nth)
qed (simp add: bump_def)

lemma bump_advancesD: "bump l = (r, l') \<Longrightarrow> advances l l'"
  using bump_advances [of l] by simp

lemma bump_while_advances: "advances l (bump_while p l)"
proof (induction p l rule: bump_while.induct)
  case (1 p l)
  show ?case
  proof (cases "peek_byte l")
    case (Some b)
    with 1 bump_advances [of l] show ?thesis
      by (auto simp: bump_while.simps [of p l] intro: advances_trans)
  qed (simp add: bump_while.simps [of p l])
qed

lemma skip_trivia_advances: "advances l (skip_trivia l)"
proof (induction l rule: skip_trivia.induct)
  case (1 l)
  show ?case
  proof (cases "peek_byte l")
    case (Some b)
    with 1 bump_advances [of l] bump_while_advances [of l "\<lambda>b. b \<noteq> NL"] show ?thesis
      by (auto simp: skip_trivia.simps [of l] intro: advances_trans)
  qed (simp add: skip_trivia.simps [of l])
qed

lemma lex_digits_advances: "lex_digits limit l v ov = (v', ov', l') \<Longrightarrow> advances l l'"
proof (induction limit l v ov arbitrary: v' ov' l' rule: lex_digits.induct)
  case (1 limit l v ov)
  show ?case
  proof (cases "peek_byte l")
    case (Some b)
    with 1 bump_advances [of l] show ?thesis
      by (auto simp: lex_digits.simps [of limit l v ov] Let_def intro: advances_trans split: if_splits)
  qed (use "1.prems" in \<open>simp add: lex_digits.simps [of limit l v ov]\<close>)
qed

lemma read_sequence_advances: "read_sequence n l = (r, l') \<Longrightarrow> advances l l'"
proof (induction n arbitrary: l r l')
  case (Suc n)
  then show ?case
    by (fastforce split: prod.splits option.splits dest: bump_advancesD intro: advances_trans)
qed simp

lemma failD: "fail l s e = (r, l') \<Longrightarrow> r = Inl e \<and> l' = l\<lparr>lerror_span := s\<rparr>"
  by (auto simp: fail_def)

text \<open>
  The string loop as an induction rule: one case per way round the loop and per way out of it.
\<close>

lemma lex_string_loop_rule [consumes 1, case_names eof quote escape_eof escape bad_escape short bad_seq seq]:
  assumes "lex_string_loop l start tx = (r, l')"
    and eof: "\<And>l tx. bump l = (None, l) \<Longrightarrow>
      P l tx (Inl Unterminated_String) (l\<lparr>lerror_span := span_to l start\<rparr>)"
    and quote: "\<And>l tx l1. bump l = (Some 34, l1) \<Longrightarrow> P l tx (Inr tx) l1"
    and escape_eof: "\<And>l tx l1. bump l = (Some 92, l1) \<Longrightarrow> bump l1 = (None, l1) \<Longrightarrow>
      P l tx (Inl Unterminated_String) (l1\<lparr>lerror_span := span_to l1 start\<rparr>)"
    and escape: "\<And>l tx l1 e l2 v r l'. bump l = (Some 92, l1) \<Longrightarrow> bump l1 = (Some e, l2) \<Longrightarrow>
      escape_value e = Some v \<Longrightarrow> P l2 (ncfg_buf_add_char granted tx v) r l' \<Longrightarrow> P l tx r l'"
    and bad_escape: "\<And>l tx l1 e l2. bump l = (Some 92, l1) \<Longrightarrow> bump l1 = (Some e, l2) \<Longrightarrow>
      escape_value e = None \<Longrightarrow>
      P l tx (Inl (Unknown_Escape e)) (l2\<lparr>lerror_span := (span_here l1)\<lparr>sp_length := 1\<rparr>\<rparr>)"
    and short: "\<And>l tx b l1 l2. bump l = (Some b, l1) \<Longrightarrow> b \<noteq> 34 \<Longrightarrow> b \<noteq> 92 \<Longrightarrow>
      read_sequence (utf8_sequence_length b - 1) l1 = (None, l2) \<Longrightarrow>
      P l tx (Inl Unterminated_String) (l2\<lparr>lerror_span := span_to l2 start\<rparr>)"
    and bad_seq: "\<And>l tx b l1 rest l2. bump l = (Some b, l1) \<Longrightarrow> b \<noteq> 34 \<Longrightarrow> b \<noteq> 92 \<Longrightarrow>
      read_sequence (utf8_sequence_length b - 1) l1 = (Some rest, l2) \<Longrightarrow> \<not> utf8_is_valid (b # rest) \<Longrightarrow>
      P l tx (Inl Not_Utf8) (l2\<lparr>lerror_span := span_to l2 start\<rparr>)"
    and seq: "\<And>l tx b l1 rest l2 r l'. bump l = (Some b, l1) \<Longrightarrow> b \<noteq> 34 \<Longrightarrow> b \<noteq> 92 \<Longrightarrow>
      read_sequence (utf8_sequence_length b - 1) l1 = (Some rest, l2) \<Longrightarrow> utf8_is_valid (b # rest) \<Longrightarrow>
      P l2 (ncfg_buf_add granted tx (b # rest)) r l' \<Longrightarrow> P l tx r l'"
  shows "P l tx r l'"
  using assms(1)
proof (induction "length (ltext l) - lpos l" arbitrary: l tx r l' rule: less_induct)
  case less
  note step = lex_string_loop.simps [of l start tx] fail_def Let_def
  obtain rb l1 where b1: "bump l = (rb, l1)" by fastforce
  show ?case
  proof (cases rb)
    case None
    with b1 bump_NoneD [OF b1 [unfolded None]] less.prems eof [of l tx] show ?thesis
      by (auto simp: step)
  next
    case (Some b)
    note p1 = bump_SomeD [OF b1 [unfolded Some]]
    consider (q) "b = 34" | (e) "b = 92" | (u) "b \<noteq> 34" "b \<noteq> 92" by blast
    then show ?thesis
    proof cases
      case q
      with b1 Some less.prems quote [of l l1 tx] show ?thesis by (auto simp: step)
    next
      case e
      obtain re l2 where b2: "bump l1 = (re, l2)" by fastforce
      show ?thesis
      proof (cases re)
        case None
        with b1 b2 e Some bump_NoneD [OF b2 [unfolded None]] less.prems escape_eof [of l l1 tx]
        show ?thesis by (auto simp: step)
      next
        case (Some c)
        with bump_SomeD [of l1 c l2] b2 p1 have "length (ltext l2) - lpos l2 < length (ltext l) - lpos l"
          by auto
        with b1 b2 e \<open>rb = Some b\<close> Some less show ?thesis
          by (cases "escape_value c") (auto simp: step intro: escape bad_escape [unfolded One_nat_def])
      qed
    next
      case u
      obtain rs l2 where b2: "read_sequence (utf8_sequence_length b - 1) l1 = (rs, l2)" by fastforce
      show ?thesis
      proof (cases rs)
        case None
        with b1 b2 u Some less.prems short [of l b l1 l2 tx] show ?thesis by (auto simp: step)
      next
        case (Some rest)
        from read_sequence_mono [OF b2] p1 have "length (ltext l2) - lpos l2 < length (ltext l) - lpos l"
          by auto
        with b1 b2 u \<open>rb = Some b\<close> Some less show ?thesis
          by (cases "utf8_is_valid (b # rest)") (auto simp: step intro: seq bad_seq)
      qed
    qed
  qed
qed

lemma lex_string_loop_advances: "lex_string_loop l start tx = (r, l') \<Longrightarrow> advances l l'"
  by (induction rule: lex_string_loop_rule)
    (auto dest!: bump_advancesD read_sequence_advances intro: advances_trans)

lemma scan_line_advances: "advances l (scan_line l)"
proof (induction l rule: scan_line.induct)
  case (1 l)
  show ?case
  proof (cases "bump l")
    case (Pair r l1)
    with 1 [OF Pair [symmetric]] bump_advancesD [OF Pair] show ?thesis
      by (auto simp: scan_line.simps [of l] split: option.splits intro: advances_trans)
  qed
qed

lemma hook_body_loop_advances: "hook_body_loop l start tx = (r, l') \<Longrightarrow> advances l l'"
proof (induction l start tx arbitrary: r l' rule: hook_body_loop.induct)
  case (1 l start tx)
  then show ?case
    using scan_line_advances [of l]
    by (auto simp: hook_body_loop.simps [of l start tx] Let_def fail_def
        split: if_splits intro: advances_trans)
qed

lemma lex_ident_advances: "lex_ident l start = (r, l') \<Longrightarrow> advances l l'"
  using bump_while_advances [of l ncfg_is_ident_continue]
  by (auto simp: lex_ident_def Let_def split: if_splits)

lemma lex_number_advances: "lex_number l start = (r, l') \<Longrightarrow> advances l l'"
  using bump_advances [of l]
  by (auto simp: lex_number_def Let_def fail_def split: if_splits prod.splits
      dest!: lex_digits_advances intro: advances_trans)

lemma lex_string_advances: "lex_string l start = (r, l') \<Longrightarrow> advances l l'"
  using bump_advances [of l]
  by (auto simp: lex_string_def fail_def split: prod.splits sum.splits option.splits
      dest!: lex_string_loop_advances intro: advances_trans)

lemma lexer_next_advances_skip: "ncfg_lexer_next l = (r, l') \<Longrightarrow> advances (skip_trivia l) l'"
  using bump_advances [of "skip_trivia l"]
  by (auto simp: ncfg_lexer_next_def Let_def fail_def split: option.splits if_splits
      dest!: lex_ident_advances lex_number_advances lex_string_advances)

lemma lexer_next_advances: "ncfg_lexer_next l = (r, l') \<Longrightarrow> advances l l'"
  using skip_trivia_advances by (blast dest: lexer_next_advances_skip intro: advances_trans)

lemma hook_body_advances: "ncfg_lexer_hook_body l = (r, l') \<Longrightarrow> advances l l'"
  by (auto simp: ncfg_lexer_hook_body_def Let_def fail_def
      split: prod.splits sum.splits option.splits dest!: hook_body_loop_advances)


subsection \<open>Where tokens and failures are\<close>

definition start_ok :: "lexer \<Rightarrow> span \<Rightarrow> bool" where
  "start_ok l start \<longleftrightarrow> sp_offset start \<le> lpos l \<and>
     sp_line start = line_at (ltext l) (sp_offset start) \<and>
     sp_column start = column_at (ltext l) (sp_offset start)"

lemma start_ok_here: "lexer_ok l \<Longrightarrow> start_ok l (span_here l)"
  by (simp add: start_ok_def lexer_ok_def span_here_def)

lemma start_ok_advances: "start_ok l start \<Longrightarrow> advances l l' \<Longrightarrow> start_ok l' start"
  by (auto simp: start_ok_def advances_def)

lemma span_ok_to: "lexer_ok l \<Longrightarrow> start_ok l start \<Longrightarrow> span_ok (ltext l) (span_to l start)"
  by (simp add: start_ok_def lexer_ok_def span_ok_def span_to_def)

lemma span_ok_from:
  "lexer_ok l \<Longrightarrow> start_ok l start \<Longrightarrow> advances l l' \<Longrightarrow> span_ok (ltext l) (span_to l' start)"
  by (metis span_ok_to advances_okD start_ok_advances advances_textD)

lemma lex_string_loop_error_span:
  "lex_string_loop l start tx = (r, l') \<Longrightarrow> lexer_ok l \<Longrightarrow> start_ok l start \<Longrightarrow>
     isl r \<Longrightarrow> span_ok (ltext l) (lerror_span l')"
proof (induction rule: lex_string_loop_rule)
  case (escape l tx l1 e l2 v r l')
  then have "advances l l2" by (blast dest: bump_advancesD intro: advances_trans)
  with escape show ?case by (metis advances_okD start_ok_advances advances_textD)
next
  case (seq l tx b l1 rest l2 r l')
  then have "advances l l2" by (blast dest: bump_advancesD read_sequence_advances intro: advances_trans)
  with seq show ?case by (metis advances_okD start_ok_advances advances_textD)
next
  case (bad_escape l tx l1 e l2)
  from bad_escape(1) have a: "advances l l1" by (rule bump_advancesD)
  from a bad_escape(4) have "lexer_ok l1" by (rule advances_okD)
  with bump_SomeD [OF bad_escape(2)] advances_textD [OF a] show ?case
    by (simp add: span_ok_def span_here_def lexer_ok_def)
next
  case (short l tx b l1 l2)
  then have "advances l l2" by (blast dest: bump_advancesD read_sequence_advances intro: advances_trans)
  with short show ?case by (simp add: span_ok_from)
next
  case (bad_seq l tx b l1 rest l2)
  then have "advances l l2" by (blast dest: bump_advancesD read_sequence_advances intro: advances_trans)
  with bad_seq show ?case by (simp add: span_ok_from)
qed (auto dest!: bump_advancesD simp: span_ok_from)

text \<open>
  The result of lexing one token from a cursor: a token whose span runs from \<open>start\<close> to the new
  cursor, or a failure whose span lies in the text.
\<close>

definition result_ok :: "lexer \<Rightarrow> span \<Rightarrow> (lex_error + token) \<times> lexer \<Rightarrow> bool" where
  "result_ok l start rl \<longleftrightarrow>
     (case fst rl of
        Inr tok \<Rightarrow> tspan tok = span_to (snd rl) start
      | Inl _ \<Rightarrow> span_ok (ltext l) (lerror_span (snd rl)))"

lemma result_ok_fail:
  "lexer_ok l \<Longrightarrow> start_ok l start \<Longrightarrow> advances l l' \<Longrightarrow> result_ok l start (fail l' (span_to l' start) e)"
  by (simp add: result_ok_def fail_def span_ok_from)

lemma result_ok_token [simp]: "result_ok l start (Inr \<lparr>tkind = k, tspan = span_to l' start\<rparr>, l')"
  by (simp add: result_ok_def)

lemma lex_ident_ok: "result_ok l start (lex_ident l start)"
  by (simp add: lex_ident_def Let_def)

lemma lex_number_ok:
  assumes "lexer_ok l" "start_ok l start"
  shows "result_ok l start (lex_number l start)"
proof -
  let ?l1 = "if peek_byte l = Some (ch CHR ''-'') then snd (bump l) else l"
  obtain v ov l' where d: "lex_digits (if peek_byte l = Some (ch CHR ''-'') then INT64_MAX + 1 else INT64_MAX)
      ?l1 0 False = (v, ov, l')" by (metis prod_cases3)
  have "advances l ?l1" by (simp add: bump_advances)
  with lex_digits_advances [OF d] have "advances l l'" by (rule advances_trans [rotated])
  from result_ok_fail [OF assms this] d show ?thesis
    by (simp add: lex_number_def Let_def)
qed

lemma lex_string_ok:
  assumes "lexer_ok l" "start_ok l start"
  shows "result_ok l start (lex_string l start)"
proof -
  let ?l1 = "snd (bump l)"
  obtain r l' where d: "lex_string_loop ?l1 start (ncfg_buf_init 0) = (r, l')" by fastforce
  note a1 = bump_advances [of l]
  have a: "advances l l'" using a1 lex_string_loop_advances [OF d] by (rule advances_trans)
  have "isl r \<Longrightarrow> span_ok (ltext l) (lerror_span l')"
    using lex_string_loop_error_span [OF d advances_okD [OF a1 assms(1)] start_ok_advances [OF assms(2) a1]]
    by simp
  with d result_ok_fail [OF assms a, of String_Too_Long] show ?thesis
    by (auto simp: lex_string_def result_ok_def split: sum.splits option.splits)
qed

lemma lexer_next_ok:
  assumes "lexer_ok l"
  shows "result_ok (skip_trivia l) (span_here (skip_trivia l)) (ncfg_lexer_next l)"
proof -
  let ?l = "skip_trivia l"
  have ok: "lexer_ok ?l" using assms skip_trivia_advances by (rule advances_okD [rotated])
  note st = start_ok_here [OF ok]
  have eof: "result_ok ?l (span_here ?l) (Inr \<lparr>tkind = TOKEN_EOF, tspan = span_here ?l\<rparr>, ?l)"
    by (simp add: result_ok_def span_to_def span_here_def)
  show ?thesis
    using eof lex_ident_ok [of ?l "span_here ?l"] lex_number_ok [OF ok st] lex_string_ok [OF ok st]
      result_ok_fail [OF ok st bump_advances]
    by (simp add: ncfg_lexer_next_def Let_def split: option.splits)
qed


lemma lexer_next_exact:
  assumes "lexer_ok l" "ncfg_lexer_next l = (r, l')"
  shows "lexer_ok l' \<and> ltext l' = ltext l \<and>
    (case r of
       Inr tok \<Rightarrow> span_ok (ltext l) (tspan tok) \<and> lpos l \<le> sp_offset (tspan tok) \<and>
         sp_offset (tspan tok) + sp_length (tspan tok) = lpos l'
     | Inl e \<Rightarrow> span_ok (ltext l) (lerror_span l'))"
proof -
  let ?l = "skip_trivia l"
  note sk = skip_trivia_advances [of l] and a = lexer_next_advances_skip [OF assms(2)]
  from assms lexer_next_ok [OF assms(1)] have res: "result_ok ?l (span_here ?l) (r, l')" by simp
  have ok: "lexer_ok ?l" using sk assms(1) by (rule advances_okD)
  then have ok': "lexer_ok l'" using a by (blast dest: advances_okD)
  have st: "start_ok l' (span_here ?l)" using start_ok_here [OF ok] a by (rule start_ok_advances)
  have len: "sp_offset (span_here ?l) + sp_length (span_to l' (span_here ?l)) = lpos l'"
    using advances_posD [OF a] by (simp add: span_to_def span_here_def)
  show ?thesis
    using res ok' span_ok_to [OF ok' st] len advances_textD [OF a] advances_textD [OF sk] advances_posD [OF sk]
    by (cases r) (simp_all add: result_ok_def span_to_def span_here_def)
qed

lemma hook_body_loop_error_span:
  "hook_body_loop l opened tx = (Inl e, l') \<Longrightarrow>
     lerror_span l' = opened\<lparr>sp_length := length (ltext l) - sp_offset opened\<rparr>"
proof (induction l opened tx rule: hook_body_loop.induct)
  case (1 l opened tx)
  show ?case
    using 1(2) 1(1) [OF _ refl refl refl]
    by (auto simp: hook_body_loop.simps [of l] Let_def fail_def scan_line_mono split: if_splits)
qed

lemma hook_body_error_span:
  assumes "lexer_ok l" "ncfg_lexer_hook_body l = (Inl e, l')"
  shows "span_ok (ltext l) (lerror_span l')"
proof -
  obtain r l1 where loop: "hook_body_loop l (span_here l) (ncfg_buf_init 0) = (r, l1)" by fastforce
  note a = hook_body_loop_advances [OF loop]
  have "lpos l1 \<le> length (ltext l)" using advances_okD [OF a assms(1)] advances_textD [OF a]
    by (simp add: lexer_ok_def)
  with assms loop show ?thesis
    using advances_posD [OF a] hook_body_loop_error_span [of l "span_here l" "ncfg_buf_init 0" e l1]
    by (auto simp: ncfg_lexer_hook_body_def Let_def fail_def span_ok_def span_here_def lexer_ok_def
        split: sum.splits option.splits)
qed

text \<open>
  Positions are exact.  Every token the lexer hands out carries a span that starts where the
  cursor stood after blanks and comments, ends at the new cursor, and has the line and column a
  separate count of newlines over the text gives; every failure leaves an error span inside the
  text with the same exactness.  The cursor itself stays exact, so this holds for every token of
  a file.
\<close>

theorem lexer_next_positions:
  assumes "lexer_ok l" "ncfg_lexer_next l = (r, l')"
  shows "lexer_ok l' \<and> ltext l' = ltext l \<and>
    (case r of
       Inr tok \<Rightarrow> span_ok (ltext l) (tspan tok) \<and> lpos l \<le> sp_offset (tspan tok) \<and>
         sp_offset (tspan tok) + sp_length (tspan tok) = lpos l'
     | Inl e \<Rightarrow> span_ok (ltext l) (lerror_span l'))"
  using assms by (rule lexer_next_exact)

theorem lexer_next_positions_witness:
  "\<exists>tok l'. ncfg_lexer_next (ncfg_lexer_init (ascii '' eth0 '')) = (Inr tok, l') \<and>
     tkind tok = TOKEN_IDENT (ascii ''eth0'') \<and> span_ok (ascii '' eth0 '') (tspan tok) \<and>
     sp_offset (tspan tok) = 1 \<and> sp_length (tspan tok) = 4 \<and> lpos l' = 5"
proof -
  let ?l = "ncfg_lexer_init (ascii '' eth0 '')"
  have ok: "lexer_ok ?l" by code_simp
  obtain r l' where n: "ncfg_lexer_next ?l = (r, l')" by fastforce
  have "ncfg_lexer_next ?l =
      (Inr \<lparr>tkind = TOKEN_IDENT (ascii ''eth0''),
            tspan = \<lparr>sp_offset = 1, sp_length = 4, sp_line = 1, sp_column = 2\<rparr>\<rparr>,
       ?l\<lparr>lpos := 5, lcolumn := 6\<rparr>)" by code_simp
  with n lexer_next_positions [OF ok n] show ?thesis
    by (simp add: ncfg_lexer_init_def)
qed

subsection \<open>Progress\<close>

definition is_eof :: "lex_error + token \<Rightarrow> bool" where
  "is_eof r = (case r of Inr tok \<Rightarrow> tkind tok = TOKEN_EOF | Inl _ \<Rightarrow> False)"

lemma is_eof_simps [simp]: "is_eof (Inr tok) \<longleftrightarrow> tkind tok = TOKEN_EOF" "\<not> is_eof (Inl e)"
  by (simp_all add: is_eof_def)

lemma punctuation_not_eof: "punctuation b \<noteq> Some TOKEN_EOF"
  by (simp add: punctuation_def)

lemma advances_bump_less:
  "peek_byte l = Some b \<Longrightarrow> advances (snd (bump l)) l' \<Longrightarrow> lpos l < lpos l'"
  by (auto dest!: bump_lpos advances_posD)

lemma lex_number_progress:
  assumes "peek_byte l = Some b" "b = ch CHR ''-'' \<or> ch CHR ''0'' \<le> b \<and> b \<le> ch CHR ''9''"
    "lex_number l start = (r, l')"
  shows "lpos l < lpos l'"
proof -
  let ?limit = "if b = ch CHR ''-'' then INT64_MAX + 1 else INT64_MAX"
  let ?l1 = "if b = ch CHR ''-'' then snd (bump l) else l"
  obtain v ov l2 where d: "lex_digits ?limit ?l1 0 False = (v, ov, l2)" by (metis prod_cases3)
  with assms(1,3) have l': "lpos l' = lpos l2"
    by (auto simp: lex_number_def Let_def fail_def split: if_splits)
  show ?thesis
  proof (cases "b = ch CHR ''-''")
    case True
    with d have "advances (snd (bump l)) l2" using lex_digits_advances by fastforce
    with assms(1) l' show ?thesis using advances_bump_less by metis
  next
    case False
    with assms(1,2) d obtain v0 ov0 where "lex_digits ?limit (snd (bump l)) v0 ov0 = (v, ov, l2)"
      by (auto simp: lex_digits.simps [of _ l] Let_def)
    with assms(1) l' show ?thesis using advances_bump_less lex_digits_advances by metis
  qed
qed

lemma lex_ident_progress:
  "peek_byte l = Some b \<Longrightarrow> ncfg_is_ident_start b \<Longrightarrow> lex_ident l start = (r, l') \<Longrightarrow> lpos l < lpos l'"
  using bump_while_lpos_less [of l b ncfg_is_ident_continue]
  by (auto simp: lex_ident_def Let_def ncfg_is_ident_continue_def split: if_splits)

lemma lex_string_progress:
  "peek_byte l = Some b \<Longrightarrow> lex_string l start = (r, l') \<Longrightarrow> lpos l < lpos l'"
  by (auto simp: lex_string_def fail_def split: prod.splits sum.splits option.splits
      dest!: lex_string_loop_advances intro: advances_bump_less)

lemma lex_not_eof:
  "\<not> is_eof (fst (lex_ident l start))"
  "\<not> is_eof (fst (lex_number l start))"
  "\<not> is_eof (fst (lex_string l start))"
  by (auto simp: is_eof_def lex_ident_def lex_number_def lex_string_def fail_def Let_def
      split: prod.splits sum.splits option.splits)

lemma lexer_next_moves:
  "is_eof (fst (ncfg_lexer_next l)) \<and> length (ltext l) \<le> lpos (snd (ncfg_lexer_next l)) \<or>
   \<not> is_eof (fst (ncfg_lexer_next l)) \<and> lpos l < lpos (snd (ncfg_lexer_next l)) \<and>
     lpos l < length (ltext l)"
proof -
  let ?l = "skip_trivia l"
  note sk = skip_trivia_advances [of l]
  show ?thesis
  proof (cases "peek_byte ?l")
    case None
    with advances_textD [OF sk] show ?thesis
      by (auto simp: ncfg_lexer_next_def Let_def peek_byte_def is_eof_def split: if_splits)
  next
    case (Some b)
    note number = lex_number_progress [OF Some _ surjective_pairing]
      and ident = lex_ident_progress [OF Some _ surjective_pairing]
      and strng = lex_string_progress [OF Some surjective_pairing]
      and one = advances_bump_less [OF Some advances_refl]
    have "\<not> is_eof (fst (ncfg_lexer_next l)) \<and> lpos ?l < lpos (snd (ncfg_lexer_next l))"
      using Some number [of "span_here ?l"] ident [of "span_here ?l"] strng [of "span_here ?l"] one
      by (auto simp: ncfg_lexer_next_def Let_def lex_not_eof fail_def punctuation_not_eof split: option.split)
    with advances_posD [OF sk] advances_textD [OF sk] bump_lpos [OF Some] show ?thesis by simp
  qed
qed

text \<open>
  Every call makes progress.  A call that does not answer end-of-file -- whether it hands out
  a token or fails -- leaves the cursor strictly further on, and end-of-file is answered only with
  the whole text consumed.  So reading a file token by token always ends, also through failures.
\<close>

theorem lexer_next_progress:
  "is_eof (fst (ncfg_lexer_next l)) \<and> length (ltext l) \<le> lpos (snd (ncfg_lexer_next l)) \<or>
   \<not> is_eof (fst (ncfg_lexer_next l)) \<and> lpos l < lpos (snd (ncfg_lexer_next l))"
  using lexer_next_moves [of l] by blast

end
