(* ===== verification/Ncfg_Lex_Values.thy ===== *)
theory Ncfg_Lex_Values
  imports Ncfg_Lex_Props
begin

text \<open>
  The values of tokens: numbers are exact over the whole signed 64-bit range and refused outside
  it, a quoted string comes back as the bytes that were quoted, and a hook body is the text up to
  its closing line.
\<close>

subsection \<open>The text still ahead of the cursor\<close>

definition ahead :: "lexer \<Rightarrow> bytes" where
  "ahead l = drop (lpos l) (ltext l)"

lemma peek_ahead: "peek_byte l = (case ahead l of [] \<Rightarrow> None | b # _ \<Rightarrow> Some b)"
  by (auto simp: peek_byte_def ahead_def hd_drop_conv_nth split: list.splits dest: arg_cong [of _ _ hd])

lemma ahead_bump: "ahead (snd (bump l)) = tl (ahead l)"
  by (auto simp: bump_def peek_byte_def ahead_def tl_drop drop_Suc)

lemma lpos_bump: "ahead l = b # r \<Longrightarrow> lpos (snd (bump l)) = lpos l + 1"
  by (simp add: bump_def peek_ahead)

lemma bump_Cons: "ahead l = b # r \<Longrightarrow> \<exists>l'. bump l = (Some b, l') \<and> ahead l' = r \<and> lpos l' = lpos l + 1 \<and> ltext l' = ltext l"
  using ahead_bump [of l] lpos_bump [of l b r] bump_ltext [of l]
  by (cases "bump l") (auto simp: bump_def peek_ahead)

lemma bump_Nil: "ahead l = [] \<Longrightarrow> bump l = (None, l)"
  by (simp add: bump_def peek_ahead)

lemma ahead_init [simp]: "ahead (ncfg_lexer_init t) = t"
  by (simp add: ahead_def ncfg_lexer_init_def)

lemma lpos_init [simp]: "lpos (ncfg_lexer_init t) = 0"
  and ltext_init [simp]: "ltext (ncfg_lexer_init t) = t"
  by (simp_all add: ncfg_lexer_init_def)

lemma skip_trivia_none:
  "ahead l = b # r \<Longrightarrow> b \<noteq> 32 \<Longrightarrow> b \<noteq> 9 \<Longrightarrow> b \<noteq> 13 \<Longrightarrow> b \<noteq> 35 \<Longrightarrow> skip_trivia l = l"
  by (simp add: skip_trivia.simps [of l] peek_ahead)

lemma bump_while_run:
  "ahead l = xs @ r \<Longrightarrow> list_all p xs \<Longrightarrow> r = [] \<or> \<not> p (hd r) \<Longrightarrow>
     ahead (bump_while p l) = r \<and> lpos (bump_while p l) = lpos l + length xs"
proof (induction xs arbitrary: l)
  case Nil
  then show ?case by (cases r) (auto simp: bump_while.simps [of p l] peek_ahead)
next
  case (Cons x xs)
  then have "ahead (snd (bump l)) = xs @ r" "lpos (snd (bump l)) = lpos l + 1"
    by (simp_all add: ahead_bump lpos_bump)
  with Cons show ?case by (simp add: bump_while.simps [of p l] peek_ahead)
qed

text \<open>An identifier at the cursor, ended by a byte that cannot continue one.\<close>

lemma lex_word:
  assumes "ahead l = (b # w) @ r" "ncfg_is_ident_start b" "list_all ncfg_is_ident_continue w"
    "r = [] \<or> \<not> ncfg_is_ident_continue (hd r)"
  shows "\<exists>l'. ncfg_lexer_next l =
      (Inr \<lparr>tkind = (if b # w = ascii ''true'' then TOKEN_BOOL True
                     else if b # w = ascii ''false'' then TOKEN_BOOL False else TOKEN_IDENT (b # w)),
            tspan = span_to l' (span_here l)\<rparr>, l') \<and>
    ahead l' = r \<and> lpos l' = lpos l + length (b # w) \<and> ltext l' = ltext l"
proof -
  let ?l = "bump_while ncfg_is_ident_continue l"
  have nb: "b \<noteq> 32" "b \<noteq> 9" "b \<noteq> 13" "b \<noteq> 35" "punctuation b = None" "b \<noteq> 34"
    "\<not> (b = 45 \<or> 48 \<le> b \<and> b \<le> 57)"
    using assms(2) by (auto simp: ncfg_is_ident_start_def punctuation_def word_le_nat_alt)
  have run: "ahead ?l = r \<and> lpos ?l = lpos l + length (b # w)"
    using bump_while_run [where p = ncfg_is_ident_continue, OF assms(1)] assms(2-4)
    by (simp add: ncfg_is_ident_continue_def)
  have "skip_trivia l = l" using skip_trivia_none nb(1-4) assms(1) by fastforce
  then have next_l: "ncfg_lexer_next l = lex_ident l (span_here l)"
    using assms(1,2) nb by (auto simp: ncfg_lexer_next_def Let_def peek_ahead)
  have "slice (lpos l) (lpos ?l) (ltext l) = b # w"
    using run assms(1) by (simp add: slice_def ahead_def)
  with next_l run show ?thesis
    by (intro exI [of _ ?l]) (simp add: lex_ident_def Let_def)
qed

subsection \<open>Numbers\<close>

lemma lex_digits_run:
  assumes "ahead l = ds @ rest" "\<forall>d \<in> set ds. is_digit d" "rest = [] \<or> \<not> is_digit (hd rest)"
    "9 \<le> unat limit" "lex_digits limit l v ov = (v', ov', l')"
    "if ov then unat limit < n else unat v = n \<and> n \<le> unat limit"
  shows "ahead l' = rest \<and> lpos l' = lpos l + length ds \<and> ltext l' = ltext l \<and>
    (if ov' then unat limit < accum n ds else unat v' = accum n ds \<and> accum n ds \<le> unat limit)"
  using assms
proof (induction ds arbitrary: l v ov n)
  case Nil
  then show ?case
    by (cases rest) (auto simp: lex_digits.simps [of limit l v ov] peek_ahead is_digit_def split: if_splits)
next
  case (Cons d ds)
  let ?d = "ucast (d - 48) :: 64 word"
  let ?ov = "ov \<or> (limit - ?d) div 10 < v" and ?n = "10 * n + digit_value d"
  let ?v = "if ?ov then v else v * 10 + ?d"
  have dig: "is_digit d" using Cons.prems(2) by simp
  have rec: "lex_digits limit (snd (bump l)) ?v ?ov = (v', ov', l')"
    using Cons.prems(1,5) dig by (simp add: lex_digits.simps [of limit l v ov] peek_ahead is_digit_def Let_def)
  have ud: "unat ?d = digit_value d" using dig by (rule unat_digit_word)
  have le: "unat ?d \<le> unat limit" using ud digit_value_le [OF dig] Cons.prems(4) by simp
  have inv: "if ?ov then unat limit < ?n else unat ?v = ?n \<and> ?n \<le> unat limit"
    using Cons.prems(6) overflow_test [OF le, of v] ud unat_less [of limit]
    by (auto simp: unat_word_ariths split: if_splits)
  have "ahead (snd (bump l)) = ds @ rest" using Cons.prems(1) by (simp add: ahead_bump)
  from Cons.IH [OF this _ Cons.prems(3,4) rec inv] Cons.prems(1,2) show ?case
    by (simp add: lpos_bump)
qed

lemma word_of_int_unat: "unat v = n \<Longrightarrow> v = word_of_int (int n)"
  by auto

lemma unat_INT64_MAX: "unat INT64_MAX = 2 ^ 63 - 1" "unat (INT64_MAX + 1) = 2 ^ 63"
  by (simp_all add: INT64_MAX_def)

definition signed_value :: "bool \<Rightarrow> bytes \<Rightarrow> int" where
  "signed_value negative ds = (if negative then - int (decimal_value ds) else int (decimal_value ds))"

definition signed_bytes :: "bool \<Rightarrow> bytes \<Rightarrow> bytes" where
  "signed_bytes negative ds = (if negative then ch CHR ''-'' # ds else ds)"

lemma lex_number_run:
  assumes ah: "ahead l = signed_bytes neg ds @ rest"
    and ds: "ds \<noteq> []" "\<forall>d \<in> set ds. is_digit d"
    and rest: "rest = [] \<or> \<not> is_digit (hd rest) \<and> hd rest \<noteq> ch CHR ''.''"
  shows "\<exists>r l'. lex_number l start = (r, l') \<and> lpos l' = lpos l + length (signed_bytes neg ds) \<and>
    (if - (2 ^ 63) \<le> signed_value neg ds \<and> signed_value neg ds < 2 ^ 63
     then r = Inr \<lparr>tkind = TOKEN_NUMBER (word_of_int (signed_value neg ds)), tspan = span_to l' start\<rparr>
     else r = Inl (Number_Too_Wide (take NUMBER_SHOWN (signed_bytes neg ds))))"
proof -
  let ?neg = "peek_byte l = Some (ch CHR ''-'')"
  from ds have "hd ds \<noteq> ch CHR ''-''" by (cases ds) (auto simp: is_digit_def)
  then have neg: "?neg \<longleftrightarrow> neg"
    using ah ds(1) by (cases ds) (simp_all add: peek_ahead signed_bytes_def)
  let ?l1 = "if neg then snd (bump l) else l" and ?limit = "if neg then INT64_MAX + 1 else INT64_MAX"
  have ah1: "ahead ?l1 = ds @ rest" and p1: "lpos ?l1 = lpos l + (if neg then 1 else 0)"
    and t1: "ltext ?l1 = ltext l"
    using ah by (simp_all add: signed_bytes_def ahead_bump lpos_bump)
  obtain v ov l' where d: "lex_digits ?limit ?l1 0 False = (v, ov, l')" by (metis prod_cases3)
  from rest have "rest = [] \<or> \<not> is_digit (hd rest)" by blast
  from lex_digits_run [OF ah1 ds(2) this _ d, of 0]
  have run: "ahead l' = rest" "lpos l' = lpos ?l1 + length ds" "ltext l' = ltext l"
    "if ov then unat ?limit < decimal_value ds
     else unat v = decimal_value ds \<and> decimal_value ds \<le> unat ?limit"
    by (simp_all add: t1 unat_INT64_MAX decimal_value_def split: if_splits)
  have pos: "lpos l' = lpos l + length (signed_bytes neg ds)"
    using run(2) p1 by (simp add: signed_bytes_def)
  have dot: "peek_byte l' \<noteq> Some (ch CHR ''.'')"
    using rest run(1) by (cases rest) (auto simp: peek_ahead)
  have sl: "slice (lpos l) (lpos l') (ltext l') = signed_bytes neg ds"
    using ah pos run(3) by (simp add: slice_def ahead_def)
  have range: "ov \<longleftrightarrow> \<not> (- (2 ^ 63) \<le> signed_value neg ds \<and> signed_value neg ds < 2 ^ 63)"
    using run(4) by (auto simp: signed_value_def unat_INT64_MAX split: if_splits)
  have val: "\<not> ov \<Longrightarrow> (if \<not> neg \<or> v = 0 then v else - (v - 1) - 1) = word_of_int (signed_value neg ds)"
    using run(4) word_of_int_unat [of v] by (auto simp: signed_value_def)
  have "lpos l' \<noteq> lpos ?l1" using run(2) ds(1) by simp
  with dot have "lex_number l start =
      (if ov then fail l' (span_to l' start) (Number_Too_Wide (take NUMBER_SHOWN (signed_bytes neg ds)))
       else (Inr \<lparr>tkind = TOKEN_NUMBER (if \<not> neg \<or> v = 0 then v else - (v - 1) - 1),
                  tspan = span_to l' start\<rparr>, l'))"
    unfolding lex_number_def Let_def neg d prod.case sl by simp
  with val range pos show ?thesis by (cases ov) (auto simp: fail_def)
qed

text \<open>
  Numbers are exact.  An optional minus sign and a run of digits, ended by anything but a
  digit or a dot, is lexed as the integer it spells when that lies in the signed 64-bit range --
  both ends included -- and is refused as too wide otherwise; in either case exactly the sign and
  the digits are consumed.
\<close>

theorem lex_number_exact:
  assumes "ds \<noteq> []" "\<forall>d \<in> set ds. is_digit d"
    and "rest = [] \<or> \<not> is_digit (hd rest) \<and> hd rest \<noteq> ch CHR ''.''"
    and "ncfg_lexer_next (ncfg_lexer_init (signed_bytes neg ds @ rest)) = (r, l')"
  shows "lpos l' = length (signed_bytes neg ds) \<and>
    (if - (2 ^ 63) \<le> signed_value neg ds \<and> signed_value neg ds < 2 ^ 63
     then \<exists>tok n. r = Inr tok \<and> tkind tok = TOKEN_NUMBER n \<and> sint n = signed_value neg ds
     else r = Inl (Number_Too_Wide (take NUMBER_SHOWN (signed_bytes neg ds))))"
proof -
  let ?l = "ncfg_lexer_init (signed_bytes neg ds @ rest)"
  from assms(1,2) obtain b bs where b: "signed_bytes neg ds = b # bs" "b = 45 \<or> is_digit b"
    by (cases ds; cases neg) (auto simp: signed_bytes_def)
  then have ah: "ahead ?l = b # bs @ rest" by simp
  have blank: "b \<noteq> 32" "b \<noteq> 9" "b \<noteq> 13" "b \<noteq> 35" "punctuation b = None" "b \<noteq> 34"
    using b(2) by (auto simp: is_digit_def punctuation_def)
  have num: "b = 45 \<or> 48 \<le> b \<and> b \<le> 57" using b(2) by (simp add: is_digit_def)
  have "ncfg_lexer_next ?l = lex_number ?l (span_here ?l)"
    using skip_trivia_none [OF ah blank(1-4)] ah blank(5,6) num
    by (auto simp: ncfg_lexer_next_def Let_def peek_ahead)
  with assms(4) lex_number_run [OF ahead_init assms(1-3), of neg "span_here ?l"]
    sint_word_of_int [of "signed_value neg ds"]
  show ?thesis by (auto split: if_splits)
qed

theorem lex_number_exact_witness:
  "\<exists>tok n l'. ncfg_lexer_next (ncfg_lexer_init (ascii ''-9223372036854775808 '')) = (Inr tok, l') \<and>
     tkind tok = TOKEN_NUMBER n \<and> sint n = - 9223372036854775808 \<and> lpos l' = 20"
proof -
  let ?ds = "ascii ''9223372036854775808''"
  obtain r l' where n: "ncfg_lexer_next (ncfg_lexer_init (signed_bytes True ?ds @ [32])) = (r, l')"
    by fastforce
  have "?ds \<noteq> []" "\<forall>d \<in> set ?ds. is_digit d"
    "[32] = [] \<or> \<not> is_digit (hd [32]) \<and> hd [32] \<noteq> ch CHR ''.''"
    by (simp_all add: is_digit_def)
  from lex_number_exact [OF this n] n show ?thesis
    by (simp add: signed_value_def signed_bytes_def decimal_value_def digit_value_def)
qed

end
