(* ===== verification/Ncfg_Render.thy ===== *)
theory Ncfg_Render
  imports Ncfg_Lex_Values
begin

text \<open>
  Writing values the lexer reads back: the escape loop, quoting, block labels and list rendering
  of \<^verbatim>\<open>c/src/compile/render.c\<close>, and the round trip through the lexer.
\<close>

subsection \<open>Operations\<close>

text \<open>\<^verbatim>\<open>value\<close> is a C string: the loop stops at its NUL.\<close>

definition add_escaped :: "buf \<Rightarrow> bytes \<Rightarrow> buf" where
  "add_escaped out value =
     foldl (\<lambda>out at. ncfg_buf_add_char granted
              (if at = ch CHR 0x5C \<or> at = ch CHR 0x22 then ncfg_buf_add_char granted out (ch CHR 0x5C) else out) at)
       out (cstr value)"

definition ncfg_render_quote :: "buf \<Rightarrow> bytes \<Rightarrow> buf" where
  "ncfg_render_quote out value =
     ncfg_buf_add_char granted
       (add_escaped (ncfg_buf_add_char granted out (ch CHR 0x22)) value) (ch CHR 0x22)"

definition ncfg_render_label :: "buf \<Rightarrow> bytes \<Rightarrow> buf" where
  "ncfg_render_label out name =
     (let bytes = cstr name;
          bare = (bytes \<noteq> [] \<and> ncfg_is_ident_start (hd bytes) \<and>
                  list_all ncfg_is_ident_continue (tl bytes))
      in if bare then ncfg_buf_add_text granted out bytes else ncfg_render_quote out bytes)"

record render_list =
  rl_joined :: buf
  rl_count :: nat

definition ncfg_render_list_init :: render_list where
  "ncfg_render_list_init = \<lparr>rl_joined = ncfg_buf_init 0, rl_count = 0\<rparr>"

definition ncfg_render_list_next :: "render_list \<Rightarrow> render_list" where
  "ncfg_render_list_next list =
     list\<lparr>rl_joined := (if 0 < rl_count list then ncfg_buf_add_text granted (rl_joined list) (ascii '', '')
                       else rl_joined list),
          rl_count := rl_count list + 1\<rparr>"

definition ncfg_render_list_emit :: "buf \<Rightarrow> bytes \<Rightarrow> bytes \<Rightarrow> render_list \<Rightarrow> bool \<Rightarrow> buf" where
  "ncfg_render_list_emit body indent key list always_bracket =
     (if rl_count list = 0 then body
      else let body = ncfg_buf_addf granted body (Some (cstr indent @ cstr key @ ascii '' = '')) in
        if always_bracket \<or> 1 < rl_count list then
          ncfg_buf_addf granted body (Some (ascii ''['' @ cstr (ncfg_buf_text (rl_joined list)) @ ascii '']'' @ [NL]))
        else ncfg_buf_addf granted body (Some (cstr (ncfg_buf_text (rl_joined list)) @ [NL])))"

subsection \<open>UTF-8 text\<close>

function utf8_text :: "bytes \<Rightarrow> bool" where
  "utf8_text [] = True"
| "utf8_text (b # bs) =
     (let n = utf8_sequence_length b in
      n \<le> length (b # bs) \<and> utf8_is_valid (take n (b # bs)) \<and> utf8_text (drop n (b # bs)))"
  by pat_completeness auto
termination
  by (relation "measure length") (auto simp: utf8_sequence_length_def)

declare utf8_text.simps(2) [simp del]

lemma utf8_sequence_length_pos: "0 < utf8_sequence_length b"
  by (simp add: utf8_sequence_length_def)

lemma utf8_text_Cons:
  "utf8_text (b # bs) \<longleftrightarrow> (\<exists>rest s. bs = rest @ s \<and> length rest = utf8_sequence_length b - 1 \<and>
     utf8_is_valid (b # rest) \<and> utf8_text s)"
proof -
  obtain n where n: "utf8_sequence_length b = Suc n"
    using utf8_sequence_length_pos [of b] by (cases "utf8_sequence_length b") auto
  show ?thesis
    by (auto simp: utf8_text.simps(2) n)
      (metis append_take_drop_id length_take min.absorb2)
qed

lemma utf8_text_induct [consumes 1, case_names Nil seq]:
  assumes "utf8_text s" "P []"
    "\<And>b rest s. length rest = utf8_sequence_length b - 1 \<Longrightarrow> utf8_is_valid (b # rest) \<Longrightarrow>
       utf8_text s \<Longrightarrow> P s \<Longrightarrow> P (b # rest @ s)"
  shows "P s"
  using assms(1)
proof (induction "length s" arbitrary: s rule: less_induct)
  case less
  show ?case
  proof (cases s)
    case Nil
    with assms(2) show ?thesis by simp
  next
    case (Cons b bs)
    with less.prems obtain rest t where "bs = rest @ t" "length rest = utf8_sequence_length b - 1"
      "utf8_is_valid (b # rest)" "utf8_text t"
      by (auto simp: utf8_text_Cons)
    with Cons less.hyps [of t] assms(3) show ?thesis by simp
  qed
qed

lemma utf8_text_seq:
  "length rest = utf8_sequence_length b - 1 \<Longrightarrow> utf8_is_valid (b # rest) \<Longrightarrow> utf8_text s \<Longrightarrow>
     utf8_text (b # rest @ s)"
  by (auto simp: utf8_text_Cons)

lemma utf8_text_append: "utf8_text s \<Longrightarrow> utf8_text t \<Longrightarrow> utf8_text (s @ t)"
  by (induction rule: utf8_text_induct) (simp_all add: utf8_text_seq)

lemma utf8_text_ascii: "b < 0x80 \<Longrightarrow> utf8_text [b]"
  by (simp add: utf8_text.simps(2) utf8_sequence_length_def utf8_is_valid_def)

lemma utf8_tail_high:
  "utf8_is_valid (b # rest) \<Longrightarrow> c \<in> set rest \<Longrightarrow> 0x80 \<le> c"
  by (auto simp: utf8_is_valid_def Let_def list_all_iff split: if_splits)

subsection \<open>The escaped text\<close>

definition escaped :: "bytes \<Rightarrow> bytes" where
  "escaped s = concat (map (\<lambda>b. if b = 92 \<or> b = 34 then [92, b] else [b]) s)"

lemma escaped_simps [simp]:
  "escaped [] = []"
  "escaped (b # s) = (if b = 92 \<or> b = 34 then [92, b] else [b]) @ escaped s"
  "escaped (s @ t) = escaped s @ escaped t"
  by (simp_all add: escaped_def)

lemma escaped_high: "(\<And>c. c \<in> set s \<Longrightarrow> 0x80 \<le> c) \<Longrightarrow> escaped s = s"
proof (induction s)
  case (Cons b s)
  then have "0x80 \<le> b" by simp
  then have "b \<noteq> 92" "b \<noteq> 34" by auto
  with Cons show ?case by simp
qed simp

lemma read_sequence_run:
  "ahead l = xs @ r \<Longrightarrow> \<exists>l'. read_sequence (length xs) l = (Some xs, l') \<and> ahead l' = r \<and> ltext l' = ltext l"
proof (induction xs arbitrary: l)
  case (Cons x xs)
  then obtain l1 where "bump l = (Some x, l1)" "ahead l1 = xs @ r" "ltext l1 = ltext l"
    using bump_Cons [of l x "xs @ r"] by auto
  with Cons.IH [of l1] show ?case by auto
qed simp

lemma escape_value_self: "b = 92 \<or> b = 34 \<Longrightarrow> escape_value b = Some b"
  by (auto simp: escape_value_def)

lemma lex_string_loop_escaped:
  "utf8_text s \<Longrightarrow> ahead l = escaped s @ 34 # r \<Longrightarrow>
     \<exists>chunks l'. lex_string_loop l start tx = (Inr (sink.add_all tx chunks), l') \<and>
       concat chunks = s \<and> ahead l' = r \<and> ltext l' = ltext l"
proof (induction s arbitrary: l tx rule: utf8_text_induct)
  case Nil
  then obtain l1 where "bump l = (Some 34, l1)" "ahead l1 = r" "ltext l1 = ltext l"
    using bump_Cons [of l 34 r] by auto
  then show ?case
    by (intro exI [of _ "[]"]) (simp add: lex_string_loop.simps [of l] sink.add_all_def)
next
  case (seq b rest s)
  show ?case
  proof (cases "b = 92 \<or> b = 34")
    case True
    with seq(1) have [simp]: "rest = []" by (auto simp: utf8_sequence_length_def)
    from True seq.prems obtain l1 where l1: "bump l = (Some 92, l1)" "ahead l1 = b # escaped s @ 34 # r"
        "ltext l1 = ltext l"
      using bump_Cons [of l 92 "b # escaped s @ 34 # r"] by auto
    then obtain l2 where l2: "bump l1 = (Some b, l2)" "ahead l2 = escaped s @ 34 # r" "ltext l2 = ltext l"
      using bump_Cons [of l1] by auto
    from seq.IH [OF l2(2), of "ncfg_buf_add_char granted tx b"] obtain chunks l' where
      "lex_string_loop l2 start (ncfg_buf_add_char granted tx b) =
         (Inr (sink.add_all (ncfg_buf_add_char granted tx b) chunks), l')"
      "concat chunks = s" "ahead l' = r" "ltext l' = ltext l2" by blast
    with l1 l2 escape_value_self [OF True] show ?thesis
      by (intro exI [of _ "[b] # chunks"])
        (simp add: lex_string_loop.simps [of l] sink.add_all_def ncfg_buf_add_char_def)
  next
    case False
    have "ahead l = b # rest @ escaped s @ 34 # r"
      using seq.prems False escaped_high [of rest] utf8_tail_high [OF seq(2)] by simp
    from bump_Cons [OF this] obtain l1 where l1: "bump l = (Some b, l1)"
        "ahead l1 = rest @ escaped s @ 34 # r" "ltext l1 = ltext l"
      by auto
    from read_sequence_run [OF l1(2)] obtain l2 where l2: "read_sequence (length rest) l1 = (Some rest, l2)"
        "ahead l2 = escaped s @ 34 # r" "ltext l2 = ltext l"
      using l1(3) by auto
    from seq.IH [OF l2(2), of "ncfg_buf_add granted tx (b # rest)"] obtain chunks l' where
      "lex_string_loop l2 start (ncfg_buf_add granted tx (b # rest)) =
         (Inr (sink.add_all (ncfg_buf_add granted tx (b # rest)) chunks), l')"
      "concat chunks = s" "ahead l' = r" "ltext l' = ltext l2" by blast
    with l1 l2 False seq(1,2) show ?thesis
      by (intro exI [of _ "(b # rest) # chunks"])
        (simp add: lex_string_loop.simps [of l] sink.add_all_def)
  qed
qed

lemma take_text_contents:
  "buf_inv b \<Longrightarrow> take_text b = (if bfailed b then None else Some (buf_contents b))"
  by (auto simp: take_text_def ncfg_buf_failed_def ncfg_buf_take_def buf_contents_def split: option.split)

text \<open>A quoted text at the cursor is one string token, or too long for the text buffer.\<close>

lemma lex_quoted:
  assumes "utf8_text s" "ahead l = 34 # escaped s @ 34 # r"
  shows "\<exists>l'. ncfg_lexer_next l =
      (if length s \<le> DEFAULT_LIMIT
       then (Inr \<lparr>tkind = TOKEN_STRING s, tspan = span_to l' (span_here l)\<rparr>, l')
       else fail l' (span_to l' (span_here l)) String_Too_Long) \<and> ahead l' = r \<and> ltext l' = ltext l"
proof -
  have sk: "skip_trivia l = l" by (rule skip_trivia_none [OF assms(2)]) simp_all
  then have next_l: "ncfg_lexer_next l = lex_string l (span_here l)"
    using assms(2) by (simp add: ncfg_lexer_next_def Let_def peek_ahead punctuation_def)
  from bump_Cons [OF assms(2)] obtain l1 where l1: "bump l = (Some 34, l1)" "ahead l1 = escaped s @ 34 # r"
      "ltext l1 = ltext l" by auto
  from lex_string_loop_escaped [OF assms(1) l1(2)] obtain chunks l' where loop:
    "lex_string_loop l1 (span_here l) (ncfg_buf_init 0) = (Inr (sink.add_all (ncfg_buf_init 0) chunks), l')"
    "concat chunks = s" "ahead l' = r" "ltext l' = ltext l1" by blast
  let ?b = "sink.add_all (ncfg_buf_init 0) chunks"
  have inv: "buf_inv ?b" by (intro sink.add_all_inv buf_inv_init)
  have "take_text ?b = (if length s \<le> DEFAULT_LIMIT then Some s else None)"
    using take_text_contents [OF inv] sink.add_all_ok [OF buf_inv_init, of 0 chunks]
      sink.add_all_over [OF buf_inv_init, of 0 chunks] loop(2)
    by (simp add: init_fields ncfg_buf_failed_def)
  with next_l l1 loop show ?thesis
    by (intro exI [of _ l']) (simp add: lex_string_def fail_def)
qed

lemma add_escaped_all: "add_escaped out v = sink.add_all out (map (\<lambda>b. [b]) (escaped (cstr v)))"
proof -
  have "foldl (\<lambda>out at. ncfg_buf_add_char granted
              (if at = ch CHR 0x5C \<or> at = ch CHR 0x22 then ncfg_buf_add_char granted out (ch CHR 0x5C) else out) at)
         out s = sink.add_all out (map (\<lambda>b. [b]) (escaped s))" for s
    by (induction s arbitrary: out) (simp_all add: sink.add_all_def ncfg_buf_add_char_def)
  then show ?thesis by (simp add: add_escaped_def)
qed

lemma render_quote_all:
  "ncfg_render_quote out v = sink.add_all out (map (\<lambda>b. [b]) (34 # escaped (cstr v) @ [34]))"
  by (simp add: ncfg_render_quote_def add_escaped_all sink.add_all_def ncfg_buf_add_char_def)

lemma concat_singletons [simp]: "concat (map (\<lambda>b. [b]) s) = s"
  by (induction s) simp_all

lemma sink_text:
  assumes "\<not> ncfg_buf_failed (sink.add_all (ncfg_buf_init 0) xss)"
  shows "ncfg_buf_text (sink.add_all (ncfg_buf_init 0) xss) = concat xss"
  using assms sink.add_all_faithful(1) [OF buf_inv_init assms]
  by (simp add: ncfg_buf_failed_def buf_text_contents init_fields)

lemma length_escaped: "length s \<le> length (escaped s)"
  by (induction s) auto

text \<open>
  C20.  Quoting round-trips.  Any UTF-8 text without a NUL, quoted by the renderer into a buffer
  that did not fail, is read back by the lexer as exactly one string token holding that text, with
  nothing left over: no byte of a value can end the quotes early or change meaning.
\<close>

theorem render_quote_roundtrip:
  assumes "utf8_text s" "0 \<notin> set s"
    and "\<not> ncfg_buf_failed (ncfg_render_quote (ncfg_buf_init 0) s)"
  shows "\<exists>tok l'. ncfg_lexer_next (ncfg_lexer_init (ncfg_buf_text (ncfg_render_quote (ncfg_buf_init 0) s))) =
      (Inr tok, l') \<and> tkind tok = TOKEN_STRING s \<and> lpos l' = length (ltext l')"
proof -
  let ?xs = "34 # escaped s @ [34]"
  from assms(3) have ok: "\<not> ncfg_buf_failed (sink.add_all (ncfg_buf_init 0) (map (\<lambda>b. [b]) ?xs))"
    by (simp only: render_quote_all cstr_id [OF assms(2)] not_False_eq_True)
  have text_eq: "ncfg_buf_text (ncfg_render_quote (ncfg_buf_init 0) s) = ?xs"
    using sink_text [OF ok] by (simp only: render_quote_all cstr_id [OF assms(2)] concat_singletons)
  have "length ?xs \<le> DEFAULT_LIMIT"
    using sink.add_all_faithful(2) [OF buf_inv_init ok] by (simp add: init_fields)
  with length_escaped [of s] have fits: "length s \<le> DEFAULT_LIMIT" by simp
  have "ahead (ncfg_lexer_init ?xs) = 34 # escaped s @ 34 # []" by simp
  from lex_quoted [OF assms(1) this] fits text_eq obtain l' where
    r: "ncfg_lexer_next (ncfg_lexer_init ?xs) =
      (Inr \<lparr>tkind = TOKEN_STRING s, tspan = span_to l' (span_here (ncfg_lexer_init ?xs))\<rparr>, l')"
    "ahead l' = []" by auto
  have "lexer_ok (ncfg_lexer_init ?xs)"
    by (simp add: lexer_ok_def ncfg_lexer_init_def line_at_def column_at_def)
  with lexer_next_advances [OF r(1)] have "lexer_ok l'" by (auto simp: advances_def)
  with r text_eq show ?thesis by (simp add: ahead_def lexer_ok_def)
qed

theorem render_quote_roundtrip_witness:
  "\<exists>tok l'. ncfg_lexer_next (ncfg_lexer_init (ncfg_buf_text (ncfg_render_quote (ncfg_buf_init 0) [97, 34, 92, 0xc3, 0xa9]))) =
      (Inr tok, l') \<and> tkind tok = TOKEN_STRING [97, 34, 92, 0xc3, 0xa9] \<and> lpos l' = length (ltext l')"
proof (rule render_quote_roundtrip)
  show "utf8_text [97, 34, 92, 0xc3, 0xa9]" by code_simp
  show "0 \<notin> set [97, 34, 92, 0xc3, 0xa9 :: byte]" by simp
  show "\<not> ncfg_buf_failed (ncfg_render_quote (ncfg_buf_init 0) [97, 34, 92, 0xc3, 0xa9])" by code_simp
qed

text \<open>
  C39.  What becomes of a rendered label.  A name written by the label writer is read back as that
  same name, bare or quoted -- unless the name is \<^verbatim>\<open>true\<close> or \<^verbatim>\<open>false\<close>: those are written bare,
  because every byte of them may start or continue an identifier, and the lexer then reads a
  boolean.
\<close>

theorem render_label_reads_back:
  assumes "utf8_text s" "0 \<notin> set s"
    and "\<not> ncfg_buf_failed (ncfg_render_label (ncfg_buf_init 0) s)"
  shows "\<exists>tok l'. ncfg_lexer_next (ncfg_lexer_init (ncfg_buf_text (ncfg_render_label (ncfg_buf_init 0) s))) =
      (Inr tok, l') \<and>
      (if s = ascii ''true'' \<or> s = ascii ''false'' then tkind tok = TOKEN_BOOL (s = ascii ''true'')
       else tkind tok = TOKEN_IDENT s \<or> tkind tok = TOKEN_STRING s)"
proof (cases "s \<noteq> [] \<and> ncfg_is_ident_start (hd s) \<and> list_all ncfg_is_ident_continue (tl s)")
  case True
  then obtain b w where s: "s = b # w" "ncfg_is_ident_start b" "list_all ncfg_is_ident_continue w"
    by (cases s) auto
  have lab: "ncfg_render_label (ncfg_buf_init 0) s = sink.add_all (ncfg_buf_init 0) [s]"
    using True by (simp add: ncfg_render_label_def Let_def cstr_id [OF assms(2)] ncfg_buf_add_text_def sink.add_all_def)
  have text_eq: "ncfg_buf_text (ncfg_render_label (ncfg_buf_init 0) s) = s"
    using sink_text [of "[s]"] assms(3) lab by simp
  have "ahead (ncfg_lexer_init s) = (b # w) @ []" using s by simp
  from lex_word [OF this s(2,3)] s(1) text_eq show ?thesis by auto
next
  case False
  then have lab: "ncfg_render_label (ncfg_buf_init 0) s = ncfg_render_quote (ncfg_buf_init 0) s"
    by (auto simp: ncfg_render_label_def Let_def cstr_id [OF assms(2)])
  have kw: "s \<noteq> ascii ''true''" "s \<noteq> ascii ''false''"
    using False by (auto simp: ncfg_is_ident_start_def ncfg_is_ident_continue_def)
  have "\<not> ncfg_buf_failed (sink.add_all (ncfg_buf_init 0) (map (\<lambda>b. [b]) (34 # escaped s @ [34])))"
    using assms(3) lab by (simp only: render_quote_all cstr_id [OF assms(2)] not_False_eq_True)
  note fits = sink.add_all_faithful(2) [OF buf_inv_init this] sink_text [OF this]
  have "ahead (ncfg_lexer_init (34 # escaped s @ [34])) = 34 # escaped s @ 34 # []" by simp
  from lex_quoted [OF assms(1) this] fits lab kw length_escaped [of s] show ?thesis
    by (auto simp: render_quote_all cstr_id [OF assms(2)] init_fields)
qed

theorem render_label_reads_back_witness:
  "\<exists>tok l'. ncfg_lexer_next (ncfg_lexer_init (ncfg_buf_text (ncfg_render_label (ncfg_buf_init 0) (ascii ''true'')))) =
      (Inr tok, l') \<and> tkind tok = TOKEN_BOOL True"
proof -
  have "utf8_text (ascii ''true'')" "0 \<notin> set (ascii ''true'')"
    "\<not> ncfg_buf_failed (ncfg_render_label (ncfg_buf_init 0) (ascii ''true''))"
    by code_simp+
  from render_label_reads_back [OF this] show ?thesis by simp
qed

subsection \<open>Every string token is text\<close>

lemma escape_value_ascii: "escape_value e = Some v \<Longrightarrow> v < 0x80"
  by (auto simp: escape_value_def split: if_splits)

lemma read_sequence_length: "read_sequence n l = (Some rest, l') \<Longrightarrow> length rest = n"
  by (induction n arbitrary: l rest l') (auto split: prod.splits option.splits)

lemma add_utf8:
  "buf_inv tx \<Longrightarrow> bfailed tx \<or> utf8_text (buf_contents tx) \<Longrightarrow> utf8_text xs \<Longrightarrow>
     bfailed (ncfg_buf_add granted tx xs) \<or> utf8_text (buf_contents (ncfg_buf_add granted tx xs))"
  using add_over [of tx xs granted] add_ok [of tx xs] utf8_text_append
  by (cases "bfailed tx"; cases "buf_room tx < length xs") (auto simp: add_failed not_less)

lemma lex_string_loop_utf8:
  "lex_string_loop l start tx = (r, l') \<Longrightarrow> buf_inv tx \<Longrightarrow> bfailed tx \<or> utf8_text (buf_contents tx) \<Longrightarrow>
     case r of Inr tx' \<Rightarrow> buf_inv tx' \<and> (bfailed tx' \<or> utf8_text (buf_contents tx')) | Inl _ \<Rightarrow> True"
proof (induction rule: lex_string_loop_rule)
  case (escape l tx l1 e l2 v r l')
  with add_utf8 [of tx "[v]"] show ?case
    by (simp add: ncfg_buf_add_char_def buf_inv_add escape_value_ascii utf8_text_ascii)
next
  case (seq l tx b l1 rest l2 r l')
  have "utf8_text (b # rest @ [])"
    using seq(4,5) by (intro utf8_text_seq) (auto dest: read_sequence_length)
  with seq add_utf8 [of tx "b # rest"] show ?case by (simp add: buf_inv_add)
qed simp_all

text \<open>
  Every string token is UTF-8.  Whatever bytes a file holds, a string the lexer hands out is
  well-formed UTF-8: no overlong form, no surrogate half, no stray continuation byte and nothing
  above the last code point reaches what is built from the token.
\<close>

theorem lexed_string_utf8:
  assumes "ncfg_lexer_next l = (Inr tok, l')" "tkind tok = TOKEN_STRING s"
  shows "utf8_text s"
proof -
  let ?l = "skip_trivia l"
  from assms have "lex_string ?l (span_here ?l) = (Inr tok, l')"
    by (auto simp: ncfg_lexer_next_def Let_def fail_def lex_ident_def lex_number_def punctuation_def
        split: option.splits if_splits prod.splits)
  then obtain tx l1 where "lex_string_loop (snd (bump ?l)) (span_here ?l) (ncfg_buf_init 0) = (Inr tx, l1)"
      "take_text tx = Some s"
    using assms(2) by (auto simp: lex_string_def fail_def split: prod.splits sum.splits option.splits)
  with lex_string_loop_utf8 [OF this(1) buf_inv_init] show ?thesis
    by (auto simp: init_fields take_text_contents split: if_splits)
qed

theorem lexed_string_utf8_witness:
  "\<exists>tok l'. ncfg_lexer_next (ncfg_lexer_init [34, 0xc3, 0xa9, 34]) = (Inr tok, l') \<and>
     tkind tok = TOKEN_STRING [0xc3, 0xa9] \<and> utf8_text [0xc3, 0xa9]"
proof -
  obtain r l' where n: "ncfg_lexer_next (ncfg_lexer_init [34, 0xc3, 0xa9, 34]) = (r, l')" by fastforce
  have "fst (ncfg_lexer_next (ncfg_lexer_init [34, 0xc3, 0xa9, 34])) =
      Inr \<lparr>tkind = TOKEN_STRING [0xc3, 0xa9],
           tspan = \<lparr>sp_offset = 0, sp_length = 4, sp_line = 1, sp_column = 1\<rparr>\<rparr>" by code_simp
  with n show ?thesis using lexed_string_utf8 [of "ncfg_lexer_init [34, 0xc3, 0xa9, 34]"] by simp
qed

subsection \<open>Hook bodies\<close>

lemma ahead_less: "ahead l \<noteq> [] \<Longrightarrow> lpos l < length (ltext l)"
  by (simp add: ahead_def)

lemma scan_line_run:
  "ahead l = w @ NL # r \<Longrightarrow> NL \<notin> set w \<Longrightarrow>
     ahead (scan_line l) = r \<and> lpos (scan_line l) = lpos l + length w + 1 \<and> ltext (scan_line l) = ltext l"
proof (induction w arbitrary: l)
  case Nil
  with bump_Cons [of l NL r] show ?case by (auto simp: scan_line.simps [of l])
next
  case (Cons x w)
  with bump_Cons [of l x "w @ NL # r"] obtain l1 where
    "bump l = (Some x, l1)" "ahead l1 = w @ NL # r" "lpos l1 = lpos l + 1" "ltext l1 = ltext l" by auto
  with Cons.IH [of l1] Cons.prems(2) show ?case by (auto simp: scan_line.simps [of l])
qed

lemma is_closing_line_NL: "is_closing_line (w @ [NL]) = is_closing_line w"
  by (simp add: is_closing_line_def is_space_def)

lemma scan_line_slice:
  assumes "ahead l = w @ NL # r" "NL \<notin> set w"
  shows "slice (lpos l) (lpos (scan_line l)) (ltext (scan_line l)) = w @ [NL]"
  using scan_line_run [OF assms] assms(1) by (simp add: slice_def ahead_def)

definition as_lines :: "bytes list \<Rightarrow> bytes" where
  "as_lines ls = concat (map (\<lambda>w. w @ [NL]) ls)"

lemma as_lines_simps [simp]: "as_lines [] = []" "as_lines (w # ls) = w @ NL # as_lines ls"
  by (simp_all add: as_lines_def)

lemma hook_body_loop_run:
  "ahead l = as_lines ls @ c @ NL # r \<Longrightarrow> \<forall>w \<in> set ls. NL \<notin> set w \<and> \<not> is_closing_line w \<Longrightarrow>
     NL \<notin> set c \<Longrightarrow> is_closing_line c \<Longrightarrow>
     \<exists>l'. hook_body_loop l start tx = (Inr (sink.add_all tx (map (\<lambda>w. w @ [NL]) ls)), l') \<and> ahead l' = r"
proof (induction ls arbitrary: l tx)
  case Nil
  then have ah: "ahead l = c @ NL # r" by simp
  then have "lpos l < length (ltext l)" by (intro ahead_less) simp
  with scan_line_slice [OF ah Nil.prems(3)] scan_line_run [OF ah Nil.prems(3)] Nil.prems(4) show ?case
    by (simp add: hook_body_loop.simps [of l] Let_def is_closing_line_NL sink.add_all_def)
next
  case (Cons w ls)
  then have ah: "ahead l = w @ NL # (as_lines ls @ c @ NL # r)" and w: "NL \<notin> set w" "\<not> is_closing_line w"
    by simp_all
  from ah have "lpos l < length (ltext l)" by (intro ahead_less) simp
  with scan_line_slice [OF ah w(1)] scan_line_run [OF ah w(1)] w(2) Cons.prems(2-4)
    Cons.IH [of "scan_line l" "ncfg_buf_add granted tx (w @ [NL])"]
  show ?case
    by (simp add: hook_body_loop.simps [of l] Let_def is_closing_line_NL sink.add_all_def)
qed

text \<open>
  A hook body is raw.  Taken at the start of a line, a hook body is exactly the lines before
  the first line that is a closing brace and blanks, byte for byte and newlines included, and the
  cursor is left on the line after it; only a body past the text buffer's ceiling is refused.
\<close>

theorem hook_body_exact:
  assumes "ahead l = as_lines ls @ c @ NL # r"
    and "\<forall>w \<in> set ls. NL \<notin> set w \<and> \<not> is_closing_line w" "NL \<notin> set c" "is_closing_line c"
    and "ncfg_lexer_hook_body l = (result, l')"
  shows "ahead l' = r \<and>
    result = (if length (as_lines ls) \<le> DEFAULT_LIMIT then Inr (as_lines ls) else Inl Hook_Too_Long)"
proof -
  let ?xss = "map (\<lambda>w. w @ [NL]) ls"
  let ?b = "sink.add_all (ncfg_buf_init 0) ?xss"
  obtain l1 where loop: "hook_body_loop l (span_here l) (ncfg_buf_init 0) = (Inr ?b, l1)" "ahead l1 = r"
    using hook_body_loop_run [OF assms(1-4)] by blast
  have "take_text ?b = (if length (as_lines ls) \<le> DEFAULT_LIMIT then Some (as_lines ls) else None)"
    using take_text_contents [OF sink.add_all_inv [OF buf_inv_init]] sink.add_all_ok [OF buf_inv_init, of 0 ?xss]
      sink.add_all_over [OF buf_inv_init, of 0 ?xss]
    by (auto simp: init_fields ncfg_buf_failed_def as_lines_def)
  with loop assms(5) show ?thesis
    by (auto simp: ncfg_lexer_hook_body_def fail_def ahead_def Let_def split: if_splits)
qed

theorem hook_body_exact_witness:
  "fst (ncfg_lexer_hook_body (ncfg_lexer_init (ascii ''logger up'' @ NL # ascii '' } '' @ NL # ascii ''x''))) =
     Inr (ascii ''logger up'' @ [NL])"
proof -
  let ?l = "ncfg_lexer_init (ascii ''logger up'' @ NL # ascii '' } '' @ NL # ascii ''x'')"
  obtain res l' where n: "ncfg_lexer_hook_body ?l = (res, l')" by fastforce
  have ah: "ahead ?l = as_lines [ascii ''logger up''] @ ascii '' } '' @ NL # ascii ''x''" by simp
  have "\<forall>w \<in> set [ascii ''logger up'']. NL \<notin> set w \<and> \<not> is_closing_line w"
    "NL \<notin> set (ascii '' } '')" "is_closing_line (ascii '' } '')"
    by code_simp+
  from hook_body_exact [OF ah this n] n show ?thesis by (simp add: DEFAULT_LIMIT_def)
qed

end
