(* ===== verification/Ncfg_Ast.thy ===== *)
theory Ncfg_Ast
  imports Ncfg_Lex_Props
begin

text \<open>
  The syntax tree of \<^verbatim>\<open>c/include/ncfg/ast.h\<close> and the questions \<^verbatim>\<open>c/src/compile/ast.c\<close> answers about
  it.  A value carries its span in every arm; a block's label is an \<open>option\<close>, because a block with
  an empty label and a block with none are told apart.  A head, a key and a phase come from an
  identifier; a label, a string and a path may hold any bytes.  Releasing a tree has no counterpart
  here.
\<close>

datatype ast_value =
    Ast_String span bytes
  | Ast_Number span "64 word"
  | Ast_Bool span bool
  | Ast_List span "ast_value list"

datatype ast_item =
    Ast_Block ast_block
  | Ast_Assignment bytes ast_value span
  | Ast_Hook bytes bytes span
  | Ast_Include bytes span
and ast_block =
    Block (block_head: bytes) (block_label: "bytes option") (block_overrides: bool)
      (block_items: "ast_item list") (block_span: span)

fun value_span :: "ast_value \<Rightarrow> span" where
  "value_span (Ast_String s _) = s"
| "value_span (Ast_Number s _) = s"
| "value_span (Ast_Bool s _) = s"
| "value_span (Ast_List s _) = s"

fun ncfg_ast_value_describe :: "ast_value \<Rightarrow> bytes" where
  "ncfg_ast_value_describe (Ast_String _ _) = ascii ''a string''"
| "ncfg_ast_value_describe (Ast_Number _ _) = ascii ''a number''"
| "ncfg_ast_value_describe (Ast_Bool _ _) = ascii ''a boolean''"
| "ncfg_ast_value_describe (Ast_List _ _) = ascii ''a list''"

definition ncfg_ast_block_describe :: "nat \<Rightarrow> ast_block \<Rightarrow> bytes" where
  "ncfg_ast_block_describe out_size block = snprintf_text out_size
     (case block_label block of
        Some label \<Rightarrow> cstr (block_head block) @ ascii '' '' @ cstr label
      | None \<Rightarrow> cstr (block_head block))"

definition ncfg_ast_block_same_key :: "ast_block \<Rightarrow> ast_block \<Rightarrow> bool" where
  "ncfg_ast_block_same_key first second =
     (if cstr (block_head first) \<noteq> cstr (block_head second) then False
      else case (block_label first, block_label second) of
        (Some a, Some b) \<Rightarrow> if length a \<noteq> length b then False else take (length a) b = a
      | (None, None) \<Rightarrow> True
      | _ \<Rightarrow> False)"

definition block_key :: "ast_block \<Rightarrow> bytes \<times> bytes option" where
  "block_key block = (cstr (block_head block), block_label block)"

lemma same_key_iff: "ncfg_ast_block_same_key a b \<longleftrightarrow> block_key a = block_key b"
  by (auto simp: ncfg_ast_block_same_key_def block_key_def split: option.splits)

subsection \<open>Nesting\<close>

text \<open>How many braces and brackets are open around the innermost node.\<close>

fun value_depth :: "ast_value \<Rightarrow> nat" where
  "value_depth (Ast_List _ vs) = Suc (fold max (map value_depth vs) 0)"
| "value_depth _ = 0"

fun item_depth :: "ast_item \<Rightarrow> nat" and block_depth :: "ast_block \<Rightarrow> nat" where
  "item_depth (Ast_Block b) = block_depth b"
| "item_depth (Ast_Assignment _ v _) = value_depth v"
| "item_depth (Ast_Hook _ _ _) = 0"
| "item_depth (Ast_Include _ _) = 0"
| "block_depth (Block _ _ _ is _) = Suc (fold max (map item_depth is) 0)"

lemma fold_max_le: "fold max xs (a :: nat) \<le> b \<longleftrightarrow> a \<le> b \<and> (\<forall>x \<in> set xs. x \<le> b)"
  by (induction xs arbitrary: a) auto

subsection \<open>Positions\<close>

fun value_spans :: "ast_value \<Rightarrow> span list" where
  "value_spans (Ast_List s vs) = s # concat (map value_spans vs)"
| "value_spans v = [value_span v]"

fun item_spans :: "ast_item \<Rightarrow> span list" and block_spans :: "ast_block \<Rightarrow> span list" where
  "item_spans (Ast_Block b) = block_spans b"
| "item_spans (Ast_Assignment _ v s) = s # value_spans v"
| "item_spans (Ast_Hook _ _ s) = [s]"
| "item_spans (Ast_Include _ s) = [s]"
| "block_spans (Block _ _ _ is s) = s # concat (map item_spans is)"

end
