(* ===== verification/Ncfg_Parse.thy ===== *)
theory Ncfg_Parse
  imports Ncfg_Ast
begin

text \<open>
  The recursive-descent parser of \<^verbatim>\<open>c/src/compile/parse.c\<close>.  The parser's state is the lexer, one
  token of lookahead, the diagnostics collected so far and the nesting depth; every function takes
  it and returns it.  Allocation is granted throughout, so \<^verbatim>\<open>out_of_memory\<close> is never set and has no
  field here; the growth of the C arrays is not represented.

  The grammar functions recurse through each other over a moving cursor, so they take fuel and
  answer \<open>None\<close> when it runs out.  \<open>ncfg_parse\<close> hands out \<open>parse_fuel\<close> of the text, and
  \<^verbatim>\<open>Ncfg_Parse_Props\<close> proves that this is always enough.
\<close>

definition FOUND_MAX :: nat where
  "FOUND_MAX = 128"

definition NCFG_MAX_NESTING_DEPTH :: nat where
  "NCFG_MAX_NESTING_DEPTH = 32"

definition NCFG_DIAGS_MAX :: nat where
  "NCFG_DIAGS_MAX = 64"

definition HOOK_PHASES :: "bytes list" where
  "HOOK_PHASES = [ascii ''pre_up'', ascii ''up'', ascii ''post_up'',
     ascii ''pre_down'', ascii ''down'', ascii ''post_down'']"

definition LABELLED_BLOCKS :: "bytes list" where
  "LABELLED_BLOCKS = [ascii ''interface'', ascii ''network'', ascii ''device'', ascii ''peer'']"

record diag =
  diag_span :: span
  diag_message :: bytes

record diags =
  diags_at :: "diag list"
  diags_total :: nat

record parser =
  plexer :: lexer
  plookahead :: "token option"
  pdiags :: diags
  pdepth :: nat

subsection \<open>Diagnostics\<close>

definition no_diags :: diags where
  "no_diags = \<lparr>diags_at = [], diags_total = 0\<rparr>"

definition store_diag :: "parser \<Rightarrow> span \<Rightarrow> bytes \<Rightarrow> parser" where
  "store_diag parser span message =
     (let diags = pdiags parser;
          diags = diags\<lparr>diags_total := diags_total diags + 1\<rparr>
      in if NCFG_DIAGS_MAX \<le> length (diags_at diags) then parser\<lparr>pdiags := diags\<rparr>
         else parser\<lparr>pdiags := diags\<lparr>diags_at :=
           diags_at diags @ [\<lparr>diag_span = span, diag_message = message\<rparr>]\<rparr>\<rparr>)"

definition push_diag :: "parser \<Rightarrow> span \<Rightarrow> bytes \<Rightarrow> parser" where
  "push_diag parser span message = store_diag parser span (snprintf_text NCFG_ERROR_MAX message)"

definition ncfg_diag_render :: "nat \<Rightarrow> diag \<Rightarrow> bytes \<Rightarrow> bytes" where
  "ncfg_diag_render out_size diag name = snprintf_text out_size
     ((if cstr name = [] then ascii ''<unknown>'' else cstr name) @ ascii '':'' @
      decimal (sp_line (diag_span diag) mod 2 ^ 32) @ ascii '':'' @
      decimal (sp_column (diag_span diag) mod 2 ^ 32) @ ascii '': '' @ diag_message diag)"

subsection \<open>The token stream\<close>

definition pull :: "parser \<Rightarrow> token \<times> parser" where
  "pull parser =
     (case ncfg_lexer_next (plexer parser) of
        (Inr token, lexer) \<Rightarrow> (token, parser\<lparr>plexer := lexer\<rparr>)
      | (Inl e, lexer) \<Rightarrow>
          (let span = ncfg_lexer_error_span lexer in
           (\<lparr>tkind = TOKEN_EOF, tspan = span\<rparr>,
            store_diag (parser\<lparr>plexer := lexer\<rparr>) span (lex_error_text e))))"

definition peek :: "parser \<Rightarrow> token \<times> parser" where
  "peek parser =
     (case plookahead parser of
        Some token \<Rightarrow> (token, parser)
      | None \<Rightarrow> (let (token, parser) = pull parser in (token, parser\<lparr>plookahead := Some token\<rparr>)))"

definition take_token :: "parser \<Rightarrow> token \<times> parser" where
  "take_token parser =
     (case plookahead parser of
        Some token \<Rightarrow> (token, parser\<lparr>plookahead := None\<rparr>)
      | None \<Rightarrow> pull parser)"

definition drop_token :: "parser \<Rightarrow> parser" where
  "drop_token parser = snd (take_token parser)"

definition discard_lookahead :: "parser \<Rightarrow> parser" where
  "discard_lookahead parser = parser\<lparr>plookahead := None\<rparr>"

text \<open>
  The measure of what is left to read: two for every byte the cursor has not passed, and one for a
  buffered token that is not the end of the input.
\<close>

definition remaining :: "parser \<Rightarrow> nat" where
  "remaining p = length (ltext (plexer p)) - lpos (plexer p)"

definition pweight :: "parser \<Rightarrow> nat" where
  "pweight p = 2 * remaining p +
     (case plookahead p of Some tok \<Rightarrow> if tkind tok = TOKEN_EOF then 0 else 1 | None \<Rightarrow> 0)"

lemma store_diag_fields [simp]:
  "plexer (store_diag p s m) = plexer p"
  "plookahead (store_diag p s m) = plookahead p"
  "pdepth (store_diag p s m) = pdepth p"
  "diags_total (pdiags (store_diag p s m)) = Suc (diags_total (pdiags p))"
  by (simp_all add: store_diag_def Let_def)

lemma push_diag_fields [simp]:
  "plexer (push_diag p s m) = plexer p"
  "plookahead (push_diag p s m) = plookahead p"
  "pdepth (push_diag p s m) = pdepth p"
  "diags_total (pdiags (push_diag p s m)) = Suc (diags_total (pdiags p))"
  by (simp_all add: push_diag_def)

lemma pull_progress:
  assumes "pull p = (tok, p')"
  shows "plookahead p' = plookahead p \<and> remaining p' \<le> remaining p \<and>
    (tkind tok \<noteq> TOKEN_EOF \<longrightarrow> remaining p' < remaining p)"
proof -
  obtain r l where lx: "ncfg_lexer_next (plexer p) = (r, l)" by fastforce
  then have p': "plexer p' = l" "plookahead p' = plookahead p"
    using assms by (auto simp: pull_def Let_def split: sum.splits)
  have "ltext l = ltext (plexer p)" "lpos (plexer p) \<le> lpos l"
    using lexer_next_advances [OF lx] by (auto simp: advances_def)
  moreover have "tkind tok \<noteq> TOKEN_EOF \<Longrightarrow> lpos (plexer p) < lpos l \<and> lpos (plexer p) < length (ltext (plexer p))"
    using lexer_next_moves [of "plexer p"] assms lx
    by (auto simp: pull_def Let_def is_eof_def split: sum.splits)
  ultimately show ?thesis using p' by (auto simp: remaining_def)
qed

lemma peek_progress:
  assumes "peek p = (tok, p')"
  shows "plookahead p' = Some tok \<and> pweight p' \<le> pweight p"
proof (cases "plookahead p")
  case None
  with assms obtain q where "pull p = (tok, q)" "p' = q\<lparr>plookahead := Some tok\<rparr>"
    by (auto simp: peek_def split: prod.splits)
  with None pull_progress [of p tok q] show ?thesis by (auto simp: pweight_def remaining_def)
qed (use assms in \<open>simp add: peek_def\<close>)

lemma take_token_progress:
  assumes "take_token p = (tok, p')"
  shows "plookahead p' = None \<and> pweight p' \<le> pweight p \<and>
    (tkind tok \<noteq> TOKEN_EOF \<longrightarrow> pweight p' < pweight p)"
  using assms pull_progress [of p tok p']
  by (auto simp: take_token_def pweight_def remaining_def split: option.splits)

lemma take_after_peek: "peek p = (tok, q) \<Longrightarrow> take_token q = (tok, q\<lparr>plookahead := None\<rparr>)"
  by (auto simp: take_token_def dest: peek_progress)

lemma drop_after_peek:
  "peek p = (tok, q) \<Longrightarrow> tkind tok \<noteq> TOKEN_EOF \<Longrightarrow> pweight (drop_token q) < pweight p"
  using take_token_progress [of q] peek_progress [of p tok q]
  by (auto simp: drop_token_def take_after_peek dest!: take_after_peek)

function skip_terminators :: "parser \<Rightarrow> parser" where
  "skip_terminators parser =
     (let (token, parser) = peek parser in
      if tkind token = TOKEN_TERMINATOR then skip_terminators (drop_token parser) else parser)"
  by pat_completeness auto
termination
  by (relation "measure pweight") (auto intro: drop_after_peek [OF sym])

declare skip_terminators.simps [simp del]

text \<open>\<open>True\<close> at a statement boundary, \<open>False\<close> at the end of the input.\<close>

function recover :: "parser \<Rightarrow> bool \<times> parser" where
  "recover parser =
     (let (token, parser) = take_token parser in
      if tkind token = TOKEN_EOF then (False, parser)
      else if tkind token = TOKEN_TERMINATOR then (True, parser)
      else recover parser)"
  by pat_completeness auto
termination
  by (relation "measure pweight") (auto dest!: take_token_progress [OF sym])

declare recover.simps [simp del]

definition in_list :: "bytes list \<Rightarrow> bytes \<Rightarrow> bool" where
  "in_list names name = list_ex (\<lambda>n. n = name) names"

definition is_hook_head :: "bytes \<Rightarrow> bool" where
  "is_hook_head name =
     (if name = ascii ''on'' then True
      else in_list HOOK_PHASES name \<and> \<not> in_list LABELLED_BLOCKS name)"

definition found :: "token \<Rightarrow> bytes" where
  "found token = ncfg_token_describe FOUND_MAX token"

subsection \<open>Values\<close>

definition close_list :: "span \<Rightarrow> token \<Rightarrow> span" where
  "close_list span bracket =
     (let end = sp_offset (tspan bracket) + sp_length (tspan bracket) in
      if sp_offset span < end then span\<lparr>sp_length := end - sp_offset span\<rparr> else span)"

fun parse_value :: "nat \<Rightarrow> parser \<Rightarrow> (ast_value option \<times> parser) option"
  and parse_list :: "nat \<Rightarrow> parser \<Rightarrow> span \<Rightarrow> (ast_value option \<times> parser) option"
  and parse_list_entries ::
    "nat \<Rightarrow> parser \<Rightarrow> span \<Rightarrow> ast_value list \<Rightarrow> (ast_value option \<times> parser) option" where
  "parse_value 0 parser = None"
| "parse_value (Suc fuel) parser =
     (let (token, parser) = take_token parser; span = tspan token in
      case tkind token of
        TOKEN_STRING text \<Rightarrow> Some (Some (Ast_String span text), parser)
      | TOKEN_NUMBER number \<Rightarrow> Some (Some (Ast_Number span number), parser)
      | TOKEN_BOOL boolean \<Rightarrow> Some (Some (Ast_Bool span boolean), parser)
      | TOKEN_LBRACKET \<Rightarrow> parse_list fuel parser span
      | _ \<Rightarrow> Some (None, push_diag parser span (ascii ''expected a value, found '' @ found token)))"
| "parse_list 0 parser span = None"
| "parse_list (Suc fuel) parser span =
     (if NCFG_MAX_NESTING_DEPTH \<le> pdepth parser then
        Some (None, push_diag parser span
          (ascii ''a list nests more than '' @ decimal NCFG_MAX_NESTING_DEPTH @
           ascii '' deep: this is almost always an unclosed `[` earlier in the file''))
      else
        case parse_list_entries fuel (parser\<lparr>pdepth := pdepth parser + 1\<rparr>) span [] of
          None \<Rightarrow> None
        | Some (list, parser) \<Rightarrow> Some (list, parser\<lparr>pdepth := pdepth parser - 1\<rparr>))"
| "parse_list_entries 0 parser span entries = None"
| "parse_list_entries (Suc fuel) parser span entries =
     (let (next, parser) = peek (skip_terminators parser) in
      if tkind next = TOKEN_RBRACKET then
        Some (Some (Ast_List (close_list span next) entries), drop_token parser)
      else
        case parse_value fuel parser of
          None \<Rightarrow> None
        | Some (None, parser) \<Rightarrow> Some (None, parser)
        | Some (Some entry, parser) \<Rightarrow>
            (let entries = entries @ [entry]; (next, parser) = peek (skip_terminators parser) in
             if tkind next = TOKEN_COMMA then parse_list_entries fuel (drop_token parser) span entries
             else if tkind next = TOKEN_RBRACKET then
               Some (Some (Ast_List (close_list span next) entries), drop_token parser)
             else Some (None, push_diag parser (tspan next)
               (ascii ''expected `,` or `]` in list, found '' @ found next))))"

subsection \<open>Statements\<close>

definition expect_terminator :: "parser \<Rightarrow> parser" where
  "expect_terminator parser =
     (let (next, parser) = peek parser in
      if tkind next = TOKEN_TERMINATOR then drop_token parser
      else if tkind next = TOKEN_EOF \<or> tkind next = TOKEN_RBRACE then parser
      else push_diag parser (tspan next) (ascii ''expected end of statement, found '' @ found next))"

definition parse_include :: "parser \<Rightarrow> ast_item option \<times> parser" where
  "parse_include parser =
     (let (keyword, parser) = take_token parser; (value, parser) = take_token parser in
      case tkind value of
        TOKEN_STRING path \<Rightarrow>
          (Some (Ast_Include path (tspan keyword)), expect_terminator parser)
      | _ \<Rightarrow> (None, push_diag parser (tspan value)
               (ascii ''expected a quoted path after `include`, found '' @ found value)))"

text \<open>The head of a hook: its phase, or the event after \<^verbatim>\<open>on\<close>.\<close>

definition hook_phase :: "bytes \<Rightarrow> parser \<Rightarrow> bytes option \<times> parser" where
  "hook_phase phase parser =
     (if phase = ascii ''on'' then
        let (event, parser) = take_token parser in
        case tkind event of
          TOKEN_IDENT name \<Rightarrow> (Some name, parser)
        | _ \<Rightarrow> (None, push_diag parser (tspan event)
                 (ascii ''expected an event name after `on`, found '' @ found event))
      else (Some phase, parser))"

text \<open>Stepping out of the token stream and taking the raw body.\<close>

definition hook_body :: "parser \<Rightarrow> bytes option \<times> parser" where
  "hook_body parser =
     (let (next, parser) = peek parser;
          parser = (if tkind next = TOKEN_TERMINATOR then drop_token parser else parser);
          parser = discard_lookahead parser
      in case ncfg_lexer_hook_body (plexer parser) of
           (Inl e, lexer) \<Rightarrow>
             (None, push_diag (parser\<lparr>plexer := lexer\<rparr>) (ncfg_lexer_error_span lexer) (lex_error_text e))
         | (Inr body, lexer) \<Rightarrow> (Some body, parser\<lparr>plexer := lexer\<rparr>))"

definition parse_hook :: "bytes \<Rightarrow> parser \<Rightarrow> ast_item option \<times> parser" where
  "parse_hook head parser =
     (let (keyword, parser) = take_token parser in
      case hook_phase head parser of
        (None, parser) \<Rightarrow> (None, parser)
      | (Some phase, parser) \<Rightarrow>
          (let (brace, parser) = take_token parser in
           if tkind brace \<noteq> TOKEN_LBRACE then
             (None, push_diag parser (tspan brace)
                (ascii ''expected `{` after `'' @ cstr phase @ ascii ''`, found '' @ found brace))
           else case hook_body parser of
             (None, parser) \<Rightarrow> (None, parser)
           | (Some body, parser) \<Rightarrow> (Some (Ast_Hook phase body (tspan keyword)), parser)))"

text \<open>The label in front of the brace, where there is one.\<close>

definition block_label_opt :: "parser \<Rightarrow> bytes option \<times> parser" where
  "block_label_opt parser =
     (let (next, parser) = peek parser in
      case tkind next of
        TOKEN_IDENT label \<Rightarrow> (Some label, drop_token parser)
      | TOKEN_STRING label \<Rightarrow> (Some label, drop_token parser)
      | _ \<Rightarrow> (None, parser))"

fun set_overrides :: "ast_item \<Rightarrow> ast_item" where
  "set_overrides (Ast_Block (Block head label _ items span)) = Ast_Block (Block head label True items span)"
| "set_overrides item = item"

fun parse_item :: "nat \<Rightarrow> parser \<Rightarrow> (ast_item option \<times> parser) option"
  and parse_block :: "nat \<Rightarrow> parser \<Rightarrow> (ast_item option \<times> parser) option"
  and parse_block_after_head :: "nat \<Rightarrow> parser \<Rightarrow> bytes \<Rightarrow> span \<Rightarrow> (ast_item option \<times> parser) option"
  and parse_block_items ::
    "nat \<Rightarrow> parser \<Rightarrow> bytes \<Rightarrow> bytes option \<Rightarrow> span \<Rightarrow> ast_item list \<Rightarrow> (ast_item option \<times> parser) option"
where
  "parse_item 0 parser = None"
| "parse_item (Suc fuel) parser =
     (let (head, parser) = peek parser in
      case tkind head of
        TOKEN_IDENT name \<Rightarrow>
          if name = ascii ''include'' then Some (parse_include parser)
          else if name = ascii ''override'' then
            (case parse_block fuel (drop_token parser) of
               None \<Rightarrow> None
             | Some (item, parser) \<Rightarrow> Some (map_option set_overrides item, parser))
          else if is_hook_head name then Some (parse_hook name parser)
          else
            (let (key, parser) = take_token parser; (next, parser) = peek parser in
             case tkind next of
               TOKEN_EQUALS \<Rightarrow>
                 (case parse_value fuel (drop_token parser) of
                    None \<Rightarrow> None
                  | Some (None, parser) \<Rightarrow> Some (None, parser)
                  | Some (Some value, parser) \<Rightarrow>
                      Some (Some (Ast_Assignment name value (tspan key)), expect_terminator parser))
             | TOKEN_LBRACE \<Rightarrow> parse_block_after_head fuel parser name (tspan key)
             | TOKEN_IDENT _ \<Rightarrow> parse_block_after_head fuel parser name (tspan key)
             | TOKEN_STRING _ \<Rightarrow> parse_block_after_head fuel parser name (tspan key)
             | _ \<Rightarrow> Some (None, push_diag parser (tspan next)
                      (ascii ''expected `=` or `{` after `'' @ cstr name @ ascii ''`, found '' @ found next)))
      | _ \<Rightarrow> Some (None, push_diag parser (tspan head)
               (ascii ''expected a statement, found '' @ found head)))"
| "parse_block 0 parser = None"
| "parse_block (Suc fuel) parser =
     (let (head, parser) = take_token parser in
      case tkind head of
        TOKEN_IDENT name \<Rightarrow> parse_block_after_head fuel parser name (tspan head)
      | _ \<Rightarrow> Some (None, push_diag parser (tspan head)
               (ascii ''expected a block after `override`, found '' @ found head)))"
| "parse_block_after_head 0 parser head span = None"
| "parse_block_after_head (Suc fuel) parser head span =
     (let (label, parser) = block_label_opt parser; (brace, parser) = take_token parser in
      if tkind brace \<noteq> TOKEN_LBRACE then
        Some (None, push_diag parser (tspan brace)
          (ascii ''expected `{` to open `'' @ cstr head @ ascii ''`, found '' @ found brace))
      else if NCFG_MAX_NESTING_DEPTH \<le> pdepth parser then
        Some (None, push_diag parser (tspan brace)
          (ascii ''`'' @ cstr head @ ascii ''` nests more than '' @ decimal NCFG_MAX_NESTING_DEPTH @
           ascii '' blocks deep: this is almost always an unclosed block earlier in the file''))
      else
        case parse_block_items fuel (parser\<lparr>pdepth := pdepth parser + 1\<rparr>) head label span [] of
          None \<Rightarrow> None
        | Some (item, parser) \<Rightarrow> Some (item, parser\<lparr>pdepth := pdepth parser - 1\<rparr>))"
| "parse_block_items 0 parser head label span items = None"
| "parse_block_items (Suc fuel) parser head label span items =
     (let (next, parser) = peek (skip_terminators parser) in
      if tkind next = TOKEN_RBRACE then
        Some (Some (Ast_Block (Block head label False items span)), expect_terminator (drop_token parser))
      else if tkind next = TOKEN_EOF then
        Some (None, push_diag parser span
          (ascii ''unclosed block `'' @ cstr head @ ascii ''`: every block needs a closing `}`''))
      else
        case parse_item fuel parser of
          None \<Rightarrow> None
        | Some (Some child, parser) \<Rightarrow>
            parse_block_items fuel parser head label span (items @ [child])
        | Some (None, parser) \<Rightarrow>
            (case recover parser of
               (True, parser) \<Rightarrow> parse_block_items fuel parser head label span items
             | (False, parser) \<Rightarrow> Some (None, parser)))"

fun parse_file :: "nat \<Rightarrow> parser \<Rightarrow> ast_item list \<Rightarrow> (ast_item list \<times> parser) option" where
  "parse_file 0 parser items = None"
| "parse_file (Suc fuel) parser items =
     (let (next, parser) = peek (skip_terminators parser) in
      if tkind next = TOKEN_EOF then Some (items, parser)
      else
        case parse_item fuel parser of
          None \<Rightarrow> None
        | Some (Some item, parser) \<Rightarrow> parse_file fuel parser (items @ [item])
        | Some (None, parser) \<Rightarrow>
            (case recover parser of
               (True, parser) \<Rightarrow> parse_file fuel parser items
             | (False, parser) \<Rightarrow> Some (items, parser)))"

subsection \<open>The entry point\<close>

definition parse_fuel :: "bytes \<Rightarrow> nat" where
  "parse_fuel text = 8 * length text + 8"

definition start_parser :: "bytes \<Rightarrow> diags \<Rightarrow> parser" where
  "start_parser text diags =
     \<lparr>plexer = ncfg_lexer_init text, plookahead = None, pdiags = diags, pdepth = 0\<rparr>"

text \<open>
  The answer is the tree or the sentence in the error buffer, beside the diagnostics the caller
  handed in with this parse's added.
\<close>

definition ncfg_parse :: "bytes \<Rightarrow> diags \<Rightarrow> ((bytes + ast_item list) \<times> diags) option" where
  "ncfg_parse text diags =
     (case parse_file (parse_fuel text) (start_parser text diags) [] of
        None \<Rightarrow> None
      | Some (items, parser) \<Rightarrow>
          (let diags = pdiags parser in
           if diags_total diags = 0 then Some (Inr items, diags)
           else Some (Inl (case diags_at diags of
                  first # _ \<Rightarrow> snprintf_text NCFG_ERROR_MAX (cstr (diag_message first))
                | [] \<Rightarrow> ascii ''out of memory while parsing the configuration''), diags)))"

end
