(* ===== verification/Ncfg_Merge.thy ===== *)
theory Ncfg_Merge
  imports Ncfg_Parse
begin

text \<open>
  Drop-in precedence, \<^verbatim>\<open>c/src/compile/merge.c\<close>: the parsed files are folded, in order, into one set
  of blocks and one set of top-level assignments.  Every kept item remembers the file it came from;
  a file name is an \<open>option\<close> because the code prints \<^verbatim>\<open><unknown>\<close> for a missing one.  The merge is
  always handed somewhere to put its diagnostics (its one caller, \<^verbatim>\<open>ncfg_lower_run\<close>, does so), and
  allocation is granted, so the sticky \<^verbatim>\<open>failed\<close> flag of the context has no counterpart.
\<close>

record lower_diag =
  ld_source :: "bytes option"
  ld_span :: span
  ld_message :: bytes

record lower_diags =
  lds_at :: "lower_diag list"
  lds_total :: nat

record lower_ctx =
  lc_source :: "bytes option"
  lc_diags :: lower_diags

record merged_item =
  mi_item :: ast_item
  mi_source :: "bytes option"

record merged_block =
  mb_block :: ast_block
  mb_source :: "bytes option"
  mb_items :: "merged_item list"

record assignment =
  as_key :: bytes
  as_value :: ast_value
  as_span :: span

record merged_assignment =
  ma_assignment :: assignment
  ma_source :: "bytes option"

record merged =
  m_blocks :: "merged_block list"
  m_assignments :: "merged_assignment list"

subsection \<open>Diagnostics\<close>

definition unknown :: bytes where
  "unknown = ascii ''<unknown>''"

definition ncfg_lower_diag_render :: "nat \<Rightarrow> lower_diag \<Rightarrow> bytes" where
  "ncfg_lower_diag_render out_size diag = snprintf_text out_size
     ((case ld_source diag of
         None \<Rightarrow> unknown
       | Some source \<Rightarrow> if cstr source = [] then unknown else cstr source) @ ascii '':'' @
      decimal (sp_line (ld_span diag)) @ ascii '':'' @
      decimal (sp_column (ld_span diag)) @ ascii '': '' @ ld_message diag)"

definition ncfg_diags_any :: "lower_ctx \<Rightarrow> bool" where
  "ncfg_diags_any ctx \<longleftrightarrow> 0 < lds_total (lc_diags ctx)"

definition ncfg_diag :: "lower_ctx \<Rightarrow> span \<Rightarrow> bytes \<Rightarrow> lower_ctx" where
  "ncfg_diag ctx span message =
     (let diags = lc_diags ctx;
          diags = diags\<lparr>lds_total := lds_total diags + 1\<rparr>
      in if NCFG_DIAGS_MAX \<le> length (lds_at diags) then ctx\<lparr>lc_diags := diags\<rparr>
         else ctx\<lparr>lc_diags := diags\<lparr>lds_at := lds_at diags @
           [\<lparr>ld_source = lc_source ctx, ld_span = span,
             ld_message = snprintf_text NCFG_ERROR_MAX message\<rparr>]\<rparr>\<rparr>)"

definition source_name :: "bytes option \<Rightarrow> bytes" where
  "source_name source = (case source of None \<Rightarrow> unknown | Some name \<Rightarrow> cstr name)"

definition say_already ::
  "lower_ctx \<Rightarrow> ast_block \<Rightarrow> bytes option \<Rightarrow> nat \<Rightarrow> bytes option \<Rightarrow> lower_ctx" where
  "say_already ctx block first_source first_line inside =
     (let described = ncfg_ast_block_describe NCFG_ERROR_MAX block in
      case inside of
        Some inside \<Rightarrow>
          ncfg_diag ctx (block_span block)
            (ascii ''`'' @ described @ ascii ''` is already set in `'' @ inside @
             ascii ''`: first set at '' @ source_name first_source @ ascii '':'' @ decimal first_line @
             ascii ''; two files disagreeing about one setting is the case `override` is for'')
      | None \<Rightarrow>
          ncfg_diag ctx (block_span block)
            (ascii ''`'' @ described @ ascii ''` is already defined: first defined at '' @
             source_name first_source @ ascii '':'' @ decimal first_line @
             ascii ''; write `override '' @ described @ ascii ''` to replace it''))"

subsection \<open>Blocks\<close>

definition keep_item :: "merged_block \<Rightarrow> ast_item \<Rightarrow> bytes option \<Rightarrow> merged_block" where
  "keep_item target item source =
     target\<lparr>mb_items := mb_items target @ [\<lparr>mi_item = item, mi_source = source\<rparr>]\<rparr>"

definition take_block :: "merged_block \<Rightarrow> ast_block \<Rightarrow> bytes option \<Rightarrow> merged_block" where
  "take_block target block source =
     foldl (\<lambda>target item. keep_item target item source)
       (target\<lparr>mb_block := block, mb_source := source, mb_items := []\<rparr>) (block_items block)"

text \<open>The first kept sub-block with the key of \<open>inner\<close>, with its file.\<close>

fun clashing :: "merged_item list \<Rightarrow> ast_block \<Rightarrow> (bytes option \<times> ast_block) option" where
  "clashing [] inner = None"
| "clashing (m # ms) inner =
     (case mi_item m of
        Ast_Block earlier \<Rightarrow>
          if ncfg_ast_block_same_key earlier inner then Some (mi_source m, earlier) else clashing ms inner
      | _ \<Rightarrow> clashing ms inner)"

text \<open>Put an assignment in the place of the first one with its key, if there is one.\<close>

fun replaced :: "merged_item list \<Rightarrow> bytes \<Rightarrow> merged_item \<Rightarrow> merged_item list option" where
  "replaced [] key new = None"
| "replaced (m # ms) key new =
     (case mi_item m of
        Ast_Assignment earlier _ _ \<Rightarrow>
          if cstr earlier = cstr key then Some (new # ms) else map_option (Cons m) (replaced ms key new)
      | _ \<Rightarrow> map_option (Cons m) (replaced ms key new))"

definition merge_into_global_item ::
  "bytes option \<Rightarrow> lower_ctx \<times> merged_block \<Rightarrow> ast_item \<Rightarrow> lower_ctx \<times> merged_block" where
  "merge_into_global_item source st item =
     (let (ctx, target) = st in
      case item of
        Ast_Block inner \<Rightarrow>
          (case clashing (mb_items target) inner of
             Some (first_source, earlier) \<Rightarrow>
               (say_already (ctx\<lparr>lc_source := source\<rparr>) inner first_source
                  (sp_line (block_span earlier)) (Some (ascii ''global'')), target)
           | None \<Rightarrow> (ctx, keep_item target item source))
      | Ast_Assignment key _ _ \<Rightarrow>
          (case replaced (mb_items target) key \<lparr>mi_item = item, mi_source = source\<rparr> of
             Some items \<Rightarrow> (ctx, target\<lparr>mb_items := items\<rparr>)
           | None \<Rightarrow> (ctx, keep_item target item source))
      | _ \<Rightarrow> (ctx, keep_item target item source))"

definition merge_into_global ::
  "lower_ctx \<Rightarrow> merged_block \<Rightarrow> ast_block \<Rightarrow> bytes option \<Rightarrow> lower_ctx \<times> merged_block" where
  "merge_into_global ctx target block source =
     foldl (merge_into_global_item source) (ctx, target) (block_items block)"

text \<open>The index of the merged block with the key of \<open>block\<close>.\<close>

fun find_block :: "merged_block list \<Rightarrow> ast_block \<Rightarrow> nat option" where
  "find_block [] block = None"
| "find_block (m # ms) block =
     (if ncfg_ast_block_same_key (mb_block m) block then Some 0
      else map_option Suc (find_block ms block))"

definition empty_slot :: "ast_block \<Rightarrow> merged_block" where
  "empty_slot block = \<lparr>mb_block = block, mb_source = None, mb_items = []\<rparr>"

definition merge_block ::
  "lower_ctx \<times> merged \<Rightarrow> ast_block \<Rightarrow> bytes option \<Rightarrow> lower_ctx \<times> merged" where
  "merge_block st block source =
     (let (ctx, merged) = st in
      case find_block (m_blocks merged) block of
        Some i \<Rightarrow>
          (let existing = m_blocks merged ! i in
           if block_overrides block then
             (ctx, merged\<lparr>m_blocks := (m_blocks merged)[i := take_block existing block source]\<rparr>)
           else if cstr (block_head block) = ascii ''global'' then
             (let (ctx, target) = merge_into_global ctx existing block source in
              (ctx, merged\<lparr>m_blocks := (m_blocks merged)[i := target]\<rparr>))
           else
             (say_already (ctx\<lparr>lc_source := source\<rparr>) block (mb_source existing)
                (sp_line (block_span (mb_block existing))) None, merged))
      | None \<Rightarrow>
          if block_overrides block then
            (ncfg_diag (ctx\<lparr>lc_source := source\<rparr>) (block_span block)
               (ascii ''`override '' @ ncfg_ast_block_describe NCFG_ERROR_MAX block @
                ascii ''` has nothing to override: remove `override`, or check the name''), merged)
          else
            (ctx, merged\<lparr>m_blocks := m_blocks merged @ [take_block (empty_slot block) block source]\<rparr>))"

subsection \<open>Assignments and files\<close>

fun put_assignment :: "merged_assignment list \<Rightarrow> merged_assignment \<Rightarrow> merged_assignment list" where
  "put_assignment [] new = [new]"
| "put_assignment (m # ms) new =
     (if cstr (as_key (ma_assignment m)) = cstr (as_key (ma_assignment new)) then new # ms
      else m # put_assignment ms new)"

definition merge_assignment ::
  "lower_ctx \<times> merged \<Rightarrow> assignment \<Rightarrow> bytes option \<Rightarrow> lower_ctx \<times> merged" where
  "merge_assignment st assignment source =
     (let (ctx, merged) = st in
      (ctx, merged\<lparr>m_assignments := put_assignment (m_assignments merged)
         \<lparr>ma_assignment = assignment, ma_source = source\<rparr>\<rparr>))"

definition set_source :: "bytes option \<Rightarrow> lower_ctx \<times> merged \<Rightarrow> lower_ctx \<times> merged" where
  "set_source source st = (case st of (ctx, merged) \<Rightarrow> (ctx\<lparr>lc_source := source\<rparr>, merged))"

fun merge_item :: "bytes option \<Rightarrow> lower_ctx \<times> merged \<Rightarrow> ast_item \<Rightarrow> lower_ctx \<times> merged" where
  "merge_item source st (Ast_Block block) = set_source source (merge_block st block source)"
| "merge_item source st (Ast_Assignment key value span) =
     merge_assignment st \<lparr>as_key = key, as_value = value, as_span = span\<rparr> source"
| "merge_item source (ctx, merged) (Ast_Hook _ _ span) =
     (ncfg_diag ctx span
        (ascii ''a hook block must be inside an interface block: hooks belong to the interface whose lifecycle they follow''),
      merged)"
| "merge_item source (ctx, merged) (Ast_Include _ span) =
     (ncfg_diag ctx span
        (ascii ''include was not resolved before compiling: the caller expands includes; the compiler opens no files''),
      merged)"

type_synonym source = "bytes option \<times> ast_item list option"

definition merge_file :: "lower_ctx \<times> merged \<Rightarrow> source \<Rightarrow> lower_ctx \<times> merged" where
  "merge_file st source =
     (case snd source of
        None \<Rightarrow> st
      | Some items \<Rightarrow> foldl (merge_item (fst source)) (set_source (fst source) st) items)"

definition no_merged :: merged where
  "no_merged = \<lparr>m_blocks = [], m_assignments = []\<rparr>"

definition ncfg_merge :: "source list \<Rightarrow> lower_diags \<Rightarrow> (bytes + merged) \<times> lower_diags" where
  "ncfg_merge sources diags =
     (let (ctx, merged) = foldl merge_file (\<lparr>lc_source = None, lc_diags = diags\<rparr>, no_merged) sources in
      if ncfg_diags_any ctx then
        (Inl (case lds_at (lc_diags ctx) of
                first # _ \<Rightarrow> snprintf_text NCFG_ERROR_MAX (cstr (ld_message first))
              | [] \<Rightarrow> ascii ''the configuration was refused''), lc_diags ctx)
      else (Inr merged, lc_diags ctx))"

end
