(* ===== verification/Ncfg_Merge_Props.thy ===== *)
theory Ncfg_Merge_Props
  imports Ncfg_Merge
begin

text \<open>
  What the merge computes, seen as two tables: blocks by head and label, top-level assignments by
  key.  \<open>merged_ok\<close> says that the lists behind the tables never hold a key twice; each operation is
  described by what it does to the tables and to the count of diagnostics.  The history of a run is
  the sequence of statements met so far with the file of each, and \<open>history_inv\<close> relates it to the
  tables: for a run without diagnostics, every block other than \<^verbatim>\<open>global\<close> is the last one written,
  each rewriting said \<^verbatim>\<open>override\<close> and the first did not, and every assignment is the last one written.
\<close>

definition mb_key :: "merged_block \<Rightarrow> bytes \<times> bytes option" where
  "mb_key mb = block_key (mb_block mb)"

definition ma_key :: "merged_assignment \<Rightarrow> bytes" where
  "ma_key ma = cstr (as_key (ma_assignment ma))"

definition block_table :: "merged \<Rightarrow> bytes \<times> bytes option \<rightharpoonup> merged_block" where
  "block_table m = map_of (map (\<lambda>mb. (mb_key mb, mb)) (m_blocks m))"

definition assignment_table :: "merged \<Rightarrow> bytes \<rightharpoonup> merged_assignment" where
  "assignment_table m = map_of (map (\<lambda>ma. (ma_key ma, ma)) (m_assignments m))"

definition merged_ok :: "merged \<Rightarrow> bool" where
  "merged_ok m \<longleftrightarrow> distinct (map mb_key (m_blocks m)) \<and> distinct (map ma_key (m_assignments m))"

definition kept :: "bytes option \<Rightarrow> ast_block \<Rightarrow> merged_block" where
  "kept source block = \<lparr>mb_block = block, mb_source = source,
     mb_items = map (\<lambda>i. \<lparr>mi_item = i, mi_source = source\<rparr>) (block_items block)\<rparr>"

definition problems :: "lower_ctx \<Rightarrow> nat" where
  "problems ctx = lds_total (lc_diags ctx)"

subsection \<open>Tables\<close>

lemma map_of_keyed_update:
  assumes "i < length xs" "distinct (map key xs)" "key x = key (xs ! i)"
  shows "map_of (map (\<lambda>x. (key x, x)) (xs[i := x])) = (map_of (map (\<lambda>x. (key x, x)) xs))(key x \<mapsto> x)"
  using assms
proof (induction xs arbitrary: i)
  case (Cons y ys)
  show ?case
  proof (cases i)
    case (Suc j)
    with Cons.prems have "key x \<in> key ` set ys" by simp
    with Cons.prems have "key x \<noteq> key y" by auto
    moreover have "map_of (map (\<lambda>x. (key x, x)) (ys[j := x])) = (map_of (map (\<lambda>x. (key x, x)) ys))(key x \<mapsto> x)"
      by (rule Cons.IH) (use Cons.prems Suc in simp_all)
    ultimately show ?thesis using Suc by (auto simp: fun_eq_iff)
  qed (use Cons.prems in auto)
qed simp

lemma map_of_keyed_snoc:
  "key x \<notin> set (map key xs) \<Longrightarrow>
     map_of (map (\<lambda>x. (key x, x)) (xs @ [x])) = (map_of (map (\<lambda>x. (key x, x)) xs))(key x \<mapsto> x)"
  by (induction xs) (auto simp: fun_upd_twist)

lemma map_of_keyed_nth:
  "i < length xs \<Longrightarrow> distinct (map key xs) \<Longrightarrow> map_of (map (\<lambda>x. (key x, x)) xs) (key (xs ! i)) = Some (xs ! i)"
  by (rule map_of_is_SomeI) (auto simp: comp_def intro: image_eqI)

lemma map_of_keyed_None:
  "map_of (map (\<lambda>x. (key x, x)) xs) k = None \<longleftrightarrow> k \<notin> key ` set xs"
  by (induction xs) auto

lemma find_block_Some:
  "find_block ms b = Some i \<Longrightarrow> i < length ms \<and> mb_key (ms ! i) = block_key b"
  by (induction ms arbitrary: i) (auto simp: same_key_iff mb_key_def split: if_splits)

lemma find_block_None: "find_block ms b = None \<longleftrightarrow> block_key b \<notin> mb_key ` set ms"
  by (induction ms) (auto simp: same_key_iff mb_key_def)

lemma take_block_kept: "take_block target block source = kept source block"
proof -
  have "foldl (\<lambda>target item. keep_item target item source) mb is =
      mb\<lparr>mb_items := mb_items mb @ map (\<lambda>i. \<lparr>mi_item = i, mi_source = source\<rparr>) is\<rparr>" for mb :: merged_block and "is"
    by (induction "is" arbitrary: mb) (simp_all add: keep_item_def)
  then show ?thesis by (simp add: take_block_def kept_def)
qed

lemma mb_key_kept [simp]: "mb_key (kept source block) = block_key block"
  by (simp add: mb_key_def kept_def)

lemma put_assignment_table:
  "map_of (map (\<lambda>x. (ma_key x, x)) (put_assignment ms new)) =
     (map_of (map (\<lambda>x. (ma_key x, x)) ms))(ma_key new \<mapsto> new)"
  by (induction ms) (auto simp: ma_key_def fun_upd_twist)

lemma put_assignment_keys:
  "set (map ma_key (put_assignment ms new)) = insert (ma_key new) (set (map ma_key ms))"
  by (induction ms) (auto simp: ma_key_def)

lemma put_assignment_distinct:
  "distinct (map ma_key ms) \<Longrightarrow> distinct (map ma_key (put_assignment ms new))"
proof (induction ms)
  case (Cons m ms)
  with put_assignment_keys [of ms new] show ?case by (auto simp: ma_key_def)
qed simp

subsection \<open>Diagnostics are only added\<close>

lemma problems_ncfg_diag [simp]: "problems (ncfg_diag ctx s m) = Suc (problems ctx)"
  by (simp add: problems_def ncfg_diag_def Let_def)

lemma problems_say_already [simp]: "problems (say_already ctx b fs fl inside) = Suc (problems ctx)"
  by (simp add: say_already_def Let_def split: option.split)

lemma problems_source [simp]: "problems (ctx\<lparr>lc_source := s\<rparr>) = problems ctx"
  by (simp add: problems_def)

lemma merge_into_global_item_keeps:
  assumes "merge_into_global_item source (ctx, target) i = (ctx', target')"
  shows "mb_block target' = mb_block target \<and> problems ctx \<le> problems ctx'"
  using assms
  by (auto simp: merge_into_global_item_def keep_item_def split: ast_item.splits option.splits)

lemma merge_into_global_keeps:
  assumes "merge_into_global ctx target block source = (ctx', target')"
  shows "mb_block target' = mb_block target \<and> problems ctx \<le> problems ctx'"
proof -
  have "foldl (merge_into_global_item source) (ctx, target) is = (ctx', target') \<Longrightarrow>
      mb_block target' = mb_block target \<and> problems ctx \<le> problems ctx'" for "is"
  proof (induction "is" arbitrary: ctx target)
    case (Cons i "is")
    obtain ctx1 target1 where "merge_into_global_item source (ctx, target) i = (ctx1, target1)" by fastforce
    with Cons merge_into_global_item_keeps [OF this] show ?case by fastforce
  qed simp
  with assms show ?thesis by (simp add: merge_into_global_def)
qed

subsection \<open>One block\<close>

text \<open>Every case of \<^verbatim>\<open>merge_block\<close>, on the table.\<close>

lemma merge_block_cases:
  assumes "merged_ok m" "merge_block (ctx, m) block source = (ctx', m')"
  obtains
    (fresh) "block_table m (block_key block) = None" "\<not> block_overrides block" "problems ctx' = problems ctx"
      "block_table m' = (block_table m)(block_key block \<mapsto> kept source block)"
  | (nothing) "block_table m (block_key block) = None" "block_overrides block"
      "problems ctx' = Suc (problems ctx)" "block_table m' = block_table m"
  | (override) existing where "block_table m (block_key block) = Some existing" "block_overrides block"
      "problems ctx' = problems ctx" "block_table m' = (block_table m)(block_key block \<mapsto> kept source block)"
  | (fold_global) existing target where "block_table m (block_key block) = Some existing" "\<not> block_overrides block"
      "fst (block_key block) = ascii ''global''" "merge_into_global ctx existing block source = (ctx', target)"
      "block_table m' = (block_table m)(block_key block \<mapsto> target)"
  | (again) existing where "block_table m (block_key block) = Some existing" "\<not> block_overrides block"
      "fst (block_key block) \<noteq> ascii ''global''" "problems ctx' = Suc (problems ctx)"
      "block_table m' = block_table m"
proof (cases "find_block (m_blocks m) block")
  case None
  then have none: "block_table m (block_key block) = None"
    by (simp add: block_table_def map_of_keyed_None find_block_None)
  from None have "block_key block \<notin> set (map mb_key (m_blocks m))" by (simp add: find_block_None)
  then have tab: "map_of (map (\<lambda>x. (mb_key x, x)) (m_blocks m @ [kept source block])) =
      (block_table m)(block_key block \<mapsto> kept source block)"
    using map_of_keyed_snoc [of mb_key "kept source block" "m_blocks m"] by (simp add: block_table_def)
  show ?thesis
  proof (cases "block_overrides block")
    case True
    with None assms(2) have "problems ctx' = Suc (problems ctx)" "block_table m' = block_table m"
      by (auto simp: merge_block_def simp del: ascii_simps)
    with none True show ?thesis by (rule nothing)
  next
    case False
    with None assms(2) tab have "problems ctx' = problems ctx"
      "block_table m' = (block_table m)(block_key block \<mapsto> kept source block)"
      by (auto simp: merge_block_def take_block_kept block_table_def)
    with none False show ?thesis by (rule fresh)
  qed
next
  case (Some i)
  note i = find_block_Some [OF Some]
  from i assms(1) have ex: "block_table m (block_key block) = Some (m_blocks m ! i)"
    using map_of_keyed_nth [of i "m_blocks m" mb_key] by (simp add: block_table_def merged_ok_def)
  have upd: "mb_key x = block_key block \<Longrightarrow>
      block_table (m\<lparr>m_blocks := (m_blocks m)[i := x]\<rparr>) = (block_table m)(block_key block \<mapsto> x)" for x
    using map_of_keyed_update [of i "m_blocks m" mb_key x] i assms(1) by (simp add: block_table_def merged_ok_def)
  consider (o) "block_overrides block" | (g) "\<not> block_overrides block" "cstr (block_head block) = ascii ''global''"
    | (a) "\<not> block_overrides block" "cstr (block_head block) \<noteq> ascii ''global''" by blast
  then show ?thesis
  proof cases
    case o
    with Some assms(2) upd have "problems ctx' = problems ctx"
      "block_table m' = (block_table m)(block_key block \<mapsto> kept source block)"
      by (auto simp: merge_block_def Let_def take_block_kept)
    with ex o show ?thesis by (rule override)
  next
    case g
    obtain c t where mg: "merge_into_global ctx (m_blocks m ! i) block source = (c, t)" by fastforce
    with merge_into_global_keeps [OF mg] i have "mb_key t = block_key block" by (simp add: mb_key_def)
    with g Some assms(2) upd mg have "c = ctx'" "block_table m' = (block_table m)(block_key block \<mapsto> t)"
      by (auto simp: merge_block_def Let_def simp del: ascii_simps)
    with g mg show ?thesis
      using fold_global [OF ex, of t] by (simp add: block_key_def del: ascii_simps)
  next
    case a
    with Some assms(2) have "problems ctx' = Suc (problems ctx)" "block_table m' = block_table m"
      by (auto simp: merge_block_def Let_def simp del: ascii_simps)
    with a show ?thesis using again [OF ex] by (simp add: block_key_def del: ascii_simps)
  qed
qed

subsection \<open>The history of a run\<close>

type_synonym history = "(bytes option \<times> ast_item) list"

definition written_blocks :: "bytes \<times> bytes option \<Rightarrow> history \<Rightarrow> (bytes option \<times> ast_block) list" where
  "written_blocks k h = [(s, b). (s, Ast_Block b) \<leftarrow> h, block_key b = k]"

definition written_assignments :: "bytes \<Rightarrow> history \<Rightarrow> merged_assignment list" where
  "written_assignments k h =
     [\<lparr>ma_assignment = \<lparr>as_key = key, as_value = v, as_span = sp\<rparr>, ma_source = s\<rparr>.
        (s, Ast_Assignment key v sp) \<leftarrow> h, cstr key = k]"

text \<open>Written once without \<^verbatim>\<open>override\<close>, and with it from then on.\<close>

definition overridden_properly :: "(bytes option \<times> ast_block) list \<Rightarrow> bool" where
  "overridden_properly bs =
     (case bs of [] \<Rightarrow> True | b # bs \<Rightarrow> \<not> block_overrides (snd b) \<and> (\<forall>c \<in> set bs. block_overrides (snd c)))"

definition last_of :: "'a list \<Rightarrow> 'a option" where
  "last_of xs = (if xs = [] then None else Some (last xs))"

fun stray :: "ast_item \<Rightarrow> bool" where
  "stray (Ast_Hook _ _ _) = True"
| "stray (Ast_Include _ _) = True"
| "stray _ = False"

lemma written_snoc [simp]:
  "written_blocks k (h @ [(s, Ast_Block b)]) = written_blocks k h @ (if block_key b = k then [(s, b)] else [])"
  "written_blocks k (h @ [(s, Ast_Assignment key v sp)]) = written_blocks k h"
  "written_blocks k (h @ [(s, Ast_Hook ph body sp)]) = written_blocks k h"
  "written_blocks k (h @ [(s, Ast_Include path sp)]) = written_blocks k h"
  "written_assignments k' (h @ [(s, Ast_Block b)]) = written_assignments k' h"
  "written_assignments k' (h @ [(s, Ast_Assignment key v sp)]) = written_assignments k' h @
     (if cstr key = k' then [\<lparr>ma_assignment = \<lparr>as_key = key, as_value = v, as_span = sp\<rparr>, ma_source = s\<rparr>] else [])"
  "written_assignments k' (h @ [(s, Ast_Hook ph body sp)]) = written_assignments k' h"
  "written_assignments k' (h @ [(s, Ast_Include path sp)]) = written_assignments k' h"
  by (simp_all add: written_blocks_def written_assignments_def)

lemma last_of_snoc [simp]: "last_of (xs @ [x]) = Some x" "last_of [x] = Some x" "last_of [] = None"
  by (simp_all add: last_of_def)

lemma last_of_None [simp]: "last_of xs = None \<longleftrightarrow> xs = []"
  by (simp add: last_of_def)

lemma overridden_properly_snoc:
  "overridden_properly (bs @ [b]) \<longleftrightarrow> overridden_properly bs \<and> (block_overrides (snd b) \<longleftrightarrow> bs \<noteq> [])"
  by (auto simp: overridden_properly_def split: list.splits)

definition history_inv :: "history \<Rightarrow> lower_ctx \<times> merged \<Rightarrow> bool" where
  "history_inv h st \<longleftrightarrow> merged_ok (snd st) \<and>
     (\<forall>k. assignment_table (snd st) k = last_of (written_assignments k h)) \<and>
     (problems (fst st) = 0 \<longrightarrow>
        (\<forall>k. fst k \<noteq> ascii ''global'' \<longrightarrow> overridden_properly (written_blocks k h) \<and>
           block_table (snd st) k = map_option (case_prod kept) (last_of (written_blocks k h))) \<and>
        list_all (\<lambda>si. \<not> stray (snd si)) h)"

definition clean :: "history \<Rightarrow> bool" where
  "clean h \<longleftrightarrow> (\<forall>k. overridden_properly (written_blocks k h)) \<and> list_all (\<lambda>si. \<not> stray (snd si)) h"

definition accepted_inv :: "history \<Rightarrow> lower_ctx \<times> merged \<Rightarrow> bool" where
  "accepted_inv h st \<longleftrightarrow> merged_ok (snd st) \<and> (clean h \<longrightarrow> problems (fst st) = 0 \<and>
     (\<forall>k. block_table (snd st) k = map_option (case_prod kept) (last_of (written_blocks k h))))"

lemma set_source_fields [simp]:
  "snd (set_source s st) = snd st" "problems (fst (set_source s st)) = problems (fst st)"
  by (cases st; simp add: set_source_def)+

lemma inv_set_source [simp]:
  "history_inv h (set_source s st) \<longleftrightarrow> history_inv h st"
  "accepted_inv h (set_source s st) \<longleftrightarrow> accepted_inv h st"
  by (simp_all add: history_inv_def accepted_inv_def)

lemma merge_block_ok:
  assumes "merged_ok m" "merge_block (ctx, m) block source = (ctx', m')"
  shows "merged_ok m' \<and> m_assignments m' = m_assignments m"
proof (cases "find_block (m_blocks m) block")
  case None
  with assms show ?thesis
    by (auto simp: merge_block_def merged_ok_def take_block_kept find_block_None split: if_splits)
next
  case (Some i)
  note i = find_block_Some [OF Some]
  have upd: "merged_ok (m\<lparr>m_blocks := (m_blocks m)[i := x]\<rparr>)" if "mb_key x = block_key block" for x
  proof -
    have "map mb_key ((m_blocks m)[i := x]) = map mb_key (m_blocks m)"
      using i that by (metis list_update_id map_update)
    with assms(1) show ?thesis by (simp add: merged_ok_def)
  qed
  obtain c t where mg: "merge_into_global ctx (m_blocks m ! i) block source = (c, t)" by fastforce
  with merge_into_global_keeps [OF mg] i have "mb_key t = block_key block" by (simp add: mb_key_def)
  with Some assms upd mg show ?thesis
    by (auto simp: merge_block_def Let_def take_block_kept simp del: ascii_simps split: if_splits)
qed

lemma merge_assignment_step:
  assumes "merge_assignment (ctx, m) a source = (ctx', m')" "merged_ok m"
  shows "ctx' = ctx \<and> merged_ok m' \<and> block_table m' = block_table m \<and>
    assignment_table m' = (assignment_table m)(cstr (as_key a) \<mapsto> \<lparr>ma_assignment = a, ma_source = source\<rparr>)"
proof -
  have "ma_key \<lparr>ma_assignment = a, ma_source = source\<rparr> = cstr (as_key a)" by (simp add: ma_key_def)
  with assms put_assignment_distinct show ?thesis
    by (auto simp: merge_assignment_def merged_ok_def block_table_def assignment_table_def put_assignment_table)
qed

lemma history_block_step:
  assumes inv: "history_inv h (ctx, m)" and run: "merge_block (ctx, m) block source = (ctx', m')"
  shows "history_inv (h @ [(source, Ast_Block block)]) (ctx', m')"
proof -
  from inv have ok: "merged_ok m" by (simp add: history_inv_def)
  note ok' = merge_block_ok [OF ok run]
  then have at: "assignment_table m' = assignment_table m" by (simp add: assignment_table_def)
  have old: "overridden_properly (written_blocks k h) \<and>
      block_table m k = map_option (case_prod kept) (last_of (written_blocks k h))"
    if "problems ctx = 0" "fst k \<noteq> ascii ''global''" for k
    using inv that by (simp add: history_inv_def del: split_paired_All ascii_simps)
  have new: "overridden_properly (written_blocks k (h @ [(source, Ast_Block block)])) \<and>
      block_table m' k = map_option (case_prod kept) (last_of (written_blocks k (h @ [(source, Ast_Block block)])))"
    if p: "problems ctx' = 0" and k: "fst k \<noteq> ascii ''global''" for k
    using ok run
  proof (cases rule: merge_block_cases)
    case (fold_global existing target)
    with p k old [OF _ k] merge_into_global_keeps [OF fold_global(4)] show ?thesis
      by (auto simp del: ascii_simps)
  qed (use p old [OF _ k] in \<open>auto simp: overridden_properly_snoc simp del: ascii_simps\<close>)
  have "problems ctx' = 0 \<Longrightarrow> problems ctx = 0"
    using ok run by (cases rule: merge_block_cases) (auto dest: merge_into_global_keeps)
  with new inv ok' at show ?thesis by (simp add: history_inv_def del: split_paired_All ascii_simps)
qed

lemma history_step:
  assumes "history_inv h st"
  shows "history_inv (h @ [(source, item)]) (merge_item source st item)"
proof (cases item)
  case (Ast_Block block)
  then show ?thesis
    using history_block_step [of h "fst st" "snd st" block source] assms
    by (cases "merge_block st block source") simp
next
  case (Ast_Assignment key v sp)
  obtain ctx' m' where run: "merge_assignment (fst st, snd st)
      \<lparr>as_key = key, as_value = v, as_span = sp\<rparr> source = (ctx', m')" by fastforce
  with merge_assignment_step [OF run] assms Ast_Assignment show ?thesis
    by (simp add: history_inv_def del: split_paired_All ascii_simps)
next
  case (Ast_Hook ph body sp)
  with assms show ?thesis by (cases st) (simp add: history_inv_def del: split_paired_All ascii_simps)
next
  case (Ast_Include path sp)
  with assms show ?thesis by (cases st) (simp add: history_inv_def del: split_paired_All ascii_simps)
qed

lemma clean_snoc:
  "clean (h @ [(s, i)]) \<longleftrightarrow> clean h \<and> \<not> stray i \<and>
     (\<forall>b. i = Ast_Block b \<longrightarrow> (block_overrides b \<longleftrightarrow> written_blocks (block_key b) h \<noteq> []))"
  by (cases i) (auto simp: clean_def overridden_properly_snoc simp del: split_paired_All)

lemma accepted_step:
  assumes "accepted_inv h st"
  shows "accepted_inv (h @ [(source, item)]) (merge_item source st item)"
proof (cases item)
  case (Ast_Block block)
  from assms have ok: "merged_ok (snd st)" by (simp add: accepted_inv_def)
  have old: "problems (fst st) = 0 \<and>
      block_table (snd st) k = map_option (case_prod kept) (last_of (written_blocks k h))" if "clean h" for k
    using assms that by (simp add: accepted_inv_def del: split_paired_All)
  obtain ctx' m' where run: "merge_block (fst st, snd st) block source = (ctx', m')" by fastforce
  have "problems ctx' = 0 \<and> block_table m' k =
      map_option (case_prod kept) (last_of (written_blocks k (h @ [(source, Ast_Block block)])))"
    if c: "clean (h @ [(source, Ast_Block block)])" for k
    using ok run
  proof (cases rule: merge_block_cases)
  qed (use c old [of k] old [of "block_key block"] in \<open>auto simp: clean_snoc\<close>)
  with merge_block_ok [OF ok run] run Ast_Block show ?thesis
    by (simp add: accepted_inv_def del: split_paired_All)
next
  case (Ast_Assignment key v sp)
  obtain ctx' m' where run: "merge_assignment (fst st, snd st)
      \<lparr>as_key = key, as_value = v, as_span = sp\<rparr> source = (ctx', m')" by fastforce
  with merge_assignment_step [OF run] assms Ast_Assignment show ?thesis
    by (simp add: accepted_inv_def clean_snoc del: split_paired_All)
next
  case (Ast_Hook ph body sp)
  with assms show ?thesis by (cases st) (simp add: accepted_inv_def clean_snoc)
next
  case (Ast_Include path sp)
  with assms show ?thesis by (cases st) (simp add: accepted_inv_def clean_snoc)
qed

definition statements :: "source list \<Rightarrow> history" where
  "statements sources =
     concat (map (\<lambda>(name, file). case file of None \<Rightarrow> [] | Some items \<Rightarrow> map (Pair name) items) sources)"

lemma merge_run:
  assumes step: "\<And>h st s i. P h st \<Longrightarrow> P (h @ [(s, i)]) (merge_item s st i)"
    and source: "\<And>h st s. P h st \<Longrightarrow> P h (set_source s st)"
  shows "P h st \<Longrightarrow> P (h @ statements sources) (foldl merge_file st sources)"
proof (induction sources arbitrary: h st)
  case (Cons x xs)
  have items: "P h st \<Longrightarrow> P (h @ map (Pair s) items) (foldl (merge_item s) st items)" for h st s items
  proof (induction items arbitrary: h st)
    case (Cons i "is")
    from Cons.IH [OF step [OF Cons.prems, of s i]] show ?case by simp
  qed simp
  have "P (h @ statements [x]) (merge_file st x)"
    using items [OF source [OF Cons.prems]] Cons.prems
    by (auto simp: statements_def merge_file_def split: prod.split option.split)
  from Cons.IH [OF this] show ?case by (simp add: statements_def)
qed (simp add: statements_def)

subsection \<open>The global block\<close>

fun not_assignment :: "ast_item \<Rightarrow> bool" where
  "not_assignment (Ast_Assignment _ _ _) = False"
| "not_assignment _ = True"

fun assigns :: "bytes \<Rightarrow> ast_item \<Rightarrow> bool" where
  "assigns k (Ast_Assignment key _ _) = (cstr key = k)"
| "assigns k _ = False"

definition setting :: "bytes \<Rightarrow> merged_item list \<Rightarrow> merged_item option" where
  "setting k ms = find (\<lambda>m. assigns k (mi_item m)) ms"

definition sub_keys :: "ast_item list \<Rightarrow> (bytes \<times> bytes option) list" where
  "sub_keys is = [block_key b. Ast_Block b \<leftarrow> is]"

definition from_file :: "bytes option \<Rightarrow> ast_item \<Rightarrow> merged_item" where
  "from_file source i = \<lparr>mi_item = i, mi_source = source\<rparr>"

lemma clashing_None: "clashing ms inner = None \<longleftrightarrow> block_key inner \<notin> set (sub_keys (map mi_item ms))"
  by (induction ms) (auto simp: sub_keys_def same_key_iff split: ast_item.splits)

lemma setting_simps [simp]:
  "setting k [] = None"
  "setting k (m # ms) = (if assigns k (mi_item m) then Some m else setting k ms)"
  by (simp_all add: setting_def)

lemma replaced_None: "replaced ms key new = None \<longleftrightarrow> setting (cstr key) ms = None"
proof (induction ms)
  case (Cons m ms)
  then show ?case by (cases "mi_item m") simp_all
qed simp

lemma replaced_Some:
  assumes "replaced ms key new = Some ms'" "mi_item new = Ast_Assignment key v sp"
  shows "setting k ms' = (if k = cstr key then Some new else setting k ms) \<and>
    filter (not_assignment \<circ> mi_item) ms' = filter (not_assignment \<circ> mi_item) ms"
  using assms
proof (induction ms arbitrary: ms')
  case (Cons m ms)
  then show ?case by (cases "mi_item m") (auto split: if_splits)
qed simp

lemma setting_append: "setting k (ms @ ns) = (case setting k ms of None \<Rightarrow> setting k ns | Some m \<Rightarrow> Some m)"
  by (induction ms) simp_all

lemma global_item_step:
  assumes "merge_into_global_item source (ctx, t) i = (ctx', t')"
  shows "problems ctx \<le> problems ctx' \<and> (problems ctx' = problems ctx \<longrightarrow>
    filter (not_assignment \<circ> mi_item) (mb_items t') =
      filter (not_assignment \<circ> mi_item) (mb_items t) @ map (from_file source) (filter not_assignment [i]) \<and>
    setting k (mb_items t') = (if assigns k i then Some (from_file source i) else setting k (mb_items t)) \<and>
    (\<forall>b. i = Ast_Block b \<longrightarrow> block_key b \<notin> set (sub_keys (map mi_item (mb_items t)))))"
proof (cases i)
  case (Ast_Assignment key v sp)
  let ?new = "\<lparr>mi_item = Ast_Assignment key v sp, mi_source = source\<rparr>"
  show ?thesis
  proof (cases "replaced (mb_items t) key ?new")
    case None
    with assms Ast_Assignment replaced_None [of "mb_items t" key ?new] show ?thesis
      by (auto simp: merge_into_global_item_def keep_item_def setting_append from_file_def split: option.splits)
  next
    case (Some ms)
    with assms Ast_Assignment replaced_Some [OF Some] show ?thesis
      by (auto simp: merge_into_global_item_def from_file_def)
  qed
next
  case (Ast_Block b)
  with assms clashing_None [of "mb_items t" b] show ?thesis
    by (auto simp: merge_into_global_item_def keep_item_def setting_append from_file_def split: option.splits)
qed (use assms in \<open>auto simp: merge_into_global_item_def keep_item_def setting_append from_file_def
    split: option.splits\<close>)

lemma sub_keys_not_assignment: "sub_keys (map mi_item (filter (not_assignment \<circ> mi_item) ms)) = sub_keys (map mi_item ms)"
proof (induction ms)
  case (Cons m ms)
  then show ?case by (cases "mi_item m") (simp_all add: sub_keys_def)
qed simp

lemma sub_keys_simps:
  "sub_keys (is @ js) = sub_keys is @ sub_keys js"
  "sub_keys [] = []"
  "sub_keys (Ast_Block b # is) = block_key b # sub_keys is"
  "(\<And>b. i \<noteq> Ast_Block b) \<Longrightarrow> sub_keys (i # is) = sub_keys is"
  by (auto simp: sub_keys_def split: ast_item.split)

lemma sub_keys_from_file:
  "sub_keys (map mi_item (map (from_file source) (filter not_assignment is))) = sub_keys is"
proof (induction "is")
  case (Cons i "is")
  then show ?case by (cases i) (simp_all add: sub_keys_def from_file_def)
qed simp

lemma global_items_run:
  assumes "foldl (merge_into_global_item source) (ctx, t) is = (ctx', t')" "problems ctx' = problems ctx"
  shows "filter (not_assignment \<circ> mi_item) (mb_items t') =
      filter (not_assignment \<circ> mi_item) (mb_items t) @ map (from_file source) (filter not_assignment is) \<and>
    setting k (mb_items t') =
      (case last_of (filter (assigns k) is) of Some i \<Rightarrow> Some (from_file source i) | None \<Rightarrow> setting k (mb_items t)) \<and>
    distinct (sub_keys is) \<and> set (sub_keys is) \<inter> set (sub_keys (map mi_item (mb_items t))) = {}"
  using assms
proof (induction "is" arbitrary: ctx' t' rule: rev_induct)
  case (snoc i "is")
  obtain c1 t1 where run1: "foldl (merge_into_global_item source) (ctx, t) is = (c1, t1)" by fastforce
  with snoc.prems have run2: "merge_into_global_item source (c1, t1) i = (ctx', t')" by simp
  have le: "problems ctx \<le> problems c1"
    using merge_into_global_keeps [of ctx t "Block [] None False is no_span" source c1 t1] run1
    by (simp add: merge_into_global_def)
  with global_item_step [OF run2] snoc.prems have eq: "problems c1 = problems ctx" "problems ctx' = problems c1"
    by simp_all
  note IH = snoc.IH [OF run1 eq(1)] and st = global_item_step [OF run2, of k, THEN conjunct2, rule_format, OF eq(2)]
  have "sub_keys (map mi_item (mb_items t1)) = sub_keys (map mi_item (mb_items t)) @ sub_keys is"
    using IH sub_keys_not_assignment [of "mb_items t1"] sub_keys_not_assignment [of "mb_items t"]
      sub_keys_from_file [of source "is"] by (simp add: sub_keys_simps comp_def)
  with IH st show ?case
    by (cases i) (auto simp: sub_keys_simps comp_def)
qed (simp_all add: sub_keys_simps)

subsection \<open>The properties\<close>

definition demo_block :: "string \<Rightarrow> bool \<Rightarrow> ast_item list \<Rightarrow> ast_block" where
  "demo_block head ov is = Block (ascii head) None ov is no_span"

text \<open>
  C2.  Precedence.  When the merge succeeds, no key is held twice; every top-level key has the last
  value written for it, with the file that wrote it; and every block other than \<^verbatim>\<open>global\<close> is the last
  one written under its head and label, whole, with every statement credited to that file -- and it
  was written once without \<^verbatim>\<open>override\<close> and with it every time after.  Nothing was a hook or an
  unresolved include.
\<close>

theorem merge_precedence:
  assumes "ncfg_merge sources d = (Inr m, d')"
  shows "merged_ok m \<and>
    (\<forall>k. assignment_table m k = last_of (written_assignments k (statements sources))) \<and>
    (\<forall>k. fst k \<noteq> ascii ''global'' \<longrightarrow>
       overridden_properly (written_blocks k (statements sources)) \<and>
       block_table m k = map_option (case_prod kept) (last_of (written_blocks k (statements sources)))) \<and>
    list_all (\<lambda>si. \<not> stray (snd si)) (statements sources)"
proof -
  let ?st = "(\<lparr>lc_source = None, lc_diags = d\<rparr>, no_merged)"
  obtain ctx m1 where run: "foldl merge_file ?st sources = (ctx, m1)" by fastforce
  have "history_inv [] ?st"
    by (simp add: history_inv_def merged_ok_def no_merged_def assignment_table_def block_table_def
        written_assignments_def written_blocks_def overridden_properly_def)
  from merge_run [of history_inv, OF history_step _ this, of sources]
  have "history_inv (statements sources) (ctx, m1)" by (simp add: run)
  moreover have "m1 = m" "problems ctx = 0"
    using assms run by (auto simp: ncfg_merge_def Let_def ncfg_diags_any_def problems_def split: if_splits)
  ultimately show ?thesis by (simp add: history_inv_def del: split_paired_All ascii_simps)
qed

theorem merge_precedence_witness:
  "\<exists>m d'. ncfg_merge [(Some (ascii ''a''), Some [Ast_Block (demo_block ''vpn'' False [])]),
       (Some (ascii ''b''), Some [Ast_Block (demo_block ''vpn'' True [])])] \<lparr>lds_at = [], lds_total = 0\<rparr> = (Inr m, d') \<and>
     block_table m (ascii ''vpn'', None) = Some (kept (Some (ascii ''b'')) (demo_block ''vpn'' True []))"
proof -
  let ?s = "[(Some (ascii ''a''), Some [Ast_Block (demo_block ''vpn'' False [])]),
       (Some (ascii ''b''), Some [Ast_Block (demo_block ''vpn'' True [])])]"
  let ?d = "\<lparr>lds_at = [], lds_total = 0\<rparr>"
  have "\<not> isl (fst (ncfg_merge ?s ?d))" by code_simp
  then obtain m d' where run: "ncfg_merge ?s ?d = (Inr m, d')"
    by (metis prod.collapse sum.collapse(2))
  have "written_blocks (ascii ''vpn'', None) (statements ?s) =
      [(Some (ascii ''a''), demo_block ''vpn'' False []), (Some (ascii ''b''), demo_block ''vpn'' True [])]"
    by (simp add: written_blocks_def statements_def demo_block_def block_key_def cstr_def)
  with merge_precedence [OF run] have "block_table m (ascii ''vpn'', None) =
      Some (kept (Some (ascii ''b'')) (demo_block ''vpn'' True []))"
    by (simp add: last_of_def del: split_paired_All)
  with run show ?thesis by blast
qed

text \<open>
  The merge refuses nothing it should take.  Files in which every block -- \<^verbatim>\<open>global\<close> too -- is
  written once without \<^verbatim>\<open>override\<close> and only with it after, with no hook and no include at the top
  level, merge without a diagnostic, and every block of the result is the last one written.
\<close>

theorem merge_accepts:
  assumes "lds_total d = 0" "clean (statements sources)"
  shows "\<exists>m. ncfg_merge sources d = (Inr m, snd (ncfg_merge sources d)) \<and>
    (\<forall>k. block_table m k = map_option (case_prod kept) (last_of (written_blocks k (statements sources))))"
proof -
  let ?st = "(\<lparr>lc_source = None, lc_diags = d\<rparr>, no_merged)"
  obtain ctx m where run: "foldl merge_file ?st sources = (ctx, m)" by fastforce
  have "accepted_inv [] ?st"
    using assms(1) by (simp add: accepted_inv_def merged_ok_def no_merged_def block_table_def written_blocks_def problems_def)
  from merge_run [of accepted_inv, OF accepted_step _ this, of sources]
  have "accepted_inv (statements sources) (ctx, m)" by (simp add: run)
  with assms(2) have "problems ctx = 0 \<and>
      (\<forall>k. block_table m k = map_option (case_prod kept) (last_of (written_blocks k (statements sources))))"
    by (simp add: accepted_inv_def del: split_paired_All)
  with run show ?thesis by (simp add: ncfg_merge_def Let_def ncfg_diags_any_def problems_def del: split_paired_All)
qed

theorem merge_accepts_witness:
  "\<exists>m. ncfg_merge [(Some (ascii ''a''), Some [Ast_Block (demo_block ''global'' False [])])]
       \<lparr>lds_at = [], lds_total = 0\<rparr> = (Inr m, \<lparr>lds_at = [], lds_total = 0\<rparr>) \<and>
     block_table m (ascii ''global'', None) = Some (kept (Some (ascii ''a'')) (demo_block ''global'' False []))"
proof -
  let ?s = "[(Some (ascii ''a''), Some [Ast_Block (demo_block ''global'' False [])])]"
  let ?d = "\<lparr>lds_at = [], lds_total = 0\<rparr>"
  have st: "statements ?s = [(Some (ascii ''a''), Ast_Block (demo_block ''global'' False []))]"
    by (simp add: statements_def)
  have "clean (statements ?s)"
    unfolding st by (auto simp: clean_def written_blocks_def overridden_properly_def demo_block_def)
  with merge_accepts [of ?d ?s] obtain m where m: "ncfg_merge ?s ?d = (Inr m, snd (ncfg_merge ?s ?d))"
    "\<forall>k. block_table m k = map_option (case_prod kept) (last_of (written_blocks k (statements ?s)))" by auto
  have "snd (ncfg_merge ?s ?d) = ?d" by code_simp
  moreover have "written_blocks (ascii ''global'', None) (statements ?s) =
      [(Some (ascii ''a''), demo_block ''global'' False [])]"
    unfolding st by (simp add: written_blocks_def demo_block_def block_key_def cstr_def)
  ultimately show ?thesis using m by (intro exI [of _ m]) (simp del: split_paired_All ascii_simps)
qed

text \<open>
  Contributions to \<^verbatim>\<open>global\<close> combine.  Folding a second \<^verbatim>\<open>global\<close> block in without a diagnostic
  loses nothing: its sub-blocks (and anything else that is not an assignment) are appended in order
  behind the ones already there, credited to its file; a key it sets has its last value there and
  every other key keeps the value it had; and none of its sub-blocks has the key of another or of
  one already there -- such a collision is a diagnostic.
\<close>

theorem global_combines:
  assumes "merge_into_global ctx t block source = (ctx', t')" "problems ctx' = problems ctx"
  shows "filter (not_assignment \<circ> mi_item) (mb_items t') =
      filter (not_assignment \<circ> mi_item) (mb_items t) @
      map (from_file source) (filter not_assignment (block_items block)) \<and>
    (\<forall>k. setting k (mb_items t') =
      (case last_of (filter (assigns k) (block_items block)) of
         Some i \<Rightarrow> Some (from_file source i) | None \<Rightarrow> setting k (mb_items t))) \<and>
    distinct (sub_keys (block_items block)) \<and>
    set (sub_keys (block_items block)) \<inter> set (sub_keys (map mi_item (mb_items t))) = {}"
  using global_items_run [of source ctx t "block_items block" ctx' t'] assms
  by (simp add: merge_into_global_def)

theorem global_combines_witness:
  "\<exists>ctx' t'. merge_into_global \<lparr>lc_source = None, lc_diags = \<lparr>lds_at = [], lds_total = 0\<rparr>\<rparr>
       (kept (Some (ascii ''a'')) (demo_block ''global'' False [Ast_Block (demo_block ''dns'' False [])]))
       (demo_block ''global'' False [Ast_Block (demo_block ''control'' False [])]) (Some (ascii ''b'')) = (ctx', t') \<and>
     map mi_source (filter (not_assignment \<circ> mi_item) (mb_items t')) = [Some (ascii ''a''), Some (ascii ''b'')]"
proof -
  let ?ctx = "\<lparr>lc_source = None, lc_diags = \<lparr>lds_at = [], lds_total = 0\<rparr>\<rparr>"
  let ?t = "kept (Some (ascii ''a'')) (demo_block ''global'' False [Ast_Block (demo_block ''dns'' False [])])"
  let ?b = "demo_block ''global'' False [Ast_Block (demo_block ''control'' False [])]"
  obtain ctx' t' where run: "merge_into_global ?ctx ?t ?b (Some (ascii ''b'')) = (ctx', t')" by fastforce
  have "problems (fst (merge_into_global ?ctx ?t ?b (Some (ascii ''b'')))) = problems ?ctx" by code_simp
  with run have "problems ctx' = problems ?ctx" by simp
  from global_combines [OF run this] have "filter (not_assignment \<circ> mi_item) (mb_items t') =
      filter (not_assignment \<circ> mi_item) (mb_items ?t) @
      map (from_file (Some (ascii ''b''))) (filter not_assignment (block_items ?b))" by blast
  then have "map mi_source (filter (not_assignment \<circ> mi_item) (mb_items t')) = [Some (ascii ''a''), Some (ascii ''b'')]"
    by (simp add: kept_def demo_block_def from_file_def)
  from run this show ?thesis by (intro exI conjI)
qed

text \<open>
  A redefinition without \<^verbatim>\<open>override\<close> is named on both sides: the tables stay as they were, and the
  diagnostic is placed at the second definition, in the file that wrote it, with a sentence that
  holds the file and the line of the first.
\<close>

theorem redefinition_named:
  assumes "merged_ok m" "block_table m (block_key b) = Some e" "\<not> block_overrides b"
    "cstr (block_head b) \<noteq> ascii ''global''" "length (lds_at (lc_diags ctx)) < NCFG_DIAGS_MAX"
  shows "snd (merge_block (ctx, m) b source) = m \<and>
    lds_at (lc_diags (fst (merge_block (ctx, m) b source))) = lds_at (lc_diags ctx) @
      [\<lparr>ld_source = source, ld_span = block_span b, ld_message = snprintf_text NCFG_ERROR_MAX
         (ascii ''`'' @ ncfg_ast_block_describe NCFG_ERROR_MAX b @ ascii ''` is already defined: first defined at '' @
          source_name (mb_source e) @ ascii '':'' @ decimal (sp_line (block_span (mb_block e))) @
          ascii ''; write `override '' @ ncfg_ast_block_describe NCFG_ERROR_MAX b @ ascii ''` to replace it'')\<rparr>]"
proof (cases "find_block (m_blocks m) b")
  case None
  then have "block_table m (block_key b) = None" by (simp add: block_table_def map_of_keyed_None find_block_None)
  with assms(2) show ?thesis by simp
next
  case (Some i)
  note i = find_block_Some [OF Some]
  with assms(1,2) have "m_blocks m ! i = e"
    using map_of_keyed_nth [of i "m_blocks m" mb_key] by (simp add: block_table_def merged_ok_def)
  with Some assms(3-5) show ?thesis
    by (simp add: merge_block_def Let_def say_already_def ncfg_diag_def del: ascii_simps)
qed

theorem redefinition_named_witness:
  "ld_message (hd (lds_at (lc_diags (fst (merge_block
     (\<lparr>lc_source = None, lc_diags = \<lparr>lds_at = [], lds_total = 0\<rparr>\<rparr>,
      \<lparr>m_blocks = [kept (Some (ascii ''a'')) (demo_block ''vpn'' False [])], m_assignments = []\<rparr>)
     (demo_block ''vpn'' False []) (Some (ascii ''b'')))))))
   = ascii ''`vpn` is already defined: first defined at a:1; write `override vpn` to replace it''"
proof -
  let ?ctx = "\<lparr>lc_source = None, lc_diags = \<lparr>lds_at = [], lds_total = 0\<rparr>\<rparr>"
  let ?e = "kept (Some (ascii ''a'')) (demo_block ''vpn'' False [])"
  let ?m = "\<lparr>m_blocks = [?e], m_assignments = []\<rparr>"
  let ?b = "demo_block ''vpn'' False []"
  have "merged_ok ?m" by (simp add: merged_ok_def)
  moreover have "block_table ?m (block_key ?b) = Some ?e" by (simp add: block_table_def)
  moreover have "\<not> block_overrides ?b" "cstr (block_head ?b) \<noteq> ascii ''global''"
    "length (lds_at (lc_diags ?ctx)) < NCFG_DIAGS_MAX"
    by (simp_all add: demo_block_def cstr_def NCFG_DIAGS_MAX_def)
  ultimately have "lds_at (lc_diags (fst (merge_block (?ctx, ?m) ?b (Some (ascii ''b''))))) =
      [\<lparr>ld_source = Some (ascii ''b''), ld_span = block_span ?b, ld_message = snprintf_text NCFG_ERROR_MAX
         (ascii ''`'' @ ncfg_ast_block_describe NCFG_ERROR_MAX ?b @ ascii ''` is already defined: first defined at '' @
          source_name (mb_source ?e) @ ascii '':'' @ decimal (sp_line (block_span (mb_block ?e))) @
          ascii ''; write `override '' @ ncfg_ast_block_describe NCFG_ERROR_MAX ?b @ ascii ''` to replace it'')\<rparr>]"
    using redefinition_named [of ?m ?b ?e ?ctx "Some (ascii ''b'')"] by (simp del: ascii_simps)
  moreover have "snprintf_text NCFG_ERROR_MAX
         (ascii ''`'' @ ncfg_ast_block_describe NCFG_ERROR_MAX ?b @ ascii ''` is already defined: first defined at '' @
          source_name (mb_source ?e) @ ascii '':'' @ decimal (sp_line (block_span (mb_block ?e))) @
          ascii ''; write `override '' @ ncfg_ast_block_describe NCFG_ERROR_MAX ?b @ ascii ''` to replace it'') =
      ascii ''`vpn` is already defined: first defined at a:1; write `override vpn` to replace it''" by code_simp
  ultimately show ?thesis by (simp del: ascii_simps)
qed

end
