(* ===== verification/Ncfg_Plan.thy ===== *)
theory Ncfg_Plan
  imports Ncfg_Buf
begin

text \<open>
  Plans: the action taxonomy of \<^verbatim>\<open>c/include/ncfg/plan.h\<close>, the questions \<^verbatim>\<open>c/src/plan/action.c\<close>
  answers about an op, the container of \<^verbatim>\<open>c/src/plan/plan.c\<close> and the gate of \<^verbatim>\<open>c/src/plan/build.c\<close>
  every action passes before it enters a plan.

  An op is a tag and a union.  Only the arm the tag names is ever read, so the union is one record:
  \<open>op_name\<close> is the member that names what the op acts on (\<^verbatim>\<open>name\<close>, \<^verbatim>\<open>iface\<close>, \<^verbatim>\<open>device\<close> or \<^verbatim>\<open>scope\<close>,
  depending on the arm), the fields after it are the members of the single arms this code reads,
  and \<open>op_rest\<close> stands for the members nothing here reads.  A nullable \<^verbatim>\<open>const char *\<close> is a
  \<open>cstring\<close>.  Interning copies a string, so a plan holds the values it was given; memory is granted,
  and \<open>pl_failed\<close> is the sticky failure a plan may already carry.
\<close>

type_synonym cstring = "bytes option"
type_synonym action_id = "32 word"

definition NCFG_OP_SUBJECT_MAX :: nat where
  "NCFG_OP_SUBJECT_MAX = 192"

definition NCFG_PLAN_NO_ACTION :: action_id where
  "NCFG_PLAN_NO_ACTION = 0xffffffff"

subsection \<open>The taxonomy\<close>

datatype (plugins only: code) op_kind =
    NCFG_OP_LINK_CREATE | NCFG_OP_LINK_DELETE | NCFG_OP_LINK_SET_MTU | NCFG_OP_LINK_SET_MAC
  | NCFG_OP_LINK_SET_MASTER | NCFG_OP_LINK_UNSET_MASTER | NCFG_OP_LINK_UP | NCFG_OP_LINK_DOWN
  | NCFG_OP_ADDR_ADD | NCFG_OP_ADDR_DEL | NCFG_OP_ROUTE_ADD | NCFG_OP_ROUTE_DEL
  | NCFG_OP_BACKEND_START | NCFG_OP_BACKEND_STOP | NCFG_OP_BACKEND_RELOAD
  | NCFG_OP_BRIDGE_VLAN_ADD | NCFG_OP_BRIDGE_VLAN_DEL | NCFG_OP_WIFI_SET_PROFILES
  | NCFG_OP_WIFI_ASSOCIATE | NCFG_OP_WIFI_DISASSOCIATE | NCFG_OP_WIFI_SET_REGDOM
  | NCFG_OP_ACCESS_CONTROL_ADD | NCFG_OP_ACCESS_CONTROL_DEL | NCFG_OP_NEIGHBOUR_ADD
  | NCFG_OP_NEIGHBOUR_DEL | NCFG_OP_STATION_STEER | NCFG_OP_LINK_SET_BOND
  | NCFG_OP_LINK_SET_BRIDGE | NCFG_OP_LINK_SET_MACVLAN | NCFG_OP_LINK_SET_TUNNEL
  | NCFG_OP_LINK_SET_VXLAN | NCFG_OP_WG_SET_DEVICE | NCFG_OP_WG_SET_PEERS | NCFG_OP_DNS_APPLY
  | NCFG_OP_LINK_SET_OFFLOADS | NCFG_OP_LINK_SET_WDS | NCFG_OP_LINK_SET_IPV6_TOKEN
  | NCFG_OP_RULE_ADD | NCFG_OP_RULE_DEL | NCFG_OP_QDISC_SET | NCFG_OP_QDISC_RESET
  | NCFG_OP_INGRESS_REDIRECT | NCFG_OP_INGRESS_REDIRECT_CLEAR | NCFG_OP_SYSCTL_SET_FORWARDING
  | NCFG_OP_SYSCTL_SET_PRIVACY | NCFG_OP_SYSCTL_SET_ACCEPT_RA | NCFG_OP_HOSTNAME_SET
  | NCFG_OP_NFTABLES_REPLACE | NCFG_OP_HOOK_RUN | NCFG_OP_COMMIT_ARM | NCFG_OP_COMMIT_CONFIRM
  | NCFG_OP_COMMIT_REVERT

datatype acl_policy = NCFG_ACL_POLICY_DENY | NCFG_ACL_POLICY_ALLOW

datatype hook_phase_t =
    NCFG_HOOK_PHASE_PRE_UP | NCFG_HOOK_PHASE_UP | NCFG_HOOK_PHASE_POST_UP
  | NCFG_HOOK_PHASE_PRE_DOWN | NCFG_HOOK_PHASE_DOWN | NCFG_HOOK_PHASE_POST_DOWN
  | NCFG_HOOK_PHASE_CARRIER | NCFG_HOOK_PHASE_LEASE | NCFG_HOOK_PHASE_ROAM
  | NCFG_HOOK_PHASE_PORTAL | NCFG_HOOK_PHASE_DRIFT

datatype backend_kind =
    NCFG_BACKEND_DHCP4 | NCFG_BACKEND_DHCP6 | NCFG_BACKEND_SUPPLICANT | NCFG_BACKEND_ACCESS_POINT
  | NCFG_BACKEND_WIREGUARD | NCFG_BACKEND_PPPOE | NCFG_BACKEND_OPENVPN | NCFG_BACKEND_DNS
  | NCFG_BACKEND_ROUTER_ADVERT | NCFG_BACKEND_LINK_LOCAL | NCFG_BACKEND_DHCP_SERVER
  | NCFG_BACKEND_UPNP

datatype interface_kind_tag =
    NCFG_KIND_PHYSICAL | NCFG_KIND_BRIDGE | NCFG_KIND_BOND | NCFG_KIND_VLAN | NCFG_KIND_VXLAN
  | NCFG_KIND_WIREGUARD | NCFG_KIND_PPPOE | NCFG_KIND_OPENVPN | NCFG_KIND_DUMMY | NCFG_KIND_VETH
  | NCFG_KIND_VRF | NCFG_KIND_MACVLAN | NCFG_KIND_TUNNEL | NCFG_KIND_TUN | NCFG_KIND_IFB
  | NCFG_KIND_MESH_POINT | NCFG_KIND_RADIO

record 'd op =
  op_kind :: op_kind
  op_name :: cstring
  op_link_kind :: "interface_kind_tag option"
  op_addr :: cstring
  op_destination :: cstring
  op_priority :: "64 word option"
  op_backend :: backend_kind
  op_vid :: "64 word"
  op_list :: acl_policy
  op_station :: cstring
  op_bssid :: cstring
  op_imminent :: bool
  op_enabled :: bool
  op_phase :: hook_phase_t
  op_rest :: 'd

fun ncfg_hook_phase_name :: "hook_phase_t \<Rightarrow> bytes" where
    "ncfg_hook_phase_name NCFG_HOOK_PHASE_PRE_UP = ascii ''pre_up''"
  | "ncfg_hook_phase_name NCFG_HOOK_PHASE_UP = ascii ''up''"
  | "ncfg_hook_phase_name NCFG_HOOK_PHASE_POST_UP = ascii ''post_up''"
  | "ncfg_hook_phase_name NCFG_HOOK_PHASE_PRE_DOWN = ascii ''pre_down''"
  | "ncfg_hook_phase_name NCFG_HOOK_PHASE_DOWN = ascii ''down''"
  | "ncfg_hook_phase_name NCFG_HOOK_PHASE_POST_DOWN = ascii ''post_down''"
  | "ncfg_hook_phase_name NCFG_HOOK_PHASE_CARRIER = ascii ''carrier''"
  | "ncfg_hook_phase_name NCFG_HOOK_PHASE_LEASE = ascii ''lease''"
  | "ncfg_hook_phase_name NCFG_HOOK_PHASE_ROAM = ascii ''roam''"
  | "ncfg_hook_phase_name NCFG_HOOK_PHASE_PORTAL = ascii ''portal''"
  | "ncfg_hook_phase_name NCFG_HOOK_PHASE_DRIFT = ascii ''drift''"

fun ncfg_backend_kind_name :: "backend_kind \<Rightarrow> bytes" where
    "ncfg_backend_kind_name NCFG_BACKEND_DHCP4 = ascii ''dhcp4''"
  | "ncfg_backend_kind_name NCFG_BACKEND_DHCP6 = ascii ''dhcp6''"
  | "ncfg_backend_kind_name NCFG_BACKEND_SUPPLICANT = ascii ''supplicant''"
  | "ncfg_backend_kind_name NCFG_BACKEND_ACCESS_POINT = ascii ''access_point''"
  | "ncfg_backend_kind_name NCFG_BACKEND_WIREGUARD = ascii ''wire_guard''"
  | "ncfg_backend_kind_name NCFG_BACKEND_PPPOE = ascii ''pppoe''"
  | "ncfg_backend_kind_name NCFG_BACKEND_OPENVPN = ascii ''open_vpn''"
  | "ncfg_backend_kind_name NCFG_BACKEND_DNS = ascii ''dns''"
  | "ncfg_backend_kind_name NCFG_BACKEND_ROUTER_ADVERT = ascii ''router_advert''"
  | "ncfg_backend_kind_name NCFG_BACKEND_LINK_LOCAL = ascii ''link_local''"
  | "ncfg_backend_kind_name NCFG_BACKEND_DHCP_SERVER = ascii ''dhcp_server''"
  | "ncfg_backend_kind_name NCFG_BACKEND_UPNP = ascii ''upnp''"

subsection \<open>The questions every op answers\<close>

primrec op_kind_name :: "op_kind \<Rightarrow> bytes" where
    "op_kind_name NCFG_OP_LINK_CREATE = ascii ''link.create''"
  | "op_kind_name NCFG_OP_LINK_DELETE = ascii ''link.delete''"
  | "op_kind_name NCFG_OP_LINK_SET_MTU = ascii ''link.set_mtu''"
  | "op_kind_name NCFG_OP_LINK_SET_MAC = ascii ''link.set_mac''"
  | "op_kind_name NCFG_OP_LINK_SET_MASTER = ascii ''link.set_master''"
  | "op_kind_name NCFG_OP_LINK_UNSET_MASTER = ascii ''link.unset_master''"
  | "op_kind_name NCFG_OP_LINK_UP = ascii ''link.up''"
  | "op_kind_name NCFG_OP_LINK_DOWN = ascii ''link.down''"
  | "op_kind_name NCFG_OP_ADDR_ADD = ascii ''addr.add''"
  | "op_kind_name NCFG_OP_ADDR_DEL = ascii ''addr.del''"
  | "op_kind_name NCFG_OP_ROUTE_ADD = ascii ''route.add''"
  | "op_kind_name NCFG_OP_ROUTE_DEL = ascii ''route.del''"
  | "op_kind_name NCFG_OP_BACKEND_START = ascii ''backend.start''"
  | "op_kind_name NCFG_OP_BACKEND_STOP = ascii ''backend.stop''"
  | "op_kind_name NCFG_OP_BACKEND_RELOAD = ascii ''backend.reload''"
  | "op_kind_name NCFG_OP_BRIDGE_VLAN_ADD = ascii ''bridge.vlan.add''"
  | "op_kind_name NCFG_OP_BRIDGE_VLAN_DEL = ascii ''bridge.vlan.del''"
  | "op_kind_name NCFG_OP_WIFI_SET_PROFILES = ascii ''wifi.set_profiles''"
  | "op_kind_name NCFG_OP_WIFI_ASSOCIATE = ascii ''wifi.associate''"
  | "op_kind_name NCFG_OP_WIFI_DISASSOCIATE = ascii ''wifi.disassociate''"
  | "op_kind_name NCFG_OP_WIFI_SET_REGDOM = ascii ''wifi.set_regdom''"
  | "op_kind_name NCFG_OP_ACCESS_CONTROL_ADD = ascii ''access_control.add''"
  | "op_kind_name NCFG_OP_ACCESS_CONTROL_DEL = ascii ''access_control.del''"
  | "op_kind_name NCFG_OP_NEIGHBOUR_ADD = ascii ''neighbour.add''"
  | "op_kind_name NCFG_OP_NEIGHBOUR_DEL = ascii ''neighbour.del''"
  | "op_kind_name NCFG_OP_STATION_STEER = ascii ''station.steer''"
  | "op_kind_name NCFG_OP_LINK_SET_BOND = ascii ''link.set_bond''"
  | "op_kind_name NCFG_OP_LINK_SET_BRIDGE = ascii ''link.set_bridge''"
  | "op_kind_name NCFG_OP_LINK_SET_MACVLAN = ascii ''link.set_macvlan''"
  | "op_kind_name NCFG_OP_LINK_SET_TUNNEL = ascii ''link.set_tunnel''"
  | "op_kind_name NCFG_OP_LINK_SET_VXLAN = ascii ''link.set_vxlan''"
  | "op_kind_name NCFG_OP_WG_SET_DEVICE = ascii ''wg.set_device''"
  | "op_kind_name NCFG_OP_WG_SET_PEERS = ascii ''wg.set_peers''"
  | "op_kind_name NCFG_OP_DNS_APPLY = ascii ''dns.apply''"
  | "op_kind_name NCFG_OP_LINK_SET_OFFLOADS = ascii ''link.set_offloads''"
  | "op_kind_name NCFG_OP_LINK_SET_WDS = ascii ''link.set_wds''"
  | "op_kind_name NCFG_OP_LINK_SET_IPV6_TOKEN = ascii ''link.set_ipv6_token''"
  | "op_kind_name NCFG_OP_RULE_ADD = ascii ''rule.add''"
  | "op_kind_name NCFG_OP_RULE_DEL = ascii ''rule.del''"
  | "op_kind_name NCFG_OP_QDISC_SET = ascii ''qdisc.set''"
  | "op_kind_name NCFG_OP_QDISC_RESET = ascii ''qdisc.reset''"
  | "op_kind_name NCFG_OP_INGRESS_REDIRECT = ascii ''ingress.redirect''"
  | "op_kind_name NCFG_OP_INGRESS_REDIRECT_CLEAR = ascii ''ingress.redirect.clear''"
  | "op_kind_name NCFG_OP_SYSCTL_SET_FORWARDING = ascii ''sysctl.set_forwarding''"
  | "op_kind_name NCFG_OP_SYSCTL_SET_PRIVACY = ascii ''sysctl.set_privacy''"
  | "op_kind_name NCFG_OP_SYSCTL_SET_ACCEPT_RA = ascii ''sysctl.set_accept_ra''"
  | "op_kind_name NCFG_OP_HOSTNAME_SET = ascii ''hostname.set''"
  | "op_kind_name NCFG_OP_NFTABLES_REPLACE = ascii ''nftables.replace''"
  | "op_kind_name NCFG_OP_HOOK_RUN = ascii ''hook.run''"
  | "op_kind_name NCFG_OP_COMMIT_ARM = ascii ''commit.arm''"
  | "op_kind_name NCFG_OP_COMMIT_CONFIRM = ascii ''commit.confirm''"
  | "op_kind_name NCFG_OP_COMMIT_REVERT = ascii ''commit.revert''"

definition ncfg_op_name :: "'d op \<Rightarrow> bytes" where
  "ncfg_op_name op = op_kind_name (op_kind op)"

definition ncfg_op_is_disruptive :: "'d op \<Rightarrow> bool" where
  "ncfg_op_is_disruptive op =
     (if op_kind op \<in>
        {
      NCFG_OP_LINK_DELETE, NCFG_OP_LINK_DOWN, NCFG_OP_LINK_SET_MASTER, NCFG_OP_LINK_UNSET_MASTER,
      NCFG_OP_LINK_SET_MAC, NCFG_OP_LINK_SET_MTU, NCFG_OP_ADDR_DEL, NCFG_OP_ROUTE_DEL,
      NCFG_OP_BACKEND_STOP, NCFG_OP_BACKEND_RELOAD, NCFG_OP_WIFI_DISASSOCIATE,
      NCFG_OP_WIFI_ASSOCIATE, NCFG_OP_WG_SET_DEVICE, NCFG_OP_WG_SET_PEERS,
      NCFG_OP_LINK_SET_BRIDGE, NCFG_OP_LINK_SET_BOND, NCFG_OP_LINK_SET_MACVLAN,
      NCFG_OP_LINK_SET_TUNNEL, NCFG_OP_LINK_SET_VXLAN, NCFG_OP_BRIDGE_VLAN_DEL, NCFG_OP_RULE_DEL,
      NCFG_OP_INGRESS_REDIRECT_CLEAR} then True
      else if op_kind op = NCFG_OP_SYSCTL_SET_FORWARDING then \<not> op_enabled op
      else if op_kind op = NCFG_OP_ACCESS_CONTROL_ADD then op_list op = NCFG_ACL_POLICY_DENY
      else if op_kind op = NCFG_OP_ACCESS_CONTROL_DEL then op_list op = NCFG_ACL_POLICY_ALLOW
      else if op_kind op = NCFG_OP_STATION_STEER then op_imminent op
      else if op_kind op = NCFG_OP_HOOK_RUN then
        op_phase op = NCFG_HOOK_PHASE_PRE_DOWN \<or> op_phase op = NCFG_HOOK_PHASE_DOWN \<or>
        op_phase op = NCFG_HOOK_PHASE_POST_DOWN
      else False)"

definition ncfg_op_is_host_wide_config :: "'d op \<Rightarrow> bool" where
  "ncfg_op_is_host_wide_config op \<longleftrightarrow>
     op_kind op = NCFG_OP_DNS_APPLY \<or> op_kind op = NCFG_OP_HOSTNAME_SET"

definition ncfg_op_interface :: "'d op \<Rightarrow> cstring" where
  "ncfg_op_interface op =
     (if op_kind op \<in>
        {
      NCFG_OP_RULE_ADD, NCFG_OP_RULE_DEL, NCFG_OP_NFTABLES_REPLACE, NCFG_OP_HOSTNAME_SET,
      NCFG_OP_DNS_APPLY, NCFG_OP_COMMIT_ARM, NCFG_OP_COMMIT_CONFIRM, NCFG_OP_COMMIT_REVERT} then None
      else op_name op)"

primrec subject_class :: "op_kind \<Rightarrow> bytes option" where
    "subject_class NCFG_OP_LINK_CREATE = Some (ascii ''link'')"
  | "subject_class NCFG_OP_LINK_DELETE = Some (ascii ''link'')"
  | "subject_class NCFG_OP_LINK_UP = Some (ascii ''link'')"
  | "subject_class NCFG_OP_LINK_DOWN = Some (ascii ''link'')"
  | "subject_class NCFG_OP_LINK_SET_MTU = Some (ascii ''mtu'')"
  | "subject_class NCFG_OP_LINK_SET_MAC = Some (ascii ''mac'')"
  | "subject_class NCFG_OP_LINK_SET_MASTER = Some (ascii ''master'')"
  | "subject_class NCFG_OP_LINK_UNSET_MASTER = Some (ascii ''master'')"
  | "subject_class NCFG_OP_LINK_SET_BOND = Some (ascii ''bond'')"
  | "subject_class NCFG_OP_LINK_SET_BRIDGE = Some (ascii ''bridge'')"
  | "subject_class NCFG_OP_LINK_SET_MACVLAN = Some (ascii ''macvlan'')"
  | "subject_class NCFG_OP_LINK_SET_TUNNEL = Some (ascii ''tunnel'')"
  | "subject_class NCFG_OP_LINK_SET_VXLAN = Some (ascii ''vxlan'')"
  | "subject_class NCFG_OP_LINK_SET_OFFLOADS = Some (ascii ''offloads'')"
  | "subject_class NCFG_OP_LINK_SET_WDS = Some (ascii ''wds'')"
  | "subject_class NCFG_OP_LINK_SET_IPV6_TOKEN = Some (ascii ''token'')"
  | "subject_class NCFG_OP_ADDR_ADD = Some (ascii ''addr'')"
  | "subject_class NCFG_OP_ADDR_DEL = Some (ascii ''addr'')"
  | "subject_class NCFG_OP_ROUTE_ADD = Some (ascii ''route'')"
  | "subject_class NCFG_OP_ROUTE_DEL = Some (ascii ''route'')"
  | "subject_class NCFG_OP_RULE_ADD = Some (ascii ''iprule'')"
  | "subject_class NCFG_OP_RULE_DEL = Some (ascii ''iprule'')"
  | "subject_class NCFG_OP_BACKEND_START = Some (ascii ''backend'')"
  | "subject_class NCFG_OP_BACKEND_STOP = Some (ascii ''backend'')"
  | "subject_class NCFG_OP_BACKEND_RELOAD = Some (ascii ''backend'')"
  | "subject_class NCFG_OP_BRIDGE_VLAN_ADD = Some (ascii ''vlan'')"
  | "subject_class NCFG_OP_BRIDGE_VLAN_DEL = Some (ascii ''vlan'')"
  | "subject_class NCFG_OP_WIFI_SET_PROFILES = Some (ascii ''wifi'')"
  | "subject_class NCFG_OP_WIFI_ASSOCIATE = Some (ascii ''wifi'')"
  | "subject_class NCFG_OP_WIFI_DISASSOCIATE = Some (ascii ''wifi'')"
  | "subject_class NCFG_OP_WIFI_SET_REGDOM = Some (ascii ''regdom'')"
  | "subject_class NCFG_OP_ACCESS_CONTROL_ADD = Some (ascii ''acl'')"
  | "subject_class NCFG_OP_ACCESS_CONTROL_DEL = Some (ascii ''acl'')"
  | "subject_class NCFG_OP_NEIGHBOUR_ADD = Some (ascii ''neighbour'')"
  | "subject_class NCFG_OP_NEIGHBOUR_DEL = Some (ascii ''neighbour'')"
  | "subject_class NCFG_OP_STATION_STEER = Some (ascii ''station'')"
  | "subject_class NCFG_OP_WG_SET_DEVICE = Some (ascii ''wireguard'')"
  | "subject_class NCFG_OP_WG_SET_PEERS = Some (ascii ''wireguard'')"
  | "subject_class NCFG_OP_QDISC_SET = Some (ascii ''qdisc'')"
  | "subject_class NCFG_OP_QDISC_RESET = Some (ascii ''qdisc'')"
  | "subject_class NCFG_OP_INGRESS_REDIRECT = Some (ascii ''ingress'')"
  | "subject_class NCFG_OP_INGRESS_REDIRECT_CLEAR = Some (ascii ''ingress'')"
  | "subject_class NCFG_OP_SYSCTL_SET_FORWARDING = Some (ascii ''forwarding'')"
  | "subject_class NCFG_OP_SYSCTL_SET_PRIVACY = Some (ascii ''privacy'')"
  | "subject_class NCFG_OP_SYSCTL_SET_ACCEPT_RA = Some (ascii ''accept_ra'')"
  | "subject_class NCFG_OP_DNS_APPLY = Some (ascii ''dns'')"
  | "subject_class NCFG_OP_NFTABLES_REPLACE = Some (ascii ''nftables'')"
  | "subject_class NCFG_OP_HOSTNAME_SET = Some (ascii ''hostname'')"
  | "subject_class NCFG_OP_HOOK_RUN = Some (ascii ''hook'')"
  | "subject_class NCFG_OP_COMMIT_ARM = None"
  | "subject_class NCFG_OP_COMMIT_CONFIRM = None"
  | "subject_class NCFG_OP_COMMIT_REVERT = None"

text \<open>The loop over the tags, from the first to the last.\<close>

definition op_kinds :: "op_kind list" where
  "op_kinds =
    [
     NCFG_OP_LINK_CREATE, NCFG_OP_LINK_DELETE, NCFG_OP_LINK_SET_MTU, NCFG_OP_LINK_SET_MAC,
     NCFG_OP_LINK_SET_MASTER, NCFG_OP_LINK_UNSET_MASTER, NCFG_OP_LINK_UP, NCFG_OP_LINK_DOWN,
     NCFG_OP_ADDR_ADD, NCFG_OP_ADDR_DEL, NCFG_OP_ROUTE_ADD, NCFG_OP_ROUTE_DEL,
     NCFG_OP_BACKEND_START, NCFG_OP_BACKEND_STOP, NCFG_OP_BACKEND_RELOAD,
     NCFG_OP_BRIDGE_VLAN_ADD, NCFG_OP_BRIDGE_VLAN_DEL, NCFG_OP_WIFI_SET_PROFILES,
     NCFG_OP_WIFI_ASSOCIATE, NCFG_OP_WIFI_DISASSOCIATE, NCFG_OP_WIFI_SET_REGDOM,
     NCFG_OP_ACCESS_CONTROL_ADD, NCFG_OP_ACCESS_CONTROL_DEL, NCFG_OP_NEIGHBOUR_ADD,
     NCFG_OP_NEIGHBOUR_DEL, NCFG_OP_STATION_STEER, NCFG_OP_LINK_SET_BOND,
     NCFG_OP_LINK_SET_BRIDGE, NCFG_OP_LINK_SET_MACVLAN, NCFG_OP_LINK_SET_TUNNEL,
     NCFG_OP_LINK_SET_VXLAN, NCFG_OP_WG_SET_DEVICE, NCFG_OP_WG_SET_PEERS, NCFG_OP_DNS_APPLY,
     NCFG_OP_LINK_SET_OFFLOADS, NCFG_OP_LINK_SET_WDS, NCFG_OP_LINK_SET_IPV6_TOKEN,
     NCFG_OP_RULE_ADD, NCFG_OP_RULE_DEL, NCFG_OP_QDISC_SET, NCFG_OP_QDISC_RESET,
     NCFG_OP_INGRESS_REDIRECT, NCFG_OP_INGRESS_REDIRECT_CLEAR, NCFG_OP_SYSCTL_SET_FORWARDING,
     NCFG_OP_SYSCTL_SET_PRIVACY, NCFG_OP_SYSCTL_SET_ACCEPT_RA, NCFG_OP_HOSTNAME_SET,
     NCFG_OP_NFTABLES_REPLACE, NCFG_OP_HOOK_RUN, NCFG_OP_COMMIT_ARM, NCFG_OP_COMMIT_CONFIRM,
     NCFG_OP_COMMIT_REVERT]"

definition ncfg_op_subject_class_known :: "bytes \<Rightarrow> bool" where
  "ncfg_op_subject_class_known name \<longleftrightarrow>
     name \<noteq> [] \<and> list_ex (\<lambda>kind. subject_class kind = Some name) op_kinds"

text \<open>The detail a subject carries: \<^verbatim>\<open>snprintf\<close> into 96 bytes, empty where the op has none.\<close>

definition text_or_empty :: "cstring \<Rightarrow> bytes" where
  "text_or_empty s = (case s of None \<Rightarrow> [] | Some s \<Rightarrow> s)"

definition subject_detail :: "'d op \<Rightarrow> bytes" where
  "subject_detail op =
     snprintf_text 96
      (if op_kind op \<in> {NCFG_OP_ADDR_ADD, NCFG_OP_ADDR_DEL} then text_or_empty (op_addr op)
       else if op_kind op \<in> {NCFG_OP_ROUTE_ADD, NCFG_OP_ROUTE_DEL} then
         text_or_empty (op_destination op)
       else if op_kind op \<in> {NCFG_OP_RULE_ADD, NCFG_OP_RULE_DEL} then
         (case op_priority op of None \<Rightarrow> [] | Some priority \<Rightarrow> decimal_int (sint priority))
       else if op_kind op \<in> {NCFG_OP_BACKEND_START, NCFG_OP_BACKEND_STOP, NCFG_OP_BACKEND_RELOAD} then
         ncfg_backend_kind_name (op_backend op)
       else if op_kind op \<in> {NCFG_OP_BRIDGE_VLAN_ADD, NCFG_OP_BRIDGE_VLAN_DEL} then
         decimal_int (sint (op_vid op))
       else if op_kind op \<in> {NCFG_OP_ACCESS_CONTROL_ADD, NCFG_OP_ACCESS_CONTROL_DEL} then
         text_or_empty (op_station op)
       else if op_kind op = NCFG_OP_STATION_STEER then text_or_empty (op_station op)
       else if op_kind op \<in> {NCFG_OP_NEIGHBOUR_ADD, NCFG_OP_NEIGHBOUR_DEL} then
         text_or_empty (op_bssid op)
       else if op_kind op = NCFG_OP_HOOK_RUN then ncfg_hook_phase_name (op_phase op)
       else [])"

definition ncfg_op_subject :: "'d op \<Rightarrow> nat \<Rightarrow> bytes option" where
  "ncfg_op_subject op out_size =
     (if out_size = 0 then None
      else case subject_class (op_kind op) of
        None \<Rightarrow> None
      | Some class_name \<Rightarrow>
          (let scope = ncfg_op_interface op;
               detail = subject_detail op;
               written = class_name @ ascii '':'' @
                 (case scope of None \<Rightarrow> ascii ''host'' | Some scope \<Rightarrow> scope) @
                 (if detail \<noteq> [] then ascii ''/'' else []) @ detail
           in if out_size \<le> length written then None else Some written))"

subsection \<open>The container\<close>

record reason =
  rs_interface :: cstring
  rs_field :: cstring
  rs_desired :: cstring
  rs_observed :: cstring

record 'd action =
  ac_id :: action_id
  ac_op :: "'d op"
  ac_reason :: reason
  ac_depends_on :: "action_id list"
  ac_inverse :: "'d op option"

record plan_warning =
  wn_message :: cstring
  wn_interface :: cstring

record refusal =
  rf_interface :: cstring
  rf_op :: cstring
  rf_guard :: cstring
  rf_reason :: reason
  rf_override_with :: cstring

record stranded =
  sd_interface :: cstring
  sd_credential :: cstring
  sd_irrevocable :: cstring
  sd_remove_with :: cstring
  sd_consent_with :: cstring

record 'd plan =
  pl_actions :: "'d action list"
  pl_warnings :: "plan_warning list"
  pl_refusals :: "refusal list"
  pl_stranded :: "stranded list"
  pl_failed :: bool

definition ncfg_plan_new :: "'d plan" where
  "ncfg_plan_new =
     \<lparr>pl_actions = [], pl_warnings = [], pl_refusals = [], pl_stranded = [], pl_failed = False\<rparr>"

definition ncfg_plan_failed :: "'d plan \<Rightarrow> bool" where
  "ncfg_plan_failed plan = pl_failed plan"

definition ncfg_plan_is_empty :: "'d plan \<Rightarrow> bool" where
  "ncfg_plan_is_empty plan \<longleftrightarrow> pl_actions plan = []"

definition ncfg_plan_was_refused :: "'d plan \<Rightarrow> bool" where
  "ncfg_plan_was_refused plan \<longleftrightarrow> pl_refusals plan \<noteq> []"

definition ncfg_plan_strands_credentials :: "'d plan \<Rightarrow> bool" where
  "ncfg_plan_strands_credentials plan \<longleftrightarrow> pl_stranded plan \<noteq> []"

definition ncfg_plan_internf :: "bytes \<Rightarrow> bytes" where
  "ncfg_plan_internf message = snprintf_text NCFG_ERROR_MAX message"

definition ncfg_plan_warn :: "'d plan \<Rightarrow> cstring \<Rightarrow> bytes \<Rightarrow> 'd plan" where
  "ncfg_plan_warn plan interface message =
     (if pl_failed plan then plan
      else plan\<lparr>pl_warnings := pl_warnings plan @
                  [\<lparr>wn_message = Some message, wn_interface = interface\<rparr>]\<rparr>)"

definition warning_cut :: bytes where
  "warning_cut = ascii '' [cut: this warning is longer than netcfgd prints]''"

definition ncfg_plan_warnf :: "'d plan \<Rightarrow> cstring \<Rightarrow> bytes \<Rightarrow> 'd plan" where
  "ncfg_plan_warnf plan interface wanted =
     (let message = snprintf_text NCFG_ERROR_MAX wanted;
          message = (if NCFG_ERROR_MAX \<le> length wanted
                     then take (NCFG_ERROR_MAX - (length warning_cut + 1)) message @ warning_cut
                     else message)
      in ncfg_plan_warn plan interface message)"

definition ncfg_plan_refuse :: "'d plan \<Rightarrow> refusal \<Rightarrow> 'd plan" where
  "ncfg_plan_refuse plan refusal =
     (if pl_failed plan then plan else plan\<lparr>pl_refusals := pl_refusals plan @ [refusal]\<rparr>)"

definition ncfg_plan_strand :: "'d plan \<Rightarrow> stranded \<Rightarrow> 'd plan" where
  "ncfg_plan_strand plan stranded =
     (if pl_failed plan then plan else plan\<lparr>pl_stranded := pl_stranded plan @ [stranded]\<rparr>)"

definition ncfg_plan_add ::
  "'d plan \<Rightarrow> 'd op \<Rightarrow> reason \<Rightarrow> action_id list \<Rightarrow> 'd op option \<Rightarrow> action_id \<times> 'd plan" where
  "ncfg_plan_add plan op reason depends_on undo =
     (if pl_failed plan then (NCFG_PLAN_NO_ACTION, plan)
      else
        (let edges = filter (\<lambda>id. id \<noteq> NCFG_PLAN_NO_ACTION) depends_on;
             action = \<lparr>ac_id = of_nat (length (pl_actions plan)), ac_op = op, ac_reason = reason,
                       ac_depends_on = edges, ac_inverse = undo\<rparr>;
             plan = plan\<lparr>pl_actions := pl_actions plan @ [action]\<rparr>;
             plan = (if undo = None
                     then ncfg_plan_warnf plan (ncfg_op_interface op)
                            (ncfg_op_name op @
                             ascii '' cannot be undone; commit-confirm will not revert it'')
                     else plan)
         in (ac_id action, plan)))"

subsection \<open>The gate\<close>

record guard =
  gd_interface :: bytes
  gd_reason :: cstring

text \<open>
  A builder: the plan under construction, the document's locks, the disruptions the caller consents
  to, the guards in force, and the devices that are unmanaged, declined or being cleared.
\<close>

record 'd plan_builder =
  bd_plan :: "'d plan"
  bd_locked :: "cstring list"
  bd_allow_disruption :: "cstring list"
  bd_guards :: "guard list"
  bd_unmanaged :: "cstring list"
  bd_declined :: "cstring list"
  bd_clearing :: "cstring list"
  bd_tearing_down :: bool

definition ncfg_plan_names :: "cstring list \<Rightarrow> cstring \<Rightarrow> bool" where
  "ncfg_plan_names names name = (name \<noteq> None \<and> list_ex (\<lambda>entry. entry = name) names)"

definition ncfg_plan_clearing :: "'d plan_builder \<Rightarrow> cstring \<Rightarrow> bool" where
  "ncfg_plan_clearing builder name = ncfg_plan_names (bd_clearing builder) name"

definition locked :: "'d plan_builder \<Rightarrow> 'd op \<Rightarrow> reason \<Rightarrow> bool \<times> 'd plan_builder" where
  "locked builder op reason =
     (if bd_locked builder = [] then (False, builder)
      else case ncfg_op_subject op NCFG_OP_SUBJECT_MAX of
        None \<Rightarrow> (False, builder)
      | Some subject \<Rightarrow>
          (if list_ex (\<lambda>entry. entry = Some subject) (bd_locked builder) then
             (let refusal =
                \<lparr>rf_interface = ncfg_op_interface op, rf_op = Some (ncfg_op_name op),
                 rf_guard = Some (ncfg_plan_internf
                   (ascii ''`'' @ subject @ ascii ''` is locked'')),
                 rf_reason = reason,
                 rf_override_with = Some (ncfg_plan_internf
                   (ascii ''remove `'' @ subject @ ascii ''` from `global { locked = [...] }`''))\<rparr>
              in (True, builder\<lparr>bd_plan := ncfg_plan_refuse (bd_plan builder) refusal\<rparr>))
           else (False, builder)))"

definition refused :: "'d plan_builder \<Rightarrow> 'd op \<Rightarrow> reason \<Rightarrow> bool \<times> 'd plan_builder" where
  "refused builder op reason =
     (if \<not> ncfg_op_is_disruptive op then (False, builder)
      else case ncfg_op_interface op of
        None \<Rightarrow> (False, builder)
      | Some interface \<Rightarrow>
          (if ncfg_plan_names (bd_allow_disruption builder) (Some interface) then (False, builder)
           else case find (\<lambda>guard. gd_interface guard = interface) (bd_guards builder) of
             None \<Rightarrow> (False, builder)
           | Some guard \<Rightarrow>
               (let refusal =
                  \<lparr>rf_interface = Some interface, rf_op = Some (ncfg_op_name op),
                   rf_guard = gd_reason guard, rf_reason = reason,
                   rf_override_with = Some (ncfg_plan_internf
                     (ascii ''ncfg apply --allow-disruption '' @ interface))\<rparr>
                in (True, builder\<lparr>bd_plan := ncfg_plan_refuse (bd_plan builder) refusal\<rparr>))))"

definition ncfg_builder_push ::
  "'d plan_builder \<Rightarrow> 'd op \<Rightarrow> reason \<Rightarrow> action_id list \<Rightarrow> 'd op option
     \<Rightarrow> action_id \<times> 'd plan_builder" where
  "ncfg_builder_push builder op reason depends_on undo =
     (let interface = ncfg_op_interface op in
      if ncfg_plan_names (bd_unmanaged builder) interface \<and>
         \<not> (bd_tearing_down builder \<and> ncfg_plan_clearing builder interface)
      then (NCFG_PLAN_NO_ACTION, builder)
      else if ncfg_plan_names (bd_declined builder) interface then (NCFG_PLAN_NO_ACTION, builder)
      else case locked builder op reason of
        (True, builder) \<Rightarrow> (NCFG_PLAN_NO_ACTION, builder)
      | (False, builder) \<Rightarrow>
          (case refused builder op reason of
             (True, builder) \<Rightarrow> (NCFG_PLAN_NO_ACTION, builder)
           | (False, builder) \<Rightarrow>
               (case ncfg_plan_add (bd_plan builder) op reason depends_on undo of
                  (added, plan) \<Rightarrow> (added, builder\<lparr>bd_plan := plan\<rparr>))))"

definition ncfg_plan_confirm_window :: "64 word option \<Rightarrow> 64 word option \<Rightarrow> 64 word option" where
  "ncfg_plan_confirm_window confirm_default asked =
     (case asked of
        Some window \<Rightarrow> if 0 <s window then Some window else None
      | None \<Rightarrow>
          (case confirm_default of
             Some window \<Rightarrow> if 0 <s window then Some window else None
           | None \<Rightarrow> None))"

end
