(* ===== verification/Ncfg_Json.thy ===== *)
theory Ncfg_Json
  imports Ncfg_Buf
begin

text \<open>
  The JSON writer of \<^verbatim>\<open>c/src/json/write.c\<close>.  A writer holds the buffer it writes into, the first
  misuse as a sentence, the number of open containers and one frame per level: \<open>jw_frames\<close> always
  has \<open>NCFG_JSON_MAX_DEPTH + 1\<close> entries and entry 0 stands for the document itself.  A misuse fails
  the buffer too.  Appends are granted their memory; the buffer's ceiling is kept.  Member names and
  the argument of \<^verbatim>\<open>ncfg_json_write_string\<close> are C strings, and an \<open>option\<close> where the code tells a null
  pointer apart.
\<close>

definition NCFG_JSON_MAX_DEPTH :: nat where
  "NCFG_JSON_MAX_DEPTH = 32"

record json_frame =
  jf_is_object :: bool
  jf_has_child :: bool
  jf_wants_value :: bool

record json_writer =
  jw_buf :: buf
  jw_failure :: "bytes option"
  jw_depth :: nat
  jw_frames :: "json_frame list"

definition no_frame :: json_frame where
  "no_frame = \<lparr>jf_is_object = False, jf_has_child = False, jf_wants_value = False\<rparr>"

definition ncfg_json_write_init :: "buf \<Rightarrow> json_writer" where
  "ncfg_json_write_init buf =
     \<lparr>jw_buf = buf, jw_failure = None, jw_depth = 0,
      jw_frames = replicate (NCFG_JSON_MAX_DEPTH + 1) no_frame\<rparr>"

definition writer_fail :: "json_writer \<Rightarrow> bytes \<Rightarrow> json_writer" where
  "writer_fail writer why =
     writer\<lparr>jw_failure := (case jw_failure writer of None \<Rightarrow> Some why | Some first \<Rightarrow> Some first),
            jw_buf := (jw_buf writer)\<lparr>bfailed := True\<rparr>\<rparr>"

definition usable :: "json_writer \<Rightarrow> bool \<times> json_writer" where
  "usable writer =
     (if jw_failure writer \<noteq> None then (False, writer)
      else if ncfg_buf_failed (jw_buf writer) then
        (False, writer_fail writer (ascii ''the buffer this document is written into failed''))
      else (True, writer))"

abbreviation jw_frame :: "json_writer \<Rightarrow> json_frame" where
  "jw_frame writer \<equiv> jw_frames writer ! jw_depth writer"

definition jw_set_frame :: "json_frame \<Rightarrow> json_writer \<Rightarrow> json_writer" where
  "jw_set_frame frame writer = writer\<lparr>jw_frames := (jw_frames writer)[jw_depth writer := frame]\<rparr>"

definition jw_add :: "bytes \<Rightarrow> json_writer \<Rightarrow> json_writer" where
  "jw_add bs writer = writer\<lparr>jw_buf := ncfg_buf_add granted (jw_buf writer) bs\<rparr>"

definition begin_value :: "json_writer \<Rightarrow> bool \<times> json_writer" where
  "begin_value writer =
     (case usable writer of
        (False, writer) \<Rightarrow> (False, writer)
      | (True, writer) \<Rightarrow>
          (let frame = jw_frame writer in
           if jw_depth writer = 0 then
             if jf_has_child frame then
               (False, writer_fail writer (ascii ''a second value after the document's only one''))
             else (True, jw_set_frame (frame\<lparr>jf_has_child := True\<rparr>) writer)
           else if jf_is_object frame then
             if \<not> jf_wants_value frame then
               (False, writer_fail writer (ascii ''a value where a member name belongs''))
             else (True, jw_set_frame (frame\<lparr>jf_wants_value := False, jf_has_child := True\<rparr>) writer)
           else
             (let writer = (if jf_has_child frame then jw_add [ch CHR '',''] writer else writer) in
              (True, jw_set_frame (frame\<lparr>jf_has_child := True\<rparr>) writer))))"

subsection \<open>Strings\<close>

text \<open>The continuation bytes folded into a code point, or \<open>None\<close> at one that is not.\<close>

fun continuation :: "32 word \<Rightarrow> bytes \<Rightarrow> 32 word option" where
  "continuation code_point [] = Some code_point"
| "continuation code_point (b # bs) =
     (if b AND 0xc0 \<noteq> 0x80 then None
      else continuation (push_bit 6 code_point OR ucast (b AND 0x3f)) bs)"

definition utf8_step :: "bytes \<Rightarrow> nat" where
  "utf8_step at =
     (let lead = at ! 0; available = length at in
      if lead < 0x80 then 1
      else
        let (needed, code_point) =
          (if 0xc2 \<le> lead \<and> lead \<le> 0xdf then (2, lead AND 0x1f)
           else if 0xe0 \<le> lead \<and> lead \<le> 0xef then (3, lead AND 0x0f)
           else if 0xf0 \<le> lead \<and> lead \<le> 0xf4 then (4, lead AND 0x07)
           else (0, 0))
        in if needed = 0 then 0
           else if available < needed then 0
           else case continuation (ucast code_point) (slice 1 needed at) of
             None \<Rightarrow> 0
           | Some code_point \<Rightarrow>
               if needed = 3 \<and> (code_point < 0x800 \<or> 0xd800 \<le> code_point \<and> code_point \<le> 0xdfff) then 0
               else if needed = 4 \<and> (code_point < 0x10000 \<or> 0x10ffff < code_point) then 0
               else needed)"

lemma utf8_step_le:
  assumes "at \<noteq> []" "utf8_step at \<noteq> 0"
  shows "utf8_step at \<le> length at"
  using assms
  by (auto simp: utf8_step_def Let_def Suc_le_eq split: if_splits option.splits)

definition shortform :: "byte \<Rightarrow> bytes option" where
  "shortform c =
     (if c = ch CHR 0x22 then Some [ch CHR 0x5C, ch CHR 0x22]
      else if c = ch CHR 0x5C then Some [ch CHR 0x5C, ch CHR 0x5C]
      else if c = 8 then Some [ch CHR 0x5C, ch CHR ''b'']
      else if c = 12 then Some [ch CHR 0x5C, ch CHR ''f'']
      else if c = 10 then Some [ch CHR 0x5C, ch CHR ''n'']
      else if c = 13 then Some [ch CHR 0x5C, ch CHR ''r'']
      else if c = 9 then Some [ch CHR 0x5C, ch CHR ''t'']
      else None)"

function write_quoted_loop :: "json_writer \<Rightarrow> bytes \<Rightarrow> json_writer" where
  "write_quoted_loop writer at =
     (if at = [] then jw_add [ch CHR 0x22] writer
      else
        let c = at ! 0 in
        case shortform c of
          Some form \<Rightarrow> write_quoted_loop (jw_add form writer) (drop 1 at)
        | None \<Rightarrow>
            if c < 0x20 then
              write_quoted_loop
                (jw_add [ch CHR 0x5C, ch CHR ''u'', ch CHR ''0'', ch CHR ''0'',
                         hex_digits ! unat (drop_bit 4 c), hex_digits ! unat (c AND 0x0f)] writer)
                (drop 1 at)
            else
              let step = utf8_step at in
              if step = 0 then writer_fail writer (ascii ''a string that is not UTF-8'')
              else write_quoted_loop (jw_add (take step at) writer) (drop step at))"
  by pat_completeness auto
termination
  by (relation "measure (\<lambda>(writer, at). length at)") auto

declare write_quoted_loop.simps [simp del]

definition write_quoted :: "json_writer \<Rightarrow> bytes \<Rightarrow> json_writer" where
  "write_quoted writer bs = write_quoted_loop (jw_add [ch CHR 0x22] writer) bs"

subsection \<open>Containers\<close>

definition container_begin :: "json_writer \<Rightarrow> byte \<Rightarrow> bool \<Rightarrow> json_writer" where
  "container_begin writer opening is_object =
     (case begin_value writer of
        (False, writer) \<Rightarrow> writer
      | (True, writer) \<Rightarrow>
          if NCFG_JSON_MAX_DEPTH \<le> jw_depth writer then
            writer_fail writer (ascii ''nesting deeper than the reader accepts'')
          else
            (let writer = jw_add [opening] writer;
                 writer = writer\<lparr>jw_depth := jw_depth writer + 1\<rparr>
             in jw_set_frame
                  \<lparr>jf_is_object = is_object, jf_has_child = False, jf_wants_value = False\<rparr> writer))"

definition container_end :: "json_writer \<Rightarrow> byte \<Rightarrow> bool \<Rightarrow> json_writer" where
  "container_end writer closing is_object =
     (case usable writer of
        (False, writer) \<Rightarrow> writer
      | (True, writer) \<Rightarrow>
          if jw_depth writer = 0 then
            writer_fail writer (if is_object then ascii ''an object closed with none open''
                                else ascii ''an array closed with none open'')
          else if jf_is_object (jw_frame writer) \<noteq> is_object then
            writer_fail writer (if is_object then ascii ''an object end closing an array''
                                else ascii ''an array end closing an object'')
          else if jf_wants_value (jw_frame writer) then
            writer_fail writer (ascii ''an object closed after a member name with no value'')
          else (jw_add [closing] writer)\<lparr>jw_depth := jw_depth writer - 1\<rparr>)"

definition ncfg_json_write_object_begin :: "json_writer \<Rightarrow> json_writer" where
  "ncfg_json_write_object_begin writer = container_begin writer (ch CHR ''{'') True"

definition ncfg_json_write_object_end :: "json_writer \<Rightarrow> json_writer" where
  "ncfg_json_write_object_end writer = container_end writer (ch CHR ''}'') True"

definition ncfg_json_write_array_begin :: "json_writer \<Rightarrow> json_writer" where
  "ncfg_json_write_array_begin writer = container_begin writer (ch CHR ''['') False"

definition ncfg_json_write_array_end :: "json_writer \<Rightarrow> json_writer" where
  "ncfg_json_write_array_end writer = container_end writer (ch CHR '']'') False"

subsection \<open>Names and values\<close>

definition ncfg_json_write_key :: "json_writer \<Rightarrow> bytes option \<Rightarrow> json_writer" where
  "ncfg_json_write_key writer name =
     (case usable writer of
        (False, writer) \<Rightarrow> writer
      | (True, writer) \<Rightarrow>
          if jw_depth writer = 0 \<or> \<not> jf_is_object (jw_frame writer) then
            writer_fail writer (ascii ''a member name outside an object'')
          else if jf_wants_value (jw_frame writer) then
            writer_fail writer (ascii ''a member name where its value belongs'')
          else case name of
            None \<Rightarrow> writer_fail writer (ascii ''a member with no name'')
          | Some name \<Rightarrow>
              (let writer = (if jf_has_child (jw_frame writer) then jw_add [ch CHR '',''] writer else writer);
                   writer = write_quoted writer (cstr name);
                   writer = jw_add [ch CHR '':''] writer
               in jw_set_frame ((jw_frame writer)\<lparr>jf_has_child := True, jf_wants_value := True\<rparr>) writer))"

definition ncfg_json_write_string_bytes :: "json_writer \<Rightarrow> bytes option \<Rightarrow> json_writer" where
  "ncfg_json_write_string_bytes writer bs =
     (case bs of
        None \<Rightarrow> (case usable writer of
                  (True, writer) \<Rightarrow> writer_fail writer (ascii ''a string that is a null pointer'')
                | (False, writer) \<Rightarrow> writer)
      | Some bs \<Rightarrow>
          (case begin_value writer of
             (False, writer) \<Rightarrow> writer
           | (True, writer) \<Rightarrow> write_quoted writer bs))"

definition ncfg_json_write_string :: "json_writer \<Rightarrow> bytes option \<Rightarrow> json_writer" where
  "ncfg_json_write_string writer text = ncfg_json_write_string_bytes writer (map_option cstr text)"

text \<open>A value that is one piece of text, once its place is taken.\<close>

definition write_scalar :: "json_writer \<Rightarrow> bytes \<Rightarrow> json_writer" where
  "write_scalar writer text =
     (case begin_value writer of
        (False, writer) \<Rightarrow> writer
      | (True, writer) \<Rightarrow> jw_add text writer)"

definition ncfg_json_write_int :: "json_writer \<Rightarrow> 64 word \<Rightarrow> json_writer" where
  "ncfg_json_write_int writer value = write_scalar writer (decimal_int (sint value))"

definition ncfg_json_write_uint :: "json_writer \<Rightarrow> 64 word \<Rightarrow> json_writer" where
  "ncfg_json_write_uint writer value = write_scalar writer (decimal (unat value))"

definition ncfg_json_write_bool :: "json_writer \<Rightarrow> bool \<Rightarrow> json_writer" where
  "ncfg_json_write_bool writer value =
     write_scalar writer (if value then ascii ''true'' else ascii ''false'')"

definition ncfg_json_write_null :: "json_writer \<Rightarrow> json_writer" where
  "ncfg_json_write_null writer = write_scalar writer (ascii ''null'')"

definition ncfg_json_write_member_string :: "json_writer \<Rightarrow> bytes option \<Rightarrow> bytes option \<Rightarrow> json_writer" where
  "ncfg_json_write_member_string writer name text =
     ncfg_json_write_string (ncfg_json_write_key writer name) text"

definition ncfg_json_write_member_int :: "json_writer \<Rightarrow> bytes option \<Rightarrow> 64 word \<Rightarrow> json_writer" where
  "ncfg_json_write_member_int writer name value =
     ncfg_json_write_int (ncfg_json_write_key writer name) value"

definition ncfg_json_write_member_bool :: "json_writer \<Rightarrow> bytes option \<Rightarrow> bool \<Rightarrow> json_writer" where
  "ncfg_json_write_member_bool writer name value =
     ncfg_json_write_bool (ncfg_json_write_key writer name) value"

subsection \<open>Asking the writer\<close>

definition ncfg_json_write_failed :: "json_writer \<Rightarrow> bool" where
  "ncfg_json_write_failed writer \<longleftrightarrow> jw_failure writer \<noteq> None \<or> ncfg_buf_failed (jw_buf writer)"

definition ncfg_json_write_failure :: "json_writer \<Rightarrow> bytes option" where
  "ncfg_json_write_failure writer = jw_failure writer"

definition ncfg_json_write_done :: "json_writer \<Rightarrow> bool" where
  "ncfg_json_write_done writer \<longleftrightarrow> \<not> ncfg_json_write_failed writer \<and>
     jw_depth writer = 0 \<and> jf_has_child (jw_frames writer ! 0)"

subsection \<open>Indentation\<close>

definition ncfg_json_pretty_break :: "buf \<Rightarrow> nat \<Rightarrow> buf" where
  "ncfg_json_pretty_break out depth =
     foldl (\<lambda>out _. ncfg_buf_add_text granted out (ascii ''  '')) (ncfg_buf_add_char granted out NL) [0..<depth]"

text \<open>The inner loop over a string: what is left behind its closing quote, or \<open>None\<close>.\<close>

fun pretty_string :: "bytes \<Rightarrow> buf \<Rightarrow> bytes option \<times> buf" where
  "pretty_string [] out = (None, out)"
| "pretty_string (c # rest) out =
     (let out = ncfg_buf_add_char granted out c in
      if c = ch CHR 0x5C \<and> rest \<noteq> [] then
        (case rest of
           e # rest \<Rightarrow> pretty_string rest (ncfg_buf_add_char granted out e)
         | [] \<Rightarrow> (None, out))
      else if c = ch CHR 0x22 then (Some rest, out)
      else pretty_string rest out)"

lemma pretty_string_shorter: "pretty_string cs out = (Some rest, out') \<Longrightarrow> length rest < length cs"
  by (induction cs out rule: pretty_string.induct) (fastforce simp: Let_def split: if_splits list.splits)+

function pretty_loop :: "bytes \<Rightarrow> nat \<Rightarrow> bool \<Rightarrow> buf \<Rightarrow> bool \<times> buf" where
  "pretty_loop [] depth pending out = (depth = 0, out)"
| "pretty_loop (one # rest) depth pending out =
     (if one = ch CHR ''}'' \<or> one = ch CHR '']'' then
        if depth = 0 then (False, out)
        else
          let depth = depth - 1;
              out = (if \<not> pending then ncfg_json_pretty_break out depth else out)
          in pretty_loop rest depth False (ncfg_buf_add_char granted out one)
      else if one = ch CHR '','' then
        pretty_loop rest depth pending (ncfg_json_pretty_break (ncfg_buf_add_char granted out one) depth)
      else if one = ch CHR '':'' then
        pretty_loop rest depth pending (ncfg_buf_add_text granted out (ascii '': ''))
      else
        let out = (if pending then ncfg_json_pretty_break out depth else out) in
        if one = ch CHR ''{'' \<or> one = ch CHR ''['' then
          pretty_loop rest (depth + 1) True (ncfg_buf_add_char granted out one)
        else if one \<noteq> ch CHR 0x22 then pretty_loop rest depth False (ncfg_buf_add_char granted out one)
        else
          case pretty_string rest (ncfg_buf_add_char granted out one) of
            (None, out) \<Rightarrow> (False, out)
          | (Some rest, out) \<Rightarrow> pretty_loop rest depth False out)"
  by pat_completeness auto
termination
  by (relation "measure (\<lambda>(cs, depth, pending, out). length cs)")
    (auto dest!: pretty_string_shorter [OF sym])

declare pretty_loop.simps(2) [simp del]

definition ncfg_json_pretty :: "bytes \<Rightarrow> buf \<Rightarrow> bool \<times> buf" where
  "ncfg_json_pretty compact out = pretty_loop (cstr compact) 0 False out"

end
