(* ===== verification/Ncfg_Apply.thy ===== *)
theory Ncfg_Apply
  imports Ncfg_Plan Ncfg_Json
begin

text \<open>
  The apply engine of \<^verbatim>\<open>c/src/apply/apply.c\<close> and its journal, \<^verbatim>\<open>c/src/apply/journal.c\<close>.

  The executor is the code's own seam, a function pointer with a state: here a function
  \<open>execute :: 's \<Rightarrow> 'd op \<Rightarrow> (bool \<times> bytes) \<times> 's\<close> that answers whether the op was carried out, the
  message it left (empty when it left none) and the machine afterwards.  The journal's memory may
  run out: \<open>grants n\<close> says whether the journal's \<open>n\<close>-th request to the allocator is granted, and
  \<open>jn_requests\<close> counts them.  What a run says to the log is its list of lines, before the log module
  cuts them.
\<close>

subsection \<open>What this build can carry out\<close>

definition or_question :: "cstring \<Rightarrow> bytes" where
  "or_question name = (case name of None \<Rightarrow> ascii ''?'' | Some name \<Rightarrow> name)"

fun ncfg_interface_kind_name :: "interface_kind_tag \<Rightarrow> bytes" where
    "ncfg_interface_kind_name NCFG_KIND_PHYSICAL = ascii ''physical''"
  | "ncfg_interface_kind_name NCFG_KIND_BRIDGE = ascii ''bridge''"
  | "ncfg_interface_kind_name NCFG_KIND_BOND = ascii ''bond''"
  | "ncfg_interface_kind_name NCFG_KIND_VLAN = ascii ''vlan''"
  | "ncfg_interface_kind_name NCFG_KIND_VXLAN = ascii ''vxlan''"
  | "ncfg_interface_kind_name NCFG_KIND_WIREGUARD = ascii ''wire_guard''"
  | "ncfg_interface_kind_name NCFG_KIND_PPPOE = ascii ''pppoe''"
  | "ncfg_interface_kind_name NCFG_KIND_OPENVPN = ascii ''open_vpn''"
  | "ncfg_interface_kind_name NCFG_KIND_DUMMY = ascii ''dummy''"
  | "ncfg_interface_kind_name NCFG_KIND_VETH = ascii ''veth''"
  | "ncfg_interface_kind_name NCFG_KIND_VRF = ascii ''vrf''"
  | "ncfg_interface_kind_name NCFG_KIND_MACVLAN = ascii ''macvlan''"
  | "ncfg_interface_kind_name NCFG_KIND_TUNNEL = ascii ''tunnel''"
  | "ncfg_interface_kind_name NCFG_KIND_TUN = ascii ''tun''"
  | "ncfg_interface_kind_name NCFG_KIND_IFB = ascii ''ifb''"
  | "ncfg_interface_kind_name NCFG_KIND_MESH_POINT = ascii ''mesh_point''"
  | "ncfg_interface_kind_name NCFG_KIND_RADIO = ascii ''radio''"

definition creatable :: "interface_kind_tag option \<Rightarrow> cstring \<Rightarrow> bytes + unit" where
  "creatable kind name =
     (case kind of
        None \<Rightarrow> Inl (ascii ''link.create for '' @
          (case name of None \<Rightarrow> ascii ''an unnamed link'' | Some name \<Rightarrow> name) @
          ascii '' carries no kind, so there is nothing to create it as'')
      | Some kind \<Rightarrow>
          if kind = NCFG_KIND_PHYSICAL then
            Inl (or_question name @
              ascii '' is a physical device: netcfgd configures one and cannot make one'')
          else if kind \<in> {NCFG_KIND_PPPOE, NCFG_KIND_OPENVPN} then
            Inl (ascii ''a '' @ ncfg_interface_kind_name kind @ ascii '' interface ('' @
              or_question name @
              ascii '') is created by the helper that connects it rather than by a netlink message: `backend.start` is what brings one up'')
          else Inr ())"

definition ifb_device :: "cstring \<Rightarrow> bool" where
  "ifb_device name = (case name of None \<Rightarrow> False | Some name \<Rightarrow> take 4 name = ascii ''ifb-'')"

definition ncfg_apply_optional :: "'d op \<Rightarrow> bool" where
  "ncfg_apply_optional op =
     (if op_kind op \<in>
        {NCFG_OP_QDISC_SET, NCFG_OP_QDISC_RESET, NCFG_OP_INGRESS_REDIRECT,
         NCFG_OP_INGRESS_REDIRECT_CLEAR, NCFG_OP_NFTABLES_REPLACE} then True
      else if op_kind op = NCFG_OP_LINK_SET_OFFLOADS then True
      else if op_kind op = NCFG_OP_LINK_CREATE then op_link_kind op = Some NCFG_KIND_IFB
      else if op_kind op \<in> {NCFG_OP_LINK_DELETE, NCFG_OP_LINK_UP, NCFG_OP_LINK_DOWN} then
        ifb_device (op_name op)
      else False)"

definition ncfg_service_backend_supported :: "'d op \<Rightarrow> bytes + unit" where
  "ncfg_service_backend_supported op =
     (let name = ncfg_op_name op; iface = or_question (op_name op) in
      if op_backend op = NCFG_BACKEND_WIREGUARD then
        Inl (name @ ascii '' on '' @ iface @
          ascii '' names WireGuard, which is a kernel device rather than a daemon: `link.create` makes it and `wg.set_device` configures it, so there is no process here to start, stop or reload'')
      else if op_backend op = NCFG_BACKEND_DNS then
        Inl (name @ ascii '' on '' @ iface @
          ascii '' names DNS, which `dns.apply` delivers rather than a daemon netcfgd runs: the resolver is somebody else's, so there is nothing here to start, stop or reload'')
      else if op_kind op = NCFG_OP_BACKEND_RELOAD then
        if op_backend op = NCFG_BACKEND_ROUTER_ADVERT then Inr ()
        else Inl (name @ ascii '' on '' @ iface @
          ascii '' has no reload: only a router advertisement daemon re-reads its configuration, an access point's would be a restart, and a DHCP client's is the client's own business'')
      else Inr ())"

text \<open>Every tag is listed in the code; those that are neither a creation nor a backend are carried.\<close>

definition ncfg_apply_supported :: "'d op \<Rightarrow> bytes + unit" where
  "ncfg_apply_supported op =
     (if op_kind op = NCFG_OP_LINK_CREATE then creatable (op_link_kind op) (op_name op)
      else if op_kind op \<in> {NCFG_OP_BACKEND_START, NCFG_OP_BACKEND_STOP, NCFG_OP_BACKEND_RELOAD} then
        ncfg_service_backend_supported op
      else Inr ())"

subsection \<open>The journal\<close>

datatype outcome =
    NCFG_OUTCOME_DONE
  | NCFG_OUTCOME_FAILED
  | NCFG_OUTCOME_SKIPPED
  | NCFG_OUTCOME_UNMET
  | NCFG_OUTCOME_REVERTED

record jrecord =
  rc_id :: action_id
  rc_op :: cstring
  rc_interface :: cstring
  rc_reason :: reason
  rc_outcome :: outcome
  rc_error :: cstring

record journal =
  jn_records :: "jrecord list"
  jn_record_capacity :: nat
  jn_owned_count :: nat
  jn_owned_capacity :: nat
  jn_failed :: bool
  jn_requests :: nat

definition ncfg_journal_init :: journal where
  "ncfg_journal_init =
     \<lparr>jn_records = [], jn_record_capacity = 0, jn_owned_count = 0, jn_owned_capacity = 0,
      jn_failed = False, jn_requests = 0\<rparr>"

definition ncfg_journal_failed :: "journal \<Rightarrow> bool" where
  "ncfg_journal_failed journal = jn_failed journal"

definition request :: "(nat \<Rightarrow> bool) \<Rightarrow> journal \<Rightarrow> bool \<times> journal" where
  "request grants journal =
     (grants (jn_requests journal), journal\<lparr>jn_requests := Suc (jn_requests journal)\<rparr>)"

text \<open>\<open>keep\<close> on a block that was allocated: record it, growing the list of blocks where it is full.\<close>

definition keep :: "(nat \<Rightarrow> bool) \<Rightarrow> journal \<Rightarrow> bool \<Rightarrow> bool \<times> journal" where
  "keep grants journal block =
     (if \<not> block then (False, journal\<lparr>jn_failed := True\<rparr>)
      else if jn_owned_count journal = jn_owned_capacity journal then
        (let wanted = (if jn_owned_capacity journal \<noteq> 0 then jn_owned_capacity journal * 2 else 32) in
         case request grants journal of
           (False, journal) \<Rightarrow> (False, journal\<lparr>jn_failed := True\<rparr>)
         | (True, journal) \<Rightarrow>
             (True, journal\<lparr>jn_owned_capacity := wanted,
                            jn_owned_count := Suc (jn_owned_count journal)\<rparr>))
      else (True, journal\<lparr>jn_owned_count := Suc (jn_owned_count journal)\<rparr>))"

definition intern :: "(nat \<Rightarrow> bool) \<Rightarrow> journal \<Rightarrow> cstring \<Rightarrow> cstring \<times> journal" where
  "intern grants journal txt =
     (if txt = None \<or> jn_failed journal then (None, journal)
      else case request grants journal of
        (copied, journal) \<Rightarrow>
          (case keep grants journal copied of
             (True, journal) \<Rightarrow> (txt, journal)
           | (False, journal) \<Rightarrow> (None, journal)))"

text \<open>The seven strings of a record, each copied or, once the journal has failed, missing.\<close>

definition intern_record :: "(nat \<Rightarrow> bool) \<Rightarrow> journal \<Rightarrow> jrecord \<Rightarrow> jrecord \<times> journal" where
  "intern_record grants journal r =
     (let (op, journal) = intern grants journal (rc_op r);
          (interface, journal) = intern grants journal (rc_interface r);
          (error, journal) = intern grants journal (rc_error r);
          (reason_interface, journal) = intern grants journal (rs_interface (rc_reason r));
          (field, journal) = intern grants journal (rs_field (rc_reason r));
          (desired, journal) = intern grants journal (rs_desired (rc_reason r));
          (observed, journal) = intern grants journal (rs_observed (rc_reason r))
      in (\<lparr>rc_id = rc_id r, rc_op = op, rc_interface = interface,
           rc_reason = \<lparr>rs_interface = reason_interface, rs_field = field, rs_desired = desired,
                        rs_observed = observed\<rparr>,
           rc_outcome = rc_outcome r, rc_error = error\<rparr>, journal))"

definition journal_slot :: "(nat \<Rightarrow> bool) \<Rightarrow> journal \<Rightarrow> bool \<times> journal" where
  "journal_slot grants journal =
     (if length (jn_records journal) = jn_record_capacity journal then
        (let wanted = (if jn_record_capacity journal \<noteq> 0 then jn_record_capacity journal * 2 else 16) in
         case request grants journal of
           (False, journal) \<Rightarrow> (False, journal\<lparr>jn_failed := True\<rparr>)
         | (True, journal) \<Rightarrow> (True, journal\<lparr>jn_record_capacity := wanted\<rparr>))
      else (True, journal))"

definition ncfg_journal_push :: "(nat \<Rightarrow> bool) \<Rightarrow> journal \<Rightarrow> jrecord \<Rightarrow> journal" where
  "ncfg_journal_push grants journal r =
     (if jn_failed journal then journal
      else case journal_slot grants journal of
        (False, journal) \<Rightarrow> journal
      | (True, journal) \<Rightarrow>
          (case intern_record grants journal r of
             (slot, journal) \<Rightarrow> journal\<lparr>jn_records := jn_records journal @ [slot]\<rparr>))"

fun ncfg_outcome_name :: "outcome \<Rightarrow> bytes" where
    "ncfg_outcome_name NCFG_OUTCOME_DONE = ascii ''done''"
  | "ncfg_outcome_name NCFG_OUTCOME_FAILED = ascii ''failed''"
  | "ncfg_outcome_name NCFG_OUTCOME_SKIPPED = ascii ''skipped''"
  | "ncfg_outcome_name NCFG_OUTCOME_UNMET = ascii ''unmet''"
  | "ncfg_outcome_name NCFG_OUTCOME_REVERTED = ascii ''reverted''"

definition counted :: "journal \<Rightarrow> outcome \<Rightarrow> nat" where
  "counted journal outcome =
     foldl (\<lambda>found r. if rc_outcome r = outcome then found + 1 else found) 0 (jn_records journal)"

definition ncfg_journal_succeeded :: "journal \<Rightarrow> bool" where
  "ncfg_journal_succeeded journal =
     list_all (\<lambda>r. rc_outcome r = NCFG_OUTCOME_DONE \<or> rc_outcome r = NCFG_OUTCOME_REVERTED)
       (jn_records journal)"

definition ncfg_journal_failure :: "journal \<Rightarrow> jrecord option" where
  "ncfg_journal_failure journal = find (\<lambda>r. rc_outcome r = NCFG_OUTCOME_FAILED) (jn_records journal)"

definition ncfg_journal_done :: "journal \<Rightarrow> nat" where
  "ncfg_journal_done journal = counted journal NCFG_OUTCOME_DONE"

definition ncfg_journal_unmet :: "journal \<Rightarrow> nat" where
  "ncfg_journal_unmet journal = counted journal NCFG_OUTCOME_UNMET"

definition ncfg_journal_skipped :: "journal \<Rightarrow> nat" where
  "ncfg_journal_skipped journal = counted journal NCFG_OUTCOME_SKIPPED"

definition ncfg_journal_reverted :: "journal \<Rightarrow> nat" where
  "ncfg_journal_reverted journal = counted journal NCFG_OUTCOME_REVERTED"

subsection \<open>Writing the journal\<close>

definition write_member_text :: "json_writer \<Rightarrow> bytes \<Rightarrow> cstring \<Rightarrow> json_writer" where
  "write_member_text writer name txt =
     (let writer = ncfg_json_write_key writer (Some name) in
      case txt of
        Some _ \<Rightarrow> ncfg_json_write_string writer txt
      | None \<Rightarrow> ncfg_json_write_null writer)"

definition write_reason :: "json_writer \<Rightarrow> reason \<Rightarrow> json_writer" where
  "write_reason writer reason =
     (let writer = ncfg_json_write_object_begin writer;
          writer = (if rs_interface reason \<noteq> None
                    then ncfg_json_write_member_string writer (Some (ascii ''interface'')) (rs_interface reason)
                    else writer);
          writer = write_member_text writer (ascii ''field'') (rs_field reason);
          writer = write_member_text writer (ascii ''desired'') (rs_desired reason);
          writer = write_member_text writer (ascii ''observed'') (rs_observed reason)
      in ncfg_json_write_object_end writer)"

definition write_record :: "json_writer \<Rightarrow> jrecord \<Rightarrow> json_writer" where
  "write_record writer r =
     (let outcome = ncfg_outcome_name (rc_outcome r);
          writer = ncfg_json_write_object_begin writer;
          writer = ncfg_json_write_member_int writer (Some (ascii ''id'')) (ucast (rc_id r));
          writer = write_member_text writer (ascii ''op'') (rc_op r);
          writer = (if rc_interface r \<noteq> None
                    then ncfg_json_write_member_string writer (Some (ascii ''interface'')) (rc_interface r)
                    else writer);
          writer = ncfg_json_write_key writer (Some (ascii ''reason''));
          writer = write_reason writer (rc_reason r);
          writer = write_member_text writer (ascii ''outcome'') (Some outcome);
          writer = (if rc_error r \<noteq> None
                    then ncfg_json_write_member_string writer (Some (ascii ''error'')) (rc_error r)
                    else writer)
      in ncfg_json_write_object_end writer)"

definition ncfg_journal_write_members :: "json_writer \<Rightarrow> journal \<Rightarrow> json_writer" where
  "ncfg_journal_write_members writer journal =
     (let writer = ncfg_json_write_key writer (Some (ascii ''records''));
          writer = ncfg_json_write_array_begin writer;
          writer = foldl write_record writer (jn_records journal)
      in ncfg_json_write_array_end writer)"

definition ncfg_journal_write :: "journal \<Rightarrow> buf \<Rightarrow> (bytes + unit) \<times> buf" where
  "ncfg_journal_write journal buf =
     (if jn_failed journal then
        (Inl (ascii ''this journal ran out of memory while it was being built; it would not say what really happened''), buf)
      else
        (let writer = ncfg_json_write_init buf;
             writer = ncfg_json_write_object_begin writer;
             writer = ncfg_journal_write_members writer journal;
             writer = ncfg_json_write_object_end writer
         in if \<not> ncfg_json_write_done writer then
              (Inl (ascii ''could not write the journal: '' @
                 (case ncfg_json_write_failure writer of
                    Some why \<Rightarrow> why
                  | None \<Rightarrow> ascii ''the buffer would not take it'')), jw_buf writer)
            else (Inr (), jw_buf writer)))"

subsection \<open>Running a plan\<close>

definition ncfg_action_describe :: "cstring \<Rightarrow> reason \<Rightarrow> nat \<Rightarrow> bytes" where
  "ncfg_action_describe op reason out_size =
     (let place = (case rs_interface reason of
                     None \<Rightarrow> []
                   | Some interface \<Rightarrow> snprintf_text 80 (ascii '' '' @ interface))
      in snprintf_text out_size
           (or_question op @ place @ ascii ''  '' @ text_or_empty (rs_field reason) @ ascii '': '' @
            text_or_empty (rs_desired reason) @ ascii '' (was '' @ text_or_empty (rs_observed reason) @
            ascii '')''))"

datatype log_level = NCFG_LOG_INFO | NCFG_LOG_ERROR

record log_line =
  ll_interface :: cstring
  ll_level :: log_level
  ll_text :: bytes

type_synonym ('s, 'd) executor = "'s \<Rightarrow> 'd op \<Rightarrow> (bool \<times> bytes) \<times> 's"

text \<open>One turn of the loop: the record of one action, what is logged, and whether the rest is skipped.\<close>

definition run_action ::
  "('s, 'd) executor \<Rightarrow> bool \<Rightarrow> bool \<Rightarrow> 's \<Rightarrow> 'd action \<Rightarrow> jrecord \<times> log_line list \<times> bool \<times> 's" where
  "run_action execute narrates stopped s action =
     (let r = \<lparr>rc_id = ac_id action, rc_op = Some (ncfg_op_name (ac_op action)),
               rc_interface = ncfg_op_interface (ac_op action), rc_reason = ac_reason action,
               rc_outcome = NCFG_OUTCOME_DONE, rc_error = None\<rparr>
      in if stopped then (r\<lparr>rc_outcome := NCFG_OUTCOME_SKIPPED\<rparr>, [], True, s)
         else case execute s (ac_op action) of
           ((True, _), s) \<Rightarrow>
             (let said = (rc_reason r)\<lparr>rs_interface := None\<rparr> in
              (r\<lparr>rc_outcome := NCFG_OUTCOME_DONE\<rparr>,
               if narrates then
                 [\<lparr>ll_interface = rc_interface r, ll_level = NCFG_LOG_INFO,
                   ll_text = ncfg_action_describe (rc_op r) said NCFG_ERROR_MAX\<rparr>]
               else [],
               False, s))
         | ((False, message), s) \<Rightarrow>
             (let optional = ncfg_apply_optional (ac_op action);
                  error = (if message \<noteq> [] then message else ascii ''the executor failed and said nothing'')
              in (r\<lparr>rc_outcome := (if optional then NCFG_OUTCOME_UNMET else NCFG_OUTCOME_FAILED),
                    rc_error := Some error\<rparr>,
                  if narrates then
                    [\<lparr>ll_interface = rc_interface r, ll_level = NCFG_LOG_ERROR,
                      ll_text = text_or_empty (rc_op r) @ ascii '' failed: '' @ error @ ascii '' -- '' @
                        (if optional
                         then ascii ''this part of the configuration is not in effect and the rest of the plan continues''
                         else ascii ''the rest of this plan is skipped'')\<rparr>]
                  else [],
                  \<not> optional, s)))"

fun run_actions ::
  "(nat \<Rightarrow> bool) \<Rightarrow> ('s, 'd) executor \<Rightarrow> bool \<Rightarrow> bool \<Rightarrow> journal \<Rightarrow> 's \<Rightarrow> 'd action list
     \<Rightarrow> journal \<times> log_line list \<times> 's" where
  "run_actions grants execute narrates stopped journal s [] = (journal, [], s)"
| "run_actions grants execute narrates stopped journal s (action # actions) =
     (case run_action execute narrates stopped s action of
        (r, said, stopped, s) \<Rightarrow>
          (case run_actions grants execute narrates stopped (ncfg_journal_push grants journal r) s actions of
             (journal, rest, s) \<Rightarrow> (journal, said @ rest, s)))"

definition run_plan ::
  "(nat \<Rightarrow> bool) \<Rightarrow> ('s, 'd) executor \<Rightarrow> bool \<Rightarrow> 's \<Rightarrow> 'd plan
     \<Rightarrow> (bytes + unit) \<times> journal \<times> log_line list \<times> 's" where
  "run_plan grants execute narrates s plan =
     (if ncfg_plan_failed plan then
        (Inl (ascii ''this plan did not finish being built, so it does not say everything that would have to change; nothing was applied''),
         ncfg_journal_init, [], s)
      else case run_actions grants execute narrates False ncfg_journal_init s (pl_actions plan) of
        (journal, said, s) \<Rightarrow>
          (if jn_failed journal
           then Inl (ascii ''the plan ran, and the journal ran out of memory recording it; what happened to the machine is not written down'')
           else Inr (), journal, said, s))"

definition ncfg_apply where
  "ncfg_apply grants execute s plan = run_plan grants execute True s plan"

definition ncfg_apply_silently where
  "ncfg_apply_silently grants execute s plan = run_plan grants execute False s plan"

subsection \<open>Putting it back\<close>

definition action_with_id :: "'d plan \<Rightarrow> action_id \<Rightarrow> 'd action option" where
  "action_with_id plan i = find (\<lambda>action. ac_id action = i) (pl_actions plan)"

text \<open>The loop from the newest record to the oldest; the records are given newest first.\<close>

fun revert_records ::
  "('s, 'd) executor \<Rightarrow> 'd plan \<Rightarrow> nat \<Rightarrow> 's \<Rightarrow> jrecord list \<Rightarrow> nat \<times> jrecord list \<times> 's" where
  "revert_records execute plan undone s [] = (undone, [], s)"
| "revert_records execute plan undone s (r # rs) =
     (case (if rc_outcome r \<noteq> NCFG_OUTCOME_DONE then (undone, r, s)
            else case action_with_id plan (rc_id r) of
              None \<Rightarrow> (undone, r, s)
            | Some action \<Rightarrow>
                (case ac_inverse action of
                   None \<Rightarrow> (undone, r, s)
                 | Some undo \<Rightarrow>
                     (case execute s undo of
                        ((True, _), s) \<Rightarrow> (undone + 1, r\<lparr>rc_outcome := NCFG_OUTCOME_REVERTED\<rparr>, s)
                      | ((False, _), s) \<Rightarrow> (undone, r, s)))) of
        (undone, r, s) \<Rightarrow>
          (case revert_records execute plan undone s rs of
             (undone, rs, s) \<Rightarrow> (undone, r # rs, s)))"

definition ncfg_apply_revert ::
  "('s, 'd) executor \<Rightarrow> 'd plan \<Rightarrow> 's \<Rightarrow> journal \<Rightarrow> nat \<times> journal \<times> 's" where
  "ncfg_apply_revert execute plan s journal =
     (case revert_records execute plan 0 s (rev (jn_records journal)) of
        (undone, rs, s) \<Rightarrow> (undone, journal\<lparr>jn_records := rev rs\<rparr>, s))"

end
