(* ===== verification/Ncfg_Json_Read.thy ===== *)
theory Ncfg_Json_Read
  imports Ncfg_Json
begin

text \<open>
  The JSON reader of \<^verbatim>\<open>client/ncfg_json.c\<close>: one pass over a line, no recursion, an explicit stack of
  open containers bounded by \<open>NCFG_JSON_MAX_DEPTH\<close>.  A document is the array of its nodes, linked by
  index, and one buffer that holds every key, string and number, unescaped and packed in the order
  met.  \<open>NCFG_JSON_NONE\<close> is \<open>None\<close>; offsets and lengths wrap at 32 bits as the code's \<^verbatim>\<open>uint32_t\<close> do;
  the node array stops growing at \<open>2 ^ 31\<close> nodes, where its doubling overflows.  Allocation is granted.
  A refusal is the sentence and the byte it names.
\<close>

datatype json_type = TNull | TBool | TNumber | TString | TArray | TObject

record json_node =
  jn_type :: json_type
  jn_key :: "(nat \<times> nat) option"
  jn_value :: "nat \<times> nat"
  jn_bool :: bool
  jn_first_child :: "nat option"
  jn_child_count :: nat
  jn_next_sibling :: "nat option"

record json_doc =
  jd_text :: bytes
  jd_nodes :: "json_node list"

record stack_frame =
  sf_node :: nat
  sf_last_child :: "nat option"
  sf_is_object :: bool

record json_reader =
  jr_at :: nat
  jr_out :: bytes
  jr_nodes :: "json_node list"
  jr_stack :: "stack_frame list"
  jr_pending :: "(nat \<times> nat) option"

type_synonym json_error = "string \<times> nat"

definition u32 :: "nat \<Rightarrow> nat" where
  "u32 n = n mod 2 ^ 32"

definition jr_fail :: "json_reader \<Rightarrow> string \<Rightarrow> json_error + 'a" where
  "jr_fail r what = Inl (what, jr_at r)"

definition json_error_text :: "nat \<Rightarrow> json_error \<Rightarrow> bytes" where
  "json_error_text err_size e = snprintf_text err_size (ascii (fst e) @ ascii '' at byte '' @ decimal (snd e))"

definition new_node :: "json_reader \<Rightarrow> json_type \<Rightarrow> json_error + (nat \<times> json_reader)" where
  "new_node r type =
     (if 2 ^ 31 \<le> length (jr_nodes r) then jr_fail r ''too many values''
      else Inr (length (jr_nodes r),
        r\<lparr>jr_nodes := jr_nodes r @
          [\<lparr>jn_type = type, jn_key = None, jn_value = (0, 0), jn_bool = False,
            jn_first_child = None, jn_child_count = 0, jn_next_sibling = None\<rparr>]\<rparr>))"

definition set_node :: "nat \<Rightarrow> (json_node \<Rightarrow> json_node) \<Rightarrow> json_reader \<Rightarrow> json_reader" where
  "set_node i f r = r\<lparr>jr_nodes := (jr_nodes r)[i := f (jr_nodes r ! i)]\<rparr>"

subsection \<open>Scanning\<close>

definition json_space :: "byte \<Rightarrow> bool" where
  "json_space c \<longleftrightarrow> c = 32 \<or> c = 9 \<or> c = 13 \<or> c = 10"

text \<open>The loops that only move \<open>at\<close>: over white space and over digits.\<close>

function skip_while :: "(byte \<Rightarrow> bool) \<Rightarrow> bytes \<Rightarrow> nat \<Rightarrow> nat" where
  "skip_while P inp at = (if at < length inp \<and> P (inp ! at) then skip_while P inp (at + 1) else at)"
  by pat_completeness auto
termination
  by (relation "measure (\<lambda>(P, inp, at). length inp - at)") auto

declare skip_while.simps [simp del]

definition skip_space :: "bytes \<Rightarrow> json_reader \<Rightarrow> json_reader" where
  "skip_space inp r = r\<lparr>jr_at := skip_while json_space inp (jr_at r)\<rparr>"

definition hex_nibble :: "byte \<Rightarrow> 32 word option" where
  "hex_nibble c =
     (if ch CHR ''0'' \<le> c \<and> c \<le> ch CHR ''9'' then Some (ucast (c - ch CHR ''0''))
      else if ch CHR ''a'' \<le> c \<and> c \<le> ch CHR ''f'' then Some (ucast (c - ch CHR ''a'') + 10)
      else if ch CHR ''A'' \<le> c \<and> c \<le> ch CHR ''F'' then Some (ucast (c - ch CHR ''A'') + 10)
      else None)"

fun nibbles :: "32 word \<Rightarrow> bytes \<Rightarrow> 32 word option" where
  "nibbles value [] = Some value"
| "nibbles value (c # cs) =
     (case hex_nibble c of None \<Rightarrow> None | Some nibble \<Rightarrow> nibbles (push_bit 4 value OR nibble) cs)"

text \<open>One \<^verbatim>\<open>\uXXXX\<close>: the code unit and the position behind it.\<close>

definition read_code_unit :: "bytes \<Rightarrow> nat \<Rightarrow> (32 word \<times> nat) option" where
  "read_code_unit inp at =
     (if length inp - at < 4 then None
      else map_option (\<lambda>unit. (unit, at + 4)) (nibbles 0 (slice at (at + 4) inp)))"

definition write_utf8 :: "32 word \<Rightarrow> bytes" where
  "write_utf8 code_point =
     (if code_point < 0x80 then [ucast code_point]
      else if code_point < 0x800 then
        [ucast (0xc0 OR drop_bit 6 code_point), ucast (0x80 OR (code_point AND 0x3f))]
      else if code_point < 0x10000 then
        [ucast (0xe0 OR drop_bit 12 code_point), ucast (0x80 OR (drop_bit 6 code_point AND 0x3f)),
         ucast (0x80 OR (code_point AND 0x3f))]
      else
        [ucast (0xf0 OR drop_bit 18 code_point), ucast (0x80 OR (drop_bit 12 code_point AND 0x3f)),
         ucast (0x80 OR (drop_bit 6 code_point AND 0x3f)), ucast (0x80 OR (code_point AND 0x3f))])"

text \<open>The escape behind a backslash: what it writes and the position behind it.\<close>

definition read_unicode :: "bytes \<Rightarrow> nat \<Rightarrow> json_error + (bytes \<times> nat)" where
  "read_unicode inp at =
     (case read_code_unit inp at of
        None \<Rightarrow> Inl (''a '' @ [CHR 0x5C] @ ''u escape that is not four hex digits'', at)
      | Some (code_point, at) \<Rightarrow>
          if 0xd800 \<le> code_point \<and> code_point \<le> 0xdbff then
            if length inp - at < 2 \<or> inp ! at \<noteq> ch CHR 0x5C \<or> inp ! (at + 1) \<noteq> ch CHR ''u'' then
              Inl (''a high surrogate with no low surrogate'', at)
            else
              (case read_code_unit inp (at + 2) of
                 None \<Rightarrow> Inl (''a surrogate pair whose second half is not one'', at + 2)
               | Some (low, at) \<Rightarrow>
                   if low < 0xdc00 \<or> 0xdfff < low then
                     Inl (''a surrogate pair whose second half is not one'', at)
                   else Inr (write_utf8 (0x10000 + push_bit 10 (code_point - 0xd800) + (low - 0xdc00)), at))
          else if 0xdc00 \<le> code_point \<and> code_point \<le> 0xdfff then
            Inl (''a low surrogate with no high surrogate'', at)
          else Inr (write_utf8 code_point, at))"

definition simple_escape :: "byte \<Rightarrow> byte option" where
  "simple_escape c =
     (if c = ch CHR 0x22 then Some (ch CHR 0x22)
      else if c = ch CHR 0x5C then Some (ch CHR 0x5C)
      else if c = ch CHR ''/'' then Some (ch CHR ''/'')
      else if c = ch CHR ''b'' then Some 8
      else if c = ch CHR ''f'' then Some 12
      else if c = ch CHR ''n'' then Some 10
      else if c = ch CHR ''r'' then Some 13
      else if c = ch CHR ''t'' then Some 9
      else None)"

lemma read_code_unit_at: "read_code_unit inp at = Some (u, at') \<Longrightarrow> at' = at + 4 \<and> at + 4 \<le> length inp"
  by (auto simp: read_code_unit_def split: if_splits)

lemma read_unicode_at: "read_unicode inp at = Inr (bs, at') \<Longrightarrow> at < at' \<and> at' \<le> length inp"
  by (auto simp: read_unicode_def split: option.splits if_splits dest!: read_code_unit_at)

text \<open>The string loop: the cursor and the write head after the closing quote.\<close>

function parse_string_loop :: "bytes \<Rightarrow> nat \<Rightarrow> bytes \<Rightarrow> json_error + (nat \<times> bytes)" where
  "parse_string_loop inp at out =
     (if length inp \<le> at then Inl (''a string with no closing quote'', at)
      else
        let c = inp ! at in
        if c = ch CHR 0x22 then Inr (at + 1, out)
        else if c < 0x20 then Inl (''a control character in a string'', at)
        else if c \<noteq> ch CHR 0x5C then parse_string_loop inp (at + 1) (out @ [c])
        else if length inp \<le> at + 1 then Inl (''an escape at the end of the input'', at + 1)
        else
          let escape = inp ! (at + 1) in
          case simple_escape escape of
            Some value \<Rightarrow> parse_string_loop inp (at + 2) (out @ [value])
          | None \<Rightarrow>
              if escape = ch CHR ''u'' then
                (case read_unicode inp (at + 2) of
                   Inl e \<Rightarrow> Inl e
                 | Inr (bs, at) \<Rightarrow> parse_string_loop inp at (out @ bs))
              else Inl (''an escape that is not one of JSON's'', at + 2))"
  by pat_completeness auto
termination
  by (relation "measure (\<lambda>(inp, at, out). length inp - at)") (auto dest!: read_unicode_at)

declare parse_string_loop.simps [simp del]

text \<open>One turn of the loop on a string that is accepted: the closing quote, or a piece and what it writes.\<close>

lemma length_write_utf8: "length (write_utf8 c) \<le> 4"
  by (simp add: write_utf8_def)

lemma read_unicode_length: "read_unicode inp at = Inr (bs, at') \<Longrightarrow> length bs \<le> 4"
  by (auto simp: read_unicode_def length_write_utf8 split: option.splits if_splits)

lemma parse_string_loop_turn:
  assumes "parse_string_loop inp at out = Inr (at', out')"
  obtains (quote) "at < length inp" "inp ! at = 34" "at' = at + 1" "out' = out"
  | (piece) at1 bs where "at < at1" "at1 \<le> length inp" "length bs \<le> at1 - at"
      "parse_string_loop inp at1 (out @ bs) = Inr (at', out')"
proof -
  let ?c = "inp ! at" and ?e = "inp ! (at + 1)"
  have run: "parse_string_loop inp at out = Inr (at', out')" by (rule assms)
  note unfolded = run [unfolded parse_string_loop.simps [of inp at out] Let_def]
  consider "length inp \<le> at" | (q) "at < length inp" "?c = 34" | "at < length inp" "?c \<noteq> 34" "?c < 0x20"
    | (plain) "at < length inp" "?c \<noteq> 34" "\<not> ?c < 0x20" "?c \<noteq> 92"
    | (esc) "at < length inp" "?c = 92" by force
  then show ?thesis
  proof cases
    case q
    with unfolded show ?thesis by (intro quote) auto
  next
    case plain
    with unfolded show ?thesis by (intro piece [of "at + 1" "[?c]"]) auto
  next
    case esc
    show ?thesis
    proof (cases "simple_escape ?e")
      case (Some v)
      with esc unfolded show ?thesis by (intro piece [of "at + 2" "[v]"]) (auto split: if_splits)
    next
      case None
      with esc unfolded obtain bs at1 where u: "read_unicode inp (at + 2) = Inr (bs, at1)"
        "parse_string_loop inp at1 (out @ bs) = Inr (at', out')" "at + 1 < length inp"
        by (auto split: if_splits sum.splits prod.splits)
      then have "at + 6 \<le> at1" by (auto simp: read_unicode_def split: option.splits if_splits dest!: read_code_unit_at)
      with u read_unicode_at [OF u(1)] read_unicode_length [OF u(1)] show ?thesis by (intro piece [of at1 bs]) auto
    qed
  qed (use unfolded in auto)
qed

lemma parse_string_loop_at:
  assumes "parse_string_loop inp at out = Inr (at', out')"
  shows "at < at' \<and> at' \<le> length inp \<and> (\<exists>w. out' = out @ w \<and> length w < at' - at)"
  using assms
proof (induction "length inp - at" arbitrary: at out rule: less_induct)
  case less
  from less.prems show ?case
  proof (cases rule: parse_string_loop_turn)
    case (piece at1 bs)
    from piece have "length inp - at1 < length inp - at" by simp
    from less.hyps [OF this piece(4)] piece show ?thesis by auto
  qed auto
qed

definition parse_string :: "bytes \<Rightarrow> json_reader \<Rightarrow> json_error + ((nat \<times> nat) \<times> json_reader)" where
  "parse_string inp r =
     (case parse_string_loop inp (jr_at r) (jr_out r) of
        Inl e \<Rightarrow> Inl e
      | Inr (at, out) \<Rightarrow>
          Inr ((u32 (length (jr_out r)), u32 (length out - length (jr_out r))),
               r\<lparr>jr_at := at, jr_out := out\<rparr>))"

subsection \<open>Numbers and words\<close>

text \<open>The position behind a number, or the refusal.\<close>

definition scan_integer :: "bytes \<Rightarrow> nat \<Rightarrow> json_error + nat" where
  "scan_integer inp at =
     (let at = (if at < length inp \<and> inp ! at = ch CHR ''-'' then at + 1 else at) in
      if length inp \<le> at then Inl (''a number with no digits'', at)
      else if inp ! at = ch CHR ''0'' then Inr (at + 1)
      else if ch CHR ''1'' \<le> inp ! at \<and> inp ! at \<le> ch CHR ''9'' then Inr (skip_while is_digit inp at)
      else Inl (''a number with no digits'', at))"

definition scan_fraction :: "bytes \<Rightarrow> nat \<Rightarrow> json_error + nat" where
  "scan_fraction inp at =
     (if at < length inp \<and> inp ! at = ch CHR ''.'' then
        let end = skip_while is_digit inp (at + 1) in
        if end = at + 1 then Inl (''a decimal point with no digits after it'', end) else Inr end
      else Inr at)"

definition scan_exponent :: "bytes \<Rightarrow> nat \<Rightarrow> json_error + nat" where
  "scan_exponent inp at =
     (if at < length inp \<and> (inp ! at = ch CHR ''e'' \<or> inp ! at = ch CHR ''E'') then
        let at = at + 1;
            at = (if at < length inp \<and> (inp ! at = ch CHR ''+'' \<or> inp ! at = ch CHR ''-'') then at + 1 else at);
            end = skip_while is_digit inp at
        in if end = at then Inl (''an exponent with no digits'', end) else Inr end
      else Inr at)"

definition parse_number :: "bytes \<Rightarrow> json_reader \<Rightarrow> json_error + ((nat \<times> nat) \<times> json_reader)" where
  "parse_number inp r =
     (case scan_integer inp (jr_at r) of
        Inl e \<Rightarrow> Inl e
      | Inr at \<Rightarrow>
          (case scan_fraction inp at of
             Inl e \<Rightarrow> Inl e
           | Inr at \<Rightarrow>
               (case scan_exponent inp at of
                  Inl e \<Rightarrow> Inl e
                | Inr at \<Rightarrow>
                    Inr ((u32 (length (jr_out r)), u32 (at - jr_at r)),
                         r\<lparr>jr_at := at, jr_out := jr_out r @ slice (jr_at r) at inp\<rparr>))))"

definition literal :: "bytes \<Rightarrow> string \<Rightarrow> json_reader \<Rightarrow> json_reader option" where
  "literal inp word r =
     (if length inp - jr_at r < length word \<or> slice (jr_at r) (jr_at r + length word) inp \<noteq> ascii word
      then None else Some (r\<lparr>jr_at := jr_at r + length word\<rparr>))"

subsection \<open>The loop\<close>

text \<open>A node with a piece of the buffer for its value, once it is parsed.\<close>

definition with_value ::
  "json_type \<Rightarrow> (json_reader \<Rightarrow> json_error + ((nat \<times> nat) \<times> json_reader)) \<Rightarrow> json_reader \<Rightarrow> json_error + (nat \<times> json_reader)" where
  "with_value type parse r =
     (case new_node r type of
        Inl e \<Rightarrow> Inl e
      | Inr (index, r) \<Rightarrow>
          (case parse r of
             Inl e \<Rightarrow> Inl e
           | Inr (value, r) \<Rightarrow> Inr (index, set_node index (\<lambda>n. n\<lparr>jn_value := value\<rparr>) r)))"

text \<open>The \<^verbatim>\<open>switch\<close> on the first byte of a value: the node it makes.\<close>

definition read_one :: "bytes \<Rightarrow> byte \<Rightarrow> json_reader \<Rightarrow> json_error + (nat \<times> json_reader)" where
  "read_one inp c r =
     (if c = ch CHR ''{'' \<or> c = ch CHR ''['' then
        if NCFG_JSON_MAX_DEPTH \<le> length (jr_stack r) then
          jr_fail r ''a document nested deeper than this reads''
        else new_node (r\<lparr>jr_at := jr_at r + 1\<rparr>) (if c = ch CHR ''{'' then TObject else TArray)
      else if c = ch CHR 0x22 then
        with_value TString (parse_string inp) (r\<lparr>jr_at := jr_at r + 1\<rparr>)
      else if c = ch CHR ''t'' \<or> c = ch CHR ''f'' then
        (case new_node r TBool of
           Inl e \<Rightarrow> Inl e
         | Inr (index, r) \<Rightarrow>
             (case literal inp ''true'' r of
                Some r \<Rightarrow> Inr (index, set_node index (\<lambda>n. n\<lparr>jn_bool := True\<rparr>) r)
              | None \<Rightarrow>
                  (case literal inp ''false'' r of
                     Some r \<Rightarrow> Inr (index, set_node index (\<lambda>n. n\<lparr>jn_bool := False\<rparr>) r)
                   | None \<Rightarrow> jr_fail r ''a word that is not true or false'')))
      else if c = ch CHR ''n'' then
        (case new_node r TNull of
           Inl e \<Rightarrow> Inl e
         | Inr (index, r) \<Rightarrow>
             (case literal inp ''null'' r of
                Some r \<Rightarrow> Inr (index, r)
              | None \<Rightarrow> jr_fail r ''a word that is not null''))
      else with_value TNumber (parse_number inp) r)"

definition take_pending :: "nat \<Rightarrow> json_reader \<Rightarrow> json_reader" where
  "take_pending index r =
     (case jr_pending r of
        Some key \<Rightarrow> (set_node index (\<lambda>n. n\<lparr>jn_key := Some key\<rparr>) r)\<lparr>jr_pending := None\<rparr>
      | None \<Rightarrow> r)"

definition attach :: "nat \<Rightarrow> json_reader \<Rightarrow> json_reader" where
  "attach index r =
     (case jr_stack r of
        [] \<Rightarrow> r
      | frame # rest \<Rightarrow>
          (let r = (case sf_last_child frame of
                      None \<Rightarrow> set_node (sf_node frame) (\<lambda>n. n\<lparr>jn_first_child := Some index\<rparr>) r
                    | Some prev \<Rightarrow> set_node prev (\<lambda>n. n\<lparr>jn_next_sibling := Some index\<rparr>) r);
               r = r\<lparr>jr_stack := frame\<lparr>sf_last_child := Some index\<rparr> # rest\<rparr>
           in set_node (sf_node frame) (\<lambda>n. n\<lparr>jn_child_count := jn_child_count n + 1\<rparr>) r))"

datatype read_mode = Read_Value | Value_Read | Expect_Key

text \<open>One turn: the refusal, the document, or where the loop goes next.\<close>

datatype turn = Refused json_error | Document json_doc | Next read_mode json_reader

definition value_turn :: "bytes \<Rightarrow> json_reader \<Rightarrow> turn" where
  "value_turn inp r =
     (let r = skip_space inp r in
      if length inp \<le> jr_at r then Refused (''a value that stops in the middle'', jr_at r)
      else
        let c = inp ! jr_at r in
        case read_one inp c r of
          Inl e \<Rightarrow> Refused e
        | Inr (index, r) \<Rightarrow>
            (let r = attach index (take_pending index r) in
             if c = ch CHR ''{'' \<or> c = ch CHR ''['' then
               let frame = \<lparr>sf_node = index, sf_last_child = None, sf_is_object = (c = ch CHR ''{'')\<rparr>;
                   stack = jr_stack r;
                   r = skip_space inp (r\<lparr>jr_stack := frame # stack\<rparr>)
               in if jr_at r < length inp \<and>
                     (c = ch CHR ''{'' \<and> inp ! jr_at r = ch CHR ''}'' \<or>
                      c = ch CHR ''['' \<and> inp ! jr_at r = ch CHR '']'')
                  then Next Value_Read (r\<lparr>jr_at := jr_at r + 1, jr_stack := stack\<rparr>)
                  else if c = ch CHR ''{'' then Next Expect_Key r
                  else Next Read_Value r
             else Next Value_Read r))"

definition close_turn :: "bytes \<Rightarrow> json_reader \<Rightarrow> turn" where
  "close_turn inp r =
     (let r = skip_space inp r in
      case jr_stack r of
        [] \<Rightarrow>
          if jr_at r \<noteq> length inp then Refused (''something after the end of the value'', jr_at r)
          else Document \<lparr>jd_text = jr_out r, jd_nodes = jr_nodes r\<rparr>
      | frame # rest \<Rightarrow>
          if length inp \<le> jr_at r then Refused (''a container that is never closed'', jr_at r)
          else
            let next = inp ! jr_at r in
            if next = ch CHR '','' then
              Next (if sf_is_object frame then Expect_Key else Read_Value) (r\<lparr>jr_at := jr_at r + 1\<rparr>)
            else if next = ch CHR ''}'' \<and> sf_is_object frame \<or> next = ch CHR '']'' \<and> \<not> sf_is_object frame then
              Next Value_Read (r\<lparr>jr_at := jr_at r + 1, jr_stack := rest\<rparr>)
            else Refused (''a container with something other than a comma or a close'', jr_at r))"

definition key_turn :: "bytes \<Rightarrow> json_reader \<Rightarrow> turn" where
  "key_turn inp r =
     (let r = skip_space inp r in
      if length inp \<le> jr_at r \<or> inp ! jr_at r \<noteq> ch CHR 0x22 then
        Refused (''an object member with no name'', jr_at r)
      else
        case parse_string inp (r\<lparr>jr_at := jr_at r + 1\<rparr>) of
          Inl e \<Rightarrow> Refused e
        | Inr (key, r) \<Rightarrow>
            (let r = skip_space inp r in
             if length inp \<le> jr_at r \<or> inp ! jr_at r \<noteq> ch CHR '':'' then
               Refused (''a member name with no colon after it'', jr_at r)
             else Next Read_Value (r\<lparr>jr_at := jr_at r + 1, jr_pending := Some key\<rparr>)))"

fun read_turn :: "bytes \<Rightarrow> read_mode \<Rightarrow> json_reader \<Rightarrow> turn" where
  "read_turn inp Read_Value r = value_turn inp r"
| "read_turn inp Value_Read r = close_turn inp r"
| "read_turn inp Expect_Key r = key_turn inp r"

subsection \<open>Every turn consumes\<close>

lemma skip_while_le: "at \<le> skip_while P inp at \<and> (at \<le> length inp \<longrightarrow> skip_while P inp at \<le> length inp)"
proof (induction P inp at rule: skip_while.induct)
  case (1 P inp at)
  then show ?case by (subst skip_while.simps, subst (2) skip_while.simps) (auto simp: Suc_le_eq)
qed

lemma skip_space_fields [simp]:
  "jr_out (skip_space inp r) = jr_out r" "jr_nodes (skip_space inp r) = jr_nodes r"
  "jr_stack (skip_space inp r) = jr_stack r" "jr_pending (skip_space inp r) = jr_pending r"
  by (simp_all add: skip_space_def)

lemma skip_space_at: "jr_at r \<le> jr_at (skip_space inp r)"
  by (simp add: skip_space_def skip_while_le)

lemma set_node_fields [simp]:
  "jr_at (set_node i f r) = jr_at r" "jr_out (set_node i f r) = jr_out r"
  "jr_stack (set_node i f r) = jr_stack r" "jr_pending (set_node i f r) = jr_pending r"
  "length (jr_nodes (set_node i f r)) = length (jr_nodes r)"
  by (simp_all add: set_node_def)

lemma take_pending_fields [simp]:
  "jr_at (take_pending i r) = jr_at r" "jr_out (take_pending i r) = jr_out r"
  "jr_stack (take_pending i r) = jr_stack r"
  by (simp_all add: take_pending_def split: option.split)

lemma attach_fields [simp]:
  "jr_at (attach i r) = jr_at r" "jr_out (attach i r) = jr_out r"
  by (simp_all add: attach_def Let_def split: list.split option.split)

lemma scan_integer_at: "scan_integer inp at = Inr at' \<Longrightarrow> at < at' \<and> at' \<le> length inp"
proof -
  assume s: "scan_integer inp at = Inr at'"
  have "ch CHR ''1'' \<le> c \<Longrightarrow> c \<le> ch CHR ''9'' \<Longrightarrow> is_digit c" for c
    by (auto simp: is_digit_def word_le_nat_alt)
  then have run: "at1 < length inp \<Longrightarrow> ch CHR ''1'' \<le> inp ! at1 \<Longrightarrow> inp ! at1 \<le> ch CHR ''9'' \<Longrightarrow>
      at1 < skip_while is_digit inp at1 \<and> skip_while is_digit inp at1 \<le> length inp" for at1
    using skip_while_le [of "at1 + 1" is_digit inp] by (subst (1 2) skip_while.simps) auto
  from s run [of at] run [of "at + 1"] show ?thesis by (auto simp: scan_integer_def Let_def split: if_splits)
qed

lemma scan_fraction_at: "scan_fraction inp at = Inr at' \<Longrightarrow> at \<le> length inp \<Longrightarrow> at \<le> at' \<and> at' \<le> length inp"
  using skip_while_le [of "at + 1" is_digit inp]
  by (auto simp: scan_fraction_def Let_def split: if_splits)

lemma scan_exponent_at: "scan_exponent inp at = Inr at' \<Longrightarrow> at \<le> length inp \<Longrightarrow> at \<le> at' \<and> at' \<le> length inp"
  using skip_while_le [of "at + 1" is_digit inp] skip_while_le [of "at + 2" is_digit inp]
  by (auto simp: scan_exponent_def Let_def numeral_2_eq_2 split: if_splits)

lemma parse_number_at:
  assumes "parse_number inp r = Inr (v, r')"
  shows "jr_at r < jr_at r' \<and> jr_at r' \<le> length inp \<and>
    jr_out r' = jr_out r @ slice (jr_at r) (jr_at r') inp \<and> jr_stack r' = jr_stack r"
proof -
  from assms obtain a b where ab: "scan_integer inp (jr_at r) = Inr a" "scan_fraction inp a = Inr b"
    "scan_exponent inp b = Inr (jr_at r')" "jr_out r' = jr_out r @ slice (jr_at r) (jr_at r') inp" "jr_stack r' = jr_stack r"
    by (auto simp: parse_number_def split: sum.splits)
  from scan_integer_at [OF ab(1)] have a: "jr_at r < a" "a \<le> length inp" by auto
  from scan_fraction_at [OF ab(2) a(2)] have b: "a \<le> b" "b \<le> length inp" by auto
  from scan_exponent_at [OF ab(3) b(2)] a b ab(4,5) show ?thesis by simp
qed

lemma parse_string_at:
  assumes "parse_string inp r = Inr (v, r')"
  shows "jr_at r < jr_at r' \<and> jr_at r' \<le> length inp \<and>
    (\<exists>w. jr_out r' = jr_out r @ w \<and> length w < jr_at r' - jr_at r) \<and> jr_stack r' = jr_stack r"
  using assms by (auto simp: parse_string_def split: sum.splits dest!: parse_string_loop_at)

lemma new_node_fields:
  assumes "new_node r t = Inr (i, r')"
  shows "jr_at r' = jr_at r \<and> jr_out r' = jr_out r \<and> jr_stack r' = jr_stack r \<and> jr_pending r' = jr_pending r \<and>
    i = length (jr_nodes r) \<and> jr_nodes r' = jr_nodes r @
      [\<lparr>jn_type = t, jn_key = None, jn_value = (0, 0), jn_bool = False,
        jn_first_child = None, jn_child_count = 0, jn_next_sibling = None\<rparr>]"
  using assms by (auto simp: new_node_def jr_fail_def split: if_splits)

lemma literal_at: "literal inp w r = Some r' \<Longrightarrow> w \<noteq> [] \<Longrightarrow> jr_at r \<le> length inp \<Longrightarrow>
    jr_at r < jr_at r' \<and> jr_at r' \<le> length inp \<and> jr_out r' = jr_out r \<and> jr_stack r' = jr_stack r"
  by (auto simp: literal_def split: if_splits)

text \<open>What is written is never more than what was read: the write head stays inside the copy of the input.\<close>

lemma read_one_at:
  assumes "read_one inp c r = Inr (i, r')" "jr_at r < length inp"
  shows "jr_at r < jr_at r' \<and> jr_at r' \<le> length inp \<and> jr_stack r' = jr_stack r \<and>
    length (jr_out r') - length (jr_out r) \<le> jr_at r' - jr_at r \<and> length (jr_out r) \<le> length (jr_out r')"
  using assms
  by (auto simp: read_one_def with_value_def jr_fail_def length_slice
      split: if_splits sum.splits prod.splits option.splits
      dest!: new_node_fields parse_string_at parse_number_at literal_at)

lemma read_turn_at:
  assumes "read_turn inp m r = Next m' r'"
  shows "jr_at r < jr_at r' \<and> jr_at r' \<le> length inp \<and>
    length (jr_out r') - length (jr_out r) \<le> jr_at r' - jr_at r \<and> length (jr_out r) \<le> length (jr_out r')"
proof (cases m)
  case Read_Value
  let ?r = "skip_space inp r"
  from assms Read_Value obtain i r1 where one: "jr_at ?r < length inp" "read_one inp (inp ! jr_at ?r) ?r = Inr (i, r1)"
    by (auto simp: value_turn_def Let_def split: if_splits sum.splits)
  note at = read_one_at [OF one(2,1)] skip_space_at [of r inp]
  have sk: "jr_at r1 \<le> skip_while json_space inp (jr_at r1)" "skip_while json_space inp (jr_at r1) \<le> length inp"
    using at skip_while_le [of "jr_at r1" json_space inp] by simp_all
  have out: "jr_out r' = jr_out r1" "jr_at r' = jr_at r1 \<or> jr_at r' = skip_while json_space inp (jr_at r1) \<or>
      jr_at r' = skip_while json_space inp (jr_at r1) + 1 \<and> skip_while json_space inp (jr_at r1) < length inp"
    using assms Read_Value one by (auto simp: value_turn_def skip_space_def Let_def split: if_splits)
  from out(2) at sk show ?thesis unfolding out(1) by auto
next
  case Value_Read
  with assms skip_space_at [of r inp] show ?thesis
    by (auto simp: close_turn_def Let_def split: list.splits if_splits)
next
  case Expect_Key
  let ?r = "skip_space inp r"
  from assms Expect_Key obtain k r1 where one: "parse_string inp (?r\<lparr>jr_at := jr_at ?r + 1\<rparr>) = Inr (k, r1)"
    and r': "jr_at (skip_space inp r1) < length inp" "jr_at r' = jr_at (skip_space inp r1) + 1" "jr_out r' = jr_out r1"
    by (auto simp: key_turn_def Let_def split: if_splits sum.splits)
  from parse_string_at [OF one] r' skip_space_at [of r inp] skip_space_at [of r1 inp] show ?thesis by auto
qed

function json_read_loop :: "bytes \<Rightarrow> read_mode \<Rightarrow> json_reader \<Rightarrow> json_error + json_doc" where
  "json_read_loop inp mode r =
     (case read_turn inp mode r of
        Refused e \<Rightarrow> Inl e
      | Document doc \<Rightarrow> Inr doc
      | Next mode r \<Rightarrow> json_read_loop inp mode r)"
  by pat_completeness auto
termination
  by (relation "measure (\<lambda>(inp, mode, r). length inp - jr_at r)") (auto dest!: read_turn_at)

declare json_read_loop.simps [simp del]

definition start_reader :: json_reader where
  "start_reader = \<lparr>jr_at = 0, jr_out = [], jr_nodes = [], jr_stack = [], jr_pending = None\<rparr>"

definition ncfg_json_parse :: "bytes \<Rightarrow> json_error + json_doc" where
  "ncfg_json_parse inp =
     (let r = skip_space inp start_reader in
      if length inp \<le> jr_at r then Inl (''an empty message'', jr_at r)
      else json_read_loop inp Read_Value r)"

subsection \<open>Asking a document\<close>

definition ncfg_json_root :: "json_doc \<Rightarrow> nat option" where
  "ncfg_json_root doc = (if jd_nodes doc \<noteq> [] then Some 0 else None)"

definition ncfg_json_node :: "json_doc \<Rightarrow> nat option \<Rightarrow> json_node option" where
  "ncfg_json_node doc index =
     (case index of
        None \<Rightarrow> None
      | Some i \<Rightarrow> if length (jd_nodes doc) \<le> i then None else Some (jd_nodes doc ! i))"

definition ncfg_json_type :: "json_doc \<Rightarrow> nat option \<Rightarrow> json_type" where
  "ncfg_json_type doc index = (case ncfg_json_node doc index of Some node \<Rightarrow> jn_type node | None \<Rightarrow> TNull)"

text \<open>
  Following sibling links.  The links of a document the parser made only lead forward
  (\<^verbatim>\<open>Ncfg_Json_Read_Props\<close>), so as many turns as there are nodes are enough.
\<close>

fun siblings :: "nat \<Rightarrow> json_doc \<Rightarrow> nat option \<Rightarrow> nat list" where
  "siblings 0 doc child = []"
| "siblings (Suc fuel) doc child =
     (case child of
        None \<Rightarrow> []
      | Some i \<Rightarrow> i # siblings fuel doc (jn_next_sibling (jd_nodes doc ! i)))"

definition children :: "json_doc \<Rightarrow> json_node \<Rightarrow> nat list" where
  "children doc node = siblings (length (jd_nodes doc)) doc (jn_first_child node)"

definition piece :: "json_doc \<Rightarrow> nat \<times> nat \<Rightarrow> bytes" where
  "piece doc v = slice (fst v) (fst v + snd v) (jd_text doc)"

definition ncfg_json_member :: "json_doc \<Rightarrow> nat option \<Rightarrow> bytes \<Rightarrow> nat option" where
  "ncfg_json_member doc obj name =
     (case ncfg_json_node doc obj of
        None \<Rightarrow> None
      | Some node \<Rightarrow>
          if jn_type node \<noteq> TObject then None
          else find (\<lambda>child. case jn_key (jd_nodes doc ! child) of
                       Some key \<Rightarrow> snd key = length (cstr name) \<and> piece doc key = cstr name
                     | None \<Rightarrow> cstr name = []) (children doc node))"

definition ncfg_json_at :: "json_doc \<Rightarrow> nat option \<Rightarrow> nat \<Rightarrow> nat option" where
  "ncfg_json_at doc array index =
     (case ncfg_json_node doc array of
        None \<Rightarrow> None
      | Some node \<Rightarrow>
          if jn_type node \<noteq> TArray \<and> jn_type node \<noteq> TObject then None
          else if index < length (children doc node) then Some (children doc node ! index) else None)"

definition ncfg_json_count :: "json_doc \<Rightarrow> nat option \<Rightarrow> nat" where
  "ncfg_json_count doc index = (case ncfg_json_node doc index of Some node \<Rightarrow> jn_child_count node | None \<Rightarrow> 0)"

definition ncfg_json_string :: "json_doc \<Rightarrow> nat option \<Rightarrow> bytes option" where
  "ncfg_json_string doc index =
     (case ncfg_json_node doc index of
        None \<Rightarrow> None
      | Some node \<Rightarrow> if jn_type node \<noteq> TString then None else Some (piece doc (jn_value node)))"

definition ncfg_json_key :: "json_doc \<Rightarrow> nat option \<Rightarrow> bytes option" where
  "ncfg_json_key doc index =
     (case ncfg_json_node doc index of
        None \<Rightarrow> None
      | Some node \<Rightarrow> map_option (piece doc) (jn_key node))"

definition ncfg_json_string_equals :: "json_doc \<Rightarrow> nat option \<Rightarrow> bytes \<Rightarrow> bool" where
  "ncfg_json_string_equals doc index other =
     (case ncfg_json_string doc index of None \<Rightarrow> False | Some text \<Rightarrow> text = cstr other)"

text \<open>The digit loop of \<^verbatim>\<open>ncfg_json_int\<close>, at 64 bits.\<close>

fun json_digits :: "64 word \<Rightarrow> bytes \<Rightarrow> 64 word option" where
  "json_digits value [] = Some value"
| "json_digits value (c # cs) =
     (if c < ch CHR ''0'' \<or> ch CHR ''9'' < c then None
      else
        let digit = ucast (c - ch CHR ''0'') in
        if (- 1 - digit) div 10 < value then None
        else json_digits (value * 10 + digit) cs)"

definition ncfg_json_int :: "json_doc \<Rightarrow> nat option \<Rightarrow> 64 word \<Rightarrow> 64 word" where
  "ncfg_json_int doc index fallback =
     (case ncfg_json_node doc index of
        None \<Rightarrow> fallback
      | Some node \<Rightarrow>
          if jn_type node \<noteq> TNumber \<or> snd (jn_value node) = 0 then fallback
          else
            let text = piece doc (jn_value node);
                negative = (text ! 0 = ch CHR ''-'');
                digits = (if negative then drop 1 text else text);
                INT64_MAX = 0x7fffffffffffffff
            in if digits = [] then fallback
               else case json_digits 0 digits of
                 None \<Rightarrow> fallback
               | Some value \<Rightarrow>
                   if negative then
                     if INT64_MAX + 1 < value then fallback
                     else if value = INT64_MAX + 1 then - (2 ^ 63)
                     else - value
                   else if INT64_MAX < value then fallback
                   else value)"

definition ncfg_json_bool :: "json_doc \<Rightarrow> nat option \<Rightarrow> bool \<Rightarrow> bool" where
  "ncfg_json_bool doc index fallback =
     (case ncfg_json_node doc index of
        None \<Rightarrow> fallback
      | Some node \<Rightarrow> if jn_type node \<noteq> TBool then fallback else jn_bool node)"

definition ncfg_json_copy_member :: "json_doc \<Rightarrow> nat option \<Rightarrow> bytes \<Rightarrow> nat \<Rightarrow> bytes" where
  "ncfg_json_copy_member doc obj name out_size =
     (if out_size = 0 then []
      else case ncfg_json_string doc (ncfg_json_member doc obj name) of
        None \<Rightarrow> []
      | Some text \<Rightarrow> take (out_size - 1) text)"

end
