(* ===== verification/Ncfg_Sha256.thy ===== *)
theory Ncfg_Sha256
  imports Ncfg_Prelude
begin

text \<open>
  The digest of \<^verbatim>\<open>c/src/base/sha256.c\<close>, and the standard it implements.

  The first part translates the C: the table of constants, the message schedule in an array, the
  eight working words, the padding in one 128-byte buffer, and the hexadecimal output.  The second
  writes FIPS 180-4 down from its own text: constants as fractional parts of roots of primes, the
  recurrence of the schedule, the padding of the whole message and its division into blocks.  The
  last part shows they are the same function.
\<close>

unbundle bit_operations_syntax

section \<open>The code\<close>

definition K :: "32 word list" where
  "K =
     [0x428a2f98, 0x71374491, 0xb5c0fbcf, 0xe9b5dba5, 0x3956c25b, 0x59f111f1] @
     [0x923f82a4, 0xab1c5ed5, 0xd807aa98, 0x12835b01, 0x243185be, 0x550c7dc3] @
     [0x72be5d74, 0x80deb1fe, 0x9bdc06a7, 0xc19bf174, 0xe49b69c1, 0xefbe4786] @
     [0x0fc19dc6, 0x240ca1cc, 0x2de92c6f, 0x4a7484aa, 0x5cb0a9dc, 0x76f988da] @
     [0x983e5152, 0xa831c66d, 0xb00327c8, 0xbf597fc7, 0xc6e00bf3, 0xd5a79147] @
     [0x06ca6351, 0x14292967, 0x27b70a85, 0x2e1b2138, 0x4d2c6dfc, 0x53380d13] @
     [0x650a7354, 0x766a0abb, 0x81c2c92e, 0x92722c85, 0xa2bfe8a1, 0xa81a664b] @
     [0xc24b8b70, 0xc76c51a3, 0xd192e819, 0xd6990624, 0xf40e3585, 0x106aa070] @
     [0x19a4c116, 0x1e376c08, 0x2748774c, 0x34b0bcb5, 0x391c0cb3, 0x4ed8aa4a] @
     [0x5b9cca4f, 0x682e6ff3, 0x748f82ee, 0x78a5636f, 0x84c87814, 0x8cc70208] @
     [0x90befffa, 0xa4506ceb, 0xbef9a3f7, 0xc67178f2]"

definition rotate_right :: "32 word \<Rightarrow> nat \<Rightarrow> 32 word" where
  "rotate_right v bits = drop_bit bits v OR push_bit (32 - bits) v"

text \<open>The first loop: sixteen big-endian words.\<close>

definition block_words :: "bytes \<Rightarrow> 32 word list" where
  "block_words block =
     map (\<lambda>i. push_bit 24 (ucast (block ! (i * 4))) OR push_bit 16 (ucast (block ! (i * 4 + 1))) OR
               push_bit 8 (ucast (block ! (i * 4 + 2))) OR ucast (block ! (i * 4 + 3))) [0..<16]"

text \<open>The second loop fills the array upwards from its first sixteen entries.\<close>

definition schedule_word :: "32 word list \<Rightarrow> nat \<Rightarrow> 32 word" where
  "schedule_word w i =
     (let s0 = rotate_right (w ! (i - 15)) 7 XOR rotate_right (w ! (i - 15)) 18 XOR drop_bit 3 (w ! (i - 15));
          s1 = rotate_right (w ! (i - 2)) 17 XOR rotate_right (w ! (i - 2)) 19 XOR drop_bit 10 (w ! (i - 2))
      in w ! (i - 16) + s0 + w ! (i - 7) + s1)"

definition message_schedule :: "bytes \<Rightarrow> 32 word list" where
  "message_schedule block = foldl (\<lambda>w i. w @ [schedule_word w i]) (block_words block) [16..<64]"

record working =
  sa :: "32 word"
  sb :: "32 word"
  sc :: "32 word"
  sd :: "32 word"
  se :: "32 word"
  sf :: "32 word"
  sg :: "32 word"
  sh :: "32 word"

text \<open>The third loop's body.\<close>

definition sha_round :: "32 word list \<Rightarrow> working \<Rightarrow> nat \<Rightarrow> working" where
  "sha_round w s i =
     (let s1 = rotate_right (se s) 6 XOR rotate_right (se s) 11 XOR rotate_right (se s) 25;
          chosen = (se s AND sf s) XOR (NOT (se s) AND sg s);
          temp1 = sh s + s1 + chosen + K ! i + w ! i;
          s0 = rotate_right (sa s) 2 XOR rotate_right (sa s) 13 XOR rotate_right (sa s) 22;
          majority = (sa s AND sb s) XOR (sa s AND sc s) XOR (sb s AND sc s);
          temp2 = s0 + majority
      in \<lparr>sa = temp1 + temp2, sb = sa s, sc = sb s, sd = sc s,
          se = sd s + temp1, sf = se s, sg = sf s, sh = sg s\<rparr>)"

definition compress :: "32 word list \<Rightarrow> bytes \<Rightarrow> 32 word list" where
  "compress state block =
     (let w = message_schedule block;
          s = foldl (sha_round w)
                \<lparr>sa = state ! 0, sb = state ! 1, sc = state ! 2, sd = state ! 3,
                 se = state ! 4, sf = state ! 5, sg = state ! 6, sh = state ! 7\<rparr> [0..<64]
      in [state ! 0 + sa s, state ! 1 + sb s, state ! 2 + sc s, state ! 3 + sd s,
          state ! 4 + se s, state ! 5 + sf s, state ! 6 + sg s, state ! 7 + sh s])"

definition sha_start :: "32 word list" where
  "sha_start = [0x6a09e667, 0xbb67ae85, 0x3c6ef372, 0xa54ff53a, 0x510e527f, 0x9b05688c, 0x1f83d9ab, 0x5be0cd19]"

definition sha_digits :: bytes where
  "sha_digits = ascii ''0123456789abcdef''"

text \<open>The padding buffer: 128 bytes, of which one block or two are used.\<close>

definition sha_tail :: "bytes \<Rightarrow> nat \<times> bytes" where
  "sha_tail input =
     (let whole = length input div 64;
          rest = length input mod 64;
          bits = of_nat (length input) * (8 :: 64 word);
          tail = take rest (drop (whole * 64) input) @ replicate (128 - rest) 0;
          tail = tail[rest := 0x80];
          tail_length = (if rest < 56 then 64 else 128)
      in (tail_length,
          foldl (\<lambda>tail i. tail[tail_length - 1 - i := ucast (drop_bit (8 * i) bits AND 0xff)]) tail [0..<8]))"

definition word_hex :: "32 word \<Rightarrow> bytes" where
  "word_hex word =
     concat (map (\<lambda>shift. [sha_digits ! unat (drop_bit (shift * 8 + 4) word AND 0xf),
                           sha_digits ! unat (drop_bit (shift * 8) word AND 0xf)]) (rev [0..<4]))"

definition ncfg_sha256_hex :: "bytes \<Rightarrow> bytes" where
  "ncfg_sha256_hex input =
     (let state = foldl (\<lambda>state i. compress state (take 64 (drop (i * 64) input))) sha_start
            [0..<length input div 64];
          (tail_length, tail) = sha_tail input;
          state = compress state (take 64 tail);
          state = (if tail_length = 128 then compress state (take 64 (drop 64 tail)) else state)
      in concat (map word_hex state))"

section \<open>The standard\<close>

text \<open>
  FIPS 180-4, section 4.2.2 and 5.3.3: the first thirty-two bits of the fractional parts of the cube
  roots of the first sixty-four primes and of the square roots of the first eight, which are the low
  thirty-two bits of the integer roots of the primes scaled by \<open>2 ^ 96\<close> and \<open>2 ^ 64\<close>.
\<close>

definition root_below :: "nat \<Rightarrow> int \<Rightarrow> int" where
  "root_below k n = (GREATEST r. 0 \<le> r \<and> r ^ k \<le> n)"

definition prime_number :: "int \<Rightarrow> bool" where
  "prime_number p \<longleftrightarrow> 1 < p \<and> (\<forall>d \<in> {2..<p}. p mod d \<noteq> 0)"

text \<open>The sixty-fourth prime is 311.\<close>

definition first_primes :: "int list" where
  "first_primes = filter prime_number [0..311]"

definition fips_K :: "nat \<Rightarrow> 32 word" where
  "fips_K t = of_int (root_below 3 (first_primes ! t * 2 ^ 96))"

definition fips_start :: "32 word list" where
  "fips_start = map (\<lambda>j. of_int (root_below 2 (first_primes ! j * 2 ^ 64))) [0..<8]"

text \<open>Section 4.1.2: the functions.\<close>

definition ROTR :: "nat \<Rightarrow> 32 word \<Rightarrow> 32 word" where
  "ROTR n x = word_rotr n x"

definition SHR :: "nat \<Rightarrow> 32 word \<Rightarrow> 32 word" where
  "SHR n x = of_nat (unat x div 2 ^ n)"

definition Ch :: "32 word \<Rightarrow> 32 word \<Rightarrow> 32 word \<Rightarrow> 32 word" where
  "Ch x y z = (x AND y) XOR (NOT x AND z)"

definition Maj :: "32 word \<Rightarrow> 32 word \<Rightarrow> 32 word \<Rightarrow> 32 word" where
  "Maj x y z = (x AND y) XOR (x AND z) XOR (y AND z)"

definition Sigma0 :: "32 word \<Rightarrow> 32 word" where
  "Sigma0 x = ROTR 2 x XOR ROTR 13 x XOR ROTR 22 x"

definition Sigma1 :: "32 word \<Rightarrow> 32 word" where
  "Sigma1 x = ROTR 6 x XOR ROTR 11 x XOR ROTR 25 x"

definition sigma0 :: "32 word \<Rightarrow> 32 word" where
  "sigma0 x = ROTR 7 x XOR ROTR 18 x XOR SHR 3 x"

definition sigma1 :: "32 word \<Rightarrow> 32 word" where
  "sigma1 x = ROTR 17 x XOR ROTR 19 x XOR SHR 10 x"

text \<open>Section 6.2.2: the schedule as a recurrence, and the rounds.\<close>

definition message_word :: "bytes \<Rightarrow> nat \<Rightarrow> 32 word" where
  "message_word block t = of_nat (foldl (\<lambda>n b. n * 256 + unat b) 0 (take 4 (drop (4 * t) block)))"

fun fips_W :: "bytes \<Rightarrow> nat \<Rightarrow> 32 word" where
  "fips_W block t =
     (if t < 16 then message_word block t
      else sigma1 (fips_W block (t - 2)) + fips_W block (t - 7) +
           sigma0 (fips_W block (t - 15)) + fips_W block (t - 16))"

declare fips_W.simps [simp del]

type_synonym eight = "32 word \<times> 32 word \<times> 32 word \<times> 32 word \<times> 32 word \<times> 32 word \<times> 32 word \<times> 32 word"

primrec fips_rounds :: "bytes \<Rightarrow> nat \<Rightarrow> eight \<Rightarrow> eight" where
  "fips_rounds block 0 s = s"
| "fips_rounds block (Suc t) s =
     (case fips_rounds block t s of
        (a, b, c, d, e, f, g, h) \<Rightarrow>
          (let T1 = h + Sigma1 e + Ch e f g + fips_K t + fips_W block t;
               T2 = Sigma0 a + Maj a b c
           in (T1 + T2, a, b, c, d + T1, e, f, g)))"

definition fips_block :: "32 word list \<Rightarrow> bytes \<Rightarrow> 32 word list" where
  "fips_block H block =
     (case fips_rounds block 64 (H ! 0, H ! 1, H ! 2, H ! 3, H ! 4, H ! 5, H ! 6, H ! 7) of
        (a, b, c, d, e, f, g, h) \<Rightarrow>
          [a + H ! 0, b + H ! 1, c + H ! 2, d + H ! 3, e + H ! 4, f + H ! 5, g + H ! 6, h + H ! 7])"

text \<open>Section 5.1.1 and 5.2.1: the padding and the blocks, for messages of whole bytes.\<close>

definition fips_padded :: "bytes \<Rightarrow> bytes" where
  "fips_padded M =
     M @ [0x80] @ replicate (LEAST k. (length M + 1 + k) mod 64 = 56) 0 @
     map (\<lambda>i. of_nat (8 * length M div 256 ^ (7 - i))) [0..<8]"

definition fips_blocks :: "bytes \<Rightarrow> bytes list" where
  "fips_blocks padded = map (\<lambda>i. take 64 (drop (64 * i) padded)) [0..<length padded div 64]"

definition fips_sha256 :: "bytes \<Rightarrow> 32 word list" where
  "fips_sha256 M = foldl fips_block fips_start (fips_blocks (fips_padded M))"

text \<open>Eight hexadecimal digits to a word, the most significant first.\<close>

definition hex_digit :: "nat \<Rightarrow> byte" where
  "hex_digit n = of_nat (if n < 10 then 48 + n else 87 + n)"

definition fips_hex :: "32 word list \<Rightarrow> bytes" where
  "fips_hex ws = concat (map (\<lambda>x. map (\<lambda>k. hex_digit (unat x div 16 ^ (7 - k) mod 16)) [0..<8]) ws)"

section \<open>The code implements the standard\<close>

lemma root_belowI:
  assumes "0 \<le> r" "r ^ k \<le> n" "n < (r + 1) ^ k"
  shows "root_below k n = r"
  unfolding root_below_def
proof (rule Greatest_equality)
  fix y :: int assume "0 \<le> y \<and> y ^ k \<le> n"
  with assms have "y ^ k < (r + 1) ^ k" by simp
  with assms(1) show "y \<le> r" using power_less_imp_less_base [of y k "r + 1"] by simp
qed (use assms in simp)

text \<open>A composite number below 324 has a divisor below 18.\<close>

lemma prime_number_small:
  assumes "p < 324"
  shows "prime_number p \<longleftrightarrow> 1 < p \<and> list_all (\<lambda>d. p \<le> d \<or> p mod d \<noteq> 0) [2..17]"
proof -
  have "\<exists>e \<in> {2..17}. e < p \<and> p mod e = 0" if d: "2 \<le> d" "d < p" "p mod d = 0" for d
  proof (cases "d \<le> 17")
    case False
    obtain q where q: "p = d * q" using d(3) by (metis mod_0_imp_dvd dvdE)
    have "\<not> 18 \<le> q" using mult_mono [of 18 d 18 q] False assms q by auto
    moreover have "1 < q" using mult_left_mono [of q 1 d] q d by auto
    moreover have "q < p" using q d by simp
    ultimately show ?thesis using q by (intro bexI [of _ q]) auto
  qed (use d in auto)
  then have "(\<forall>d \<in> {2..<p}. p mod d \<noteq> 0) \<longleftrightarrow> (\<forall>d \<in> {2..17}. p \<le> d \<or> p mod d \<noteq> 0)"
    by (meson atLeastAtMost_iff atLeastLessThan_iff not_less)
  then show ?thesis unfolding prime_number_def list_all_iff set_upto by simp
qed

lemma first_primes_listed:
  "first_primes = [2, 3, 5, 7, 11, 13, 17, 19, 23, 29, 31, 37, 41, 43, 47, 53, 59, 61, 67, 71, 73, 79,
    83, 89, 97, 101, 103, 107, 109, 113, 127, 131, 137, 139, 149, 151, 157, 163, 167, 173, 179, 181, 191, 193,
    197, 199, 211, 223, 227, 229, 233, 239, 241, 251, 257, 263, 269, 271, 277, 281, 283, 293, 307, 311]"
proof -
  have "first_primes = filter (\<lambda>p. 1 < p \<and> list_all (\<lambda>d. p \<le> d \<or> p mod d \<noteq> 0) [2..17]) [0..311]"
    unfolding first_primes_def by (rule filter_cong) (auto simp: prime_number_small)
  also have "\<dots> = [2, 3, 5, 7, 11, 13, 17, 19, 23, 29, 31, 37, 41, 43, 47, 53, 59, 61, 67, 71, 73, 79,
    83, 89, 97, 101, 103, 107, 109, 113, 127, 131, 137, 139, 149, 151, 157, 163, 167, 173, 179, 181, 191, 193,
    197, 199, 211, 223, 227, 229, 233, 239, 241, 251, 257, 263, 269, 271, 277, 281, 283, 293, 307, 311]"
    by code_simp
  finally show ?thesis .
qed

text \<open>That a constant is the fraction of a root, whose integer part is at most six.\<close>

definition root_fraction :: "nat \<Rightarrow> nat \<Rightarrow> int \<Rightarrow> int \<Rightarrow> bool" where
  "root_fraction k scale p c =
     (let r = (if p < 2 ^ k then 1 else if p < 3 ^ k then 2 else if p < 4 ^ k then 3
               else if p < 5 ^ k then 4 else if p < 6 ^ k then 5 else 6) * 2 ^ 32 + c
      in 0 \<le> c \<and> r ^ k \<le> p * 2 ^ scale \<and> p * 2 ^ scale < (r + 1) ^ k)"

lemma root_fraction:
  assumes "root_fraction k scale p c"
  shows "of_int (root_below k (p * 2 ^ scale)) = (of_int c :: 32 word)"
proof -
  define q :: int where "q = (if p < 2 ^ k then 1 else if p < 3 ^ k then 2 else if p < 4 ^ k then 3
    else if p < 5 ^ k then 4 else if p < 6 ^ k then 5 else 6)"
  then have "0 \<le> q" by simp
  with assms have "root_below k (p * 2 ^ scale) = q * 2 ^ 32 + c"
    unfolding root_fraction_def q_def [symmetric] Let_def by (intro root_belowI) simp_all
  then show ?thesis by (simp only: word_of_int_eq_iff take_bit_eq_mod) simp
qed

definition K_ints :: "int list" where
  "K_ints =
     [1116352408, 1899447441, 3049323471, 3921009573, 961987163, 1508970993] @
     [2453635748, 2870763221, 3624381080, 310598401, 607225278, 1426881987] @
     [1925078388, 2162078206, 2614888103, 3248222580, 3835390401, 4022224774] @
     [264347078, 604807628, 770255983, 1249150122, 1555081692, 1996064986] @
     [2554220882, 2821834349, 2952996808, 3210313671, 3336571891, 3584528711] @
     [113926993, 338241895, 666307205, 773529912, 1294757372, 1396182291] @
     [1695183700, 1986661051, 2177026350, 2456956037, 2730485921, 2820302411] @
     [3259730800, 3345764771, 3516065817, 3600352804, 4094571909, 275423344] @
     [430227734, 506948616, 659060556, 883997877, 958139571, 1322822218] @
     [1537002063, 1747873779, 1955562222, 2024104815, 2227730452, 2361852424] @
     [2428436474, 2756734187, 3204031479, 3329325298]"

definition start_ints :: "int list" where
  "start_ints = [1779033703, 3144134277, 1013904242, 2773480762, 1359893119, 2600822924, 528734635, 1541459225]"

lemma K_fractions: "list_all2 (root_fraction 3 96) first_primes K_ints"
  by (simp add: first_primes_listed K_ints_def root_fraction_def)

lemma K_standard:
  assumes "t < 64"
  shows "K ! t = fips_K t"
proof -
  have n: "length first_primes = 64" by (simp add: first_primes_listed)
  have "K = map of_int K_ints" by (simp add: K_def K_ints_def)
  moreover have "of_int (K_ints ! t) = fips_K t"
    using root_fraction [OF list_all2_nthD [OF K_fractions]] assms n unfolding fips_K_def by simp
  ultimately show ?thesis using assms n list_all2_lengthD [OF K_fractions] by (metis nth_map)
qed

lemma start_fractions: "list_all2 (root_fraction 2 64) (take 8 first_primes) start_ints"
  by (simp add: first_primes_listed start_ints_def root_fraction_def)

lemma start_standard: "sha_start = fips_start"
proof -
  have eight: "length (take 8 first_primes) = 8" by (simp add: first_primes_listed)
  have "sha_start = map of_int start_ints" by (simp add: sha_start_def start_ints_def)
  moreover have "map of_int start_ints = fips_start"
  proof (rule nth_equalityI)
    show "length (map of_int start_ints) = length fips_start" by (simp add: fips_start_def start_ints_def)
    fix i assume "i < length (map of_int start_ints :: 32 word list)"
    then have "i < 8" by (simp add: start_ints_def)
    with root_fraction [OF list_all2_nthD [OF start_fractions, of i]] eight list_all2_lengthD [OF start_fractions]
    show "map of_int start_ints ! i = fips_start ! i" by (simp add: fips_start_def del: length_take)
  qed
  ultimately show ?thesis by simp
qed

lemma rotate_right_ROTR: "0 < n \<Longrightarrow> n < 32 \<Longrightarrow> rotate_right x n = ROTR n x"
  by (rule bit_word_eqI)
    (auto simp: rotate_right_def ROTR_def bit_simps mod_if add.commute [of n] dest: bit_imp_le_length split: if_splits)

lemma drop_bit_SHR: "drop_bit n x = SHR n x"
proof -
  have "of_nat (unat x div 2 ^ n) = (of_nat (unat (drop_bit n x)) :: 32 word)"
    by (simp only: unat_drop_bit_eq drop_bit_eq_div [of n "unat x"])
  then show ?thesis by (simp add: SHR_def)
qed

lemmas standard_functions = Sigma0_def Sigma1_def sigma0_def sigma1_def Ch_def Maj_def rotate_right_ROTR drop_bit_SHR

lemma block_word_standard:
  assumes "4 * t + 4 \<le> length block"
  shows "push_bit 24 (ucast (block ! (t * 4))) OR push_bit 16 (ucast (block ! (t * 4 + 1))) OR
    push_bit 8 (ucast (block ! (t * 4 + 2))) OR ucast (block ! (t * 4 + 3)) = message_word block t"
proof -
  have four: "take 4 (drop (4 * t) block) = [block ! (4 * t), block ! (4 * t + 1), block ! (4 * t + 2), block ! (4 * t + 3)]"
    using assms by (intro nth_equalityI) (auto simp: less_Suc_eq numeral_eq_Suc nth_Cons')
  have "push_bit 24 (ucast a) OR push_bit 16 (ucast b) OR push_bit 8 (ucast c) OR ucast d =
      (((ucast a * 256 + ucast b) * 256 + ucast c) * 256 + ucast d :: 32 word)" for a b c d :: byte
  proof -
    have "push_bit 24 (ucast a) OR push_bit 16 (ucast b) OR push_bit 8 (ucast c) OR ucast d =
        push_bit 24 (ucast a) + (push_bit 16 (ucast b) + (push_bit 8 (ucast c) + (ucast d :: 32 word)))"
      by (subst disjunctive_add_eq_or, rule bit_word_eqI, force simp: bit_simps dest: bit_imp_le_length)+ simp
    then show ?thesis by (simp add: push_bit_eq_mult algebra_simps)
  qed
  then show ?thesis by (simp add: message_word_def four mult.commute [of t])
qed

lemma schedule_standard:
  assumes "length block = 64"
  shows "message_schedule block = map (fips_W block) [0..<64]"
proof -
  have first: "block_words block = map (fips_W block) [0..<16]"
    unfolding block_words_def
  proof (rule map_cong [OF refl])
    fix t :: nat assume "t \<in> set [0..<16]"
    then show "push_bit 24 (ucast (block ! (t * 4))) OR push_bit 16 (ucast (block ! (t * 4 + 1))) OR
        push_bit 8 (ucast (block ! (t * 4 + 2))) OR ucast (block ! (t * 4 + 3)) = fips_W block t"
      using block_word_standard [of t block] assms by (simp add: fips_W.simps)
  qed
  have filled: "foldl (\<lambda>w i. w @ [schedule_word w i]) (block_words block) [16..<n] = map (fips_W block) [0..<n]"
    if "16 \<le> n" for n
    using that
  proof (induction n rule: dec_induct)
    case (step n)
    have "fips_W block n = sigma1 (fips_W block (n - 2)) + fips_W block (n - 7) +
        sigma0 (fips_W block (n - 15)) + fips_W block (n - 16)"
      using step(1) by (subst fips_W.simps) simp
    then have "schedule_word (map (fips_W block) [0..<n]) n = fips_W block n"
      using step(1) by (simp add: schedule_word_def standard_functions Let_def ac_simps)
    with step show ?case by simp
  qed (simp add: first)
  show ?thesis unfolding message_schedule_def by (rule filled) simp
qed

definition eight_of :: "working \<Rightarrow> eight" where
  "eight_of s = (sa s, sb s, sc s, sd s, se s, sf s, sg s, sh s)"

lemma rounds_standard:
  assumes "length block = 64" "n \<le> 64"
  shows "eight_of (foldl (sha_round (message_schedule block)) s [0..<n]) = fips_rounds block n (eight_of s)"
  using assms(2)
proof (induction n)
  case (Suc n)
  then show ?case
    by (auto simp: schedule_standard [OF assms(1)] sha_round_def eight_of_def Let_def standard_functions K_standard
        split: prod.split)
qed simp

lemma compress_standard:
  assumes "length block = 64"
  shows "compress state block = fips_block state block"
proof -
  let ?s = "\<lparr>sa = state ! 0, sb = state ! 1, sc = state ! 2, sd = state ! 3,
    se = state ! 4, sf = state ! 5, sg = state ! 6, sh = state ! 7\<rparr>"
  from rounds_standard [OF assms, of 64 ?s]
  have "fips_rounds block 64 (state ! 0, state ! 1, state ! 2, state ! 3, state ! 4, state ! 5, state ! 6, state ! 7) =
      eight_of (foldl (sha_round (message_schedule block)) ?s [0..<64])" by (simp add: eight_of_def)
  then show ?thesis
    unfolding compress_def fips_block_def by (simp add: Let_def eight_of_def add.commute)
qed

subsection \<open>The padding\<close>

lemma padding_zeros:
  "(LEAST k. (n + 1 + k) mod 64 = 56) = (if n mod 64 < 56 then 55 - n mod 64 else 119 - n mod 64 :: nat)"
proof -
  have r: "(n + 1 + k) mod 64 = (n mod 64 + 1 + k) mod 64" for k by (metis add.assoc mod_add_left_eq)
  define q where "q = n mod 64"
  have q: "q < 64" by (simp add: q_def)
  have wrapped: "(q + 1 + k) mod 64 = (if q + 1 + k < 64 then q + 1 + k else q + 1 + k - 64)" if "q + 1 + k < 128" for k
    using that by (simp add: le_mod_geq)
  have "(if q < 56 then 55 - q else 119 - q) \<le> k" if "(q + 1 + k) mod 64 = 56" for k
    using that q wrapped [of k] by (cases "q + 1 + k < 128") (auto split: if_splits)
  then show ?thesis unfolding r q_def [symmetric] by (intro Least_equality) (use q in \<open>auto simp: wrapped\<close>)
qed

lemma foldl_updates:
  assumes "k \<le> m" "m \<le> length t"
  shows "foldl (\<lambda>t i. t[m - 1 - i := f i]) t [0..<k] = take (m - k) t @ rev (map f [0..<k]) @ drop m t"
  using assms(1)
proof (induction k)
  case (Suc k)
  then have "take (m - k) t = take (m - Suc k) t @ [t ! (m - Suc k)]"
    using assms(2) take_Suc_conv_app_nth [of "m - Suc k" t] by (simp add: Suc_diff_Suc)
  with Suc assms(2) show ?case by (simp add: list_update_append)
qed simp

lemma length_byte:
  assumes "n < 2 ^ 61"
  shows "ucast (drop_bit (8 * i) (of_nat n * 8 :: 64 word) AND 0xff) = (of_nat (8 * n div 256 ^ i) :: byte)"
proof -
  have "unat (of_nat n * 8 :: 64 word) = 8 * n" using assms by (simp add: unat_word_ariths unat_of_nat)
  then have "unat (drop_bit (8 * i) (of_nat n * 8 :: 64 word)) = 8 * n div 256 ^ i"
    by (simp only: unat_drop_bit_eq drop_bit_eq_div [where ?'a = nat] power_mult) simp
  then have "of_nat (8 * n div 256 ^ i) = (ucast (drop_bit (8 * i) (of_nat n * 8 :: 64 word)) :: byte)"
    by (metis of_nat_unat)
  moreover have "ucast (d AND 0xff) = (ucast d :: byte)" for d :: "64 word"
  proof -
    have "0xff = (mask 8 :: 64 word)" by (simp add: mask_eq_exp_minus_1)
    then show ?thesis by (simp add: bit_eq_iff bit_simps)
  qed
  ultimately show ?thesis by simp
qed

lemma digit_standard: "n < 16 \<Longrightarrow> sha_digits ! n = hex_digit n"
  by (auto simp: sha_digits_def hex_digit_def less_Suc_eq numeral_eq_Suc)

lemma nibble: "unat (drop_bit m (x :: 32 word) AND 0xf) = unat x div 2 ^ m mod 16"
proof -
  have "unat (drop_bit m x AND mask 4) = unat x div 2 ^ m mod 2 ^ 4"
    by (simp only: take_bit_eq_mask [symmetric] unsigned_take_bit_eq unat_drop_bit_eq take_bit_eq_mod [where ?'a = nat] drop_bit_eq_div [where ?'a = nat])
  then show ?thesis by (simp add: mask_eq_exp_minus_1)
qed

lemma word_hex_standard: "word_hex x = map (\<lambda>k. hex_digit (unat x div 16 ^ (7 - k) mod 16)) [0..<8]"
  by (simp add: word_hex_def nibble digit_standard upt_rec)


text \<open>The buffer holds the end of the padded message.\<close>

lemma tail_standard:
  assumes "length input < 2 ^ 61"
  shows "take (fst (sha_tail input)) (snd (sha_tail input)) =
      drop (length input div 64 * 64) (fips_padded input) \<and>
    fst (sha_tail input) = (if length input mod 64 < 56 then 64 else 128) \<and>
    length (fips_padded input) = length input div 64 * 64 + fst (sha_tail input) \<and>
    length (snd (sha_tail input)) = 128"
proof -
  define whole rest where "whole = length input div 64 * 64" and "rest = length input mod 64"
  have n: "length input = whole + rest" "rest < 64" by (simp_all add: whole_def rest_def)
  define m where "m = (if rest < 56 then 64 else 128 :: nat)"
  have m: "rest + 9 \<le> m" "m \<le> 128" using n(2) by (auto simp: m_def)
  have zeros: "(LEAST k. (length input + 1 + k) mod 64 = 56) = m - rest - 9"
    using n(2) unfolding padding_zeros by (simp add: rest_def [symmetric] m_def)
  let ?bits = "\<lambda>i. of_nat (8 * length input div 256 ^ i) :: byte"
  let ?base = "drop whole input @ [0x80] @ replicate (127 - rest) 0"
  have "(take rest (drop whole input) @ replicate (128 - rest) 0)[rest := 0x80] = ?base"
    using n Suc_diff_le [of rest 127] by (simp add: list_update_append)
  then have tail: "sha_tail input = (m, foldl (\<lambda>t i. t[m - 1 - i := ?bits i]) ?base [0..<8])"
    unfolding sha_tail_def Let_def m_def rest_def [symmetric] whole_def [symmetric]
    by (simp add: length_byte [OF assms] rest_def whole_def)
  also have "foldl (\<lambda>t i. t[m - 1 - i := ?bits i]) ?base [0..<8] =
      take (m - 8) ?base @ rev (map ?bits [0..<8]) @ drop m ?base"
    using m n by (intro foldl_updates) auto
  finally have tail: "sha_tail input = (m, take (m - 8) ?base @ rev (map ?bits [0..<8]) @ drop m ?base)" .
  have base: "take (m - 8) ?base = drop whole input @ [0x80] @ replicate (m - rest - 9) 0"
    using m n by (simp add: take_Cons')
  define L where "L = map (\<lambda>i. ?bits (7 - i)) [0..<8]"
  have L: "rev (map ?bits [0..<8]) = L" "length L = 8" unfolding L_def by (simp_all add: upt_rec)
  have padded: "fips_padded input = input @ [0x80] @ replicate (m - rest - 9) 0 @ L"
    unfolding fips_padded_def zeros L_def ..
  have tail: "sha_tail input = (m, (drop whole input @ [0x80] @ replicate (m - rest - 9) 0 @ L) @ drop m ?base)"
    unfolding tail base L by simp
  have "take m (snd (sha_tail input)) = drop whole (fips_padded input)"
    unfolding tail padded snd_conv using m n L by (simp add: take_Cons')
  moreover have "length (fips_padded input) = whole + m" using m n L by (simp add: padded)
  moreover have "length (snd (sha_tail input)) = 128" unfolding tail using m n L by simp
  ultimately show ?thesis
    unfolding whole_def [symmetric] rest_def [symmetric] m_def [symmetric] by (simp add: tail)
qed


lemma padded_whole: "take (length input div 64 * 64) (fips_padded input) = take (length input div 64 * 64) input"
  by (simp add: fips_padded_def)

lemma blocks_append:
  assumes "length xs = 64 * n"
  shows "fips_blocks (xs @ ys) = fips_blocks xs @ fips_blocks ys"
proof -
  have "[0..<n + m] = [0..<n] @ map (\<lambda>i. n + i) [0..<m]" for m
    by (rule nth_equalityI) (auto simp: nth_append)
  then have "fips_blocks (xs @ ys) = map (\<lambda>i. take 64 (drop (64 * i) (xs @ ys))) [0..<n] @
      map (\<lambda>i. take 64 (drop (64 * (n + i)) (xs @ ys))) [0..<length ys div 64]"
    using assms by (simp add: fips_blocks_def comp_def)
  moreover have "take 64 (drop (64 * i) (xs @ ys)) = take 64 (drop (64 * i) xs)" if "i < n" for i
    using that assms by simp
  moreover have "drop (64 * (n + i)) (xs @ ys) = drop (64 * i) ys" for i
    using assms by simp
  ultimately show ?thesis using assms by (simp add: fips_blocks_def)
qed

lemma whole_blocks:
  "fips_blocks (take (length input div 64 * 64) input) =
   map (\<lambda>i. take 64 (drop (i * 64) input)) [0..<length input div 64]"
  by (auto simp: fips_blocks_def drop_take min_def mult.commute)

lemma tail_blocks:
  assumes "length t = 128" "m = 64 \<or> m = 128"
  shows "foldl fips_block H (fips_blocks (take m t)) =
    (if m = 128 then fips_block (fips_block H (take 64 t)) (take 64 (drop 64 t)) else fips_block H (take 64 t))"
  using assms by (auto simp: fips_blocks_def upt_rec take_drop)

lemma hex_standard: "fips_hex ws = concat (map word_hex ws)"
  by (simp only: fips_hex_def word_hex_standard [symmetric])

lemma length_word_hex: "length (word_hex w) = 8"
  by (simp add: word_hex_standard)

lemma set_word_hex: "set (word_hex w) \<subseteq> hex_digit ` {..<16}"
  by (auto simp: word_hex_standard)

lemma sha256_hex_words: "\<exists>state. length state = 8 \<and> ncfg_sha256_hex input = concat (map word_hex state)"
proof -
  have "length (compress state block) = 8" for state block by (simp add: compress_def Let_def)
  then show ?thesis by (auto simp: ncfg_sha256_hex_def Let_def split: prod.split)
qed

lemma sha256_hex_length: "length (ncfg_sha256_hex input) = 64"
proof -
  obtain state where "length state = 8" "ncfg_sha256_hex input = concat (map word_hex state)"
    using sha256_hex_words by blast
  then show ?thesis by (simp add: length_concat comp_def length_word_hex sum_list_triv)
qed

lemma sha256_hex_digits: "b \<in> set (ncfg_sha256_hex input) \<Longrightarrow> \<exists>n < 16. b = hex_digit n"
  using sha256_hex_words [of input] set_word_hex by fastforce

text \<open>
  C22.  The digest is SHA-256.  For every message the standard defines a digest of -- up to
  \<open>2 ^ 61\<close> bytes -- the code's result is the digest of FIPS 180-4, with its constants taken as
  the fractions of roots of primes, its padding of the whole message and its recurrences, in
  lowercase hexadecimal.
\<close>

theorem sha256_standard:
  assumes "length input < 2 ^ 61"
  shows "ncfg_sha256_hex input = fips_hex (fips_sha256 input)"
proof -
  let ?whole = "length input div 64 * 64"
  let ?blocks = "map (\<lambda>i. take 64 (drop (i * 64) input)) [0..<length input div 64]"
  obtain m t where tail: "sha_tail input = (m, t)" by fastforce
  note padded = tail_standard [OF assms, unfolded tail fst_conv snd_conv]
  have "fips_padded input = take ?whole input @ take m t"
    using conjunct1 [OF padded] append_take_drop_id [of ?whole "fips_padded input"]
    by (simp add: padded_whole)
  then have blocks: "fips_blocks (fips_padded input) = ?blocks @ fips_blocks (take m t)"
    using blocks_append [of "take ?whole input" "length input div 64"] whole_blocks by simp
  have whole: "foldl (\<lambda>state i. compress state (take 64 (drop (i * 64) input))) H [0..<length input div 64] =
      foldl fips_block H ?blocks" for H
    unfolding foldl_map by (rule foldl_cong) (auto intro!: compress_standard simp: min_def)
  show ?thesis
    using padded
    by (simp add: ncfg_sha256_hex_def tail whole start_standard [symmetric] compress_standard tail_blocks
        fips_sha256_def blocks hex_standard split: if_splits)
qed

theorem sha256_standard_witness:
  "ncfg_sha256_hex (ascii ''abc'') = fips_hex (fips_sha256 (ascii ''abc''))"
  by (rule sha256_standard) simp

end
