(* ===== verification/Ncfg_Confirm.thy ===== *)
theory Ncfg_Confirm
  imports Ncfg_Apply Ncfg_Json_Read Ncfg_Sha256
begin

text \<open>
  The commit-confirm window of \<^verbatim>\<open>c/src/daemon/confirm.c\<close>: a change that is reverted unless somebody
  confirms it, kept in two files beside the run directory so that it survives the daemon.

  A disk maps paths to contents; \<open>dk_refuses\<close> says which paths the kernel will not let be replaced or
  removed, and in what words.  \<^verbatim>\<open>ncfg_write_atomically\<close> replaces a file whole or leaves it as it was.  The clocks are
  arguments.  What other modules do -- reading, writing and hashing a document, planning, observing
  the machine, recording what ran and publishing it -- is a \<open>world\<close> of functions the operations are
  given; \<open>ds_others\<close> holds the files of the run directory those modules keep and what the daemon has
  heard, which an observation is stamped with.
\<close>

definition NCFG_CONFIRM_PATH_MAX :: nat where
  "NCFG_CONFIRM_PATH_MAX = 512"

definition NCFG_DAEMON_HASH_MAX :: nat where
  "NCFG_DAEMON_HASH_MAX = 65"

definition WINDOW_FILE_MAX :: nat where
  "WINDOW_FILE_MAX = 64 * 1024"

definition DOCUMENT_FILE_MAX :: nat where
  "DOCUMENT_FILE_MAX = 16 * 1024 * 1024"

subsection \<open>Where the promise is kept\<close>

text \<open>The trailing slashes of a name with more than one character do not count.\<close>

function trim_slashes :: "bytes \<Rightarrow> bytes" where
  "trim_slashes run_dir =
     (if 1 < length run_dir \<and> last run_dir = ch CHR ''/'' then trim_slashes (butlast run_dir) else run_dir)"
  by auto
termination
  by (relation "measure length") auto

declare trim_slashes.simps [simp del]

text \<open>The position of the last slash, if there is one.\<close>

definition last_slash :: "bytes \<Rightarrow> nat option" where
  "last_slash s =
     foldl (\<lambda>found at. if s ! at = ch CHR ''/'' then Some at else found) None [0..<length s]"

definition ncfg_confirm_dir :: "bytes \<Rightarrow> nat \<Rightarrow> bytes option" where
  "ncfg_confirm_dir run_dir out_size =
     (if out_size = 0 then None
      else
        (let run = trim_slashes run_dir;
             length = length run;
             written =
               (if length = 0 then ascii ''confirm''
                else if length = 1 \<and> run ! 0 = ch CHR ''/'' then ascii ''/confirm''
                else case last_slash run of
                  None \<Rightarrow> run @ ascii ''-confirm''
                | Some slash \<Rightarrow>
                    if slash = 0 then ascii ''/'' @ take (length - 1) (drop 1 run) @ ascii ''-confirm''
                    else take slash run @ ascii ''/'' @
                      take (length - slash - 1) (drop (slash + 1) run) @ ascii ''-confirm'')
         in if out_size \<le> List.length written then None else Some written))"

definition confirm_path :: "bytes \<Rightarrow> bytes \<Rightarrow> bytes option" where
  "confirm_path run_dir leaf =
     (case ncfg_confirm_dir run_dir NCFG_CONFIRM_PATH_MAX of
        None \<Rightarrow> None
      | Some directory \<Rightarrow>
          (let written = directory @ ascii ''/'' @ leaf in
           if length written < NCFG_CONFIRM_PATH_MAX then Some written else None))"

definition path_too_long :: "bytes \<Rightarrow> bytes" where
  "path_too_long run_dir =
     ascii ''the confirm directory for `'' @ run_dir @ ascii ''` does not fit in 512 bytes''"

subsection \<open>Files\<close>

record disk =
  dk_files :: "bytes \<Rightarrow> bytes option"
  dk_refuses :: "bytes \<Rightarrow> bytes option"

definition read_whole :: "disk \<Rightarrow> bytes \<Rightarrow> nat \<Rightarrow> bytes option" where
  "read_whole disk path ceiling =
     (case dk_files disk path of
        None \<Rightarrow> None
      | Some body \<Rightarrow> if ceiling < length body then None else Some body)"

definition ncfg_write_atomically :: "disk \<Rightarrow> bytes \<Rightarrow> bytes \<Rightarrow> (bytes + unit) \<times> disk" where
  "ncfg_write_atomically disk path body =
     (case dk_refuses disk path of
        None \<Rightarrow> (Inr (), disk\<lparr>dk_files := (dk_files disk)(path := Some body)\<rparr>)
      | Some why \<Rightarrow> (Inl why, disk))"

definition unlink_file :: "disk \<Rightarrow> bytes \<Rightarrow> (bytes + unit) \<times> disk" where
  "unlink_file disk path =
     (if dk_files disk path = None then (Inr (), disk)
      else case dk_refuses disk path of
        None \<Rightarrow> (Inr (), disk\<lparr>dk_files := (dk_files disk)(path := None)\<rparr>)
      | Some why \<Rightarrow> (Inl why, disk))"

subsection \<open>The window\<close>

record window =
  wd_deadline_epoch :: "64 word"
  wd_asleep_at_arming :: "64 word"
  wd_has_asleep :: bool
  wd_window_seconds :: "32 word"
  wd_last_good_hash :: bytes

definition deadline_of :: "64 word \<Rightarrow> window \<Rightarrow> 64 word" where
  "deadline_of asleep window =
     (if \<not> wd_has_asleep window then wd_deadline_epoch window
      else if wd_asleep_at_arming window < asleep
        then wd_deadline_epoch window + (asleep - wd_asleep_at_arming window)
        else wd_deadline_epoch window)"

definition ncfg_confirm_expired_at :: "64 word \<Rightarrow> window \<Rightarrow> 64 word \<Rightarrow> bool" where
  "ncfg_confirm_expired_at asleep window now \<longleftrightarrow> deadline_of asleep window \<le> now"

definition ncfg_confirm_remaining_at :: "64 word \<Rightarrow> window \<Rightarrow> 64 word \<Rightarrow> 64 word" where
  "ncfg_confirm_remaining_at asleep window now =
     (let deadline = deadline_of asleep window in if deadline \<le> now then 0 else deadline - now)"

text \<open>What the loop over the members has found so far.\<close>

record window_found =
  wf_deadline :: "64 word option"
  wf_seconds :: "64 word option"
  wf_hash :: "bytes option"
  wf_asleep :: "64 word option"

definition window_member :: "json_doc \<Rightarrow> nat \<Rightarrow> string \<Rightarrow> bool" where
  "window_member doc member name = (ncfg_json_key doc (Some member) = Some (ascii name))"

definition number_at :: "json_doc \<Rightarrow> nat \<Rightarrow> 64 word option" where
  "number_at doc member =
     (if ncfg_json_type doc (Some member) = TNumber then Some (ncfg_json_int doc (Some member) (- 1)) else None)"

fun window_members :: "json_doc \<Rightarrow> nat list \<Rightarrow> window_found \<Rightarrow> window_found option" where
  "window_members doc [] found = Some found"
| "window_members doc (member # members) found =
     (if window_member doc member ''deadline_epoch'' then
        window_members doc members (found\<lparr>wf_deadline := number_at doc member\<rparr>)
      else if window_member doc member ''window_seconds'' then
        window_members doc members (found\<lparr>wf_seconds := number_at doc member\<rparr>)
      else if window_member doc member ''last_good_hash'' then
        window_members doc members (found\<lparr>wf_hash := ncfg_json_string doc (Some member)\<rparr>)
      else if window_member doc member ''asleep_seconds'' then
        window_members doc members
          (found\<lparr>wf_asleep := (case number_at doc member of
             None \<Rightarrow> None | Some asleep \<Rightarrow> if 0 \<le>s asleep then Some asleep else None)\<rparr>)
      else None)"

definition window_of_text :: "bytes \<Rightarrow> window option" where
  "window_of_text text =
     (case ncfg_json_parse text of
        Inl _ \<Rightarrow> None
      | Inr doc \<Rightarrow>
          (case ncfg_json_node doc (ncfg_json_root doc) of
             None \<Rightarrow> None
           | Some root \<Rightarrow>
               if jn_type root \<noteq> TObject then None
               else case window_members doc (children doc root)
                   \<lparr>wf_deadline = None, wf_seconds = None, wf_hash = None, wf_asleep = None\<rparr> of
                 None \<Rightarrow> None
               | Some found \<Rightarrow>
                   (case (wf_deadline found, wf_seconds found, wf_hash found) of
                      (Some deadline, Some seconds, Some hash) \<Rightarrow>
                        if deadline <s 0 \<or> seconds <s 0 \<or> 0xffffffff <s seconds \<or>
                           NCFG_DAEMON_HASH_MAX \<le> length hash
                        then None
                        else Some \<lparr>wd_deadline_epoch = deadline,
                               wd_asleep_at_arming = (case wf_asleep found of None \<Rightarrow> 0 | Some asleep \<Rightarrow> asleep),
                               wd_has_asleep = (wf_asleep found \<noteq> None),
                               wd_window_seconds = ucast seconds,
                               wd_last_good_hash = cstr hash\<rparr>
                    | _ \<Rightarrow> None)))"

definition ncfg_confirm_read_window :: "bytes \<Rightarrow> disk \<Rightarrow> window option" where
  "ncfg_confirm_read_window run_dir disk =
     (case confirm_path run_dir (ascii ''confirm.json'') of
        None \<Rightarrow> None
      | Some path \<Rightarrow>
          (case read_whole disk path WINDOW_FILE_MAX of
             None \<Rightarrow> None
           | Some text \<Rightarrow> window_of_text text))"

definition write_window_body :: "window \<Rightarrow> json_writer" where
  "write_window_body window =
     (let writer = ncfg_json_write_init (ncfg_buf_init 0);
          writer = ncfg_json_write_object_begin writer;
          writer = ncfg_json_write_key writer (Some (ascii ''deadline_epoch''));
          writer = ncfg_json_write_uint writer (wd_deadline_epoch window);
          writer = ncfg_json_write_key writer (Some (ascii ''window_seconds''));
          writer = ncfg_json_write_uint writer (ucast (wd_window_seconds window));
          writer = ncfg_json_write_member_string writer (Some (ascii ''last_good_hash''))
                     (Some (wd_last_good_hash window));
          writer = (if wd_has_asleep window
                    then ncfg_json_write_uint
                           (ncfg_json_write_key writer (Some (ascii ''asleep_seconds'')))
                           (wd_asleep_at_arming window)
                    else writer)
      in ncfg_json_write_object_end writer)"

definition ncfg_confirm_write_window :: "bytes \<Rightarrow> window \<Rightarrow> disk \<Rightarrow> (bytes + unit) \<times> disk" where
  "ncfg_confirm_write_window run_dir window disk =
     (case confirm_path run_dir (ascii ''confirm.json'') of
        None \<Rightarrow> (Inl (path_too_long run_dir), disk)
      | Some path \<Rightarrow>
          (let writer = write_window_body window in
           if \<not> ncfg_json_write_done writer then
             (Inl (ascii ''could not build the confirm window: '' @
                text_or_empty (ncfg_json_write_failure writer)), disk)
           else ncfg_write_atomically disk path (cstr (ncfg_buf_text (jw_buf writer)))))"

definition ncfg_confirm_clear_window :: "bytes \<Rightarrow> disk \<Rightarrow> (bytes + unit) \<times> disk" where
  "ncfg_confirm_clear_window run_dir disk =
     (case confirm_path run_dir (ascii ''confirm.json'') of
        None \<Rightarrow> (Inl (path_too_long run_dir), disk)
      | Some path \<Rightarrow>
          (case unlink_file disk path of
             (Inr _, disk) \<Rightarrow> (Inr (), disk)
           | (Inl why, disk) \<Rightarrow>
               (Inl (ascii ''could not close the confirm window at '' @ path @ ascii '': '' @ why), disk)))"

subsection \<open>The world around it\<close>

record ('doc, 'obs, 'd, 's, 'o) world =
  w_read :: "bytes \<Rightarrow> bytes + 'doc"
  w_canonical :: "'doc \<Rightarrow> bytes + bytes"
  w_hash :: "'doc \<Rightarrow> bytes + bytes"
  w_build :: "'doc \<Rightarrow> 'obs \<Rightarrow> 'd plan option"
  w_execute :: "('s, 'd) executor"
  w_grants :: "nat \<Rightarrow> bool"
  w_observe :: "'s \<Rightarrow> 'doc option \<Rightarrow> 'o \<Rightarrow> 'obs option"
  w_record :: "'d plan \<Rightarrow> journal \<Rightarrow> 'o \<Rightarrow> 'o"
  w_desired :: "'doc option \<Rightarrow> 'o \<Rightarrow> 'o"
  w_compiled :: "'doc \<Rightarrow> 'o \<Rightarrow> 'o"
  w_publish :: "'obs \<Rightarrow> 'o \<Rightarrow> 'o"

record ('doc, 'obs, 's, 'o) daemon =
  ds_run :: bytes
  ds_disk :: disk
  ds_desired :: "'doc option"
  ds_observed :: "'obs option"
  ds_rejected :: "bytes option"
  ds_diagnostics :: "bytes option"
  ds_machine :: 's
  ds_others :: 'o

record 'd armed =
  am_undo :: "'d plan option"
  am_journal :: journal
  am_document :: bytes

definition no_armed :: "'d armed" where
  "no_armed = \<lparr>am_undo = None, am_journal = ncfg_journal_init, am_document = []\<rparr>"

datatype event = CONFIRM_ARMED "32 word" | CONFIRM_RESOLVED bool

definition ncfg_confirm_read_last_good ::
  "('doc, 'obs, 'd, 's, 'o) world \<Rightarrow> bytes \<Rightarrow> disk \<Rightarrow> bytes + 'doc" where
  "ncfg_confirm_read_last_good world run_dir disk =
     (case confirm_path run_dir (ascii ''last-good.json'') of
        None \<Rightarrow> Inl (path_too_long run_dir)
      | Some path \<Rightarrow>
          (case read_whole disk path DOCUMENT_FILE_MAX of
             None \<Rightarrow> Inl (ascii ''there is no readable last-good configuration at '' @ path)
           | Some text \<Rightarrow> w_read world text))"

definition ncfg_confirm_write_last_good ::
  "('doc, 'obs, 'd, 's, 'o) world \<Rightarrow> bytes \<Rightarrow> 'doc \<Rightarrow> disk \<Rightarrow> (bytes + unit) \<times> disk" where
  "ncfg_confirm_write_last_good world run_dir document disk =
     (case confirm_path run_dir (ascii ''last-good.json'') of
        None \<Rightarrow> (Inl (path_too_long run_dir), disk)
      | Some path \<Rightarrow>
          (case w_canonical world document of
             Inl why \<Rightarrow> (Inl why, disk)
           | Inr body \<Rightarrow> ncfg_write_atomically disk path body))"

subsection \<open>What an open window covers\<close>

definition record_for :: "journal \<Rightarrow> action_id \<Rightarrow> jrecord option" where
  "record_for journal i = find (\<lambda>r. rc_id r = i) (jn_records journal)"

fun armed_actions ::
  "(nat \<Rightarrow> bool) \<Rightarrow> journal \<Rightarrow> 'd action list \<Rightarrow> 'd plan \<times> journal \<Rightarrow> 'd plan \<times> journal" where
  "armed_actions grants journal [] (undo, kept) = (undo, kept)"
| "armed_actions grants journal (action # actions) (undo, kept) =
     (case record_for journal (ac_id action) of
        None \<Rightarrow> armed_actions grants journal actions (undo, kept)
      | Some r \<Rightarrow>
          if rc_outcome r \<noteq> NCFG_OUTCOME_DONE \<or> ac_inverse action = None
          then armed_actions grants journal actions (undo, kept)
          else case ncfg_plan_add undo (ac_op action) (ac_reason action) [] (ac_inverse action) of
            (i, undo) \<Rightarrow>
              if i = NCFG_PLAN_NO_ACTION then (undo, kept)
              else armed_actions grants journal actions
                (undo, ncfg_journal_push grants kept
                   \<lparr>rc_id = i, rc_op = rc_op r, rc_interface = rc_interface r,
                    rc_reason = ac_reason action, rc_outcome = NCFG_OUTCOME_DONE, rc_error = None\<rparr>))"

definition ncfg_confirm_armed_from ::
  "('doc, 'obs, 'd, 's, 'o) world \<Rightarrow> 'd plan \<Rightarrow> journal \<Rightarrow> 'doc option \<Rightarrow> bytes + 'd armed" where
  "ncfg_confirm_armed_from world plan journal document =
     (case (case document of
              None \<Rightarrow> Inr []
            | Some document \<Rightarrow> w_hash world document) of
        Inl why \<Rightarrow> Inl why
      | Inr hash \<Rightarrow>
          (case armed_actions (w_grants world) journal (pl_actions plan)
                  (ncfg_plan_new, ncfg_journal_init) of
             (undo, kept) \<Rightarrow>
               if ncfg_plan_failed undo \<or> ncfg_journal_failed kept
               then Inl (ascii ''there was no memory to record what the window covers'')
               else Inr \<lparr>am_undo = Some undo, am_journal = kept, am_document = hash\<rparr>))"

subsection \<open>The state machine\<close>

definition ncfg_confirm_may_arm ::
  "('doc, 'obs, 'd, 's, 'o) world \<Rightarrow> 64 word \<Rightarrow> 64 word \<Rightarrow> ('doc, 'obs, 's, 'o) daemon \<Rightarrow> bytes + 'doc" where
  "ncfg_confirm_may_arm world now asleep state =
     (case ncfg_confirm_read_window (ds_run state) (ds_disk state) of
        Some window \<Rightarrow>
          Inl (ascii ''a confirm window is already open with '' @
            decimal (unat (ncfg_confirm_remaining_at asleep window now)) @
            ascii ''s left; confirm or revert first'')
      | None \<Rightarrow>
          (case ncfg_confirm_read_last_good world (ds_run state) (ds_disk state) of
             Inl _ \<Rightarrow> Inl (ascii ''no last-good configuration to revert to; apply once without a window first'')
           | Inr last_good \<Rightarrow> Inr last_good))"

definition ncfg_confirm_arm ::
  "('doc, 'obs, 'd, 's, 'o) world \<Rightarrow> 64 word \<Rightarrow> 64 word \<Rightarrow> ('doc, 'obs, 's, 'o) daemon \<Rightarrow> 32 word \<Rightarrow> 'doc
     \<Rightarrow> (bytes + event) \<times> ('doc, 'obs, 's, 'o) daemon" where
  "ncfg_confirm_arm world now asleep state window_seconds last_good =
     (case w_hash world last_good of
        Inl why \<Rightarrow> (Inl why, state)
      | Inr hash \<Rightarrow>
          (case ncfg_confirm_write_window (ds_run state)
                  \<lparr>wd_deadline_epoch = now + ucast window_seconds, wd_asleep_at_arming = asleep,
                   wd_has_asleep = True, wd_window_seconds = window_seconds,
                   wd_last_good_hash = hash\<rparr> (ds_disk state) of
             (Inl why, disk) \<Rightarrow> (Inl why, state\<lparr>ds_disk := disk\<rparr>)
           | (Inr _, disk) \<Rightarrow> (Inr (CONFIRM_ARMED window_seconds), state\<lparr>ds_disk := disk\<rparr>)))"

definition ncfg_confirm_keep ::
  "('doc, 'obs, 'd, 's, 'o) world \<Rightarrow> ('doc, 'obs, 's, 'o) daemon \<Rightarrow> 'd armed \<Rightarrow> 'doc option
     \<Rightarrow> (bytes + event) \<times> ('doc, 'obs, 's, 'o) daemon \<times> 'd armed" where
  "ncfg_confirm_keep world state armed applied =
     (case ncfg_confirm_read_window (ds_run state) (ds_disk state) of
        None \<Rightarrow> (Inl (ascii ''no confirm window is open''), state, armed)
      | Some window \<Rightarrow>
          (let disk = snd (ncfg_confirm_clear_window (ds_run state) (ds_disk state));
               disk = (case applied of
                         None \<Rightarrow> disk
                       | Some applied \<Rightarrow> snd (ncfg_confirm_write_last_good world (ds_run state) applied disk))
           in (Inr (CONFIRM_RESOLVED True), state\<lparr>ds_disk := disk\<rparr>, no_armed)))"

definition ncfg_daemon_state_reobserve ::
  "('doc, 'obs, 'd, 's, 'o) world \<Rightarrow> ('doc, 'obs, 's, 'o) daemon \<Rightarrow> ('doc, 'obs, 's, 'o) daemon" where
  "ncfg_daemon_state_reobserve world state =
     (case w_observe world (ds_machine state) (ds_desired state) (ds_others state) of
        None \<Rightarrow> state
      | Some observed \<Rightarrow> state\<lparr>ds_observed := Some observed\<rparr>)"

definition ncfg_daemon_state_publish ::
  "('doc, 'obs, 'd, 's, 'o) world \<Rightarrow> ('doc, 'obs, 's, 'o) daemon \<Rightarrow> ('doc, 'obs, 's, 'o) daemon" where
  "ncfg_daemon_state_publish world state =
     (case ds_observed state of
        None \<Rightarrow> state
      | Some observed \<Rightarrow> state\<lparr>ds_others := w_publish world observed (ds_others state)\<rparr>)"

definition replan_onto_last_good ::
  "('doc, 'obs, 'd, 's, 'o) world \<Rightarrow> ('doc, 'obs, 's, 'o) daemon \<Rightarrow> ('doc, 'obs, 's, 'o) daemon" where
  "replan_onto_last_good world state =
     (case (ds_desired state, ds_observed state) of
        (Some desired, Some observed) \<Rightarrow>
          (case w_build world desired observed of
             None \<Rightarrow> state
           | Some plan \<Rightarrow>
               (case ncfg_apply (w_grants world) (w_execute world) (ds_machine state) plan of
                  (_, journal, _, machine) \<Rightarrow>
                    state\<lparr>ds_machine := machine,
                          ds_others := w_record world plan journal (ds_others state)\<rparr>))
      | _ \<Rightarrow> state)"

definition rejected_hash ::
  "('doc, 'obs, 'd, 's, 'o) world \<Rightarrow> ('doc, 'obs, 's, 'o) daemon \<Rightarrow> 'd armed \<Rightarrow> bytes option" where
  "rejected_hash world state armed =
     (if am_document armed \<noteq> [] then Some (am_document armed)
      else case ds_desired state of
        None \<Rightarrow> None
      | Some desired \<Rightarrow> (case w_hash world desired of Inl _ \<Rightarrow> None | Inr hash \<Rightarrow> Some hash))"

definition undo_armed ::
  "('doc, 'obs, 'd, 's, 'o) world \<Rightarrow> 'd armed \<Rightarrow> ('doc, 'obs, 's, 'o) daemon \<Rightarrow> ('doc, 'obs, 's, 'o) daemon" where
  "undo_armed world armed state =
     (case am_undo armed of
        None \<Rightarrow> state
      | Some undo \<Rightarrow>
          if pl_actions undo = [] then state
          else case ncfg_apply_revert (w_execute world) undo (ds_machine state) (am_journal armed) of
            (undone, journal, machine) \<Rightarrow>
              ncfg_daemon_state_publish world
                (ncfg_daemon_state_reobserve world
                  (state\<lparr>ds_machine := machine,
                         ds_others := w_record world undo journal (ds_others state)\<rparr>)))"

definition ncfg_confirm_revert ::
  "('doc, 'obs, 'd, 's, 'o) world \<Rightarrow> ('doc, 'obs, 's, 'o) daemon \<Rightarrow> 'd armed
     \<Rightarrow> (bytes + event) \<times> ('doc, 'obs, 's, 'o) daemon \<times> 'd armed" where
  "ncfg_confirm_revert world state armed =
     (case ncfg_confirm_read_window (ds_run state) (ds_disk state) of
        None \<Rightarrow> (Inl (ascii ''no confirm window is open''), state, armed)
      | Some window \<Rightarrow>
          (case ncfg_confirm_read_last_good world (ds_run state) (ds_disk state) of
             Inl _ \<Rightarrow>
               (Inl (ascii ''the last-good configuration is unreadable; nothing reverted''),
                state\<lparr>ds_disk := snd (ncfg_confirm_clear_window (ds_run state) (ds_disk state))\<rparr>, no_armed)
           | Inr last_good \<Rightarrow>
               (let state = state\<lparr>ds_rejected := rejected_hash world state armed\<rparr>;
                    state = state\<lparr>ds_desired := Some last_good\<rparr>;
                    state = state\<lparr>ds_others := w_desired world (ds_desired state) (ds_others state)\<rparr>;
                    state = undo_armed world armed state;
                    state = replan_onto_last_good world state;
                    state = state\<lparr>ds_disk := snd (ncfg_confirm_clear_window (ds_run state) (ds_disk state))\<rparr>;
                    state = ncfg_daemon_state_publish world (ncfg_daemon_state_reobserve world state)
                in (Inr (CONFIRM_RESOLVED False), state, no_armed))))"

definition ncfg_confirm_resolve_on_startup ::
  "('doc, 'obs, 'd, 's, 'o) world \<Rightarrow> ('doc, 'obs, 's, 'o) daemon \<Rightarrow> 'd armed
     \<Rightarrow> (bytes + bool) \<times> ('doc, 'obs, 's, 'o) daemon \<times> 'd armed" where
  "ncfg_confirm_resolve_on_startup world state armed =
     (case ncfg_confirm_read_window (ds_run state) (ds_disk state) of
        None \<Rightarrow> (Inr False, state, armed)
      | Some window \<Rightarrow>
          (case ncfg_confirm_revert world state armed of
             (Inl why, state, armed) \<Rightarrow> (Inl why, state, armed)
           | (Inr _, state, armed) \<Rightarrow> (Inr True, state, armed)))"

subsection \<open>What a document is known by, and reading the configuration again\<close>

text \<open>
  A document's hash is the digest of its canonical text, taken with the members that the
  configuration does not say put out of the way.
\<close>

definition ncfg_daemon_document_hash ::
  "('doc \<Rightarrow> 'doc) \<Rightarrow> ('doc \<Rightarrow> bytes + bytes) \<Rightarrow> 'doc \<Rightarrow> bytes + bytes" where
  "ncfg_daemon_document_hash neutral canonical document =
     (case canonical (neutral document) of
        Inl why \<Rightarrow> Inl why
      | Inr text \<Rightarrow> Inr (ncfg_sha256_hex text))"

text \<open>
  What loading and compiling the configuration came to is an argument: the diagnostics to keep and
  the error to answer with, or a document, whose hooks and positions \<open>w_compiled\<close> writes.
\<close>

definition ncfg_daemon_state_reload ::
  "('doc, 'obs, 'd, 's, 'o) world \<Rightarrow> (bytes \<times> bytes) + 'doc \<Rightarrow> ('doc, 'obs, 's, 'o) daemon
     \<Rightarrow> (bytes + unit) \<times> ('doc, 'obs, 's, 'o) daemon" where
  "ncfg_daemon_state_reload world loaded state =
     (case loaded of
        Inl (diagnostics, why) \<Rightarrow> (Inl why, state\<lparr>ds_diagnostics := Some diagnostics\<rparr>)
      | Inr document \<Rightarrow>
          (let state = state\<lparr>ds_others := w_compiled world document (ds_others state)\<rparr> in
           if (case (ds_rejected state, w_hash world document) of
                 (Some rejected, Inr hash) \<Rightarrow> rejected = hash
               | _ \<Rightarrow> False)
           then (Inl (ascii ''this configuration was reverted away from and has not changed since; edit it to try again''),
                 state)
           else (Inr (), state\<lparr>ds_others := w_desired world (Some document) (ds_others state),
                                ds_desired := Some document, ds_diagnostics := None, ds_rejected := None\<rparr>)))"

subsection \<open>How the loop uses it\<close>

definition settle_without_a_window ::
  "('doc, 'obs, 'd, 's, 'o) world \<Rightarrow> ('doc, 'obs, 's, 'o) daemon \<Rightarrow> 'd armed
     \<Rightarrow> ('doc, 'obs, 's, 'o) daemon \<times> 'd armed" where
  "settle_without_a_window world state armed =
     (case ncfg_confirm_read_window (ds_run state) (ds_disk state) of
        Some window \<Rightarrow> (state, armed)
      | None \<Rightarrow>
          (case ds_desired state of
             None \<Rightarrow> (state, no_armed)
           | Some desired \<Rightarrow>
               (state\<lparr>ds_disk := snd (ncfg_confirm_write_last_good world (ds_run state) desired (ds_disk state))\<rparr>,
                no_armed)))"

definition ncfg_daemon_arm_window ::
  "('doc, 'obs, 'd, 's, 'o) world \<Rightarrow> 64 word \<Rightarrow> 64 word \<Rightarrow> ('doc, 'obs, 's, 'o) daemon \<Rightarrow> 'd armed
     \<Rightarrow> 'd plan \<Rightarrow> journal \<Rightarrow> 32 word \<Rightarrow> 'doc \<Rightarrow> bool \<times> ('doc, 'obs, 's, 'o) daemon \<times> 'd armed" where
  "ncfg_daemon_arm_window world now asleep state armed applied journal seconds last_good =
     (let armed = (if ds_desired state = None then armed
                   else case ncfg_confirm_armed_from world applied journal (ds_desired state) of
                     Inl _ \<Rightarrow> no_armed
                   | Inr armed \<Rightarrow> armed)
      in case ncfg_confirm_arm world now asleep state seconds last_good of
           (Inl _, state) \<Rightarrow> (False, state, no_armed)
         | (Inr _, state) \<Rightarrow> (True, state, armed))"

definition ncfg_reconcile_establish_last_good ::
  "('doc, 'obs, 'd, 's, 'o) world \<Rightarrow> 'doc \<Rightarrow> ('doc, 'obs, 's, 'o) daemon
     \<Rightarrow> (bytes + unit) \<times> ('doc, 'obs, 's, 'o) daemon" where
  "ncfg_reconcile_establish_last_good world fresh state =
     (case ncfg_confirm_read_last_good world (ds_run state) (ds_disk state) of
        Inr _ \<Rightarrow> (Inr (), state)
      | Inl _ \<Rightarrow>
          (case ncfg_confirm_write_last_good world (ds_run state) fresh (ds_disk state) of
             (verdict, disk) \<Rightarrow> (verdict, state\<lparr>ds_disk := disk\<rparr>)))"

end
