(* ===== verification/Ncfg_Plan_Props.thy ===== *)
theory Ncfg_Plan_Props
  imports Ncfg_Plan
begin

text \<open>
  What holds of plans: the subject classes are exactly those a lock may name, a plan's own order is
  an execution order, and no action passes the gate that a lock, a guard or an unmanaged device
  forbids.
\<close>

subsection \<open>Subjects\<close>

lemma op_kinds_complete [simp]: "kind \<in> set op_kinds"
  by (cases kind) (simp_all add: op_kinds_def)

lemma subject_class_shape:
  "subject_class kind = Some name \<Longrightarrow> name \<noteq> [] \<and> ch CHR '':'' \<notin> set name"
  by (cases kind) auto

lemma before_colon:
  "ch CHR '':'' \<notin> set name \<Longrightarrow> takeWhile (\<lambda>b. b \<noteq> ch CHR '':'') (name @ ascii '':'' @ tail) = name"
  by (induction name) auto

text \<open>
  The subject classes a lock may name are exactly the classes subjects have: a word is a known
  class if and only if some op has a subject, in some buffer, whose text before the colon is that
  word.
\<close>

theorem subject_classes_known:
  "ncfg_op_subject_class_known name \<longleftrightarrow>
     (\<exists>(op :: unit op) out_size subject.
        ncfg_op_subject op out_size = Some subject \<and>
        takeWhile (\<lambda>b. b \<noteq> ch CHR '':'') subject = name)"
proof
  assume "ncfg_op_subject_class_known name"
  then obtain kind where kind: "subject_class kind = Some name"
    by (auto simp: ncfg_op_subject_class_known_def list_ex_iff)
  define op :: "unit op" where
    "op = \<lparr>op_kind = kind, op_name = None, op_link_kind = None, op_addr = None,
           op_destination = None, op_priority = None, op_backend = NCFG_BACKEND_DHCP4, op_vid = 0,
           op_list = NCFG_ACL_POLICY_DENY, op_station = None, op_bssid = None, op_imminent = False,
           op_enabled = False, op_phase = NCFG_HOOK_PHASE_UP, op_rest = ()\<rparr>"
  let ?text = "name @ ascii '':'' @
    (case ncfg_op_interface op of None \<Rightarrow> ascii ''host'' | Some scope \<Rightarrow> scope) @
    (if subject_detail op \<noteq> [] then ascii ''/'' else []) @ subject_detail op"
  have "ncfg_op_subject op (Suc (length ?text)) = Some ?text"
    using kind by (simp add: ncfg_op_subject_def op_def Let_def)
  moreover have "takeWhile (\<lambda>b. b \<noteq> ch CHR '':'') ?text = name"
    using subject_class_shape [OF kind] by (intro before_colon) blast
  ultimately show "\<exists>(op :: unit op) out_size subject.
      ncfg_op_subject op out_size = Some subject \<and>
      takeWhile (\<lambda>b. b \<noteq> ch CHR '':'') subject = name" by blast
next
  assume "\<exists>(op :: unit op) out_size subject.
      ncfg_op_subject op out_size = Some subject \<and>
      takeWhile (\<lambda>b. b \<noteq> ch CHR '':'') subject = name"
  then obtain op :: "unit op" and out_size subject
    where subject: "ncfg_op_subject op out_size = Some subject"
      and name: "takeWhile (\<lambda>b. b \<noteq> ch CHR '':'') subject = name" by blast
  from subject obtain class_name tail where class_name: "subject_class (op_kind op) = Some class_name"
    and split: "subject = class_name @ ascii '':'' @ tail"
    by (auto simp: ncfg_op_subject_def Let_def split: if_splits option.splits)
  from subject_class_shape [OF class_name] name split before_colon [of class_name tail]
  have "name = class_name \<and> name \<noteq> []" by metis
  with class_name show "ncfg_op_subject_class_known name"
    by (auto simp: ncfg_op_subject_class_known_def list_ex_iff intro!: bexI [of _ "op_kind op"])
qed

subsection \<open>Plans under construction\<close>

lemma plan_warn_simps [simp]:
  "pl_actions (ncfg_plan_warn plan i m) = pl_actions plan"
  "pl_refusals (ncfg_plan_warn plan i m) = pl_refusals plan"
  "pl_failed (ncfg_plan_warn plan i m) = pl_failed plan"
  by (simp_all add: ncfg_plan_warn_def)

lemma plan_warnf_simps [simp]:
  "pl_actions (ncfg_plan_warnf plan i m) = pl_actions plan"
  "pl_refusals (ncfg_plan_warnf plan i m) = pl_refusals plan"
  "pl_failed (ncfg_plan_warnf plan i m) = pl_failed plan"
  by (simp_all add: ncfg_plan_warnf_def Let_def)

lemma plan_refuse_simps [simp]:
  "pl_actions (ncfg_plan_refuse plan r) = pl_actions plan"
  "pl_failed (ncfg_plan_refuse plan r) = pl_failed plan"
  by (simp_all add: ncfg_plan_refuse_def)

lemma plan_strand_simps [simp]:
  "pl_actions (ncfg_plan_strand plan s) = pl_actions plan"
  "pl_refusals (ncfg_plan_strand plan s) = pl_refusals plan"
  "pl_failed (ncfg_plan_strand plan s) = pl_failed plan"
  by (simp_all add: ncfg_plan_strand_def)

interpretation refusals: sticky_list ncfg_plan_refuse pl_refusals pl_failed
  by unfold_locales (auto simp: ncfg_plan_refuse_def split: if_splits)

interpretation stranded: sticky_list ncfg_plan_strand pl_stranded pl_failed
  by unfold_locales (auto simp: ncfg_plan_strand_def split: if_splits)

lemma plan_add_actions:
  assumes "\<not> pl_failed plan"
  shows "pl_actions (snd (ncfg_plan_add plan op reason deps undo)) =
    pl_actions plan @
      [\<lparr>ac_id = of_nat (length (pl_actions plan)), ac_op = op, ac_reason = reason,
        ac_depends_on = filter (\<lambda>id. id \<noteq> NCFG_PLAN_NO_ACTION) deps, ac_inverse = undo\<rparr>]"
  using assms by (simp add: ncfg_plan_add_def Let_def)

lemma plan_add_failed:
  "pl_failed plan \<Longrightarrow> ncfg_plan_add plan op reason deps undo = (NCFG_PLAN_NO_ACTION, plan)"
  by (simp add: ncfg_plan_add_def)

lemma plan_add_others [simp]:
  "pl_refusals (snd (ncfg_plan_add plan op reason deps undo)) = pl_refusals plan"
  "pl_failed (snd (ncfg_plan_add plan op reason deps undo)) = pl_failed plan"
  by (simp_all add: ncfg_plan_add_def Let_def)

text \<open>What the gate decides, stated over the sets the builder holds.\<close>

definition lock_stops :: "'d plan_builder \<Rightarrow> 'd op \<Rightarrow> bool" where
  "lock_stops builder op \<longleftrightarrow>
     (case ncfg_op_subject op NCFG_OP_SUBJECT_MAX of
        None \<Rightarrow> False
      | Some subject \<Rightarrow> Some subject \<in> set (bd_locked builder))"

definition guard_stops :: "'d plan_builder \<Rightarrow> 'd op \<Rightarrow> bool" where
  "guard_stops builder op \<longleftrightarrow>
     ncfg_op_is_disruptive op \<and>
     (case ncfg_op_interface op of
        None \<Rightarrow> False
      | Some interface \<Rightarrow>
          interface \<in> gd_interface ` set (bd_guards builder) \<and>
          Some interface \<notin> set (bd_allow_disruption builder))"

definition hands_off :: "'d plan_builder \<Rightarrow> 'd op \<Rightarrow> bool" where
  "hands_off builder op \<longleftrightarrow>
     ncfg_op_interface op \<noteq> None \<and>
     (ncfg_op_interface op \<in> set (bd_unmanaged builder) \<and>
        \<not> (bd_tearing_down builder \<and> ncfg_op_interface op \<in> set (bd_clearing builder)) \<or>
      ncfg_op_interface op \<in> set (bd_declined builder))"

lemma plan_names_iff: "ncfg_plan_names names name \<longleftrightarrow> name \<noteq> None \<and> name \<in> set names"
  by (auto simp: ncfg_plan_names_def list_ex_iff)

lemma locked_iff: "fst (locked builder op reason) \<longleftrightarrow> lock_stops builder op"
  by (auto simp: locked_def lock_stops_def list_ex_iff Let_def split: option.splits)

lemma locked_free: "\<not> lock_stops builder op \<Longrightarrow> locked builder op reason = (False, builder)"
  using locked_iff [of builder op reason]
  by (auto simp: locked_def Let_def split: option.splits if_splits)

lemma refused_iff: "fst (refused builder op reason) \<longleftrightarrow> guard_stops builder op"
  by (force simp: refused_def guard_stops_def plan_names_iff find_None_iff Let_def
      dest: sym [of "Some _" "find _ _"] split: option.splits
      elim: find_Some_iff [THEN iffD1, elim_format])

lemma refused_free: "\<not> guard_stops builder op \<Longrightarrow> refused builder op reason = (False, builder)"
  using refused_iff [of builder op reason]
  by (auto simp: refused_def Let_def split: option.splits if_splits)


lemma locked_stopped:
  assumes "lock_stops builder op"
  obtains refusal where "locked builder op reason =
      (True, builder\<lparr>bd_plan := ncfg_plan_refuse (bd_plan builder) refusal\<rparr>)"
    and "rf_op refusal = Some (ncfg_op_name op)" and "rf_reason refusal = reason"
  using assms locked_iff [of builder op reason]
  by (auto simp: locked_def Let_def split: option.splits if_splits)

lemma refused_stopped:
  assumes "guard_stops builder op"
  obtains refusal where "refused builder op reason =
      (True, builder\<lparr>bd_plan := ncfg_plan_refuse (bd_plan builder) refusal\<rparr>)"
    and "rf_op refusal = Some (ncfg_op_name op)" and "rf_reason refusal = reason"
  using assms refused_iff [of builder op reason]
  by (auto simp: refused_def Let_def split: option.splits if_splits)

lemma push_hands_off:
  "hands_off builder op \<Longrightarrow>
   ncfg_builder_push builder op reason deps undo = (NCFG_PLAN_NO_ACTION, builder)"
  by (auto simp: ncfg_builder_push_def hands_off_def plan_names_iff ncfg_plan_clearing_def Let_def)

lemma push_open:
  "\<not> hands_off builder op \<Longrightarrow>
   ncfg_builder_push builder op reason deps undo =
     (case locked builder op reason of
        (True, builder) \<Rightarrow> (NCFG_PLAN_NO_ACTION, builder)
      | (False, builder) \<Rightarrow>
          (case refused builder op reason of
             (True, builder) \<Rightarrow> (NCFG_PLAN_NO_ACTION, builder)
           | (False, builder) \<Rightarrow>
               (case ncfg_plan_add (bd_plan builder) op reason deps undo of
                  (added, plan) \<Rightarrow> (added, builder\<lparr>bd_plan := plan\<rparr>))))"
  by (auto simp: ncfg_builder_push_def hands_off_def plan_names_iff ncfg_plan_clearing_def Let_def)

lemma push_stopped:
  assumes "\<not> hands_off builder op" "lock_stops builder op \<or> guard_stops builder op"
  obtains refusal where "ncfg_builder_push builder op reason deps undo =
      (NCFG_PLAN_NO_ACTION, builder\<lparr>bd_plan := ncfg_plan_refuse (bd_plan builder) refusal\<rparr>)"
    and "rf_op refusal = Some (ncfg_op_name op)" and "rf_reason refusal = reason"
proof (cases "lock_stops builder op")
  case True
  then obtain refusal where "locked builder op reason =
      (True, builder\<lparr>bd_plan := ncfg_plan_refuse (bd_plan builder) refusal\<rparr>)"
    "rf_op refusal = Some (ncfg_op_name op)" "rf_reason refusal = reason"
    by (rule locked_stopped)
  with assms(1) that [of refusal] show thesis by (simp add: push_open)
next
  case False
  with assms(2) obtain refusal where "refused builder op reason =
      (True, builder\<lparr>bd_plan := ncfg_plan_refuse (bd_plan builder) refusal\<rparr>)"
    "rf_op refusal = Some (ncfg_op_name op)" "rf_reason refusal = reason"
    by (blast elim: refused_stopped)
  with assms(1) that [of refusal] locked_free [OF False, of reason] show thesis
    by (simp add: push_open)
qed

lemma push_passes:
  assumes "\<not> hands_off builder op" "\<not> lock_stops builder op" "\<not> guard_stops builder op"
  shows "ncfg_builder_push builder op reason deps undo =
    (case ncfg_plan_add (bd_plan builder) op reason deps undo of
       (added, plan) \<Rightarrow> (added, builder\<lparr>bd_plan := plan\<rparr>))"
  using assms locked_free [OF assms(2), of reason] refused_free [OF assms(3), of reason]
  by (simp add: push_open)

text \<open>A guarded interface and a locked one, for the concrete runs below.\<close>

definition sample_op :: "op_kind \<Rightarrow> string \<Rightarrow> unit op" where
  "sample_op kind name =
     \<lparr>op_kind = kind, op_name = Some (ascii name), op_link_kind = None, op_addr = None,
      op_destination = None, op_priority = None, op_backend = NCFG_BACKEND_DHCP4, op_vid = 0,
      op_list = NCFG_ACL_POLICY_DENY, op_station = None, op_bssid = None, op_imminent = False,
      op_enabled = False, op_phase = NCFG_HOOK_PHASE_UP, op_rest = ()\<rparr>"

definition sample_reason :: reason where
  "sample_reason =
     \<lparr>rs_interface = Some (ascii ''eth0''), rs_field = Some (ascii ''enabled''),
      rs_desired = Some (ascii ''true''), rs_observed = Some (ascii ''false'')\<rparr>"

definition sample_builder :: "unit plan_builder" where
  "sample_builder =
     \<lparr>bd_plan = ncfg_plan_new, bd_locked = [Some (ascii ''mtu:eth1'')], bd_allow_disruption = [],
      bd_guards = [\<lparr>gd_interface = ascii ''eth0'', gd_reason = Some (ascii ''nfs'')\<rparr>],
      bd_unmanaged = [], bd_declined = [], bd_clearing = [], bd_tearing_down = False\<rparr>"

text \<open>
  The gate, on every branch: over a plan that has not failed, an action on a device to be left
  alone changes nothing; an action a lock or a guard forbids leaves the actions as they were and
  records one refusal naming the op and the reason it had; every other action is appended with its
  reason and its inverse, its position as its id, and the dependencies that stand for an action.
\<close>

theorem builder_push_cases:
  assumes "\<not> pl_failed (bd_plan builder)"
    and "ncfg_builder_push builder op reason deps undo = (added, builder')"
  shows "if hands_off builder op then added = NCFG_PLAN_NO_ACTION \<and> builder' = builder
    else if lock_stops builder op \<or> guard_stops builder op then
      added = NCFG_PLAN_NO_ACTION \<and>
      pl_actions (bd_plan builder') = pl_actions (bd_plan builder) \<and>
      (\<exists>refusal. pl_refusals (bd_plan builder') = pl_refusals (bd_plan builder) @ [refusal] \<and>
         rf_op refusal = Some (ncfg_op_name op) \<and> rf_reason refusal = reason)
    else
      added = of_nat (length (pl_actions (bd_plan builder))) \<and>
      pl_refusals (bd_plan builder') = pl_refusals (bd_plan builder) \<and>
      pl_actions (bd_plan builder') = pl_actions (bd_plan builder) @
        [\<lparr>ac_id = added, ac_op = op, ac_reason = reason,
          ac_depends_on = filter (\<lambda>id. id \<noteq> NCFG_PLAN_NO_ACTION) deps, ac_inverse = undo\<rparr>]"
proof -
  consider (off) "hands_off builder op"
    | (stopped) "\<not> hands_off builder op" "lock_stops builder op \<or> guard_stops builder op"
    | (passes) "\<not> hands_off builder op" "\<not> lock_stops builder op" "\<not> guard_stops builder op"
    by blast
  then show ?thesis
  proof cases
    case off
    with assms(2) push_hands_off [OF off, of reason deps undo] show ?thesis by auto
  next
    case stopped
    then obtain refusal where "ncfg_builder_push builder op reason deps undo =
        (NCFG_PLAN_NO_ACTION, builder\<lparr>bd_plan := ncfg_plan_refuse (bd_plan builder) refusal\<rparr>)"
      "rf_op refusal = Some (ncfg_op_name op)" "rf_reason refusal = reason"
      by (rule push_stopped)
    with assms stopped show ?thesis by (auto simp: ncfg_plan_refuse_def)
  next
    case passes
    from push_passes [OF passes, of reason deps undo] assms passes plan_add_actions [OF assms(1)]
    show ?thesis by (auto simp: ncfg_plan_add_def Let_def split: prod.splits)
  qed
qed

theorem builder_push_cases_witness:
  "\<exists>builder'. ncfg_builder_push sample_builder (sample_op NCFG_OP_LINK_DOWN ''eth0'') sample_reason [] None =
     (NCFG_PLAN_NO_ACTION, builder') \<and>
   map rf_guard (pl_refusals (bd_plan builder')) = [Some (ascii ''nfs'')]"
proof -
  let ?push = "ncfg_builder_push sample_builder (sample_op NCFG_OP_LINK_DOWN ''eth0'') sample_reason [] None"
  have run: "?push = (fst ?push, snd ?push)" by simp
  have "\<not> hands_off sample_builder (sample_op NCFG_OP_LINK_DOWN ''eth0'')"
    and "guard_stops sample_builder (sample_op NCFG_OP_LINK_DOWN ''eth0'')" by code_simp+
  with builder_push_cases [OF _ run] have "fst ?push = NCFG_PLAN_NO_ACTION"
    by (simp add: sample_builder_def ncfg_plan_new_def)
  moreover have "map rf_guard (pl_refusals (bd_plan (snd ?push))) = [Some (ascii ''nfs'')]" by code_simp
  ultimately show ?thesis by (metis prod.collapse)
qed

text \<open>
  The planner's passes as a relation: a pass pushes actions that wait only for actions it already
  saw emitted, adds warnings and stranded credentials, declines a device, and the teardown begins.
\<close>

inductive planning :: "'d plan_builder \<Rightarrow> 'd plan_builder \<Rightarrow> bool" where
    start: "planning b b"
  | push: "planning b b' \<Longrightarrow>
      set deps \<subseteq> insert NCFG_PLAN_NO_ACTION (ac_id ` set (pl_actions (bd_plan b'))) \<Longrightarrow>
      planning b (snd (ncfg_builder_push b' op reason deps undo))"
  | warn: "planning b b' \<Longrightarrow>
      planning b (b'\<lparr>bd_plan := ncfg_plan_warnf (bd_plan b') interface message\<rparr>)"
  | strand: "planning b b' \<Longrightarrow> planning b (b'\<lparr>bd_plan := ncfg_plan_strand (bd_plan b') stranded\<rparr>)"
  | decline: "planning b b' \<Longrightarrow> planning b (b'\<lparr>bd_declined := bd_declined b' @ [Some name]\<rparr>)"
  | teardown: "planning b b' \<Longrightarrow> planning b (b'\<lparr>bd_tearing_down := tearing\<rparr>)"

definition plan_ordered :: "'d plan \<Rightarrow> bool" where
  "plan_ordered plan \<longleftrightarrow>
     (\<forall>i < length (pl_actions plan).
        ac_id (pl_actions plan ! i) = of_nat i \<and>
        set (ac_depends_on (pl_actions plan ! i)) \<subseteq> of_nat ` {..<i})"

lemma plan_ordered_ids:
  "plan_ordered plan \<Longrightarrow> ac_id ` set (pl_actions plan) = of_nat ` {..<length (pl_actions plan)}"
  by (auto simp: plan_ordered_def set_conv_nth image_iff) (metis lessThan_iff)

lemma plan_ordered_add:
  assumes "plan_ordered plan"
    and "set deps \<subseteq> insert NCFG_PLAN_NO_ACTION (ac_id ` set (pl_actions plan))"
  shows "plan_ordered (snd (ncfg_plan_add plan op reason deps undo))"
proof (cases "pl_failed plan")
  case True
  with assms show ?thesis by (simp add: plan_add_failed)
next
  case False
  with assms plan_ordered_ids [OF assms(1)] show ?thesis
    by (auto simp: plan_ordered_def plan_add_actions nth_append less_Suc_eq)
qed

text \<open>What a push leaves alone, and the three things it may do to the plan.\<close>

lemma push_settings:
  "bd_locked (snd (ncfg_builder_push b op reason deps undo)) = bd_locked b"
  "bd_allow_disruption (snd (ncfg_builder_push b op reason deps undo)) = bd_allow_disruption b"
  "bd_guards (snd (ncfg_builder_push b op reason deps undo)) = bd_guards b"
  "bd_unmanaged (snd (ncfg_builder_push b op reason deps undo)) = bd_unmanaged b"
  "bd_clearing (snd (ncfg_builder_push b op reason deps undo)) = bd_clearing b"
  by (simp_all add: ncfg_builder_push_def locked_def refused_def Let_def
      split: option.splits prod.splits if_splits)

lemma push_plan:
  obtains (kept) "bd_plan (snd (ncfg_builder_push b op reason deps undo)) = bd_plan b"
  | (refused) refusal where "bd_plan (snd (ncfg_builder_push b op reason deps undo)) =
      ncfg_plan_refuse (bd_plan b) refusal"
  | (added) "\<not> hands_off b op" "\<not> lock_stops b op" "\<not> guard_stops b op"
      "bd_plan (snd (ncfg_builder_push b op reason deps undo)) =
        snd (ncfg_plan_add (bd_plan b) op reason deps undo)"
proof -
  consider (off) "hands_off b op"
    | (stopped) "\<not> hands_off b op" "lock_stops b op \<or> guard_stops b op"
    | (passes) "\<not> hands_off b op" "\<not> lock_stops b op" "\<not> guard_stops b op"
    by blast
  then show thesis
  proof cases
    case off
    with push_hands_off [OF off, of reason deps undo] kept show thesis by simp
  next
    case stopped
    then obtain refusal where "ncfg_builder_push b op reason deps undo =
        (NCFG_PLAN_NO_ACTION, b\<lparr>bd_plan := ncfg_plan_refuse (bd_plan b) refusal\<rparr>)"
      by (rule push_stopped)
    with refused show thesis by simp
  next
    case passes
    with push_passes [OF passes, of reason deps undo] added show thesis
      by (simp split: prod.splits)
  qed
qed

lemma plan_ordered_same:
  "pl_actions plan' = pl_actions plan \<Longrightarrow> plan_ordered plan' = plan_ordered plan"
  by (simp add: plan_ordered_def)

lemma planning_ordered: "planning b b' \<Longrightarrow> plan_ordered (bd_plan b) \<Longrightarrow> plan_ordered (bd_plan b')"
proof (induction rule: planning.induct)
  case (push b b' deps op reason undo)
  show ?case
    by (cases rule: push_plan [of b' op reason deps undo])
      (use push in \<open>simp_all add: plan_ordered_same [of "ncfg_plan_refuse _ _"] plan_ordered_add\<close>)
qed (simp_all add: plan_ordered_same [of "ncfg_plan_warnf _ _ _"]
       plan_ordered_same [of "ncfg_plan_strand _ _"])


lemma planning_settings:
  "planning b b' \<Longrightarrow>
   bd_locked b' = bd_locked b \<and> bd_allow_disruption b' = bd_allow_disruption b \<and>
   bd_guards b' = bd_guards b \<and> bd_unmanaged b' = bd_unmanaged b \<and> bd_clearing b' = bd_clearing b"
  by (induction rule: planning.induct) (simp_all add: push_settings)

lemma planning_stops:
  assumes "planning b b'"
  shows "lock_stops b' op = lock_stops b op" "guard_stops b' op = guard_stops b op"
  using planning_settings [OF assms]
  by (simp_all add: lock_stops_def guard_stops_def split: option.split)

text \<open>An action the gate may let through, by the settings a planning run starts with.\<close>

definition may_enter :: "'d plan_builder \<Rightarrow> 'd op \<Rightarrow> bool" where
  "may_enter b op \<longleftrightarrow> \<not> lock_stops b op \<and> \<not> guard_stops b op \<and>
     (ncfg_op_interface op \<noteq> None \<and> ncfg_op_interface op \<in> set (bd_unmanaged b) \<longrightarrow>
      ncfg_op_interface op \<in> set (bd_clearing b))"

lemma add_entered:
  "\<forall>a \<in> set (pl_actions plan). P (ac_op a) \<Longrightarrow> P op \<Longrightarrow>
   \<forall>a \<in> set (pl_actions (snd (ncfg_plan_add plan op reason deps undo))). P (ac_op a)"
  by (cases "pl_failed plan") (auto simp: plan_add_actions plan_add_failed)

lemma planning_entered:
  "planning b b' \<Longrightarrow> \<forall>a \<in> set (pl_actions (bd_plan b)). may_enter b (ac_op a) \<Longrightarrow>
   \<forall>a \<in> set (pl_actions (bd_plan b')). may_enter b (ac_op a)"
proof (induction rule: planning.induct)
  case (push b b' deps op reason undo)
  show ?case
  proof (cases rule: push_plan [of b' op reason deps undo])
    case added
    from added(1-3) planning_settings [OF push(1)] planning_stops [OF push(1)]
    have "may_enter b op" by (auto simp: may_enter_def hands_off_def)
    with push added(4) show ?thesis by (simp add: add_entered)
  qed (use push in simp_all)
qed simp_all

text \<open>
  C5.  No pass routes around the gate.  However a plan is built from an empty one, none of its
  actions acts on a locked value, none is disruptive on a guarded interface the caller did not
  consent to disrupt, and none touches an unmanaged device unless that device is being cleared.
\<close>

theorem plan_gated:
  assumes "planning b b'" and "pl_actions (bd_plan b) = []" and "a \<in> set (pl_actions (bd_plan b'))"
  shows "(\<forall>subject. ncfg_op_subject (ac_op a) NCFG_OP_SUBJECT_MAX = Some subject \<longrightarrow>
       Some subject \<notin> set (bd_locked b)) \<and>
    (\<forall>interface guard. ncfg_op_is_disruptive (ac_op a) \<longrightarrow>
       ncfg_op_interface (ac_op a) = Some interface \<longrightarrow> guard \<in> set (bd_guards b) \<longrightarrow>
       gd_interface guard = interface \<longrightarrow> Some interface \<in> set (bd_allow_disruption b)) \<and>
    (\<forall>interface. ncfg_op_interface (ac_op a) = Some interface \<longrightarrow>
       Some interface \<in> set (bd_unmanaged b) \<longrightarrow> Some interface \<in> set (bd_clearing b))"
proof -
  from planning_entered [OF assms(1)] assms(2,3) have "may_enter b (ac_op a)" by simp
  then show ?thesis
    by (auto simp: may_enter_def lock_stops_def guard_stops_def split: option.splits)
qed


definition sample_run :: "unit plan_builder" where
  "sample_run =
     snd (ncfg_builder_push
       (snd (ncfg_builder_push
         (snd (ncfg_builder_push sample_builder (sample_op NCFG_OP_LINK_UP ''eth0'') sample_reason []
           (Some (sample_op NCFG_OP_LINK_DOWN ''eth0''))))
         (sample_op NCFG_OP_LINK_SET_MTU ''eth1'') sample_reason [0] None))
       (sample_op NCFG_OP_ADDR_ADD ''eth0'') sample_reason [0, NCFG_PLAN_NO_ACTION] None)"

lemma sample_run_planned: "planning sample_builder sample_run"
  unfolding sample_run_def
  by (intro planning.push planning.start) code_simp+


theorem plan_gated_witness:
  "\<exists>a. a \<in> set (pl_actions (bd_plan sample_run)) \<and>
     ncfg_op_subject (ac_op a) NCFG_OP_SUBJECT_MAX = Some (ascii ''addr:eth0'') \<and>
     Some (ascii ''addr:eth0'') \<notin> set (bd_locked sample_builder)"
proof -
  have two: "length (pl_actions (bd_plan sample_run)) = 2" by code_simp
  let ?a = "pl_actions (bd_plan sample_run) ! 1"
  have a: "?a \<in> set (pl_actions (bd_plan sample_run))" using two by simp
  have empty: "pl_actions (bd_plan sample_builder) = []"
    by (simp add: sample_builder_def ncfg_plan_new_def)
  have subject: "ncfg_op_subject (ac_op ?a) NCFG_OP_SUBJECT_MAX = Some (ascii ''addr:eth0'')" by code_simp
  with plan_gated [OF sample_run_planned empty a]
  have "Some (ascii ''addr:eth0'') \<notin> set (bd_locked sample_builder)" by blast
  with a subject show ?thesis by blast
qed

end
