(* ===== verification/Ncfg_Apply_Props.thy ===== *)
theory Ncfg_Apply_Props
  imports Ncfg_Apply Ncfg_Plan_Props
begin

text \<open>
  What the apply engine guarantees: which actions reach the executor and how each one is recorded,
  that neither the journal's memory nor the narration changes what happens to the machine, what a
  revert runs, and that a revert of everything that was done restores the machine.
\<close>

subsection \<open>The journal keeps what it is given, or says it could not\<close>

lemma request_fields [simp]:
  "jn_records (snd (request grants j)) = jn_records j"
  "jn_failed (snd (request grants j)) = jn_failed j"
  by (simp_all add: request_def)

lemma keep_fields:
  "jn_records (snd (keep grants j block)) = jn_records j"
  "jn_failed (snd (keep grants j block)) \<longleftrightarrow> jn_failed j \<or> \<not> fst (keep grants j block)"
  by (simp_all add: keep_def request_def Let_def split: prod.splits bool.splits)

lemma intern_records [simp]: "jn_records (snd (intern grants j str)) = jn_records j"
  by (auto simp: intern_def split: prod.splits bool.splits)
    (metis keep_fields(1) request_fields(1) snd_conv)+

lemma intern_failed: "jn_failed j \<Longrightarrow> intern grants j str = (None, j)"
  by (simp add: intern_def)

lemma intern_kept: "\<not> jn_failed (snd (intern grants j str)) \<Longrightarrow> fst (intern grants j str) = str \<and> \<not> jn_failed j"
  by (auto simp: intern_def split: prod.splits bool.splits if_splits)
    (metis keep_fields(2) request_fields(2) fst_conv snd_conv)+

lemma intern_eq:
  "intern grants j str = (str', j') \<Longrightarrow> \<not> jn_failed j' \<Longrightarrow> str' = str \<and> \<not> jn_failed j"
  using intern_kept [of grants j str] by simp

lemma intern_records_eq: "intern grants j str = (str', j') \<Longrightarrow> jn_records j' = jn_records j"
  using intern_records [of grants j str] by simp

lemma intern_record_kept:
  assumes "intern_record grants j r = (r', j')" "\<not> jn_failed j'"
  shows "r' = r \<and> \<not> jn_failed j"
proof -
  from assms(1) obtain j1 j2 j3 j4 j5 j6 where
    i: "intern grants j (rc_op r) = (rc_op r', j1)"
      "intern grants j1 (rc_interface r) = (rc_interface r', j2)"
      "intern grants j2 (rc_error r) = (rc_error r', j3)"
      "intern grants j3 (rs_interface (rc_reason r)) = (rs_interface (rc_reason r'), j4)"
      "intern grants j4 (rs_field (rc_reason r)) = (rs_field (rc_reason r'), j5)"
      "intern grants j5 (rs_desired (rc_reason r)) = (rs_desired (rc_reason r'), j6)"
      "intern grants j6 (rs_observed (rc_reason r)) = (rs_observed (rc_reason r'), j')"
    and same: "rc_id r' = rc_id r" "rc_outcome r' = rc_outcome r"
    by (auto simp: intern_record_def split: prod.splits)
  note k7 = intern_eq [OF i(7) assms(2)]
  note k6 = intern_eq [OF i(6) k7 [THEN conjunct2]]
  note k5 = intern_eq [OF i(5) k6 [THEN conjunct2]]
  note k4 = intern_eq [OF i(4) k5 [THEN conjunct2]]
  note k3 = intern_eq [OF i(3) k4 [THEN conjunct2]]
  note k2 = intern_eq [OF i(2) k3 [THEN conjunct2]]
  note k1 = intern_eq [OF i(1) k2 [THEN conjunct2]]
  from k1 k2 k3 k4 k5 k6 k7 same show ?thesis
    by (auto intro!: jrecord.equality reason.equality)
qed

lemma intern_record_records: "intern_record grants j r = (r', j') \<Longrightarrow> jn_records j' = jn_records j"
  by (auto simp: intern_record_def split: prod.splits dest!: intern_records_eq)

lemma journal_slot_fields:
  "journal_slot grants j = (ok, j') \<Longrightarrow> jn_records j' = jn_records j \<and> (jn_failed j' \<longleftrightarrow> jn_failed j \<or> \<not> ok)"
  by (auto simp: journal_slot_def request_def Let_def split: if_splits prod.splits bool.splits)

lemma push_kept:
  assumes "\<not> jn_failed (ncfg_journal_push grants j r)"
  shows "jn_records (ncfg_journal_push grants j r) = jn_records j @ [r] \<and> \<not> jn_failed j"
  using assms
  by (auto simp: ncfg_journal_push_def split: prod.splits bool.splits if_splits
      dest: journal_slot_fields intern_record_kept) (metis journal_slot_fields intern_record_records)

interpretation journal: sticky_list "ncfg_journal_push grants" jn_records jn_failed for grants
  by unfold_locales (rule push_kept)

subsection \<open>The run, without the journal's memory and the narration\<close>

fun execution :: "('s, 'd) executor \<Rightarrow> bool \<Rightarrow> 's \<Rightarrow> 'd action list \<Rightarrow> jrecord list \<times> 's" where
  "execution execute stopped s [] = ([], s)"
| "execution execute stopped s (action # actions) =
     (case run_action execute False stopped s action of
        (r, _, stopped, s) \<Rightarrow>
          (case execution execute stopped s actions of (rs, s) \<Rightarrow> (r # rs, s)))"

lemma execution_Cons:
  "run_action execute False stopped s action = (r, said, stopped', s') \<Longrightarrow>
   execution execute stopped s (action # actions) =
     (r # fst (execution execute stopped' s' actions), snd (execution execute stopped' s' actions))"
  by (simp split: prod.split)

lemma run_action_silent:
  "run_action execute narrates stopped s action = (r, said, stopped', s') \<Longrightarrow>
   run_action execute False stopped s action = (r, [], stopped', s')"
  by (auto simp: run_action_def Let_def split: if_splits prod.splits bool.splits)

lemma run_actions_records:
  "run_actions grants execute narrates stopped j s actions = (j', said, s') \<Longrightarrow>
   s' = snd (execution execute stopped s actions) \<and>
   j' = foldl (ncfg_journal_push grants) j (fst (execution execute stopped s actions))"
proof (induction actions arbitrary: stopped j s said)
  case (Cons action actions)
  obtain r said1 stopped1 s1 where a: "run_action execute narrates stopped s action = (r, said1, stopped1, s1)"
    by (metis prod_cases4)
  obtain said2 where rest: "run_actions grants execute narrates stopped1
      (ncfg_journal_push grants j r) s1 actions = (j', said2, s')"
    using Cons.prems a by (auto split: prod.splits)
  from Cons.IH [OF rest] show ?case by (simp add: execution_Cons [OF run_action_silent [OF a]] del: execution.simps)
qed simp

lemma run_actions_machine:
  assumes "run_actions grants execute narrates stopped j s actions = (j', said, s')"
  shows "snd (execution execute stopped s actions) = s' \<and>
   (\<not> jn_failed j' \<longrightarrow>
      jn_records j' = jn_records j @ fst (execution execute stopped s actions) \<and> \<not> jn_failed j)"
  using run_actions_records [OF assms] journal.adds_kept by metis

lemma run_plan_execution:
  assumes "run_plan grants execute narrates s plan = (Inr u, j, said, s')"
  shows "execution execute False s (pl_actions plan) = (jn_records j, s')" "\<not> pl_failed plan"
proof -
  from assms show "\<not> pl_failed plan" by (auto simp: run_plan_def ncfg_plan_failed_def split: if_splits)
  with assms have run: "run_actions grants execute narrates False ncfg_journal_init s (pl_actions plan) = (j, said, s')"
    and "\<not> jn_failed j"
    by (auto simp: run_plan_def ncfg_plan_failed_def split: if_splits prod.splits)
  with run_actions_machine [OF run] show "execution execute False s (pl_actions plan) = (jn_records j, s')"
    by (simp add: ncfg_journal_init_def prod_eq_iff)
qed

text \<open>
  What becomes of the machine does not depend on the journal's memory or on the narration:
  whichever of the journal's allocations are granted, and whether or not the run is narrated, the
  same plan leaves the same machine behind.
\<close>

theorem apply_machine_alone:
  "snd (snd (snd (run_plan grants execute narrates s plan))) =
   snd (snd (snd (run_plan grants' execute narrates' s plan)))"
proof -
  have "snd (snd (snd (run_plan g execute n s plan))) =
      (if pl_failed plan then s else snd (execution execute False s (pl_actions plan)))" for g n
    using run_actions_machine [of g execute n False ncfg_journal_init s "pl_actions plan"]
    by (auto simp: run_plan_def ncfg_plan_failed_def split: prod.split)
  then show ?thesis by metis
qed

lemma run_actions_narration:
  "run_actions grants execute False stopped j s actions =
     (case run_actions grants execute narrates stopped j s actions of (j', _, s') \<Rightarrow> (j', [], s'))"
proof (induction actions arbitrary: stopped j s)
  case (Cons action actions)
  obtain r said stopped' s' where a: "run_action execute narrates stopped s action = (r, said, stopped', s')"
    by (metis prod_cases4)
  from run_action_silent [OF a] a Cons show ?case by (auto split: prod.splits)
qed simp

text \<open>
  The two entry points are one engine: \<^verbatim>\<open>ncfg_apply_silently\<close> gives the verdict, the journal and
  the machine \<^verbatim>\<open>ncfg_apply\<close> gives, and logs nothing.
\<close>

theorem apply_silently_same:
  "ncfg_apply_silently grants execute s plan =
     (case ncfg_apply grants execute s plan of (verdict, journal, _, s') \<Rightarrow> (verdict, journal, [], s'))"
  using run_actions_narration [of grants execute False ncfg_journal_init s "pl_actions plan" True]
  by (auto simp: ncfg_apply_silently_def ncfg_apply_def run_plan_def split: prod.splits)


subsection \<open>Which actions run, and how each is recorded\<close>

definition outcome_of :: "('s, 'd) executor \<Rightarrow> 's \<Rightarrow> 'd action \<Rightarrow> outcome" where
  "outcome_of execute s action =
     (if fst (fst (execute s (ac_op action))) then NCFG_OUTCOME_DONE
      else if ncfg_apply_optional (ac_op action) then NCFG_OUTCOME_UNMET
      else NCFG_OUTCOME_FAILED)"

definition machine_at :: "('s, 'd) executor \<Rightarrow> 's \<Rightarrow> 'd action list \<Rightarrow> nat \<Rightarrow> 's" where
  "machine_at execute s actions i = foldl (\<lambda>s action. snd (execute s (ac_op action))) s (take i actions)"

lemma machine_at_simps [simp]:
  "machine_at execute s actions 0 = s"
  "machine_at execute s (action # actions) (Suc i) = machine_at execute (snd (execute s (ac_op action))) actions i"
  by (simp_all add: machine_at_def)

fun handed :: "('s, 'd) executor \<Rightarrow> 's \<Rightarrow> 'd action list \<Rightarrow> nat" where
  "handed execute s [] = 0"
| "handed execute s (action # actions) =
     Suc (if outcome_of execute s action = NCFG_OUTCOME_FAILED then 0
          else handed execute (snd (execute s (ac_op action))) actions)"

lemma run_action_stopped:
  "run_action execute narrates True s action = (r, said, stopped, s') \<Longrightarrow>
   rc_outcome r = NCFG_OUTCOME_SKIPPED \<and> stopped \<and> s' = s"
  by (auto simp: run_action_def Let_def)

lemma run_action_outcome:
  "run_action execute narrates False s action = (r, said, stopped, s') \<Longrightarrow>
   rc_outcome r = outcome_of execute s action \<and> s' = snd (execute s (ac_op action)) \<and>
   (stopped \<longleftrightarrow> outcome_of execute s action = NCFG_OUTCOME_FAILED)"
  by (auto simp: run_action_def outcome_of_def Let_def split: prod.splits bool.splits if_splits)

lemma execution_stopped:
  "map rc_outcome (fst (execution execute True s actions)) = replicate (length actions) NCFG_OUTCOME_SKIPPED"
  "snd (execution execute True s actions) = s"
proof (induction actions)
  case (Cons action actions)
  { case 1 with Cons show ?case by (auto split: prod.splits dest!: run_action_stopped) }
  { case 2 with Cons show ?case by (auto split: prod.splits dest!: run_action_stopped) }
qed simp_all

lemma handed_le: "handed execute s actions \<le> length actions"
  by (induction actions arbitrary: s) auto

lemma execution_runs:
  "snd (execution execute False s actions) = machine_at execute s actions (handed execute s actions) \<and>
   map rc_outcome (fst (execution execute False s actions)) =
     map (\<lambda>i. outcome_of execute (machine_at execute s actions i) (actions ! i)) [0..<handed execute s actions] @
     replicate (length actions - handed execute s actions) NCFG_OUTCOME_SKIPPED"
proof (induction actions arbitrary: s)
  case (Cons action actions)
  obtain r said stopped s' where a: "run_action execute False False s action = (r, said, stopped, s')"
    by (metis prod_cases4)
  have upt: "[0..<Suc n] = 0 # map Suc [0..<n]" for n by (simp add: map_Suc_upt upt_conv_Cons)
  from run_action_outcome [OF a] Cons.IH [of s'] execution_stopped [of execute s' actions] show ?case
    by (cases stopped) (simp_all add: execution_Cons [OF a] upt comp_def del: execution.simps upt_Suc)
qed simp

lemma handed_before: "Suc i < handed execute s actions \<Longrightarrow>
    outcome_of execute (machine_at execute s actions i) (actions ! i) \<noteq> NCFG_OUTCOME_FAILED"
  by (induction actions arbitrary: s i) (auto simp: nth_Cons' gr0_conv_Suc split: if_splits)

lemma handed_stops: "handed execute s actions < length actions \<Longrightarrow>
    0 < handed execute s actions \<and>
    outcome_of execute (machine_at execute s actions (handed execute s actions - 1))
      (actions ! (handed execute s actions - 1)) = NCFG_OUTCOME_FAILED"
proof (induction actions arbitrary: s)
  case (Cons action actions)
  show ?case
  proof (cases "outcome_of execute s action = NCFG_OUTCOME_FAILED")
    case False
    with Cons.prems Cons.IH [of "snd (execute s (ac_op action))"] show ?thesis
      by (auto simp: gr0_conv_Suc)
  qed simp
qed simp

text \<open>What a record says of its action.\<close>

definition records_action :: "jrecord \<Rightarrow> 'd action \<Rightarrow> bool" where
  "records_action r action \<longleftrightarrow>
     rc_id r = ac_id action \<and> rc_op r = Some (ncfg_op_name (ac_op action)) \<and>
     rc_interface r = ncfg_op_interface (ac_op action) \<and> rc_reason r = ac_reason action \<and>
     (rc_error r \<noteq> None \<longleftrightarrow> rc_outcome r \<in> {NCFG_OUTCOME_FAILED, NCFG_OUTCOME_UNMET})"

lemma execution_records: "list_all2 records_action (fst (execution execute stopped s actions)) actions"
proof (induction actions arbitrary: stopped s)
  case (Cons action actions)
  obtain r said stopped' s' where a: "run_action execute False stopped s action = (r, said, stopped', s')"
    by (metis prod_cases4)
  then have "records_action r action"
    by (auto simp: run_action_def records_action_def Let_def split: prod.splits bool.splits if_splits)
  with Cons.IH [of stopped' s'] show ?case by (simp add: execution_Cons [OF a] del: execution.simps)
qed simp

text \<open>
  C3.  What an apply does, whenever it reports success.  There is one record per action, in the
  plan's order, naming the action, its interface and its reason, with an error exactly where it
  failed.  Some number of actions, from the front and in order, reached the executor, each on the
  machine the ones before it left, and nothing else did; each of those is recorded as done, as unmet
  when it failed and the interface is usable without it, or as failed.  Only the last of them may
  have failed; if any action was left over, it did, and every action after it is recorded as skipped.
\<close>

theorem apply_runs_prefix:
  assumes "run_plan grants execute narrates s plan = (Inr u, journal, said, s')"
  shows "\<exists>n \<le> length (pl_actions plan).
    list_all2 records_action (jn_records journal) (pl_actions plan) \<and>
    s' = machine_at execute s (pl_actions plan) n \<and>
    map rc_outcome (jn_records journal) =
      map (\<lambda>i. outcome_of execute (machine_at execute s (pl_actions plan) i) (pl_actions plan ! i)) [0..<n] @
      replicate (length (pl_actions plan) - n) NCFG_OUTCOME_SKIPPED \<and>
    (\<forall>i. Suc i < n \<longrightarrow> rc_outcome (jn_records journal ! i) \<noteq> NCFG_OUTCOME_FAILED) \<and>
    (n < length (pl_actions plan) \<longrightarrow>
       0 < n \<and> rc_outcome (jn_records journal ! (n - 1)) = NCFG_OUTCOME_FAILED)"
proof -
  let ?n = "handed execute s (pl_actions plan)"
  note e = run_plan_execution(1) [OF assms]
  note runs = handed_le [of execute s "pl_actions plan"]
    execution_runs [of execute s "pl_actions plan", unfolded e, THEN conjunct1]
    execution_runs [of execute s "pl_actions plan", unfolded e, THEN conjunct2]
  have recorded: "list_all2 records_action (jn_records journal) (pl_actions plan)"
    using execution_records [of execute False s "pl_actions plan"] e by simp
  note len = list_all2_lengthD [OF recorded]
  have at: "rc_outcome (jn_records journal ! i) =
      outcome_of execute (machine_at execute s (pl_actions plan) i) (pl_actions plan ! i)"
    if "i < ?n" for i
  proof -
    from that runs(1) len have "rc_outcome (jn_records journal ! i) = map rc_outcome (jn_records journal) ! i" by simp
    with that runs(3) show ?thesis by (simp add: nth_append)
  qed
  from recorded show ?thesis
    using runs handed_before [of _ execute s "pl_actions plan"] handed_stops [of execute s "pl_actions plan"]
    by (intro exI [of _ ?n]) (auto simp: at)
qed


text \<open>A machine that counts links that are up, and refuses everything else.\<close>

definition sample_execute :: "(int, unit) executor" where
  "sample_execute s op =
     (if op_kind op = NCFG_OP_LINK_UP then ((True, []), s + 1)
      else if op_kind op = NCFG_OP_LINK_DOWN then ((True, []), s - 1)
      else ((False, ascii ''no''), s))"

definition sample_action :: "nat \<Rightarrow> op_kind \<Rightarrow> op_kind \<Rightarrow> unit action" where
  "sample_action i kind undo =
     \<lparr>ac_id = of_nat i, ac_op = sample_op kind ''eth0'', ac_reason = sample_reason, ac_depends_on = [],
      ac_inverse = Some (sample_op undo ''eth0'')\<rparr>"

definition sample_plan :: "op_kind list \<Rightarrow> unit plan" where
  "sample_plan kinds =
     ncfg_plan_new\<lparr>pl_actions :=
       map2 (\<lambda>i kind. sample_action i kind NCFG_OP_LINK_DOWN) [0..<length kinds] kinds\<rparr>"

theorem apply_runs_prefix_witness:
  "\<exists>n \<le> 4. n = 3 \<and>
     snd (snd (snd (run_plan (\<lambda>_. True) sample_execute False 0
       (sample_plan [NCFG_OP_LINK_UP, NCFG_OP_QDISC_SET, NCFG_OP_ADDR_ADD, NCFG_OP_LINK_UP])))) =
     machine_at sample_execute 0
       (pl_actions (sample_plan [NCFG_OP_LINK_UP, NCFG_OP_QDISC_SET, NCFG_OP_ADDR_ADD, NCFG_OP_LINK_UP])) n"
proof -
  let ?plan = "sample_plan [NCFG_OP_LINK_UP, NCFG_OP_QDISC_SET, NCFG_OP_ADDR_ADD, NCFG_OP_LINK_UP]"
  let ?run = "run_plan (\<lambda>_. True) sample_execute False 0 ?plan"
  have ok: "fst ?run = Inr ()" by code_simp
  then have run: "?run = (Inr (), fst (snd ?run), fst (snd (snd ?run)), snd (snd (snd ?run)))"
    by (simp add: prod_eq_iff)
  have four: "length (pl_actions ?plan) = 4" by code_simp
  have outcomes: "map rc_outcome (jn_records (fst (snd ?run))) =
      [NCFG_OUTCOME_DONE, NCFG_OUTCOME_UNMET, NCFG_OUTCOME_FAILED, NCFG_OUTCOME_SKIPPED]" by code_simp
  from apply_runs_prefix [OF run] obtain n where n: "n \<le> 4"
    and machine: "snd (snd (snd ?run)) = machine_at sample_execute 0 (pl_actions ?plan) n"
    and stop: "n < 4 \<longrightarrow> 0 < n \<and> rc_outcome (jn_records (fst (snd ?run)) ! (n - 1)) = NCFG_OUTCOME_FAILED"
    and before: "\<forall>i. Suc i < n \<longrightarrow> rc_outcome (jn_records (fst (snd ?run)) ! i) \<noteq> NCFG_OUTCOME_FAILED"
    unfolding four by blast
  have at: "rc_outcome (jn_records (fst (snd ?run)) ! i) =
      [NCFG_OUTCOME_DONE, NCFG_OUTCOME_UNMET, NCFG_OUTCOME_FAILED, NCFG_OUTCOME_SKIPPED] ! i" if "i < 4" for i
    using that arg_cong [OF outcomes, of "\<lambda>os. os ! i"] arg_cong [OF outcomes, of length] by simp
  from before at [of 2] have "n \<le> 3" by (auto simp: not_le [symmetric] numeral_eq_Suc)
  moreover from n stop at [of 0] at [of 1] have "n \<noteq> 0" "n \<noteq> 1" "n \<noteq> 2" by auto
  ultimately have "n = 3" by simp
  with n machine show ?thesis by blast
qed

subsection \<open>The journal's arithmetic\<close>

lemma counted_map: "counted journal outcome = count_list (map rc_outcome (jn_records journal)) outcome"
proof -
  have from_n: "foldl (\<lambda>found r. if rc_outcome r = outcome then found + 1 else found) n rs =
      n + count_list (map rc_outcome rs) outcome" for n :: nat and rs :: "jrecord list"
    by (induction rs arbitrary: n) auto
  show ?thesis by (simp only: counted_def from_n add_0)
qed

lemma count_list_all: "count_list xs x = length xs \<longleftrightarrow> set xs \<subseteq> {x}"
proof (induction xs)
  case (Cons y ys)
  then show ?case using count_le_length [of ys x] by auto
qed simp

lemma count_outcomes:
  "count_list os NCFG_OUTCOME_DONE + count_list os NCFG_OUTCOME_FAILED + count_list os NCFG_OUTCOME_SKIPPED +
   count_list os NCFG_OUTCOME_UNMET + count_list os NCFG_OUTCOME_REVERTED = length os"
proof (induction os)
  case (Cons x xs) then show ?case by (cases x) auto
qed simp

text \<open>
  The journal's arithmetic adds up: after an apply that reports success, the actions of the plan
  are the ones done, the ones unmet, the ones skipped and at most one that failed, which is the one
  the journal names as its failure; and the journal calls the apply a success exactly when every
  action was done.
\<close>

theorem journal_accounts:
  assumes "run_plan grants execute narrates s plan = (Inr u, journal, said, s')"
  shows "ncfg_journal_done journal + ncfg_journal_unmet journal + ncfg_journal_skipped journal +
      (if ncfg_journal_failure journal = None then 0 else 1) = length (pl_actions plan) \<and>
    (ncfg_journal_succeeded journal \<longleftrightarrow> ncfg_journal_done journal = length (pl_actions plan))"
proof -
  let ?n = "handed execute s (pl_actions plan)"
  let ?at = "\<lambda>i. outcome_of execute (machine_at execute s (pl_actions plan) i) (pl_actions plan ! i)"
  let ?os = "map rc_outcome (jn_records journal)"
  note e = run_plan_execution(1) [OF assms]
  have os: "?os = map ?at [0..<?n] @ replicate (length (pl_actions plan) - ?n) NCFG_OUTCOME_SKIPPED"
    using execution_runs [of execute s "pl_actions plan", unfolded e] by simp
  have len: "length ?os = length (pl_actions plan)"
    using execution_records [of execute False s "pl_actions plan", unfolded e] by (simp add: list_all2_lengthD)
  have none: "NCFG_OUTCOME_REVERTED \<notin> set ?os"
    unfolding os by (auto simp: outcome_of_def split: if_splits)
  have one: "count_list (map ?at [0..<m]) NCFG_OUTCOME_FAILED = 0" if "Suc m \<le> ?n" for m
  proof -
    have "?at i \<noteq> NCFG_OUTCOME_FAILED" if "i < m" for i
      using that \<open>Suc m \<le> ?n\<close> by (intro handed_before) simp
    then show ?thesis by (force simp: count_list_0_iff)
  qed
  have failed: "count_list ?os NCFG_OUTCOME_FAILED \<le> 1"
    unfolding os using one [of "?n - 1"]
    by (cases ?n) (auto simp: count_list_0_iff)
  have failure: "ncfg_journal_failure journal = None \<longleftrightarrow> count_list ?os NCFG_OUTCOME_FAILED = 0"
    by (auto simp: ncfg_journal_failure_def find_None_iff count_list_0_iff image_iff)
  note total = count_outcomes [of ?os]
  from none have "count_list ?os NCFG_OUTCOME_REVERTED = 0" by (simp add: count_list_0_iff)
  moreover have "ncfg_journal_succeeded journal \<longleftrightarrow> set ?os \<subseteq> {NCFG_OUTCOME_DONE}"
    using none by (force simp: ncfg_journal_succeeded_def list_all_iff)
  ultimately show ?thesis
    using total failed failure len count_list_all [of ?os NCFG_OUTCOME_DONE]
    by (auto simp: ncfg_journal_done_def ncfg_journal_unmet_def ncfg_journal_skipped_def counted_map)
qed


theorem journal_accounts_witness:
  "let journal = fst (snd (run_plan (\<lambda>_. True) sample_execute False 0
     (sample_plan [NCFG_OP_LINK_UP, NCFG_OP_QDISC_SET, NCFG_OP_ADDR_ADD, NCFG_OP_LINK_UP])))
   in ncfg_journal_failure journal \<noteq> None \<and>
      ncfg_journal_done journal + ncfg_journal_unmet journal + ncfg_journal_skipped journal + 1 = 4 \<and>
      \<not> ncfg_journal_succeeded journal"
proof -
  let ?plan = "sample_plan [NCFG_OP_LINK_UP, NCFG_OP_QDISC_SET, NCFG_OP_ADDR_ADD, NCFG_OP_LINK_UP]"
  let ?run = "run_plan (\<lambda>_. True) sample_execute False 0 ?plan"
  have ok: "fst ?run = Inr ()" by code_simp
  then have run: "?run = (Inr (), fst (snd ?run), fst (snd (snd ?run)), snd (snd (snd ?run)))"
    by (simp add: prod_eq_iff)
  have four: "length (pl_actions ?plan) = 4" by code_simp
  have "ncfg_journal_failure (fst (snd ?run)) \<noteq> None" by code_simp
  with journal_accounts [OF run] four show ?thesis by (simp add: Let_def)
qed

subsection \<open>Reverting\<close>

text \<open>The inverse a record calls for, if it calls for one.\<close>

definition undo_of :: "'d plan \<Rightarrow> jrecord \<Rightarrow> 'd op option" where
  "undo_of plan r =
     (if rc_outcome r = NCFG_OUTCOME_DONE
      then Option.bind (action_with_id plan (rc_id r)) ac_inverse else None)"

definition undo_ops :: "'d plan \<Rightarrow> jrecord list \<Rightarrow> 'd op list" where
  "undo_ops plan rs = List.map_filter (undo_of plan) rs"

lemma undo_ops_simps [simp]:
  "undo_ops plan [] = []"
  "undo_ops plan (r # rs) = (case undo_of plan r of None \<Rightarrow> undo_ops plan rs | Some u \<Rightarrow> u # undo_ops plan rs)"
  by (simp_all add: undo_ops_def map_filter_simps split: option.split)

definition revert_one :: "('s, 'd) executor \<Rightarrow> 'd plan \<Rightarrow> 's \<Rightarrow> jrecord \<Rightarrow> jrecord \<times> 's" where
  "revert_one execute plan s r =
     (case undo_of plan r of
        None \<Rightarrow> (r, s)
      | Some u \<Rightarrow>
          (if fst (fst (execute s u)) then r\<lparr>rc_outcome := NCFG_OUTCOME_REVERTED\<rparr> else r,
           snd (execute s u)))"

lemma revert_records_Cons:
  "revert_records execute plan undone s (r # rs) =
     (case revert_one execute plan s r of
        (r', s') \<Rightarrow>
          (case revert_records execute plan (undone + (if rc_outcome r' = rc_outcome r then 0 else 1)) s' rs of
             (undone', rs', s'') \<Rightarrow> (undone', r' # rs', s'')))"
  by (auto simp: revert_one_def undo_of_def split: prod.splits option.splits bool.splits Option.bind_splits)

lemma revert_one_cases:
  "revert_one execute plan s r = (r', s') \<Longrightarrow>
   r' = r \<or> rc_outcome r = NCFG_OUTCOME_DONE \<and> r' = r\<lparr>rc_outcome := NCFG_OUTCOME_REVERTED\<rparr>"
  by (auto simp: revert_one_def undo_of_def split: option.splits if_splits)

lemma revert_records_spec:
  assumes "revert_records execute plan undone s rs = (undone', rs', s')"
  shows "s' = foldl (\<lambda>s u. snd (execute s u)) s (undo_ops plan rs) \<and>
    list_all2 (\<lambda>r' r. r' = r \<or> undo_of plan r \<noteq> None \<and> r' = r\<lparr>rc_outcome := NCFG_OUTCOME_REVERTED\<rparr>) rs' rs \<and>
    undone' + count_list (map rc_outcome rs') NCFG_OUTCOME_DONE =
      undone + count_list (map rc_outcome rs) NCFG_OUTCOME_DONE"
  using assms
proof (induction rs arbitrary: undone s rs')
  case (Cons r rs)
  obtain r1 s1 where one: "revert_one execute plan s r = (r1, s1)" by fastforce
  let ?n = "undone + (if rc_outcome r1 = rc_outcome r then 0 else 1)"
  obtain rs1 where rest: "revert_records execute plan ?n s1 rs = (undone', rs1, s')" "rs' = r1 # rs1"
    using Cons.prems one unfolding revert_records_Cons by (auto split: prod.splits)
  have "s' = foldl (\<lambda>s u. snd (execute s u)) s (undo_ops plan (r # rs))"
    using Cons.IH [OF rest(1)] one by (auto simp: revert_one_def split: option.splits)
  moreover have "r1 = r \<or> undo_of plan r \<noteq> None \<and> r1 = r\<lparr>rc_outcome := NCFG_OUTCOME_REVERTED\<rparr>"
    using one by (auto simp: revert_one_def split: option.splits if_splits)
  ultimately show ?case
    using Cons.IH [OF rest(1)] rest(2) revert_one_cases [OF one] by auto
qed simp

lemma count_list_rev: "count_list (rev xs) x = count_list xs x"
  by (induction xs) auto

text \<open>
  What a revert runs.  Exactly the declared inverses of the actions recorded as done are handed
  to the executor, the newest first; the records of those whose inverse was carried out become
  reverted and nothing else in the journal changes; and the number it answers is the number of
  actions that were done before and are not any more.
\<close>

theorem revert_runs_inverses:
  assumes "ncfg_apply_revert execute plan s journal = (undone, journal', s')"
  shows "s' = foldl (\<lambda>s u. snd (execute s u)) s (undo_ops plan (rev (jn_records journal))) \<and>
    list_all2 (\<lambda>r' r. r' = r \<or> undo_of plan r \<noteq> None \<and> r' = r\<lparr>rc_outcome := NCFG_OUTCOME_REVERTED\<rparr>)
      (jn_records journal') (jn_records journal) \<and>
    undone + ncfg_journal_done journal' = ncfg_journal_done journal"
proof -
  from assms obtain rs' where r: "revert_records execute plan 0 s (rev (jn_records journal)) = (undone, rs', s')"
    and j: "journal' = journal\<lparr>jn_records := rev rs'\<rparr>"
    by (auto simp: ncfg_apply_revert_def split: prod.splits)
  from revert_records_spec [OF r] show ?thesis
    by (auto simp: j ncfg_journal_done_def counted_map rev_map [symmetric] count_list_rev
        list_all2_rev1)
qed


theorem revert_runs_inverses_witness:
  "let plan = sample_plan [NCFG_OP_LINK_UP, NCFG_OP_LINK_UP, NCFG_OP_ADDR_ADD];
       run = run_plan (\<lambda>_. True) sample_execute False 0 plan;
       journal = fst (snd run)
   in ncfg_journal_done journal = 2 \<and>
      fst (ncfg_apply_revert sample_execute plan (snd (snd (snd run))) journal) +
        ncfg_journal_done (fst (snd (ncfg_apply_revert sample_execute plan (snd (snd (snd run))) journal))) = 2"
proof -
  let ?plan = "sample_plan [NCFG_OP_LINK_UP, NCFG_OP_LINK_UP, NCFG_OP_ADDR_ADD]"
  let ?run = "run_plan (\<lambda>_. True) sample_execute False 0 ?plan"
  let ?reverted = "ncfg_apply_revert sample_execute ?plan (snd (snd (snd ?run))) (fst (snd ?run))"
  have "?reverted = (fst ?reverted, fst (snd ?reverted), snd (snd ?reverted))" by simp
  note r = revert_runs_inverses [OF this]
  have "ncfg_journal_done (fst (snd ?run)) = 2" by code_simp
  with r show ?thesis by (simp add: Let_def)
qed

lemma revert_records_append:
  "revert_records execute plan undone s (xs @ ys) =
     (case revert_records execute plan undone s xs of
        (undone', xs', s') \<Rightarrow>
          (case revert_records execute plan undone' s' ys of
             (undone'', ys', s'') \<Rightarrow> (undone'', xs' @ ys', s'')))"
proof (induction xs arbitrary: undone s)
  case (Cons x xs)
  then show ?case unfolding append_Cons revert_records_Cons by (auto split: prod.splits)
qed simp

text \<open>
  What it takes for a plan to be undone: every action has an inverse that undoes it on whatever
  machine it was carried out, and an op that fails changes nothing.
\<close>

definition undoable :: "('s, 'd) executor \<Rightarrow> 'd action \<Rightarrow> bool" where
  "undoable execute action \<longleftrightarrow>
     (\<forall>s s' message. execute s (ac_op action) = ((False, message), s') \<longrightarrow> s' = s) \<and>
     (\<exists>undo. ac_inverse action = Some undo \<and>
        (\<forall>s s' message. execute s (ac_op action) = ((True, message), s') \<longrightarrow>
           (\<exists>message'. execute s' undo = ((True, message'), s))))"

lemma revert_one_undoable:
  assumes "undoable execute action" "action_with_id plan (ac_id action) = Some action"
    and "run_action execute False stopped s action = (r, said, stopped', s')"
  shows "\<exists>r'. revert_one execute plan s' r = (r', s) \<and> rc_outcome r' \<noteq> NCFG_OUTCOME_DONE"
  using assms
  by (cases "execute s (ac_op action)"; cases "fst (fst (execute s (ac_op action)))")
    (fastforce simp: run_action_def revert_one_def undo_of_def undoable_def Let_def
      split: if_splits)+

lemma revert_execution:
  assumes "\<forall>action \<in> set actions. undoable execute action \<and> action_with_id plan (ac_id action) = Some action"
  shows "\<exists>undone' rs'. revert_records execute plan undone (snd (execution execute stopped s actions))
      (rev (fst (execution execute stopped s actions))) = (undone', rs', s) \<and>
    NCFG_OUTCOME_DONE \<notin> set (map rc_outcome rs')"
  using assms
proof (induction actions arbitrary: stopped s undone)
  case (Cons action actions)
  obtain r said stopped' s' where a: "run_action execute False stopped s action = (r, said, stopped', s')"
    by (metis prod_cases4)
  from Cons obtain undone1 rs1 where rest:
    "revert_records execute plan undone (snd (execution execute stopped' s' actions))
      (rev (fst (execution execute stopped' s' actions))) = (undone1, rs1, s')"
    "NCFG_OUTCOME_DONE \<notin> set (map rc_outcome rs1)"
    by fastforce
  from Cons.prems revert_one_undoable [OF _ _ a, of plan] obtain r' where
    "revert_one execute plan s' r = (r', s)" "rc_outcome r' \<noteq> NCFG_OUTCOME_DONE" by auto
  with rest show ?case
    unfolding execution_Cons [OF a] rev.simps fst_conv snd_conv revert_records_append
    by (auto simp: revert_records_Cons simp del: revert_records.simps(2))
qed simp

lemma find_distinct:
  "distinct (map f xs) \<Longrightarrow> x \<in> set xs \<Longrightarrow> find (\<lambda>y. f y = f x) xs = Some x"
  by (induction xs) auto

lemma revert_nothing: "undo_ops plan rs = [] \<Longrightarrow> revert_records execute plan undone s rs = (undone, rs, s)"
  by (induction rs arbitrary: undone)
    (auto simp: revert_records_Cons revert_one_def split: option.splits simp del: revert_records.simps(2))

text \<open>
  C4.  A revert restores the machine.  For a plan whose actions have distinct ids and can all be
  undone, an apply that reports success followed by a revert leaves the machine as it was before the
  apply, wherever the apply stopped; the revert counts every action that was done, no action is left
  recorded as done, and reverting again runs nothing and changes nothing.
\<close>

theorem revert_restores:
  assumes "run_plan grants execute narrates s plan = (Inr u, journal, said, s')"
    and "distinct (map ac_id (pl_actions plan))"
    and "\<forall>action \<in> set (pl_actions plan). undoable execute action"
  shows "\<exists>journal'. ncfg_apply_revert execute plan s' journal = (ncfg_journal_done journal, journal', s) \<and>
    ncfg_journal_done journal' = 0 \<and>
    (\<forall>t. ncfg_apply_revert execute plan t journal' = (0, journal', t))"
proof -
  note e = run_plan_execution(1) [OF assms(1)]
  have "\<forall>action \<in> set (pl_actions plan). undoable execute action \<and>
      action_with_id plan (ac_id action) = Some action"
    using assms(2,3) by (simp add: action_with_id_def find_distinct)
  from revert_execution [OF this, of 0 False s, unfolded e] obtain undone rs' where
    r: "revert_records execute plan 0 s' (rev (jn_records journal)) = (undone, rs', s)"
    and gone: "NCFG_OUTCOME_DONE \<notin> set (map rc_outcome rs')" by auto
  let ?journal = "journal\<lparr>jn_records := rev rs'\<rparr>"
  from gone have zero: "count_list (map rc_outcome rs') NCFG_OUTCOME_DONE = 0" by (simp add: count_list_0_iff)
  from revert_records_spec [OF r] zero have "undone = ncfg_journal_done journal"
    by (simp add: ncfg_journal_done_def counted_map rev_map [symmetric] count_list_rev)
  moreover from zero have "ncfg_journal_done ?journal = 0"
    by (simp add: ncfg_journal_done_def counted_map rev_map [symmetric] count_list_rev)
  moreover have "undo_ops plan rs' = []"
    using gone by (induction rs') (auto simp: undo_of_def)
  ultimately show ?thesis
    using r by (intro exI [of _ ?journal]) (simp add: ncfg_apply_revert_def revert_nothing)
qed

lemma sample_undoable: "undoable sample_execute (sample_action i NCFG_OP_LINK_UP NCFG_OP_LINK_DOWN)"
  by (auto simp: undoable_def sample_execute_def sample_action_def sample_op_def)

theorem revert_restores_witness:
  "let plan = sample_plan [NCFG_OP_LINK_UP, NCFG_OP_LINK_UP];
       run = run_plan (\<lambda>_. True) sample_execute False 0 plan
   in snd (snd (snd run)) = 2 \<and>
      snd (snd (ncfg_apply_revert sample_execute plan (snd (snd (snd run))) (fst (snd run)))) = 0"
proof -
  let ?plan = "sample_plan [NCFG_OP_LINK_UP, NCFG_OP_LINK_UP]"
  let ?run = "run_plan (\<lambda>_. True) sample_execute False 0 ?plan"
  have ok: "fst ?run = Inr ()" by code_simp
  then have run: "?run = (Inr (), fst (snd ?run), fst (snd (snd ?run)), snd (snd (snd ?run)))"
    by (simp add: prod_eq_iff)
  have ids: "distinct (map ac_id (pl_actions ?plan))" by code_simp
  have undo: "\<forall>action \<in> set (pl_actions ?plan). undoable sample_execute action"
    using sample_undoable by (auto simp: sample_plan_def upt_rec)
  have "snd (snd (snd ?run)) = 2" by code_simp
  with revert_restores [OF run ids undo] show ?thesis by (auto simp: Let_def)
qed

end
