(* ===== verification/Ncfg_Json_Read_Props.thy ===== *)
theory Ncfg_Json_Read_Props
  imports Ncfg_Json_Read
begin

text \<open>
  The reader is safe on any input: as a state machine whose states are the turns of its loop, it
  never writes past the copy of the input, never opens more containers than its stack holds, and
  every index and every piece of text in a document it answers is inside the document.
\<close>

inductive reads :: "bytes \<Rightarrow> read_mode \<Rightarrow> json_reader \<Rightarrow> bool" for inp where
  start: "jr_at (skip_space inp start_reader) < length inp \<Longrightarrow> reads inp Read_Value (skip_space inp start_reader)"
| turn: "reads inp m r \<Longrightarrow> read_turn inp m r = Next m' r' \<Longrightarrow> reads inp m' r'"

definition piece_ok :: "nat \<Rightarrow> nat \<times> nat \<Rightarrow> bool" where
  "piece_ok n v \<longleftrightarrow> fst v + snd v \<le> n"

definition node_ok :: "nat \<Rightarrow> nat \<Rightarrow> nat \<Rightarrow> json_node \<Rightarrow> bool" where
  "node_ok len count i n \<longleftrightarrow>
     (\<forall>c. jn_first_child n = Some c \<longrightarrow> i < c \<and> c < count) \<and>
     (\<forall>c. jn_next_sibling n = Some c \<longrightarrow> i < c \<and> c < count) \<and>
     (\<forall>k. jn_key n = Some k \<longrightarrow> piece_ok len k) \<and> piece_ok len (jn_value n)"

definition nodes_ok :: "nat \<Rightarrow> json_node list \<Rightarrow> bool" where
  "nodes_ok len ns \<longleftrightarrow> (\<forall>i < length ns. node_ok len (length ns) i (ns ! i))"

definition reader_inv :: "bytes \<Rightarrow> json_reader \<Rightarrow> bool" where
  "reader_inv inp r \<longleftrightarrow> length (jr_out r) \<le> jr_at r \<and> jr_at r \<le> length inp \<and>
     length (jr_stack r) \<le> NCFG_JSON_MAX_DEPTH \<and> nodes_ok (length (jr_out r)) (jr_nodes r) \<and>
     (\<forall>f \<in> set (jr_stack r). sf_node f < length (jr_nodes r) \<and>
        (\<forall>c. sf_last_child f = Some c \<longrightarrow> c < length (jr_nodes r))) \<and>
     (\<forall>k. jr_pending r = Some k \<longrightarrow> piece_ok (length (jr_out r)) k)"

lemma u32_le: "u32 n \<le> n"
  by (simp add: u32_def)

lemma piece_ok_mono: "piece_ok n v \<Longrightarrow> n \<le> m \<Longrightarrow> piece_ok m v"
  by (simp add: piece_ok_def)

lemma node_ok_mono: "node_ok len count i n \<Longrightarrow> len \<le> len' \<Longrightarrow> count \<le> count' \<Longrightarrow> node_ok len' count' i n"
  by (force simp: node_ok_def piece_ok_def)

lemma nodes_ok_mono: "nodes_ok len ns \<Longrightarrow> len \<le> len' \<Longrightarrow> nodes_ok len' ns"
  by (auto simp: nodes_ok_def intro: node_ok_mono)

lemma nodes_ok_set:
  "nodes_ok len ns \<Longrightarrow> (i < length ns \<Longrightarrow> node_ok len (length ns) i (f (ns ! i))) \<Longrightarrow> nodes_ok len (ns[i := f (ns ! i)])"
  by (cases "i < length ns") (auto simp: nodes_ok_def nth_list_update)

lemma nodes_ok_snoc:
  "nodes_ok len ns \<Longrightarrow> node_ok len (Suc (length ns)) (length ns) n \<Longrightarrow> nodes_ok len (ns @ [n])"
  by (auto simp: nodes_ok_def nth_append less_Suc_eq intro: node_ok_mono)

subsection \<open>One turn keeps the invariant\<close>

lemma parse_string_pieces:
  assumes "parse_string inp r = Inr (v, r')"
  shows "piece_ok (length (jr_out r')) v \<and> jr_nodes r' = jr_nodes r \<and> jr_pending r' = jr_pending r"
proof -
  from assms obtain at out where loop: "parse_string_loop inp (jr_at r) (jr_out r) = Inr (at, out)"
    and v: "v = (u32 (length (jr_out r)), u32 (length out - length (jr_out r)))" "r' = r\<lparr>jr_at := at, jr_out := out\<rparr>"
    by (auto simp: parse_string_def split: sum.splits)
  from parse_string_loop_at [OF loop] have "length (jr_out r) \<le> length out" by auto
  with u32_le [of "length (jr_out r)"] u32_le [of "length out - length (jr_out r)"] v show ?thesis
    by (simp add: piece_ok_def)
qed

lemma parse_number_pieces:
  assumes "parse_number inp r = Inr (v, r')"
  shows "piece_ok (length (jr_out r')) v \<and> jr_nodes r' = jr_nodes r \<and> jr_pending r' = jr_pending r"
proof -
  from parse_number_at [OF assms] have "length (jr_out r') = length (jr_out r) + (jr_at r' - jr_at r)"
    by (simp add: length_slice)
  moreover from assms have "v = (u32 (length (jr_out r)), u32 (jr_at r' - jr_at r))" "jr_nodes r' = jr_nodes r"
    "jr_pending r' = jr_pending r" by (auto simp: parse_number_def split: sum.splits)
  ultimately show ?thesis
    using u32_le [of "length (jr_out r)"] u32_le [of "jr_at r' - jr_at r"] by (simp add: piece_ok_def)
qed

text \<open>Reading one value adds one node, unattached.\<close>

definition fresh_node :: "json_node \<Rightarrow> bool" where
  "fresh_node n \<longleftrightarrow> jn_key n = None \<and> jn_first_child n = None \<and> jn_next_sibling n = None \<and> jn_child_count n = 0"

lemma literal_fields: "literal inp w r = Some r' \<Longrightarrow> jr_nodes r' = jr_nodes r \<and> jr_pending r' = jr_pending r"
  by (auto simp: literal_def split: if_splits)

lemma read_one_node:
  assumes "read_one inp c r = Inr (i, r')"
  shows "i = length (jr_nodes r) \<and> jr_pending r' = jr_pending r \<and>
    (\<exists>n. jr_nodes r' = jr_nodes r @ [n] \<and> fresh_node n \<and> piece_ok (length (jr_out r')) (jn_value n))"
  using assms
  by (auto simp: read_one_def with_value_def jr_fail_def fresh_node_def set_node_def list_update_append piece_ok_def
      split: if_splits sum.splits prod.splits option.splits
      dest!: new_node_fields parse_string_pieces parse_number_pieces literal_fields)

lemma nodes_take_pending:
  "jr_nodes (take_pending i r) = (case jr_pending r of
     None \<Rightarrow> jr_nodes r | Some k \<Rightarrow> (jr_nodes r)[i := (jr_nodes r ! i)\<lparr>jn_key := Some k\<rparr>])"
  by (simp add: take_pending_def set_node_def split: option.split)

lemma pending_take_pending [simp]: "jr_pending (take_pending i r) = None"
  by (simp add: take_pending_def split: option.split)

lemma set_node_ok:
  assumes "nodes_ok len (jr_nodes r)"
    "\<And>n. i < length (jr_nodes r) \<Longrightarrow> node_ok len (length (jr_nodes r)) i n \<Longrightarrow> node_ok len (length (jr_nodes r)) i (f n)"
  shows "nodes_ok len (jr_nodes (set_node i f r))"
proof -
  have "nodes_ok len ((jr_nodes r)[i := f (jr_nodes r ! i)])"
    using assms by (intro nodes_ok_set) (auto simp: nodes_ok_def)
  then show ?thesis by (simp add: set_node_def)
qed

definition stack_below :: "nat \<Rightarrow> stack_frame list \<Rightarrow> bool" where
  "stack_below i fs \<longleftrightarrow> (\<forall>f \<in> set fs. sf_node f < i \<and> (\<forall>c. sf_last_child f = Some c \<longrightarrow> c < i))"

lemma attach_ok:
  assumes "nodes_ok len (jr_nodes r)" "i < length (jr_nodes r)" "stack_below i (jr_stack r)"
  shows "nodes_ok len (jr_nodes (attach i r)) \<and> length (jr_nodes (attach i r)) = length (jr_nodes r) \<and>
    stack_below (Suc i) (jr_stack (attach i r)) \<and> length (jr_stack (attach i r)) = length (jr_stack r) \<and>
    jr_pending (attach i r) = jr_pending r"
proof (cases "jr_stack r")
  case Nil
  then show ?thesis using assms by (simp add: attach_def stack_below_def)
next
  case (Cons f rest)
  let ?r1 = "case sf_last_child f of
      None \<Rightarrow> set_node (sf_node f) (\<lambda>n. n\<lparr>jn_first_child := Some i\<rparr>) r
    | Some c \<Rightarrow> set_node c (\<lambda>n. n\<lparr>jn_next_sibling := Some i\<rparr>) r"
  have len: "length (jr_nodes ?r1) = length (jr_nodes r)" by (simp split: option.split)
  have one: "nodes_ok len (jr_nodes ?r1)"
    using assms Cons by (auto simp: stack_below_def node_ok_def split: option.split intro!: set_node_ok)
  have two: "nodes_ok len (jr_nodes (set_node (sf_node f) (\<lambda>n. n\<lparr>jn_child_count := jn_child_count n + 1\<rparr>) q))"
    if "jr_nodes q = jr_nodes ?r1" for q
    using one that by (intro set_node_ok) (auto simp: node_ok_def)
  have "jr_pending ?r1 = jr_pending r" by (simp split: option.split)
  with two [of "?r1\<lparr>jr_stack := f\<lparr>sf_last_child := Some i\<rparr> # rest\<rparr>"] len Cons assms(3) show ?thesis
    by (auto simp: attach_def Let_def stack_below_def)
qed

lemma value_attached:
  assumes inv: "reader_inv inp r" and at: "jr_at r < length inp" and one: "read_one inp c r = Inr (i, r1)"
  defines "r2 \<equiv> attach i (take_pending i r1)"
  shows "reader_inv inp r2 \<and> i < length (jr_nodes r2) \<and> length (jr_stack r2) = length (jr_stack r) \<and>
    stack_below (Suc i) (jr_stack r2) \<and> Suc i = length (jr_nodes r2)"
proof -
  note a = read_one_at [OF one at]
  from read_one_node [OF one] obtain n where i: "i = length (jr_nodes r)" and n: "jr_nodes r1 = jr_nodes r @ [n]"
    "fresh_node n" "piece_ok (length (jr_out r1)) (jn_value n)" and p: "jr_pending r1 = jr_pending r" by blast
  let ?len = "length (jr_out r1)"
  have ok0: "nodes_ok ?len (jr_nodes r)" using inv a by (auto simp: reader_inv_def intro: nodes_ok_mono)
  have nok: "node_ok ?len (Suc i) i n" using n by (simp add: node_ok_def fresh_node_def)
  from ok0 nok have ok1: "nodes_ok ?len (jr_nodes r1)" unfolding n(1) i by (intro nodes_ok_snoc)
  have len1: "length (jr_nodes (take_pending i r1)) = Suc i" by (simp add: nodes_take_pending n i split: option.split)
  have ok2: "nodes_ok ?len (jr_nodes (take_pending i r1))"
  proof (cases "jr_pending r1")
    case None
    with ok1 show ?thesis by (simp add: nodes_take_pending)
  next
    case (Some k)
    have "piece_ok (length (jr_out r)) k" using inv p Some by (simp add: reader_inv_def del: split_paired_All)
    then have "piece_ok ?len k" by (rule piece_ok_mono) (use a in simp)
    with nok have "node_ok ?len (Suc i) i (n\<lparr>jn_key := Some k\<rparr>)" by (simp add: node_ok_def)
    then have "nodes_ok ?len (jr_nodes r @ [n\<lparr>jn_key := Some k\<rparr>])" unfolding i by (rule nodes_ok_snoc [OF ok0])
    with Some show ?thesis by (simp add: nodes_take_pending n(1) i)
  qed
  have below: "stack_below i (jr_stack (take_pending i r1))"
    using inv a i by (auto simp: reader_inv_def stack_below_def)
  have att: "nodes_ok ?len (jr_nodes r2) \<and> length (jr_nodes r2) = Suc i \<and> stack_below (Suc i) (jr_stack r2) \<and>
      length (jr_stack r2) = length (jr_stack r) \<and> jr_pending r2 = None"
    unfolding r2_def using attach_ok [OF ok2 _ below] len1 a by simp
  moreover have "jr_at r2 = jr_at r1" "jr_out r2 = jr_out r1" by (simp_all add: r2_def)
  moreover have "length (jr_out r1) \<le> jr_at r1"
  proof -
    have "length (jr_out r) \<le> jr_at r" using inv by (simp add: reader_inv_def)
    with a show ?thesis by linarith
  qed
  ultimately show ?thesis using inv a by (auto simp: reader_inv_def stack_below_def)
qed

lemma inv_skip_space: "reader_inv inp r \<Longrightarrow> reader_inv inp (skip_space inp r)"
  using skip_while_le [of "jr_at r" json_space inp] by (simp add: reader_inv_def skip_space_def)

lemma inv_push:
  assumes "reader_inv inp r" "i < length (jr_nodes r)" "length (jr_stack r) < NCFG_JSON_MAX_DEPTH"
  shows "reader_inv inp (r\<lparr>jr_stack := \<lparr>sf_node = i, sf_last_child = None, sf_is_object = ob\<rparr> # jr_stack r\<rparr>)"
  using assms by (auto simp: reader_inv_def)

lemma read_one_depth:
  "read_one inp c r = Inr (i, r1) \<Longrightarrow> c = 123 \<or> c = 91 \<Longrightarrow> length (jr_stack r) < NCFG_JSON_MAX_DEPTH"
  by (auto simp: read_one_def jr_fail_def split: if_splits)

lemma inv_advance: "reader_inv inp r \<Longrightarrow> jr_at r < length inp \<Longrightarrow> reader_inv inp (r\<lparr>jr_at := Suc (jr_at r)\<rparr>)"
  and inv_pop: "reader_inv inp r \<Longrightarrow> jr_stack r = f # rest \<Longrightarrow> reader_inv inp (r\<lparr>jr_stack := rest\<rparr>)"
  by (auto simp: reader_inv_def)

lemma read_turn_inv:
  assumes inv: "reader_inv inp r" and turn: "read_turn inp m r = Next m' r'"
  shows "reader_inv inp r'"
proof (cases m)
  case Read_Value
  let ?r = "skip_space inp r"
  from turn Read_Value obtain i r1 where one: "jr_at ?r < length inp" "read_one inp (inp ! jr_at ?r) ?r = Inr (i, r1)"
    by (auto simp: value_turn_def Let_def split: if_splits sum.splits)
  let ?c = "inp ! jr_at ?r" and ?r2 = "attach i (take_pending i r1)"
  note va = value_attached [OF inv_skip_space [OF inv] one]
  show ?thesis
  proof (cases "?c = 123 \<or> ?c = 91")
    case False
    with turn Read_Value one va show ?thesis by (auto simp: value_turn_def Let_def)
  next
    case True
    let ?r3 = "skip_space inp (?r2\<lparr>jr_stack := \<lparr>sf_node = i, sf_last_child = None, sf_is_object = (?c = 123)\<rparr> # jr_stack ?r2\<rparr>)"
    have "length (jr_stack ?r2) < NCFG_JSON_MAX_DEPTH" using read_one_depth [OF one(2) True] va by simp
    with va have r3: "reader_inv inp ?r3" by (auto intro!: inv_skip_space inv_push)
    have "reader_inv inp (?r3\<lparr>jr_at := Suc (jr_at ?r3), jr_stack := jr_stack ?r2\<rparr>)" if "jr_at ?r3 < length inp"
      using inv_pop [OF inv_advance [OF r3 that]] by simp
    with r3 turn Read_Value one True show ?thesis
      by (auto simp: value_turn_def Let_def split: if_splits)
  qed
next
  case Value_Read
  let ?r = "skip_space inp r"
  note sk = inv_skip_space [OF inv]
  from turn Value_Read obtain f rest where f: "jr_stack ?r = f # rest" "jr_at ?r < length inp"
    "r' = ?r\<lparr>jr_at := Suc (jr_at ?r)\<rparr> \<or> r' = ?r\<lparr>jr_at := Suc (jr_at ?r), jr_stack := rest\<rparr>"
    by (auto simp: close_turn_def Let_def split: list.splits if_splits)
  with inv_advance [OF sk f(2)] inv_pop [OF inv_advance [OF sk f(2)], of f rest] show ?thesis by auto
next
  case Expect_Key
  let ?r = "skip_space inp r"
  from turn Expect_Key obtain k r1 where one: "parse_string inp (?r\<lparr>jr_at := Suc (jr_at ?r)\<rparr>) = Inr (k, r1)"
    and at: "jr_at ?r < length inp" "jr_at (skip_space inp r1) < length inp"
    and r': "r' = (skip_space inp r1)\<lparr>jr_at := Suc (jr_at (skip_space inp r1)), jr_pending := Some k\<rparr>"
    by (auto simp: key_turn_def Let_def split: if_splits sum.splits)
  note pa = parse_string_at [OF one] parse_string_pieces [OF one]
  have "nodes_ok (length (jr_out r1)) (jr_nodes r1)"
    using inv pa by (auto simp: reader_inv_def intro: nodes_ok_mono)
  with inv pa at skip_space_at [of r inp] skip_space_at [of r1 inp] show ?thesis
    unfolding r' by (auto simp: reader_inv_def)
qed

lemma reads_inv: "reads inp m r \<Longrightarrow> reader_inv inp r"
proof (induction rule: reads.induct)
  case start
  then have "reader_inv inp start_reader" by (simp add: reader_inv_def start_reader_def nodes_ok_def)
  then show ?case by (rule inv_skip_space)
next
  case (turn m r m' r')
  then show ?case by (blast intro: read_turn_inv)
qed

lemma json_read_loop_ends:
  assumes "json_read_loop inp m r = Inr doc" "reads inp m r"
  shows "\<exists>r'. reads inp Value_Read r' \<and> jd_text doc = jr_out r' \<and> jd_nodes doc = jr_nodes r'"
  using assms
proof (induction inp m r rule: json_read_loop.induct)
  case (1 inp m r)
  show ?case
  proof (cases "read_turn inp m r")
    case (Refused e)
    with 1(2) show ?thesis by (simp add: json_read_loop.simps [of inp m r])
  next
    case (Document d)
    then have "m = Value_Read" "jd_text d = jr_out r" "jd_nodes d = jr_nodes r"
      by (cases m; auto simp: value_turn_def close_turn_def key_turn_def Let_def
          split: if_splits sum.splits list.splits)+
    moreover have "doc = d" using 1(2) by (simp add: json_read_loop.simps [of inp m r] Document)
    ultimately show ?thesis using 1(3) by blast
  next
    case (Next m' r')
    with 1(2) have "json_read_loop inp m' r' = Inr doc" by (simp add: json_read_loop.simps [of inp m r])
    with 1(1) [OF Next this] 1(3) Next show ?thesis by (blast intro: reads.turn)
  qed
qed

lemma ncfg_json_parse_ends:
  assumes "ncfg_json_parse inp = Inr doc"
  shows "\<exists>r. reads inp Value_Read r \<and> jd_text doc = jr_out r \<and> jd_nodes doc = jr_nodes r"
  using assms json_read_loop_ends [of inp Read_Value "skip_space inp start_reader" doc] reads.start [of inp]
  by (auto simp: ncfg_json_parse_def Let_def split: if_splits)

text \<open>
  The reader stays inside its buffers, on any bytes.  At every turn of its loop the text it has
  written is no longer than what it has read, so the write head never passes the end of the copy
  allocated for the input; the cursor is inside the input; and the open containers fit the stack of
  \<open>NCFG_JSON_MAX_DEPTH\<close> frames, each naming nodes that exist.
\<close>

theorem json_reader_in_bounds:
  assumes "reads inp m r"
  shows "length (jr_out r) \<le> jr_at r \<and> jr_at r \<le> length inp \<and> length (jr_stack r) \<le> NCFG_JSON_MAX_DEPTH \<and>
    (\<forall>f \<in> set (jr_stack r). sf_node f < length (jr_nodes r) \<and>
       (\<forall>c. sf_last_child f = Some c \<longrightarrow> c < length (jr_nodes r)))"
  using reads_inv [OF assms] by (simp add: reader_inv_def)

theorem json_reader_in_bounds_witness:
  "\<exists>r. reads (ascii ''[[1'') Read_Value r \<and> length (jr_stack r) = 1 \<and> jr_at r = 1 \<and> length (jr_out r) \<le> jr_at r"
proof -
  let ?inp = "ascii ''[[1''"
  have s: "reads ?inp Read_Value (skip_space ?inp start_reader)" by (rule reads.start) code_simp
  obtain r where t: "read_turn ?inp Read_Value (skip_space ?inp start_reader) = Next Read_Value r"
    "length (jr_stack r) = 1" "jr_at r = 1"
  proof -
    have "case read_turn ?inp Read_Value (skip_space ?inp start_reader) of
        Next m r \<Rightarrow> m = Read_Value \<and> length (jr_stack r) = 1 \<and> jr_at r = 1 | _ \<Rightarrow> False" by code_simp
    with that show thesis by (auto simp del: ascii_simps split: turn.splits)
  qed
  then have "reads ?inp Read_Value r" using s by (blast intro: reads.turn)
  with t(2,3) json_reader_in_bounds [OF this] show ?thesis by blast
qed

text \<open>
  A document is sound.  In whatever document the reader answers, every link from a node leads to
  a later node of the array -- so following children and siblings ends -- and every key and value is
  a piece of the document's text; the text is no longer than the input.
\<close>

theorem json_document_sound:
  assumes "ncfg_json_parse inp = Inr doc"
  shows "length (jd_text doc) \<le> length inp \<and>
    (\<forall>i < length (jd_nodes doc). node_ok (length (jd_text doc)) (length (jd_nodes doc)) i (jd_nodes doc ! i))"
proof -
  from ncfg_json_parse_ends [OF assms] obtain r where r: "reads inp Value_Read r" "jd_text doc = jr_out r" "jd_nodes doc = jr_nodes r"
    by blast
  from reads_inv [OF r(1)] r(2,3) show ?thesis by (simp add: reader_inv_def nodes_ok_def)
qed

theorem json_document_sound_witness:
  "\<exists>doc. ncfg_json_parse (ascii ''[1,2]'') = Inr doc \<and> length (jd_nodes doc) = 3 \<and>
     (\<forall>i < 3. node_ok (length (jd_text doc)) 3 i (jd_nodes doc ! i))"
proof -
  let ?inp = "ascii ''[1,2]''"
  have "case ncfg_json_parse ?inp of Inr doc \<Rightarrow> length (jd_nodes doc) = 3 | Inl _ \<Rightarrow> False" by code_simp
  then obtain doc where d: "ncfg_json_parse ?inp = Inr doc" "length (jd_nodes doc) = 3"
    by (auto simp del: ascii_simps split: sum.splits)
  from json_document_sound [OF d(1)] d show ?thesis by (intro exI [of _ doc]) simp
qed

end
