(* ===== verification/Ncfg_Json_Tree.thy ===== *)
theory Ncfg_Json_Tree
  imports Ncfg_Json
begin

text \<open>
  JSON values as trees, their compact text, and an abstract builder of them: what the calls of the
  writer mean.  The builder keeps the containers that are open, each with what is already in it;
  a call it answers \<open>None\<close> to is a misuse.
\<close>

datatype json =
    JNull
  | JBool bool
  | JNumber bytes
  | JString bytes
  | JArray "json list"
  | JObject "(bytes \<times> json) list"

subsection \<open>Text\<close>

fun commas :: "bytes list \<Rightarrow> bytes" where
  "commas [] = []"
| "commas [x] = x"
| "commas (x # y # xs) = x @ [44] @ commas (y # xs)"

definition json_escape :: "byte \<Rightarrow> bytes" where
  "json_escape c =
     (case shortform c of
        Some form \<Rightarrow> form
      | None \<Rightarrow>
          if c < 0x20 then
            [ch CHR 0x5C, ch CHR ''u'', ch CHR ''0'', ch CHR ''0'',
             hex_digits ! unat (drop_bit 4 c), hex_digits ! unat (c AND 0x0f)]
          else [c])"

definition json_quoted :: "bytes \<Rightarrow> bytes" where
  "json_quoted s = [34] @ concat (map json_escape s) @ [34]"

fun json_text :: "json \<Rightarrow> bytes" where
  "json_text JNull = ascii ''null''"
| "json_text (JBool b) = (if b then ascii ''true'' else ascii ''false'')"
| "json_text (JNumber t) = t"
| "json_text (JString s) = json_quoted s"
| "json_text (JArray js) = [91] @ commas (map json_text js) @ [93]"
| "json_text (JObject ms) = [123] @ commas (map (\<lambda>m. json_quoted (fst m) @ [58] @ json_text (snd m)) ms) @ [125]"

definition member_text :: "bytes \<times> json \<Rightarrow> bytes" where
  "member_text m = json_quoted (fst m) @ [58] @ json_text (snd m)"

lemma json_text_JObject: "json_text (JObject ms) = [123] @ commas (map member_text ms) @ [125]"
  by (simp add: member_text_def [abs_def])

definition separator :: "'a list \<Rightarrow> bytes" where
  "separator xs = (if xs = [] then [] else [44])"

lemma commas_snoc: "commas (xs @ [x]) = commas xs @ separator xs @ x"
  by (induction xs rule: commas.induct) (simp_all add: separator_def)

subsection \<open>Strings the writer accepts\<close>

function json_utf8 :: "bytes \<Rightarrow> bool" where
  "json_utf8 [] = True"
| "json_utf8 (c # cs) =
     (let n = utf8_step (c # cs) in if n = 0 then False else json_utf8 (drop n (c # cs)))"
  by pat_completeness auto
termination
  by (relation "measure length") auto

declare json_utf8.simps(2) [simp del]

lemma utf8_step_ascii: "c < 0x80 \<Longrightarrow> utf8_step (c # cs) = 1"
  by (simp add: utf8_step_def)

lemma continuation_high: "continuation cp bs \<noteq> None \<Longrightarrow> b \<in> set bs \<Longrightarrow> 0x80 \<le> b"
proof (induction cp bs rule: continuation.induct)
  case (2 cp c cs)
  have "0x80 \<le> c" if "c AND 0xc0 = 0x80"
  proof -
    have "c AND 0xc0 \<le> c" by (simp add: word_and_le1 word_and_le2)
    with that show ?thesis by simp
  qed
  with 2 show ?case by (auto split: if_splits)
qed simp

lemma utf8_step_high:
  assumes "utf8_step (c # cs) \<noteq> 0" "0x80 \<le> c" "b \<in> set (take (utf8_step (c # cs)) (c # cs))"
  shows "0x80 \<le> b"
proof -
  from assms(2) have "\<not> c < 0x80" by (simp add: not_less)
  with assms(1) obtain n cp where n: "utf8_step (c # cs) = n" "continuation cp (slice 1 n (c # cs)) \<noteq> None" "n \<noteq> 0"
    by (auto simp: utf8_step_def Let_def split: if_splits option.splits)
  from n(3) have "take n (c # cs) = c # slice 1 n (c # cs)" by (cases n) (simp_all add: slice_def)
  with assms n(1) have "b = c \<or> b \<in> set (slice 1 n (c # cs))" by auto
  with assms(2) continuation_high [OF n(2)] show ?thesis by auto
qed

lemma json_escape_plain: "0x80 \<le> b \<Longrightarrow> json_escape b = [b]"
proof -
  assume b: "0x80 \<le> b"
  then have "\<not> b < 0x20" "shortform b = None"
    by (auto simp: shortform_def word_le_nat_alt word_less_nat_alt)
  then show ?thesis by (simp add: json_escape_def)
qed

lemma json_escape_step:
  assumes "utf8_step (c # cs) \<noteq> 0" "shortform c = None" "\<not> c < 0x20"
  shows "concat (map json_escape (take (utf8_step (c # cs)) (c # cs))) = take (utf8_step (c # cs)) (c # cs)"
proof (cases "c < 0x80")
  case True
  with assms show ?thesis by (simp add: utf8_step_ascii json_escape_def)
next
  case False
  have "concat (map json_escape xs) = xs" if "\<And>b. b \<in> set xs \<Longrightarrow> 0x80 \<le> b" for xs
    using that by (induction xs) (simp_all add: json_escape_plain)
  with utf8_step_high [OF assms(1)] False show ?thesis by (simp add: not_less)
qed

subsection \<open>The builder\<close>

datatype building =
    Open_Array "json list"
  | Open_Object "(bytes \<times> json) list" "bytes option"

text \<open>The open containers, innermost first, and the document once it is whole.\<close>

type_synonym builder = "building list \<times> json option"

fun put_value :: "json \<Rightarrow> builder \<Rightarrow> builder option" where
  "put_value j ([], None) = Some ([], Some j)"
| "put_value j ([], Some _) = None"
| "put_value j (Open_Array js # os, d) = Some (Open_Array (js @ [j]) # os, d)"
| "put_value j (Open_Object ms (Some k) # os, d) = Some (Open_Object (ms @ [(k, j)]) None # os, d)"
| "put_value j (Open_Object ms None # os, d) = None"

definition may_put :: "builder \<Rightarrow> bool" where
  "may_put b \<longleftrightarrow> put_value JNull b \<noteq> None"

datatype json_call =
    W_Object_Begin
  | W_Object_End
  | W_Array_Begin
  | W_Array_End
  | W_Key "bytes option"
  | W_String "bytes option"
  | W_String_Bytes "bytes option"
  | W_Int "64 word"
  | W_Uint "64 word"
  | W_Bool bool
  | W_Null

fun build :: "json_call \<Rightarrow> builder \<Rightarrow> builder option" where
  "build W_Object_Begin b =
     (if may_put b \<and> length (fst b) < NCFG_JSON_MAX_DEPTH then Some (Open_Object [] None # fst b, snd b) else None)"
| "build W_Array_Begin b =
     (if may_put b \<and> length (fst b) < NCFG_JSON_MAX_DEPTH then Some (Open_Array [] # fst b, snd b) else None)"
| "build W_Object_End (Open_Object ms None # os, d) = put_value (JObject ms) (os, d)"
| "build W_Object_End b = None"
| "build W_Array_End (Open_Array js # os, d) = put_value (JArray js) (os, d)"
| "build W_Array_End b = None"
| "build (W_Key (Some k)) (Open_Object ms None # os, d) =
     (if json_utf8 (cstr k) then Some (Open_Object ms (Some (cstr k)) # os, d) else None)"
| "build (W_Key _) b = None"
| "build (W_String_Bytes (Some s)) b = (if json_utf8 s then put_value (JString s) b else None)"
| "build (W_String_Bytes None) b = None"
| "build (W_String (Some s)) b = (if json_utf8 (cstr s) then put_value (JString (cstr s)) b else None)"
| "build (W_String None) b = None"
| "build (W_Int i) b = put_value (JNumber (decimal_int (sint i))) b"
| "build (W_Uint i) b = put_value (JNumber (decimal (unat i))) b"
| "build (W_Bool v) b = put_value (JBool v) b"
| "build W_Null b = put_value JNull b"

fun write_call :: "json_writer \<Rightarrow> json_call \<Rightarrow> json_writer" where
  "write_call w W_Object_Begin = ncfg_json_write_object_begin w"
| "write_call w W_Object_End = ncfg_json_write_object_end w"
| "write_call w W_Array_Begin = ncfg_json_write_array_begin w"
| "write_call w W_Array_End = ncfg_json_write_array_end w"
| "write_call w (W_Key k) = ncfg_json_write_key w k"
| "write_call w (W_String s) = ncfg_json_write_string w s"
| "write_call w (W_String_Bytes s) = ncfg_json_write_string_bytes w s"
| "write_call w (W_Int i) = ncfg_json_write_int w i"
| "write_call w (W_Uint i) = ncfg_json_write_uint w i"
| "write_call w (W_Bool v) = ncfg_json_write_bool w v"
| "write_call w W_Null = ncfg_json_write_null w"

text \<open>What a container that is being built has put in the buffer, as the innermost one and below another.\<close>

fun inner_text :: "building \<Rightarrow> bytes" where
  "inner_text (Open_Array js) = [91] @ commas (map json_text js)"
| "inner_text (Open_Object ms None) = [123] @ commas (map member_text ms)"
| "inner_text (Open_Object ms (Some k)) =
     [123] @ commas (map member_text ms) @ separator ms @ json_quoted k @ [58]"

fun outer_text :: "building \<Rightarrow> bytes" where
  "outer_text (Open_Array js) = inner_text (Open_Array js) @ separator js"
| "outer_text (Open_Object ms k) = inner_text (Open_Object ms k)"

fun outers_text :: "building list \<Rightarrow> bytes" where
  "outers_text [] = []"
| "outers_text (ob # os) = outers_text os @ outer_text ob"

fun builder_text :: "builder \<Rightarrow> bytes" where
  "builder_text ([], None) = []"
| "builder_text ([], Some j) = json_text j"
| "builder_text (ob # os, d) = outers_text os @ inner_text ob"

text \<open>What the builder keeps: below another, an object waits for the value of a name.\<close>

definition awaiting :: "building \<Rightarrow> bool" where
  "awaiting ob = (case ob of Open_Object _ None \<Rightarrow> False | _ \<Rightarrow> True)"

definition builder_ok :: "builder \<Rightarrow> bool" where
  "builder_ok b \<longleftrightarrow> length (fst b) \<le> NCFG_JSON_MAX_DEPTH \<and> list_all awaiting (tl (fst b)) \<and>
     (fst b \<noteq> [] \<longrightarrow> snd b = None)"

text \<open>Putting a value appends its text behind the separator it owes.\<close>

definition owed :: "builder \<Rightarrow> bytes" where
  "owed b = (case fst b of Open_Array js # _ \<Rightarrow> separator js | _ \<Rightarrow> [])"

lemma put_value_text:
  assumes "put_value j b = Some b'"
  shows "builder_text b' = builder_text b @ owed b @ json_text j"
  using assms
  by (cases "(j, b)" rule: put_value.cases)
    (auto simp: owed_def commas_snoc member_text_def separator_def)

lemma outers_text_put: "may_put b \<Longrightarrow> snd b = None \<or> fst b = [] \<Longrightarrow> outers_text (fst b) = builder_text b @ owed b"
  by (cases "(JNull, b)" rule: put_value.cases) (auto simp: may_put_def owed_def)

end
