(* ===== verification/Ncfg_Json_Write_Props.thy ===== *)
theory Ncfg_Json_Write_Props
  imports Ncfg_Json_Tree
begin

text \<open>
  The writer refines the builder: for any sequence of calls, the writer has failed exactly when the
  sequence is a misuse or its text does not fit the buffer, and otherwise the buffer holds exactly
  the text of what has been built.
\<close>

subsection \<open>What a buffer holds\<close>

text \<open>A buffer that was given \<open>cs\<close> in all: it has it whole, or it has failed because it did not fit.\<close>

definition holds :: "nat \<Rightarrow> buf \<Rightarrow> bytes \<Rightarrow> bool" where
  "holds L buf cs \<longleftrightarrow> buf_inv buf \<and> blimit buf = L \<and>
     (if L < length cs then bfailed buf else \<not> bfailed buf \<and> buf_contents buf = cs)"

lemma holds_add: "holds L buf cs \<Longrightarrow> holds L (ncfg_buf_add granted buf xs) (cs @ xs)"
proof -
  assume h: "holds L buf cs"
  then have inv: "buf_inv buf" and lim: "blimit buf = L" by (simp_all add: holds_def)
  show ?thesis
  proof (cases "L < length cs")
    case True
    with h show ?thesis by (simp add: holds_def add_failed)
  next
    case False
    with h have room: "buf_room buf = L - length cs" "\<not> bfailed buf" "buf_contents buf = cs"
      by (auto simp: holds_def buf_room_def buf_inv_def)
    show ?thesis
    proof (cases "length xs \<le> buf_room buf")
      case True
      with add_ok [OF inv room(2) True] room False show ?thesis
        by (simp add: holds_def buf_inv_add inv blimit_add lim)
    next
      case over: False
      with add_over [OF inv, of xs granted] room False show ?thesis
        by (simp add: holds_def buf_inv_add inv blimit_add lim)
    qed
  qed
qed

lemma holds_jw_add: "holds L (jw_buf w) cs \<Longrightarrow> holds L (jw_buf (jw_add xs w)) (cs @ xs)"
  by (simp add: jw_add_def holds_add)

lemma jw_add_fields [simp]:
  "jw_failure (jw_add xs w) = jw_failure w" "jw_depth (jw_add xs w) = jw_depth w"
  "jw_frames (jw_add xs w) = jw_frames w"
  by (simp_all add: jw_add_def)

lemma writer_fail_fields [simp]:
  "jw_failure (writer_fail w m) \<noteq> None" "bfailed (jw_buf (writer_fail w m))"
  by (simp_all add: writer_fail_def split: option.split)

lemma jw_set_frame_fields [simp]:
  "jw_failure (jw_set_frame f w) = jw_failure w" "jw_depth (jw_set_frame f w) = jw_depth w"
  "jw_frames (jw_set_frame f w) = (jw_frames w)[jw_depth w := f]" "jw_buf (jw_set_frame f w) = jw_buf w"
  by (simp_all add: jw_set_frame_def)

lemma write_quoted_loop_holds:
  assumes "holds L (jw_buf w) cs"
  shows "if json_utf8 s
    then holds L (jw_buf (write_quoted_loop w s)) (cs @ concat (map json_escape s) @ [34]) \<and>
      jw_failure (write_quoted_loop w s) = jw_failure w \<and>
      jw_depth (write_quoted_loop w s) = jw_depth w \<and> jw_frames (write_quoted_loop w s) = jw_frames w
    else jw_failure (write_quoted_loop w s) \<noteq> None"
  using assms
proof (induction w s arbitrary: cs rule: write_quoted_loop.induct)
  case (1 w s)
  show ?case
  proof (cases s)
    case Nil
    with holds_jw_add [OF 1(4), of "[34]"] show ?thesis by (simp add: write_quoted_loop.simps)
  next
    case (Cons c cs')
    let ?n = "utf8_step (c # cs')"
    consider (short) f where "shortform c = Some f" | (control) "shortform c = None" "c < 0x20"
      | (bad) "shortform c = None" "\<not> c < 0x20" "?n = 0" | (seq) "shortform c = None" "\<not> c < 0x20" "?n \<noteq> 0"
      by (cases "shortform c") auto
    then show ?thesis
    proof cases
      case short
      then have c: "c < 0x80" by (auto simp: shortform_def split: if_splits)
      have run: "write_quoted_loop w s = write_quoted_loop (jw_add f w) (drop 1 s)"
        using short Cons by (subst write_quoted_loop.simps) simp
      have txts: "concat (map json_escape s) = f @ concat (map json_escape (drop 1 s))" "json_utf8 s = json_utf8 (drop 1 s)"
        using short Cons utf8_step_ascii [OF c] by (simp_all add: json_escape_def json_utf8.simps(2))
      have "s \<noteq> []" "c = s ! 0" using Cons by simp_all
      from 1(3) [OF this short holds_jw_add [OF 1(4)]] show ?thesis unfolding run txts by (simp split: if_splits)
    next
      case control
      then have c: "c < 0x80" by (auto simp: word_less_nat_alt)
      let ?e = "[ch CHR 0x5C, ch CHR ''u'', ch CHR ''0'', ch CHR ''0'',
             hex_digits ! unat (drop_bit 4 c), hex_digits ! unat (c AND 0x0f)]"
      have run: "write_quoted_loop w s = write_quoted_loop (jw_add ?e w) (drop 1 s)"
        using control Cons by (subst write_quoted_loop.simps) simp
      have txts: "concat (map json_escape s) = ?e @ concat (map json_escape (drop 1 s))" "json_utf8 s = json_utf8 (drop 1 s)"
        using control Cons utf8_step_ascii [OF c] by (simp_all add: json_escape_def json_utf8.simps(2))
      have "s \<noteq> []" "c = s ! 0" using Cons by simp_all
      from 1(1) [OF this control holds_jw_add [OF 1(4)]] show ?thesis unfolding run txts by (simp split: if_splits)
    next
      case bad
      have "write_quoted_loop w s = writer_fail w (ascii ''a string that is not UTF-8'')"
        using bad Cons by (subst write_quoted_loop.simps) (simp add: Let_def)
      with bad Cons show ?thesis by (simp add: json_utf8.simps(2))
    next
      case seq
      have run: "write_quoted_loop w s = write_quoted_loop (jw_add (take ?n s) w) (drop ?n s)"
        using seq Cons by (subst write_quoted_loop.simps) (simp add: Let_def)
      have txts: "concat (map json_escape s) = take ?n s @ concat (map json_escape (drop ?n s))"
        unfolding Cons
        using json_escape_step [OF seq(3,1,2)] by (metis append_take_drop_id concat_append map_append)
      have utf8: "json_utf8 s = json_utf8 (drop ?n s)" using seq Cons by (simp add: json_utf8.simps(2))
      have "s \<noteq> []" "c = s ! 0" "?n = utf8_step s" using Cons by simp_all
      from 1(2) [OF this(1,2) seq(1,2) this(3) seq(3) holds_jw_add [OF 1(4)]] show ?thesis
        unfolding run txts utf8 by (simp split: if_splits)
    qed
  qed
qed

lemma write_quoted_holds:
  assumes "holds L (jw_buf w) cs" "json_utf8 s"
  shows "holds L (jw_buf (write_quoted w s)) (cs @ json_quoted s)"
    "jw_failure (write_quoted w s) = jw_failure w" "jw_depth (write_quoted w s) = jw_depth w"
    "jw_frames (write_quoted w s) = jw_frames w"
  using write_quoted_loop_holds [OF holds_jw_add [OF assms(1), of "[34]"], of s] assms(2)
  by (simp_all add: write_quoted_def json_quoted_def)

lemma write_quoted_bad:
  assumes "holds L (jw_buf w) cs" "\<not> json_utf8 s"
  shows "jw_failure (write_quoted w s) \<noteq> None"
  using write_quoted_loop_holds [OF holds_jw_add [OF assms(1), of "[34]"], of s] assms(2)
  by (simp add: write_quoted_def)

subsection \<open>The refinement relation\<close>

fun inner_frame :: "building \<Rightarrow> json_frame" where
  "inner_frame (Open_Array js) = \<lparr>jf_is_object = False, jf_has_child = (js \<noteq> []), jf_wants_value = False\<rparr>"
| "inner_frame (Open_Object ms k) =
     \<lparr>jf_is_object = True, jf_has_child = (ms \<noteq> [] \<or> k \<noteq> None), jf_wants_value = (k \<noteq> None)\<rparr>"

fun outer_frame :: "building \<Rightarrow> json_frame" where
  "outer_frame (Open_Array js) = \<lparr>jf_is_object = False, jf_has_child = True, jf_wants_value = False\<rparr>"
| "outer_frame (Open_Object ms k) = \<lparr>jf_is_object = True, jf_has_child = True, jf_wants_value = False\<rparr>"

fun outer_frames :: "json_frame list \<Rightarrow> building list \<Rightarrow> bool" where
  "outer_frames fr [] \<longleftrightarrow> jf_has_child (fr ! 0)"
| "outer_frames fr (ob # os) \<longleftrightarrow> fr ! Suc (length os) = outer_frame ob \<and> outer_frames fr os"

fun frames_ok :: "json_frame list \<Rightarrow> builder \<Rightarrow> bool" where
  "frames_ok fr ([], d) \<longleftrightarrow> jf_has_child (fr ! 0) = (d \<noteq> None)"
| "frames_ok fr (ob # os, d) \<longleftrightarrow> fr ! Suc (length os) = inner_frame ob \<and> outer_frames fr os"

definition jw_rel :: "bytes \<Rightarrow> nat \<Rightarrow> json_writer \<Rightarrow> builder \<Rightarrow> bool" where
  "jw_rel pre L w b \<longleftrightarrow> jw_failure w = None \<and> holds L (jw_buf w) (pre @ builder_text b) \<and>
     builder_ok b \<and> jw_depth w = length (fst b) \<and>
     length (jw_frames w) = NCFG_JSON_MAX_DEPTH + 1 \<and> frames_ok (jw_frames w) b"

text \<open>The place of a value taken: the separator it owes written, every frame as below another.\<close>

definition jw_taken :: "bytes \<Rightarrow> nat \<Rightarrow> json_writer \<Rightarrow> builder \<Rightarrow> bool" where
  "jw_taken pre L w b \<longleftrightarrow> jw_failure w = None \<and> holds L (jw_buf w) (pre @ builder_text b @ owed b) \<and>
     builder_ok b \<and> may_put b \<and> jw_depth w = length (fst b) \<and>
     length (jw_frames w) = NCFG_JSON_MAX_DEPTH + 1 \<and> outer_frames (jw_frames w) (fst b)"

lemma outer_frames_update [simp]:
  "length os < n \<Longrightarrow> outer_frames (fr[n := f]) os \<longleftrightarrow> outer_frames fr os"
  by (induction os) auto

lemma builder_ok_simps [simp]:
  "builder_ok ([], d)"
  "builder_ok (ob # os, d) \<longleftrightarrow> Suc (length os) \<le> NCFG_JSON_MAX_DEPTH \<and> list_all awaiting os \<and> d = None"
  by (auto simp: builder_ok_def)

lemma usable_ok: "jw_failure w = None \<Longrightarrow> \<not> bfailed (jw_buf w) \<Longrightarrow> usable w = (True, w)"
  by (simp add: usable_def ncfg_buf_failed_def)

lemma begin_value_taken:
  assumes rel: "jw_rel pre L w b" and ok: "\<not> bfailed (jw_buf w)"
  shows "if may_put b then fst (begin_value w) \<and> jw_taken pre L (snd (begin_value w)) b
    else \<not> fst (begin_value w) \<and> jw_failure (snd (begin_value w)) \<noteq> None"
proof -
  have us: "usable w = (True, w)" using rel ok by (simp add: jw_rel_def usable_ok)
  show ?thesis
  proof (cases "(JNull, b)" rule: put_value.cases)
    case (3 j js os d)
    with rel show ?thesis
      using holds_jw_add [of L w "pre @ builder_text b" "[44]"]
      by (auto simp: begin_value_def us Let_def jw_rel_def jw_taken_def may_put_def owed_def separator_def
          NCFG_JSON_MAX_DEPTH_def)
  qed (use rel us in \<open>auto simp: begin_value_def Let_def jw_rel_def jw_taken_def may_put_def owed_def
      NCFG_JSON_MAX_DEPTH_def split: option.splits\<close>)
qed

text \<open>Putting a value in a taken place.\<close>

lemma frames_ok_put:
  assumes "put_value j b = Some b'" "outer_frames fr (fst b)"
  shows "frames_ok fr b' \<and> length (fst b') = length (fst b)"
  using assms by (cases "(j, b)" rule: put_value.cases) auto

lemma builder_ok_put: "put_value j b = Some b' \<Longrightarrow> builder_ok b \<Longrightarrow> builder_ok b'"
  by (cases "(j, b)" rule: put_value.cases) auto

lemma may_put_iff: "put_value j b = None \<longleftrightarrow> \<not> may_put b"
  by (cases "(j, b)" rule: put_value.cases) (auto simp: may_put_def)

lemma taken_put:
  assumes "jw_taken pre L w b" "put_value j b = Some b'"
    "holds L (jw_buf w') (pre @ builder_text b @ owed b @ json_text j)"
    "jw_failure w' = jw_failure w" "jw_depth w' = jw_depth w" "jw_frames w' = jw_frames w"
  shows "jw_rel pre L w' b'"
  using assms put_value_text [OF assms(2)] frames_ok_put [OF assms(2), of "jw_frames w"] builder_ok_put [OF assms(2)]
  by (simp add: jw_taken_def jw_rel_def)

lemma write_scalar_rel:
  assumes "jw_rel pre L w b" "\<not> bfailed (jw_buf w)"
  shows "case put_value j b of Some b' \<Rightarrow> jw_rel pre L (write_scalar w (json_text j)) b'
    | None \<Rightarrow> jw_failure (write_scalar w (json_text j)) \<noteq> None"
proof (cases "put_value j b")
  case None
  then have "\<not> may_put b" using may_put_iff [of j b] by simp
  with begin_value_taken [OF assms] obtain w1 where "begin_value w = (False, w1)" "jw_failure w1 \<noteq> None"
    by (cases "begin_value w") auto
  with None show ?thesis by (simp add: write_scalar_def)
next
  case (Some b')
  then have "may_put b" using may_put_iff [of j b] by simp
  with begin_value_taken [OF assms] obtain w1 where w1: "begin_value w = (True, w1)" "jw_taken pre L w1 b"
    by (cases "begin_value w") auto
  have "jw_rel pre L (jw_add (json_text j) w1) b'"
    using w1(2) holds_jw_add [of L w1 "pre @ builder_text b @ owed b" "json_text j"]
    by (intro taken_put [OF w1(2) Some]) (auto simp: jw_taken_def)
  with Some w1 show ?thesis by (simp add: write_scalar_def)
qed

lemma write_string_rel:
  assumes "jw_rel pre L w b" "\<not> bfailed (jw_buf w)"
  shows "case build (W_String_Bytes s) b of Some b' \<Rightarrow> jw_rel pre L (ncfg_json_write_string_bytes w s) b'
    | None \<Rightarrow> jw_failure (ncfg_json_write_string_bytes w s) \<noteq> None"
proof (cases s)
  case None
  from assms have "usable w = (True, w)" by (simp add: jw_rel_def usable_ok)
  with None show ?thesis by (simp add: ncfg_json_write_string_bytes_def)
next
  case (Some s')
  show ?thesis
  proof (cases "may_put b")
    case False
    with begin_value_taken [OF assms] Some may_put_iff [of "JString s'" b] show ?thesis
      by (auto simp: ncfg_json_write_string_bytes_def split: prod.splits bool.splits option.splits)
  next
    case True
    with begin_value_taken [OF assms] obtain w1 where w1: "begin_value w = (True, w1)" "jw_taken pre L w1 b"
      by (cases "begin_value w") auto
    then have h: "holds L (jw_buf w1) (pre @ builder_text b @ owed b)" by (simp add: jw_taken_def)
    obtain b' where b': "put_value (JString s') b = Some b'" using True may_put_iff [of "JString s'" b] by auto
    show ?thesis
    proof (cases "json_utf8 s'")
      case True
      have "jw_rel pre L (write_quoted w1 s') b'"
        using write_quoted_holds [OF h True] by (intro taken_put [OF w1(2) b']) auto
      with True Some b' w1 show ?thesis by (simp add: ncfg_json_write_string_bytes_def)
    next
      case False
      with write_quoted_bad [OF h False] Some w1 show ?thesis by (simp add: ncfg_json_write_string_bytes_def)
    qed
  qed
qed

lemma container_begin_rel:
  assumes "jw_rel pre L w b" "\<not> bfailed (jw_buf w)" "inner_text ob = [c]"
    "inner_frame ob = \<lparr>jf_is_object = obj, jf_has_child = False, jf_wants_value = False\<rparr>"
  shows "if may_put b \<and> length (fst b) < NCFG_JSON_MAX_DEPTH
    then jw_rel pre L (container_begin w c obj) (ob # fst b, snd b)
    else jw_failure (container_begin w c obj) \<noteq> None"
proof (cases "may_put b")
  case False
  with begin_value_taken [OF assms(1,2)] obtain w1 where "begin_value w = (False, w1)" "jw_failure w1 \<noteq> None"
    by (cases "begin_value w") auto
  with False show ?thesis by (simp add: container_begin_def)
next
  case True
  with begin_value_taken [OF assms(1,2)] obtain w1 where w1: "begin_value w = (True, w1)" "jw_taken pre L w1 b"
    by (cases "begin_value w") auto
  then have depth: "jw_depth w1 = length (fst b)" and len: "length (jw_frames w1) = Suc NCFG_JSON_MAX_DEPTH"
    and h: "holds L (jw_buf w1) (pre @ builder_text b @ owed b)" and fr: "outer_frames (jw_frames w1) (fst b)"
    and fail: "jw_failure w1 = None" and bok: "builder_ok b" by (simp_all add: jw_taken_def)
  show ?thesis
  proof (cases "length (fst b) < NCFG_JSON_MAX_DEPTH")
    case True
    have doc: "snd b = None \<and> list_all awaiting (fst b)"
      using bok \<open>may_put b\<close> by (cases "(JNull, b)" rule: put_value.cases) (auto simp: may_put_def awaiting_def)
    have "outers_text (fst b) = builder_text b @ owed b" using doc \<open>may_put b\<close> by (intro outers_text_put) auto
    then have "builder_text (ob # fst b, snd b) = builder_text b @ owed b @ [c]" using assms(3) by simp
    with holds_jw_add [OF h, of "[c]"] True w1(1) depth len fr fail doc assms(4) \<open>may_put b\<close> show ?thesis
      by (simp add: container_begin_def Let_def jw_rel_def jw_add_def)
  next
    case False
    with w1 depth show ?thesis by (simp add: container_begin_def)
  qed
qed

text \<open>A container is closed into the place its opening took.\<close>

lemma close_text:
  assumes "put_value j (os, None) = Some b'" "json_text j = inner_text ob @ [c]"
  shows "builder_text b' = builder_text (ob # os, None) @ [c]"
proof -
  from assms(1) have "may_put (os, None)" using may_put_iff [of j "(os, None)"] by auto
  then have "outers_text os = builder_text (os, None) @ owed (os, None)" using outers_text_put [of "(os, None)"] by simp
  with put_value_text [OF assms(1)] assms(2) show ?thesis by simp
qed

lemma awaiting_may_put: "list_all awaiting os \<Longrightarrow> may_put (os, None)"
  by (cases "(JNull, (os, None :: json option))" rule: put_value.cases) (auto simp: may_put_def awaiting_def)

lemma close_rel:
  assumes rel: "jw_rel pre L w (ob # os, d)" and ok: "\<not> bfailed (jw_buf w)" and j: "json_text j = inner_text ob @ [c]"
    and fr: "jf_is_object (inner_frame ob) = obj" "\<not> jf_wants_value (inner_frame ob)"
  shows "\<exists>b'. put_value j (os, d) = Some b' \<and> jw_rel pre L (container_end w c obj) b'"
proof -
  from rel have d: "d = None" "list_all awaiting os" "Suc (length os) \<le> NCFG_JSON_MAX_DEPTH"
    and depth: "jw_depth w = Suc (length os)" and top: "jw_frame w = inner_frame ob"
    and frs: "outer_frames (jw_frames w) os" "length (jw_frames w) = Suc NCFG_JSON_MAX_DEPTH"
    and h: "holds L (jw_buf w) (pre @ builder_text (ob # os, d))" and fail: "jw_failure w = None"
    by (auto simp: jw_rel_def)
  obtain b' where b': "put_value j (os, d) = Some b'"
    using awaiting_may_put [OF d(2)] may_put_iff [of j "(os, d)"] d(1) by auto
  have "container_end w c obj = (jw_add [c] w)\<lparr>jw_depth := length os\<rparr>"
    using fr depth top usable_ok [OF fail ok] by (simp add: container_end_def)
  moreover have "builder_text b' = builder_text (ob # os, d) @ [c]"
    using close_text [OF _ j, of os b'] b' d(1) by simp
  moreover have "frames_ok (jw_frames w) b' \<and> length (fst b') = length os"
    using frames_ok_put [OF b'] frs by simp
  moreover have "builder_ok (os, d)" using d by (cases os) auto
  then have "builder_ok b'" by (rule builder_ok_put [OF b'])
  ultimately have "jw_rel pre L (container_end w c obj) b'"
    using holds_jw_add [OF h, of "[c]"] frs(2) fail by (simp add: jw_rel_def jw_add_def)
  with b' show ?thesis by blast
qed

lemma container_end_fails:
  assumes "jw_rel pre L w b" "\<not> bfailed (jw_buf w)"
    "fst b = [] \<or> jf_is_object (inner_frame (hd (fst b))) \<noteq> obj \<or> jf_wants_value (inner_frame (hd (fst b)))"
  shows "jw_failure (container_end w c obj) \<noteq> None"
proof -
  from assms have us: "usable w = (True, w)" by (simp add: jw_rel_def usable_ok)
  show ?thesis
  proof (cases "fst b")
    case Nil
    with assms(1) us show ?thesis by (simp add: container_end_def jw_rel_def)
  next
    case (Cons ob os)
    with assms(1) have "jw_frame w = inner_frame ob" "jw_depth w \<noteq> 0"
      by (cases b; auto simp: jw_rel_def)+
    with Cons assms(3) us show ?thesis by (auto simp: container_end_def simp del: not_None_eq ascii_simps)
  qed
qed

lemma write_key_rel:
  assumes rel: "jw_rel pre L w b" and ok: "\<not> bfailed (jw_buf w)"
  shows "case build (W_Key k) b of Some b' \<Rightarrow> jw_rel pre L (ncfg_json_write_key w k) b'
    | None \<Rightarrow> jw_failure (ncfg_json_write_key w k) \<noteq> None"
proof -
  have us: "usable w = (True, w)" using rel ok by (simp add: jw_rel_def usable_ok)
  consider (obj) ms os where "b = (Open_Object ms None # os, None)" | (name) ms k os d where "b = (Open_Object ms (Some k) # os, d)"
    | (arr) js os d where "b = (Open_Array js # os, d)" | (top) d where "b = ([], d)"
    using rel by (cases b; cases "fst b"; cases "hd (fst b)") (auto simp: jw_rel_def)
  then show ?thesis
  proof cases
    case obj
    with rel have depth: "jw_depth w = Suc (length os)" and top: "jw_frame w = inner_frame (Open_Object ms None)"
      and len: "length (jw_frames w) = Suc NCFG_JSON_MAX_DEPTH" and frs: "outer_frames (jw_frames w) os"
      and h: "holds L (jw_buf w) (pre @ builder_text b)" and fail: "jw_failure w = None"
      and bok: "Suc (length os) \<le> NCFG_JSON_MAX_DEPTH" "list_all awaiting os"
      by (auto simp: jw_rel_def)
    show ?thesis
    proof (cases k)
      case None
      with us depth top obj show ?thesis by (simp add: ncfg_json_write_key_def del: not_None_eq)
    next
      case (Some name)
      let ?w1 = "if ms \<noteq> [] then jw_add [44] w else w"
      have h1: "holds L (jw_buf ?w1) (pre @ builder_text b @ separator ms)"
        using h holds_jw_add [OF h, of "[44]"] by (simp add: separator_def)
      have w1: "jw_failure ?w1 = None" "jw_depth ?w1 = Suc (length os)" "jw_frames ?w1 = jw_frames w"
        using fail depth by simp_all
      have run: "ncfg_json_write_key w k =
          (let writer = jw_add [58] (write_quoted ?w1 (cstr name)) in
           jw_set_frame ((jw_frame writer)\<lparr>jf_has_child := True, jf_wants_value := True\<rparr>) writer)"
        using us depth top Some by (simp add: ncfg_json_write_key_def Let_def)
      show ?thesis
      proof (cases "json_utf8 (cstr name)")
        case True
        note wq = write_quoted_holds [OF h1 True]
        from wq w1 Some obj True have "builder_text (Open_Object ms (Some (cstr name)) # os, None) =
            builder_text b @ separator ms @ json_quoted (cstr name) @ [58]" by simp
        with wq w1 Some obj True top depth len frs bok holds_jw_add [OF wq(1), of "[58]"] show ?thesis
          unfolding run by (simp add: Let_def jw_rel_def)
      next
        case False
        with write_quoted_bad [OF h1 False] Some obj show ?thesis
          unfolding run by (simp add: Let_def del: not_None_eq)
      qed
    qed
  qed (use rel us in \<open>auto simp: ncfg_json_write_key_def jw_rel_def simp del: not_None_eq ascii_simps\<close>)
qed

subsection \<open>Any sequence of calls\<close>

lemma write_call_rel:
  assumes rel: "jw_rel pre L w b" and ok: "\<not> bfailed (jw_buf w)"
  shows "case build c b of Some b' \<Rightarrow> jw_rel pre L (write_call w c) b' | None \<Rightarrow> jw_failure (write_call w c) \<noteq> None"
proof (cases c)
  case W_Object_Begin
  with container_begin_rel [OF assms, of "Open_Object [] None" 123 True] show ?thesis
    by (simp add: ncfg_json_write_object_begin_def del: not_None_eq)
next
  case W_Array_Begin
  with container_begin_rel [OF assms, of "Open_Array []" 91 False] show ?thesis
    by (simp add: ncfg_json_write_array_begin_def del: not_None_eq)
next
  case W_Object_End
  show ?thesis
  proof (cases "\<exists>ms os d. b = (Open_Object ms None # os, d)")
    case True
    then obtain ms os d where b: "b = (Open_Object ms None # os, d)" by blast
    with close_rel [of pre L w "Open_Object ms None" os d "JObject ms" 125 True] assms W_Object_End show ?thesis
      by (auto simp: ncfg_json_write_object_end_def json_text_JObject simp del: json_text.simps)
  next
    case False
    then have "build W_Object_End b = None" "fst b = [] \<or> jf_is_object (inner_frame (hd (fst b))) \<noteq> True \<or> jf_wants_value (inner_frame (hd (fst b)))"
      by (cases b; cases "fst b"; cases "hd (fst b)"; auto split: option.splits)+
    with container_end_fails [OF assms this(2)] W_Object_End show ?thesis
      by (simp add: ncfg_json_write_object_end_def del: not_None_eq)
  qed
next
  case W_Array_End
  show ?thesis
  proof (cases "\<exists>js os d. b = (Open_Array js # os, d)")
    case True
    then obtain js os d where b: "b = (Open_Array js # os, d)" by blast
    with close_rel [of pre L w "Open_Array js" os d "JArray js" 93 False] assms W_Array_End show ?thesis
      by (auto simp: ncfg_json_write_array_end_def)
  next
    case False
    then have "build W_Array_End b = None" "fst b = [] \<or> jf_is_object (inner_frame (hd (fst b))) \<noteq> False \<or> jf_wants_value (inner_frame (hd (fst b)))"
      by (cases b; cases "fst b"; cases "hd (fst b)"; auto)+
    with container_end_fails [OF assms this(2)] W_Array_End show ?thesis
      by (simp add: ncfg_json_write_array_end_def del: not_None_eq)
  qed
next
  case (W_Key k)
  show ?thesis unfolding W_Key write_call.simps by (rule write_key_rel [OF assms])
next
  case (W_String s)
  have "build (W_String s) b = build (W_String_Bytes (map_option cstr s)) b" by (cases s) simp_all
  with write_string_rel [OF assms, of "map_option cstr s"] show ?thesis
    unfolding W_String write_call.simps ncfg_json_write_string_def by (simp only:)
next
  case (W_String_Bytes s)
  show ?thesis unfolding W_String_Bytes write_call.simps by (rule write_string_rel [OF assms])
next
  case (W_Int i)
  show ?thesis unfolding W_Int write_call.simps build.simps ncfg_json_write_int_def
    by (rule write_scalar_rel [OF assms, of "JNumber (decimal_int (sint i))", unfolded json_text.simps])
next
  case (W_Uint i)
  show ?thesis unfolding W_Uint write_call.simps build.simps ncfg_json_write_uint_def
    by (rule write_scalar_rel [OF assms, of "JNumber (decimal (unat i))", unfolded json_text.simps])
next
  case (W_Bool v)
  show ?thesis unfolding W_Bool write_call.simps build.simps ncfg_json_write_bool_def
    by (rule write_scalar_rel [OF assms, of "JBool v", unfolded json_text.simps])
next
  case W_Null
  show ?thesis unfolding W_Null write_call.simps build.simps ncfg_json_write_null_def
    by (rule write_scalar_rel [OF assms, of JNull, unfolded json_text.simps])
qed

lemma failed_unusable:
  assumes "ncfg_json_write_failed w"
  obtains w' where "usable w = (False, w')" "ncfg_json_write_failed w'"
proof (cases "jw_failure w = None")
  case True
  with assms that show ?thesis
    by (simp add: usable_def ncfg_json_write_failed_def ncfg_buf_failed_def del: ascii_simps)
next
  case False
  with assms that show ?thesis by (simp add: usable_def)
qed

lemma write_call_sticky: "ncfg_json_write_failed w \<Longrightarrow> ncfg_json_write_failed (write_call w c)"
proof -
  assume "ncfg_json_write_failed w"
  then obtain w' where us: "usable w = (False, w')" and f: "ncfg_json_write_failed w'" by (rule failed_unusable)
  then have "begin_value w = (False, w')" by (simp add: begin_value_def)
  with us f show ?thesis
    by (cases c) (simp_all add: ncfg_json_write_object_begin_def ncfg_json_write_array_begin_def
        ncfg_json_write_object_end_def ncfg_json_write_array_end_def container_begin_def container_end_def
        ncfg_json_write_key_def ncfg_json_write_string_def ncfg_json_write_string_bytes_def
        ncfg_json_write_int_def ncfg_json_write_uint_def ncfg_json_write_bool_def ncfg_json_write_null_def
        write_scalar_def split: option.split)
qed

lemma write_calls_sticky: "ncfg_json_write_failed w \<Longrightarrow> ncfg_json_write_failed (foldl write_call w cs)"
  by (induction cs arbitrary: w) (simp_all add: write_call_sticky)

fun builds :: "json_call list \<Rightarrow> builder \<Rightarrow> builder option" where
  "builds [] b = Some b"
| "builds (c # cs) b = (case build c b of None \<Rightarrow> None | Some b' \<Rightarrow> builds cs b')"

lemma put_value_grows: "put_value j b = Some b' \<Longrightarrow> length (builder_text b) \<le> length (builder_text b')"
  by (simp add: put_value_text)

lemma build_grows:
  assumes "build c b = Some b'" "builder_ok b"
  shows "length (builder_text b) \<le> length (builder_text b') \<and> builder_ok b'"
proof -
  have begin_ok: "length (builder_text b) \<le> length (builder_text (ob # fst b, snd b)) \<and> builder_ok (ob # fst b, snd b)"
    if "may_put b" "length (fst b) < NCFG_JSON_MAX_DEPTH" for ob
  proof -
    from that assms(2) have "snd b = None" "list_all awaiting (fst b)"
      by (cases "(JNull, b)" rule: put_value.cases; auto simp: may_put_def awaiting_def)+
    with outers_text_put [OF that(1)] that(2) show ?thesis by simp
  qed
  have end_ok: "length (builder_text (ob # os, d)) \<le> length (builder_text b') \<and> builder_ok b'"
    if "put_value j (os, d) = Some b'" "json_text j = inner_text ob @ [x]" "builder_ok (ob # os, d)" for j os d ob x
  proof -
    from that(3) have d: "d = None" "builder_ok (os, d)" by (cases os; auto)+
    from that(1) d(1) have "put_value j (os, None) = Some b'" by simp
    with close_text [OF this that(2)] builder_ok_put [OF that(1) d(2)] d(1) show ?thesis by simp
  qed
  show ?thesis
    using assms begin_ok [of "Open_Object [] None"] begin_ok [of "Open_Array []"]
      end_ok [of "JObject _" _ _ "Open_Object _ None" 125] end_ok [of "JArray _" _ _ "Open_Array _" 93]
    by (cases "(c, b)" rule: build.cases)
      (auto split: if_splits dest: put_value_grows builder_ok_put simp: json_text_JObject simp del: json_text.simps(6))
qed

lemma builds_grow:
  "builder_ok b \<Longrightarrow> builds cs b = Some b' \<Longrightarrow> length (builder_text b) \<le> length (builder_text b')"
proof (induction cs arbitrary: b)
  case (Cons c cs)
  then show ?case using build_grows [of c b] by (fastforce split: option.splits)
qed simp

lemma writes_rel:
  assumes "jw_rel pre L w b" "length (pre @ builder_text b) \<le> L"
  shows "case builds cs b of
      None \<Rightarrow> ncfg_json_write_failed (foldl write_call w cs)
    | Some b' \<Rightarrow> length (builder_text b) \<le> length (builder_text b') \<and>
        (if length (pre @ builder_text b') \<le> L then jw_rel pre L (foldl write_call w cs) b'
         else ncfg_json_write_failed (foldl write_call w cs))"
  using assms
proof (induction cs arbitrary: w b)
  case (Cons c cs)
  from Cons.prems have ok: "\<not> bfailed (jw_buf w)" "builder_ok b"
    by (auto simp: jw_rel_def holds_def split: if_splits)
  show ?case
  proof (cases "build c b")
    case None
    with write_call_rel [OF Cons.prems(1) ok(1), of c]
    have "ncfg_json_write_failed (write_call w c)" by (simp add: ncfg_json_write_failed_def)
    with None write_calls_sticky show ?thesis by simp
  next
    case (Some b1)
    with write_call_rel [OF Cons.prems(1) ok(1), of c] have rel: "jw_rel pre L (write_call w c) b1" by simp
    note g = build_grows [OF Some ok(2)]
    show ?thesis
    proof (cases "length (pre @ builder_text b1) \<le> L")
      case True
      from Cons.IH [OF rel True] Some g show ?thesis by (auto split: option.splits)
    next
      case False
      with rel have "ncfg_json_write_failed (write_call w c)"
        by (simp add: jw_rel_def holds_def ncfg_json_write_failed_def ncfg_buf_failed_def)
      then have failed: "ncfg_json_write_failed (foldl write_call (write_call w c) cs)" by (rule write_calls_sticky)
      have "case builds cs b1 of None \<Rightarrow> True | Some b' \<Rightarrow> length (builder_text b1) \<le> length (builder_text b')"
        using g builds_grow [of b1 cs] by (simp split: option.split)
      with failed Some g False show ?thesis by (auto split: option.splits)
    qed
  qed
qed simp

subsection \<open>What can be built\<close>

fun json_depth :: "json \<Rightarrow> nat" where
  "json_depth (JArray js) = Suc (fold max (map json_depth js) 0)"
| "json_depth (JObject ms) = Suc (fold max (map (\<lambda>m. json_depth (snd m)) ms) 0)"
| "json_depth _ = 0"

inductive written :: "json \<Rightarrow> bool" where
  "written JNull"
| "written (JBool v)"
| "written (JNumber (decimal_int i))"
| "json_utf8 s \<Longrightarrow> written (JString s)"
| "(\<And>j. j \<in> set js \<Longrightarrow> written j) \<Longrightarrow> written (JArray js)"
| "(\<And>k j. (k, j) \<in> set ms \<Longrightarrow> json_utf8 k \<and> written j) \<Longrightarrow> written (JObject ms)"

lemma fold_max_bound: "fold max xs (a :: nat) \<le> b \<longleftrightarrow> a \<le> b \<and> (\<forall>x \<in> set xs. x \<le> b)"
  by (induction xs arbitrary: a) auto

fun building_holds :: "nat \<Rightarrow> building \<Rightarrow> bool" where
  "building_holds l (Open_Array js) \<longleftrightarrow> (\<forall>j \<in> set js. json_depth j + l \<le> NCFG_JSON_MAX_DEPTH \<and> written j)"
| "building_holds l (Open_Object ms k) \<longleftrightarrow>
     (\<forall>(n, j) \<in> set ms. json_utf8 n \<and> json_depth j + l \<le> NCFG_JSON_MAX_DEPTH \<and> written j) \<and>
     (\<forall>n. k = Some n \<longrightarrow> json_utf8 n)"

fun buildings_hold :: "building list \<Rightarrow> bool" where
  "buildings_hold [] \<longleftrightarrow> True"
| "buildings_hold (ob # os) \<longleftrightarrow>
     Suc (length os) \<le> NCFG_JSON_MAX_DEPTH \<and> building_holds (Suc (length os)) ob \<and> buildings_hold os"

definition builder_holds :: "builder \<Rightarrow> bool" where
  "builder_holds b \<longleftrightarrow> buildings_hold (fst b) \<and>
     (\<forall>j. snd b = Some j \<longrightarrow> json_depth j \<le> NCFG_JSON_MAX_DEPTH \<and> written j)"

lemma put_value_builder_holds:
  assumes "put_value j b = Some b'" "builder_holds b" "written j" "json_depth j + length (fst b) \<le> NCFG_JSON_MAX_DEPTH"
  shows "builder_holds b'"
  using assms by (cases "(j, b)" rule: put_value.cases) (auto simp: builder_holds_def)

lemma array_holds:
  assumes "building_holds l (Open_Array js)" "0 < l" "l \<le> NCFG_JSON_MAX_DEPTH"
  shows "written (JArray js) \<and> json_depth (JArray js) + (l - 1) \<le> NCFG_JSON_MAX_DEPTH"
proof -
  from assms have "\<forall>j \<in> set js. json_depth j \<le> NCFG_JSON_MAX_DEPTH - l" by (auto simp: le_diff_conv2)
  then have "fold max (map json_depth js) 0 \<le> NCFG_JSON_MAX_DEPTH - l" by (simp add: fold_max_bound)
  with assms show ?thesis by (auto intro: written.intros)
qed

lemma object_holds:
  assumes "building_holds l (Open_Object ms None)" "0 < l" "l \<le> NCFG_JSON_MAX_DEPTH"
  shows "written (JObject ms) \<and> json_depth (JObject ms) + (l - 1) \<le> NCFG_JSON_MAX_DEPTH"
proof -
  from assms have "\<forall>m \<in> set ms. json_depth (snd m) \<le> NCFG_JSON_MAX_DEPTH - l" by (fastforce simp: le_diff_conv2)
  then have "fold max (map (\<lambda>m. json_depth (snd m)) ms) 0 \<le> NCFG_JSON_MAX_DEPTH - l" by (simp add: fold_max_bound)
  with assms show ?thesis by (auto intro!: written.intros)
qed

lemma decimal_is_int: "decimal (unat i) = decimal_int (int (unat i))"
  by (simp add: decimal_int_def)

lemma build_builder_holds:
  assumes "build c b = Some b'" "builder_holds b"
  shows "builder_holds b'"
proof -
  have put: "builder_holds b'" if "put_value j b = Some b'" "written j" "json_depth j = 0" for j
  proof (rule put_value_builder_holds [OF that(1) assms(2) that(2)])
    show "json_depth j + length (fst b) \<le> NCFG_JSON_MAX_DEPTH"
      using that(3) assms(2) by (cases "fst b") (simp_all add: builder_holds_def)
  qed
  have array: "builder_holds b'" if "b = (Open_Array js # os, d)" "put_value (JArray js) (os, d) = Some b'" for js os d
    using that assms(2) array_holds [of "Suc (length os)" js]
    by (intro put_value_builder_holds [OF that(2)]) (auto simp: builder_holds_def)
  have obj: "builder_holds b'" if "b = (Open_Object ms None # os, d)" "put_value (JObject ms) (os, d) = Some b'" for ms os d
    using that assms(2) object_holds [of "Suc (length os)" ms]
    by (intro put_value_builder_holds [OF that(2)]) (auto simp: builder_holds_def)
  have opened: "builder_holds (Open_Array [] # fst b, snd b)" "builder_holds (Open_Object [] None # fst b, snd b)"
    if "length (fst b) < NCFG_JSON_MAX_DEPTH" using that assms(2) by (auto simp: builder_holds_def)
  have key: "builder_holds (Open_Object ms (Some n) # os, d)"
    if "b = (Open_Object ms None # os, d)" "json_utf8 n" for ms n os d
    using that assms(2) by (auto simp: builder_holds_def)
  note leaf = put [OF _ written.intros(1)] put [OF _ written.intros(2)] put [OF _ written.intros(3)]
    put [OF _ written.intros(4)]
  show ?thesis
    using assms(1) leaf array obj opened key
    by (cases "(c, b)" rule: build.cases) (auto simp: decimal_is_int split: if_splits)
qed

lemma builds_builder_holds: "builds cs b = Some b' \<Longrightarrow> builder_holds b \<Longrightarrow> builder_holds b'"
proof (induction cs arbitrary: b)
  case (Cons c cs)
  then show ?case using build_builder_holds [of c b] by (fastforce split: option.splits)
qed simp

subsection \<open>The properties\<close>

lemma init_rel:
  assumes "buf_inv buf" "\<not> bfailed buf"
  shows "jw_rel (buf_contents buf) (blimit buf) (ncfg_json_write_init buf) ([], None)"
    "length (buf_contents buf) \<le> blimit buf"
proof -
  from assms show "length (buf_contents buf) \<le> blimit buf" by (simp add: buf_inv_def)
  with assms show "jw_rel (buf_contents buf) (blimit buf) (ncfg_json_write_init buf) ([], None)"
    by (simp add: jw_rel_def ncfg_json_write_init_def holds_def no_frame_def nth_append nth_Cons' del: replicate_Suc)
qed

lemma rel_done:
  assumes "jw_rel pre L w b" "length (pre @ builder_text b) \<le> L"
  shows "\<not> ncfg_json_write_failed w" "ncfg_buf_text (jw_buf w) = pre @ builder_text b"
    "ncfg_json_write_done w \<longleftrightarrow> (\<exists>j. b = ([], Some j))"
proof -
  from assms show f: "\<not> ncfg_json_write_failed w"
    by (simp add: jw_rel_def holds_def ncfg_json_write_failed_def ncfg_buf_failed_def)
  from assms show "ncfg_buf_text (jw_buf w) = pre @ builder_text b"
    by (simp add: jw_rel_def holds_def buf_text_contents)
  show "ncfg_json_write_done w \<longleftrightarrow> (\<exists>j. b = ([], Some j))"
    using assms(1) f by (cases b; cases "fst b") (auto simp: jw_rel_def ncfg_json_write_done_def)
qed

text \<open>
  C38.  The writer refines the builder of JSON trees.  Whatever calls are made on a writer over a
  healthy buffer, it has failed exactly when the calls are a misuse -- a value where a name belongs,
  an end that does not match, a second value, a string that is not UTF-8, a container too many -- or
  the text does not fit the buffer's ceiling; otherwise the buffer holds what it held before and then
  exactly the text of what was built, and \<^verbatim>\<open>ncfg_json_write_done\<close> answers whether that is one whole value.
\<close>

theorem json_writer_refines:
  assumes "buf_inv buf" "\<not> ncfg_buf_failed buf"
  shows "case builds cs ([], None) of
      None \<Rightarrow> ncfg_json_write_failed (foldl write_call (ncfg_json_write_init buf) cs)
    | Some b \<Rightarrow>
        if buf_room buf < length (builder_text b)
        then ncfg_json_write_failed (foldl write_call (ncfg_json_write_init buf) cs)
        else \<not> ncfg_json_write_failed (foldl write_call (ncfg_json_write_init buf) cs) \<and>
          ncfg_buf_text (jw_buf (foldl write_call (ncfg_json_write_init buf) cs)) =
            ncfg_buf_text buf @ builder_text b \<and>
          (ncfg_json_write_done (foldl write_call (ncfg_json_write_init buf) cs) \<longleftrightarrow> (\<exists>j. b = ([], Some j)))"
proof (cases "builds cs ([], None)")
  case None
  from assms have "\<not> bfailed buf" by (simp add: ncfg_buf_failed_def)
  from writes_rel [OF init_rel(1) [OF assms(1) this], of cs] init_rel(2) [OF assms(1) this] None show ?thesis by simp
next
  case (Some b)
  from assms have f: "\<not> bfailed buf" by (simp add: ncfg_buf_failed_def)
  note ir = init_rel [OF assms(1) f]
  from assms(1) have room: "buf_room buf = blimit buf - length (buf_contents buf)"
    by (simp add: buf_room_def buf_inv_def)
  show ?thesis
  proof (cases "buf_room buf < length (builder_text b)")
    case True
    with room ir(2) have "\<not> length (buf_contents buf @ builder_text b) \<le> blimit buf" by simp
    with writes_rel [OF ir(1), of cs] ir(2) Some True show ?thesis by simp
  next
    case False
    with room ir(2) have fits: "length (buf_contents buf @ builder_text b) \<le> blimit buf" by simp
    with writes_rel [OF ir(1), of cs] ir(2) Some
    have "jw_rel (buf_contents buf) (blimit buf) (foldl write_call (ncfg_json_write_init buf) cs) b" by simp
    from rel_done [OF this fits] f False Some show ?thesis by (simp add: buf_text_contents)
  qed
qed

theorem json_writer_refines_witness:
  "ncfg_json_write_done (foldl write_call (ncfg_json_write_init (ncfg_buf_init 0))
     [W_Object_Begin, W_Key (Some (ascii ''mtu'')), W_Int (- 5), W_Object_End]) \<and>
   ncfg_buf_text (jw_buf (foldl write_call (ncfg_json_write_init (ncfg_buf_init 0))
     [W_Object_Begin, W_Key (Some (ascii ''mtu'')), W_Int (- 5), W_Object_End])) =
     [123, 34] @ ascii ''mtu'' @ [34, 58] @ ascii ''-5'' @ [125]"
proof -
  let ?cs = "[W_Object_Begin, W_Key (Some (ascii ''mtu'')), W_Int (- 5), W_Object_End]"
  let ?b = "ncfg_buf_init 0"
  have "buf_inv ?b" "\<not> ncfg_buf_failed ?b"
    by (simp_all add: buf_inv_init init_fields ncfg_buf_failed_def)
  note r = json_writer_refines [OF this, of ?cs]
  have b: "builds ?cs ([], None) = Some ([], Some (JObject [(ascii ''mtu'', JNumber (ascii ''-5''))]))" by code_simp
  have t: "builder_text ([], Some (JObject [(ascii ''mtu'', JNumber (ascii ''-5''))])) =
      [123, 34] @ ascii ''mtu'' @ [34, 58] @ ascii ''-5'' @ [125]" by code_simp
  have "length ([123, 34] @ ascii ''mtu'' @ [34, 58] @ ascii ''-5'' @ [125]) \<le> buf_room ?b"
    by (simp add: init_fields DEFAULT_LIMIT_def)
  with r show ?thesis unfolding b option.case t
    by (simp add: buf_text_contents init_fields not_less)
qed

end
