(* ===== verification/Ncfg_Json_Leaves.thy ===== *)
theory Ncfg_Json_Leaves
  imports Ncfg_Json_Read_Props Ncfg_Json_Write_Props
begin

text \<open>
  What the reader makes of the pieces the writer writes: a quoted string is read as the bytes that
  were quoted, the decimal digits of a number as a number, a word as itself.  Positions are given by
  what stands behind them in the input.
\<close>

lemma drop_ConsD:
  assumes "drop n xs = y # ys"
  shows "n < length xs" "xs ! n = y" "drop (Suc n) xs = ys"
proof -
  from assms show n: "n < length xs" by (metis drop_eq_Nil leI list.distinct(1))
  from assms n show "xs ! n = y" "drop (Suc n) xs = ys" by (simp_all add: Cons_nth_drop_Suc [symmetric])
qed

lemma drop_appendD: "drop n xs = ys @ zs \<Longrightarrow> drop (n + length ys) xs = zs"
  by (metis add.commute append_eq_conv_conj drop_drop)

lemma drop_append_length: "drop n xs = ys @ zs \<Longrightarrow> n \<le> length xs \<Longrightarrow> n + length ys \<le> length xs"
proof -
  assume d: "drop n xs = ys @ zs" and n: "n \<le> length xs"
  from arg_cong [OF d, of length] n show ?thesis by simp
qed

lemma slice_drop: "drop n xs = ys @ zs \<Longrightarrow> slice n (n + length ys) xs = ys"
  by (simp add: slice_def)

subsection \<open>Strings\<close>

lemma simple_escape_shortform: "shortform c = Some [ch CHR 0x5C, e] \<Longrightarrow> simple_escape e = Some c"
  by (auto simp: shortform_def simple_escape_def split: if_splits)

lemma shortform_form: "shortform c = Some f \<Longrightarrow> \<exists>e. f = [ch CHR 0x5C, e]"
  by (auto simp: shortform_def split: if_splits)

lemma control_nibbles:
  assumes "c < (0x20 :: byte)"
  shows "nibbles 0 [ch CHR ''0'', ch CHR ''0'', hex_digits ! unat (drop_bit 4 c), hex_digits ! unat (c AND 0x0f)] =
    Some (ucast c)"
proof -
  have all: "list_all (\<lambda>n. nibbles 0 [ch CHR ''0'', ch CHR ''0'', hex_digits ! unat (drop_bit 4 (of_nat n :: byte)),
      hex_digits ! unat (of_nat n AND 0x0f :: byte)] = Some (ucast (of_nat n :: byte))) [0..<32]"
    by code_simp
  have "unat c \<in> set [0..<32]" using assms by (simp add: word_less_nat_alt)
  from all [unfolded list_all_iff, rule_format, OF this] show ?thesis by (simp del: nibbles.simps)
qed

lemma read_unicode_control:
  assumes "c < (0x20 :: byte)" "at + 4 \<le> length inp"
    "slice at (at + 4) inp = [ch CHR ''0'', ch CHR ''0'', hex_digits ! unat (drop_bit 4 c), hex_digits ! unat (c AND 0x0f)]"
  shows "read_unicode inp at = Inr ([c], at + 4)"
proof -
  have code: "read_code_unit inp at = Some (ucast c, at + 4)"
    using control_nibbles [OF assms(1)] assms(2,3) by (simp add: read_code_unit_def)
  have u: "unat (ucast c :: 32 word) < 0x20"
    using assms(1) by (simp add: word_less_nat_alt unsigned_ucast_eq take_bit_nat_eq_self)
  then have "\<not> 0xd800 \<le> (ucast c :: 32 word)" "\<not> 0xdc00 \<le> (ucast c :: 32 word)" "(ucast c :: 32 word) < 0x80"
    by (simp_all add: word_le_nat_alt word_less_nat_alt)
  moreover have "ucast (ucast c :: 32 word) = c"
    by (rule bit_word_eqI) (simp add: bit_unsigned_iff)
  ultimately show ?thesis using code by (simp add: read_unicode_def write_utf8_def)
qed

lemma simple_escape_u: "simple_escape (ch CHR ''u'') = None"
  by (simp add: simple_escape_def)

lemma parse_string_loop_escape:
  assumes "drop at inp = json_escape c @ rest"
  shows "parse_string_loop inp at out = parse_string_loop inp (at + length (json_escape c)) (out @ [c])"
proof (cases "shortform c")
  case (Some f)
  with shortform_form obtain e where f: "f = [ch CHR 0x5C, e]" by blast
  from Some f have esc: "json_escape c = [ch CHR 0x5C, e]" by (simp add: json_escape_def)
  with assms have d: "drop at inp = ch CHR 0x5C # e # rest" by simp
  note d1 = drop_ConsD [OF d] and d2 = drop_ConsD [OF drop_ConsD(3) [OF d]]
  have bs: "\<not> (ch CHR 0x5C :: byte) < 0x20" by simp
  from simple_escape_shortform [of c e] Some f d1 d2 show ?thesis
    by (subst parse_string_loop.simps) (simp add: Let_def esc)
next
  case None
  show ?thesis
  proof (cases "c < 0x20")
    case False
    with None have esc: "json_escape c = [c]" by (simp add: json_escape_def)
    with assms have "drop at inp = c # rest" by simp
    from drop_ConsD [OF this] False None show ?thesis
      by (subst parse_string_loop.simps) (simp add: Let_def esc shortform_def split: if_splits)
  next
    case True
    let ?h = "[ch CHR ''0'', ch CHR ''0'', hex_digits ! unat (drop_bit 4 c), hex_digits ! unat (c AND 0x0f)]"
    from True None have esc: "json_escape c = ch CHR 0x5C # ch CHR ''u'' # ?h" by (simp add: json_escape_def)
    then have len: "length (json_escape c) = 6" by simp
    from esc assms have d: "drop at inp = ch CHR 0x5C # ch CHR ''u'' # ?h @ rest" by simp
    note d1 = drop_ConsD [OF d] and d2 = drop_ConsD [OF drop_ConsD(3) [OF d]]
    have "drop (at + 2) inp = ?h @ rest" using d2(3) by (simp add: numeral_2_eq_2)
    note hs = slice_drop [OF this] drop_append_length [OF this]
    have four: "at + 2 + length ?h = at + 2 + 4" by simp
    have "read_unicode inp (at + 2) = Inr ([c], at + 2 + 4)"
      using hs [unfolded four] d2(1) by (intro read_unicode_control [OF True]) simp_all
    with d1 d2 show ?thesis
      by (subst parse_string_loop.simps) (simp add: Let_def len simple_escape_u [simplified] add.commute [of at 6])
  qed
qed

lemma parse_string_loop_quoted:
  "drop at inp = concat (map json_escape s) @ [34] @ rest \<Longrightarrow>
   parse_string_loop inp at out = Inr (at + length (concat (map json_escape s)) + 1, out @ s)"
proof (induction s arbitrary: at out)
  case Nil
  then have "drop at inp = 34 # rest" by simp
  from drop_ConsD [OF this] show ?case by (subst parse_string_loop.simps) simp
next
  case (Cons c s)
  then have d: "drop at inp = json_escape c @ concat (map json_escape s) @ [34] @ rest" by simp
  from Cons.IH [OF drop_appendD [OF d]] parse_string_loop_escape [OF d, of out] show ?case
    by (simp add: add.assoc)
qed

lemma u32_small: "n < 2 ^ 32 \<Longrightarrow> u32 n = n"
  by (simp add: u32_def)

lemma parse_string_quoted:
  assumes "drop (jr_at r) inp = json_quoted s @ rest" "length (jr_out r) + length s < 2 ^ 32"
  shows "parse_string inp (r\<lparr>jr_at := jr_at r + 1\<rparr>) =
    Inr ((length (jr_out r), length s), r\<lparr>jr_at := jr_at r + length (json_quoted s), jr_out := jr_out r @ s\<rparr>)"
proof -
  from assms(1) have "drop (jr_at r) inp = 34 # concat (map json_escape s) @ [34] @ rest"
    by (simp add: json_quoted_def)
  from parse_string_loop_quoted [OF drop_ConsD(3) [OF this], of "jr_out r"] assms(2) show ?thesis
    by (simp add: parse_string_def json_quoted_def u32_small)
qed

subsection \<open>Numbers and words\<close>

text \<open>What may stand behind a value the writer wrote: nothing, or what separates or closes.\<close>

definition stops :: "bytes \<Rightarrow> bool" where
  "stops rest \<longleftrightarrow> rest = [] \<or> hd rest \<in> {44, 93, 125}"

lemma stops_simps [simp]: "stops []" "stops (44 # xs)" "stops (93 # xs)" "stops (125 # xs)"
  by (simp_all add: stops_def)

lemma skip_while_run:
  "drop at inp = xs @ rest \<Longrightarrow> list_all P xs \<Longrightarrow> rest = [] \<or> \<not> P (hd rest) \<Longrightarrow> skip_while P inp at = at + length xs"
proof (induction xs arbitrary: at)
  case Nil
  show ?case
  proof (cases rest)
    case Nil
    with Nil.prems have "length inp \<le> at" by simp
    then show ?thesis by (subst skip_while.simps) simp
  next
    case (Cons y ys)
    with Nil.prems have "drop at inp = y # ys" by simp
    from drop_ConsD [OF this] Cons Nil.prems(3) show ?thesis by (subst skip_while.simps) simp
  qed
next
  case (Cons x xs)
  then have "drop at inp = x # xs @ rest" by simp
  note d = drop_ConsD [OF this]
  with Cons.IH [OF d(3)] Cons.prems show ?case by (subst skip_while.simps) simp
qed

lemma skip_space_none: "rest = [] \<or> \<not> json_space (hd rest) \<Longrightarrow> drop (jr_at r) inp = rest \<Longrightarrow> skip_space inp r = r"
  using skip_while_run [of "jr_at r" inp "[]" rest json_space] by (simp add: skip_space_def)

lemma decimal_shape: "decimal n = [48] \<or> (\<exists>d ds. decimal n = d # ds \<and> ch CHR ''1'' \<le> d \<and> d \<le> ch CHR ''9'')"
proof (induction n rule: decimal.induct)
  case (1 n)
  show ?case
  proof (cases "n < 10")
    case True
    then have "n = 0 \<or> 49 \<le> unat (48 + of_nat n :: byte) \<and> unat (48 + of_nat n :: byte) \<le> 57"
      by (auto simp: unat_digit)
    then show ?thesis using True by (auto simp: decimal_less_10 word_le_nat_alt)
  next
    case False
    have "decimal (n div 10) \<noteq> [48]"
    proof
      assume "decimal (n div 10) = [48]"
      then have "decimal_value (decimal (n div 10)) = decimal_value [48]" by simp
      moreover have "decimal_value [48] = 0" by (simp add: decimal_value_def digit_value_def)
      ultimately have "n div 10 = 0" by simp
      with False show False by simp
    qed
    with 1 False show ?thesis by (auto simp: decimal_ge_10)
  qed
qed

lemma scan_integer_decimal:
  assumes "drop at inp = decimal n @ rest" "stops rest"
  shows "scan_integer inp at = Inr (at + length (decimal n))"
proof -
  have nd: "rest = [] \<or> \<not> is_digit (hd rest)"
    using assms(2) by (auto simp: stops_def is_digit_unat)
  have digits: "list_all is_digit (decimal n)" by (simp add: list_all_iff decimal_digits)
  from decimal_shape [of n] show ?thesis
  proof (elim disjE exE conjE)
    assume z: "decimal n = [48]"
    with assms(1) have "drop at inp = 48 # rest" by simp
    from drop_ConsD [OF this] z show ?thesis by (simp add: scan_integer_def Let_def)
  next
    fix d ds
    assume d: "decimal n = d # ds" "ch CHR ''1'' \<le> d" "d \<le> ch CHR ''9''"
    with assms(1) have "drop at inp = d # ds @ rest" by simp
    note dr = drop_ConsD [OF this]
    have "d \<noteq> 45" "d \<noteq> 48" using d(2) by (auto simp: word_le_nat_alt)
    with dr d skip_while_run [OF assms(1) digits nd] show ?thesis by (simp add: scan_integer_def Let_def)
  qed
qed

lemma scan_integer_minus:
  assumes "drop at inp = 45 # decimal n @ rest" "stops rest"
  shows "scan_integer inp at = Inr (at + 1 + length (decimal n))"
proof -
  note d = drop_ConsD [OF assms(1)]
  obtain y ys where y: "decimal n = y # ys" by (cases "decimal n") simp_all
  have yd: "is_digit y" using decimal_digits [of y n] y by simp
  then have "y \<noteq> 45" by (auto simp: is_digit_unat)
  moreover have "drop (Suc at) inp = y # ys @ rest" using d(3) y by simp
  note d2 = drop_ConsD [OF this]
  ultimately have "scan_integer inp at = scan_integer inp (Suc at)"
    using d by (simp add: scan_integer_def Let_def)
  with scan_integer_decimal [OF d(3) assms(2)] show ?thesis by simp
qed

lemma decimal_int_nonempty: "decimal_int i \<noteq> []"
  by (simp add: decimal_int_def)

lemma parse_number_int:
  assumes "drop (jr_at r) inp = decimal_int i @ rest" "stops rest" "jr_at r \<le> length inp" "length (jr_out r) < 2 ^ 32"
    "length (decimal_int i) < 2 ^ 32"
  shows "parse_number inp r = Inr ((length (jr_out r), length (decimal_int i)),
    r\<lparr>jr_at := jr_at r + length (decimal_int i), jr_out := jr_out r @ decimal_int i\<rparr>)"
proof -
  let ?e = "jr_at r + length (decimal_int i)"
  have int: "scan_integer inp (jr_at r) = Inr ?e"
    using scan_integer_decimal [of "jr_at r" inp "nat i" rest] scan_integer_minus [of "jr_at r" inp "nat (- i)" rest] assms(1,2)
    by (auto simp: decimal_int_def)
  have rest: "drop ?e inp = rest" by (rule drop_appendD [OF assms(1)])
  have "?e < length inp \<Longrightarrow> inp ! ?e \<in> {44, 93, 125}"
    using rest assms(2) by (auto simp: stops_def hd_drop_conv_nth dest: sym)
  then have "scan_fraction inp ?e = Inr ?e" "scan_exponent inp ?e = Inr ?e"
    by (auto simp: scan_fraction_def scan_exponent_def)
  with int slice_drop [OF assms(1)] assms(4,5) show ?thesis by (simp add: parse_number_def u32_small)
qed

lemma literal_word:
  "drop (jr_at r) inp = ascii w @ rest \<Longrightarrow> jr_at r \<le> length inp \<Longrightarrow>
   literal inp w r = Some (r\<lparr>jr_at := jr_at r + length w\<rparr>)"
  using slice_drop [of "jr_at r" inp "ascii w" rest] drop_append_length [of "jr_at r" inp "ascii w" rest]
  by (simp add: literal_def)

end
