(* ===== verification/Ncfg_Json_Roundtrip.thy ===== *)
theory Ncfg_Json_Roundtrip
  imports Ncfg_Json_Leaves
begin

text \<open>
  What the writer writes, the reader reads.  \<open>flat\<close> lays a tree out as the reader's array of nodes;
  the reader's loop, started on the text of a tree, is shown to produce exactly that layout, and a
  layout read back through the accessors of \<^verbatim>\<open>client/ncfg_json.c\<close> is the tree.
\<close>

subsection \<open>Trees laid out as nodes\<close>

fun node_count :: "json \<Rightarrow> nat" where
  "node_count (JArray js) = Suc (sum_list (map node_count js))"
| "node_count (JObject ms) = Suc (sum_list (map (\<lambda>m. node_count (snd m)) ms))"
| "node_count _ = 1"

text \<open>The members of a container, each with its name where it has one.\<close>

type_synonym json_elem = "bytes option \<times> json"

fun elems :: "json \<Rightarrow> json_elem list" where
  "elems (JArray js) = map (Pair None) js"
| "elems (JObject ms) = map (\<lambda>m. (Some (fst m), snd m)) ms"
| "elems _ = []"

abbreviation name_length :: "bytes option \<Rightarrow> nat" where
  "name_length k \<equiv> (case k of None \<Rightarrow> 0 | Some k \<Rightarrow> length k)"

fun json_bytes :: "json \<Rightarrow> bytes" where
  "json_bytes (JNumber t) = t"
| "json_bytes (JString s) = s"
| "json_bytes (JArray js) = concat (map json_bytes js)"
| "json_bytes (JObject ms) = concat (map (\<lambda>m. fst m @ json_bytes (snd m)) ms)"
| "json_bytes _ = []"

definition elem_bytes :: "json_elem \<Rightarrow> bytes" where
  "elem_bytes e = (case fst e of None \<Rightarrow> [] | Some k \<Rightarrow> k) @ json_bytes (snd e)"

abbreviation elems_count :: "json_elem list \<Rightarrow> nat" where
  "elems_count es \<equiv> sum_list (map (\<lambda>e. node_count (snd e)) es)"

abbreviation elems_bytes :: "json_elem list \<Rightarrow> bytes" where
  "elems_bytes es \<equiv> concat (map elem_bytes es)"

lemma node_count_elems: "Suc (elems_count (elems j)) = node_count j"
  by (cases j) (simp_all add: comp_def)

lemma node_count_pos [simp]: "0 < node_count j"
  using node_count_elems [of j] by simp

fun json_kind :: "json \<Rightarrow> json_type" where
  "json_kind JNull = TNull"
| "json_kind (JBool _) = TBool"
| "json_kind (JNumber _) = TNumber"
| "json_kind (JString _) = TString"
| "json_kind (JArray _) = TArray"
| "json_kind (JObject _) = TObject"

fun json_value :: "nat \<Rightarrow> json \<Rightarrow> nat \<times> nat" where
  "json_value o' (JNumber t) = (o', length t)"
| "json_value o' (JString s) = (o', length s)"
| "json_value _ _ = (0, 0)"

text \<open>The node of a tree at index \<open>i\<close>, its text at offset \<open>ofs\<close>, with \<open>c\<close> members read so far.\<close>

definition head_node :: "nat \<Rightarrow> nat \<Rightarrow> (nat \<times> nat) option \<Rightarrow> nat option \<Rightarrow> nat \<Rightarrow> json \<Rightarrow> json_node" where
  "head_node i ofs key sibling c j =
     \<lparr>jn_type = json_kind j, jn_key = key, jn_value = json_value ofs j, jn_bool = (j = JBool True),
      jn_first_child = (if c = 0 then None else Some (Suc i)), jn_child_count = c, jn_next_sibling = sibling\<rparr>"

function flat :: "nat \<Rightarrow> nat \<Rightarrow> (nat \<times> nat) option \<Rightarrow> nat option \<Rightarrow> json \<Rightarrow> json_node list"
  and flats :: "nat \<Rightarrow> nat \<Rightarrow> json_elem list \<Rightarrow> json_node list" where
  "flat i ofs key sibling j = head_node i ofs key sibling (length (elems j)) j # flats (Suc i) ofs (elems j)"
| "flats i ofs [] = []"
| "flats i ofs ((k, j) # es) =
     flat i (ofs + name_length k) (map_option (\<lambda>k. (ofs, length k)) k)
       (if es = [] then None else Some (i + node_count j)) j @
     flats (i + node_count j) (ofs + length (elem_bytes (k, j))) es"
  by pat_completeness auto
termination
proof (relation "measure (\<lambda>x. case x of Inl (_, _, _, _, j) \<Rightarrow> 2 * node_count j | Inr (_, _, es) \<Rightarrow> 2 * elems_count es + 1)",
    goal_cases)
  case (2 i ofs key sibling j)
  then show ?case using node_count_elems [of j] by simp
qed simp_all

declare flat.simps [simp del]

lemma length_flat: "length (flat i ofs key sibling j) = node_count j"
  and length_flats: "length (flats i ofs es) = elems_count es"
proof (induction i ofs key sibling j and i ofs es rule: flat_flats.induct)
  case (1 i ofs key sibling j)
  then show ?case using node_count_elems [of j] by (simp add: flat.simps)
qed simp_all

lemma flat_sibling: "flat i ofs key sibling j = (hd (flat i ofs key None j))\<lparr>jn_next_sibling := sibling\<rparr> # tl (flat i ofs key None j)"
  by (simp add: flat.simps head_node_def)

text \<open>Adding a member: the one before it gets its link.\<close>

abbreviation last_root :: "json_elem list \<Rightarrow> nat" where
  "last_root es \<equiv> elems_count (butlast es)"

lemma last_root_less: "es \<noteq> [] \<Longrightarrow> last_root es < elems_count es"
  by (induction es rule: rev_induct) simp_all

lemma flats_snoc:
  "flats i ofs (es @ [(k, j)]) =
     (if es = [] then [] else (flats i ofs es)[last_root es := (flats i ofs es ! last_root es)\<lparr>jn_next_sibling := Some (i + elems_count es)\<rparr>]) @
     flat (i + elems_count es) (ofs + length (elems_bytes es) + name_length k)
       (map_option (\<lambda>k. (ofs + length (elems_bytes es), length k)) k) None j"
proof (induction es arbitrary: i ofs)
  case Nil
  then show ?case by simp
next
  case (Cons e es)
  obtain k1 j1 where e: "e = (k1, j1)" by (cases e)
  show ?case
  proof (cases "es = []")
    case True
    let ?f = "\<lambda>s. flat i (ofs + name_length k1) (map_option (\<lambda>k. (ofs, length k)) k1) s j1"
    have "?f None \<noteq> []" by (simp add: flat.simps)
    with flat_sibling [of i "ofs + name_length k1" "map_option (\<lambda>k. (ofs, length k)) k1" "Some (i + node_count j1)" j1]
    show ?thesis by (cases "?f None") (simp_all add: e True)
  next
    case False
    then have "butlast (e # es) = e # butlast es" by simp
    with Cons.IH [of "i + node_count j1" "ofs + length (elem_bytes (k1, j1))"] False show ?thesis
      by (simp add: e list_update_append nth_append length_flat add.assoc last_root_less)
  qed
qed

subsection \<open>Sizes\<close>

definition elem_text :: "json_elem \<Rightarrow> bytes" where
  "elem_text e = (case fst e of None \<Rightarrow> [] | Some k \<Rightarrow> json_quoted k @ [58]) @ json_text (snd e)"

lemma json_text_elems:
  "json_text (JArray js) = 91 # commas (map elem_text (elems (JArray js))) @ [93]"
  "json_text (JObject ms) = 123 # commas (map elem_text (elems (JObject ms))) @ [125]"
  by (simp_all add: elem_text_def comp_def)

lemma length_commas: "sum_list (map length xs) \<le> length (commas xs)"
  by (induction xs rule: commas.induct) simp_all

lemma length_json_quoted: "length k \<le> length (json_quoted k)"
proof -
  have one: "1 \<le> length (json_escape c)" for c
    by (cases "shortform c") (auto simp: json_escape_def shortform_def split: if_splits)
  have "length k \<le> length (concat (map json_escape k))"
  proof (induction k)
    case (Cons c k)
    with one [of c] show ?case by simp
  qed simp
  then show ?thesis by (simp add: json_quoted_def)
qed

lemma sum_list_le: "(\<And>x. x \<in> set xs \<Longrightarrow> f x \<le> g x) \<Longrightarrow> sum_list (map f xs) \<le> (sum_list (map g xs) :: nat)"
  by (rule sum_list_mono)

lemma commas_bound: "(\<And>e. e \<in> set es \<Longrightarrow> f e \<le> length (elem_text e)) \<Longrightarrow>
    sum_list (map f es) \<le> length (commas (map elem_text es))"
  using sum_list_le [of es f "\<lambda>e. length (elem_text e)"] length_commas [of "map elem_text es"] by (simp add: comp_def)

lemma node_count_text: "written j \<Longrightarrow> node_count j \<le> length (json_text j)"
proof (induction rule: written.induct)
  case (3 i)
  then show ?case using decimal_int_nonempty [of i] by (simp add: Suc_le_eq)
next
  case (5 js)
  have "elems_count (elems (JArray js)) \<le> length (commas (map elem_text (elems (JArray js))))"
    using 5 by (intro commas_bound) (auto simp: elem_text_def)
  then show ?case using node_count_elems [of "JArray js"] by (simp only: json_text_elems) simp
next
  case (6 ms)
  have "elems_count (elems (JObject ms)) \<le> length (commas (map elem_text (elems (JObject ms))))"
    using 6 by (intro commas_bound) (force simp: elem_text_def)
  then show ?case using node_count_elems [of "JObject ms"] by (simp only: json_text_elems) simp
qed (simp_all add: json_quoted_def)

lemma json_bytes_text: "length (json_bytes j) \<le> length (json_text j)"
proof (induction j)
  case (JString s)
  then show ?case by (simp add: length_json_quoted)
next
  case (JArray js)
  have "sum_list (map (\<lambda>e. length (json_bytes (snd e))) (elems (JArray js))) \<le> length (commas (map elem_text (elems (JArray js))))"
    using JArray by (intro commas_bound) (auto simp: elem_text_def)
  then show ?case by (simp only: json_text_elems) (simp add: length_concat comp_def)
next
  case (JObject ms)
  have "length k + length (json_bytes j) \<le> length (json_quoted k) + length (json_text j)" if "(k, j) \<in> set ms" for k j
    using JObject [OF that] length_json_quoted [of k] by auto
  then have "sum_list (map (\<lambda>e. length (elem_bytes e)) (elems (JObject ms))) \<le> length (commas (map elem_text (elems (JObject ms))))"
    by (intro commas_bound) (fastforce simp: elem_text_def elem_bytes_def)
  then show ?case by (simp only: json_text_elems) (simp add: length_concat comp_def elem_bytes_def)
qed simp_all

lemma elem_bounds:
  assumes "written (snd e)"
  shows "node_count (snd e) \<le> length (elem_text e)" "length (elem_bytes e) \<le> length (elem_text e)"
  using node_count_text [OF assms] json_bytes_text [of "snd e"] length_json_quoted
  by (auto simp: elem_text_def elem_bytes_def split: option.split intro: add_mono trans_le_add2 le_SucI)

subsection \<open>Linking\<close>

text \<open>What attaching a node does to the nodes before it and to the stack.\<close>

fun link :: "nat \<Rightarrow> stack_frame list \<Rightarrow> json_node list \<Rightarrow> json_node list" where
  "link i [] ns = ns"
| "link i (f # fs) ns =
     (let ns = (case sf_last_child f of
                  None \<Rightarrow> ns[sf_node f := (ns ! sf_node f)\<lparr>jn_first_child := Some i\<rparr>]
                | Some c \<Rightarrow> ns[c := (ns ! c)\<lparr>jn_next_sibling := Some i\<rparr>])
      in ns[sf_node f := (ns ! sf_node f)\<lparr>jn_child_count := jn_child_count (ns ! sf_node f) + 1\<rparr>])"

fun restack :: "nat \<Rightarrow> stack_frame list \<Rightarrow> stack_frame list" where
  "restack i [] = []"
| "restack i (f # fs) = f\<lparr>sf_last_child := Some i\<rparr> # fs"

lemma attach_link: "attach i r = r\<lparr>jr_nodes := link i (jr_stack r) (jr_nodes r), jr_stack := restack i (jr_stack r)\<rparr>"
  by (cases r; cases "jr_stack r") (auto simp: attach_def set_node_def Let_def split: option.split)

lemma length_link [simp]: "length (link i fs ns) = length ns"
  by (cases fs) (simp_all add: Let_def split: option.split)

lemma length_restack [simp]: "length (restack i fs) = length fs"
  by (cases fs) simp_all

lemma link_append: "stack_below (length ns) fs \<Longrightarrow> link i fs (ns @ ms) = link i fs ns @ ms"
  by (cases fs) (auto simp: stack_below_def Let_def list_update_append nth_append split: option.split)

lemma restack_below: "stack_below i fs \<Longrightarrow> stack_below (Suc i) (restack i fs)"
  by (cases fs) (auto simp: stack_below_def less_Suc_eq)

lemma stack_below_mono: "stack_below i fs \<Longrightarrow> i \<le> k \<Longrightarrow> stack_below k fs"
  by (force simp: stack_below_def)

lemma take_pending_snoc:
  "jr_nodes r = ns @ [n] \<Longrightarrow> jn_key n = None \<Longrightarrow>
   take_pending (length ns) r = r\<lparr>jr_nodes := ns @ [n\<lparr>jn_key := jr_pending r\<rparr>], jr_pending := None\<rparr>"
  by (cases r; cases n) (auto simp: take_pending_def set_node_def split: option.split)

text \<open>The reader once it has read \<open>j\<close>.\<close>

definition after_value :: "json \<Rightarrow> json_reader \<Rightarrow> json_reader" where
  "after_value j r =
     r\<lparr>jr_at := jr_at r + length (json_text j), jr_out := jr_out r @ json_bytes j, jr_pending := None,
       jr_stack := restack (length (jr_nodes r)) (jr_stack r),
       jr_nodes := link (length (jr_nodes r)) (jr_stack r) (jr_nodes r) @
         flat (length (jr_nodes r)) (length (jr_out r)) (jr_pending r) None j\<rparr>"

lemma loop_next: "read_turn inp m r = Next m' r' \<Longrightarrow> json_read_loop inp m r = json_read_loop inp m' r'"
  by (subst json_read_loop.simps) simp

text \<open>A value that is one node.\<close>

lemma scalar_turn:
  assumes one: "read_one inp (inp ! jr_at r) r = Inr (length (jr_nodes r),
      r\<lparr>jr_at := jr_at r + length (json_text j), jr_out := jr_out r @ json_bytes j,
        jr_nodes := jr_nodes r @ [head_node (length (jr_nodes r)) (length (jr_out r)) None None 0 j]\<rparr>)"
    and j: "elems j = []" "inp ! jr_at r \<noteq> 123" "inp ! jr_at r \<noteq> 91"
    and at: "jr_at r < length inp" "skip_space inp r = r" and below: "stack_below (length (jr_nodes r)) (jr_stack r)"
  shows "read_turn inp Read_Value r = Next Value_Read (after_value j r)"
proof -
  let ?n = "head_node (length (jr_nodes r)) (length (jr_out r)) None None 0 j"
  have "jn_key ?n = None" "?n\<lparr>jn_key := jr_pending r\<rparr> = head_node (length (jr_nodes r)) (length (jr_out r)) (jr_pending r) None 0 j"
    by (simp_all add: head_node_def)
  with one j at below show ?thesis
    by (simp add: value_turn_def Let_def take_pending_snoc [where ns = "jr_nodes r" and n = ?n] attach_link
        link_append after_value_def flat.simps)
qed

subsection \<open>Reading a value\<close>

text \<open>Where the reader stands when a value is to be read, and what it has room for.\<close>

definition stands :: "bytes \<Rightarrow> json_reader \<Rightarrow> bool" where
  "stands inp r \<longleftrightarrow> jr_at r \<le> length inp \<and> length inp < 2 ^ 31 \<and> length (jr_nodes r) \<le> jr_at r \<and>
     length (jr_out r) \<le> jr_at r \<and> stack_below (length (jr_nodes r)) (jr_stack r)"

definition reads_back :: "bytes \<Rightarrow> json \<Rightarrow> bool" where
  "reads_back inp j \<longleftrightarrow> (\<forall>r rest. drop (jr_at r) inp = json_text j @ rest \<longrightarrow> stops rest \<longrightarrow> stands inp r \<longrightarrow>
     json_depth j + length (jr_stack r) \<le> NCFG_JSON_MAX_DEPTH \<longrightarrow>
     json_read_loop inp Read_Value r = json_read_loop inp Value_Read (after_value j r))"

lemma new_node_stands:
  "stands inp r \<Longrightarrow> jr_at r < length inp \<Longrightarrow> jr_nodes r' = jr_nodes r \<Longrightarrow> new_node r' t = Inr (length (jr_nodes r),
     r'\<lparr>jr_nodes := jr_nodes r @ [\<lparr>jn_type = t, jn_key = None, jn_value = (0, 0), jn_bool = False,
       jn_first_child = None, jn_child_count = 0, jn_next_sibling = None\<rparr>]\<rparr>)"
  by (simp add: stands_def new_node_def)

lemma scalar_reads_back:
  assumes one: "\<And>r rest. drop (jr_at r) inp = json_text j @ rest \<Longrightarrow> stops rest \<Longrightarrow> stands inp r \<Longrightarrow> jr_at r < length inp \<Longrightarrow>
      read_one inp (hd (json_text j)) r = Inr (length (jr_nodes r),
        r\<lparr>jr_at := jr_at r + length (json_text j), jr_out := jr_out r @ json_bytes j,
          jr_nodes := jr_nodes r @ [head_node (length (jr_nodes r)) (length (jr_out r)) None None 0 j]\<rparr>)"
    and j: "elems j = []" "json_text j \<noteq> []" "hd (json_text j) \<noteq> 123" "hd (json_text j) \<noteq> 91" "\<not> json_space (hd (json_text j))"
  shows "reads_back inp j"
  unfolding reads_back_def
proof (intro allI impI)
  fix r rest
  assume d: "drop (jr_at r) inp = json_text j @ rest" "stops rest" and st: "stands inp r"
  from d(1) j(2) obtain y ys where y: "json_text j = y # ys" "drop (jr_at r) inp = y # ys @ rest" by (cases "json_text j") auto
  note dr = drop_ConsD [OF y(2)]
  have "skip_space inp r = r" using skip_space_none [of "y # ys @ rest" r inp] j(5) y by simp
  with one [OF d st dr(1)] j dr(1,2) y(1) st show "json_read_loop inp Read_Value r = json_read_loop inp Value_Read (after_value j r)"
    by (intro loop_next scalar_turn) (simp_all add: stands_def)
qed

lemma null_reads_back: "reads_back inp JNull"
proof (rule scalar_reads_back)
  fix r rest
  assume d: "drop (jr_at r) inp = json_text JNull @ rest" and st: "stands inp r" "jr_at r < length inp"
  let ?r = "\<lambda>n. r\<lparr>jr_nodes := jr_nodes r @ [n]\<rparr>"
  have "literal inp ''null'' (?r n) = Some ((?r n)\<lparr>jr_at := jr_at (?r n) + length ''null''\<rparr>)" for n
    using d st(2) by (intro literal_word [where rest = rest]) simp_all
  with new_node_stands [OF st, of r TNull]
  show "read_one inp (hd (json_text JNull)) r = Inr (length (jr_nodes r),
      r\<lparr>jr_at := jr_at r + length (json_text JNull), jr_out := jr_out r @ json_bytes JNull,
        jr_nodes := jr_nodes r @ [head_node (length (jr_nodes r)) (length (jr_out r)) None None 0 JNull]\<rparr>)"
    by (simp add: read_one_def head_node_def)
qed (simp_all add: json_space_def)

lemma bool_reads_back: "reads_back inp (JBool v)"
proof (rule scalar_reads_back)
  fix r rest
  assume d: "drop (jr_at r) inp = json_text (JBool v) @ rest" and st: "stands inp r" "jr_at r < length inp"
  let ?r = "\<lambda>n. r\<lparr>jr_nodes := jr_nodes r @ [n]\<rparr>"
  have t: "v \<Longrightarrow> literal inp ''true'' (?r n) = Some ((?r n)\<lparr>jr_at := jr_at (?r n) + length ''true''\<rparr>)" for n
    using d st(2) by (intro literal_word [where rest = rest]) simp_all
  have f: "\<not> v \<Longrightarrow> literal inp ''false'' (?r n) = Some ((?r n)\<lparr>jr_at := jr_at (?r n) + length ''false''\<rparr>)" for n
    using d st(2) by (intro literal_word [where rest = rest]) simp_all
  have "\<not> v \<Longrightarrow> literal inp ''true'' (?r n) = None" for n
    using d by (simp add: literal_def slice_def)
  with t f new_node_stands [OF st, of r TBool]
  show "read_one inp (hd (json_text (JBool v))) r = Inr (length (jr_nodes r),
      r\<lparr>jr_at := jr_at r + length (json_text (JBool v)), jr_out := jr_out r @ json_bytes (JBool v),
        jr_nodes := jr_nodes r @ [head_node (length (jr_nodes r)) (length (jr_out r)) None None 0 (JBool v)]\<rparr>)"
    by (cases v) (simp_all add: read_one_def head_node_def set_node_def)
qed (simp_all add: json_space_def)

lemma decimal_int_hd: "hd (decimal_int i) = 45 \<or> is_digit (hd (decimal_int i))"
  using decimal_digits [of "hd (decimal (nat i))" "nat i"] by (simp add: decimal_int_def)

lemma number_reads_back: "reads_back inp (JNumber (decimal_int i))"
proof (rule scalar_reads_back)
  let ?j = "JNumber (decimal_int i)"
  have h: "hd (decimal_int i) \<notin> {123, 91, 34, 116, 102, 110, 32, 9, 13, 10}"
    using decimal_int_hd [of i] by (auto simp: is_digit_unat)
  then show "hd (json_text ?j) \<noteq> 123" "hd (json_text ?j) \<noteq> 91" "\<not> json_space (hd (json_text ?j))"
    by (simp_all add: json_space_def)
  fix r rest
  assume d: "drop (jr_at r) inp = json_text ?j @ rest" "stops rest" and st: "stands inp r" "jr_at r < length inp"
  from drop_append_length [OF d(1)] st have len: "length (decimal_int i) < 2 ^ 31" "length (jr_out r) < 2 ^ 31"
    by (auto simp: stands_def)
  let ?r = "\<lambda>n. r\<lparr>jr_nodes := jr_nodes r @ [n]\<rparr>"
  have "parse_number inp (?r n) = Inr ((length (jr_out r), length (decimal_int i)),
      (?r n)\<lparr>jr_at := jr_at r + length (decimal_int i), jr_out := jr_out r @ decimal_int i\<rparr>)" for n
    using parse_number_int [of "?r n" inp i rest] d st len by (simp add: stands_def)
  with h new_node_stands [OF st, of r TNumber]
  show "read_one inp (hd (json_text ?j)) r = Inr (length (jr_nodes r),
      r\<lparr>jr_at := jr_at r + length (json_text ?j), jr_out := jr_out r @ json_bytes ?j,
        jr_nodes := jr_nodes r @ [head_node (length (jr_nodes r)) (length (jr_out r)) None None 0 ?j]\<rparr>)"
    by (simp add: read_one_def with_value_def head_node_def set_node_def)
qed (simp_all add: decimal_int_nonempty)

lemma string_reads_back: "reads_back inp (JString s)"
proof (rule scalar_reads_back)
  let ?j = "JString s"
  fix r rest
  assume d: "drop (jr_at r) inp = json_text ?j @ rest" and st: "stands inp r" "jr_at r < length inp"
  from drop_append_length [OF d(1)] st length_json_quoted [of s] have len: "length (jr_out r) + length s < 2 ^ 32"
    by (auto simp: stands_def)
  let ?r = "\<lambda>n. r\<lparr>jr_at := jr_at r + 1, jr_nodes := jr_nodes r @ [n]\<rparr>"
  have "parse_string inp (?r n) = Inr ((length (jr_out r), length s),
      (?r n)\<lparr>jr_at := jr_at r + length (json_quoted s), jr_out := jr_out r @ s\<rparr>)" for n
    using parse_string_quoted [of "r\<lparr>jr_nodes := jr_nodes r @ [n]\<rparr>" inp s rest] d len by (cases r) simp
  with new_node_stands [OF st, of "r\<lparr>jr_at := jr_at r + 1\<rparr>" TString]
  show "read_one inp (hd (json_text ?j)) r = Inr (length (jr_nodes r),
      r\<lparr>jr_at := jr_at r + length (json_text ?j), jr_out := jr_out r @ json_bytes ?j,
        jr_nodes := jr_nodes r @ [head_node (length (jr_nodes r)) (length (jr_out r)) None None 0 ?j]\<rparr>)"
    by (simp add: read_one_def with_value_def head_node_def set_node_def json_quoted_def)
qed (simp_all add: json_quoted_def json_space_def)

subsection \<open>Containers\<close>

text \<open>Inside the container \<open>j\<close>, at \<open>a\<close>, with the members \<open>es\<close> read.\<close>

definition inside :: "nat \<Rightarrow> json \<Rightarrow> json_reader \<Rightarrow> json_elem list \<Rightarrow> json_reader" where
  "inside a j r es =
     (let i = length (jr_nodes r) in
      r\<lparr>jr_at := a, jr_out := jr_out r @ elems_bytes es, jr_pending := None,
        jr_stack := \<lparr>sf_node = i, sf_last_child = (if es = [] then None else Some (Suc i + last_root es)),
          sf_is_object = (json_kind j = TObject)\<rparr> # restack i (jr_stack r),
        jr_nodes := link i (jr_stack r) (jr_nodes r) @
          head_node i (length (jr_out r)) (jr_pending r) None (length es) j # flats (Suc i) (length (jr_out r)) es\<rparr>)"

lemma inside_fields:
  "jr_at (inside a j r es) = a" "jr_out (inside a j r es) = jr_out r @ elems_bytes es" "jr_pending (inside a j r es) = None"
  "length (jr_nodes (inside a j r es)) = Suc (length (jr_nodes r) + elems_count es)"
  "length (jr_stack (inside a j r es)) = Suc (length (jr_stack r))"
  by (simp_all add: inside_def Let_def length_flats)

lemma inside_below:
  assumes "stack_below (length (jr_nodes r)) (jr_stack r)"
  shows "stack_below (length (jr_nodes (inside a j r es))) (jr_stack (inside a j r es))"
proof -
  let ?i = "length (jr_nodes r)"
  from restack_below [OF assms] have "stack_below (Suc (?i + elems_count es)) (restack ?i (jr_stack r))"
    by (rule stack_below_mono) simp
  moreover have "es \<noteq> [] \<Longrightarrow> last_root es < elems_count es" by (rule last_root_less)
  ultimately show ?thesis by (auto simp: inside_fields(4)) (auto simp: inside_def Let_def stack_below_def)
qed

text \<open>Reading one more member extends the container by it.\<close>

lemma inside_link:
  "link (Suc (length ns + elems_count es))
     (\<lparr>sf_node = length ns, sf_last_child = (if es = [] then None else Some (Suc (length ns) + last_root es)), sf_is_object = b\<rparr> # fs)
     (ns @ head_node (length ns) ofs key None (length es) j # flats (Suc (length ns)) ofs es) =
   ns @ head_node (length ns) ofs key None (Suc (length es)) j #
     (if es = [] then [] else (flats (Suc (length ns)) ofs es)[last_root es :=
        (flats (Suc (length ns)) ofs es ! last_root es)\<lparr>jn_next_sibling := Some (Suc (length ns) + elems_count es)\<rparr>])"
  by (cases "es = []") (simp_all add: head_node_def nth_append list_update_append)

lemma after_member:
  assumes "length (jr_nodes r) = i"
  shows "after_value j1 ((inside a j r es)\<lparr>jr_pending := map_option (\<lambda>k. (length (jr_out r) + length (elems_bytes es), length k)) k,
      jr_at := a1, jr_out := jr_out r @ elems_bytes es @ (case k of None \<Rightarrow> [] | Some k \<Rightarrow> k)\<rparr>) =
    inside (a1 + length (json_text j1)) j r (es @ [(k, j1)])"
proof -
  let ?ofs = "length (jr_out r)"
  note snoc = flats_snoc [of "Suc i" ?ofs es k j1]
  have klen: "length (case k of None \<Rightarrow> [] | Some k \<Rightarrow> k) = name_length k" by (simp split: option.split)
  let ?ns = "link i (jr_stack r) (jr_nodes r)" and ?fs = "restack i (jr_stack r)"
  note linked = inside_link [of ?ns es "json_kind j = TObject" ?fs ?ofs "jr_pending r" j, unfolded length_link assms]
  show ?thesis
  proof (rule json_reader.equality)
    show "jr_nodes (after_value j1 ((inside a j r es)\<lparr>jr_pending := map_option (\<lambda>k. (?ofs + length (elems_bytes es), length k)) k,
        jr_at := a1, jr_out := jr_out r @ elems_bytes es @ (case k of None \<Rightarrow> [] | Some k \<Rightarrow> k)\<rparr>)) =
      jr_nodes (inside (a1 + length (json_text j1)) j r (es @ [(k, j1)]))"
      by (simp add: after_value_def inside_def Let_def assms length_flats klen snoc linked add.assoc del: link.simps)
  qed (simp_all add: after_value_def inside_def Let_def assms length_flats elem_bytes_def split: option.split)
qed

lemma key_turn_reads:
  assumes d: "drop (jr_at r) inp = json_quoted k @ 58 # rest" and st: "stands inp r"
  shows "read_turn inp Expect_Key r = Next Read_Value
    (r\<lparr>jr_pending := Some (length (jr_out r), length k), jr_at := jr_at r + length (json_quoted k) + 1, jr_out := jr_out r @ k\<rparr>)"
proof -
  let ?r = "r\<lparr>jr_at := jr_at r + length (json_quoted k), jr_out := jr_out r @ k\<rparr>"
  from d have d1: "drop (jr_at r) inp = 34 # concat (map json_escape k) @ [34] @ 58 # rest" by (simp add: json_quoted_def)
  have s1: "skip_space inp r = r" using skip_space_none [OF _ d1] by (simp add: json_space_def)
  have d2: "drop (jr_at ?r) inp = 58 # rest" using drop_appendD [OF d] by simp
  have s2: "skip_space inp ?r = ?r" using skip_space_none [OF _ d2] by (simp add: json_space_def)
  from drop_append_length [OF d] st length_json_quoted [of k] have "length (jr_out r) + length k < 2 ^ 32"
    by (auto simp: stands_def)
  note ps = parse_string_quoted [OF d this]
  show ?thesis
    using drop_ConsD(1,2) [OF d1] drop_ConsD(1,2) [OF d2] s1 s2 ps by (cases r) (simp add: key_turn_def Let_def)
qed

definition member_mode :: "json \<Rightarrow> read_mode" where
  "member_mode j = (if json_kind j = TObject then Expect_Key else Read_Value)"

lemma comma_turn:
  assumes "drop a inp = 44 # rest"
  shows "read_turn inp Value_Read (inside a j r es) = Next (member_mode j) (inside (Suc a) j r es)"
proof -
  have "skip_space inp (inside a j r es) = inside a j r es"
    using skip_space_none [of "44 # rest" "inside a j r es" inp] assms by (simp add: inside_fields json_space_def)
  with drop_ConsD(1,2) [OF assms] show ?thesis
    by (simp add: close_turn_def inside_fields member_mode_def) (simp add: inside_def Let_def)
qed

lemma member_read:
  assumes rb: "reads_back inp j1" and d: "drop a inp = elem_text (k, j1) @ rest" "stops rest"
    and k: "k = None \<longleftrightarrow> json_kind j \<noteq> TObject" and st: "stands inp (inside a j r es)"
    and depth: "json_depth j1 + Suc (length (jr_stack r)) \<le> NCFG_JSON_MAX_DEPTH"
  shows "json_read_loop inp (member_mode j) (inside a j r es) =
    json_read_loop inp Value_Read (inside (a + length (elem_text (k, j1))) j r (es @ [(k, j1)]))"
proof (cases k)
  case None
  have same: "(inside a j r es)\<lparr>jr_pending := None, jr_at := a, jr_out := jr_out r @ elems_bytes es\<rparr> = inside a j r es"
    by (cases r) (simp add: inside_def Let_def)
  from d None have dv: "drop (jr_at (inside a j r es)) inp = json_text j1 @ rest"
    by (simp add: inside_fields elem_text_def)
  from rb [unfolded reads_back_def, rule_format, OF dv d(2) st] depth
  have "json_read_loop inp Read_Value (inside a j r es) =
      json_read_loop inp Value_Read (after_value j1 (inside a j r es))"
    by (simp add: inside_fields)
  with after_member [OF refl, where ?j1.0 = j1 and a = a and j = j and r = r and es = es and k = None and ?a1.0 = a] None k same show ?thesis
    by (simp add: member_mode_def elem_text_def)
next
  case (Some n)
  let ?r = "inside a j r es" and ?q = "length (json_quoted n)"
  let ?r1 = "?r\<lparr>jr_pending := Some (length (jr_out r) + length (elems_bytes es), length n), jr_at := a + ?q + 1,
    jr_out := jr_out r @ elems_bytes es @ n\<rparr>"
  from d Some have dk: "drop (jr_at ?r) inp = json_quoted n @ 58 # json_text j1 @ rest"
    by (simp add: inside_fields elem_text_def)
  from drop_appendD [OF dk] have "drop (a + ?q) inp = 58 # json_text j1 @ rest" by (simp add: inside_fields)
  note dv = drop_ConsD [OF this]
  from key_turn_reads [OF dk st] have key: "read_turn inp Expect_Key ?r = Next Read_Value ?r1"
    by (simp add: inside_fields)
  have "stands inp ?r1"
    using st dv(1) length_json_quoted [of n] by (simp add: stands_def inside_fields)
  with rb [unfolded reads_back_def, rule_format, of ?r1 rest] dv(3) d(2) depth
  have "json_read_loop inp Read_Value ?r1 = json_read_loop inp Value_Read (after_value j1 ?r1)"
    by (simp add: inside_fields)
  with loop_next [OF key] after_member [OF refl, where ?j1.0 = j1 and a = a and j = j and r = r and es = es and k = k and ?a1.0 = "a + ?q + 1"] Some k show ?thesis
    by (simp add: member_mode_def elem_text_def add.assoc)
qed

lemma members_read:
  assumes below: "stack_below (length (jr_nodes r)) (jr_stack r)"
    and "todo \<noteq> []" "\<And>e. e \<in> set todo \<Longrightarrow> written (snd e) \<and> reads_back inp (snd e) \<and>
      json_depth (snd e) + Suc (length (jr_stack r)) \<le> NCFG_JSON_MAX_DEPTH \<and> (fst e = None \<longleftrightarrow> json_kind j \<noteq> TObject)"
    "drop a inp = commas (map elem_text todo) @ rest" "stops rest" "stands inp (inside a j r es)"
  shows "json_read_loop inp (member_mode j) (inside a j r es) =
    json_read_loop inp Value_Read (inside (a + length (commas (map elem_text todo))) j r (es @ todo))"
  using assms(2-)
proof (induction todo arbitrary: a es)
  case (Cons e todo)
  obtain k j1 where e: "e = (k, j1)" by (cases e)
  let ?a = "a + length (elem_text e)"
  have e1: "written j1" "reads_back inp j1" "json_depth j1 + Suc (length (jr_stack r)) \<le> NCFG_JSON_MAX_DEPTH"
    "k = None \<longleftrightarrow> json_kind j \<noteq> TObject" using Cons.prems(2) [of e] e by auto
  show ?case
  proof (cases todo)
    case Nil
    with member_read [OF e1(2) _ Cons.prems(4) e1(4) Cons.prems(5) e1(3)] Cons.prems(3) e show ?thesis by simp
  next
    case (Cons e' todo')
    with Cons.prems(3) have d: "drop a inp = elem_text e @ 44 # commas (map elem_text todo) @ rest" by simp
    with member_read [OF e1(2) _ _ e1(4) Cons.prems(5) e1(3)] e
    have one: "json_read_loop inp (member_mode j) (inside a j r es) =
        json_read_loop inp Value_Read (inside ?a j r (es @ [e]))" by simp
    note dc = drop_ConsD [OF drop_appendD [OF d]]
    have st: "stands inp (inside (Suc ?a) j r (es @ [e]))"
      using Cons.prems(5) elem_bounds [of e] e1(1) e dc(1) inside_below [OF below, of "Suc ?a" j "es @ [e]"]
      by (simp add: stands_def inside_fields)
    from Cons.IH [OF _ _ dc(3) Cons.prems(4) st] Cons.prems(2) Cons
    have "json_read_loop inp (member_mode j) (inside (Suc ?a) j r (es @ [e])) =
        json_read_loop inp Value_Read (inside (Suc ?a + length (commas (map elem_text todo))) j r ((es @ [e]) @ todo))" by simp
    with one loop_next [OF comma_turn [OF drop_appendD [OF d], of j r "es @ [e]"]] Cons show ?thesis
      by (simp add: add.assoc)
  qed
qed simp

lemma json_text_hd:
  assumes "written j"
  shows "json_text j \<noteq> [] \<and> \<not> json_space (hd (json_text j)) \<and> hd (json_text j) \<notin> {44, 93, 125}"
  using assms
proof (cases rule: written.cases)
  case (3 i)
  have "hd (decimal_int i) \<notin> {32, 9, 13, 10, 44, 93, 125}"
    using decimal_int_hd [of i] by (auto simp: is_digit_unat)
  with 3 decimal_int_nonempty [of i] show ?thesis by (simp add: json_space_def)
qed (auto simp: json_space_def json_quoted_def)

lemma elem_text_hd:
  assumes "written (snd e)"
  shows "elem_text e \<noteq> [] \<and> \<not> json_space (hd (elem_text e)) \<and> hd (elem_text e) \<notin> {44, 93, 125}"
  using json_text_hd [OF assms] by (auto simp: elem_text_def json_quoted_def json_space_def split: option.split)

lemma commas_hd:
  assumes "es \<noteq> []" "\<And>e. e \<in> set es \<Longrightarrow> written (snd e)"
  shows "commas (map elem_text es) \<noteq> []" "\<not> json_space (hd (commas (map elem_text es)))"
    "hd (commas (map elem_text es)) \<notin> {44, 93, 125}"
proof -
  from assms(1) obtain e es' where es: "es = e # es'" by (cases es) auto
  then have "commas (map elem_text es) = elem_text e \<or> (\<exists>xs. commas (map elem_text es) = elem_text e @ xs)"
    by (cases es') auto
  with elem_text_hd [of e] assms(2) [of e] es
  show "commas (map elem_text es) \<noteq> []" "\<not> json_space (hd (commas (map elem_text es)))"
    "hd (commas (map elem_text es)) \<notin> {44, 93, 125}" by auto
qed

text \<open>The brackets of a container.\<close>

definition opens :: "json \<Rightarrow> byte" where
  "opens j = (if json_kind j = TObject then 123 else 91)"

definition closes :: "json \<Rightarrow> byte" where
  "closes j = (if json_kind j = TObject then 125 else 93)"

lemma container_text:
  "json_kind j \<in> {TArray, TObject} \<Longrightarrow> json_text j = opens j # commas (map elem_text (elems j)) @ [closes j]"
  by (cases j) (simp_all add: opens_def closes_def elem_text_def comp_def)

lemma container_bytes: "json_kind j \<in> {TArray, TObject} \<Longrightarrow> json_bytes j = elems_bytes (elems j)"
  by (cases j) (simp_all add: elem_bytes_def comp_def)

lemma bracket_no_space: "\<not> json_space (opens j)" "\<not> json_space (closes j)"
  by (simp_all add: opens_def closes_def json_space_def)

lemma inside_stack:
  "jr_stack (inside a j r es) = \<lparr>sf_node = length (jr_nodes r),
     sf_last_child = (if es = [] then None else Some (Suc (length (jr_nodes r)) + last_root es)),
     sf_is_object = (json_kind j = TObject)\<rparr> # restack (length (jr_nodes r)) (jr_stack r)"
  by (simp add: inside_def Let_def)

lemma inside_closed:
  assumes "json_kind j \<in> {TArray, TObject}" "Suc a = jr_at r + length (json_text j)"
  shows "(inside a j r (elems j))\<lparr>jr_at := Suc a, jr_stack := restack (length (jr_nodes r)) (jr_stack r)\<rparr> = after_value j r"
  using assms(2) container_bytes [OF assms(1)]
  by (intro json_reader.equality) (simp_all add: inside_def after_value_def Let_def flat.simps)

lemma close_turn_reads:
  assumes d: "drop a inp = closes j # rest" and j: "json_kind j \<in> {TArray, TObject}"
    and a: "Suc a = jr_at r + length (json_text j)"
  shows "read_turn inp Value_Read (inside a j r (elems j)) = Next Value_Read (after_value j r)"
proof -
  have "skip_space inp (inside a j r (elems j)) = inside a j r (elems j)"
    using skip_space_none [of "closes j # rest" "inside a j r (elems j)" inp] d
    by (simp add: inside_fields bracket_no_space)
  with drop_ConsD(1,2) [OF d] j inside_closed [OF j a] show ?thesis
    by (auto simp: close_turn_def inside_fields(1) inside_stack closes_def)
qed

text \<open>Opening a container: it is closed at once, or its first member is read.\<close>

lemma open_turn:
  assumes d: "drop (jr_at r) inp = opens j # y # ys" and y: "\<not> json_space y" and j: "json_kind j \<in> {TArray, TObject}"
    and depth: "length (jr_stack r) < NCFG_JSON_MAX_DEPTH" and st: "stands inp r"
  shows "read_turn inp Read_Value r =
    (if y = closes j
     then Next Value_Read ((inside (Suc (jr_at r)) j r [])\<lparr>jr_at := Suc (Suc (jr_at r)), jr_stack := restack (length (jr_nodes r)) (jr_stack r)\<rparr>)
     else Next (member_mode j) (inside (Suc (jr_at r)) j r []))"
proof -
  note d1 = drop_ConsD [OF d] and d2 = drop_ConsD [OF drop_ConsD(3) [OF d]]
  let ?i = "length (jr_nodes r)" and ?n = "head_node (length (jr_nodes r)) (length (jr_out r)) None None 0 j"
  have s1: "skip_space inp r = r" using skip_space_none [OF _ d] by (simp add: bracket_no_space)
  have one: "read_one inp (opens j) r = Inr (?i, r\<lparr>jr_at := Suc (jr_at r), jr_nodes := jr_nodes r @ [?n]\<rparr>)"
    using new_node_stands [OF st d1(1), of "r\<lparr>jr_at := Suc (jr_at r)\<rparr>"] depth j
    by (cases j) (auto simp: read_one_def opens_def head_node_def)
  have "jn_key ?n = None" "?n\<lparr>jn_key := jr_pending r\<rparr> = head_node ?i (length (jr_out r)) (jr_pending r) None 0 j"
    by (simp_all add: head_node_def)
  with st have att: "attach ?i (take_pending ?i (r\<lparr>jr_at := Suc (jr_at r), jr_nodes := jr_nodes r @ [?n]\<rparr>)) =
      (inside (Suc (jr_at r)) j r [])\<lparr>jr_stack := restack ?i (jr_stack r)\<rparr>"
    by (simp add: take_pending_snoc [where ns = "jr_nodes r" and n = ?n] attach_link link_append stands_def inside_def Let_def)
  have pushed: "(inside (Suc (jr_at r)) j r [])\<lparr>jr_stack := \<lparr>sf_node = ?i, sf_last_child = None, sf_is_object = (opens j = 123)\<rparr> # restack ?i (jr_stack r)\<rparr> =
      inside (Suc (jr_at r)) j r []"
    by (auto simp: inside_def Let_def opens_def)
  have s2: "skip_space inp (inside (Suc (jr_at r)) j r []) = inside (Suc (jr_at r)) j r []"
    using skip_space_none [of "y # ys" "inside (Suc (jr_at r)) j r []" inp] y d1(3) by (simp add: inside_fields)
  from j consider "json_kind j = TArray" "opens j = 91" "closes j = 93" | "json_kind j = TObject" "opens j = 123" "closes j = 125"
    by (auto simp: opens_def closes_def)
  then show ?thesis
    using d1(1,2) d2(1,2) s1 s2 one att pushed
    by cases (simp_all add: value_turn_def Let_def inside_fields(1) member_mode_def)
qed

lemma container_reads_back:
  assumes j: "json_kind j \<in> {TArray, TObject}"
    and es: "\<And>e. e \<in> set (elems j) \<Longrightarrow> written (snd e) \<and> reads_back inp (snd e) \<and> json_depth (snd e) < json_depth j"
    and name: "\<And>e. e \<in> set (elems j) \<Longrightarrow> fst e = None \<longleftrightarrow> json_kind j \<noteq> TObject"
  shows "reads_back inp j"
  unfolding reads_back_def
proof (intro allI impI)
  fix r rest
  assume d: "drop (jr_at r) inp = json_text j @ rest" and stop: "stops rest" and st: "stands inp r"
    and depth: "json_depth j + length (jr_stack r) \<le> NCFG_JSON_MAX_DEPTH"
  have dep: "length (jr_stack r) < NCFG_JSON_MAX_DEPTH" using depth j by (cases j) auto
  let ?c = "commas (map elem_text (elems j))" and ?a = "Suc (jr_at r)"
  from d have d1: "drop (jr_at r) inp = opens j # ?c @ closes j # rest" by (simp add: container_text [OF j])
  show "json_read_loop inp Read_Value r = json_read_loop inp Value_Read (after_value j r)"
  proof (cases "elems j = []")
    case True
    with d1 open_turn [OF _ bracket_no_space(2) j dep st] inside_closed [OF j, of "Suc (jr_at r)" r] container_text [OF j]
    show ?thesis by (intro loop_next) simp
  next
    case False
    from commas_hd [OF False] es have c: "?c \<noteq> []" "\<not> json_space (hd ?c)" "hd ?c \<notin> {44, 93, 125}" by auto
    then obtain y ys where y: "?c = y # ys" by (cases ?c) auto
    with c have "\<not> json_space y" "y \<noteq> closes j" by (auto simp: closes_def)
    with open_turn [OF _ _ j dep st, of y "ys @ closes j # rest"] d1 y
    have one: "json_read_loop inp Read_Value r = json_read_loop inp (member_mode j) (inside ?a j r [])"
      by (intro loop_next) simp
    note dr = drop_ConsD [OF d1]
    have below: "stack_below (length (jr_nodes r)) (jr_stack r)" using st by (simp add: stands_def)
    have st1: "stands inp (inside ?a j r [])"
      using st dr(1) inside_below [OF below, of ?a j "[]"] by (simp add: stands_def inside_fields)
    have "json_read_loop inp (member_mode j) (inside ?a j r []) =
        json_read_loop inp Value_Read (inside (?a + length ?c) j r ([] @ elems j))"
      using es name depth by (intro members_read [OF below False _ dr(3) _ st1]) (force simp: closes_def)+
    moreover have "read_turn inp Value_Read (inside (?a + length ?c) j r (elems j)) = Next Value_Read (after_value j r)"
      using drop_appendD [OF dr(3)] container_text [OF j] by (intro close_turn_reads [OF _ j]) simp_all
    ultimately show ?thesis using one loop_next by simp
  qed
qed

lemma elems_depth: "e \<in> set (elems j) \<Longrightarrow> json_depth (snd e) < json_depth j"
proof -
  have mx: "x \<in> set xs \<Longrightarrow> x \<le> fold max xs (0 :: nat)" for x xs using fold_max_bound [of xs 0 "fold max xs 0"] by simp
  show "e \<in> set (elems j) \<Longrightarrow> json_depth (snd e) < json_depth j"
    by (cases j) (auto simp: less_Suc_eq_le intro!: mx, force simp: image_iff)
qed

lemma written_reads_back: "written j \<Longrightarrow> reads_back inp j"
proof (induction rule: written.induct)
  case (5 js)
  show ?case
  proof (rule container_reads_back)
    fix e
    assume e: "e \<in> set (elems (JArray js))"
    with 5 elems_depth [OF e] show "written (snd e) \<and> reads_back inp (snd e) \<and> json_depth (snd e) < json_depth (JArray js)"
      by auto
  qed auto
next
  case (6 ms)
  show ?case
  proof (rule container_reads_back)
    fix e
    assume e: "e \<in> set (elems (JObject ms))"
    then obtain k j where "e = (Some k, j)" "(k, j) \<in> set ms" by auto
    with 6 [of k j] elems_depth [OF e]
    show "written (snd e) \<and> reads_back inp (snd e) \<and> json_depth (snd e) < json_depth (JObject ms)" by simp
  qed auto
qed (simp_all add: null_reads_back bool_reads_back number_reads_back string_reads_back)

subsection \<open>Reading a document back\<close>

text \<open>
  The tree under a node, seen through the accessors: its kind, its value, and its members in the
  order of \<^verbatim>\<open>ncfg_json_at\<close>.
\<close>

definition members :: "json_doc \<Rightarrow> nat \<Rightarrow> nat list option" where
  "members doc i = those (map (ncfg_json_at doc (Some i)) [0..<ncfg_json_count doc (Some i)])"

definition with_name :: "bytes option \<Rightarrow> json option \<Rightarrow> (bytes \<times> json) option" where
  "with_name k j = (case (k, j) of (Some k, Some j) \<Rightarrow> Some (k, j) | _ \<Rightarrow> None)"

fun doc_tree :: "nat \<Rightarrow> json_doc \<Rightarrow> nat \<Rightarrow> json option" where
  "doc_tree 0 doc i = None"
| "doc_tree (Suc fuel) doc i =
     (case ncfg_json_type doc (Some i) of
        TNull \<Rightarrow> Some JNull
      | TBool \<Rightarrow> Some (JBool (ncfg_json_bool doc (Some i) False))
      | TNumber \<Rightarrow> map_option (\<lambda>n. JNumber (piece doc (jn_value n))) (ncfg_json_node doc (Some i))
      | TString \<Rightarrow> map_option JString (ncfg_json_string doc (Some i))
      | TArray \<Rightarrow>
          (case members doc i of
             None \<Rightarrow> None
           | Some cs \<Rightarrow> map_option JArray (those (map (doc_tree fuel doc) cs)))
      | TObject \<Rightarrow>
          (case members doc i of
             None \<Rightarrow> None
           | Some cs \<Rightarrow> map_option JObject
               (those (map (\<lambda>c. with_name (ncfg_json_key doc (Some c)) (doc_tree fuel doc c)) cs))))"

text \<open>A tree laid out in a document: its nodes from \<open>i\<close> on, its text from \<open>ofs\<close> on.\<close>

definition laid_out :: "json_doc \<Rightarrow> nat \<Rightarrow> nat \<Rightarrow> (nat \<times> nat) option \<Rightarrow> nat option \<Rightarrow> json \<Rightarrow> bool" where
  "laid_out doc i ofs key sibling j \<longleftrightarrow>
     (\<exists>pre post pt qt. jd_nodes doc = pre @ flat i ofs key sibling j @ post \<and> length pre = i \<and>
        jd_text doc = pt @ json_bytes j @ qt \<and> length pt = ofs)"

definition all_laid_out :: "json_doc \<Rightarrow> nat \<Rightarrow> nat \<Rightarrow> json_elem list \<Rightarrow> bool" where
  "all_laid_out doc i ofs es \<longleftrightarrow>
     (\<exists>pre post pt qt. jd_nodes doc = pre @ flats i ofs es @ post \<and> length pre = i \<and>
        jd_text doc = pt @ elems_bytes es @ qt \<and> length pt = ofs)"

lemma laid_out_node:
  assumes "laid_out doc i ofs key sibling j"
  shows "i < length (jd_nodes doc)" "jd_nodes doc ! i = head_node i ofs key sibling (length (elems j)) j"
  using assms by (auto simp: laid_out_def flat.simps nth_append)

lemma elems_bytes_elems: "json_kind j \<in> {TArray, TObject} \<Longrightarrow> elems_bytes (elems j) = json_bytes j"
  by (simp add: container_bytes)

lemma laid_out_elems:
  assumes "laid_out doc i ofs key sibling j" "json_kind j \<in> {TArray, TObject}"
  shows "all_laid_out doc (Suc i) ofs (elems j)"
proof -
  from assms(1) obtain pre post pt qt where p: "jd_nodes doc = pre @ flat i ofs key sibling j @ post" "length pre = i"
    "jd_text doc = pt @ json_bytes j @ qt" "length pt = ofs" by (auto simp: laid_out_def)
  then have "jd_nodes doc = (pre @ [head_node i ofs key sibling (length (elems j)) j]) @ flats (Suc i) ofs (elems j) @ post"
    by (simp add: flat.simps)
  with p(2-) elems_bytes_elems [OF assms(2)] show ?thesis unfolding all_laid_out_def
    by (intro exI [of _ "pre @ [head_node i ofs key sibling (length (elems j)) j]"] exI [of _ post] exI [of _ pt] exI [of _ qt]) simp
qed

lemma all_laid_out_Cons:
  assumes "all_laid_out doc i ofs ((k, j) # es)"
  shows "laid_out doc i (ofs + name_length k) (map_option (\<lambda>k. (ofs, length k)) k) (if es = [] then None else Some (i + node_count j)) j"
    "all_laid_out doc (i + node_count j) (ofs + length (elem_bytes (k, j))) es"
    "\<And>n. k = Some n \<Longrightarrow> piece doc (ofs, length n) = n"
proof -
  let ?f = "flat i (ofs + name_length k) (map_option (\<lambda>k. (ofs, length k)) k) (if es = [] then None else Some (i + node_count j)) j"
  let ?k = "case k of None \<Rightarrow> [] | Some k \<Rightarrow> k"
  have klen: "length ?k = name_length k" by (simp split: option.split)
  from assms obtain pre post pt qt where p: "jd_nodes doc = pre @ ?f @ flats (i + node_count j) (ofs + length (elem_bytes (k, j))) es @ post"
    "length pre = i" "jd_text doc = pt @ ?k @ json_bytes j @ elems_bytes es @ qt" "length pt = ofs"
    by (auto simp: all_laid_out_def elem_bytes_def)
  from p klen show "laid_out doc i (ofs + name_length k) (map_option (\<lambda>k. (ofs, length k)) k) (if es = [] then None else Some (i + node_count j)) j"
    unfolding laid_out_def
    by (intro exI [of _ pre] exI [of _ "flats (i + node_count j) (ofs + length (elem_bytes (k, j))) es @ post"]
        exI [of _ "pt @ ?k"] exI [of _ "elems_bytes es @ qt"]) simp
  from p klen show "all_laid_out doc (i + node_count j) (ofs + length (elem_bytes (k, j))) es"
    unfolding all_laid_out_def
    by (intro exI [of _ "pre @ ?f"] exI [of _ post] exI [of _ "pt @ ?k @ json_bytes j"] exI [of _ qt])
      (simp add: length_flat elem_bytes_def)
  show "\<And>n. k = Some n \<Longrightarrow> piece doc (ofs, length n) = n" using p(3,4) by (simp add: piece_def slice_def)
qed

fun roots :: "nat \<Rightarrow> json_elem list \<Rightarrow> nat list" where
  "roots i [] = []"
| "roots i (e # es) = i # roots (i + node_count (snd e)) es"

lemma length_roots [simp]: "length (roots i es) = length es"
  by (induction es arbitrary: i) simp_all

lemma siblings_roots:
  "all_laid_out doc i ofs es \<Longrightarrow> es \<noteq> [] \<Longrightarrow> length es \<le> fuel \<Longrightarrow> siblings fuel doc (Some i) = roots i es"
proof (induction es arbitrary: i ofs fuel)
  case (Cons e es)
  obtain k j where e: "e = (k, j)" by (cases e)
  obtain f where f: "fuel = Suc f" using Cons.prems(3) by (cases fuel) auto
  note a = all_laid_out_Cons [OF Cons.prems(1) [unfolded e]]
  have nil: "siblings f doc None = []" by (cases f) simp_all
  have "jn_next_sibling (jd_nodes doc ! i) = (if es = [] then None else Some (i + node_count j))"
    using laid_out_node(2) [OF a(1)] by (simp add: head_node_def)
  with Cons.IH [OF a(2), of f] Cons.prems(3) f nil e show ?case by simp
qed simp

lemma those_Some: "those (map Some xs) = Some xs"
  by (induction xs) simp_all

lemma children_roots:
  assumes "laid_out doc i ofs key sibling j" "json_kind j \<in> {TArray, TObject}"
  shows "children doc (jd_nodes doc ! i) = roots (Suc i) (elems j)"
proof -
  note n = laid_out_node [OF assms(1)] and es = laid_out_elems [OF assms]
  have "length xs \<le> elems_count xs" for xs :: "json_elem list"
  proof (induction xs)
    case (Cons e xs)
    with node_count_pos [of "snd e"] show ?case by (simp del: node_count_pos)
  qed simp
  from this [of "elems j"] es have len: "length (elems j) \<le> length (jd_nodes doc)"
    by (auto simp: all_laid_out_def length_flats)
  show ?thesis
  proof (cases "elems j = []")
    case True
    then show ?thesis by (cases "length (jd_nodes doc)") (simp_all add: children_def n(2) head_node_def)
  next
    case False
    with siblings_roots [OF es False len] show ?thesis by (simp add: children_def n(2) head_node_def)
  qed
qed

lemma members_roots:
  assumes "laid_out doc i ofs key sibling j" "json_kind j \<in> {TArray, TObject}"
  shows "members doc i = Some (roots (Suc i) (elems j))"
proof -
  note n = laid_out_node [OF assms(1)]
  from children_roots [OF assms] n assms(2)
  have "map (ncfg_json_at doc (Some i)) [0..<ncfg_json_count doc (Some i)] = map Some (roots (Suc i) (elems j))"
    by (auto simp: ncfg_json_at_def ncfg_json_node_def ncfg_json_count_def head_node_def intro!: nth_equalityI)
  then show ?thesis by (simp add: members_def those_Some)
qed

lemma elems_trees:
  assumes "all_laid_out doc i ofs es"
    "\<And>e i ofs key sibling. e \<in> set es \<Longrightarrow> laid_out doc i ofs key sibling (snd e) \<Longrightarrow> doc_tree fuel doc i = Some (snd e)"
  shows "map (\<lambda>c. (ncfg_json_key doc (Some c), doc_tree fuel doc c)) (roots i es) = map (\<lambda>e. (fst e, Some (snd e))) es"
  using assms
proof (induction es arbitrary: i ofs)
  case (Cons e es)
  obtain k j where e: "e = (k, j)" by (cases e)
  note a = all_laid_out_Cons [OF Cons.prems(1) [unfolded e]]
  have "doc_tree fuel doc i = Some j" using Cons.prems(2) [of e] a(1) e by simp
  moreover have "ncfg_json_key doc (Some i) = k"
    using laid_out_node [OF a(1)] a(3) by (cases k) (simp_all add: ncfg_json_key_def ncfg_json_node_def head_node_def)
  ultimately show ?case using Cons.IH [OF a(2) Cons.prems(2)] e by simp
qed simp

lemma those_map_fst: "map (\<lambda>c. (f c, g c)) cs = map (\<lambda>e. (fst e, Some (snd e))) es \<Longrightarrow>
    map f cs = map fst es \<and> map g cs = map (\<lambda>e. Some (snd e)) es"
  by (induction cs arbitrary: es) auto

lemma laid_out_tree:
  "laid_out doc i ofs key sibling j \<Longrightarrow> json_depth j < fuel \<Longrightarrow> doc_tree fuel doc i = Some j"
proof (induction fuel arbitrary: i ofs key sibling j)
  case (Suc fuel)
  note n = laid_out_node [OF Suc.prems(1)]
  have val: "piece doc (json_value ofs j) = json_bytes j" if "json_kind j \<in> {TNumber, TString}"
    using Suc.prems(1) that by (cases j) (auto simp: laid_out_def piece_def slice_def)
  have type: "ncfg_json_type doc (Some i) = json_kind j" using n by (simp add: ncfg_json_type_def ncfg_json_node_def head_node_def)
  have es: "map (\<lambda>c. (ncfg_json_key doc (Some c), doc_tree fuel doc c)) (roots (Suc i) (elems j)) = map (\<lambda>e. (fst e, Some (snd e))) (elems j)"
    if "json_kind j \<in> {TArray, TObject}"
    using elems_trees [OF laid_out_elems [OF Suc.prems(1) that] Suc.IH] elems_depth [of _ j] Suc.prems(2) by force
  show ?case
  proof (cases j)
    case (JArray js)
    with es those_map_fst [OF es] have "map (doc_tree fuel doc) (roots (Suc i) (elems j)) = map Some js" by (simp add: comp_def)
    with JArray type members_roots [OF Suc.prems(1)] show ?thesis by (simp add: those_Some)
  next
    case (JObject ms)
    with es have "map (\<lambda>c. (ncfg_json_key doc (Some c), doc_tree fuel doc c)) (roots (Suc i) (elems j)) = map (\<lambda>m. (Some (fst m), Some (snd m))) ms"
      by (simp add: comp_def)
    from arg_cong [OF this, of "map (\<lambda>(k, j). with_name k j)"]
    have "map (\<lambda>c. with_name (ncfg_json_key doc (Some c)) (doc_tree fuel doc c)) (roots (Suc i) (elems j)) = map Some ms"
      by (simp add: comp_def with_name_def)
    with JObject type members_roots [OF Suc.prems(1)] show ?thesis by (simp add: those_Some)
  qed (use type n val in \<open>auto simp: ncfg_json_bool_def ncfg_json_string_def ncfg_json_node_def head_node_def\<close>)
qed simp

lemma json_text_parses:
  assumes "written j" "json_depth j \<le> NCFG_JSON_MAX_DEPTH" "length (json_text j) < 2 ^ 31"
  shows "ncfg_json_parse (json_text j) = Inr \<lparr>jd_text = json_bytes j, jd_nodes = flat 0 0 None None j\<rparr>"
proof -
  let ?inp = "json_text j"
  note hd = json_text_hd [OF assms(1)]
  have s: "skip_space ?inp start_reader = start_reader"
    using skip_space_none [of ?inp start_reader ?inp] hd by (simp add: start_reader_def)
  have "json_read_loop ?inp Read_Value start_reader = json_read_loop ?inp Value_Read (after_value j start_reader)"
    using written_reads_back [OF assms(1), of ?inp] assms(2,3)
    by (simp add: reads_back_def stands_def start_reader_def stack_below_def del: split_paired_All)
  moreover have "skip_space ?inp (after_value j start_reader) = after_value j start_reader"
    by (rule skip_space_none [of "[]"]) (simp_all add: after_value_def start_reader_def)
  ultimately show ?thesis using hd
    by (simp add: ncfg_json_parse_def Let_def s json_read_loop.simps [of ?inp Value_Read] close_turn_def)
      (simp add: after_value_def start_reader_def)
qed

text \<open>
  C21.  What the writer writes, the reader reads.  When a writer over an empty buffer reports a whole
  value done -- whatever calls were made on it -- the text in its buffer is accepted by the JSON
  reader of the client, and the document it answers, read back through the reader's accessors, is
  exactly the tree the calls built: every name, string, number, word and container, in order.
\<close>

theorem json_roundtrip:
  assumes "buf_inv buf" "\<not> ncfg_buf_failed buf" "ncfg_buf_text buf = []" "buf_room buf < 2 ^ 31"
    and "ncfg_json_write_done (foldl write_call (ncfg_json_write_init buf) cs)"
  shows "\<exists>j doc. builds cs ([], None) = Some ([], Some j) \<and>
    ncfg_json_parse (ncfg_buf_text (jw_buf (foldl write_call (ncfg_json_write_init buf) cs))) = Inr doc \<and>
    doc_tree (Suc NCFG_JSON_MAX_DEPTH) doc 0 = Some j"
proof -
  let ?w = "foldl write_call (ncfg_json_write_init buf) cs"
  have f: "\<not> bfailed buf" using assms(2) by (simp add: ncfg_buf_failed_def)
  have nf: "\<not> ncfg_json_write_failed ?w" using assms(5) by (simp add: ncfg_json_write_done_def)
  have c: "buf_contents buf = []" using assms(3) f by (simp add: buf_text_contents)
  from writes_rel [OF init_rel(1) [OF assms(1) f], of cs] init_rel(2) [OF assms(1) f] nf c obtain b where
    b: "builds cs ([], None) = Some b" "jw_rel [] (blimit buf) ?w b" "length (builder_text b) \<le> blimit buf"
    by (auto split: option.splits if_splits)
  note d = rel_done [OF b(2)]
  from d(3) b(3) assms(5) obtain j where j: "b = ([], Some j)" by auto
  have "builder_holds ([], None)" by (simp add: builder_holds_def)
  from builds_builder_holds [OF b(1) this] j have w: "written j" "json_depth j \<le> NCFG_JSON_MAX_DEPTH"
    by (simp_all add: builder_holds_def)
  have "blimit buf = buf_room buf" using assms(1) c by (simp add: buf_room_def buf_inv_def)
  with b(3) j assms(4) have "length (json_text j) < 2 ^ 31" by simp
  note p = json_text_parses [OF w this]
  let ?doc = "\<lparr>jd_text = json_bytes j, jd_nodes = flat 0 0 None None j\<rparr>"
  have "laid_out ?doc 0 0 None None j" by (auto simp: laid_out_def intro: exI [of _ "[]"])
  with laid_out_tree [of ?doc 0 0 None None j "Suc NCFG_JSON_MAX_DEPTH"] w(2) b(1) j p d(2) b(3) show ?thesis by simp
qed

theorem json_roundtrip_witness:
  "\<exists>doc. ncfg_json_parse (ascii ''['' @ decimal_int (- 7) @ ascii '',{},true]'') = Inr doc \<and>
     doc_tree 33 doc 0 = Some (JArray [JNumber (ascii ''-7''), JObject [], JBool True])"
proof -
  let ?cs = "[W_Array_Begin, W_Int (- 7), W_Object_Begin, W_Object_End, W_Bool True, W_Array_End]"
  let ?b = "ncfg_buf_init 1000"
  have b: "buf_inv ?b" "\<not> ncfg_buf_failed ?b" "ncfg_buf_text ?b = []" "buf_room ?b < 2 ^ 31"
    by (simp_all add: buf_inv_init init_fields ncfg_buf_failed_def buf_text_contents)
  have d: "ncfg_json_write_done (foldl write_call (ncfg_json_write_init ?b) ?cs)" by code_simp
  have t: "ncfg_buf_text (jw_buf (foldl write_call (ncfg_json_write_init ?b) ?cs)) =
      ascii ''['' @ decimal_int (- 7) @ ascii '',{},true]''" by code_simp
  have j: "builds ?cs ([], None) = Some ([], Some (JArray [JNumber (ascii ''-7''), JObject [], JBool True]))" by code_simp
  have n: "Suc NCFG_JSON_MAX_DEPTH = 33" by (simp add: NCFG_JSON_MAX_DEPTH_def)
  from json_roundtrip [OF b d, unfolded t j n] show ?thesis by (simp del: ascii_simps)
qed

subsection \<open>Integers\<close>

lemma json_digits_accum:
  "\<forall>d \<in> set ds. is_digit d \<Longrightarrow>
   json_digits v ds = (if accum (unat v) ds < 2 ^ 64 then Some (of_nat (accum (unat v) ds)) else None)"
proof (induction ds arbitrary: v)
  case Nil
  then show ?case using unat_less [of v] by simp
next
  case (Cons d ds)
  let ?d = "ucast (d - 48) :: 64 word"
  have dig: "is_digit d" "\<forall>d \<in> set ds. is_digit d" using Cons.prems by auto
  have ud: "unat ?d = digit_value d" by (rule unat_digit_word [OF dig(1)])
  have max: "unat (- 1 :: 64 word) = 2 ^ 64 - 1" by (simp add: unsigned_minus_1_eq_mask mask_eq_exp_minus_1)
  have test: "(- 1 - ?d) div 10 < v \<longleftrightarrow> 2 ^ 64 \<le> 10 * unat v + digit_value d"
    using overflow_test [of ?d "- 1" v] digit_value_le [OF dig(1)] ud max by (auto simp del: unsigned_minus_1_eq_mask)
  have in_range: "\<not> (d < 48 \<or> 57 < d)" using dig(1) by (simp add: is_digit_def not_less)
  show ?case
  proof (cases "2 ^ 64 \<le> 10 * unat v + digit_value d")
    case True
    with accum_ge [of "10 * unat v + digit_value d" ds] test in_range show ?thesis by (simp add: Let_def)
  next
    case False
    then have "unat (v * 10 + ?d) = 10 * unat v + digit_value d"
      using ud by (simp add: unat_word_ariths mult.commute)
    with Cons.IH [OF dig(2), of "v * 10 + ?d"] test False in_range show ?thesis by (simp add: Let_def)
  qed
qed

lemma json_digits_decimal: "json_digits 0 (decimal n) = (if n < 2 ^ 64 then Some (of_nat n) else None)"
proof -
  have "accum 0 (decimal n) = n" using decimal_value_decimal [of n] by (simp add: decimal_value_def)
  then show ?thesis using json_digits_accum [of "decimal n" 0] decimal_digits by simp
qed

lemma json_int_piece:
  assumes "ncfg_json_node doc (Some k) = Some node" "jn_type node = TNumber"
    "piece doc (jn_value node) = decimal_int i"
  shows "ncfg_json_int doc (Some k) fallback = (if - (2 ^ 63) \<le> i \<and> i < 2 ^ 63 then of_int i else fallback)"
proof -
  have len: "snd (jn_value node) \<noteq> 0"
  proof
    assume "snd (jn_value node) = 0"
    then have "piece doc (jn_value node) = []" by (simp add: piece_def)
    with assms(3) decimal_int_nonempty [of i] show False by simp
  qed
  show ?thesis
  proof (cases "i < 0")
    case False
    define n where "n = nat i"
    have i: "i = int n" using False by (simp add: n_def)
    obtain d ds where d: "decimal n = d # ds" by (cases "decimal n") simp_all
    have "is_digit d" using decimal_digits [of d n] d by simp
    then have "d \<noteq> 45" by (auto simp: is_digit_unat)
    moreover have "piece doc (jn_value node) = d # ds" using assms(3) d i by (simp add: decimal_int_def)
    moreover have "n < 2 ^ 64 \<Longrightarrow> (0x7fffffffffffffff :: 64 word) < of_nat n \<longleftrightarrow> 2 ^ 63 \<le> n"
      by (auto simp: word_less_nat_alt unat_of_nat)
    ultimately show ?thesis using json_digits_decimal [of n] assms(1,2) len d i
      by (auto simp: ncfg_json_int_def Let_def)
  next
    case True
    define n where "n = nat (- i)"
    have i: "i = - int n" "0 < n" using True by (auto simp: n_def)
    have "piece doc (jn_value node) = 45 # decimal n" using assms(3) True by (simp add: decimal_int_def n_def)
    moreover have "n < 2 ^ 64 \<Longrightarrow> (0x8000000000000000 :: 64 word) < of_nat n \<longleftrightarrow> 2 ^ 63 < n"
      by (auto simp: word_less_nat_alt unat_of_nat)
    moreover have "n < 2 ^ 64 \<Longrightarrow> of_nat n = (0x8000000000000000 :: 64 word) \<longleftrightarrow> n = 2 ^ 63"
      by (auto simp: word_unat_eq_iff unat_of_nat)
    ultimately show ?thesis using json_digits_decimal [of n] assms(1,2) len i
      by (auto simp: ncfg_json_int_def Let_def)
  qed
qed

text \<open>
  Integers are exact.  A number whose text is a whole number in decimal is answered by
  \<^verbatim>\<open>ncfg_json_int\<close> as that number when it is in the range of \<^verbatim>\<open>int64_t\<close>, both ends included, and the
  fallback is answered otherwise: nothing is rounded, saturated or wrapped.
\<close>

theorem json_int_exact:
  assumes "ncfg_json_node doc (Some k) = Some node" "jn_type node = TNumber"
    "piece doc (jn_value node) = decimal_int i"
  shows "ncfg_json_int doc (Some k) fallback = (if - (2 ^ 63) \<le> i \<and> i < 2 ^ 63 then of_int i else fallback)"
  using assms by (rule json_int_piece)

theorem json_int_exact_witness:
  "\<exists>doc. ncfg_json_parse (ascii ''-9223372036854775808'') = Inr doc \<and> ncfg_json_int doc (Some 0) 5 = - (2 ^ 63)"
proof -
  let ?inp = "ascii ''-9223372036854775808''"
  have "case ncfg_json_parse ?inp of Inr doc \<Rightarrow> (case ncfg_json_node doc (Some 0) of
      Some node \<Rightarrow> jn_type node = TNumber \<and> piece doc (jn_value node) = decimal_int (- (2 ^ 63)) | None \<Rightarrow> False) | Inl _ \<Rightarrow> False"
    by code_simp
  then obtain doc node where d: "ncfg_json_parse ?inp = Inr doc" "ncfg_json_node doc (Some 0) = Some node"
    "jn_type node = TNumber" "piece doc (jn_value node) = decimal_int (- (2 ^ 63))"
    by (auto simp del: ascii_simps split: sum.splits option.splits)
  from json_int_exact [OF d(2-4), of 5] d(1) show ?thesis by (intro exI [of _ doc]) (simp del: ascii_simps)
qed

end
