(* ===== verification/Ncfg_Json_Docs.thy ===== *)
theory Ncfg_Json_Docs
  imports Ncfg_Json_Roundtrip
begin

text \<open>
  What the modules that write a JSON document of their own, and those that read one, need of the
  writer and the reader: a sequence of writer calls that builds a whole value writes its text or
  fails, and the text reads back as a document laid out as the value.
\<close>

lemma builds_append: "builds (xs @ ys) b = (case builds xs b of None \<Rightarrow> None | Some b' \<Rightarrow> builds ys b')"
  by (induction xs arbitrary: b) (simp_all split: option.split)

lemma builds_concat:
  assumes "\<And>x b. x \<in> set xs \<Longrightarrow> good b \<Longrightarrow> \<exists>b'. builds (f x) b = Some b' \<and> good b' \<and> g b' = g b @ [h x]"
    and "good b"
  shows "\<exists>b'. builds (concat (map f xs)) b = Some b' \<and> good b' \<and> g b' = g b @ map h xs"
  using assms
proof (induction xs arbitrary: b)
  case (Cons x xs)
  from Cons.prems(1) [of x b] Cons.prems(2) obtain b1 where
    b1: "builds (f x) b = Some b1" "good b1" "g b1 = g b @ [h x]" by auto
  from Cons.IH [OF _ b1(2)] Cons.prems(1) obtain b2 where
    "builds (concat (map f xs)) b1 = Some b2" "good b2" "g b2 = g b1 @ map h xs" by (metis list.set_intros(2))
  with b1 show ?case by (simp add: builds_append)
qed simp

lemma writer_writes:
  assumes "buf_inv buf" "\<not> ncfg_buf_failed buf" "builds cs ([], None) = Some ([], Some j)"
  shows "if length (json_text j) \<le> buf_room buf
    then ncfg_json_write_done (foldl write_call (ncfg_json_write_init buf) cs) \<and>
      ncfg_buf_text (jw_buf (foldl write_call (ncfg_json_write_init buf) cs)) =
        ncfg_buf_text buf @ json_text j
    else \<not> ncfg_json_write_done (foldl write_call (ncfg_json_write_init buf) cs)"
proof -
  from assms(2) have f: "\<not> bfailed buf" by (simp add: ncfg_buf_failed_def)
  note ir = init_rel [OF assms(1) f]
  from assms(1) have room: "buf_room buf = blimit buf - length (buf_contents buf)"
    by (simp add: buf_room_def buf_inv_def)
  show ?thesis
  proof (cases "length (json_text j) \<le> buf_room buf")
    case True
    with room ir(2) have fits: "length (buf_contents buf @ builder_text ([], Some j)) \<le> blimit buf" by simp
    with writes_rel [OF ir(1), of cs] ir(2) assms(3)
    have "jw_rel (buf_contents buf) (blimit buf) (foldl write_call (ncfg_json_write_init buf) cs) ([], Some j)" by simp
    from rel_done [OF this fits] f True show ?thesis by (simp add: buf_text_contents)
  next
    case False
    with room ir(2) have "\<not> length (buf_contents buf @ json_text j) \<le> blimit buf" by simp
    with writes_rel [OF ir(1), of cs] ir(2) assms(3) False show ?thesis
      by (simp add: ncfg_json_write_done_def)
  qed
qed

lemma built_written:
  "builds cs ([], None) = Some ([], Some j) \<Longrightarrow> written j \<and> json_depth j \<le> NCFG_JSON_MAX_DEPTH"
  using builds_builder_holds [of cs "([], None)" "([], Some j)"] by (simp add: builder_holds_def)

lemma built_parses:
  assumes "builds cs ([], None) = Some ([], Some j)" "length (json_text j) < 2 ^ 31"
  obtains doc where "ncfg_json_parse (json_text j) = Inr doc" "laid_out doc 0 0 None None j"
    "doc_tree (Suc NCFG_JSON_MAX_DEPTH) doc 0 = Some j"
proof -
  let ?doc = "\<lparr>jd_text = json_bytes j, jd_nodes = flat 0 0 None None j\<rparr>"
  from built_written [OF assms(1)] have w: "written j" "json_depth j \<le> NCFG_JSON_MAX_DEPTH" by auto
  have l: "laid_out ?doc 0 0 None None j" by (auto simp: laid_out_def intro: exI [of _ "[]"])
  with laid_out_tree [of ?doc 0 0 None None j "Suc NCFG_JSON_MAX_DEPTH"] w json_text_parses [OF w assms(2)]
  show thesis by (intro that) simp_all
qed

subsection \<open>Reading an object's members\<close>

text \<open>A node of a document that holds a value, under a name or without one.\<close>

definition holds_value :: "json_doc \<Rightarrow> nat \<Rightarrow> json_elem \<Rightarrow> bool" where
  "holds_value doc c e \<longleftrightarrow>
     ncfg_json_key doc (Some c) = fst e \<and> (\<exists>ofs key sibling. laid_out doc c ofs key sibling (snd e))"

lemma laid_out_members:
  "all_laid_out doc i ofs es \<Longrightarrow> list_all2 (holds_value doc) (roots i es) es"
proof (induction es arbitrary: i ofs)
  case (Cons e es)
  obtain k j where e: "e = (k, j)" by (cases e)
  note a = all_laid_out_Cons [OF Cons.prems [unfolded e]]
  have "ncfg_json_key doc (Some i) = k"
    using laid_out_node [OF a(1)] a(3)
    by (cases k) (auto simp: ncfg_json_key_def ncfg_json_node_def head_node_def)
  with a Cons.IH [OF a(2)] show ?case by (auto simp: e holds_value_def)
qed simp

lemma object_members:
  assumes "laid_out doc 0 0 None None (JObject ms)"
  obtains node where "ncfg_json_root doc = Some 0" "ncfg_json_node doc (Some 0) = Some node"
    "jn_type node = TObject"
    "list_all2 (holds_value doc) (children doc node) (map (\<lambda>m. (Some (fst m), snd m)) ms)"
proof -
  note n = laid_out_node [OF assms]
  have "list_all2 (holds_value doc) (children doc (jd_nodes doc ! 0)) (map (\<lambda>m. (Some (fst m), snd m)) ms)"
    using laid_out_members [OF laid_out_elems [OF assms]] children_roots [OF assms] by simp
  with n show thesis
    by (intro that [of "jd_nodes doc ! 0"]) (auto simp: ncfg_json_root_def ncfg_json_node_def head_node_def)
qed

lemma holds_value_node:
  assumes "holds_value doc c (k, j)"
  shows "ncfg_json_key doc (Some c) = k" "ncfg_json_type doc (Some c) = json_kind j"
    "\<exists>node. ncfg_json_node doc (Some c) = Some node \<and> jn_type node = json_kind j"
  using assms laid_out_node
  by (fastforce simp: holds_value_def ncfg_json_type_def ncfg_json_node_def head_node_def)+

lemma holds_string: "holds_value doc c (k, JString s) \<Longrightarrow> ncfg_json_string doc (Some c) = Some s"
  by (auto simp: holds_value_def ncfg_json_string_def ncfg_json_node_def laid_out_node head_node_def
      laid_out_def piece_def slice_def flat.simps nth_append)

lemma holds_number:
  assumes "holds_value doc c (k, JNumber (decimal n))"
  shows "ncfg_json_int doc (Some c) fallback = (if n < 2 ^ 63 then of_nat n else fallback)"
proof -
  from assms obtain ofs key sibling where l: "laid_out doc c ofs key sibling (JNumber (decimal n))"
    by (auto simp: holds_value_def)
  then have "piece doc (ofs, length (decimal n)) = decimal n" by (auto simp: laid_out_def piece_def slice_def)
  with laid_out_node [OF l]
  have "ncfg_json_int doc (Some c) fallback = (if - (2 ^ 63) \<le> int n \<and> int n < 2 ^ 63 then of_int (int n) else fallback)"
    by (intro json_int_piece) (auto simp: ncfg_json_node_def head_node_def decimal_int_def)
  then show ?thesis by simp
qed

end
