(* ===== verification/Ncfg_Apply_Json.thy ===== *)
theory Ncfg_Apply_Json
  imports Ncfg_Apply_Props Ncfg_Json_Docs
begin

text \<open>
  The journal as a document: \<^verbatim>\<open>ncfg_journal_write\<close> writes one JSON object that says, record by record,
  what the journal holds, and it reads back as that object.
\<close>

definition plain_text :: "bytes \<Rightarrow> bool" where
  "plain_text s \<longleftrightarrow> 0 \<notin> set s \<and> json_utf8 s"

definition plain_or_absent :: "cstring \<Rightarrow> bool" where
  "plain_or_absent s = (case s of None \<Rightarrow> True | Some s \<Rightarrow> plain_text s)"

definition reason_plain :: "reason \<Rightarrow> bool" where
  "reason_plain reason \<longleftrightarrow>
     plain_or_absent (rs_interface reason) \<and> plain_or_absent (rs_field reason) \<and>
     plain_or_absent (rs_desired reason) \<and> plain_or_absent (rs_observed reason)"

definition record_plain :: "jrecord \<Rightarrow> bool" where
  "record_plain r \<longleftrightarrow>
     plain_or_absent (rc_op r) \<and> plain_or_absent (rc_interface r) \<and> plain_or_absent (rc_error r) \<and>
     reason_plain (rc_reason r)"

subsection \<open>The object a journal is written as\<close>

definition or_null :: "cstring \<Rightarrow> json" where
  "or_null s = (case s of None \<Rightarrow> JNull | Some s \<Rightarrow> JString s)"

definition if_present :: "string \<Rightarrow> cstring \<Rightarrow> (bytes \<times> json) list" where
  "if_present name s = (case s of None \<Rightarrow> [] | Some s \<Rightarrow> [(ascii name, JString s)])"

definition reason_json :: "reason \<Rightarrow> json" where
  "reason_json reason =
     JObject (if_present ''interface'' (rs_interface reason) @
       [(ascii ''field'', or_null (rs_field reason)), (ascii ''desired'', or_null (rs_desired reason)),
        (ascii ''observed'', or_null (rs_observed reason))])"

definition record_json :: "jrecord \<Rightarrow> json" where
  "record_json r =
     JObject ([(ascii ''id'', JNumber (decimal (unat (rc_id r)))), (ascii ''op'', or_null (rc_op r))] @
       if_present ''interface'' (rc_interface r) @
       [(ascii ''reason'', reason_json (rc_reason r)),
        (ascii ''outcome'', JString (ncfg_outcome_name (rc_outcome r)))] @
       if_present ''error'' (rc_error r))"

definition journal_json :: "journal \<Rightarrow> json" where
  "journal_json journal = JObject [(ascii ''records'', JArray (map record_json (jn_records journal)))]"

subsection \<open>The calls that write it\<close>

definition or_null_calls :: "string \<Rightarrow> cstring \<Rightarrow> json_call list" where
  "or_null_calls name s =
     [W_Key (Some (ascii name)), case s of None \<Rightarrow> W_Null | Some _ \<Rightarrow> W_String s]"

definition if_present_calls :: "string \<Rightarrow> cstring \<Rightarrow> json_call list" where
  "if_present_calls name s =
     (case s of None \<Rightarrow> [] | Some _ \<Rightarrow> [W_Key (Some (ascii name)), W_String s])"

definition reason_calls :: "reason \<Rightarrow> json_call list" where
  "reason_calls reason =
     [W_Object_Begin] @ if_present_calls ''interface'' (rs_interface reason) @
     or_null_calls ''field'' (rs_field reason) @ or_null_calls ''desired'' (rs_desired reason) @
     or_null_calls ''observed'' (rs_observed reason) @ [W_Object_End]"

definition record_calls :: "jrecord \<Rightarrow> json_call list" where
  "record_calls r =
     [W_Object_Begin, W_Key (Some (ascii ''id'')), W_Int (ucast (rc_id r))] @
     or_null_calls ''op'' (rc_op r) @ if_present_calls ''interface'' (rc_interface r) @
     [W_Key (Some (ascii ''reason''))] @ reason_calls (rc_reason r) @
     or_null_calls ''outcome'' (Some (ncfg_outcome_name (rc_outcome r))) @
     if_present_calls ''error'' (rc_error r) @ [W_Object_End]"

lemma write_member_text_calls:
  "write_member_text w (ascii name) s = foldl write_call w (or_null_calls name s)"
  by (simp add: write_member_text_def or_null_calls_def split: option.split)

lemma write_if_present_calls:
  "(if s \<noteq> None then ncfg_json_write_member_string w (Some (ascii name)) s else w) =
   foldl write_call w (if_present_calls name s)"
  by (simp add: if_present_calls_def ncfg_json_write_member_string_def split: option.split)

lemma write_reason_calls: "write_reason w reason = foldl write_call w (reason_calls reason)"
  unfolding write_reason_def Let_def write_member_text_calls write_if_present_calls reason_calls_def
  by simp

lemma write_record_calls: "write_record w r = foldl write_call w (record_calls r)"
  unfolding write_record_def Let_def write_member_text_calls write_if_present_calls record_calls_def
    write_reason_calls ncfg_json_write_member_int_def
  by simp

lemma write_records_calls: "foldl write_record w rs = foldl write_call w (concat (map record_calls rs))"
  by (induction rs arbitrary: w) (simp_all add: write_record_calls)

definition journal_calls :: "journal \<Rightarrow> json_call list" where
  "journal_calls journal =
     [W_Object_Begin, W_Key (Some (ascii ''records'')), W_Array_Begin] @
     concat (map record_calls (jn_records journal)) @ [W_Array_End, W_Object_End]"

subsection \<open>What the calls build\<close>

lemma plain_text_cstr [simp]: "plain_text s \<Longrightarrow> cstr s = s" "plain_text s \<Longrightarrow> json_utf8 s"
  by (simp_all add: plain_text_def cstr_id)

lemma json_utf8_ascii: "\<forall>b \<in> set s. b < 0x80 \<Longrightarrow> json_utf8 s"
  by (induction s rule: json_utf8.induct) (auto simp: json_utf8.simps utf8_step_ascii)


lemma plain_names [simp]:
  "plain_text (ascii ''interface'')" "plain_text (ascii ''field'')" "plain_text (ascii ''desired'')"
  "plain_text (ascii ''observed'')" "plain_text (ascii ''id'')" "plain_text (ascii ''op'')"
  "plain_text (ascii ''reason'')" "plain_text (ascii ''outcome'')" "plain_text (ascii ''error'')"
  "plain_text (ascii ''records'')"
  by (simp_all add: plain_text_def json_utf8_ascii)

lemma plain_outcome [simp]: "plain_text (ncfg_outcome_name outcome)"
  by (cases outcome) (simp_all add: plain_text_def json_utf8_ascii)

lemma builds_key:
  "plain_text k \<Longrightarrow>
   builds (W_Key (Some k) # cs) (Open_Object ms None # os, d) = builds cs (Open_Object ms (Some k) # os, d)"
  by simp

lemma builds_or_null:
  "plain_text (ascii name) \<Longrightarrow> plain_or_absent s \<Longrightarrow>
   builds (or_null_calls name s @ cs) (Open_Object ms None # os, d) =
   builds cs (Open_Object (ms @ [(ascii name, or_null s)]) None # os, d)"
  by (cases s) (simp_all add: or_null_calls_def or_null_def plain_or_absent_def del: ascii_simps)

lemma builds_if_present:
  "plain_text (ascii name) \<Longrightarrow> plain_or_absent s \<Longrightarrow>
   builds (if_present_calls name s @ cs) (Open_Object ms None # os, d) =
   builds cs (Open_Object (ms @ if_present name s) None # os, d)"
  by (cases s) (simp_all add: if_present_calls_def if_present_def plain_or_absent_def del: ascii_simps)

lemmas builds_members = builds_or_null builds_if_present builds_key builds_append append_assoc

lemma may_put_simps [simp]:
  "may_put (Open_Object ms (Some k) # os, d)" "may_put (Open_Array js # os, d)" "may_put ([], None)"
  by (simp_all add: may_put_def)

lemma builds_reason:
  assumes "reason_plain reason" "Suc (length os) < NCFG_JSON_MAX_DEPTH"
  shows "builds (reason_calls reason @ cs) (Open_Object ms (Some k) # os, d) =
    builds cs (Open_Object (ms @ [(k, reason_json reason)]) None # os, d)"
  using assms
  by (simp add: reason_calls_def builds_or_null builds_if_present reason_plain_def reason_json_def
      del: ascii_simps)

lemma decimal_id: "decimal_int (sint (ucast i :: 64 word)) = decimal (unat (i :: 32 word))"
proof -
  have "uint i < 2 ^ 63" using uint_lt2p [of i] by simp
  then have "sint (ucast i :: 64 word) = uint i"
    using sint_word_of_int [of "uint i"] uint_ge_0 [of i] by simp
  then show ?thesis by (simp add: decimal_int_def)
qed

lemma builds_record:
  assumes "record_plain r" "Suc (Suc (length os)) < NCFG_JSON_MAX_DEPTH"
  shows "builds (record_calls r @ cs) (Open_Array js # os, d) =
    builds cs (Open_Array (js @ [record_json r]) # os, d)"
  using assms
  by (simp add: record_calls_def builds_or_null builds_if_present builds_reason record_json_def
      record_plain_def decimal_id plain_or_absent_def [of "Some _"] or_null_def [of "Some _"] del: ascii_simps)

lemma builds_records:
  assumes "\<forall>r \<in> set rs. record_plain r" "Suc (Suc (length os)) < NCFG_JSON_MAX_DEPTH"
  shows "builds (concat (map record_calls rs) @ cs) (Open_Array js # os, d) =
    builds cs (Open_Array (js @ map record_json rs) # os, d)"
  using assms
proof (induction rs arbitrary: js)
  case (Cons r rs)
  then show ?case by (simp add: builds_record)
qed simp

lemma builds_journal:
  assumes "\<forall>r \<in> set (jn_records journal). record_plain r"
  shows "builds (journal_calls journal) ([], None) = Some ([], Some (journal_json journal))"
  using assms
  by (simp add: journal_calls_def builds_records journal_json_def NCFG_JSON_MAX_DEPTH_def del: ascii_simps)

text \<open>
  The journal is written whole or not at all.  A journal that has not failed, whose texts are
  UTF-8, is written into a healthy buffer as one JSON object with one element per record, in order
  -- the action's id, op, interface, reason, outcome and error -- when the text fits; the text reads
  back as exactly that object; and when it does not fit, the call reports it.
\<close>

theorem journal_written:
  assumes "\<not> jn_failed journal" "\<forall>r \<in> set (jn_records journal). record_plain r"
    and "buf_inv buf" "\<not> ncfg_buf_failed buf" "buf_room buf < 2 ^ 31"
  shows "if length (json_text (journal_json journal)) \<le> buf_room buf
    then fst (ncfg_journal_write journal buf) = Inr () \<and>
      ncfg_buf_text (snd (ncfg_journal_write journal buf)) =
        ncfg_buf_text buf @ json_text (journal_json journal) \<and>
      (\<exists>doc. ncfg_json_parse (json_text (journal_json journal)) = Inr doc \<and>
         doc_tree (Suc NCFG_JSON_MAX_DEPTH) doc 0 = Some (journal_json journal))
    else \<exists>why. fst (ncfg_journal_write journal buf) = Inl why"
proof -
  let ?w = "foldl write_call (ncfg_json_write_init buf) (journal_calls journal)"
  have w: "ncfg_json_write_object_end (ncfg_journal_write_members
      (ncfg_json_write_object_begin (ncfg_json_write_init buf)) journal) = ?w"
    by (simp add: ncfg_journal_write_members_def journal_calls_def write_records_calls)
  note b = builds_journal [OF assms(2)]
  show ?thesis
  proof (cases "length (json_text (journal_json journal)) \<le> buf_room buf")
    case True
    with assms(5) have "length (json_text (journal_json journal)) < 2 ^ 31" by simp
    with b obtain doc where "ncfg_json_parse (json_text (journal_json journal)) = Inr doc"
      "doc_tree (Suc NCFG_JSON_MAX_DEPTH) doc 0 = Some (journal_json journal)" by (rule built_parses)
    with True writer_writes [OF assms(3,4) b] assms(1) show ?thesis
      by (simp add: ncfg_journal_write_def Let_def w del: doc_tree.simps)
  next
    case False
    with writer_writes [OF assms(3,4) b] assms(1) show ?thesis
      by (simp add: ncfg_journal_write_def Let_def w)
  qed
qed

definition sample_journal :: journal where
  "sample_journal = ncfg_journal_init\<lparr>jn_records :=
     [\<lparr>rc_id = 7, rc_op = Some (ascii ''link.up''), rc_interface = None,
       rc_reason = \<lparr>rs_interface = None, rs_field = None, rs_desired = None, rs_observed = None\<rparr>,
       rc_outcome = NCFG_OUTCOME_DONE, rc_error = None\<rparr>]\<rparr>"

theorem journal_written_witness:
  "\<exists>doc. ncfg_json_parse (json_text (journal_json sample_journal)) = Inr doc \<and>
   doc_tree (Suc NCFG_JSON_MAX_DEPTH) doc 0 = Some (journal_json sample_journal)"
proof -
  have journal: "\<not> jn_failed sample_journal" "\<forall>r \<in> set (jn_records sample_journal). record_plain r"
    by code_simp+
  have buf: "buf_inv (ncfg_buf_init 1000)" "\<not> ncfg_buf_failed (ncfg_buf_init 1000)"
    "buf_room (ncfg_buf_init 1000) < 2 ^ 31"
    by (simp_all add: buf_inv_init init_fields ncfg_buf_failed_def)
  have "length (json_text (journal_json sample_journal)) \<le> 1000" by code_simp
  then have fits: "length (json_text (journal_json sample_journal)) \<le> buf_room (ncfg_buf_init 1000)"
    by (simp add: init_fields)
  from journal_written [OF journal buf, unfolded if_P [OF fits]] show ?thesis by blast
qed

end
