(* ===== verification/Ncfg_Confirm_Props.thy ===== *)
theory Ncfg_Confirm_Props
  imports Ncfg_Confirm Ncfg_Apply_Json
begin

text \<open>
  What the confirm window promises: it is kept beside the run directory, it reads back as it was
  written, and every way it ends leaves the machine converging on a configuration somebody accepted.
\<close>

subsection \<open>The files\<close>

lemma confirm_paths_differ:
  "confirm_path run (ascii ''confirm.json'') = Some p \<Longrightarrow>
   confirm_path run (ascii ''last-good.json'') = Some q \<Longrightarrow> p \<noteq> q"
  by (auto simp: confirm_path_def Let_def split: option.splits if_splits)

lemma length_decimal: "n < 10 ^ k \<Longrightarrow> 0 < k \<Longrightarrow> length (decimal n) \<le> k"
proof (induction k arbitrary: n)
  case (Suc k)
  show ?case
  proof (cases "n < 10")
    case False
    with Suc.prems have "n div 10 < 10 ^ k" "0 < k" by (auto simp: less_mult_imp_div_less intro: Nat.gr0I)
    with Suc.IH [of "n div 10"] False show ?thesis by (simp add: decimal_ge_10)
  qed (simp add: decimal_less_10)
qed simp

lemma length_decimal_word: "length (decimal (unat (w :: 64 word))) \<le> 20"
  using unat_less [of w] by (intro length_decimal) simp_all

lemma length_json_escape: "length (json_escape b) \<le> 6"
  by (simp add: json_escape_def shortform_def Let_def split: option.split)

lemma length_json_quoted_le: "length (json_quoted s) \<le> 6 * length s + 2"
proof -
  have "length (concat (map json_escape s)) \<le> 6 * length s"
    by (induction s) (use length_json_escape in \<open>auto simp: add_le_mono\<close>)
  then show ?thesis by (simp add: json_quoted_def)
qed

lemma json_escape_no_nul: "0 \<notin> set (json_escape b)"
proof (cases "b < 0x20")
  case True
  have all: "list_all (\<lambda>n. hex_digits ! unat (drop_bit 4 (of_nat n :: byte)) \<noteq> 0 \<and>
      hex_digits ! unat (of_nat n AND 0x0f :: byte) \<noteq> 0) [0..<32]" by code_simp
  from True have "unat b \<in> set [0..<32]" by (simp add: word_less_nat_alt)
  from all [unfolded list_all_iff, rule_format, OF this]
  have "hex_digits ! unat (drop_bit 4 b) \<noteq> 0" "hex_digits ! unat (b AND 0x0f) \<noteq> 0" by simp_all
  with True show ?thesis by (simp add: json_escape_def shortform_def split: option.split)
next
  case False
  then show ?thesis by (auto simp: json_escape_def shortform_def split: option.splits if_splits)
qed

lemma json_quoted_no_nul: "0 \<notin> set (json_quoted s)"
  using json_escape_no_nul by (auto simp: json_quoted_def)

lemma decimal_no_nul: "0 \<notin> set (decimal n)"
  using decimal_digits [of 0 n] by (auto simp: is_digit_def)

lemma signed_small:
  fixes w :: "64 word"
  assumes "unat w < 2 ^ 63"
  shows "0 \<le>s w" "\<not> w <s 0"
proof -
  from assms have "int (unat w) < int (2 ^ 63)" by (simp only: of_nat_less_iff)
  then have "uint w < 2 ^ 63" by simp
  then have "sint (word_of_int (uint w) :: 64 word) = uint w"
    by (intro sint_word_of_int order_trans [OF _ uint_ge_0]) simp_all
  then show "0 \<le>s w" "\<not> w <s 0" by (simp_all add: word_sle_eq word_sless_alt)
qed

lemma seconds_small:
  fixes w :: "32 word"
  shows "unat (ucast w :: 64 word) = unat w" "\<not> (0xffffffff :: 64 word) <s ucast w"
proof -
  show u: "unat (ucast w :: 64 word) = unat w"
    using unat_less [of w] by (simp add: unsigned_ucast_eq take_bit_nat_eq_self)
  have "sint (word_of_int (uint w) :: 64 word) = uint w"
    using uint_lt2p [of w] by (intro sint_word_of_int order_trans [OF _ uint_ge_0]) simp_all
  then show "\<not> (0xffffffff :: 64 word) <s ucast w"
    using uint_lt2p [of w] by (simp add: word_sless_alt)
qed

lemma seconds_back: "ucast (ucast (w :: 32 word) :: 64 word) = w"
  by transfer simp

definition window_json :: "window \<Rightarrow> json" where
  "window_json window =
     JObject ([(ascii ''deadline_epoch'', JNumber (decimal (unat (wd_deadline_epoch window)))),
       (ascii ''window_seconds'', JNumber (decimal (unat (wd_window_seconds window)))),
       (ascii ''last_good_hash'', JString (wd_last_good_hash window))] @
       (if wd_has_asleep window
        then [(ascii ''asleep_seconds'', JNumber (decimal (unat (wd_asleep_at_arming window))))] else []))"

definition window_calls :: "window \<Rightarrow> json_call list" where
  "window_calls window =
     [W_Object_Begin, W_Key (Some (ascii ''deadline_epoch'')), W_Uint (wd_deadline_epoch window),
      W_Key (Some (ascii ''window_seconds'')), W_Uint (ucast (wd_window_seconds window)),
      W_Key (Some (ascii ''last_good_hash'')), W_String (Some (wd_last_good_hash window))] @
     (if wd_has_asleep window
      then [W_Key (Some (ascii ''asleep_seconds'')), W_Uint (wd_asleep_at_arming window)] else []) @
     [W_Object_End]"

lemma write_window_calls:
  "write_window_body window =
     foldl write_call (ncfg_json_write_init (ncfg_buf_init 0)) (window_calls window)"
  by (simp add: write_window_body_def window_calls_def ncfg_json_write_member_string_def Let_def)

lemma plain_window_names [simp]:
  "plain_text (ascii ''deadline_epoch'')" "plain_text (ascii ''window_seconds'')"
  "plain_text (ascii ''last_good_hash'')" "plain_text (ascii ''asleep_seconds'')"
  by (simp_all add: plain_text_def json_utf8_ascii)

text \<open>The windows the file can carry: what the reader's limits allow.\<close>

definition window_valid :: "window \<Rightarrow> bool" where
  "window_valid window \<longleftrightarrow>
     unat (wd_deadline_epoch window) < 2 ^ 63 \<and> unat (wd_asleep_at_arming window) < 2 ^ 63 \<and>
     (wd_has_asleep window \<or> wd_asleep_at_arming window = 0) \<and>
     plain_text (wd_last_good_hash window) \<and> length (wd_last_good_hash window) < NCFG_DAEMON_HASH_MAX"

lemma builds_window:
  "window_valid window \<Longrightarrow> builds (window_calls window) ([], None) = Some ([], Some (window_json window))"
  by (simp add: window_calls_def window_json_def window_valid_def NCFG_JSON_MAX_DEPTH_def
      seconds_small del: ascii_simps)

lemma window_text_size: "window_valid window \<Longrightarrow> length (json_text (window_json window)) \<le> 1000"
  using length_decimal_word [of "wd_deadline_epoch window"]
    length_decimal_word [of "ucast (wd_window_seconds window)"]
    length_decimal_word [of "wd_asleep_at_arming window"] length_json_quoted_le [of "wd_last_good_hash window"]
    length_json_quoted_le [of "ascii ''deadline_epoch''"] length_json_quoted_le [of "ascii ''window_seconds''"]
    length_json_quoted_le [of "ascii ''last_good_hash''"] length_json_quoted_le [of "ascii ''asleep_seconds''"]
  by (simp add: window_json_def window_valid_def NCFG_DAEMON_HASH_MAX_def seconds_small del: ascii_simps)

lemma window_text_no_nul: "0 \<notin> set (json_text (window_json window))"
  by (simp add: window_json_def json_quoted_no_nul decimal_no_nul del: ascii_simps)

lemma write_window_text:
  assumes "window_valid window"
  shows "ncfg_json_write_done (write_window_body window)"
    "cstr (ncfg_buf_text (jw_buf (write_window_body window))) = json_text (window_json window)"
proof -
  have buf: "buf_inv (ncfg_buf_init 0)" "\<not> ncfg_buf_failed (ncfg_buf_init 0)"
    by (simp_all add: buf_inv_init init_fields ncfg_buf_failed_def)
  have "length (json_text (window_json window)) \<le> buf_room (ncfg_buf_init 0)"
    using window_text_size [OF assms] by (simp add: init_fields DEFAULT_LIMIT_def)
  with writer_writes [OF buf builds_window [OF assms]] window_text_no_nul [of window]
  show "ncfg_json_write_done (write_window_body window)"
    "cstr (ncfg_buf_text (jw_buf (write_window_body window))) = json_text (window_json window)"
    by (simp_all add: write_window_calls cstr_id buf_text_contents init_fields)
qed


lemma word_names [simp]:
  "ascii ''deadline_epoch'' \<noteq> ascii ''window_seconds''" "ascii ''last_good_hash'' \<noteq> ascii ''deadline_epoch''"
  "ascii ''last_good_hash'' \<noteq> ascii ''window_seconds''" "ascii ''window_seconds'' \<noteq> ascii ''deadline_epoch''"
  "ascii ''asleep_seconds'' \<noteq> ascii ''deadline_epoch''" "ascii ''asleep_seconds'' \<noteq> ascii ''window_seconds''"
  "ascii ''asleep_seconds'' \<noteq> ascii ''last_good_hash''"
  by simp_all

lemma number_held:
  "holds_value doc c (k, JNumber (decimal (unat (w :: 64 word)))) \<Longrightarrow> unat w < 2 ^ 63 \<Longrightarrow> number_at doc c = Some w"
  using holds_number [of doc c k "unat w" "- 1"] holds_value_node(2) [of doc c k "JNumber (decimal (unat w))"]
  by (simp add: number_at_def)

lemma window_reads:
  assumes "window_valid window"
  shows "window_of_text (json_text (window_json window)) = Some window"
proof -
  note valid = assms [unfolded window_valid_def]
  let ?seconds = "ucast (wd_window_seconds window) :: 64 word"
  obtain ms where ms: "window_json window = JObject ms" by (auto simp: window_json_def)
  have "length (json_text (window_json window)) < 2 ^ 31" using window_text_size [OF assms] by simp
  with builds_window [OF assms] obtain doc where parse: "ncfg_json_parse (json_text (window_json window)) = Inr doc"
    and laid: "laid_out doc 0 0 None None (window_json window)" by (rule built_parses)
  from laid [unfolded ms] obtain node where root: "ncfg_json_root doc = Some 0"
      "ncfg_json_node doc (Some 0) = Some node" "jn_type node = TObject"
    and held: "list_all2 (holds_value doc) (children doc node) (map (\<lambda>m. (Some (fst m), snd m)) ms)"
    by (rule object_members)
  have small: "unat ?seconds < 2 ^ 63" using unat_less [of "wd_window_seconds window"] by (simp add: seconds_small)
  have checks: "\<not> wd_deadline_epoch window <s 0" "\<not> ?seconds <s 0" "\<not> 0xffffffff <s ?seconds"
      "\<not> NCFG_DAEMON_HASH_MAX \<le> length (wd_last_good_hash window)" "0 \<le>s wd_asleep_at_arming window"
    using valid signed_small [OF small] by (simp_all add: signed_small seconds_small)
  have seconds: "ucast ?seconds = wd_window_seconds window" by (rule seconds_back)
  show ?thesis
  proof (cases "wd_has_asleep window")
    case True
    with held ms obtain a b c d where cs: "children doc node = [a, b, c, d]"
      and a: "holds_value doc a (Some (ascii ''deadline_epoch''), JNumber (decimal (unat (wd_deadline_epoch window))))"
      and b: "holds_value doc b (Some (ascii ''window_seconds''), JNumber (decimal (unat ?seconds)))"
      and c: "holds_value doc c (Some (ascii ''last_good_hash''), JString (wd_last_good_hash window))"
      and d: "holds_value doc d (Some (ascii ''asleep_seconds''), JNumber (decimal (unat (wd_asleep_at_arming window))))"
      by (auto simp: window_json_def list_all2_Cons2 seconds_small simp del: ascii_simps)
    note keys = holds_value_node(1) [OF a] holds_value_node(1) [OF b] holds_value_node(1) [OF c]
      holds_value_node(1) [OF d]
    show ?thesis
      using valid True number_held [OF a] number_held [OF b small] number_held [OF d] holds_string [OF c]
      by (simp add: window_of_text_def parse root cs window_member_def keys checks seconds del: ascii_simps)
  next
    case False
    with held ms obtain a b c where cs: "children doc node = [a, b, c]"
      and a: "holds_value doc a (Some (ascii ''deadline_epoch''), JNumber (decimal (unat (wd_deadline_epoch window))))"
      and b: "holds_value doc b (Some (ascii ''window_seconds''), JNumber (decimal (unat ?seconds)))"
      and c: "holds_value doc c (Some (ascii ''last_good_hash''), JString (wd_last_good_hash window))"
      by (auto simp: window_json_def list_all2_Cons2 seconds_small simp del: ascii_simps)
    note keys = holds_value_node(1) [OF a] holds_value_node(1) [OF b] holds_value_node(1) [OF c]
    show ?thesis
      using valid False number_held [OF a] number_held [OF b small] holds_string [OF c]
      by (simp add: window_of_text_def parse root cs window_member_def keys checks seconds del: ascii_simps)
  qed
qed


subsection \<open>What a file of the confirm directory is relied on for\<close>

text \<open>
  A value kept in a file: what was saved is what is loaded, and a save or a removal that is refused
  changes nothing.
\<close>

locale saved_value =
  fixes save :: "'v \<Rightarrow> disk \<Rightarrow> (bytes + unit) \<times> disk"
    and load :: "disk \<Rightarrow> 'v option"
    and valid :: "'v \<Rightarrow> bool"
  assumes load_saved: "save v d = (Inr (), d') \<Longrightarrow> valid v \<Longrightarrow> load d' = Some v"
    and save_refused: "save v d = (Inl why, d') \<Longrightarrow> d' = d"
begin

text \<open>After any number of attempts the file holds the last value whose save was reported.\<close>

fun attempts :: "'v list \<Rightarrow> disk \<Rightarrow> disk" where
  "attempts [] d = d"
| "attempts (v # vs) d = attempts vs (snd (save v d))"

fun reported :: "'v list \<Rightarrow> disk \<Rightarrow> 'v list" where
  "reported [] d = []"
| "reported (v # vs) d = (if fst (save v d) = Inr () then [v] else []) @ reported vs (snd (save v d))"

lemma load_last_reported:
  "list_all valid vs \<Longrightarrow>
   load (attempts vs d) = (if reported vs d = [] then load d else Some (last (reported vs d)))"
proof (induction vs arbitrary: d)
  case (Cons v vs)
  obtain r d' where s: "save v d = (r, d')" by fastforce
  with Cons show ?case
    by (cases r) (auto dest: load_saved save_refused)
qed simp

end

locale removable_value = saved_value +
  fixes remove :: "disk \<Rightarrow> (bytes + unit) \<times> disk"
  assumes load_removed: "remove d = (Inr (), d') \<Longrightarrow> load d' = None"
    and remove_refused: "remove d = (Inl why, d') \<Longrightarrow> d' = d"
begin

lemma removed_or_kept: "load (snd (remove d)) = None \<or> snd (remove d) = d"
proof (cases "fst (remove d)")
  case (Inl why)
  then have "remove d = (Inl why, snd (remove d))" by (simp add: prod_eq_iff)
  from remove_refused [OF this] show ?thesis by simp
next
  case (Inr u)
  then have "remove d = (Inr (), snd (remove d))" by (simp add: prod_eq_iff)
  from load_removed [OF this] show ?thesis by simp
qed

end

lemma write_atomically_cases:
  "ncfg_write_atomically d path body = (r, d') \<Longrightarrow>
   (case r of Inr _ \<Rightarrow> d' = d\<lparr>dk_files := (dk_files d)(path := Some body)\<rparr> | Inl _ \<Rightarrow> d' = d)"
  by (auto simp: ncfg_write_atomically_def split: option.splits)

lemma write_window_saved:
  assumes "ncfg_confirm_write_window run w d = (Inr (), d')" "window_valid w"
  shows "ncfg_confirm_read_window run d' = Some w"
proof -
  obtain path where path: "confirm_path run (ascii ''confirm.json'') = Some path"
    using assms(1) by (auto simp: ncfg_confirm_write_window_def split: option.splits simp del: ascii_simps)
  have d': "d' = d\<lparr>dk_files := (dk_files d)(path := Some (json_text (window_json w)))\<rparr>"
    using assms(1) path write_window_text [OF assms(2)]
    by (auto simp: ncfg_confirm_write_window_def Let_def dest: write_atomically_cases simp del: ascii_simps)
  have "length (json_text (window_json w)) \<le> WINDOW_FILE_MAX"
    using window_text_size [OF assms(2)] by (simp add: WINDOW_FILE_MAX_def)
  with path window_reads [OF assms(2)] show ?thesis
    by (simp add: ncfg_confirm_read_window_def d' read_whole_def del: ascii_simps)
qed

interpretation window_file: removable_value
  "ncfg_confirm_write_window run" "ncfg_confirm_read_window run" window_valid "ncfg_confirm_clear_window run"
  for run
proof unfold_locales
  show "ncfg_confirm_write_window run w d = (Inr (), d') \<Longrightarrow> window_valid w \<Longrightarrow>
      ncfg_confirm_read_window run d' = Some w" for w d d'
    by (rule write_window_saved)
  show "ncfg_confirm_write_window run w d = (Inl why, d') \<Longrightarrow> d' = d" for w d why d'
    by (auto simp: ncfg_confirm_write_window_def Let_def dest: write_atomically_cases
        split: option.splits if_splits simp del: ascii_simps)
  show "ncfg_confirm_clear_window run d = (Inr (), d') \<Longrightarrow> ncfg_confirm_read_window run d' = None" for d d'
    by (auto simp: ncfg_confirm_clear_window_def ncfg_confirm_read_window_def unlink_file_def read_whole_def
        split: option.splits if_splits simp del: ascii_simps)
  show "ncfg_confirm_clear_window run d = (Inl why, d') \<Longrightarrow> d' = d" for d why d'
    by (auto simp: ncfg_confirm_clear_window_def unlink_file_def split: option.splits if_splits simp del: ascii_simps)
qed

text \<open>The documents whose canonical text reads back as themselves, within the reader's ceiling.\<close>

definition document_valid :: "('doc, 'obs, 'd, 's, 'o) world \<Rightarrow> 'doc \<Rightarrow> bool" where
  "document_valid world document =
     (case w_canonical world document of
        Inl _ \<Rightarrow> False
      | Inr body \<Rightarrow> length body \<le> DOCUMENT_FILE_MAX \<and> w_read world body = Inr document)"

definition last_good :: "('doc, 'obs, 'd, 's, 'o) world \<Rightarrow> bytes \<Rightarrow> disk \<Rightarrow> 'doc option" where
  "last_good world run disk =
     (case ncfg_confirm_read_last_good world run disk of Inl _ \<Rightarrow> None | Inr document \<Rightarrow> Some document)"

interpretation last_good_file: saved_value
  "ncfg_confirm_write_last_good world run" "last_good world run" "document_valid world" for world run
proof unfold_locales
  show "ncfg_confirm_write_last_good world run v d = (Inr (), d') \<Longrightarrow> document_valid world v \<Longrightarrow>
      last_good world run d' = Some v" for v d d'
    by (auto simp: ncfg_confirm_write_last_good_def last_good_def ncfg_confirm_read_last_good_def
        document_valid_def read_whole_def dest!: write_atomically_cases split: option.splits sum.splits
        simp del: ascii_simps)
  show "ncfg_confirm_write_last_good world run v d = (Inl why, d') \<Longrightarrow> d' = d" for v d why d'
    by (auto simp: ncfg_confirm_write_last_good_def dest: write_atomically_cases split: option.splits sum.splits
        simp del: ascii_simps)
qed

end
