(* ===== verification/Ncfg_Confirm_Run.thy ===== *)
theory Ncfg_Confirm_Run
  imports Ncfg_Confirm_Props
begin

text \<open>
  The confirm window as the daemon lives through it: the steps that touch it, what holds after any
  number of them, and what every way of closing it leaves behind.
\<close>

subsection \<open>The clock\<close>

text \<open>
  C19.  A suspended machine does not lose its window.  However long the machine sleeps once a window
  is armed, if the wall clock moves on by that long, then what is left of the window and whether it
  has closed are as they were -- as long as the sums stay within 64 bits.
\<close>

theorem window_pauses:
  assumes "wd_has_asleep window" "wd_asleep_at_arming window \<le> asleep"
    and "unat asleep + unat slept < 2 ^ 64" "unat now + unat slept < 2 ^ 64"
    and "unat (wd_deadline_epoch window) + unat asleep + unat slept < 2 ^ 64"
  shows "ncfg_confirm_remaining_at (asleep + slept) window (now + slept) =
      ncfg_confirm_remaining_at asleep window now \<and>
    ncfg_confirm_expired_at (asleep + slept) window (now + slept) = ncfg_confirm_expired_at asleep window now \<and>
    (ncfg_confirm_expired_at asleep window now \<longleftrightarrow> ncfg_confirm_remaining_at asleep window now = 0)"
proof -
  let ?at = "wd_asleep_at_arming window"
  let ?d = "wd_deadline_epoch window"
  have le: "unat ?at \<le> unat asleep" using assms(2) by (simp add: word_le_nat_alt)
  have later: "unat (asleep + slept) = unat asleep + unat slept" "unat (now + slept) = unat now + unat slept"
    using assms(3,4) by (simp_all add: unat_word_ariths)
  have deadline: "unat (deadline_of a window) = unat ?d + (unat a - unat ?at)"
    if "unat ?at \<le> unat a" "unat ?d + unat a < 2 ^ 64" for a
    using that assms(1)
    by (auto simp: deadline_of_def word_less_nat_alt unat_word_ariths unat_sub_if' word_le_nat_alt)
  have "unat (deadline_of asleep window) = unat ?d + (unat asleep - unat ?at)"
    "unat (deadline_of (asleep + slept) window) = unat ?d + (unat asleep + unat slept - unat ?at)"
    using deadline [of asleep] deadline [of "asleep + slept"] le assms(5) later by simp_all
  then show ?thesis
    using le later
    by (auto simp: ncfg_confirm_remaining_at_def ncfg_confirm_expired_at_def Let_def word_le_nat_alt
        word_unat_eq_iff unat_sub_if')
qed

theorem window_pauses_witness:
  "ncfg_confirm_remaining_at (70 + 30000)
     \<lparr>wd_deadline_epoch = 1000, wd_asleep_at_arming = 50, wd_has_asleep = True, wd_window_seconds = 60,
      wd_last_good_hash = ascii ''ab''\<rparr> (990 + 30000) = 30"
proof -
  let ?w = "\<lparr>wd_deadline_epoch = 1000, wd_asleep_at_arming = 50, wd_has_asleep = True,
    wd_window_seconds = 60, wd_last_good_hash = ascii ''ab''\<rparr>"
  have "ncfg_confirm_remaining_at (70 + 30000) ?w (990 + 30000) = ncfg_confirm_remaining_at 70 ?w 990"
    by (rule window_pauses [THEN conjunct1]) (simp_all add: word_le_nat_alt)
  also have "\<dots> = 30" by code_simp
  finally show ?thesis .
qed

subsection \<open>The file\<close>

lemma write_window_succeeds:
  assumes "confirm_path run (ascii ''confirm.json'') = Some path" "dk_refuses disk path = None" "window_valid window"
  shows "ncfg_confirm_write_window run window disk =
    (Inr (), disk\<lparr>dk_files := (dk_files disk)(path := Some (json_text (window_json window)))\<rparr>)"
  using assms(1,2) write_window_text [OF assms(3)]
  by (simp add: ncfg_confirm_write_window_def ncfg_write_atomically_def del: ascii_simps)

text \<open>
  C17.  The window survives the process.  Where the path fits and the disk lets it be written, a
  window whose times are in the reader's range and whose hash is the text of a document's hash is
  written, and reading it -- by this daemon or the next -- gives it back; once it has been cleared
  there is no window to read.
\<close>

theorem window_roundtrip:
  assumes "confirm_path run (ascii ''confirm.json'') = Some path" "dk_refuses disk path = None"
    and "window_valid window"
  shows "\<exists>disk'. ncfg_confirm_write_window run window disk = (Inr (), disk') \<and>
    ncfg_confirm_read_window run disk' = Some window \<and>
    ncfg_confirm_read_window run (snd (ncfg_confirm_clear_window run disk')) = None"
proof -
  let ?disk = "disk\<lparr>dk_files := (dk_files disk)(path := Some (json_text (window_json window)))\<rparr>"
  note written = write_window_succeeds [OF assms]
  moreover have "ncfg_confirm_clear_window run ?disk =
      (Inr (), snd (ncfg_confirm_clear_window run ?disk))"
    using assms(1,2) by (simp add: ncfg_confirm_clear_window_def unlink_file_def del: ascii_simps)
  ultimately show ?thesis
    using window_file.load_saved [OF written assms(3)] window_file.load_removed by blast
qed


definition plain_disk :: disk where
  "plain_disk = \<lparr>dk_files = (\<lambda>_. None), dk_refuses = (\<lambda>_. None)\<rparr>"

theorem window_roundtrip_witness:
  "\<exists>disk'. ncfg_confirm_read_window (ascii ''/run/netcfgd/'') disk' =
     Some \<lparr>wd_deadline_epoch = 1000, wd_asleep_at_arming = 50, wd_has_asleep = True, wd_window_seconds = 60,
       wd_last_good_hash = ascii ''ab''\<rparr>"
proof -
  let ?w = "\<lparr>wd_deadline_epoch = 1000, wd_asleep_at_arming = 50, wd_has_asleep = True,
    wd_window_seconds = 60, wd_last_good_hash = ascii ''ab''\<rparr>"
  have path: "confirm_path (ascii ''/run/netcfgd/'') (ascii ''confirm.json'') =
      Some (ascii ''/run/netcfgd-confirm/confirm.json'')" by code_simp
  have valid: "window_valid ?w" by code_simp
  have "dk_refuses plain_disk (ascii ''/run/netcfgd-confirm/confirm.json'') = None"
    by (simp add: plain_disk_def)
  from window_roundtrip [OF path this valid] show ?thesis by blast
qed

subsection \<open>What the operations leave alone\<close>

definition window_clearable :: "bytes \<Rightarrow> disk \<Rightarrow> bool" where
  "window_clearable run disk =
     (case confirm_path run (ascii ''confirm.json'') of None \<Rightarrow> True | Some path \<Rightarrow> dk_refuses disk path = None)"

lemma clear_closes:
  "window_clearable run disk \<Longrightarrow> ncfg_confirm_read_window run (snd (ncfg_confirm_clear_window run disk)) = None"
  by (auto simp: window_clearable_def ncfg_confirm_clear_window_def ncfg_confirm_read_window_def
      unlink_file_def read_whole_def split: option.splits simp del: ascii_simps)

lemma write_atomically_files:
  "dk_files (snd (ncfg_write_atomically disk path body)) q =
     (if q = path \<and> dk_refuses disk path = None then Some body else dk_files disk q)"
  by (simp add: ncfg_write_atomically_def split: option.split)

lemma refuses_kept [simp]:
  "dk_refuses (snd (ncfg_write_atomically disk path body)) = dk_refuses disk"
  "dk_refuses (snd (ncfg_confirm_clear_window run disk)) = dk_refuses disk"
  "dk_refuses (snd (ncfg_confirm_write_window run window disk)) = dk_refuses disk"
  "dk_refuses (snd (ncfg_confirm_write_last_good world run document disk)) = dk_refuses disk"
  by (simp_all add: ncfg_write_atomically_def ncfg_confirm_clear_window_def unlink_file_def
      ncfg_confirm_write_window_def ncfg_confirm_write_last_good_def Let_def
      split: option.split sum.split del: ascii_simps)

lemma clearable_kept [simp]:
  "window_clearable run (snd (ncfg_confirm_clear_window run' disk)) = window_clearable run disk"
  "window_clearable run (snd (ncfg_confirm_write_window run' window disk)) = window_clearable run disk"
  "window_clearable run (snd (ncfg_confirm_write_last_good world run' document disk)) = window_clearable run disk"
  by (simp_all add: window_clearable_def split: option.split del: ascii_simps)

lemma clear_keeps_last_good:
  "ncfg_confirm_read_last_good world run (snd (ncfg_confirm_clear_window run disk)) =
   ncfg_confirm_read_last_good world run disk"
  using confirm_paths_differ [of run]
  by (auto simp: ncfg_confirm_read_last_good_def ncfg_confirm_clear_window_def unlink_file_def read_whole_def
      split: option.split simp del: ascii_simps)

lemma write_window_keeps_last_good:
  "ncfg_confirm_read_last_good world run (snd (ncfg_confirm_write_window run window disk)) =
   ncfg_confirm_read_last_good world run disk"
  using confirm_paths_differ [of run]
  by (auto simp: ncfg_confirm_read_last_good_def ncfg_confirm_write_window_def write_atomically_files
      read_whole_def Let_def split: option.split simp del: ascii_simps)

lemma write_last_good_keeps_window:
  "ncfg_confirm_read_window run (snd (ncfg_confirm_write_last_good world run document disk)) =
   ncfg_confirm_read_window run disk"
  using confirm_paths_differ [of run]
  by (auto simp: ncfg_confirm_read_window_def ncfg_confirm_write_last_good_def write_atomically_files
      read_whole_def split: option.split sum.split simp del: ascii_simps)

lemma write_last_good_kept:
  "ncfg_confirm_write_last_good world run document disk = (verdict, disk') \<Longrightarrow>
   ncfg_confirm_read_window run disk' = ncfg_confirm_read_window run disk \<and>
   window_clearable run disk' = window_clearable run disk"
  using write_last_good_keeps_window [of run world document disk]
    clearable_kept(3) [of run world run document disk] by simp

lemma aside_fields [simp]:
  "ds_run (ncfg_daemon_state_reobserve world st) = ds_run st"
  "ds_disk (ncfg_daemon_state_reobserve world st) = ds_disk st"
  "ds_desired (ncfg_daemon_state_reobserve world st) = ds_desired st"
  "ds_rejected (ncfg_daemon_state_reobserve world st) = ds_rejected st"
  "ds_run (ncfg_daemon_state_publish world st) = ds_run st"
  "ds_disk (ncfg_daemon_state_publish world st) = ds_disk st"
  "ds_desired (ncfg_daemon_state_publish world st) = ds_desired st"
  "ds_rejected (ncfg_daemon_state_publish world st) = ds_rejected st"
  by (simp_all add: ncfg_daemon_state_reobserve_def ncfg_daemon_state_publish_def split: option.split)

lemma replan_fields [simp]:
  "ds_run (replan_onto_last_good world st) = ds_run st"
  "ds_disk (replan_onto_last_good world st) = ds_disk st"
  "ds_desired (replan_onto_last_good world st) = ds_desired st"
  "ds_rejected (replan_onto_last_good world st) = ds_rejected st"
  by (simp_all add: replan_onto_last_good_def split: option.split prod.split)

lemma undo_fields [simp]:
  "ds_run (undo_armed world armed st) = ds_run st"
  "ds_disk (undo_armed world armed st) = ds_disk st"
  "ds_desired (undo_armed world armed st) = ds_desired st"
  "ds_rejected (undo_armed world armed st) = ds_rejected st"
  by (simp_all add: undo_armed_def split: option.split prod.split)

lemma revert_fields:
  "ds_run (fst (snd (ncfg_confirm_revert world st armed))) = ds_run st"
  "ds_disk (fst (snd (ncfg_confirm_revert world st armed))) =
     (if ncfg_confirm_read_window (ds_run st) (ds_disk st) = None then ds_disk st
      else snd (ncfg_confirm_clear_window (ds_run st) (ds_disk st)))"
  by (simp_all add: ncfg_confirm_revert_def Let_def split: option.split sum.split)

lemma revert_succeeds:
  assumes "ncfg_confirm_read_window (ds_run st) (ds_disk st) = Some window"
    and "ncfg_confirm_read_last_good world (ds_run st) (ds_disk st) = Inr document"
  shows "fst (ncfg_confirm_revert world st armed) = Inr (CONFIRM_RESOLVED False)"
    "ds_desired (fst (snd (ncfg_confirm_revert world st armed))) = Some document"
    "ds_rejected (fst (snd (ncfg_confirm_revert world st armed))) = rejected_hash world st armed"
    "snd (snd (ncfg_confirm_revert world st armed)) = no_armed"
  using assms by (simp_all add: ncfg_confirm_revert_def Let_def)

subsection \<open>The steps\<close>

text \<open>
  A document's hash is a short text, and the clocks a window is armed with leave room for it: the
  hash is sixty-four hexadecimal digits and the clocks count seconds.
\<close>

definition hash_plain :: "('doc, 'obs, 'd, 's, 'o) world \<Rightarrow> bool" where
  "hash_plain world \<longleftrightarrow>
     (\<forall>document h. w_hash world document = Inr h \<longrightarrow> plain_text h \<and> length h < NCFG_DAEMON_HASH_MAX)"

inductive confirm_step ::
  "('doc, 'obs, 'd, 's, 'o) world \<Rightarrow> ('doc, 'obs, 's, 'o) daemon \<times> 'd armed
     \<Rightarrow> ('doc, 'obs, 's, 'o) daemon \<times> 'd armed \<Rightarrow> bool" for world where
    arms: "ncfg_confirm_may_arm world now asleep st = Inr document \<Longrightarrow>
      unat now + unat seconds < 2 ^ 63 \<Longrightarrow> unat asleep < 2 ^ 63 \<Longrightarrow>
      confirm_step world (st, armed) (snd (ncfg_daemon_arm_window world now asleep
        (st\<lparr>ds_machine := machine, ds_observed := observed, ds_others := others\<rparr>)
        armed plan journal seconds document))"
  | keeps: "confirm_step world (st, armed) (snd (ncfg_confirm_keep world st armed applied))"
  | reverts: "confirm_step world (st, armed) (snd (ncfg_confirm_revert world st armed))"
  | restarts: "confirm_step world (st, armed) (snd (ncfg_confirm_resolve_on_startup world
        (st\<lparr>ds_desired := desired, ds_observed := observed, ds_rejected := None,
          ds_diagnostics := diagnostics\<rparr>) no_armed))"
  | reloads: "confirm_step world (st, armed) (snd (ncfg_daemon_state_reload world loaded st), armed)"
  | settles: "confirm_step world (st, armed) (settle_without_a_window world st armed)"
  | establishes: "confirm_step world (st, armed)
        (snd (ncfg_reconcile_establish_last_good world fresh st), armed)"
  | works: "confirm_step world (st, armed)
        (st\<lparr>ds_desired := desired, ds_observed := observed, ds_rejected := rejected,
            ds_diagnostics := diagnostics, ds_machine := machine, ds_others := others\<rparr>, armed)"

definition promised :: "('doc, 'obs, 'd, 's, 'o) world \<Rightarrow> ('doc, 'obs, 's, 'o) daemon \<Rightarrow> bool" where
  "promised world st \<longleftrightarrow>
     (\<forall>window. ncfg_confirm_read_window (ds_run st) (ds_disk st) = Some window \<longrightarrow>
        (\<exists>document. ncfg_confirm_read_last_good world (ds_run st) (ds_disk st) = Inr document \<and>
           w_hash world document = Inr (wd_last_good_hash window)))"


lemma may_arm_cases:
  "ncfg_confirm_may_arm world now asleep st = Inr document \<Longrightarrow>
   ncfg_confirm_read_window (ds_run st) (ds_disk st) = None \<and>
   ncfg_confirm_read_last_good world (ds_run st) (ds_disk st) = Inr document"
  by (auto simp: ncfg_confirm_may_arm_def split: option.splits sum.splits)

lemma armed_window_valid:
  assumes "hash_plain world" "w_hash world document = Inr h"
    and "unat now + unat (seconds :: 32 word) < 2 ^ 63" "unat asleep < 2 ^ 63"
  shows "window_valid \<lparr>wd_deadline_epoch = now + ucast seconds, wd_asleep_at_arming = asleep,
    wd_has_asleep = True, wd_window_seconds = seconds, wd_last_good_hash = h\<rparr>"
proof -
  have "unat (now + ucast seconds) = unat now + unat seconds"
    using assms(3) by (simp add: unat_word_ariths seconds_small)
  with assms show ?thesis by (simp add: window_valid_def hash_plain_def)
qed

lemma arm_fields:
  "ds_run (snd (ncfg_confirm_arm world now asleep st seconds document)) = ds_run st"
  by (simp add: ncfg_confirm_arm_def split: sum.split prod.split)

lemma arm_succeeds:
  assumes "hash_plain world" "w_hash world document = Inr h"
    and "unat now + unat seconds < 2 ^ 63" "unat asleep < 2 ^ 63"
    and "confirm_path (ds_run st) (ascii ''confirm.json'') = Some path" "dk_refuses (ds_disk st) path = None"
  shows "fst (ncfg_confirm_arm world now asleep st seconds document) = Inr (CONFIRM_ARMED seconds)"
  using assms(2) write_window_succeeds [OF assms(5,6) armed_window_valid [OF assms(1-4)]]
  by (simp add: ncfg_confirm_arm_def del: ascii_simps)

lemma arm_opens:
  assumes "hash_plain world" "unat now + unat seconds < 2 ^ 63" "unat asleep < 2 ^ 63"
    and "fst (ncfg_confirm_arm world now asleep st seconds document) = Inr event"
  shows "\<exists>window. ncfg_confirm_read_window (ds_run st) (ds_disk (snd (ncfg_confirm_arm world now asleep st seconds document))) =
      Some window \<and> w_hash world document = Inr (wd_last_good_hash window)"
proof -
  from assms(4) obtain h d' where h: "w_hash world document = Inr h"
    and wrote: "ncfg_confirm_write_window (ds_run st)
      \<lparr>wd_deadline_epoch = now + ucast seconds, wd_asleep_at_arming = asleep, wd_has_asleep = True,
       wd_window_seconds = seconds, wd_last_good_hash = h\<rparr> (ds_disk st) = (Inr (), d')"
    and "snd (ncfg_confirm_arm world now asleep st seconds document) = st\<lparr>ds_disk := d'\<rparr>"
    by (auto simp: ncfg_confirm_arm_def split: sum.splits prod.splits)
  with window_file.load_saved [OF wrote armed_window_valid [OF assms(1) h assms(2,3)]] show ?thesis by auto
qed

lemma ncfg_confirm_arm_clearable:
  "window_clearable run (ds_disk (snd (ncfg_confirm_arm world now asleep st seconds document))) =
   window_clearable run (ds_disk st)"
  by (auto simp: ncfg_confirm_arm_def split: sum.split prod.split
      dest!: arg_cong [where f = "\<lambda>p. window_clearable run (snd p)"])

lemma arm_keeps_last_good:
  "ncfg_confirm_read_last_good world (ds_run st) (ds_disk (snd (ncfg_confirm_arm world now asleep st seconds document))) =
   ncfg_confirm_read_last_good world (ds_run st) (ds_disk st)"
  by (auto simp: ncfg_confirm_arm_def split: sum.split prod.split
      dest!: arg_cong [where f = "\<lambda>p. ncfg_confirm_read_last_good world (ds_run st) (snd p)"]
      simp: write_window_keeps_last_good)

lemma arm_promised:
  assumes "hash_plain world" "unat now + unat seconds < 2 ^ 63" "unat asleep < 2 ^ 63"
    and "ncfg_confirm_read_window (ds_run st) (ds_disk st) = None"
    and "ncfg_confirm_read_last_good world (ds_run st) (ds_disk st) = Inr document"
    and "window_clearable (ds_run st) (ds_disk st)"
  shows "promised world (snd (ncfg_confirm_arm world now asleep st seconds document)) \<and>
    window_clearable (ds_run st) (ds_disk (snd (ncfg_confirm_arm world now asleep st seconds document)))"
proof (cases "w_hash world document")
  case (Inl why)
  with assms(4,6) show ?thesis by (simp add: ncfg_confirm_arm_def promised_def)
next
  case (Inr h)
  let ?w = "\<lparr>wd_deadline_epoch = now + ucast seconds, wd_asleep_at_arming = asleep,
    wd_has_asleep = True, wd_window_seconds = seconds, wd_last_good_hash = h\<rparr>"
  note valid = armed_window_valid [OF assms(1) Inr assms(2,3)]
  obtain r d' where wrote: "ncfg_confirm_write_window (ds_run st) ?w (ds_disk st) = (r, d')" by fastforce
  have good: "ncfg_confirm_read_last_good world (ds_run st) d' = Inr document"
    using write_window_keeps_last_good [of world "ds_run st" ?w "ds_disk st"] assms(5) wrote by simp
  have clearable: "window_clearable (ds_run st) d'"
    using clearable_kept(2) [of "ds_run st" "ds_run st" ?w "ds_disk st"] assms(6) wrote by simp
  show ?thesis
  proof (cases r)
    case (Inl why)
    with wrote window_file.save_refused [of "ds_run st" ?w "ds_disk st" why d'] have "d' = ds_disk st" by simp
    with Inl Inr wrote assms(4,6) show ?thesis by (simp add: ncfg_confirm_arm_def promised_def)
  next
    case (Inr u)
    with wrote window_file.load_saved [OF _ valid, of "ds_run st" "ds_disk st" d']
    have "ncfg_confirm_read_window (ds_run st) d' = Some ?w" by simp
    with Inr \<open>w_hash world document = Inr h\<close> wrote good clearable show ?thesis
      by (simp add: ncfg_confirm_arm_def promised_def)
  qed
qed

lemma reload_fields:
  "ds_run (snd (ncfg_daemon_state_reload world loaded st)) = ds_run st"
  "ds_disk (snd (ncfg_daemon_state_reload world loaded st)) = ds_disk st"
  by (simp_all add: ncfg_daemon_state_reload_def Let_def split: sum.split option.split prod.split)

lemma closed_promised: "ncfg_confirm_read_window (ds_run st) (ds_disk st) = None \<Longrightarrow> promised world st"
  by (simp add: promised_def)

lemma arm_window_state:
  "fst (snd (ncfg_daemon_arm_window world now asleep st armed plan journal seconds document)) =
   snd (ncfg_confirm_arm world now asleep st seconds document)"
  by (simp add: ncfg_daemon_arm_window_def Let_def split: sum.split prod.split)

lemma keep_window:
  assumes "window_clearable (ds_run st) (ds_disk st)"
  shows "ds_run (fst (snd (ncfg_confirm_keep world st armed applied))) = ds_run st"
    "ncfg_confirm_read_window (ds_run st) (ds_disk (fst (snd (ncfg_confirm_keep world st armed applied)))) = None"
    "window_clearable (ds_run st) (ds_disk (fst (snd (ncfg_confirm_keep world st armed applied))))"
  using assms clear_closes [OF assms]
  by (simp_all add: ncfg_confirm_keep_def Let_def write_last_good_keeps_window split: option.split)

lemma revert_window:
  assumes "window_clearable (ds_run st) (ds_disk st)"
  shows "ncfg_confirm_read_window (ds_run st) (ds_disk (fst (snd (ncfg_confirm_revert world st armed)))) = None"
    "window_clearable (ds_run st) (ds_disk (fst (snd (ncfg_confirm_revert world st armed))))"
  using assms clear_closes [OF assms] by (simp_all add: revert_fields)

lemma startup_window:
  assumes "window_clearable (ds_run st) (ds_disk st)"
  shows "ds_run (fst (snd (ncfg_confirm_resolve_on_startup world st armed))) = ds_run st"
    "ncfg_confirm_read_window (ds_run st) (ds_disk (fst (snd (ncfg_confirm_resolve_on_startup world st armed)))) = None"
    "window_clearable (ds_run st) (ds_disk (fst (snd (ncfg_confirm_resolve_on_startup world st armed))))"
proof -
  have same: "fst (snd (ncfg_confirm_resolve_on_startup world st armed)) =
      (if ncfg_confirm_read_window (ds_run st) (ds_disk st) = None then st
       else fst (snd (ncfg_confirm_revert world st armed)))"
    by (simp add: ncfg_confirm_resolve_on_startup_def split: option.split sum.split prod.split)
  show "ds_run (fst (snd (ncfg_confirm_resolve_on_startup world st armed))) = ds_run st"
    by (simp add: same revert_fields)
  show "ncfg_confirm_read_window (ds_run st) (ds_disk (fst (snd (ncfg_confirm_resolve_on_startup world st armed)))) = None"
    by (simp add: same revert_window [OF assms])
  show "window_clearable (ds_run st) (ds_disk (fst (snd (ncfg_confirm_resolve_on_startup world st armed))))"
    by (simp add: same assms revert_window [OF assms])
qed

definition window_sound :: "('doc, 'obs, 'd, 's, 'o) world \<Rightarrow> ('doc, 'obs, 's, 'o) daemon \<Rightarrow> bool" where
  "window_sound world st \<longleftrightarrow> promised world st \<and> window_clearable (ds_run st) (ds_disk st)"

lemma closed_sound:
  "ds_run st' = run \<Longrightarrow> ncfg_confirm_read_window run (ds_disk st') = None \<Longrightarrow>
   window_clearable run (ds_disk st') \<Longrightarrow> window_sound world st'"
  by (simp add: window_sound_def closed_promised)

lemma step_sound:
  assumes "confirm_step world s s'" "hash_plain world" "window_sound world (fst s)"
  shows "window_sound world (fst s')"
  using assms(1,3)
proof (induction rule: confirm_step.induct)
  case (arms now asleep st document seconds armed others observed machine plan journal)
  let ?st = "st\<lparr>ds_machine := machine, ds_observed := observed, ds_others := others\<rparr>"
  from may_arm_cases [OF arms(1)] arms(4)
    arm_promised [OF assms(2) arms(2,3), of ?st document]
  show ?case by (simp add: window_sound_def arm_window_state arm_fields)
next
  case (keeps st armed applied)
  then have "window_clearable (ds_run st) (ds_disk st)" by (simp add: window_sound_def)
  from closed_sound [OF keep_window [OF this]] show ?case .
next
  case (reverts st armed)
  then have "window_clearable (ds_run st) (ds_disk st)" by (simp add: window_sound_def)
  from closed_sound [OF revert_fields(1) revert_window [OF this]] show ?case .
next
  case (restarts st armed diagnostics observed desired)
  let ?st = "st\<lparr>ds_desired := desired, ds_observed := observed, ds_rejected := None, ds_diagnostics := diagnostics\<rparr>"
  from restarts have "window_clearable (ds_run ?st) (ds_disk ?st)" by (simp add: window_sound_def)
  from closed_sound [OF startup_window [OF this]] show ?case .
next
  case (reloads st armed loaded)
  then show ?case by (simp add: window_sound_def promised_def reload_fields)
next
  case (settles st armed)
  then show ?case
    by (auto simp: settle_without_a_window_def window_sound_def promised_def write_last_good_keeps_window
        split: option.split)
next
  case (establishes st armed fresh)
  then show ?case
    by (fastforce simp: ncfg_reconcile_establish_last_good_def window_sound_def promised_def
        split: sum.split prod.split dest: write_last_good_kept)
next
  case works
  then show ?case by (simp add: window_sound_def promised_def)
qed


lemma steps_sound:
  assumes "(confirm_step world)\<^sup>*\<^sup>* s s'" "hash_plain world" "window_sound world (fst s)"
  shows "window_sound world (fst s')"
  using assms(1)
  by (induction rule: rtranclp_induct) (use assms(2,3) step_sound in blast)+



text \<open>
  C18.  One window at a time.  While a window is open no other can be armed, and arming one needs a last
  good configuration to go back to; after a window has been armed on a disk that takes it, one is
  open.
\<close>

theorem one_window:
  assumes "hash_plain world" "unat now + unat seconds < 2 ^ 63" "unat asleep < 2 ^ 63"
    and "ncfg_confirm_may_arm world now asleep st = Inr document"
    and "ncfg_confirm_arm world now asleep st seconds document = (Inr event, st')"
  shows "ncfg_confirm_read_window (ds_run st) (ds_disk st) = None \<and>
    ncfg_confirm_read_last_good world (ds_run st) (ds_disk st) = Inr document \<and>
    (\<exists>window. ncfg_confirm_read_window (ds_run st') (ds_disk st') = Some window \<and>
       w_hash world document = Inr (wd_last_good_hash window)) \<and>
    (\<forall>now' asleep'. \<exists>why. ncfg_confirm_may_arm world now' asleep' st' = Inl why)"
proof -
  have run: "ds_run st' = ds_run st" using arm_fields [of world now asleep st seconds document] assms(5) by simp
  from arm_opens [OF assms(1-3), of st document event, unfolded assms(5)]
  obtain window where "ncfg_confirm_read_window (ds_run st') (ds_disk st') = Some window"
    "w_hash world document = Inr (wd_last_good_hash window)" unfolding run by auto
  with may_arm_cases [OF assms(4)] show ?thesis by (auto simp: ncfg_confirm_may_arm_def)
qed

subsection \<open>What an open window undoes\<close>

text \<open>
  The inverses of the actions the journal records as done, in the plan's order: what arming a window
  copies out of the plan it covers.
\<close>

definition armed_inverse :: "journal \<Rightarrow> 'd action \<Rightarrow> 'd op option" where
  "armed_inverse journal action =
     (case record_for journal (ac_id action) of
        None \<Rightarrow> None
      | Some r \<Rightarrow> if rc_outcome r = NCFG_OUTCOME_DONE then ac_inverse action else None)"

definition armed_pair :: "'d plan \<Rightarrow> journal \<Rightarrow> bool" where
  "armed_pair undo kept \<longleftrightarrow>
     list_all2 (\<lambda>r action. rc_id r = ac_id action \<and> rc_outcome r = NCFG_OUTCOME_DONE) (jn_records kept) (pl_actions undo) \<and>
     map ac_id (pl_actions undo) = map of_nat [0..<length (pl_actions undo)]"

lemma armed_sticky:
  "armed_actions grants journal actions (undo, kept) = (undo', kept') \<Longrightarrow> jn_failed kept \<Longrightarrow> jn_failed kept'"
proof (induction actions arbitrary: undo kept)
  case (Cons action actions)
  then show ?case
    by (fastforce split: option.splits if_splits prod.splits simp: ncfg_journal_push_def)
qed simp

lemma armed_actions_spec:
  assumes "armed_actions grants journal actions (undo, kept) = (undo', kept')"
    and "\<not> pl_failed undo" "\<not> jn_failed kept'" "armed_pair undo kept"
    and "length (pl_actions undo) + length actions < unat NCFG_PLAN_NO_ACTION"
  shows "armed_pair undo' kept' \<and>
    map ac_inverse (pl_actions undo') =
      map ac_inverse (pl_actions undo) @ map Some (List.map_filter (armed_inverse journal) actions) \<and>
    length (pl_actions undo') \<le> length (pl_actions undo) + length actions"
  using assms
proof (induction actions arbitrary: undo kept)
  case (Cons action actions)
  show ?case
  proof (cases "armed_inverse journal action")
    case None
    then have "armed_actions grants journal actions (undo, kept) = (undo', kept')"
      using Cons.prems(1) by (auto simp: armed_inverse_def split: option.splits if_splits)
    from Cons.IH [OF this] Cons.prems None show ?thesis by (simp add: map_filter_simps)
  next
    case (Some u)
    then obtain r where r: "record_for journal (ac_id action) = Some r" "rc_outcome r = NCFG_OUTCOME_DONE"
      "ac_inverse action = Some u" by (auto simp: armed_inverse_def split: option.splits if_splits)
    let ?i = "of_nat (length (pl_actions undo)) :: action_id"
    let ?undo = "snd (ncfg_plan_add undo (ac_op action) (ac_reason action) [] (ac_inverse action))"
    let ?kept = "ncfg_journal_push grants kept \<lparr>rc_id = ?i, rc_op = rc_op r, rc_interface = rc_interface r,
                    rc_reason = ac_reason action, rc_outcome = NCFG_OUTCOME_DONE, rc_error = None\<rparr>"
    have "unat ?i = length (pl_actions undo)"
      using Cons.prems(5) by (simp add: unat_of_nat NCFG_PLAN_NO_ACTION_def)
    then have "?i \<noteq> NCFG_PLAN_NO_ACTION" using Cons.prems(5) by auto
    then have step: "armed_actions grants journal actions (?undo, ?kept) = (undo', kept')"
      using Cons.prems(1,2) r by (simp add: ncfg_plan_add_def Let_def)
    have undo: "pl_actions ?undo = pl_actions undo @ [\<lparr>ac_id = ?i, ac_op = ac_op action,
        ac_reason = ac_reason action, ac_depends_on = [], ac_inverse = Some u\<rparr>]" "\<not> pl_failed ?undo"
      using Cons.prems(2) r by (simp_all add: ncfg_plan_add_def Let_def)
    have "\<not> jn_failed ?kept" using armed_sticky [OF step] Cons.prems(3) by blast
    note kept = journal.add_kept [OF this]
    have "armed_pair ?undo ?kept"
      using Cons.prems(4) undo kept
      by (auto simp: armed_pair_def intro!: list_all2_appendI)
    from Cons.IH [OF step undo(2) Cons.prems(3) this] Cons.prems(5) undo Some
    show ?thesis by (simp add: map_filter_simps)
  qed
qed simp

lemma undo_ops_pairs:
  "list_all2 (\<lambda>r action. undo_of plan r = f action) rs actions \<Longrightarrow> undo_ops plan rs = List.map_filter f actions"
  by (induction rule: list_all2_induct) (simp_all add: map_filter_simps split: option.split)

lemma undo_ops_rev: "undo_ops plan (rev rs) = rev (undo_ops plan rs)"
  by (simp add: undo_ops_def List.map_filter_def rev_map rev_filter)

lemma undo_of_recorded:
  assumes "distinct (map ac_id (pl_actions plan))" "map rc_id rs = map ac_id (pl_actions plan)" "i < length rs"
  shows "undo_of plan (rs ! i) =
      (if rc_outcome (rs ! i) = NCFG_OUTCOME_DONE then ac_inverse (pl_actions plan ! i) else None)"
    "find (\<lambda>r. rc_id r = ac_id (pl_actions plan ! i)) rs = Some (rs ! i)"
proof -
  have n: "length rs = length (pl_actions plan)" using assms(2) by (metis length_map)
  then have same: "rc_id (rs ! i) = ac_id (pl_actions plan ! i)"
    using assms(2,3) by (metis nth_map)
  show "undo_of plan (rs ! i) =
      (if rc_outcome (rs ! i) = NCFG_OUTCOME_DONE then ac_inverse (pl_actions plan ! i) else None)"
    using find_distinct [OF assms(1), of "pl_actions plan ! i"] n assms(3) same
    by (simp add: undo_of_def action_with_id_def)
  show "find (\<lambda>r. rc_id r = ac_id (pl_actions plan ! i)) rs = Some (rs ! i)"
    using find_distinct [of rc_id rs "rs ! i"] assms same by simp
qed

lemma map_filter_Some: "map f xs = map Some us \<Longrightarrow> List.map_filter f xs = us"
  by (induction xs arbitrary: us) (auto simp: map_filter_simps)

lemma list_all2_map_eq: "list_all2 (\<lambda>x y. f x = g y) xs ys \<Longrightarrow> map f xs = map g ys"
  by (induction rule: list_all2_induct) simp_all

lemma armed_new:
  "armed_pair ncfg_plan_new ncfg_journal_init" "\<not> pl_failed ncfg_plan_new" "pl_actions ncfg_plan_new = []"
  by (simp_all add: armed_pair_def ncfg_plan_new_def ncfg_journal_init_def)

text \<open>Undoing the armed plan runs what undoing the plan it was armed from would run.\<close>

lemma armed_undo_same:
  assumes "ncfg_confirm_armed_from world plan journal document = Inr armed"
    and "distinct (map ac_id (pl_actions plan))" "map rc_id (jn_records journal) = map ac_id (pl_actions plan)"
    and "length (pl_actions plan) < unat NCFG_PLAN_NO_ACTION"
  shows "\<exists>undo. am_undo armed = Some undo \<and>
    undo_ops undo (jn_records (am_journal armed)) = undo_ops plan (jn_records journal)"
proof -
  from assms(1) obtain undo kept where
    armed: "armed_actions (w_grants world) journal (pl_actions plan) (ncfg_plan_new, ncfg_journal_init) = (undo, kept)"
      "\<not> jn_failed kept" "am_undo armed = Some undo" "am_journal armed = kept"
    by (auto simp: ncfg_confirm_armed_from_def ncfg_journal_failed_def split: sum.splits prod.splits if_splits)
  from armed_actions_spec [OF armed(1) armed_new(2) armed(2) armed_new(1)] assms(4)
  have pair: "armed_pair undo kept"
    and inverses: "map ac_inverse (pl_actions undo) = map Some (List.map_filter (armed_inverse journal) (pl_actions plan))"
    and short: "length (pl_actions undo) < unat NCFG_PLAN_NO_ACTION" by (simp_all add: armed_new(3))
  have ids: "map rc_id (jn_records kept) = map ac_id (pl_actions undo)"
    using pair unfolding armed_pair_def by (intro list_all2_map_eq) (blast intro: list_all2_mono)
  have "distinct (map ac_id (pl_actions undo))"
    using pair short by (auto simp: armed_pair_def distinct_map inj_on_def word_of_nat_eq_iff take_bit_nat_eq_self
        NCFG_PLAN_NO_ACTION_def)
  from undo_of_recorded(1) [OF this ids] pair
  have "list_all2 (\<lambda>r action. undo_of undo r = ac_inverse action) (jn_records kept) (pl_actions undo)"
    by (auto simp: armed_pair_def list_all2_conv_all_nth)
  from undo_ops_pairs [OF this] map_filter_Some [OF inverses]
  have "undo_ops undo (jn_records kept) = List.map_filter (armed_inverse journal) (pl_actions plan)" by simp
  moreover have "list_all2 (\<lambda>r action. undo_of plan r = armed_inverse journal action) (jn_records journal) (pl_actions plan)"
    using undo_of_recorded [OF assms(2,3)] assms(3)
    by (intro list_all2_all_nthI) (auto simp: armed_inverse_def record_for_def dest: map_eq_imp_length_eq)
  ultimately show ?thesis using undo_ops_pairs armed(3,4) by fastforce
qed

lemma revert_state:
  "ncfg_apply_revert execute plan s journal = (undone, journal', s') \<Longrightarrow>
   s' = foldl (\<lambda>s u. snd (execute s u)) s (undo_ops plan (rev (jn_records journal)))"
  using revert_records_spec by (fastforce simp: ncfg_apply_revert_def split: prod.splits)

lemma run_undone:
  assumes "run_plan grants execute narrates s plan = (Inr u, journal, said, s')"
    and "distinct (map ac_id (pl_actions plan))"
    and "\<forall>action \<in> set (pl_actions plan). undoable execute action"
  shows "foldl (\<lambda>s u. snd (execute s u)) s' (undo_ops plan (rev (jn_records journal))) = s"
proof -
  have "\<forall>action \<in> set (pl_actions plan). undoable execute action \<and>
      action_with_id plan (ac_id action) = Some action"
    using assms(2,3) by (simp add: action_with_id_def find_distinct)
  from revert_execution [OF this, of 0 False s, unfolded run_plan_execution(1) [OF assms(1)]]
  show ?thesis using revert_records_spec by fastforce
qed

text \<open>
  C14.  What a revert of an open window undoes on the machine.  A plan whose actions have distinct ids
  and can all be undone was applied, and the apply reported success; the window was armed with the
  plan and the journal.  Then carrying out the undo plan the window keeps, over the journal it keeps,
  puts the machine back to where it was before the apply.
\<close>

theorem armed_undo_restores:
  assumes "run_plan grants execute narrates s plan = (Inr u, journal, said, s')"
    and "distinct (map ac_id (pl_actions plan))"
    and "\<forall>action \<in> set (pl_actions plan). undoable execute action"
    and "length (pl_actions plan) < unat NCFG_PLAN_NO_ACTION"
    and "ncfg_confirm_armed_from world plan journal document = Inr armed"
  shows "\<exists>undo undone journal'. am_undo armed = Some undo \<and>
    ncfg_apply_revert execute undo s' (am_journal armed) = (undone, journal', s)"
proof -
  have "map rc_id (jn_records journal) = map ac_id (pl_actions plan)"
    using execution_records [of execute False s "pl_actions plan"] run_plan_execution(1) [OF assms(1)]
    by (auto simp: list_all2_conv_all_nth records_action_def intro: nth_equalityI)
  from armed_undo_same [OF assms(5,2) this assms(4)] obtain undo where
    undo: "am_undo armed = Some undo" "undo_ops undo (jn_records (am_journal armed)) = undo_ops plan (jn_records journal)"
    by blast
  obtain undone kept t where reverted: "ncfg_apply_revert execute undo s' (am_journal armed) = (undone, kept, t)"
    by (metis prod_cases3)
  have "t = s"
    using revert_state [OF reverted] run_undone [OF assms(1-3)] undo(2) by (simp add: undo_ops_rev)
  with undo(1) reverted show ?thesis by blast
qed

subsection \<open>What was reverted stays away\<close>

text \<open>A reload that brings back what was rejected, or nothing.\<close>

definition brings_nothing_new :: "('doc, 'obs, 'd, 's, 'o) world \<Rightarrow> bytes \<Rightarrow> (bytes \<times> bytes) + 'doc \<Rightarrow> bool" where
  "brings_nothing_new world rejected loaded =
     (case loaded of Inl _ \<Rightarrow> True | Inr document \<Rightarrow> w_hash world document = Inr rejected)"

definition reload_all ::
  "('doc, 'obs, 'd, 's, 'o) world \<Rightarrow> ((bytes \<times> bytes) + 'doc) list \<Rightarrow> ('doc, 'obs, 's, 'o) daemon
     \<Rightarrow> ('doc, 'obs, 's, 'o) daemon" where
  "reload_all world loads st = foldl (\<lambda>st loaded. snd (ncfg_daemon_state_reload world loaded st)) st loads"

lemma reload_rejected:
  assumes "ds_rejected st = Some rejected" "brings_nothing_new world rejected loaded"
  shows "ds_desired (snd (ncfg_daemon_state_reload world loaded st)) = ds_desired st"
    "ds_rejected (snd (ncfg_daemon_state_reload world loaded st)) = Some rejected"
    "isl (fst (ncfg_daemon_state_reload world loaded st))"
  using assms
  by (auto simp: ncfg_daemon_state_reload_def brings_nothing_new_def Let_def split: sum.split prod.split)

lemma reload_all_rejected:
  assumes "ds_rejected st = Some rejected" "list_all (brings_nothing_new world rejected) loads"
  shows "ds_desired (reload_all world loads st) = ds_desired st \<and> ds_rejected (reload_all world loads st) = Some rejected"
  using assms
  by (induction loads arbitrary: st) (simp_all add: reload_all_def reload_rejected)

lemma reload_adopts:
  assumes "ds_rejected st = None \<or> (\<exists>rejected. ds_rejected st = Some rejected \<and> w_hash world document \<noteq> Inr rejected)"
  shows "fst (ncfg_daemon_state_reload world (Inr document) st) = Inr ()"
    "ds_desired (snd (ncfg_daemon_state_reload world (Inr document) st)) = Some document"
    "ds_rejected (snd (ncfg_daemon_state_reload world (Inr document) st)) = None"
  using assms
  by (cases "w_hash world document"; auto simp: ncfg_daemon_state_reload_def Let_def split: option.split)+

text \<open>
  C16.  What a window took back is not adopted again by reading it again.  Once a revert has gone back
  to the last good document, however often the configuration is then reloaded, as long as each time it
  does not compile or is still the configuration the window covered, the daemon keeps the last good
  document; the first reload that compiles to anything else is adopted and ends the rejection.
\<close>

theorem reverted_stays_away:
  assumes "ncfg_confirm_revert world st armed = (Inr event, st', armed')" "am_document armed \<noteq> []"
    and "list_all (brings_nothing_new world (am_document armed)) loads"
    and "w_hash world document \<noteq> Inr (am_document armed)"
  shows "ds_desired (reload_all world loads st') = ds_desired st' \<and>
    ds_desired st' \<noteq> None \<and>
    ds_desired (reload_all world (loads @ [Inr document]) st') = Some document \<and>
    ds_rejected (reload_all world (loads @ [Inr document]) st') = None"
proof -
  from assms(1) obtain window last_good where
    open_window: "ncfg_confirm_read_window (ds_run st) (ds_disk st) = Some window"
      "ncfg_confirm_read_last_good world (ds_run st) (ds_disk st) = Inr last_good"
    by (auto simp: ncfg_confirm_revert_def split: option.splits sum.splits)
  from revert_succeeds [OF open_window, of armed] assms(1,2)
  have st': "ds_rejected st' = Some (am_document armed)" "ds_desired st' = Some last_good"
    by (simp_all add: rejected_hash_def)
  note kept = reload_all_rejected [OF st'(1) assms(3)]
  have "reload_all world (loads @ [Inr document]) st' =
      snd (ncfg_daemon_state_reload world (Inr document) (reload_all world loads st'))"
    by (simp add: reload_all_def)
  with kept st'(2) reload_adopts(2,3) [of "reload_all world loads st'" world document] assms(4)
  show ?thesis by simp
qed


subsection \<open>A daemon to try it on\<close>

definition sample_world :: "(bool, unit, unit, int, unit) world" where
  "sample_world =
     \<lparr>w_read = (\<lambda>_. Inr True), w_canonical = (\<lambda>_. Inr (ascii ''{}'')), w_hash = (\<lambda>d. Inr (if d then ascii ''ab'' else ascii ''cd'')),
      w_build = (\<lambda>_ _. None), w_execute = sample_execute, w_grants = (\<lambda>_. True), w_observe = (\<lambda>_ _ _. Some ()),
      w_record = (\<lambda>_ _ o'. o'), w_desired = (\<lambda>_ o'. o'), w_compiled = (\<lambda>_ o'. o'), w_publish = (\<lambda>_ o'. o')\<rparr>"

definition sample_daemon :: "(bool, unit, int, unit) daemon" where
  "sample_daemon =
     \<lparr>ds_run = ascii ''/run/netcfgd'',
      ds_disk = plain_disk\<lparr>dk_files := (\<lambda>_. None)(ascii ''/run/netcfgd-confirm/last-good.json'' := Some (ascii ''{}''))\<rparr>,
      ds_desired = Some False, ds_observed = Some (), ds_rejected = None, ds_diagnostics = None, ds_machine = 0, ds_others = ()\<rparr>"

lemma sample_hash_plain: "hash_plain sample_world"
proof -
  have "plain_text (if d then ascii ''ab'' else ascii ''cd'') \<and>
      length (if d then ascii ''ab'' else ascii ''cd'') < NCFG_DAEMON_HASH_MAX" for d
  proof -
    have "plain_text (ascii ''ab'')" "plain_text (ascii ''cd'')" by code_simp+
    then show ?thesis by (cases d) (simp_all add: NCFG_DAEMON_HASH_MAX_def)
  qed
  then show ?thesis by (simp add: hash_plain_def sample_world_def del: ascii_simps)
qed

lemma sample_clearable: "window_clearable (ds_run sample_daemon) (ds_disk sample_daemon)"
  by (simp add: window_clearable_def sample_daemon_def plain_disk_def split: option.split)

lemma sample_may_arm: "ncfg_confirm_may_arm sample_world 1000 0 sample_daemon = Inr True"
  by code_simp

lemma sample_path:
  "confirm_path (ds_run sample_daemon) (ascii ''confirm.json'') = Some (ascii ''/run/netcfgd-confirm/confirm.json'')"
  by code_simp

lemma sample_armed: "fst (ncfg_confirm_arm sample_world 1000 0 sample_daemon 60 True) = Inr (CONFIRM_ARMED 60)"
proof (rule arm_succeeds [OF sample_hash_plain _ _ _ sample_path])
  show "w_hash sample_world True = Inr (ascii ''ab'')" by (simp add: sample_world_def del: ascii_simps)
  show "dk_refuses (ds_disk sample_daemon) (ascii ''/run/netcfgd-confirm/confirm.json'') = None"
    by (simp add: sample_daemon_def plain_disk_def)
qed simp_all

theorem one_window_witness:
  "let st = snd (ncfg_confirm_arm sample_world 1000 0 sample_daemon 60 True)
   in ncfg_confirm_read_window (ds_run st) (ds_disk st) \<noteq> None \<and>
      ncfg_confirm_may_arm sample_world 1030 0 st \<noteq> Inr True"
proof -
  let ?arm = "ncfg_confirm_arm sample_world 1000 0 sample_daemon 60 True"
  have "?arm = (Inr (CONFIRM_ARMED 60), snd ?arm)" using sample_armed by (simp add: prod_eq_iff)
  from one_window [OF sample_hash_plain _ _ sample_may_arm this]
  have "(\<exists>window. ncfg_confirm_read_window (ds_run (snd ?arm)) (ds_disk (snd ?arm)) = Some window) \<and>
    (\<exists>why. ncfg_confirm_may_arm sample_world 1030 0 (snd ?arm) = Inl why)" by auto
  then show ?thesis by (auto simp: Let_def)
qed



theorem armed_undo_restores_witness:
  "let plan = sample_plan [NCFG_OP_LINK_UP, NCFG_OP_LINK_UP];
       run = run_plan (\<lambda>_. True) sample_execute False 0 plan;
       armed = projr (ncfg_confirm_armed_from sample_world plan (fst (snd run)) (Some False))
   in snd (snd (snd run)) = 2 \<and>
      snd (snd (ncfg_apply_revert sample_execute (the (am_undo armed)) (snd (snd (snd run))) (am_journal armed))) = 0"
proof -
  let ?plan = "sample_plan [NCFG_OP_LINK_UP, NCFG_OP_LINK_UP]"
  let ?run = "run_plan (\<lambda>_. True) sample_execute False 0 ?plan"
  let ?from = "ncfg_confirm_armed_from sample_world ?plan (fst (snd ?run)) (Some False)"
  have ok: "fst ?run = Inr ()" by code_simp
  then have run: "?run = (Inr (), fst (snd ?run), fst (snd (snd ?run)), snd (snd (snd ?run)))"
    by (simp add: prod_eq_iff)
  have ids: "distinct (map ac_id (pl_actions ?plan))" by code_simp
  have undo: "\<forall>action \<in> set (pl_actions ?plan). undoable sample_execute action"
    using sample_undoable by (simp add: sample_plan_def)
  have short: "length (pl_actions ?plan) < unat NCFG_PLAN_NO_ACTION" by code_simp
  have "\<not> isl ?from" by code_simp
  then have armed: "?from = Inr (projr ?from)" by (simp add: sum.collapse)
  have "snd (snd (snd ?run)) = 2" by code_simp
  with armed_undo_restores [OF run ids undo short armed] show ?thesis by (auto simp: Let_def)
qed


theorem reverted_stays_away_witness:
  "let st = snd (ncfg_confirm_arm sample_world 1000 0 sample_daemon 60 True);
       st' = fst (snd (ncfg_confirm_revert sample_world st (no_armed\<lparr>am_document := ascii ''cd''\<rparr>)))
   in ds_desired (reload_all sample_world [Inr False, Inl ([], []), Inr False] st') = ds_desired st' \<and>
      ds_desired (reload_all sample_world [Inr False, Inl ([], []), Inr False, Inr True] st') = Some True"
proof -
  let ?st = "snd (ncfg_confirm_arm sample_world 1000 0 sample_daemon 60 True)"
  let ?armed = "no_armed\<lparr>am_document := ascii ''cd''\<rparr>"
  let ?revert = "ncfg_confirm_revert sample_world ?st ?armed"
  obtain window where window: "ncfg_confirm_read_window (ds_run ?st) (ds_disk ?st) = Some window"
    using arm_opens [OF sample_hash_plain _ _ sample_armed] by (auto simp: arm_fields)
  have good: "ncfg_confirm_read_last_good sample_world (ds_run ?st) (ds_disk ?st) = Inr True"
    using may_arm_cases [OF sample_may_arm] by (simp add: arm_keeps_last_good arm_fields)
  have revert: "?revert = (Inr (CONFIRM_RESOLVED False), fst (snd ?revert), snd (snd ?revert))"
    using revert_succeeds(1) [OF window good, of ?armed] by (simp add: prod_eq_iff)
  have named: "am_document ?armed \<noteq> []" by simp
  have loads: "list_all (brings_nothing_new sample_world (am_document ?armed)) [Inr False, Inl ([], []), Inr False]"
    by (simp add: brings_nothing_new_def sample_world_def)
  have other: "w_hash sample_world True \<noteq> Inr (am_document ?armed)" by (simp add: sample_world_def)
  from reverted_stays_away [OF revert named loads other] show ?thesis by (simp add: Let_def)
qed


end
