(* ===== verification/Ncfg_Peer.thy ===== *)
theory Ncfg_Peer
  imports Ncfg_Plan
begin

text \<open>
  Who is on the other end of a unix socket, \<^verbatim>\<open>c/src/daemon/peer.c\<close>: ids out of colon-separated
  databases, the supplementary groups out of \<^verbatim>\<open>/proc/<pid>/status\<close>, and membership.

  A machine's files are a function from a path to the contents \<^verbatim>\<open>fopen\<close> finds there, or nothing; what
  \<^verbatim>\<open>SO_PEERCRED\<close> answers is an argument.  \<^verbatim>\<open>uid_t\<close> and \<^verbatim>\<open>gid_t\<close> are 32 bits, \<^verbatim>\<open>unsigned long\<close> is 64.
\<close>

type_synonym files = "bytes \<Rightarrow> bytes option"

definition NCFG_PEER_GROUPS_MAX :: nat where
  "NCFG_PEER_GROUPS_MAX = 64"

record peer =
  pe_pid :: int
  pe_uid :: "32 word"
  pe_gid :: "32 word"
  pe_groups :: "32 word list"
  pe_group_total :: nat
  pe_groups_known :: bool

record authz_roots =
  ar_proc_root :: cstring
  ar_group_file :: cstring
  ar_passwd_file :: cstring

definition ncfg_peer_is_root :: "peer option \<Rightarrow> bool" where
  "ncfg_peer_is_root peer = (case peer of None \<Rightarrow> False | Some peer \<Rightarrow> pe_uid peer = 0)"

definition ncfg_peer_in_group :: "peer option \<Rightarrow> 32 word \<Rightarrow> bool" where
  "ncfg_peer_in_group peer gid =
     (case peer of
        None \<Rightarrow> False
      | Some peer \<Rightarrow> pe_gid peer = gid \<or> list_ex (\<lambda>group. group = gid) (pe_groups peer))"

definition ncfg_authz_roots_default :: authz_roots where
  "ncfg_authz_roots_default =
     \<lparr>ar_proc_root = Some (ascii ''/proc''), ar_group_file = Some (ascii ''/etc/group''),
      ar_passwd_file = Some (ascii ''/etc/passwd'')\<rparr>"

definition or_default :: "cstring \<Rightarrow> bytes \<Rightarrow> bytes" where
  "or_default given fallback =
     (case given of None \<Rightarrow> fallback | Some given \<Rightarrow> if cstr given \<noteq> [] then cstr given else fallback)"

subsection \<open>Reading by lines\<close>

text \<open>\<^verbatim>\<open>fgets\<close>: up to and with the newline, and never more than the buffer holds.\<close>

definition fgets_length :: "nat \<Rightarrow> bytes \<Rightarrow> nat" where
  "fgets_length room bs =
     min (room - 1) (length (takeWhile (\<lambda>c. c \<noteq> NL) bs) + (if NL \<in> set bs then 1 else 0))"

function fgets_lines :: "nat \<Rightarrow> bytes \<Rightarrow> bytes list" where
  "fgets_lines room bs =
     (if bs = [] \<or> room \<le> 1 then []
      else take (fgets_length room bs) bs # fgets_lines room (drop (fgets_length room bs) bs))"
  by pat_completeness auto
termination
proof (relation "measure (\<lambda>(room, bs). length bs)", goal_cases)
  case (2 room bs)
  then have "0 < fgets_length room bs" by (cases bs) (auto simp: fgets_length_def)
  with 2 show ?case by simp
qed simp

declare fgets_lines.simps [simp del]

text \<open>The line as a C string, cut at the end of the line.\<close>

definition cut_line :: "bytes \<Rightarrow> bytes" where
  "cut_line line = takeWhile (\<lambda>c. c \<noteq> 0 \<and> c \<noteq> 13 \<and> c \<noteq> NL) line"

subsection \<open>Ids and fields\<close>

fun id_digits :: "64 word \<Rightarrow> bytes \<Rightarrow> 64 word option" where
  "id_digits value [] = Some value"
| "id_digits value (c # cs) =
     (if c < ch CHR ''0'' \<or> ch CHR ''9'' < c then None
      else id_digits (value * 10 + ucast (c - ch CHR ''0'')) cs)"

definition parse_id :: "bytes \<Rightarrow> 64 word option" where
  "parse_id text = (if text = [] \<or> 10 < length text then None else id_digits 0 text)"

fun field_at :: "bytes \<Rightarrow> nat \<Rightarrow> bytes option" where
  "field_at line 0 = Some (takeWhile (\<lambda>c. c \<noteq> ch CHR '':'') line)"
| "field_at line (Suc wanted) =
     (if ch CHR '':'' \<in> set line then field_at (tl (dropWhile (\<lambda>c. c \<noteq> ch CHR '':'') line)) wanted
      else None)"

fun lookup_lines :: "bytes \<Rightarrow> nat \<Rightarrow> bytes list \<Rightarrow> 64 word option" where
  "lookup_lines name id_field [] = None"
| "lookup_lines name id_field (chunk # rest) =
     (let line = cut_line chunk in
      case field_at line 0 of
        None \<Rightarrow> lookup_lines name id_field rest
      | Some field \<Rightarrow>
          if field \<noteq> name then lookup_lines name id_field rest
          else case field_at line id_field of None \<Rightarrow> None | Some field \<Rightarrow> parse_id field)"

definition lookup_id :: "files \<Rightarrow> bytes \<Rightarrow> cstring \<Rightarrow> nat \<Rightarrow> 64 word option" where
  "lookup_id files path name id_field =
     (case name of
        None \<Rightarrow> None
      | Some name \<Rightarrow>
          if cstr name = [] then None
          else case files path of
            None \<Rightarrow> None
          | Some contents \<Rightarrow> lookup_lines (cstr name) id_field (fgets_lines 4096 contents))"

definition ncfg_peer_group_id :: "files \<Rightarrow> cstring \<Rightarrow> cstring \<Rightarrow> 32 word option" where
  "ncfg_peer_group_id files group_file name =
     map_option ucast (lookup_id files (or_default group_file (ascii ''/etc/group'')) name 2)"

definition ncfg_peer_user_id :: "files \<Rightarrow> cstring \<Rightarrow> cstring \<Rightarrow> 32 word option" where
  "ncfg_peer_user_id files passwd_file name =
     map_option ucast (lookup_id files (or_default passwd_file (ascii ''/etc/passwd'')) name 2)"

subsection \<open>Supplementary groups\<close>

definition after_prefix :: "bytes \<Rightarrow> string \<Rightarrow> bytes option" where
  "after_prefix line prefix =
     (if take (length prefix) line = ascii prefix then Some (drop (length prefix) line) else None)"

definition is_blank :: "byte \<Rightarrow> bool" where
  "is_blank c \<longleftrightarrow> c = ch CHR '' '' \<or> c = 9"

function blank_words :: "bytes \<Rightarrow> bytes list" where
  "blank_words rest =
     (let rest = dropWhile is_blank rest in
      if rest = [] then []
      else takeWhile (\<lambda>c. \<not> is_blank c) rest # blank_words (dropWhile (\<lambda>c. \<not> is_blank c) rest))"
  by pat_completeness auto
termination
proof (relation "measure length", goal_cases)
  case (2 rest x)
  then have x: "x \<noteq> []" "x = dropWhile is_blank rest" by auto
  then have "\<not> is_blank (hd x)" by (metis hd_dropWhile)
  with x(1) have "length (dropWhile (\<lambda>c. \<not> is_blank c) x) < length x"
    by (cases x) (auto simp: le_imp_less_Suc length_dropWhile_le)
  also have "length x \<le> length rest" using x(2) by (simp add: length_dropWhile_le)
  finally show ?case by simp
qed simp

declare blank_words.simps [simp del]

record groups_seen =
  gs_uid_matches :: bool
  gs_saw_groups :: bool
  gs_groups :: "32 word list"
  gs_total :: nat

definition take_group :: "groups_seen \<Rightarrow> bytes \<Rightarrow> groups_seen" where
  "take_group seen word =
     (case parse_id word of
        None \<Rightarrow> seen
      | Some value \<Rightarrow>
          let seen = seen\<lparr>gs_total := gs_total seen + 1\<rparr> in
          if length (gs_groups seen) < NCFG_PEER_GROUPS_MAX
          then seen\<lparr>gs_groups := gs_groups seen @ [ucast value]\<rparr> else seen)"

definition status_line :: "32 word \<Rightarrow> groups_seen \<Rightarrow> bytes \<Rightarrow> groups_seen" where
  "status_line expected seen chunk =
     (let line = cut_line chunk in
      case after_prefix line ''Uid:'' of
        Some rest \<Rightarrow>
          (case parse_id (takeWhile (\<lambda>c. \<not> is_blank c) (dropWhile is_blank rest)) of
             Some value \<Rightarrow> if ucast value = expected then seen\<lparr>gs_uid_matches := True\<rparr> else seen
           | None \<Rightarrow> seen)
      | None \<Rightarrow>
          (case after_prefix line ''Groups:'' of
             None \<Rightarrow> seen
           | Some rest \<Rightarrow> foldl take_group (seen\<lparr>gs_saw_groups := True\<rparr>) (blank_words rest)))"

definition status_path :: "cstring \<Rightarrow> int \<Rightarrow> bytes" where
  "status_path proc_root pid =
     snprintf_text 256 (or_default proc_root (ascii ''/proc'') @ ascii ''/'' @ decimal_int pid @ ascii ''/status'')"

definition ncfg_peer_groups_from :: "files \<Rightarrow> cstring \<Rightarrow> int \<Rightarrow> 32 word \<Rightarrow> peer \<Rightarrow> peer" where
  "ncfg_peer_groups_from files proc_root pid expected out =
     (let out = out\<lparr>pe_groups := [], pe_group_total := 0, pe_groups_known := False\<rparr> in
      case files (status_path proc_root pid) of
        None \<Rightarrow> out
      | Some contents \<Rightarrow>
          let seen = foldl (status_line expected)
                \<lparr>gs_uid_matches = False, gs_saw_groups = False, gs_groups = [], gs_total = 0\<rparr>
                (fgets_lines 8192 contents)
          in if \<not> gs_uid_matches seen \<or> \<not> gs_saw_groups seen then out
             else out\<lparr>pe_groups := gs_groups seen, pe_group_total := gs_total seen, pe_groups_known := True\<rparr>)"

text \<open>What the socket says of its peer: process, user and primary group, or the reason it says nothing.\<close>

definition ncfg_peer_credentials ::
  "files \<Rightarrow> authz_roots option \<Rightarrow> bytes + (int \<times> 32 word \<times> 32 word) \<Rightarrow> bytes + peer" where
  "ncfg_peer_credentials files roots credentials =
     (let roots = (case roots of Some roots \<Rightarrow> roots | None \<Rightarrow> ncfg_authz_roots_default) in
      case credentials of
        Inl why \<Rightarrow> Inl (ascii ''the peer's credentials could not be read: '' @ why)
      | Inr (pid, uid, gid) \<Rightarrow>
          Inr (ncfg_peer_groups_from files (ar_proc_root roots) pid uid
            \<lparr>pe_pid = pid, pe_uid = uid, pe_gid = gid, pe_groups = [], pe_group_total = 0,
             pe_groups_known = False\<rparr>))"

subsection \<open>Ids\<close>

lemma id_digits_exact:
  "id_digits (of_nat n) ds = (if list_all is_digit ds then Some (of_nat (accum n ds)) else None)"
proof (induction ds arbitrary: n)
  case (Cons c cs)
  show ?case
  proof (cases "is_digit c")
    case True
    then have "(of_nat n :: 64 word) * 10 + ucast (c - ch CHR ''0'') = of_nat (10 * n + digit_value c)"
      using arg_cong [OF unat_digit_word [OF True], of "of_nat :: nat \<Rightarrow> 64 word"] by (simp add: mult.commute)
    then have "id_digits (of_nat n) (c # cs) = id_digits (of_nat (10 * n + digit_value c)) cs"
      using True by (auto simp: is_digit_def simp del: of_nat_add of_nat_mult)
    with Cons.IH [of "10 * n + digit_value c"] True show ?thesis by simp
  next
    case False
    then show ?thesis by (auto simp: is_digit_def not_le)
  qed
qed simp

lemma accum_bound: "list_all is_digit ds \<Longrightarrow> accum n ds < (n + 1) * 10 ^ length ds"
proof (induction ds arbitrary: n)
  case (Cons c cs)
  then have "digit_value c \<le> 9" by (simp add: digit_value_le)
  then have "10 * n + digit_value c + 1 \<le> (n + 1) * 10" by simp
  then have "(10 * n + digit_value c + 1) * 10 ^ length cs \<le> (n + 1) * 10 * 10 ^ length cs"
    by (rule mult_le_mono1)
  moreover have "(n + 1) * 10 * 10 ^ length cs = (n + 1) * 10 ^ length (c # cs)" by (simp add: algebra_simps)
  ultimately show ?case using Cons.IH [of "10 * n + digit_value c"] Cons.prems by simp
qed simp

text \<open>The number a field stands for: one to ten digits.\<close>

definition id_number :: "bytes \<Rightarrow> nat option" where
  "id_number ds =
     (if ds \<noteq> [] \<and> length ds \<le> 10 \<and> list_all is_digit ds then Some (decimal_value ds) else None)"

lemma parse_id_number: "parse_id ds = map_option of_nat (id_number ds)"
  using id_digits_exact [of 0 ds] by (auto simp: parse_id_def id_number_def decimal_value_def)

lemma id_number_bound: "id_number ds = Some n \<Longrightarrow> n < 10 ^ 10"
proof -
  assume "id_number ds = Some n"
  then have t: "length ds \<le> 10" "list_all is_digit ds" "n = decimal_value ds"
    by (auto simp: id_number_def split: if_splits)
  have "decimal_value ds < 10 ^ length ds" using accum_bound [OF t(2), of 0] by (simp add: decimal_value_def)
  also have "\<dots> \<le> 10 ^ 10" using t(1) by (intro power_increasing) simp_all
  finally show ?thesis using t(3) by simp
qed

subsection \<open>Databases\<close>

text \<open>An entry of \<^verbatim>\<open>/etc/group\<close> or \<^verbatim>\<open>/etc/passwd\<close>: its fields, and the line they are written as.\<close>

fun entry_line :: "bytes list \<Rightarrow> bytes" where
  "entry_line [] = []"
| "entry_line [f] = f"
| "entry_line (f # g # fs) = f @ [ch CHR '':''] @ entry_line (g # fs)"

definition field_ok :: "bytes \<Rightarrow> bool" where
  "field_ok f = list_all (\<lambda>c. c \<noteq> ch CHR '':'' \<and> c \<noteq> 0 \<and> c \<noteq> 13 \<and> c \<noteq> NL) f"

definition entry_ok :: "bytes list \<Rightarrow> bool" where
  "entry_ok fs \<longleftrightarrow> fs \<noteq> [] \<and> list_all field_ok fs \<and> length (entry_line fs) < 4095"

lemma field_at_entry: "fs \<noteq> [] \<Longrightarrow> list_all field_ok fs \<Longrightarrow>
    field_at (entry_line fs) k = (if k < length fs then Some (fs ! k) else None)"
proof (induction fs arbitrary: k rule: entry_line.induct)
  case (2 f)
  then have "takeWhile (\<lambda>c. c \<noteq> ch CHR '':'') f = f" "ch CHR '':'' \<notin> set f"
    by (auto simp: field_ok_def list_all_iff takeWhile_eq_all_conv)
  then show ?case by (cases k) simp_all
next
  case (3 f g fs)
  then have f: "\<forall>c \<in> set f. c \<noteq> ch CHR '':''" by (auto simp: field_ok_def list_all_iff)
  then have "takeWhile (\<lambda>c. c \<noteq> ch CHR '':'') (f @ [ch CHR '':''] @ entry_line (g # fs)) = f"
    "dropWhile (\<lambda>c. c \<noteq> ch CHR '':'') (f @ [ch CHR '':''] @ entry_line (g # fs)) = ch CHR '':'' # entry_line (g # fs)"
    by (auto simp: takeWhile_append takeWhile_eq_all_conv dropWhile_append)
  with 3 show ?case by (cases k) (simp_all del: entry_line.simps(2))
qed simp

lemma fgets_lines_Cons:
  assumes "NL \<notin> set l" "length l + 1 < room"
  shows "fgets_lines room (l @ NL # bs) = (l @ [NL]) # fgets_lines room bs"
proof -
  from assms(1) have "takeWhile (\<lambda>c. c \<noteq> NL) (l @ NL # bs) = l" by (induction l) auto
  with assms(2) have "fgets_length room (l @ NL # bs) = length l + 1" by (simp add: fgets_length_def)
  with assms(2) show ?thesis by (subst fgets_lines.simps) simp
qed

lemma entry_no_newline: "list_all field_ok fs \<Longrightarrow> c \<in> set (entry_line fs) \<Longrightarrow> c \<noteq> 0 \<and> c \<noteq> 13 \<and> c \<noteq> NL"
  by (induction fs rule: entry_line.induct) (auto simp: field_ok_def list_all_iff)

lemma cut_entry: "list_all field_ok fs \<Longrightarrow> cut_line (entry_line fs @ [NL]) = entry_line fs"
proof -
  assume "list_all field_ok fs"
  then have "\<forall>c \<in> set (entry_line fs). c \<noteq> 0 \<and> c \<noteq> 13 \<and> c \<noteq> NL" using entry_no_newline by blast
  then show ?thesis by (simp add: cut_line_def takeWhile_append takeWhile_eq_all_conv)
qed

text \<open>The answer a database should give: the first entry of that name, if its third field is a number.\<close>

definition entry_id :: "bytes \<Rightarrow> bytes list list \<Rightarrow> nat option" where
  "entry_id name entries =
     (case find (\<lambda>fs. hd fs = name) entries of
        Some fs \<Rightarrow> if 2 < length fs then id_number (fs ! 2) else None
      | None \<Rightarrow> None)"

definition database :: "bytes list list \<Rightarrow> bytes" where
  "database entries = concat (map (\<lambda>fs. entry_line fs @ [NL]) entries)"

lemma lookup_lines_entries:
  "list_all entry_ok entries \<Longrightarrow>
   lookup_lines name 2 (fgets_lines 4096 (database entries)) = map_option of_nat (entry_id name entries)"
proof (induction entries)
  case Nil
  then show ?case by (simp add: database_def fgets_lines.simps entry_id_def)
next
  case (Cons fs entries)
  then have ok: "fs \<noteq> []" "list_all field_ok fs" "length (entry_line fs) < 4095" by (auto simp: entry_ok_def)
  have "NL \<notin> set (entry_line fs)" using entry_no_newline [OF ok(2)] by blast
  with ok(3) have "fgets_lines 4096 (database (fs # entries)) = (entry_line fs @ [NL]) # fgets_lines 4096 (database entries)"
    using fgets_lines_Cons [of "entry_line fs" 4096 "database entries"] by (simp add: database_def)
  with Cons ok field_at_entry [OF ok(1,2)] show ?case
    by (simp add: cut_entry entry_id_def parse_id_number hd_conv_nth numeral_2_eq_2 del: field_at.simps split: option.split)
qed

text \<open>
  C36.  Names resolve by the database and by nothing else.  Over a group file of well-formed lines
  that each fit the reader's buffer, \<^verbatim>\<open>ncfg_peer_group_id\<close> answers from the first entry with that name:
  its third field when that is one to ten digits, nothing when it is not -- later entries of the same
  name are not tried -- and nothing when there is no such entry.  The number is kept modulo
  \<^verbatim>\<open>2^32\<close>, so it is the number written there whenever that fits a \<^verbatim>\<open>gid_t\<close>.
\<close>

theorem group_id_resolves:
  assumes "files (or_default group_file (ascii ''/etc/group'')) = Some (database entries)"
    and "list_all entry_ok entries" and "cstr name \<noteq> []"
  shows "ncfg_peer_group_id files group_file (Some name) = map_option of_nat (entry_id (cstr name) entries)"
proof -
  have "map_option ucast (map_option of_nat x :: 64 word option) = (map_option of_nat x :: 32 word option)"
    if "x = entry_id (cstr name) entries" for x
  proof (cases x)
    case (Some n)
    with that have "n < 10 ^ 10"
      using id_number_bound by (fastforce simp: entry_id_def split: option.splits if_splits)
    with Some show ?thesis by (simp add: unsigned_of_nat take_bit_eq_mod unsigned_ucast_eq word_unat_eq_iff)
  qed simp
  with lookup_lines_entries [OF assms(2)] assms(1,3) show ?thesis
    by (simp add: ncfg_peer_group_id_def lookup_id_def)
qed

theorem group_id_resolves_witness:
  "ncfg_peer_group_id (\<lambda>path. if path = ascii ''/g'' then Some (database
      [[ascii ''root'', ascii ''x'', ascii ''0''], [ascii ''wide'', ascii ''x'', ascii ''4294967296'', []]]) else None)
    (Some (ascii ''/g'')) (Some (ascii ''wide'')) = Some 0"
proof -
  let ?files = "\<lambda>path. if path = ascii ''/g'' then Some (database
      [[ascii ''root'', ascii ''x'', ascii ''0''], [ascii ''wide'', ascii ''x'', ascii ''4294967296'', []]]) else None"
  have path: "or_default (Some (ascii ''/g'')) (ascii ''/etc/group'') = ascii ''/g''" by code_simp
  have ok: "list_all entry_ok [[ascii ''root'', ascii ''x'', ascii ''0''], [ascii ''wide'', ascii ''x'', ascii ''4294967296'', []]]"
    by code_simp
  have e: "entry_id (cstr (ascii ''wide''))
      [[ascii ''root'', ascii ''x'', ascii ''0''], [ascii ''wide'', ascii ''x'', ascii ''4294967296'', []]] = Some 4294967296"
    by (simp add: entry_id_def cstr_def id_number_def is_digit_def decimal_value_def digit_value_def)
  have "cstr (ascii ''wide'') \<noteq> []" by (simp add: cstr_def)
  from group_id_resolves [of ?files "Some (ascii ''/g'')", OF _ ok this] path e show ?thesis
    by (simp del: ascii_simps)
qed

subsection \<open>Groups\<close>

text \<open>What a status file says: whose process it is, and the groups on its lines.\<close>

definition says_uid :: "bytes \<Rightarrow> 32 word \<Rightarrow> bool" where
  "says_uid chunk uid \<longleftrightarrow> (\<exists>rest value. after_prefix (cut_line chunk) ''Uid:'' = Some rest \<and>
     parse_id (takeWhile (\<lambda>c. \<not> is_blank c) (dropWhile is_blank rest)) = Some value \<and> ucast value = uid)"

definition says_group :: "bytes \<Rightarrow> 32 word \<Rightarrow> bool" where
  "says_group chunk gid \<longleftrightarrow> (\<exists>rest word value. after_prefix (cut_line chunk) ''Groups:'' = Some rest \<and>
     word \<in> set (blank_words rest) \<and> parse_id word = Some value \<and> ucast value = gid)"

definition seen_ok :: "32 word \<Rightarrow> bytes set \<Rightarrow> groups_seen \<Rightarrow> bool" where
  "seen_ok uid chunks seen \<longleftrightarrow>
     (gs_uid_matches seen \<longrightarrow> (\<exists>chunk \<in> chunks. says_uid chunk uid)) \<and>
     (\<forall>gid \<in> set (gs_groups seen). \<exists>chunk \<in> chunks. says_group chunk gid) \<and>
     length (gs_groups seen) \<le> NCFG_PEER_GROUPS_MAX \<and> length (gs_groups seen) \<le> gs_total seen"

lemma seen_ok_mono: "seen_ok uid cs seen \<Longrightarrow> cs \<subseteq> ds \<Longrightarrow> seen_ok uid ds seen"
  by (fastforce simp: seen_ok_def)

lemma take_groups_ok:
  assumes "seen_ok uid cs seen"
    "\<And>word value. word \<in> set words \<Longrightarrow> parse_id word = Some value \<Longrightarrow> \<exists>chunk \<in> cs. says_group chunk (ucast value)"
  shows "seen_ok uid cs (foldl take_group seen words)"
  using assms
proof (induction words arbitrary: seen)
  case (Cons word words)
  have "seen_ok uid cs (take_group seen word)"
    using Cons.prems(1) Cons.prems(2) [of word]
    by (auto simp: take_group_def seen_ok_def Let_def split: option.split)
  from Cons.IH [OF this] Cons.prems(2) show ?case by (metis foldl_Cons list.set_intros(2))
qed simp

lemma status_line_ok: "seen_ok uid cs seen \<Longrightarrow> seen_ok uid (insert chunk cs) (status_line uid seen chunk)"
proof -
  assume "seen_ok uid cs seen"
  then have s: "seen_ok uid (insert chunk cs) seen" by (rule seen_ok_mono) blast
  show ?thesis
  proof (cases "after_prefix (cut_line chunk) ''Uid:''")
    case (Some rest)
    with s show ?thesis
      by (auto simp: status_line_def Let_def seen_ok_def says_uid_def split: option.split)
  next
    case None
    show ?thesis
    proof (cases "after_prefix (cut_line chunk) ''Groups:''")
      case (Some rest)
      have "seen_ok uid (insert chunk cs) (foldl take_group (seen\<lparr>gs_saw_groups := True\<rparr>) (blank_words rest))"
      proof (rule take_groups_ok)
        show "seen_ok uid (insert chunk cs) (seen\<lparr>gs_saw_groups := True\<rparr>)" using s by (simp add: seen_ok_def)
      qed (use Some in \<open>auto simp: says_group_def\<close>)
      with None Some show ?thesis by (simp add: status_line_def Let_def)
    qed (use None s in \<open>simp add: status_line_def Let_def\<close>)
  qed
qed

lemma status_lines_ok: "seen_ok uid cs seen \<Longrightarrow> seen_ok uid (cs \<union> set chunks) (foldl (status_line uid) seen chunks)"
proof (induction chunks arbitrary: cs seen)
  case (Cons chunk chunks)
  from Cons.IH [OF status_line_ok [OF Cons.prems, of chunk]] show ?case by simp
qed simp

text \<open>
  No group is invented.  After the supplementary groups of a peer were read, each group it is
  said to be in stands on a \<^verbatim>\<open>Groups:\<close> line of the status file of its process, in a file that also says
  that the process belongs to the user who connected; at most \<^verbatim>\<open>NCFG_PEER_GROUPS_MAX\<close> are kept, the
  count of those there were is never less, and a set that is not known is empty.
\<close>

theorem peer_groups_sound:
  assumes "ncfg_peer_groups_from files proc_root pid uid out = peer"
  shows "length (pe_groups peer) \<le> NCFG_PEER_GROUPS_MAX \<and> length (pe_groups peer) \<le> pe_group_total peer \<and>
    (pe_groups_known peer \<or> pe_groups peer = [] \<and> pe_group_total peer = 0) \<and>
    (\<forall>gid \<in> set (pe_groups peer). \<exists>contents. files (status_path proc_root pid) = Some contents \<and>
       (\<exists>chunk \<in> set (fgets_lines 8192 contents). says_uid chunk uid) \<and>
       (\<exists>chunk \<in> set (fgets_lines 8192 contents). says_group chunk gid))"
proof -
  let ?start = "\<lparr>gs_uid_matches = False, gs_saw_groups = False, gs_groups = [], gs_total = 0\<rparr>"
  have "seen_ok uid {} ?start" by (simp add: seen_ok_def)
  from status_lines_ok [OF this] have ok: "seen_ok uid (set chunks) (foldl (status_line uid) ?start chunks)" for chunks
    by simp
  show ?thesis
  proof (cases "files (status_path proc_root pid)")
    case None
    with assms show ?thesis by (auto simp: ncfg_peer_groups_from_def Let_def)
  next
    case (Some contents)
    define seen where "seen = foldl (status_line uid) ?start (fgets_lines 8192 contents)"
    note ok' = ok [of "fgets_lines 8192 contents", folded seen_def]
    show ?thesis
    proof (cases "gs_uid_matches seen \<and> gs_saw_groups seen")
      case True
      with ok' assms Some show ?thesis
        by (auto simp: ncfg_peer_groups_from_def Let_def seen_ok_def seen_def [symmetric])
    next
      case False
      with assms Some show ?thesis by (auto simp: ncfg_peer_groups_from_def Let_def seen_def [symmetric])
    qed
  qed
qed

definition sample_peer :: peer where
  "sample_peer = \<lparr>pe_pid = 7, pe_uid = 1000, pe_gid = 1000, pe_groups = [], pe_group_total = 0, pe_groups_known = False\<rparr>"

definition sample_status :: bytes where
  "sample_status = ascii ''Uid:'' @ [9] @ ascii ''1000'' @ [9] @ ascii ''1000'' @ [NL] @
     ascii ''Groups:'' @ [9] @ ascii ''27 109 '' @ [NL]"

theorem peer_groups_sound_witness:
  "pe_groups (ncfg_peer_groups_from (\<lambda>path. Some sample_status) None 7 1000 sample_peer) = [27, 109] \<and>
   (\<exists>chunk \<in> set (fgets_lines 8192 sample_status). says_group chunk 109)"
proof -
  have g: "pe_groups (ncfg_peer_groups_from (\<lambda>path. Some sample_status) None 7 1000 sample_peer) = [27, 109]"
    by code_simp
  from peer_groups_sound [of "\<lambda>path. Some sample_status" None 7 1000 sample_peer] g show ?thesis by auto
qed

end
