(* ===== verification/Ncfg_Frame.thy ===== *)
theory Ncfg_Frame
  imports Ncfg_Buf
begin

text \<open>
  Line framing, \<^verbatim>\<open>c/src/proto/frame.c\<close>: bytes as a socket delivered them go in, whole lines come out,
  and a peer that sends no newline is refused instead of absorbed.  The reading loop of a connection
  of the daemon (\<^verbatim>\<open>connection\<close> in \<^verbatim>\<open>c/src/daemon/server.c\<close>) is modelled on top of it, with the answer
  to one line (\<^verbatim>\<open>ncfg_proto_request_read\<close> and \<^verbatim>\<open>serve_one\<close>) as a parameter and what \<^verbatim>\<open>recv\<close> returns as
  a list of events.

  The abstract specification is \<open>stream_spec\<close>, which looks only at the whole stream; the loop is
  shown to implement it however the stream is cut into reads.  Allocation is granted.
\<close>

definition NCFG_PROTO_MAX_LINE :: nat where
  "NCFG_PROTO_MAX_LINE = 1024 * 1024"

definition PENDING_LIMIT :: nat where
  "PENDING_LIMIT = NCFG_PROTO_MAX_LINE * 2"

record framer =
  fr_pending :: buf
  fr_handed :: nat
  fr_broken :: bool

text \<open>The refusals; the numbers are the ones the sentences print.\<close>

datatype frame_error =
    Already_Broken
  | Too_Much_Waiting
  | No_Newline
  | Line_Too_Long nat
  | Cut_In_Half nat

text \<open>The sentences: \<^verbatim>\<open>%u\<close> prints an \<^verbatim>\<open>unsigned\<close>.\<close>

definition as_unsigned :: "nat \<Rightarrow> bytes" where
  "as_unsigned n = decimal (n mod 2 ^ 32)"

fun frame_error_text :: "frame_error \<Rightarrow> bytes" where
  "frame_error_text Already_Broken =
     ascii ''this connection stopped being the protocol and cannot be read on''"
| "frame_error_text Too_Much_Waiting =
     ascii ''more than '' @ as_unsigned PENDING_LIMIT @ ascii '' bytes are waiting to be framed''"
| "frame_error_text No_Newline =
     ascii ''a message exceeded '' @ as_unsigned NCFG_PROTO_MAX_LINE @ ascii '' bytes without a newline''"
| "frame_error_text (Line_Too_Long n) =
     ascii ''a message of '' @ as_unsigned n @ ascii '' bytes is past the '' @
     as_unsigned NCFG_PROTO_MAX_LINE @ ascii '' byte line''"
| "frame_error_text (Cut_In_Half n) =
     ascii ''the connection ended in the middle of a message, '' @ as_unsigned n @ ascii '' bytes in''"

definition ncfg_proto_framer_init :: framer where
  "ncfg_proto_framer_init =
     \<lparr>fr_pending = ncfg_buf_init PENDING_LIMIT, fr_handed = 0, fr_broken = False\<rparr>"

definition ncfg_proto_framer_free :: "framer \<Rightarrow> framer" where
  "ncfg_proto_framer_free framer =
     framer\<lparr>fr_pending := ncfg_buf_free (fr_pending framer), fr_handed := 0, fr_broken := False\<rparr>"

text \<open>The \<^verbatim>\<open>memmove\<close> of the tail over the line handed out last.\<close>

definition drop_front :: "nat \<Rightarrow> buf \<Rightarrow> buf" where
  "drop_front n b = b\<lparr>bdata := map_option (\<lambda>d. drop n (take (blength b) d)) (bdata b), blength := blength b - n\<rparr>"

definition drop_handed :: "framer \<Rightarrow> framer" where
  "drop_handed framer =
     (if fr_handed framer = 0 then framer
      else framer\<lparr>fr_pending := drop_front (fr_handed framer) (fr_pending framer), fr_handed := 0\<rparr>)"

definition pending_bytes :: "framer \<Rightarrow> bytes" where
  "pending_bytes framer = take (blength (fr_pending framer)) (buf_contents (fr_pending framer))"

text \<open>\<^verbatim>\<open>memchr\<close> for a newline: its distance from the start.\<close>

fun find_newline :: "bytes \<Rightarrow> nat option" where
  "find_newline [] = None"
| "find_newline (c # cs) = (if c = NL then Some 0 else map_option Suc (find_newline cs))"

definition ncfg_proto_framer_add :: "framer \<Rightarrow> bytes \<Rightarrow> frame_error option \<times> framer" where
  "ncfg_proto_framer_add framer bs =
     (if fr_broken framer then (Some Already_Broken, framer)
      else
        let framer = drop_handed framer;
            framer = framer\<lparr>fr_pending := ncfg_buf_add granted (fr_pending framer) bs\<rparr>
        in if ncfg_buf_failed (fr_pending framer) then (Some Too_Much_Waiting, framer\<lparr>fr_broken := True\<rparr>)
           else
             let held = pending_bytes framer in
             if NCFG_PROTO_MAX_LINE \<le> length held \<and> find_newline held = None
             then (Some No_Newline, framer\<lparr>fr_broken := True\<rparr>)
             else (None, framer))"

datatype line_result = Line bytes | Line_Incomplete | Line_Failed frame_error

definition ncfg_proto_framer_next :: "framer \<Rightarrow> line_result \<times> framer" where
  "ncfg_proto_framer_next framer =
     (if fr_broken framer then (Line_Failed Already_Broken, framer)
      else
        let framer = drop_handed framer; held = pending_bytes framer in
        case find_newline held of
          None \<Rightarrow> (Line_Incomplete, framer)
        | Some line_length \<Rightarrow>
            if NCFG_PROTO_MAX_LINE < line_length + 1
            then (Line_Failed (Line_Too_Long (line_length + 1)), framer\<lparr>fr_broken := True\<rparr>)
            else (Line (take line_length held), framer\<lparr>fr_handed := line_length + 1\<rparr>))"

definition ncfg_proto_framer_finish :: "framer \<Rightarrow> frame_error option \<times> framer" where
  "ncfg_proto_framer_finish framer =
     (if fr_broken framer then (Some Already_Broken, framer)
      else
        let framer = drop_handed framer in
        if blength (fr_pending framer) \<noteq> 0
        then (Some (Cut_In_Half (blength (fr_pending framer))), framer\<lparr>fr_broken := True\<rparr>)
        else (None, framer))"

text \<open>Terminating a line that was built: the refusal, or nothing, and the buffer after it.\<close>

datatype line_error = Message_Did_Not_Fit | Embedded_Newline nat | Message_Too_Long nat

definition ncfg_proto_line_finish :: "buf \<Rightarrow> line_error option \<times> buf" where
  "ncfg_proto_line_finish line =
     (if ncfg_buf_failed line then (Some Message_Did_Not_Fit, line)
      else case find_newline (take (blength line) (buf_contents line)) of
        Some at \<Rightarrow> (Some (Embedded_Newline at), line)
      | None \<Rightarrow>
          if NCFG_PROTO_MAX_LINE < blength line + 1 then (Some (Message_Too_Long (blength line + 1)), line)
          else
            let line = ncfg_buf_add_char granted line NL in
            if ncfg_buf_failed line then (Some Message_Did_Not_Fit, line) else (None, line))"

subsection \<open>Taking lines\<close>

lemma find_newline_split: "find_newline bs = (if NL \<in> set bs then Some (length (takeWhile (\<lambda>c. c \<noteq> NL) bs)) else None)"
  by (induction bs) auto

lemma find_newline_None [simp]: "find_newline bs = None \<longleftrightarrow> NL \<notin> set bs"
  by (simp add: find_newline_split)

lemma find_newline_length: "find_newline bs = Some n \<Longrightarrow> n < length bs"
  by (induction bs arbitrary: n) (auto split: if_splits)

lemma pending_length: "length (pending_bytes f) \<le> blength (fr_pending f)"
  by (simp add: pending_bytes_def)

lemma drop_handed_length: "blength (fr_pending (drop_handed f)) = blength (fr_pending f) - fr_handed f"
  by (simp add: drop_handed_def drop_front_def)

lemma framer_next_shrinks:
  assumes "ncfg_proto_framer_next f = (Line text, f')"
  shows "blength (fr_pending f') - fr_handed f' < blength (fr_pending f) - fr_handed f"
proof -
  from assms obtain n where n: "find_newline (pending_bytes (drop_handed f)) = Some n"
    "f' = (drop_handed f)\<lparr>fr_handed := n + 1\<rparr>"
    by (auto simp: ncfg_proto_framer_next_def Let_def split: if_splits option.splits)
  from find_newline_length [OF n(1)] pending_length [of "drop_handed f"] n(2) drop_handed_length [of f]
  show ?thesis by simp
qed

text \<open>
  The inner loop of a connection: take lines and answer each, until no whole line is left, the
  answer ends the connection, or the framer refuses.
\<close>

datatype 's served = More 's framer | Hung_Up 's | Refused_By_Framer frame_error 's

function serve_lines :: "('s \<Rightarrow> bytes \<Rightarrow> bool \<times> 's) \<Rightarrow> 's \<Rightarrow> framer \<Rightarrow> 's served" where
  "serve_lines serve s framer =
     (case ncfg_proto_framer_next framer of
        (Line_Incomplete, framer) \<Rightarrow> More s framer
      | (Line_Failed e, framer) \<Rightarrow> Refused_By_Framer e s
      | (Line text, framer) \<Rightarrow>
          (case serve s text of
             (True, s) \<Rightarrow> serve_lines serve s framer
           | (False, s) \<Rightarrow> Hung_Up s))"
  by pat_completeness auto
termination
  by (relation "measure (\<lambda>(serve, s, f). blength (fr_pending f) - fr_handed f)")
    (auto dest: framer_next_shrinks [OF sym] framer_next_shrinks)

declare serve_lines.simps [simp del]

text \<open>What \<^verbatim>\<open>recv\<close> returned, and how a connection ended.\<close>

datatype received = Chunk bytes | Closed | Interrupted | Read_Failed

datatype conn_end = Disconnected | Ended_By_Answer | Framing_Refused frame_error | Socket_Failed | Still_Open

fun connection_loop :: "('s \<Rightarrow> bytes \<Rightarrow> bool \<times> 's) \<Rightarrow> 's \<Rightarrow> framer \<Rightarrow> received list \<Rightarrow> 's \<times> conn_end" where
  "connection_loop serve s framer events =
     (case serve_lines serve s framer of
        Refused_By_Framer e s \<Rightarrow> (s, Framing_Refused e)
      | Hung_Up s \<Rightarrow> (s, Ended_By_Answer)
      | More s framer \<Rightarrow>
          (case events of
             [] \<Rightarrow> (s, Still_Open)
           | Closed # _ \<Rightarrow>
               (case ncfg_proto_framer_finish framer of
                  (Some e, _) \<Rightarrow> (s, Framing_Refused e)
                | (None, _) \<Rightarrow> (s, Disconnected))
           | Interrupted # events \<Rightarrow> connection_loop serve s framer events
           | Read_Failed # _ \<Rightarrow> (s, Socket_Failed)
           | Chunk bs # events \<Rightarrow>
               (case ncfg_proto_framer_add framer bs of
                  (Some e, _) \<Rightarrow> (s, Framing_Refused e)
                | (None, framer) \<Rightarrow> connection_loop serve s framer events)))"

declare connection_loop.simps [simp del]

definition connection :: "('s \<Rightarrow> bytes \<Rightarrow> bool \<times> 's) \<Rightarrow> 's \<Rightarrow> received list \<Rightarrow> 's \<times> conn_end" where
  "connection serve s events = connection_loop serve s ncfg_proto_framer_init events"

subsection \<open>What the framer holds\<close>

text \<open>A framer that has not refused anything, holding the bytes \<open>p\<close> it has not handed out yet.\<close>

definition framer_ok :: "framer \<Rightarrow> bytes \<Rightarrow> bool" where
  "framer_ok f p \<longleftrightarrow> \<not> fr_broken f \<and> buf_inv (fr_pending f) \<and> \<not> bfailed (fr_pending f) \<and>
     blimit (fr_pending f) = PENDING_LIMIT \<and> fr_handed f \<le> blength (fr_pending f) \<and>
     drop (fr_handed f) (buf_contents (fr_pending f)) = p"

lemma framer_ok_init: "framer_ok ncfg_proto_framer_init []"
  by (simp add: framer_ok_def ncfg_proto_framer_init_def buf_inv_init init_fields PENDING_LIMIT_def NCFG_PROTO_MAX_LINE_def)

lemma drop_front_fields:
  assumes "buf_inv b" "n \<le> blength b"
  shows "buf_inv (drop_front n b)" "buf_contents (drop_front n b) = drop n (buf_contents b)"
    "bfailed (drop_front n b) = bfailed b" "blimit (drop_front n b) = blimit b"
  using assms by (auto simp: drop_front_def buf_inv_def buf_contents_def split: option.splits)

lemma pending_bytes_inv: "buf_inv (fr_pending f) \<Longrightarrow> pending_bytes f = buf_contents (fr_pending f)"
  by (simp add: pending_bytes_def buf_inv_def)

lemma drop_handed_ok:
  assumes "framer_ok f p"
  shows "framer_ok (drop_handed f) p" "fr_handed (drop_handed f) = 0" "pending_bytes (drop_handed f) = p"
    "buf_contents (fr_pending (drop_handed f)) = p" "blength (fr_pending (drop_handed f)) = length p"
proof -
  show ok: "framer_ok (drop_handed f) p" and handed: "fr_handed (drop_handed f) = 0"
    using assms by (auto simp: framer_ok_def drop_handed_def drop_front_fields)
  then show "buf_contents (fr_pending (drop_handed f)) = p" by (simp add: framer_ok_def)
  with ok show "blength (fr_pending (drop_handed f)) = length p" "pending_bytes (drop_handed f) = p"
    by (auto simp: framer_ok_def buf_inv_def pending_bytes_def)
qed

lemma framer_next_none:
  assumes "framer_ok f p" "NL \<notin> set p"
  shows "\<exists>f'. ncfg_proto_framer_next f = (Line_Incomplete, f') \<and> framer_ok f' p"
proof -
  have "find_newline p = None" using assms(2) by simp
  with assms drop_handed_ok [OF assms(1)] show ?thesis
    by (simp add: ncfg_proto_framer_next_def Let_def framer_ok_def del: find_newline_None)
qed

lemma find_newline_line: "NL \<notin> set l \<Longrightarrow> find_newline (l @ NL # r) = Some (length l)"
  by (induction l) auto

lemma framer_next_line:
  assumes "framer_ok f (l @ NL # r)" "NL \<notin> set l" "length l < NCFG_PROTO_MAX_LINE"
  shows "\<exists>f'. ncfg_proto_framer_next f = (Line l, f') \<and> framer_ok f' r"
proof -
  note d = drop_handed_ok [OF assms(1)]
  let ?f = "(drop_handed f)\<lparr>fr_handed := length l + 1\<rparr>"
  have "ncfg_proto_framer_next f = (Line l, ?f)"
    using assms d(3) by (simp add: ncfg_proto_framer_next_def Let_def find_newline_line framer_ok_def)
  moreover have "framer_ok ?f r" using d(1,4,5) by (simp add: framer_ok_def)
  ultimately show ?thesis by blast
qed

lemma framer_next_long:
  assumes "framer_ok f (l @ NL # r)" "NL \<notin> set l" "NCFG_PROTO_MAX_LINE \<le> length l"
  shows "\<exists>f'. ncfg_proto_framer_next f = (Line_Failed (Line_Too_Long (length l + 1)), f')"
  using assms drop_handed_ok(3) [OF assms(1)]
  by (simp add: ncfg_proto_framer_next_def Let_def find_newline_line framer_ok_def)

text \<open>Bytes that fit are held behind the others, before the check for a newline.\<close>

lemma framer_added:
  assumes "framer_ok f p" "length p + length bs \<le> PENDING_LIMIT"
  defines "f' \<equiv> (drop_handed f)\<lparr>fr_pending := ncfg_buf_add granted (fr_pending (drop_handed f)) bs\<rparr>"
  shows "framer_ok f' (p @ bs)" "pending_bytes f' = p @ bs"
proof -
  note d = drop_handed_ok [OF assms(1)]
  let ?b = "fr_pending (drop_handed f)"
  have "length bs \<le> buf_room ?b" using assms(2) d(1,5) by (simp add: framer_ok_def buf_room_def)
  with d have add: "\<not> bfailed (ncfg_buf_add granted ?b bs)" "buf_contents (ncfg_buf_add granted ?b bs) = p @ bs"
    using add_ok [of ?b bs] by (auto simp: framer_ok_def)
  with d(1,2) show ok: "framer_ok f' (p @ bs)" by (simp add: f'_def framer_ok_def buf_inv_add blimit_add)
  then have "buf_inv (fr_pending f')" by (simp add: framer_ok_def)
  with add(2) show "pending_bytes f' = p @ bs" by (simp add: pending_bytes_inv f'_def)
qed

lemma framer_add_ok:
  assumes "framer_ok f p" "length p + length bs \<le> PENDING_LIMIT"
    "length (p @ bs) < NCFG_PROTO_MAX_LINE \<or> NL \<in> set (p @ bs)"
  shows "\<exists>f'. ncfg_proto_framer_add f bs = (None, f') \<and> framer_ok f' (p @ bs)"
  using assms framer_added [OF assms(1,2)]
  by (auto simp: ncfg_proto_framer_add_def Let_def framer_ok_def ncfg_buf_failed_def)

lemma framer_add_flood:
  assumes "framer_ok f p" "length p + length bs \<le> PENDING_LIMIT"
    "NCFG_PROTO_MAX_LINE \<le> length (p @ bs)" "NL \<notin> set (p @ bs)"
  shows "\<exists>f'. ncfg_proto_framer_add f bs = (Some No_Newline, f')"
  using assms framer_added [OF assms(1,2)]
  by (auto simp: ncfg_proto_framer_add_def Let_def framer_ok_def ncfg_buf_failed_def)

lemma framer_finish_ok:
  assumes "framer_ok f p"
  shows "fst (ncfg_proto_framer_finish f) = (if p = [] then None else Some (Cut_In_Half (length p)))"
  using assms drop_handed_ok [OF assms] by (simp add: ncfg_proto_framer_finish_def Let_def framer_ok_def)

subsection \<open>The stream\<close>

text \<open>
  What a connection should do with a stream that is closed in the end: answer its lines in order,
  and end by the first line of a megabyte or more, by an answer that hangs up, in the middle of a
  line, or well.
\<close>

datatype stream_end = Stream_Closed | Stream_Hung_Up | Stream_Too_Long | Stream_Cut nat

function stream_spec :: "('s \<Rightarrow> bytes \<Rightarrow> bool \<times> 's) \<Rightarrow> 's \<Rightarrow> bytes \<Rightarrow> 's \<times> stream_end" where
  "stream_spec serve s stream =
     (let line = takeWhile (\<lambda>c. c \<noteq> NL) stream in
      if NCFG_PROTO_MAX_LINE \<le> length line then (s, Stream_Too_Long)
      else if stream = [] then (s, Stream_Closed)
      else if line = stream then (s, Stream_Cut (length stream))
      else
        case serve s line of
          (True, s) \<Rightarrow> stream_spec serve s (drop (length line + 1) stream)
        | (False, s) \<Rightarrow> (s, Stream_Hung_Up))"
  by pat_completeness auto
termination
  by (relation "measure (\<lambda>(serve, s, stream). length stream)") auto

declare stream_spec.simps [simp del]

lemma takeWhile_line: "NL \<notin> set l \<Longrightarrow> takeWhile (\<lambda>c. c \<noteq> NL) (l @ NL # r) = l"
  by (induction l) auto

lemma stream_spec_line:
  "NL \<notin> set l \<Longrightarrow> length l < NCFG_PROTO_MAX_LINE \<Longrightarrow>
   stream_spec serve s (l @ NL # r) =
     (case serve s l of (True, s) \<Rightarrow> stream_spec serve s r | (False, s) \<Rightarrow> (s, Stream_Hung_Up))"
  by (subst stream_spec.simps) (simp add: Let_def takeWhile_line split: prod.split bool.split)

lemma stream_spec_long: "NL \<notin> set l \<Longrightarrow> NCFG_PROTO_MAX_LINE \<le> length l \<Longrightarrow> stream_spec serve s (l @ r) = (s, Stream_Too_Long)"
proof -
  assume l: "NL \<notin> set l" "NCFG_PROTO_MAX_LINE \<le> length l"
  have "length l \<le> length (takeWhile (\<lambda>c. c \<noteq> NL) (l @ r))" using l(1) by (induction l) auto
  with l(2) show ?thesis by (subst stream_spec.simps) (simp add: Let_def)
qed

lemma stream_spec_tail: "NL \<notin> set q \<Longrightarrow> length q < NCFG_PROTO_MAX_LINE \<Longrightarrow>
    stream_spec serve s q = (s, if q = [] then Stream_Closed else Stream_Cut (length q))"
proof -
  assume q: "NL \<notin> set q" "length q < NCFG_PROTO_MAX_LINE"
  have tw: "takeWhile (\<lambda>c. c \<noteq> NL) q = q" using q(1) by (auto simp: takeWhile_eq_all_conv)
  show ?thesis using q(2) by (subst stream_spec.simps) (auto simp add: Let_def tw simp del: takeWhile_eq_all_conv)
qed

subsection \<open>The loop implements the stream\<close>

lemma line_cases:
  obtains (whole) l r where "p = l @ NL # r" "NL \<notin> set l" | (part) "NL \<notin> set p"
  by (metis split_list_first)

lemma serve_lines_spec:
  assumes "framer_ok f p"
  shows "case serve_lines serve s f of
      More s' f' \<Rightarrow> (\<exists>pre q. p = pre @ q \<and> framer_ok f' q \<and> NL \<notin> set q \<and>
        (\<forall>rest. stream_spec serve s (p @ rest) = stream_spec serve s' (q @ rest)))
    | Hung_Up s' \<Rightarrow> (\<forall>rest. stream_spec serve s (p @ rest) = (s', Stream_Hung_Up))
    | Refused_By_Framer e s' \<Rightarrow> (\<exists>n. e = Line_Too_Long n) \<and>
        (\<forall>rest. stream_spec serve s (p @ rest) = (s', Stream_Too_Long))"
  using assms
proof (induction serve s f arbitrary: p rule: serve_lines.induct)
  case (1 serve s f)
  show ?case
  proof (cases p rule: line_cases)
    case part
    from framer_next_none [OF 1(2) part] obtain f' where
      "ncfg_proto_framer_next f = (Line_Incomplete, f')" "framer_ok f' p" by blast
    with part show ?thesis
      by (simp add: serve_lines.simps [of serve s f]) (intro exI [of _ "[]"] exI [of _ p], simp)
  next
    case (whole l r)
    show ?thesis
    proof (cases "length l < NCFG_PROTO_MAX_LINE")
      case False
      with framer_next_long [of f l r] 1(2) whole stream_spec_long [of l serve s] show ?thesis
        by (auto simp: serve_lines.simps [of serve s f])
    next
      case True
      with framer_next_line [of f l r] 1(2) whole obtain f' where
        f': "ncfg_proto_framer_next f = (Line l, f')" "framer_ok f' r" by blast
      note spec = stream_spec_line [OF whole(2) True]
      show ?thesis
      proof (cases "serve s l")
        case (Pair go s')
        show ?thesis
        proof (cases go)
          case False
          with Pair f'(1) show ?thesis by (simp add: serve_lines.simps [of serve s f] whole(1) spec)
        next
          case go: True
          have eq: "serve_lines serve s f = serve_lines serve s' f'"
            using Pair f'(1) go by (simp add: serve_lines.simps [of serve s f])
          have st: "stream_spec serve s (p @ rest) = stream_spec serve s' (r @ rest)" for rest
            using Pair go by (simp add: whole(1) spec)
          from go have "go = True" by simp
          from 1(1) [OF f'(1) [symmetric] refl Pair [symmetric] this f'(2)]
          have "case serve_lines serve s' f' of
              More s'' f'' \<Rightarrow> (\<exists>pre q. r = pre @ q \<and> framer_ok f'' q \<and> NL \<notin> set q \<and>
                (\<forall>rest. stream_spec serve s' (r @ rest) = stream_spec serve s'' (q @ rest)))
            | Hung_Up s'' \<Rightarrow> (\<forall>rest. stream_spec serve s' (r @ rest) = (s'', Stream_Hung_Up))
            | Refused_By_Framer e s'' \<Rightarrow> (\<exists>n. e = Line_Too_Long n) \<and>
                (\<forall>rest. stream_spec serve s' (r @ rest) = (s'', Stream_Too_Long))" .
          then show ?thesis unfolding eq st
            by (simp split: served.splits) (metis append.assoc append_Cons whole(1))
        qed
      qed
    qed
  qed
qed

text \<open>What is held between two reads: less than a line, and then at most one read.\<close>

definition held_ok :: "bytes \<Rightarrow> bool" where
  "held_ok p \<longleftrightarrow> (length p < NCFG_PROTO_MAX_LINE \<or> NL \<in> set p) \<and>
     (\<exists>q c. p = q @ c \<and> NL \<notin> set q \<and> length q < NCFG_PROTO_MAX_LINE \<and> length c \<le> NCFG_PROTO_MAX_LINE)"

lemma held_tail:
  assumes "held_ok (pre @ q)" "NL \<notin> set q"
  shows "length q < NCFG_PROTO_MAX_LINE"
proof (cases "NL \<in> set pre")
  case False
  with assms show ?thesis by (auto simp: held_ok_def)
next
  case True
  from assms(1) obtain t c where tc: "pre @ q = t @ c" "NL \<notin> set t" "length c \<le> NCFG_PROTO_MAX_LINE"
    by (auto simp: held_ok_def)
  from tc(1) consider u where "pre = t @ u" "u @ q = c" | u where "t = pre @ u" "q = u @ c"
    by (auto simp: append_eq_append_conv2)
  then show ?thesis
  proof cases
    case 1
    with True tc(2) have "u \<noteq> []" by auto
    with 1(2) tc(3) show ?thesis by (cases u) auto
  next
    case 2
    with True tc(2) show ?thesis by simp
  qed
qed

lemma held_part: "NL \<notin> set q \<Longrightarrow> length q < NCFG_PROTO_MAX_LINE \<Longrightarrow> length c \<le> NCFG_PROTO_MAX_LINE \<Longrightarrow>
    length (q @ c) < NCFG_PROTO_MAX_LINE \<or> NL \<in> set (q @ c) \<Longrightarrow> held_ok (q @ c)"
  unfolding held_ok_def by blast

fun stream_of :: "received list \<Rightarrow> bytes" where
  "stream_of [] = []"
| "stream_of (Chunk bs # events) = bs @ stream_of events"
| "stream_of (_ # events) = stream_of events"

fun reading :: "received \<Rightarrow> bool" where
  "reading (Chunk bs) \<longleftrightarrow> length bs \<le> NCFG_PROTO_MAX_LINE"
| "reading Interrupted \<longleftrightarrow> True"
| "reading _ \<longleftrightarrow> False"

fun end_kind :: "conn_end \<Rightarrow> stream_end option" where
  "end_kind Disconnected = Some Stream_Closed"
| "end_kind Ended_By_Answer = Some Stream_Hung_Up"
| "end_kind (Framing_Refused No_Newline) = Some Stream_Too_Long"
| "end_kind (Framing_Refused (Line_Too_Long _)) = Some Stream_Too_Long"
| "end_kind (Framing_Refused (Cut_In_Half n)) = Some (Stream_Cut n)"
| "end_kind _ = None"

lemma connection_loop_spec:
  assumes "framer_ok f p" "held_ok p" "list_all reading events"
  shows "map_prod id end_kind (connection_loop serve s f (events @ [Closed])) =
    map_prod id Some (stream_spec serve s (p @ stream_of events))"
  using assms
proof (induction events arbitrary: f s p)
  case Nil
  note drained = serve_lines_spec [OF Nil(1), of serve s]
  show ?case
  proof (cases "serve_lines serve s f")
    case (More s' f')
    with drained obtain pre q where q: "p = pre @ q" "framer_ok f' q" "NL \<notin> set q"
      "\<And>rest. stream_spec serve s (p @ rest) = stream_spec serve s' (q @ rest)" by auto
    from held_tail [of pre q] Nil(2) q(1,3) have "length q < NCFG_PROTO_MAX_LINE" by simp
    with More framer_finish_ok [OF q(2)] stream_spec_tail [OF q(3), of serve s'] q(4) [of "[]"] show ?thesis
      by (cases "ncfg_proto_framer_finish f'") (auto simp: connection_loop.simps [of serve s f])
  qed (use drained in \<open>auto simp: connection_loop.simps [of serve s f] dest: spec [of _ "[]"]\<close>)
next
  case (Cons e events)
  note drained = serve_lines_spec [OF Cons.prems(1), of serve s]
  show ?case
  proof (cases "serve_lines serve s f")
    case (More s' f')
    with drained obtain pre q where q: "p = pre @ q" "framer_ok f' q" "NL \<notin> set q"
      "\<And>rest. stream_spec serve s (p @ rest) = stream_spec serve s' (q @ rest)" by auto
    from held_tail [of pre q] Cons.prems(2) q(1,3) have len: "length q < NCFG_PROTO_MAX_LINE" by simp
    show ?thesis
    proof (cases e)
      case (Chunk bs)
      with Cons.prems(3) len have bs: "length bs \<le> NCFG_PROTO_MAX_LINE" "length q + length bs \<le> PENDING_LIMIT"
        by (auto simp: PENDING_LIMIT_def)
      show ?thesis
      proof (cases "length (q @ bs) < NCFG_PROTO_MAX_LINE \<or> NL \<in> set (q @ bs)")
        case True
        from framer_add_ok [OF q(2) bs(2) True] obtain f'' where
          f'': "ncfg_proto_framer_add f' bs = (None, f'')" "framer_ok f'' (q @ bs)" by blast
        from Cons.IH [OF f''(2) held_part [OF q(3) len bs(1) True], of s'] Cons.prems(3) f''(1) More Chunk
        show ?thesis by (simp add: connection_loop.simps [of serve s f] q(4))
      next
        case False
        then have "NL \<notin> set (q @ bs)" "NCFG_PROTO_MAX_LINE \<le> length (q @ bs)" by auto
        with framer_add_flood [OF q(2) bs(2)] stream_spec_long [of "q @ bs" serve s' "stream_of events"] More Chunk
        show ?thesis by (auto simp: connection_loop.simps [of serve s f] q(4))
      qed
    next
      case Interrupted
      from Cons.IH [OF q(2) held_part [of q "[]", simplified], of s'] q(3) len Cons.prems(3) More Interrupted
      show ?thesis by (simp add: connection_loop.simps [of serve s f] q(4))
    qed (use Cons.prems(3) in auto)
  qed (use drained in \<open>auto simp: connection_loop.simps [of serve s f]\<close>)
qed

text \<open>
  C23.  A connection answers the lines of its stream, however the stream arrives.  Cut into reads in
  any way (each at most a megabyte; the daemon's are four kilobytes) and interrupted at any point,
  a closed stream has its lines answered in order, each exactly once, up to the first of a megabyte
  or more, to an answer that hangs up, or to the end; a line without its newline is refused with its
  length; and the waiting bytes never exceed the framer's buffer.
\<close>

theorem connection_framing:
  assumes "list_all reading events"
  shows "map_prod id end_kind (connection serve s (events @ [Closed])) =
    map_prod id Some (stream_spec serve s (stream_of events))"
  using connection_loop_spec [OF framer_ok_init _ assms, of serve s] held_part [of "[]" "[]"]
  by (simp add: connection_def NCFG_PROTO_MAX_LINE_def)

theorem connection_framing_witness:
  "map_prod id end_kind (connection (\<lambda>ls l. (True, ls @ [l])) []
     [Chunk (ascii ''a''), Interrupted, Chunk (ascii ''b'' @ [NL] @ ascii ''c''), Closed]) =
   ([ascii ''ab''], Some (Stream_Cut 1))"
proof -
  let ?es = "[Chunk (ascii ''a''), Interrupted, Chunk (ascii ''b'' @ [NL] @ ascii ''c'')]"
  have es: "list_all reading ?es" by (simp add: NCFG_PROTO_MAX_LINE_def)
  have "stream_spec (\<lambda>ls l. (True, ls @ [l])) [] (stream_of ?es) = ([ascii ''ab''], Stream_Cut 1)"
    by code_simp
  with connection_framing [OF es, of "\<lambda>ls l. (True, ls @ [l])" "[]"] show ?thesis by simp
qed

subsection \<open>Lines that were built are the lines that are read\<close>

lemma line_finish_cases:
  assumes "buf_inv b" "ncfg_proto_line_finish b = (None, b')"
  shows "\<not> bfailed b" "NL \<notin> set (buf_contents b)" "length (buf_contents b) < NCFG_PROTO_MAX_LINE"
    "ncfg_buf_text b = buf_contents b" "ncfg_buf_text b' = buf_contents b @ [NL]"
proof -
  from assms have b': "b' = ncfg_buf_add granted b [NL]" "\<not> bfailed b'"
    and parts: "\<not> bfailed b" "NL \<notin> set (buf_contents b)" "length (buf_contents b) < NCFG_PROTO_MAX_LINE"
    by (auto simp: ncfg_proto_line_finish_def ncfg_buf_failed_def ncfg_buf_add_char_def Let_def buf_inv_def
        split: if_splits option.splits)
  from parts show "\<not> bfailed b" "NL \<notin> set (buf_contents b)" "length (buf_contents b) < NCFG_PROTO_MAX_LINE"
    "ncfg_buf_text b = buf_contents b" by (simp_all add: buf_text_contents)
  from sink.add_all_faithful(1) [OF assms(1), of "[[NL]]"] b'
  show "ncfg_buf_text b' = buf_contents b @ [NL]"
    by (simp add: sink.add_all_def ncfg_buf_failed_def buf_text_contents)
qed

lemma line_finish_succeeds:
  assumes "buf_inv b" "\<not> bfailed b" "NL \<notin> set (buf_contents b)" "length (buf_contents b) < NCFG_PROTO_MAX_LINE"
    "0 < buf_room b"
  shows "ncfg_proto_line_finish b = (None, ncfg_buf_add granted b [NL])"
  using assms add_ok [of b "[NL]"]
  by (auto simp: ncfg_proto_line_finish_def ncfg_buf_failed_def ncfg_buf_add_char_def Let_def buf_inv_def
      split: option.split)

abbreviation recording :: "bytes list \<Rightarrow> bytes \<Rightarrow> bool \<times> bytes list" where
  "recording ls l \<equiv> (True, ls @ [l])"

lemma stream_spec_lines:
  "(\<And>l. l \<in> set ls \<Longrightarrow> NL \<notin> set l \<and> length l < NCFG_PROTO_MAX_LINE) \<Longrightarrow>
   stream_spec recording done (concat (map (\<lambda>l. l @ [NL]) ls)) = (done @ ls, Stream_Closed)"
proof (induction ls arbitrary: "done")
  case Nil
  then show ?case using stream_spec_tail [of "[]" recording "done"] by (simp add: NCFG_PROTO_MAX_LINE_def)
next
  case (Cons l ls)
  then show ?case by (simp add: stream_spec_line)
qed

lemma end_kind_closed: "end_kind e = Some Stream_Closed \<longleftrightarrow> e = Disconnected"
  by (cases e rule: end_kind.cases) auto

text \<open>
  Messages arrive as they were sent.  Whatever messages one side terminates with
  \<^verbatim>\<open>ncfg_proto_line_finish\<close> and sends one after another, a peer that reads them through a framer,
  however the bytes are cut into reads, is handed exactly those messages, in that order, and ends
  with an ordinary disconnect: no message is split, joined or dropped.
\<close>

theorem finished_lines_framed:
  assumes "list_all2 (\<lambda>m m'. buf_inv m \<and> ncfg_proto_line_finish m = (None, m')) ms ms'"
    and "list_all reading events" and "stream_of events = concat (map ncfg_buf_text ms')"
  shows "connection recording [] (events @ [Closed]) = (map ncfg_buf_text ms, Disconnected)"
proof -
  have "map ncfg_buf_text ms' = map (\<lambda>l. l @ [NL]) (map ncfg_buf_text ms) \<and>
      (\<forall>l \<in> set (map ncfg_buf_text ms). NL \<notin> set l \<and> length l < NCFG_PROTO_MAX_LINE)"
    using assms(1) by (induction rule: list_all2_induct) (auto simp: line_finish_cases)
  with stream_spec_lines [of "map ncfg_buf_text ms" "[]"] connection_framing [OF assms(2), of recording "[]"] assms(3)
  show ?thesis by (cases "connection recording [] (events @ [Closed])") (auto simp: end_kind_closed)
qed

theorem finished_lines_framed_witness:
  "connection recording [] [Chunk (ascii ''{''), Chunk (ascii ''}'' @ [NL] @ ascii ''[''), Chunk (ascii '']'' @ [NL]), Closed] =
     ([ascii ''{}'', ascii ''[]''], Disconnected)"
proof -
  let ?b = "\<lambda>s. ncfg_buf_add granted (ncfg_buf_init 0) (ascii s)"
  let ?es = "[Chunk (ascii ''{''), Chunk (ascii ''}'' @ [NL] @ ascii ''[''), Chunk (ascii '']'' @ [NL])]"
  let ?ms' = "map (snd \<circ> ncfg_proto_line_finish) [?b ''{}'', ?b ''[]'']"
  have "fst (ncfg_proto_line_finish (?b ''{}'')) = None" "fst (ncfg_proto_line_finish (?b ''[]'')) = None"
    by code_simp+
  then have ms: "list_all2 (\<lambda>m m'. buf_inv m \<and> ncfg_proto_line_finish m = (None, m')) [?b ''{}'', ?b ''[]''] ?ms'"
    by (simp add: prod_eq_iff buf_inv_add buf_inv_init del: ascii_simps)
  have es: "list_all reading ?es" by (simp add: NCFG_PROTO_MAX_LINE_def)
  have st: "stream_of ?es = concat (map ncfg_buf_text ?ms')" by code_simp
  have "map ncfg_buf_text [?b ''{}'', ?b ''[]''] = [ascii ''{}'', ascii ''[]'']" by code_simp
  with finished_lines_framed [OF ms es st] show ?thesis by (simp del: ascii_simps)
qed

subsection \<open>Any use of a framer\<close>

inductive framer_reached :: "framer \<Rightarrow> bool" where
  init: "framer_reached ncfg_proto_framer_init"
| add: "framer_reached f \<Longrightarrow> framer_reached (snd (ncfg_proto_framer_add f bs))"
| taken: "framer_reached f \<Longrightarrow> framer_reached (snd (ncfg_proto_framer_next f))"
| finish: "framer_reached f \<Longrightarrow> framer_reached (snd (ncfg_proto_framer_finish f))"

definition framer_inv :: "framer \<Rightarrow> bool" where
  "framer_inv f \<longleftrightarrow> buf_inv (fr_pending f) \<and> blimit (fr_pending f) = PENDING_LIMIT \<and>
     fr_handed f \<le> blength (fr_pending f) \<and> (bfailed (fr_pending f) \<longrightarrow> fr_broken f)"

lemma framer_inv_ok: "framer_inv f \<Longrightarrow> \<not> fr_broken f \<Longrightarrow> framer_ok f (drop (fr_handed f) (buf_contents (fr_pending f)))"
  by (auto simp: framer_inv_def framer_ok_def)

lemma framer_inv_drop: "framer_inv f \<Longrightarrow> framer_inv (drop_handed f) \<and> fr_handed (drop_handed f) = 0"
  by (auto simp: framer_inv_def drop_handed_def drop_front_fields)

lemma find_newline_held: "find_newline (pending_bytes f) = Some n \<Longrightarrow> Suc n \<le> blength (fr_pending f)"
  using find_newline_length pending_length by (metis Suc_leI le_trans)

lemma framer_reached_inv: "framer_reached f \<Longrightarrow> framer_inv f"
proof (induction rule: framer_reached.induct)
  case init
  then show ?case
    by (simp add: framer_inv_def ncfg_proto_framer_init_def buf_inv_init init_fields PENDING_LIMIT_def NCFG_PROTO_MAX_LINE_def)
next
  case (add f bs)
  with framer_inv_drop [OF add.IH] show ?case
    by (auto simp: ncfg_proto_framer_add_def Let_def framer_inv_def buf_inv_add blimit_add ncfg_buf_failed_def)
next
  case (taken f)
  with framer_inv_drop [OF taken.IH] show ?case
    by (auto simp: ncfg_proto_framer_next_def Let_def framer_inv_def dest: find_newline_held split: option.split)
next
  case (finish f)
  with framer_inv_drop [OF finish.IH] show ?case
    by (auto simp: ncfg_proto_framer_finish_def Let_def framer_inv_def)
qed

lemma framer_next_text:
  assumes "ncfg_proto_framer_next f = (Line text, f')"
  shows "NL \<notin> set text \<and> length text < NCFG_PROTO_MAX_LINE"
proof -
  from assms obtain n where n: "find_newline (pending_bytes (drop_handed f)) = Some n"
    "text = take n (pending_bytes (drop_handed f))" "n < NCFG_PROTO_MAX_LINE"
    by (auto simp: ncfg_proto_framer_next_def Let_def split: if_splits option.splits)
  from n(1) have "n = length (takeWhile (\<lambda>c. c \<noteq> NL) (pending_bytes (drop_handed f)))"
    by (simp add: find_newline_split split: if_splits)
  with n(2) have "text = takeWhile (\<lambda>c. c \<noteq> NL) (pending_bytes (drop_handed f))"
    by (metis takeWhile_eq_take)
  with n(3) \<open>n = _\<close> show ?thesis by (auto dest: set_takeWhileD)
qed

text \<open>
  A framer is bounded and a refusal is final, in any order of calls with any bytes.  It never
  holds more than twice the longest line, what it has handed out is among what it holds, every line
  it hands out is shorter than a megabyte and free of newlines; any call that refuses leaves it
  broken, and a broken framer refuses every call and never changes again.
\<close>

theorem framer_bounded_final:
  assumes "framer_reached f"
  shows "blength (fr_pending f) \<le> 2 * NCFG_PROTO_MAX_LINE \<and> fr_handed f \<le> blength (fr_pending f) \<and>
    (\<forall>text f'. ncfg_proto_framer_next f = (Line text, f') \<longrightarrow> NL \<notin> set text \<and> length text < NCFG_PROTO_MAX_LINE) \<and>
    (\<forall>bs e f'. ncfg_proto_framer_add f bs = (Some e, f') \<or> ncfg_proto_framer_next f = (Line_Failed e, f') \<or>
       ncfg_proto_framer_finish f = (Some e, f') \<longrightarrow> fr_broken f') \<and>
    (fr_broken f \<longrightarrow> (\<forall>bs. ncfg_proto_framer_add f bs = (Some Already_Broken, f) \<and>
       ncfg_proto_framer_next f = (Line_Failed Already_Broken, f) \<and>
       ncfg_proto_framer_finish f = (Some Already_Broken, f)))"
proof (intro conjI)
  from framer_reached_inv [OF assms]
  show "blength (fr_pending f) \<le> 2 * NCFG_PROTO_MAX_LINE" "fr_handed f \<le> blength (fr_pending f)"
    by (simp_all add: framer_inv_def buf_inv_def PENDING_LIMIT_def)
  show "\<forall>text f'. ncfg_proto_framer_next f = (Line text, f') \<longrightarrow> NL \<notin> set text \<and> length text < NCFG_PROTO_MAX_LINE"
    using framer_next_text by blast
  show "\<forall>bs e f'. ncfg_proto_framer_add f bs = (Some e, f') \<or> ncfg_proto_framer_next f = (Line_Failed e, f') \<or>
      ncfg_proto_framer_finish f = (Some e, f') \<longrightarrow> fr_broken f'"
    by (auto simp: ncfg_proto_framer_add_def ncfg_proto_framer_next_def ncfg_proto_framer_finish_def Let_def
        split: if_splits option.splits)
qed (simp add: ncfg_proto_framer_add_def ncfg_proto_framer_next_def ncfg_proto_framer_finish_def)

theorem framer_bounded_final_witness:
  "\<exists>f. framer_reached f \<and> fr_broken f \<and> (\<forall>bs. ncfg_proto_framer_add f bs = (Some Already_Broken, f))"
proof -
  let ?f = "snd (ncfg_proto_framer_finish (snd (ncfg_proto_framer_add ncfg_proto_framer_init (ascii ''half''))))"
  have r: "framer_reached ?f" by (intro framer_reached.intros)
  have "fr_broken ?f" by code_simp
  with framer_bounded_final [OF r] r show ?thesis by blast
qed

end
