(* ===== verification/Ncfg_Request.thy ===== *)
theory Ncfg_Request
  imports Ncfg_Json_Read Ncfg_Json Ncfg_Frame
begin

text \<open>
  What a client asks for, \<^verbatim>\<open>c/src/proto/request.c\<close>, and the typed access to members it is read
  with, \<^verbatim>\<open>c/src/proto/common.c\<close> and \<^verbatim>\<open>message.c\<close>.

  A counted string that may be absent is \<open>str\<close>; a number or a sub-object with a \<^verbatim>\<open>present\<close> flag is an
  option.  The arms of the union are the fields of one record, of which a kind uses its own only: the
  encoder reads that arm, and the decoder starts from a request that is all zero and fills that arm.
  A refusal is its sentence; allocation is granted.
\<close>

type_synonym str = "bytes option"

datatype (plugins only: code) request_kind =
    REQ_HELLO | REQ_STATUS | REQ_PLAN | REQ_APPLY | REQ_CONFIRM | REQ_REVERT | REQ_RELOAD | REQ_SHOW
  | REQ_EXPLAIN | REQ_CONFIG_LIST | REQ_MONITOR | REQ_WIFI_SCAN | REQ_WIFI_STATUS | REQ_WIFI_ADD
  | REQ_WIFI_CONNECT | REQ_WIFI_DISCONNECT | REQ_WIFI_FORGET | REQ_CONFIG_PUT | REQ_PROBE_LIST
  | REQ_HOOK_LIST | REQ_PROFILE_LIST | REQ_MODEM_LIST | REQ_PROFILE_SAVE | REQ_SECRET_LIST
  | REQ_PROFILE_SET | REQ_PROBE_PUT | REQ_SECRET_PUT | REQ_CONFIG_DELETE | REQ_SECRET_DELETE
  | REQ_AP_STATIONS | REQ_RADIOS | REQ_RADIO_SET

datatype subject_kind = SUBJECT_INTERFACE | SUBJECT_ADDRESS | SUBJECT_ROUTE

record subject =
  sb_kind :: subject_kind
  sb_name :: str
  sb_interface :: str
  sb_address :: str
  sb_destination :: str

record eap =
  ep_method :: str
  ep_identity :: str
  ep_anonymous_identity :: str
  ep_phase2 :: str
  ep_ca_cert :: str
  ep_client_cert :: str

record apply_request =
  ap_confirm :: "64 word option"
  ap_allow_disruption :: "str list"
  ap_strand_credentials :: "str list"
  ap_restart_wedged :: "str list"
  ap_no_rollback :: str

record wifi_add =
  wi_ssid :: str
  wi_id :: str
  wi_passphrase :: str
  wi_proto :: str
  wi_hidden :: bool
  wi_metric :: "64 word option"
  wi_eap :: "eap option"
  wi_owe :: bool

record put =
  pt_name :: str
  pt_text :: str
  pt_replace :: bool

record secret_put =
  sp_name :: str
  sp_value :: str
  sp_replace :: bool

record profile_save =
  pv_name :: str
  pv_replace :: bool

record wifi_connect =
  wc_interface :: str
  wc_network :: str

record radio_set =
  rd_interface :: str
  rd_activate :: bool

record request =
  rq_kind :: request_kind
  rq_apply :: apply_request
  rq_explain :: subject
  rq_interface :: str
  rq_wifi_add :: wifi_add
  rq_wifi_connect :: wifi_connect
  rq_id :: str
  rq_put :: put
  rq_secret_put :: secret_put
  rq_name :: str
  rq_profile_save :: profile_save
  rq_radio_set :: radio_set

subsection \<open>Names and members\<close>

primrec request_names :: "request_kind \<Rightarrow> string" where
    "request_names REQ_HELLO = ''hello''"
  | "request_names REQ_STATUS = ''status''"
  | "request_names REQ_PLAN = ''plan''"
  | "request_names REQ_APPLY = ''apply''"
  | "request_names REQ_CONFIRM = ''confirm''"
  | "request_names REQ_REVERT = ''revert''"
  | "request_names REQ_RELOAD = ''reload''"
  | "request_names REQ_SHOW = ''show''"
  | "request_names REQ_EXPLAIN = ''explain''"
  | "request_names REQ_CONFIG_LIST = ''config_list''"
  | "request_names REQ_MONITOR = ''monitor''"
  | "request_names REQ_WIFI_SCAN = ''wifi_scan''"
  | "request_names REQ_WIFI_STATUS = ''wifi_status''"
  | "request_names REQ_WIFI_ADD = ''wifi_add''"
  | "request_names REQ_WIFI_CONNECT = ''wifi_connect''"
  | "request_names REQ_WIFI_DISCONNECT = ''wifi_disconnect''"
  | "request_names REQ_WIFI_FORGET = ''wifi_forget''"
  | "request_names REQ_CONFIG_PUT = ''config_put''"
  | "request_names REQ_PROBE_LIST = ''probe_list''"
  | "request_names REQ_HOOK_LIST = ''hook_list''"
  | "request_names REQ_PROFILE_LIST = ''profile_list''"
  | "request_names REQ_MODEM_LIST = ''modem_list''"
  | "request_names REQ_PROFILE_SAVE = ''profile_save''"
  | "request_names REQ_SECRET_LIST = ''secret_list''"
  | "request_names REQ_PROFILE_SET = ''profile_set''"
  | "request_names REQ_PROBE_PUT = ''probe_put''"
  | "request_names REQ_SECRET_PUT = ''secret_put''"
  | "request_names REQ_CONFIG_DELETE = ''config_delete''"
  | "request_names REQ_SECRET_DELETE = ''secret_delete''"
  | "request_names REQ_AP_STATIONS = ''ap_stations''"
  | "request_names REQ_RADIOS = ''radios''"
  | "request_names REQ_RADIO_SET = ''radio_set''"

text \<open>The kinds in the order of the enumeration, which is the order the names are searched in.\<close>

definition request_kinds :: "request_kind list" where
  "request_kinds =
     [REQ_HELLO, REQ_STATUS, REQ_PLAN, REQ_APPLY, REQ_CONFIRM, REQ_REVERT, REQ_RELOAD, REQ_SHOW,
      REQ_EXPLAIN, REQ_CONFIG_LIST, REQ_MONITOR, REQ_WIFI_SCAN, REQ_WIFI_STATUS, REQ_WIFI_ADD,
      REQ_WIFI_CONNECT, REQ_WIFI_DISCONNECT, REQ_WIFI_FORGET, REQ_CONFIG_PUT, REQ_PROBE_LIST,
      REQ_HOOK_LIST, REQ_PROFILE_LIST, REQ_MODEM_LIST, REQ_PROFILE_SAVE, REQ_SECRET_LIST,
      REQ_PROFILE_SET, REQ_PROBE_PUT, REQ_SECRET_PUT, REQ_CONFIG_DELETE, REQ_SECRET_DELETE,
      REQ_AP_STATIONS, REQ_RADIOS, REQ_RADIO_SET]"

definition ncfg_proto_request_kind_from :: "bytes \<Rightarrow> request_kind option" where
  "ncfg_proto_request_kind_from name = find (\<lambda>kind. ascii (request_names kind) = name) request_kinds"

primrec request_members :: "request_kind \<Rightarrow> string list" where
    "request_members REQ_HELLO = []"
  | "request_members REQ_STATUS = []"
  | "request_members REQ_PLAN = []"
  | "request_members REQ_APPLY =
       [''confirm'', ''allow_disruption'', ''strand_credentials'', ''restart_wedged'', ''no_rollback'']"
  | "request_members REQ_CONFIRM = []"
  | "request_members REQ_REVERT = []"
  | "request_members REQ_RELOAD = []"
  | "request_members REQ_SHOW = []"
  | "request_members REQ_EXPLAIN = [''subject'']"
  | "request_members REQ_CONFIG_LIST = []"
  | "request_members REQ_MONITOR = []"
  | "request_members REQ_WIFI_SCAN = [''interface'']"
  | "request_members REQ_WIFI_STATUS = [''interface'']"
  | "request_members REQ_WIFI_ADD =
       [''ssid'', ''id'', ''passphrase'', ''proto'', ''hidden'', ''metric'', ''eap'', ''owe'']"
  | "request_members REQ_WIFI_CONNECT = [''interface'', ''network'']"
  | "request_members REQ_WIFI_DISCONNECT = [''interface'']"
  | "request_members REQ_WIFI_FORGET = [''id'']"
  | "request_members REQ_CONFIG_PUT = [''name'', ''text'', ''replace'']"
  | "request_members REQ_PROBE_LIST = []"
  | "request_members REQ_HOOK_LIST = []"
  | "request_members REQ_PROFILE_LIST = []"
  | "request_members REQ_MODEM_LIST = []"
  | "request_members REQ_PROFILE_SAVE = [''name'', ''replace'']"
  | "request_members REQ_SECRET_LIST = []"
  | "request_members REQ_PROFILE_SET = [''name'']"
  | "request_members REQ_PROBE_PUT = [''name'', ''text'', ''replace'']"
  | "request_members REQ_SECRET_PUT = [''name'', ''value'', ''replace'']"
  | "request_members REQ_CONFIG_DELETE = [''name'']"
  | "request_members REQ_SECRET_DELETE = [''name'']"
  | "request_members REQ_AP_STATIONS = [''interface'']"
  | "request_members REQ_RADIOS = []"
  | "request_members REQ_RADIO_SET = [''interface'', ''activate'']"

fun subject_names :: "subject_kind \<Rightarrow> string" where
    "subject_names SUBJECT_INTERFACE = ''interface''"
  | "subject_names SUBJECT_ADDRESS = ''address''"
  | "subject_names SUBJECT_ROUTE = ''route''"

subsection \<open>Encoding\<close>

definition member_str :: "json_writer \<Rightarrow> string \<Rightarrow> str \<Rightarrow> json_writer" where
  "member_str writer name text =
     ncfg_json_write_string_bytes (ncfg_json_write_key writer (Some (ascii name))) text"

definition member_str_if :: "json_writer \<Rightarrow> string \<Rightarrow> str \<Rightarrow> json_writer" where
  "member_str_if writer name text = (if text \<noteq> None then member_str writer name text else writer)"

definition member_strs :: "json_writer \<Rightarrow> string \<Rightarrow> str list \<Rightarrow> json_writer" where
  "member_strs writer name items =
     ncfg_json_write_array_end
       (foldl ncfg_json_write_string_bytes
         (ncfg_json_write_array_begin (ncfg_json_write_key writer (Some (ascii name)))) items)"

definition member_int_if :: "json_writer \<Rightarrow> string \<Rightarrow> 64 word option \<Rightarrow> json_writer" where
  "member_int_if writer name value =
     (case value of None \<Rightarrow> writer | Some value \<Rightarrow> ncfg_json_write_member_int writer (Some (ascii name)) value)"

definition member_flag_if :: "json_writer \<Rightarrow> string \<Rightarrow> bool \<Rightarrow> json_writer" where
  "member_flag_if writer name flag =
     (if flag then ncfg_json_write_member_bool writer (Some (ascii name)) True else writer)"

definition missing :: "string \<Rightarrow> string \<Rightarrow> bytes" where
  "missing kind member =
     ascii ''a `'' @ ascii kind @ ascii ''` request needs `'' @ ascii member @ ascii ''` and has none''"

text \<open>Members that must be there, written in order once none is missing.\<close>

definition encode_subject :: "subject \<Rightarrow> json_writer \<Rightarrow> bytes option \<times> json_writer" where
  "encode_subject subject writer =
     (let writer = ncfg_json_write_object_begin writer;
          writer = ncfg_json_write_member_string writer (Some (ascii ''subject''))
                     (Some (ascii (subject_names (sb_kind subject))))
      in case sb_kind subject of
           SUBJECT_INTERFACE \<Rightarrow>
             if sb_name subject = None then (Some (missing ''explain'' ''subject.name''), writer)
             else (None, ncfg_json_write_object_end (member_str writer ''name'' (sb_name subject)))
         | SUBJECT_ADDRESS \<Rightarrow>
             if sb_interface subject = None \<or> sb_address subject = None
             then (Some (missing ''explain'' ''subject.interface and subject.address''), writer)
             else (None, ncfg_json_write_object_end
               (member_str (member_str writer ''interface'' (sb_interface subject)) ''address'' (sb_address subject)))
         | SUBJECT_ROUTE \<Rightarrow>
             if sb_interface subject = None \<or> sb_destination subject = None
             then (Some (missing ''explain'' ''subject.interface and subject.destination''), writer)
             else (None, ncfg_json_write_object_end
               (member_str (member_str writer ''interface'' (sb_interface subject))
                  ''destination'' (sb_destination subject))))"

definition encode_apply :: "apply_request \<Rightarrow> json_writer \<Rightarrow> bytes option \<times> json_writer" where
  "encode_apply a writer =
     (let writer = member_int_if writer ''confirm'' (ap_confirm a);
          writer = member_strs writer ''allow_disruption'' (ap_allow_disruption a);
          writer = member_strs writer ''strand_credentials'' (ap_strand_credentials a);
          writer = member_strs writer ''restart_wedged'' (ap_restart_wedged a)
      in (None, member_str_if writer ''no_rollback'' (ap_no_rollback a)))"

definition encode_eap :: "eap \<Rightarrow> json_writer \<Rightarrow> json_writer" where
  "encode_eap e writer =
     (let writer = ncfg_json_write_object_begin (ncfg_json_write_key writer (Some (ascii ''eap'')));
          writer = member_str writer ''method'' (ep_method e);
          writer = member_str writer ''identity'' (ep_identity e);
          writer = member_str_if writer ''anonymous_identity'' (ep_anonymous_identity e);
          writer = member_str_if writer ''phase2'' (ep_phase2 e);
          writer = member_str_if writer ''ca_cert'' (ep_ca_cert e);
          writer = member_str_if writer ''client_cert'' (ep_client_cert e)
      in ncfg_json_write_object_end writer)"

definition encode_wifi_add :: "string \<Rightarrow> wifi_add \<Rightarrow> json_writer \<Rightarrow> bytes option \<times> json_writer" where
  "encode_wifi_add kind w writer =
     (if wi_ssid w = None then (Some (missing kind ''ssid''), writer)
      else
        (let writer = member_str writer ''ssid'' (wi_ssid w);
             writer = member_str_if writer ''id'' (wi_id w);
             writer = member_str_if writer ''passphrase'' (wi_passphrase w);
             writer = member_str_if writer ''proto'' (wi_proto w);
             writer = member_flag_if writer ''hidden'' (wi_hidden w);
             writer = member_int_if writer ''metric'' (wi_metric w)
         in case wi_eap w of
              None \<Rightarrow> (None, member_flag_if writer ''owe'' (wi_owe w))
            | Some e \<Rightarrow>
                if ep_method e = None \<or> ep_identity e = None
                then (Some (missing kind ''eap.method and eap.identity''), writer)
                else (None, member_flag_if (encode_eap e writer) ''owe'' (wi_owe w))))"

definition encode_required :: "string \<Rightarrow> (string \<times> str) list \<Rightarrow> json_writer \<Rightarrow> bytes option \<times> json_writer" where
  "encode_required kind members writer =
     (case find (\<lambda>(name, text). text = None) members of
        Some (name, _) \<Rightarrow> (Some (missing kind name), writer)
      | None \<Rightarrow> (None, foldl (\<lambda>writer (name, text). member_str writer name text) writer members))"

definition encode_flagged ::
  "string \<Rightarrow> (string \<times> str) list \<Rightarrow> string \<Rightarrow> bool \<Rightarrow> json_writer \<Rightarrow> bytes option \<times> json_writer" where
  "encode_flagged kind members name flag writer =
     (case encode_required kind members writer of
        (Some why, writer) \<Rightarrow> (Some why, writer)
      | (None, writer) \<Rightarrow> (None, member_flag_if writer name flag))"

definition encode_radio_set :: "string \<Rightarrow> radio_set \<Rightarrow> json_writer \<Rightarrow> bytes option \<times> json_writer" where
  "encode_radio_set kind r writer =
     (case encode_required kind [(''interface'', rd_interface r)] writer of
        (Some why, writer) \<Rightarrow> (Some why, writer)
      | (None, writer) \<Rightarrow>
          (None, ncfg_json_write_member_bool writer (Some (ascii ''activate'')) (rd_activate r)))"

definition encode_put :: "string \<Rightarrow> put \<Rightarrow> json_writer \<Rightarrow> bytes option \<times> json_writer" where
  "encode_put kind p = encode_flagged kind [(''name'', pt_name p), (''text'', pt_text p)] ''replace'' (pt_replace p)"

definition encode_payload :: "request \<Rightarrow> json_writer \<Rightarrow> bytes option \<times> json_writer" where
  "encode_payload request writer =
     (let kind = request_names (rq_kind request) in
      case rq_kind request of
        REQ_APPLY \<Rightarrow> encode_apply (rq_apply request) writer
      | REQ_EXPLAIN \<Rightarrow>
          encode_subject (rq_explain request) (ncfg_json_write_key writer (Some (ascii ''subject'')))
      | REQ_WIFI_SCAN \<Rightarrow> encode_required kind [(''interface'', rq_interface request)] writer
      | REQ_WIFI_STATUS \<Rightarrow> encode_required kind [(''interface'', rq_interface request)] writer
      | REQ_WIFI_DISCONNECT \<Rightarrow> encode_required kind [(''interface'', rq_interface request)] writer
      | REQ_AP_STATIONS \<Rightarrow> encode_required kind [(''interface'', rq_interface request)] writer
      | REQ_WIFI_ADD \<Rightarrow> encode_wifi_add kind (rq_wifi_add request) writer
      | REQ_WIFI_CONNECT \<Rightarrow>
          encode_required kind
            [(''interface'', wc_interface (rq_wifi_connect request)),
             (''network'', wc_network (rq_wifi_connect request))] writer
      | REQ_WIFI_FORGET \<Rightarrow> encode_required kind [(''id'', rq_id request)] writer
      | REQ_CONFIG_PUT \<Rightarrow> encode_put kind (rq_put request) writer
      | REQ_PROBE_PUT \<Rightarrow> encode_put kind (rq_put request) writer
      | REQ_SECRET_PUT \<Rightarrow>
          encode_flagged kind
            [(''name'', sp_name (rq_secret_put request)), (''value'', sp_value (rq_secret_put request))]
            ''replace'' (sp_replace (rq_secret_put request)) writer
      | REQ_PROFILE_SET \<Rightarrow> (None, member_str_if writer ''name'' (rq_name request))
      | REQ_CONFIG_DELETE \<Rightarrow> encode_required kind [(''name'', rq_name request)] writer
      | REQ_SECRET_DELETE \<Rightarrow> encode_required kind [(''name'', rq_name request)] writer
      | REQ_PROFILE_SAVE \<Rightarrow>
          encode_flagged kind [(''name'', pv_name (rq_profile_save request))]
            ''replace'' (pv_replace (rq_profile_save request)) writer
      | REQ_RADIO_SET \<Rightarrow> encode_radio_set kind (rq_radio_set request) writer
      | _ \<Rightarrow> (None, writer))"

definition ncfg_proto_request_encode :: "request \<Rightarrow> buf \<Rightarrow> (bytes + unit) \<times> buf" where
  "ncfg_proto_request_encode request out =
     (let writer = ncfg_json_write_object_begin (ncfg_json_write_init out);
          writer = ncfg_json_write_member_string writer (Some (ascii ''request''))
                     (Some (ascii (request_names (rq_kind request))))
      in case encode_payload request writer of
           (Some why, writer) \<Rightarrow> (Inl why, (jw_buf writer)\<lparr>bfailed := True\<rparr>)
         | (None, writer) \<Rightarrow>
             (let writer = ncfg_json_write_object_end writer in
              if \<not> ncfg_json_write_done writer then
                (Inl (ascii ''the request could not be written: '' @
                   (case ncfg_json_write_failure writer of
                      Some why \<Rightarrow> why
                    | None \<Rightarrow> ascii ''it was left unfinished'')), jw_buf writer)
              else (Inr (), jw_buf writer)))"

text \<open>The request as a line: \<open>None\<close> when it could not be encoded or finished.\<close>

definition ncfg_proto_request_write :: "request \<Rightarrow> buf \<Rightarrow> bool \<times> buf" where
  "ncfg_proto_request_write request out =
     (case ncfg_proto_request_encode request out of
        (Inl _, out) \<Rightarrow> (False, out)
      | (Inr _, out) \<Rightarrow>
          (case ncfg_proto_line_finish out of (refusal, out) \<Rightarrow> (refusal = None, out)))"

subsection \<open>Members of a parsed object\<close>

fun and_then :: "'e + 'a \<Rightarrow> ('a \<Rightarrow> 'e + 'b) \<Rightarrow> 'e + 'b" where
  "and_then (Inl e) f = Inl e"
| "and_then (Inr x) f = f x"

definition present :: "json_doc \<Rightarrow> nat option \<Rightarrow> bool" where
  "present doc node \<longleftrightarrow> node \<noteq> None \<and> ncfg_json_type doc node \<noteq> TNull"

definition is_missing :: "string \<Rightarrow> string \<Rightarrow> bytes" where
  "is_missing what name = ascii what @ ascii '' is missing `'' @ ascii name @ ascii ''`''"

definition is_not :: "string \<Rightarrow> string \<Rightarrow> string \<Rightarrow> bytes" where
  "is_not name what which = ascii ''`'' @ ascii name @ ascii ''` on '' @ ascii what @ ascii which"

definition ncfg_proto_get_str :: "json_doc \<Rightarrow> nat option \<Rightarrow> string \<Rightarrow> bool \<Rightarrow> string \<Rightarrow> bytes + str" where
  "ncfg_proto_get_str doc object name required what =
     (let node = ncfg_json_member doc object (ascii name) in
      if \<not> present doc node then (if required then Inl (is_missing what name) else Inr None)
      else case ncfg_json_string doc node of
        None \<Rightarrow> Inl (is_not name what '' is not a string'')
      | Some bytes \<Rightarrow> Inr (Some bytes))"

definition ncfg_proto_get_bool ::
  "json_doc \<Rightarrow> nat option \<Rightarrow> string \<Rightarrow> bool \<Rightarrow> bool \<Rightarrow> string \<Rightarrow> bytes + bool" where
  "ncfg_proto_get_bool doc object name required fallback what =
     (let node = ncfg_json_member doc object (ascii name) in
      if \<not> present doc node then (if required then Inl (is_missing what name) else Inr fallback)
      else if ncfg_json_type doc node \<noteq> TBool then Inl (is_not name what '' is not true or false'')
      else Inr (ncfg_json_bool doc node False))"

definition ncfg_proto_get_int ::
  "json_doc \<Rightarrow> nat option \<Rightarrow> string \<Rightarrow> bool \<Rightarrow> string \<Rightarrow> bytes + 64 word option" where
  "ncfg_proto_get_int doc object name required what =
     (let node = ncfg_json_member doc object (ascii name) in
      if \<not> present doc node then (if required then Inl (is_missing what name) else Inr None)
      else if ncfg_json_type doc node \<noteq> TNumber then Inl (is_not name what '' is not a number'')
      else
        (let low = ncfg_json_int doc node (0x8000000000000000);
             high = ncfg_json_int doc node 0x7fffffffffffffff
         in if low \<noteq> high then Inl (is_not name what '' is not a whole number this can hold'')
            else Inr (Some low)))"

definition ncfg_proto_get_array ::
  "json_doc \<Rightarrow> nat option \<Rightarrow> string \<Rightarrow> bool \<Rightarrow> string \<Rightarrow> bytes + (nat option \<times> nat)" where
  "ncfg_proto_get_array doc object name required what =
     (let node = ncfg_json_member doc object (ascii name) in
      if \<not> present doc node then (if required then Inl (is_missing what name) else Inr (None, 0))
      else if ncfg_json_type doc node \<noteq> TArray then Inl (is_not name what '' is not a list'')
      else Inr (node, ncfg_json_count doc node))"

fun strs_at :: "json_doc \<Rightarrow> nat option \<Rightarrow> string \<Rightarrow> string \<Rightarrow> nat list \<Rightarrow> bytes + str list" where
  "strs_at doc array name what [] = Inr []"
| "strs_at doc array name what (at # rest) =
     (case ncfg_json_string doc (ncfg_json_at doc array at) of
        None \<Rightarrow> Inl (is_not name what '' holds something that is not a string'')
      | Some bytes \<Rightarrow>
          and_then (strs_at doc array name what rest) (\<lambda>items. Inr (Some bytes # items)))"

definition ncfg_proto_get_strs ::
  "json_doc \<Rightarrow> nat option \<Rightarrow> string \<Rightarrow> bool \<Rightarrow> string \<Rightarrow> bytes + str list" where
  "ncfg_proto_get_strs doc object name required what =
     and_then (ncfg_proto_get_array doc object name required what)
       (\<lambda>(array, count). strs_at doc array name what [0..<count])"

text \<open>Whether the text of the document can be found by the member whose name is known.\<close>

definition text_base :: "json_doc \<Rightarrow> nat option \<Rightarrow> string \<Rightarrow> bool" where
  "text_base doc object known_key =
     (let member = ncfg_json_member doc object (ascii known_key) in
      ncfg_json_node doc member \<noteq> None \<and> ncfg_json_string doc member \<noteq> None \<and>
      ncfg_json_key doc member = Some (ascii known_key))"

definition member_known :: "json_doc \<Rightarrow> nat option \<Rightarrow> string list \<Rightarrow> nat option \<Rightarrow> bool" where
  "member_known doc object names member =
     list_ex (\<lambda>name. ncfg_json_member doc object (ascii name) = member) names"

fun check_members_at ::
  "json_doc \<Rightarrow> nat option \<Rightarrow> string \<Rightarrow> string list \<Rightarrow> string \<Rightarrow> nat list \<Rightarrow> bytes option" where
  "check_members_at doc object known_key allowed what [] = None"
| "check_members_at doc object known_key allowed what (at # rest) =
     (let member = ncfg_json_at doc object at in
      case ncfg_json_node doc member of
        None \<Rightarrow> check_members_at doc object known_key allowed what rest
      | Some node \<Rightarrow>
          if member_known doc object (known_key # allowed) member
          then check_members_at doc object known_key allowed what rest
          else if text_base doc object known_key
          then Some (ascii ''unknown member `'' @
                 (case ncfg_json_key doc member of Some key \<Rightarrow> cstr key | None \<Rightarrow> []) @
                 ascii ''` on '' @ ascii what)
          else Some (ascii ''a member '' @ ascii what @ ascii '' does not define, at position '' @ decimal at))"

definition ncfg_proto_check_members ::
  "json_doc \<Rightarrow> nat option \<Rightarrow> string \<Rightarrow> string list \<Rightarrow> string \<Rightarrow> bytes option" where
  "ncfg_proto_check_members doc object known_key allowed what =
     check_members_at doc object known_key allowed what [0..<ncfg_json_count doc object]"

definition checked :: "json_doc \<Rightarrow> nat option \<Rightarrow> string \<Rightarrow> string list \<Rightarrow> string \<Rightarrow> 'a \<Rightarrow> bytes + 'a" where
  "checked doc object known_key allowed what out =
     (case ncfg_proto_check_members doc object known_key allowed what of
        Some why \<Rightarrow> Inl why
      | None \<Rightarrow> Inr out)"

subsection \<open>Decoding\<close>

definition no_subject :: subject where
  "no_subject = \<lparr>sb_kind = SUBJECT_INTERFACE, sb_name = None, sb_interface = None, sb_address = None,
     sb_destination = None\<rparr>"

definition no_request :: request where
  "no_request =
     \<lparr>rq_kind = REQ_HELLO,
      rq_apply = \<lparr>ap_confirm = None, ap_allow_disruption = [], ap_strand_credentials = [],
                  ap_restart_wedged = [], ap_no_rollback = None\<rparr>,
      rq_explain = no_subject, rq_interface = None,
      rq_wifi_add = \<lparr>wi_ssid = None, wi_id = None, wi_passphrase = None, wi_proto = None,
                     wi_hidden = False, wi_metric = None, wi_eap = None, wi_owe = False\<rparr>,
      rq_wifi_connect = \<lparr>wc_interface = None, wc_network = None\<rparr>, rq_id = None,
      rq_put = \<lparr>pt_name = None, pt_text = None, pt_replace = False\<rparr>,
      rq_secret_put = \<lparr>sp_name = None, sp_value = None, sp_replace = False\<rparr>, rq_name = None,
      rq_profile_save = \<lparr>pv_name = None, pv_replace = False\<rparr>,
      rq_radio_set = \<lparr>rd_interface = None, rd_activate = False\<rparr>\<rparr>"

definition decode_subject :: "json_doc \<Rightarrow> nat option \<Rightarrow> bytes + subject" where
  "decode_subject doc object =
     (let what = ''an `explain` subject'' in
      if ncfg_json_type doc object \<noteq> TObject then Inl (ascii ''`subject` on this request is not an object'')
      else and_then (ncfg_proto_get_str doc object ''subject'' True what) (\<lambda>tag.
        case find (\<lambda>kind. tag = Some (ascii (subject_names kind))) [SUBJECT_INTERFACE, SUBJECT_ADDRESS, SUBJECT_ROUTE] of
          None \<Rightarrow> Inl (ascii ''`'' @ (case tag of Some tag \<Rightarrow> cstr tag | None \<Rightarrow> []) @
                     ascii ''` is not something `explain` can be asked about'')
        | Some SUBJECT_INTERFACE \<Rightarrow>
            and_then (ncfg_proto_get_str doc object ''name'' True what) (\<lambda>name.
            checked doc object ''subject'' [''name''] what (no_subject\<lparr>sb_name := name\<rparr>))
        | Some SUBJECT_ADDRESS \<Rightarrow>
            and_then (ncfg_proto_get_str doc object ''interface'' True what) (\<lambda>interface.
            and_then (ncfg_proto_get_str doc object ''address'' True what) (\<lambda>address.
            checked doc object ''subject'' [''interface'', ''address''] what
              (no_subject\<lparr>sb_kind := SUBJECT_ADDRESS, sb_interface := interface, sb_address := address\<rparr>)))
        | Some SUBJECT_ROUTE \<Rightarrow>
            and_then (ncfg_proto_get_str doc object ''interface'' True what) (\<lambda>interface.
            and_then (ncfg_proto_get_str doc object ''destination'' True what) (\<lambda>destination.
            checked doc object ''subject'' [''interface'', ''destination''] what
              (no_subject\<lparr>sb_kind := SUBJECT_ROUTE, sb_interface := interface, sb_destination := destination\<rparr>)))))"

definition eap_members :: "string list" where
  "eap_members = [''method'', ''identity'', ''anonymous_identity'', ''phase2'', ''ca_cert'', ''client_cert'']"

definition decode_eap :: "json_doc \<Rightarrow> nat option \<Rightarrow> bytes + eap" where
  "decode_eap doc object =
     (let what = ''a `wifi_add` eap'' in
      if ncfg_json_type doc object \<noteq> TObject then Inl (ascii ''`eap` on this request is not an object'')
      else
        and_then (ncfg_proto_get_str doc object ''method'' True what) (\<lambda>method.
        and_then (ncfg_proto_get_str doc object ''identity'' True what) (\<lambda>identity.
        and_then (ncfg_proto_get_str doc object ''anonymous_identity'' False what) (\<lambda>anonymous.
        and_then (ncfg_proto_get_str doc object ''phase2'' False what) (\<lambda>phase2.
        and_then (ncfg_proto_get_str doc object ''ca_cert'' False what) (\<lambda>ca_cert.
        and_then (ncfg_proto_get_str doc object ''client_cert'' False what) (\<lambda>client_cert.
        checked doc object ''method'' eap_members what
          \<lparr>ep_method = method, ep_identity = identity, ep_anonymous_identity = anonymous, ep_phase2 = phase2,
           ep_ca_cert = ca_cert, ep_client_cert = client_cert\<rparr>)))))))"

definition this_request :: string where
  "this_request = ''this request''"

definition decode_apply :: "json_doc \<Rightarrow> nat option \<Rightarrow> bytes + apply_request" where
  "decode_apply doc object =
     and_then (ncfg_proto_get_int doc object ''confirm'' False this_request) (\<lambda>confirm.
     and_then (ncfg_proto_get_strs doc object ''allow_disruption'' False this_request) (\<lambda>disruption.
     and_then (ncfg_proto_get_strs doc object ''strand_credentials'' False this_request) (\<lambda>strand.
     and_then (ncfg_proto_get_strs doc object ''restart_wedged'' False this_request) (\<lambda>wedged.
     and_then (ncfg_proto_get_str doc object ''no_rollback'' False this_request) (\<lambda>rollback.
     Inr \<lparr>ap_confirm = confirm, ap_allow_disruption = disruption, ap_strand_credentials = strand,
          ap_restart_wedged = wedged, ap_no_rollback = rollback\<rparr>)))))"

definition decode_wifi_add :: "json_doc \<Rightarrow> nat option \<Rightarrow> bytes + wifi_add" where
  "decode_wifi_add doc object =
     and_then (ncfg_proto_get_str doc object ''ssid'' True this_request) (\<lambda>ssid.
     and_then (ncfg_proto_get_str doc object ''id'' False this_request) (\<lambda>i.
     and_then (ncfg_proto_get_str doc object ''passphrase'' False this_request) (\<lambda>passphrase.
     and_then (ncfg_proto_get_str doc object ''proto'' False this_request) (\<lambda>proto.
     and_then (ncfg_proto_get_bool doc object ''hidden'' False False this_request) (\<lambda>hidden.
     and_then (ncfg_proto_get_bool doc object ''owe'' False False this_request) (\<lambda>owe.
     and_then (ncfg_proto_get_int doc object ''metric'' False this_request) (\<lambda>metric.
     (let node = ncfg_json_member doc object (ascii ''eap'') in
      and_then (if present doc node
                then and_then (decode_eap doc node) (\<lambda>e. Inr (Some e)) else Inr None) (\<lambda>e.
      Inr \<lparr>wi_ssid = ssid, wi_id = i, wi_passphrase = passphrase, wi_proto = proto, wi_hidden = hidden,
           wi_metric = metric, wi_eap = e, wi_owe = owe\<rparr>)))))))))"

definition decode_put :: "json_doc \<Rightarrow> nat option \<Rightarrow> bytes + put" where
  "decode_put doc object =
     and_then (ncfg_proto_get_str doc object ''name'' True this_request) (\<lambda>name.
     and_then (ncfg_proto_get_str doc object ''text'' True this_request) (\<lambda>text'.
     and_then (ncfg_proto_get_bool doc object ''replace'' False False this_request) (\<lambda>replace.
     Inr \<lparr>pt_name = name, pt_text = text', pt_replace = replace\<rparr>)))"

definition decode_secret_put :: "json_doc \<Rightarrow> nat option \<Rightarrow> bytes + secret_put" where
  "decode_secret_put doc object =
     and_then (ncfg_proto_get_str doc object ''name'' True this_request) (\<lambda>name.
     and_then (ncfg_proto_get_str doc object ''value'' True this_request) (\<lambda>value'.
     and_then (ncfg_proto_get_bool doc object ''replace'' False False this_request) (\<lambda>replace.
     Inr \<lparr>sp_name = name, sp_value = value', sp_replace = replace\<rparr>)))"

definition decode_interface :: "json_doc \<Rightarrow> nat option \<Rightarrow> request \<Rightarrow> bytes + request" where
  "decode_interface doc object out =
     and_then (ncfg_proto_get_str doc object ''interface'' True this_request) (\<lambda>interface.
     Inr (out\<lparr>rq_interface := interface\<rparr>))"

definition decode_name :: "json_doc \<Rightarrow> nat option \<Rightarrow> bool \<Rightarrow> request \<Rightarrow> bytes + request" where
  "decode_name doc object required out =
     and_then (ncfg_proto_get_str doc object ''name'' required this_request) (\<lambda>name.
     Inr (out\<lparr>rq_name := name\<rparr>))"

definition decode_payload :: "json_doc \<Rightarrow> nat option \<Rightarrow> request_kind \<Rightarrow> request \<Rightarrow> bytes + request" where
  "decode_payload doc object kind out =
     (case kind of
        REQ_APPLY \<Rightarrow> and_then (decode_apply doc object) (\<lambda>a. Inr (out\<lparr>rq_apply := a\<rparr>))
      | REQ_EXPLAIN \<Rightarrow>
          (let node = ncfg_json_member doc object (ascii ''subject'') in
           if node = None then Inl (is_missing this_request ''subject'')
           else and_then (decode_subject doc node) (\<lambda>s. Inr (out\<lparr>rq_explain := s\<rparr>)))
      | REQ_WIFI_SCAN \<Rightarrow> decode_interface doc object out
      | REQ_WIFI_STATUS \<Rightarrow> decode_interface doc object out
      | REQ_WIFI_DISCONNECT \<Rightarrow> decode_interface doc object out
      | REQ_AP_STATIONS \<Rightarrow> decode_interface doc object out
      | REQ_WIFI_ADD \<Rightarrow> and_then (decode_wifi_add doc object) (\<lambda>w. Inr (out\<lparr>rq_wifi_add := w\<rparr>))
      | REQ_WIFI_CONNECT \<Rightarrow>
          and_then (ncfg_proto_get_str doc object ''interface'' True this_request) (\<lambda>interface.
          and_then (ncfg_proto_get_str doc object ''network'' True this_request) (\<lambda>network.
          Inr (out\<lparr>rq_wifi_connect := \<lparr>wc_interface = interface, wc_network = network\<rparr>\<rparr>)))
      | REQ_WIFI_FORGET \<Rightarrow>
          and_then (ncfg_proto_get_str doc object ''id'' True this_request) (\<lambda>i. Inr (out\<lparr>rq_id := i\<rparr>))
      | REQ_CONFIG_PUT \<Rightarrow> and_then (decode_put doc object) (\<lambda>p. Inr (out\<lparr>rq_put := p\<rparr>))
      | REQ_PROBE_PUT \<Rightarrow> and_then (decode_put doc object) (\<lambda>p. Inr (out\<lparr>rq_put := p\<rparr>))
      | REQ_SECRET_PUT \<Rightarrow> and_then (decode_secret_put doc object) (\<lambda>p. Inr (out\<lparr>rq_secret_put := p\<rparr>))
      | REQ_PROFILE_SET \<Rightarrow> decode_name doc object False out
      | REQ_CONFIG_DELETE \<Rightarrow> decode_name doc object True out
      | REQ_SECRET_DELETE \<Rightarrow> decode_name doc object True out
      | REQ_PROFILE_SAVE \<Rightarrow>
          and_then (ncfg_proto_get_str doc object ''name'' True this_request) (\<lambda>name.
          and_then (ncfg_proto_get_bool doc object ''replace'' False False this_request) (\<lambda>replace.
          Inr (out\<lparr>rq_profile_save := \<lparr>pv_name = name, pv_replace = replace\<rparr>\<rparr>)))
      | REQ_RADIO_SET \<Rightarrow>
          and_then (ncfg_proto_get_str doc object ''interface'' True this_request) (\<lambda>interface.
          and_then (ncfg_proto_get_bool doc object ''activate'' True False this_request) (\<lambda>activate.
          Inr (out\<lparr>rq_radio_set := \<lparr>rd_interface = interface, rd_activate = activate\<rparr>\<rparr>)))
      | _ \<Rightarrow> Inr out)"

definition ncfg_proto_decode_request :: "json_doc \<Rightarrow> nat option \<Rightarrow> bytes + request" where
  "ncfg_proto_decode_request doc object =
     and_then (ncfg_proto_get_str doc object ''request'' True this_request) (\<lambda>tag.
     case (case tag of None \<Rightarrow> None | Some tag \<Rightarrow> ncfg_proto_request_kind_from tag) of
       None \<Rightarrow> Inl (ascii ''`'' @ (case tag of Some tag \<Rightarrow> cstr tag | None \<Rightarrow> []) @
                  ascii ''` is not a request this speaks'')
     | Some kind \<Rightarrow>
         and_then (decode_payload doc object kind (no_request\<lparr>rq_kind := kind\<rparr>)) (\<lambda>out.
         checked doc object ''request'' (request_members kind) this_request out))"

subsection \<open>One line\<close>

datatype message_kind = MESSAGE_REQUEST | MESSAGE_RESPONSE | MESSAGE_EVENT

definition tag_of :: "json_doc \<Rightarrow> nat option \<Rightarrow> message_kind option" where
  "tag_of doc root =
     (if ncfg_json_member doc root (ascii ''request'') \<noteq> None then Some MESSAGE_REQUEST
      else if ncfg_json_member doc root (ascii ''response'') \<noteq> None then Some MESSAGE_RESPONSE
      else if ncfg_json_member doc root (ascii ''event'') \<noteq> None then Some MESSAGE_EVENT
      else None)"

text \<open>
  \<^verbatim>\<open>read_line\<close> as the daemon calls it, where only a request is accepted.
\<close>

definition ncfg_proto_request_read :: "bytes \<Rightarrow> bytes + request" where
  "ncfg_proto_request_read line =
     (case ncfg_json_parse line of
        Inl (why, at) \<Rightarrow> Inl (ascii why @ ascii '' at byte '' @ decimal at)
      | Inr doc \<Rightarrow>
          (let root = ncfg_json_root doc in
           if ncfg_json_type doc root \<noteq> TObject then Inl (ascii ''a message is a JSON object and this is not one'')
           else case tag_of doc root of
             None \<Rightarrow> Inl (ascii ''a message carries a `request`, a `response` or an `event` and this carries none'')
           | Some MESSAGE_RESPONSE \<Rightarrow> Inl (ascii ''a response arrived where one was not expected'')
           | Some MESSAGE_EVENT \<Rightarrow> Inl (ascii ''a event arrived where one was not expected'')
           | Some MESSAGE_REQUEST \<Rightarrow> ncfg_proto_decode_request doc root))"

end
