(* ===== verification/Ncfg_Request_Fields.thy ===== *)
theory Ncfg_Request_Fields
  imports Ncfg_Request Ncfg_Apply_Json
begin

text \<open>
  What a request is written as and what it is read as.  A request's arm is a list of named fields;
  the encoder writes the fields that are there, the decoder finds each by its name, and the two
  agree on every kind of request.
\<close>

subsection \<open>Members of a laid out object\<close>

definition object_at :: "json_doc \<Rightarrow> nat option \<Rightarrow> (bytes \<times> json) list \<Rightarrow> bool" where
  "object_at doc obj ms \<longleftrightarrow>
     (\<exists>i ofs key sibling. obj = Some i \<and> laid_out doc i ofs key sibling (JObject ms))"

lemma object_children:
  assumes "laid_out doc i ofs key sibling (JObject ms)"
  shows "ncfg_json_node doc (Some i) = Some (jd_nodes doc ! i)" "jn_type (jd_nodes doc ! i) = TObject"
    "jn_child_count (jd_nodes doc ! i) = length ms"
    "list_all2 (holds_value doc) (children doc (jd_nodes doc ! i)) (map (\<lambda>m. (Some (fst m), snd m)) ms)"
  using laid_out_node [OF assms] laid_out_members [OF laid_out_elems [OF assms]] children_roots [OF assms]
  by (auto simp: ncfg_json_node_def head_node_def)

lemma array_children:
  assumes "laid_out doc i ofs key sibling (JArray js)"
  shows "ncfg_json_node doc (Some i) = Some (jd_nodes doc ! i)" "jn_type (jd_nodes doc ! i) = TArray"
    "jn_child_count (jd_nodes doc ! i) = length js"
    "list_all2 (holds_value doc) (children doc (jd_nodes doc ! i)) (map (Pair None) js)"
  using laid_out_node [OF assms] laid_out_members [OF laid_out_elems [OF assms]] children_roots [OF assms]
  by (auto simp: ncfg_json_node_def head_node_def)

text \<open>The nodes of the members, in order, with the name each is found under.\<close>

definition named :: "json_doc \<Rightarrow> nat \<Rightarrow> bytes \<times> json \<Rightarrow> bool" where
  "named doc c m \<longleftrightarrow> holds_value doc c (Some (fst m), snd m) \<and>
     (\<exists>key. jn_key (jd_nodes doc ! c) = Some key \<and> snd key = length (fst m) \<and> piece doc key = fst m)"

lemma laid_out_named:
  "all_laid_out doc i ofs (map (\<lambda>m. (Some (fst m), snd m)) ms) \<Longrightarrow>
   list_all2 (named doc) (roots i (map (\<lambda>m. (Some (fst m), snd m)) ms)) ms"
proof (induction ms arbitrary: i ofs)
  case (Cons m ms)
  have "all_laid_out doc i ofs ((Some (fst m), snd m) # map (\<lambda>m. (Some (fst m), snd m)) ms)"
    using Cons.prems by simp
  note a = all_laid_out_Cons [OF this]
  have "jn_key (jd_nodes doc ! i) = Some (ofs, length (fst m))"
    using laid_out_node [OF a(1)] by (simp add: head_node_def)
  moreover have "holds_value doc i (Some (fst m), snd m)"
    using laid_out_members [OF Cons.prems] by simp
  ultimately have "named doc i m" using a(3) [of "fst m"] by (auto simp: named_def)
  with Cons.IH [OF a(2)] show ?case by simp
qed simp

lemma object_atD:
  assumes "object_at doc obj ms"
  obtains i cs where "obj = Some i" "ncfg_json_node doc obj = Some (jd_nodes doc ! i)"
    "jn_type (jd_nodes doc ! i) = TObject" "jn_child_count (jd_nodes doc ! i) = length ms"
    "children doc (jd_nodes doc ! i) = cs" "list_all2 (named doc) cs ms"
proof -
  from assms obtain i ofs key sibling where l: "obj = Some i" "laid_out doc i ofs key sibling (JObject ms)"
    by (auto simp: object_at_def)
  with object_children [OF l(2)] laid_out_named [of doc "Suc i" ofs ms] laid_out_elems [OF l(2)] children_roots [OF l(2)]
  show thesis by (intro that) auto
qed

definition goes_by :: "json_doc \<Rightarrow> bytes \<Rightarrow> nat \<Rightarrow> bool" where
  "goes_by doc name child =
     (case jn_key (jd_nodes doc ! child) of
        Some key \<Rightarrow> snd key = length name \<and> piece doc key = name
      | None \<Rightarrow> name = [])"

lemma goes_by_named: "named doc c m \<Longrightarrow> goes_by doc name c \<longleftrightarrow> name = fst m"
  by (auto simp: named_def goes_by_def)

lemma member_goes_by:
  assumes "ncfg_json_node doc obj = Some node" "jn_type node = TObject" "0 \<notin> set name"
  shows "ncfg_json_member doc obj name = find (goes_by doc name) (children doc node)"
proof -
  from assms(3) have "cstr name = name" by (rule cstr_id)
  then show ?thesis unfolding ncfg_json_member_def goes_by_def [abs_def] using assms(1,2) by (simp cong: option.case_cong)
qed

lemma find_named:
  "list_all2 (named doc) cs ms \<Longrightarrow>
   (case find (goes_by doc name) cs of
      None \<Rightarrow> map_of ms name = None
    | Some c \<Rightarrow> \<exists>j. map_of ms name = Some j \<and> holds_value doc c (Some name, j))"
proof (induction rule: list_all2_induct)
  case (Cons c cs m ms)
  from Cons.hyps(1) have "holds_value doc c (Some (fst m), snd m)" by (simp add: named_def)
  with Cons.IH goes_by_named [OF Cons.hyps(1)] show ?case by (cases m) (auto split: option.splits)
qed simp

lemma object_member:
  assumes "object_at doc obj ms" "0 \<notin> set name"
  shows "case ncfg_json_member doc obj name of
      None \<Rightarrow> map_of ms name = None
    | Some c \<Rightarrow> \<exists>j. map_of ms name = Some j \<and> holds_value doc c (Some name, j)"
proof -
  from assms(1) obtain i cs where o: "obj = Some i" "ncfg_json_node doc obj = Some (jd_nodes doc ! i)"
    "jn_type (jd_nodes doc ! i) = TObject" "children doc (jd_nodes doc ! i) = cs" "list_all2 (named doc) cs ms"
    by (rule object_atD)
  from find_named [OF o(5), of name] o(4) show ?thesis unfolding member_goes_by [OF o(2,3) assms(2)] by simp
qed

lemma find_named_nth:
  "list_all2 (named doc) cs ms \<Longrightarrow> distinct (map fst ms) \<Longrightarrow> k < length ms \<Longrightarrow>
   find (goes_by doc (fst (ms ! k))) cs = Some (cs ! k)"
proof (induction arbitrary: k rule: list_all2_induct)
  case (Cons c cs m ms)
  show ?case
  proof (cases k)
    case 0
    with goes_by_named [OF Cons.hyps(1)] show ?thesis by simp
  next
    case (Suc n)
    with Cons.prems have "fst (ms ! n) \<noteq> fst m" by (metis (no_types) distinct.simps(2) image_eqI length_Cons list.set_map list.simps(9) not_less_eq nth_mem)
    with goes_by_named [OF Cons.hyps(1)] Cons.prems Cons.IH [of n] Suc show ?thesis by simp
  qed
qed simp

lemma object_member_nth:
  assumes "object_at doc obj ms" "distinct (map fst ms)" "k < length ms" "0 \<notin> set (fst (ms ! k))"
  shows "ncfg_json_member doc obj (fst (ms ! k)) = ncfg_json_at doc obj k"
proof -
  from assms(1) obtain i cs where o: "obj = Some i" "ncfg_json_node doc obj = Some (jd_nodes doc ! i)"
    "jn_type (jd_nodes doc ! i) = TObject" "jn_child_count (jd_nodes doc ! i) = length ms"
    "children doc (jd_nodes doc ! i) = cs" "list_all2 (named doc) cs ms"
    by (rule object_atD)
  from find_named_nth [OF o(6) assms(2,3)] o assms(3) list_all2_lengthD [OF o(6)]
  show ?thesis unfolding member_goes_by [OF o(2,3) assms(4)] by (simp add: ncfg_json_at_def)
qed

lemma object_count: "object_at doc obj ms \<Longrightarrow> ncfg_json_count doc obj = length ms"
  by (erule object_atD) (simp add: ncfg_json_count_def)

lemma object_type: "object_at doc obj ms \<Longrightarrow> ncfg_json_type doc obj = TObject"
  by (erule object_atD) (simp add: ncfg_json_type_def)

subsection \<open>Fields\<close>

text \<open>What a member of a request holds.\<close>

datatype field_value =
    V_Text bytes
  | V_Int "64 word"
  | V_Bool bool
  | V_Texts "str list"
  | V_Object "(string \<times> str) list"

type_synonym fields = "(string \<times> field_value option) list"

definition text_members :: "(string \<times> str) list \<Rightarrow> (bytes \<times> json) list" where
  "text_members ts = concat (map (\<lambda>(name, s). if_present name s) ts)"

fun value_json :: "field_value \<Rightarrow> json" where
  "value_json (V_Text s) = JString s"
| "value_json (V_Int i) = JNumber (decimal_int (sint i))"
| "value_json (V_Bool v) = JBool v"
| "value_json (V_Texts ss) = JArray (map (\<lambda>s. JString (the s)) ss)"
| "value_json (V_Object ts) = JObject (text_members ts)"

definition field_members :: "fields \<Rightarrow> (bytes \<times> json) list" where
  "field_members fs =
     concat (map (\<lambda>(name, v). case v of None \<Rightarrow> [] | Some v \<Rightarrow> [(ascii name, value_json v)]) fs)"

text \<open>The strings JSON can carry.\<close>

definition sendable :: "str \<Rightarrow> bool" where
  "sendable s = (case s of None \<Rightarrow> True | Some s \<Rightarrow> json_utf8 s)"

fun value_ok :: "field_value \<Rightarrow> bool" where
  "value_ok (V_Text s) = json_utf8 s"
| "value_ok (V_Int i) = True"
| "value_ok (V_Bool v) = True"
| "value_ok (V_Texts ss) = list_all (\<lambda>s. s \<noteq> None \<and> sendable s) ss"
| "value_ok (V_Object ts) = list_all (\<lambda>(name, s). sendable s) ts"

definition fields_ok :: "fields \<Rightarrow> bool" where
  "fields_ok fs = list_all (\<lambda>(name, v). case v of None \<Rightarrow> True | Some v \<Rightarrow> value_ok v) fs"

subsubsection \<open>Written\<close>

definition text_calls :: "string \<Rightarrow> str \<Rightarrow> json_call list" where
  "text_calls name s = (case s of None \<Rightarrow> [] | Some s \<Rightarrow> [W_Key (Some (ascii name)), W_String_Bytes (Some s)])"

fun value_calls :: "field_value \<Rightarrow> json_call list" where
  "value_calls (V_Text s) = [W_String_Bytes (Some s)]"
| "value_calls (V_Int i) = [W_Int i]"
| "value_calls (V_Bool v) = [W_Bool v]"
| "value_calls (V_Texts ss) = [W_Array_Begin] @ map W_String_Bytes ss @ [W_Array_End]"
| "value_calls (V_Object ts) = [W_Object_Begin] @ concat (map (\<lambda>(name, s). text_calls name s) ts) @ [W_Object_End]"

definition field_calls :: "fields \<Rightarrow> json_call list" where
  "field_calls fs =
     concat (map (\<lambda>(name, v). case v of None \<Rightarrow> [] | Some v \<Rightarrow> W_Key (Some (ascii name)) # value_calls v) fs)"

text \<open>A member's name: not empty of meaning to a C string, and UTF-8.\<close>

abbreviation plain_name :: "string \<Rightarrow> bool" where
  "plain_name name \<equiv> plain_text (ascii name)"

lemma builds_strings:
  "builds (map W_String_Bytes ss @ cs) (Open_Array js # os, d) =
   (if value_ok (V_Texts ss) then builds cs (Open_Array (js @ map (\<lambda>s. JString (the s)) ss) # os, d) else None)"
proof (induction ss arbitrary: js)
  case (Cons s ss)
  then show ?case by (cases s) (simp_all add: sendable_def)
qed simp

lemma builds_texts:
  "list_all (\<lambda>(name, s). plain_name name) ts \<Longrightarrow>
   builds (concat (map (\<lambda>(name, s). text_calls name s) ts) @ cs) (Open_Object ms None # os, d) =
   (if value_ok (V_Object ts) then builds cs (Open_Object (ms @ text_members ts) None # os, d) else None)"
proof (induction ts arbitrary: ms)
  case (Cons t ts)
  then show ?case
    by (cases t; cases "snd t")
      (simp_all add: sendable_def text_calls_def text_members_def if_present_def del: ascii_simps)
qed (simp add: text_members_def)

definition plain_names_in :: "fields \<Rightarrow> bool" where
  "plain_names_in fs = list_all (\<lambda>(name, v). plain_name name \<and>
     (case v of Some (V_Object ts) \<Rightarrow> list_all (\<lambda>(name, s). plain_name name) ts | _ \<Rightarrow> True)) fs"

lemma builds_value:
  assumes "case v of V_Object ts \<Rightarrow> list_all (\<lambda>(name, s). plain_name name) ts | _ \<Rightarrow> True"
    "Suc (length os) < NCFG_JSON_MAX_DEPTH"
  shows "builds (value_calls v @ cs) (Open_Object ms (Some k) # os, d) =
    (if value_ok v then builds cs (Open_Object (ms @ [(k, value_json v)]) None # os, d) else None)"
  using assms by (cases v) (simp_all add: builds_strings builds_texts)

lemma builds_fields:
  assumes "plain_names_in fs" "Suc (length os) < NCFG_JSON_MAX_DEPTH"
  shows "builds (field_calls fs @ cs) (Open_Object ms None # os, d) =
    (if fields_ok fs then builds cs (Open_Object (ms @ field_members fs) None # os, d) else None)"
  using assms
proof (induction fs arbitrary: ms)
  case (Cons f fs)
  then show ?case
    by (cases f; cases "snd f")
      (simp_all add: plain_names_in_def fields_ok_def field_calls_def field_members_def builds_value del: ascii_simps)
qed (simp add: field_calls_def fields_ok_def field_members_def)

subsubsection \<open>Read\<close>

fun field :: "fields \<Rightarrow> string \<Rightarrow> field_value option" where
  "field [] name = None"
| "field ((n, v) # fs) name = (if n = name \<and> v \<noteq> None then v else field fs name)"

lemma ascii_inject [simp]: "ascii a = ascii b \<longleftrightarrow> a = b"
proof -
  have "unat (of_char c :: byte) = of_char c" for c :: char
    using unat_of_nat [of "of_char c :: nat", where ?'a = 8] nat_of_char_less_256 [of c]
    by (simp add: of_nat_of_char)
  then have "inj (of_char :: char \<Rightarrow> byte)" by (intro injI) (metis of_char_eq_iff)
  then show ?thesis by (simp add: ascii_def inj_map_eq_map)
qed

lemma map_of_fields: "map_of (field_members fs) (ascii name) = map_option value_json (field fs name)"
  by (induction fs name rule: field.induct) (auto simp: field_members_def split: option.splits)

definition text_fields :: "(string \<times> str) list \<Rightarrow> fields" where
  "text_fields ts = map (\<lambda>(name, s). (name, map_option V_Text s)) ts"

lemma text_members_fields: "text_members ts = field_members (text_fields ts)"
proof (induction ts)
  case (Cons t ts)
  then show ?case
    by (cases t; cases "snd t") (simp_all add: text_members_def field_members_def text_fields_def if_present_def)
qed (simp add: text_members_def field_members_def text_fields_def)

lemma holds_int: "holds_value doc c (k, JNumber (decimal_int (sint i))) \<Longrightarrow> ncfg_json_int doc (Some c) fallback = i"
proof -
  assume "holds_value doc c (k, JNumber (decimal_int (sint i)))"
  then obtain ofs key sibling where l: "laid_out doc c ofs key sibling (JNumber (decimal_int (sint i)))"
    by (auto simp: holds_value_def)
  then have "piece doc (ofs, length (decimal_int (sint i))) = decimal_int (sint i)"
    by (auto simp: laid_out_def piece_def slice_def)
  with laid_out_node [OF l] have "ncfg_json_int doc (Some c) fallback =
      (if - (2 ^ 63) \<le> sint i \<and> sint i < 2 ^ 63 then of_int (sint i) else fallback)"
    by (intro json_int_piece) (auto simp: ncfg_json_node_def head_node_def)
  with sint_greater_eq [of i] sint_less [of i] show ?thesis by simp
qed

lemma holds_bool: "holds_value doc c (k, JBool v) \<Longrightarrow> ncfg_json_bool doc (Some c) fallback = v"
  by (auto simp: holds_value_def ncfg_json_bool_def ncfg_json_node_def head_node_def dest: laid_out_node)

lemma field_member:
  assumes "object_at doc obj (field_members fs)" "plain_name name"
  shows "case ncfg_json_member doc obj (ascii name) of
      None \<Rightarrow> field fs name = None
    | Some c \<Rightarrow> \<exists>v. field fs name = Some v \<and> holds_value doc c (Some (ascii name), value_json v)"
  using object_member [OF assms(1), of "ascii name"] assms(2) unfolding map_of_fields
  by (auto simp: plain_text_def split: option.splits)

lemma value_kind: "json_kind (value_json v) \<noteq> TNull"
  by (cases v) simp_all

lemma get_str_field:
  assumes "object_at doc obj (field_members fs)" "plain_name name"
  shows "ncfg_proto_get_str doc obj name required what =
    (case field fs name of
       None \<Rightarrow> if required then Inl (is_missing what name) else Inr None
     | Some (V_Text s) \<Rightarrow> Inr (Some s)
     | Some _ \<Rightarrow> Inl (is_not name what '' is not a string''))"
proof (cases "ncfg_json_member doc obj (ascii name)")
  case None
  with field_member [OF assms] show ?thesis by (simp add: ncfg_proto_get_str_def present_def)
next
  case (Some c)
  with field_member [OF assms] obtain v where v: "field fs name = Some v"
    "holds_value doc c (Some (ascii name), value_json v)" by auto
  with Some holds_value_node [OF v(2)] show ?thesis
    by (cases v) (auto simp: ncfg_proto_get_str_def present_def ncfg_json_string_def [of doc "Some c"] dest: holds_string)
qed

lemma get_bool_field:
  assumes "object_at doc obj (field_members fs)" "plain_name name"
  shows "ncfg_proto_get_bool doc obj name required fallback what =
    (case field fs name of
       None \<Rightarrow> if required then Inl (is_missing what name) else Inr fallback
     | Some (V_Bool v) \<Rightarrow> Inr v
     | Some _ \<Rightarrow> Inl (is_not name what '' is not true or false''))"
proof (cases "ncfg_json_member doc obj (ascii name)")
  case None
  with field_member [OF assms] show ?thesis by (simp add: ncfg_proto_get_bool_def present_def)
next
  case (Some c)
  with field_member [OF assms] obtain v where v: "field fs name = Some v"
    "holds_value doc c (Some (ascii name), value_json v)" by auto
  with Some holds_value_node [OF v(2)] show ?thesis
    by (cases v) (auto simp: ncfg_proto_get_bool_def present_def dest: holds_bool)
qed

lemma get_int_field:
  assumes "object_at doc obj (field_members fs)" "plain_name name"
  shows "ncfg_proto_get_int doc obj name required what =
    (case field fs name of
       None \<Rightarrow> if required then Inl (is_missing what name) else Inr None
     | Some (V_Int i) \<Rightarrow> Inr (Some i)
     | Some _ \<Rightarrow> Inl (is_not name what '' is not a number''))"
proof (cases "ncfg_json_member doc obj (ascii name)")
  case None
  with field_member [OF assms] show ?thesis by (simp add: ncfg_proto_get_int_def present_def)
next
  case (Some c)
  with field_member [OF assms] obtain v where v: "field fs name = Some v"
    "holds_value doc c (Some (ascii name), value_json v)" by auto
  with Some holds_value_node [OF v(2)] show ?thesis
    by (cases v) (auto simp: ncfg_proto_get_int_def present_def holds_int)
qed

lemma object_field:
  assumes "object_at doc obj (field_members fs)" "plain_name name"
  shows "case field fs name of
      None \<Rightarrow> ncfg_json_member doc obj (ascii name) = None
    | Some (V_Object ts) \<Rightarrow> present doc (ncfg_json_member doc obj (ascii name)) \<and>
        object_at doc (ncfg_json_member doc obj (ascii name)) (field_members (text_fields ts))
    | _ \<Rightarrow> True"
proof (cases "ncfg_json_member doc obj (ascii name)")
  case None
  with field_member [OF assms] show ?thesis by simp
next
  case (Some c)
  with field_member [OF assms] obtain v where v: "field fs name = Some v"
    "holds_value doc c (Some (ascii name), value_json v)" by auto
  with Some holds_value_node [OF v(2)] show ?thesis
    by (cases v) (auto simp: present_def object_at_def holds_value_def text_members_fields)
qed

lemma strs_at_items:
  assumes "\<And>k. k \<in> set ks \<Longrightarrow> ncfg_json_string doc (ncfg_json_at doc array k) = Some (f k)"
  shows "strs_at doc array name what ks = Inr (map (\<lambda>k. Some (f k)) ks)"
  using assms by (induction ks) simp_all

lemma array_strs:
  assumes "laid_out doc c ofs key sibling (JArray (map JString ss))"
  shows "strs_at doc (Some c) name what [0..<ncfg_json_count doc (Some c)] = Inr (map Some ss)"
proof -
  note a = array_children [OF assms]
  have len: "length (children doc (jd_nodes doc ! c)) = length ss" using list_all2_lengthD [OF a(4)] by simp
  have "ncfg_json_string doc (ncfg_json_at doc (Some c) k) = Some (ss ! k)" if "k < length ss" for k
  proof -
    from list_all2_nthD [OF a(4), of k] len that
    have "holds_value doc (children doc (jd_nodes doc ! c) ! k) (None, JString (ss ! k))" by simp
    then show ?thesis using a(1,2) len that by (simp add: ncfg_json_at_def holds_string)
  qed
  then have "strs_at doc (Some c) name what [0..<length ss] = Inr (map (\<lambda>k. Some (ss ! k)) [0..<length ss])"
    by (intro strs_at_items) simp
  also have "map (\<lambda>k. Some (ss ! k)) [0..<length ss] = map Some ss" by (intro nth_equalityI) simp_all
  finally show ?thesis using a(1,3) by (simp add: ncfg_json_count_def)
qed

lemma get_strs_field:
  assumes "object_at doc obj (field_members fs)" "plain_name name"
    "field fs name = Some (V_Texts ss)" "value_ok (V_Texts ss)"
  shows "ncfg_proto_get_strs doc obj name required what = Inr ss"
proof -
  from assms(4) have ss: "map Some (map the ss) = ss"
    by (induction ss) (auto simp: list_all_iff)
  from field_member [OF assms(1,2)] assms(3) obtain c where
    c: "ncfg_json_member doc obj (ascii name) = Some c" "holds_value doc c (Some (ascii name), value_json (V_Texts ss))"
    by (auto split: option.splits)
  then obtain ofs key sibling where l: "laid_out doc c ofs key sibling (JArray (map JString (map the ss)))"
    by (auto simp: holds_value_def comp_def)
  from array_strs [OF l, of name what] c holds_value_node [OF c(2)] ss show ?thesis
    by (simp add: ncfg_proto_get_strs_def ncfg_proto_get_array_def present_def Let_def)
qed

lemma check_members_known:
  assumes "\<And>at. at \<in> set ats \<Longrightarrow> member_known doc obj (known # allowed) (ncfg_json_at doc obj at)"
  shows "check_members_at doc obj known allowed what ats = None"
  using assms by (induction ats) (simp_all add: Let_def split: option.split)

lemma field_names:
  "distinct (map fst fs) \<Longrightarrow> distinct (map fst (field_members fs))"
  "m \<in> set (field_members fs) \<Longrightarrow> \<exists>name \<in> set (map fst fs). fst m = ascii name"
  by (induction fs) (force simp: field_members_def split: option.splits)+

lemma checked_fields:
  assumes "object_at doc obj (field_members fs)" "distinct (map fst fs)"
    "set (map fst fs) \<subseteq> set (known # allowed)" "list_all plain_name (known # allowed)"
  shows "checked doc obj known allowed what out = Inr out"
proof -
  have "member_known doc obj (known # allowed) (ncfg_json_at doc obj at)"
    if "at < length (field_members fs)" for at
  proof -
    from field_names(2) [of "field_members fs ! at" fs] that assms(3) obtain name where
      n: "name \<in> set (known # allowed)" "fst (field_members fs ! at) = ascii name" by auto
    with assms(4) have "0 \<notin> set (fst (field_members fs ! at))" by (auto simp: list_all_iff plain_text_def)
    from object_member_nth [OF assms(1) field_names(1) [OF assms(2)] that this] n show ?thesis
      unfolding member_known_def list_ex_iff by auto
  qed
  then have "ncfg_proto_check_members doc obj known allowed what = None"
    unfolding ncfg_proto_check_members_def object_count [OF assms(1)] by (intro check_members_known) simp
  then show ?thesis by (simp add: checked_def)
qed

subsection \<open>The fields of a request\<close>

abbreviation a_text :: "string \<Rightarrow> str \<Rightarrow> string \<times> field_value option" where
  "a_text name s \<equiv> (name, map_option V_Text s)"

abbreviation a_flag :: "string \<Rightarrow> bool \<Rightarrow> string \<times> field_value option" where
  "a_flag name flag \<equiv> (name, if flag then Some (V_Bool True) else None)"

definition subject_texts :: "subject \<Rightarrow> (string \<times> str) list" where
  "subject_texts s =
     (''subject'', Some (ascii (subject_names (sb_kind s)))) #
     (case sb_kind s of
        SUBJECT_INTERFACE \<Rightarrow> [(''name'', sb_name s)]
      | SUBJECT_ADDRESS \<Rightarrow> [(''interface'', sb_interface s), (''address'', sb_address s)]
      | SUBJECT_ROUTE \<Rightarrow> [(''interface'', sb_interface s), (''destination'', sb_destination s)])"

definition eap_texts :: "eap \<Rightarrow> (string \<times> str) list" where
  "eap_texts e =
     [(''method'', ep_method e), (''identity'', ep_identity e), (''anonymous_identity'', ep_anonymous_identity e),
      (''phase2'', ep_phase2 e), (''ca_cert'', ep_ca_cert e), (''client_cert'', ep_client_cert e)]"

definition payload_fields :: "request \<Rightarrow> fields" where
  "payload_fields r =
     (case rq_kind r of
        REQ_APPLY \<Rightarrow>
          [(''confirm'', map_option V_Int (ap_confirm (rq_apply r))),
           (''allow_disruption'', Some (V_Texts (ap_allow_disruption (rq_apply r)))),
           (''strand_credentials'', Some (V_Texts (ap_strand_credentials (rq_apply r)))),
           (''restart_wedged'', Some (V_Texts (ap_restart_wedged (rq_apply r)))),
           a_text ''no_rollback'' (ap_no_rollback (rq_apply r))]
      | REQ_EXPLAIN \<Rightarrow> [(''subject'', Some (V_Object (subject_texts (rq_explain r))))]
      | REQ_WIFI_SCAN \<Rightarrow> [a_text ''interface'' (rq_interface r)]
      | REQ_WIFI_STATUS \<Rightarrow> [a_text ''interface'' (rq_interface r)]
      | REQ_WIFI_DISCONNECT \<Rightarrow> [a_text ''interface'' (rq_interface r)]
      | REQ_AP_STATIONS \<Rightarrow> [a_text ''interface'' (rq_interface r)]
      | REQ_WIFI_ADD \<Rightarrow>
          [a_text ''ssid'' (wi_ssid (rq_wifi_add r)), a_text ''id'' (wi_id (rq_wifi_add r)),
           a_text ''passphrase'' (wi_passphrase (rq_wifi_add r)), a_text ''proto'' (wi_proto (rq_wifi_add r)),
           a_flag ''hidden'' (wi_hidden (rq_wifi_add r)),
           (''metric'', map_option V_Int (wi_metric (rq_wifi_add r))),
           (''eap'', map_option (\<lambda>e. V_Object (eap_texts e)) (wi_eap (rq_wifi_add r))),
           a_flag ''owe'' (wi_owe (rq_wifi_add r))]
      | REQ_WIFI_CONNECT \<Rightarrow>
          [a_text ''interface'' (wc_interface (rq_wifi_connect r)),
           a_text ''network'' (wc_network (rq_wifi_connect r))]
      | REQ_WIFI_FORGET \<Rightarrow> [a_text ''id'' (rq_id r)]
      | REQ_CONFIG_PUT \<Rightarrow>
          [a_text ''name'' (pt_name (rq_put r)), a_text ''text'' (pt_text (rq_put r)),
           a_flag ''replace'' (pt_replace (rq_put r))]
      | REQ_PROBE_PUT \<Rightarrow>
          [a_text ''name'' (pt_name (rq_put r)), a_text ''text'' (pt_text (rq_put r)),
           a_flag ''replace'' (pt_replace (rq_put r))]
      | REQ_SECRET_PUT \<Rightarrow>
          [a_text ''name'' (sp_name (rq_secret_put r)), a_text ''value'' (sp_value (rq_secret_put r)),
           a_flag ''replace'' (sp_replace (rq_secret_put r))]
      | REQ_PROFILE_SET \<Rightarrow> [a_text ''name'' (rq_name r)]
      | REQ_CONFIG_DELETE \<Rightarrow> [a_text ''name'' (rq_name r)]
      | REQ_SECRET_DELETE \<Rightarrow> [a_text ''name'' (rq_name r)]
      | REQ_PROFILE_SAVE \<Rightarrow>
          [a_text ''name'' (pv_name (rq_profile_save r)), a_flag ''replace'' (pv_replace (rq_profile_save r))]
      | REQ_RADIO_SET \<Rightarrow>
          [a_text ''interface'' (rd_interface (rq_radio_set r)),
           (''activate'', Some (V_Bool (rd_activate (rq_radio_set r))))]
      | _ \<Rightarrow> [])"

text \<open>Nothing a kind needs is absent.\<close>

definition subject_complete :: "subject \<Rightarrow> bool" where
  "subject_complete s = list_all (\<lambda>(name, s). s \<noteq> None) (subject_texts s)"

definition wifi_complete :: "wifi_add \<Rightarrow> bool" where
  "wifi_complete w \<longleftrightarrow> wi_ssid w \<noteq> None \<and>
     (case wi_eap w of None \<Rightarrow> True | Some e \<Rightarrow> ep_method e \<noteq> None \<and> ep_identity e \<noteq> None)"

definition complete :: "request \<Rightarrow> bool" where
  "complete r =
     (case rq_kind r of
        REQ_EXPLAIN \<Rightarrow> subject_complete (rq_explain r)
      | REQ_WIFI_SCAN \<Rightarrow> rq_interface r \<noteq> None
      | REQ_WIFI_STATUS \<Rightarrow> rq_interface r \<noteq> None
      | REQ_WIFI_DISCONNECT \<Rightarrow> rq_interface r \<noteq> None
      | REQ_AP_STATIONS \<Rightarrow> rq_interface r \<noteq> None
      | REQ_WIFI_ADD \<Rightarrow> wifi_complete (rq_wifi_add r)
      | REQ_WIFI_CONNECT \<Rightarrow> wc_interface (rq_wifi_connect r) \<noteq> None \<and> wc_network (rq_wifi_connect r) \<noteq> None
      | REQ_WIFI_FORGET \<Rightarrow> rq_id r \<noteq> None
      | REQ_CONFIG_PUT \<Rightarrow> pt_name (rq_put r) \<noteq> None \<and> pt_text (rq_put r) \<noteq> None
      | REQ_PROBE_PUT \<Rightarrow> pt_name (rq_put r) \<noteq> None \<and> pt_text (rq_put r) \<noteq> None
      | REQ_SECRET_PUT \<Rightarrow> sp_name (rq_secret_put r) \<noteq> None \<and> sp_value (rq_secret_put r) \<noteq> None
      | REQ_CONFIG_DELETE \<Rightarrow> rq_name r \<noteq> None
      | REQ_SECRET_DELETE \<Rightarrow> rq_name r \<noteq> None
      | REQ_PROFILE_SAVE \<Rightarrow> pv_name (rq_profile_save r) \<noteq> None
      | REQ_RADIO_SET \<Rightarrow> rd_interface (rq_radio_set r) \<noteq> None
      | _ \<Rightarrow> True)"

text \<open>A request with everything its kind does not use taken out.\<close>

definition own_subject :: "subject \<Rightarrow> subject" where
  "own_subject s =
     (case sb_kind s of
        SUBJECT_INTERFACE \<Rightarrow> no_subject\<lparr>sb_name := sb_name s\<rparr>
      | SUBJECT_ADDRESS \<Rightarrow>
          no_subject\<lparr>sb_kind := SUBJECT_ADDRESS, sb_interface := sb_interface s, sb_address := sb_address s\<rparr>
      | SUBJECT_ROUTE \<Rightarrow>
          no_subject\<lparr>sb_kind := SUBJECT_ROUTE, sb_interface := sb_interface s, sb_destination := sb_destination s\<rparr>)"

definition own_arm :: "request \<Rightarrow> request" where
  "own_arm r =
     (let r0 = no_request\<lparr>rq_kind := rq_kind r\<rparr> in
      case rq_kind r of
        REQ_APPLY \<Rightarrow> r0\<lparr>rq_apply := rq_apply r\<rparr>
      | REQ_EXPLAIN \<Rightarrow> r0\<lparr>rq_explain := own_subject (rq_explain r)\<rparr>
      | REQ_WIFI_SCAN \<Rightarrow> r0\<lparr>rq_interface := rq_interface r\<rparr>
      | REQ_WIFI_STATUS \<Rightarrow> r0\<lparr>rq_interface := rq_interface r\<rparr>
      | REQ_WIFI_DISCONNECT \<Rightarrow> r0\<lparr>rq_interface := rq_interface r\<rparr>
      | REQ_AP_STATIONS \<Rightarrow> r0\<lparr>rq_interface := rq_interface r\<rparr>
      | REQ_WIFI_ADD \<Rightarrow> r0\<lparr>rq_wifi_add := rq_wifi_add r\<rparr>
      | REQ_WIFI_CONNECT \<Rightarrow> r0\<lparr>rq_wifi_connect := rq_wifi_connect r\<rparr>
      | REQ_WIFI_FORGET \<Rightarrow> r0\<lparr>rq_id := rq_id r\<rparr>
      | REQ_CONFIG_PUT \<Rightarrow> r0\<lparr>rq_put := rq_put r\<rparr>
      | REQ_PROBE_PUT \<Rightarrow> r0\<lparr>rq_put := rq_put r\<rparr>
      | REQ_SECRET_PUT \<Rightarrow> r0\<lparr>rq_secret_put := rq_secret_put r\<rparr>
      | REQ_PROFILE_SET \<Rightarrow> r0\<lparr>rq_name := rq_name r\<rparr>
      | REQ_CONFIG_DELETE \<Rightarrow> r0\<lparr>rq_name := rq_name r\<rparr>
      | REQ_SECRET_DELETE \<Rightarrow> r0\<lparr>rq_name := rq_name r\<rparr>
      | REQ_PROFILE_SAVE \<Rightarrow> r0\<lparr>rq_profile_save := rq_profile_save r\<rparr>
      | REQ_RADIO_SET \<Rightarrow> r0\<lparr>rq_radio_set := rq_radio_set r\<rparr>
      | _ \<Rightarrow> r0)"

subsubsection \<open>The encoder writes the fields\<close>

lemma member_str_calls: "s \<noteq> None \<Longrightarrow> member_str w name s = foldl write_call w (field_calls [a_text name s])"
  by (auto simp: member_str_def field_calls_def)

lemma member_str_if_calls: "member_str_if w name s = foldl write_call w (field_calls [a_text name s])"
  by (cases s) (simp_all add: member_str_if_def member_str_def field_calls_def)

lemma member_flag_if_calls: "member_flag_if w name flag = foldl write_call w (field_calls [a_flag name flag])"
  by (simp add: member_flag_if_def ncfg_json_write_member_bool_def field_calls_def)

lemma member_int_if_calls: "member_int_if w name v = foldl write_call w (field_calls [(name, map_option V_Int v)])"
  by (cases v) (simp_all add: member_int_if_def ncfg_json_write_member_int_def field_calls_def)

lemma member_strs_calls: "member_strs w name ss = foldl write_call w (field_calls [(name, Some (V_Texts ss))])"
proof -
  have "foldl ncfg_json_write_string_bytes w ss = foldl write_call w (map W_String_Bytes ss)" for w
    by (induction ss arbitrary: w) simp_all
  then show ?thesis by (simp add: member_strs_def field_calls_def)
qed

lemma field_calls_Cons: "field_calls (f # fs) = field_calls [f] @ field_calls fs"
  by (simp add: field_calls_def)

lemma field_calls_Nil: "field_calls [] = []"
  by (simp add: field_calls_def)

lemmas member_calls = member_str_if_calls member_flag_if_calls member_int_if_calls member_strs_calls

lemma encode_required_calls:
  "encode_required kind ts w =
   (if list_all (\<lambda>(name, s). s \<noteq> None) ts
    then (None, foldl write_call w (field_calls (text_fields ts)))
    else (Some (missing kind (fst (hd (filter (\<lambda>(name, s). s = None) ts)))), w))"
proof (cases "list_all (\<lambda>(name, s). s \<noteq> None) ts")
  case True
  have "foldl (\<lambda>w (name, s). member_str w name s) w ts = foldl write_call w (field_calls (text_fields ts))"
    using True
  proof (induction ts arbitrary: w)
    case (Cons m ms)
    then show ?case
      by (cases m) (auto simp: text_fields_def field_calls_Cons [of _ "map _ _"] member_str_calls)
  qed (simp add: text_fields_def field_calls_Nil)
  moreover from True have "find (\<lambda>(name, s). s = None) ts = None"
    by (auto simp: find_None_iff list_all_iff)
  ultimately show ?thesis using True by (simp add: encode_required_def)
next
  case False
  then have "find (\<lambda>(name, s). s = None) ts = Some (hd (filter (\<lambda>(name, s). s = None) ts))"
    by (induction ts) (auto split: if_splits)
  with False show ?thesis by (simp add: encode_required_def case_prod_beta)
qed

lemma encode_subject_calls:
  "fst (encode_subject s w) = None \<longleftrightarrow> subject_complete s"
  "subject_complete s \<Longrightarrow> snd (encode_subject s (ncfg_json_write_key w (Some (ascii ''subject'')))) =
    foldl write_call w ([W_Key (Some (ascii ''subject'')), W_Object_Begin,
      W_Key (Some (ascii ''subject'')), W_String (Some (ascii (subject_names (sb_kind s))))] @
      field_calls (tl (text_fields (subject_texts s))) @ [W_Object_End])"
  by (cases "sb_kind s"; auto simp: encode_subject_def subject_complete_def subject_texts_def Let_def text_fields_def
      ncfg_json_write_member_string_def member_str_calls field_calls_Cons [of _ "[_]"] simp del: ascii_simps)+

text \<open>The calls the encoder makes, where nothing is missing.\<close>

definition payload_calls :: "request \<Rightarrow> json_call list" where
  "payload_calls r =
     (if rq_kind r = REQ_EXPLAIN then
        [W_Key (Some (ascii ''subject'')), W_Object_Begin,
         W_Key (Some (ascii ''subject'')), W_String (Some (ascii (subject_names (sb_kind (rq_explain r)))))] @
        field_calls (tl (text_fields (subject_texts (rq_explain r)))) @ [W_Object_End]
      else field_calls (payload_fields r))"

lemma member_text_calls:
  "member_str_if w name s = foldl write_call w (text_calls name s)"
  "s \<noteq> None \<Longrightarrow> member_str w name s = foldl write_call w (text_calls name s)"
  by (auto simp: member_str_if_def member_str_def text_calls_def)

lemma encode_eap_calls:
  "ep_method e \<noteq> None \<Longrightarrow> ep_identity e \<noteq> None \<Longrightarrow>
   encode_eap e w = foldl write_call w (field_calls [(''eap'', Some (V_Object (eap_texts e)))])"
  by (simp add: encode_eap_def eap_texts_def Let_def member_text_calls field_calls_def del: ascii_simps)

lemma encode_wifi_add_calls:
  "fst (encode_wifi_add kind w writer) = None \<longleftrightarrow> wifi_complete w"
  "wifi_complete w \<Longrightarrow> snd (encode_wifi_add kind w writer) = foldl write_call writer (field_calls
     [a_text ''ssid'' (wi_ssid w), a_text ''id'' (wi_id w), a_text ''passphrase'' (wi_passphrase w),
      a_text ''proto'' (wi_proto w), a_flag ''hidden'' (wi_hidden w), (''metric'', map_option V_Int (wi_metric w)),
      (''eap'', map_option (\<lambda>e. V_Object (eap_texts e)) (wi_eap w)), a_flag ''owe'' (wi_owe w)])"
  by (auto simp: wifi_complete_def encode_wifi_add_def Let_def member_str_calls member_calls encode_eap_calls
      field_calls_Cons [of _ "_ # _"] field_calls_def [of "[(_, None)]"] simp del: ascii_simps split: option.splits)

lemma encode_payload_none: "fst (encode_payload r w) = None \<longleftrightarrow> complete r"
  by (cases "rq_kind r")
    (auto simp: encode_payload_def complete_def encode_apply_def encode_required_calls encode_subject_calls
      encode_wifi_add_calls encode_flagged_def encode_put_def encode_radio_set_def Let_def
      simp del: ascii_simps split: prod.splits if_splits)

lemma encode_payload_calls:
  "complete r \<Longrightarrow> snd (encode_payload r w) = foldl write_call w (payload_calls r)"
  by (cases "rq_kind r")
    (simp_all add: encode_payload_def payload_calls_def complete_def payload_fields_def encode_apply_def
      encode_required_calls encode_subject_calls encode_wifi_add_calls encode_flagged_def
      encode_put_def encode_radio_set_def Let_def member_calls text_fields_def field_calls_Cons [of _ "_ # _"]
      field_calls_Nil ncfg_json_write_member_bool_def field_calls_def [of "[(_, Some (V_Bool _))]"]
      del: ascii_simps)

subsubsection \<open>What is built\<close>

lemma plain_request_names: "plain_name (request_names kind)"
  by (cases kind) (simp_all add: plain_text_def json_utf8_ascii)

lemma plain_request_members: "list_all plain_name (request_members kind)"
  by (cases kind) (simp_all add: plain_text_def json_utf8_ascii)

lemma plain_subject_names: "plain_name (subject_names kind)"
  by (cases kind) (simp_all add: plain_text_def json_utf8_ascii)

lemma plain_proto [simp]:
  "plain_name ''request''" "plain_name ''subject''" "plain_name ''eap''" "plain_name ''address''"
  "plain_name ''destination''" "plain_name ''name''"
  by (simp_all add: plain_text_def json_utf8_ascii)

lemma plain_subject: "list_all (\<lambda>(name, s). plain_name name) (subject_texts s)"
  by (cases "sb_kind s") (simp_all add: subject_texts_def plain_text_def json_utf8_ascii)

lemma plain_eap: "list_all (\<lambda>(name, s). plain_name name) (eap_texts e)"
  by (simp add: eap_texts_def plain_text_def json_utf8_ascii)

lemma plain_payload: "plain_names_in (payload_fields r)"
  by (cases "rq_kind r")
    (simp_all add: plain_names_in_def payload_fields_def plain_subject plain_eap plain_text_def [of "_ # _"]
      json_utf8_ascii split: option.split)

lemma builds_subject:
  assumes "rq_kind r = REQ_EXPLAIN"
  shows "builds (payload_calls r @ cs) (Open_Object ms None # [], d) = builds (field_calls (payload_fields r) @ cs) (Open_Object ms None # [], d)"
proof -
  let ?s = "rq_explain r"
  obtain rest where ts: "subject_texts ?s = (''subject'', Some (ascii (subject_names (sb_kind ?s)))) # rest"
    by (simp add: subject_texts_def)
  have "field_calls (text_fields rest) = concat (map (\<lambda>(name, s). text_calls name s) rest)"
    by (induction rest) (auto simp: text_fields_def field_calls_def text_calls_def split: option.split)
  with assms ts plain_subject_names [of "sb_kind ?s"] show ?thesis
    by (simp add: payload_calls_def payload_fields_def field_calls_def [of "[_]"] text_fields_def [of "_ # _"]
        text_fields_def [symmetric] text_calls_def [of "''subject''"] del: ascii_simps)
qed

lemma builds_payload:
  "builds (payload_calls r @ cs) (Open_Object ms None # [], d) =
   (if fields_ok (payload_fields r) then builds cs (Open_Object (ms @ field_members (payload_fields r)) None # [], d)
    else None)"
  using builds_fields [OF plain_payload, of "[]" r cs ms d] builds_subject [of r cs ms d]
  by (cases "rq_kind r = REQ_EXPLAIN") (simp_all add: payload_calls_def NCFG_JSON_MAX_DEPTH_def)

definition request_fields :: "request \<Rightarrow> fields" where
  "request_fields r = (''request'', Some (V_Text (ascii (request_names (rq_kind r))))) # payload_fields r"

definition request_json :: "request \<Rightarrow> json" where
  "request_json r = JObject (field_members (request_fields r))"

definition request_calls :: "request \<Rightarrow> json_call list" where
  "request_calls r =
     [W_Object_Begin, W_Key (Some (ascii ''request'')), W_String (Some (ascii (request_names (rq_kind r))))] @
     payload_calls r @ [W_Object_End]"

lemma builds_request:
  "builds (request_calls r) ([], None) =
   (if fields_ok (payload_fields r) then Some ([], Some (request_json r)) else None)"
  using plain_request_names [of "rq_kind r"]
  by (simp add: request_calls_def builds_payload request_json_def request_fields_def NCFG_JSON_MAX_DEPTH_def
      field_members_def del: ascii_simps)

end
