(* ===== verification/Ncfg_Parse_Props.thy ===== *)
theory Ncfg_Parse_Props
  imports Ncfg_Parse
begin

text \<open>
  What the parser keeps.  \<open>parser_inv t\<close> says that the parser reads the text \<open>t\<close>, that its cursor's
  line and column are those of its position, that the buffered token and every stored diagnostic
  point into \<open>t\<close>, and that the stored diagnostics are the first \<open>NCFG_DIAGS_MAX\<close> of all that were
  found.  \<open>follows p p'\<close> says that \<open>p'\<close> comes after \<open>p\<close>: no more left to read, the same depth, no
  diagnostic lost, the invariant kept.  Every operation is shown to lead from a state to one that
  follows it; the totality of the parser, the bound on its nesting and the shape of its answer rest
  on that.
\<close>

definition diags_ok :: "bytes \<Rightarrow> diags \<Rightarrow> bool" where
  "diags_ok t d \<longleftrightarrow> length (diags_at d) = min (diags_total d) NCFG_DIAGS_MAX \<and>
     (\<forall>x \<in> set (diags_at d). span_ok t (diag_span x))"

definition parser_inv :: "bytes \<Rightarrow> parser \<Rightarrow> bool" where
  "parser_inv t p \<longleftrightarrow> ltext (plexer p) = t \<and> lexer_ok (plexer p) \<and>
     pdepth p \<le> NCFG_MAX_NESTING_DEPTH \<and>
     (\<forall>tok. plookahead p = Some tok \<longrightarrow> span_ok t (tspan tok)) \<and> diags_ok t (pdiags p)"

definition follows :: "parser \<Rightarrow> parser \<Rightarrow> bool" where
  "follows p p' \<longleftrightarrow> pweight p' \<le> pweight p \<and> pdepth p' = pdepth p \<and>
     diags_total (pdiags p) \<le> diags_total (pdiags p') \<and>
     (\<exists>new. diags_at (pdiags p') = diags_at (pdiags p) @ new) \<and>
     (\<forall>t. parser_inv t p \<longrightarrow> parser_inv t p')"

lemma follows_refl [simp, intro]: "follows p p"
  by (simp add: follows_def)

lemma follows_trans [trans]: "follows p q \<Longrightarrow> follows q r \<Longrightarrow> follows p r"
  by (fastforce simp: follows_def)

lemma follows_invD: "follows p p' \<Longrightarrow> parser_inv t p \<Longrightarrow> parser_inv t p'"
  and follows_depthD: "follows p p' \<Longrightarrow> pdepth p' = pdepth p"
  and follows_weightD: "follows p p' \<Longrightarrow> pweight p' \<le> pweight p"
  and follows_totalD: "follows p p' \<Longrightarrow> diags_total (pdiags p) \<le> diags_total (pdiags p')"
  by (auto simp: follows_def)

lemma store_diag_follows:
  assumes "follows p q" "\<And>t. parser_inv t p \<Longrightarrow> span_ok t s"
  shows "follows p (store_diag q s m)"
proof -
  have "diags_ok t (pdiags (store_diag q s m))" if "diags_ok t (pdiags q)" "span_ok t s" for t
    using that by (auto simp: diags_ok_def store_diag_def Let_def)
  then have "parser_inv t (store_diag q s m)" if "parser_inv t p" for t
    using follows_invD [OF assms(1) that] assms(2) [OF that] by (simp add: parser_inv_def)
  moreover have "\<exists>new. diags_at (pdiags (store_diag q s m)) = diags_at (pdiags q) @ new"
    by (simp add: store_diag_def Let_def)
  moreover have "pweight (store_diag q s m) = pweight q" by (simp add: pweight_def remaining_def)
  ultimately show ?thesis using assms(1) by (auto simp: follows_def)
qed

lemma push_diag_follows:
  "follows p q \<Longrightarrow> (\<And>t. parser_inv t p \<Longrightarrow> span_ok t s) \<Longrightarrow> follows p (push_diag q s m)"
  by (simp add: push_diag_def store_diag_follows)

lemma pull_follows:
  assumes "pull p = (tok, p')" "plookahead p = None"
  shows "follows p p'" "parser_inv t p \<Longrightarrow> span_ok t (tspan tok)"
proof -
  obtain r l where lx: "ncfg_lexer_next (plexer p) = (r, l)" by fastforce
  let ?q = "p\<lparr>plexer := l\<rparr>"
  have inv: "parser_inv t ?q" if "parser_inv t p" for t
    using that lexer_next_exact [OF _ lx] by (auto simp: parser_inv_def split: sum.splits)
  have spans: "span_ok t (case r of Inr tok \<Rightarrow> tspan tok | Inl _ \<Rightarrow> lerror_span l)" if "parser_inv t p" for t
    using that lexer_next_exact [OF _ lx] by (auto simp: parser_inv_def split: sum.splits)
  have "pweight ?q \<le> pweight p"
    using advances_posD [OF lexer_next_advances [OF lx]] advances_textD [OF lexer_next_advances [OF lx]] assms(2)
    by (simp add: pweight_def remaining_def diff_le_mono2)
  with inv have q: "follows p ?q" by (simp add: follows_def)
  show "parser_inv t p \<Longrightarrow> span_ok t (tspan tok)"
    using spans assms lx by (auto simp: pull_def Let_def ncfg_lexer_error_span_def split: sum.splits)
  show "follows p p'"
  proof (cases r)
    case (Inl e)
    have "follows p (store_diag ?q (lerror_span l) (lex_error_text e))"
      using q spans Inl by (intro store_diag_follows) auto
    then show ?thesis
      using assms lx Inl by (auto simp: pull_def Let_def ncfg_lexer_error_span_def)
  next
    case (Inr a)
    with q assms lx show ?thesis by (auto simp: pull_def)
  qed
qed

lemma peek_follows:
  assumes "peek p = (tok, p')"
  shows "follows p p'" "parser_inv t p \<Longrightarrow> span_ok t (tspan tok)"
proof -
  have "follows p p' \<and> (\<forall>t. parser_inv t p \<longrightarrow> span_ok t (tspan tok))"
  proof (cases "plookahead p")
    case None
    with assms obtain q where q: "pull p = (tok, q)" "p' = q\<lparr>plookahead := Some tok\<rparr>"
      by (auto simp: peek_def split: prod.splits)
    note f = pull_follows [OF q(1) None]
    have "parser_inv t p'" if "parser_inv t p" for t
      using follows_invD [OF f(1) that] f(2) [OF that] q(2) by (simp add: parser_inv_def)
    then have "follows p p'"
      using f(1) q(2) peek_progress [OF assms] by (auto simp: follows_def)
    with f(2) show ?thesis by blast
  next
    case (Some tok')
    with assms show ?thesis by (auto simp: peek_def parser_inv_def)
  qed
  then show "follows p p'" "parser_inv t p \<Longrightarrow> span_ok t (tspan tok)" by auto
qed

lemma discard_follows: "follows p (p\<lparr>plookahead := None\<rparr>)"
  by (auto simp: follows_def parser_inv_def pweight_def remaining_def)

lemma take_token_follows:
  assumes "take_token p = (tok, p')"
  shows "follows p p'" "parser_inv t p \<Longrightarrow> span_ok t (tspan tok)"
  using assms pull_follows [of p tok p'] discard_follows [of p]
  by (auto simp: take_token_def parser_inv_def split: option.splits)

lemma drop_token_follows: "follows p (drop_token p)"
  using take_token_follows(1) [of p] by (cases "take_token p") (simp add: drop_token_def)

lemma skip_terminators_follows: "follows p (skip_terminators p)"
proof (induction p rule: skip_terminators.induct)
  case (1 p)
  obtain tok q where q: "peek p = (tok, q)" by fastforce
  note IH = 1 [OF q [symmetric] refl]
  have "follows q (skip_terminators (drop_token q))" if "tkind tok = TOKEN_TERMINATOR"
    using drop_token_follows IH [OF that] by (rule follows_trans)
  with peek_follows(1) [OF q] q show ?case
    by (auto simp: skip_terminators.simps [of p] intro: follows_trans)
qed

lemma recover_follows:
  "recover p = (b, p') \<Longrightarrow> follows p p' \<and> (b \<longrightarrow> pweight p' < pweight p)"
proof (induction p arbitrary: b p' rule: recover.induct)
  case (1 p)
  obtain tok q where q: "take_token p = (tok, q)" by fastforce
  note IH = 1(1) [OF q [symmetric] refl]
  note f = take_token_follows(1) [OF q] and w = take_token_progress [OF q]
  show ?case
  proof (cases "tkind tok = TOKEN_EOF \<or> tkind tok = TOKEN_TERMINATOR")
    case True
    with 1(2) q f w show ?thesis by (auto simp: recover.simps [of p] split: if_splits)
  next
    case False
    with 1(2) q have "recover q = (b, p')" by (simp add: recover.simps [of p])
    with IH False have "follows q p' \<and> (b \<longrightarrow> pweight p' < pweight q)" by simp
    with f w show ?thesis by (auto intro: follows_trans)
  qed
qed

lemma expect_terminator_follows: "follows p (expect_terminator p)"
proof -
  obtain tok q where q: "peek p = (tok, q)" by fastforce
  note f = peek_follows [OF q]
  show ?thesis
    using f(1) follows_trans [OF f(1) drop_token_follows] push_diag_follows [OF f(1) f(2)]
    by (simp add: expect_terminator_def q)
qed

subsection \<open>What the grammar functions answer\<close>

text \<open>
  A function that answers nothing has stored a diagnostic; one that answers a node has consumed
  input, and the node fits in the text and under the nesting bound.
\<close>

definition yields :: "(bytes \<Rightarrow> nat \<Rightarrow> 'a \<Rightarrow> bool) \<Rightarrow> parser \<Rightarrow> 'a option \<times> parser \<Rightarrow> bool" where
  "yields fits p rp \<longleftrightarrow> follows p (snd rp) \<and>
     (case fst rp of
        None \<Rightarrow> diags_total (pdiags p) < diags_total (pdiags (snd rp))
      | Some x \<Rightarrow> pweight (snd rp) < pweight p \<and> (\<forall>t. parser_inv t p \<longrightarrow> fits t (pdepth p) x))"

definition value_fits :: "bytes \<Rightarrow> nat \<Rightarrow> ast_value \<Rightarrow> bool" where
  "value_fits t d v \<longleftrightarrow> d + value_depth v \<le> NCFG_MAX_NESTING_DEPTH \<and> list_all (span_ok t) (value_spans v)"

definition item_fits :: "bytes \<Rightarrow> nat \<Rightarrow> ast_item \<Rightarrow> bool" where
  "item_fits t d i \<longleftrightarrow> d + item_depth i \<le> NCFG_MAX_NESTING_DEPTH \<and> list_all (span_ok t) (item_spans i)"

lemma yields_diag:
  "follows p q \<Longrightarrow> (\<And>t. parser_inv t p \<Longrightarrow> span_ok t s) \<Longrightarrow> yields fits p (None, push_diag q s m)"
  using push_diag_follows [of p q s m] by (simp add: yields_def follows_totalD less_Suc_eq_le)

lemma yields_follows:
  assumes "follows p q" "yields fits q rp"
  shows "yields fits p rp"
  using assms follows_trans [of p q "snd rp"] follows_depthD [OF assms(1)]
    follows_weightD [OF assms(1)] follows_totalD [OF assms(1)] follows_invD [OF assms(1)]
  by (auto simp: yields_def split: option.splits)

lemma yields_Some:
  "follows p q \<Longrightarrow> pweight q < pweight p \<Longrightarrow> (\<And>t. parser_inv t p \<Longrightarrow> fits t (pdepth p) x) \<Longrightarrow>
     yields fits p (Some x, q)"
  by (simp add: yields_def)

lemma pweight_depth [simp]: "pweight (p\<lparr>pdepth := d\<rparr>) = pweight p"
  by (simp add: pweight_def remaining_def)

lemma parser_inv_depth:
  "parser_inv t p \<Longrightarrow> d \<le> NCFG_MAX_NESTING_DEPTH \<Longrightarrow> parser_inv t (p\<lparr>pdepth := d\<rparr>)"
  by (simp add: parser_inv_def)

lemma follows_deeper:
  assumes "follows (p\<lparr>pdepth := pdepth p + 1\<rparr>) q" "pdepth p < NCFG_MAX_NESTING_DEPTH"
  shows "follows p (q\<lparr>pdepth := pdepth q - 1\<rparr>)"
proof -
  have "parser_inv t (q\<lparr>pdepth := pdepth q - 1\<rparr>)" if "parser_inv t p" for t
  proof (rule parser_inv_depth)
    show "parser_inv t q"
      using that assms(2) by (intro follows_invD [OF assms(1)] parser_inv_depth) simp_all
    with follows_depthD [OF assms(1)] assms(2) show "pdepth q - 1 \<le> NCFG_MAX_NESTING_DEPTH" by simp
  qed
  with assms(1) show ?thesis by (simp add: follows_def)
qed

lemma yields_deeper:
  assumes "yields fits (p\<lparr>pdepth := pdepth p + 1\<rparr>) (r, q)" "pdepth p < NCFG_MAX_NESTING_DEPTH"
    "\<And>t x. fits t (pdepth p + 1) x \<Longrightarrow> fits' t (pdepth p) x"
  shows "yields fits' p (r, q\<lparr>pdepth := pdepth q - 1\<rparr>)"
proof -
  have "parser_inv t (p\<lparr>pdepth := pdepth p + 1\<rparr>)" if "parser_inv t p" for t
    using that assms(2) by (intro parser_inv_depth) simp_all
  with assms follows_deeper [of p q] show ?thesis
    by (auto simp: yields_def split: option.splits)
qed

subsubsection \<open>Values\<close>

text \<open>
  The lemmas on a function that starts behind its first token speak of a base state \<open>p\<close> that the
  state \<open>q\<close> it is entered in follows: what is known of the first token is known there.
\<close>

lemma close_list_ok: "span_ok t s \<Longrightarrow> span_ok t (tspan b) \<Longrightarrow> span_ok t (close_list s b)"
  by (simp add: span_ok_def close_list_def Let_def)

lemma value_fits_leaf:
  "d \<le> NCFG_MAX_NESTING_DEPTH \<Longrightarrow> span_ok t s \<Longrightarrow> value_fits t d (Ast_String s x)"
  "d \<le> NCFG_MAX_NESTING_DEPTH \<Longrightarrow> span_ok t s \<Longrightarrow> value_fits t d (Ast_Number s n)"
  "d \<le> NCFG_MAX_NESTING_DEPTH \<Longrightarrow> span_ok t s \<Longrightarrow> value_fits t d (Ast_Bool s b)"
  by (simp_all add: value_fits_def)

lemma value_fits_list:
  assumes "0 < d" "d \<le> NCFG_MAX_NESTING_DEPTH" "span_ok t s" "\<forall>v \<in> set vs. value_fits t d v"
  shows "value_fits t (d - 1) (Ast_List s vs)"
proof -
  from assms(1) obtain k where "d = Suc k" using gr0_implies_Suc by blast
  with assms have "\<forall>v \<in> set vs. value_depth v \<le> NCFG_MAX_NESTING_DEPTH - d"
    by (fastforce simp: value_fits_def)
  then have "fold max (map value_depth vs) 0 \<le> NCFG_MAX_NESTING_DEPTH - d"
    by (simp add: fold_max_le)
  with assms show ?thesis by (auto simp: value_fits_def list_all_iff)
qed

lemma parser_inv_depthD: "parser_inv t p \<Longrightarrow> pdepth p \<le> NCFG_MAX_NESTING_DEPTH"
  by (simp add: parser_inv_def)

lemma parser_inv_raisedD: "parser_inv t (p\<lparr>pdepth := pdepth p + 1\<rparr>) \<Longrightarrow> parser_inv t p"
  by (auto simp: parser_inv_def)

lemma follows_raise:
  assumes "follows p q"
  shows "follows (p\<lparr>pdepth := pdepth p + 1\<rparr>) (q\<lparr>pdepth := pdepth q + 1\<rparr>)"
proof -
  have "parser_inv t (q\<lparr>pdepth := pdepth q + 1\<rparr>)" if "parser_inv t (p\<lparr>pdepth := pdepth p + 1\<rparr>)" for t
  proof (rule parser_inv_depth)
    from that have "parser_inv t p" by (rule parser_inv_raisedD)
    with assms show "parser_inv t q" by (rule follows_invD)
    from that follows_depthD [OF assms] show "pdepth q + 1 \<le> NCFG_MAX_NESTING_DEPTH"
      by (simp add: parser_inv_def)
  qed
  with assms show ?thesis by (simp add: follows_def)
qed

definition value_runs :: "nat \<Rightarrow> bool" where
  "value_runs n \<longleftrightarrow> (\<forall>p rp. parse_value n p = Some rp \<longrightarrow> yields value_fits p rp)"

definition list_runs :: "nat \<Rightarrow> bool" where
  "list_runs n \<longleftrightarrow> (\<forall>p q s rp. parse_list n q s = Some rp \<longrightarrow> follows p q \<longrightarrow>
     (\<forall>t. parser_inv t p \<longrightarrow> span_ok t s) \<longrightarrow> yields value_fits p rp)"

definition entries_run :: "nat \<Rightarrow> bool" where
  "entries_run n \<longleftrightarrow> (\<forall>p q s es rp. parse_list_entries n q s es = Some rp \<longrightarrow> follows p q \<longrightarrow> 0 < pdepth p \<longrightarrow>
     (\<forall>t. parser_inv t p \<longrightarrow> span_ok t s \<and> (\<forall>e \<in> set es. value_fits t (pdepth p) e)) \<longrightarrow>
     yields (\<lambda>t d. value_fits t (d - 1)) p rp)"

lemma parse_value_step:
  assumes "list_runs n"
  shows "value_runs (Suc n)"
  unfolding value_runs_def
proof (intro allI impI)
  fix p rp
  assume run: "parse_value (Suc n) p = Some rp"
  obtain tok q where q: "take_token p = (tok, q)" by fastforce
  note f = take_token_follows [OF q] and w = take_token_progress [OF q]
  have leaf: "yields value_fits p (Some v, q)"
    if "tkind tok \<noteq> TOKEN_EOF" "\<And>t d. d \<le> NCFG_MAX_NESTING_DEPTH \<Longrightarrow> span_ok t (tspan tok) \<Longrightarrow> value_fits t d v" for v
    using w that by (auto intro!: yields_Some f(1) that(2) parser_inv_depthD f(2))
  have bad: "yields value_fits p (None, push_diag q (tspan tok) m)" for m
    by (rule yields_diag [OF f])
  have deeper: "yields value_fits p rp" if "parse_list n q (tspan tok) = Some rp"
    using assms that f unfolding list_runs_def by blast
  show "yields value_fits p rp"
    using run q leaf bad deeper by (cases "tkind tok") (auto simp: Let_def value_fits_leaf)
qed

lemma parse_list_step:
  assumes "entries_run n"
  shows "list_runs (Suc n)"
  unfolding list_runs_def
proof (intro allI impI)
  fix p q s rp
  assume run: "parse_list (Suc n) q s = Some rp" and f: "follows p q"
    and s: "\<forall>t. parser_inv t p \<longrightarrow> span_ok t s"
  let ?up = "\<lambda>p. p\<lparr>pdepth := pdepth p + 1\<rparr>"
  show "yields value_fits p rp"
  proof (cases "NCFG_MAX_NESTING_DEPTH \<le> pdepth q")
    case True
    with run s show ?thesis by (auto intro!: yields_diag [OF f])
  next
    case False
    with run obtain r q' where e: "parse_list_entries n (?up q) s [] = Some (r, q')"
      and rp: "rp = (r, q'\<lparr>pdepth := pdepth q' - 1\<rparr>)" by (auto split: option.splits)
    have "parser_inv t (?up p) \<longrightarrow> span_ok t s" for t using s parser_inv_raisedD by blast
    then have "yields (\<lambda>t d. value_fits t (d - 1)) (?up p) (r, q')"
      using assms [unfolded entries_run_def, rule_format, OF e follows_raise [OF f]] by simp
    then show ?thesis
      unfolding rp by (rule yields_deeper) (use False follows_depthD [OF f] in simp_all)
  qed
qed

lemma parse_entries_step:
  assumes "value_runs n" "entries_run n"
  shows "entries_run (Suc n)"
  unfolding entries_run_def
proof (intro allI impI)
  fix p q0 s es rp
  assume run: "parse_list_entries (Suc n) q0 s es = Some rp" and f0: "follows p q0" and d: "0 < pdepth p"
    and fits: "\<forall>t. parser_inv t p \<longrightarrow> span_ok t s \<and> (\<forall>e \<in> set es. value_fits t (pdepth p) e)"
  let ?fits = "\<lambda>t d. value_fits t (d - 1)"
  have closed: "yields ?fits p (Some (Ast_List (close_list s tok) vs), drop_token r)"
    if fq: "follows p q" and pq: "peek (skip_terminators q) = (tok, r)" and ne: "tkind tok \<noteq> TOKEN_EOF"
      and vs: "\<And>t. parser_inv t p \<Longrightarrow> \<forall>e \<in> set vs. value_fits t (pdepth p) e" for q tok r vs
  proof (rule yields_Some)
    have f: "follows p (skip_terminators q)" using fq skip_terminators_follows by (rule follows_trans)
    note pk = peek_follows [OF pq]
    show "follows p (drop_token r)"
      using f pk(1) drop_token_follows by (blast intro: follows_trans)
    show "pweight (drop_token r) < pweight p"
      using drop_after_peek [OF pq ne] follows_weightD [OF f] by simp
    show "value_fits t (pdepth p - 1) (Ast_List (close_list s tok) vs)" if inv: "parser_inv t p" for t
    proof (rule value_fits_list)
      from inv fits pk(2) [OF follows_invD [OF f inv]] show "span_ok t (close_list s tok)"
        by (simp add: close_list_ok)
    qed (use inv d vs [OF inv] in \<open>simp_all add: parser_inv_depthD\<close>)
  qed
  obtain tok1 q1 where q1: "peek (skip_terminators q0) = (tok1, q1)" by fastforce
  have f1: "follows p q1"
    using f0 skip_terminators_follows peek_follows(1) [OF q1] by (blast intro: follows_trans)
  show "yields ?fits p rp"
  proof (cases "tkind tok1 = TOKEN_RBRACKET")
    case True
    with run q1 closed [OF f0 q1] fits show ?thesis by auto
  next
    case False
    with run q1 obtain r q2 where v: "parse_value n q1 = Some (r, q2)" by (auto split: option.splits)
    then have y: "yields value_fits p (r, q2)"
      using assms(1) f1 unfolding value_runs_def by (blast intro: yields_follows)
    show ?thesis
    proof (cases r)
      case None
      with run q1 False v y show ?thesis by (auto simp: yields_def)
    next
      case (Some e)
      from y Some have f2: "follows p q2" and e: "\<And>t. parser_inv t p \<Longrightarrow> value_fits t (pdepth p) e"
        by (auto simp: yields_def)
      obtain tok3 q3 where q3: "peek (skip_terminators q2) = (tok3, q3)" by fastforce
      have f3s: "follows p (skip_terminators q2)" using f2 skip_terminators_follows by (rule follows_trans)
      have f3: "follows p q3" using f3s peek_follows(1) [OF q3] by (rule follows_trans)
      have f4: "follows p (drop_token q3)" using f3 drop_token_follows by (rule follows_trans)
      have es: "\<forall>x \<in> set (es @ [e]). value_fits t (pdepth p) x" if "parser_inv t p" for t
        using e [OF that] fits that by auto
      have comma: "yields ?fits p rp" if "parse_list_entries n (drop_token q3) s (es @ [e]) = Some rp"
        using assms(2) [unfolded entries_run_def, rule_format, OF that f4 d] es fits by blast
      have bad: "yields ?fits p (None, push_diag q3 (tspan tok3) m)" for m
        by (rule yields_diag [OF f3 peek_follows(2) [OF q3 follows_invD [OF f3s]]])
      show ?thesis
        using run q1 False v Some q3 comma bad closed [OF f2 q3 _ es] by (auto simp: Let_def split: if_splits)
    qed
  qed
qed

lemma values_run: "value_runs n \<and> list_runs n \<and> entries_run n"
proof (induction n)
  case 0
  show ?case by (simp add: value_runs_def list_runs_def entries_run_def)
next
  case (Suc n)
  then show ?case using parse_value_step parse_list_step parse_entries_step by blast
qed

lemma parse_value_yields: "parse_value n p = Some rp \<Longrightarrow> yields value_fits p rp"
  using values_run [of n] unfolding value_runs_def by blast

subsubsection \<open>Statements\<close>

lemma yields_NoneD: "yields fits p (None, q) \<Longrightarrow> follows p q \<and> diags_total (pdiags p) < diags_total (pdiags q)"
  and yields_SomeD: "yields fits p (Some x, q) \<Longrightarrow>
    follows p q \<and> pweight q < pweight p \<and> (\<forall>t. parser_inv t p \<longrightarrow> fits t (pdepth p) x)"
  by (simp_all add: yields_def)

lemma yields_None_follows:
  "yields fits p (None, q) \<Longrightarrow> follows q r \<Longrightarrow> yields fits' p (None, r)"
  by (auto simp: yields_def intro: follows_trans dest: follows_totalD)

lemma item_fits_leaf:
  "d \<le> NCFG_MAX_NESTING_DEPTH \<Longrightarrow> span_ok t s \<Longrightarrow> item_fits t d (Ast_Hook ph b s)"
  "d \<le> NCFG_MAX_NESTING_DEPTH \<Longrightarrow> span_ok t s \<Longrightarrow> item_fits t d (Ast_Include path s)"
  "value_fits t d v \<Longrightarrow> span_ok t s \<Longrightarrow> item_fits t d (Ast_Assignment k v s)"
  by (simp_all add: item_fits_def value_fits_def)

lemma item_fits_block:
  assumes "0 < d" "d \<le> NCFG_MAX_NESTING_DEPTH" "span_ok t s" "\<forall>i \<in> set is. item_fits t d i"
  shows "item_fits t (d - 1) (Ast_Block (Block h l ov is s))"
proof -
  from assms(4) have "\<forall>i \<in> set is. item_depth i \<le> NCFG_MAX_NESTING_DEPTH - d"
    by (fastforce simp: item_fits_def)
  then have "fold max (map item_depth is) 0 \<le> NCFG_MAX_NESTING_DEPTH - d"
    by (simp add: fold_max_le)
  with assms show ?thesis by (auto simp: item_fits_def list_all_iff)
qed

lemma item_fits_set_overrides [simp]: "item_fits t d (set_overrides i) \<longleftrightarrow> item_fits t d i"
  by (cases i rule: set_overrides.cases) (simp_all add: item_fits_def)

lemma parse_include_yields: "yields item_fits p (parse_include p)"
proof -
  obtain kw q1 where q1: "take_token p = (kw, q1)" by fastforce
  obtain v q2 where q2: "take_token q1 = (v, q2)" by fastforce
  note f1 = take_token_follows [OF q1] and f2 = take_token_follows [OF q2]
  have f12: "follows p q2" using f1(1) f2(1) by (rule follows_trans)
  have bad: "yields item_fits p (None, push_diag q2 (tspan v) m)" for m
    by (rule yields_diag [OF f12 f2(2) [OF follows_invD [OF f1(1)]]])
  have "yields item_fits p (Some (Ast_Include path (tspan kw)), expect_terminator q2)"
    if "tkind v = TOKEN_STRING path" for path
  proof (rule yields_Some)
    show "follows p (expect_terminator q2)" using f12 expect_terminator_follows by (rule follows_trans)
    show "pweight (expect_terminator q2) < pweight p"
      using follows_weightD [OF expect_terminator_follows [of q2]] take_token_progress [OF q2]
        follows_weightD [OF f1(1)] that by simp
  qed (simp add: item_fits_leaf parser_inv_depthD f1(2))
  with bad show ?thesis by (simp add: parse_include_def q1 q2 split: token_kind.split)
qed

lemma hook_body_yields:
  "follows p (snd (hook_body p)) \<and>
   (fst (hook_body p) = None \<longrightarrow> diags_total (pdiags p) < diags_total (pdiags (snd (hook_body p))))"
proof -
  obtain tok q where q: "peek p = (tok, q)" by fastforce
  let ?q = "discard_lookahead (if tkind tok = TOKEN_TERMINATOR then drop_token q else q)"
  obtain r l where lx: "ncfg_lexer_hook_body (plexer ?q) = (r, l)" by fastforce
  note a = hook_body_advances [OF lx]
  have f: "follows p ?q"
    using peek_follows(1) [OF q] drop_token_follows [of q] discard_follows
    by (auto simp: discard_lookahead_def intro: follows_trans)
  have "parser_inv t (?q\<lparr>plexer := l\<rparr>)" if "parser_inv t ?q" for t
    using that a by (auto simp: parser_inv_def advances_def)
  then have l: "follows p (?q\<lparr>plexer := l\<rparr>)"
    using f a by (auto simp: follows_def advances_def pweight_def remaining_def discard_lookahead_def)
  have "span_ok t (lerror_span l)" if "parser_inv t p" "r = Inl e" for t e
    using follows_invD [OF f that(1)] hook_body_error_span [of "plexer ?q" e l] lx that(2)
    by (simp add: parser_inv_def)
  with l lx q show ?thesis
    using push_diag_follows [OF l] follows_totalD [OF l]
    by (auto simp: hook_body_def Let_def ncfg_lexer_error_span_def less_Suc_eq_le split: sum.splits)
qed

lemma hook_phase_yields:
  assumes "hook_phase h p = (r, q)"
  shows "follows p q \<and> (r = None \<longrightarrow> diags_total (pdiags p) < diags_total (pdiags q))"
proof (cases "h = ascii ''on''")
  case True
  obtain e q1 where q1: "take_token p = (e, q1)" by fastforce
  note f = take_token_follows [OF q1]
  have bad: "follows p (push_diag q1 (tspan e) m)" for m by (rule push_diag_follows [OF f])
  with f(1) follows_totalD [OF f(1)] show ?thesis
    using True assms q1 by (auto simp: hook_phase_def less_Suc_eq_le split: token_kind.splits)
qed (use assms in \<open>auto simp: hook_phase_def\<close>)

lemma parse_hook_yields: "yields item_fits p (parse_hook h p)"
proof -
  obtain kw q1 where q1: "take_token p = (kw, q1)" by fastforce
  note f1 = take_token_follows [OF q1]
  obtain ph q2 where q2: "hook_phase h q1 = (ph, q2)" by fastforce
  note h2 = hook_phase_yields [OF q2]
  have f2: "follows p q2" using f1(1) h2 by (blast intro: follows_trans)
  obtain br q3 where q3: "take_token q2 = (br, q3)" by fastforce
  note f3 = take_token_follows [OF q3] and w3 = take_token_progress [OF q3]
  have f3': "follows p q3" using f2 f3(1) by (rule follows_trans)
  obtain b q4 where q4: "hook_body q3 = (b, q4)" by fastforce
  have h4: "follows q3 q4" "b = None \<Longrightarrow> diags_total (pdiags q3) < diags_total (pdiags q4)"
    using hook_body_yields [of q3] q4 by auto
  have f4: "follows p q4" using f3' h4(1) by (rule follows_trans)
  have no_phase: "ph = None \<Longrightarrow> yields item_fits p (None, q2)"
    using f2 h2 follows_totalD [OF f1(1)] by (simp add: yields_def)
  have no_brace: "yields item_fits p (None, push_diag q3 (tspan br) m)" for m
    by (rule yields_diag [OF f3' f3(2) [OF follows_invD [OF f2]]])
  have no_body: "b = None \<Longrightarrow> yields item_fits p (None, q4)"
    using f4 h4(2) follows_totalD [OF f3'] by (simp add: yields_def)
  have hook: "yields item_fits p (Some (Ast_Hook name body (tspan kw)), q4)" if "tkind br = TOKEN_LBRACE" for name body
    using f4 w3 that follows_weightD [OF f2] follows_weightD [OF h4(1)]
    by (intro yields_Some) (auto simp: item_fits_leaf parser_inv_depthD f1(2))
  show ?thesis
    using no_phase no_brace no_body hook
    by (cases ph; cases b; cases "tkind br = TOKEN_LBRACE") (simp_all add: parse_hook_def q1 q2 q3 q4)
qed

lemma block_label_opt_follows: "follows p (snd (block_label_opt p))"
proof -
  obtain tok q where q: "peek p = (tok, q)" by fastforce
  note f = peek_follows(1) [OF q]
  show ?thesis
    using f follows_trans [OF f drop_token_follows] by (simp add: block_label_opt_def q split: token_kind.split)
qed

definition item_runs :: "nat \<Rightarrow> bool" where
  "item_runs n \<longleftrightarrow> (\<forall>p rp. parse_item n p = Some rp \<longrightarrow> yields item_fits p rp)"

definition block_runs :: "nat \<Rightarrow> bool" where
  "block_runs n \<longleftrightarrow> (\<forall>p rp. parse_block n p = Some rp \<longrightarrow> yields item_fits p rp)"

definition head_runs :: "nat \<Rightarrow> bool" where
  "head_runs n \<longleftrightarrow> (\<forall>p q h s rp. parse_block_after_head n q h s = Some rp \<longrightarrow> follows p q \<longrightarrow>
     (\<forall>t. parser_inv t p \<longrightarrow> span_ok t s) \<longrightarrow> yields item_fits p rp)"

definition body_runs :: "nat \<Rightarrow> bool" where
  "body_runs n \<longleftrightarrow> (\<forall>p q h l s is rp. parse_block_items n q h l s is = Some rp \<longrightarrow> follows p q \<longrightarrow> 0 < pdepth p \<longrightarrow>
     (\<forall>t. parser_inv t p \<longrightarrow> span_ok t s \<and> (\<forall>i \<in> set is. item_fits t (pdepth p) i)) \<longrightarrow>
     yields (\<lambda>t d. item_fits t (d - 1)) p rp)"

lemma parse_block_step:
  assumes "head_runs n"
  shows "block_runs (Suc n)"
  unfolding block_runs_def
proof (intro allI impI)
  fix p rp
  assume run: "parse_block (Suc n) p = Some rp"
  obtain tok q where q: "take_token p = (tok, q)" by fastforce
  note f = take_token_follows [OF q]
  have bad: "yields item_fits p (None, push_diag q (tspan tok) m)" for m
    by (rule yields_diag [OF f])
  have "yields item_fits p rp" if "parse_block_after_head n q name (tspan tok) = Some rp" for name
    using assms that f unfolding head_runs_def by blast
  with run q bad show "yields item_fits p rp" by (cases "tkind tok") (auto simp: Let_def)
qed

lemma parse_head_step:
  assumes "body_runs n"
  shows "head_runs (Suc n)"
  unfolding head_runs_def
proof (intro allI impI)
  fix p q h s rp
  assume run: "parse_block_after_head (Suc n) q h s = Some rp" and f: "follows p q"
    and s: "\<forall>t. parser_inv t p \<longrightarrow> span_ok t s"
  let ?up = "\<lambda>p. p\<lparr>pdepth := pdepth p + 1\<rparr>"
  obtain l q1 where q1: "block_label_opt q = (l, q1)" by fastforce
  have f1: "follows p q1" using f block_label_opt_follows [of q] q1 by (auto intro: follows_trans)
  obtain br q2 where q2: "take_token q1 = (br, q2)" by fastforce
  note t2 = take_token_follows [OF q2]
  have f2: "follows p q2" using f1 t2(1) by (rule follows_trans)
  have bad: "yields item_fits p (None, push_diag q2 (tspan br) m)" for m
    by (rule yields_diag [OF f2 t2(2) [OF follows_invD [OF f1]]])
  show "yields item_fits p rp"
  proof (cases "tkind br \<noteq> TOKEN_LBRACE \<or> NCFG_MAX_NESTING_DEPTH \<le> pdepth q2")
    case True
    with run q1 q2 bad show ?thesis by (auto split: if_splits)
  next
    case False
    with run q1 q2 obtain r q' where e: "parse_block_items n (?up q2) h l s [] = Some (r, q')"
      and rp: "rp = (r, q'\<lparr>pdepth := pdepth q' - 1\<rparr>)" by (auto split: option.splits)
    have "parser_inv t (?up p) \<longrightarrow> span_ok t s" for t using s parser_inv_raisedD by blast
    then have "yields (\<lambda>t d. item_fits t (d - 1)) (?up p) (r, q')"
      using assms [unfolded body_runs_def, rule_format, OF e follows_raise [OF f2]] by simp
    then show ?thesis
      unfolding rp by (rule yields_deeper) (use False follows_depthD [OF f2] in simp_all)
  qed
qed

lemma parse_assignment_yields:
  assumes "follows p q"
  shows "parse_value n q = Some (None, q') \<Longrightarrow> yields item_fits p (None, q')"
    and "parse_value n q = Some (Some v, q') \<Longrightarrow> (\<And>t. parser_inv t p \<Longrightarrow> span_ok t s) \<Longrightarrow>
      yields item_fits p (Some (Ast_Assignment k v s), expect_terminator q')"
proof -
  note e = expect_terminator_follows [of q']
  assume "parse_value n q = Some (None, q')"
  from yields_follows [OF assms parse_value_yields [OF this]]
  show "yields item_fits p (None, q')" by (rule yields_None_follows) simp
next
  note e = expect_terminator_follows [of q']
  assume run: "parse_value n q = Some (Some v, q')" and s: "\<And>t. parser_inv t p \<Longrightarrow> span_ok t s"
  note yv = yields_SomeD [OF yields_follows [OF assms parse_value_yields [OF run]]]
  show "yields item_fits p (Some (Ast_Assignment k v s), expect_terminator q')"
    using yv follows_trans [OF _ e] follows_weightD [OF e] s
    by (intro yields_Some) (auto intro: item_fits_leaf(3))
qed

lemma parse_item_step:
  assumes "block_runs n" "head_runs n"
  shows "item_runs (Suc n)"
  unfolding item_runs_def
proof (intro allI impI)
  fix p rp
  assume run: "parse_item (Suc n) p = Some rp"
  obtain hd q where q: "peek p = (hd, q)" by fastforce
  note f = peek_follows [OF q]
  note take_hd = take_after_peek [OF q]
  let ?q1 = "q\<lparr>plookahead := None\<rparr>"
  have f1: "follows p ?q1" using f(1) discard_follows by (rule follows_trans)
  obtain nx q2 where q2: "peek ?q1 = (nx, q2)" by fastforce
  note f2 = peek_follows [OF q2]
  have f2': "follows p q2" using f1 f2(1) by (rule follows_trans)
  have f3: "follows p (drop_token q2)" using f2' drop_token_follows by (rule follows_trans)
  have no_head: "yields item_fits p (None, push_diag q (tspan hd) m)" for m
    by (rule yields_diag [OF f])
  have no_next: "yields item_fits p (None, push_diag q2 (tspan nx) m)" for m
    by (rule yields_diag [OF f2' f2(2) [OF follows_invD [OF f1]]])
  have block: "yields item_fits p rp" if "parse_block_after_head n q2 name (tspan hd) = Some rp" for name
    using assms(2) [unfolded head_runs_def, rule_format, OF that f2'] f(2) by blast
  have override: "yields item_fits p (map_option set_overrides r, q')"
    if "parse_block n (drop_token q) = Some (r, q')" for r q'
  proof -
    have "yields item_fits (drop_token q) (r, q')" using assms(1) that unfolding block_runs_def by blast
    then have "yields item_fits p (r, q')"
      using follows_trans [OF f(1) drop_token_follows] by (blast intro: yields_follows)
    then show ?thesis by (cases r) (simp_all add: yields_def)
  qed
  note assign = parse_assignment_yields [OF f3, of n]
  have incl: "yields item_fits p (parse_include q)"
    by (rule yields_follows [OF f(1) parse_include_yields])
  have hook: "yields item_fits p (parse_hook name q)" for name
    by (rule yields_follows [OF f(1) parse_hook_yields])
  show "yields item_fits p rp"
  proof (cases "tkind hd")
    case (TOKEN_IDENT name)
    consider (inc) "name = ascii ''include''"
      | (ovr) "name \<noteq> ascii ''include''" "name = ascii ''override''"
      | (hk) "name \<noteq> ascii ''include''" "name \<noteq> ascii ''override''" "is_hook_head name"
      | (key) "name \<noteq> ascii ''include''" "name \<noteq> ascii ''override''" "\<not> is_hook_head name" by blast
    then show ?thesis
    proof cases
      case inc
      with run q TOKEN_IDENT incl show ?thesis by auto
    next
      case ovr
      with run q TOKEN_IDENT override show ?thesis by (auto split: option.splits)
    next
      case hk
      with run q TOKEN_IDENT hook show ?thesis by auto
    next
      case key
      then show ?thesis
        using run q TOKEN_IDENT take_hd q2 no_next block assign(1) assign(2) [of _ _ "tspan hd"] f(2)
        by (cases "tkind nx") (auto split: option.splits)
    qed
  qed (use run q no_head in auto)
qed

lemma parse_body_step:
  assumes "item_runs n" "body_runs n"
  shows "body_runs (Suc n)"
  unfolding body_runs_def
proof (intro allI impI)
  fix p q0 h l s items rp
  assume run: "parse_block_items (Suc n) q0 h l s items = Some rp" and f0: "follows p q0" and d: "0 < pdepth p"
    and fits: "\<forall>t. parser_inv t p \<longrightarrow> span_ok t s \<and> (\<forall>i \<in> set items. item_fits t (pdepth p) i)"
  let ?fits = "\<lambda>t d. item_fits t (d - 1)"
  obtain tok q where q: "peek (skip_terminators q0) = (tok, q)" by fastforce
  have fs: "follows p (skip_terminators q0)" using f0 skip_terminators_follows by (rule follows_trans)
  have f: "follows p q" using fs peek_follows(1) [OF q] by (rule follows_trans)
  note again = assms(2) [unfolded body_runs_def, rule_format, OF _ _ d]
  consider (close) "tkind tok = TOKEN_RBRACE" | (eof) "tkind tok = TOKEN_EOF"
    | (child) "tkind tok \<noteq> TOKEN_RBRACE" "tkind tok \<noteq> TOKEN_EOF" by blast
  then show "yields ?fits p rp"
  proof cases
    case close
    let ?e = "expect_terminator (drop_token q)"
    have "yields ?fits p (Some (Ast_Block (Block h l False items s)), ?e)"
    proof (rule yields_Some)
      show "follows p ?e" using f drop_token_follows expect_terminator_follows by (blast intro: follows_trans)
      show "pweight ?e < pweight p"
        using drop_after_peek [OF q] close follows_weightD [OF fs]
          follows_weightD [OF expect_terminator_follows [of "drop_token q"]] by simp
    qed (use d fits in \<open>auto intro!: item_fits_block [unfolded One_nat_def] parser_inv_depthD\<close>)
    with run q close show ?thesis by auto
  next
    case eof
    with run q fits show ?thesis by (auto intro!: yields_diag [OF f])
  next
    case child
    with run q obtain r q1 where i: "parse_item n q = Some (r, q1)" by (auto split: option.splits)
    then have y: "yields item_fits p (r, q1)"
      using assms(1) f unfolding item_runs_def by (blast intro: yields_follows)
    show ?thesis
    proof (cases r)
      case (Some c)
      note yc = yields_SomeD [OF y [unfolded Some]]
      from run q child i Some have "parse_block_items n q1 h l s (items @ [c]) = Some rp" by simp
      from again [OF this] yc fits show ?thesis by auto
    next
      case None
      note yn = yields_NoneD [OF y [unfolded None]]
      obtain b q2 where rec: "recover q1 = (b, q2)" by fastforce
      note r2 = recover_follows [OF rec]
      show ?thesis
      proof (cases b)
        case True
        with run q child i None rec have "parse_block_items n q2 h l s items = Some rp" by simp
        from again [OF this] yn r2 fits show ?thesis by (blast intro: follows_trans)
      next
        case False
        with run q child i None rec have "rp = (None, q2)" by simp
        with yields_None_follows [OF y [unfolded None]] r2 show ?thesis by auto
      qed
    qed
  qed
qed

lemma items_run: "item_runs n \<and> block_runs n \<and> head_runs n \<and> body_runs n"
proof (induction n)
  case 0
  show ?case by (simp add: item_runs_def block_runs_def head_runs_def body_runs_def)
next
  case (Suc n)
  then show ?case using parse_item_step parse_block_step parse_head_step parse_body_step by blast
qed

lemma parse_item_yields: "parse_item n p = Some rp \<Longrightarrow> yields item_fits p rp"
  using items_run [of n] unfolding item_runs_def by blast

end
