(* ===== verification/Ncfg_Parse_Total.thy ===== *)
theory Ncfg_Parse_Total
  imports Ncfg_Parse_Props
begin

text \<open>
  The parser returns on every input, and what it returns: a tree exactly when no diagnostic was
  found, a tree under the nesting bound whose spans point into the text, diagnostics that are the
  first \<open>NCFG_DIAGS_MAX\<close> of those found, each at a place in the text.  Then two behaviours of the
  recovery and of hook bodies that the comments in the source describe otherwise.
\<close>

subsection \<open>The fuel is enough\<close>

text \<open>
  Every cycle through the grammar functions consumes a token, so a fuel linear in what is left to
  read never runs out.
\<close>

definition value_returns :: "nat \<Rightarrow> bool" where
  "value_returns n \<longleftrightarrow>
     (\<forall>p. 3 * pweight p + 1 \<le> n \<longrightarrow> parse_value n p \<noteq> None) \<and>
     (\<forall>p s. 3 * pweight p + 3 \<le> n \<longrightarrow> parse_list n p s \<noteq> None) \<and>
     (\<forall>p s es. 3 * pweight p + 2 \<le> n \<longrightarrow> parse_list_entries n p s es \<noteq> None)"

lemma skip_peek_weight:
  "peek (skip_terminators p) = (tok, q) \<Longrightarrow> pweight q \<le> pweight p"
  using peek_progress follows_weightD [OF skip_terminators_follows [of p]] by fastforce

lemma skip_drop_weight:
  "peek (skip_terminators p) = (tok, q) \<Longrightarrow> tkind tok \<noteq> TOKEN_EOF \<Longrightarrow> pweight (drop_token q) < pweight p"
  using drop_after_peek follows_weightD [OF skip_terminators_follows [of p]] by fastforce

lemma values_return: "value_returns n"
proof (induction n)
  case 0
  show ?case by (simp add: value_returns_def)
next
  case (Suc n)
  then have V: "\<And>p. 3 * pweight p + 1 \<le> n \<Longrightarrow> \<exists>r. parse_value n p = Some r"
    and L: "\<And>p s. 3 * pweight p + 3 \<le> n \<Longrightarrow> \<exists>r. parse_list n p s = Some r"
    and E: "\<And>p s es. 3 * pweight p + 2 \<le> n \<Longrightarrow> \<exists>r. parse_list_entries n p s es = Some r"
    by (auto simp: value_returns_def)
  have "parse_value (Suc n) p \<noteq> None" if "3 * pweight p + 1 \<le> Suc n" for p
  proof -
    obtain tok q where q: "take_token p = (tok, q)" by fastforce
    then show ?thesis using take_token_progress [OF q] that L [of q "tspan tok"]
      by (cases "tkind tok") (auto simp: Let_def)
  qed
  moreover have "parse_list (Suc n) p s \<noteq> None" if "3 * pweight p + 3 \<le> Suc n" for p s
    using that E [of "p\<lparr>pdepth := pdepth p + 1\<rparr>" s "[]"] by (auto split: prod.split)
  moreover have "parse_list_entries (Suc n) p s es \<noteq> None" if le: "3 * pweight p + 2 \<le> Suc n" for p s es
  proof -
    obtain tok q where q: "peek (skip_terminators p) = (tok, q)" by fastforce
    note w = skip_peek_weight [OF q]
    from le w V [of q] obtain r q1 where v: "parse_value n q = Some (r, q1)" by fastforce
    show ?thesis
    proof (cases r)
      case (Some e)
      obtain tok2 q2 where q2: "peek (skip_terminators q1) = (tok2, q2)" by fastforce
      from yields_SomeD [OF parse_value_yields [OF v [unfolded Some]]] have "pweight q1 < pweight q" by blast
      with le w follows_weightD [OF drop_token_follows [of q2]] skip_peek_weight [OF q2]
      have "3 * pweight (drop_token q2) + 2 \<le> n" by simp
      with E [OF this, of s "es @ [e]"] q v Some q2 show ?thesis by (auto simp: Let_def)
    qed (simp add: q v)
  qed
  ultimately show ?case unfolding value_returns_def by blast
qed

definition item_returns :: "nat \<Rightarrow> bool" where
  "item_returns n \<longleftrightarrow>
     (\<forall>p. 4 * pweight p + 2 \<le> n \<longrightarrow> parse_item n p \<noteq> None) \<and>
     (\<forall>p. 4 * pweight p + 2 \<le> n \<longrightarrow> parse_block n p \<noteq> None) \<and>
     (\<forall>p h s. 4 * pweight p + 1 \<le> n \<longrightarrow> parse_block_after_head n p h s \<noteq> None) \<and>
     (\<forall>p h l s is. 4 * pweight p + 3 \<le> n \<longrightarrow> parse_block_items n p h l s is \<noteq> None)"

lemma parse_item_returns:
  assumes V: "\<And>p. 3 * pweight p + 1 \<le> n \<Longrightarrow> \<exists>r. parse_value n p = Some r"
    and B: "\<And>p. 4 * pweight p + 2 \<le> n \<Longrightarrow> \<exists>r. parse_block n p = Some r"
    and H: "\<And>p h s. 4 * pweight p + 1 \<le> n \<Longrightarrow> \<exists>r. parse_block_after_head n p h s = Some r"
    and le: "4 * pweight p + 2 \<le> Suc n"
  shows "parse_item (Suc n) p \<noteq> None"
proof -
  obtain hd q where q: "peek p = (hd, q)" by fastforce
  let ?q1 = "q\<lparr>plookahead := None\<rparr>"
  obtain nx q2 where q2: "peek ?q1 = (nx, q2)" by fastforce
  note w = drop_after_peek [OF q]
  have w1: "tkind hd \<noteq> TOKEN_EOF \<Longrightarrow> pweight ?q1 < pweight p"
    using w take_after_peek [OF q] by (simp add: drop_token_def)
  have w2: "tkind hd \<noteq> TOKEN_EOF \<Longrightarrow> pweight q2 < pweight p"
    using w1 peek_progress [OF q2] by simp
  have w3: "pweight (drop_token q2) \<le> pweight q2" by (rule follows_weightD [OF drop_token_follows])
  show ?thesis
  proof (cases "tkind hd")
    case (TOKEN_IDENT name)
    have "\<exists>r. parse_block n (drop_token q) = Some r" using w TOKEN_IDENT le by (intro B) simp
    moreover have "\<exists>r. parse_value n (drop_token q2) = Some r"
      using w2 w3 TOKEN_IDENT le by (intro V) simp
    moreover have "\<exists>r. parse_block_after_head n q2 name (tspan hd) = Some r"
      using w2 TOKEN_IDENT le by (intro H) simp
    ultimately show ?thesis
      using q q2 TOKEN_IDENT take_after_peek [OF q]
      by (cases "tkind nx") (auto split: option.splits)
  qed (simp_all add: q)
qed

lemma parse_head_returns:
  assumes D: "\<And>p h l s items. 4 * pweight p + 3 \<le> n \<Longrightarrow> \<exists>r. parse_block_items n p h l s items = Some r"
    and le: "4 * pweight p + 1 \<le> Suc n"
  shows "parse_block_after_head (Suc n) p h s \<noteq> None"
proof -
  obtain l q1 where q1: "block_label_opt p = (l, q1)" by fastforce
  obtain br q2 where q2: "take_token q1 = (br, q2)" by fastforce
  have "pweight q1 \<le> pweight p" using follows_weightD [OF block_label_opt_follows [of p]] q1 by simp
  with take_token_progress [OF q2] le have "tkind br = TOKEN_LBRACE \<Longrightarrow> 4 * pweight q2 + 3 \<le> n" by simp
  with D [of "q2\<lparr>pdepth := pdepth q2 + 1\<rparr>" h l s "[]"] q1 q2 show ?thesis
    by (auto split: prod.split)
qed

lemma parse_body_returns:
  assumes I: "\<And>p. 4 * pweight p + 2 \<le> n \<Longrightarrow> \<exists>r. parse_item n p = Some r"
    and D: "\<And>p h l s items. 4 * pweight p + 3 \<le> n \<Longrightarrow> \<exists>r. parse_block_items n p h l s items = Some r"
    and le: "4 * pweight p + 3 \<le> Suc n"
  shows "parse_block_items (Suc n) p h l s items \<noteq> None"
proof -
  obtain tok q where q: "peek (skip_terminators p) = (tok, q)" by fastforce
  note w = skip_peek_weight [OF q]
  from le w I [of q] obtain r q1 where i: "parse_item n q = Some (r, q1)" by fastforce
  show ?thesis
  proof (cases r)
    case (Some c)
    from yields_SomeD [OF parse_item_yields [OF i [unfolded Some]]] have "pweight q1 < pweight q" by blast
    with le w D [of q1 h l s "items @ [c]"] q i Some show ?thesis by auto
  next
    case None
    from yields_NoneD [OF parse_item_yields [OF i [unfolded None]]] have f: "pweight q1 \<le> pweight q"
      by (blast dest: follows_weightD)
    obtain b q2 where rec: "recover q1 = (b, q2)" by fastforce
    have "b \<Longrightarrow> 4 * pweight q2 + 3 \<le> n" using recover_follows [OF rec] f w le by simp
    with D [of q2 h l s items] q i None rec show ?thesis by (cases b) auto
  qed
qed

lemma items_return: "item_returns n"
proof (induction n)
  case 0
  show ?case by (simp add: item_returns_def)
next
  case (Suc n)
  then have I: "\<And>p. 4 * pweight p + 2 \<le> n \<Longrightarrow> \<exists>r. parse_item n p = Some r"
    and B: "\<And>p. 4 * pweight p + 2 \<le> n \<Longrightarrow> \<exists>r. parse_block n p = Some r"
    and H: "\<And>p h s. 4 * pweight p + 1 \<le> n \<Longrightarrow> \<exists>r. parse_block_after_head n p h s = Some r"
    and D: "\<And>p h l s items. 4 * pweight p + 3 \<le> n \<Longrightarrow> \<exists>r. parse_block_items n p h l s items = Some r"
    by (auto simp: item_returns_def)
  have V: "\<And>p. 3 * pweight p + 1 \<le> n \<Longrightarrow> \<exists>r. parse_value n p = Some r"
    using values_return [of n] by (auto simp: value_returns_def)
  have "parse_block (Suc n) p \<noteq> None" if "4 * pweight p + 2 \<le> Suc n" for p
  proof -
    obtain tok q where q: "take_token p = (tok, q)" by fastforce
    then show ?thesis using take_token_progress [OF q] that H [of q _ "tspan tok"]
      by (cases "tkind tok") auto
  qed
  then show ?case
    using parse_item_returns [OF V B H] parse_head_returns [OF D] parse_body_returns [OF I D]
    unfolding item_returns_def by blast
qed

lemma parse_file_returns:
  "4 * pweight p + 3 \<le> n \<Longrightarrow> \<exists>r. parse_file n p items = Some r"
proof (induction n arbitrary: p items)
  case (Suc n)
  obtain tok q where q: "peek (skip_terminators p) = (tok, q)" by fastforce
  note w = skip_peek_weight [OF q]
  have "parse_item n q \<noteq> None" using items_return [of n] Suc.prems w by (simp add: item_returns_def)
  then obtain r q1 where i: "parse_item n q = Some (r, q1)" by auto
  show ?case
  proof (cases r)
    case (Some c)
    from yields_SomeD [OF parse_item_yields [OF i [unfolded Some]]] have "pweight q1 < pweight q" by blast
    with Suc.IH [of q1 "items @ [c]"] Suc.prems w q i Some show ?thesis by auto
  next
    case None
    from yields_NoneD [OF parse_item_yields [OF i [unfolded None]]] have f: "pweight q1 \<le> pweight q"
      by (blast dest: follows_weightD)
    obtain b q2 where rec: "recover q1 = (b, q2)" by fastforce
    have "b \<Longrightarrow> 4 * pweight q2 + 3 \<le> n" using recover_follows [OF rec] f w Suc.prems by simp
    with Suc.IH [of q2 items] q i None rec show ?thesis by (cases b) auto
  qed
qed simp

lemma parse_file_follows:
  "parse_file n q items = Some (items', q') \<Longrightarrow> follows p q \<Longrightarrow>
     (\<And>t i. parser_inv t p \<Longrightarrow> i \<in> set items \<Longrightarrow> item_fits t (pdepth p) i) \<Longrightarrow>
     follows p q' \<and> (\<forall>t. parser_inv t p \<longrightarrow> (\<forall>i \<in> set items'. item_fits t (pdepth p) i))"
proof (induction n arbitrary: q items)
  case (Suc n)
  obtain tok q0 where q0: "peek (skip_terminators q) = (tok, q0)" by fastforce
  have f0: "follows p q0"
    using Suc.prems(2) skip_terminators_follows peek_follows(1) [OF q0] by (blast intro: follows_trans)
  show ?case
  proof (cases "tkind tok = TOKEN_EOF")
    case True
    with Suc.prems q0 f0 show ?thesis by auto
  next
    case False
    with Suc.prems(1) q0 obtain r q1 where i: "parse_item n q0 = Some (r, q1)" by (auto split: option.splits)
    note y = yields_follows [OF f0 parse_item_yields [OF i]]
    obtain b q2 where rec: "recover q1 = (b, q2)" by fastforce
    show ?thesis
    proof (cases r)
      case (Some c)
      note yc = yields_SomeD [OF y [unfolded Some]]
      from Suc.prems(1) q0 False i Some have "parse_file n q1 (items @ [c]) = Some (items', q')" by simp
      from Suc.IH [OF this] yc Suc.prems(3) show ?thesis by auto
    next
      case None
      from yields_NoneD [OF y [unfolded None]] recover_follows [OF rec] have f2: "follows p q2"
        by (blast intro: follows_trans)
      show ?thesis
      proof (cases b)
        case True
        with Suc.prems(1) q0 False i None rec have "parse_file n q2 items = Some (items', q')" by simp
        from Suc.IH [OF this f2 Suc.prems(3)] show ?thesis .
      next
        case b: False
        with Suc.prems(1) q0 False i None rec have "items' = items" "q' = q2" by auto
        with f2 Suc.prems(3) show ?thesis by blast
      qed
    qed
  qed
qed simp

lemma start_parser_inv: "diags_ok t d \<Longrightarrow> parser_inv t (start_parser t d)"
  by (simp add: parser_inv_def start_parser_def ncfg_lexer_init_def lexer_ok_def line_at_def column_at_def)

lemma ncfg_parse_run:
  "\<exists>items p. ncfg_parse t d = Some (if diags_total (pdiags p) = 0 then Inr items
       else Inl (case diags_at (pdiags p) of
         first # _ \<Rightarrow> snprintf_text NCFG_ERROR_MAX (cstr (diag_message first))
       | [] \<Rightarrow> ascii ''out of memory while parsing the configuration''), pdiags p) \<and>
     follows (start_parser t d) p \<and>
     (diags_ok t d \<longrightarrow> diags_ok t (pdiags p) \<and> (\<forall>i \<in> set items. item_fits t 0 i))"
proof -
  let ?s = "start_parser t d"
  have "pweight ?s = 2 * length t"
    by (simp add: start_parser_def pweight_def remaining_def ncfg_lexer_init_def)
  then obtain items p where run: "parse_file (parse_fuel t) ?s [] = Some (items, p)"
    using parse_file_returns [of ?s "parse_fuel t" "[]"] by (auto simp: parse_fuel_def)
  have fits: "follows ?s p \<and> (\<forall>t. parser_inv t ?s \<longrightarrow> (\<forall>i \<in> set items. item_fits t (pdepth ?s) i))"
    by (rule parse_file_follows [OF run]) auto
  then have "diags_ok t d \<longrightarrow> diags_ok t (pdiags p) \<and> (\<forall>i \<in> set items. item_fits t 0 i)"
    using start_parser_inv [of t d] follows_invD [of ?s p t]
    by (auto simp: parser_inv_def start_parser_def)
  with run fits show ?thesis
    by (intro exI [of _ items] exI [of _ p]) (simp add: ncfg_parse_def Let_def)
qed

text \<open>
  C1.  The parser always returns, on any bytes and any diagnostics the caller hands in: with a tree
  exactly when the diagnostics are empty afterwards, and never with part of one otherwise.  The
  caller's diagnostics stay in front of the ones this parse adds, the count only grows, and the
  sentence of a failed parse is the first stored diagnostic's.
\<close>

theorem parse_total:
  "\<exists>r d'. ncfg_parse t d = Some (r, d') \<and> (isl r \<longleftrightarrow> diags_total d' \<noteq> 0) \<and>
     diags_total d \<le> diags_total d' \<and> (\<exists>new. diags_at d' = diags_at d @ new \<and>
       (\<forall>m first rest. r = Inl m \<longrightarrow> diags_at d @ new = first # rest \<longrightarrow>
          m = snprintf_text NCFG_ERROR_MAX (cstr (diag_message first))))"
proof -
  from ncfg_parse_run [of t d] obtain items p where
    run: "ncfg_parse t d = Some (if diags_total (pdiags p) = 0 then Inr items
       else Inl (case diags_at (pdiags p) of
         first # _ \<Rightarrow> snprintf_text NCFG_ERROR_MAX (cstr (diag_message first))
       | [] \<Rightarrow> ascii ''out of memory while parsing the configuration''), pdiags p)"
    and f: "follows (start_parser t d) p" by blast
  from f have "diags_total d \<le> diags_total (pdiags p)" "\<exists>new. diags_at (pdiags p) = diags_at d @ new"
    by (auto simp: follows_def start_parser_def)
  with run show ?thesis by (auto simp del: ascii_simps)
qed

theorem parse_total_witness:
  "\<exists>r d'. ncfg_parse (ascii ''a = ]'') no_diags = Some (r, d') \<and> diags_total d' = 1 \<and>
     r = Inl (ascii ''expected a value, found `]`'')"
proof -
  obtain r d' where run: "ncfg_parse (ascii ''a = ]'') no_diags = Some (r, d')"
    and "isl r \<longleftrightarrow> diags_total d' \<noteq> 0"
    and "\<forall>m first rest. r = Inl m \<longrightarrow> diags_at d' = first # rest \<longrightarrow>
      m = snprintf_text NCFG_ERROR_MAX (cstr (diag_message first))"
    using parse_total [of "ascii ''a = ]''" no_diags] by metis
  moreover have "map_option snd (ncfg_parse (ascii ''a = ]'') no_diags) =
      Some \<lparr>diags_at = [\<lparr>diag_span = \<lparr>sp_offset = 4, sp_length = 1, sp_line = 1, sp_column = 5\<rparr>,
        diag_message = ascii ''expected a value, found `]`''\<rparr>], diags_total = 1\<rparr>" by code_simp
  moreover have "snprintf_text NCFG_ERROR_MAX (cstr (ascii ''expected a value, found `]`'')) =
      ascii ''expected a value, found `]`''" by code_simp
  ultimately show ?thesis by (cases r) auto
qed

text \<open>
  The nesting bound and the positions of the tree.  A parsed tree never nests more than
  \<open>NCFG_MAX_NESTING_DEPTH\<close> blocks and lists together, whatever the file holds, and every span in it
  lies inside the file with the line and column of its offset.
\<close>

theorem parse_tree_bounded:
  assumes "ncfg_parse t no_diags = Some (Inr items, d)"
  shows "\<forall>i \<in> set items. item_depth i \<le> NCFG_MAX_NESTING_DEPTH \<and> list_all (span_ok t) (item_spans i)"
proof -
  have "diags_ok t no_diags" by (simp add: diags_ok_def no_diags_def)
  with ncfg_parse_run [of t no_diags] assms show ?thesis
    by (auto simp: item_fits_def split: if_splits)
qed

theorem parse_tree_bounded_witness:
  "\<exists>items d. ncfg_parse (ascii ''x { a = [1] }'') no_diags = Some (Inr items, d) \<and>
     map item_depth items = [2] \<and>
     (\<forall>i \<in> set items. item_depth i \<le> NCFG_MAX_NESTING_DEPTH \<and>
        list_all (span_ok (ascii ''x { a = [1] }'')) (item_spans i))"
proof -
  let ?t = "ascii ''x { a = [1] }''"
  have "case ncfg_parse ?t no_diags of Some (Inr items, d) \<Rightarrow> map item_depth items = [2] | _ \<Rightarrow> False"
    by code_simp
  then obtain items d where p: "ncfg_parse ?t no_diags = Some (Inr items, d)" "map item_depth items = [2]"
    by (auto simp del: ascii_simps split: option.splits sum.splits)
  show ?thesis using p parse_tree_bounded [OF p(1)] by (intro exI conjI)
qed

text \<open>
  Diagnostics are bounded and placed.  A parse keeps exactly the first \<open>NCFG_DIAGS_MAX\<close>
  diagnostics while the total counts them all, and each one kept points at a place in the file,
  with the line and column of its offset.
\<close>

theorem parse_diags_bounded:
  assumes "ncfg_parse t no_diags = Some (r, d)"
  shows "length (diags_at d) = min (diags_total d) NCFG_DIAGS_MAX \<and>
    (\<forall>x \<in> set (diags_at d). span_ok t (diag_span x))"
proof -
  have "diags_ok t no_diags" by (simp add: diags_ok_def no_diags_def)
  with ncfg_parse_run [of t no_diags] assms show ?thesis by (auto simp: diags_ok_def)
qed

theorem parse_diags_bounded_witness:
  "\<exists>r d. ncfg_parse ([93, NL, 93, NL]) no_diags = Some (r, d) \<and>
     diags_total d = 2 \<and> length (diags_at d) = 2 \<and> list_all (\<lambda>x. span_ok [93, NL, 93, NL] (diag_span x)) (diags_at d)"
proof -
  let ?t = "[93, NL, 93, NL] :: bytes"
  have "map_option (\<lambda>x. diags_total (snd x)) (ncfg_parse ?t no_diags) = Some 2" by code_simp
  then obtain r d where run: "ncfg_parse ?t no_diags = Some (r, d)" "diags_total d = 2" by auto
  with parse_diags_bounded [OF run(1)] show ?thesis by (simp add: NCFG_DIAGS_MAX_def list_all_iff)
qed

text \<open>
  A word behind the opening brace of a hook is lost.  When the token behind the \<^verbatim>\<open>{\<close> is not the
  end of the line, the body that is taken starts after that token: its bytes appear nowhere in the
  tree.  The source says this only arises on input that has no body to lose; the witness is a hook
  that parses without a diagnostic and whose command has lost its first word.
\<close>

theorem hook_body_loses_word:
  assumes "plookahead p = None" "ncfg_lexer_next (plexer p) = (Inr tok, l)" "tkind tok \<noteq> TOKEN_TERMINATOR"
  shows "fst (hook_body p) = (case fst (ncfg_lexer_hook_body l) of Inr body \<Rightarrow> Some body | Inl _ \<Rightarrow> None)"
  using assms
  by (auto simp: hook_body_def peek_def pull_def discard_lookahead_def Let_def
      split: prod.splits sum.splits)

theorem hook_body_loses_word_witness:
  "\<exists>p. plexer p = (ncfg_lexer_init (ascii ''post_up { echo hi'' @ [NL] @ ascii ''}'' @ [NL]))
       \<lparr>lpos := 9, lcolumn := 10\<rparr> \<and>
     fst (hook_body p) = Some (ascii '' hi'' @ [NL]) \<and>
     ncfg_parse (ascii ''post_up { echo hi'' @ [NL] @ ascii ''}'' @ [NL]) no_diags =
       Some (Inr [Ast_Hook (ascii ''post_up'') (ascii '' hi'' @ [NL])
         \<lparr>sp_offset = 0, sp_length = 7, sp_line = 1, sp_column = 1\<rparr>], no_diags)"
proof -
  let ?t = "ascii ''post_up { echo hi'' @ [NL] @ ascii ''}'' @ [NL]"
  let ?l = "(ncfg_lexer_init ?t)\<lparr>lpos := 9, lcolumn := 10\<rparr>"
  let ?tok = "\<lparr>tkind = TOKEN_IDENT (ascii ''echo''),
    tspan = \<lparr>sp_offset = 10, sp_length = 4, sp_line = 1, sp_column = 11\<rparr>\<rparr>"
  let ?l' = "?l\<lparr>lpos := 14, lcolumn := 15\<rparr>"
  let ?p = "(start_parser ?t no_diags)\<lparr>plexer := ?l\<rparr>"
  have lx: "ncfg_lexer_next (plexer ?p) = (Inr ?tok, ?l')" by code_simp
  have b: "fst (ncfg_lexer_hook_body ?l') = Inr (ascii '' hi'' @ [NL])" by code_simp
  have "plookahead ?p = None" by (simp add: start_parser_def)
  from hook_body_loses_word [OF this lx] b have "fst (hook_body ?p) = Some (ascii '' hi'' @ [NL])" by simp
  moreover have "ncfg_parse ?t no_diags = Some (Inr [Ast_Hook (ascii ''post_up'') (ascii '' hi'' @ [NL])
      \<lparr>sp_offset = 0, sp_length = 7, sp_line = 1, sp_column = 1\<rparr>], no_diags)" by code_simp
  ultimately show ?thesis by (intro exI [of _ ?p]) simp
qed

text \<open>
  A byte the lexer refuses where a statement should start ends the parse.  Recovery skips to
  the next statement only after a statement the grammar refused; a failure of the lexer in that
  position reads as the end of the input, so the statements behind it are neither parsed nor
  reported on.  The source says a file with three mistakes should report three: the witness has
  three and reports one.
\<close>

theorem lexer_failure_ends_parse:
  assumes "plookahead p = None" "ncfg_lexer_next (plexer p) = (Inl e, l)"
  shows "\<exists>p'. parse_file (Suc n) p items = Some (items, p') \<and>
    diags_total (pdiags p') = Suc (diags_total (pdiags p))"
proof -
  let ?s = "store_diag (p\<lparr>plexer := l\<rparr>) (lerror_span l) (lex_error_text e)"
  let ?tok = "\<lparr>tkind = TOKEN_EOF, tspan = lerror_span l\<rparr>"
  have pk: "peek p = (?tok, ?s\<lparr>plookahead := Some ?tok\<rparr>)"
    using assms by (simp add: peek_def pull_def Let_def ncfg_lexer_error_span_def)
  then have "skip_terminators p = ?s\<lparr>plookahead := Some ?tok\<rparr>" by (simp add: skip_terminators.simps)
  then have "peek (skip_terminators p) = (?tok, ?s\<lparr>plookahead := Some ?tok\<rparr>)" by (simp add: peek_def)
  then show ?thesis by simp
qed

theorem lexer_failure_ends_parse_witness:
  "\<exists>p'. parse_file (parse_fuel (ascii ''$;$;$'')) (start_parser (ascii ''$;$;$'') no_diags) [] = Some ([], p') \<and>
     diags_total (pdiags p') = 1"
proof -
  let ?t = "ascii ''$;$;$''"
  let ?p = "start_parser ?t no_diags"
  have "fst (ncfg_lexer_next (plexer ?p)) = Inl (Unexpected_Character (ch CHR ''$''))" by code_simp
  then obtain l where lx: "ncfg_lexer_next (plexer ?p) = (Inl (Unexpected_Character (ch CHR ''$'')), l)"
    by (metis prod.collapse)
  have "plookahead ?p = None" "diags_total (pdiags ?p) = 0" by (simp_all add: start_parser_def no_diags_def)
  moreover have "parse_fuel ?t = Suc 47" by (simp add: parse_fuel_def)
  ultimately show ?thesis using lexer_failure_ends_parse [of ?p _ l 47 "[]"] lx by auto
qed

end
