(* ===== verification/Ncfg_Authorize.thy ===== *)
theory Ncfg_Authorize
  imports Ncfg_Peer Ncfg_Request_Fields Ncfg_Parse_Total
begin

text \<open>
  Deciding whether a caller may do what they asked: what a configuration asks for beyond configuring
  a network (\<^verbatim>\<open>c/src/daemon/privilege.c\<close>), the tiers and the one gate every request passes
  (\<^verbatim>\<open>authorize.c\<close>), and which requests may be run twice (\<^verbatim>\<open>idempotence.c\<close>).

  A refusal is the sentence it is reported with; \<open>None\<close> is permission.  Allocation is granted, and a
  request kind outside the enumeration has no counterpart here.
\<close>

subsection \<open>Privileged productions\<close>

datatype privilege_reason =
    PRIV_HOOK | PRIV_PROBE | PRIV_SECRET_EXEC | PRIV_FOREIGN_CONFIG | PRIV_PATH | PRIV_INCLUDE
  | PRIV_AUTHORIZATION | PRIV_PRINCIPAL

definition privileged :: "(string \<times> string \<times> privilege_reason) list" where
  "privileged =
     [(''probe'', ''command'', PRIV_PROBE),
      (''probe'', ''args'', PRIV_PROBE),
      (''openvpn'', ''config'', PRIV_FOREIGN_CONFIG),
      (''openvpn'', ''file'', PRIV_FOREIGN_CONFIG),
      (''wifi'', ''ca_cert'', PRIV_PATH),
      (''wifi'', ''client_cert'', PRIV_PATH),
      (''wifi'', ''private_key'', PRIV_PATH),
      (''control'', ''observe'', PRIV_AUTHORIZATION),
      (''control'', ''wifi'', PRIV_AUTHORIZATION),
      (''control'', ''admin'', PRIV_AUTHORIZATION),
      (''remote'', ''observe'', PRIV_AUTHORIZATION),
      (''remote'', ''wifi'', PRIV_AUTHORIZATION),
      (''remote'', ''admin'', PRIV_AUTHORIZATION),
      (''tun'', ''owner'', PRIV_PRINCIPAL),
      (''tun'', ''group'', PRIV_PRINCIPAL)]"

fun ncfg_privilege_why :: "privilege_reason \<Rightarrow> string" where
  "ncfg_privilege_why PRIV_HOOK =
     ''a hook body is shell, and a hook with no `run_as` runs as the daemon's own user, which is root''"
| "ncfg_privilege_why PRIV_PROBE = ''a probe block is a program netcfgd runs, as root''"
| "ncfg_privilege_why PRIV_SECRET_EXEC =
     ''an `exec` secret provider is a command netcfgd runs, as root, to fetch the value''"
| "ncfg_privilege_why PRIV_FOREIGN_CONFIG =
     ''that names another program's configuration file, which netcfgd hands to it as root and which may itself name scripts to run''"
| "ncfg_privilege_why PRIV_PATH =
     ''that names a path on this machine, which is opened by a program running as root -- send the contents instead and netcfgd will store them''"
| "ncfg_privilege_why PRIV_INCLUDE =
     ''`include` reads another file into this configuration, and a client cannot know what is in it''"
| "ncfg_privilege_why PRIV_AUTHORIZATION =
     ''that changes who may ask netcfgd for what, so a caller who could send it could widen its own rights''"
| "ncfg_privilege_why PRIV_PRINCIPAL =
     ''that hands a device netcfgd creates to a named user or group, which gives them the traffic on it''"

definition assignment_reason :: "bytes \<Rightarrow> bytes \<Rightarrow> privilege_reason option" where
  "assignment_reason block key =
     map_option (\<lambda>(_, _, reason). reason)
       (find (\<lambda>(b, k, _). ascii b = cstr block \<and> ascii k = cstr key) privileged)"

definition string_starts_with :: "ast_value \<Rightarrow> string \<Rightarrow> bool" where
  "string_starts_with value prefix =
     (case value of
        Ast_String _ string \<Rightarrow> length prefix \<le> length string \<and> take (length prefix) string = ascii prefix
      | _ \<Rightarrow> False)"

definition cert_is_a_path :: "ast_value \<Rightarrow> bool" where
  "cert_is_a_path value =
     (case value of Ast_String _ _ \<Rightarrow> \<not> string_starts_with value ''@secret:'' | _ \<Rightarrow> True)"

fun secret_exec :: "ast_value \<Rightarrow> bool" where
  "secret_exec (Ast_String span string) = string_starts_with (Ast_String span string) ''@secret:exec:''"
| "secret_exec (Ast_List _ entries) = list_ex secret_exec entries"
| "secret_exec _ = False"

record privilege_finding =
  pf_reason :: privilege_reason
  pf_what :: bytes
  pf_span :: span

record privilege_findings =
  pf_at :: "privilege_finding list"
  pf_total :: nat

definition record_finding ::
  "privilege_findings \<Rightarrow> privilege_reason \<Rightarrow> bytes \<Rightarrow> span \<Rightarrow> privilege_findings" where
  "record_finding out reason what span =
     (let out = out\<lparr>pf_total := pf_total out + 1\<rparr> in
      if NCFG_DIAGS_MAX \<le> length (pf_at out) then out
      else out\<lparr>pf_at := pf_at out @ [\<lparr>pf_reason = reason, pf_what = what, pf_span = span\<rparr>]\<rparr>)"

definition joined :: "bytes \<Rightarrow> bytes \<Rightarrow> bytes" where
  "joined block key = cstr block @ ascii ''.'' @ cstr key"

definition surrounded :: "bytes \<Rightarrow> bytes \<Rightarrow> bytes \<Rightarrow> bytes" where
  "surrounded front middle end' = cstr front @ cstr middle @ cstr end'"

definition walk_assignment :: "bytes \<Rightarrow> ast_value \<Rightarrow> span \<Rightarrow> bytes \<Rightarrow> privilege_findings \<Rightarrow> privilege_findings" where
  "walk_assignment key value span block out =
     (let out = (case assignment_reason block key of
            Some reason \<Rightarrow>
              if reason \<noteq> PRIV_PATH \<or> cert_is_a_path value
              then record_finding out reason (joined block key) span else out
          | None \<Rightarrow> out)
      in if secret_exec value
         then record_finding out PRIV_SECRET_EXEC (surrounded key (ascii ''= @secret:exec:'') []) (value_span value)
         else out)"

fun walk_item :: "ast_item \<Rightarrow> bytes \<Rightarrow> privilege_findings \<Rightarrow> privilege_findings"
  and walk_block :: "ast_block \<Rightarrow> privilege_findings \<Rightarrow> privilege_findings" where
  "walk_item (Ast_Hook phase body span) block out = record_finding out PRIV_HOOK (surrounded [] phase []) span"
| "walk_item (Ast_Include path span) block out =
     record_finding out PRIV_INCLUDE (surrounded (ascii ''include '' @ [34]) path [34]) span"
| "walk_item (Ast_Assignment key value span) block out = walk_assignment key value span block out"
| "walk_item (Ast_Block b) block out = walk_block b out"
| "walk_block (Block head label overrides items span) out = fold (\<lambda>item. walk_item item head) items out"

definition walk :: "ast_item list \<Rightarrow> bytes \<Rightarrow> privilege_findings \<Rightarrow> privilege_findings" where
  "walk items block out = fold (\<lambda>item. walk_item item block) items out"

definition ncfg_privilege_findings :: "ast_item list \<Rightarrow> privilege_findings" where
  "ncfg_privilege_findings file = walk file [] \<lparr>pf_at = [], pf_total = 0\<rparr>"

subsection \<open>Tiers\<close>

datatype tier = TIER_OBSERVE | TIER_WIFI | TIER_ADMIN

fun ncfg_tier_name :: "tier \<Rightarrow> string" where
  "ncfg_tier_name TIER_OBSERVE = ''observe''"
| "ncfg_tier_name TIER_WIFI = ''wifi''"
| "ncfg_tier_name TIER_ADMIN = ''admin''"

primrec ncfg_tier_of :: "request_kind \<Rightarrow> tier" where
    "ncfg_tier_of REQ_HELLO = TIER_OBSERVE"
  | "ncfg_tier_of REQ_STATUS = TIER_OBSERVE"
  | "ncfg_tier_of REQ_PLAN = TIER_OBSERVE"
  | "ncfg_tier_of REQ_APPLY = TIER_ADMIN"
  | "ncfg_tier_of REQ_CONFIRM = TIER_ADMIN"
  | "ncfg_tier_of REQ_REVERT = TIER_ADMIN"
  | "ncfg_tier_of REQ_RELOAD = TIER_ADMIN"
  | "ncfg_tier_of REQ_SHOW = TIER_OBSERVE"
  | "ncfg_tier_of REQ_EXPLAIN = TIER_OBSERVE"
  | "ncfg_tier_of REQ_CONFIG_LIST = TIER_OBSERVE"
  | "ncfg_tier_of REQ_MONITOR = TIER_OBSERVE"
  | "ncfg_tier_of REQ_WIFI_SCAN = TIER_WIFI"
  | "ncfg_tier_of REQ_WIFI_STATUS = TIER_OBSERVE"
  | "ncfg_tier_of REQ_WIFI_ADD = TIER_WIFI"
  | "ncfg_tier_of REQ_WIFI_CONNECT = TIER_WIFI"
  | "ncfg_tier_of REQ_WIFI_DISCONNECT = TIER_WIFI"
  | "ncfg_tier_of REQ_WIFI_FORGET = TIER_WIFI"
  | "ncfg_tier_of REQ_CONFIG_PUT = TIER_ADMIN"
  | "ncfg_tier_of REQ_PROBE_LIST = TIER_OBSERVE"
  | "ncfg_tier_of REQ_HOOK_LIST = TIER_ADMIN"
  | "ncfg_tier_of REQ_PROFILE_LIST = TIER_OBSERVE"
  | "ncfg_tier_of REQ_MODEM_LIST = TIER_OBSERVE"
  | "ncfg_tier_of REQ_PROFILE_SAVE = TIER_ADMIN"
  | "ncfg_tier_of REQ_SECRET_LIST = TIER_OBSERVE"
  | "ncfg_tier_of REQ_PROFILE_SET = TIER_ADMIN"
  | "ncfg_tier_of REQ_PROBE_PUT = TIER_ADMIN"
  | "ncfg_tier_of REQ_SECRET_PUT = TIER_ADMIN"
  | "ncfg_tier_of REQ_CONFIG_DELETE = TIER_ADMIN"
  | "ncfg_tier_of REQ_SECRET_DELETE = TIER_ADMIN"
  | "ncfg_tier_of REQ_AP_STATIONS = TIER_OBSERVE"
  | "ncfg_tier_of REQ_RADIOS = TIER_OBSERVE"
  | "ncfg_tier_of REQ_RADIO_SET = TIER_WIFI"

datatype principal_kind = PRINCIPAL_ROOT | PRINCIPAL_ANY | PRINCIPAL_USER | PRINCIPAL_GROUP

record principal =
  pr_kind :: principal_kind
  pr_name :: cstring

record control =
  ct_observe :: principal
  ct_wifi :: principal
  ct_admin :: principal

record remote_policy =
  rp_observe :: bool
  rp_wifi :: bool
  rp_admin :: bool
  rp_agent :: principal

datatype arrival = ARRIVED_LOCAL | ARRIVED_REMOTE

definition ncfg_authz_satisfies :: "files \<Rightarrow> authz_roots option \<Rightarrow> peer option \<Rightarrow> principal option \<Rightarrow> bool" where
  "ncfg_authz_satisfies files places peer who =
     (let places = (case places of Some places \<Rightarrow> places | None \<Rightarrow> ncfg_authz_roots_default) in
      case (peer, who) of
        (Some p, Some who) \<Rightarrow>
          if ncfg_peer_is_root peer then True
          else (case pr_kind who of
             PRINCIPAL_ROOT \<Rightarrow> False
           | PRINCIPAL_ANY \<Rightarrow> True
           | PRINCIPAL_USER \<Rightarrow>
               (case ncfg_peer_user_id files (ar_passwd_file places) (pr_name who) of
                  None \<Rightarrow> False
                | Some uid \<Rightarrow> pe_uid p = uid)
           | PRINCIPAL_GROUP \<Rightarrow>
               (case ncfg_peer_group_id files (ar_group_file places) (pr_name who) of
                  None \<Rightarrow> False
                | Some gid \<Rightarrow> ncfg_peer_in_group peer gid))
      | _ \<Rightarrow> False)"

definition render_principal :: "nat \<Rightarrow> principal \<Rightarrow> bytes" where
  "render_principal out_size who =
     (let name = (case pr_name who of None \<Rightarrow> [] | Some name \<Rightarrow> cstr name) in
      snprintf_text out_size
        (case pr_kind who of
           PRINCIPAL_ANY \<Rightarrow> ascii ''any''
         | PRINCIPAL_USER \<Rightarrow> ascii ''user:'' @ name
         | PRINCIPAL_GROUP \<Rightarrow> ascii ''group:'' @ name
         | PRINCIPAL_ROOT \<Rightarrow> ascii ''root''))"

definition ncfg_authz_refusal :: "tier \<Rightarrow> principal \<Rightarrow> bytes" where
  "ncfg_authz_refusal tier who = snprintf_text NCFG_ERROR_MAX
     (ascii ''not permitted: this needs the `'' @ ascii (ncfg_tier_name tier) @
      ascii ''` tier, which the configuration opens to `'' @ render_principal 128 who @
      ascii ''`. Change it in the `control` block of netcfgd.conf.'')"

definition remote_allows :: "remote_policy option \<Rightarrow> tier \<Rightarrow> bool" where
  "remote_allows remote tier =
     (case remote of
        None \<Rightarrow> False
      | Some remote \<Rightarrow>
          (case tier of
             TIER_OBSERVE \<Rightarrow> rp_observe remote
           | TIER_WIFI \<Rightarrow> rp_wifi remote
           | TIER_ADMIN \<Rightarrow> rp_admin remote))"

definition principal_of :: "control \<Rightarrow> tier \<Rightarrow> principal" where
  "principal_of control tier =
     (case tier of
        TIER_OBSERVE \<Rightarrow> ct_observe control
      | TIER_WIFI \<Rightarrow> ct_wifi control
      | TIER_ADMIN \<Rightarrow> ct_admin control)"

definition check_remote :: "remote_policy option \<Rightarrow> request \<Rightarrow> bytes option" where
  "check_remote remote r =
     (let tier = ncfg_tier_of (rq_kind r) in
      if remote_allows remote tier then None
      else Some (snprintf_text NCFG_ERROR_MAX
        (ascii ''not permitted from off this machine: this needs the `'' @ ascii (ncfg_tier_name tier) @
         ascii ''` tier, which the configuration does not open remotely. Change it in the `remote` block of netcfgd.conf.'')))"

definition ncfg_authz_check ::
  "files \<Rightarrow> authz_roots option \<Rightarrow> control option \<Rightarrow> remote_policy option \<Rightarrow> arrival \<Rightarrow> peer option \<Rightarrow> request \<Rightarrow> bytes option" where
  "ncfg_authz_check files places control remote arrival peer r =
     (case control of
        None \<Rightarrow> Some (ascii ''not permitted: there is no policy to judge this by'')
      | Some control \<Rightarrow>
          if arrival = ARRIVED_REMOTE then check_remote remote r
          else
            (let tier = ncfg_tier_of (rq_kind r);
                 who = principal_of control tier
             in if ncfg_authz_satisfies files places peer (Some who) then None
                else Some (ncfg_authz_refusal tier who)))"

definition refuse_findings :: "privilege_findings \<Rightarrow> bytes" where
  "refuse_findings findings = snprintf_text NCFG_ERROR_MAX
     (case pf_at findings of
        [] \<Rightarrow> []
      | first # _ \<Rightarrow>
          ascii ''`'' @ cstr (pf_what first) @ ascii ''` needs root on this machine: '' @
          ascii (ncfg_privilege_why (pf_reason first)) @
          (if 1 < pf_total findings
           then ascii ''. '' @ decimal (pf_total findings) @ ascii '' such productions in this configuration.''
           else ascii ''. Send it as root, or leave it out.''))"

definition ncfg_authz_check_content :: "arrival \<Rightarrow> peer option \<Rightarrow> request \<Rightarrow> bytes option" where
  "ncfg_authz_check_content arrival peer r =
     (let put = rq_put r in
      if rq_kind r = REQ_PROBE_PUT then
        (if arrival = ARRIVED_LOCAL \<and> ncfg_peer_is_root peer then None
         else Some (snprintf_text NCFG_ERROR_MAX
           (ascii ''writing the link-detection script `'' @
            cstr (take 200 (case pt_name put of Some name \<Rightarrow> name | None \<Rightarrow> [])) @
            ascii ''` needs root on this machine: a probe is a program netcfgd runs as root, on an interval. Send it as root.'')))
      else if rq_kind r \<noteq> REQ_CONFIG_PUT then None
      else case ncfg_parse (case pt_text put of Some text \<Rightarrow> text | None \<Rightarrow> []) no_diags of
        Some (Inr file, _) \<Rightarrow>
          (let findings = ncfg_privilege_findings file in
           if pf_at findings = [] then None
           else if arrival = ARRIVED_LOCAL \<and> ncfg_peer_is_root peer then None
           else Some (refuse_findings findings))
      | _ \<Rightarrow> None)"

definition ncfg_authz_permitted ::
  "files \<Rightarrow> authz_roots option \<Rightarrow> control option \<Rightarrow> remote_policy option \<Rightarrow> arrival \<Rightarrow> peer option \<Rightarrow> request \<Rightarrow> bytes option" where
  "ncfg_authz_permitted files places control remote arrival peer r =
     (case ncfg_authz_check files places control remote arrival peer r of
        Some why \<Rightarrow> Some why
      | None \<Rightarrow> ncfg_authz_check_content arrival peer r)"

definition ncfg_authz_granted ::
  "files \<Rightarrow> authz_roots option \<Rightarrow> control option \<Rightarrow> remote_policy option \<Rightarrow> arrival \<Rightarrow> peer option \<Rightarrow> tier list" where
  "ncfg_authz_granted files places control remote arrival peer =
     (case control of
        None \<Rightarrow> []
      | Some control \<Rightarrow>
          filter (\<lambda>tier.
            if arrival = ARRIVED_REMOTE then remote_allows remote tier
            else ncfg_authz_satisfies files places peer (Some (principal_of control tier)))
            [TIER_OBSERVE, TIER_WIFI, TIER_ADMIN])"

subsection \<open>Orders that may be run twice\<close>

datatype order_class = ORDER_AT_MOST_ONCE | ORDER_IDEMPOTENT

definition ncfg_order_class_of :: "request_kind \<Rightarrow> order_class" where
  "ncfg_order_class_of kind =
     (case kind of
        REQ_CONFIRM \<Rightarrow> ORDER_AT_MOST_ONCE
      | REQ_REVERT \<Rightarrow> ORDER_AT_MOST_ONCE
      | REQ_PROFILE_SAVE \<Rightarrow> ORDER_AT_MOST_ONCE
      | _ \<Rightarrow> ORDER_IDEMPOTENT)"

subsection \<open>What a configuration grants\<close>

text \<open>The items of a file at every depth, each with the head of the block it stands in.\<close>

inductive occurs :: "bytes \<Rightarrow> ast_item list \<Rightarrow> bytes \<Rightarrow> ast_item \<Rightarrow> bool" where
  here: "item \<in> set items \<Longrightarrow> occurs block items block item"
| inside: "Ast_Block b \<in> set items \<Longrightarrow> occurs (block_head b) (block_items b) head item \<Longrightarrow> occurs block items head item"

text \<open>The strings a value is made of, at any depth of its lists.\<close>

fun value_strings :: "ast_value \<Rightarrow> bytes set" where
  "value_strings (Ast_String _ string) = {string}"
| "value_strings (Ast_List _ entries) = (\<Union>v \<in> set entries. value_strings v)"
| "value_strings _ = {}"

definition starts :: "string \<Rightarrow> bytes \<Rightarrow> bool" where
  "starts prefix string \<longleftrightarrow> (\<exists>rest. string = ascii prefix @ rest)"

text \<open>What an item lets its author do beyond configuring a network, standing in a block of that head.\<close>

fun grants_more :: "bytes \<Rightarrow> ast_item \<Rightarrow> bool" where
  "grants_more head (Ast_Hook _ _ _) = True"
| "grants_more head (Ast_Include _ _) = True"
| "grants_more head (Ast_Block _) = False"
| "grants_more head (Ast_Assignment key value _) =
     ((\<exists>string \<in> value_strings value. starts ''@secret:exec:'' string) \<or>
      (\<exists>(b, k, reason) \<in> set privileged. ascii b = cstr head \<and> ascii k = cstr key \<and>
         (reason = PRIV_PATH \<longrightarrow> \<not> (\<exists>span string. value = Ast_String span string \<and> starts ''@secret:'' string))))"

lemma starts_with_starts: "string_starts_with (Ast_String span string) prefix \<longleftrightarrow> starts prefix string"
  by (auto simp: string_starts_with_def starts_def) (metis append_take_drop_id)

lemma cert_path_starts: "cert_is_a_path v \<longleftrightarrow> \<not> (\<exists>span string. v = Ast_String span string \<and> starts ''@secret:'' string)"
  by (cases v) (auto simp: cert_is_a_path_def starts_with_starts)

lemma secret_exec_strings: "secret_exec v \<longleftrightarrow> (\<exists>string \<in> value_strings v. starts ''@secret:exec:'' string)"
  by (induction v rule: secret_exec.induct) (auto simp: starts_with_starts list_ex_iff)

lemma privileged_once: "(b, k, r) \<in> set privileged \<Longrightarrow> (b, k, r') \<in> set privileged \<Longrightarrow> r = r'"
  by (auto simp: privileged_def)

lemma assignment_reason_iff:
  "assignment_reason head key = Some reason \<longleftrightarrow>
   (\<exists>b k. (b, k, reason) \<in> set privileged \<and> ascii b = cstr head \<and> ascii k = cstr key)"
proof
  assume "assignment_reason head key = Some reason"
  then obtain b k where "find (\<lambda>(b, k, _). ascii b = cstr head \<and> ascii k = cstr key) privileged = Some (b, k, reason)"
    by (auto simp: assignment_reason_def)
  then show "\<exists>b k. (b, k, reason) \<in> set privileged \<and> ascii b = cstr head \<and> ascii k = cstr key"
    by (auto simp: find_Some_iff) (metis nth_mem)
next
  assume "\<exists>b k. (b, k, reason) \<in> set privileged \<and> ascii b = cstr head \<and> ascii k = cstr key"
  then obtain b k where bk: "(b, k, reason) \<in> set privileged" "ascii b = cstr head" "ascii k = cstr key" by blast
  then have "find (\<lambda>(b, k, _). ascii b = cstr head \<and> ascii k = cstr key) privileged \<noteq> None"
    by (auto simp: find_None_iff)
  then obtain b' k' r' where f: "find (\<lambda>(b, k, _). ascii b = cstr head \<and> ascii k = cstr key) privileged = Some (b', k', r')"
    by auto
  then have "(b', k', r') \<in> set privileged" "ascii b' = cstr head" "ascii k' = cstr key"
    by (auto simp: find_Some_iff) (metis nth_mem)
  with bk have "b' = b" "k' = k" by (auto simp flip: ascii_inject)
  with privileged_once [OF bk(1)] \<open>(b', k', r') \<in> set privileged\<close> f show "assignment_reason head key = Some reason"
    by (simp add: assignment_reason_def)
qed

text \<open>The findings of a walk: none before and none new exactly when nothing grants more.\<close>

definition clean :: "privilege_findings \<Rightarrow> bool" where
  "clean out \<longleftrightarrow> pf_at out = []"

lemma record_not_clean: "\<not> clean (record_finding out reason what span)"
  by (auto simp: record_finding_def clean_def Let_def NCFG_DIAGS_MAX_def)

lemma walk_assignment_clean:
  "clean (walk_assignment key v span head out) \<longleftrightarrow> clean out \<and> \<not> grants_more head (Ast_Assignment key v span)"
proof -
  have "(\<exists>(b, k, reason) \<in> set privileged. ascii b = cstr head \<and> ascii k = cstr key \<and>
      (reason = PRIV_PATH \<longrightarrow> cert_is_a_path v)) \<longleftrightarrow>
    (\<exists>reason. assignment_reason head key = Some reason \<and> (reason \<noteq> PRIV_PATH \<or> cert_is_a_path v))"
    unfolding assignment_reason_iff by blast
  then have "grants_more head (Ast_Assignment key v span) \<longleftrightarrow>
      secret_exec v \<or> (\<exists>reason. assignment_reason head key = Some reason \<and> (reason \<noteq> PRIV_PATH \<or> cert_is_a_path v))"
    unfolding grants_more.simps secret_exec_strings cert_path_starts by simp
  then show ?thesis
    by (auto simp: walk_assignment_def Let_def record_not_clean split: option.split)
qed

lemma fold_clean:
  assumes "\<And>item out. item \<in> set items \<Longrightarrow> clean (f item out) \<longleftrightarrow> clean out \<and> good item"
  shows "clean (fold f items out) \<longleftrightarrow> clean out \<and> (\<forall>item \<in> set items. good item)"
  using assms by (induction items arbitrary: out) auto

lemma occurs_item:
  "(\<forall>head item. occurs block [i] head item \<longrightarrow> \<not> grants_more head item) \<longleftrightarrow>
   \<not> grants_more block i \<and>
   (\<forall>b. i = Ast_Block b \<longrightarrow> (\<forall>head item. occurs (block_head b) (block_items b) head item \<longrightarrow> \<not> grants_more head item))"
  by (subst occurs.simps) auto

lemma occurs_items:
  "(\<forall>head item. occurs block items head item \<longrightarrow> \<not> grants_more head item) \<longleftrightarrow>
   (\<forall>i \<in> set items. \<forall>head item. occurs block [i] head item \<longrightarrow> \<not> grants_more head item)"
  by (subst (1 2) occurs.simps) (simp, blast)

lemma walk_item_clean:
  "clean (walk_item i block out) \<longleftrightarrow>
     clean out \<and> (\<forall>head item. occurs block [i] head item \<longrightarrow> \<not> grants_more head item)"
  and walk_block_clean:
  "clean (walk_block b out) \<longleftrightarrow>
     clean out \<and> (\<forall>head item. occurs (block_head b) (block_items b) head item \<longrightarrow> \<not> grants_more head item)"
proof (induction i block out and b out rule: walk_item_walk_block.induct)
  case (5 head label overrides items span out)
  then have "clean (fold (\<lambda>item. walk_item item head) items out) \<longleftrightarrow>
      clean out \<and> (\<forall>i \<in> set items. \<forall>h item. occurs head [i] h item \<longrightarrow> \<not> grants_more h item)"
    by (intro fold_clean) blast
  then show ?case using occurs_items [of head items] by simp
qed (simp_all add: occurs_item record_not_clean walk_assignment_clean del: grants_more.simps(4))

lemma findings_clean:
  "pf_at (ncfg_privilege_findings items) = [] \<longleftrightarrow> (\<forall>head item. occurs [] items head item \<longrightarrow> \<not> grants_more head item)"
proof -
  have "clean (walk items [] out) \<longleftrightarrow> clean out \<and> (\<forall>i \<in> set items. \<forall>h item. occurs [] [i] h item \<longrightarrow> \<not> grants_more h item)" for out
    unfolding walk_def by (rule fold_clean) (rule walk_item_clean)
  then show ?thesis using occurs_items [of "[]" items] by (simp add: ncfg_privilege_findings_def clean_def)
qed

subsection \<open>The policy\<close>

text \<open>Who a principal names, on a machine with those files.\<close>

definition names_peer :: "files \<Rightarrow> authz_roots \<Rightarrow> principal \<Rightarrow> peer \<Rightarrow> bool" where
  "names_peer files places who peer =
     (case pr_kind who of
        PRINCIPAL_ROOT \<Rightarrow> False
      | PRINCIPAL_ANY \<Rightarrow> True
      | PRINCIPAL_USER \<Rightarrow> ncfg_peer_user_id files (ar_passwd_file places) (pr_name who) = Some (pe_uid peer)
      | PRINCIPAL_GROUP \<Rightarrow>
          (\<exists>gid \<in> insert (pe_gid peer) (set (pe_groups peer)).
             ncfg_peer_group_id files (ar_group_file places) (pr_name who) = Some gid))"

definition remote_opens :: "remote_policy \<Rightarrow> tier set" where
  "remote_opens remote =
     (if rp_observe remote then {TIER_OBSERVE} else {}) \<union> (if rp_wifi remote then {TIER_WIFI} else {}) \<union>
     (if rp_admin remote then {TIER_ADMIN} else {})"

text \<open>A request whose contents ask for nothing but network configuration.\<close>

definition harmless :: "request \<Rightarrow> bool" where
  "harmless r =
     (case rq_kind r of
        REQ_PROBE_PUT \<Rightarrow> False
      | REQ_CONFIG_PUT \<Rightarrow>
          (\<forall>file diags. ncfg_parse (case pt_text (rq_put r) of Some text \<Rightarrow> text | None \<Rightarrow> []) no_diags = Some (Inr file, diags) \<longrightarrow>
             (\<forall>head item. occurs [] file head item \<longrightarrow> \<not> grants_more head item))
      | _ \<Rightarrow> True)"

lemma satisfies_names:
  "ncfg_authz_satisfies files (Some places) (Some peer) (Some who) \<longleftrightarrow>
   pe_uid peer = 0 \<or> names_peer files places who peer"
  by (auto simp: ncfg_authz_satisfies_def ncfg_peer_is_root_def names_peer_def ncfg_peer_in_group_def list_ex_iff
      split: principal_kind.split option.split)

lemma remote_allows_opens: "remote_allows remote tier \<longleftrightarrow> (\<exists>policy. remote = Some policy \<and> tier \<in> remote_opens policy)"
  by (cases tier) (auto simp: remote_allows_def remote_opens_def split: option.split)

lemma check_content_harmless:
  "ncfg_authz_check_content arrival peer r = None \<longleftrightarrow> harmless r \<or> arrival = ARRIVED_LOCAL \<and> ncfg_peer_is_root peer"
proof -
  have content: "(case p of
      Some (Inr file, _) \<Rightarrow> (let findings = ncfg_privilege_findings file in
           if pf_at findings = [] then None else if ok then None else Some (refuse_findings findings))
      | _ \<Rightarrow> None) = (None :: bytes option) \<longleftrightarrow>
      (\<forall>file diags. p = Some (Inr file, diags) \<longrightarrow> (\<forall>head item. occurs [] file head item \<longrightarrow> \<not> grants_more head item)) \<or> ok"
    for p :: "((bytes + ast_item list) \<times> diags) option" and ok
    by (auto simp: Let_def findings_clean split: option.split sum.split prod.split)
  show ?thesis
  proof (cases "rq_kind r = REQ_CONFIG_PUT")
    case True
    then show ?thesis
      using content [where p = "ncfg_parse (case pt_text (rq_put r) of Some text \<Rightarrow> text | None \<Rightarrow> []) no_diags"
          and ok = "arrival = ARRIVED_LOCAL \<and> ncfg_peer_is_root peer"]
      by (simp add: ncfg_authz_check_content_def harmless_def)
  next
    case False
    then show ?thesis by (cases "rq_kind r") (simp_all add: ncfg_authz_check_content_def harmless_def Let_def)
  qed
qed


lemma check_content_remote:
  "ncfg_authz_check_content ARRIVED_REMOTE peer r = ncfg_authz_check_content ARRIVED_REMOTE peer' r"
proof -
  have "(ARRIVED_REMOTE = ARRIVED_LOCAL \<and> x) = False" for x by simp
  then show ?thesis unfolding ncfg_authz_check_content_def by (simp only:)
qed

text \<open>
  C12.  A remote caller gains nothing from who terminates the connection.  What the gate answers a
  request that arrived from off the machine -- permission, or the very sentence of the refusal -- is
  the same whatever the credentials of the process on this end are, root included, and whatever the
  machine's group and user databases hold.
\<close>

theorem remote_ignores_peer:
  "ncfg_authz_permitted files places control remote ARRIVED_REMOTE peer r =
   ncfg_authz_permitted files' places' control remote ARRIVED_REMOTE peer' r"
  using check_content_remote [of peer r peer']
  by (simp add: ncfg_authz_permitted_def ncfg_authz_check_def split: option.split)

text \<open>
  A client is told the truth about its tiers.  The list the greeting carries holds a request's
  tier exactly when the tier check permits that request on this connection.
\<close>

theorem granted_agrees:
  "ncfg_tier_of (rq_kind r) \<in> set (ncfg_authz_granted files places control remote arrival peer) \<longleftrightarrow>
   ncfg_authz_check files places control remote arrival peer r = None"
  by (cases control; cases arrival; cases "ncfg_tier_of (rq_kind r)")
    (simp_all add: ncfg_authz_granted_def ncfg_authz_check_def check_remote_def Let_def)

end
