(* ===== verification/Ncfg_Request_Props.thy ===== *)
theory Ncfg_Request_Props
  imports Ncfg_Request_Fields
begin

text \<open>
  The round trip of a request, and what a request that is read cannot be.
\<close>

subsection \<open>The decoder reads the fields\<close>

lemma plain_member_names [simp]:
  "plain_name ''confirm''" "plain_name ''allow_disruption''" "plain_name ''strand_credentials''"
  "plain_name ''restart_wedged''" "plain_name ''no_rollback''" "plain_name ''ssid''" "plain_name ''passphrase''"
  "plain_name ''proto''" "plain_name ''hidden''" "plain_name ''metric''" "plain_name ''owe''"
  "plain_name ''network''" "plain_name ''text''" "plain_name ''value''" "plain_name ''replace''"
  "plain_name ''activate''" "plain_name ''method''" "plain_name ''identity''" "plain_name ''anonymous_identity''"
  "plain_name ''phase2''" "plain_name ''ca_cert''" "plain_name ''client_cert''"
  by (simp_all add: plain_text_def json_utf8_ascii)

lemma field_in: "distinct (map fst fs) \<Longrightarrow> (name, v) \<in> set fs \<Longrightarrow> field fs name = v"
proof -
  have absent: "name \<notin> fst ` set fs \<Longrightarrow> field fs name = None" for fs name
    by (induction fs name rule: field.induct) auto
  show "distinct (map fst fs) \<Longrightarrow> (name, v) \<in> set fs \<Longrightarrow> field fs name = v"
  proof (induction fs name rule: field.induct)
    case (2 n v' fs name)
    then show ?case
    proof (cases "n = name")
      case True
      with 2 have "v = v'" by force
      with 2 True absent [of name fs] show ?thesis by (cases v') auto
    qed auto
  qed simp
qed

lemma get_text:
  assumes "object_at doc obj (field_members fs)" "plain_name name" "distinct (map fst fs)"
    "a_text name s \<in> set fs" "required \<Longrightarrow> s \<noteq> None"
  shows "ncfg_proto_get_str doc obj name required what = Inr s"
  using assms(5) by (cases s) (auto simp: get_str_field [OF assms(1,2)] field_in [OF assms(3,4)])

lemma get_flag:
  assumes "object_at doc obj (field_members fs)" "plain_name name" "distinct (map fst fs)"
    "a_flag name flag \<in> set fs"
  shows "ncfg_proto_get_bool doc obj name False False what = Inr flag"
  by (simp add: get_bool_field [OF assms(1,2)] field_in [OF assms(3,4)])

lemma get_number:
  assumes "object_at doc obj (field_members fs)" "plain_name name" "distinct (map fst fs)"
    "(name, map_option V_Int i) \<in> set fs"
  shows "ncfg_proto_get_int doc obj name False what = Inr i"
  by (simp add: get_int_field [OF assms(1,2)] field_in [OF assms(3,4)] split: option.split)

lemma get_texts:
  assumes "object_at doc obj (field_members fs)" "plain_name name" "distinct (map fst fs)"
    "(name, Some (V_Texts ss)) \<in> set fs" "fields_ok fs"
  shows "ncfg_proto_get_strs doc obj name required what = Inr ss"
proof -
  from assms(4,5) have "value_ok (V_Texts ss)" by (force simp: fields_ok_def list_all_iff)
  with get_strs_field [OF assms(1,2) field_in [OF assms(3,4)]] show ?thesis .
qed

lemma get_object:
  assumes "object_at doc obj (field_members fs)" "plain_name name" "distinct (map fst fs)"
    "(name, map_option (\<lambda>x. V_Object (f x)) t) \<in> set fs"
  shows "case t of
      None \<Rightarrow> ncfg_json_member doc obj (ascii name) = None
    | Some x \<Rightarrow> present doc (ncfg_json_member doc obj (ascii name)) \<and>
        object_at doc (ncfg_json_member doc obj (ascii name)) (field_members (text_fields (f x)))"
  using object_field [OF assms(1,2)] field_in [OF assms(3,4)] by (cases t) simp_all

lemma decode_subject_fields:
  assumes o: "object_at doc obj (field_members (text_fields (subject_texts s)))" and "subject_complete s"
  shows "decode_subject doc obj = Inr (own_subject s)"
proof -
  have d: "distinct (map fst (text_fields (subject_texts s)))"
    by (cases "sb_kind s") (simp_all add: text_fields_def subject_texts_def)
  note get = get_text [OF o _ d]
  have "ncfg_proto_get_str doc obj ''subject'' True what = Inr (Some (ascii (subject_names (sb_kind s))))" for what
    by (rule get) (simp_all add: text_fields_def subject_texts_def del: ascii_simps)
  with assms(2) show ?thesis
    by (cases "sb_kind s")
      (simp_all add: decode_subject_def object_type [OF o] get [of _ "sb_name s"] get [of _ "sb_interface s"]
        get [of _ "sb_address s"] get [of _ "sb_destination s"]
        checked_fields [OF o d] own_subject_def subject_complete_def text_fields_def subject_texts_def del: ascii_simps)
qed

lemma decode_eap_fields:
  assumes o: "object_at doc obj (field_members (text_fields (eap_texts e)))"
    and "ep_method e \<noteq> None" "ep_identity e \<noteq> None"
  shows "decode_eap doc obj = Inr e"
proof -
  have d: "distinct (map fst (text_fields (eap_texts e)))" by (simp add: text_fields_def eap_texts_def)
  have "checked doc obj ''method'' eap_members what out = Inr out" for what and out :: eap
    by (rule checked_fields [OF o d]) (simp_all add: text_fields_def eap_texts_def eap_members_def del: ascii_simps)
  moreover have get: "ncfg_proto_get_str doc obj name required what = Inr s"
    if "(name, s) \<in> set (eap_texts e)" "plain_name name" "required \<Longrightarrow> s \<noteq> None" for name required what s
    by (rule get_text [OF o that(2) d _ that(3)]) (use that(1) in \<open>force simp: text_fields_def\<close>)
  ultimately show ?thesis using assms(2,3)
    by (simp add: decode_eap_def object_type [OF o] get [of _ "ep_method e"] get [of _ "ep_identity e"]
        get [of _ "ep_anonymous_identity e"] get [of _ "ep_phase2 e"] get [of _ "ep_ca_cert e"]
        get [of _ "ep_client_cert e"] eap_texts_def Let_def del: ascii_simps)
qed

lemma distinct_request: "distinct (map fst (request_fields r))"
  by (cases "rq_kind r") (simp_all add: request_fields_def payload_fields_def)

lemma request_in_members: "set (map fst (request_fields r)) \<subseteq> set (''request'' # request_members (rq_kind r))"
  by (cases "rq_kind r") (simp_all add: request_fields_def payload_fields_def)

lemma in_request_fields: "f \<in> set (payload_fields r) \<Longrightarrow> f \<in> set (request_fields r)"
  by (simp add: request_fields_def)

lemma decode_apply_fields:
  assumes o: "object_at doc obj (field_members (request_fields r))" and k: "rq_kind r = REQ_APPLY"
    and ok: "fields_ok (request_fields r)"
  shows "decode_apply doc obj = Inr (rq_apply r)"
proof -
  note d = distinct_request [of r] and i = in_request_fields [of _ r, unfolded payload_fields_def k, simplified]
  have "ncfg_proto_get_int doc obj ''confirm'' False this_request = Inr (ap_confirm (rq_apply r))"
    by (rule get_number [OF o _ d i]) (simp_all del: ascii_simps)
  moreover have "ncfg_proto_get_strs doc obj ''allow_disruption'' False this_request = Inr (ap_allow_disruption (rq_apply r))"
    "ncfg_proto_get_strs doc obj ''strand_credentials'' False this_request = Inr (ap_strand_credentials (rq_apply r))"
    "ncfg_proto_get_strs doc obj ''restart_wedged'' False this_request = Inr (ap_restart_wedged (rq_apply r))"
    by (rule get_texts [OF o _ d i ok]; simp del: ascii_simps)+
  moreover have "ncfg_proto_get_str doc obj ''no_rollback'' False this_request = Inr (ap_no_rollback (rq_apply r))"
    by (rule get_text [OF o _ d i]) (simp_all del: ascii_simps)
  ultimately show ?thesis by (simp add: decode_apply_def)
qed

lemma decode_wifi_add_fields:
  assumes o: "object_at doc obj (field_members (request_fields r))" and k: "rq_kind r = REQ_WIFI_ADD"
    and c: "wifi_complete (rq_wifi_add r)"
  shows "decode_wifi_add doc obj = Inr (rq_wifi_add r)"
proof -
  note d = distinct_request [of r] and i = in_request_fields [of _ r, unfolded payload_fields_def k, simplified]
  let ?w = "rq_wifi_add r" and ?e = "ncfg_json_member doc obj (ascii ''eap'')"
  have "ncfg_proto_get_str doc obj ''ssid'' True this_request = Inr (wi_ssid ?w)"
    by (rule get_text [OF o _ d i]) (use c in \<open>simp_all add: wifi_complete_def del: ascii_simps\<close>)
  moreover have "ncfg_proto_get_str doc obj ''id'' False this_request = Inr (wi_id ?w)"
    "ncfg_proto_get_str doc obj ''passphrase'' False this_request = Inr (wi_passphrase ?w)"
    "ncfg_proto_get_str doc obj ''proto'' False this_request = Inr (wi_proto ?w)"
    by (rule get_text [OF o _ d i]; simp del: ascii_simps)+
  moreover have "ncfg_proto_get_bool doc obj ''hidden'' False False this_request = Inr (wi_hidden ?w)"
    "ncfg_proto_get_bool doc obj ''owe'' False False this_request = Inr (wi_owe ?w)"
    by (rule get_flag [OF o _ d i]; simp del: ascii_simps)+
  moreover have "ncfg_proto_get_int doc obj ''metric'' False this_request = Inr (wi_metric ?w)"
    by (rule get_number [OF o _ d i]) (simp_all del: ascii_simps)
  moreover have "case wi_eap ?w of None \<Rightarrow> ?e = None
    | Some e \<Rightarrow> present doc ?e \<and> object_at doc ?e (field_members (text_fields (eap_texts e)))"
    by (rule get_object [OF o _ d i]) (simp_all del: ascii_simps)
  then have "(if present doc ?e then and_then (decode_eap doc ?e) (\<lambda>e. Inr (Some e)) else Inr None) = Inr (wi_eap ?w)"
    using c by (auto simp: wifi_complete_def present_def decode_eap_fields split: option.splits)
  ultimately have "decode_wifi_add doc obj = Inr \<lparr>wi_ssid = wi_ssid ?w, wi_id = wi_id ?w,
      wi_passphrase = wi_passphrase ?w, wi_proto = wi_proto ?w, wi_hidden = wi_hidden ?w, wi_metric = wi_metric ?w,
      wi_eap = wi_eap ?w, wi_owe = wi_owe ?w\<rparr>"
    unfolding decode_wifi_add_def Let_def by (simp only: and_then.simps)
  then show ?thesis by simp
qed

text \<open>The arms that are texts and flags only.\<close>

lemma decode_payload_fields:
  assumes o: "object_at doc obj (field_members (request_fields r))" and c: "complete r"
    and ok: "fields_ok (request_fields r)"
  shows "decode_payload doc obj (rq_kind r) (no_request\<lparr>rq_kind := rq_kind r\<rparr>) = Inr (own_arm r)"
proof -
  note d = distinct_request [of r] and i = in_request_fields [of _ r, unfolded payload_fields_def, simplified]
  have text': "ncfg_proto_get_str doc obj name required this_request = Inr s"
    if "plain_name name" "a_text name s \<in> set (payload_fields r)" "required \<Longrightarrow> s \<noteq> None" for name required s
    by (rule get_text [OF o that(1) d in_request_fields [OF that(2)] that(3)])
  have flag: "ncfg_proto_get_bool doc obj name False False this_request = Inr flag"
    if "plain_name name" "a_flag name flag \<in> set (payload_fields r)" for name flag
    by (rule get_flag [OF o that(1) d in_request_fields [OF that(2)]])
  note arm = decode_payload_def own_arm_def complete_def Let_def
  note texts = text' [of _ "rq_interface r"] text' [of _ "rq_id r"] text' [of _ "rq_name r"]
    text' [of _ "wc_interface (rq_wifi_connect r)"] text' [of _ "wc_network (rq_wifi_connect r)"]
    text' [of _ "pt_name (rq_put r)"] text' [of _ "pt_text (rq_put r)"]
    text' [of _ "sp_name (rq_secret_put r)"] text' [of _ "sp_value (rq_secret_put r)"]
    text' [of _ "pv_name (rq_profile_save r)"] text' [of _ "rd_interface (rq_radio_set r)"]
    flag [of _ "pt_replace (rq_put r)"] flag [of _ "sp_replace (rq_secret_put r)"]
    flag [of _ "pv_replace (rq_profile_save r)"]
  show ?thesis
  proof (cases "rq_kind r = REQ_APPLY \<or> rq_kind r = REQ_WIFI_ADD \<or> rq_kind r = REQ_EXPLAIN \<or> rq_kind r = REQ_RADIO_SET")
    case True
    then consider (a) "rq_kind r = REQ_APPLY" | (w) "rq_kind r = REQ_WIFI_ADD" | (e) "rq_kind r = REQ_EXPLAIN"
      | (rs) "rq_kind r = REQ_RADIO_SET" by blast
    then show ?thesis
    proof cases
      case a
      with decode_apply_fields [OF o a ok] show ?thesis by (simp add: arm)
    next
      case w
      with decode_wifi_add_fields [OF o w] c show ?thesis by (simp add: arm)
    next
      case e
      have "case Some (rq_explain r) of None \<Rightarrow> ncfg_json_member doc obj (ascii ''subject'') = None
        | Some x \<Rightarrow> present doc (ncfg_json_member doc obj (ascii ''subject'')) \<and>
            object_at doc (ncfg_json_member doc obj (ascii ''subject'')) (field_members (text_fields (subject_texts x)))"
        by (rule get_object [OF o _ d i]) (simp_all add: e del: ascii_simps)
      with e c show ?thesis by (auto simp: arm present_def decode_subject_fields simp del: ascii_simps)
    next
      case rs
      have "field (request_fields r) ''activate'' = Some (V_Bool (rd_activate (rq_radio_set r)))"
        by (rule field_in [OF d i]) (simp add: rs)
      then have "ncfg_proto_get_bool doc obj ''activate'' True False this_request = Inr (rd_activate (rq_radio_set r))"
        by (simp add: get_bool_field [OF o] del: ascii_simps)
      with rs c show ?thesis by (simp add: arm texts payload_fields_def del: ascii_simps)
    qed
  next
    case False
    with c show ?thesis
      by (cases "rq_kind r")
        (simp_all add: arm texts payload_fields_def decode_interface_def decode_name_def decode_put_def
          decode_secret_put_def del: ascii_simps)
  qed
qed

lemma kind_from_names: "ncfg_proto_request_kind_from (ascii (request_names kind)) = Some kind"
  by (cases kind) (simp_all add: ncfg_proto_request_kind_from_def request_kinds_def del: ascii_simps)

lemma decode_request_fields:
  assumes o: "object_at doc obj (field_members (request_fields r))" and "complete r" "fields_ok (request_fields r)"
  shows "ncfg_proto_decode_request doc obj = Inr (own_arm r)"
proof -
  have "ncfg_proto_get_str doc obj ''request'' True this_request = Inr (Some (ascii (request_names (rq_kind r))))"
    by (rule get_text [OF o _ distinct_request]) (simp_all add: request_fields_def del: ascii_simps)
  moreover have "checked doc obj ''request'' (request_members (rq_kind r)) this_request (own_arm r) = Inr (own_arm r)"
    by (rule checked_fields [OF o distinct_request request_in_members])
      (simp add: plain_request_members del: ascii_simps)
  ultimately show ?thesis using decode_payload_fields [OF assms]
    by (simp add: ncfg_proto_decode_request_def kind_from_names del: ascii_simps)
qed

subsection \<open>The round trip\<close>

text \<open>What the encoder can write: a request that is complete, all of its texts UTF-8.\<close>

definition encodable :: "request \<Rightarrow> bool" where
  "encodable r \<longleftrightarrow> complete r \<and> fields_ok (payload_fields r)"

lemma unbuilt_not_done:
  assumes "buf_inv buf" "\<not> ncfg_buf_failed buf" "builds cs ([], None) = None"
  shows "\<not> ncfg_json_write_done (foldl write_call (ncfg_json_write_init buf) cs)"
proof -
  from assms(2) have f: "\<not> bfailed buf" by (simp add: ncfg_buf_failed_def)
  note ir = init_rel [OF assms(1) f]
  from writes_rel [OF ir(1), of cs] ir(2) assms(3) show ?thesis by (simp add: ncfg_json_write_done_def)
qed

lemma encode_request_calls:
  "complete r \<Longrightarrow> ncfg_proto_request_encode r out =
    (let writer = foldl write_call (ncfg_json_write_init out) (request_calls r) in
     if \<not> ncfg_json_write_done writer then
       (Inl (ascii ''the request could not be written: '' @
         (case ncfg_json_write_failure writer of Some why \<Rightarrow> why | None \<Rightarrow> ascii ''it was left unfinished'')),
        jw_buf writer)
     else (Inr (), jw_buf writer))"
proof -
  assume c: "complete r"
  define w where "w = ncfg_json_write_member_string (ncfg_json_write_object_begin (ncfg_json_write_init out))
    (Some (ascii ''request'')) (Some (ascii (request_names (rq_kind r))))"
  have "encode_payload r w = (None, foldl write_call w (payload_calls r))"
    using encode_payload_none [of r w] encode_payload_calls [OF c, of w] c by (simp add: prod_eq_iff)
  moreover have "foldl write_call (ncfg_json_write_init out) (request_calls r) =
      ncfg_json_write_object_end (foldl write_call w (payload_calls r))"
    by (simp add: request_calls_def w_def ncfg_json_write_member_string_def)
  ultimately show ?thesis
    by (simp add: ncfg_proto_request_encode_def w_def [symmetric] Let_def del: ascii_simps)
qed

lemma encode_request:
  assumes "buf_inv out" "\<not> ncfg_buf_failed out"
  shows "if encodable r \<and> length (json_text (request_json r)) \<le> buf_room out
    then fst (ncfg_proto_request_encode r out) = Inr () \<and>
      ncfg_buf_text (snd (ncfg_proto_request_encode r out)) = ncfg_buf_text out @ json_text (request_json r)
    else \<exists>why. fst (ncfg_proto_request_encode r out) = Inl why"
proof (cases "complete r")
  case False
  then have refused: "fst (encode_payload r w) \<noteq> None" for w by (simp add: encode_payload_none)
  have "\<exists>why. fst (case encode_payload r w of (Some why, w) \<Rightarrow> (Inl why, f w) | (None, w) \<Rightarrow> g w) = Inl why"
    for w f and g :: "json_writer \<Rightarrow> (bytes + unit) \<times> buf"
    using refused [of w] by (cases "encode_payload r w") auto
  with False show ?thesis by (simp add: ncfg_proto_request_encode_def encodable_def Let_def)
next
  case c: True
  note enc = encode_request_calls [OF c, of out]
  show ?thesis
  proof (cases "fields_ok (payload_fields r)")
    case True
    with builds_request [of r] have "builds (request_calls r) ([], None) = Some ([], Some (request_json r))" by simp
    from writer_writes [OF assms this] True c show ?thesis by (simp add: enc encodable_def Let_def)
  next
    case False
    with builds_request [of r] have "builds (request_calls r) ([], None) = None" by simp
    from unbuilt_not_done [OF assms this] False show ?thesis by (simp add: enc encodable_def Let_def)
  qed
qed

lemma request_reads:
  assumes "encodable r" "length (json_text (request_json r)) < 2 ^ 31"
  shows "ncfg_proto_request_read (json_text (request_json r)) = Inr (own_arm r)"
proof -
  from assms(1) have c: "complete r" "fields_ok (payload_fields r)" by (simp_all add: encodable_def)
  with builds_request [of r] have b: "builds (request_calls r) ([], None) = Some ([], Some (request_json r))" by simp
  from built_parses [OF b assms(2)] obtain doc where
    p: "ncfg_json_parse (json_text (request_json r)) = Inr doc" "laid_out doc 0 0 None None (request_json r)" .
  then have o: "object_at doc (Some 0) (field_members (request_fields r))"
    by (auto simp: object_at_def request_json_def)
  have root: "ncfg_json_root doc = Some 0" using laid_out_node(1) [OF p(2)] by (auto simp: ncfg_json_root_def)
  have ok: "fields_ok (request_fields r)" using c(2) plain_request_names [of "rq_kind r"]
    by (simp add: request_fields_def fields_ok_def)
  have "field (request_fields r) ''request'' \<noteq> None" by (simp add: request_fields_def)
  with field_member [OF o, of "''request''"] have "ncfg_json_member doc (Some 0) (ascii ''request'') \<noteq> None"
    by (auto simp del: ascii_simps split: option.splits)
  then have "tag_of doc (Some 0) = Some MESSAGE_REQUEST" by (simp add: tag_of_def)
  with p(1) root object_type [OF o] decode_request_fields [OF o c(1) ok] show ?thesis
    by (simp add: ncfg_proto_request_read_def)
qed

text \<open>
  C11.  A request reads back as itself.  Whatever request the encoder accepts -- one that has every
  member its kind needs, with texts that are UTF-8 -- it writes as one JSON object into a healthy
  buffer with room for it, and the daemon's reader answers that text with the same kind and the same
  arm, every other field empty; and when a member is missing, a text is not UTF-8 or the buffer is
  too small, the encoder reports it.
\<close>

theorem request_roundtrip:
  assumes "buf_inv out" "\<not> ncfg_buf_failed out" "buf_room out < 2 ^ 31"
  shows "if encodable r \<and> length (json_text (request_json r)) \<le> buf_room out
    then fst (ncfg_proto_request_encode r out) = Inr () \<and>
      ncfg_buf_text (snd (ncfg_proto_request_encode r out)) = ncfg_buf_text out @ json_text (request_json r) \<and>
      ncfg_proto_request_read (json_text (request_json r)) = Inr (own_arm r)
    else \<exists>why. fst (ncfg_proto_request_encode r out) = Inl why"
  using encode_request [OF assms(1,2), of r] request_reads [of r] assms(3) by (auto split: if_splits)

definition sample_request :: request where
  "sample_request = no_request\<lparr>rq_kind := REQ_EXPLAIN,
     rq_explain := \<lparr>sb_kind = SUBJECT_ROUTE, sb_name = None, sb_interface = Some (ascii ''eth0''),
       sb_address = None, sb_destination = Some (ascii ''0.0.0.0/0'')\<rparr>\<rparr>"

theorem request_roundtrip_witness:
  "fst (ncfg_proto_request_encode sample_request (ncfg_buf_init 200)) = Inr () \<and>
   ncfg_proto_request_read (json_text (request_json sample_request)) = Inr sample_request"
proof -
  have "encodable sample_request \<and> length (json_text (request_json sample_request)) \<le> 200"
    "own_arm sample_request = sample_request" by code_simp+
  then show ?thesis using request_roundtrip [of "ncfg_buf_init 200" sample_request]
    by (simp add: buf_inv_init init_fields ncfg_buf_failed_def)
qed

subsection \<open>Strictness\<close>

lemma check_members_accepts:
  assumes "check_members_at doc obj known allowed what ats = None" "at \<in> set ats"
    "ncfg_json_node doc (ncfg_json_at doc obj at) \<noteq> None"
  shows "member_known doc obj (known # allowed) (ncfg_json_at doc obj at)"
  using assms
  by (induction doc obj known allowed what ats rule: check_members_at.induct)
    (auto simp: Let_def split: option.splits if_splits)

lemma checkedD: "checked doc obj known allowed what out = Inr r \<Longrightarrow> r = out \<and> ncfg_proto_check_members doc obj known allowed what = None"
  by (simp add: checked_def split: option.splits)

lemma and_thenD: "and_then x f = Inr r \<Longrightarrow> \<exists>y. x = Inr y \<and> f y = Inr r"
  by (cases x) simp_all

lemma decode_payload_kind: "decode_payload doc obj kind out = Inr r \<Longrightarrow> rq_kind r = rq_kind out"
  by (cases kind) (auto simp: decode_payload_def decode_interface_def decode_name_def Let_def
      dest!: and_thenD split: if_splits)

text \<open>
  C35.  The reader is strict.  A line that is read as a request is one JSON object, and each of its
  members is the one the daemon finds by the name \<^verbatim>\<open>request\<close> or by one of the names its kind defines:
  a member under any other name, and a name that is there twice, refuse the whole line.
\<close>

theorem request_strict:
  assumes "ncfg_proto_request_read line = Inr r"
  shows "\<exists>doc. ncfg_json_parse line = Inr doc \<and> ncfg_json_type doc (ncfg_json_root doc) = TObject \<and>
    (\<forall>at < ncfg_json_count doc (ncfg_json_root doc).
       ncfg_json_node doc (ncfg_json_at doc (ncfg_json_root doc) at) \<noteq> None \<longrightarrow>
       (\<exists>name \<in> set (''request'' # request_members (rq_kind r)).
          ncfg_json_member doc (ncfg_json_root doc) (ascii name) = ncfg_json_at doc (ncfg_json_root doc) at))"
proof -
  from assms obtain doc where d: "ncfg_json_parse line = Inr doc"
    "ncfg_json_type doc (ncfg_json_root doc) = TObject" "ncfg_proto_decode_request doc (ncfg_json_root doc) = Inr r"
    by (auto simp: ncfg_proto_request_read_def Let_def simp del: ascii_simps
        split: sum.splits prod.splits if_splits option.splits message_kind.splits)
  from d(3) obtain kind out where k: "decode_payload doc (ncfg_json_root doc) kind (no_request\<lparr>rq_kind := kind\<rparr>) = Inr out"
    "checked doc (ncfg_json_root doc) ''request'' (request_members kind) this_request out = Inr r"
    by (auto simp: ncfg_proto_decode_request_def simp del: ascii_simps dest!: and_thenD split: option.splits)
  note c = checkedD [OF k(2)] and kind = decode_payload_kind [OF k(1)]
  have "\<exists>name \<in> set (''request'' # request_members (rq_kind r)).
      ncfg_json_member doc (ncfg_json_root doc) (ascii name) = ncfg_json_at doc (ncfg_json_root doc) at"
    if "at < ncfg_json_count doc (ncfg_json_root doc)"
      "ncfg_json_node doc (ncfg_json_at doc (ncfg_json_root doc) at) \<noteq> None" for at
  proof -
    from c kind have "check_members_at doc (ncfg_json_root doc) ''request'' (request_members (rq_kind r)) this_request
        [0..<ncfg_json_count doc (ncfg_json_root doc)] = None" by (simp add: ncfg_proto_check_members_def)
    from check_members_accepts [OF this _ that(2)] that(1) show ?thesis
      unfolding member_known_def list_ex_iff by simp
  qed
  with d(1,2) show ?thesis by blast
qed

theorem request_strict_witness:
  "\<exists>doc. ncfg_json_parse (json_text (request_json sample_request)) = Inr doc \<and>
    ncfg_json_type doc (ncfg_json_root doc) = TObject"
proof -
  have e: "encodable sample_request" "length (json_text (request_json sample_request)) \<le> 200" by code_simp+
  from request_reads [OF e(1)] e(2)
  have "ncfg_proto_request_read (json_text (request_json sample_request)) = Inr (own_arm sample_request)" by simp
  from request_strict [OF this] show ?thesis by blast
qed

end
