(* ===== verification/Ncfg_Serve.thy ===== *)
theory Ncfg_Serve
  imports Ncfg_Authorize Ncfg_Request_Props
begin

text \<open>
  A client's connection from its bytes to its answers: the responses the daemon writes for itself and
  the loop that sends a line (\<^verbatim>\<open>c/src/daemon/answer.c\<close>), and what becomes of one decoded request
  (\<^verbatim>\<open>serve_one\<close>, \<^verbatim>\<open>serve_monitor\<close> and the body of \<^verbatim>\<open>connection\<close> in \<^verbatim>\<open>server.c\<close>).

  What the functions the server is handed do -- answering a request and taking a subscriber -- is an
  argument, over a state of their own; so is what each \<^verbatim>\<open>send\<close> on the socket comes to.  The server's
  lock, its slots and its threads have no counterpart: one connection is served at a time.
\<close>

subsection \<open>Responses\<close>

definition NCFG_DAEMON_PROTOCOL_MAJOR :: "64 word" where
  "NCFG_DAEMON_PROTOCOL_MAJOR = 1"

definition NCFG_DAEMON_PROTOCOL_MINOR :: "64 word" where
  "NCFG_DAEMON_PROTOCOL_MINOR = 3"

definition NCFG_SCHEMA_MAJOR :: "64 word" where
  "NCFG_SCHEMA_MAJOR = 1"

definition NCFG_SCHEMA_MINOR :: "64 word" where
  "NCFG_SCHEMA_MINOR = 1"

text \<open>The refusal and the buffer, which is failed together with it.\<close>

definition finish_response :: "json_writer \<Rightarrow> string \<Rightarrow> bytes option \<times> buf" where
  "finish_response writer what =
     (if \<not> ncfg_json_write_done writer then
        (Some (ascii ''the '' @ ascii what @ ascii '' response could not be written: '' @
           (case ncfg_json_write_failure writer of Some why \<Rightarrow> why | None \<Rightarrow> ascii ''it was left unfinished'')),
         (jw_buf writer)\<lparr>bfailed := True\<rparr>)
      else (None, jw_buf writer))"

definition ncfg_daemon_error_encode :: "bytes \<Rightarrow> buf \<Rightarrow> bytes option \<times> buf" where
  "ncfg_daemon_error_encode message out =
     (let writer = ncfg_json_write_object_begin (ncfg_json_write_init out);
          writer = ncfg_json_write_member_string writer (Some (ascii ''response'')) (Some (ascii ''error''));
          writer = ncfg_json_write_member_string writer (Some (ascii ''message'')) (Some message);
          writer = ncfg_json_write_object_end writer
      in finish_response writer ''error'')"

definition ncfg_daemon_ok_encode :: "buf \<Rightarrow> bytes option \<times> buf" where
  "ncfg_daemon_ok_encode out =
     (let writer = ncfg_json_write_object_begin (ncfg_json_write_init out);
          writer = ncfg_json_write_member_string writer (Some (ascii ''response'')) (Some (ascii ''ok''));
          writer = ncfg_json_write_object_end writer
      in finish_response writer ''ok'')"

definition write_version :: "json_writer \<Rightarrow> string \<Rightarrow> 64 word \<Rightarrow> 64 word \<Rightarrow> json_writer" where
  "write_version writer name major minor =
     (let writer = ncfg_json_write_object_begin (ncfg_json_write_key writer (Some (ascii name)));
          writer = ncfg_json_write_member_int writer (Some (ascii ''major'')) major;
          writer = ncfg_json_write_member_int writer (Some (ascii ''minor'')) minor
      in ncfg_json_write_object_end writer)"

definition ncfg_daemon_hello_encode :: "tier list \<Rightarrow> buf \<Rightarrow> bytes option \<times> buf" where
  "ncfg_daemon_hello_encode tiers out =
     (let writer = ncfg_json_write_object_begin (ncfg_json_write_init out);
          writer = ncfg_json_write_member_string writer (Some (ascii ''response'')) (Some (ascii ''hello''));
          writer = write_version writer ''protocol'' NCFG_DAEMON_PROTOCOL_MAJOR NCFG_DAEMON_PROTOCOL_MINOR;
          writer = write_version writer ''schema'' NCFG_SCHEMA_MAJOR NCFG_SCHEMA_MINOR;
          writer = ncfg_json_write_array_begin (ncfg_json_write_key writer (Some (ascii ''tiers'')));
          writer = foldl (\<lambda>writer tier. ncfg_json_write_string writer (Some (ascii (ncfg_tier_name tier)))) writer tiers;
          writer = ncfg_json_write_object_end (ncfg_json_write_array_end writer)
      in finish_response writer ''hello'')"

subsection \<open>Sending\<close>

text \<open>What one \<^verbatim>\<open>send\<close> comes to: some bytes taken, an interruption, or a failure.\<close>

datatype send_result = Sent nat | Send_Interrupted | Send_Failed

text \<open>A connection: the state behind the answers, the bytes the client was sent, and what the sends to come will do.\<close>

record 's conn =
  cn_state :: 's
  cn_sent :: bytes
  cn_sends :: "send_result list"

fun send_loop :: "bytes \<Rightarrow> send_result list \<Rightarrow> bytes \<Rightarrow> bool \<times> bytes \<times> send_result list" where
  "send_loop [] sends sent = (True, sent, sends)"
| "send_loop rest [] sent = (True, sent @ rest, [])"
| "send_loop rest (Sent n # sends) sent = send_loop (drop n rest) sends (sent @ take n rest)"
| "send_loop rest (Send_Interrupted # sends) sent = send_loop rest sends sent"
| "send_loop rest (Send_Failed # sends) sent = (False, sent, sends)"

definition ncfg_daemon_line_write :: "buf \<Rightarrow> 's conn \<Rightarrow> bool \<times> 's conn" where
  "ncfg_daemon_line_write object conn =
     (case ncfg_proto_line_finish object of
        (Some _, _) \<Rightarrow> (False, conn)
      | (None, object) \<Rightarrow>
          if ncfg_buf_failed object then (False, conn)
          else
            (case send_loop (ncfg_buf_text object) (cn_sends conn) (cn_sent conn) of
               (ok, sent, sends) \<Rightarrow> (ok, conn\<lparr>cn_sent := sent, cn_sends := sends\<rparr>)))"

definition send_error :: "bytes \<Rightarrow> 's conn \<Rightarrow> 's conn" where
  "send_error message conn =
     (case ncfg_daemon_error_encode message (ncfg_buf_init NCFG_PROTO_MAX_LINE) of
        (Some _, _) \<Rightarrow> conn
      | (None, line) \<Rightarrow> snd (ncfg_daemon_line_write line conn))"

subsection \<open>One request\<close>

text \<open>
  The server: where it looks callers up, the policy, and the functions behind it.  Answering is given
  the empty line and leaves either the line it built or its reason; \<^verbatim>\<open>dup\<close> succeeds or has a reason
  not to; a subscription is taken or refused with a reason.
\<close>

record 's server =
  sv_files :: files
  sv_roots :: authz_roots
  sv_control :: control
  sv_remote :: "remote_policy option"
  sv_arrival :: arrival
  sv_answer :: "('s \<Rightarrow> request \<Rightarrow> peer \<Rightarrow> arrival \<Rightarrow> (bytes + buf) \<times> 's) option"
  sv_dup :: "'s \<Rightarrow> bytes option"
  sv_stream :: "('s \<Rightarrow> bytes option \<times> 's) option"

definition permitted :: "'s server \<Rightarrow> peer \<Rightarrow> request \<Rightarrow> bytes option" where
  "permitted server peer r =
     ncfg_authz_permitted (sv_files server) (Some (sv_roots server)) (Some (sv_control server)) (sv_remote server)
       (sv_arrival server) (Some peer) r"

definition serve_monitor :: "'s server \<Rightarrow> 's conn \<Rightarrow> bool \<times> 's conn" where
  "serve_monitor server conn =
     (case sv_stream server of
        None \<Rightarrow>
          (True, send_error
            (ascii ''this daemon does not stream events: nothing in it takes a subscribed connection, so `monitor` would subscribe to a stream that can never carry anything'')
            conn)
      | Some stream \<Rightarrow>
          (case sv_dup server (cn_state conn) of
             Some why \<Rightarrow>
               (True, send_error (snprintf_text 160
                  (ascii ''this connection could not be handed over to be streamed to: '' @ why)) conn)
           | None \<Rightarrow>
               (case stream (cn_state conn) of
                  (Some err, s) \<Rightarrow>
                    (True, send_error
                      (if cstr err \<noteq> [] then err else ascii ''this daemon could not take a subscription'')
                      (conn\<lparr>cn_state := s\<rparr>))
                | (None, s) \<Rightarrow> (False, conn\<lparr>cn_state := s\<rparr>))))"

definition serve_hello :: "'s server \<Rightarrow> peer \<Rightarrow> 's conn \<Rightarrow> bool \<times> 's conn" where
  "serve_hello server peer conn =
     (case ncfg_daemon_hello_encode
          (ncfg_authz_granted (sv_files server) (Some (sv_roots server)) (Some (sv_control server))
            (sv_remote server) (sv_arrival server) (Some peer))
          (ncfg_buf_init NCFG_PROTO_MAX_LINE) of
        (Some err, _) \<Rightarrow> (True, send_error err conn)
      | (None, line) \<Rightarrow> ncfg_daemon_line_write line conn)"

definition serve_one :: "'s server \<Rightarrow> peer \<Rightarrow> request \<Rightarrow> 's conn \<Rightarrow> bool \<times> 's conn" where
  "serve_one server peer r conn =
     (case permitted server peer r of
        Some err \<Rightarrow> (True, send_error err conn)
      | None \<Rightarrow>
          if rq_kind r = REQ_MONITOR then serve_monitor server conn
          else if rq_kind r = REQ_HELLO then serve_hello server peer conn
          else
            (case (case sv_answer server of
                     Some answer \<Rightarrow> answer (cn_state conn) r peer (sv_arrival server)
                   | None \<Rightarrow> (Inl [], cn_state conn)) of
               (Inl err, s) \<Rightarrow>
                 (True, send_error (if cstr err \<noteq> [] then err else ascii ''the daemon had no answer for that'')
                    (conn\<lparr>cn_state := s\<rparr>))
             | (Inr line, s) \<Rightarrow> ncfg_daemon_line_write line (conn\<lparr>cn_state := s\<rparr>)))"

text \<open>One line of the stream, and a connection from its credentials to its end.\<close>

definition serve_line :: "'s server \<Rightarrow> peer \<Rightarrow> 's conn \<Rightarrow> bytes \<Rightarrow> bool \<times> 's conn" where
  "serve_line server peer conn line =
     (case ncfg_proto_request_read line of
        Inl err \<Rightarrow> (False, send_error (snprintf_text NCFG_ERROR_MAX err) conn)
      | Inr r \<Rightarrow> serve_one server peer r conn)"

definition serve_connection ::
  "'s server \<Rightarrow> bytes + (int \<times> 32 word \<times> 32 word) \<Rightarrow> 's conn \<Rightarrow> received list \<Rightarrow> 's conn" where
  "serve_connection server credentials conn events =
     (case ncfg_peer_credentials (sv_files server) (Some (sv_roots server)) credentials of
        Inl _ \<Rightarrow> conn
      | Inr peer \<Rightarrow>
          (case connection (serve_line server peer) conn events of
             (conn, Framing_Refused e) \<Rightarrow> send_error (frame_error_text e) conn
           | (conn, _) \<Rightarrow> conn))"

end
