(* ===== verification/Ncfg_Serve_Props.thy ===== *)
theory Ncfg_Serve_Props
  imports Ncfg_Serve
begin

text \<open>
  What a connection can do to the daemon and what a client hears: nothing reaches the functions
  behind the server but what the gate permits, requests written by a client are served as written,
  and a refusal is sent as an error response.
\<close>

subsection \<open>Built lines\<close>

lemma writer_holds:
  assumes "buf_inv buf" "\<not> bfailed buf" "builds cs ([], None) = Some ([], Some j)"
    "length (json_text j) \<le> buf_room buf"
  shows "ncfg_json_write_done (foldl write_call (ncfg_json_write_init buf) cs)"
    "holds (blimit buf) (jw_buf (foldl write_call (ncfg_json_write_init buf) cs)) (buf_contents buf @ json_text j)"
proof -
  note ir = init_rel [OF assms(1,2)]
  from assms(1,4) ir(2) have fits: "length (buf_contents buf @ builder_text ([], Some j)) \<le> blimit buf"
    by (auto simp: buf_room_def buf_inv_def)
  with writes_rel [OF ir(1), of cs] ir(2) assms(3)
  have rel: "jw_rel (buf_contents buf) (blimit buf) (foldl write_call (ncfg_json_write_init buf) cs) ([], Some j)" by simp
  from rel_done [OF rel fits] show "ncfg_json_write_done (foldl write_call (ncfg_json_write_init buf) cs)" by simp
  from rel show "holds (blimit buf) (jw_buf (foldl write_call (ncfg_json_write_init buf) cs)) (buf_contents buf @ json_text j)"
    by (simp add: jw_rel_def)
qed

lemma hex_digit_no_newline: "n < 16 \<Longrightarrow> hex_digits ! n \<noteq> NL"
proof -
  assume "n < 16"
  then have "hex_digits ! n \<in> set hex_digits" by (intro nth_mem) (simp add: hex_digits_def)
  moreover have "NL \<notin> set hex_digits" by (simp add: hex_digits_def)
  ultimately show ?thesis by metis
qed

lemma json_escape_line: "NL \<notin> set (json_escape c)" "length (json_escape c) \<le> 6"
proof -
  have "unat (c AND 0x0f) \<le> unat (0x0f :: byte)" using word_and_le1 [of c "0x0f"] by (simp only: word_le_nat_alt)
  then have low: "unat (c AND 0x0f) < 16" by simp
  have high: "unat (drop_bit 4 c) < 16"
    using unat_less [of c] by (simp add: unsigned_drop_bit_eq drop_bit_eq_div [where ?'a = nat] take_bit_nat_eq_self)
  have "shortform NL \<noteq> None" by (simp add: shortform_def)
  moreover have "shortform c = Some f \<Longrightarrow> NL \<notin> set f \<and> length f = 2" for f
    by (auto simp: shortform_def split: if_splits)
  ultimately show "NL \<notin> set (json_escape c)" "length (json_escape c) \<le> 6"
    using hex_digit_no_newline [OF low] hex_digit_no_newline [OF high]
    by (auto simp: json_escape_def split: option.splits)
qed

lemma json_quoted_line: "NL \<notin> set (json_quoted s)" "length (json_quoted s) \<le> 6 * length s + 2"
proof -
  show "NL \<notin> set (json_quoted s)" using json_escape_line(1) by (auto simp: json_quoted_def)
  have "length (concat (map json_escape s)) \<le> 6 * length s"
  proof (induction s)
    case (Cons c s)
    with json_escape_line(2) [of c] show ?case by simp
  qed simp
  then show "length (json_quoted s) \<le> 6 * length s + 2" by (simp add: json_quoted_def)
qed

lemma commas_no_newline: "(\<And>x. x \<in> set xs \<Longrightarrow> NL \<notin> set x) \<Longrightarrow> NL \<notin> set (commas xs)"
  by (induction xs rule: commas.induct) auto

lemma decimal_int_no_newline: "NL \<notin> set (decimal_int i)"
proof -
  have "NL \<notin> set (decimal n)" for n using decimal_digits [of NL n] by (auto simp: is_digit_def)
  then show ?thesis by (simp add: decimal_int_def)
qed

lemma json_text_no_newline: "written j \<Longrightarrow> NL \<notin> set (json_text j)"
proof (induction rule: written.induct)
  case (5 js)
  then have "NL \<notin> set (commas (map json_text js))" by (intro commas_no_newline) auto
  then show ?case by simp
next
  case (6 ms)
  then have "NL \<notin> set (commas (map member_text ms))"
    by (intro commas_no_newline) (auto simp: member_text_def json_quoted_line)
  then show ?case by (simp add: json_text_JObject del: json_text.simps(6))
qed (simp_all add: json_quoted_line decimal_int_no_newline)

subsection \<open>Refusals\<close>

definition error_json :: "bytes \<Rightarrow> json" where
  "error_json message = JObject [(ascii ''response'', JString (ascii ''error'')), (ascii ''message'', JString message)]"

definition error_calls :: "bytes \<Rightarrow> json_call list" where
  "error_calls message =
     [W_Object_Begin, W_Key (Some (ascii ''response'')), W_String (Some (ascii ''error'')),
      W_Key (Some (ascii ''message'')), W_String (Some message), W_Object_End]"

lemma error_encode_calls:
  "ncfg_daemon_error_encode message out =
   finish_response (foldl write_call (ncfg_json_write_init out) (error_calls message)) ''error''"
  by (simp add: ncfg_daemon_error_encode_def error_calls_def ncfg_json_write_member_string_def)

lemma builds_error:
  "builds (error_calls message) ([], None) =
   (if json_utf8 (cstr message) then Some ([], Some (error_json (cstr message))) else None)"
proof -
  have "plain_text (ascii ''response'')" "plain_text (ascii ''error'')" "plain_text (ascii ''message'')"
    by (simp_all add: plain_text_def json_utf8_ascii)
  then show ?thesis by (simp add: error_calls_def error_json_def NCFG_JSON_MAX_DEPTH_def del: ascii_simps)
qed

lemma error_json_line:
  assumes "length message < NCFG_ERROR_MAX"
  shows "NL \<notin> set (json_text (error_json message))" "length (json_text (error_json message)) < 4096"
proof -
  have names: "NL \<notin> set (json_quoted (ascii ''response''))" "NL \<notin> set (json_quoted (ascii ''error''))"
    "NL \<notin> set (json_quoted (ascii ''message''))" by (rule json_quoted_line)+
  with json_quoted_line(1) [of message] show "NL \<notin> set (json_text (error_json message))"
    by (simp add: error_json_def del: ascii_simps)
  have "length (json_quoted (ascii ''response'')) \<le> 50" "length (json_quoted (ascii ''error'')) \<le> 50"
    "length (json_quoted (ascii ''message'')) \<le> 50"
    using json_quoted_line(2) [of "ascii ''response''"] json_quoted_line(2) [of "ascii ''error''"]
      json_quoted_line(2) [of "ascii ''message''"] by simp_all
  with json_quoted_line(2) [of message] assms show "length (json_text (error_json message)) < 4096"
    by (simp add: error_json_def NCFG_ERROR_MAX_def del: ascii_simps)
qed

lemma line_write_holds:
  assumes "holds L line l" "length l < L" "NL \<notin> set l" "length l < NCFG_PROTO_MAX_LINE"
  shows "ncfg_daemon_line_write line conn =
    (case send_loop (l @ [NL]) (cn_sends conn) (cn_sent conn) of
       (ok, sent, sends) \<Rightarrow> (ok, conn\<lparr>cn_sent := sent, cn_sends := sends\<rparr>))"
proof -
  from assms(1,2) have b: "buf_inv line" "\<not> bfailed line" "buf_contents line = l" "blimit line = L"
    by (auto simp: holds_def)
  then have "0 < buf_room line" using assms(2) by (simp add: buf_room_def buf_inv_def)
  with line_finish_succeeds [OF b(1,2)] assms(3,4) b(3)
  have f: "ncfg_proto_line_finish line = (None, ncfg_buf_add granted line [NL])" by simp
  from holds_add [OF assms(1), of "[NL]"] assms(2)
  have "\<not> bfailed (ncfg_buf_add granted line [NL])" "buf_contents (ncfg_buf_add granted line [NL]) = l @ [NL]"
    by (auto simp: holds_def)
  with f show ?thesis by (simp add: ncfg_daemon_line_write_def ncfg_buf_failed_def buf_text_contents)
qed

lemma send_error_line:
  assumes "length (cstr message) < NCFG_ERROR_MAX"
  shows "send_error message conn =
    (if json_utf8 (cstr message)
     then (case send_loop (json_text (error_json (cstr message)) @ [NL]) (cn_sends conn) (cn_sent conn) of
             (ok, sent, sends) \<Rightarrow> conn\<lparr>cn_sent := sent, cn_sends := sends\<rparr>)
     else conn)"
proof -
  let ?out = "ncfg_buf_init NCFG_PROTO_MAX_LINE" and ?j = "error_json (cstr message)"
  have out: "buf_inv ?out" "\<not> bfailed ?out" "buf_contents ?out = []" "buf_room ?out = NCFG_PROTO_MAX_LINE"
    "blimit ?out = NCFG_PROTO_MAX_LINE"
    by (simp_all add: buf_inv_init init_fields NCFG_PROTO_MAX_LINE_def)
  note j = error_json_line [OF assms]
  show ?thesis
  proof (cases "json_utf8 (cstr message)")
    case True
    with builds_error [of message] have "builds (error_calls message) ([], None) = Some ([], Some ?j)" by simp
    note b = this
    have fits: "length (json_text ?j) < NCFG_PROTO_MAX_LINE" using j(2) by (simp add: NCFG_PROTO_MAX_LINE_def)
    then have room: "length (json_text ?j) \<le> buf_room ?out" by (simp add: out(4))
    note w = writer_holds [OF out(1,2) b room, unfolded out(3,5) append_Nil]
    have "ncfg_daemon_error_encode message ?out =
        (None, jw_buf (foldl write_call (ncfg_json_write_init ?out) (error_calls message)))"
      using w(1) by (simp add: error_encode_calls finish_response_def)
    with line_write_holds [OF w(2) _ _ fits, where conn = conn] fits j(1) True show ?thesis
      by (simp add: send_error_def split: prod.split)
  next
    case False
    with builds_error [of message] have "builds (error_calls message) ([], None) = None" by simp
    from unbuilt_not_done [OF out(1) _ this] out(2) False show ?thesis
      by (simp add: send_error_def error_encode_calls finish_response_def ncfg_buf_failed_def)
  qed
qed

text \<open>
  C37.  A refusal is an answer, when it can be written.  To a client that takes its bytes the daemon
  sends a refusal of the length its buffers allow as one line, an \<^verbatim>\<open>error\<close> response that carries exactly
  that sentence; a sentence that is not UTF-8 -- a long one cut inside a character -- is not sent at
  all, and the client hears nothing.
\<close>

theorem refusal_sent:
  assumes "length (cstr message) < NCFG_ERROR_MAX" "cn_sends conn = []"
  shows "send_error message conn =
    conn\<lparr>cn_sent := cn_sent conn @
      (if json_utf8 (cstr message) then json_text (error_json (cstr message)) @ [NL] else [])\<rparr>"
proof (cases "json_text (error_json (cstr message)) @ [NL]")
  case (Cons b bs)
  with send_error_line [OF assms(1), of conn] assms(2) show ?thesis by (cases conn) simp
qed simp

definition fresh_conn :: "unit conn" where
  "fresh_conn = \<lparr>cn_state = (), cn_sent = [], cn_sends = []\<rparr>"

theorem refusal_sent_witness:
  "cn_sent (send_error (ascii ''no'') fresh_conn) = json_text (error_json (ascii ''no'')) @ [NL] \<and>
   cn_sent (send_error [0xc3] fresh_conn) = []"
proof -
  have "cstr (ascii ''no'') = ascii ''no''" "cstr [0xc3] = [0xc3]" "json_utf8 (ascii ''no'')" "\<not> json_utf8 [0xc3]"
    by code_simp+
  with refusal_sent [of "ascii ''no''" fresh_conn] refusal_sent [of "[0xc3]" fresh_conn] show ?thesis
    by (simp add: fresh_conn_def NCFG_ERROR_MAX_def del: ascii_simps)
qed

subsection \<open>The gate\<close>

lemma line_write_state: "cn_state (snd (ncfg_daemon_line_write line conn)) = cn_state conn"
  by (simp add: ncfg_daemon_line_write_def split: prod.split option.split)

lemma send_error_state: "cn_state (send_error message conn) = cn_state conn"
  by (simp add: send_error_def line_write_state split: prod.split option.split)

text \<open>
  The steps a permitted request makes: the answering function is called with it, or, for \<^verbatim>\<open>monitor\<close>,
  the connection is handed over.
\<close>

inductive permitted_step :: "'s server \<Rightarrow> peer \<Rightarrow> 's \<Rightarrow> 's \<Rightarrow> bool" for server peer where
  answered: "sv_answer server = Some answer \<Longrightarrow> permitted server peer r = None \<Longrightarrow>
    rq_kind r \<notin> {REQ_HELLO, REQ_MONITOR} \<Longrightarrow> permitted_step server peer s (snd (answer s r peer (sv_arrival server)))"
| streamed: "sv_stream server = Some stream \<Longrightarrow> permitted server peer r = None \<Longrightarrow> rq_kind r = REQ_MONITOR \<Longrightarrow>
    permitted_step server peer s (snd (stream s))"

lemma monitor_steps:
  assumes "permitted server peer r = None" "rq_kind r = REQ_MONITOR"
  shows "rtranclp (permitted_step server peer) (cn_state conn) (cn_state (snd (serve_monitor server conn)))"
proof (cases "sv_stream server")
  case (Some stream)
  note k = permitted_step.streamed [OF Some assms, of "cn_state conn"]
  show ?thesis using Some k
    by (cases "stream (cn_state conn)") (auto simp: serve_monitor_def send_error_state split: option.split)
qed (simp add: serve_monitor_def send_error_state)

lemma answer_steps:
  assumes "permitted server peer r = None" "rq_kind r \<notin> {REQ_HELLO, REQ_MONITOR}"
  shows "rtranclp (permitted_step server peer) (cn_state conn) (cn_state (snd (serve_one server peer r conn)))"
proof (cases "sv_answer server")
  case (Some answer)
  note k = permitted_step.answered [OF Some assms, of "cn_state conn"]
  show ?thesis using Some k assms
    by (cases "answer (cn_state conn) r peer (sv_arrival server)")
      (auto simp: serve_one_def send_error_state line_write_state split: sum.split)
qed (use assms in \<open>simp add: serve_one_def send_error_state\<close>)

lemma one_steps: "rtranclp (permitted_step server peer) (cn_state conn) (cn_state (snd (serve_one server peer r conn)))"
proof (cases "permitted server peer r")
  case None
  consider (m) "rq_kind r = REQ_MONITOR" | (h) "rq_kind r = REQ_HELLO" | (a) "rq_kind r \<notin> {REQ_HELLO, REQ_MONITOR}"
    by blast
  then show ?thesis
  proof cases
    case m
    with monitor_steps [OF None m] None show ?thesis by (simp add: serve_one_def)
  next
    case h
    with None show ?thesis
      by (simp add: serve_one_def serve_hello_def send_error_state line_write_state split: prod.split option.split)
  qed (rule answer_steps [OF None])
qed (simp add: serve_one_def send_error_state)

lemma line_steps: "rtranclp (permitted_step server peer) (cn_state conn) (cn_state (snd (serve_line server peer conn line)))"
  by (simp add: serve_line_def one_steps send_error_state split: sum.split)

fun served_state :: "'s served \<Rightarrow> 's" where
  "served_state (More s _) = s"
| "served_state (Hung_Up s) = s"
| "served_state (Refused_By_Framer _ s) = s"

lemma serve_lines_keeps:
  "(\<And>s line. P s \<Longrightarrow> P (snd (serve s line))) \<Longrightarrow> P s \<Longrightarrow> P (served_state (serve_lines serve s framer))"
proof (induction serve s framer rule: serve_lines.induct)
  case (1 serve s framer)
  show ?case
  proof (cases "ncfg_proto_framer_next framer")
    case (Pair found framer')
    show ?thesis
    proof (cases found)
      case (Line l)
      obtain ok s' where sv: "serve s l = (ok, s')" by fastforce
      with "1.prems" have "P s'" by (metis snd_conv)
      with "1.IH" [OF Pair [symmetric] Line sv [symmetric]] "1.prems"(1) Pair Line sv show ?thesis
        by (cases ok) (simp_all add: serve_lines.simps [of serve s framer])
    qed (use Pair "1.prems"(2) in \<open>simp_all add: serve_lines.simps [of serve s framer]\<close>)
  qed
qed

lemma connection_loop_keeps:
  assumes "\<And>s line. P s \<Longrightarrow> P (snd (serve s line))"
  shows "P s \<Longrightarrow> P (fst (connection_loop serve s framer events))"
proof (induction events arbitrary: s framer)
  case Nil
  from serve_lines_keeps [of P serve, OF assms Nil, of framer] show ?case
    by (cases "serve_lines serve s framer") (simp_all add: connection_loop.simps [of serve s framer])
next
  case (Cons e events)
  from serve_lines_keeps [of P serve, OF assms Cons.prems, of framer] Cons.IH show ?case
    by (cases "serve_lines serve s framer"; cases e)
      (auto simp: connection_loop.simps [of serve s framer] split: prod.split option.split)
qed

text \<open>
  C9.  Nothing but a permitted request reaches the daemon.  Whatever bytes a client sends, cut and
  interrupted however they are, the state behind the server only ever moves by answering a request
  that the gate permits to the peer the socket reported, or by handing the connection over for a
  \<^verbatim>\<open>monitor\<close> it permits; and where the peer is not known, nothing is read at all.
\<close>

theorem gate_guards:
  fixes conn :: "'a conn"
  shows "case ncfg_peer_credentials (sv_files server) (Some (sv_roots server)) credentials of
     Inl _ \<Rightarrow> serve_connection server credentials conn events = conn
   | Inr peer \<Rightarrow> rtranclp (permitted_step server peer) (cn_state conn)
       (cn_state (serve_connection server credentials conn events))"
proof (cases "ncfg_peer_credentials (sv_files server) (Some (sv_roots server)) credentials")
  case (Inr peer)
  let ?P = "\<lambda>c :: 'a conn. rtranclp (permitted_step server peer) (cn_state conn) (cn_state c)"
  have "?P (fst (connection (serve_line server peer) conn events))"
    unfolding connection_def
  proof (rule connection_loop_keeps [of ?P])
    fix c :: "'a conn" and line
    assume "?P c"
    then show "?P (snd (serve_line server peer c line))" by (rule rtranclp_trans [OF _ line_steps])
  qed simp
  with Inr show ?thesis
    by (auto simp: serve_connection_def send_error_state split: prod.split conn_end.split)
qed (simp add: serve_connection_def)

subsection \<open>Delivery\<close>

lemma request_written:
  assumes "ncfg_proto_request_write r (ncfg_buf_init limit) = (True, out)"
  obtains l where "ncfg_buf_text out = l @ [NL]" "NL \<notin> set l" "length l < NCFG_PROTO_MAX_LINE"
    "ncfg_proto_request_read l = Inr (own_arm r)"
proof -
  let ?b = "ncfg_buf_init limit" and ?j = "request_json r"
  have b: "buf_inv ?b" "\<not> bfailed ?b" "\<not> ncfg_buf_failed ?b" "buf_contents ?b = []"
    by (simp_all add: buf_inv_init init_fields ncfg_buf_failed_def)
  from assms obtain mid where e: "ncfg_proto_request_encode r ?b = (Inr (), mid)"
    and f: "ncfg_proto_line_finish mid = (None, out)"
    by (auto simp: ncfg_proto_request_write_def split: prod.splits sum.splits)
  from encode_request [OF b(1,3), of r] e have ok: "encodable r" "length (json_text ?j) \<le> buf_room ?b"
    by (auto split: if_splits)
  then have built: "builds (request_calls r) ([], None) = Some ([], Some ?j)" and c: "complete r"
    using builds_request [of r] by (simp_all add: encodable_def)
  from writer_holds [OF b(1,2) built ok(2)] encode_request_calls [OF c, of ?b] e b(4)
  have "holds (blimit ?b) mid (json_text ?j)" by (simp add: Let_def split: if_splits)
  moreover have "length (json_text ?j) \<le> blimit ?b" using ok(2) by (simp add: init_fields split: if_splits)
  ultimately have mid: "buf_inv mid" "buf_contents mid = json_text ?j" by (auto simp: holds_def)
  note l = line_finish_cases [OF mid(1) f, unfolded mid(2)]
  have "length (json_text ?j) < 2 ^ 31" using l(3) by (simp add: NCFG_PROTO_MAX_LINE_def)
  with request_reads [OF ok(1)] l show thesis by (intro that) auto
qed

lemma request_writes:
  assumes "encodable r" "length (json_text (request_json r)) < limit" "limit \<le> NCFG_PROTO_MAX_LINE"
  shows "ncfg_proto_request_write r (ncfg_buf_init limit) =
      (True, snd (ncfg_proto_request_write r (ncfg_buf_init limit)))"
    "ncfg_buf_text (snd (ncfg_proto_request_write r (ncfg_buf_init limit))) = json_text (request_json r) @ [NL]"
proof -
  let ?b = "ncfg_buf_init limit" and ?j = "request_json r"
  let ?mid = "jw_buf (foldl write_call (ncfg_json_write_init ?b) (request_calls r))"
  have b: "buf_inv ?b" "\<not> bfailed ?b" "buf_contents ?b = []" "blimit ?b = limit" "buf_room ?b = limit"
    using assms(2) by (simp_all add: buf_inv_init init_fields)
  from assms(1) have built: "builds (request_calls r) ([], None) = Some ([], Some ?j)" and c: "complete r"
    using builds_request [of r] by (simp_all add: encodable_def)
  have room: "length (json_text ?j) \<le> buf_room ?b" using assms(2) b(5) by simp
  note w = writer_holds [OF b(1,2) built room, unfolded b(3,4) append_Nil]
  from w(2) assms(2) have m: "buf_inv ?mid" "\<not> bfailed ?mid" "buf_contents ?mid = json_text ?j" "0 < buf_room ?mid"
    by (auto simp: holds_def buf_room_def buf_inv_def)
  have "NL \<notin> set (json_text ?j)" using json_text_no_newline built_written [OF built] by blast
  with line_finish_succeeds [OF m(1,2)] m(3,4) assms(2,3)
  have f: "ncfg_proto_line_finish ?mid = (None, ncfg_buf_add granted ?mid [NL])" by simp
  have e: "ncfg_proto_request_write r ?b = (True, ncfg_buf_add granted ?mid [NL])"
    using w(1) f by (simp add: ncfg_proto_request_write_def encode_request_calls [OF c] Let_def)
  then show "ncfg_proto_request_write r ?b = (True, snd (ncfg_proto_request_write r ?b))" by simp
  from holds_add [OF w(2), of "[NL]"] assms(2) e
  show "ncfg_buf_text (snd (ncfg_proto_request_write r ?b)) = json_text ?j @ [NL]"
    by (simp add: holds_def buf_text_contents)
qed

text \<open>Requests served one after another, until one ends the connection.\<close>

fun serve_all :: "'s server \<Rightarrow> peer \<Rightarrow> request list \<Rightarrow> 's conn \<Rightarrow> 's conn \<times> stream_end" where
  "serve_all server peer [] conn = (conn, Stream_Closed)"
| "serve_all server peer (r # rs) conn =
     (case serve_one server peer r conn of
        (True, conn) \<Rightarrow> serve_all server peer rs conn
      | (False, conn) \<Rightarrow> (conn, Stream_Hung_Up))"

lemma stream_serves_all:
  "list_all2 (\<lambda>r out. ncfg_proto_request_write r (ncfg_buf_init limit) = (True, out)) rs outs \<Longrightarrow>
   stream_spec (serve_line server peer) conn (concat (map ncfg_buf_text outs)) =
   serve_all server peer (map own_arm rs) conn"
proof (induction arbitrary: conn rule: list_all2_induct)
  case Nil
  then show ?case
    using stream_spec_tail [of "[]" "serve_line server peer" conn] by (simp add: NCFG_PROTO_MAX_LINE_def)
next
  case (Cons r rs out outs)
  from request_written [OF Cons.hyps(1)] obtain l where l: "ncfg_buf_text out = l @ [NL]" "NL \<notin> set l"
    "length l < NCFG_PROTO_MAX_LINE" "ncfg_proto_request_read l = Inr (own_arm r)" .
  then have "serve_line server peer conn l = serve_one server peer (own_arm r) conn" by (simp add: serve_line_def)
  with stream_spec_line [OF l(2,3), of "serve_line server peer" conn "concat (map ncfg_buf_text outs)"] l(1) Cons.IH
  show ?case by (simp split: prod.split bool.split)
qed

text \<open>
  C10.  What a client asks is what is judged and answered.  Requests a client writes with
  \<^verbatim>\<open>ncfg_proto_request_write\<close> and sends on one connection, however the bytes are cut into reads on the
  way, are served by the daemon one after another, in that order, each as the request that was
  written, until one of them ends the connection -- and if none does the connection ends as an
  ordinary disconnect.
\<close>

theorem requests_served:
  assumes "list_all2 (\<lambda>r out. ncfg_proto_request_write r (ncfg_buf_init limit) = (True, out)) rs outs"
    and "list_all reading events" and "stream_of events = concat (map ncfg_buf_text outs)"
  shows "map_prod id end_kind (connection (serve_line server peer) conn (events @ [Closed])) =
    map_prod id Some (serve_all server peer (map own_arm rs) conn)"
proof -
  have "held_ok []" using held_part [of "[]" "[]"] by (simp add: NCFG_PROTO_MAX_LINE_def)
  from connection_loop_spec [OF framer_ok_init this assms(2), of "serve_line server peer" conn]
    stream_serves_all [OF assms(1), of server peer conn] assms(3)
  show ?thesis by (simp add: connection_def)
qed

definition sample_server :: "unit server" where
  "sample_server =
     \<lparr>sv_files = (\<lambda>_. None), sv_roots = ncfg_authz_roots_default,
      sv_control =
        \<lparr>ct_observe = \<lparr>pr_kind = PRINCIPAL_ANY, pr_name = None\<rparr>, ct_wifi = \<lparr>pr_kind = PRINCIPAL_ROOT, pr_name = None\<rparr>,
         ct_admin = \<lparr>pr_kind = PRINCIPAL_ROOT, pr_name = None\<rparr>\<rparr>,
      sv_remote = None, sv_arrival = ARRIVED_LOCAL, sv_answer = None, sv_dup = (\<lambda>_. None), sv_stream = None\<rparr>"


theorem requests_served_witness:
  "map_prod id end_kind (connection (serve_line sample_server sample_peer) fresh_conn
     ([Chunk ([123, 34] @ ascii ''request'' @ [34, 58, 34] @ ascii ''he''), Interrupted, Chunk (ascii ''llo'' @ [34, 125, NL])] @ [Closed])) =
   map_prod id Some (serve_all sample_server sample_peer [no_request] fresh_conn)"
proof -
  let ?es = "[Chunk ([123, 34] @ ascii ''request'' @ [34, 58, 34] @ ascii ''he''), Interrupted, Chunk (ascii ''llo'' @ [34, 125, NL])]"
  let ?out = "snd (ncfg_proto_request_write no_request (ncfg_buf_init 100))"
  have e: "encodable no_request" "length (json_text (request_json no_request)) < 100" "own_arm no_request = no_request"
    by code_simp+
  have lim: "100 \<le> NCFG_PROTO_MAX_LINE" by (simp add: NCFG_PROTO_MAX_LINE_def)
  note w = request_writes [OF e(1,2) lim]
  have rs: "list_all2 (\<lambda>r out. ncfg_proto_request_write r (ncfg_buf_init 100) = (True, out)) [no_request] [?out]"
    using w(1) by simp
  have es: "list_all reading ?es" by (simp add: NCFG_PROTO_MAX_LINE_def)
  have "stream_of ?es = json_text (request_json no_request) @ [NL]" by code_simp
  then have st: "stream_of ?es = concat (map ncfg_buf_text [?out])" using w(2) by (simp del: ascii_simps)
  from requests_served [OF rs es st, of sample_server sample_peer fresh_conn] e(3) show ?thesis by (simp del: ascii_simps)
qed

end
