(* ===== verification/Ncfg_Wire.thy ===== *)
theory Ncfg_Wire
  imports Ncfg_Json
begin

text \<open>
  Netlink framing, \<^verbatim>\<open>c/src/sys/wire.c\<close>: headers, attributes and the structs of rtnetlink, decoded out
  of bytes the process does not control and encoded into a buffer.

  A pointer into the caller's bytes is an offset into them, \<open>mem\<close>; \<open>None\<close> is NULL.  A walk is where it
  stands and how much is left, as in the code, so that a read past the end would show.  Netlink's own
  integers are in the host's byte order: \<open>host\<close> says which that is, and every statement is for both.
  \<^verbatim>\<open>inet_pton\<close> and \<^verbatim>\<open>inet_ntop\<close> are arguments.  A refusal is its sentence.
\<close>

subsection \<open>The host's integers\<close>

datatype byte_order = Little_Endian | Big_Endian

definition native :: "byte_order \<Rightarrow> bytes \<Rightarrow> bytes" where
  "native host bs = (case host of Little_Endian \<Rightarrow> bs | Big_Endian \<Rightarrow> rev bs)"

fun le_value :: "bytes \<Rightarrow> nat" where
  "le_value [] = 0"
| "le_value (b # bs) = unat b + 256 * le_value bs"

fun le_bytes :: "nat \<Rightarrow> nat \<Rightarrow> bytes" where
  "le_bytes 0 v = []"
| "le_bytes (Suc n) v = of_nat v # le_bytes n (v div 256)"

definition read_u16 :: "byte_order \<Rightarrow> bytes \<Rightarrow> nat \<Rightarrow> 16 word" where
  "read_u16 host mem at = of_nat (le_value (native host (slice at (at + 2) mem)))"

definition read_u32 :: "byte_order \<Rightarrow> bytes \<Rightarrow> nat \<Rightarrow> 32 word" where
  "read_u32 host mem at = of_nat (le_value (native host (slice at (at + 4) mem)))"

definition put_u16 :: "byte_order \<Rightarrow> buf \<Rightarrow> 16 word \<Rightarrow> buf" where
  "put_u16 host out v = ncfg_buf_add granted out (native host (le_bytes 2 (unat v)))"

definition put_u32 :: "byte_order \<Rightarrow> buf \<Rightarrow> 32 word \<Rightarrow> buf" where
  "put_u32 host out v = ncfg_buf_add granted out (native host (le_bytes 4 (unat v)))"

definition SIZE_MAX :: nat where
  "SIZE_MAX = 2 ^ 64 - 1"

definition ncfg_wire_align4 :: "nat \<Rightarrow> nat" where
  "ncfg_wire_align4 n = (if SIZE_MAX - 3 < n then n else (n + 3) div 4 * 4)"

definition pad_to_align :: "buf \<Rightarrow> buf" where
  "pad_to_align out =
     (if bfailed out then out
      else
        let padding = ncfg_wire_align4 (blength out) - blength out in
        if padding \<noteq> 0 then ncfg_buf_add granted out (replicate padding 0) else out)"

subsection \<open>Headers and structs\<close>

definition NCFG_WIRE_NLMSG_HDR_LEN :: nat where
  "NCFG_WIRE_NLMSG_HDR_LEN = 16"

definition NCFG_WIRE_RTATTR_HDR_LEN :: nat where
  "NCFG_WIRE_RTATTR_HDR_LEN = 4"

definition NCFG_WIRE_IFINFO_LEN :: nat where
  "NCFG_WIRE_IFINFO_LEN = 16"

definition NCFG_WIRE_IFADDR_LEN :: nat where
  "NCFG_WIRE_IFADDR_LEN = 8"

definition NCFG_WIRE_RTMSG_LEN :: nat where
  "NCFG_WIRE_RTMSG_LEN = 12"

record wire_header =
  wh_len :: "32 word"
  wh_kind :: "16 word"
  wh_flags :: "16 word"
  wh_seq :: "32 word"
  wh_pid :: "32 word"

record wire_ifinfo =
  wi_family :: byte
  wi_kind :: "16 word"
  wi_index :: "32 word"
  wi_flags :: "32 word"
  wi_change :: "32 word"

record wire_ifaddr =
  wa_family :: byte
  wa_prefix_len :: byte
  wa_flags :: byte
  wa_scope :: byte
  wa_index :: "32 word"

record wire_rtmsg =
  wr_family :: byte
  wr_dst_len :: byte
  wr_src_len :: byte
  wr_tos :: byte
  wr_table :: byte
  wr_protocol :: byte
  wr_scope :: byte
  wr_kind :: byte
  wr_flags :: "32 word"

definition ncfg_wire_header_decode :: "byte_order \<Rightarrow> bytes \<Rightarrow> nat \<Rightarrow> nat \<Rightarrow> bytes + wire_header" where
  "ncfg_wire_header_decode host mem raw len =
     (if len < NCFG_WIRE_NLMSG_HDR_LEN then
        Inl (ascii ''a netlink header needs 16 bytes and this message has '' @ decimal len)
      else Inr \<lparr>wh_len = read_u32 host mem raw, wh_kind = read_u16 host mem (raw + 4),
                wh_flags = read_u16 host mem (raw + 6), wh_seq = read_u32 host mem (raw + 8),
                wh_pid = read_u32 host mem (raw + 12)\<rparr>)"

definition ncfg_wire_header_encode :: "byte_order \<Rightarrow> wire_header \<Rightarrow> buf \<Rightarrow> buf" where
  "ncfg_wire_header_encode host header out =
     (let out = put_u32 host out (wh_len header);
          out = put_u16 host out (wh_kind header);
          out = put_u16 host out (wh_flags header);
          out = put_u32 host out (wh_seq header)
      in put_u32 host out (wh_pid header))"

definition ncfg_wire_ifinfo_decode :: "byte_order \<Rightarrow> bytes \<Rightarrow> nat \<Rightarrow> nat \<Rightarrow> bytes + wire_ifinfo" where
  "ncfg_wire_ifinfo_decode host mem raw len =
     (if len < NCFG_WIRE_IFINFO_LEN then
        Inl (ascii ''a link message carries 16 bytes of ifinfomsg and this one has '' @ decimal len)
      else Inr \<lparr>wi_family = mem ! raw, wi_kind = read_u16 host mem (raw + 2),
                wi_index = read_u32 host mem (raw + 4), wi_flags = read_u32 host mem (raw + 8),
                wi_change = read_u32 host mem (raw + 12)\<rparr>)"

definition ncfg_wire_ifinfo_encode :: "byte_order \<Rightarrow> wire_ifinfo \<Rightarrow> buf \<Rightarrow> buf" where
  "ncfg_wire_ifinfo_encode host info out =
     (let out = ncfg_buf_add granted out [wi_family info];
          out = ncfg_buf_add_char granted out 0;
          out = put_u16 host out (wi_kind info);
          out = put_u32 host out (wi_index info);
          out = put_u32 host out (wi_flags info)
      in put_u32 host out (wi_change info))"

definition ncfg_wire_ifaddr_decode :: "byte_order \<Rightarrow> bytes \<Rightarrow> nat \<Rightarrow> nat \<Rightarrow> bytes + wire_ifaddr" where
  "ncfg_wire_ifaddr_decode host mem raw len =
     (if len < NCFG_WIRE_IFADDR_LEN then
        Inl (ascii ''an address message carries 8 bytes of ifaddrmsg and this one has '' @ decimal len)
      else Inr \<lparr>wa_family = mem ! raw, wa_prefix_len = mem ! (raw + 1), wa_flags = mem ! (raw + 2),
                wa_scope = mem ! (raw + 3), wa_index = read_u32 host mem (raw + 4)\<rparr>)"

definition ncfg_wire_ifaddr_encode :: "byte_order \<Rightarrow> wire_ifaddr \<Rightarrow> buf \<Rightarrow> buf" where
  "ncfg_wire_ifaddr_encode host addr out =
     put_u32 host
       (ncfg_buf_add granted out [wa_family addr, wa_prefix_len addr, wa_flags addr, wa_scope addr])
       (wa_index addr)"

definition ncfg_wire_rtmsg_decode :: "byte_order \<Rightarrow> bytes \<Rightarrow> nat \<Rightarrow> nat \<Rightarrow> bytes + wire_rtmsg" where
  "ncfg_wire_rtmsg_decode host mem raw len =
     (if len < NCFG_WIRE_RTMSG_LEN then
        Inl (ascii ''a route message carries 12 bytes of rtmsg and this one has '' @ decimal len)
      else Inr \<lparr>wr_family = mem ! raw, wr_dst_len = mem ! (raw + 1), wr_src_len = mem ! (raw + 2),
                wr_tos = mem ! (raw + 3), wr_table = mem ! (raw + 4), wr_protocol = mem ! (raw + 5),
                wr_scope = mem ! (raw + 6), wr_kind = mem ! (raw + 7), wr_flags = read_u32 host mem (raw + 8)\<rparr>)"

definition ncfg_wire_rtmsg_encode :: "byte_order \<Rightarrow> wire_rtmsg \<Rightarrow> buf \<Rightarrow> buf" where
  "ncfg_wire_rtmsg_encode host route out =
     put_u32 host
       (ncfg_buf_add granted out
         [wr_family route, wr_dst_len route, wr_src_len route, wr_tos route, wr_table route,
          wr_protocol route, wr_scope route, wr_kind route])
       (wr_flags route)"

subsection \<open>Walking messages\<close>

datatype 'a wire_step = WIRE_END | WIRE_OK 'a | WIRE_BAD bytes

record wire_message =
  wg_header :: wire_header
  wg_payload :: nat
  wg_payload_length :: nat

record wire_attr =
  wt_kind :: "16 word"
  wt_value :: "nat option"
  wt_length :: nat

record wire_messages =
  wm_rest :: "nat option"
  wm_remaining :: nat

record wire_attrs =
  ws_rest :: "nat option"
  ws_remaining :: nat

definition ncfg_wire_messages_start :: "nat option \<Rightarrow> nat \<Rightarrow> wire_messages" where
  "ncfg_wire_messages_start bytes len =
     \<lparr>wm_rest = bytes, wm_remaining = (if bytes \<noteq> None then len else 0)\<rparr>"

definition stop_messages :: "wire_messages \<Rightarrow> wire_messages" where
  "stop_messages walk = walk\<lparr>wm_rest := None, wm_remaining := 0\<rparr>"

definition ncfg_wire_messages_next ::
  "byte_order \<Rightarrow> bytes \<Rightarrow> wire_messages \<Rightarrow> wire_message wire_step \<times> wire_messages" where
  "ncfg_wire_messages_next host mem walk =
     (if wm_remaining walk = 0 then (WIRE_END, walk)
      else if wm_remaining walk < NCFG_WIRE_NLMSG_HDR_LEN then
        (WIRE_BAD (ascii ''a netlink buffer ends '' @ decimal (wm_remaining walk) @
           ascii '' bytes into a 16-byte header''), stop_messages walk)
      else
        let rest = the (wm_rest walk) in
        case ncfg_wire_header_decode host mem rest (wm_remaining walk) of
          Inl err \<Rightarrow> (WIRE_BAD err, stop_messages walk)
        | Inr header \<Rightarrow>
            (let len = unat (wh_len header) in
             if len < NCFG_WIRE_NLMSG_HDR_LEN then
               (WIRE_BAD (ascii ''a netlink message says it is '' @ decimal len @
                  ascii '' bytes long, shorter than the 16-byte header it sits in''), stop_messages walk)
             else if wm_remaining walk < len then
               (WIRE_BAD (ascii ''a netlink message claims '' @ decimal len @
                  ascii '' bytes and the buffer holds '' @ decimal (wm_remaining walk)), stop_messages walk)
             else
               (let advance = ncfg_wire_align4 len;
                    advance = (if wm_remaining walk < advance then wm_remaining walk else advance)
                in (WIRE_OK \<lparr>wg_header = header, wg_payload = rest + NCFG_WIRE_NLMSG_HDR_LEN,
                              wg_payload_length = len - NCFG_WIRE_NLMSG_HDR_LEN\<rparr>,
                    \<lparr>wm_rest = Some (rest + advance), wm_remaining = wm_remaining walk - advance\<rparr>))))"

subsection \<open>Walking attributes\<close>

definition ncfg_wire_attrs_start :: "nat option \<Rightarrow> nat \<Rightarrow> wire_attrs" where
  "ncfg_wire_attrs_start bytes len =
     \<lparr>ws_rest = bytes, ws_remaining = (if bytes \<noteq> None then len else 0)\<rparr>"

definition stop_attrs :: "wire_attrs \<Rightarrow> wire_attrs" where
  "stop_attrs walk = walk\<lparr>ws_rest := None, ws_remaining := 0\<rparr>"

definition ncfg_wire_message_attrs :: "wire_message \<Rightarrow> nat \<Rightarrow> bytes + wire_attrs" where
  "ncfg_wire_message_attrs message body_length =
     (let skip = ncfg_wire_align4 body_length in
      if wg_payload_length message < skip then
        Inl (ascii ''a message payload of '' @ decimal (wg_payload_length message) @
          ascii '' bytes cannot hold a '' @ decimal body_length @ ascii ''-byte family struct'')
      else Inr (ncfg_wire_attrs_start (Some (wg_payload message + skip)) (wg_payload_length message - skip)))"

definition ncfg_wire_attrs_next ::
  "byte_order \<Rightarrow> bytes \<Rightarrow> wire_attrs \<Rightarrow> wire_attr wire_step \<times> wire_attrs" where
  "ncfg_wire_attrs_next host mem walk =
     (if ws_remaining walk = 0 then (WIRE_END, walk)
      else if ws_remaining walk < NCFG_WIRE_RTATTR_HDR_LEN then
        (WIRE_BAD (ascii ''an attribute area ends '' @ decimal (ws_remaining walk) @
           ascii '' bytes into a 4-byte header''), stop_attrs walk)
      else
        let rest = the (ws_rest walk);
            len = unat (read_u16 host mem rest);
            kind = read_u16 host mem (rest + 2)
        in if len < NCFG_WIRE_RTATTR_HDR_LEN then
             (WIRE_BAD (ascii ''an attribute says it is '' @ decimal len @
                ascii '' bytes long, shorter than the 4-byte header it sits in''), stop_attrs walk)
           else if ws_remaining walk < len then
             (WIRE_BAD (ascii ''an attribute of type '' @ decimal (unat (kind AND 0x3fff)) @
                ascii '' claims '' @ decimal len @ ascii '' bytes and the message holds '' @
                decimal (ws_remaining walk)), stop_attrs walk)
           else
             (let advance = ncfg_wire_align4 len;
                  advance = (if ws_remaining walk < advance then ws_remaining walk else advance)
              in (WIRE_OK \<lparr>wt_kind = kind AND 0x3fff, wt_value = Some (rest + NCFG_WIRE_RTATTR_HDR_LEN),
                            wt_length = len - NCFG_WIRE_RTATTR_HDR_LEN\<rparr>,
                  \<lparr>ws_rest = Some (rest + advance), ws_remaining = ws_remaining walk - advance\<rparr>)))"

lemma align4_ge: "n \<le> ncfg_wire_align4 n"
proof -
  have "n \<le> (n + 3) div 4 * 4" by presburger
  then show ?thesis by (simp add: ncfg_wire_align4_def)
qed

lemma attrs_next_moves:
  assumes "ncfg_wire_attrs_next host mem walk = (WIRE_OK attr, walk')"
  shows "ws_remaining walk' < ws_remaining walk"
proof -
  let ?len = "unat (read_u16 host mem (the (ws_rest walk)))"
  from align4_ge [of ?len] assms show ?thesis
    by (auto simp: ncfg_wire_attrs_next_def Let_def NCFG_WIRE_RTATTR_HDR_LEN_def split: if_splits)
qed

function ncfg_wire_attrs_find :: "byte_order \<Rightarrow> bytes \<Rightarrow> wire_attrs \<Rightarrow> 16 word \<Rightarrow> wire_attr wire_step" where
  "ncfg_wire_attrs_find host mem walk kind =
     (case ncfg_wire_attrs_next host mem walk of
        (WIRE_OK attr, walk) \<Rightarrow>
          if wt_kind attr = kind then WIRE_OK attr else ncfg_wire_attrs_find host mem walk kind
      | (step, _) \<Rightarrow> step)"
  by pat_completeness auto
termination
  by (relation "measure (\<lambda>(_, _, walk, _). ws_remaining walk)")
    (auto dest: attrs_next_moves [OF sym])

declare ncfg_wire_attrs_find.simps [simp del]

subsection \<open>Values of attributes\<close>

definition ncfg_wire_attr_u8 :: "bytes \<Rightarrow> wire_attr \<Rightarrow> bytes + byte" where
  "ncfg_wire_attr_u8 mem attr =
     (case wt_value attr of
        Some v \<Rightarrow> if wt_length attr < 1 then Inl (ascii ''an attribute with no bytes is not a number'') else Inr (mem ! v)
      | None \<Rightarrow> Inl (ascii ''an attribute with no bytes is not a number''))"

definition ncfg_wire_attr_u16 :: "byte_order \<Rightarrow> bytes \<Rightarrow> wire_attr \<Rightarrow> bytes + 16 word" where
  "ncfg_wire_attr_u16 host mem attr =
     (case wt_value attr of
        Some v \<Rightarrow>
          if wt_length attr < 2
          then Inl (ascii ''a 16-bit attribute needs 2 bytes and this one has '' @ decimal (wt_length attr))
          else Inr (read_u16 host mem v)
      | None \<Rightarrow> Inl (ascii ''a 16-bit attribute needs 2 bytes and this one has 0''))"

definition ncfg_wire_attr_u32 :: "byte_order \<Rightarrow> bytes \<Rightarrow> wire_attr \<Rightarrow> bytes + 32 word" where
  "ncfg_wire_attr_u32 host mem attr =
     (case wt_value attr of
        Some v \<Rightarrow>
          if wt_length attr < 4
          then Inl (ascii ''a 32-bit attribute needs 4 bytes and this one has '' @ decimal (wt_length attr))
          else Inr (read_u32 host mem v)
      | None \<Rightarrow> Inl (ascii ''a 32-bit attribute needs 4 bytes and this one has 0''))"

text \<open>The loop of \<^verbatim>\<open>is_utf8\<close>; its inner loop is the fold \<open>continuation\<close> over the bytes behind the lead.\<close>

function is_utf8 :: "bytes \<Rightarrow> nat \<Rightarrow> bool" where
  "is_utf8 bs at =
     (if length bs \<le> at then True
      else
        let lead = bs ! at in
        if lead < 0x80 then is_utf8 bs (at + 1)
        else
          let (extra, code) =
            (if 0xc2 \<le> lead \<and> lead \<le> 0xdf then (1, lead AND 0x1f)
             else if 0xe0 \<le> lead \<and> lead \<le> 0xef then (2, lead AND 0x0f)
             else if 0xf0 \<le> lead \<and> lead \<le> 0xf4 then (3, lead AND 0x07)
             else (0, 0))
          in if extra = 0 then False
             else if length bs - at \<le> extra then False
             else case continuation (ucast code) (slice (at + 1) (at + 1 + extra) bs) of
               None \<Rightarrow> False
             | Some code \<Rightarrow>
                 if extra = 2 \<and> code < 0x800 then False
                 else if extra = 3 \<and> code < 0x10000 then False
                 else if 0x10ffff < code \<or> 0xd800 \<le> code \<and> code \<le> 0xdfff then False
                 else is_utf8 bs (at + extra + 1))"
  by pat_completeness auto
termination
  by (relation "measure (\<lambda>(bs, at). length bs - at)") auto

declare is_utf8.simps [simp del]

definition ncfg_wire_attr_string :: "bytes \<Rightarrow> wire_attr \<Rightarrow> nat \<Rightarrow> bytes + bytes" where
  "ncfg_wire_attr_string mem attr out_size =
     (if out_size = 0 then Inl (ascii ''a string attribute needs somewhere to go'')
      else if wt_value attr = None \<and> wt_length attr \<noteq> 0 then
        Inl (ascii ''a string attribute with no bytes behind it'')
      else
        let v = (case wt_value attr of Some v \<Rightarrow> slice v (v + wt_length attr) mem | None \<Rightarrow> []);
            text = cstr v
        in if out_size \<le> length text then
             Inl (ascii ''a '' @ decimal (length text) @ ascii ''-byte string attribute does not fit a '' @
               decimal (out_size - 1) @ ascii ''-byte buffer'')
           else if \<not> is_utf8 text 0 then Inl (ascii ''a string attribute that is not valid UTF-8'')
           else Inr text)"

definition NCFG_WIRE_MAC_TEXT_MAX :: nat where
  "NCFG_WIRE_MAC_TEXT_MAX = 18"

definition mac_octet :: "byte \<Rightarrow> bytes" where
  "mac_octet b = [hex_digits ! unat (drop_bit 4 b), hex_digits ! unat (b AND 0x0f)]"

definition ncfg_wire_attr_mac :: "bytes \<Rightarrow> wire_attr \<Rightarrow> nat \<Rightarrow> bytes + bytes" where
  "ncfg_wire_attr_mac mem attr out_size =
     (if out_size < NCFG_WIRE_MAC_TEXT_MAX then Inl (ascii ''a MAC address needs 18 bytes to be written into'')
      else case wt_value attr of
        Some v \<Rightarrow>
          if wt_length attr \<noteq> 6
          then Inl (ascii ''a MAC address is 6 bytes and this attribute has '' @ decimal (wt_length attr))
          else Inr (concat (map (\<lambda>at. (if at \<noteq> 0 then ascii '':'' else []) @ mac_octet (mem ! (v + at))) [0..<6]))
      | None \<Rightarrow> Inl (ascii ''a MAC address is 6 bytes and this attribute has 0''))"

definition AF_INET :: nat where
  "AF_INET = 2"

definition AF_INET6 :: nat where
  "AF_INET6 = 10"

record wire_ip =
  ip_family :: nat
  ip_bytes :: bytes

definition ncfg_wire_attr_ip :: "bytes \<Rightarrow> wire_attr \<Rightarrow> bytes + wire_ip" where
  "ncfg_wire_attr_ip mem attr =
     (case wt_value attr of
        None \<Rightarrow> Inl (ascii ''an address attribute needs somewhere to come from'')
      | Some v \<Rightarrow>
          let len = wt_length attr in
          if len = 4 then Inr \<lparr>ip_family = AF_INET, ip_bytes = slice v (v + 4) mem @ replicate 12 0\<rparr>
          else if len = 16 then Inr \<lparr>ip_family = AF_INET6, ip_bytes = slice v (v + 16) mem\<rparr>
          else Inl (ascii ''an address is 4 or 16 bytes and this attribute has '' @ decimal len))"

text \<open>
  \<^verbatim>\<open>inet_pton\<close> answers the bytes of an address, \<^verbatim>\<open>inet_ntop\<close> the text, each for a family.
\<close>

definition ncfg_wire_ip_parse :: "(nat \<Rightarrow> bytes \<Rightarrow> bytes option) \<Rightarrow> bytes \<Rightarrow> bytes + wire_ip" where
  "ncfg_wire_ip_parse pton text =
     (case pton AF_INET (cstr text) of
        Some bs \<Rightarrow> Inr \<lparr>ip_family = AF_INET, ip_bytes = bs @ replicate 12 0\<rparr>
      | None \<Rightarrow>
          (case pton AF_INET6 (cstr text) of
             Some bs \<Rightarrow> Inr \<lparr>ip_family = AF_INET6, ip_bytes = bs\<rparr>
           | None \<Rightarrow> Inl (ascii ''`'' @ cstr text @ ascii ''` is not an address'')))"

definition NCFG_WIRE_IP_TEXT_MAX :: nat where
  "NCFG_WIRE_IP_TEXT_MAX = 46"

definition ncfg_wire_ip_text :: "(nat \<Rightarrow> bytes \<Rightarrow> bytes option) \<Rightarrow> wire_ip \<Rightarrow> nat \<Rightarrow> bytes + bytes" where
  "ncfg_wire_ip_text ntop ip out_size =
     (if out_size < NCFG_WIRE_IP_TEXT_MAX then Inl (ascii ''an address needs 46 bytes to be written into'')
      else if ip_family ip \<noteq> AF_INET \<and> ip_family ip \<noteq> AF_INET6 then
        Inl (ascii ''an address of no family cannot be written'')
      else case ntop (ip_family ip) (ip_bytes ip) of
        None \<Rightarrow> Inl (ascii ''this address cannot be written as text'')
      | Some text \<Rightarrow> Inr text)"

subsection \<open>Writing attributes\<close>

definition ncfg_wire_attr_put :: "byte_order \<Rightarrow> buf \<Rightarrow> 16 word \<Rightarrow> bytes \<Rightarrow> buf" where
  "ncfg_wire_attr_put host out kind v =
     (if bfailed out then out
      else if 0xffff - NCFG_WIRE_RTATTR_HDR_LEN < length v then out\<lparr>bfailed := True\<rparr>
      else
        let out = put_u16 host out (of_nat (NCFG_WIRE_RTATTR_HDR_LEN + length v));
            out = put_u16 host out kind;
            out = (if v \<noteq> [] then ncfg_buf_add granted out v else out)
        in pad_to_align out)"

definition ncfg_wire_attr_put_u8 :: "byte_order \<Rightarrow> buf \<Rightarrow> 16 word \<Rightarrow> byte \<Rightarrow> buf" where
  "ncfg_wire_attr_put_u8 host out kind v = ncfg_wire_attr_put host out kind [v]"

definition ncfg_wire_attr_put_u32 :: "byte_order \<Rightarrow> buf \<Rightarrow> 16 word \<Rightarrow> 32 word \<Rightarrow> buf" where
  "ncfg_wire_attr_put_u32 host out kind v =
     ncfg_wire_attr_put host out kind (native host (le_bytes 4 (unat v)))"

definition ncfg_wire_attr_put_str :: "byte_order \<Rightarrow> buf \<Rightarrow> 16 word \<Rightarrow> bytes option \<Rightarrow> buf" where
  "ncfg_wire_attr_put_str host out kind v =
     (if bfailed out then out
      else case v of
        None \<Rightarrow> out\<lparr>bfailed := True\<rparr>
      | Some v \<Rightarrow> ncfg_wire_attr_put host out kind (cstr v @ [0]))"

definition ncfg_wire_attr_put_ip :: "byte_order \<Rightarrow> buf \<Rightarrow> 16 word \<Rightarrow> wire_ip option \<Rightarrow> buf" where
  "ncfg_wire_attr_put_ip host out kind v =
     (if bfailed out then out
      else case v of
        None \<Rightarrow> out\<lparr>bfailed := True\<rparr>
      | Some v \<Rightarrow>
          if ip_family v \<noteq> AF_INET \<and> ip_family v \<noteq> AF_INET6 then out\<lparr>bfailed := True\<rparr>
          else ncfg_wire_attr_put host out kind (take (if ip_family v = AF_INET then 4 else 16) (ip_bytes v)))"

definition NLA_F_NESTED :: "16 word" where
  "NLA_F_NESTED = 0x8000"

definition ncfg_wire_attr_put_nested :: "byte_order \<Rightarrow> buf \<Rightarrow> 16 word \<Rightarrow> buf option \<Rightarrow> buf" where
  "ncfg_wire_attr_put_nested host out kind nest =
     (if bfailed out then out
      else case nest of
        None \<Rightarrow> out\<lparr>bfailed := True\<rparr>
      | Some nest \<Rightarrow>
          if ncfg_buf_failed nest then out\<lparr>bfailed := True\<rparr>
          else ncfg_wire_attr_put host out (kind OR NLA_F_NESTED) (take (blength nest) (buf_contents nest)))"

subsection \<open>Requests and answers\<close>

text \<open>What was refused, if anything, and the buffer.\<close>

definition ncfg_wire_build_request ::
  "byte_order \<Rightarrow> buf \<Rightarrow> 16 word \<Rightarrow> 16 word \<Rightarrow> 32 word \<Rightarrow> buf option \<Rightarrow> buf option \<Rightarrow> bytes option \<times> buf" where
  "ncfg_wire_build_request host out kind flags seq body attrs =
     (if (case body of None \<Rightarrow> False | Some b \<Rightarrow> ncfg_buf_failed b) then
        (Some (ascii ''the body of this request was never built''), out)
      else if (case attrs of None \<Rightarrow> False | Some a \<Rightarrow> ncfg_buf_failed a) then
        (Some (ascii ''the attributes of this request were never built''), out)
      else
        let body_bytes = (case body of None \<Rightarrow> [] | Some b \<Rightarrow> take (blength b) (buf_contents b));
            attrs_bytes = (case attrs of None \<Rightarrow> [] | Some a \<Rightarrow> take (blength a) (buf_contents a));
            total = (NCFG_WIRE_NLMSG_HDR_LEN + ncfg_wire_align4 (length body_bytes) + length attrs_bytes) mod (SIZE_MAX + 1)
        in if 0xffffffff < total \<or> total < length attrs_bytes then
             (Some (ascii ''a netlink message length is 32 bits and this request needs '' @ decimal total @
                ascii '' bytes''), out)
           else
             let out = ncfg_wire_header_encode host
                   \<lparr>wh_len = of_nat total, wh_kind = kind, wh_flags = flags, wh_seq = seq, wh_pid = 0\<rparr> out;
                 out = (if body_bytes \<noteq> [] then pad_to_align (ncfg_buf_add granted out body_bytes) else out);
                 out = (if attrs_bytes \<noteq> [] then ncfg_buf_add granted out attrs_bytes else out)
             in if ncfg_buf_failed out then
                  (Some (ascii ''a '' @ decimal total @ ascii ''-byte request did not fit its buffer''), out)
                else (None, out))"

definition ncfg_wire_error_code :: "byte_order \<Rightarrow> bytes \<Rightarrow> nat \<Rightarrow> nat \<Rightarrow> bytes + int" where
  "ncfg_wire_error_code host mem raw len =
     (if len < 4 then
        Inl (ascii ''an NLMSG_ERROR payload carries 4 bytes of errno and this one has '' @ decimal len)
      else
        let code = sint (read_u32 host mem raw) in
        if code = - (2 ^ 31) then
          Inl (ascii ''an errno with no positive counterpart is a malformed payload, not a code'')
        else Inr (- code))"

definition ncfg_wire_request_parts ::
  "byte_order \<Rightarrow> buf \<Rightarrow> string option \<Rightarrow> buf \<Rightarrow> (bytes + 16 word \<times> 16 word) \<times> buf" where
  "ncfg_wire_request_parts host message what body =
     (let mem = buf_contents message;
          what = (case what of Some what \<Rightarrow> ascii what | None \<Rightarrow> ascii ''netlink'')
      in case ncfg_wire_messages_next host mem
             (ncfg_wire_messages_start (map_option (\<lambda>_. 0) (bdata message)) (blength message)) of
           (WIRE_OK parsed, _) \<Rightarrow>
             (let body = ncfg_buf_add granted body
                    (slice (wg_payload parsed) (wg_payload parsed + wg_payload_length parsed) mem)
              in if ncfg_buf_failed body then (Inl (ascii ''no room for a '' @ what @ ascii '' request''), body)
                 else (Inr (wh_kind (wg_header parsed), wh_flags (wg_header parsed)), body))
         | _ \<Rightarrow> (Inl (ascii ''a '' @ what @ ascii '' request this port built is not a netlink message''), body))"

end
