(* ===== verification/Ncfg_Wire_Props.thy ===== *)
theory Ncfg_Wire_Props
  imports Ncfg_Wire Ncfg_Json_Write_Props
begin

text \<open>
  What the netlink framing guarantees: any bytes are walked to an end without a read past them, what
  the encoders write the walks and decoders read back, and a name that is read can be written in a
  document.
\<close>

subsection \<open>Integers\<close>

lemma length_native [simp]: "length (native host bs) = length bs"
  by (simp add: native_def split: byte_order.split)

lemma native_native [simp]: "native host (native host bs) = bs"
  by (simp add: native_def split: byte_order.split)

lemma length_le_bytes [simp]: "length (le_bytes n v) = n"
  by (induction n arbitrary: v) simp_all

lemma le_value_bytes: "le_value (le_bytes n v) = v mod 256 ^ n"
proof (induction n arbitrary: v)
  case (Suc n)
  have "unat (of_nat v :: byte) = v mod 256" by (simp add: unat_of_nat)
  with Suc [of "v div 256"] show ?case by (simp add: mod_mult2_eq)
qed simp

lemma slice_skip:
  assumes "drop at mem = xs @ ys" "length xs = n"
  shows "slice at (at + n) mem = xs"
  using assms by (simp add: slice_def)

lemma drop_further: "drop at mem = xs @ ys \<Longrightarrow> length xs = n \<Longrightarrow> drop (at + n) mem = ys"
  by (metis append_eq_conv_conj drop_drop add.commute)

lemma read_u16_at: "drop at mem = native host (le_bytes 2 (unat w)) @ ys \<Longrightarrow> read_u16 host mem at = w"
  using unat_less [of w] slice_skip [of at mem "native host (le_bytes 2 (unat w))" ys 2]
  by (simp add: read_u16_def le_value_bytes)

lemma read_u32_at: "drop at mem = native host (le_bytes 4 (unat w)) @ ys \<Longrightarrow> read_u32 host mem at = w"
  using unat_less [of w] slice_skip [of at mem "native host (le_bytes 4 (unat w))" ys 4]
  by (simp add: read_u32_def le_value_bytes)

lemma align4_id: "4 dvd n \<Longrightarrow> ncfg_wire_align4 n = n"
  by (auto simp: ncfg_wire_align4_def elim!: dvdE)

lemma align4_small: "n \<le> SIZE_MAX - 3 \<Longrightarrow> ncfg_wire_align4 n = (n + 3) div 4 * 4"
  by (simp add: ncfg_wire_align4_def)

subsection \<open>Walks\<close>

text \<open>A caller's loop over a walk: what came out of it, and the sentence it was refused with, if it was.\<close>

inductive walked :: "('w \<Rightarrow> 'a wire_step \<times> 'w) \<Rightarrow> 'w \<Rightarrow> 'a list \<Rightarrow> bytes option \<Rightarrow> bool" for step where
  walked_end: "step w = (WIRE_END, w') \<Longrightarrow> walked step w [] None"
| walked_bad: "step w = (WIRE_BAD why, w') \<Longrightarrow> walked step w [] (Some why)"
| walked_ok: "step w = (WIRE_OK x, w') \<Longrightarrow> walked step w' xs e \<Longrightarrow> walked step w (x # xs) e"

lemma walked_iff:
  "walked step w ys f \<longleftrightarrow>
   (case step w of
      (WIRE_END, _) \<Rightarrow> ys = [] \<and> f = None
    | (WIRE_BAD why, _) \<Rightarrow> ys = [] \<and> f = Some why
    | (WIRE_OK x, w') \<Rightarrow> (\<exists>zs. ys = x # zs \<and> walked step w' zs f))"
  by (subst walked.simps) (cases "step w"; cases "fst (step w)"; auto)

lemma walked_unique: "walked step w xs e \<Longrightarrow> walked step w ys f \<Longrightarrow> ys = xs \<and> f = e"
proof (induction arbitrary: ys f rule: walked.induct)
  case (walked_ok w x w' xs e)
  from walked_ok.prems walked_ok.hyps(1) obtain zs where "ys = x # zs" "walked step w' zs f"
    by (subst (asm) walked_iff) auto
  with walked_ok.IH [of zs f] show ?case by simp
next
  case (walked_end w w')
  with walked_iff [of step w ys f] show ?case by simp
next
  case (walked_bad w why w')
  with walked_iff [of step w ys f] show ?case by simp
qed

text \<open>
  What a walk promises: it stands at an offset with so much left, it ends exactly when nothing is left,
  a refusal leaves nothing, and a step hands out a piece behind a header, inside what was left, and
  goes on behind it.
\<close>

locale bounded_walk =
  fixes step :: "'w \<Rightarrow> 'a wire_step \<times> 'w"
    and place :: "'w \<Rightarrow> nat" and left :: "'w \<Rightarrow> nat"
    and header :: nat
    and piece :: "'a \<Rightarrow> nat" and extent :: "'a \<Rightarrow> nat"
  assumes header_pos: "0 < header"
    and step_end: "step w = (WIRE_END, w') \<Longrightarrow> left w = 0 \<and> w' = w"
    and step_bad: "step w = (WIRE_BAD why, w') \<Longrightarrow> left w' = 0"
    and step_ok: "step w = (WIRE_OK x, w') \<Longrightarrow>
      piece x = place w + header \<and> header + extent x \<le> left w \<and>
      piece x + extent x \<le> place w' \<and> place w' + left w' = place w + left w"
    and step_none: "left w = 0 \<Longrightarrow> step w = (WIRE_END, w)"
begin

lemma step_less: "step w = (WIRE_OK x, w') \<Longrightarrow> left w' < left w"
  using step_ok [of w x w'] header_pos by auto

lemma walk_ends: "\<exists>xs e. walked step w xs e"
proof (induction "left w" arbitrary: w rule: less_induct)
  case less
  obtain r w' where r: "step w = (r, w')" by fastforce
  show ?case
  proof (cases r)
    case (WIRE_OK x)
    with r less [of w'] step_less [of w x w'] obtain xs e where "walked step w' xs e" by blast
    with r WIRE_OK show ?thesis by (blast intro: walked_ok)
  qed (use r in \<open>blast intro: walked.intros\<close>)+
qed

definition inside :: "nat \<Rightarrow> nat \<Rightarrow> 'a \<Rightarrow> bool" where
  "inside from to x \<longleftrightarrow> from + header \<le> piece x \<and> piece x + extent x \<le> to"

lemma walk_inside:
  "walked step w xs e \<Longrightarrow>
     list_all (inside (place w) (place w + left w)) xs \<and>
     sorted_wrt (\<lambda>x y. piece x + extent x + header \<le> piece y) xs \<and> header * length xs \<le> left w"
proof (induction rule: walked.induct)
  case (walked_ok w x w' xs e)
  note k = step_ok [OF walked_ok.hyps(1)]
  have "inside (place w) (place w + left w) y \<and> piece x + extent x + header \<le> piece y" if "y \<in> set xs" for y
    using that walked_ok.IH k by (auto simp: list_all_iff inside_def)
  moreover have "inside (place w) (place w + left w) x" using k by (simp add: inside_def)
  moreover have "header * length (x # xs) \<le> left w" using walked_ok.IH k by simp
  ultimately show ?case using walked_ok.IH by (simp add: list_all_iff)
qed simp_all

lemma exhausted: "step w = (r, w') \<Longrightarrow> (\<And>x. r \<noteq> WIRE_OK x) \<Longrightarrow> step w' = (WIRE_END, w')"
  by (cases r) (auto dest: step_end step_bad intro: step_none)

end

interpretation messages: bounded_walk "ncfg_wire_messages_next host mem" "the \<circ> wm_rest" wm_remaining
  NCFG_WIRE_NLMSG_HDR_LEN wg_payload wg_payload_length for host mem
proof unfold_locales
  fix w w' :: wire_messages and x
  assume "ncfg_wire_messages_next host mem w = (WIRE_OK x, w')"
  then show "wg_payload x = (the \<circ> wm_rest) w + NCFG_WIRE_NLMSG_HDR_LEN \<and>
      NCFG_WIRE_NLMSG_HDR_LEN + wg_payload_length x \<le> wm_remaining w \<and>
      wg_payload x + wg_payload_length x \<le> (the \<circ> wm_rest) w' \<and>
      (the \<circ> wm_rest) w' + wm_remaining w' = (the \<circ> wm_rest) w + wm_remaining w"
    using align4_ge [of "unat (read_u32 host mem (the (wm_rest w)))"]
    by (auto simp: ncfg_wire_messages_next_def ncfg_wire_header_decode_def Let_def split: if_splits)
qed (auto simp: ncfg_wire_messages_next_def ncfg_wire_header_decode_def NCFG_WIRE_NLMSG_HDR_LEN_def stop_messages_def Let_def
    split: if_splits)

interpretation attrs: bounded_walk "ncfg_wire_attrs_next host mem" "the \<circ> ws_rest" ws_remaining
  NCFG_WIRE_RTATTR_HDR_LEN "the \<circ> wt_value" wt_length for host mem
proof unfold_locales
  fix w w' :: wire_attrs and x
  assume "ncfg_wire_attrs_next host mem w = (WIRE_OK x, w')"
  then show "(the \<circ> wt_value) x = (the \<circ> ws_rest) w + NCFG_WIRE_RTATTR_HDR_LEN \<and>
      NCFG_WIRE_RTATTR_HDR_LEN + wt_length x \<le> ws_remaining w \<and>
      (the \<circ> wt_value) x + wt_length x \<le> (the \<circ> ws_rest) w' \<and>
      (the \<circ> ws_rest) w' + ws_remaining w' = (the \<circ> ws_rest) w + ws_remaining w"
    using align4_ge [of "unat (read_u16 host mem (the (ws_rest w)))"]
    by (auto simp: ncfg_wire_attrs_next_def Let_def split: if_splits)
qed (auto simp: ncfg_wire_attrs_next_def NCFG_WIRE_RTATTR_HDR_LEN_def stop_attrs_def Let_def split: if_splits)

text \<open>A walk that looks at nothing behind a limit: whatever stands there, it steps as it does.\<close>

locale confined_walk = bounded_walk +
  fixes step' :: "'a \<Rightarrow> 'b wire_step \<times> 'a" and limit :: nat
  assumes agrees: "left w = 0 \<or> place w + left w \<le> limit \<Longrightarrow> step' w = step w"
begin

lemma walked_agrees: "walked step w xs e \<Longrightarrow> left w = 0 \<or> place w + left w \<le> limit \<Longrightarrow> walked step' w xs e"
proof (induction rule: walked.induct)
  case (walked_ok w x w' xs e)
  from step_ok [OF walked_ok.hyps(1)] walked_ok.prems have "left w' = 0 \<or> place w' + left w' \<le> limit" by auto
  with walked_ok agrees [OF walked_ok.prems] show ?case by (simp add: walked.walked_ok)
next
  case (walked_end w w')
  with agrees [OF walked_end.prems] show ?case by (auto intro: walked.walked_end)
next
  case (walked_bad w why w')
  with agrees [OF walked_bad.prems] show ?case by (auto intro: walked.walked_bad)
qed

end

lemma slice_appended: "at + n \<le> length mem \<Longrightarrow> slice at (at + n) (mem @ extra) = slice at (at + n) mem"
  by (simp add: slice_def)

lemma read_appended:
  "at + 2 \<le> length mem \<Longrightarrow> read_u16 host (mem @ extra) at = read_u16 host mem at"
  "at + 4 \<le> length mem \<Longrightarrow> read_u32 host (mem @ extra) at = read_u32 host mem at"
  unfolding read_u16_def read_u32_def by (simp_all only: slice_appended)

lemma header_appended:
  "raw + 16 \<le> length mem \<Longrightarrow> ncfg_wire_header_decode host (mem @ extra) raw len = ncfg_wire_header_decode host mem raw len"
  unfolding ncfg_wire_header_decode_def by (simp add: read_appended)

interpretation messages: confined_walk "ncfg_wire_messages_next host mem" "the \<circ> wm_rest" wm_remaining
  NCFG_WIRE_NLMSG_HDR_LEN wg_payload wg_payload_length "ncfg_wire_messages_next host (mem @ extra)" "length mem"
  for host mem extra
proof unfold_locales
  fix w :: wire_messages
  assume "wm_remaining w = 0 \<or> (the \<circ> wm_rest) w + wm_remaining w \<le> length mem"
  then have "wm_remaining w < 16 \<or> the (wm_rest w) + 16 \<le> length mem" by auto
  then have "wm_remaining w < NCFG_WIRE_NLMSG_HDR_LEN \<or>
      ncfg_wire_header_decode host (mem @ extra) (the (wm_rest w)) (wm_remaining w) =
      ncfg_wire_header_decode host mem (the (wm_rest w)) (wm_remaining w)"
    using header_appended [of "the (wm_rest w)" mem host extra "wm_remaining w"] by (auto simp: NCFG_WIRE_NLMSG_HDR_LEN_def)
  then show "ncfg_wire_messages_next host (mem @ extra) w = ncfg_wire_messages_next host mem w"
    by (elim disjE) (simp_all add: ncfg_wire_messages_next_def Let_def)
qed

interpretation attrs: confined_walk "ncfg_wire_attrs_next host mem" "the \<circ> ws_rest" ws_remaining
  NCFG_WIRE_RTATTR_HDR_LEN "the \<circ> wt_value" wt_length "ncfg_wire_attrs_next host (mem @ extra)" "length mem"
  for host mem extra
proof unfold_locales
  fix w :: wire_attrs
  assume "ws_remaining w = 0 \<or> (the \<circ> ws_rest) w + ws_remaining w \<le> length mem"
  then have "ws_remaining w < NCFG_WIRE_RTATTR_HDR_LEN \<or>
      read_u16 host (mem @ extra) (the (ws_rest w)) = read_u16 host mem (the (ws_rest w)) \<and>
      read_u16 host (mem @ extra) (the (ws_rest w) + 2) = read_u16 host mem (the (ws_rest w) + 2)"
    using read_appended(1) [of "the (ws_rest w)" mem host extra] read_appended(1) [of "the (ws_rest w) + 2" mem host extra]
    by (auto simp: NCFG_WIRE_RTATTR_HDR_LEN_def)
  then show "ncfg_wire_attrs_next host (mem @ extra) w = ncfg_wire_attrs_next host mem w"
    by (elim disjE) (simp_all add: ncfg_wire_attrs_next_def Let_def)
qed

lemma message_attrs_area:
  assumes "ncfg_wire_message_attrs m body = Inr area"
  shows "wg_payload m \<le> the (ws_rest area)"
    "the (ws_rest area) + ws_remaining area = wg_payload m + wg_payload_length m"
  using assms by (auto simp: ncfg_wire_message_attrs_def ncfg_wire_attrs_start_def Let_def split: if_splits)

lemma area_walked:
  assumes "ncfg_wire_message_attrs m body = Inr area" "wg_payload m + wg_payload_length m \<le> length mem"
  shows "\<exists>found f. walked (ncfg_wire_attrs_next host (mem @ extra)) area found f \<and>
    list_all (\<lambda>a. wg_payload m \<le> the (wt_value a) \<and>
      the (wt_value a) + wt_length a \<le> wg_payload m + wg_payload_length m) found"
proof -
  note a = message_attrs_area [OF assms(1)]
  obtain found f where w: "walked (ncfg_wire_attrs_next host mem) area found f" using attrs.walk_ends by blast
  with attrs.walked_agrees [OF w] attrs.walk_inside [OF w] a assms(2) show ?thesis
    by (intro exI [of _ found] exI [of _ f]) (fastforce simp: list_all_iff attrs.inside_def)
qed

text \<open>
  C24.  Any bytes are walked to an end, and no byte behind them is looked at.  Whatever a read from the
  kernel's socket holds, and whatever stands behind it in memory, the loop over its messages ends after
  at most one message for every sixteen bytes, and what it hands out is the same; the messages lie
  inside what was read, one behind the other with a header before each; and the loop over the
  attributes of any of them, for a family struct of any size, ends too and hands out values that lie
  inside that message.
\<close>

theorem wire_walks_confined:
  "\<exists>ms e.
     (\<forall>extra. walked (ncfg_wire_messages_next host (mem @ extra)) (ncfg_wire_messages_start (Some 0) (length mem)) ms e) \<and>
     16 * length ms \<le> length mem \<and>
     list_all (\<lambda>m. 16 \<le> wg_payload m \<and> wg_payload m + wg_payload_length m \<le> length mem) ms \<and>
     sorted_wrt (\<lambda>m m'. wg_payload m + wg_payload_length m + 16 \<le> wg_payload m') ms \<and>
     list_all (\<lambda>m.
       case ncfg_wire_message_attrs m body_length of
         Inl _ \<Rightarrow> True
       | Inr area \<Rightarrow>
           \<exists>found f. walked (ncfg_wire_attrs_next host mem) area found f \<and>
             list_all (\<lambda>a. wg_payload m \<le> the (wt_value a) \<and>
               the (wt_value a) + wt_length a \<le> wg_payload m + wg_payload_length m) found) ms"
proof -
  let ?start = "ncfg_wire_messages_start (Some 0) (length mem)"
  obtain ms e where w: "walked (ncfg_wire_messages_next host mem) ?start ms e" using messages.walk_ends by blast
  have s: "the (wm_rest ?start) = 0" "wm_remaining ?start = length mem" by (simp_all add: ncfg_wire_messages_start_def)
  note k = messages.walk_inside [OF w, unfolded o_def s, simplified]
  then have "list_all (\<lambda>m. 16 \<le> wg_payload m \<and> wg_payload m + wg_payload_length m \<le> length mem) ms"
    unfolding messages.inside_def by (simp add: list_all_iff NCFG_WIRE_NLMSG_HDR_LEN_def)
  moreover have "walked (ncfg_wire_messages_next host (mem @ extra)) ?start ms e" for extra
    using messages.walked_agrees [OF w] s by simp
  moreover note area_walked [of _ body_length _ mem host "[]", simplified]
  ultimately show ?thesis using k
    by (intro exI [of _ ms] exI [of _ e])
      (auto simp: list_all_iff NCFG_WIRE_NLMSG_HDR_LEN_def mult.commute split: sum.split)
qed

subsection \<open>What the encoders write\<close>

definition padding :: "nat \<Rightarrow> nat" where
  "padding n = (n + 3) div 4 * 4 - n"

lemma padding_align: "n \<le> SIZE_MAX - 3 \<Longrightarrow> ncfg_wire_align4 n - n = padding n"
  by (simp add: align4_small padding_def)

lemma padding_aligned: "4 dvd m \<Longrightarrow> padding (m + n) = padding n"
proof (elim dvdE)
  fix k
  assume m: "m = 4 * k"
  have "(4 * k + (n + 3)) div 4 = k + (n + 3) div 4" by simp
  then show ?thesis unfolding padding_def m by (simp add: add.assoc)
qed

lemma padded: "n + padding n = (n + 3) div 4 * 4"
proof -
  have "n \<le> (n + 3) div 4 * 4" by presburger
  then show ?thesis by (simp add: padding_def)
qed

lemma padded_aligned: "4 dvd n + padding n"
  by (simp add: padded)

lemma holds_pad:
  assumes "holds L out cs" "L \<le> SIZE_MAX - 3"
  shows "holds L (pad_to_align out) (cs @ replicate (padding (length cs)) 0)"
proof (cases "L < length cs")
  case True
  with assms show ?thesis by (simp add: holds_def pad_to_align_def)
next
  case False
  with assms have o: "\<not> bfailed out" "blength out = length cs" by (auto simp: holds_def buf_inv_def)
  with False assms(2) padding_align [of "length cs"]
  have "pad_to_align out = ncfg_buf_add granted out (replicate (padding (length cs)) 0)"
    by (simp add: pad_to_align_def Let_def ncfg_buf_add_def)
  with holds_add [OF assms(1)] show ?thesis by simp
qed

definition attr_text :: "byte_order \<Rightarrow> 16 word \<Rightarrow> bytes \<Rightarrow> bytes" where
  "attr_text host kind v =
     native host (le_bytes 2 (4 + length v)) @ native host (le_bytes 2 (unat kind)) @ v @
     replicate (padding (length v)) 0"

definition attrs_text :: "byte_order \<Rightarrow> (16 word \<times> bytes) list \<Rightarrow> bytes" where
  "attrs_text host as = concat (map (\<lambda>(kind, v). attr_text host kind v) as)"

lemma length_attr_text: "length (attr_text host kind v) = 4 + length v + padding (length v)"
  by (simp add: attr_text_def)

lemma attr_text_aligned: "4 dvd length (attr_text host kind v)"
  using padded_aligned [of "length v"] by (simp add: length_attr_text add.assoc)

lemma attrs_text_aligned: "4 dvd length (attrs_text host as)"
  by (induction as) (auto simp: attrs_text_def attr_text_aligned)

lemma unat_attr_length: "length v \<le> 65531 \<Longrightarrow> unat (of_nat (4 + length v) :: 16 word) = 4 + length v"
  by (simp only: unat_of_nat) simp

lemma holds_attr_put:
  assumes "holds L out cs" "4 dvd length cs" "length v \<le> 65531" "L \<le> SIZE_MAX - 3"
  shows "holds L (ncfg_wire_attr_put host out kind v) (cs @ attr_text host kind v)"
proof (cases "bfailed out")
  case True
  with assms(1) show ?thesis by (auto simp: holds_def ncfg_wire_attr_put_def split: if_splits)
next
  case False
  let ?out = "ncfg_buf_add granted (put_u16 host (put_u16 host out (of_nat (4 + length v))) kind) v"
  let ?cs = "((cs @ native host (le_bytes 2 (4 + length v))) @ native host (le_bytes 2 (unat kind))) @ v"
  have "length ?cs = length cs + (4 + length v)" by simp
  then have p: "padding (length ?cs) = padding (length v)"
    using padding_aligned [OF assms(2), of "4 + length v"] padding_aligned [of 4 "length v"] by (simp only: dvd_refl)
  have "holds L ?out ?cs"
    unfolding put_u16_def unat_attr_length [OF assms(3)] by (intro holds_add assms(1))
  from holds_pad [OF this assms(4)] have "holds L (pad_to_align ?out) (cs @ attr_text host kind v)"
    unfolding p by (simp add: attr_text_def)
  moreover have "ncfg_wire_attr_put host out kind v = pad_to_align ?out"
    using False assms(3) by (simp add: ncfg_wire_attr_put_def NCFG_WIRE_RTATTR_HDR_LEN_def Let_def ncfg_buf_add_def)
  ultimately show ?thesis by simp
qed

definition put_attrs :: "byte_order \<Rightarrow> buf \<Rightarrow> (16 word \<times> bytes) list \<Rightarrow> buf" where
  "put_attrs host out as = foldl (\<lambda>out (kind, v). ncfg_wire_attr_put host out kind v) out as"

lemma put_attrs_failed: "bfailed out \<Longrightarrow> bfailed (put_attrs host out as)"
proof (induction as arbitrary: out)
  case (Cons a as)
  then show ?case by (cases a) (simp add: put_attrs_def ncfg_wire_attr_put_def)
qed (simp add: put_attrs_def)

lemma put_attrs_holds:
  assumes "holds L out cs" "4 dvd length cs" "L \<le> SIZE_MAX - 3" "\<not> bfailed (put_attrs host out as)"
  shows "holds L (put_attrs host out as) (cs @ attrs_text host as) \<and> list_all (\<lambda>(kind, v). length v \<le> 65531) as"
  using assms
proof (induction as arbitrary: out cs)
  case (Cons a as)
  obtain kind v where a: "a = (kind, v)" by fastforce
  let ?out = "ncfg_wire_attr_put host out kind v"
  have rest: "put_attrs host out (a # as) = put_attrs host ?out as" by (simp add: put_attrs_def a)
  with Cons.prems(4) have "\<not> bfailed ?out" using put_attrs_failed by metis
  then have "length v \<le> 65531"
    by (auto simp: ncfg_wire_attr_put_def NCFG_WIRE_RTATTR_HDR_LEN_def split: if_splits)
  moreover from this have "holds L ?out (cs @ attr_text host kind v)" by (intro holds_attr_put Cons.prems)
  ultimately show ?case
    using Cons.IH [of ?out "cs @ attr_text host kind v"] Cons.prems(2,3,4) rest attr_text_aligned [of host kind v]
    by (simp add: attrs_text_def a)
qed (simp add: put_attrs_def attrs_text_def)

subsection \<open>What is written is read\<close>

fun attr_places :: "byte_order \<Rightarrow> nat \<Rightarrow> (16 word \<times> bytes) list \<Rightarrow> wire_attr list" where
  "attr_places host at [] = []"
| "attr_places host at ((kind, v) # as) =
     \<lparr>wt_kind = kind AND 0x3fff, wt_value = Some (at + 4), wt_length = length v\<rparr> #
     attr_places host (at + length (attr_text host kind v)) as"

definition attr_value :: "bytes \<Rightarrow> wire_attr \<Rightarrow> bytes" where
  "attr_value mem a = slice (the (wt_value a)) (the (wt_value a) + wt_length a) mem"

lemma attr_text_read:
  assumes "drop at mem = attr_text host kind v @ rest" "length v \<le> 65531"
  shows "unat (read_u16 host mem at) = 4 + length v" "read_u16 host mem (at + 2) = kind"
    "slice (at + 4) (at + 4 + length v) mem = v" "drop (at + length (attr_text host kind v)) mem = rest"
proof -
  let ?n = "native host (le_bytes 2 (4 + length v))" and ?k = "native host (le_bytes 2 (unat kind))"
  let ?z = "replicate (padding (length v)) 0"
  have t: "drop at mem = native host (le_bytes 2 (unat (of_nat (4 + length v) :: 16 word))) @ ?k @ v @ ?z @ rest"
    unfolding unat_attr_length [OF assms(2)] using assms(1) by (simp add: attr_text_def)
  from read_u16_at [OF t] show "unat (read_u16 host mem at) = 4 + length v" by (simp only: unat_attr_length [OF assms(2)])
  from t have k: "drop (at + 2) mem = ?k @ v @ ?z @ rest" by (rule drop_further) simp
  from read_u16_at [OF k] show "read_u16 host mem (at + 2) = kind" .
  from k have "drop (at + 2 + 2) mem = v @ ?z @ rest" by (rule drop_further) simp
  moreover have "at + 2 + 2 = at + 4" by simp
  ultimately have "drop (at + 4) mem = v @ ?z @ rest" by metis
  then show "slice (at + 4) (at + 4 + length v) mem = v" by (rule slice_skip) simp
  from assms(1) show "drop (at + length (attr_text host kind v)) mem = rest" by (rule drop_further) simp
qed

lemma attrs_next_text:
  assumes "drop at mem = attr_text host kind v @ rest" "length v \<le> 65531"
    "length (attr_text host kind v) \<le> remaining"
  shows "ncfg_wire_attrs_next host mem \<lparr>ws_rest = Some at, ws_remaining = remaining\<rparr> =
    (WIRE_OK \<lparr>wt_kind = kind AND 0x3fff, wt_value = Some (at + 4), wt_length = length v\<rparr>,
     \<lparr>ws_rest = Some (at + length (attr_text host kind v)),
      ws_remaining = remaining - length (attr_text host kind v)\<rparr>)"
proof -
  have "4 + length v \<le> SIZE_MAX - 3" using assms(2) by (simp add: SIZE_MAX_def)
  then have "ncfg_wire_align4 (4 + length v) = length (attr_text host kind v)"
    using padded [of "4 + length v"] padding_aligned [of 4 "length v"] by (simp add: align4_small length_attr_text)
  with assms(3) attr_text_read(1,2) [OF assms(1,2)] show ?thesis
    by (simp add: ncfg_wire_attrs_next_def NCFG_WIRE_RTATTR_HDR_LEN_def Let_def length_attr_text)
qed

lemma attrs_walked:
  assumes "drop at mem = attrs_text host as @ rest" "list_all (\<lambda>(kind, v). length v \<le> 65531) as"
  shows "walked (ncfg_wire_attrs_next host mem) \<lparr>ws_rest = Some at, ws_remaining = length (attrs_text host as)\<rparr>
      (attr_places host at as) None \<and>
    map (\<lambda>a. (wt_kind a, attr_value mem a)) (attr_places host at as) = map (\<lambda>(kind, v). (kind AND 0x3fff, v)) as"
  using assms
proof (induction as arbitrary: at)
  case Nil
  have "ncfg_wire_attrs_next host mem \<lparr>ws_rest = Some at, ws_remaining = 0\<rparr> =
      (WIRE_END, \<lparr>ws_rest = Some at, ws_remaining = 0\<rparr>)" by (simp add: ncfg_wire_attrs_next_def)
  then show ?case by (simp add: attrs_text_def walked_end)
next
  case (Cons a as)
  obtain kind v where a: "a = (kind, v)" by fastforce
  have t: "drop at mem = attr_text host kind v @ attrs_text host as @ rest" and v: "length v \<le> 65531"
    using Cons.prems by (simp_all add: attrs_text_def a)
  note r = attr_text_read(3,4) [OF t v]
  note IH = Cons.IH [OF r(2)] and n = attrs_next_text [OF t v, of "length (attrs_text host (a # as))"]
  from IH n Cons.prems(2) have "walked (ncfg_wire_attrs_next host mem)
      \<lparr>ws_rest = Some at, ws_remaining = length (attrs_text host (a # as))\<rparr> (attr_places host at (a # as)) None"
    by (auto simp: attrs_text_def a intro: walked_ok)
  with IH r Cons.prems(2) show ?case by (simp add: a attr_value_def)
qed

subsection \<open>Structs\<close>

text \<open>
  What a fixed struct of the wire promises: it is written as so many bytes, those bytes are read back as
  it was, and fewer are refused.
\<close>

locale wire_struct =
  fixes encode :: "'r \<Rightarrow> buf \<Rightarrow> buf"
    and decode :: "bytes \<Rightarrow> nat \<Rightarrow> nat \<Rightarrow> bytes + 'r"
    and image :: "'r \<Rightarrow> bytes"
    and width :: nat
  assumes image_width: "length (image r) = width"
    and encode_image: "holds L out cs \<Longrightarrow> holds L (encode r out) (cs @ image r)"
    and decode_image: "drop at mem = image r @ rest \<Longrightarrow> width \<le> len \<Longrightarrow> decode mem at len = Inr r"
    and decode_short: "len < width \<Longrightarrow> \<exists>why. decode mem at len = Inl why"
begin

lemma struct_back:
  assumes "width \<le> blimit (ncfg_buf_init limit)"
  shows "ncfg_buf_text (encode r (ncfg_buf_init limit)) = image r"
    "decode (ncfg_buf_text (encode r (ncfg_buf_init limit))) 0 width = Inr r"
proof -
  have "holds (blimit (ncfg_buf_init limit)) (ncfg_buf_init limit) []"
    by (simp add: holds_def buf_inv_init init_fields)
  from encode_image [OF this, of r] assms show t: "ncfg_buf_text (encode r (ncfg_buf_init limit)) = image r"
    by (simp add: holds_def image_width buf_text_contents)
  show "decode (ncfg_buf_text (encode r (ncfg_buf_init limit))) 0 width = Inr r"
    by (rule decode_image [where rest = "[]"]) (simp_all add: t)
qed

end

lemma nth_at: "drop at mem = xs @ ys \<Longrightarrow> i < length xs \<Longrightarrow> mem ! (at + i) = xs ! i"
proof -
  assume d: "drop at mem = xs @ ys" and i: "i < length xs"
  then have "at < length mem" by (cases "at < length mem") auto
  then show ?thesis using nth_drop [of at mem i] d i by (simp add: nth_append)
qed

lemma drop_to: "drop at mem = xs @ ys \<Longrightarrow> n = at + length xs \<Longrightarrow> drop n mem = ys"
  using drop_further by blast

definition header_text :: "byte_order \<Rightarrow> wire_header \<Rightarrow> bytes" where
  "header_text host h =
     native host (le_bytes 4 (unat (wh_len h))) @ native host (le_bytes 2 (unat (wh_kind h))) @
     native host (le_bytes 2 (unat (wh_flags h))) @ native host (le_bytes 4 (unat (wh_seq h))) @
     native host (le_bytes 4 (unat (wh_pid h)))"

lemma length_header_text: "length (header_text host h) = 16"
  by (simp add: header_text_def)

interpretation header: wire_struct "ncfg_wire_header_encode host" "ncfg_wire_header_decode host" "header_text host"
  NCFG_WIRE_NLMSG_HDR_LEN for host
proof unfold_locales
  fix L out cs and r :: wire_header
  assume h: "holds L out cs"
  have "holds L (ncfg_wire_header_encode host r out) (((((cs @ native host (le_bytes 4 (unat (wh_len r)))) @
      native host (le_bytes 2 (unat (wh_kind r)))) @ native host (le_bytes 2 (unat (wh_flags r)))) @
      native host (le_bytes 4 (unat (wh_seq r)))) @ native host (le_bytes 4 (unat (wh_pid r))))"
    unfolding ncfg_wire_header_encode_def Let_def put_u16_def put_u32_def by (intro holds_add h)
  then show "holds L (ncfg_wire_header_encode host r out) (cs @ header_text host r)" by (simp add: header_text_def)
next
  fix at mem rest len and r :: wire_header
  assume d: "drop at mem = header_text host r @ rest" and len: "NCFG_WIRE_NLMSG_HDR_LEN \<le> len"
  note d0 = d [unfolded header_text_def append.assoc]
  note d4 = drop_to [OF d0, of "at + 4", simplified]
  note d6 = drop_to [OF d4, of "at + 6", simplified]
  note d8 = drop_to [OF d6, of "at + 8", simplified]
  note d12 = drop_to [OF d8, of "at + 12", simplified]
  from len d0 d4 d6 d8 d12 show "ncfg_wire_header_decode host mem at len = Inr r"
    by (simp add: ncfg_wire_header_decode_def read_u16_at read_u32_at)
qed (auto simp: header_text_def ncfg_wire_header_decode_def NCFG_WIRE_NLMSG_HDR_LEN_def)

definition ifinfo_text :: "byte_order \<Rightarrow> wire_ifinfo \<Rightarrow> bytes" where
  "ifinfo_text host r =
     [wi_family r, 0] @ native host (le_bytes 2 (unat (wi_kind r))) @ native host (le_bytes 4 (unat (wi_index r))) @
     native host (le_bytes 4 (unat (wi_flags r))) @ native host (le_bytes 4 (unat (wi_change r)))"

interpretation ifinfo: wire_struct "ncfg_wire_ifinfo_encode host" "ncfg_wire_ifinfo_decode host" "ifinfo_text host"
  NCFG_WIRE_IFINFO_LEN for host
proof unfold_locales
  fix L out cs and r :: wire_ifinfo
  assume h: "holds L out cs"
  have "holds L (ncfg_wire_ifinfo_encode host r out) ((((((cs @ [wi_family r]) @ [0]) @
      native host (le_bytes 2 (unat (wi_kind r)))) @ native host (le_bytes 4 (unat (wi_index r)))) @
      native host (le_bytes 4 (unat (wi_flags r)))) @ native host (le_bytes 4 (unat (wi_change r))))"
    unfolding ncfg_wire_ifinfo_encode_def Let_def put_u16_def put_u32_def ncfg_buf_add_char_def by (intro holds_add h)
  then show "holds L (ncfg_wire_ifinfo_encode host r out) (cs @ ifinfo_text host r)" by (simp add: ifinfo_text_def)
next
  fix at mem rest len and r :: wire_ifinfo
  assume d: "drop at mem = ifinfo_text host r @ rest" and len: "NCFG_WIRE_IFINFO_LEN \<le> len"
  note d0 = d [unfolded ifinfo_text_def append.assoc]
  note d2 = drop_to [OF d0, of "at + 2", simplified]
  note d4 = drop_to [OF d2, of "at + 4", simplified]
  note d8 = drop_to [OF d4, of "at + 8", simplified]
  note d12 = drop_to [OF d8, of "at + 12", simplified]
  from len nth_at [OF d0, of 0] d2 d4 d8 d12 show "ncfg_wire_ifinfo_decode host mem at len = Inr r"
    by (simp add: ncfg_wire_ifinfo_decode_def read_u16_at read_u32_at)
qed (auto simp: ifinfo_text_def ncfg_wire_ifinfo_decode_def NCFG_WIRE_IFINFO_LEN_def)

definition ifaddr_text :: "byte_order \<Rightarrow> wire_ifaddr \<Rightarrow> bytes" where
  "ifaddr_text host r =
     [wa_family r, wa_prefix_len r, wa_flags r, wa_scope r] @ native host (le_bytes 4 (unat (wa_index r)))"

interpretation ifaddr: wire_struct "ncfg_wire_ifaddr_encode host" "ncfg_wire_ifaddr_decode host" "ifaddr_text host"
  NCFG_WIRE_IFADDR_LEN for host
proof unfold_locales
  fix L out cs and r :: wire_ifaddr
  assume h: "holds L out cs"
  have "holds L (ncfg_wire_ifaddr_encode host r out)
      ((cs @ [wa_family r, wa_prefix_len r, wa_flags r, wa_scope r]) @ native host (le_bytes 4 (unat (wa_index r))))"
    unfolding ncfg_wire_ifaddr_encode_def put_u32_def by (intro holds_add h)
  then show "holds L (ncfg_wire_ifaddr_encode host r out) (cs @ ifaddr_text host r)" by (simp add: ifaddr_text_def)
next
  fix at mem rest len and r :: wire_ifaddr
  assume d: "drop at mem = ifaddr_text host r @ rest" and len: "NCFG_WIRE_IFADDR_LEN \<le> len"
  note d0 = d [unfolded ifaddr_text_def append.assoc]
  note d4 = drop_to [OF d0, of "at + 4", simplified]
  from len nth_at [OF d0, of 0] nth_at [OF d0, of 1] nth_at [OF d0, of 2] nth_at [OF d0, of 3] d4
  show "ncfg_wire_ifaddr_decode host mem at len = Inr r"
    by (simp add: ncfg_wire_ifaddr_decode_def read_u32_at)
qed (auto simp: ifaddr_text_def ncfg_wire_ifaddr_decode_def NCFG_WIRE_IFADDR_LEN_def)

definition rtmsg_text :: "byte_order \<Rightarrow> wire_rtmsg \<Rightarrow> bytes" where
  "rtmsg_text host r =
     [wr_family r, wr_dst_len r, wr_src_len r, wr_tos r, wr_table r, wr_protocol r, wr_scope r, wr_kind r] @
     native host (le_bytes 4 (unat (wr_flags r)))"

interpretation rtmsg: wire_struct "ncfg_wire_rtmsg_encode host" "ncfg_wire_rtmsg_decode host" "rtmsg_text host"
  NCFG_WIRE_RTMSG_LEN for host
proof unfold_locales
  fix L out cs and r :: wire_rtmsg
  assume h: "holds L out cs"
  have "holds L (ncfg_wire_rtmsg_encode host r out)
      ((cs @ [wr_family r, wr_dst_len r, wr_src_len r, wr_tos r, wr_table r, wr_protocol r, wr_scope r, wr_kind r]) @
       native host (le_bytes 4 (unat (wr_flags r))))"
    unfolding ncfg_wire_rtmsg_encode_def put_u32_def by (intro holds_add h)
  then show "holds L (ncfg_wire_rtmsg_encode host r out) (cs @ rtmsg_text host r)" by (simp add: rtmsg_text_def)
next
  fix at mem rest len and r :: wire_rtmsg
  assume d: "drop at mem = rtmsg_text host r @ rest" and len: "NCFG_WIRE_RTMSG_LEN \<le> len"
  note d0 = d [unfolded rtmsg_text_def append.assoc]
  note d8 = drop_to [OF d0, of "at + 8", simplified]
  from len nth_at [OF d0, of 0] nth_at [OF d0, of 1] nth_at [OF d0, of 2] nth_at [OF d0, of 3]
    nth_at [OF d0, of 4] nth_at [OF d0, of 5] nth_at [OF d0, of 6] nth_at [OF d0, of 7] d8
  show "ncfg_wire_rtmsg_decode host mem at len = Inr r"
    by (simp add: ncfg_wire_rtmsg_decode_def read_u32_at)
qed (auto simp: rtmsg_text_def ncfg_wire_rtmsg_decode_def NCFG_WIRE_RTMSG_LEN_def)

subsection \<open>Requests\<close>

definition request_text :: "byte_order \<Rightarrow> wire_header \<Rightarrow> bytes \<Rightarrow> bytes \<Rightarrow> bytes" where
  "request_text host h body attrs =
     header_text host h @ body @ replicate (padding (length body)) 0 @ attrs"

lemma length_request_text:
  "length (request_text host h body attrs) = 16 + (length body + padding (length body)) + length attrs"
  by (simp add: request_text_def length_header_text)

lemma request_holds:
  assumes "holds L out []" "L \<le> SIZE_MAX - 3"
  shows "holds L
    (let out = ncfg_wire_header_encode host h out;
         out = (if body \<noteq> [] then pad_to_align (ncfg_buf_add granted out body) else out)
     in if attrs \<noteq> [] then ncfg_buf_add granted out attrs else out)
    (request_text host h body attrs)"
proof -
  let ?h = "ncfg_wire_header_encode host h out"
  let ?b = "if body \<noteq> [] then pad_to_align (ncfg_buf_add granted ?h body) else ?h"
  have h: "holds L ?h (header_text host h)" using header.encode_image [OF assms(1)] by simp
  have "padding (length (header_text host h @ body)) = padding (length body)"
    using padding_aligned [of 16 "length body"] by (simp add: length_header_text)
  with holds_pad [OF holds_add [OF h, of body] assms(2)] h
  have b: "holds L ?b (header_text host h @ body @ replicate (padding (length body)) 0)"
    by (auto simp: padding_def)
  with holds_add [OF b, of attrs] show ?thesis by (auto simp: Let_def request_text_def)
qed

lemma build_request_text:
  assumes "ncfg_wire_build_request host (ncfg_buf_init limit) kind flags seq (Some body) (Some attrs) = (None, out)"
    and "limit \<le> SIZE_MAX - 3" "buf_inv body" "buf_inv attrs"
  shows "\<not> bfailed attrs" "\<not> bfailed body"
    "let b = buf_contents body; a = buf_contents attrs; n = 16 + (length b + padding (length b)) + length a
     in n < 2 ^ 32 \<and> ncfg_buf_text out =
       request_text host \<lparr>wh_len = of_nat n, wh_kind = kind, wh_flags = flags, wh_seq = seq, wh_pid = 0\<rparr> b a"
proof -
  let ?init = "ncfg_buf_init limit" and ?b = "buf_contents body" and ?a = "buf_contents attrs"
  let ?L = "blimit ?init"
  have lim: "?L \<le> SIZE_MAX - 3" using assms(2) by (auto simp: init_fields DEFAULT_LIMIT_def SIZE_MAX_def)
  have init: "holds ?L ?init []" by (simp add: holds_def buf_inv_init init_fields)
  show nf: "\<not> bfailed attrs" "\<not> bfailed body"
    using assms(1) by (auto simp: ncfg_wire_build_request_def ncfg_buf_failed_def split: if_splits)
  define n where "n = (16 + ncfg_wire_align4 (length ?b) + length ?a) mod (SIZE_MAX + 1)"
  define h where "h = \<lparr>wh_len = of_nat n, wh_kind = kind, wh_flags = flags, wh_seq = seq, wh_pid = (0 :: 32 word)\<rparr>"
  have takes: "take (blength body) ?b = ?b" "take (blength attrs) ?a = ?a" using assms(3,4) by (simp_all add: buf_inv_def)
  have r: "\<not> 0xffffffff < n" "\<not> ncfg_buf_failed out"
    "out = (let out = ncfg_wire_header_encode host h ?init;
               out = (if ?b \<noteq> [] then pad_to_align (ncfg_buf_add granted out ?b) else out)
           in if ?a \<noteq> [] then ncfg_buf_add granted out ?a else out)"
    using assms(1) nf
    by (simp_all add: ncfg_wire_build_request_def ncfg_buf_failed_def takes Let_def h_def n_def NCFG_WIRE_NLMSG_HDR_LEN_def
        split: if_splits)
  have "holds ?L out (request_text host h ?b ?a)" unfolding r(3) by (rule request_holds [OF init lim])
  with r(2) have t: "ncfg_buf_text out = request_text host h ?b ?a" "length (request_text host h ?b ?a) \<le> ?L"
    by (auto simp: holds_def ncfg_buf_failed_def buf_text_contents split: if_splits)
  then have fits: "16 + (length ?b + padding (length ?b)) + length ?a \<le> SIZE_MAX - 3"
    using lim by (simp add: length_request_text)
  then have "ncfg_wire_align4 (length ?b) = length ?b + padding (length ?b)"
    using align4_small [of "length ?b"] padded [of "length ?b"] by simp
  with fits have "n = 16 + (length ?b + padding (length ?b)) + length ?a" by (simp add: n_def)
  with t r(1) show "let b = ?b; a = ?a; n = 16 + (length b + padding (length b)) + length a
     in n < 2 ^ 32 \<and> ncfg_buf_text out =
       request_text host \<lparr>wh_len = of_nat n, wh_kind = kind, wh_flags = flags, wh_seq = seq, wh_pid = 0\<rparr> b a"
    by (simp add: Let_def h_def)
qed

lemma request_walked:
  assumes "length (request_text host h body attrs) = n" "n < 2 ^ 32" "wh_len h = of_nat n"
  shows "ncfg_wire_messages_next host (request_text host h body attrs) (ncfg_wire_messages_start (Some 0) n) =
      (WIRE_OK \<lparr>wg_header = h, wg_payload = 16, wg_payload_length = n - 16\<rparr>,
       \<lparr>wm_rest = Some n, wm_remaining = 0\<rparr>)"
proof -
  have n: "16 \<le> n" using assms(1) by (simp add: length_request_text)
  have "drop 0 (request_text host h body attrs) =
      header_text host h @ body @ replicate (padding (length body)) 0 @ attrs" by (simp add: request_text_def)
  from header.decode_image [OF this, of n] n
  have "ncfg_wire_header_decode host (request_text host h body attrs) 0 n = Inr h"
    by (simp add: NCFG_WIRE_NLMSG_HDR_LEN_def)
  moreover have "unat (wh_len h) = n" using assms(2,3) by (simp add: unat_of_nat)
  ultimately show ?thesis using n align4_ge [of n]
    by (auto simp: ncfg_wire_messages_next_def ncfg_wire_messages_start_def NCFG_WIRE_NLMSG_HDR_LEN_def Let_def)
qed

text \<open>
  C25.  A request is read as it was built.  When \<^verbatim>\<open>ncfg_wire_build_request\<close> puts a family struct and
  attributes written one after another into a message, a reader of those bytes -- on a machine of
  either byte order -- finds exactly one message, with the type, flags and sequence number asked for
  and its own length; the struct as it stood; and exactly the attributes that were put, in order, each
  with its value whole and its type without the two flag bits.
\<close>

theorem wire_request_reads_back:
  assumes "ncfg_wire_build_request host (ncfg_buf_init limit) kind flags seq (Some body)
      (Some (put_attrs host (ncfg_buf_init room) as)) = (None, out)"
    and "buf_inv body" and "limit \<le> SIZE_MAX - 3" and "room \<le> SIZE_MAX - 3"
  shows "let mem = ncfg_buf_text out;
      m = \<lparr>wg_header = \<lparr>wh_len = of_nat (length mem), wh_kind = kind, wh_flags = flags, wh_seq = seq, wh_pid = 0\<rparr>,
           wg_payload = 16, wg_payload_length = length mem - 16\<rparr>
    in walked (ncfg_wire_messages_next host mem) (ncfg_wire_messages_start (Some 0) (length mem)) [m] None \<and>
       slice 16 (16 + blength body) mem = buf_contents body \<and>
       (\<exists>area found. ncfg_wire_message_attrs m (blength body) = Inr area \<and>
          walked (ncfg_wire_attrs_next host mem) area found None \<and>
          map (\<lambda>a. (wt_kind a, attr_value mem a)) found = map (\<lambda>(kind, v). (kind AND 0x3fff, v)) as)"
proof -
  let ?attrs = "put_attrs host (ncfg_buf_init room) as" and ?b = "buf_contents body"
  let ?L = "blimit (ncfg_buf_init room)" and ?p = "padding (length ?b)"
  have lim: "?L \<le> SIZE_MAX - 3" using assms(4) by (auto simp: init_fields DEFAULT_LIMIT_def SIZE_MAX_def)
  have init: "holds ?L (ncfg_buf_init room) []" by (simp add: holds_def buf_inv_init init_fields)
  have "\<not> bfailed ?attrs"
    using assms(1) by (auto simp: ncfg_wire_build_request_def ncfg_buf_failed_def split: if_splits)
  with put_attrs_holds [OF init _ lim, of host as] have a: "buf_inv ?attrs" "buf_contents ?attrs = attrs_text host as"
    "list_all (\<lambda>(kind, v). length v \<le> 65531) as" by (auto simp: holds_def split: if_splits)
  define n where "n = 16 + (length ?b + ?p) + length (attrs_text host as)"
  define h where "h = \<lparr>wh_len = of_nat n, wh_kind = kind, wh_flags = flags, wh_seq = seq, wh_pid = (0 :: 32 word)\<rparr>"
  define mem where "mem = ncfg_buf_text out"
  from build_request_text(3) [OF assms(1,3,2) a(1)] have t: "n < 2 ^ 32" "mem = request_text host h ?b (attrs_text host as)"
    by (simp_all add: Let_def a(2) n_def h_def mem_def)
  then have len: "length mem = n" by (simp add: length_request_text n_def)
  have bl: "blength body = length ?b" using assms(2) by (simp add: buf_inv_def)
  note w = request_walked [OF len [unfolded t(2)] t(1), folded t(2), simplified h_def, simplified, folded h_def]
  have "walked (ncfg_wire_messages_next host mem) (ncfg_wire_messages_start (Some 0) n)
      [\<lparr>wg_header = h, wg_payload = 16, wg_payload_length = n - 16\<rparr>] None"
    by (rule walked_ok, rule w, rule walked_end) (simp add: ncfg_wire_messages_next_def)
  moreover have d: "drop 16 mem = ?b @ replicate ?p 0 @ attrs_text host as"
    using length_header_text [of host h] by (simp add: t(2) request_text_def)
  then have "slice 16 (16 + blength body) mem = ?b" unfolding bl by (rule slice_skip) simp
  moreover have d2: "drop (16 + (length ?b + ?p)) mem = attrs_text host as @ []"
    by (rule drop_to [of 16 _ "?b @ replicate ?p 0"]) (simp_all add: d)
  have "length ?b + ?p \<le> SIZE_MAX - 3" using t(1) by (simp add: n_def SIZE_MAX_def)
  then have "ncfg_wire_align4 (blength body) = length ?b + ?p"
    using padded [of "length ?b"] by (simp add: align4_small bl)
  then have "ncfg_wire_message_attrs \<lparr>wg_header = h, wg_payload = 16, wg_payload_length = n - 16\<rparr> (blength body) =
      Inr \<lparr>ws_rest = Some (16 + (length ?b + ?p)), ws_remaining = length (attrs_text host as)\<rparr>"
    by (simp add: ncfg_wire_message_attrs_def ncfg_wire_attrs_start_def Let_def n_def)
  ultimately show ?thesis using attrs_walked [OF d2 a(3)] by (auto simp: Let_def h_def len mem_def [symmetric])
qed

definition sample_body :: buf where
  "sample_body = ncfg_wire_ifinfo_encode Big_Endian
     \<lparr>wi_family = 0, wi_kind = 1, wi_index = 2, wi_flags = 0x1003, wi_change = 1\<rparr> (ncfg_buf_init 64)"

definition sample_attrs :: "(16 word \<times> bytes) list" where
  "sample_attrs = [(3, ascii ''eth0'' @ [0]), (0x8012, [0, 8, 0, 1])]"

definition sample_request :: "bytes option \<times> buf" where
  "sample_request = ncfg_wire_build_request Big_Endian (ncfg_buf_init 4096) 16 5 7 (Some sample_body)
     (Some (put_attrs Big_Endian (ncfg_buf_init 4096) sample_attrs))"

theorem wire_request_reads_back_witness:
  "let mem = ncfg_buf_text (snd sample_request);
      m = \<lparr>wg_header = \<lparr>wh_len = of_nat (length mem), wh_kind = 16, wh_flags = 5, wh_seq = 7, wh_pid = 0\<rparr>,
           wg_payload = 16, wg_payload_length = length mem - 16\<rparr>
    in walked (ncfg_wire_messages_next Big_Endian mem) (ncfg_wire_messages_start (Some 0) (length mem)) [m] None \<and>
       (\<exists>area found. ncfg_wire_message_attrs m (blength sample_body) = Inr area \<and>
          walked (ncfg_wire_attrs_next Big_Endian mem) area found None \<and>
          map (\<lambda>a. (wt_kind a, attr_value mem a)) found = [(3, ascii ''eth0'' @ [0]), (0x12, [0, 8, 0, 1])])"
proof -
  have "fst sample_request = None" by code_simp
  then have r: "ncfg_wire_build_request Big_Endian (ncfg_buf_init 4096) 16 5 7 (Some sample_body)
      (Some (put_attrs Big_Endian (ncfg_buf_init 4096) sample_attrs)) = (None, snd sample_request)"
    by (metis sample_request_def prod.collapse)
  have "holds 64 (ncfg_buf_init 64) []" by (simp add: holds_def buf_inv_init init_fields)
  from ifinfo.encode_image [OF this] have b: "buf_inv sample_body" by (simp add: sample_body_def holds_def)
  have lim: "4096 \<le> SIZE_MAX - 3" by (simp add: SIZE_MAX_def)
  have m: "map (\<lambda>(kind, v). (kind AND 0x3fff, v)) sample_attrs = [(3, ascii ''eth0'' @ [0]), (0x12, [0, 8, 0, 1])]"
    by code_simp
  from wire_request_reads_back [OF r b lim lim] show ?thesis unfolding m by (simp add: Let_def del: ascii_simps)
qed

subsection \<open>Names\<close>

lemma continuation_bits:
  "continuation code bs = Some c \<Longrightarrow> (\<And>n. bit code n \<Longrightarrow> n < k) \<Longrightarrow> bit c n \<Longrightarrow> n < k + 6 * length bs"
proof (induction bs arbitrary: code k)
  case (Cons b bs)
  have "m < k + 6" if "bit (push_bit 6 code OR ucast (b AND 0x3f)) m" for m
  proof -
    have "(0x3f :: byte) = mask 6" by (simp add: mask_eq_exp_minus_1)
    then have low: "i < 6" if "bit (0x3f :: byte) i" for i using that by (metis bit_mask_iff)
    from that show ?thesis
      using Cons.prems(2) [of "m - 6"] low [of m] by (auto simp: bit_simps)
  qed
  with Cons.IH [of "push_bit 6 code OR ucast (b AND 0x3f)" "k + 6"] Cons.prems show ?case
    by (auto split: if_splits)
qed simp

lemma bits_less:
  fixes c :: "32 word"
  assumes "\<And>n. bit c n \<Longrightarrow> n < k"
  shows "unat c < 2 ^ k"
proof -
  have "take_bit k c = c" by (rule bit_eqI) (unfold bit_take_bit_iff, use assms in blast)
  then have "take_bit k (unat c) = unat c" using arg_cong [of _ _ unat] by (simp only: unsigned_take_bit_eq [symmetric])
  then show ?thesis by (metis take_bit_nat_less_exp)
qed

lemma lead_bits: "bit (ucast (b AND m :: byte) :: 32 word) n \<Longrightarrow> m = mask k \<Longrightarrow> n < k"
  by (auto simp: bit_simps)

lemma code_bound:
  assumes "continuation (ucast (lead AND m :: byte)) bs = Some c" "m = mask k"
  shows "unat c < 2 ^ (k + 6 * length bs)"
proof -
  from continuation_bits [OF assms(1), of k] lead_bits [OF _ assms(2)] have "bit c n \<Longrightarrow> n < k + 6 * length bs" for n by blast
  from bits_less [of c, OF this] show ?thesis .
qed

lemma slice_ahead: "slice 1 (n + 1) (drop at bs) = slice (at + 1) (at + 1 + n) bs"
  by (simp add: slice_def add.commute)

text \<open>One turn of the loop is one step of the JSON writer's scan.\<close>

lemma is_utf8_step:
  assumes "at < length bs"
  shows "is_utf8 bs at \<longleftrightarrow> utf8_step (drop at bs) \<noteq> 0 \<and> is_utf8 bs (at + utf8_step (drop at bs))"
proof -
  define lead where "lead = bs ! at"
  have l: "drop at bs ! 0 = lead" using assms by (simp add: lead_def)
  note turn = is_utf8.simps [of bs at, unfolded lead_def [symmetric]] utf8_step_def l Let_def
  consider (one) "lead < 0x80" | (two) "0xc2 \<le> lead" "lead \<le> 0xdf" | (three) "0xe0 \<le> lead" "lead \<le> 0xef"
    | (four) "0xf0 \<le> lead" "lead \<le> 0xf4"
    | (none) "\<not> lead < 0x80" "\<not> (0xc2 \<le> lead \<and> lead \<le> 0xdf)" "\<not> (0xe0 \<le> lead \<and> lead \<le> 0xef)"
        "\<not> (0xf0 \<le> lead \<and> lead \<le> 0xf4)"
    by blast
  then show ?thesis
  proof cases
    case one
    with assms show ?thesis by (simp add: turn)
  next
    case two
    have m: "(0x1f :: byte) = mask 5" by (simp add: mask_eq_exp_minus_1)
    have "unat c < 2048" if "length bs - at > 1" "continuation (ucast (lead AND 0x1f)) (slice (at + 1) (at + 1 + 1) bs) = Some c" for c
      using code_bound [OF that(2) m] that(1) by (simp add: length_slice)
    moreover have "slice (Suc 0) 2 (drop at bs) = slice (Suc at) (Suc (Suc at)) bs" by (simp add: slice_def)
    ultimately show ?thesis using two assms
      by (auto simp: turn word_less_nat_alt word_le_nat_alt split: option.splits)
  next
    case three
    have m: "(0x0f :: byte) = mask 4" by (simp add: mask_eq_exp_minus_1)
    have "unat c < 65536" if "length bs - at > 2" "continuation (ucast (lead AND 0x0f)) (slice (at + 1) (at + 1 + 2) bs) = Some c" for c
      using code_bound [OF that(2) m] that(1) by (simp add: length_slice)
    moreover have at3: "at + 3 = Suc (Suc (Suc at))" by simp
    ultimately show ?thesis using three assms slice_ahead [of 2 at bs]
      by (auto simp: turn at3 word_less_nat_alt word_le_nat_alt split: option.splits)
  next
    case four
    have at4: "(is_utf8 bs (at + 4)) = is_utf8 bs (4 + at)" by (simp only: add.commute)
    from four assms slice_ahead [of 3 at bs] show ?thesis
      by (auto simp: turn at4 word_less_nat_alt word_le_nat_alt split: option.splits)
  next
    case none
    then have "utf8_step (drop at bs) = 0"
      unfolding utf8_step_def l Let_def by (simp only: if_False if_True prod.case simp_thms)
    moreover have "\<not> is_utf8 bs at"
      using none assms unfolding turn(1) Let_def by (simp only: if_False if_True prod.case simp_thms) simp
    ultimately show ?thesis by simp
  qed
qed

lemma is_utf8_json: "is_utf8 bs at \<longleftrightarrow> json_utf8 (drop at bs)"
proof (induction "length bs - at" arbitrary: at rule: less_induct)
  case less
  show ?case
  proof (cases "at < length bs")
    case True
    then obtain c cs where d: "drop at bs = c # cs" by (cases "drop at bs") auto
    let ?n = "utf8_step (drop at bs)"
    have "?n \<noteq> 0 \<Longrightarrow> is_utf8 bs (at + ?n) \<longleftrightarrow> json_utf8 (drop ?n (drop at bs))"
      using less [of "at + ?n"] True by (simp add: add.commute)
    moreover have "json_utf8 (drop at bs) \<longleftrightarrow> ?n \<noteq> 0 \<and> json_utf8 (drop ?n (drop at bs))"
      unfolding d json_utf8.simps(2) Let_def by simp
    ultimately show ?thesis using is_utf8_step [OF True] by blast
  qed (simp add: is_utf8.simps)
qed

text \<open>
  A name off the wire is a name a document can hold.  A string attribute is answered exactly as its
  bytes up to the first NUL, and only when they fit the caller's buffer with a terminator and the JSON
  writer accepts them as a string: the two modules' separate scans for UTF-8 accept the same bytes.
  Nothing is ever cut short.
\<close>

theorem wire_names_writable:
  "ncfg_wire_attr_string mem a out_size = Inr name \<longleftrightarrow>
   name = cstr (case wt_value a of None \<Rightarrow> [] | Some v \<Rightarrow> slice v (v + wt_length a) mem) \<and>
   (case wt_value a of None \<Rightarrow> wt_length a = 0 | Some _ \<Rightarrow> True) \<and> length name < out_size \<and> json_utf8 name"
  by (cases "wt_value a") (auto simp: ncfg_wire_attr_string_def Let_def is_utf8_json split: if_splits)

text \<open>
  The structs of the wire survive it.  A message header, a link struct, an address struct and a
  route struct, written by their encoder on a machine of either byte order, are read back by their
  decoder as they were; and each decoder refuses anything shorter than its struct.
\<close>

theorem wire_structs_roundtrip:
  "ncfg_wire_header_decode host (ncfg_buf_text (ncfg_wire_header_encode host h (ncfg_buf_init 0))) 0 NCFG_WIRE_NLMSG_HDR_LEN = Inr h \<and>
   ncfg_wire_ifinfo_decode host (ncfg_buf_text (ncfg_wire_ifinfo_encode host i (ncfg_buf_init 0))) 0 NCFG_WIRE_IFINFO_LEN = Inr i \<and>
   ncfg_wire_ifaddr_decode host (ncfg_buf_text (ncfg_wire_ifaddr_encode host d (ncfg_buf_init 0))) 0 NCFG_WIRE_IFADDR_LEN = Inr d \<and>
   ncfg_wire_rtmsg_decode host (ncfg_buf_text (ncfg_wire_rtmsg_encode host r (ncfg_buf_init 0))) 0 NCFG_WIRE_RTMSG_LEN = Inr r \<and>
   isl (ncfg_wire_header_decode host mem at (NCFG_WIRE_NLMSG_HDR_LEN - Suc n)) \<and>
   isl (ncfg_wire_ifinfo_decode host mem at (NCFG_WIRE_IFINFO_LEN - Suc n)) \<and>
   isl (ncfg_wire_ifaddr_decode host mem at (NCFG_WIRE_IFADDR_LEN - Suc n)) \<and>
   isl (ncfg_wire_rtmsg_decode host mem at (NCFG_WIRE_RTMSG_LEN - Suc n))"
proof -
  have wide: "16 \<le> blimit (ncfg_buf_init 0)" by (simp add: init_fields DEFAULT_LIMIT_def)
  have sizes: "NCFG_WIRE_NLMSG_HDR_LEN = 16" "NCFG_WIRE_IFINFO_LEN = 16" "NCFG_WIRE_IFADDR_LEN = 8" "NCFG_WIRE_RTMSG_LEN = 12"
    by (simp_all add: NCFG_WIRE_NLMSG_HDR_LEN_def NCFG_WIRE_IFINFO_LEN_def NCFG_WIRE_IFADDR_LEN_def NCFG_WIRE_RTMSG_LEN_def)
  show ?thesis
    using wide header.struct_back(2) [of 0 host h] ifinfo.struct_back(2) [of 0 host i] ifaddr.struct_back(2) [of 0 host d]
      rtmsg.struct_back(2) [of 0 host r] header.decode_short [of _ host mem at] ifinfo.decode_short [of _ host mem at]
      ifaddr.decode_short [of _ host mem at] rtmsg.decode_short [of _ host mem at]
    by (simp add: sizes isl_def)
qed

lemma find_walked:
  "walked (ncfg_wire_attrs_next host mem) area found f \<Longrightarrow>
   ncfg_wire_attrs_find host mem area kind =
     (case find (\<lambda>a. wt_kind a = kind) found of
        Some a \<Rightarrow> WIRE_OK a
      | None \<Rightarrow> (case f of None \<Rightarrow> WIRE_END | Some why \<Rightarrow> WIRE_BAD why))"
  by (induction rule: walked.induct) (simp_all add: ncfg_wire_attrs_find.simps [of host mem])

text \<open>The errno of an answer: never negative for a negative code, and never an overflow.\<close>

lemma error_code_negated:
  "ncfg_wire_error_code host mem raw len = Inr e \<longleftrightarrow>
     4 \<le> len \<and> e = - sint (read_u32 host mem raw) \<and> - (2 ^ 31) < e \<and> e < 2 ^ 31"
proof -
  have "- (2 ^ 31) \<le> sint (read_u32 host mem raw)" "sint (read_u32 host mem raw) < 2 ^ 31"
    using sint_ge [of "read_u32 host mem raw"] sint_lt [of "read_u32 host mem raw"] by simp_all
  then show ?thesis by (auto simp: ncfg_wire_error_code_def Let_def)
qed

end
