(* ===== verification/Ncfg_Value.thy ===== *)
theory Ncfg_Value
  imports Ncfg_Plan Ncfg_Wire
begin

text \<open>
  The values a configuration is made of, \<^verbatim>\<open>c/src/model/value.c\<close>: the closed sets of words, addresses with
  their prefix lengths, addresses carved out of a delegated prefix, and hardware addresses.

  An array of words indexed by its enumeration is the list of the enumeration's values, each with its
  word; an integer outside an enumeration has no counterpart.  \<^verbatim>\<open>inet_pton\<close> and \<^verbatim>\<open>inet_ntop\<close> are arguments,
  for a family and the text or the bytes of an address.  A refusal is its sentence, uncut.
  Every caller passes somewhere to put the answer: the refusals of a null \<open>out\<close> have no counterpart.
\<close>

subsection \<open>The closed sets\<close>

datatype rule_action = RULE_ACTION_LOOKUP | RULE_ACTION_BLACKHOLE | RULE_ACTION_UNREACHABLE | RULE_ACTION_PROHIBIT

datatype rule_family = RULE_FAMILY_INET | RULE_FAMILY_INET6

datatype bluetooth_profile =
  BLUETOOTH_A2DP_SINK | BLUETOOTH_A2DP_SOURCE | BLUETOOTH_HFP | BLUETOOTH_PAN | BLUETOOTH_NAP

datatype drift_policy = DRIFT_REPORT | DRIFT_RECONCILE | DRIFT_IGNORE

datatype dns_mode =
    DNS_MODE_NONE | DNS_MODE_WRITE_RESOLV_CONF | DNS_MODE_RESOLVCONF | DNS_MODE_OPENRESOLV | DNS_MODE_RESOLVED
  | DNS_MODE_DNSMASQ | DNS_MODE_UNBOUND | DNS_MODE_EXEC

type_synonym 'e words = "('e \<times> string) list"

definition hook_phase_names :: "hook_phase_t words" where
  "hook_phase_names =
     [(NCFG_HOOK_PHASE_PRE_UP, ''pre_up''), (NCFG_HOOK_PHASE_UP, ''up''), (NCFG_HOOK_PHASE_POST_UP, ''post_up''),
      (NCFG_HOOK_PHASE_PRE_DOWN, ''pre_down''), (NCFG_HOOK_PHASE_DOWN, ''down''),
      (NCFG_HOOK_PHASE_POST_DOWN, ''post_down''), (NCFG_HOOK_PHASE_CARRIER, ''carrier''),
      (NCFG_HOOK_PHASE_LEASE, ''lease''), (NCFG_HOOK_PHASE_ROAM, ''roam''), (NCFG_HOOK_PHASE_PORTAL, ''portal''),
      (NCFG_HOOK_PHASE_DRIFT, ''drift'')]"

definition rule_action_names :: "rule_action words" where
  "rule_action_names =
     [(RULE_ACTION_LOOKUP, ''lookup''), (RULE_ACTION_BLACKHOLE, ''blackhole''),
      (RULE_ACTION_UNREACHABLE, ''unreachable''), (RULE_ACTION_PROHIBIT, ''prohibit'')]"

definition rule_family_names :: "rule_family words" where
  "rule_family_names = [(RULE_FAMILY_INET, ''inet''), (RULE_FAMILY_INET6, ''inet6'')]"

definition bluetooth_profile_names :: "bluetooth_profile words" where
  "bluetooth_profile_names =
     [(BLUETOOTH_A2DP_SINK, ''a2dp-sink''), (BLUETOOTH_A2DP_SOURCE, ''a2dp-source''), (BLUETOOTH_HFP, ''hfp''),
      (BLUETOOTH_PAN, ''pan''), (BLUETOOTH_NAP, ''nap'')]"

definition drift_policy_names :: "drift_policy words" where
  "drift_policy_names = [(DRIFT_REPORT, ''report''), (DRIFT_RECONCILE, ''reconcile''), (DRIFT_IGNORE, ''ignore'')]"

definition dns_mode_names :: "dns_mode words" where
  "dns_mode_names =
     [(DNS_MODE_NONE, ''none''), (DNS_MODE_WRITE_RESOLV_CONF, ''write_resolv_conf''),
      (DNS_MODE_RESOLVCONF, ''resolvconf''), (DNS_MODE_OPENRESOLV, ''openresolv''), (DNS_MODE_RESOLVED, ''resolved''),
      (DNS_MODE_DNSMASQ, ''dnsmasq''), (DNS_MODE_UNBOUND, ''unbound''), (DNS_MODE_EXEC, ''exec'')]"

definition name_of :: "'e words \<Rightarrow> 'e \<Rightarrow> cstring" where
  "name_of names which = map_option ascii (map_of names which)"

fun listed :: "'e words \<Rightarrow> bytes" where
  "listed [] = []"
| "listed [(_, word)] = ascii word"
| "listed ((_, word) # names) = ascii word @ ascii '', '' @ listed names"

definition value_of :: "'e words \<Rightarrow> string \<Rightarrow> cstring \<Rightarrow> bytes + 'e" where
  "value_of names kind word =
     (let found = (case word of
            None \<Rightarrow> None
          | Some word \<Rightarrow> find (\<lambda>(_, name). ascii name = cstr word) names)
      in case found of
        Some (which, _) \<Rightarrow> Inr which
      | None \<Rightarrow>
          Inl (ascii ''`'' @ (case word of None \<Rightarrow> [] | Some word \<Rightarrow> cstr word) @ ascii ''` is not a '' @ ascii kind @
            ascii ''; the '' @ ascii kind @ ascii ''s are: '' @ snprintf_text 256 (listed names)))"

definition ncfg_hook_phase_from_name :: "cstring \<Rightarrow> bytes + hook_phase_t" where
  "ncfg_hook_phase_from_name name = value_of hook_phase_names ''hook phase'' name"

definition ncfg_rule_action_name :: "rule_action \<Rightarrow> cstring" where
  "ncfg_rule_action_name action = name_of rule_action_names action"

definition ncfg_rule_action_from_name :: "cstring \<Rightarrow> bytes + rule_action" where
  "ncfg_rule_action_from_name name = value_of rule_action_names ''rule action'' name"

definition ncfg_rule_family_name :: "rule_family \<Rightarrow> cstring" where
  "ncfg_rule_family_name family = name_of rule_family_names family"

definition ncfg_rule_family_from_name :: "cstring \<Rightarrow> bytes + rule_family" where
  "ncfg_rule_family_from_name name = value_of rule_family_names ''rule family'' name"

definition ncfg_bluetooth_profile_name :: "bluetooth_profile \<Rightarrow> cstring" where
  "ncfg_bluetooth_profile_name profile = name_of bluetooth_profile_names profile"

definition ncfg_bluetooth_profile_from_name :: "cstring \<Rightarrow> bytes + bluetooth_profile" where
  "ncfg_bluetooth_profile_from_name name = value_of bluetooth_profile_names ''bluetooth profile'' name"

definition ncfg_drift_policy_name :: "drift_policy \<Rightarrow> cstring" where
  "ncfg_drift_policy_name policy = name_of drift_policy_names policy"

definition ncfg_drift_policy_from_name :: "cstring \<Rightarrow> bytes + drift_policy" where
  "ncfg_drift_policy_from_name name = value_of drift_policy_names ''drift policy'' name"

definition ncfg_dns_mode_name :: "dns_mode \<Rightarrow> cstring" where
  "ncfg_dns_mode_name mode = name_of dns_mode_names mode"

definition ncfg_dns_mode_from_name :: "cstring \<Rightarrow> bytes + dns_mode" where
  "ncfg_dns_mode_from_name name =
     (if (case name of None \<Rightarrow> False | Some name \<Rightarrow> cstr name = ascii ''resolv.conf'')
      then Inr DNS_MODE_WRITE_RESOLV_CONF
      else value_of dns_mode_names ''dns mode'' name)"

subsection \<open>Addresses\<close>

text \<open>\<open>ad_bytes\<close> is the array of sixteen, of which an IPv4 address uses the first four.\<close>

record address =
  ad_is_ipv6 :: bool
  ad_bytes :: bytes
  ad_has_prefix :: bool
  ad_prefix :: nat

definition NCFG_ADDRESS_MAX :: nat where
  "NCFG_ADDRESS_MAX = 50"

definition INET6_ADDRSTRLEN :: nat where
  "INET6_ADDRSTRLEN = 46"

type_synonym pton = "nat \<Rightarrow> bytes \<Rightarrow> bytes option"
type_synonym ntop = "nat \<Rightarrow> bytes \<Rightarrow> bytes option"

abbreviation slash :: byte where
  "slash \<equiv> ch CHR ''/''"

abbreviation colon :: byte where
  "colon \<equiv> ch CHR '':''"

fun skip_zeros :: "bytes \<Rightarrow> bytes" where
  "skip_zeros (d # e # digits) = (if d = ch CHR ''0'' then skip_zeros (e # digits) else d # e # digits)"
| "skip_zeros digits = digits"

definition prefix_max :: "bool \<Rightarrow> nat" where
  "prefix_max is_ipv6 = (if is_ipv6 then 128 else 32)"

definition out_of_range :: "bool \<Rightarrow> nat \<Rightarrow> bytes" where
  "out_of_range is_ipv6 prefix =
     ascii ''a prefix length of /'' @ decimal prefix @ ascii '' is out of range for '' @
     ascii (if is_ipv6 then ''IPv6'' else ''IPv4'') @ ascii '', which goes up to /'' @ decimal (prefix_max is_ipv6)"

definition parse_prefix :: "bool \<Rightarrow> bytes \<Rightarrow> bytes + nat" where
  "parse_prefix is_ipv6 written =
     (let digits = skip_zeros written;
          refusal = ascii ''`'' @ written @ ascii ''` is not a prefix length''
      in if length digits = 0 \<or> 3 < length digits then Inl refusal
         else if \<not> list_all is_digit digits then Inl refusal
         else
           let prefix = decimal_value digits in
           if prefix_max is_ipv6 < prefix then Inl (out_of_range is_ipv6 prefix) else Inr prefix)"

definition ncfg_address_parse :: "pton \<Rightarrow> cstring \<Rightarrow> bytes + address" where
  "ncfg_address_parse pton text =
     (case text of
        None \<Rightarrow> Inl (ascii ''an empty string is not an address'')
      | Some text \<Rightarrow>
          let text = cstr text;
              plain = takeWhile (\<lambda>b. b \<noteq> slash) text;
              after = drop (length plain) text
          in if text = [] then Inl (ascii ''an empty string is not an address'')
             else if plain = [] \<or> INET6_ADDRSTRLEN \<le> length plain then
               Inl (ascii ''`'' @ text @ ascii ''` is not an IPv4 or IPv6 address'')
             else
               let is_ipv6 = (colon \<in> set plain) in
               case pton (if is_ipv6 then AF_INET6 else AF_INET) plain of
                 None \<Rightarrow> Inl (ascii ''`'' @ plain @ ascii ''` is not an IPv4 or IPv6 address'')
               | Some bs \<Rightarrow>
                   let parsed = \<lparr>ad_is_ipv6 = is_ipv6, ad_bytes = bs @ replicate (16 - length bs) 0,
                         ad_has_prefix = False, ad_prefix = 0\<rparr>
                   in if after = [] then Inr parsed
                      else case parse_prefix is_ipv6 (tl after) of
                        Inl err \<Rightarrow> Inl err
                      | Inr prefix \<Rightarrow> Inr (parsed\<lparr>ad_has_prefix := True, ad_prefix := prefix\<rparr>))"

definition ncfg_address_render :: "ntop \<Rightarrow> address \<Rightarrow> nat \<Rightarrow> bytes + bytes" where
  "ncfg_address_render ntop address out_size =
     (if out_size < NCFG_ADDRESS_MAX then
        Inl (ascii ''a buffer of '' @ decimal out_size @ ascii '' bytes cannot hold an address; NCFG_ADDRESS_MAX is 50'')
      else if ad_has_prefix address \<and> prefix_max (ad_is_ipv6 address) < ad_prefix address then
        Inl (out_of_range (ad_is_ipv6 address) (ad_prefix address))
      else case ntop (if ad_is_ipv6 address then AF_INET6 else AF_INET)
                  (take (if ad_is_ipv6 address then 16 else 4) (ad_bytes address)) of
        None \<Rightarrow>
          Inl (ascii ''an address of '' @ decimal (if ad_is_ipv6 address then 16 else 4) @
            ascii '' bytes could not be rendered'')
      | Some plain \<Rightarrow>
          let written = (if ad_has_prefix address then plain @ ascii ''/'' @ decimal (ad_prefix address) else plain)
          in if out_size \<le> length written then
               Inl (ascii ''`'' @ plain @ ascii ''` did not fit the buffer it was rendered into'')
             else Inr written)"

definition NCFG_ROAM_SIGNAL_MIN :: int where
  "NCFG_ROAM_SIGNAL_MIN = -100"

definition NCFG_ROAM_SIGNAL_MAX :: int where
  "NCFG_ROAM_SIGNAL_MAX = -1"

definition ncfg_roam_signal_in_range :: "64 word \<Rightarrow> bool" where
  "ncfg_roam_signal_in_range signal = (NCFG_ROAM_SIGNAL_MIN \<le> sint signal \<and> sint signal \<le> NCFG_ROAM_SIGNAL_MAX)"

definition ncfg_roam_intervals_ordered :: "64 word \<Rightarrow> 64 word \<Rightarrow> bool" where
  "ncfg_roam_intervals_ordered interval slow_interval = (sint interval \<le> sint slow_interval)"

definition ncfg_addresses_same_family :: "cstring \<Rightarrow> cstring \<Rightarrow> bool" where
  "ncfg_addresses_same_family one other =
     (case (one, other) of
        (Some one, Some other) \<Rightarrow> (colon \<notin> set (cstr one)) = (colon \<notin> set (cstr other))
      | _ \<Rightarrow> True)"

definition prefix_mask :: "nat \<Rightarrow> nat \<Rightarrow> byte" where
  "prefix_mask prefix i =
     (let bits = i * 8 in
      if bits + 8 \<le> prefix then 0xff
      else if prefix \<le> bits then 0
      else push_bit (8 - (prefix - bits)) 0xff)"

text \<open>\<open>None\<close> is the answer -1; otherwise whether nothing was cleared, and the text.\<close>

definition ncfg_address_network_of :: "pton \<Rightarrow> ntop \<Rightarrow> cstring \<Rightarrow> nat \<Rightarrow> (bool \<times> bytes) option" where
  "ncfg_address_network_of pton ntop text out_size =
     (case text of
        None \<Rightarrow> None
      | Some t \<Rightarrow>
          if slash \<notin> set (cstr t) then None
          else case ncfg_address_parse pton text of
            Inl _ \<Rightarrow> None
          | Inr address \<Rightarrow>
              if \<not> ad_has_prefix address then None
              else
                let width = (if ad_is_ipv6 address then 16 else 4);
                    masked = map (\<lambda>i. if i < width then ad_bytes address ! i AND prefix_mask (ad_prefix address) i
                                      else ad_bytes address ! i) [0..<16];
                    same = list_all (\<lambda>i. masked ! i = ad_bytes address ! i) [0..<width]
                in case ncfg_address_render ntop (address\<lparr>ad_bytes := masked\<rparr>) out_size of
                     Inl _ \<Rightarrow> None
                   | Inr out \<Rightarrow> Some (same, out))"

definition ncfg_address_canonical :: "pton \<Rightarrow> ntop \<Rightarrow> cstring \<Rightarrow> nat \<Rightarrow> bytes + bytes" where
  "ncfg_address_canonical pton ntop text out_size =
     (case ncfg_address_parse pton text of
        Inl err \<Rightarrow> Inl err
      | Inr address \<Rightarrow> ncfg_address_render ntop address out_size)"

subsection \<open>Delegated addresses\<close>

definition bit_of :: "nat \<Rightarrow> byte" where
  "bit_of i = drop_bit (i mod 8) 0x80"

definition clear_bit :: "bytes \<Rightarrow> nat \<Rightarrow> bytes" where
  "clear_bit bs i = bs[i div 8 := bs ! (i div 8) AND NOT (bit_of i)]"

definition raise_bit :: "bytes \<Rightarrow> nat \<Rightarrow> bytes" where
  "raise_bit bs i = bs[i div 8 := bs ! (i div 8) OR bit_of i]"

definition keep_top_bits :: "bytes \<Rightarrow> nat \<Rightarrow> bytes" where
  "keep_top_bits bs len = foldl (\<lambda>bs i. if len \<le> i then clear_bit bs i else bs) bs [0..<128]"

definition put_selector :: "64 word \<Rightarrow> nat \<Rightarrow> bytes \<Rightarrow> bytes option" where
  "put_selector subnet prefix bs =
     foldl (\<lambda>bs b. case bs of
          None \<Rightarrow> None
        | Some bs \<Rightarrow>
            if drop_bit b subnet AND 1 = 0 then Some bs
            else if prefix < b + 1 then None
            else Some (raise_bit bs (prefix - 1 - b)))
       (Some bs) [0..<16]"

definition put_host :: "bytes \<Rightarrow> nat \<Rightarrow> bytes \<Rightarrow> bytes" where
  "put_host host prefix bs =
     foldl (\<lambda>bs b. if host ! (b div 8) AND bit_of b \<noteq> 0 then raise_bit bs b else bs) bs [prefix..<128]"

definition derive_address :: "address \<Rightarrow> 64 word \<Rightarrow> address \<Rightarrow> bytes + address" where
  "derive_address block subnet host =
     (if ad_prefix host < ad_prefix block then
        Inl (ascii ''a /'' @ decimal (ad_prefix host) @ ascii '' cannot be carved out of a /'' @
          decimal (ad_prefix block) @
          ascii ''; the suffix's prefix length must be at least as long as the delegation's'')
      else if sint subnet < 0 \<or> 0xffff < sint subnet then
        Inl (ascii ''a subnet selector of '' @ decimal_int (sint subnet) @
          ascii '' is outside the 0 to 65535 a prefix reference carries'')
      else
        let spare = ad_prefix host - ad_prefix block in
        if spare < 16 \<and> push_bit spare 1 \<le> subnet then
          Inl (ascii ''subnet '' @ decimal_int (sint subnet) @ ascii '' does not fit: a /'' @ decimal (ad_prefix block) @
            ascii '' delegation split into /'' @ decimal (ad_prefix host) @ ascii '' blocks has '' @
            decimal (2 ^ spare) @ ascii '' of them'')
        else
          case put_selector subnet (ad_prefix host) (keep_top_bits (ad_bytes block) (ad_prefix block)) of
            None \<Rightarrow>
              Inl (ascii ''subnet '' @ decimal_int (sint subnet) @ ascii '' does not fit inside a /'' @
                decimal (ad_prefix host))
          | Some bs \<Rightarrow>
              Inr (block\<lparr>ad_bytes := put_host (ad_bytes host) (ad_prefix host) bs, ad_has_prefix := True,
                          ad_prefix := ad_prefix host\<rparr>))"

definition ncfg_address_from_delegation ::
  "pton \<Rightarrow> ntop \<Rightarrow> cstring \<Rightarrow> 64 word \<Rightarrow> cstring \<Rightarrow> nat \<Rightarrow> bytes + bytes" where
  "ncfg_address_from_delegation pton ntop delegation subnet suffix out_size =
     (case (delegation, suffix) of
        (Some d, Some s) \<Rightarrow>
          (case ncfg_address_parse pton delegation of
             Inl _ \<Rightarrow> Inl (ascii ''`'' @ cstr d @ ascii ''` is not an IPv6 prefix'')
           | Inr block \<Rightarrow>
               if \<not> ad_is_ipv6 block \<or> \<not> ad_has_prefix block then
                 Inl (ascii ''`'' @ cstr d @ ascii ''` is not an IPv6 prefix'')
               else
                 (case ncfg_address_parse pton suffix of
                    Inl _ \<Rightarrow> Inl (ascii ''`'' @ cstr s @ ascii ''` is not an IPv6 address with a prefix length'')
                  | Inr host \<Rightarrow>
                      if \<not> ad_is_ipv6 host \<or> \<not> ad_has_prefix host then
                        Inl (ascii ''`'' @ cstr s @ ascii ''` is not an IPv6 address with a prefix length'')
                      else
                        (case derive_address block subnet host of
                           Inl err \<Rightarrow> Inl err
                         | Inr derived \<Rightarrow> ncfg_address_render ntop derived out_size)))
      | _ \<Rightarrow> Inl (ascii ''a delegated address needs both a prefix and a suffix''))"

subsection \<open>Hardware addresses\<close>

definition hex_value :: "byte \<Rightarrow> nat option" where
  "hex_value one =
     (if ch CHR ''0'' \<le> one \<and> one \<le> ch CHR ''9'' then Some (unat (one - ch CHR ''0''))
      else if ch CHR ''a'' \<le> one \<and> one \<le> ch CHR ''f'' then Some (unat (one - ch CHR ''a'') + 10)
      else if ch CHR ''A'' \<le> one \<and> one \<le> ch CHR ''F'' then Some (unat (one - ch CHR ''A'') + 10)
      else None)"

definition upper_digit :: "nat \<Rightarrow> byte" where
  "upper_digit v = ascii ''0123456789ABCDEF'' ! (v mod 16)"

definition is_blank_char :: "byte \<Rightarrow> bool" where
  "is_blank_char one = (one \<in> {32, 9, 10, 11, 12, 13})"

definition NCFG_HARDWARE_ADDRESS_MAX :: nat where
  "NCFG_HARDWARE_ADDRESS_MAX = 18"

definition hardware_room :: "nat \<Rightarrow> bytes option" where
  "hardware_room out_size =
     (if out_size < NCFG_HARDWARE_ADDRESS_MAX
      then Some (ascii ''a buffer of '' @ decimal out_size @
        ascii '' bytes cannot hold a hardware address; NCFG_HARDWARE_ADDRESS_MAX is 18'')
      else None)"

text \<open>The octets, each followed by a colon, of which the terminator overwrites the last.\<close>

definition write_octets :: "nat list \<Rightarrow> bytes" where
  "write_octets values = take 17 (concat (map (\<lambda>v. [upper_digit (v div 16), upper_digit v, colon]) values))"

definition strict_octet :: "bytes \<Rightarrow> nat \<Rightarrow> nat option" where
  "strict_octet text octet =
     (let at = octet * 3 in
      case (hex_value (text ! at), hex_value (text ! (at + 1))) of
        (Some high, Some low) \<Rightarrow>
          if octet < 5 \<and> text ! (at + 2) \<noteq> colon then None else Some (high * 16 + low)
      | _ \<Rightarrow> None)"

definition ncfg_hardware_address_strict :: "cstring \<Rightarrow> nat \<Rightarrow> bytes + bytes" where
  "ncfg_hardware_address_strict text out_size =
     (case hardware_room out_size of
        Some err \<Rightarrow> Inl err
      | None \<Rightarrow>
          let text = (case text of None \<Rightarrow> [] | Some text \<Rightarrow> cstr text);
              refusal = ascii ''`'' @ text @
                ascii ''` is not a hardware address: six colon-separated hex octets, as in AA:BB:CC:DD:EE:FF''
          in if length text \<noteq> 17 then Inl refusal
             else case those (map (strict_octet text) [0..<6]) of
               None \<Rightarrow> Inl refusal
             | Some values \<Rightarrow> Inr (write_octets values))"

text \<open>
  The loop over what was typed: the digits seen so far, the values of whole octets, the high digit held.
  Digits after the twelfth are counted and dropped.
\<close>

fun typed_loop :: "bytes \<Rightarrow> nat \<Rightarrow> nat list \<Rightarrow> nat \<Rightarrow> (nat \<times> nat list) option" where
  "typed_loop [] seen values high = Some (seen, values)"
| "typed_loop (one # rest) seen values high =
     (if one = colon \<or> one = ch CHR ''-'' then typed_loop rest seen values high
      else case hex_value one of
        None \<Rightarrow> None
      | Some v \<Rightarrow>
          if seen < 12 then
            if seen mod 2 = 0 then typed_loop rest (seen + 1) values v
            else typed_loop rest (seen + 1) (values @ [high * 16 + v]) high
          else typed_loop rest (seen + 1) values high)"

definition ncfg_hardware_address_typed :: "cstring \<Rightarrow> nat \<Rightarrow> bytes + bytes" where
  "ncfg_hardware_address_typed text out_size =
     (case hardware_room out_size of
        Some err \<Rightarrow> Inl err
      | None \<Rightarrow>
          let text = (case text of None \<Rightarrow> [] | Some text \<Rightarrow> cstr text);
              trimmed = rev (dropWhile is_blank_char (rev (dropWhile is_blank_char text)));
              refusal = ascii ''`'' @ text @
                ascii ''` is not a hardware address: twelve hex digits, separated by colons, by dashes, or by nothing''
          in case typed_loop trimmed 0 [] 0 of
               None \<Rightarrow> Inl refusal
             | Some (seen, values) \<Rightarrow> if seen \<noteq> 12 then Inl refusal else Inr (write_octets values))"

end
