(* ===== verification/Ncfg_Value_Props.thy ===== *)
theory Ncfg_Value_Props
  imports Ncfg_Value
begin

text \<open>
  What the values guarantee: words and values of a closed set name each other, an address that is
  written reads back, an address carved out of a delegation has exactly the bits it should, and
  hardware addresses have one spelling.
\<close>

subsection \<open>Closed sets\<close>

text \<open>Every value has a word, and the word names that value.\<close>

locale closed_set =
  fixes name :: "'e \<Rightarrow> cstring"
    and from_name :: "cstring \<Rightarrow> bytes + 'e"
  assumes named: "name e \<noteq> None"
    and read_name: "from_name (name e) = Inr e"
begin

lemma names_distinct: "name e = name e' \<Longrightarrow> e = e'"
  by (metis read_name sum.inject(2))

lemma spelled_one_way: "from_name word = Inr e \<Longrightarrow> \<exists>canonical. name e = Some canonical \<and> from_name (Some canonical) = Inr e"
  using named [of e] read_name [of e] by auto

end

definition words_ok :: "'e words \<Rightarrow> bool" where
  "words_ok names \<longleftrightarrow> distinct (map (\<lambda>(_, w). ascii w) names) \<and> list_all (\<lambda>(_, w). cstr (ascii w) = ascii w) names"

lemma find_word:
  "(e, w) \<in> set names \<Longrightarrow> distinct (map (\<lambda>(_, w). ascii w) names) \<Longrightarrow>
   find (\<lambda>(_, n). ascii n = ascii w) names = Some (e, w)"
  by (induction names) force+

lemma words_read:
  assumes "words_ok names" "map_of names e \<noteq> None"
  shows "value_of names kind (name_of names e) = Inr e"
proof -
  from assms(2) obtain w where w: "map_of names e = Some w" by auto
  then have "(e, w) \<in> set names" by (rule map_of_SomeD)
  with assms(1) find_word [of e w names] w show ?thesis
    by (auto simp: words_ok_def value_of_def name_of_def list_all_iff)
qed

interpretation hook_phases: closed_set "\<lambda>e. Some (ncfg_hook_phase_name e)" ncfg_hook_phase_from_name
proof unfold_locales
  have k: "map_of hook_phase_names e \<noteq> None" for e by (cases e) (simp_all add: hook_phase_names_def)
  have n: "name_of hook_phase_names e = Some (ncfg_hook_phase_name e)" for e
    by (cases e) (simp_all add: hook_phase_names_def name_of_def)
  have "words_ok hook_phase_names" by code_simp
  from words_read [OF this k] show "ncfg_hook_phase_from_name (Some (ncfg_hook_phase_name e)) = Inr e" for e
    by (simp add: ncfg_hook_phase_from_name_def flip: n)
qed simp

interpretation rule_actions: closed_set ncfg_rule_action_name ncfg_rule_action_from_name
proof unfold_locales
  have k: "map_of rule_action_names e \<noteq> None" for e by (cases e) (simp_all add: rule_action_names_def)
  then show "ncfg_rule_action_name e \<noteq> None" for e by (simp add: ncfg_rule_action_name_def name_of_def)
  have "words_ok rule_action_names" by code_simp
  from words_read [OF this k] show "ncfg_rule_action_from_name (ncfg_rule_action_name e) = Inr e" for e
    by (simp add: ncfg_rule_action_name_def ncfg_rule_action_from_name_def)
qed

interpretation rule_families: closed_set ncfg_rule_family_name ncfg_rule_family_from_name
proof unfold_locales
  have k: "map_of rule_family_names e \<noteq> None" for e by (cases e) (simp_all add: rule_family_names_def)
  then show "ncfg_rule_family_name e \<noteq> None" for e by (simp add: ncfg_rule_family_name_def name_of_def)
  have "words_ok rule_family_names" by code_simp
  from words_read [OF this k] show "ncfg_rule_family_from_name (ncfg_rule_family_name e) = Inr e" for e
    by (simp add: ncfg_rule_family_name_def ncfg_rule_family_from_name_def)
qed

interpretation bluetooth_profiles: closed_set ncfg_bluetooth_profile_name ncfg_bluetooth_profile_from_name
proof unfold_locales
  have k: "map_of bluetooth_profile_names e \<noteq> None" for e by (cases e) (simp_all add: bluetooth_profile_names_def)
  then show "ncfg_bluetooth_profile_name e \<noteq> None" for e by (simp add: ncfg_bluetooth_profile_name_def name_of_def)
  have "words_ok bluetooth_profile_names" by code_simp
  from words_read [OF this k] show "ncfg_bluetooth_profile_from_name (ncfg_bluetooth_profile_name e) = Inr e" for e
    by (simp add: ncfg_bluetooth_profile_name_def ncfg_bluetooth_profile_from_name_def)
qed

interpretation drift_policies: closed_set ncfg_drift_policy_name ncfg_drift_policy_from_name
proof unfold_locales
  have k: "map_of drift_policy_names e \<noteq> None" for e by (cases e) (simp_all add: drift_policy_names_def)
  then show "ncfg_drift_policy_name e \<noteq> None" for e by (simp add: ncfg_drift_policy_name_def name_of_def)
  have "words_ok drift_policy_names" by code_simp
  from words_read [OF this k] show "ncfg_drift_policy_from_name (ncfg_drift_policy_name e) = Inr e" for e
    by (simp add: ncfg_drift_policy_name_def ncfg_drift_policy_from_name_def)
qed

interpretation dns_modes: closed_set ncfg_dns_mode_name ncfg_dns_mode_from_name
proof unfold_locales
  have k: "map_of dns_mode_names e \<noteq> None" for e by (cases e) (simp_all add: dns_mode_names_def)
  then show "ncfg_dns_mode_name e \<noteq> None" for e by (simp add: ncfg_dns_mode_name_def name_of_def)
  have a: "list_all (\<lambda>(_, w). cstr (ascii w) \<noteq> ascii ''resolv.conf'') dns_mode_names" by code_simp
  have "(case name_of dns_mode_names e of None \<Rightarrow> False | Some n \<Rightarrow> cstr n = ascii ''resolv.conf'') = False" for e
  proof -
    from k [of e] obtain w where w: "map_of dns_mode_names e = Some w" by auto
    with a map_of_SomeD [OF w] show ?thesis by (auto simp: name_of_def list_all_iff simp del: ascii_simps)
  qed
  moreover have "words_ok dns_mode_names" by code_simp
  ultimately show "ncfg_dns_mode_from_name (ncfg_dns_mode_name e) = Inr e" for e
    using words_read [OF _ k] by (simp add: ncfg_dns_mode_name_def ncfg_dns_mode_from_name_def)
qed

subsection \<open>Bits of an address\<close>

definition addr_bit :: "bytes \<Rightarrow> nat \<Rightarrow> bool" where
  "addr_bit bs i = bit (bs ! (i div 8)) (7 - i mod 8)"

lemma bit_bit_of: "bit (bit_of i) n \<longleftrightarrow> n = 7 - i mod 8"
proof -
  have "bit (bit_of i) n \<longleftrightarrow> bit (2 ^ 7 :: byte) (i mod 8 + n)" by (simp add: bit_of_def bit_drop_bit_eq)
  also have "\<dots> \<longleftrightarrow> i mod 8 + n = 7" unfolding bit_exp_iff by auto
  moreover have "i mod 8 < 8" by simp
  ultimately show ?thesis by arith
qed

lemma bit_place: "j = i \<longleftrightarrow> j div 8 = i div 8 \<and> 7 - j mod 8 = 7 - i mod (8 :: nat)"
proof -
  have "j mod 8 < 8" "i mod 8 < 8" by simp_all
  then have "7 - j mod 8 = 7 - i mod 8 \<longleftrightarrow> j mod 8 = i mod 8" by arith
  then show ?thesis by (metis div_mult_mod_eq)
qed

lemma addr_bit_raise:
  assumes "length bs = 16" "i < 128" "j < 128"
  shows "addr_bit (raise_bit bs i) j \<longleftrightarrow> j = i \<or> addr_bit bs j"
  using assms by (auto simp: addr_bit_def raise_bit_def nth_list_update bit_or_iff bit_bit_of bit_place [of j i])

lemma addr_bit_clear:
  assumes "length bs = 16" "i < 128" "j < 128"
  shows "addr_bit (clear_bit bs i) j \<longleftrightarrow> j \<noteq> i \<and> addr_bit bs j"
  using assms
  by (auto simp: addr_bit_def clear_bit_def nth_list_update bit_and_iff bit_not_iff bit_bit_of bit_place [of j i])

lemma length_raise [simp]: "length (raise_bit bs i) = length bs"
  by (simp add: raise_bit_def)

lemma length_clear [simp]: "length (clear_bit bs i) = length bs"
  by (simp add: clear_bit_def)

lemma raise_all:
  assumes "length bs = 16" "\<And>b. b \<in> set xs \<Longrightarrow> P b \<Longrightarrow> g b < 128" "j < 128"
  shows "addr_bit (foldl (\<lambda>bs b. if P b then raise_bit bs (g b) else bs) bs xs) j \<longleftrightarrow>
      addr_bit bs j \<or> (\<exists>b \<in> set xs. P b \<and> g b = j)"
    and "length (foldl (\<lambda>bs b. if P b then raise_bit bs (g b) else bs) bs xs) = 16"
  using assms by (induction xs arbitrary: bs) (auto simp: addr_bit_raise)

lemma clear_all:
  assumes "length bs = 16" "\<And>b. b \<in> set xs \<Longrightarrow> b < 128" "j < 128"
  shows "addr_bit (foldl (\<lambda>bs b. if P b then clear_bit bs b else bs) bs xs) j \<longleftrightarrow> addr_bit bs j \<and> \<not> (j \<in> set xs \<and> P j)"
    and "length (foldl (\<lambda>bs b. if P b then clear_bit bs b else bs) bs xs) = 16"
  using assms by (induction xs arbitrary: bs) (auto simp: addr_bit_clear)

subsection \<open>Delegation\<close>

lemma host_bit: "host ! (b div 8) AND bit_of b \<noteq> 0 \<longleftrightarrow> addr_bit host b"
proof -
  have "host ! (b div 8) AND bit_of b \<noteq> 0 \<longleftrightarrow> (\<exists>n. bit (host ! (b div 8) AND bit_of b) n)"
    by (metis bit_eq_iff bit_0_eq bot_apply bot_bool_def)
  then show ?thesis by (auto simp: bit_and_iff bit_bit_of addr_bit_def)
qed

lemma put_host_bits:
  assumes "length bs = 16" "i < 128"
  shows "addr_bit (put_host host prefix bs) i \<longleftrightarrow> addr_bit bs i \<or> prefix \<le> i \<and> addr_bit host i"
    and "length (put_host host prefix bs) = 16"
  using raise_all [of bs "[prefix..<128]" "addr_bit host" "\<lambda>b. b" i] assms
  by (auto simp: put_host_def host_bit)

lemma keep_top_bits_bits:
  assumes "length bs = 16" "i < 128"
  shows "addr_bit (keep_top_bits bs n) i \<longleftrightarrow> i < n \<and> addr_bit bs i" and "length (keep_top_bits bs n) = 16"
  using clear_all [of bs "[0..<128]" i "\<lambda>i. n \<le> i"] assms by (auto simp: keep_top_bits_def)

lemma selector_bit: "drop_bit b (w :: 64 word) AND 1 = 0 \<longleftrightarrow> \<not> bit w b"
  by (simp add: bit_iff_odd_drop_bit and_one_eq even_iff_mod_2_eq_zero)

lemma put_selector_some:
  assumes "\<And>b. b < 16 \<Longrightarrow> bit subnet b \<Longrightarrow> b < prefix"
  shows "put_selector subnet prefix bs =
    Some (foldl (\<lambda>bs b. if bit subnet b then raise_bit bs (prefix - 1 - b) else bs) bs [0..<16])"
proof -
  have "foldl (\<lambda>bs b. case bs of None \<Rightarrow> None
        | Some bs \<Rightarrow> if drop_bit b subnet AND 1 = 0 then Some bs
            else if prefix < b + 1 then None else Some (raise_bit bs (prefix - 1 - b))) (Some bs) xs =
      Some (foldl (\<lambda>bs b. if bit subnet b then raise_bit bs (prefix - 1 - b) else bs) bs xs)"
    if "\<And>b. b \<in> set xs \<Longrightarrow> b < 16" for xs :: "nat list"
    using that
  proof (induction xs arbitrary: bs)
    case (Cons b xs)
    with assms [of b] show ?case by (auto simp: selector_bit)
  qed simp
  from this [of "[0..<16]"] show ?thesis unfolding put_selector_def by auto
qed

lemma put_selector_bits:
  assumes "\<And>b. b < 16 \<Longrightarrow> bit subnet b \<Longrightarrow> b < prefix" "prefix \<le> 128" "length bs = 16"
  obtains bs' where "put_selector subnet prefix bs = Some bs'" "length bs' = 16"
    "\<And>i. i < 128 \<Longrightarrow> addr_bit bs' i \<longleftrightarrow> addr_bit bs i \<or> (\<exists>b<16. bit subnet b \<and> prefix - 1 - b = i)"
proof -
  let ?bs = "foldl (\<lambda>bs b. if bit subnet b then raise_bit bs (prefix - 1 - b) else bs) bs [0..<16]"
  have g: "prefix - 1 - b < 128" for b using assms(2) by simp
  show thesis
  proof (rule that [of ?bs])
    show "put_selector subnet prefix bs = Some ?bs" by (rule put_selector_some [OF assms(1)])
    show "length ?bs = 16"
      using raise_all(2) [of bs "[0..<16]" "bit subnet" "\<lambda>b. prefix - 1 - b" 0] assms(3) g by simp
    show "addr_bit ?bs i \<longleftrightarrow> addr_bit bs i \<or> (\<exists>b<16. bit subnet b \<and> prefix - 1 - b = i)" if "i < 128" for i
      using raise_all(1) [of bs "[0..<16]" "bit subnet" "\<lambda>b. prefix - 1 - b" i] assms(3) g that by auto
  qed
qed

lemma bits_below: "unat (w :: 64 word) < 2 ^ k \<Longrightarrow> bit w b \<Longrightarrow> b < k"
proof -
  assume "unat w < 2 ^ k" "bit w b"
  then have "take_bit k (unat w) = unat w" by (simp add: take_bit_nat_eq_self)
  moreover from \<open>bit w b\<close> have "bit (unat w) b" by (simp add: bit_unsigned_iff)
  ultimately show ?thesis by (metis bit_take_bit_iff)
qed

lemma unat_push_one: "k < 64 \<Longrightarrow> unat (push_bit k 1 :: 64 word) = 2 ^ k"
proof -
  assume "k < 64"
  then have "(2 :: nat) ^ k < 2 ^ 64" by (simp only: power_strict_increasing_iff)
  moreover have "(push_bit k 1 :: 64 word) = of_nat (2 ^ k)" by (simp add: push_bit_eq_mult)
  ultimately show ?thesis by (simp only: unat_of_nat) simp
qed

lemma small_sint: "0 \<le> sint (w :: 64 word) \<Longrightarrow> sint w = int (unat w)"
proof -
  assume "0 \<le> sint w"
  then have b: "\<not> bit (uint w) 63" by (simp add: sint_uint)
  have "uint w = take_bit (Suc 63) (uint w)"
    using uint_lt2p [of w] by (simp add: take_bit_int_eq_self)
  also have "\<dots> = take_bit 63 (uint w)" unfolding take_bit_Suc_from_most using b by simp
  also have "\<dots> = sint w" using b by (simp add: sint_uint signed_take_bit_eq_if_positive)
  finally show ?thesis by simp
qed

definition fits :: "address \<Rightarrow> 64 word \<Rightarrow> address \<Rightarrow> bool" where
  "fits block subnet host \<longleftrightarrow>
     ad_prefix block \<le> ad_prefix host \<and> 0 \<le> sint subnet \<and> sint subnet \<le> 0xffff \<and>
     sint subnet < 2 ^ (ad_prefix host - ad_prefix block)"

lemma fits_unat:
  assumes "fits block subnet host"
  shows "unat subnet < 2 ^ 16" "unat subnet < 2 ^ (ad_prefix host - ad_prefix block)"
proof -
  from assms small_sint [of subnet] have u: "int (unat subnet) \<le> 0xffff"
    "int (unat subnet) < 2 ^ (ad_prefix host - ad_prefix block)" by (simp_all add: fits_def)
  from u(1) have "unat subnet \<le> 65535" by linarith
  then show "unat subnet < 2 ^ 16" by simp
  show "unat subnet < 2 ^ (ad_prefix host - ad_prefix block)"
    using u(2) by (metis of_nat_less_iff of_nat_numeral of_nat_power)
qed

lemma fits_bits:
  "fits block subnet host \<Longrightarrow> bit subnet b \<Longrightarrow> b < 16 \<and> b < ad_prefix host - ad_prefix block"
  using bits_below fits_unat by blast

lemma derive_fits:
  assumes "\<not> fits block subnet host"
  shows "isl (derive_address block subnet host)"
proof (rule ccontr)
  assume "\<not> isl (derive_address block subnet host)"
  then have r: "ad_prefix block \<le> ad_prefix host" "0 \<le> sint subnet" "sint subnet \<le> 0xffff"
    "\<not> (ad_prefix host - ad_prefix block < 16 \<and> push_bit (ad_prefix host - ad_prefix block) 1 \<le> subnet)"
    by (auto simp: derive_address_def Let_def split: if_splits)
  let ?k = "ad_prefix host - ad_prefix block"
  have "int (unat subnet) < 2 ^ ?k"
  proof (cases "?k < 16")
    case True
    with r(4) unat_push_one [of ?k] have "unat subnet < 2 ^ ?k" by (simp add: word_le_nat_alt)
    then show ?thesis by (metis of_nat_less_iff of_nat_numeral of_nat_power)
  next
    case False
    then have "(2 :: int) ^ 16 \<le> 2 ^ ?k" by (intro power_increasing) simp_all
    with r(3) small_sint [OF r(2)] show ?thesis by simp
  qed
  with assms r small_sint [OF r(2)] show False by (simp add: fits_def)
qed

lemma derive_bits:
  assumes "fits block subnet host" "length (ad_bytes block) = 16" "ad_prefix host \<le> 128"
  obtains bs where
    "derive_address block subnet host = Inr (block\<lparr>ad_bytes := bs, ad_has_prefix := True, ad_prefix := ad_prefix host\<rparr>)"
    "length bs = 16"
    "\<And>i. i < 128 \<Longrightarrow> addr_bit bs i \<longleftrightarrow>
       (if i < ad_prefix block then addr_bit (ad_bytes block) i
        else if i < ad_prefix host then bit subnet (ad_prefix host - 1 - i)
        else addr_bit (ad_bytes host) i)"
proof -
  let ?bp = "ad_prefix block" and ?hp = "ad_prefix host"
  note b = fits_bits [OF assms(1)]
  have le: "?bp \<le> ?hp" using assms(1) by (simp add: fits_def)
  let ?top = "keep_top_bits (ad_bytes block) ?bp"
  have top: "length ?top = 16" using keep_top_bits_bits(2) [OF assms(2), of 0] by simp
  have "b < 16 \<Longrightarrow> bit subnet b \<Longrightarrow> b < ?hp" for b using b [of b] by auto
  from put_selector_bits [OF this assms(3) top] obtain mid where mid: "put_selector subnet ?hp ?top = Some mid" "length mid = 16"
    "\<And>i. i < 128 \<Longrightarrow> addr_bit mid i \<longleftrightarrow> addr_bit ?top i \<or> (\<exists>b<16. bit subnet b \<and> ?hp - 1 - b = i)" by blast
  have "\<not> (?hp - ?bp < 16 \<and> push_bit (?hp - ?bp) 1 \<le> subnet)"
    using fits_unat(2) [OF assms(1)] unat_push_one [of "?hp - ?bp"] by (auto simp: word_le_nat_alt)
  with mid(1) assms(1) have d: "derive_address block subnet host =
      Inr (block\<lparr>ad_bytes := put_host (ad_bytes host) ?hp mid, ad_has_prefix := True, ad_prefix := ?hp\<rparr>)"
    by (simp add: derive_address_def fits_def Let_def)
  show thesis
  proof (rule that [OF d])
    show "length (put_host (ad_bytes host) ?hp mid) = 16" using put_host_bits(2) [OF mid(2), of 0] by simp
    fix i :: nat
    assume i: "i < 128"
    have sel: "(\<exists>b<16. bit subnet b \<and> ?hp - 1 - b = i) \<longleftrightarrow> ?bp \<le> i \<and> i < ?hp \<and> bit subnet (?hp - 1 - i)"
    proof
      assume "\<exists>b<16. bit subnet b \<and> ?hp - 1 - b = i"
      then obtain b' where "bit subnet b'" "?hp - 1 - b' = i" by blast
      with b [of b'] show "?bp \<le> i \<and> i < ?hp \<and> bit subnet (?hp - 1 - i)" by auto
    next
      assume r: "?bp \<le> i \<and> i < ?hp \<and> bit subnet (?hp - 1 - i)"
      with b [of "?hp - 1 - i"] show "\<exists>b<16. bit subnet b \<and> ?hp - 1 - b = i"
        by (intro exI [of _ "?hp - 1 - i"]) auto
    qed
    show "addr_bit (put_host (ad_bytes host) ?hp mid) i \<longleftrightarrow>
       (if i < ?bp then addr_bit (ad_bytes block) i else if i < ?hp then bit subnet (?hp - 1 - i) else addr_bit (ad_bytes host) i)"
      using put_host_bits(1) [OF mid(2) i] mid(3) [OF i] keep_top_bits_bits(1) [OF assms(2) i] sel le by auto
  qed
qed

lemma parsed_prefix: "ncfg_address_parse pton t = Inr a \<Longrightarrow> ad_prefix a \<le> 128"
  by (auto simp: ncfg_address_parse_def parse_prefix_def prefix_max_def Let_def split: option.splits if_splits sum.splits)

text \<open>
  C33.  An address from a delegation is the one asked for, or there is none.  Given a delegated IPv6
  prefix and a suffix that parse, an address is derived exactly when the suffix's prefix is at least as
  long as the delegation's and the subnet number is one the bits between the two can hold; its bits
  are those of the delegation up to the delegation's length, then the subnet number, then those of the
  suffix -- so it never leaves the block the machine was given -- and its length is the suffix's.
\<close>

theorem delegation_carves:
  assumes "ncfg_address_parse pton (Some d) = Inr block" "ad_is_ipv6 block" "ad_has_prefix block"
    and "ncfg_address_parse pton (Some s) = Inr host" "ad_is_ipv6 host" "ad_has_prefix host"
    and "length (ad_bytes block) = 16"
  shows "if fits block subnet host
    then \<exists>derived. ncfg_address_from_delegation pton ntop (Some d) subnet (Some s) out_size = ncfg_address_render ntop derived out_size \<and>
      ad_is_ipv6 derived \<and> ad_has_prefix derived \<and> ad_prefix derived = ad_prefix host \<and> length (ad_bytes derived) = 16 \<and>
      (\<forall>i<128. addr_bit (ad_bytes derived) i \<longleftrightarrow>
         (if i < ad_prefix block then addr_bit (ad_bytes block) i
          else if i < ad_prefix host then bit subnet (ad_prefix host - 1 - i)
          else addr_bit (ad_bytes host) i))
    else isl (ncfg_address_from_delegation pton ntop (Some d) subnet (Some s) out_size)"
proof -
  have f: "ncfg_address_from_delegation pton ntop (Some d) subnet (Some s) out_size =
      (case derive_address block subnet host of Inl err \<Rightarrow> Inl err | Inr derived \<Rightarrow> ncfg_address_render ntop derived out_size)"
    using assms(1-6) by (simp add: ncfg_address_from_delegation_def)
  show ?thesis
  proof (cases "fits block subnet host")
    case True
    from derive_bits [OF True assms(7) parsed_prefix [OF assms(4)]] obtain bs where bs:
      "derive_address block subnet host = Inr (block\<lparr>ad_bytes := bs, ad_has_prefix := True, ad_prefix := ad_prefix host\<rparr>)"
      "length bs = 16"
      "\<And>i. i < 128 \<Longrightarrow> addr_bit bs i \<longleftrightarrow>
         (if i < ad_prefix block then addr_bit (ad_bytes block) i
          else if i < ad_prefix host then bit subnet (ad_prefix host - 1 - i)
          else addr_bit (ad_bytes host) i)" by blast
    with True f assms(2) show ?thesis
      by (simp add: exI [of _ "block\<lparr>ad_bytes := bs, ad_has_prefix := True, ad_prefix := ad_prefix host\<rparr>"])
  next
    case False
    with derive_fits [OF False] f show ?thesis by (auto simp: isl_def)
  qed
qed

subsection \<open>Addresses written and read\<close>

definition address_ok :: "address \<Rightarrow> bool" where
  "address_ok a \<longleftrightarrow>
     length (ad_bytes a) = 16 \<and> (if ad_is_ipv6 a then True else drop 4 (ad_bytes a) = replicate 12 0) \<and>
     (if ad_has_prefix a then ad_prefix a \<le> prefix_max (ad_is_ipv6 a) else ad_prefix a = 0)"

abbreviation family :: "address \<Rightarrow> nat" where
  "family a \<equiv> if ad_is_ipv6 a then AF_INET6 else AF_INET"

abbreviation own_bytes :: "address \<Rightarrow> bytes" where
  "own_bytes a \<equiv> take (if ad_is_ipv6 a then 16 else 4) (ad_bytes a)"

lemma digit_not_zero: "0 < d \<Longrightarrow> d < 10 \<Longrightarrow> (48 + of_nat d :: byte) \<noteq> 48"
  using unat_digit [of d] by auto

lemma hd_decimal: "0 < n \<Longrightarrow> hd (decimal n) \<noteq> 48"
proof (induction n rule: decimal.induct)
  case (1 n)
  show ?case
  proof (cases "n < 10")
    case True
    with 1(2) digit_not_zero [of n] show ?thesis by (simp add: decimal_less_10)
  next
    case False
    with 1 show ?thesis by (simp add: decimal_ge_10 hd_append)
  qed
qed

lemma skip_zeros_decimal: "skip_zeros (decimal n) = decimal n"
proof (cases "n < 10")
  case False
  with hd_decimal [of n] show ?thesis by (cases "decimal n" rule: skip_zeros.cases) simp_all
qed (simp add: decimal_less_10)

lemma length_decimal_3: "p < 1000 \<Longrightarrow> length (decimal p) \<le> 3"
  by (cases "p < 10"; cases "p div 10 < 10") (simp_all add: decimal_less_10 decimal_ge_10)

lemma parse_prefix_decimal:
  assumes "p \<le> prefix_max v6"
  shows "parse_prefix v6 (decimal p) = Inr p" "length (decimal p) \<le> 3"
proof -
  show l: "length (decimal p) \<le> 3" using assms by (intro length_decimal_3) (auto simp: prefix_max_def split: if_splits)
  have "list_all is_digit (decimal p)" using decimal_digits by (auto simp: list_all_iff)
  with l assms show "parse_prefix v6 (decimal p) = Inr p"
    by (simp add: parse_prefix_def Let_def skip_zeros_decimal)
qed

lemma rendered_parses:
  assumes "address_ok a"
    and "ntop (family a) (own_bytes a) = Some plain" and "pton (family a) plain = Some (own_bytes a)"
    and "plain \<noteq> []" "length plain < INET6_ADDRSTRLEN" "0 \<notin> set plain" "slash \<notin> set plain"
    and "colon \<in> set plain \<longleftrightarrow> ad_is_ipv6 a"
  defines "t \<equiv> plain @ (if ad_has_prefix a then slash # decimal (ad_prefix a) else [])"
  shows "ncfg_address_render ntop a NCFG_ADDRESS_MAX = Inr t" and "ncfg_address_parse pton (Some t) = Inr a"
proof -
  have pre: "parse_prefix (ad_is_ipv6 a) (decimal (ad_prefix a)) = Inr (ad_prefix a)"
    "length (decimal (ad_prefix a)) \<le> 3" if "ad_has_prefix a"
    using that assms(1) parse_prefix_decimal [of "ad_prefix a" "ad_is_ipv6 a"] by (simp_all add: address_ok_def)
  show "ncfg_address_render ntop a NCFG_ADDRESS_MAX = Inr t"
    using assms(1,2,5) pre(2)
    by (auto simp: t_def ncfg_address_render_def Let_def address_ok_def NCFG_ADDRESS_MAX_def INET6_ADDRSTRLEN_def)
  have "0 \<notin> set (decimal n)" for n using decimal_digits [of 0 n] by (auto simp: is_digit_def)
  then have c: "cstr t = t" using assms(6) unfolding t_def by (intro cstr_id) auto
  have p: "takeWhile (\<lambda>b. b \<noteq> slash) t = plain"
    using assms(7) by (auto simp: t_def takeWhile_append takeWhile_eq_all_conv)
  have d: "t \<noteq> []" "drop (length plain) t = (if ad_has_prefix a then slash # decimal (ad_prefix a) else [])"
    using assms(4) by (simp_all add: t_def)
  have own: "own_bytes a @ replicate (16 - length (own_bytes a)) 0 = ad_bytes a"
  proof (cases "ad_is_ipv6 a")
    case False
    with assms(1) have "drop 4 (ad_bytes a) = replicate 12 0" "length (ad_bytes a) = 16" by (simp_all add: address_ok_def)
    with False show ?thesis using append_take_drop_id [of 4 "ad_bytes a"] by simp
  qed (use assms(1) in \<open>simp add: address_ok_def\<close>)
  show "ncfg_address_parse pton (Some t) = Inr a"
    unfolding ncfg_address_parse_def option.case Let_def c p d(2) assms(8)
    using assms(1,3-5) d(1) pre(1) own by (cases a) (auto simp: address_ok_def)
qed

text \<open>
  An address that is written reads back as it was.  For an address of either family whose prefix
  is in range, where \<^verbatim>\<open>inet_ntop\<close> writes its bytes as a text \<^verbatim>\<open>inet_pton\<close> reads back -- one without a NUL
  or a slash, shorter than \<^verbatim>\<open>INET6_ADDRSTRLEN\<close>, and with a colon exactly for IPv6 -- the rendering fits
  the smallest buffer that is accepted, parses to the same address with the same prefix or the same
  lack of one, and is its own canonical form.
\<close>

theorem address_roundtrip:
  assumes "address_ok a"
    and "ntop (family a) (own_bytes a) = Some plain" and "pton (family a) plain = Some (own_bytes a)"
    and "plain \<noteq> []" "length plain < INET6_ADDRSTRLEN" "0 \<notin> set plain" "slash \<notin> set plain"
    and "colon \<in> set plain \<longleftrightarrow> ad_is_ipv6 a"
  shows "\<exists>t. ncfg_address_render ntop a NCFG_ADDRESS_MAX = Inr t \<and> ncfg_address_parse pton (Some t) = Inr a \<and>
    ncfg_address_canonical pton ntop (Some t) NCFG_ADDRESS_MAX = Inr t"
  using rendered_parses [of a ntop plain pton, OF assms] by (auto simp: ncfg_address_canonical_def)

text \<open>
  An example of the two conversions: the addresses of a small table, each with the text it is written as.
\<close>

definition sample_addresses :: "(bytes \<times> bytes) list" where
  "sample_addresses =
     [(ascii ''192.168.1.1'', [192, 168, 1, 1]),
      (ascii ''2001:db8:aa00::'', [0x20, 0x01, 0x0d, 0xb8, 0xaa, 0, 0, 0, 0, 0, 0, 0, 0, 0, 0, 0]),
      (ascii ''::1'', [0, 0, 0, 0, 0, 0, 0, 0, 0, 0, 0, 0, 0, 0, 0, 1]),
      (ascii ''2001:db8:aa00:5::1'', [0x20, 0x01, 0x0d, 0xb8, 0xaa, 0, 0, 5, 0, 0, 0, 0, 0, 0, 0, 1])]"

definition sample_pton :: pton where
  "sample_pton which t =
     (case map_of sample_addresses t of
        None \<Rightarrow> None
      | Some bs \<Rightarrow> if length bs = (if which = AF_INET6 then 16 else 4) then Some bs else None)"

definition sample_ntop :: ntop where
  "sample_ntop which bs = map_of (map (\<lambda>(t, bs). (bs, t)) sample_addresses) bs"

definition sample_block :: address where
  "sample_block = \<lparr>ad_is_ipv6 = True, ad_bytes = [0x20, 0x01, 0x0d, 0xb8, 0xaa, 0, 0, 0, 0, 0, 0, 0, 0, 0, 0, 0],
     ad_has_prefix = True, ad_prefix = 40\<rparr>"

definition sample_host :: address where
  "sample_host = \<lparr>ad_is_ipv6 = True, ad_bytes = [0, 0, 0, 0, 0, 0, 0, 0, 0, 0, 0, 0, 0, 0, 0, 1],
     ad_has_prefix = True, ad_prefix = 64\<rparr>"

definition sample_router :: address where
  "sample_router = \<lparr>ad_is_ipv6 = False, ad_bytes = [192, 168, 1, 1, 0, 0, 0, 0, 0, 0, 0, 0, 0, 0, 0, 0],
     ad_has_prefix = True, ad_prefix = 24\<rparr>"

theorem delegation_carves_witness:
  "fits sample_block 5 sample_host \<and>
   (\<exists>derived. ncfg_address_from_delegation sample_pton sample_ntop (Some (ascii ''2001:db8:aa00::/40'')) 5
        (Some (ascii ''::1/64'')) 50 = ncfg_address_render sample_ntop derived 50 \<and>
      ad_prefix derived = 64 \<and> addr_bit (ad_bytes derived) 61 \<and> addr_bit (ad_bytes derived) 127) \<and>
   ncfg_address_from_delegation sample_pton sample_ntop (Some (ascii ''2001:db8:aa00::/40'')) 5
        (Some (ascii ''::1/64'')) 50 = Inr (ascii ''2001:db8:aa00:5::1/64'')"
proof (intro conjI)
  show f: "fits sample_block 5 sample_host" by code_simp
  have a: "ncfg_address_parse sample_pton (Some (ascii ''2001:db8:aa00::/40'')) = Inr sample_block" by code_simp
  have b: "ncfg_address_parse sample_pton (Some (ascii ''::1/64'')) = Inr sample_host" by code_simp
  have c: "ad_is_ipv6 sample_block" "ad_has_prefix sample_block" "ad_is_ipv6 sample_host" "ad_has_prefix sample_host"
    "length (ad_bytes sample_block) = 16" "ad_prefix sample_host = 64" "ad_prefix sample_block = 40" by code_simp+
  have d: "bit (5 :: 64 word) (64 - 1 - 61)" "addr_bit (ad_bytes sample_host) 127" by code_simp+
  from delegation_carves [OF a c(1,2) b c(3,4,5), of 5 sample_ntop 50] f obtain derived where
    e: "ncfg_address_from_delegation sample_pton sample_ntop (Some (ascii ''2001:db8:aa00::/40'')) 5
        (Some (ascii ''::1/64'')) 50 = ncfg_address_render sample_ntop derived 50" "ad_prefix derived = 64"
      "\<forall>i<128. addr_bit (ad_bytes derived) i \<longleftrightarrow>
         (if i < 40 then addr_bit (ad_bytes sample_block) i else if i < 64 then bit (5 :: 64 word) (64 - 1 - i)
          else addr_bit (ad_bytes sample_host) i)"
    unfolding c(6,7) by (auto simp del: ascii_simps)
  from e(3) d have "addr_bit (ad_bytes derived) 61" "addr_bit (ad_bytes derived) 127" by simp_all
  with e(1,2) show "\<exists>derived. ncfg_address_from_delegation sample_pton sample_ntop (Some (ascii ''2001:db8:aa00::/40'')) 5
        (Some (ascii ''::1/64'')) 50 = ncfg_address_render sample_ntop derived 50 \<and>
      ad_prefix derived = 64 \<and> addr_bit (ad_bytes derived) 61 \<and> addr_bit (ad_bytes derived) 127" by blast
  show "ncfg_address_from_delegation sample_pton sample_ntop (Some (ascii ''2001:db8:aa00::/40'')) 5
        (Some (ascii ''::1/64'')) 50 = Inr (ascii ''2001:db8:aa00:5::1/64'')" by code_simp
qed

theorem address_roundtrip_witness:
  "\<exists>t. ncfg_address_render sample_ntop sample_router NCFG_ADDRESS_MAX = Inr t \<and>
     ncfg_address_parse sample_pton (Some t) = Inr sample_router \<and>
     ncfg_address_canonical sample_pton sample_ntop (Some t) NCFG_ADDRESS_MAX = Inr t"
proof -
  have "address_ok sample_router" by code_simp
  moreover have "sample_ntop (family sample_router) (own_bytes sample_router) = Some (ascii ''192.168.1.1'')" by code_simp
  moreover have "sample_pton (family sample_router) (ascii ''192.168.1.1'') = Some (own_bytes sample_router)" by code_simp
  moreover have "ascii ''192.168.1.1'' \<noteq> []" "length (ascii ''192.168.1.1'') < INET6_ADDRSTRLEN"
    "0 \<notin> set (ascii ''192.168.1.1'')" "slash \<notin> set (ascii ''192.168.1.1'')"
    "colon \<in> set (ascii ''192.168.1.1'') \<longleftrightarrow> ad_is_ipv6 sample_router" by code_simp+
  ultimately show ?thesis by (rule address_roundtrip)
qed

subsection \<open>Hardware addresses\<close>

lemma upper_digit_value: "hex_value (upper_digit v) = Some (v mod 16)"
proof -
  have "list_all (\<lambda>v. hex_value (upper_digit v) = Some v) [0..<16]" by code_simp
  then have "hex_value (upper_digit (v mod 16)) = Some (v mod 16)" unfolding list_all_iff by (rule bspec) simp
  then show ?thesis by (simp add: upper_digit_def)
qed

lemma hex_value_plain:
  assumes "hex_value b = Some v"
  shows "b \<noteq> colon" "b \<noteq> ch CHR ''-''" "b \<noteq> 0" "\<not> is_blank_char b" "v < 16"
proof -
  from assms have "48 \<le> unat b \<and> unat b \<le> 57 \<and> v = unat b - 48 \<or>
      97 \<le> unat b \<and> unat b \<le> 102 \<and> v = unat b - 97 + 10 \<or>
      65 \<le> unat b \<and> unat b \<le> 70 \<and> v = unat b - 65 + 10"
    by (auto simp: hex_value_def unat_sub word_le_nat_alt split: if_splits)
  then show "b \<noteq> colon" "b \<noteq> ch CHR ''-''" "b \<noteq> 0" "\<not> is_blank_char b" "v < 16"
    by (auto simp: is_blank_char_def)
qed

definition octets :: "nat list \<Rightarrow> bool" where
  "octets values \<longleftrightarrow> length values = 6 \<and> list_all (\<lambda>v. v < 256) values"

lemma octets_six:
  assumes "octets vs"
  obtains a b c d e f where "vs = [a, b, c, d, e, f]"
    "a < 256" "b < 256" "c < 256" "d < 256" "e < 256" "f < 256"
  using assms by (auto simp: octets_def numeral_eq_Suc length_Suc_conv)

lemma octet_back: "v < 256 \<Longrightarrow> v div 16 mod 16 * 16 + v mod 16 = (v :: nat)"
  by (simp add: div_mult_mod_eq mod_less)

lemma write_octets_text:
  "write_octets [a, b, c, d, e, f] =
     [upper_digit (a div 16), upper_digit a, colon, upper_digit (b div 16), upper_digit b, colon,
      upper_digit (c div 16), upper_digit c, colon, upper_digit (d div 16), upper_digit d, colon,
      upper_digit (e div 16), upper_digit e, colon, upper_digit (f div 16), upper_digit f]"
  by (simp add: write_octets_def)

lemmas upper_digit_plain = hex_value_plain [OF upper_digit_value]

lemma write_octets_cstr: "octets values \<Longrightarrow> cstr (write_octets values) = write_octets values"
  by (elim octets_six) (auto simp: write_octets_text upper_digit_plain intro!: cstr_id)

lemma trimmed_plain:
  assumes "xs \<noteq> []" "\<not> is_blank_char (hd xs)" "\<not> is_blank_char (last xs)"
  shows "rev (dropWhile is_blank_char (rev (dropWhile is_blank_char xs))) = xs"
proof -
  have "dropWhile is_blank_char xs = xs" using assms(1,2) by (cases xs) simp_all
  moreover have "dropWhile is_blank_char (rev xs) = rev xs"
    using assms(1,3) by (cases "rev xs") (simp_all flip: hd_rev)
  ultimately show ?thesis by simp
qed

lemma strict_written:
  assumes "octets vs" "18 \<le> n"
  shows "ncfg_hardware_address_strict (Some (write_octets vs)) n = Inr (write_octets vs)"
proof -
  from assms(1) obtain a b c d e f where v: "vs = [a, b, c, d, e, f]"
    "a < 256" "b < 256" "c < 256" "d < 256" "e < 256" "f < 256" by (rule octets_six)
  have six: "[0..<6] = [0, 1, 2, 3, 4, 5 :: nat]" by code_simp
  have "map (strict_octet (write_octets vs)) [0..<6] = map Some vs"
    unfolding six v(1) write_octets_text
    using v by (simp add: strict_octet_def upper_digit_value octet_back)
  then have "those (map (strict_octet (write_octets vs)) [0..<6]) = Some vs" by (simp add: v)
  with assms write_octets_cstr [OF assms(1)] show ?thesis
    by (simp add: ncfg_hardware_address_strict_def hardware_room_def NCFG_HARDWARE_ADDRESS_MAX_def Let_def v write_octets_text)
qed

text \<open>Octets between colons, as the strict spelling has them.\<close>

fun separated :: "(byte \<times> byte) list \<Rightarrow> bytes" where
  "separated [] = []"
| "separated [(h, l)] = [h, l]"
| "separated ((h, l) # ps) = h # l # colon # separated ps"

definition octet_of :: "byte \<times> byte \<Rightarrow> nat option" where
  "octet_of p = (case (hex_value (fst p), hex_value (snd p)) of (Some high, Some low) \<Rightarrow> Some (high * 16 + low) | _ \<Rightarrow> None)"

lemma octet_ofD:
  assumes "octet_of (h, l) = Some v"
  obtains a b where "hex_value h = Some a" "hex_value l = Some b" "v = a * 16 + b" "v < 256"
proof -
  from assms obtain a b where ab: "hex_value h = Some a" "hex_value l = Some b" "v = a * 16 + b"
    by (auto simp: octet_of_def split: option.splits)
  with hex_value_plain(5) [OF ab(1)] hex_value_plain(5) [OF ab(2)] show thesis by (intro that) simp_all
qed

lemma typed_pair:
  assumes "octet_of (h, l) = Some v" "even seen" "seen < 12"
  shows "\<exists>high'. typed_loop (h # l # rest) seen vs high = typed_loop rest (seen + 2) (vs @ [v]) high'"
proof -
  from assms(1) obtain a b where ab: "hex_value h = Some a" "hex_value l = Some b" "v = a * 16 + b" by (rule octet_ofD)
  moreover note hex_value_plain(1,2) [OF ab(1)] hex_value_plain(1,2) [OF ab(2)]
  moreover have "seen + 1 < 12" "Suc seen mod 2 \<noteq> 0" "seen mod 2 = 0" using assms(2,3) by presburger+
  ultimately show ?thesis by auto
qed

lemma typed_separated:
  "list_all2 (\<lambda>p v. octet_of p = Some v) ps vs \<Longrightarrow> even seen \<Longrightarrow> seen + 2 * length ps \<le> 12 \<Longrightarrow>
   typed_loop (separated ps) seen ws high = Some (seen + 2 * length ps, ws @ vs)"
proof (induction ps arbitrary: vs seen ws high rule: separated.induct)
  case (2 h l)
  then obtain v where "vs = [v]" "octet_of (h, l) = Some v" by (auto simp: list_all2_Cons1)
  with 2 typed_pair [of h l v seen "[]" ws high] show ?case by auto
next
  case (3 h l p ps)
  then obtain v vs' where v: "vs = v # vs'" "octet_of (h, l) = Some v" "list_all2 (\<lambda>p v. octet_of p = Some v) (p # ps) vs'"
    by (auto simp: list_all2_Cons1)
  from typed_pair [OF v(2), of seen "colon # separated (p # ps)" ws high] "3.prems"(2,3) obtain high' where
    "typed_loop (h # l # colon # separated (p # ps)) seen ws high = typed_loop (separated (p # ps)) (seen + 2) (ws @ [v]) high'"
    by auto
  with "3.IH" [OF v(3), of "seen + 2" "ws @ [v]" high'] "3.prems"(2,3) v(1) show ?case by simp
qed simp

lemma separated_ends:
  assumes "list_all2 (\<lambda>p v. octet_of p = Some v) ps vs" "ps \<noteq> []"
  shows "separated ps \<noteq> [] \<and> \<not> is_blank_char (hd (separated ps)) \<and> \<not> is_blank_char (last (separated ps)) \<and> 0 \<notin> set (separated ps)"
  using assms
proof (induction ps arbitrary: vs rule: separated.induct)
  case (2 h l)
  then obtain v where "octet_of (h, l) = Some v" by (auto simp: list_all2_Cons1)
  then show ?case by (elim octet_ofD) (auto dest: hex_value_plain)
next
  case (3 h l p ps)
  then obtain v vs' where v: "octet_of (h, l) = Some v" "list_all2 (\<lambda>p v. octet_of p = Some v) (p # ps) vs'"
    by (auto simp: list_all2_Cons1)
  from "3.IH" [OF v(2)] have "separated (p # ps) \<noteq> []" "\<not> is_blank_char (last (separated (p # ps)))" "0 \<notin> set (separated (p # ps))"
    by simp_all
  with v(1) show ?case by (elim octet_ofD) (auto dest: hex_value_plain)
qed simp

lemma typed_reads:
  assumes "list_all2 (\<lambda>p v. octet_of p = Some v) ps vs" "length ps = 6" "18 \<le> n" "cstr t = separated ps"
  shows "ncfg_hardware_address_typed (Some t) n = Inr (write_octets vs)"
proof -
  have ps: "ps \<noteq> []" using assms(2) by auto
  note k = separated_ends [OF assms(1) ps]
  have "rev (dropWhile is_blank_char (rev (dropWhile is_blank_char (separated ps)))) = separated ps"
    using k by (intro trimmed_plain) blast+
  moreover have "typed_loop (separated ps) 0 [] 0 = Some (12, vs)"
    using typed_separated [OF assms(1), of 0 "[]" 0] assms(2) by simp
  ultimately show ?thesis
    using assms(3,4) by (simp add: ncfg_hardware_address_typed_def hardware_room_def NCFG_HARDWARE_ADDRESS_MAX_def Let_def)
qed

lemma octet_of_written: "v < 256 \<Longrightarrow> octet_of (upper_digit (v div 16), upper_digit v) = Some v"
  by (simp add: octet_of_def upper_digit_value octet_back)

lemma typed_written:
  assumes "octets vs" "18 \<le> n"
  shows "ncfg_hardware_address_typed (Some (write_octets vs)) n = Inr (write_octets vs)"
proof -
  from assms(1) obtain a b c d e f where v: "vs = [a, b, c, d, e, f]"
    "a < 256" "b < 256" "c < 256" "d < 256" "e < 256" "f < 256" by (rule octets_six)
  let ?ps = "map (\<lambda>v. (upper_digit (v div 16), upper_digit v)) vs"
  have "write_octets vs = separated ?ps" by (simp add: v(1) write_octets_text)
  moreover have "list_all2 (\<lambda>p v. octet_of p = Some v) ?ps vs" using v by (simp add: octet_of_written)
  ultimately show ?thesis using typed_reads [of ?ps vs n "write_octets vs"] write_octets_cstr [OF assms(1)] assms(2) v(1) by simp
qed

lemma typed_loop_octets:
  "typed_loop bs seen vs high = Some (seen', vs') \<Longrightarrow> list_all (\<lambda>v. v < 256) vs \<Longrightarrow> high < 16 \<Longrightarrow>
   length vs = min 12 seen div 2 \<Longrightarrow> list_all (\<lambda>v. v < 256) vs' \<and> length vs' = min 12 seen' div 2"
proof (induction bs seen vs high rule: typed_loop.induct)
  case (2 one rest seen vs high)
  show ?case
  proof (cases "one = colon \<or> one = ch CHR ''-''")
    case True
    with 2 show ?thesis by simp
  next
    case False
    with "2.prems"(1) obtain v where v: "hex_value one = Some v" by (cases "hex_value one") simp_all
    then have "v < 16" by (rule hex_value_plain(5))
    note IH = "2.IH"(2-4) [OF False v]
    consider (many) "12 \<le> seen" | (high) "seen < 12" "seen mod 2 = 0" | (low) "seen < 12" "seen mod 2 \<noteq> 0" by linarith
    then show ?thesis
    proof cases
      case many
      with IH(3) "2.prems" False v show ?thesis by simp
    next
      case high
      then have "min 12 (seen + 1) div 2 = min 12 seen div 2" by presburger
      with high IH(1) "2.prems" False v \<open>v < 16\<close> show ?thesis by simp
    next
      case low
      then have "min 12 (seen + 1) div 2 = Suc (min 12 seen div 2)" by presburger
      with low IH(2) "2.prems" False v \<open>v < 16\<close> show ?thesis by simp
    qed
  qed
qed simp

lemma typed_octets:
  assumes "ncfg_hardware_address_typed t n = Inr out"
  shows "18 \<le> n \<and> (\<exists>vs. octets vs \<and> out = write_octets vs)"
proof -
  let ?t = "case t of None \<Rightarrow> [] | Some t \<Rightarrow> cstr t"
  let ?trimmed = "rev (dropWhile is_blank_char (rev (dropWhile is_blank_char ?t)))"
  have n: "18 \<le> n"
    using assms by (auto simp: ncfg_hardware_address_typed_def hardware_room_def NCFG_HARDWARE_ADDRESS_MAX_def split: if_splits)
  with assms have "case typed_loop ?trimmed 0 [] 0 of None \<Rightarrow> False | Some (seen, vs) \<Rightarrow> seen = 12 \<and> out = write_octets vs"
    by (simp add: ncfg_hardware_address_typed_def hardware_room_def NCFG_HARDWARE_ADDRESS_MAX_def Let_def
        split: option.splits prod.splits if_splits)
  then obtain vs where vs: "typed_loop ?trimmed 0 [] 0 = Some (12, vs)" "out = write_octets vs"
    by (auto split: option.splits)
  from typed_loop_octets [OF vs(1)] have "octets vs" by (simp add: octets_def)
  with n vs(2) show ?thesis by blast
qed

lemma those_all_Some: "those xs = Some ys \<longleftrightarrow> xs = map Some ys"
  by (induction xs arbitrary: ys) (auto split: option.split)

lemma mapped_all2: "map f xs = map Some vs \<Longrightarrow> list_all2 (\<lambda>x v. f x = Some v) xs vs"
  by (induction xs arbitrary: vs) (auto simp: Cons_eq_map_conv)

lemma strict_spelled:
  assumes "length t = 17" "map (strict_octet t) [0..<6] = map Some vs"
  shows "\<exists>ps. length ps = 6 \<and> t = separated ps \<and> list_all2 (\<lambda>p v. octet_of p = Some v) ps vs"
proof -
  let ?ps = "map (\<lambda>i. (t ! (i * 3), t ! (i * 3 + 1))) [0..<6]"
  have o: "octet_of (t ! (i * 3), t ! (i * 3 + 1)) = Some v \<and> (i < 5 \<longrightarrow> t ! (i * 3 + 2) = colon)"
    if "strict_octet t i = Some v" for i v
    using that by (auto simp: strict_octet_def octet_of_def Let_def split: option.splits if_splits)
  have "list_all2 (\<lambda>i v. strict_octet t i = Some v) [0..<6] vs"
    by (rule mapped_all2 [OF assms(2)])
  then have a: "list_all2 (\<lambda>i v. octet_of (t ! (i * 3), t ! (i * 3 + 1)) = Some v \<and> (i < 5 \<longrightarrow> t ! (i * 3 + 2) = colon)) [0..<6] vs"
    by (rule list_all2_mono) (rule o)
  then have ps: "list_all2 (\<lambda>p v. octet_of p = Some v) ?ps vs" by (auto simp: list_all2_map1 elim: list_all2_mono)
  have "length vs = 6" using a by (simp add: list_all2_lengthD [symmetric])
  then have c: "t ! (i * 3 + 2) = colon" if "i < 5" for i
    using list_all2_nthD [OF a, of i] that by simp
  have six: "[0..<6] = [0, 1, 2, 3, 4, 5 :: nat]" by code_simp
  have seventeen: "[0..<17] = [0, 1, 2, 3, 4, 5, 6, 7, 8, 9, 10, 11, 12, 13, 14, 15, 16 :: nat]" by code_simp
  have "t = map ((!) t) [0..<17]" using map_nth [of t] assms(1) by simp
  also have "\<dots> = separated ?ps"
    unfolding six seventeen using c [of 0] c [of 1] c [of 2] c [of 3] c [of 4] by (simp add: numeral_2_eq_2)
  finally show ?thesis using ps by (intro exI [of _ ?ps]) simp
qed

text \<open>
  C34.  A hardware address has one spelling.  Whatever a person typed -- with colons, dashes or nothing
  between the digits, in either case, with blanks around -- is answered, if at all, in a form the strict
  reader takes and answers unchanged, and typing that form again changes nothing; and what the strict
  reader takes, the other takes with the same answer.
\<close>

theorem hardware_canonical:
  "(ncfg_hardware_address_typed typed n = Inr out \<longrightarrow>
      ncfg_hardware_address_strict (Some out) n = Inr out \<and> ncfg_hardware_address_typed (Some out) n = Inr out) \<and>
   (ncfg_hardware_address_strict typed n = Inr out \<longrightarrow> ncfg_hardware_address_typed typed n = Inr out)"
proof (intro conjI impI)
  assume "ncfg_hardware_address_typed typed n = Inr out"
  from typed_octets [OF this] obtain vs where "octets vs" "out = write_octets vs" "18 \<le> n" by blast
  then show "ncfg_hardware_address_strict (Some out) n = Inr out" "ncfg_hardware_address_typed (Some out) n = Inr out"
    using strict_written typed_written by simp_all
next
  assume s: "ncfg_hardware_address_strict typed n = Inr out"
  then obtain t where t: "typed = Some t"
    by (cases typed) (auto simp: ncfg_hardware_address_strict_def split: option.splits)
  with s obtain vs where "length (cstr t) = 17" "map (strict_octet (cstr t)) [0..<6] = map Some vs" "out = write_octets vs" "18 \<le> n"
    by (auto simp: ncfg_hardware_address_strict_def hardware_room_def NCFG_HARDWARE_ADDRESS_MAX_def Let_def those_all_Some
        split: if_splits option.splits)
  with strict_spelled [of "cstr t" vs] typed_reads [of _ vs n t] t show "ncfg_hardware_address_typed typed n = Inr out" by auto
qed

theorem hardware_canonical_witness:
  "ncfg_hardware_address_typed (Some (ascii '' aa-bb-0c-DD-ee-ff'')) 18 = Inr (ascii ''AA:BB:0C:DD:EE:FF'') \<and>
   ncfg_hardware_address_strict (Some (ascii ''AA:BB:0C:DD:EE:FF'')) 18 = Inr (ascii ''AA:BB:0C:DD:EE:FF'')"
proof -
  have "ncfg_hardware_address_typed (Some (ascii '' aa-bb-0c-DD-ee-ff'')) 18 = Inr (ascii ''AA:BB:0C:DD:EE:FF'')"
    by code_simp
  with hardware_canonical [of "Some (ascii '' aa-bb-0c-DD-ee-ff'')" 18 "ascii ''AA:BB:0C:DD:EE:FF''"]
  show ?thesis by (simp del: ascii_simps)
qed

end
