(* ===== verification/Ncfg_Uapi.thy ===== *)
theory Ncfg_Uapi
  imports Ncfg_Prelude
begin

text \<open>
  The kernel's own numbers, those of \<^verbatim>\<open>linux/rtnetlink.h\<close>, \<^verbatim>\<open>if_link.h\<close>, \<^verbatim>\<open>if_addr.h\<close>, \<^verbatim>\<open>fib_rules.h\<close>,
  \<^verbatim>\<open>if_bridge.h\<close>, \<^verbatim>\<open>if_tunnel.h\<close> and \<^verbatim>\<open>veth.h\<close>, as far as messages are built from them and read with them.
  They are the interface of the kernel and never change; the program includes them and defines none.
\<close>

subsection \<open>Types of messages and attributes, and flags\<close>

abbreviation (input) RTM_NEWLINK :: "16 word" where
  "RTM_NEWLINK \<equiv> 16"

abbreviation (input) RTM_DELLINK :: "16 word" where
  "RTM_DELLINK \<equiv> 17"

abbreviation (input) RTM_SETLINK :: "16 word" where
  "RTM_SETLINK \<equiv> 19"

abbreviation (input) RTM_NEWADDR :: "16 word" where
  "RTM_NEWADDR \<equiv> 20"

abbreviation (input) RTM_DELADDR :: "16 word" where
  "RTM_DELADDR \<equiv> 21"

abbreviation (input) RTM_NEWROUTE :: "16 word" where
  "RTM_NEWROUTE \<equiv> 24"

abbreviation (input) RTM_DELROUTE :: "16 word" where
  "RTM_DELROUTE \<equiv> 25"

abbreviation (input) RTM_NEWRULE :: "16 word" where
  "RTM_NEWRULE \<equiv> 32"

abbreviation (input) RTM_DELRULE :: "16 word" where
  "RTM_DELRULE \<equiv> 33"

abbreviation (input) RTM_NEWLINKPROP :: "16 word" where
  "RTM_NEWLINKPROP \<equiv> 108"

abbreviation (input) NLM_F_REQUEST :: "16 word" where
  "NLM_F_REQUEST \<equiv> 1"

abbreviation (input) NLM_F_ACK :: "16 word" where
  "NLM_F_ACK \<equiv> 4"

abbreviation (input) NLM_F_DUMP :: "16 word" where
  "NLM_F_DUMP \<equiv> 0x300"

abbreviation (input) NLM_F_REPLACE :: "16 word" where
  "NLM_F_REPLACE \<equiv> 0x100"

abbreviation (input) NLM_F_EXCL :: "16 word" where
  "NLM_F_EXCL \<equiv> 0x200"

abbreviation (input) NLM_F_CREATE :: "16 word" where
  "NLM_F_CREATE \<equiv> 0x400"

abbreviation (input) IFA_ADDRESS :: "16 word" where
  "IFA_ADDRESS \<equiv> 1"

abbreviation (input) IFA_LOCAL :: "16 word" where
  "IFA_LOCAL \<equiv> 2"

abbreviation (input) IFA_PROTO :: "16 word" where
  "IFA_PROTO \<equiv> 11"

abbreviation (input) RTA_DST :: "16 word" where
  "RTA_DST \<equiv> 1"

abbreviation (input) RTA_OIF :: "16 word" where
  "RTA_OIF \<equiv> 4"

abbreviation (input) RTA_GATEWAY :: "16 word" where
  "RTA_GATEWAY \<equiv> 5"

abbreviation (input) RTA_PRIORITY :: "16 word" where
  "RTA_PRIORITY \<equiv> 6"

abbreviation (input) RTA_PREFSRC :: "16 word" where
  "RTA_PREFSRC \<equiv> 7"

abbreviation (input) RTA_TABLE :: "16 word" where
  "RTA_TABLE \<equiv> 15"

abbreviation (input) FRA_DST :: "16 word" where
  "FRA_DST \<equiv> 1"

abbreviation (input) FRA_SRC :: "16 word" where
  "FRA_SRC \<equiv> 2"

abbreviation (input) FRA_IIFNAME :: "16 word" where
  "FRA_IIFNAME \<equiv> 3"

abbreviation (input) FRA_PRIORITY :: "16 word" where
  "FRA_PRIORITY \<equiv> 6"

abbreviation (input) FRA_FWMARK :: "16 word" where
  "FRA_FWMARK \<equiv> 10"

abbreviation (input) FRA_SUPPRESS_PREFIXLEN :: "16 word" where
  "FRA_SUPPRESS_PREFIXLEN \<equiv> 14"

abbreviation (input) FRA_TABLE :: "16 word" where
  "FRA_TABLE \<equiv> 15"

abbreviation (input) FRA_FWMASK :: "16 word" where
  "FRA_FWMASK \<equiv> 16"

abbreviation (input) FRA_OIFNAME :: "16 word" where
  "FRA_OIFNAME \<equiv> 17"

abbreviation (input) FRA_L3MDEV :: "16 word" where
  "FRA_L3MDEV \<equiv> 19"

abbreviation (input) FRA_PROTOCOL :: "16 word" where
  "FRA_PROTOCOL \<equiv> 21"

abbreviation (input) IFLA_ADDRESS :: "16 word" where
  "IFLA_ADDRESS \<equiv> 1"

abbreviation (input) IFLA_IFNAME :: "16 word" where
  "IFLA_IFNAME \<equiv> 3"

abbreviation (input) IFLA_MTU :: "16 word" where
  "IFLA_MTU \<equiv> 4"

abbreviation (input) IFLA_LINK :: "16 word" where
  "IFLA_LINK \<equiv> 5"

abbreviation (input) IFLA_MASTER :: "16 word" where
  "IFLA_MASTER \<equiv> 10"

abbreviation (input) IFLA_LINKINFO :: "16 word" where
  "IFLA_LINKINFO \<equiv> 18"

abbreviation (input) IFLA_AF_SPEC :: "16 word" where
  "IFLA_AF_SPEC \<equiv> 26"

abbreviation (input) IFLA_EXT_MASK :: "16 word" where
  "IFLA_EXT_MASK \<equiv> 29"

abbreviation (input) IFLA_CARRIER :: "16 word" where
  "IFLA_CARRIER \<equiv> 33"

abbreviation (input) IFLA_PROP_LIST :: "16 word" where
  "IFLA_PROP_LIST \<equiv> 52"

abbreviation (input) IFLA_ALT_IFNAME :: "16 word" where
  "IFLA_ALT_IFNAME \<equiv> 53"

abbreviation (input) IFLA_INFO_KIND :: "16 word" where
  "IFLA_INFO_KIND \<equiv> 1"

abbreviation (input) IFLA_INFO_DATA :: "16 word" where
  "IFLA_INFO_DATA \<equiv> 2"

abbreviation (input) IFLA_INET6_TOKEN :: "16 word" where
  "IFLA_INET6_TOKEN \<equiv> 7"

abbreviation (input) IFLA_VLAN_ID :: "16 word" where
  "IFLA_VLAN_ID \<equiv> 1"

abbreviation (input) IFLA_VLAN_PROTOCOL :: "16 word" where
  "IFLA_VLAN_PROTOCOL \<equiv> 5"

abbreviation (input) IFLA_BOND_MODE :: "16 word" where
  "IFLA_BOND_MODE \<equiv> 1"

abbreviation (input) IFLA_BOND_MIIMON :: "16 word" where
  "IFLA_BOND_MIIMON \<equiv> 3"

abbreviation (input) IFLA_BR_FORWARD_DELAY :: "16 word" where
  "IFLA_BR_FORWARD_DELAY \<equiv> 1"

abbreviation (input) IFLA_BR_HELLO_TIME :: "16 word" where
  "IFLA_BR_HELLO_TIME \<equiv> 2"

abbreviation (input) IFLA_BR_AGEING_TIME :: "16 word" where
  "IFLA_BR_AGEING_TIME \<equiv> 4"

abbreviation (input) IFLA_BR_STP_STATE :: "16 word" where
  "IFLA_BR_STP_STATE \<equiv> 5"

abbreviation (input) IFLA_BR_PRIORITY :: "16 word" where
  "IFLA_BR_PRIORITY \<equiv> 6"

abbreviation (input) IFLA_BR_VLAN_FILTERING :: "16 word" where
  "IFLA_BR_VLAN_FILTERING \<equiv> 7"

abbreviation (input) IFLA_VXLAN_ID :: "16 word" where
  "IFLA_VXLAN_ID \<equiv> 1"

abbreviation (input) IFLA_VXLAN_GROUP :: "16 word" where
  "IFLA_VXLAN_GROUP \<equiv> 2"

abbreviation (input) IFLA_VXLAN_LINK :: "16 word" where
  "IFLA_VXLAN_LINK \<equiv> 3"

abbreviation (input) IFLA_VXLAN_LOCAL :: "16 word" where
  "IFLA_VXLAN_LOCAL \<equiv> 4"

abbreviation (input) IFLA_VXLAN_PORT :: "16 word" where
  "IFLA_VXLAN_PORT \<equiv> 15"

abbreviation (input) IFLA_VXLAN_GROUP6 :: "16 word" where
  "IFLA_VXLAN_GROUP6 \<equiv> 16"

abbreviation (input) IFLA_VXLAN_LOCAL6 :: "16 word" where
  "IFLA_VXLAN_LOCAL6 \<equiv> 17"

abbreviation (input) IFLA_VRF_TABLE :: "16 word" where
  "IFLA_VRF_TABLE \<equiv> 1"

abbreviation (input) IFLA_MACVLAN_MODE :: "16 word" where
  "IFLA_MACVLAN_MODE \<equiv> 1"

abbreviation (input) IFLA_GENEVE_ID :: "16 word" where
  "IFLA_GENEVE_ID \<equiv> 1"

abbreviation (input) IFLA_GENEVE_REMOTE :: "16 word" where
  "IFLA_GENEVE_REMOTE \<equiv> 2"

abbreviation (input) IFLA_GENEVE_TTL :: "16 word" where
  "IFLA_GENEVE_TTL \<equiv> 3"

abbreviation (input) IFLA_GENEVE_REMOTE6 :: "16 word" where
  "IFLA_GENEVE_REMOTE6 \<equiv> 7"

abbreviation (input) IFLA_GRE_LINK :: "16 word" where
  "IFLA_GRE_LINK \<equiv> 1"

abbreviation (input) IFLA_GRE_IFLAGS :: "16 word" where
  "IFLA_GRE_IFLAGS \<equiv> 2"

abbreviation (input) IFLA_GRE_OFLAGS :: "16 word" where
  "IFLA_GRE_OFLAGS \<equiv> 3"

abbreviation (input) IFLA_GRE_IKEY :: "16 word" where
  "IFLA_GRE_IKEY \<equiv> 4"

abbreviation (input) IFLA_GRE_OKEY :: "16 word" where
  "IFLA_GRE_OKEY \<equiv> 5"

abbreviation (input) IFLA_GRE_LOCAL :: "16 word" where
  "IFLA_GRE_LOCAL \<equiv> 6"

abbreviation (input) IFLA_GRE_REMOTE :: "16 word" where
  "IFLA_GRE_REMOTE \<equiv> 7"

abbreviation (input) IFLA_GRE_TTL :: "16 word" where
  "IFLA_GRE_TTL \<equiv> 8"

abbreviation (input) IFLA_IPTUN_LINK :: "16 word" where
  "IFLA_IPTUN_LINK \<equiv> 1"

abbreviation (input) IFLA_IPTUN_LOCAL :: "16 word" where
  "IFLA_IPTUN_LOCAL \<equiv> 2"

abbreviation (input) IFLA_IPTUN_REMOTE :: "16 word" where
  "IFLA_IPTUN_REMOTE \<equiv> 3"

abbreviation (input) IFLA_IPTUN_TTL :: "16 word" where
  "IFLA_IPTUN_TTL \<equiv> 4"

abbreviation (input) VETH_INFO_PEER :: "16 word" where
  "VETH_INFO_PEER \<equiv> 1"

abbreviation (input) IFLA_BRIDGE_FLAGS :: "16 word" where
  "IFLA_BRIDGE_FLAGS \<equiv> 0"

abbreviation (input) IFLA_BRIDGE_VLAN_INFO :: "16 word" where
  "IFLA_BRIDGE_VLAN_INFO \<equiv> 2"

abbreviation (input) BRIDGE_FLAGS_MASTER :: "16 word" where
  "BRIDGE_FLAGS_MASTER \<equiv> 1"

abbreviation (input) BRIDGE_FLAGS_SELF :: "16 word" where
  "BRIDGE_FLAGS_SELF \<equiv> 2"

abbreviation (input) BRIDGE_VLAN_INFO_PVID :: "16 word" where
  "BRIDGE_VLAN_INFO_PVID \<equiv> 2"

abbreviation (input) BRIDGE_VLAN_INFO_UNTAGGED :: "16 word" where
  "BRIDGE_VLAN_INFO_UNTAGGED \<equiv> 4"

abbreviation (input) BRIDGE_VLAN_INFO_RANGE_BEGIN :: "16 word" where
  "BRIDGE_VLAN_INFO_RANGE_BEGIN \<equiv> 8"

abbreviation (input) BRIDGE_VLAN_INFO_RANGE_END :: "16 word" where
  "BRIDGE_VLAN_INFO_RANGE_END \<equiv> 16"

subsection \<open>Bytes\<close>

abbreviation (input) AF_BRIDGE :: "8 word" where
  "AF_BRIDGE \<equiv> 7"

abbreviation (input) RT_TABLE_UNSPEC :: "8 word" where
  "RT_TABLE_UNSPEC \<equiv> 0"

abbreviation (input) RT_SCOPE_UNIVERSE :: "8 word" where
  "RT_SCOPE_UNIVERSE \<equiv> 0"

abbreviation (input) RT_SCOPE_LINK :: "8 word" where
  "RT_SCOPE_LINK \<equiv> 253"

abbreviation (input) RTN_UNICAST :: "8 word" where
  "RTN_UNICAST \<equiv> 1"

subsection \<open>Words\<close>

abbreviation (input) RTNH_F_ONLINK :: "32 word" where
  "RTNH_F_ONLINK \<equiv> 4"

abbreviation (input) FIB_RULE_INVERT :: "32 word" where
  "FIB_RULE_INVERT \<equiv> 2"

abbreviation (input) IFF_UP :: "32 word" where
  "IFF_UP \<equiv> 1"

abbreviation (input) RTEXT_FILTER_BRVLAN :: "32 word" where
  "RTEXT_FILTER_BRVLAN \<equiv> 2"

text \<open>Actions of a rule.\<close>

abbreviation (input) FR_ACT_TO_TBL :: byte where
  "FR_ACT_TO_TBL \<equiv> 1"

abbreviation (input) FR_ACT_BLACKHOLE :: byte where
  "FR_ACT_BLACKHOLE \<equiv> 6"

abbreviation (input) FR_ACT_UNREACHABLE :: byte where
  "FR_ACT_UNREACHABLE \<equiv> 7"

abbreviation (input) FR_ACT_PROHIBIT :: byte where
  "FR_ACT_PROHIBIT \<equiv> 8"

end
