(* ===== verification/Ncfg_Ops.thy ===== *)
theory Ncfg_Ops
  imports Ncfg_Uapi Ncfg_Value
begin

text \<open>
  The messages that change the kernel's configuration, \<^verbatim>\<open>c/src/sys/ops_value.c\<close>, \<^verbatim>\<open>ops_route.c\<close> and \<^verbatim>\<open>ops.c\<close>:
  addresses, routes, rules and links, built over the framing of \<open>Ncfg_Wire\<close>.

  An optional number is an option.  A builder answers what it was refused with, if it was, and the buffer;
  its own buffers are local and freed on every path, so only \<open>out\<close> is left.  Somewhere to put the answer
  and the operands a caller always has (\<open>out\<close>, a route, a rule, a link) are never NULL; names are.
\<close>

type_synonym optint = "64 word option"
type_synonym built = "bytes option \<times> buf"

subsection \<open>Values\<close>

definition AF_UNSPEC :: nat where
  "AF_UNSPEC = 0"

definition ncfg_ops_ip_present :: "wire_ip \<Rightarrow> bool" where
  "ncfg_ops_ip_present ip = (ip_family ip = AF_INET \<or> ip_family ip = AF_INET6)"

definition ncfg_ops_ip_from_address :: "address \<Rightarrow> wire_ip" where
  "ncfg_ops_ip_from_address address =
     \<lparr>ip_family = (if ad_is_ipv6 address then AF_INET6 else AF_INET), ip_bytes = ad_bytes address\<rparr>"

definition ncfg_ops_family_byte :: "wire_ip \<Rightarrow> byte" where
  "ncfg_ops_family_byte ip = of_nat (if ip_family ip = AF_INET6 then AF_INET6 else AF_INET)"

definition ncfg_ops_narrow :: "64 word \<Rightarrow> int \<Rightarrow> string \<Rightarrow> bytes + 32 word" where
  "ncfg_ops_narrow v ceiling what =
     (if sint v < 0 \<or> ceiling < sint v then
        Inl (ascii what @ ascii '' is 0 to '' @ decimal_int ceiling @ ascii '', and this one is '' @ decimal_int (sint v))
      else Inr (ucast v))"

text \<open>A number that is narrowed where it was given, and has its default where it was not.\<close>

definition narrow_or :: "32 word \<Rightarrow> optint \<Rightarrow> int \<Rightarrow> string \<Rightarrow> bytes + 32 word" where
  "narrow_or fallback v ceiling what = (case v of None \<Rightarrow> Inr fallback | Some v \<Rightarrow> ncfg_ops_narrow v ceiling what)"

definition UINT8_MAX :: int where
  "UINT8_MAX = 0xff"

definition UINT16_MAX :: int where
  "UINT16_MAX = 0xffff"

definition UINT32_MAX :: int where
  "UINT32_MAX = 0xffffffff"

definition NCFG_OPS_ACK_FLAGS :: "16 word" where
  "NCFG_OPS_ACK_FLAGS = NLM_F_REQUEST OR NLM_F_ACK"

definition NCFG_WIRE_RTPROT_NETCFGD :: "32 word" where
  "NCFG_WIRE_RTPROT_NETCFGD = 110"

definition NCFG_WIRE_ALT_IFNAME_MAX :: nat where
  "NCFG_WIRE_ALT_IFNAME_MAX = 128"

definition NCFG_ROUTE_MAIN_TABLE :: "32 word" where
  "NCFG_ROUTE_MAIN_TABLE = 254"

subsection \<open>A hardware address out of text\<close>

text \<open>\<open>text ! at\<close> behind the end of a C string is its terminator, which is no digit and no colon.\<close>

definition char_at :: "bytes \<Rightarrow> nat \<Rightarrow> byte" where
  "char_at s at = (if at < length s then s ! at else 0)"

fun parse_mac_loop :: "bytes \<Rightarrow> nat \<Rightarrow> nat \<Rightarrow> bytes \<Rightarrow> bytes + bytes \<times> nat" where
  "parse_mac_loop s 0 at out = Inr (out, at)"
| "parse_mac_loop s (Suc left) at out =
     (if left \<noteq> 5 \<and> char_at s at \<noteq> colon then
        Inl (ascii ''a hardware address is six colon-separated octets and `'' @ s @ ascii ''` is not'')
      else
        let at = (if left \<noteq> 5 then at + 1 else at) in
        case (hex_value (char_at s at), hex_value (char_at s (at + 1))) of
          (Some high, Some low) \<Rightarrow> parse_mac_loop s left (at + 2) (out @ [of_nat (high * 16 + low)])
        | _ \<Rightarrow> Inl (ascii ''`'' @ s @ ascii ''` has an octet that is not two hex digits''))"

definition ncfg_ops_parse_mac :: "bytes \<Rightarrow> bytes + bytes" where
  "ncfg_ops_parse_mac text =
     (case parse_mac_loop (cstr text) 6 0 [] of
        Inl err \<Rightarrow> Inl err
      | Inr (out, at) \<Rightarrow>
          if char_at (cstr text) at \<noteq> 0 then Inl (ascii ''`'' @ cstr text @ ascii ''` is longer than a hardware address'')
          else Inr out)"

subsection \<open>Addresses\<close>

definition put_ip_if :: "bool \<Rightarrow> byte_order \<Rightarrow> buf \<Rightarrow> 16 word \<Rightarrow> wire_ip \<Rightarrow> buf" where
  "put_ip_if c host attrs kind ip = (if c then ncfg_wire_attr_put_ip host attrs kind (Some ip) else attrs)"

definition put_u32_if :: "bool \<Rightarrow> byte_order \<Rightarrow> buf \<Rightarrow> 16 word \<Rightarrow> 32 word \<Rightarrow> buf" where
  "put_u32_if c host attrs kind v = (if c then ncfg_wire_attr_put_u32 host attrs kind v else attrs)"

definition put_u8_if :: "bool \<Rightarrow> byte_order \<Rightarrow> buf \<Rightarrow> 16 word \<Rightarrow> byte \<Rightarrow> buf" where
  "put_u8_if c host attrs kind v = (if c then ncfg_wire_attr_put_u8 host attrs kind v else attrs)"

definition address_request ::
  "byte_order \<Rightarrow> buf \<Rightarrow> 16 word \<Rightarrow> 16 word \<Rightarrow> 32 word \<Rightarrow> 32 word \<Rightarrow> wire_ip \<Rightarrow> byte \<Rightarrow> byte option \<Rightarrow> built" where
  "address_request host out kind flags seq index address prefix_len proto =
     (if \<not> ncfg_ops_ip_present address then (Some (ascii ''an address operation needs an address''), out)
      else
        let header = \<lparr>wa_family = ncfg_ops_family_byte address, wa_prefix_len = prefix_len, wa_flags = 0, wa_scope = 0,
              wa_index = index\<rparr>;
            body = ncfg_wire_ifaddr_encode host header (ncfg_buf_init 0);
            attrs = ncfg_wire_attr_put_ip host (ncfg_buf_init 0) IFA_LOCAL (Some address);
            attrs = ncfg_wire_attr_put_ip host attrs IFA_ADDRESS (Some address);
            attrs = (case proto of None \<Rightarrow> attrs | Some proto \<Rightarrow> ncfg_wire_attr_put_u8 host attrs IFA_PROTO proto)
        in ncfg_wire_build_request host out kind flags seq (Some body) (Some attrs))"

definition ncfg_ops_add_address ::
  "byte_order \<Rightarrow> buf \<Rightarrow> 32 word \<Rightarrow> 32 word \<Rightarrow> wire_ip \<Rightarrow> byte \<Rightarrow> byte \<Rightarrow> built" where
  "ncfg_ops_add_address host out seq index address prefix_len proto =
     address_request host out RTM_NEWADDR (NCFG_OPS_ACK_FLAGS OR NLM_F_CREATE OR NLM_F_REPLACE) seq index address
       prefix_len (Some proto)"

definition ncfg_ops_del_address ::
  "byte_order \<Rightarrow> buf \<Rightarrow> 32 word \<Rightarrow> 32 word \<Rightarrow> wire_ip \<Rightarrow> byte \<Rightarrow> built" where
  "ncfg_ops_del_address host out seq index address prefix_len =
     address_request host out RTM_DELADDR NCFG_OPS_ACK_FLAGS seq index address prefix_len None"

subsection \<open>Routes\<close>

record ops_route =
  ro_index :: "32 word"
  ro_destination :: wire_ip
  ro_dst_len :: byte
  ro_gateway :: wire_ip
  ro_metric :: optint
  ro_table :: optint
  ro_source :: wire_ip
  ro_proto :: optint
  ro_onlink :: bool

definition route_header :: "ops_route \<Rightarrow> 32 word \<Rightarrow> 32 word \<Rightarrow> wire_rtmsg" where
  "route_header route table proto =
     \<lparr>wr_family =
        (if ncfg_ops_ip_present (ro_destination route) then ncfg_ops_family_byte (ro_destination route)
         else if ncfg_ops_ip_present (ro_gateway route) then ncfg_ops_family_byte (ro_gateway route)
         else of_nat AF_INET),
      wr_dst_len = (if ncfg_ops_ip_present (ro_destination route) then ro_dst_len route else 0),
      wr_src_len = 0,
      wr_tos = 0,
      wr_table = (if 255 < table then RT_TABLE_UNSPEC else ucast table),
      wr_protocol = ucast proto,
      wr_scope = (if ncfg_ops_ip_present (ro_gateway route) then RT_SCOPE_UNIVERSE else RT_SCOPE_LINK),
      wr_kind = RTN_UNICAST,
      wr_flags = (if ro_onlink route then RTNH_F_ONLINK else 0)\<rparr>"

definition route_attrs :: "byte_order \<Rightarrow> ops_route \<Rightarrow> 32 word \<Rightarrow> 32 word \<Rightarrow> buf" where
  "route_attrs host route table metric =
     (let attrs = put_ip_if (ncfg_ops_ip_present (ro_destination route)) host (ncfg_buf_init 0) RTA_DST (ro_destination route);
          attrs = put_ip_if (ncfg_ops_ip_present (ro_gateway route)) host attrs RTA_GATEWAY (ro_gateway route);
          attrs = ncfg_wire_attr_put_u32 host attrs RTA_OIF (ro_index route);
          attrs = put_u32_if (ro_metric route \<noteq> None) host attrs RTA_PRIORITY metric;
          attrs = put_ip_if (ncfg_ops_ip_present (ro_source route)) host attrs RTA_PREFSRC (ro_source route)
      in put_u32_if (255 < table) host attrs RTA_TABLE table)"

definition route_request :: "byte_order \<Rightarrow> buf \<Rightarrow> 16 word \<Rightarrow> 16 word \<Rightarrow> 32 word \<Rightarrow> ops_route \<Rightarrow> built" where
  "route_request host out kind flags seq route =
     (case narrow_or NCFG_ROUTE_MAIN_TABLE (ro_table route) UINT32_MAX ''a route's table'' of
        Inl err \<Rightarrow> (Some err, out)
      | Inr table \<Rightarrow>
     (case narrow_or NCFG_WIRE_RTPROT_NETCFGD (ro_proto route) UINT8_MAX ''a route's protocol'' of
        Inl err \<Rightarrow> (Some err, out)
      | Inr proto \<Rightarrow>
     (case narrow_or 0 (ro_metric route) UINT32_MAX ''a route's metric'' of
        Inl err \<Rightarrow> (Some err, out)
      | Inr metric \<Rightarrow>
          let body = ncfg_wire_rtmsg_encode host (route_header route table proto) (ncfg_buf_init 0)
          in ncfg_wire_build_request host out kind flags seq (Some body) (Some (route_attrs host route table metric)))))"

definition ncfg_ops_add_route :: "byte_order \<Rightarrow> buf \<Rightarrow> 32 word \<Rightarrow> ops_route \<Rightarrow> built" where
  "ncfg_ops_add_route host out seq route =
     route_request host out RTM_NEWROUTE (NCFG_OPS_ACK_FLAGS OR NLM_F_CREATE) seq route"

definition ncfg_ops_del_route :: "byte_order \<Rightarrow> buf \<Rightarrow> 32 word \<Rightarrow> ops_route \<Rightarrow> built" where
  "ncfg_ops_del_route host out seq route = route_request host out RTM_DELROUTE NCFG_OPS_ACK_FLAGS seq route"

subsection \<open>Rules\<close>

record ops_rule =
  ru_family :: byte
  ru_priority :: "32 word"
  ru_table :: "32 word"
  ru_action :: byte
  ru_from :: wire_ip
  ru_from_len :: byte
  ru_to :: wire_ip
  ru_to_len :: byte
  ru_iif :: cstring
  ru_oif :: cstring
  ru_fwmark :: optint
  ru_fwmask :: optint
  ru_suppress_prefixlength :: optint
  ru_l3mdev :: bool
  ru_invert :: bool
  ru_protocol :: optint

definition rule_header :: "byte_order \<Rightarrow> buf \<Rightarrow> ops_rule \<Rightarrow> byte \<Rightarrow> buf" where
  "rule_header host body rule table_byte =
     put_u32 host
       (ncfg_buf_add granted body
          [ru_family rule,
           if ncfg_ops_ip_present (ru_to rule) then ru_to_len rule else 0,
           if ncfg_ops_ip_present (ru_from rule) then ru_from_len rule else 0,
           0, table_byte, 0, 0, ru_action rule])
       (if ru_invert rule then FIB_RULE_INVERT else 0)"

text \<open>The attributes a rule has before the numbers that may be refused.\<close>

definition rule_selectors :: "byte_order \<Rightarrow> ops_rule \<Rightarrow> buf" where
  "rule_selectors host rule =
     (let attrs = ncfg_wire_attr_put_u32 host (ncfg_buf_init 0) FRA_PRIORITY (ru_priority rule);
          attrs = put_u32_if (ru_table rule \<noteq> 0) host attrs FRA_TABLE (ru_table rule);
          attrs = put_ip_if (ncfg_ops_ip_present (ru_from rule)) host attrs FRA_SRC (ru_from rule);
          attrs = put_ip_if (ncfg_ops_ip_present (ru_to rule)) host attrs FRA_DST (ru_to rule);
          attrs = (if ru_iif rule \<noteq> None then ncfg_wire_attr_put_str host attrs FRA_IIFNAME (ru_iif rule) else attrs)
      in if ru_oif rule \<noteq> None then ncfg_wire_attr_put_str host attrs FRA_OIFNAME (ru_oif rule) else attrs)"

definition rule_request :: "byte_order \<Rightarrow> buf \<Rightarrow> 16 word \<Rightarrow> 16 word \<Rightarrow> 32 word \<Rightarrow> ops_rule \<Rightarrow> built" where
  "rule_request host out kind flags seq rule =
     (case narrow_or NCFG_WIRE_RTPROT_NETCFGD (ru_protocol rule) UINT8_MAX ''a rule's protocol'' of
        Inl err \<Rightarrow> (Some err, out)
      | Inr protocol \<Rightarrow>
          let body = rule_header host (ncfg_buf_init 0) rule
                (if ru_table rule \<le> 255 then ucast (ru_table rule) else RT_TABLE_UNSPEC);
              attrs = rule_selectors host rule
          in
     (case narrow_or 0 (ru_fwmark rule) UINT32_MAX ''a firewall mark'' of
        Inl err \<Rightarrow> (Some err, out)
      | Inr fwmark \<Rightarrow>
          let attrs = put_u32_if (ru_fwmark rule \<noteq> None) host attrs FRA_FWMARK fwmark in
     (case narrow_or 0 (ru_fwmask rule) UINT32_MAX ''a firewall mark's mask'' of
        Inl err \<Rightarrow> (Some err, out)
      | Inr fwmask \<Rightarrow>
          let attrs = put_u32_if (ru_fwmask rule \<noteq> None) host attrs FRA_FWMASK fwmask in
     (case narrow_or 0 (ru_suppress_prefixlength rule) UINT32_MAX ''a suppressed prefix length'' of
        Inl err \<Rightarrow> (Some err, out)
      | Inr suppress \<Rightarrow>
          let attrs = put_u32_if (ru_suppress_prefixlength rule \<noteq> None) host attrs FRA_SUPPRESS_PREFIXLEN suppress;
              attrs = put_u8_if (ru_l3mdev rule) host attrs FRA_L3MDEV 1;
              attrs = ncfg_wire_attr_put_u8 host attrs FRA_PROTOCOL (ucast protocol)
          in ncfg_wire_build_request host out kind flags seq (Some body) (Some attrs)))))"

definition ncfg_ops_add_rule :: "byte_order \<Rightarrow> buf \<Rightarrow> 32 word \<Rightarrow> ops_rule \<Rightarrow> built" where
  "ncfg_ops_add_rule host out seq rule =
     rule_request host out RTM_NEWRULE (NCFG_OPS_ACK_FLAGS OR NLM_F_CREATE OR NLM_F_EXCL) seq rule"

definition ncfg_ops_del_rule :: "byte_order \<Rightarrow> buf \<Rightarrow> 32 word \<Rightarrow> ops_rule \<Rightarrow> built" where
  "ncfg_ops_del_rule host out seq rule = rule_request host out RTM_DELRULE NCFG_OPS_ACK_FLAGS seq rule"

end
