(* ===== verification/Ncfg_Dump.thy ===== *)
theory Ncfg_Dump
  imports "HOL-Library.Product_Lexorder" Ncfg_Ops
begin

text \<open>
  The facts a dump of the kernel carries, \<^verbatim>\<open>c/src/sys/dump.c\<close> and \<^verbatim>\<open>rule.c\<close>: links, addresses, routes, rules and
  the VLANs of a bridge, each read out of the payload of one message.

  A payload is where it starts in \<open>mem\<close> and how long it is.  A flag with the number beside it is an option.
  What is found in an area is a sum: a refusal of the whole area, or the attribute if it is there.
\<close>

subsection \<open>One attribute of an area\<close>

type_synonym 'a reading = "bytes + 'a option"

definition area_find :: "byte_order \<Rightarrow> bytes \<Rightarrow> wire_attrs \<Rightarrow> 16 word \<Rightarrow> wire_attr reading" where
  "area_find host mem area kind =
     (case ncfg_wire_attrs_find host mem area kind of
        WIRE_OK attr \<Rightarrow> Inr (Some attr)
      | WIRE_END \<Rightarrow> Inr None
      | WIRE_BAD why \<Rightarrow> Inl why)"

text \<open>What a reader of values makes of the attribute: one it refuses is absent.\<close>

definition area_value :: "byte_order \<Rightarrow> bytes \<Rightarrow> wire_attrs \<Rightarrow> 16 word \<Rightarrow> (wire_attr \<Rightarrow> bytes + 'a) \<Rightarrow> 'a reading" where
  "area_value host mem area kind reader =
     (case area_find host mem area kind of
        Inl why \<Rightarrow> Inl why
      | Inr None \<Rightarrow> Inr None
      | Inr (Some attr) \<Rightarrow> (case reader attr of Inl _ \<Rightarrow> Inr None | Inr v \<Rightarrow> Inr (Some v)))"

definition area_u8 :: "byte_order \<Rightarrow> bytes \<Rightarrow> wire_attrs \<Rightarrow> 16 word \<Rightarrow> byte reading" where
  "area_u8 host mem area kind = area_value host mem area kind (ncfg_wire_attr_u8 mem)"

definition area_u16 :: "byte_order \<Rightarrow> bytes \<Rightarrow> wire_attrs \<Rightarrow> 16 word \<Rightarrow> 16 word reading" where
  "area_u16 host mem area kind = area_value host mem area kind (ncfg_wire_attr_u16 host mem)"

definition area_u32 :: "byte_order \<Rightarrow> bytes \<Rightarrow> wire_attrs \<Rightarrow> 16 word \<Rightarrow> 32 word reading" where
  "area_u32 host mem area kind = area_value host mem area kind (ncfg_wire_attr_u32 host mem)"

definition area_be16 :: "byte_order \<Rightarrow> bytes \<Rightarrow> wire_attrs \<Rightarrow> 16 word \<Rightarrow> 16 word reading" where
  "area_be16 host mem area kind =
     (case area_find host mem area kind of
        Inl why \<Rightarrow> Inl why
      | Inr None \<Rightarrow> Inr None
      | Inr (Some attr) \<Rightarrow>
          if wt_length attr < 2 then Inr None
          else
            let v = the (wt_value attr)
            in Inr (Some (push_bit 8 (ucast (mem ! v)) OR ucast (mem ! (v + 1)))))"

definition area_be32 :: "byte_order \<Rightarrow> bytes \<Rightarrow> wire_attrs \<Rightarrow> 16 word \<Rightarrow> 32 word reading" where
  "area_be32 host mem area kind =
     (case area_find host mem area kind of
        Inl why \<Rightarrow> Inl why
      | Inr None \<Rightarrow> Inr None
      | Inr (Some attr) \<Rightarrow>
          if wt_length attr < 4 then Inr None
          else
            let v = the (wt_value attr)
            in Inr (Some (push_bit 24 (ucast (mem ! v)) OR push_bit 16 (ucast (mem ! (v + 1))) OR
                 push_bit 8 (ucast (mem ! (v + 2))) OR ucast (mem ! (v + 3)))))"

definition area_string :: "byte_order \<Rightarrow> bytes \<Rightarrow> wire_attrs \<Rightarrow> 16 word \<Rightarrow> nat \<Rightarrow> bytes reading" where
  "area_string host mem area kind out_size =
     area_value host mem area kind (\<lambda>attr. ncfg_wire_attr_string mem attr out_size)"

definition area_nest :: "byte_order \<Rightarrow> bytes \<Rightarrow> wire_attrs \<Rightarrow> 16 word \<Rightarrow> wire_attrs reading" where
  "area_nest host mem area kind =
     (case area_find host mem area kind of
        Inl why \<Rightarrow> Inl why
      | Inr None \<Rightarrow> Inr None
      | Inr (Some attr) \<Rightarrow> Inr (Some (ncfg_wire_attrs_start (wt_value attr) (wt_length attr))))"

definition ip_absent :: wire_ip where
  "ip_absent = \<lparr>ip_family = AF_UNSPEC, ip_bytes = replicate 16 0\<rparr>"

definition ip_is_unspecified :: "wire_ip \<Rightarrow> bool" where
  "ip_is_unspecified ip = list_all (\<lambda>b. b = 0) (take (if ip_family ip = AF_INET then 4 else 16) (ip_bytes ip))"

definition area_ip :: "byte_order \<Rightarrow> bytes \<Rightarrow> wire_attrs \<Rightarrow> 16 word \<Rightarrow> bool \<Rightarrow> bytes + wire_ip" where
  "area_ip host mem area kind strict =
     (case area_value host mem area kind (ncfg_wire_attr_ip mem) of
        Inl why \<Rightarrow> Inl why
      | Inr None \<Rightarrow> Inr ip_absent
      | Inr (Some ip) \<Rightarrow> Inr (if strict \<and> ip_is_unspecified ip then ip_absent else ip))"

definition area_ip_either :: "byte_order \<Rightarrow> bytes \<Rightarrow> wire_attrs \<Rightarrow> 16 word \<Rightarrow> 16 word \<Rightarrow> bytes + wire_ip" where
  "area_ip_either host mem area first second =
     (case (case area_find host mem area first of
              Inr None \<Rightarrow> area_find host mem area second
            | found \<Rightarrow> found) of
        Inl why \<Rightarrow> Inl why
      | Inr None \<Rightarrow> Inr ip_absent
      | Inr (Some attr) \<Rightarrow>
          (case ncfg_wire_attr_ip mem attr of
             Inl _ \<Rightarrow> Inr ip_absent
           | Inr ip \<Rightarrow> Inr (if ip_is_unspecified ip then ip_absent else ip)))"

subsection \<open>The requests of a dump\<close>

definition ncfg_dump_flags :: "16 word" where
  "ncfg_dump_flags = NLM_F_REQUEST OR NLM_F_DUMP"

definition ncfg_dump_link_request :: "byte_order \<Rightarrow> buf \<Rightarrow> buf \<Rightarrow> buf \<times> buf" where
  "ncfg_dump_link_request host body attrs =
     (ncfg_wire_ifinfo_encode host \<lparr>wi_family = 0, wi_kind = 0, wi_index = 0, wi_flags = 0, wi_change = 0\<rparr> body, attrs)"

definition ncfg_dump_address_request :: "byte_order \<Rightarrow> buf \<Rightarrow> buf \<Rightarrow> buf \<times> buf" where
  "ncfg_dump_address_request host body attrs =
     (ncfg_wire_ifaddr_encode host
        \<lparr>wa_family = 0, wa_prefix_len = 0, wa_flags = 0, wa_scope = 0, wa_index = 0\<rparr> body, attrs)"

definition ncfg_dump_route_request :: "byte_order \<Rightarrow> buf \<Rightarrow> buf \<Rightarrow> buf \<times> buf" where
  "ncfg_dump_route_request host body attrs =
     (ncfg_wire_rtmsg_encode host
        \<lparr>wr_family = 0, wr_dst_len = 0, wr_src_len = 0, wr_tos = 0, wr_table = 0, wr_protocol = 0, wr_scope = 0,
         wr_kind = 0, wr_flags = 0\<rparr> body, attrs)"

definition ncfg_dump_bridge_vlan_request :: "byte_order \<Rightarrow> buf \<Rightarrow> buf \<Rightarrow> buf \<times> buf" where
  "ncfg_dump_bridge_vlan_request host body attrs =
     (ncfg_wire_ifinfo_encode host
        \<lparr>wi_family = AF_BRIDGE, wi_kind = 0, wi_index = 0, wi_flags = 0, wi_change = 0\<rparr> body,
      ncfg_wire_attr_put_u32 host attrs IFLA_EXT_MASK RTEXT_FILTER_BRVLAN)"

definition ncfg_dump_rule_request :: "buf \<Rightarrow> buf \<Rightarrow> buf \<times> buf" where
  "ncfg_dump_rule_request body attrs = (ncfg_buf_add granted body (replicate 12 0), attrs)"

subsection \<open>Addresses\<close>

record address_record =
  ar_index :: "32 word"
  ar_address :: wire_ip
  ar_prefix_len :: byte
  ar_proto :: "byte option"

definition ncfg_dump_address :: "byte_order \<Rightarrow> bytes \<Rightarrow> nat \<Rightarrow> nat \<Rightarrow> bytes + address_record" where
  "ncfg_dump_address host mem payload len =
     (case ncfg_wire_ifaddr_decode host mem payload len of
        Inl err \<Rightarrow> Inl err
      | Inr info \<Rightarrow>
          let area = ncfg_wire_attrs_start (Some (payload + NCFG_WIRE_IFADDR_LEN)) (len - NCFG_WIRE_IFADDR_LEN) in
          (case (case area_find host mem area IFA_LOCAL of
                   Inr None \<Rightarrow> area_find host mem area IFA_ADDRESS
                 | found \<Rightarrow> found) of
             Inl err \<Rightarrow> Inl err
           | Inr None \<Rightarrow> Inl (ascii ''an address message with no address in it'')
           | Inr (Some attr) \<Rightarrow>
               (case ncfg_wire_attr_ip mem attr of
                  Inl _ \<Rightarrow> Inl (ascii ''an address message with no address in it'')
                | Inr ip \<Rightarrow>
                    (case area_u8 host mem area IFA_PROTO of
                       Inl err \<Rightarrow> Inl err
                     | Inr proto \<Rightarrow>
                         Inr \<lparr>ar_index = wa_index info, ar_address = ip, ar_prefix_len = wa_prefix_len info,
                              ar_proto = proto\<rparr>))))"

subsection \<open>Routes\<close>

record route_record =
  rr_index :: "32 word option"
  rr_destination :: wire_ip
  rr_dst_len :: byte
  rr_gateway :: wire_ip
  rr_metric :: "32 word option"
  rr_table :: "32 word"
  rr_prefsrc :: wire_ip
  rr_protocol :: byte
  rr_scope :: byte

definition ncfg_dump_route :: "byte_order \<Rightarrow> bytes \<Rightarrow> nat \<Rightarrow> nat \<Rightarrow> bytes + route_record" where
  "ncfg_dump_route host mem payload len =
     (case ncfg_wire_rtmsg_decode host mem payload len of
        Inl err \<Rightarrow> Inl err
      | Inr info \<Rightarrow>
          let area = ncfg_wire_attrs_start (Some (payload + NCFG_WIRE_RTMSG_LEN)) (len - NCFG_WIRE_RTMSG_LEN) in
          (case area_u32 host mem area RTA_OIF of Inl err \<Rightarrow> Inl err | Inr index \<Rightarrow>
          (case area_ip host mem area RTA_DST False of Inl err \<Rightarrow> Inl err | Inr destination \<Rightarrow>
          (case area_ip host mem area RTA_GATEWAY False of Inl err \<Rightarrow> Inl err | Inr gateway \<Rightarrow>
          (case area_ip host mem area RTA_PREFSRC False of Inl err \<Rightarrow> Inl err | Inr prefsrc \<Rightarrow>
          (case area_u32 host mem area RTA_PRIORITY of Inl err \<Rightarrow> Inl err | Inr metric \<Rightarrow>
          (case area_u32 host mem area RTA_TABLE of Inl err \<Rightarrow> Inl err | Inr table \<Rightarrow>
             Inr \<lparr>rr_index = index, rr_destination = destination, rr_dst_len = wr_dst_len info, rr_gateway = gateway,
                  rr_metric = metric, rr_table = (case table of None \<Rightarrow> ucast (wr_table info) | Some table \<Rightarrow> table),
                  rr_prefsrc = prefsrc, rr_protocol = wr_protocol info, rr_scope = wr_scope info\<rparr>)))))))"

definition NCFG_CIDR_TEXT_MAX :: nat where
  "NCFG_CIDR_TEXT_MAX = NCFG_WIRE_IP_TEXT_MAX + 5"

definition ncfg_address_record_cidr :: "ntop \<Rightarrow> address_record \<Rightarrow> nat \<Rightarrow> bytes + bytes" where
  "ncfg_address_record_cidr ntop r out_size =
     (if out_size < NCFG_CIDR_TEXT_MAX then Inl (ascii ''an address in CIDR needs 51 bytes to be written into'')
      else case ncfg_wire_ip_text ntop (ar_address r) NCFG_WIRE_IP_TEXT_MAX of
        Inl err \<Rightarrow> Inl err
      | Inr plain \<Rightarrow> Inr (snprintf_text out_size (plain @ ascii ''/'' @ decimal (unat (ar_prefix_len r)))))"

definition ncfg_route_record_destination :: "ntop \<Rightarrow> route_record \<Rightarrow> nat \<Rightarrow> bytes + bytes" where
  "ncfg_route_record_destination ntop r out_size =
     (if out_size < NCFG_CIDR_TEXT_MAX then Inl (ascii ''a destination needs 51 bytes to be written into'')
      else if ip_family (rr_destination r) \<noteq> AF_INET \<and> ip_family (rr_destination r) \<noteq> AF_INET6 then
        Inr (snprintf_text out_size (ascii ''default''))
      else case ncfg_wire_ip_text ntop (rr_destination r) NCFG_WIRE_IP_TEXT_MAX of
        Inl err \<Rightarrow> Inl err
      | Inr plain \<Rightarrow> Inr (snprintf_text out_size (plain @ ascii ''/'' @ decimal (unat (rr_dst_len r)))))"

subsection \<open>Rules\<close>

definition NCFG_LINK_NAME_MAX :: nat where
  "NCFG_LINK_NAME_MAX = 16"

definition NCFG_RULE_NAME_MAX :: nat where
  "NCFG_RULE_NAME_MAX = NCFG_LINK_NAME_MAX"

definition NCFG_RULE_HDR_LEN :: nat where
  "NCFG_RULE_HDR_LEN = 12"

record rule_record =
  re_family :: byte
  re_priority :: "32 word"
  re_table :: "32 word"
  re_action :: byte
  re_from :: wire_ip
  re_from_len :: byte
  re_to :: wire_ip
  re_to_len :: byte
  re_iif :: "bytes option"
  re_oif :: "bytes option"
  re_fwmark :: "32 word option"
  re_fwmask :: "32 word option"
  re_suppress_prefixlength :: "32 word option"
  re_l3mdev :: bool
  re_invert :: bool
  re_protocol :: byte

text \<open>\<^verbatim>\<open>rule.c\<close> has its own \<^verbatim>\<open>area_ip\<close>, which says whether the address was there.\<close>

definition rule_area_ip :: "byte_order \<Rightarrow> bytes \<Rightarrow> wire_attrs \<Rightarrow> 16 word \<Rightarrow> wire_ip reading" where
  "rule_area_ip host mem area kind = area_value host mem area kind (ncfg_wire_attr_ip mem)"

definition ncfg_dump_rule :: "byte_order \<Rightarrow> bytes \<Rightarrow> nat \<Rightarrow> nat \<Rightarrow> bytes + rule_record" where
  "ncfg_dump_rule host mem payload len =
     (if len < NCFG_RULE_HDR_LEN then
        Inl (ascii ''a rule message is at least 12 bytes and this one is '' @ decimal len)
      else
        let flags = read_u32 host mem (payload + 8);
            area = ncfg_wire_attrs_start (Some (payload + NCFG_RULE_HDR_LEN)) (len - NCFG_RULE_HDR_LEN)
        in
        (case area_u32 host mem area FRA_PRIORITY of Inl err \<Rightarrow> Inl err | Inr priority \<Rightarrow>
        (case area_u32 host mem area FRA_TABLE of Inl err \<Rightarrow> Inl err | Inr table \<Rightarrow>
        (case rule_area_ip host mem area FRA_SRC of Inl err \<Rightarrow> Inl err | Inr from \<Rightarrow>
        (case rule_area_ip host mem area FRA_DST of Inl err \<Rightarrow> Inl err | Inr to \<Rightarrow>
        (case area_string host mem area FRA_IIFNAME NCFG_RULE_NAME_MAX of Inl err \<Rightarrow> Inl err | Inr iif \<Rightarrow>
        (case area_string host mem area FRA_OIFNAME NCFG_RULE_NAME_MAX of Inl err \<Rightarrow> Inl err | Inr oif \<Rightarrow>
        (case area_u32 host mem area FRA_FWMARK of Inl err \<Rightarrow> Inl err | Inr fwmark \<Rightarrow>
        (case area_u32 host mem area FRA_FWMASK of Inl err \<Rightarrow> Inl err | Inr fwmask \<Rightarrow>
        (case area_u32 host mem area FRA_SUPPRESS_PREFIXLEN of Inl err \<Rightarrow> Inl err | Inr suppress \<Rightarrow>
        (case area_u8 host mem area FRA_L3MDEV of Inl err \<Rightarrow> Inl err | Inr l3mdev \<Rightarrow>
        (case area_u8 host mem area FRA_PROTOCOL of Inl err \<Rightarrow> Inl err | Inr protocol \<Rightarrow>
           Inr \<lparr>re_family = mem ! payload,
                re_priority = (case priority of None \<Rightarrow> 0 | Some priority \<Rightarrow> priority),
                re_table = (case table of None \<Rightarrow> ucast (mem ! (payload + 4)) | Some table \<Rightarrow> table),
                re_action = mem ! (payload + 7),
                re_from = (case from of None \<Rightarrow> ip_absent | Some ip \<Rightarrow> ip),
                re_from_len = (case from of None \<Rightarrow> 0 | Some _ \<Rightarrow> mem ! (payload + 2)),
                re_to = (case to of None \<Rightarrow> ip_absent | Some ip \<Rightarrow> ip),
                re_to_len = (case to of None \<Rightarrow> 0 | Some _ \<Rightarrow> mem ! (payload + 1)),
                re_iif = iif,
                re_oif = oif,
                re_fwmark = fwmark,
                re_fwmask = fwmask,
                re_suppress_prefixlength = (if suppress = Some 0xffffffff then None else suppress),
                re_l3mdev = (l3mdev = Some 1),
                re_invert = (flags AND FIB_RULE_INVERT \<noteq> 0),
                re_protocol = (case protocol of None \<Rightarrow> 0 | Some protocol \<Rightarrow> protocol)\<rparr>))))))))))))"

definition ncfg_rule_record_spec :: "rule_record \<Rightarrow> ops_rule" where
  "ncfg_rule_record_spec r =
     \<lparr>ru_family = re_family r, ru_priority = re_priority r, ru_table = re_table r, ru_action = re_action r,
      ru_from = re_from r, ru_from_len = re_from_len r, ru_to = re_to r, ru_to_len = re_to_len r,
      ru_iif = re_iif r, ru_oif = re_oif r,
      ru_fwmark = map_option ucast (re_fwmark r), ru_fwmask = map_option ucast (re_fwmask r),
      ru_suppress_prefixlength = map_option ucast (re_suppress_prefixlength r),
      ru_l3mdev = re_l3mdev r, ru_invert = re_invert r, ru_protocol = Some (ucast (re_protocol r))\<rparr>"

end
