(* ===== verification/Ncfg_Dump_Link.thy ===== *)
theory Ncfg_Dump_Link
  imports Ncfg_Dump
begin

text \<open>
  Links and the VLANs of a bridge out of a dump, \<^verbatim>\<open>c/src/sys/dump.c\<close>.  What a link carries for one kind is an
  option: the flag \<^verbatim>\<open>has_bond\<close> and the part beside it.  Memory is granted.
\<close>

subsection \<open>What a link carries\<close>

record bond_info =
  bi_mode :: "byte option"
  bi_miimon :: "32 word option"

record bridge_info =
  gi_stp :: bool
  gi_forward_delay :: "32 word option"
  gi_hello_time :: "32 word option"
  gi_ageing_time :: "32 word option"
  gi_priority :: "16 word option"
  gi_vlan_filtering :: bool

record vlan_info =
  vi_id :: "16 word option"
  vi_protocol :: "16 word option"

record vxlan_info =
  xi_id :: "32 word option"
  xi_link :: "32 word option"
  xi_local :: wire_ip
  xi_remote :: wire_ip
  xi_port :: "16 word option"

record tunnel_info =
  ti_local :: wire_ip
  ti_remote :: wire_ip
  ti_ttl :: "byte option"
  ti_key :: "32 word option"

text \<open>A macvlan's part is its mode, itself an option.\<close>

record link_record =
  lr_index :: "32 word"
  lr_name :: bytes
  lr_kind :: bytes
  lr_altnames :: "bytes list"
  lr_up :: bool
  lr_carrier :: bool
  lr_mtu :: "32 word"
  lr_mac :: "bytes option"
  lr_master :: "32 word option"
  lr_parent :: "32 word option"
  lr_bond :: "bond_info option"
  lr_bridge :: "bridge_info option"
  lr_macvlan :: "32 word option option"
  lr_vlan :: "vlan_info option"
  lr_tunnel :: "tunnel_info option"
  lr_vxlan :: "vxlan_info option"
  lr_ipv6_token :: wire_ip

definition NCFG_LINK_KIND_MAX :: nat where
  "NCFG_LINK_KIND_MAX = 64"

definition NCFG_LINK_IFF_UP :: "32 word" where
  "NCFG_LINK_IFF_UP = 1"

text \<open>The loop over the alternative names; the names so far stand before those behind.\<close>

function read_altnames_loop :: "byte_order \<Rightarrow> bytes \<Rightarrow> wire_attrs \<Rightarrow> bytes + bytes list" where
  "read_altnames_loop host mem nest =
     (case ncfg_wire_attrs_next host mem nest of
        (WIRE_END, _) \<Rightarrow> Inr []
      | (WIRE_BAD why, _) \<Rightarrow> Inl why
      | (WIRE_OK attr, nest) \<Rightarrow>
          map_sum id
            (\<lambda>names.
               if wt_kind attr \<noteq> IFLA_ALT_IFNAME then names
               else case ncfg_wire_attr_string mem attr NCFG_WIRE_ALT_IFNAME_MAX of Inl _ \<Rightarrow> names | Inr name \<Rightarrow> name # names)
            (read_altnames_loop host mem nest))"
  by pat_completeness auto
termination
  by (relation "measure (\<lambda>(_, _, nest). ws_remaining nest)") (auto dest: attrs_next_moves [OF sym])

declare read_altnames_loop.simps [simp del]

definition read_altnames :: "byte_order \<Rightarrow> bytes \<Rightarrow> wire_attrs \<Rightarrow> bytes + bytes list" where
  "read_altnames host mem area =
     (case area_nest host mem area IFLA_PROP_LIST of
        Inl err \<Rightarrow> Inl err
      | Inr None \<Rightarrow> Inr []
      | Inr (Some nest) \<Rightarrow> read_altnames_loop host mem nest)"

definition read_bond :: "byte_order \<Rightarrow> bytes \<Rightarrow> wire_attrs \<Rightarrow> bytes + bond_info" where
  "read_bond host mem data =
     (case area_u8 host mem data IFLA_BOND_MODE of Inl err \<Rightarrow> Inl err | Inr mode \<Rightarrow>
     (case area_u32 host mem data IFLA_BOND_MIIMON of Inl err \<Rightarrow> Inl err | Inr miimon \<Rightarrow>
        Inr \<lparr>bi_mode = mode, bi_miimon = miimon\<rparr>))"

definition read_bridge :: "byte_order \<Rightarrow> bytes \<Rightarrow> wire_attrs \<Rightarrow> bytes + bridge_info" where
  "read_bridge host mem data =
     (case area_u32 host mem data IFLA_BR_STP_STATE of Inl err \<Rightarrow> Inl err | Inr state \<Rightarrow>
     (case area_u32 host mem data IFLA_BR_FORWARD_DELAY of Inl err \<Rightarrow> Inl err | Inr forward_delay \<Rightarrow>
     (case area_u32 host mem data IFLA_BR_HELLO_TIME of Inl err \<Rightarrow> Inl err | Inr hello_time \<Rightarrow>
     (case area_u32 host mem data IFLA_BR_AGEING_TIME of Inl err \<Rightarrow> Inl err | Inr ageing_time \<Rightarrow>
     (case area_u16 host mem data IFLA_BR_PRIORITY of Inl err \<Rightarrow> Inl err | Inr priority \<Rightarrow>
     (case area_u8 host mem data IFLA_BR_VLAN_FILTERING of Inl err \<Rightarrow> Inl err | Inr filtering \<Rightarrow>
        Inr \<lparr>gi_stp = (case state of None \<Rightarrow> False | Some state \<Rightarrow> state \<noteq> 0), gi_forward_delay = forward_delay,
             gi_hello_time = hello_time, gi_ageing_time = ageing_time, gi_priority = priority,
             gi_vlan_filtering = (case filtering of None \<Rightarrow> False | Some filtering \<Rightarrow> filtering \<noteq> 0)\<rparr>))))))"

definition read_macvlan :: "byte_order \<Rightarrow> bytes \<Rightarrow> wire_attrs \<Rightarrow> bytes + 32 word option" where
  "read_macvlan host mem data = area_u32 host mem data IFLA_MACVLAN_MODE"

definition read_vlan :: "byte_order \<Rightarrow> bytes \<Rightarrow> wire_attrs \<Rightarrow> bytes + vlan_info" where
  "read_vlan host mem data =
     (case area_u16 host mem data IFLA_VLAN_ID of Inl err \<Rightarrow> Inl err | Inr vid \<Rightarrow>
     (case area_be16 host mem data IFLA_VLAN_PROTOCOL of Inl err \<Rightarrow> Inl err | Inr protocol \<Rightarrow>
        Inr \<lparr>vi_id = vid, vi_protocol = protocol\<rparr>))"

definition read_vxlan :: "byte_order \<Rightarrow> bytes \<Rightarrow> wire_attrs \<Rightarrow> bytes + vxlan_info" where
  "read_vxlan host mem data =
     (case area_u32 host mem data IFLA_VXLAN_ID of Inl err \<Rightarrow> Inl err | Inr vni \<Rightarrow>
     (case area_u32 host mem data IFLA_VXLAN_LINK of Inl err \<Rightarrow> Inl err | Inr link \<Rightarrow>
     (case area_ip_either host mem data IFLA_VXLAN_LOCAL IFLA_VXLAN_LOCAL6 of Inl err \<Rightarrow> Inl err | Inr local \<Rightarrow>
     (case area_ip_either host mem data IFLA_VXLAN_GROUP IFLA_VXLAN_GROUP6 of Inl err \<Rightarrow> Inl err | Inr remote \<Rightarrow>
     (case area_be16 host mem data IFLA_VXLAN_PORT of Inl err \<Rightarrow> Inl err | Inr port \<Rightarrow>
        Inr \<lparr>xi_id = vni, xi_link = link, xi_local = local, xi_remote = remote, xi_port = port\<rparr>)))))"

datatype tunnel_family = TUNNEL_NONE | TUNNEL_GRE | TUNNEL_IP | TUNNEL_GENEVE

definition ncfg_tunnel_family :: "bytes \<Rightarrow> tunnel_family" where
  "ncfg_tunnel_family kind =
     (if kind \<in> {ascii ''gre'', ascii ''gretap'', ascii ''ip6gre''} then TUNNEL_GRE
      else if kind \<in> {ascii ''ipip'', ascii ''sit'', ascii ''ip6tnl''} then TUNNEL_IP
      else if kind = ascii ''geneve'' then TUNNEL_GENEVE
      else TUNNEL_NONE)"

definition NCFG_GRE_KEY_FLAG :: "16 word" where
  "NCFG_GRE_KEY_FLAG = 0x2000"

definition read_tunnel :: "byte_order \<Rightarrow> bytes \<Rightarrow> tunnel_family \<Rightarrow> wire_attrs \<Rightarrow> bytes + tunnel_info" where
  "read_tunnel host mem family data =
     (case family of
        TUNNEL_GRE \<Rightarrow>
          (case area_ip host mem data IFLA_GRE_LOCAL True of Inl err \<Rightarrow> Inl err | Inr local \<Rightarrow>
          (case area_ip host mem data IFLA_GRE_REMOTE True of Inl err \<Rightarrow> Inl err | Inr remote \<Rightarrow>
          (case area_u8 host mem data IFLA_GRE_TTL of Inl err \<Rightarrow> Inl err | Inr ttl \<Rightarrow>
          (case area_be16 host mem data IFLA_GRE_IFLAGS of Inl err \<Rightarrow> Inl err | Inr flags \<Rightarrow>
          (case (case flags of
                   None \<Rightarrow> Inr None
                 | Some flags \<Rightarrow>
                     if flags AND NCFG_GRE_KEY_FLAG \<noteq> 0 then area_be32 host mem data IFLA_GRE_IKEY else Inr None) of
             Inl err \<Rightarrow> Inl err
           | Inr key \<Rightarrow> Inr \<lparr>ti_local = local, ti_remote = remote, ti_ttl = ttl, ti_key = key\<rparr>)))))
      | TUNNEL_IP \<Rightarrow>
          (case area_ip host mem data IFLA_IPTUN_LOCAL True of Inl err \<Rightarrow> Inl err | Inr local \<Rightarrow>
          (case area_ip host mem data IFLA_IPTUN_REMOTE True of Inl err \<Rightarrow> Inl err | Inr remote \<Rightarrow>
          (case area_u8 host mem data IFLA_IPTUN_TTL of Inl err \<Rightarrow> Inl err | Inr ttl \<Rightarrow>
             Inr \<lparr>ti_local = local, ti_remote = remote, ti_ttl = ttl, ti_key = None\<rparr>)))
      | TUNNEL_GENEVE \<Rightarrow>
          (case area_ip_either host mem data IFLA_GENEVE_REMOTE IFLA_GENEVE_REMOTE6 of Inl err \<Rightarrow> Inl err | Inr remote \<Rightarrow>
          (case area_u8 host mem data IFLA_GENEVE_TTL of Inl err \<Rightarrow> Inl err | Inr ttl \<Rightarrow>
          (case area_u32 host mem data IFLA_GENEVE_ID of Inl err \<Rightarrow> Inl err | Inr key \<Rightarrow>
             Inr \<lparr>ti_local = ip_absent, ti_remote = remote, ti_ttl = ttl, ti_key = key\<rparr>)))
      | TUNNEL_NONE \<Rightarrow> Inr \<lparr>ti_local = ip_absent, ti_remote = ip_absent, ti_ttl = None, ti_key = None\<rparr>)"

definition dump_info_data :: "byte_order \<Rightarrow> bytes \<Rightarrow> wire_attrs option \<Rightarrow> wire_attrs reading" where
  "dump_info_data host mem linkinfo =
     (case linkinfo of None \<Rightarrow> Inr None | Some linkinfo \<Rightarrow> area_nest host mem linkinfo IFLA_INFO_DATA)"

subsection \<open>Links\<close>

text \<open>The part of one kind, put into a record.\<close>

definition read_kind :: "byte_order \<Rightarrow> bytes \<Rightarrow> wire_attrs \<Rightarrow> link_record \<Rightarrow> bytes + link_record" where
  "read_kind host mem data r =
     (let kind = lr_kind r; family = ncfg_tunnel_family kind in
      if kind = ascii ''bond'' then map_sum id (\<lambda>i. r\<lparr>lr_bond := Some i\<rparr>) (read_bond host mem data)
      else if kind = ascii ''bridge'' then map_sum id (\<lambda>i. r\<lparr>lr_bridge := Some i\<rparr>) (read_bridge host mem data)
      else if kind = ascii ''macvlan'' then map_sum id (\<lambda>i. r\<lparr>lr_macvlan := Some i\<rparr>) (read_macvlan host mem data)
      else if kind = ascii ''vlan'' then map_sum id (\<lambda>i. r\<lparr>lr_vlan := Some i\<rparr>) (read_vlan host mem data)
      else if kind = ascii ''vxlan'' then map_sum id (\<lambda>i. r\<lparr>lr_vxlan := Some i\<rparr>) (read_vxlan host mem data)
      else if family \<noteq> TUNNEL_NONE then map_sum id (\<lambda>i. r\<lparr>lr_tunnel := Some i\<rparr>) (read_tunnel host mem family data)
      else Inr r)"

text \<open>The token of the \<^verbatim>\<open>AF_INET6\<close> block, two levels down.\<close>

definition read_token :: "byte_order \<Rightarrow> bytes \<Rightarrow> wire_attrs \<Rightarrow> bytes + wire_ip" where
  "read_token host mem area =
     (case area_nest host mem area IFLA_AF_SPEC of
        Inl err \<Rightarrow> Inl err
      | Inr None \<Rightarrow> Inr ip_absent
      | Inr (Some spec) \<Rightarrow>
          (case area_nest host mem spec 10 of
             Inl err \<Rightarrow> Inl err
           | Inr None \<Rightarrow> Inr ip_absent
           | Inr (Some inet6) \<Rightarrow> area_ip host mem inet6 IFLA_INET6_TOKEN True))"

definition read_mac :: "byte_order \<Rightarrow> bytes \<Rightarrow> wire_attrs \<Rightarrow> bytes reading" where
  "read_mac host mem area = area_value host mem area IFLA_ADDRESS (\<lambda>attr. ncfg_wire_attr_mac mem attr NCFG_WIRE_MAC_TEXT_MAX)"

definition ncfg_dump_link :: "byte_order \<Rightarrow> bytes \<Rightarrow> nat \<Rightarrow> nat \<Rightarrow> bytes + link_record" where
  "ncfg_dump_link host mem payload len =
     (case ncfg_wire_ifinfo_decode host mem payload len of
        Inl err \<Rightarrow> Inl err
      | Inr info \<Rightarrow>
          let area = ncfg_wire_attrs_start (Some (payload + NCFG_WIRE_IFINFO_LEN)) (len - NCFG_WIRE_IFINFO_LEN) in
          (case area_string host mem area IFLA_IFNAME NCFG_LINK_NAME_MAX of
             Inl err \<Rightarrow> Inl err
           | Inr None \<Rightarrow> Inl (ascii ''a link message with no name this port can read'')
           | Inr (Some name) \<Rightarrow>
          (case area_u32 host mem area IFLA_MTU of Inl err \<Rightarrow> Inl err | Inr mtu \<Rightarrow>
          (case read_altnames host mem area of Inl err \<Rightarrow> Inl err | Inr altnames \<Rightarrow>
          (case read_mac host mem area of Inl err \<Rightarrow> Inl err | Inr mac \<Rightarrow>
          (case area_u32 host mem area IFLA_MASTER of Inl err \<Rightarrow> Inl err | Inr master \<Rightarrow>
          (case area_u32 host mem area IFLA_LINK of Inl err \<Rightarrow> Inl err | Inr parent \<Rightarrow>
          (case read_token host mem area of Inl err \<Rightarrow> Inl err | Inr token \<Rightarrow>
          (case area_nest host mem area IFLA_LINKINFO of Inl err \<Rightarrow> Inl err | Inr linkinfo \<Rightarrow>
          (case (case linkinfo of None \<Rightarrow> Inr None | Some nest \<Rightarrow> area_string host mem nest IFLA_INFO_KIND NCFG_LINK_KIND_MAX) of
             Inl err \<Rightarrow> Inl err
           | Inr kind \<Rightarrow>
          (case dump_info_data host mem linkinfo of Inl err \<Rightarrow> Inl err | Inr data \<Rightarrow>
             let r = \<lparr>lr_index = (if sint (wi_index info) < 0 then 0 else wi_index info), lr_name = name,
                   lr_kind = (case kind of None \<Rightarrow> [] | Some kind \<Rightarrow> kind), lr_altnames = altnames,
                   lr_up = (wi_flags info AND NCFG_LINK_IFF_UP \<noteq> 0), lr_carrier = True,
                   lr_mtu = (case mtu of None \<Rightarrow> 0 | Some mtu \<Rightarrow> mtu), lr_mac = mac, lr_master = master, lr_parent = None,
                   lr_bond = None, lr_bridge = None, lr_macvlan = None, lr_vlan = None, lr_tunnel = None, lr_vxlan = None,
                   lr_ipv6_token = token\<rparr>
             in (case (case data of None \<Rightarrow> Inr r | Some data \<Rightarrow> read_kind host mem data r) of
                   Inl err \<Rightarrow> Inl err
                 | Inr r \<Rightarrow>
                (case area_u8 host mem area IFLA_CARRIER of Inl err \<Rightarrow> Inl err | Inr carrier \<Rightarrow>
                   Inr (r\<lparr>lr_carrier := (case carrier of None \<Rightarrow> True | Some carrier \<Rightarrow> carrier \<noteq> 0),
                     lr_parent := (case parent of
                         Some parent \<Rightarrow> Some parent
                       | None \<Rightarrow> (case lr_vxlan r of None \<Rightarrow> None | Some vxlan \<Rightarrow> xi_link vxlan))\<rparr>))))))))))))))"

subsection \<open>The VLANs of a bridge\<close>

record vlan_record =
  vr_index :: "32 word"
  vr_vid :: "16 word"
  vr_pvid :: bool
  vr_untagged :: bool

definition vlan_key :: "vlan_record \<Rightarrow> nat \<times> nat \<times> bool \<times> bool" where
  "vlan_key r = (unat (vr_index r), unat (vr_vid r), vr_pvid r, vr_untagged r)"

text \<open>\<^verbatim>\<open>qsort\<close> with \<^verbatim>\<open>compare_vlans\<close>: records that compare equal are equal, so the order is one.\<close>

definition sort_vlans :: "vlan_record list \<Rightarrow> vlan_record list" where
  "sort_vlans rs = sort_key vlan_key rs"

definition vlan_range :: "vlan_record \<Rightarrow> vlan_record \<Rightarrow> vlan_record list" where
  "vlan_range start r = map (\<lambda>vid. start\<lparr>vr_vid := of_nat vid\<rparr>) [unat (vr_vid start)..<Suc (unat (vr_vid r))]"

text \<open>The loop: the start of a range that is open, and the records so far.\<close>

function bridge_vlans_loop ::
  "byte_order \<Rightarrow> bytes \<Rightarrow> 32 word \<Rightarrow> wire_attrs \<Rightarrow> vlan_record option \<Rightarrow> vlan_record list \<Rightarrow> bytes + vlan_record list" where
  "bridge_vlans_loop host mem index spec start out =
     (case ncfg_wire_attrs_next host mem spec of
        (WIRE_END, _) \<Rightarrow> Inr (case start of None \<Rightarrow> out | Some start \<Rightarrow> out @ [start])
      | (WIRE_BAD why, _) \<Rightarrow> Inl why
      | (WIRE_OK attr, spec) \<Rightarrow>
          if wt_kind attr \<noteq> IFLA_BRIDGE_VLAN_INFO \<or> wt_length attr < 4 then bridge_vlans_loop host mem index spec start out
          else
            let v = the (wt_value attr);
                flags = read_u16 host mem v;
                r = \<lparr>vr_index = index, vr_vid = read_u16 host mem (v + 2), vr_pvid = (flags AND BRIDGE_VLAN_INFO_PVID \<noteq> 0),
                     vr_untagged = (flags AND BRIDGE_VLAN_INFO_UNTAGGED \<noteq> 0)\<rparr>
            in if flags AND BRIDGE_VLAN_INFO_RANGE_BEGIN \<noteq> 0 then bridge_vlans_loop host mem index spec (Some r) out
               else
                 (case (if flags AND BRIDGE_VLAN_INFO_RANGE_END \<noteq> 0 then start else None) of
                    Some start \<Rightarrow> bridge_vlans_loop host mem index spec None (out @ vlan_range start r)
                  | None \<Rightarrow> bridge_vlans_loop host mem index spec start (out @ [r])))"
  by pat_completeness auto
termination
  by (relation "measure (\<lambda>(_, _, _, spec, _). ws_remaining spec)") (auto dest: attrs_next_moves [OF sym])

declare bridge_vlans_loop.simps [simp del]

definition ncfg_dump_bridge_vlans :: "byte_order \<Rightarrow> bytes \<Rightarrow> nat \<Rightarrow> nat \<Rightarrow> bytes + vlan_record list" where
  "ncfg_dump_bridge_vlans host mem payload len =
     (case ncfg_wire_ifinfo_decode host mem payload len of
        Inl err \<Rightarrow> Inl err
      | Inr info \<Rightarrow>
          let area = ncfg_wire_attrs_start (Some (payload + NCFG_WIRE_IFINFO_LEN)) (len - NCFG_WIRE_IFINFO_LEN);
              index = (if sint (wi_index info) < 0 then 0 else wi_index info)
          in (case area_nest host mem area IFLA_AF_SPEC of
                Inl err \<Rightarrow> Inl err
              | Inr None \<Rightarrow> Inr []
              | Inr (Some spec) \<Rightarrow> map_sum id sort_vlans (bridge_vlans_loop host mem index spec None [])))"

end
