(* ===== verification/Ncfg_Dump_Safe.thy ===== *)
theory Ncfg_Dump_Safe
  imports Ncfg_Dump_Link Ncfg_Wire_Props
begin

text \<open>
  The readers of a dump stay inside the payload they are given.  An area that lies in memory is searched the
  same whatever stands behind that memory, what is found in it lies in it, and a nest found in it lies in it;
  so that every reader, however deep it goes, gives one answer.
\<close>

subsection \<open>Areas and attributes that lie in memory\<close>

definition within :: "bytes \<Rightarrow> wire_attrs \<Rightarrow> bool" where
  "within mem area \<longleftrightarrow> ws_remaining area = 0 \<or> the (ws_rest area) + ws_remaining area \<le> length mem"

definition attr_within :: "bytes \<Rightarrow> wire_attr \<Rightarrow> bool" where
  "attr_within mem a \<longleftrightarrow> (\<exists>v. wt_value a = Some v \<and> v + wt_length a \<le> length mem)"

lemma next_value: "ncfg_wire_attrs_next host mem w = (WIRE_OK a, w') \<Longrightarrow> wt_value a = Some (the (wt_value a))"
  by (auto simp: ncfg_wire_attrs_next_def Let_def split: if_splits)

lemma next_within:
  assumes "within mem w"
  shows "ncfg_wire_attrs_next host (mem @ extra) w = ncfg_wire_attrs_next host mem w"
    and "ncfg_wire_attrs_next host mem w = (WIRE_OK a, w') \<Longrightarrow> attr_within mem a \<and> within mem w'"
proof -
  show "ncfg_wire_attrs_next host (mem @ extra) w = ncfg_wire_attrs_next host mem w"
    by (rule attrs.agrees) (use assms in \<open>simp add: within_def\<close>)
  assume n: "ncfg_wire_attrs_next host mem w = (WIRE_OK a, w')"
  note k = attrs.step_ok [OF n]
  moreover have "0 < ws_remaining w" using k by (auto simp: NCFG_WIRE_RTATTR_HDR_LEN_def)
  ultimately show "attr_within mem a \<and> within mem w'"
    using assms next_value [OF n] by (auto simp: within_def attr_within_def)
qed

lemma walked_within: "walked (ncfg_wire_attrs_next host mem) w xs e \<Longrightarrow> within mem w \<Longrightarrow> list_all (attr_within mem) xs"
  by (induction rule: walked.induct) (auto dest: next_within(2))

lemma find_within:
  assumes "within mem area"
  shows "ncfg_wire_attrs_find host (mem @ extra) area kind = ncfg_wire_attrs_find host mem area kind"
    and "ncfg_wire_attrs_find host mem area kind = WIRE_OK a \<Longrightarrow> attr_within mem a"
proof -
  obtain xs e where w: "walked (ncfg_wire_attrs_next host mem) area xs e" using attrs.walk_ends by blast
  have w': "walked (ncfg_wire_attrs_next host (mem @ extra)) area xs e"
    using attrs.walked_agrees [OF w] assms by (simp add: within_def)
  show "ncfg_wire_attrs_find host (mem @ extra) area kind = ncfg_wire_attrs_find host mem area kind"
    unfolding find_walked [OF w] find_walked [OF w'] ..
  assume "ncfg_wire_attrs_find host mem area kind = WIRE_OK a"
  then have "a \<in> set xs" unfolding find_walked [OF w] by (auto simp: find_Some_iff split: option.splits)
  with walked_within [OF w assms] show "attr_within mem a" by (auto simp: list_all_iff)
qed

lemma area_find_within:
  assumes "within mem area"
  shows "area_find host (mem @ extra) area k = area_find host mem area k"
    and "area_find host mem area k = Inr (Some a) \<Longrightarrow> attr_within mem a"
  using find_within [OF assms] by (auto simp: area_find_def split: wire_step.splits)

lemma area_value_within:
  assumes "within mem area" and "\<And>a. attr_within mem a \<Longrightarrow> reader' a = reader a"
  shows "area_value host (mem @ extra) area k reader' = area_value host mem area k reader"
  using area_find_within [OF assms(1), of host] assms(2)
  by (auto simp: area_value_def split: sum.split option.split)

lemma values_within:
  assumes "attr_within mem a"
  shows "ncfg_wire_attr_u8 (mem @ extra) a = ncfg_wire_attr_u8 mem a"
    "ncfg_wire_attr_u16 host (mem @ extra) a = ncfg_wire_attr_u16 host mem a"
    "ncfg_wire_attr_u32 host (mem @ extra) a = ncfg_wire_attr_u32 host mem a"
    "ncfg_wire_attr_string (mem @ extra) a n = ncfg_wire_attr_string mem a n"
    "ncfg_wire_attr_ip (mem @ extra) a = ncfg_wire_attr_ip mem a"
    "ncfg_wire_attr_mac (mem @ extra) a n = ncfg_wire_attr_mac mem a n"
proof -
  obtain v where v: "wt_value a = Some v" "v + wt_length a \<le> length mem" using assms by (auto simp: attr_within_def)
  have s: "slice v (v + m) (mem @ extra) = slice v (v + m) mem" if "m \<le> wt_length a" for m
    using v that by (intro slice_appended) simp
  show "ncfg_wire_attr_u8 (mem @ extra) a = ncfg_wire_attr_u8 mem a"
    using v by (simp add: ncfg_wire_attr_u8_def nth_append)
  show "ncfg_wire_attr_u16 host (mem @ extra) a = ncfg_wire_attr_u16 host mem a"
    using v by (simp add: ncfg_wire_attr_u16_def read_appended)
  show "ncfg_wire_attr_u32 host (mem @ extra) a = ncfg_wire_attr_u32 host mem a"
    using v by (simp add: ncfg_wire_attr_u32_def read_appended)
  show "ncfg_wire_attr_string (mem @ extra) a n = ncfg_wire_attr_string mem a n"
    using v by (simp add: ncfg_wire_attr_string_def s)
  show "ncfg_wire_attr_ip (mem @ extra) a = ncfg_wire_attr_ip mem a"
    using v s [of 4] s [of 16] by (simp add: ncfg_wire_attr_ip_def Let_def)
  show "ncfg_wire_attr_mac (mem @ extra) a n = ncfg_wire_attr_mac mem a n"
    using v by (auto simp: ncfg_wire_attr_mac_def nth_append intro!: arg_cong [where f = concat] map_cong)
qed

lemma area_within:
  assumes "within mem area"
  shows "area_u8 host (mem @ extra) area k = area_u8 host mem area k"
    "area_u16 host (mem @ extra) area k = area_u16 host mem area k"
    "area_u32 host (mem @ extra) area k = area_u32 host mem area k"
    "area_string host (mem @ extra) area k n = area_string host mem area k n"
    "rule_area_ip host (mem @ extra) area k = rule_area_ip host mem area k"
    "area_ip host (mem @ extra) area k strict = area_ip host mem area k strict"
    "read_mac host (mem @ extra) area = read_mac host mem area"
  unfolding area_u8_def area_u16_def area_u32_def area_string_def rule_area_ip_def area_ip_def read_mac_def
  by (simp_all add: area_value_within [OF assms] values_within cong: area_value_within [OF assms])

lemma area_be_within:
  assumes "within mem area"
  shows "area_be16 host (mem @ extra) area k = area_be16 host mem area k"
    "area_be32 host (mem @ extra) area k = area_be32 host mem area k"
    "area_ip_either host (mem @ extra) area k k' = area_ip_either host mem area k k'"
proof -
  have bytes: "(mem @ extra) ! (the (wt_value a) + i) = mem ! (the (wt_value a) + i)"
    if "area_find host mem area k = Inr (Some a)" "i < wt_length a" for a i
    using area_find_within(2) [OF assms that(1)] that(2) by (auto simp: attr_within_def nth_append)
  note near = bytes [where i = 0, simplified] bytes [where i = 1, simplified] bytes [where i = 2, simplified]
  show "area_be16 host (mem @ extra) area k = area_be16 host mem area k"
    "area_be32 host (mem @ extra) area k = area_be32 host mem area k"
    unfolding area_be16_def area_be32_def area_find_within(1) [OF assms]
    by (auto simp: Let_def near bytes split: sum.split option.split)
  have "ncfg_wire_attr_ip (mem @ extra) a = ncfg_wire_attr_ip mem a" if "area_find host mem area j = Inr (Some a)" for a j
    using values_within(5) area_find_within(2) [OF assms that] .
  then show "area_ip_either host (mem @ extra) area k k' = area_ip_either host mem area k k'"
    unfolding area_ip_either_def area_find_within(1) [OF assms]
    by (auto split: sum.split option.split)
qed

lemma start_within: "p + n \<le> length mem \<Longrightarrow> within mem (ncfg_wire_attrs_start (Some p) n)"
  by (simp add: within_def ncfg_wire_attrs_start_def)

lemma area_nest_within:
  assumes "within mem area"
  shows "area_nest host (mem @ extra) area k = area_nest host mem area k"
    and "area_nest host mem area k = Inr (Some nest) \<Longrightarrow> within mem nest"
proof -
  show "area_nest host (mem @ extra) area k = area_nest host mem area k"
    by (simp add: area_nest_def area_find_within(1) [OF assms])
  assume "area_nest host mem area k = Inr (Some nest)"
  then obtain a where a: "area_find host mem area k = Inr (Some a)" "nest = ncfg_wire_attrs_start (wt_value a) (wt_length a)"
    by (auto simp: area_nest_def split: sum.splits option.splits)
  from area_find_within(2) [OF assms a(1)] a(2) show "within mem nest" by (auto simp: attr_within_def start_within)
qed

subsection \<open>The readers\<close>

lemma altnames_loop_within:
  "within mem nest \<Longrightarrow> read_altnames_loop host (mem @ extra) nest = read_altnames_loop host mem nest"
proof (induction host mem nest rule: read_altnames_loop.induct)
  case (1 host mem nest)
  obtain r w where r: "ncfg_wire_attrs_next host mem nest = (r, w)" by fastforce
  show ?case
  proof (cases r)
    case (WIRE_OK a)
    note n = next_within(2) [OF "1.prems" r [unfolded WIRE_OK]]
    have "read_altnames_loop host (mem @ extra) w = read_altnames_loop host mem w"
      by (rule "1.IH" [OF r [symmetric] WIRE_OK]) (use n in simp)
    moreover have "ncfg_wire_attr_string (mem @ extra) a k = ncfg_wire_attr_string mem a k" for k
      using n by (intro values_within(4)) simp
    ultimately show ?thesis
      unfolding read_altnames_loop.simps [of host _ nest] next_within(1) [OF "1.prems"] r WIRE_OK by (simp only: prod.case wire_step.case)
  qed (use r in \<open>(subst (1 2) read_altnames_loop.simps; simp add: next_within(1) [OF "1.prems"])+\<close>)
qed

lemma bridge_vlans_loop_within:
  "within mem spec \<Longrightarrow> bridge_vlans_loop host (mem @ extra) index spec start out = bridge_vlans_loop host mem index spec start out"
proof (induction host mem index spec start out rule: bridge_vlans_loop.induct)
  case (1 host mem index spec start out)
  obtain r w where r: "ncfg_wire_attrs_next host mem spec = (r, w)" by fastforce
  show ?case
  proof (cases r)
    case (WIRE_OK a)
    note n = next_within(2) [OF "1.prems" r [unfolded WIRE_OK]]
    then obtain v where v: "wt_value a = Some v" "v + wt_length a \<le> length mem" by (auto simp: attr_within_def)
    have reads: "read_u16 host (mem @ extra) v = read_u16 host mem v" "read_u16 host (mem @ extra) (v + 2) = read_u16 host mem (v + 2)"
      if "\<not> wt_length a < 4" using v that by (simp_all add: read_appended)
    note IH = "1.IH" [OF r [symmetric] WIRE_OK]
    show ?thesis
    proof (cases "wt_kind a \<noteq> IFLA_BRIDGE_VLAN_INFO \<or> wt_length a < 4")
      case True
      with IH(1) r WIRE_OK n show ?thesis
        by (subst (1 2) bridge_vlans_loop.simps) (simp add: next_within(1) [OF "1.prems"])
    next
      case False
      with IH(2-4) r WIRE_OK n v reads show ?thesis
        by (subst (1 2) bridge_vlans_loop.simps, cases start) (simp_all add: next_within(1) [OF "1.prems"] Let_def)
    qed
  qed (use r in \<open>(subst (1 2) bridge_vlans_loop.simps; simp add: next_within(1) [OF "1.prems"])+\<close>)
qed

lemma nested_within:
  assumes "within mem area"
  shows "read_altnames host (mem @ extra) area = read_altnames host mem area"
    "read_token host (mem @ extra) area = read_token host mem area"
    "map_option (within mem) linkinfo \<noteq> Some False \<Longrightarrow> dump_info_data host (mem @ extra) linkinfo = dump_info_data host mem linkinfo"
proof -
  note nest = area_nest_within [OF assms, of host]
  show "read_altnames host (mem @ extra) area = read_altnames host mem area"
    using nest by (auto simp: read_altnames_def altnames_loop_within split: sum.split option.splits)
  have "area_ip host (mem @ extra) inet6 k b = area_ip host mem inet6 k b"
    if "area_nest host mem area i = Inr (Some spec)" "area_nest host mem spec j = Inr (Some inet6)" for spec inet6 i j k b
    using area_within(6) [OF area_nest_within(2) [OF nest(2) [OF that(1)] that(2)]] .
  then show "read_token host (mem @ extra) area = read_token host mem area"
    using nest area_nest_within(1) [of mem _ host] by (auto simp: read_token_def split: sum.split option.splits)
qed (use area_nest_within(1) in \<open>auto simp: dump_info_data_def split: option.splits\<close>)

lemma read_kind_within:
  assumes "within mem data"
  shows "read_kind host (mem @ extra) data r = read_kind host mem data r"
proof -
  note w = area_within [OF assms] area_be_within [OF assms]
  have t: "read_tunnel host (mem @ extra) family data = read_tunnel host mem family data" for family
    unfolding read_tunnel_def w ..
  show ?thesis
    unfolding read_kind_def read_bond_def read_bridge_def read_macvlan_def read_vlan_def read_vxlan_def w t ..
qed

subsection \<open>The structures in front of the attributes\<close>

lemma structs_within:
  assumes "payload + len \<le> length mem"
  shows "ncfg_wire_ifinfo_decode host (mem @ extra) payload len = ncfg_wire_ifinfo_decode host mem payload len"
    "ncfg_wire_ifaddr_decode host (mem @ extra) payload len = ncfg_wire_ifaddr_decode host mem payload len"
    "ncfg_wire_rtmsg_decode host (mem @ extra) payload len = ncfg_wire_rtmsg_decode host mem payload len"
  using assms
  by (auto simp: ncfg_wire_ifinfo_decode_def ncfg_wire_ifaddr_decode_def ncfg_wire_rtmsg_decode_def NCFG_WIRE_IFINFO_LEN_def
      NCFG_WIRE_IFADDR_LEN_def NCFG_WIRE_RTMSG_LEN_def read_appended nth_append)

lemma payload_area:
  assumes "payload + len \<le> length mem" and "n \<le> len"
  shows "within mem (ncfg_wire_attrs_start (Some (payload + n)) (len - n))"
  by (rule start_within) (use assms in simp)

lemma decoded_length:
  "ncfg_wire_ifinfo_decode host mem payload len = Inr info \<Longrightarrow> NCFG_WIRE_IFINFO_LEN \<le> len"
  "ncfg_wire_ifaddr_decode host mem payload len = Inr ifaddr \<Longrightarrow> NCFG_WIRE_IFADDR_LEN \<le> len"
  "ncfg_wire_rtmsg_decode host mem payload len = Inr rtmsg \<Longrightarrow> NCFG_WIRE_RTMSG_LEN \<le> len"
  by (auto simp: ncfg_wire_ifinfo_decode_def ncfg_wire_ifaddr_decode_def ncfg_wire_rtmsg_decode_def split: if_splits)

lemma dump_address_within:
  assumes "payload + len \<le> length mem"
  shows "ncfg_dump_address host (mem @ extra) payload len = ncfg_dump_address host mem payload len"
proof (cases "ncfg_wire_ifaddr_decode host mem payload len")
  case (Inr info)
  note area = payload_area [OF assms decoded_length(2) [OF Inr]]
  have ip: "ncfg_wire_attr_ip (mem @ extra) a = ncfg_wire_attr_ip mem a"
    if "area_find host mem (ncfg_wire_attrs_start (Some (payload + NCFG_WIRE_IFADDR_LEN)) (len - NCFG_WIRE_IFADDR_LEN)) k = Inr (Some a)"
    for k a
    using area_find_within(2) [OF area that] by (rule values_within(5))
  show ?thesis
    unfolding ncfg_dump_address_def structs_within [OF assms] area_find_within(1) [OF area] area_within [OF area] Let_def Inr sum.case
    by (auto dest: ip split: sum.split option.split)
qed (simp add: ncfg_dump_address_def structs_within [OF assms])

lemma dump_route_within:
  assumes "payload + len \<le> length mem"
  shows "ncfg_dump_route host (mem @ extra) payload len = ncfg_dump_route host mem payload len"
proof (cases "ncfg_wire_rtmsg_decode host mem payload len")
  case (Inr info)
  note area = payload_area [OF assms decoded_length(3) [OF Inr]]
  show ?thesis unfolding ncfg_dump_route_def structs_within [OF assms] area_within [OF area] Let_def ..
qed (simp add: ncfg_dump_route_def structs_within [OF assms])

lemma dump_rule_within:
  assumes "payload + len \<le> length mem"
  shows "ncfg_dump_rule host (mem @ extra) payload len = ncfg_dump_rule host mem payload len"
proof (cases "len < NCFG_RULE_HDR_LEN")
  case False
  then have len: "NCFG_RULE_HDR_LEN \<le> len" by simp
  note area = payload_area [OF assms len]
  have reads: "(mem @ extra) ! payload = mem ! payload" "(mem @ extra) ! (payload + 1) = mem ! (payload + 1)"
    "(mem @ extra) ! (payload + 2) = mem ! (payload + 2)" "(mem @ extra) ! (payload + 4) = mem ! (payload + 4)"
    "(mem @ extra) ! (payload + 7) = mem ! (payload + 7)"
    "read_u32 host (mem @ extra) (payload + 8) = read_u32 host mem (payload + 8)"
    using assms len by (simp_all add: NCFG_RULE_HDR_LEN_def nth_append read_appended)
  show ?thesis unfolding ncfg_dump_rule_def Let_def area_within [OF area] reads ..
qed (simp add: ncfg_dump_rule_def)

lemma dump_link_within:
  assumes "payload + len \<le> length mem"
  shows "ncfg_dump_link host (mem @ extra) payload len = ncfg_dump_link host mem payload len"
proof (cases "ncfg_wire_ifinfo_decode host mem payload len")
  case (Inr info)
  define area where "area = ncfg_wire_attrs_start (Some (payload + NCFG_WIRE_IFINFO_LEN)) (len - NCFG_WIRE_IFINFO_LEN)"
  note area = payload_area [OF assms decoded_length(1) [OF Inr], folded area_def]
  note nest = area_nest_within [OF area, of host]
  show ?thesis
  proof (cases "area_nest host mem area IFLA_LINKINFO")
    case Inl: (Inl err)
    show ?thesis
      unfolding ncfg_dump_link_def structs_within [OF assms] Inr sum.case Let_def area_def [symmetric] area_within [OF area]
        nested_within(1,2) [OF area] nest(1) Inl ..
  next
    case linkinfo: (Inr linkinfo)
    have inside: "within mem n" if "linkinfo = Some n" for n using nest(2) linkinfo that by simp
    have kind: "(case linkinfo of None \<Rightarrow> Inr None | Some n \<Rightarrow> area_string host (mem @ extra) n IFLA_INFO_KIND NCFG_LINK_KIND_MAX) =
        (case linkinfo of None \<Rightarrow> Inr None | Some n \<Rightarrow> area_string host mem n IFLA_INFO_KIND NCFG_LINK_KIND_MAX)"
      using inside area_within(4) by (cases linkinfo) auto
    have info: "dump_info_data host (mem @ extra) linkinfo = dump_info_data host mem linkinfo"
      by (rule nested_within(3) [OF area]) (use inside in \<open>cases linkinfo; simp\<close>)
    have data: "(case d of None \<Rightarrow> Inr r | Some data \<Rightarrow> read_kind host (mem @ extra) data r) =
        (case d of None \<Rightarrow> Inr r | Some data \<Rightarrow> read_kind host mem data r)" if "dump_info_data host mem linkinfo = Inr d" for d r
      using that inside area_nest_within(2) by (cases linkinfo; cases d) (auto simp: dump_info_data_def read_kind_within)
    show ?thesis
    proof (cases "dump_info_data host mem linkinfo")
      case (Inl err)
      show ?thesis
        unfolding ncfg_dump_link_def structs_within [OF assms] Inr sum.case Let_def area_def [symmetric] area_within [OF area]
          nested_within(1,2) [OF area] nest(1) linkinfo kind info Inl ..
    next
      case d: (Inr d)
      show ?thesis
        unfolding ncfg_dump_link_def structs_within [OF assms] Inr sum.case Let_def area_def [symmetric] area_within [OF area]
          nested_within(1,2) [OF area] nest(1) linkinfo kind info d data [OF d] ..
    qed
  qed
qed (simp add: ncfg_dump_link_def structs_within [OF assms])

lemma dump_bridge_vlans_within:
  assumes "payload + len \<le> length mem"
  shows "ncfg_dump_bridge_vlans host (mem @ extra) payload len = ncfg_dump_bridge_vlans host mem payload len"
proof (cases "ncfg_wire_ifinfo_decode host mem payload len")
  case (Inr info)
  note area = payload_area [OF assms decoded_length(1) [OF Inr]]
  show ?thesis
    unfolding ncfg_dump_bridge_vlans_def structs_within [OF assms] area_nest_within(1) [OF area] Let_def
    using area_nest_within(2) [OF area, of host IFLA_AF_SPEC]
    by (auto simp: bridge_vlans_loop_within split: sum.split option.split)
qed (simp add: ncfg_dump_bridge_vlans_def structs_within [OF assms])

text \<open>
  C27.  No reader of a dump looks past the payload it was given: whatever stands behind the payload of a link,
  an address, a route, a rule or a bridge's VLANs, and whatever lengths the attributes and the nests inside it
  claim, the reader gives the answer it gives on memory that ends there.
\<close>

theorem dumps_confined:
  "ncfg_dump_link host (pre @ payload @ extra) (length pre) (length payload) =
     ncfg_dump_link host (pre @ payload) (length pre) (length payload) \<and>
   ncfg_dump_address host (pre @ payload @ extra) (length pre) (length payload) =
     ncfg_dump_address host (pre @ payload) (length pre) (length payload) \<and>
   ncfg_dump_route host (pre @ payload @ extra) (length pre) (length payload) =
     ncfg_dump_route host (pre @ payload) (length pre) (length payload) \<and>
   ncfg_dump_rule host (pre @ payload @ extra) (length pre) (length payload) =
     ncfg_dump_rule host (pre @ payload) (length pre) (length payload) \<and>
   ncfg_dump_bridge_vlans host (pre @ payload @ extra) (length pre) (length payload) =
     ncfg_dump_bridge_vlans host (pre @ payload) (length pre) (length payload)"
proof -
  have m: "pre @ payload @ extra = (pre @ payload) @ extra" and l: "length pre + length payload \<le> length (pre @ payload)" by simp_all
  show ?thesis
    unfolding m dump_link_within [OF l] dump_address_within [OF l] dump_route_within [OF l] dump_rule_within [OF l]
      dump_bridge_vlans_within [OF l] by simp
qed

end
