(* ===== verification/Ncfg_Dump_Props.thy ===== *)
theory Ncfg_Dump_Props
  imports Ncfg_Dump Ncfg_Wire_Props
begin

text \<open>
  What is built is what is read.  A message is built as a family struct and a list of attributes
  (\<open>put_attrs\<close>), and every reader of \<open>Ncfg_Dump\<close> answers, over such a message, from the list alone
  (\<open>lookup\<close>): the bytes between are gone.  The properties then compare a builder with a reader as two
  functions of a list.
\<close>

subsection \<open>Attributes that were written\<close>

definition lookup :: "(16 word \<times> bytes) list \<Rightarrow> 16 word \<Rightarrow> bytes option" where
  "lookup as k = map_of (map (\<lambda>(k, v). (k AND 0x3fff, v)) as) k"

definition sendable :: "(16 word \<times> bytes) list \<Rightarrow> bool" where
  "sendable as = list_all (\<lambda>(k, v). length v \<le> 65531) as"

definition written :: "byte_order \<Rightarrow> bytes \<Rightarrow> nat \<Rightarrow> (16 word \<times> bytes) list \<Rightarrow> bool" where
  "written host mem at as \<longleftrightarrow> (\<exists>rest. drop at mem = attrs_text host as @ rest) \<and> sendable as"

definition area_of :: "byte_order \<Rightarrow> nat \<Rightarrow> (16 word \<times> bytes) list \<Rightarrow> wire_attrs" where
  "area_of host at as = \<lparr>ws_rest = Some at, ws_remaining = length (attrs_text host as)\<rparr>"

definition attr_at :: "bytes \<Rightarrow> wire_attr \<Rightarrow> bytes \<Rightarrow> bool" where
  "attr_at mem a v \<longleftrightarrow> (\<exists>p rest. wt_value a = Some p \<and> wt_length a = length v \<and> drop p mem = v @ rest)"

lemma lookup_simps [simp]:
  "lookup [] k = None"
  "lookup ((k', v) # as) k = (if k' AND 0x3fff = k then Some v else lookup as k)"
  "lookup (as @ bs) k = (case lookup as k of None \<Rightarrow> lookup bs k | Some v \<Rightarrow> Some v)"
  "lookup (if c then as else bs) k = (if c then lookup as k else lookup bs k)"
  by (auto simp: lookup_def map_add_def split: option.split)

lemma sendable_simps [simp]:
  "sendable []"
  "sendable ((k, v) # as) \<longleftrightarrow> length v \<le> 65531 \<and> sendable as"
  "sendable (as @ bs) \<longleftrightarrow> sendable as \<and> sendable bs"
  "sendable (if c then as else bs) \<longleftrightarrow> (if c then sendable as else sendable bs)"
  by (simp_all add: sendable_def)

lemma attrs_text_Cons: "attrs_text host ((k, v) # as) = attr_text host k v @ attrs_text host as"
  by (simp add: attrs_text_def)

lemma find_place:
  assumes "drop at mem = attrs_text host as @ rest" "sendable as"
  shows "rel_option (attr_at mem) (find (\<lambda>a. wt_kind a = k) (attr_places host at as)) (lookup as k)"
  using assms
proof (induction as arbitrary: at)
  case (Cons a as)
  obtain k' v where a: "a = (k', v)" by fastforce
  have d: "drop at mem = attr_text host k' v @ attrs_text host as @ rest" using Cons.prems(1) by (simp add: a attrs_text_Cons)
  note t = attr_text_read [OF d]
  have v: "length v \<le> 65531" and as: "sendable as" using Cons.prems(2) by (simp_all add: a)
  have "drop (at + 4) mem = v @ replicate (padding (length v)) 0 @ attrs_text host as @ rest"
    using drop_further [of at mem "native host (le_bytes 2 (4 + length v)) @ native host (le_bytes 2 (unat k'))" _ 4] d
    by (simp add: attr_text_def)
  then have "attr_at mem \<lparr>wt_kind = k' AND 0x3fff, wt_value = Some (at + 4), wt_length = length v\<rparr> v"
    by (simp add: attr_at_def)
  with Cons.IH [OF t(4) [OF v] as] show ?case by (auto simp: a)
qed simp

lemma area_find_written:
  assumes "written host mem at as"
  obtains x where "area_find host mem (area_of host at as) k = Inr x" "rel_option (attr_at mem) x (lookup as k)"
proof -
  from assms obtain rest where d: "drop at mem = attrs_text host as @ rest" and s: "sendable as" by (auto simp: written_def)
  have "walked (ncfg_wire_attrs_next host mem) (area_of host at as) (attr_places host at as) None"
    unfolding area_of_def using attrs_walked [OF d] s by (simp add: sendable_def)
  from find_walked [OF this, of k]
  have "area_find host mem (area_of host at as) k = Inr (find (\<lambda>a. wt_kind a = k) (attr_places host at as))"
    by (simp add: area_find_def split: option.split)
  with find_place [OF d s, of k] show ?thesis by (intro that)
qed

definition read_as :: "bytes + 'a \<Rightarrow> 'a option" where
  "read_as r = (case r of Inl _ \<Rightarrow> None | Inr x \<Rightarrow> Some x)"

lemma area_value_written:
  assumes "written host mem at as" and "\<And>a v. attr_at mem a v \<Longrightarrow> read_as (reader a) = R v"
  shows "area_value host mem (area_of host at as) k reader = Inr (Option.bind (lookup as k) R)"
proof -
  obtain x where x: "area_find host mem (area_of host at as) k = Inr x" "rel_option (attr_at mem) x (lookup as k)"
    using area_find_written [OF assms(1)] .
  show ?thesis
  proof (cases "lookup as k")
    case None
    with x show ?thesis by (simp add: area_value_def)
  next
    case (Some v)
    with x obtain a where a: "x = Some a" "attr_at mem a v" by (auto simp: option_rel_Some2)
    have "area_value host mem (area_of host at as) k reader = Inr (read_as (reader a))"
      using x(1) a(1) by (simp add: area_value_def read_as_def split: sum.split)
    then show ?thesis using assms(2) [OF a(2)] Some by simp
  qed
qed

subsection \<open>What each reader makes of a value\<close>

definition u8_of :: "bytes \<Rightarrow> byte option" where
  "u8_of v = (if v = [] then None else Some (hd v))"

definition u16_of :: "byte_order \<Rightarrow> bytes \<Rightarrow> 16 word option" where
  "u16_of host v = (if length v < 2 then None else Some (of_nat (le_value (native host (take 2 v)))))"

definition u32_of :: "byte_order \<Rightarrow> bytes \<Rightarrow> 32 word option" where
  "u32_of host v = (if length v < 4 then None else Some (of_nat (le_value (native host (take 4 v)))))"

definition string_of :: "nat \<Rightarrow> bytes \<Rightarrow> bytes option" where
  "string_of n v = (if length (cstr v) < n \<and> is_utf8 (cstr v) 0 then Some (cstr v) else None)"

definition ip_of :: "bytes \<Rightarrow> wire_ip option" where
  "ip_of v =
     (if length v = 4 then Some \<lparr>ip_family = AF_INET, ip_bytes = v @ replicate 12 0\<rparr>
      else if length v = 16 then Some \<lparr>ip_family = AF_INET6, ip_bytes = v\<rparr>
      else None)"

lemma attr_atE:
  assumes "attr_at mem a v"
  obtains p rest where "wt_value a = Some p" "wt_length a = length v" "drop p mem = v @ rest"
  using assms by (auto simp: attr_at_def)

lemma slice_at: "drop p mem = v @ rest \<Longrightarrow> n \<le> length v \<Longrightarrow> slice p (p + n) mem = take n v"
  by (simp add: slice_def)

lemma read_values:
  assumes "attr_at mem a v"
  shows "read_as (ncfg_wire_attr_u8 mem a) = u8_of v"
    and "read_as (ncfg_wire_attr_u16 host mem a) = u16_of host v"
    and "read_as (ncfg_wire_attr_u32 host mem a) = u32_of host v"
    and "0 < n \<Longrightarrow> read_as (ncfg_wire_attr_string mem a n) = string_of n v"
    and "read_as (ncfg_wire_attr_ip mem a) = ip_of v"
proof -
  obtain p rest where p [simp]: "wt_value a = Some p" "wt_length a = length v" and d: "drop p mem = v @ rest"
    using assms by (rule attr_atE)
  note sl = slice_at [OF d]
  have "v \<noteq> [] \<Longrightarrow> mem ! p = hd v" using nth_at [OF d, of 0] by (simp add: hd_conv_nth)
  then show "read_as (ncfg_wire_attr_u8 mem a) = u8_of v"
    by (cases v) (simp_all add: read_as_def u8_of_def ncfg_wire_attr_u8_def)
  show "read_as (ncfg_wire_attr_u16 host mem a) = u16_of host v"
    using sl [of 2] by (simp add: read_as_def u16_of_def ncfg_wire_attr_u16_def read_u16_def)
  show "read_as (ncfg_wire_attr_u32 host mem a) = u32_of host v"
    using sl [of 4] by (simp add: read_as_def u32_of_def ncfg_wire_attr_u32_def read_u32_def)
  show "0 < n \<Longrightarrow> read_as (ncfg_wire_attr_string mem a n) = string_of n v"
    using sl [of "length v"] by (auto simp: read_as_def string_of_def ncfg_wire_attr_string_def Let_def)
  show "read_as (ncfg_wire_attr_ip mem a) = ip_of v"
    using sl [of "length v"] by (auto simp: read_as_def ip_of_def ncfg_wire_attr_ip_def Let_def)
qed

lemma written_area:
  assumes "written host mem at as"
  shows "area_u8 host mem (area_of host at as) k = Inr (Option.bind (lookup as k) u8_of)"
    and "area_u16 host mem (area_of host at as) k = Inr (Option.bind (lookup as k) (u16_of host))"
    and "area_u32 host mem (area_of host at as) k = Inr (Option.bind (lookup as k) (u32_of host))"
    and "0 < n \<Longrightarrow> area_string host mem (area_of host at as) k n = Inr (Option.bind (lookup as k) (string_of n))"
    and "rule_area_ip host mem (area_of host at as) k = Inr (Option.bind (lookup as k) ip_of)"
    and "area_ip host mem (area_of host at as) k strict =
      Inr (case Option.bind (lookup as k) ip_of of None \<Rightarrow> ip_absent
        | Some ip \<Rightarrow> if strict \<and> ip_is_unspecified ip then ip_absent else ip)"
  unfolding area_u8_def area_u16_def area_u32_def area_string_def rule_area_ip_def area_ip_def
  by (simp_all add: area_value_written [OF assms] read_values split: option.split)

subsection \<open>Values that were written\<close>

definition u32_value :: "byte_order \<Rightarrow> 32 word \<Rightarrow> bytes" where
  "u32_value host v = native host (le_bytes 4 (unat v))"

definition u16_value :: "byte_order \<Rightarrow> 16 word \<Rightarrow> bytes" where
  "u16_value host v = native host (le_bytes 2 (unat v))"

definition ip_value :: "wire_ip \<Rightarrow> bytes" where
  "ip_value ip = take (if ip_family ip = AF_INET then 4 else 16) (ip_bytes ip)"

text \<open>An address as the wire module makes them: sixteen bytes, zero behind the four of an IPv4 address.\<close>

definition ip_whole :: "wire_ip \<Rightarrow> bool" where
  "ip_whole ip \<longleftrightarrow> ncfg_ops_ip_present ip \<and> length (ip_bytes ip) = 16 \<and>
     (ip_family ip = AF_INET \<longrightarrow> drop 4 (ip_bytes ip) = replicate 12 0)"

definition ip_field :: "wire_ip \<Rightarrow> bool" where
  "ip_field ip \<longleftrightarrow> ip = ip_absent \<or> ip_whole ip"

lemma values_back [simp]:
  "u32_of host (u32_value host w) = Some w" "length (u32_value host w) = 4"
  "u16_of host (u16_value host h) = Some h" "length (u16_value host h) = 2"
  "u8_of [b] = Some b"
  using unat_less [of w] unat_less [of h]
  by (simp_all add: u32_of_def u32_value_def u16_of_def u16_value_def u8_of_def le_value_bytes)

lemma ip_value_back:
  assumes "ip_whole ip"
  shows "ip_of (ip_value ip) = Some ip" "length (ip_value ip) \<le> 16"
proof -
  have "ip_bytes ip = take 4 (ip_bytes ip) @ replicate 12 0" if "ip_family ip = AF_INET"
    using assms that append_take_drop_id [of 4 "ip_bytes ip"] by (simp add: ip_whole_def)
  then show "ip_of (ip_value ip) = Some ip"
    using assms by (cases ip) (auto simp: ip_whole_def ip_value_def ip_of_def ncfg_ops_ip_present_def AF_INET_def AF_INET6_def)
  show "length (ip_value ip) \<le> 16" by (simp add: ip_value_def min_le_iff_disj)
qed

lemma ip_absent_not_present [simp]: "\<not> ncfg_ops_ip_present ip_absent"
  by (simp add: ncfg_ops_ip_present_def ip_absent_def AF_UNSPEC_def AF_INET_def AF_INET6_def)

lemma ip_field_present: "ip_field ip \<Longrightarrow> ncfg_ops_ip_present ip \<longleftrightarrow> ip_whole ip"
  by (auto simp: ip_field_def ip_whole_def)

subsection \<open>Requests that were built\<close>

lemma put_attrs_simps [simp]:
  "put_attrs host out [] = out"
  "put_attrs host out ((k, v) # as) = put_attrs host (ncfg_wire_attr_put host out k v) as"
  "put_attrs host out (as @ bs) = put_attrs host (put_attrs host out as) bs"
  "put_attrs host out (if c then as else bs) = (if c then put_attrs host out as else put_attrs host out bs)"
  by (simp_all add: put_attrs_def)

lemma put_values:
  "ncfg_ops_ip_present ip \<Longrightarrow> ncfg_wire_attr_put_ip host out k (Some ip) = ncfg_wire_attr_put host out k (ip_value ip)"
  "ncfg_wire_attr_put_u32 host out k w = ncfg_wire_attr_put host out k (u32_value host w)"
  "ncfg_wire_attr_put_u8 host out k b = ncfg_wire_attr_put host out k [b]"
  "ncfg_wire_attr_put_str host out k (Some s) = ncfg_wire_attr_put host out k (cstr s @ [0])"
  by (auto simp: ncfg_wire_attr_put_ip_def ncfg_ops_ip_present_def ip_value_def ncfg_wire_attr_put_u32_def u32_value_def
      ncfg_wire_attr_put_u8_def ncfg_wire_attr_put_str_def ncfg_wire_attr_put_def)

lemma put_attrs_sendable:
  assumes "holds L out cs" "4 dvd length cs" "L \<le> SIZE_MAX - 3" "sendable as"
  shows "holds L (put_attrs host out as) (cs @ attrs_text host as)"
  using assms
proof (induction as arbitrary: out cs)
  case Nil
  then show ?case by (simp add: attrs_text_def)
next
  case (Cons a as)
  obtain k v where a: "a = (k, v)" by fastforce
  have "holds L (ncfg_wire_attr_put host out k v) (cs @ attr_text host k v)"
    using Cons.prems by (intro holds_attr_put) (simp_all add: a)
  with Cons.IH [of "ncfg_wire_attr_put host out k v" "cs @ attr_text host k v"] Cons.prems show ?case
    by (simp add: a attrs_text_Cons attr_text_aligned)
qed

lemma attrs_text_le: "sendable as \<Longrightarrow> length (attrs_text host as) \<le> 65540 * length as"
proof (induction as)
  case (Cons a as)
  obtain k v where a: "a = (k, v)" by fastforce
  have "padding (length v) \<le> 3" unfolding padding_def by presburger
  with Cons show ?case by (simp add: a attrs_text_Cons length_attr_text)
qed (simp add: attrs_text_def)

lemma init_holds: "holds DEFAULT_LIMIT (ncfg_buf_init 0) []"
  by (simp add: holds_def buf_inv_init init_fields)

text \<open>A message built from a struct and attributes, of which there are not hundreds, and what is in it.\<close>

definition request_of :: "byte_order \<Rightarrow> 16 word \<Rightarrow> 16 word \<Rightarrow> 32 word \<Rightarrow> bytes \<Rightarrow> (16 word \<times> bytes) list \<Rightarrow> buf \<Rightarrow> bool" where
  "request_of host kind flags seq body as out \<longleftrightarrow>
     (let mem = ncfg_buf_text out; n = length body + length (attrs_text host as) in
      ncfg_wire_messages_next host mem (ncfg_wire_messages_start (Some 0) (length mem)) =
        (WIRE_OK \<lparr>wg_header = \<lparr>wh_len = of_nat (length mem), wh_kind = kind, wh_flags = flags, wh_seq = seq, wh_pid = 0\<rparr>,
                  wg_payload = 16, wg_payload_length = n\<rparr>,
         \<lparr>wm_rest = Some (length mem), wm_remaining = 0\<rparr>) \<and>
      drop 16 mem = body @ attrs_text host as \<and> length mem = 16 + n)"

lemma build_request_ok:
  assumes "holds DEFAULT_LIMIT body bs" "4 dvd length bs" "length bs \<le> 16" "sendable as" "length as \<le> 200"
  shows "\<exists>out. ncfg_wire_build_request host (ncfg_buf_init 0) kind flags seq (Some body)
      (Some (put_attrs host (ncfg_buf_init 0) as)) = (None, out) \<and> request_of host kind flags seq bs as out"
proof -
  let ?attrs = "put_attrs host (ncfg_buf_init 0) as" and ?t = "attrs_text host as"
  let ?n = "16 + length bs + length ?t"
  have lim: "DEFAULT_LIMIT \<le> SIZE_MAX - 3" by (simp add: DEFAULT_LIMIT_def SIZE_MAX_def)
  have small: "?n \<le> DEFAULT_LIMIT"
    using attrs_text_le [OF assms(4), of host] assms(3,5) by (simp add: DEFAULT_LIMIT_def)
  have a: "holds DEFAULT_LIMIT ?attrs ?t" using put_attrs_sendable [OF init_holds _ lim assms(4)] by simp
  have b: "\<not> bfailed body" "buf_contents body = bs" "\<not> bfailed ?attrs" "buf_contents ?attrs = ?t"
    "blength body = length bs" "blength ?attrs = length ?t"
    using assms(1) a small by (auto simp: holds_def buf_inv_def)
  define h where "h = \<lparr>wh_len = of_nat ?n, wh_kind = kind, wh_flags = flags, wh_seq = seq, wh_pid = (0 :: 32 word)\<rparr>"
  define out where "out = (let out = ncfg_wire_header_encode host h (ncfg_buf_init 0);
         out = (if bs \<noteq> [] then pad_to_align (ncfg_buf_add granted out bs) else out)
     in if ?t \<noteq> [] then ncfg_buf_add granted out ?t else out)"
  have pad: "padding (length bs) = 0" using padding_aligned [OF assms(2), of 0] by (simp add: padding_def)
  have o: "holds DEFAULT_LIMIT out (request_text host h bs ?t)"
    unfolding out_def by (rule request_holds [OF init_holds lim])
  have len: "length (request_text host h bs ?t) = ?n" by (simp add: length_request_text pad)
  from o small have "\<not> bfailed out" "buf_contents out = request_text host h bs ?t" by (auto simp: holds_def len)
  then have out: "\<not> ncfg_buf_failed out" "ncfg_buf_text out = request_text host h bs ?t"
    by (simp_all add: ncfg_buf_failed_def buf_text_contents)
  have al: "ncfg_wire_align4 (length bs) = length bs" by (rule align4_id [OF assms(2)])
  have "?n mod (SIZE_MAX + 1) = ?n" using small by (simp add: DEFAULT_LIMIT_def SIZE_MAX_def)
  moreover have "\<not> 0xffffffff < ?n" using small by (simp add: DEFAULT_LIMIT_def)
  ultimately have built: "ncfg_wire_build_request host (ncfg_buf_init 0) kind flags seq (Some body) (Some ?attrs) = (None, out)"
    using b out(1) unfolding out_def h_def ncfg_wire_build_request_def
    by (simp add: ncfg_buf_failed_def Let_def al NCFG_WIRE_NLMSG_HDR_LEN_def add.assoc)
  have "?n < 2 ^ 32" using small by (simp add: DEFAULT_LIMIT_def)
  from request_walked [OF len this] have "request_of host kind flags seq bs as out"
    unfolding request_of_def out(2) Let_def len by (simp add: h_def request_text_def pad length_header_text)
  with built show ?thesis by blast
qed

text \<open>The message a request is, for whoever takes it apart.\<close>

definition carries :: "byte_order \<Rightarrow> buf \<Rightarrow> 16 word \<Rightarrow> 16 word \<Rightarrow> 32 word \<Rightarrow> wire_message \<Rightarrow> bool" where
  "carries host out kind flags seq m \<longleftrightarrow>
     walked (ncfg_wire_messages_next host (ncfg_buf_text out))
       (ncfg_wire_messages_start (Some 0) (length (ncfg_buf_text out))) [m] None \<and>
     wh_kind (wg_header m) = kind \<and> wh_flags (wg_header m) = flags \<and> wh_seq (wg_header m) = seq \<and>
     wg_payload m + wg_payload_length m = length (ncfg_buf_text out)"

lemma request_carries:
  assumes "request_of host kind flags seq body as out"
  shows "\<exists>m. carries host out kind flags seq m \<and> wg_payload m = 16 \<and>
    wg_payload_length m = length body + length (attrs_text host as)"
proof -
  let ?mem = "ncfg_buf_text out" and ?n = "length body + length (attrs_text host as)"
  let ?m = "\<lparr>wg_header = \<lparr>wh_len = of_nat (length ?mem), wh_kind = kind, wh_flags = flags, wh_seq = seq, wh_pid = 0\<rparr>,
    wg_payload = 16, wg_payload_length = ?n\<rparr>"
  note r = assms [unfolded request_of_def Let_def]
  have "walked (ncfg_wire_messages_next host ?mem) \<lparr>wm_rest = Some (length ?mem), wm_remaining = 0\<rparr> [] None"
    by (subst walked_iff) (simp add: ncfg_wire_messages_next_def)
  with walked_ok [where step = "ncfg_wire_messages_next host ?mem", OF conjunct1 [OF r]] have "carries host out kind flags seq ?m"
    using r by (simp only: carries_def) simp
  then show ?thesis by (intro exI [of _ ?m]) simp
qed

text \<open>What every builder comes to: the message, its struct, and its attributes where the readers look.\<close>

definition built_message ::
  "byte_order \<Rightarrow> 16 word \<Rightarrow> 16 word \<Rightarrow> 32 word \<Rightarrow> bytes \<Rightarrow> (16 word \<times> bytes) list \<Rightarrow> buf \<Rightarrow> wire_message \<Rightarrow> bool" where
  "built_message host kind flags seq bs as out m \<longleftrightarrow>
     carries host out kind flags seq m \<and> wg_payload m = 16 \<and>
     wg_payload_length m = length bs + length (attrs_text host as) \<and>
     drop 16 (ncfg_buf_text out) = bs @ attrs_text host as \<and>
     written host (ncfg_buf_text out) (16 + length bs) as"

lemma request_built:
  assumes "holds DEFAULT_LIMIT body bs" "4 dvd length bs" "length bs \<le> 16" "sendable as" "length as \<le> 200"
  obtains out m where
    "ncfg_wire_build_request host (ncfg_buf_init 0) kind flags seq (Some body)
      (Some (put_attrs host (ncfg_buf_init 0) as)) = (None, out)"
    "built_message host kind flags seq bs as out m"
proof -
  from build_request_ok [OF assms, of host kind flags seq] obtain out where
    out: "ncfg_wire_build_request host (ncfg_buf_init 0) kind flags seq (Some body)
      (Some (put_attrs host (ncfg_buf_init 0) as)) = (None, out)" and r: "request_of host kind flags seq bs as out" by blast
  from request_carries [OF r] obtain m where m: "carries host out kind flags seq m" "wg_payload m = 16"
    "wg_payload_length m = length bs + length (attrs_text host as)" by blast
  have d: "drop 16 (ncfg_buf_text out) = bs @ attrs_text host as @ []" using r by (simp add: request_of_def Let_def)
  from drop_further [OF d refl] assms(4) have "written host (ncfg_buf_text out) (16 + length bs) as"
    by (auto simp: written_def)
  with m d have "built_message host kind flags seq bs as out m" by (simp add: built_message_def)
  with out show ?thesis by (rule that)
qed

lemma built_area:
  "built_message host kind flags seq bs as out m \<Longrightarrow> length bs = n \<Longrightarrow>
   ncfg_wire_attrs_start (Some (wg_payload m + n)) (wg_payload_length m - n) = area_of host (16 + n) as"
  by (simp add: built_message_def ncfg_wire_attrs_start_def area_of_def)

lemma message_written: "built_message host kind flags seq bs as out m \<Longrightarrow> length bs = n \<Longrightarrow> written host (ncfg_buf_text out) (16 + n) as"
  by (auto simp: built_message_def)

context wire_struct
begin

lemma struct_request:
  assumes "4 dvd width" "width \<le> 16" "sendable as" "length as \<le> 200"
  obtains out m where
    "ncfg_wire_build_request host (ncfg_buf_init 0) kind flags seq (Some (encode r (ncfg_buf_init 0)))
      (Some (put_attrs host (ncfg_buf_init 0) as)) = (None, out)"
    "built_message host kind flags seq (image r) as out m"
    "decode (ncfg_buf_text out) (wg_payload m) (wg_payload_length m) = Inr r"
proof -
  have h: "holds DEFAULT_LIMIT (encode r (ncfg_buf_init 0)) (image r)" using encode_image [OF init_holds] by simp
  have w: "4 dvd length (image r)" "length (image r) \<le> 16" using assms(1,2) by (simp_all add: image_width)
  obtain out m where o: "ncfg_wire_build_request host (ncfg_buf_init 0) kind flags seq (Some (encode r (ncfg_buf_init 0)))
      (Some (put_attrs host (ncfg_buf_init 0) as)) = (None, out)" and m: "built_message host kind flags seq (image r) as out m"
    using request_built [OF h w assms(3,4)] .
  have "decode (ncfg_buf_text out) (wg_payload m) (wg_payload_length m) = Inr r"
    using m decode_image [of "wg_payload m" "ncfg_buf_text out" r "attrs_text host as" "wg_payload_length m"]
    by (simp add: built_message_def image_width)
  with o m show ?thesis by (rule that)
qed

end

lemma lens:
  "4 dvd NCFG_WIRE_IFINFO_LEN" "NCFG_WIRE_IFINFO_LEN \<le> 16" "4 dvd NCFG_WIRE_IFADDR_LEN" "NCFG_WIRE_IFADDR_LEN \<le> 16"
  "4 dvd NCFG_WIRE_RTMSG_LEN" "NCFG_WIRE_RTMSG_LEN \<le> 16"
  by (simp_all add: NCFG_WIRE_IFINFO_LEN_def NCFG_WIRE_IFADDR_LEN_def NCFG_WIRE_RTMSG_LEN_def)

subsection \<open>Addresses\<close>

definition address_attrs :: "wire_ip \<Rightarrow> byte option \<Rightarrow> (16 word \<times> bytes) list" where
  "address_attrs address proto =
     [(IFA_LOCAL, ip_value address), (IFA_ADDRESS, ip_value address)] @
     (case proto of None \<Rightarrow> [] | Some proto \<Rightarrow> [(IFA_PROTO, [proto])])"

lemma area_find_ip:
  assumes "written host mem at as" "lookup as k = Some (ip_value ip)" "ip_whole ip"
  obtains attr where "area_find host mem (area_of host at as) k = Inr (Some attr)" "ncfg_wire_attr_ip mem attr = Inr ip"
proof -
  obtain x where x: "area_find host mem (area_of host at as) k = Inr x" "rel_option (attr_at mem) x (lookup as k)"
    using area_find_written [OF assms(1)] .
  with assms(2) obtain a where a: "x = Some a" "attr_at mem a (ip_value ip)" by (auto simp: option_rel_Some2)
  from read_values(5) [OF a(2)] ip_value_back(1) [OF assms(3)] have "ncfg_wire_attr_ip mem a = Inr ip"
    by (simp add: read_as_def split: sum.splits)
  with x(1) a(1) show ?thesis by (intro that) simp
qed

lemma address_requested:
  assumes "ip_whole address"
  shows "\<exists>out m. address_request host (ncfg_buf_init 0) kind flags seq index address prefix_len proto = (None, out) \<and>
    carries host out kind flags seq m \<and>
    ncfg_dump_address host (ncfg_buf_text out) (wg_payload m) (wg_payload_length m) =
      Inr \<lparr>ar_index = index, ar_address = address, ar_prefix_len = prefix_len, ar_proto = proto\<rparr>"
proof -
  let ?as = "address_attrs address proto"
  let ?h = "\<lparr>wa_family = ncfg_ops_family_byte address, wa_prefix_len = prefix_len, wa_flags = 0, wa_scope = 0, wa_index = index\<rparr>"
  have present: "ncfg_ops_ip_present address" using assms by (simp add: ip_whole_def)
  have s: "sendable ?as" "length ?as \<le> 200"
    using ip_value_back(2) [OF assms] by (auto simp: address_attrs_def split: option.split)
  obtain out m where out: "ncfg_wire_build_request host (ncfg_buf_init 0) kind flags seq
      (Some (ncfg_wire_ifaddr_encode host ?h (ncfg_buf_init 0))) (Some (put_attrs host (ncfg_buf_init 0) ?as)) = (None, out)"
    and m: "built_message host kind flags seq (ifaddr_text host ?h) ?as out m"
    and d: "ncfg_wire_ifaddr_decode host (ncfg_buf_text out) (wg_payload m) (wg_payload_length m) = Inr ?h"
    using ifaddr.struct_request [OF lens(3,4) s] .
  have built: "address_request host (ncfg_buf_init 0) kind flags seq index address prefix_len proto = (None, out)"
    using out present by (simp add: address_request_def address_attrs_def put_values split: option.splits)
  have len: "length (ifaddr_text host ?h) = NCFG_WIRE_IFADDR_LEN" by (rule ifaddr.image_width)
  note w = message_written [OF m len] and area = built_area [OF m len]
  have "lookup ?as IFA_LOCAL = Some (ip_value address)" by (simp add: address_attrs_def)
  from area_find_ip [OF w this assms] obtain attr where
    f: "area_find host (ncfg_buf_text out) (area_of host (16 + NCFG_WIRE_IFADDR_LEN) ?as) IFA_LOCAL = Inr (Some attr)"
      "ncfg_wire_attr_ip (ncfg_buf_text out) attr = Inr address" .
  have "Option.bind (lookup ?as IFA_PROTO) u8_of = proto" by (simp add: address_attrs_def split: option.split)
  with d area f written_area(1) [OF w, of IFA_PROTO]
  have "ncfg_dump_address host (ncfg_buf_text out) (wg_payload m) (wg_payload_length m) =
      Inr \<lparr>ar_index = index, ar_address = address, ar_prefix_len = prefix_len, ar_proto = proto\<rparr>"
    by (simp add: ncfg_dump_address_def)
  with built m show ?thesis by (auto simp: built_message_def)
qed

subsection \<open>Numbers\<close>

definition number :: "32 word \<Rightarrow> optint \<Rightarrow> 32 word" where
  "number fallback v = (case v of None \<Rightarrow> fallback | Some v \<Rightarrow> ucast v)"

definition in_range :: "int \<Rightarrow> optint \<Rightarrow> bool" where
  "in_range ceiling v = (case v of None \<Rightarrow> True | Some v \<Rightarrow> 0 \<le> sint v \<and> sint v \<le> ceiling)"

lemma narrow_or_Inr: "in_range ceiling v \<Longrightarrow> narrow_or fallback v ceiling what = Inr (number fallback v)"
  by (auto simp: narrow_or_def ncfg_ops_narrow_def number_def in_range_def split: option.splits)

lemma narrow_or_Inl: "\<not> in_range ceiling v \<Longrightarrow> \<exists>err. narrow_or fallback v ceiling what = Inl err"
  by (auto simp: narrow_or_def ncfg_ops_narrow_def in_range_def split: option.splits)

lemma small_number:
  assumes "0 \<le> sint (v :: 64 word)" "sint v \<le> UINT32_MAX"
  shows "ucast (ucast v :: 32 word) = v"
proof -
  have "uint (word_of_int (sint v) :: 64 word) = sint v"
    using assms(1) sint_lt [of v] by (simp only: uint_word_of_int) simp
  then have "uint v = sint v" by simp
  then have "uint v < 2 ^ 32" using assms(2) by (simp add: UINT32_MAX_def)
  then show ?thesis by (simp add: word_uint_eq_iff unsigned_ucast_eq take_bit_eq_mod uint_mod)
qed

lemma range_back: "in_range UINT32_MAX v \<Longrightarrow> map_option (ucast :: 32 word \<Rightarrow> 64 word) (map_option ucast v) = v"
  by (cases v) (simp_all add: in_range_def small_number)

lemma number_some: "v \<noteq> None \<Longrightarrow> number d v = ucast (the v)"
  by (auto simp: number_def)

lemma byte_back: "w \<le> 255 \<Longrightarrow> ucast (ucast (w :: 32 word) :: byte) = w"
  by (simp add: word_unat_eq_iff unsigned_ucast_eq take_bit_eq_mod word_le_nat_alt unat_mod)

subsection \<open>Routes\<close>

definition route_list :: "byte_order \<Rightarrow> ops_route \<Rightarrow> (16 word \<times> bytes) list" where
  "route_list host route =
     (if ncfg_ops_ip_present (ro_destination route) then [(RTA_DST, ip_value (ro_destination route))] else []) @
     (if ncfg_ops_ip_present (ro_gateway route) then [(RTA_GATEWAY, ip_value (ro_gateway route))] else []) @
     [(RTA_OIF, u32_value host (ro_index route))] @
     (if ro_metric route \<noteq> None then [(RTA_PRIORITY, u32_value host (number 0 (ro_metric route)))] else []) @
     (if ncfg_ops_ip_present (ro_source route) then [(RTA_PREFSRC, ip_value (ro_source route))] else []) @
     (if 255 < number NCFG_ROUTE_MAIN_TABLE (ro_table route)
      then [(RTA_TABLE, u32_value host (number NCFG_ROUTE_MAIN_TABLE (ro_table route)))] else [])"

lemma route_attrs_list:
  "route_attrs host route (number NCFG_ROUTE_MAIN_TABLE (ro_table route)) (number 0 (ro_metric route)) =
   put_attrs host (ncfg_buf_init 0) (route_list host route)"
  by (simp add: route_attrs_def route_list_def put_ip_if_def put_u32_if_def put_values Let_def)

definition route_ok :: "ops_route \<Rightarrow> bool" where
  "route_ok route \<longleftrightarrow> ip_field (ro_destination route) \<and> ip_field (ro_gateway route) \<and> ip_field (ro_source route) \<and>
     in_range UINT32_MAX (ro_table route) \<and> in_range UINT8_MAX (ro_proto route) \<and> in_range UINT32_MAX (ro_metric route)"

text \<open>The record a route is read as.\<close>

definition route_seen :: "ops_route \<Rightarrow> route_record" where
  "route_seen route =
     \<lparr>rr_index = Some (ro_index route), rr_destination = ro_destination route,
      rr_dst_len = (if ncfg_ops_ip_present (ro_destination route) then ro_dst_len route else 0),
      rr_gateway = ro_gateway route, rr_metric = map_option ucast (ro_metric route),
      rr_table = number NCFG_ROUTE_MAIN_TABLE (ro_table route), rr_prefsrc = ro_source route,
      rr_protocol = ucast (number NCFG_WIRE_RTPROT_NETCFGD (ro_proto route)),
      rr_scope = (if ncfg_ops_ip_present (ro_gateway route) then RT_SCOPE_UNIVERSE else RT_SCOPE_LINK)\<rparr>"

lemma ip_value_short: "length (ip_value ip) \<le> 16"
  by (simp add: ip_value_def min_le_iff_disj)

lemma ip_value_fits [simp]: "length (ip_value ip) \<le> 65531"
  using ip_value_short [of ip] by simp

lemma area_ip_back:
  assumes "written host mem at as" "ip_field ip"
    "lookup as k = (if ncfg_ops_ip_present ip then Some (ip_value ip) else None)"
  shows "area_ip host mem (area_of host at as) k False = Inr ip"
    "rule_area_ip host mem (area_of host at as) k = Inr (if ncfg_ops_ip_present ip then Some ip else None)"
  using assms(2,3) ip_field_present [OF assms(2)] ip_value_back(1) [of ip]
  by (auto simp: written_area [OF assms(1)] ip_field_def)

lemma route_lookups:
  "Option.bind (lookup (route_list host route) RTA_OIF) (u32_of host) = Some (ro_index route)"
  "Option.bind (lookup (route_list host route) RTA_PRIORITY) (u32_of host) = map_option ucast (ro_metric route)"
  "Option.bind (lookup (route_list host route) RTA_TABLE) (u32_of host) =
     (if 255 < number NCFG_ROUTE_MAIN_TABLE (ro_table route) then Some (number NCFG_ROUTE_MAIN_TABLE (ro_table route)) else None)"
  "lookup (route_list host route) RTA_DST =
     (if ncfg_ops_ip_present (ro_destination route) then Some (ip_value (ro_destination route)) else None)"
  "lookup (route_list host route) RTA_GATEWAY =
     (if ncfg_ops_ip_present (ro_gateway route) then Some (ip_value (ro_gateway route)) else None)"
  "lookup (route_list host route) RTA_PREFSRC =
     (if ncfg_ops_ip_present (ro_source route) then Some (ip_value (ro_source route)) else None)"
  by (auto simp: route_list_def number_def)

lemma route_requested:
  assumes "route_ok route"
  shows "\<exists>out m. route_request host (ncfg_buf_init 0) kind flags seq route = (None, out) \<and>
    carries host out kind flags seq m \<and>
    ncfg_dump_route host (ncfg_buf_text out) (wg_payload m) (wg_payload_length m) = Inr (route_seen route)"
proof -
  let ?t = "number NCFG_ROUTE_MAIN_TABLE (ro_table route)" and ?p = "number NCFG_WIRE_RTPROT_NETCFGD (ro_proto route)"
  let ?as = "route_list host route" and ?h = "route_header route ?t ?p"
  note ok = assms [unfolded route_ok_def]
  have s: "sendable ?as" "length ?as \<le> 200" by (simp_all add: route_list_def)
  obtain out m where out: "ncfg_wire_build_request host (ncfg_buf_init 0) kind flags seq
      (Some (ncfg_wire_rtmsg_encode host ?h (ncfg_buf_init 0))) (Some (put_attrs host (ncfg_buf_init 0) ?as)) = (None, out)"
    and m: "built_message host kind flags seq (rtmsg_text host ?h) ?as out m"
    and d: "ncfg_wire_rtmsg_decode host (ncfg_buf_text out) (wg_payload m) (wg_payload_length m) = Inr ?h"
    using rtmsg.struct_request [OF lens(5,6) s] .
  have built: "route_request host (ncfg_buf_init 0) kind flags seq route = (None, out)"
    using out ok by (simp add: route_request_def narrow_or_Inr route_attrs_list)
  have len: "length (rtmsg_text host ?h) = NCFG_WIRE_RTMSG_LEN" by (rule rtmsg.image_width)
  have "\<not> 255 < ?t \<Longrightarrow> ucast (ucast ?t :: byte) = ?t" using byte_back [of ?t] by simp
  moreover note ips = area_ip_back(1) [OF message_written [OF m len]]
  have "area_ip host (ncfg_buf_text out) (area_of host (16 + NCFG_WIRE_RTMSG_LEN) ?as) RTA_DST False = Inr (ro_destination route)"
    "area_ip host (ncfg_buf_text out) (area_of host (16 + NCFG_WIRE_RTMSG_LEN) ?as) RTA_GATEWAY False = Inr (ro_gateway route)"
    "area_ip host (ncfg_buf_text out) (area_of host (16 + NCFG_WIRE_RTMSG_LEN) ?as) RTA_PREFSRC False = Inr (ro_source route)"
    using ok by (simp_all add: ips route_lookups)
  ultimately have "ncfg_dump_route host (ncfg_buf_text out) (wg_payload m) (wg_payload_length m) = Inr (route_seen route)"
    using d by (simp add: ncfg_dump_route_def built_area [OF m len] written_area(3) [OF message_written [OF m len]]
        route_lookups route_seen_def route_header_def)
  with built m show ?thesis by (auto simp: built_message_def)
qed

subsection \<open>Rules\<close>

definition rule_text :: "byte_order \<Rightarrow> ops_rule \<Rightarrow> bytes" where
  "rule_text host rule =
     [ru_family rule,
      if ncfg_ops_ip_present (ru_to rule) then ru_to_len rule else 0,
      if ncfg_ops_ip_present (ru_from rule) then ru_from_len rule else 0,
      0, if ru_table rule \<le> 255 then ucast (ru_table rule) else RT_TABLE_UNSPEC, 0, 0, ru_action rule] @
     native host (le_bytes 4 (unat (if ru_invert rule then FIB_RULE_INVERT else 0)))"

definition rule_list :: "byte_order \<Rightarrow> ops_rule \<Rightarrow> (16 word \<times> bytes) list" where
  "rule_list host rule =
     [(FRA_PRIORITY, u32_value host (ru_priority rule))] @
     (if ru_table rule \<noteq> 0 then [(FRA_TABLE, u32_value host (ru_table rule))] else []) @
     (if ncfg_ops_ip_present (ru_from rule) then [(FRA_SRC, ip_value (ru_from rule))] else []) @
     (if ncfg_ops_ip_present (ru_to rule) then [(FRA_DST, ip_value (ru_to rule))] else []) @
     (if ru_iif rule \<noteq> None then [(FRA_IIFNAME, cstr (the (ru_iif rule)) @ [0])] else []) @
     (if ru_oif rule \<noteq> None then [(FRA_OIFNAME, cstr (the (ru_oif rule)) @ [0])] else []) @
     (if ru_fwmark rule \<noteq> None then [(FRA_FWMARK, u32_value host (number 0 (ru_fwmark rule)))] else []) @
     (if ru_fwmask rule \<noteq> None then [(FRA_FWMASK, u32_value host (number 0 (ru_fwmask rule)))] else []) @
     (if ru_suppress_prefixlength rule \<noteq> None
      then [(FRA_SUPPRESS_PREFIXLEN, u32_value host (number 0 (ru_suppress_prefixlength rule)))] else []) @
     (if ru_l3mdev rule then [(FRA_L3MDEV, [1])] else []) @
     [(FRA_PROTOCOL, [ucast (number NCFG_WIRE_RTPROT_NETCFGD (ru_protocol rule))])]"

definition name_ok :: "cstring \<Rightarrow> bool" where
  "name_ok name = (case name of None \<Rightarrow> True | Some s \<Rightarrow> length (cstr s) < NCFG_RULE_NAME_MAX \<and> is_utf8 (cstr s) 0)"

definition rule_ok :: "ops_rule \<Rightarrow> bool" where
  "rule_ok rule \<longleftrightarrow> ip_field (ru_from rule) \<and> ip_field (ru_to rule) \<and> name_ok (ru_iif rule) \<and> name_ok (ru_oif rule) \<and>
     in_range UINT32_MAX (ru_fwmark rule) \<and> in_range UINT32_MAX (ru_fwmask rule) \<and>
     in_range (UINT32_MAX - 1) (ru_suppress_prefixlength rule) \<and> in_range UINT8_MAX (ru_protocol rule)"

text \<open>The record a rule is read as.\<close>

definition rule_seen :: "ops_rule \<Rightarrow> rule_record" where
  "rule_seen rule =
     \<lparr>re_family = ru_family rule, re_priority = ru_priority rule, re_table = ru_table rule, re_action = ru_action rule,
      re_from = ru_from rule, re_from_len = (if ncfg_ops_ip_present (ru_from rule) then ru_from_len rule else 0),
      re_to = ru_to rule, re_to_len = (if ncfg_ops_ip_present (ru_to rule) then ru_to_len rule else 0),
      re_iif = map_option cstr (ru_iif rule), re_oif = map_option cstr (ru_oif rule),
      re_fwmark = map_option ucast (ru_fwmark rule), re_fwmask = map_option ucast (ru_fwmask rule),
      re_suppress_prefixlength = map_option ucast (ru_suppress_prefixlength rule),
      re_l3mdev = ru_l3mdev rule, re_invert = ru_invert rule,
      re_protocol = ucast (number NCFG_WIRE_RTPROT_NETCFGD (ru_protocol rule))\<rparr>"

lemma in_range_mono: "in_range c v \<Longrightarrow> c \<le> d \<Longrightarrow> in_range d v"
  by (auto simp: in_range_def split: option.splits)

lemma cstr_terminated: "cstr (cstr s @ [0]) = cstr s"
  by (simp add: cstr_def takeWhile_append takeWhile_eq_all_conv)

lemma put_names:
  "(if s \<noteq> None then ncfg_wire_attr_put_str host out k s else out) =
   put_attrs host out (if s \<noteq> None then [(k, cstr (the s) @ [0])] else [])"
  by (cases s) (simp_all add: put_values)

lemma rule_request_list:
  assumes "rule_ok rule"
  shows "rule_request host out kind flags seq rule =
    ncfg_wire_build_request host out kind flags seq
      (Some (rule_header host (ncfg_buf_init 0) rule (if ru_table rule \<le> 255 then ucast (ru_table rule) else RT_TABLE_UNSPEC)))
      (Some (put_attrs host (ncfg_buf_init 0) (rule_list host rule)))"
proof -
  have "in_range UINT32_MAX (ru_suppress_prefixlength rule)"
    using assms in_range_mono [of "UINT32_MAX - 1" _ UINT32_MAX] by (simp add: rule_ok_def)
  then show ?thesis
    using assms unfolding rule_request_def rule_selectors_def put_names
    by (simp add: rule_ok_def narrow_or_Inr rule_list_def put_ip_if_def put_u32_if_def put_u8_if_def put_values Let_def)
qed

lemma rule_header_holds:
  "holds DEFAULT_LIMIT (rule_header host (ncfg_buf_init 0) rule (if ru_table rule \<le> 255 then ucast (ru_table rule) else RT_TABLE_UNSPEC))
    (rule_text host rule)"
proof -
  have "holds DEFAULT_LIMIT (rule_header host (ncfg_buf_init 0) rule (if ru_table rule \<le> 255 then ucast (ru_table rule) else RT_TABLE_UNSPEC))
    (([] @ [ru_family rule,
      if ncfg_ops_ip_present (ru_to rule) then ru_to_len rule else 0,
      if ncfg_ops_ip_present (ru_from rule) then ru_from_len rule else 0,
      0, if ru_table rule \<le> 255 then ucast (ru_table rule) else RT_TABLE_UNSPEC, 0, 0, ru_action rule]) @
     native host (le_bytes 4 (unat (if ru_invert rule then FIB_RULE_INVERT else 0 :: 32 word))))"
    unfolding rule_header_def put_u32_def by (intro holds_add init_holds)
  then show ?thesis by (simp add: rule_text_def)
qed

lemma length_rule_text: "length (rule_text host rule) = NCFG_RULE_HDR_LEN"
  by (simp add: rule_text_def NCFG_RULE_HDR_LEN_def)

lemma rule_lookups:
  assumes "rule_ok rule"
  shows "Option.bind (lookup (rule_list host rule) FRA_PRIORITY) (u32_of host) = Some (ru_priority rule)"
    "Option.bind (lookup (rule_list host rule) FRA_TABLE) (u32_of host) = (if ru_table rule \<noteq> 0 then Some (ru_table rule) else None)"
    "lookup (rule_list host rule) FRA_SRC = (if ncfg_ops_ip_present (ru_from rule) then Some (ip_value (ru_from rule)) else None)"
    "lookup (rule_list host rule) FRA_DST = (if ncfg_ops_ip_present (ru_to rule) then Some (ip_value (ru_to rule)) else None)"
    "Option.bind (lookup (rule_list host rule) FRA_IIFNAME) (string_of NCFG_RULE_NAME_MAX) = map_option cstr (ru_iif rule)"
    "Option.bind (lookup (rule_list host rule) FRA_OIFNAME) (string_of NCFG_RULE_NAME_MAX) = map_option cstr (ru_oif rule)"
    "Option.bind (lookup (rule_list host rule) FRA_FWMARK) (u32_of host) = map_option ucast (ru_fwmark rule)"
    "Option.bind (lookup (rule_list host rule) FRA_FWMASK) (u32_of host) = map_option ucast (ru_fwmask rule)"
    "Option.bind (lookup (rule_list host rule) FRA_SUPPRESS_PREFIXLEN) (u32_of host) = map_option ucast (ru_suppress_prefixlength rule)"
    "Option.bind (lookup (rule_list host rule) FRA_L3MDEV) u8_of = (if ru_l3mdev rule then Some 1 else None)"
    "Option.bind (lookup (rule_list host rule) FRA_PROTOCOL) u8_of =
      Some (ucast (number NCFG_WIRE_RTPROT_NETCFGD (ru_protocol rule)))"
  using assms by (auto simp: rule_list_def number_def rule_ok_def name_ok_def string_of_def cstr_terminated split: option.splits)

lemma suppress_back:
  assumes "in_range (UINT32_MAX - 1) v"
  shows "(map_option ucast v = Some (0xffffffff :: 32 word)) = False"
proof (cases v)
  case (Some w)
  with assms have w: "0 \<le> sint w" "sint w \<le> UINT32_MAX - 1" by (simp_all add: in_range_def)
  then have "ucast (ucast w :: 32 word) = w" by (intro small_number) simp_all
  then have "w = ucast (0xffffffff :: 32 word)" if "ucast w = (0xffffffff :: 32 word)" using that by simp
  with w Some show ?thesis by (auto simp: UINT32_MAX_def)
qed simp

lemma rule_requested:
  assumes "rule_ok rule"
  shows "\<exists>out m. rule_request host (ncfg_buf_init 0) kind flags seq rule = (None, out) \<and>
    carries host out kind flags seq m \<and>
    ncfg_dump_rule host (ncfg_buf_text out) (wg_payload m) (wg_payload_length m) = Inr (rule_seen rule)"
proof -
  let ?as = "rule_list host rule" and ?bs = "rule_text host rule"
  note ok = assms [unfolded rule_ok_def]
  have "name_ok s \<Longrightarrow> s \<noteq> None \<Longrightarrow> length (cstr (the s)) \<le> 65530" for s
    by (auto simp: name_ok_def NCFG_RULE_NAME_MAX_def NCFG_LINK_NAME_MAX_def)
  then have s: "sendable ?as" "length ?as \<le> 200" using ok by (simp_all add: rule_list_def)
  have wide: "4 dvd length ?bs" "length ?bs \<le> 16" by (simp_all add: length_rule_text NCFG_RULE_HDR_LEN_def)
  obtain out m where out: "rule_request host (ncfg_buf_init 0) kind flags seq rule = (None, out)"
    and m: "built_message host kind flags seq ?bs ?as out m"
    unfolding rule_request_list [OF assms] using request_built [OF rule_header_holds wide s] .
  let ?mem = "ncfg_buf_text out"
  note w = message_written [OF m length_rule_text, unfolded NCFG_RULE_HDR_LEN_def, simplified]
    and area = built_area [OF m length_rule_text, unfolded NCFG_RULE_HDR_LEN_def, simplified]
  have p: "wg_payload m = 16" "wg_payload_length m = 12 + length (attrs_text host ?as)"
    and d: "drop 16 ?mem = ?bs @ attrs_text host ?as"
    using m by (simp_all add: built_message_def length_rule_text NCFG_RULE_HDR_LEN_def)
  note d0 = d [unfolded rule_text_def append.assoc]
  note d8 = drop_to [OF d0, of "16 + 8", simplified]
  have bytes: "?mem ! 16 = ru_family rule" "?mem ! 17 = ?bs ! 1" "?mem ! 18 = ?bs ! 2" "?mem ! 20 = ?bs ! 4" "?mem ! 23 = ru_action rule"
    "read_u32 host ?mem 24 = (if ru_invert rule then FIB_RULE_INVERT else 0)"
    using nth_at [OF d, of 0] nth_at [OF d, of 1] nth_at [OF d, of 2] nth_at [OF d, of 4] nth_at [OF d, of 7] read_u32_at [OF d8]
    by (simp_all add: length_rule_text NCFG_RULE_HDR_LEN_def rule_text_def)
  have ips: "rule_area_ip host ?mem (area_of host 28 ?as) FRA_SRC =
      Inr (if ncfg_ops_ip_present (ru_from rule) then Some (ru_from rule) else None)"
    "rule_area_ip host ?mem (area_of host 28 ?as) FRA_DST =
      Inr (if ncfg_ops_ip_present (ru_to rule) then Some (ru_to rule) else None)"
    using ok by (simp_all add: area_ip_back(2) [OF w] rule_lookups [OF assms])
  have absent: "ip_absent = ru_from rule" if "\<not> ncfg_ops_ip_present (ru_from rule)"
    using ok that by (auto simp: ip_field_def ip_whole_def)
  have absent': "ip_absent = ru_to rule" if "\<not> ncfg_ops_ip_present (ru_to rule)"
    using ok that by (auto simp: ip_field_def ip_whole_def)
  have suppress: "(map_option ucast (ru_suppress_prefixlength rule) = Some (0xffffffff :: 32 word)) = False"
    using ok by (intro suppress_back) simp
  have named: "0 < NCFG_RULE_NAME_MAX" by (simp add: NCFG_RULE_NAME_MAX_def NCFG_LINK_NAME_MAX_def)
  have table: "ru_table rule \<noteq> 0 \<or> ucast (?bs ! 4) = ru_table rule" by (auto simp: rule_text_def)
  have "ncfg_dump_rule host ?mem (wg_payload m) (wg_payload_length m) = Inr (rule_seen rule)"
    using bytes absent absent' table area ok named suppress
    by (simp add: ncfg_dump_rule_def p ips written_area(1,3,4) [OF w] rule_lookups [OF assms]
        NCFG_RULE_HDR_LEN_def rule_seen_def rule_text_def) blast
  with out m show ?thesis by (auto simp: built_message_def)
qed

lemma byte_through: "ucast (ucast (ucast (b :: byte) :: 64 word) :: 32 word) = b"
  by (rule bit_word_eqI) (auto simp: bit_simps)

text \<open>A rule read and turned into one to send again asks for what the first one asked.\<close>

lemma rule_again:
  assumes "rule_ok rule"
  shows "rule_request host out kind flags seq (ncfg_rule_record_spec (rule_seen rule)) = rule_request host out kind flags seq rule"
proof -
  let ?again = "ncfg_rule_record_spec (rule_seen rule)"
  note ok = assms [unfolded rule_ok_def]
  have sup: "in_range UINT32_MAX (ru_suppress_prefixlength rule)"
    using ok in_range_mono [of "UINT32_MAX - 1" _ UINT32_MAX] by simp
  have numbers: "ru_fwmark ?again = ru_fwmark rule" "ru_fwmask ?again = ru_fwmask rule"
    "ru_suppress_prefixlength ?again = ru_suppress_prefixlength rule"
    using ok sup range_back by (simp_all add: ncfg_rule_record_spec_def rule_seen_def)
  have plain: "cstr (cstr x) = cstr x" for x by (simp add: cstr_def)
  have again: "ru_from ?again = ru_from rule" "ru_to ?again = ru_to rule" "ru_table ?again = ru_table rule"
    "ru_priority ?again = ru_priority rule" "ru_family ?again = ru_family rule" "ru_action ?again = ru_action rule"
    "ru_iif ?again = map_option cstr (ru_iif rule)" "ru_oif ?again = map_option cstr (ru_oif rule)"
    "ru_l3mdev ?again = ru_l3mdev rule" "ru_invert ?again = ru_invert rule"
    "ru_from_len ?again = (if ncfg_ops_ip_present (ru_from rule) then ru_from_len rule else 0)"
    "ru_to_len ?again = (if ncfg_ops_ip_present (ru_to rule) then ru_to_len rule else 0)"
    "ru_protocol ?again = Some (ucast (ucast (number NCFG_WIRE_RTPROT_NETCFGD (ru_protocol rule)) :: byte))"
    by (simp_all add: ncfg_rule_record_spec_def rule_seen_def)
  have "sint (ucast b :: 64 word) = uint b" for b :: byte
    using sint_word_of_int [of "uint b"] uint_lt2p [of b] uint_ge_0 [of b] by simp
  then have "in_range UINT8_MAX (ru_protocol ?again)"
    using uint_lt2p [of "ucast (number NCFG_WIRE_RTPROT_NETCFGD (ru_protocol rule)) :: byte"]
    by (simp add: again in_range_def UINT8_MAX_def)
  moreover have "name_ok (map_option cstr n)" if "name_ok n" for n
    using that by (cases n) (simp_all add: name_ok_def plain)
  ultimately have ok': "rule_ok ?again" using ok by (simp add: rule_ok_def again numbers)
  have proto: "(ucast (number NCFG_WIRE_RTPROT_NETCFGD (ru_protocol ?again)) :: byte) = ucast (number NCFG_WIRE_RTPROT_NETCFGD (ru_protocol rule))"
    by (simp add: again number_def byte_through)
  have "rule_list host ?again = rule_list host rule"
    unfolding rule_list_def proto unfolding again numbers
    by (cases "ru_iif rule"; cases "ru_oif rule") (simp_all add: plain)
  moreover have "rule_header host b ?again t = rule_header host b rule t" for b t
    by (simp add: rule_header_def again)
  ultimately show ?thesis by (simp add: rule_request_list [OF ok'] rule_request_list [OF assms] again)
qed

subsection \<open>What is asked of the kernel is what is read of it\<close>

text \<open>
  An address is read back as it was asked for.  A request to add an address is built, on a machine of
  either byte order, as one message of its type that replaces what is there; and the reader of a dump,
  given such a message, finds the interface, the address, its prefix length and the mark of who owns it.
  A request to remove one is the same message without the mark.
\<close>

theorem address_ops_read_back:
  assumes "ip_whole address"
  shows "(\<exists>out m. ncfg_ops_add_address host (ncfg_buf_init 0) seq index address prefix_len proto = (None, out) \<and>
      carries host out RTM_NEWADDR (NCFG_OPS_ACK_FLAGS OR NLM_F_CREATE OR NLM_F_REPLACE) seq m \<and>
      ncfg_dump_address host (ncfg_buf_text out) (wg_payload m) (wg_payload_length m) =
        Inr \<lparr>ar_index = index, ar_address = address, ar_prefix_len = prefix_len, ar_proto = Some proto\<rparr>) \<and>
    (\<exists>out m. ncfg_ops_del_address host (ncfg_buf_init 0) seq index address prefix_len = (None, out) \<and>
      carries host out RTM_DELADDR NCFG_OPS_ACK_FLAGS seq m \<and>
      ncfg_dump_address host (ncfg_buf_text out) (wg_payload m) (wg_payload_length m) =
        Inr \<lparr>ar_index = index, ar_address = address, ar_prefix_len = prefix_len, ar_proto = None\<rparr>)"
  unfolding ncfg_ops_add_address_def ncfg_ops_del_address_def by (intro conjI address_requested assms)

definition sample_ip :: wire_ip where
  "sample_ip = \<lparr>ip_family = AF_INET, ip_bytes = [192, 168, 1, 1] @ replicate 12 0\<rparr>"

lemma sample_ip_whole: "ip_whole sample_ip" "ip_field sample_ip" "ip_field ip_absent"
  by (simp_all add: ip_field_def ip_whole_def sample_ip_def ncfg_ops_ip_present_def)

theorem address_ops_read_back_witness:
  "ip_whole sample_ip \<and>
   (\<exists>out m. ncfg_ops_add_address Little_Endian (ncfg_buf_init 0) 7 3 sample_ip 24 110 = (None, out) \<and>
      carries Little_Endian out RTM_NEWADDR (NCFG_OPS_ACK_FLAGS OR NLM_F_CREATE OR NLM_F_REPLACE) 7 m \<and>
      ncfg_dump_address Little_Endian (ncfg_buf_text out) (wg_payload m) (wg_payload_length m) =
        Inr \<lparr>ar_index = 3, ar_address = sample_ip, ar_prefix_len = 24, ar_proto = Some 110\<rparr>)"
  using address_ops_read_back [OF sample_ip_whole(1), of Little_Endian 7 3 24 110] sample_ip_whole(1) by blast


definition sample_route :: ops_route where
  "sample_route = \<lparr>ro_index = 3, ro_destination = ip_absent, ro_dst_len = 24, ro_gateway = sample_ip, ro_metric = Some 100,
     ro_table = Some 1000, ro_source = ip_absent, ro_proto = None, ro_onlink = False\<rparr>"


text \<open>
  C28.  A rule is read back as it was asked for, and what was read removes it.  The request to add a rule is
  built, and the reader of a dump finds every selector again; and the rule made from that record
  (\<^verbatim>\<open>ncfg_rule_record_spec\<close>) is removed with the very message the rule asked for is removed with, its mark
  of ownership included.
\<close>

theorem rule_ops_read_back:
  assumes "rule_ok rule"
  shows "(\<exists>out m. ncfg_ops_add_rule host (ncfg_buf_init 0) seq rule = (None, out) \<and>
      carries host out RTM_NEWRULE (NCFG_OPS_ACK_FLAGS OR NLM_F_CREATE OR NLM_F_EXCL) seq m \<and>
      ncfg_dump_rule host (ncfg_buf_text out) (wg_payload m) (wg_payload_length m) = Inr (rule_seen rule)) \<and>
    ncfg_ops_del_rule host out' seq' (ncfg_rule_record_spec (rule_seen rule)) = ncfg_ops_del_rule host out' seq' rule \<and>
    (\<exists>out m. ncfg_ops_del_rule host (ncfg_buf_init 0) seq rule = (None, out) \<and>
      carries host out RTM_DELRULE NCFG_OPS_ACK_FLAGS seq m)"
  unfolding ncfg_ops_add_rule_def ncfg_ops_del_rule_def
  using rule_requested [OF assms] rule_again [OF assms] by blast

definition sample_rule :: ops_rule where
  "sample_rule = \<lparr>ru_family = 2, ru_priority = 1000, ru_table = 300, ru_action = 1, ru_from = sample_ip, ru_from_len = 32,
     ru_to = ip_absent, ru_to_len = 8, ru_iif = Some (ascii ''eth0''), ru_oif = None, ru_fwmark = Some 0xca6c, ru_fwmask = None,
     ru_suppress_prefixlength = Some 0, ru_l3mdev = False, ru_invert = True, ru_protocol = None\<rparr>"

theorem rule_ops_read_back_witness:
  "rule_ok sample_rule \<and>
   (\<exists>out m. ncfg_ops_add_rule Little_Endian (ncfg_buf_init 0) 4 sample_rule = (None, out) \<and>
      carries Little_Endian out RTM_NEWRULE (NCFG_OPS_ACK_FLAGS OR NLM_F_CREATE OR NLM_F_EXCL) 4 m \<and>
      ncfg_dump_rule Little_Endian (ncfg_buf_text out) (wg_payload m) (wg_payload_length m) = Inr (rule_seen sample_rule)) \<and>
   re_suppress_prefixlength (rule_seen sample_rule) = Some 0 \<and> re_protocol (rule_seen sample_rule) = 110"
proof -
  have n: "name_ok (Some (ascii ''eth0''))" by code_simp
  then have ok: "rule_ok sample_rule"
    by (simp add: rule_ok_def sample_rule_def sample_ip_whole in_range_def UINT32_MAX_def name_ok_def del: ascii_simps)
  have "re_suppress_prefixlength (rule_seen sample_rule) = Some 0 \<and> re_protocol (rule_seen sample_rule) = 110"
    by (simp add: rule_seen_def sample_rule_def number_def NCFG_WIRE_RTPROT_NETCFGD_def)
  with rule_ops_read_back [OF ok, of Little_Endian 4] ok show ?thesis by blast
qed

end
