(* ===== verification/Ncfg_Ops_Link.thy ===== *)
theory Ncfg_Ops_Link
  imports Ncfg_Ops
begin

text \<open>
  The messages that make, change and remove links, \<^verbatim>\<open>c/src/sys/ops.c\<close>.

  A link to be made is one record with a part for every kind, as in the code, of which the kind says which
  part counts; an integer that is no kind has no counterpart.  What is built into a nest is a sum: the
  sentence it was refused with, or the buffer of the nest.
\<close>

subsection \<open>Links to be made\<close>

datatype ops_link_kind =
    OPS_LINK_BRIDGE | OPS_LINK_DUMMY | OPS_LINK_VLAN | OPS_LINK_BOND | OPS_LINK_VXLAN | OPS_LINK_IFB | OPS_LINK_VETH
  | OPS_LINK_VRF | OPS_LINK_MACVLAN | OPS_LINK_TUNNEL | OPS_LINK_WIREGUARD

record ops_vlan =
  ov_parent :: "32 word"
  ov_id :: "16 word"
  ov_protocol :: "16 word"

record ops_bond =
  ob_mode :: byte
  ob_miimon :: optint

record ops_vxlan =
  ox_id :: "32 word"
  ox_parent :: optint
  ox_local :: wire_ip
  ox_remote :: wire_ip
  ox_port :: optint

record ops_macvlan =
  om_parent :: "32 word"
  om_mode :: "32 word"

record ops_tunnel =
  ot_kind :: cstring
  ot_parent :: optint
  ot_local :: wire_ip
  ot_remote :: wire_ip
  ot_ttl :: optint
  ot_key :: optint

record ops_newlink =
  ol_kind :: ops_link_kind
  ol_vlan :: ops_vlan
  ol_bond :: ops_bond
  ol_vxlan :: ops_vxlan
  ol_veth :: cstring
  ol_vrf :: "32 word"
  ol_macvlan :: ops_macvlan
  ol_tunnel :: ops_tunnel

subsection \<open>Pieces\<close>

definition link_index :: "32 word \<Rightarrow> bytes + 32 word" where
  "link_index index =
     (if 0x7fffffff < index then
        Inl (ascii ''an interface index is signed on the wire and '' @ decimal (unat index) @ ascii '' does not fit it'')
      else Inr index)"

definition attr_put_u16 :: "byte_order \<Rightarrow> buf \<Rightarrow> 16 word \<Rightarrow> 16 word \<Rightarrow> buf" where
  "attr_put_u16 host out kind v = ncfg_wire_attr_put host out kind (native host (le_bytes 2 (unat v)))"

definition put_be16 :: "byte_order \<Rightarrow> buf \<Rightarrow> 16 word \<Rightarrow> 16 word \<Rightarrow> buf" where
  "put_be16 host out kind v = ncfg_wire_attr_put host out kind [ucast (drop_bit 8 v), ucast (v AND 0xff)]"

definition put_be32 :: "byte_order \<Rightarrow> buf \<Rightarrow> 16 word \<Rightarrow> 32 word \<Rightarrow> buf" where
  "put_be32 host out kind v =
     ncfg_wire_attr_put host out kind
       [ucast (drop_bit 24 v), ucast (drop_bit 16 v AND 0xff), ucast (drop_bit 8 v AND 0xff), ucast (v AND 0xff)]"

definition ifinfo_body :: "byte_order \<Rightarrow> buf \<Rightarrow> byte \<Rightarrow> 32 word \<Rightarrow> 32 word \<Rightarrow> 32 word \<Rightarrow> bytes + buf" where
  "ifinfo_body host body family index flags change =
     (case link_index index of
        Inl err \<Rightarrow> Inl err
      | Inr index \<Rightarrow>
          Inr (ncfg_wire_ifinfo_encode host
            \<lparr>wi_family = family, wi_kind = 0, wi_index = index, wi_flags = flags, wi_change = change\<rparr> body))"

definition link_request :: "byte_order \<Rightarrow> buf \<Rightarrow> 16 word \<Rightarrow> 16 word \<Rightarrow> 32 word \<Rightarrow> 32 word \<Rightarrow> buf option \<Rightarrow> built" where
  "link_request host out kind flags seq index attrs =
     (case ifinfo_body host (ncfg_buf_init 0) 0 index 0 0 of
        Inl err \<Rightarrow> (Some err, out)
      | Inr body \<Rightarrow> ncfg_wire_build_request host out kind flags seq (Some body) attrs)"

text \<open>A number that goes into a nest where it was given, after it was narrowed.\<close>

definition put_narrowed ::
  "(buf \<Rightarrow> 32 word \<Rightarrow> buf) \<Rightarrow> optint \<Rightarrow> int \<Rightarrow> string \<Rightarrow> bytes + buf \<Rightarrow> bytes + buf" where
  "put_narrowed put v ceiling what data =
     (case data of
        Inl err \<Rightarrow> Inl err
      | Inr data \<Rightarrow>
          (case v of
             None \<Rightarrow> Inr data
           | Some v \<Rightarrow>
               (case ncfg_ops_narrow v ceiling what of Inl err \<Rightarrow> Inl err | Inr number \<Rightarrow> Inr (put data number))))"

fun strstr_found :: "bytes \<Rightarrow> bytes \<Rightarrow> bool" where
  "strstr_found needle [] = (needle = [])"
| "strstr_found needle (b # hay) = (take (length needle) (b # hay) = needle \<or> strstr_found needle hay)"

definition OPS_GRE_KEY_FLAG :: "16 word" where
  "OPS_GRE_KEY_FLAG = 0x2000"

subsection \<open>The nest of a kind\<close>

definition geneve_data :: "byte_order \<Rightarrow> buf \<Rightarrow> ops_tunnel \<Rightarrow> bool \<Rightarrow> 32 word \<Rightarrow> 32 word \<Rightarrow> bytes + buf" where
  "geneve_data host data tunnel changing key ttl =
     (if ot_parent tunnel \<noteq> None then Inl (ascii ''a geneve tunnel has no underlay device to name'')
      else
        let data = put_u32_if (\<not> changing) host data IFLA_GENEVE_ID key;
            data = put_ip_if (ncfg_ops_ip_present (ot_remote tunnel)) host data
              (if ip_family (ot_remote tunnel) = AF_INET6 then IFLA_GENEVE_REMOTE6 else IFLA_GENEVE_REMOTE) (ot_remote tunnel)
        in Inr (put_u8_if (ot_ttl tunnel \<noteq> None) host data IFLA_GENEVE_TTL (ucast ttl)))"

definition gre_data :: "byte_order \<Rightarrow> buf \<Rightarrow> ops_tunnel \<Rightarrow> 32 word \<Rightarrow> 32 word \<Rightarrow> 32 word \<Rightarrow> buf" where
  "gre_data host data tunnel parent key ttl =
     (let data = put_u32_if (ot_parent tunnel \<noteq> None) host data IFLA_GRE_LINK parent;
          data = (if ot_key tunnel \<noteq> None
            then put_be32 host
              (put_be32 host
                (put_be16 host (put_be16 host data IFLA_GRE_IFLAGS OPS_GRE_KEY_FLAG) IFLA_GRE_OFLAGS OPS_GRE_KEY_FLAG)
                IFLA_GRE_IKEY key)
              IFLA_GRE_OKEY key
            else data);
          data = put_ip_if (ncfg_ops_ip_present (ot_local tunnel)) host data IFLA_GRE_LOCAL (ot_local tunnel);
          data = put_ip_if (ncfg_ops_ip_present (ot_remote tunnel)) host data IFLA_GRE_REMOTE (ot_remote tunnel)
      in put_u8_if (ot_ttl tunnel \<noteq> None) host data IFLA_GRE_TTL (ucast ttl))"

definition iptun_data :: "byte_order \<Rightarrow> buf \<Rightarrow> ops_tunnel \<Rightarrow> 32 word \<Rightarrow> 32 word \<Rightarrow> buf" where
  "iptun_data host data tunnel parent ttl =
     (let data = put_u32_if (ot_parent tunnel \<noteq> None) host data IFLA_IPTUN_LINK parent;
          data = put_ip_if (ncfg_ops_ip_present (ot_local tunnel)) host data IFLA_IPTUN_LOCAL (ot_local tunnel);
          data = put_ip_if (ncfg_ops_ip_present (ot_remote tunnel)) host data IFLA_IPTUN_REMOTE (ot_remote tunnel)
      in put_u8_if (ot_ttl tunnel \<noteq> None) host data IFLA_IPTUN_TTL (ucast ttl))"

definition tunnel_data :: "byte_order \<Rightarrow> buf \<Rightarrow> ops_tunnel \<Rightarrow> bool \<Rightarrow> bytes + buf" where
  "tunnel_data host data tunnel changing =
     (case ot_kind tunnel of
        None \<Rightarrow> Inl (ascii ''a tunnel has to say what encapsulation it is'')
      | Some kind \<Rightarrow>
     (case narrow_or 0 (ot_parent tunnel) UINT32_MAX ''an interface index'' of
        Inl err \<Rightarrow> Inl err
      | Inr parent \<Rightarrow>
     (case narrow_or 0 (ot_key tunnel) UINT32_MAX ''a tunnel key'' of
        Inl err \<Rightarrow> Inl err
      | Inr key \<Rightarrow>
     (case narrow_or 0 (ot_ttl tunnel) UINT8_MAX ''a tunnel's TTL'' of
        Inl err \<Rightarrow> Inl err
      | Inr ttl \<Rightarrow>
          if cstr kind = ascii ''geneve'' then geneve_data host data tunnel changing key ttl
          else if strstr_found (ascii ''gre'') (cstr kind) then Inr (gre_data host data tunnel parent key ttl)
          else Inr (iptun_data host data tunnel parent ttl)))))"

definition veth_peer :: "byte_order \<Rightarrow> buf \<Rightarrow> cstring \<Rightarrow> bytes + buf" where
  "veth_peer host data peer =
     (case peer of
        None \<Rightarrow> Inl (ascii ''a veth needs the name of its other end'')
      | Some _ \<Rightarrow>
          (case ifinfo_body host (ncfg_buf_init 0) 0 0 0 0 of
             Inl err \<Rightarrow> Inl err
           | Inr nested \<Rightarrow>
               let nested = ncfg_wire_attr_put_str host nested IFLA_IFNAME peer
               in if ncfg_buf_failed nested then Inl (ascii ''a veth peer's definition did not fit'')
                  else Inr (ncfg_wire_attr_put host data VETH_INFO_PEER (take (blength nested) (buf_contents nested)))))"

definition vxlan_data :: "byte_order \<Rightarrow> buf \<Rightarrow> ops_vxlan \<Rightarrow> bool \<Rightarrow> bytes + buf" where
  "vxlan_data host data vxlan changing =
     (case put_narrowed (\<lambda>data. ncfg_wire_attr_put_u32 host data IFLA_VXLAN_LINK) (ox_parent vxlan) UINT32_MAX
             ''an interface index'' (Inr (put_u32_if (\<not> changing) host data IFLA_VXLAN_ID (ox_id vxlan))) of
        Inl err \<Rightarrow> Inl err
      | Inr data \<Rightarrow>
          let data = put_ip_if (ncfg_ops_ip_present (ox_local vxlan)) host data
                (if ip_family (ox_local vxlan) = AF_INET6 then IFLA_VXLAN_LOCAL6 else IFLA_VXLAN_LOCAL) (ox_local vxlan);
              data = put_ip_if (ncfg_ops_ip_present (ox_remote vxlan)) host data
                (if ip_family (ox_remote vxlan) = AF_INET6 then IFLA_VXLAN_GROUP6 else IFLA_VXLAN_GROUP) (ox_remote vxlan)
          in put_narrowed (\<lambda>data number. put_be16 host data IFLA_VXLAN_PORT (ucast number))
               (if changing then None else ox_port vxlan) UINT16_MAX ''a VXLAN's port'' (Inr data))"

text \<open>\<open>None\<close> is a kind without a nest.\<close>

definition ops_info_data :: "byte_order \<Rightarrow> buf \<Rightarrow> ops_newlink \<Rightarrow> bool \<Rightarrow> bytes + buf option" where
  "ops_info_data host data link changing =
     (if ol_kind link \<in> {OPS_LINK_BRIDGE, OPS_LINK_DUMMY, OPS_LINK_WIREGUARD, OPS_LINK_IFB} then Inr None
      else map_sum id Some
        (case ol_kind link of
           OPS_LINK_VLAN \<Rightarrow>
             Inr (put_be16 host (attr_put_u16 host data IFLA_VLAN_ID (ov_id (ol_vlan link))) IFLA_VLAN_PROTOCOL
               (ov_protocol (ol_vlan link)))
         | OPS_LINK_BOND \<Rightarrow>
             put_narrowed (\<lambda>data. ncfg_wire_attr_put_u32 host data IFLA_BOND_MIIMON) (ob_miimon (ol_bond link)) UINT32_MAX
               ''a bond's miimon'' (Inr (ncfg_wire_attr_put_u8 host data IFLA_BOND_MODE (ob_mode (ol_bond link))))
         | OPS_LINK_VXLAN \<Rightarrow> vxlan_data host data (ol_vxlan link) changing
         | OPS_LINK_VRF \<Rightarrow> Inr (ncfg_wire_attr_put_u32 host data IFLA_VRF_TABLE (ol_vrf link))
         | OPS_LINK_MACVLAN \<Rightarrow> Inr (ncfg_wire_attr_put_u32 host data IFLA_MACVLAN_MODE (om_mode (ol_macvlan link)))
         | OPS_LINK_TUNNEL \<Rightarrow> tunnel_data host data (ol_tunnel link) changing
         | OPS_LINK_VETH \<Rightarrow> veth_peer host data (ol_veth link)))"

definition ncfg_ops_link_kind_word :: "ops_newlink \<Rightarrow> cstring" where
  "ncfg_ops_link_kind_word link =
     (case ol_kind link of
        OPS_LINK_BRIDGE \<Rightarrow> Some (ascii ''bridge'')
      | OPS_LINK_DUMMY \<Rightarrow> Some (ascii ''dummy'')
      | OPS_LINK_VLAN \<Rightarrow> Some (ascii ''vlan'')
      | OPS_LINK_BOND \<Rightarrow> Some (ascii ''bond'')
      | OPS_LINK_VXLAN \<Rightarrow> Some (ascii ''vxlan'')
      | OPS_LINK_IFB \<Rightarrow> Some (ascii ''ifb'')
      | OPS_LINK_VETH \<Rightarrow> Some (ascii ''veth'')
      | OPS_LINK_WIREGUARD \<Rightarrow> Some (ascii ''wireguard'')
      | OPS_LINK_VRF \<Rightarrow> Some (ascii ''vrf'')
      | OPS_LINK_MACVLAN \<Rightarrow> Some (ascii ''macvlan'')
      | OPS_LINK_TUNNEL \<Rightarrow> ot_kind (ol_tunnel link))"

text \<open>Only a tunnel can lack its word, and its kind is the ninth.\<close>

definition link_info :: "byte_order \<Rightarrow> buf \<Rightarrow> ops_newlink \<Rightarrow> bool \<Rightarrow> bytes + buf" where
  "link_info host info link changing =
     (case ncfg_ops_link_kind_word link of
        None \<Rightarrow> Inl (ascii ''9 is not a link kind this build can create'')
      | Some word \<Rightarrow>
          let info = ncfg_wire_attr_put_str host info IFLA_INFO_KIND (Some word) in
          (case ops_info_data host (ncfg_buf_init 0) link changing of
             Inl err \<Rightarrow> Inl err
           | Inr data \<Rightarrow>
               let info = (case data of None \<Rightarrow> info | Some data \<Rightarrow> ncfg_wire_attr_put_nested host info IFLA_INFO_DATA (Some data))
               in if ncfg_buf_failed info then
                    Inl (ascii ''the link information for a '' @ cstr word @ ascii '' did not fit'')
                  else Inr info))"

subsection \<open>Links\<close>

definition ncfg_ops_create_link :: "byte_order \<Rightarrow> buf \<Rightarrow> 32 word \<Rightarrow> cstring \<Rightarrow> ops_newlink \<Rightarrow> built" where
  "ncfg_ops_create_link host out seq name link =
     (case name of
        None \<Rightarrow> (Some (ascii ''creating a link needs a name and a kind''), out)
      | Some _ \<Rightarrow>
     (case link_info host (ncfg_buf_init 0) link False of
        Inl err \<Rightarrow> (Some err, out)
      | Inr info \<Rightarrow>
          let attrs = ncfg_wire_attr_put_str host (ncfg_buf_init 0) IFLA_IFNAME name;
              attrs = (if ol_kind link = OPS_LINK_VLAN
                then ncfg_wire_attr_put_u32 host attrs IFLA_LINK (ov_parent (ol_vlan link))
                else if ol_kind link = OPS_LINK_MACVLAN
                then ncfg_wire_attr_put_u32 host attrs IFLA_LINK (om_parent (ol_macvlan link))
                else attrs);
              attrs = ncfg_wire_attr_put_nested host attrs IFLA_LINKINFO (Some info)
          in (case ifinfo_body host (ncfg_buf_init 0) 0 0 0 0 of
                Inl err \<Rightarrow> (Some err, out)
              | Inr body \<Rightarrow>
                  ncfg_wire_build_request host out RTM_NEWLINK (NCFG_OPS_ACK_FLAGS OR NLM_F_CREATE OR NLM_F_EXCL) seq
                    (Some body) (Some attrs))))"

definition ncfg_ops_set_link_kind :: "byte_order \<Rightarrow> buf \<Rightarrow> 32 word \<Rightarrow> 32 word \<Rightarrow> ops_newlink \<Rightarrow> built" where
  "ncfg_ops_set_link_kind host out seq index link =
     (case link_info host (ncfg_buf_init 0) link True of
        Inl err \<Rightarrow> (Some err, out)
      | Inr info \<Rightarrow>
          link_request host out RTM_NEWLINK NCFG_OPS_ACK_FLAGS seq index
            (Some (ncfg_wire_attr_put_nested host (ncfg_buf_init 0) IFLA_LINKINFO (Some info))))"

definition ncfg_ops_delete_link :: "byte_order \<Rightarrow> buf \<Rightarrow> 32 word \<Rightarrow> 32 word \<Rightarrow> built" where
  "ncfg_ops_delete_link host out seq index = link_request host out RTM_DELLINK NCFG_OPS_ACK_FLAGS seq index None"

definition OPS_IFF_UP :: "32 word" where
  "OPS_IFF_UP = IFF_UP"

definition ncfg_ops_set_link_up :: "byte_order \<Rightarrow> buf \<Rightarrow> 32 word \<Rightarrow> 32 word \<Rightarrow> bool \<Rightarrow> built" where
  "ncfg_ops_set_link_up host out seq index up =
     (case ifinfo_body host (ncfg_buf_init 0) 0 index (if up then OPS_IFF_UP else 0) OPS_IFF_UP of
        Inl err \<Rightarrow> (Some err, out)
      | Inr body \<Rightarrow> ncfg_wire_build_request host out RTM_NEWLINK NCFG_OPS_ACK_FLAGS seq (Some body) None)"

definition ncfg_ops_set_link_mtu :: "byte_order \<Rightarrow> buf \<Rightarrow> 32 word \<Rightarrow> 32 word \<Rightarrow> 32 word \<Rightarrow> built" where
  "ncfg_ops_set_link_mtu host out seq index mtu =
     link_request host out RTM_NEWLINK NCFG_OPS_ACK_FLAGS seq index
       (Some (ncfg_wire_attr_put_u32 host (ncfg_buf_init 0) IFLA_MTU mtu))"

text \<open>The six octets, which \<^verbatim>\<open>ncfg_ops_parse_mac\<close> makes.\<close>

definition ncfg_ops_set_link_mac :: "byte_order \<Rightarrow> buf \<Rightarrow> 32 word \<Rightarrow> 32 word \<Rightarrow> bytes option \<Rightarrow> built" where
  "ncfg_ops_set_link_mac host out seq index mac =
     (case mac of
        None \<Rightarrow> (Some (ascii ''setting a hardware address needs one''), out)
      | Some mac \<Rightarrow>
          link_request host out RTM_NEWLINK NCFG_OPS_ACK_FLAGS seq index
            (Some (ncfg_wire_attr_put host (ncfg_buf_init 0) IFLA_ADDRESS (take 6 mac))))"

definition ncfg_ops_set_link_master :: "byte_order \<Rightarrow> buf \<Rightarrow> 32 word \<Rightarrow> 32 word \<Rightarrow> 32 word \<Rightarrow> built" where
  "ncfg_ops_set_link_master host out seq index master =
     link_request host out RTM_NEWLINK NCFG_OPS_ACK_FLAGS seq index
       (Some (ncfg_wire_attr_put_u32 host (ncfg_buf_init 0) IFLA_MASTER master))"

definition ncfg_ops_add_altname :: "byte_order \<Rightarrow> buf \<Rightarrow> 32 word \<Rightarrow> 32 word \<Rightarrow> cstring \<Rightarrow> built" where
  "ncfg_ops_add_altname host out seq index altname =
     (case altname of
        None \<Rightarrow> (Some (ascii ''an alternative name is a name''), out)
      | Some name \<Rightarrow>
          let len = length (cstr name) in
          if len = 0 \<or> NCFG_WIRE_ALT_IFNAME_MAX \<le> len then
            (Some (ascii ''an alternative name must be 1 to 127 bytes, not '' @ decimal len), out)
          else
            let props = ncfg_wire_attr_put_str host (ncfg_buf_init 0) IFLA_ALT_IFNAME altname;
                attrs = ncfg_wire_attr_put_nested host (ncfg_buf_init 0) IFLA_PROP_LIST (Some props)
            in link_request host out RTM_NEWLINKPROP NCFG_OPS_ACK_FLAGS seq index (Some attrs))"

definition kind_data_request :: "byte_order \<Rightarrow> buf \<Rightarrow> 32 word \<Rightarrow> 32 word \<Rightarrow> string \<Rightarrow> buf \<Rightarrow> built" where
  "kind_data_request host out seq index word data =
     (let info = ncfg_wire_attr_put_str host (ncfg_buf_init 0) IFLA_INFO_KIND (Some (ascii word));
          info = ncfg_wire_attr_put_nested host info IFLA_INFO_DATA (Some data);
          attrs = ncfg_wire_attr_put_nested host (ncfg_buf_init 0) IFLA_LINKINFO (Some info)
      in link_request host out RTM_NEWLINK NCFG_OPS_ACK_FLAGS seq index (Some attrs))"

definition centiseconds :: "32 word \<Rightarrow> 32 word" where
  "centiseconds seconds = (if 0xffffffff div 100 < seconds then 0xffffffff else seconds * 100)"

record ops_bridge_attrs =
  oa_stp :: bool
  oa_forward_delay :: optint
  oa_hello_time :: optint
  oa_ageing_time :: optint
  oa_priority :: optint
  oa_vlan_filtering :: bool

definition ncfg_ops_set_bridge_attrs :: "byte_order \<Rightarrow> buf \<Rightarrow> 32 word \<Rightarrow> 32 word \<Rightarrow> ops_bridge_attrs option \<Rightarrow> built" where
  "ncfg_ops_set_bridge_attrs host out seq index attrs =
     (case attrs of
        None \<Rightarrow> (Some (ascii ''setting a bridge's attributes needs some''), out)
      | Some attrs \<Rightarrow>
          let data = Inr (ncfg_wire_attr_put_u32 host (ncfg_buf_init 0) IFLA_BR_STP_STATE (if oa_stp attrs then 1 else 0));
              data = put_narrowed (\<lambda>data number. ncfg_wire_attr_put_u32 host data IFLA_BR_FORWARD_DELAY (centiseconds number))
                (oa_forward_delay attrs) UINT32_MAX ''a bridge's forward delay'' data;
              data = put_narrowed (\<lambda>data number. ncfg_wire_attr_put_u32 host data IFLA_BR_HELLO_TIME (centiseconds number))
                (oa_hello_time attrs) UINT32_MAX ''a bridge's hello time'' data;
              data = put_narrowed (\<lambda>data number. ncfg_wire_attr_put_u32 host data IFLA_BR_AGEING_TIME (centiseconds number))
                (oa_ageing_time attrs) UINT32_MAX ''a bridge's ageing time'' data;
              data = put_narrowed (\<lambda>data number. attr_put_u16 host data IFLA_BR_PRIORITY (ucast number))
                (oa_priority attrs) UINT16_MAX ''a bridge's priority'' data
          in (case data of
                Inl err \<Rightarrow> (Some err, out)
              | Inr data \<Rightarrow>
                  kind_data_request host out seq index ''bridge''
                    (ncfg_wire_attr_put_u8 host data IFLA_BR_VLAN_FILTERING (if oa_vlan_filtering attrs then 1 else 0))))"

definition ncfg_ops_set_bond_attrs :: "byte_order \<Rightarrow> buf \<Rightarrow> 32 word \<Rightarrow> 32 word \<Rightarrow> optint \<Rightarrow> optint \<Rightarrow> built" where
  "ncfg_ops_set_bond_attrs host out seq index mode miimon =
     (let data = put_narrowed (\<lambda>data number. ncfg_wire_attr_put_u8 host data IFLA_BOND_MODE (ucast number)) mode UINT8_MAX
            ''a bond's mode'' (Inr (ncfg_buf_init 0));
          data = put_narrowed (\<lambda>data. ncfg_wire_attr_put_u32 host data IFLA_BOND_MIIMON) miimon UINT32_MAX
            ''a bond's miimon'' data
      in (case data of
            Inl err \<Rightarrow> (Some err, out)
          | Inr data \<Rightarrow> kind_data_request host out seq index ''bond'' data))"

record ops_vlan_change =
  oc_vid :: "16 word"
  oc_pvid :: bool
  oc_untagged :: bool
  oc_on_self :: bool
  oc_add :: bool

definition ncfg_ops_set_bridge_vlan :: "byte_order \<Rightarrow> buf \<Rightarrow> 32 word \<Rightarrow> 32 word \<Rightarrow> ops_vlan_change option \<Rightarrow> built" where
  "ncfg_ops_set_bridge_vlan host out seq index vlan =
     (case vlan of
        None \<Rightarrow> (Some (ascii ''changing a bridge VLAN needs a change''), out)
      | Some vlan \<Rightarrow>
          let spec = attr_put_u16 host (ncfg_buf_init 0) IFLA_BRIDGE_FLAGS
                (if oc_on_self vlan then BRIDGE_FLAGS_SELF else BRIDGE_FLAGS_MASTER);
              flags = (if oc_pvid vlan then BRIDGE_VLAN_INFO_PVID else 0) OR
                (if oc_untagged vlan then BRIDGE_VLAN_INFO_UNTAGGED else 0);
              info = native host (le_bytes 2 (unat flags)) @ native host (le_bytes 2 (unat (oc_vid vlan)));
              spec = ncfg_wire_attr_put host spec IFLA_BRIDGE_VLAN_INFO info;
              attrs = ncfg_wire_attr_put_nested host (ncfg_buf_init 0) IFLA_AF_SPEC (Some spec)
          in (case ifinfo_body host (ncfg_buf_init 0) AF_BRIDGE index 0 0 of
                Inl err \<Rightarrow> (Some err, out)
              | Inr body \<Rightarrow>
                  ncfg_wire_build_request host out (if oc_add vlan then RTM_SETLINK else RTM_DELLINK) NCFG_OPS_ACK_FLAGS seq
                    (Some body) (Some attrs)))"

definition ncfg_ops_set_ipv6_token :: "byte_order \<Rightarrow> buf \<Rightarrow> 32 word \<Rightarrow> 32 word \<Rightarrow> wire_ip \<Rightarrow> built" where
  "ncfg_ops_set_ipv6_token host out seq index token =
     (if \<not> ncfg_ops_ip_present token \<or> ip_family token \<noteq> AF_INET6 then
        (Some (ascii ''an IPv6 token is an IPv6 address, and this is not one''), out)
      else
        let inet6 = ncfg_wire_attr_put_ip host (ncfg_buf_init 0) IFLA_INET6_TOKEN (Some token);
            spec = ncfg_wire_attr_put_nested host (ncfg_buf_init 0) (of_nat AF_INET6) (Some inet6);
            attrs = ncfg_wire_attr_put_nested host (ncfg_buf_init 0) IFLA_AF_SPEC (Some spec)
        in (case ifinfo_body host (ncfg_buf_init 0) 0 index 0 0 of
              Inl err \<Rightarrow> (Some err, out)
            | Inr body \<Rightarrow>
                ncfg_wire_build_request host out RTM_SETLINK NCFG_OPS_ACK_FLAGS seq (Some body) (Some attrs)))"

end
