(* ===== verification/Ncfg_Link_Props.thy ===== *)
theory Ncfg_Link_Props
  imports Ncfg_Dump_Props Ncfg_Ops_Link Ncfg_Dump_Link
begin

text \<open>
  A link is read back as it was asked for.  What a kind is made of is put into a nest, the nest into a nest,
  and that one into the message; each level is a list of attributes, as in \<open>Ncfg_Dump_Props\<close>, and the
  readers answer from the lists.
\<close>

subsection \<open>Nests that were written\<close>

definition short :: "nat \<Rightarrow> (16 word \<times> bytes) list \<Rightarrow> bool" where
  "short n as = list_all (\<lambda>(k, v). length v \<le> n) as"

lemma short_simps [simp]:
  "short n []"
  "short n ((k, v) # as) \<longleftrightarrow> length v \<le> n \<and> short n as"
  "short n (as @ bs) \<longleftrightarrow> short n as \<and> short n bs"
  "short n (if c then as else bs) \<longleftrightarrow> (if c then short n as else short n bs)"
  by (simp_all add: short_def)

lemma short_sendable: "short n as \<Longrightarrow> n \<le> 65531 \<Longrightarrow> sendable as"
  by (auto simp: short_def sendable_def list_all_iff split_def)

lemma short_text: "short n as \<Longrightarrow> length (attrs_text host as) \<le> (n + 7) * length as"
proof (induction as)
  case (Cons a as)
  obtain k v where a: "a = (k, v)" by fastforce
  have "padding (length v) \<le> 3" unfolding padding_def by presburger
  with Cons show ?case by (simp add: a attrs_text_Cons length_attr_text)
qed (simp add: attrs_text_def)

text \<open>A buffer that took attributes holds their text.\<close>

lemma put_attrs_held:
  assumes "sendable as" "length as \<le> 200"
  shows "\<not> ncfg_buf_failed (put_attrs host (ncfg_buf_init 0) as)"
    "take (blength (put_attrs host (ncfg_buf_init 0) as)) (buf_contents (put_attrs host (ncfg_buf_init 0) as)) = attrs_text host as"
proof -
  have "holds DEFAULT_LIMIT (put_attrs host (ncfg_buf_init 0) as) (attrs_text host as)"
    using put_attrs_sendable [OF init_holds _ _ assms(1)] by (simp add: DEFAULT_LIMIT_def SIZE_MAX_def)
  moreover have "length (attrs_text host as) \<le> DEFAULT_LIMIT"
    using attrs_text_le [OF assms(1), of host] assms(2) by (simp add: DEFAULT_LIMIT_def)
  ultimately show "\<not> ncfg_buf_failed (put_attrs host (ncfg_buf_init 0) as)"
    "take (blength (put_attrs host (ncfg_buf_init 0) as)) (buf_contents (put_attrs host (ncfg_buf_init 0) as)) = attrs_text host as"
    by (auto simp: holds_def buf_inv_def ncfg_buf_failed_def)
qed

lemma put_nested_list:
  assumes "sendable as" "length as \<le> 200"
  shows "ncfg_wire_attr_put_nested host out k (Some (put_attrs host (ncfg_buf_init 0) as)) =
    ncfg_wire_attr_put host out (k OR NLA_F_NESTED) (attrs_text host as)"
  using put_attrs_held [OF assms, of host]
  by (simp add: ncfg_wire_attr_put_nested_def ncfg_wire_attr_put_def)

lemma area_nest_written:
  assumes "written host mem at as"
  shows "lookup as k = None \<Longrightarrow> area_nest host mem (area_of host at as) k = Inr None"
    and "lookup as k = Some (attrs_text host inner) \<Longrightarrow> sendable inner \<Longrightarrow>
      \<exists>at'. area_nest host mem (area_of host at as) k = Inr (Some (area_of host at' inner)) \<and> written host mem at' inner"
proof -
  obtain x where x: "area_find host mem (area_of host at as) k = Inr x" "rel_option (attr_at mem) x (lookup as k)"
    using area_find_written [OF assms] .
  then show "lookup as k = None \<Longrightarrow> area_nest host mem (area_of host at as) k = Inr None" by (simp add: area_nest_def)
  assume "lookup as k = Some (attrs_text host inner)" and s: "sendable inner"
  with x obtain a where a: "x = Some a" "attr_at mem a (attrs_text host inner)" by (auto simp: option_rel_Some2)
  from a(2) obtain p rest where p: "wt_value a = Some p" "wt_length a = length (attrs_text host inner)"
    "drop p mem = attrs_text host inner @ rest" by (rule attr_atE)
  with x(1) a(1) s show "\<exists>at'. area_nest host mem (area_of host at as) k = Inr (Some (area_of host at' inner)) \<and> written host mem at' inner"
    by (intro exI [of _ p]) (auto simp: area_nest_def ncfg_wire_attrs_start_def area_of_def written_def)
qed

subsection \<open>Numbers in network order, and addresses of either family\<close>

definition be16_value :: "16 word \<Rightarrow> bytes" where
  "be16_value w = [ucast (drop_bit 8 w), ucast (w AND 0xff)]"

definition be32_value :: "32 word \<Rightarrow> bytes" where
  "be32_value w = [ucast (drop_bit 24 w), ucast (drop_bit 16 w AND 0xff), ucast (drop_bit 8 w AND 0xff), ucast (w AND 0xff)]"

definition be16_of :: "bytes \<Rightarrow> 16 word option" where
  "be16_of v = (if length v < 2 then None else Some (push_bit 8 (ucast (v ! 0)) OR ucast (v ! 1)))"

definition be32_of :: "bytes \<Rightarrow> 32 word option" where
  "be32_of v = (if length v < 4 then None
     else Some (push_bit 24 (ucast (v ! 0)) OR push_bit 16 (ucast (v ! 1)) OR push_bit 8 (ucast (v ! 2)) OR ucast (v ! 3)))"

lemma low_octet:
  "(0xff :: 16 word) = mask 8" "(0xff :: 32 word) = mask 8"
  by (simp_all add: mask_eq_exp_minus_1)

lemma be_back [simp]:
  "be16_of (be16_value h) = Some h" "length (be16_value h) = 2"
  "be32_of (be32_value w) = Some w" "length (be32_value w) = 4"
proof -
  have "push_bit 8 (ucast (ucast (drop_bit 8 h) :: byte)) OR ucast (ucast (h AND 0xff) :: byte) = h"
    unfolding low_octet by (rule bit_word_eqI) (auto simp: bit_simps)
  then show "be16_of (be16_value h) = Some h" by (simp add: be16_of_def be16_value_def)
  have "push_bit 24 (ucast (ucast (drop_bit 24 w) :: byte)) OR push_bit 16 (ucast (ucast (drop_bit 16 w AND 0xff) :: byte)) OR
    push_bit 8 (ucast (ucast (drop_bit 8 w AND 0xff) :: byte)) OR ucast (ucast (w AND 0xff) :: byte) = w"
    (is "?v = w")
  proof (rule bit_word_eqI)
    fix n assume "n < LENGTH(32)"
    then consider "n < 8" | "8 \<le> n" "n < 16" | "16 \<le> n" "n < 24" | "24 \<le> n" "n < 32" by fastforce
    then show "bit ?v n = bit w n" unfolding low_octet by cases (auto simp: bit_simps)
  qed
  then show "be32_of (be32_value w) = Some w" by (simp add: be32_of_def be32_value_def)
qed (simp_all add: be16_value_def be32_value_def)

definition strict_ip :: "wire_ip \<Rightarrow> wire_ip" where
  "strict_ip ip = (if ip_is_unspecified ip then ip_absent else ip)"

lemma written_be:
  assumes "written host mem at as"
  shows "area_be16 host mem (area_of host at as) k = Inr (Option.bind (lookup as k) be16_of)"
    and "area_be32 host mem (area_of host at as) k = Inr (Option.bind (lookup as k) be32_of)"
proof -
  obtain x where x: "area_find host mem (area_of host at as) k = Inr x" "rel_option (attr_at mem) x (lookup as k)"
    using area_find_written [OF assms] .
  have "area_be16 host mem (area_of host at as) k = Inr (Option.bind (lookup as k) be16_of) \<and>
    area_be32 host mem (area_of host at as) k = Inr (Option.bind (lookup as k) be32_of)"
  proof (cases x)
    case (Some a)
    then obtain v where v: "lookup as k = Some v" "attr_at mem a v" using x(2) by (auto simp: option_rel_Some1)
    obtain p rest where p: "wt_value a = Some p" "wt_length a = length v" "drop p mem = v @ rest" using v(2) by (rule attr_atE)
    have m: "mem ! (p + i) = v ! i" if "\<not> length v < n" "i < n" for i n using nth_at [OF p(3)] that by simp
    show ?thesis
      using m [of 2 0] m [of 2 1] m [of 4 0] m [of 4 1] m [of 4 2] m [of 4 3]
      by (auto simp: area_be16_def area_be32_def x(1) Some p(1,2) v(1) be16_of_def be32_of_def)
  qed (use x in \<open>simp add: area_be16_def area_be32_def\<close>)
  then show "area_be16 host mem (area_of host at as) k = Inr (Option.bind (lookup as k) be16_of)"
    "area_be32 host mem (area_of host at as) k = Inr (Option.bind (lookup as k) be32_of)" by blast+
qed

lemma area_ip_strict:
  assumes "written host mem at as" "ip_field ip"
    "lookup as k = (if ncfg_ops_ip_present ip then Some (ip_value ip) else None)"
  shows "area_ip host mem (area_of host at as) k True = Inr (strict_ip ip)"
  using assms(2,3) ip_field_present [OF assms(2)] ip_value_back(1) [of ip]
  by (auto simp: written_area [OF assms(1)] ip_field_def strict_ip_def)

lemma area_ip_either_back:
  assumes "written host mem at as" "ip_field ip"
    "lookup as first = (if ncfg_ops_ip_present ip \<and> ip_family ip \<noteq> AF_INET6 then Some (ip_value ip) else None)"
    "lookup as second = (if ncfg_ops_ip_present ip \<and> ip_family ip = AF_INET6 then Some (ip_value ip) else None)"
  shows "area_ip_either host mem (area_of host at as) first second = Inr (strict_ip ip)"
proof -
  obtain x where x: "area_find host mem (area_of host at as) first = Inr x" "rel_option (attr_at mem) x (lookup as first)"
    using area_find_written [OF assms(1)] .
  obtain y where y: "area_find host mem (area_of host at as) second = Inr y" "rel_option (attr_at mem) y (lookup as second)"
    using area_find_written [OF assms(1)] .
  show ?thesis
  proof (cases "ncfg_ops_ip_present ip")
    case False
    then have "ip = ip_absent" using assms(2) by (auto simp: ip_field_def ip_whole_def)
    with False x y assms(3,4) show ?thesis by (simp add: area_ip_either_def strict_ip_def)
  next
    case True
    then have w: "ip_whole ip" using ip_field_present [OF assms(2)] by simp
    have read: "ncfg_wire_attr_ip mem a = Inr ip" if "attr_at mem a (ip_value ip)" for a
      using read_values(5) [OF that] ip_value_back(1) [OF w] by (simp add: read_as_def split: sum.splits)
    show ?thesis
    proof (cases "ip_family ip = AF_INET6")
      case six: True
      then obtain a where "x = None" "y = Some a" "attr_at mem a (ip_value ip)"
        using x(2) y(2) assms(3,4) True by (auto simp: option_rel_Some2)
      with x(1) y(1) read show ?thesis by (simp add: area_ip_either_def strict_ip_def)
    next
      case four: False
      then obtain a where "x = Some a" "attr_at mem a (ip_value ip)"
        using x(2) assms(3) True by (auto simp: option_rel_Some2)
      with x(1) read show ?thesis by (simp add: area_ip_either_def strict_ip_def)
    qed
  qed
qed

subsection \<open>The attributes of a kind\<close>

definition ip_list :: "16 word \<Rightarrow> wire_ip \<Rightarrow> (16 word \<times> bytes) list" where
  "ip_list k ip = (if ncfg_ops_ip_present ip then [(k, ip_value ip)] else [])"

definition u32_list :: "byte_order \<Rightarrow> 16 word \<Rightarrow> optint \<Rightarrow> (16 word \<times> bytes) list" where
  "u32_list host k v = (if v \<noteq> None then [(k, u32_value host (number 0 v))] else [])"

definition u8_list :: "16 word \<Rightarrow> optint \<Rightarrow> (16 word \<times> bytes) list" where
  "u8_list k v = (if v \<noteq> None then [(k, [ucast (number 0 v)])] else [])"

definition vxlan_list :: "byte_order \<Rightarrow> ops_vxlan \<Rightarrow> bool \<Rightarrow> (16 word \<times> bytes) list" where
  "vxlan_list host vxlan changing =
     (if changing then [] else [(IFLA_VXLAN_ID, u32_value host (ox_id vxlan))]) @
     u32_list host IFLA_VXLAN_LINK (ox_parent vxlan) @
     ip_list (if ip_family (ox_local vxlan) = AF_INET6 then IFLA_VXLAN_LOCAL6 else IFLA_VXLAN_LOCAL) (ox_local vxlan) @
     ip_list (if ip_family (ox_remote vxlan) = AF_INET6 then IFLA_VXLAN_GROUP6 else IFLA_VXLAN_GROUP) (ox_remote vxlan) @
     (if \<not> changing \<and> ox_port vxlan \<noteq> None then [(IFLA_VXLAN_PORT, be16_value (ucast (number 0 (ox_port vxlan))))] else [])"

definition geneve_list :: "byte_order \<Rightarrow> ops_tunnel \<Rightarrow> bool \<Rightarrow> (16 word \<times> bytes) list" where
  "geneve_list host tunnel changing =
     (if changing then [] else [(IFLA_GENEVE_ID, u32_value host (number 0 (ot_key tunnel)))]) @
     ip_list (if ip_family (ot_remote tunnel) = AF_INET6 then IFLA_GENEVE_REMOTE6 else IFLA_GENEVE_REMOTE) (ot_remote tunnel) @
     u8_list IFLA_GENEVE_TTL (ot_ttl tunnel)"

definition gre_list :: "byte_order \<Rightarrow> ops_tunnel \<Rightarrow> (16 word \<times> bytes) list" where
  "gre_list host tunnel =
     u32_list host IFLA_GRE_LINK (ot_parent tunnel) @
     (if ot_key tunnel \<noteq> None
      then [(IFLA_GRE_IFLAGS, be16_value OPS_GRE_KEY_FLAG), (IFLA_GRE_OFLAGS, be16_value OPS_GRE_KEY_FLAG),
            (IFLA_GRE_IKEY, be32_value (number 0 (ot_key tunnel))), (IFLA_GRE_OKEY, be32_value (number 0 (ot_key tunnel)))]
      else []) @
     ip_list IFLA_GRE_LOCAL (ot_local tunnel) @ ip_list IFLA_GRE_REMOTE (ot_remote tunnel) @ u8_list IFLA_GRE_TTL (ot_ttl tunnel)"

definition iptun_list :: "byte_order \<Rightarrow> ops_tunnel \<Rightarrow> (16 word \<times> bytes) list" where
  "iptun_list host tunnel =
     u32_list host IFLA_IPTUN_LINK (ot_parent tunnel) @
     ip_list IFLA_IPTUN_LOCAL (ot_local tunnel) @ ip_list IFLA_IPTUN_REMOTE (ot_remote tunnel) @ u8_list IFLA_IPTUN_TTL (ot_ttl tunnel)"

definition tunnel_list :: "byte_order \<Rightarrow> ops_tunnel \<Rightarrow> bool \<Rightarrow> (16 word \<times> bytes) list" where
  "tunnel_list host tunnel changing =
     (case ncfg_tunnel_family (cstr (the (ot_kind tunnel))) of
        TUNNEL_GENEVE \<Rightarrow> geneve_list host tunnel changing
      | TUNNEL_GRE \<Rightarrow> gre_list host tunnel
      | _ \<Rightarrow> iptun_list host tunnel)"

definition peer_value :: "byte_order \<Rightarrow> bytes \<Rightarrow> bytes" where
  "peer_value host peer =
     ifinfo_text host \<lparr>wi_family = 0, wi_kind = 0, wi_index = 0, wi_flags = 0, wi_change = 0\<rparr> @
     attr_text host IFLA_IFNAME (cstr peer @ [0])"

text \<open>The nest of a kind, if it has one.\<close>

definition kind_list :: "byte_order \<Rightarrow> ops_newlink \<Rightarrow> bool \<Rightarrow> (16 word \<times> bytes) list option" where
  "kind_list host link changing =
     (case ol_kind link of
        OPS_LINK_VLAN \<Rightarrow>
          Some [(IFLA_VLAN_ID, u16_value host (ov_id (ol_vlan link))), (IFLA_VLAN_PROTOCOL, be16_value (ov_protocol (ol_vlan link)))]
      | OPS_LINK_BOND \<Rightarrow>
          Some ([(IFLA_BOND_MODE, [ob_mode (ol_bond link)])] @ u32_list host IFLA_BOND_MIIMON (ob_miimon (ol_bond link)))
      | OPS_LINK_VXLAN \<Rightarrow> Some (vxlan_list host (ol_vxlan link) changing)
      | OPS_LINK_VRF \<Rightarrow> Some [(IFLA_VRF_TABLE, u32_value host (ol_vrf link))]
      | OPS_LINK_MACVLAN \<Rightarrow> Some [(IFLA_MACVLAN_MODE, u32_value host (om_mode (ol_macvlan link)))]
      | OPS_LINK_TUNNEL \<Rightarrow> Some (tunnel_list host (ol_tunnel link) changing)
      | OPS_LINK_VETH \<Rightarrow> Some [(VETH_INFO_PEER, peer_value host (the (ol_veth link)))]
      | _ \<Rightarrow> None)"

text \<open>A link this build can create.\<close>

definition tunnel_ok :: "ops_tunnel \<Rightarrow> bool" where
  "tunnel_ok tunnel \<longleftrightarrow>
     ot_kind tunnel \<noteq> None \<and> ncfg_tunnel_family (cstr (the (ot_kind tunnel))) \<noteq> TUNNEL_NONE \<and>
     ip_field (ot_local tunnel) \<and> ip_field (ot_remote tunnel) \<and> in_range UINT32_MAX (ot_parent tunnel) \<and>
     in_range UINT8_MAX (ot_ttl tunnel) \<and> in_range UINT32_MAX (ot_key tunnel) \<and>
     (ncfg_tunnel_family (cstr (the (ot_kind tunnel))) = TUNNEL_GENEVE \<longrightarrow> ot_parent tunnel = None)"

definition link_ok :: "ops_newlink \<Rightarrow> bool" where
  "link_ok link \<longleftrightarrow>
     (case ol_kind link of
        OPS_LINK_BOND \<Rightarrow> in_range UINT32_MAX (ob_miimon (ol_bond link))
      | OPS_LINK_VXLAN \<Rightarrow>
          ip_field (ox_local (ol_vxlan link)) \<and> ip_field (ox_remote (ol_vxlan link)) \<and>
          in_range UINT32_MAX (ox_parent (ol_vxlan link)) \<and> in_range UINT16_MAX (ox_port (ol_vxlan link))
      | OPS_LINK_TUNNEL \<Rightarrow> tunnel_ok (ol_tunnel link)
      | OPS_LINK_VETH \<Rightarrow> ol_veth link \<noteq> None \<and> name_ok (ol_veth link)
      | _ \<Rightarrow> True)"

lemma piece_lists [simp]:
  "put_ip_if (ncfg_ops_ip_present ip) host out k ip = put_attrs host out (ip_list k ip)"
  "put_u32_if (v \<noteq> None) host out k (number 0 v) = put_attrs host out (u32_list host k v)"
  "put_u8_if (v \<noteq> None) host out k (ucast (number 0 v)) = put_attrs host out (u8_list k v)"
  by (simp_all add: put_ip_if_def put_u32_if_def put_u8_if_def ip_list_def u32_list_def u8_list_def put_values)

lemma piece_short [simp]:
  "short 64 (ip_list k ip)" "short 64 (u32_list host k v)" "short 64 (u8_list k v)"
  "length (ip_list k ip) \<le> 1" "length (u32_list host k v) \<le> 1" "length (u8_list k v) \<le> 1"
  using ip_value_short [of ip] by (simp_all add: ip_list_def u32_list_def u8_list_def)

lemma piece_lookups [simp]:
  "lookup (ip_list k' ip) k = (if k' AND 0x3fff = k \<and> ncfg_ops_ip_present ip then Some (ip_value ip) else None)"
  "Option.bind (lookup (u32_list host k' v) k) (u32_of host) = (if k' AND 0x3fff = k then map_option ucast v else None)"
  "Option.bind (lookup (u8_list k' v) k) u8_of = (if k' AND 0x3fff = k then map_option (\<lambda>v. ucast (ucast v :: 32 word)) v else None)"
  by (auto simp: ip_list_def u32_list_def u8_list_def number_def)

lemma put_narrowed_Inr:
  "in_range ceiling v \<Longrightarrow> put_narrowed put v ceiling what (Inr data) = Inr (if v \<noteq> None then put data (number 0 v) else data)"
  by (auto simp: put_narrowed_def ncfg_ops_narrow_def in_range_def number_def split: option.splits)

lemma put_big_endian:
  "put_be16 host out k h = ncfg_wire_attr_put host out k (be16_value h)"
  "put_be32 host out k w = ncfg_wire_attr_put host out k (be32_value w)"
  "attr_put_u16 host out k h = ncfg_wire_attr_put host out k (u16_value host h)"
  by (simp_all add: put_be16_def put_be32_def attr_put_u16_def be16_value_def be32_value_def u16_value_def)

lemma tunnel_words:
  assumes "ncfg_tunnel_family kind \<noteq> TUNNEL_NONE"
  shows "kind = ascii ''geneve'' \<longleftrightarrow> ncfg_tunnel_family kind = TUNNEL_GENEVE"
    "kind \<noteq> ascii ''geneve'' \<Longrightarrow> strstr_found (ascii ''gre'') kind \<longleftrightarrow> ncfg_tunnel_family kind = TUNNEL_GRE"
  using assms unfolding ncfg_tunnel_family_def by (auto split: if_splits)

lemma tunnel_data_list:
  assumes "tunnel_ok tunnel"
  shows "tunnel_data host data tunnel changing = Inr (put_attrs host data (tunnel_list host tunnel changing))"
proof -
  note ok = assms [unfolded tunnel_ok_def]
  obtain kind where kind: "ot_kind tunnel = Some kind" using ok by auto
  note words = tunnel_words [of "cstr kind"]
  have start: "tunnel_data host data tunnel changing =
     (if cstr kind = ascii ''geneve'' then geneve_data host data tunnel changing (number 0 (ot_key tunnel)) (number 0 (ot_ttl tunnel))
      else if strstr_found (ascii ''gre'') (cstr kind)
      then Inr (gre_data host data tunnel (number 0 (ot_parent tunnel)) (number 0 (ot_key tunnel)) (number 0 (ot_ttl tunnel)))
      else Inr (iptun_data host data tunnel (number 0 (ot_parent tunnel)) (number 0 (ot_ttl tunnel))))"
    using ok by (simp add: tunnel_data_def kind narrow_or_Inr del: ascii_simps)
  have parts: "ot_parent tunnel = None \<Longrightarrow> geneve_data host data tunnel changing (number 0 (ot_key tunnel)) (number 0 (ot_ttl tunnel)) =
      Inr (put_attrs host data (geneve_list host tunnel changing))"
    "gre_data host data tunnel (number 0 (ot_parent tunnel)) (number 0 (ot_key tunnel)) (number 0 (ot_ttl tunnel)) =
      put_attrs host data (gre_list host tunnel)"
    "iptun_data host data tunnel (number 0 (ot_parent tunnel)) (number 0 (ot_ttl tunnel)) = put_attrs host data (iptun_list host tunnel)"
    by (simp_all add: geneve_data_def geneve_list_def gre_data_def gre_list_def iptun_data_def iptun_list_def Let_def put_big_endian
        put_u32_if_def [of "\<not> changing"] put_values del: not_None_eq)
  show ?thesis unfolding start using ok words parts
    by (cases "ncfg_tunnel_family (cstr kind)") (simp_all add: kind tunnel_list_def del: ascii_simps)
qed

lemma vxlan_data_list:
  assumes "in_range UINT32_MAX (ox_parent vxlan)" "in_range UINT16_MAX (ox_port vxlan)"
  shows "vxlan_data host data vxlan changing = Inr (put_attrs host data (vxlan_list host vxlan changing))"
  using assms
  by (cases changing) (simp_all add: vxlan_data_def vxlan_list_def put_narrowed_Inr put_u32_if_def put_values put_big_endian u32_list_def Let_def
      in_range_def [of _ None])

lemma veth_peer_list:
  assumes "name_ok (Some peer)"
  shows "veth_peer host data (Some peer) = Inr (put_attrs host data [(VETH_INFO_PEER, peer_value host peer)])"
    "length (peer_value host peer) \<le> 64"
proof -
  let ?h = "\<lparr>wi_family = 0, wi_kind = 0, wi_index = 0, wi_flags = 0, wi_change = 0\<rparr>"
  let ?nested = "ncfg_wire_attr_put host (ncfg_wire_ifinfo_encode host ?h (ncfg_buf_init 0)) IFLA_IFNAME (cstr peer @ [0])"
  have n: "length (cstr peer) < 16" using assms by (simp add: name_ok_def NCFG_RULE_NAME_MAX_def NCFG_LINK_NAME_MAX_def)
  have pad: "padding (length (cstr peer @ [0])) \<le> 3" unfolding padding_def by presburger
  have body: "holds DEFAULT_LIMIT (ncfg_wire_ifinfo_encode host ?h (ncfg_buf_init 0)) (ifinfo_text host ?h)"
    using ifinfo.encode_image [OF init_holds] by simp
  have wide: "length (ifinfo_text host ?h) = 16" using ifinfo.image_width by (simp add: NCFG_WIRE_IFINFO_LEN_def)
  show len: "length (peer_value host peer) \<le> 64" using n pad by (simp add: peer_value_def wide length_attr_text)
  have "holds DEFAULT_LIMIT ?nested (peer_value host peer)"
    unfolding peer_value_def by (rule holds_attr_put [OF body]) (use n in \<open>simp_all add: wide DEFAULT_LIMIT_def SIZE_MAX_def\<close>)
  with len have "\<not> ncfg_buf_failed ?nested" "take (blength ?nested) (buf_contents ?nested) = peer_value host peer"
    by (auto simp: holds_def buf_inv_def ncfg_buf_failed_def DEFAULT_LIMIT_def)
  then show "veth_peer host data (Some peer) = Inr (put_attrs host data [(VETH_INFO_PEER, peer_value host peer)])"
    by (simp add: veth_peer_def ifinfo_body_def link_index_def put_values)
qed

lemma info_data_list:
  assumes "link_ok link"
  shows "ops_info_data host (ncfg_buf_init 0) link changing =
    Inr (map_option (put_attrs host (ncfg_buf_init 0)) (kind_list host link changing))"
  using assms
  by (cases "ol_kind link") (auto simp: ops_info_data_def kind_list_def link_ok_def put_big_endian put_values put_narrowed_Inr
      u32_list_def vxlan_data_list tunnel_data_list veth_peer_list)

lemma kind_list_short:
  assumes "link_ok link" "kind_list host link changing = Some as"
  shows "short 64 as" "length as \<le> 8"
proof -
  note lists = geneve_list_def gre_list_def iptun_list_def vxlan_list_def
  have t: "short 64 (tunnel_list host t changing)" "short 64 (vxlan_list host v changing)" for t v
    by (simp_all add: tunnel_list_def lists split: tunnel_family.split)
  show "short 64 as"
    using assms t by (auto simp: kind_list_def link_ok_def veth_peer_list split: ops_link_kind.splits)
  have "length (geneve_list host t changing) \<le> 8" "length (gre_list host t) \<le> 8" "length (iptun_list host t) \<le> 8"
    "length (vxlan_list host v changing) \<le> 8" for t v
    by (simp_all add: lists ip_list_def u32_list_def u8_list_def)
  with assms(2) show "length as \<le> 8"
    by (auto simp: kind_list_def tunnel_list_def u32_list_def split: ops_link_kind.splits tunnel_family.splits)
qed

lemma kind_list_sendable:
  assumes "link_ok link" "kind_list host link changing = Some as"
  shows "sendable as" "length as \<le> 200"
  using short_sendable [OF kind_list_short(1) [OF assms]] kind_list_short(2) [OF assms] by simp_all

subsection \<open>The message\<close>

definition link_word :: "ops_newlink \<Rightarrow> bytes" where
  "link_word link = cstr (the (ncfg_ops_link_kind_word link))"

definition info_list :: "byte_order \<Rightarrow> ops_newlink \<Rightarrow> bool \<Rightarrow> (16 word \<times> bytes) list" where
  "info_list host link changing =
     [(IFLA_INFO_KIND, link_word link @ [0])] @
     (case kind_list host link changing of None \<Rightarrow> [] | Some as \<Rightarrow> [(IFLA_INFO_DATA OR NLA_F_NESTED, attrs_text host as)])"

definition parent_list :: "byte_order \<Rightarrow> ops_newlink \<Rightarrow> (16 word \<times> bytes) list" where
  "parent_list host link =
     (if ol_kind link = OPS_LINK_VLAN then [(IFLA_LINK, u32_value host (ov_parent (ol_vlan link)))]
      else if ol_kind link = OPS_LINK_MACVLAN then [(IFLA_LINK, u32_value host (om_parent (ol_macvlan link)))]
      else [])"

definition link_list :: "byte_order \<Rightarrow> bytes \<Rightarrow> ops_newlink \<Rightarrow> (16 word \<times> bytes) list" where
  "link_list host name link =
     [(IFLA_IFNAME, cstr name @ [0])] @ parent_list host link @
     [(IFLA_LINKINFO OR NLA_F_NESTED, attrs_text host (info_list host link False))]"

lemma link_words:
  assumes "link_ok link"
  obtains word where "ncfg_ops_link_kind_word link = Some word" "cstr word = link_word link" "length (link_word link) < 16"
    "is_utf8 (link_word link) 0"
proof -
  have known: "length k < 16 \<and> is_utf8 k 0" if "ncfg_tunnel_family k \<noteq> TUNNEL_NONE" for k
  proof -
    have "k \<in> {ascii ''gre'', ascii ''gretap'', ascii ''ip6gre'', ascii ''ipip'', ascii ''sit'', ascii ''ip6tnl'', ascii ''geneve''}"
      using that by (auto simp: ncfg_tunnel_family_def simp del: ascii_simps split: if_splits)
    moreover have "\<forall>k \<in> {ascii ''gre'', ascii ''gretap'', ascii ''ip6gre'', ascii ''ipip'', ascii ''sit'', ascii ''ip6tnl'',
      ascii ''geneve''}. length k < 16 \<and> is_utf8 k 0" by code_simp
    ultimately show ?thesis by blast
  qed
  have plain: "list_all (\<lambda>k. length (cstr k) < 16 \<and> is_utf8 (cstr k) 0)
     [ascii ''bridge'', ascii ''dummy'', ascii ''vlan'', ascii ''bond'', ascii ''vxlan'', ascii ''ifb'', ascii ''veth'',
      ascii ''wireguard'', ascii ''vrf'', ascii ''macvlan'']" by code_simp
  obtain word where word: "ncfg_ops_link_kind_word link = Some word"
    using assms by (cases "ol_kind link") (auto simp: ncfg_ops_link_kind_word_def link_ok_def tunnel_ok_def)
  then have "length (cstr word) < 16 \<and> is_utf8 (cstr word) 0"
    using assms plain known
    by (cases "ol_kind link") (auto simp: ncfg_ops_link_kind_word_def link_ok_def tunnel_ok_def simp del: ascii_simps)
  with word show ?thesis by (intro that [OF word]) (simp_all add: link_word_def)
qed

lemma info_list_short:
  assumes "link_ok link"
  shows "short 600 (info_list host link changing)" "length (info_list host link changing) \<le> 2"
proof -
  obtain word where "length (link_word link) < 16" using link_words [OF assms] .
  moreover have "length (attrs_text host as) \<le> 600" if "kind_list host link changing = Some as" for as
    using short_text [OF kind_list_short(1) [OF assms that], of host] kind_list_short(2) [OF assms that] by simp
  ultimately show "short 600 (info_list host link changing)" "length (info_list host link changing) \<le> 2"
    by (auto simp: info_list_def split: option.split)
qed

lemma info_list_sendable:
  assumes "link_ok link"
  shows "sendable (info_list host link changing)" "length (info_list host link changing) \<le> 200"
  using short_sendable [OF info_list_short(1) [OF assms]] info_list_short(2) [OF assms, of host changing] by simp_all

lemma link_info_list:
  assumes "link_ok link"
  shows "link_info host (ncfg_buf_init 0) link changing = Inr (put_attrs host (ncfg_buf_init 0) (info_list host link changing))"
proof -
  obtain word where w: "ncfg_ops_link_kind_word link = Some word" "cstr word = link_word link" using link_words [OF assms] .
  have nest: "ncfg_wire_attr_put_nested host out IFLA_INFO_DATA (Some (put_attrs host (ncfg_buf_init 0) as)) =
      ncfg_wire_attr_put host out (IFLA_INFO_DATA OR NLA_F_NESTED) (attrs_text host as)"
    if "kind_list host link changing = Some as" for as out
    by (rule put_nested_list [OF kind_list_sendable [OF assms that]])
  have "\<not> ncfg_buf_failed (put_attrs host (ncfg_buf_init 0) (info_list host link changing))"
    by (rule put_attrs_held(1) [OF info_list_sendable [OF assms]])
  then show ?thesis
    using w by (cases "kind_list host link changing")
      (simp_all add: link_info_def info_data_list [OF assms] info_list_def put_values Let_def nest)
qed

lemma create_link_list:
  assumes "link_ok link"
  shows "ncfg_ops_create_link host (ncfg_buf_init 0) seq (Some name) link =
    ncfg_wire_build_request host (ncfg_buf_init 0) RTM_NEWLINK (NCFG_OPS_ACK_FLAGS OR NLM_F_CREATE OR NLM_F_EXCL) seq
      (Some (ncfg_wire_ifinfo_encode host \<lparr>wi_family = 0, wi_kind = 0, wi_index = 0, wi_flags = 0, wi_change = 0\<rparr> (ncfg_buf_init 0)))
      (Some (put_attrs host (ncfg_buf_init 0) (link_list host name link)))"
proof -
  have "ncfg_wire_attr_put_nested host out IFLA_LINKINFO (Some (put_attrs host (ncfg_buf_init 0) (info_list host link False))) =
      ncfg_wire_attr_put host out (IFLA_LINKINFO OR NLA_F_NESTED) (attrs_text host (info_list host link False))" for out
    by (rule put_nested_list [OF info_list_sendable [OF assms]])
  then show ?thesis
    by (simp add: ncfg_ops_create_link_def link_info_list [OF assms] ifinfo_body_def link_index_def put_values link_list_def
        parent_list_def Let_def)
qed

subsection \<open>The record it is read as\<close>

definition vxlan_seen :: "ops_vxlan \<Rightarrow> vxlan_info" where
  "vxlan_seen vxlan =
     \<lparr>xi_id = Some (ox_id vxlan), xi_link = map_option ucast (ox_parent vxlan), xi_local = strict_ip (ox_local vxlan),
      xi_remote = strict_ip (ox_remote vxlan), xi_port = map_option (\<lambda>v. ucast (ucast v :: 32 word)) (ox_port vxlan)\<rparr>"

text \<open>A geneve has no local end, and is given the number 0 where none was named.\<close>

definition tunnel_seen :: "ops_tunnel \<Rightarrow> tunnel_info" where
  "tunnel_seen tunnel =
     (let family = ncfg_tunnel_family (cstr (the (ot_kind tunnel))) in
      \<lparr>ti_local = (if family = TUNNEL_GENEVE then ip_absent else strict_ip (ot_local tunnel)),
       ti_remote = strict_ip (ot_remote tunnel), ti_ttl = map_option (\<lambda>v. ucast (ucast v :: 32 word)) (ot_ttl tunnel),
       ti_key = (if family = TUNNEL_GENEVE then Some (number 0 (ot_key tunnel))
         else if family = TUNNEL_GRE then map_option ucast (ot_key tunnel) else None)\<rparr>)"

definition link_seen :: "bytes \<Rightarrow> ops_newlink \<Rightarrow> link_record" where
  "link_seen name link =
     (let kind = ol_kind link in
      \<lparr>lr_index = 0, lr_name = name, lr_kind = link_word link, lr_altnames = [], lr_up = False, lr_carrier = True, lr_mtu = 0,
       lr_mac = None, lr_master = None,
       lr_parent = (if kind = OPS_LINK_VLAN then Some (ov_parent (ol_vlan link))
         else if kind = OPS_LINK_MACVLAN then Some (om_parent (ol_macvlan link))
         else if kind = OPS_LINK_VXLAN then map_option ucast (ox_parent (ol_vxlan link)) else None),
       lr_bond = (if kind = OPS_LINK_BOND
         then Some \<lparr>bi_mode = Some (ob_mode (ol_bond link)), bi_miimon = map_option ucast (ob_miimon (ol_bond link))\<rparr> else None),
       lr_bridge = None,
       lr_macvlan = (if kind = OPS_LINK_MACVLAN then Some (Some (om_mode (ol_macvlan link))) else None),
       lr_vlan = (if kind = OPS_LINK_VLAN
         then Some \<lparr>vi_id = Some (ov_id (ol_vlan link)), vi_protocol = Some (ov_protocol (ol_vlan link))\<rparr> else None),
       lr_tunnel = (if kind = OPS_LINK_TUNNEL then Some (tunnel_seen (ol_tunnel link)) else None),
       lr_vxlan = (if kind = OPS_LINK_VXLAN then Some (vxlan_seen (ol_vxlan link)) else None),
       lr_ipv6_token = ip_absent\<rparr>)"

lemma piece_finds:
  "lookup (u32_list host k' v) k = (if k' AND 0x3fff = k \<and> v \<noteq> None then Some (u32_value host (number 0 v)) else None)"
  "lookup (u8_list k' v) k = (if k' AND 0x3fff = k \<and> v \<noteq> None then Some [ucast (number 0 v)] else None)"
  by (simp_all add: u32_list_def u8_list_def)

lemma gre_finds:
  "lookup (gre_list host t) IFLA_GRE_LOCAL = (if ncfg_ops_ip_present (ot_local t) then Some (ip_value (ot_local t)) else None)"
  "lookup (gre_list host t) IFLA_GRE_REMOTE = (if ncfg_ops_ip_present (ot_remote t) then Some (ip_value (ot_remote t)) else None)"
  "Option.bind (lookup (gre_list host t) IFLA_GRE_TTL) u8_of = map_option (\<lambda>v. ucast (ucast v :: 32 word)) (ot_ttl t)"
  "Option.bind (lookup (gre_list host t) IFLA_GRE_IFLAGS) be16_of = (if ot_key t = None then None else Some OPS_GRE_KEY_FLAG)"
  "Option.bind (lookup (gre_list host t) IFLA_GRE_IKEY) be32_of = map_option ucast (ot_key t)"
  by (auto simp: gre_list_def piece_finds number_def)

lemma iptun_finds:
  "lookup (iptun_list host t) IFLA_IPTUN_LOCAL = (if ncfg_ops_ip_present (ot_local t) then Some (ip_value (ot_local t)) else None)"
  "lookup (iptun_list host t) IFLA_IPTUN_REMOTE = (if ncfg_ops_ip_present (ot_remote t) then Some (ip_value (ot_remote t)) else None)"
  "Option.bind (lookup (iptun_list host t) IFLA_IPTUN_TTL) u8_of = map_option (\<lambda>v. ucast (ucast v :: 32 word)) (ot_ttl t)"
  by (auto simp: iptun_list_def piece_finds number_def)

lemma geneve_finds:
  "lookup (geneve_list host t False) IFLA_GENEVE_REMOTE =
     (if ncfg_ops_ip_present (ot_remote t) \<and> ip_family (ot_remote t) \<noteq> AF_INET6 then Some (ip_value (ot_remote t)) else None)"
  "lookup (geneve_list host t False) IFLA_GENEVE_REMOTE6 =
     (if ncfg_ops_ip_present (ot_remote t) \<and> ip_family (ot_remote t) = AF_INET6 then Some (ip_value (ot_remote t)) else None)"
  "Option.bind (lookup (geneve_list host t False) IFLA_GENEVE_TTL) u8_of = map_option (\<lambda>v. ucast (ucast v :: 32 word)) (ot_ttl t)"
  "Option.bind (lookup (geneve_list host t False) IFLA_GENEVE_ID) (u32_of host) = Some (number 0 (ot_key t))"
  by (auto simp: geneve_list_def piece_finds number_def)

lemma vxlan_finds:
  "Option.bind (lookup (vxlan_list host x False) IFLA_VXLAN_ID) (u32_of host) = Some (ox_id x)"
  "Option.bind (lookup (vxlan_list host x False) IFLA_VXLAN_LINK) (u32_of host) = map_option ucast (ox_parent x)"
  "lookup (vxlan_list host x False) IFLA_VXLAN_LOCAL =
     (if ncfg_ops_ip_present (ox_local x) \<and> ip_family (ox_local x) \<noteq> AF_INET6 then Some (ip_value (ox_local x)) else None)"
  "lookup (vxlan_list host x False) IFLA_VXLAN_LOCAL6 =
     (if ncfg_ops_ip_present (ox_local x) \<and> ip_family (ox_local x) = AF_INET6 then Some (ip_value (ox_local x)) else None)"
  "lookup (vxlan_list host x False) IFLA_VXLAN_GROUP =
     (if ncfg_ops_ip_present (ox_remote x) \<and> ip_family (ox_remote x) \<noteq> AF_INET6 then Some (ip_value (ox_remote x)) else None)"
  "lookup (vxlan_list host x False) IFLA_VXLAN_GROUP6 =
     (if ncfg_ops_ip_present (ox_remote x) \<and> ip_family (ox_remote x) = AF_INET6 then Some (ip_value (ox_remote x)) else None)"
  "Option.bind (lookup (vxlan_list host x False) IFLA_VXLAN_PORT) be16_of = map_option (\<lambda>v. ucast (ucast v :: 32 word)) (ox_port x)"
  by (auto simp: vxlan_list_def piece_finds number_def)

lemma read_tunnel_back:
  assumes "tunnel_ok tunnel" "written host mem at (tunnel_list host tunnel False)"
  shows "read_tunnel host mem (ncfg_tunnel_family (cstr (the (ot_kind tunnel)))) (area_of host at (tunnel_list host tunnel False)) =
    Inr (tunnel_seen tunnel)"
proof -
  note ok = assms(1) [unfolded tunnel_ok_def]
  show ?thesis
  proof (cases "ncfg_tunnel_family (cstr (the (ot_kind tunnel)))")
    case TUNNEL_GRE
    then have as: "tunnel_list host tunnel False = gre_list host tunnel" by (simp add: tunnel_list_def)
    note w = assms(2) [unfolded as]
    have "OPS_GRE_KEY_FLAG AND NCFG_GRE_KEY_FLAG \<noteq> 0" by (simp add: OPS_GRE_KEY_FLAG_def NCFG_GRE_KEY_FLAG_def)
    moreover have "area_ip host mem (area_of host at (gre_list host tunnel)) IFLA_GRE_LOCAL True = Inr (strict_ip (ot_local tunnel))"
      "area_ip host mem (area_of host at (gre_list host tunnel)) IFLA_GRE_REMOTE True = Inr (strict_ip (ot_remote tunnel))"
      using ok by (simp_all add: area_ip_strict [OF w _ gre_finds(1)] area_ip_strict [OF w _ gre_finds(2)])
    ultimately show ?thesis using TUNNEL_GRE
      by (cases "ot_key tunnel") (simp_all add: as read_tunnel_def tunnel_seen_def written_area(1) [OF w] written_be [OF w] gre_finds)
  next
    case TUNNEL_IP
    then have as: "tunnel_list host tunnel False = iptun_list host tunnel" by (simp add: tunnel_list_def)
    note w = assms(2) [unfolded as]
    have "area_ip host mem (area_of host at (iptun_list host tunnel)) IFLA_IPTUN_LOCAL True = Inr (strict_ip (ot_local tunnel))"
      "area_ip host mem (area_of host at (iptun_list host tunnel)) IFLA_IPTUN_REMOTE True = Inr (strict_ip (ot_remote tunnel))"
      using ok by (simp_all add: area_ip_strict [OF w _ iptun_finds(1)] area_ip_strict [OF w _ iptun_finds(2)])
    with TUNNEL_IP show ?thesis
      by (simp add: as read_tunnel_def tunnel_seen_def written_area(1) [OF w] iptun_finds)
  next
    case TUNNEL_GENEVE
    then have as: "tunnel_list host tunnel False = geneve_list host tunnel False" by (simp add: tunnel_list_def)
    note w = assms(2) [unfolded as]
    have "area_ip_either host mem (area_of host at (geneve_list host tunnel False)) IFLA_GENEVE_REMOTE IFLA_GENEVE_REMOTE6 =
        Inr (strict_ip (ot_remote tunnel))"
      using ok by (intro area_ip_either_back [OF w] geneve_finds) simp
    with TUNNEL_GENEVE show ?thesis
      by (simp add: as read_tunnel_def tunnel_seen_def written_area(1,3) [OF w] geneve_finds)
  qed (use ok in simp)
qed

lemma read_vxlan_back:
  assumes "ip_field (ox_local vxlan)" "ip_field (ox_remote vxlan)" "written host mem at (vxlan_list host vxlan False)"
  shows "read_vxlan host mem (area_of host at (vxlan_list host vxlan False)) = Inr (vxlan_seen vxlan)"
proof -
  note w = assms(3)
  have "area_ip_either host mem (area_of host at (vxlan_list host vxlan False)) IFLA_VXLAN_LOCAL IFLA_VXLAN_LOCAL6 =
      Inr (strict_ip (ox_local vxlan))"
    "area_ip_either host mem (area_of host at (vxlan_list host vxlan False)) IFLA_VXLAN_GROUP IFLA_VXLAN_GROUP6 =
      Inr (strict_ip (ox_remote vxlan))"
    by (rule area_ip_either_back [OF w assms(1)] area_ip_either_back [OF w assms(2)]; rule vxlan_finds)+
  then show ?thesis
    by (simp add: read_vxlan_def vxlan_seen_def written_area(3) [OF w] written_be [OF w] vxlan_finds)
qed

text \<open>The record before the part of the kind is read, and with it.\<close>

definition link_bare :: "bytes \<Rightarrow> ops_newlink \<Rightarrow> link_record" where
  "link_bare name link =
     \<lparr>lr_index = 0, lr_name = name, lr_kind = link_word link, lr_altnames = [], lr_up = False, lr_carrier = True, lr_mtu = 0,
      lr_mac = None, lr_master = None, lr_parent = None, lr_bond = None, lr_bridge = None, lr_macvlan = None, lr_vlan = None,
      lr_tunnel = None, lr_vxlan = None, lr_ipv6_token = ip_absent\<rparr>"

lemma family_words:
  assumes "ncfg_tunnel_family kind \<noteq> TUNNEL_NONE"
  shows "kind \<noteq> ascii ''bond''" "kind \<noteq> ascii ''bridge''" "kind \<noteq> ascii ''macvlan''" "kind \<noteq> ascii ''vlan''" "kind \<noteq> ascii ''vxlan''"
  using assms by (auto simp: ncfg_tunnel_family_def)

lemma link_word_plain:
  "ol_kind link = OPS_LINK_VLAN \<Longrightarrow> link_word link = ascii ''vlan''" "ol_kind link = OPS_LINK_BOND \<Longrightarrow> link_word link = ascii ''bond''"
  "ol_kind link = OPS_LINK_VXLAN \<Longrightarrow> link_word link = ascii ''vxlan''" "ol_kind link = OPS_LINK_VRF \<Longrightarrow> link_word link = ascii ''vrf''"
  "ol_kind link = OPS_LINK_MACVLAN \<Longrightarrow> link_word link = ascii ''macvlan''"
  "ol_kind link = OPS_LINK_VETH \<Longrightarrow> link_word link = ascii ''veth''"
  "ol_kind link = OPS_LINK_TUNNEL \<Longrightarrow> link_word link = cstr (the (ot_kind (ol_tunnel link)))"
  by (simp_all add: link_word_def ncfg_ops_link_kind_word_def cstr_def)

lemma read_kind_back:
  assumes "link_ok link" "kind_list host link False = Some as" "written host mem at as"
  shows "read_kind host mem (area_of host at as) (link_bare name link) = Inr ((link_seen name link)\<lparr>lr_parent := None\<rparr>)"
proof -
  note w = assms(3) and area = written_area(1-3) [OF assms(3)] written_be [OF assms(3)]
  note plain = link_word_plain [of link]
  show ?thesis
  proof (cases "ol_kind link")
    case OPS_LINK_TUNNEL
    then have ok: "tunnel_ok (ol_tunnel link)" and as: "as = tunnel_list host (ol_tunnel link) False"
      using assms(1,2) by (simp_all add: link_ok_def kind_list_def)
    have f: "ncfg_tunnel_family (cstr (the (ot_kind (ol_tunnel link)))) \<noteq> TUNNEL_NONE" using ok by (simp add: tunnel_ok_def)
    show ?thesis
      using read_tunnel_back [OF ok w [unfolded as]] f family_words [OF f] plain(7) [OF OPS_LINK_TUNNEL] OPS_LINK_TUNNEL
      by (simp add: as read_kind_def link_bare_def link_seen_def Let_def del: ascii_simps)
  next
    case OPS_LINK_VXLAN
    then have ok: "ip_field (ox_local (ol_vxlan link))" "ip_field (ox_remote (ol_vxlan link))" and as: "as = vxlan_list host (ol_vxlan link) False"
      using assms(1,2) by (simp_all add: link_ok_def kind_list_def)
    show ?thesis
      using read_vxlan_back [OF ok w [unfolded as]] plain(3) [OF OPS_LINK_VXLAN] OPS_LINK_VXLAN
      by (simp add: as read_kind_def link_bare_def link_seen_def Let_def)
  next
    case OPS_LINK_BOND
    with plain(2) [OF OPS_LINK_BOND] assms(2) show ?thesis
      by (auto simp: read_kind_def link_bare_def link_seen_def kind_list_def read_bond_def area piece_finds number_def Let_def)
  qed (use assms(2) plain in \<open>auto simp: read_kind_def link_bare_def link_seen_def kind_list_def read_vlan_def read_macvlan_def
        ncfg_tunnel_family_def area Let_def\<close>)
qed

lemma bare_seen: "kind_list host link changing = None \<Longrightarrow> (link_seen name link)\<lparr>lr_parent := None\<rparr> = link_bare name link"
  by (cases "ol_kind link") (simp_all add: kind_list_def link_bare_def link_seen_def Let_def)

lemma link_finds:
  "lookup (link_list host name link) IFLA_IFNAME = Some (cstr name @ [0])"
  "lookup (link_list host name link) IFLA_LINK =
     (if ol_kind link = OPS_LINK_VLAN then Some (u32_value host (ov_parent (ol_vlan link)))
      else if ol_kind link = OPS_LINK_MACVLAN then Some (u32_value host (om_parent (ol_macvlan link))) else None)"
  "lookup (link_list host name link) IFLA_LINKINFO = Some (attrs_text host (info_list host link False))"
  "k \<in> {IFLA_MTU, IFLA_PROP_LIST, IFLA_ADDRESS, IFLA_MASTER, IFLA_AF_SPEC, IFLA_CARRIER} \<Longrightarrow>
     lookup (link_list host name link) k = None"
  by (auto simp: link_list_def parent_list_def NLA_F_NESTED_def)

text \<open>What stands at the top of the message.\<close>

lemma link_top:
  assumes "name_ok (Some name)" "written host mem at (link_list host name link)"
  defines "area \<equiv> area_of host at (link_list host name link)"
  shows "area_string host mem area IFLA_IFNAME NCFG_LINK_NAME_MAX = Inr (Some (cstr name))"
    "area_u32 host mem area IFLA_MTU = Inr None" "read_altnames host mem area = Inr []" "read_mac host mem area = Inr None"
    "area_u32 host mem area IFLA_MASTER = Inr None" "read_token host mem area = Inr ip_absent"
    "area_u8 host mem area IFLA_CARRIER = Inr None"
    "area_u32 host mem area IFLA_LINK =
       Inr (if ol_kind link = OPS_LINK_VLAN then Some (ov_parent (ol_vlan link))
         else if ol_kind link = OPS_LINK_MACVLAN then Some (om_parent (ol_macvlan link)) else None)"
proof -
  note top = written_area(1,3,4) [OF assms(2), folded area_def] area_nest_written(1) [OF assms(2), folded area_def]
  have n: "length (cstr name) < NCFG_LINK_NAME_MAX" "is_utf8 (cstr name) 0" "0 < NCFG_LINK_NAME_MAX"
    using assms(1) by (simp_all add: name_ok_def NCFG_RULE_NAME_MAX_def NCFG_LINK_NAME_MAX_def)
  then show "area_string host mem area IFLA_IFNAME NCFG_LINK_NAME_MAX = Inr (Some (cstr name))"
    by (simp add: top link_finds(1) string_of_def cstr_terminated)
  obtain x where "area_find host mem area IFLA_ADDRESS = Inr x"
    "rel_option (attr_at mem) x (lookup (link_list host name link) IFLA_ADDRESS)"
    using area_find_written [OF assms(2), folded area_def] .
  then show "read_mac host mem area = Inr None" by (simp add: link_finds read_mac_def area_value_def)
  show "area_u32 host mem area IFLA_MTU = Inr None" "read_altnames host mem area = Inr []"
    "area_u32 host mem area IFLA_MASTER = Inr None" "read_token host mem area = Inr ip_absent"
    "area_u8 host mem area IFLA_CARRIER = Inr None"
    by (simp_all add: top link_finds(4) read_altnames_def read_token_def)
  show "area_u32 host mem area IFLA_LINK =
       Inr (if ol_kind link = OPS_LINK_VLAN then Some (ov_parent (ol_vlan link))
         else if ol_kind link = OPS_LINK_MACVLAN then Some (om_parent (ol_macvlan link)) else None)"
    by (simp add: top link_finds(2))
qed

text \<open>What stands in the nests.\<close>

lemma link_nests:
  assumes "link_ok link" "written host mem at (link_list host name link)"
  obtains nest data where "area_nest host mem (area_of host at (link_list host name link)) IFLA_LINKINFO = Inr (Some nest)"
    "area_string host mem nest IFLA_INFO_KIND NCFG_LINK_KIND_MAX = Inr (Some (link_word link))"
    "dump_info_data host mem (Some nest) = Inr data"
    "(case data of None \<Rightarrow> Inr (link_bare n link) | Some data \<Rightarrow> read_kind host mem data (link_bare n link)) =
       Inr ((link_seen n link)\<lparr>lr_parent := None\<rparr>)"
proof -
  let ?info = "info_list host link False"
  obtain p where p: "area_nest host mem (area_of host at (link_list host name link)) IFLA_LINKINFO = Inr (Some (area_of host p ?info))"
    and w: "written host mem p ?info"
    using area_nest_written(2) [OF assms(2) link_finds(3) info_list_sendable(1) [OF assms(1)]] by blast
  obtain word where word: "cstr word = link_word link" "length (link_word link) < 16" "is_utf8 (link_word link) 0"
    using link_words [OF assms(1)] .
  then have "cstr (link_word link @ [0]) = link_word link" by (metis cstr_terminated)
  with word have kind: "area_string host mem (area_of host p ?info) IFLA_INFO_KIND NCFG_LINK_KIND_MAX = Inr (Some (link_word link))"
    by (simp add: written_area(4) [OF w] NCFG_LINK_KIND_MAX_def) (simp add: info_list_def string_of_def)
  show ?thesis
  proof (cases "kind_list host link False")
    case None
    then have "lookup ?info IFLA_INFO_DATA = None" by (simp add: info_list_def)
    then have "dump_info_data host mem (Some (area_of host p ?info)) = Inr None" by (simp add: dump_info_data_def area_nest_written(1) [OF w])
    with p kind show ?thesis by (rule that) (simp add: bare_seen [OF None])
  next
    case (Some as)
    then have "lookup ?info IFLA_INFO_DATA = Some (attrs_text host as)" by (simp add: info_list_def NLA_F_NESTED_def)
    then obtain q where q: "area_nest host mem (area_of host p ?info) IFLA_INFO_DATA = Inr (Some (area_of host q as))"
      and v: "written host mem q as" using area_nest_written(2) [OF w _ kind_list_sendable(1) [OF assms(1) Some]] by blast
    from q have "dump_info_data host mem (Some (area_of host p ?info)) = Inr (Some (area_of host q as))" by (simp add: dump_info_data_def)
    with p kind show ?thesis by (rule that) (simp add: read_kind_back [OF assms(1) Some v])
  qed
qed

lemma dump_link_back:
  assumes "link_ok link" "name_ok (Some name)" "written host mem (payload + NCFG_WIRE_IFINFO_LEN) (link_list host name link)"
    and "ncfg_wire_ifinfo_decode host mem payload len =
      Inr \<lparr>wi_family = 0, wi_kind = 0, wi_index = 0, wi_flags = 0, wi_change = 0\<rparr>"
    and area: "ncfg_wire_attrs_start (Some (payload + NCFG_WIRE_IFINFO_LEN)) (len - NCFG_WIRE_IFINFO_LEN) =
      area_of host (payload + NCFG_WIRE_IFINFO_LEN) (link_list host name link)"
  shows "ncfg_dump_link host mem payload len = Inr (link_seen (cstr name) link)"
proof -
  obtain nest data where
    n: "area_nest host mem (area_of host (payload + NCFG_WIRE_IFINFO_LEN) (link_list host name link)) IFLA_LINKINFO = Inr (Some nest)"
      "area_string host mem nest IFLA_INFO_KIND NCFG_LINK_KIND_MAX = Inr (Some (link_word link))"
      "dump_info_data host mem (Some nest) = Inr data"
    and k: "(case data of None \<Rightarrow> Inr (link_bare (cstr name) link) | Some data \<Rightarrow> read_kind host mem data (link_bare (cstr name) link)) =
      Inr ((link_seen (cstr name) link)\<lparr>lr_parent := None\<rparr>)"
    using link_nests [OF assms(1,3)] .
  note bare = k [unfolded link_bare_def]
  show ?thesis
    by (simp add: ncfg_dump_link_def assms(4) area link_top [OF assms(2,3)] n bare Let_def)
      (simp add: link_seen_def vxlan_seen_def Let_def)
qed


definition sample_tunnel :: ops_newlink where
  "sample_tunnel =
     \<lparr>ol_kind = OPS_LINK_TUNNEL, ol_vlan = \<lparr>ov_parent = 0, ov_id = 0, ov_protocol = 0\<rparr>, ol_bond = \<lparr>ob_mode = 0, ob_miimon = None\<rparr>,
      ol_vxlan = \<lparr>ox_id = 0, ox_parent = None, ox_local = ip_absent, ox_remote = ip_absent, ox_port = None\<rparr>, ol_veth = None,
      ol_vrf = 0, ol_macvlan = \<lparr>om_parent = 0, om_mode = 0\<rparr>,
      ol_tunnel = \<lparr>ot_kind = Some (ascii ''gretap''), ot_parent = Some 2, ot_local = ip_absent, ot_remote = sample_ip,
        ot_ttl = Some 64, ot_key = Some 4000000000\<rparr>\<rparr>"


end
