(* ===== verification/Ncfg_Vlan_Props.thy ===== *)
theory Ncfg_Vlan_Props
  imports Ncfg_Link_Props
begin

text \<open>
  The VLANs of a bridge's ports: what the kernel lists, ranges included, against what the reader makes of it,
  and the message that changes one VLAN against the reader.
\<close>

subsection \<open>The VLANs of a bridge\<close>

text \<open>VLANs as the kernel lists them: alone, or the two ends of a range that have their flags in common.\<close>

definition vlan_info_value :: "byte_order \<Rightarrow> 16 word \<Rightarrow> 16 word \<Rightarrow> bytes" where
  "vlan_info_value host flags vid = u16_value host flags @ u16_value host vid"

definition vlan_flags :: "bool \<Rightarrow> bool \<Rightarrow> 16 word" where
  "vlan_flags pvid untagged = (if pvid then BRIDGE_VLAN_INFO_PVID else 0) OR (if untagged then BRIDGE_VLAN_INFO_UNTAGGED else 0)"

type_synonym vlan_span = "16 word \<times> 16 word \<times> bool \<times> bool"

definition span_list :: "byte_order \<Rightarrow> vlan_span \<Rightarrow> (16 word \<times> bytes) list" where
  "span_list host span =
     (case span of (low, high, pvid, untagged) \<Rightarrow>
        if low = high then [(IFLA_BRIDGE_VLAN_INFO, vlan_info_value host (vlan_flags pvid untagged) low)]
        else [(IFLA_BRIDGE_VLAN_INFO, vlan_info_value host (vlan_flags pvid untagged OR BRIDGE_VLAN_INFO_RANGE_BEGIN) low),
              (IFLA_BRIDGE_VLAN_INFO, vlan_info_value host (vlan_flags pvid untagged OR BRIDGE_VLAN_INFO_RANGE_END) high)])"

definition span_records :: "32 word \<Rightarrow> vlan_span \<Rightarrow> vlan_record list" where
  "span_records index span =
     (case span of (low, high, pvid, untagged) \<Rightarrow>
        map (\<lambda>vid. \<lparr>vr_index = index, vr_vid = of_nat vid, vr_pvid = pvid, vr_untagged = untagged\<rparr>) [unat low..<Suc (unat high)])"

lemma length_vlan_info [simp]: "length (vlan_info_value host flags vid) = 4"
  by (simp add: vlan_info_value_def)

lemma span_simps:
  "span_list host (low, low, p, u) = [(IFLA_BRIDGE_VLAN_INFO, vlan_info_value host (vlan_flags p u) low)]"
  "low \<noteq> high \<Longrightarrow> span_list host (low, high, p, u) =
     [(IFLA_BRIDGE_VLAN_INFO, vlan_info_value host (vlan_flags p u OR BRIDGE_VLAN_INFO_RANGE_BEGIN) low),
      (IFLA_BRIDGE_VLAN_INFO, vlan_info_value host (vlan_flags p u OR BRIDGE_VLAN_INFO_RANGE_END) high)]"
  "span_records index (low, low, p, u) = [\<lparr>vr_index = index, vr_vid = low, vr_pvid = p, vr_untagged = u\<rparr>]"
  by (simp_all add: span_list_def span_records_def)

lemma vlan_flag_bits:
  "vlan_flags p u AND BRIDGE_VLAN_INFO_PVID \<noteq> 0 \<longleftrightarrow> p" "vlan_flags p u AND BRIDGE_VLAN_INFO_UNTAGGED \<noteq> 0 \<longleftrightarrow> u"
  "vlan_flags p u AND BRIDGE_VLAN_INFO_RANGE_BEGIN = 0" "vlan_flags p u AND BRIDGE_VLAN_INFO_RANGE_END = 0"
  "(vlan_flags p u OR 8) AND BRIDGE_VLAN_INFO_PVID \<noteq> 0 \<longleftrightarrow> p" "(vlan_flags p u OR 8) AND BRIDGE_VLAN_INFO_UNTAGGED \<noteq> 0 \<longleftrightarrow> u"
  "(vlan_flags p u OR 8) AND BRIDGE_VLAN_INFO_RANGE_BEGIN \<noteq> 0"
  "(vlan_flags p u OR 16) AND BRIDGE_VLAN_INFO_RANGE_BEGIN = 0" "(vlan_flags p u OR 16) AND BRIDGE_VLAN_INFO_RANGE_END \<noteq> 0"
  by (cases p; cases u; simp add: vlan_flags_def)+

text \<open>The loop takes one attribute.\<close>

lemma written_step:
  assumes "written host mem at ((k, v) # as)"
  shows "ncfg_wire_attrs_next host mem (area_of host at ((k, v) # as)) =
      (WIRE_OK \<lparr>wt_kind = k AND 0x3fff, wt_value = Some (at + 4), wt_length = length v\<rparr>, area_of host (at + length (attr_text host k v)) as)"
    "written host mem (at + length (attr_text host k v)) as" "\<exists>rest. drop (at + 4) mem = v @ rest"
proof -
  from assms obtain rest where t: "drop at mem = attr_text host k v @ attrs_text host as @ rest" and v: "length v \<le> 65531" and s: "sendable as"
    by (auto simp: written_def attrs_text_Cons)
  show "ncfg_wire_attrs_next host mem (area_of host at ((k, v) # as)) =
      (WIRE_OK \<lparr>wt_kind = k AND 0x3fff, wt_value = Some (at + 4), wt_length = length v\<rparr>, area_of host (at + length (attr_text host k v)) as)"
    using attrs_next_text [OF t v, of "length (attrs_text host ((k, v) # as))"] by (simp add: area_of_def attrs_text_Cons)
  show "written host mem (at + length (attr_text host k v)) as" using attr_text_read(4) [OF t v] s by (auto simp: written_def)
  show "\<exists>rest. drop (at + 4) mem = v @ rest"
    using drop_further [of at mem "native host (le_bytes 2 (4 + length v)) @ native host (le_bytes 2 (unat k))" _ 4] t
    by (auto simp: attr_text_def)
qed

lemma vlan_info_read:
  assumes "written host mem at ((k, vlan_info_value host flags vid) # as)"
  shows "read_u16 host mem (at + 4) = flags" "read_u16 host mem (at + 4 + 2) = vid"
proof -
  obtain rest where d: "drop (at + 4) mem = u16_value host flags @ u16_value host vid @ rest"
    using written_step(3) [OF assms] by (auto simp: vlan_info_value_def)
  from drop_further [OF d, of 2] have e: "drop (at + 4 + 2) mem = u16_value host vid @ rest" by simp
  show "read_u16 host mem (at + 4) = flags" using d unfolding u16_value_def by (rule read_u16_at)
  show "read_u16 host mem (at + 4 + 2) = vid" using e unfolding u16_value_def by (rule read_u16_at)
qed

lemma loop_entry:
  fixes index :: "32 word"
  assumes "written host mem at ((IFLA_BRIDGE_VLAN_INFO, vlan_info_value host flags vid) # as)"
  defines "r \<equiv> \<lparr>vr_index = index, vr_vid = vid, vr_pvid = (flags AND BRIDGE_VLAN_INFO_PVID \<noteq> 0),
      vr_untagged = (flags AND BRIDGE_VLAN_INFO_UNTAGGED \<noteq> 0)\<rparr>"
    and "there \<equiv> at + length (attr_text host IFLA_BRIDGE_VLAN_INFO (vlan_info_value host flags vid))"
  shows "bridge_vlans_loop host mem index (area_of host at ((IFLA_BRIDGE_VLAN_INFO, vlan_info_value host flags vid) # as)) start out =
    (if flags AND BRIDGE_VLAN_INFO_RANGE_BEGIN \<noteq> 0 then bridge_vlans_loop host mem index (area_of host there as) (Some r) out
     else (case (if flags AND BRIDGE_VLAN_INFO_RANGE_END \<noteq> 0 then start else None) of
         Some start \<Rightarrow> bridge_vlans_loop host mem index (area_of host there as) None (out @ vlan_range start r)
       | None \<Rightarrow> bridge_vlans_loop host mem index (area_of host there as) start (out @ [r])))"
  using vlan_info_read [OF assms(1)] unfolding r_def there_def
  by (subst bridge_vlans_loop.simps, cases start) (simp_all add: written_step(1) [OF assms(1)] Let_def)

lemma loop_spans:
  "written host mem at (concat (map (span_list host) spans)) \<Longrightarrow>
   bridge_vlans_loop host mem index (area_of host at (concat (map (span_list host) spans))) None out =
     Inr (out @ concat (map (span_records index) spans))"
proof (induction spans arbitrary: at out)
  case Nil
  have "ncfg_wire_attrs_next host mem (area_of host at []) = (WIRE_END, area_of host at [])"
    by (simp add: area_of_def attrs_text_def ncfg_wire_attrs_next_def)
  then show ?case by (subst bridge_vlans_loop.simps) simp
next
  case (Cons span spans)
  obtain low high p u where span: "span = (low, high, p, u)" by (metis prod.exhaust)
  let ?rest = "concat (map (span_list host) spans)"
  show ?case
  proof (cases "low = high")
    case True
    with span have span: "span = (low, low, p, u)" by simp
    then have w: "written host mem at ((IFLA_BRIDGE_VLAN_INFO, vlan_info_value host (vlan_flags p u) low) # ?rest)"
      using Cons.prems by (simp add: span_simps)
    from Cons.IH [OF written_step(2) [OF w]] show ?thesis
      by (simp add: span span_simps loop_entry [OF w] vlan_flag_bits)
  next
    case False
    let ?one = "vlan_info_value host (vlan_flags p u OR BRIDGE_VLAN_INFO_RANGE_BEGIN) low"
    let ?two = "vlan_info_value host (vlan_flags p u OR BRIDGE_VLAN_INFO_RANGE_END) high"
    from False have w: "written host mem at ((IFLA_BRIDGE_VLAN_INFO, ?one) # (IFLA_BRIDGE_VLAN_INFO, ?two) # ?rest)"
      using Cons.prems by (simp add: span span_simps)
    note v = written_step(2) [OF w]
    from Cons.IH [OF written_step(2) [OF v]] False show ?thesis
      by (simp add: span span_simps span_records_def [of _ "(low, high, p, u)"] loop_entry [OF w] loop_entry [OF v] vlan_flag_bits
          vlan_range_def comp_def)
  qed
qed

lemma loop_flags:
  assumes "written host mem at ((IFLA_BRIDGE_FLAGS, v) # as)"
  shows "bridge_vlans_loop host mem index (area_of host at ((IFLA_BRIDGE_FLAGS, v) # as)) start out =
    bridge_vlans_loop host mem index (area_of host (at + length (attr_text host IFLA_BRIDGE_FLAGS v)) as) start out"
  by (subst bridge_vlans_loop.simps) (simp add: written_step(1) [OF assms])

lemma sort_one: "sort_vlans [r] = [r]"
  by (simp add: sort_vlans_def)

text \<open>What a dump of a port's VLANs is: a struct that names the port, and the nest.\<close>

definition vlan_dump_text :: "byte_order \<Rightarrow> 32 word \<Rightarrow> vlan_span list \<Rightarrow> bytes" where
  "vlan_dump_text host index spans =
     ifinfo_text host \<lparr>wi_family = AF_BRIDGE, wi_kind = 0, wi_index = index, wi_flags = 0, wi_change = 0\<rparr> @
     attrs_text host [(IFLA_AF_SPEC, attrs_text host (concat (map (span_list host) spans)))]"

lemma spans_short: "short 4 (concat (map (span_list host) spans))" "length (concat (map (span_list host) spans)) \<le> 2 * length spans"
  by (induction spans) (auto simp: span_list_def)

lemma spans_text: "length (attrs_text host (concat (map (span_list host) spans))) \<le> 22 * length spans"
  using short_text [OF spans_short(1), of host host spans] spans_short(2) [of host spans] by simp

lemma signed_index:
  assumes "index \<le> (0x7fffffff :: 32 word)"
  shows "\<not> sint index < 0"
proof -
  have "uint index \<le> 0x7fffffff" using assms by (simp add: word_le_def)
  then have "signed_take_bit 31 (uint index) = uint index" by (intro signed_take_bit_int_eq_self order_trans [OF _ uint_ge_0]) simp_all
  then show ?thesis using uint_ge_0 [of index] by (simp add: sint_uint)
qed

lemma dump_vlans_back:
  assumes "ncfg_wire_ifinfo_decode host mem payload len = Inr info" "index \<le> 0x7fffffff" "wi_index info = index"
    and area: "ncfg_wire_attrs_start (Some (payload + NCFG_WIRE_IFINFO_LEN)) (len - NCFG_WIRE_IFINFO_LEN) = area_of host at as"
    and "written host mem at as" "lookup as IFLA_AF_SPEC = Some (attrs_text host inner)" "sendable inner"
    and loop: "\<And>at'. written host mem at' inner \<Longrightarrow> bridge_vlans_loop host mem index (area_of host at' inner) None [] = Inr rs"
  shows "ncfg_dump_bridge_vlans host mem payload len = Inr (sort_vlans rs)"
proof -
  obtain p where "area_nest host mem (area_of host at as) IFLA_AF_SPEC = Inr (Some (area_of host p inner))"
    and w: "written host mem p inner" using area_nest_written(2) [OF assms(5,6,7)] by blast
  with loop [OF w] assms(1,3) area signed_index [OF assms(2)] show ?thesis by (simp add: ncfg_dump_bridge_vlans_def)
qed

lemma dump_spans:
  assumes "index \<le> 0x7fffffff" and "length spans \<le> 2900"
  shows "ncfg_dump_bridge_vlans host (pre @ vlan_dump_text host index spans) (length pre) (length (vlan_dump_text host index spans)) =
      Inr (sort_vlans (concat (map (span_records index) spans)))"
proof -
  let ?h = "\<lparr>wi_family = AF_BRIDGE, wi_kind = 0, wi_index = index, wi_flags = 0, wi_change = 0\<rparr>"
  let ?inner = "concat (map (span_list host) spans)" and ?mem = "pre @ vlan_dump_text host index spans"
  let ?as = "[(IFLA_AF_SPEC, attrs_text host ?inner)]"
  have wide: "length (ifinfo_text host ?h) = NCFG_WIRE_IFINFO_LEN" by (rule ifinfo.image_width)
  have fits: "sendable ?as" using spans_text [of host spans] assms(2) by simp
  have inner: "sendable ?inner" using short_sendable [OF spans_short(1)] by simp
  have d: "ncfg_wire_ifinfo_decode host ?mem (length pre) (length (vlan_dump_text host index spans)) = Inr ?h"
    by (rule ifinfo.decode_image [where rest = "attrs_text host ?as"]) (simp_all add: vlan_dump_text_def wide)
  have w: "written host ?mem (length pre + NCFG_WIRE_IFINFO_LEN) ?as"
    using fits by (simp add: written_def vlan_dump_text_def wide [symmetric])
  have area: "ncfg_wire_attrs_start (Some (length pre + NCFG_WIRE_IFINFO_LEN)) (length (vlan_dump_text host index spans) - NCFG_WIRE_IFINFO_LEN) =
      area_of host (length pre + NCFG_WIRE_IFINFO_LEN) ?as"
    by (simp add: vlan_dump_text_def ncfg_wire_attrs_start_def area_of_def wide)
  show ?thesis by (rule dump_vlans_back [OF d assms(1) _ area w _ inner]) (simp_all add: loop_spans)
qed

definition vlan_change_list :: "byte_order \<Rightarrow> ops_vlan_change \<Rightarrow> (16 word \<times> bytes) list" where
  "vlan_change_list host vlan =
     [(IFLA_BRIDGE_FLAGS, u16_value host (if oc_on_self vlan then BRIDGE_FLAGS_SELF else BRIDGE_FLAGS_MASTER)),
      (IFLA_BRIDGE_VLAN_INFO, vlan_info_value host (vlan_flags (oc_pvid vlan) (oc_untagged vlan)) (oc_vid vlan))]"

lemma vlan_changed:
  assumes "index \<le> 0x7fffffff"
  shows "\<exists>out m. ncfg_ops_set_bridge_vlan host (ncfg_buf_init 0) seq index (Some vlan) = (None, out) \<and>
      carries host out (if oc_add vlan then RTM_SETLINK else RTM_DELLINK) NCFG_OPS_ACK_FLAGS seq m \<and>
      ncfg_dump_bridge_vlans host (ncfg_buf_text out) (wg_payload m) (wg_payload_length m) =
        Inr [\<lparr>vr_index = index, vr_vid = oc_vid vlan, vr_pvid = oc_pvid vlan, vr_untagged = oc_untagged vlan\<rparr>]"
proof -
  let ?inner = "vlan_change_list host vlan" and ?kind = "if oc_add vlan then RTM_SETLINK else RTM_DELLINK"
  let ?as = "[(IFLA_AF_SPEC OR NLA_F_NESTED, attrs_text host ?inner)]"
  let ?h = "\<lparr>wi_family = AF_BRIDGE, wi_kind = 0, wi_index = index, wi_flags = 0, wi_change = 0\<rparr>"
  have inner: "sendable ?inner" "length ?inner \<le> 200" by (simp_all add: vlan_change_list_def)
  have "length (attrs_text host ?inner) \<le> 65531"
    using short_text [of 4 ?inner host] by (simp add: vlan_change_list_def)
  then have s: "sendable ?as" "length ?as \<le> 200" by simp_all
  obtain out m where out: "ncfg_wire_build_request host (ncfg_buf_init 0) ?kind NCFG_OPS_ACK_FLAGS seq
      (Some (ncfg_wire_ifinfo_encode host ?h (ncfg_buf_init 0))) (Some (put_attrs host (ncfg_buf_init 0) ?as)) = (None, out)"
    and m: "built_message host ?kind NCFG_OPS_ACK_FLAGS seq (ifinfo_text host ?h) ?as out m"
    and d: "ncfg_wire_ifinfo_decode host (ncfg_buf_text out) (wg_payload m) (wg_payload_length m) = Inr ?h"
    using ifinfo.struct_request [OF lens(1,2) s] .
  have nest: "ncfg_wire_attr_put_nested host (ncfg_buf_init 0) IFLA_AF_SPEC (Some (put_attrs host (ncfg_buf_init 0) ?inner)) =
      put_attrs host (ncfg_buf_init 0) ?as" by (simp add: put_nested_list [OF inner])
  have "ncfg_ops_set_bridge_vlan host (ncfg_buf_init 0) seq index (Some vlan) = (None, out)"
    using out nest assms
    by (simp add: ncfg_ops_set_bridge_vlan_def ifinfo_body_def link_index_def vlan_change_list_def put_big_endian vlan_info_value_def
        vlan_flags_def u16_value_def not_le [symmetric] Let_def)
  moreover have len: "length (ifinfo_text host ?h) = NCFG_WIRE_IFINFO_LEN" by (rule ifinfo.image_width)
  have "bridge_vlans_loop host (ncfg_buf_text out) index (area_of host at' ?inner) None [] =
      Inr [\<lparr>vr_index = index, vr_vid = oc_vid vlan, vr_pvid = oc_pvid vlan, vr_untagged = oc_untagged vlan\<rparr>]"
    if "written host (ncfg_buf_text out) at' ?inner" for at'
    using loop_flags [OF that [unfolded vlan_change_list_def]] written_step(2) [OF that [unfolded vlan_change_list_def]]
      loop_spans [of host _ _ "[(oc_vid vlan, oc_vid vlan, oc_pvid vlan, oc_untagged vlan)]"]
    by (simp add: span_simps vlan_change_list_def)
  from dump_vlans_back [OF d assms _ built_area [OF m len] message_written [OF m len] _ inner(1) this]
  have "ncfg_dump_bridge_vlans host (ncfg_buf_text out) (wg_payload m) (wg_payload_length m) =
        Inr [\<lparr>vr_index = index, vr_vid = oc_vid vlan, vr_pvid = oc_pvid vlan, vr_untagged = oc_untagged vlan\<rparr>]"
    by (simp add: NLA_F_NESTED_def sort_one)
  ultimately show ?thesis using m by (auto simp: built_message_def)
qed

text \<open>
  C31.  The VLANs of a bridge are read one by one.  Whatever list of VLANs and of ranges of them the kernel
  gives for a port, up to what one nest can hold, the reader answers with every VLAN of every range, each with
  the flags of its range, in order of number.  And the message that adds or removes one VLAN of a port is read
  as that VLAN, with the flags it was given.
\<close>

theorem bridge_vlans_read_back:
  assumes "index \<le> 0x7fffffff" and "length spans \<le> 2900"
  shows "ncfg_dump_bridge_vlans host (pre @ vlan_dump_text host index spans) (length pre) (length (vlan_dump_text host index spans)) =
      Inr (sort_vlans (concat (map (span_records index) spans))) \<and>
    (\<exists>out m. ncfg_ops_set_bridge_vlan host (ncfg_buf_init 0) seq index (Some vlan) = (None, out) \<and>
      carries host out (if oc_add vlan then RTM_SETLINK else RTM_DELLINK) NCFG_OPS_ACK_FLAGS seq m \<and>
      ncfg_dump_bridge_vlans host (ncfg_buf_text out) (wg_payload m) (wg_payload_length m) =
        Inr [\<lparr>vr_index = index, vr_vid = oc_vid vlan, vr_pvid = oc_pvid vlan, vr_untagged = oc_untagged vlan\<rparr>])"
  using dump_spans [OF assms] vlan_changed [OF assms(1)] by blast

theorem bridge_vlans_read_back_witness:
  "(7 :: 32 word) \<le> 0x7fffffff \<and> length [(10 :: 16 word, 12 :: 16 word, False, True), (1, 1, True, True)] \<le> 2900 \<and>
   map_sum id (map (unat \<circ> vr_vid))
     (ncfg_dump_bridge_vlans Big_Endian (vlan_dump_text Big_Endian 7 [(10, 12, False, True), (1, 1, True, True)]) 0
       (length (vlan_dump_text Big_Endian 7 [(10, 12, False, True), (1, 1, True, True)]))) = Inr [1, 10, 11, 12]"
proof -
  have "map (unat \<circ> vr_vid) (sort_vlans (concat (map (span_records 7) [(10, 12, False, True), (1, 1, True, True)]))) = [1, 10, 11, 12]"
    by (simp add: span_records_def sort_vlans_def vlan_key_def upt_rec)
  with bridge_vlans_read_back [of 7 "[(10, 12, False, True), (1, 1, True, True)]" Big_Endian "[]"] show ?thesis by simp
qed

end
