(* ===== verification/Ncfg_Rules.thy ===== *)
theory Ncfg_Rules
  imports Ncfg_Plan Ncfg_Dump
begin

text \<open>
  Policy routing rules from the document to the kernel and from the kernel to the plan: the observation of a
  rule (\<^verbatim>\<open>build_rule\<close> of \<^verbatim>\<open>c/src/observe/build.c\<close>), the comparison and the pass of \<^verbatim>\<open>c/src/plan/rule.c\<close>, and
  the executor's side, \<^verbatim>\<open>c/src/apply/kernel_rule.c\<close>.

  A family and an action are values of their sets, so the arms for a number outside them have no
  counterpart; the label of a rule is always there.  Memory is granted.  The plan interns what it is given,
  which fails only for a plan that has failed and takes no action any more; the early return of the pass on
  such a plan has therefore no counterpart.
\<close>

subsection \<open>Rules\<close>

record routing_rule =
  rl_id :: bytes
  rl_priority :: "64 word"
  rl_family :: rule_family
  rl_from :: cstring
  rl_to :: cstring
  rl_iif :: cstring
  rl_oif :: cstring
  rl_fwmark :: optint
  rl_fwmask :: optint
  rl_table :: optint
  rl_action :: rule_action
  rl_suppress_prefixlength :: optint
  rl_l3mdev :: bool
  rl_invert :: bool

datatype ownership = OWNERSHIP_OURS | OWNERSHIP_FOREIGN | OWNERSHIP_UNKNOWN

record observed_rule =
  or_priority :: "64 word"
  or_family :: rule_family
  or_from :: cstring
  or_to :: cstring
  or_iif :: cstring
  or_oif :: cstring
  or_fwmark :: optint
  or_fwmask :: optint
  or_table :: optint
  or_action :: rule_action
  or_suppress_prefixlength :: optint
  or_l3mdev :: bool
  or_invert :: bool
  or_ownership :: ownership

definition ncfg_ownership_may_remove :: "ownership \<Rightarrow> bool" where
  "ncfg_ownership_may_remove ownership \<longleftrightarrow> ownership = OWNERSHIP_OURS"

subsection \<open>The observation of a rule\<close>

definition ip_cidr :: "ntop \<Rightarrow> wire_ip \<Rightarrow> byte \<Rightarrow> bytes + cstring" where
  "ip_cidr ntop ip len =
     (if ip_family ip = AF_UNSPEC then Inr None
      else case ncfg_wire_ip_text ntop ip NCFG_WIRE_IP_TEXT_MAX of
        Inl err \<Rightarrow> Inl err
      | Inr address \<Rightarrow>
          Inr (Some (snprintf_text NCFG_CIDR_TEXT_MAX (cstr address @ ascii ''/'' @ decimal (unat len)))))"

definition some_int :: "32 word \<Rightarrow> optint" where
  "some_int v = Some (ucast v)"

definition build_rule :: "ntop \<Rightarrow> rule_record \<Rightarrow> bytes + observed_rule" where
  "build_rule ntop r =
     (case ip_cidr ntop (re_from r) (re_from_len r) of
        Inl err \<Rightarrow> Inl err
      | Inr from \<Rightarrow>
     (case ip_cidr ntop (re_to r) (re_to_len r) of
        Inl err \<Rightarrow> Inl err
      | Inr to \<Rightarrow>
          Inr \<lparr>or_priority = ucast (re_priority r),
               or_family = (if re_family r = of_nat AF_INET6 then RULE_FAMILY_INET6 else RULE_FAMILY_INET),
               or_from = from,
               or_to = to,
               or_iif = re_iif r,
               or_oif = re_oif r,
               or_fwmark = (case re_fwmark r of None \<Rightarrow> None | Some v \<Rightarrow> some_int v),
               or_fwmask = (case re_fwmask r of None \<Rightarrow> None | Some v \<Rightarrow> some_int v),
               or_table = (if re_table r \<noteq> 0 then some_int (re_table r) else None),
               or_action =
                 (if re_action r = FR_ACT_BLACKHOLE then RULE_ACTION_BLACKHOLE
                  else if re_action r = FR_ACT_UNREACHABLE then RULE_ACTION_UNREACHABLE
                  else if re_action r = FR_ACT_PROHIBIT then RULE_ACTION_PROHIBIT
                  else RULE_ACTION_LOOKUP),
               or_suppress_prefixlength =
                 (case re_suppress_prefixlength r of None \<Rightarrow> None | Some v \<Rightarrow> some_int v),
               or_l3mdev = re_l3mdev r,
               or_invert = re_invert r,
               or_ownership =
                 (if ucast (re_protocol r) = NCFG_WIRE_RTPROT_NETCFGD then OWNERSHIP_OURS else OWNERSHIP_FOREIGN)\<rparr>))"

subsection \<open>Comparing\<close>

text \<open>\<^verbatim>\<open>strcmp\<close> sees a string up to its terminator.\<close>

definition ncfg_plan_address_equal :: "pton \<Rightarrow> ntop \<Rightarrow> cstring \<Rightarrow> cstring \<Rightarrow> bool" where
  "ncfg_plan_address_equal pton ntop left right =
     (case (left, right) of
        (Some l, Some r) \<Rightarrow>
          (case (ncfg_address_canonical pton ntop left NCFG_ADDRESS_MAX, ncfg_address_canonical pton ntop right NCFG_ADDRESS_MAX) of
             (Inr first, Inr second) \<Rightarrow> first = second
           | _ \<Rightarrow> cstr l = cstr r)
      | _ \<Rightarrow> left = None \<and> right = None)"

definition same_address :: "pton \<Rightarrow> ntop \<Rightarrow> cstring \<Rightarrow> cstring \<Rightarrow> bool" where
  "same_address pton ntop left right =
     (if left = None \<or> right = None then left = None \<and> right = None else ncfg_plan_address_equal pton ntop left right)"

definition same_text :: "cstring \<Rightarrow> cstring \<Rightarrow> bool" where
  "same_text left right = (map_option cstr left = map_option cstr right)"

definition same_number :: "optint \<Rightarrow> optint \<Rightarrow> bool" where
  "same_number left right \<longleftrightarrow> left = right"

definition same_rule :: "pton \<Rightarrow> ntop \<Rightarrow> routing_rule \<Rightarrow> observed_rule \<Rightarrow> bool" where
  "same_rule pton ntop desired observed \<longleftrightarrow>
     same_address pton ntop (rl_from desired) (or_from observed) \<and>
     same_address pton ntop (rl_to desired) (or_to observed) \<and>
     same_text (rl_iif desired) (or_iif observed) \<and> same_text (rl_oif desired) (or_oif observed) \<and>
     same_number (rl_fwmark desired) (or_fwmark observed) \<and>
     same_number (rl_fwmask desired) (or_fwmask observed) \<and>
     rl_action desired = or_action observed \<and>
     same_number (rl_suppress_prefixlength desired) (or_suppress_prefixlength observed) \<and>
     rl_l3mdev desired = or_l3mdev observed \<and> rl_invert desired = or_invert observed \<and>
     (rl_action desired \<noteq> RULE_ACTION_LOOKUP \<or> same_number (rl_table desired) (or_table observed))"

subsection \<open>The pass\<close>

definition to_desired :: "observed_rule \<Rightarrow> routing_rule" where
  "to_desired observed =
     \<lparr>rl_id = ncfg_plan_internf (ascii ''observed-'' @ text_or_empty (ncfg_rule_family_name (or_family observed)) @ ascii ''-'' @
        decimal_int (sint (or_priority observed))),
      rl_priority = or_priority observed, rl_family = or_family observed, rl_from = or_from observed, rl_to = or_to observed,
      rl_iif = or_iif observed, rl_oif = or_oif observed, rl_fwmark = or_fwmark observed, rl_fwmask = or_fwmask observed,
      rl_table = or_table observed, rl_action = or_action observed,
      rl_suppress_prefixlength = or_suppress_prefixlength observed, rl_l3mdev = or_l3mdev observed,
      rl_invert = or_invert observed\<rparr>"

text \<open>\<^verbatim>\<open>%#llx\<close>: hexadecimal with its prefix, which zero does not get.\<close>

fun hex_text :: "nat \<Rightarrow> bytes" where
  "hex_text n = (if n < 16 then [hex_digits ! n] else hex_text (n div 16) @ [hex_digits ! (n mod 16)])"

definition alternate_hex :: "64 word \<Rightarrow> bytes" where
  "alternate_hex v = (if v = 0 then ascii ''0'' else ascii ''0x'' @ hex_text (unat v))"

definition add_selector :: "buf \<Rightarrow> string \<times> cstring \<Rightarrow> buf" where
  "add_selector buf selector =
     (case snd selector of
        None \<Rightarrow> buf
      | Some v \<Rightarrow> ncfg_buf_addf granted buf (Some (ascii (fst selector) @ ascii '' '' @ cstr v @ ascii '' '')))"

definition describe :: "routing_rule \<Rightarrow> bytes" where
  "describe rule =
     (let buf = ncfg_buf_addf granted (ncfg_buf_init 0) (Some (decimal_int (sint (rl_priority rule)) @ ascii '' ''));
          buf = foldl add_selector buf [(''from'', rl_from rule), (''to'', rl_to rule), (''iif'', rl_iif rule), (''oif'', rl_oif rule)];
          buf = (case rl_fwmark rule of
              None \<Rightarrow> buf
            | Some mark \<Rightarrow> ncfg_buf_addf granted buf (Some (ascii ''fwmark '' @ alternate_hex mark @ ascii '' '')));
          buf = ncfg_buf_add_text granted buf (text_or_empty (ncfg_rule_action_name (rl_action rule)));
          buf = (case rl_table rule of
              None \<Rightarrow> buf
            | Some table \<Rightarrow> ncfg_buf_addf granted buf (Some (ascii '' '' @ decimal_int (sint table))))
      in cstr (ncfg_buf_text buf))"

text \<open>An op with a rule, all its other members zero.\<close>

definition rule_op :: "op_kind \<Rightarrow> routing_rule \<Rightarrow> routing_rule op" where
  "rule_op kind rule =
     \<lparr>op_kind = kind, op_name = None, op_link_kind = None, op_addr = None, op_destination = None,
      op_priority = Some (rl_priority rule), op_backend = NCFG_BACKEND_DHCP4, op_vid = 0, op_list = NCFG_ACL_POLICY_DENY,
      op_station = None, op_bssid = None, op_imminent = False, op_enabled = False, op_phase = NCFG_HOOK_PHASE_PRE_UP,
      op_rest = rule\<rparr>"

type_synonym rule_builder = "routing_rule plan_builder"

definition push_rule :: "rule_builder \<Rightarrow> op_kind \<Rightarrow> routing_rule \<Rightarrow> reason \<Rightarrow> (op_kind \<times> routing_rule) option \<Rightarrow> rule_builder" where
  "push_rule builder kind rule reason undo =
     snd (ncfg_builder_push builder (rule_op kind rule) reason [] (map_option (\<lambda>(kind, rule). rule_op kind rule) undo))"

definition rule_reason :: "bytes \<Rightarrow> bytes \<Rightarrow> bytes \<Rightarrow> reason" where
  "rule_reason field desired observed =
     \<lparr>rs_interface = None, rs_field = Some field, rs_desired = Some desired, rs_observed = Some observed\<rparr>"

text \<open>One rule of the document, and one the kernel holds.\<close>

definition plan_wanted_rule :: "pton \<Rightarrow> ntop \<Rightarrow> observed_rule list \<Rightarrow> rule_builder \<Rightarrow> routing_rule \<Rightarrow> rule_builder" where
  "plan_wanted_rule pton ntop observed builder rule =
     (let current = find (\<lambda>held. or_family held = rl_family rule \<and> or_priority held = rl_priority rule) observed;
          field = ncfg_plan_internf (ascii ''rules.'' @ rl_id rule);
          different = ascii ''a different rule at this priority''
      in case current of
           None \<Rightarrow>
             push_rule builder NCFG_OP_RULE_ADD rule (rule_reason field (describe rule) (ascii ''<absent>''))
               (Some (NCFG_OP_RULE_DEL, rule))
         | Some current \<Rightarrow>
             if same_rule pton ntop rule current then builder
             else if \<not> ncfg_ownership_may_remove (or_ownership current) then
               builder\<lparr>bd_plan := ncfg_plan_warnf (bd_plan builder) None
                 (ascii ''rule `'' @ rl_id rule @ ascii ''` wants priority '' @ decimal_int (sint (rl_priority rule)) @ ascii '' in '' @
                  text_or_empty (ncfg_rule_family_name (rl_family rule)) @
                  ascii '', and a rule netcfgd does not own is already there. Renumber it, or remove the other by hand.'')\<rparr>
             else
               let builder = push_rule builder NCFG_OP_RULE_DEL (to_desired current)
                     (rule_reason field (describe rule) different) None
               in push_rule builder NCFG_OP_RULE_ADD rule (rule_reason field (describe rule) different)
                    (Some (NCFG_OP_RULE_DEL, rule)))"

definition plan_held_rule :: "routing_rule list \<Rightarrow> rule_builder \<Rightarrow> observed_rule \<Rightarrow> rule_builder" where
  "plan_held_rule desired builder held =
     (if \<not> ncfg_ownership_may_remove (or_ownership held) then builder
      else if list_ex (\<lambda>r. rl_family r = or_family held \<and> rl_priority r = or_priority held) desired then builder
      else
        let rule = to_desired held
        in push_rule builder NCFG_OP_RULE_DEL rule (rule_reason (ascii ''rules'') (ascii ''<absent>'') (describe rule))
             (Some (NCFG_OP_RULE_ADD, rule)))"

definition ncfg_plan_rules :: "pton \<Rightarrow> ntop \<Rightarrow> routing_rule list \<Rightarrow> observed_rule list \<Rightarrow> rule_builder \<Rightarrow> rule_builder" where
  "ncfg_plan_rules pton ntop desired observed builder =
     foldl (plan_held_rule desired) (foldl (plan_wanted_rule pton ntop observed) builder desired) observed"

subsection \<open>The executor\<close>

definition rule_selector :: "pton \<Rightarrow> cstring \<Rightarrow> byte \<Rightarrow> bytes + wire_ip \<times> byte" where
  "rule_selector pton text family =
     (case text of
        None \<Rightarrow> Inr (ip_absent, 0)
      | Some t \<Rightarrow>
          (case ncfg_address_parse pton text of
             Inl err \<Rightarrow> Inl err
           | Inr parsed \<Rightarrow>
               let ip = ncfg_ops_ip_from_address parsed
               in if ip_family ip \<noteq> unat family then
                    Inl (ascii ''`'' @ cstr t @
                      ascii ''` is not an address of the family this rule is for, and a rule's family is stated rather than inferred from its selectors'')
                  else Inr (ip, if ad_has_prefix parsed then of_nat (ad_prefix parsed) else if ad_is_ipv6 parsed then 128 else 32)))"

definition rule_action_byte :: "rule_action \<Rightarrow> byte" where
  "rule_action_byte action =
     (case action of
        RULE_ACTION_LOOKUP \<Rightarrow> FR_ACT_TO_TBL
      | RULE_ACTION_BLACKHOLE \<Rightarrow> FR_ACT_BLACKHOLE
      | RULE_ACTION_UNREACHABLE \<Rightarrow> FR_ACT_UNREACHABLE
      | RULE_ACTION_PROHIBIT \<Rightarrow> FR_ACT_PROHIBIT)"

definition ncfg_kernel_rule_spec :: "pton \<Rightarrow> routing_rule \<Rightarrow> bytes + ops_rule" where
  "ncfg_kernel_rule_spec pton rule =
     (let family = (case rl_family rule of RULE_FAMILY_INET \<Rightarrow> of_nat AF_INET | RULE_FAMILY_INET6 \<Rightarrow> of_nat AF_INET6) in
     (case ncfg_ops_narrow (rl_priority rule) 0xffffffff ''priority'' of
        Inl err \<Rightarrow> Inl err
      | Inr priority \<Rightarrow>
     (case narrow_or 0 (rl_table rule) 0xffffffff ''table'' of
        Inl err \<Rightarrow> Inl err
      | Inr table \<Rightarrow>
          if rl_fwmask rule \<noteq> None \<and> rl_fwmark rule = None then
            Inl (ascii ''rule `'' @ rl_id rule @
              ascii ''` has a firewall mask and no mark: the mask is applied before the comparison, so on its own it selects packets marked zero'')
          else
     (case rule_selector pton (rl_from rule) family of
        Inl err \<Rightarrow> Inl err
      | Inr (from, from_len) \<Rightarrow>
     (case rule_selector pton (rl_to rule) family of
        Inl err \<Rightarrow> Inl err
      | Inr (to, to_len) \<Rightarrow>
          Inr \<lparr>ru_family = family, ru_priority = priority, ru_table = table, ru_action = rule_action_byte (rl_action rule),
               ru_from = from, ru_from_len = from_len, ru_to = to, ru_to_len = to_len, ru_iif = rl_iif rule, ru_oif = rl_oif rule,
               ru_fwmark = rl_fwmark rule, ru_fwmask = rl_fwmask rule,
               ru_suppress_prefixlength = rl_suppress_prefixlength rule, ru_l3mdev = rl_l3mdev rule, ru_invert = rl_invert rule,
               ru_protocol = None\<rparr>)))))"

definition ncfg_kernel_build_rule ::
  "pton \<Rightarrow> byte_order \<Rightarrow> buf \<Rightarrow> 32 word \<Rightarrow> routing_rule op \<Rightarrow> bool \<Rightarrow> built" where
  "ncfg_kernel_build_rule pton host out seq op adding =
     (case ncfg_kernel_rule_spec pton (op_rest op) of
        Inl err \<Rightarrow> (Some err, out)
      | Inr spec \<Rightarrow> if adding then ncfg_ops_add_rule host out seq spec else ncfg_ops_del_rule host out seq spec)"

end
