(* ===== verification/Ncfg_Rules_Props.thy ===== *)
theory Ncfg_Rules_Props
  imports Ncfg_Rules Ncfg_Plan_Props Ncfg_Dump_Props Ncfg_Value_Props
begin

text \<open>
  The pass over routing rules, against a kernel that keys a rule on family and priority: what a plan leads to,
  and that a second plan has nothing to do.  And one rule all the way round: from the document through the
  executor and the wire, out of a dump and through the observation, to the comparison.
\<close>

subsection \<open>A table of rules\<close>

type_synonym rule_key = "rule_family \<times> 64 word"
type_synonym rule_table = "rule_key \<Rightarrow> observed_rule option"

definition rkey :: "routing_rule \<Rightarrow> rule_key" where
  "rkey rule = (rl_family rule, rl_priority rule)"

definition okey :: "observed_rule \<Rightarrow> rule_key" where
  "okey held = (or_family held, or_priority held)"

definition table_of :: "observed_rule list \<Rightarrow> rule_table" where
  "table_of observed k = find (\<lambda>held. okey held = k) observed"

text \<open>A rule as the kernel holds it once it was installed.\<close>

definition installed :: "routing_rule \<Rightarrow> observed_rule" where
  "installed rule =
     \<lparr>or_priority = rl_priority rule, or_family = rl_family rule, or_from = rl_from rule, or_to = rl_to rule, or_iif = rl_iif rule,
      or_oif = rl_oif rule, or_fwmark = rl_fwmark rule, or_fwmask = rl_fwmask rule, or_table = rl_table rule, or_action = rl_action rule,
      or_suppress_prefixlength = rl_suppress_prefixlength rule, or_l3mdev = rl_l3mdev rule, or_invert = rl_invert rule,
      or_ownership = OWNERSHIP_OURS\<rparr>"

text \<open>
  Adding where a rule is already is refused (\<^verbatim>\<open>EEXIST\<close>); a removal has to name the rule that is there, with the
  mark of ownership every request carries.
\<close>

definition exec_rule :: "routing_rule op \<Rightarrow> rule_table \<Rightarrow> rule_table option" where
  "exec_rule op table =
     (let rule = op_rest op in
      if op_kind op = NCFG_OP_RULE_ADD then
        (if table (rkey rule) = None then Some (table(rkey rule := Some (installed rule))) else None)
      else if op_kind op = NCFG_OP_RULE_DEL then
        (if table (rkey rule) = Some (installed rule) then Some (table(rkey rule := None)) else None)
      else None)"

fun run_rules :: "routing_rule op list \<Rightarrow> rule_table \<Rightarrow> rule_table option" where
  "run_rules [] table = Some table"
| "run_rules (op # ops) table = Option.bind (exec_rule op table) (run_rules ops)"

text \<open>What the document and the ownership of what is there lead to.\<close>

definition rules_target :: "pton \<Rightarrow> ntop \<Rightarrow> routing_rule list \<Rightarrow> rule_table \<Rightarrow> rule_table" where
  "rules_target pton ntop desired table k =
     (case find (\<lambda>rule. rkey rule = k) desired of
        Some rule \<Rightarrow>
          (case table k of
             None \<Rightarrow> Some (installed rule)
           | Some held \<Rightarrow>
               if same_rule pton ntop rule held \<or> or_ownership held \<noteq> OWNERSHIP_OURS then Some held else Some (installed rule))
      | None \<Rightarrow>
          (case table k of None \<Rightarrow> None | Some held \<Rightarrow> if or_ownership held = OWNERSHIP_OURS then None else Some held))"

subsection \<open>What the pass pushes\<close>

definition wanted_ops :: "pton \<Rightarrow> ntop \<Rightarrow> rule_table \<Rightarrow> routing_rule \<Rightarrow> routing_rule op list" where
  "wanted_ops pton ntop table rule =
     (case table (rkey rule) of
        None \<Rightarrow> [rule_op NCFG_OP_RULE_ADD rule]
      | Some held \<Rightarrow>
          if same_rule pton ntop rule held \<or> or_ownership held \<noteq> OWNERSHIP_OURS then []
          else [rule_op NCFG_OP_RULE_DEL (to_desired held), rule_op NCFG_OP_RULE_ADD rule])"

definition held_ops :: "routing_rule list \<Rightarrow> observed_rule \<Rightarrow> routing_rule op list" where
  "held_ops desired held =
     (if or_ownership held = OWNERSHIP_OURS \<and> okey held \<notin> rkey ` set desired
      then [rule_op NCFG_OP_RULE_DEL (to_desired held)] else [])"

definition ops_of :: "rule_builder \<Rightarrow> routing_rule op list" where
  "ops_of builder = map ac_op (pl_actions (bd_plan builder))"

definition open_builder :: "rule_builder \<Rightarrow> bool" where
  "open_builder builder \<longleftrightarrow> bd_locked builder = [] \<and> \<not> pl_failed (bd_plan builder)"

lemma push_rule_ops:
  assumes "open_builder builder" "kind = NCFG_OP_RULE_ADD \<or> kind = NCFG_OP_RULE_DEL"
  shows "ops_of (push_rule builder kind rule reason undo) = ops_of builder @ [rule_op kind rule]"
    "open_builder (push_rule builder kind rule reason undo)"
proof -
  have i: "ncfg_op_interface (rule_op kind rule) = None" using assms(2) by (auto simp: ncfg_op_interface_def rule_op_def)
  then have "ncfg_builder_push builder (rule_op kind rule) reason [] u =
      (case ncfg_plan_add (bd_plan builder) (rule_op kind rule) reason [] u of (added, plan) \<Rightarrow> (added, builder\<lparr>bd_plan := plan\<rparr>))" for u
    using assms(1) by (intro push_passes) (auto simp: hands_off_def lock_stops_def guard_stops_def open_builder_def split: option.splits)
  then show "ops_of (push_rule builder kind rule reason undo) = ops_of builder @ [rule_op kind rule]"
    "open_builder (push_rule builder kind rule reason undo)"
    using assms(1) by (auto simp: push_rule_def open_builder_def ops_of_def ncfg_plan_add_def Let_def)
qed

lemma wanted_rule_ops:
  assumes "open_builder builder"
  shows "ops_of (plan_wanted_rule pton ntop observed builder rule) = ops_of builder @ wanted_ops pton ntop (table_of observed) rule"
    "open_builder (plan_wanted_rule pton ntop observed builder rule)"
proof -
  have t: "table_of observed (rkey rule) = find (\<lambda>held. or_family held = rl_family rule \<and> or_priority held = rl_priority rule) observed"
    by (simp add: table_of_def okey_def rkey_def)
  have del: "open_builder (push_rule builder NCFG_OP_RULE_DEL r reason undo)"
    "ops_of (push_rule builder NCFG_OP_RULE_DEL r reason undo) = ops_of builder @ [rule_op NCFG_OP_RULE_DEL r]" for r reason undo
    using push_rule_ops [OF assms] by simp_all
  show "ops_of (plan_wanted_rule pton ntop observed builder rule) = ops_of builder @ wanted_ops pton ntop (table_of observed) rule"
    using assms push_rule_ops(1) [OF assms] push_rule_ops(1) [OF del(1)] del(2)
    by (auto simp: plan_wanted_rule_def wanted_ops_def t [symmetric] ncfg_ownership_may_remove_def Let_def split: option.split)
      (simp add: ops_of_def)
  show "open_builder (plan_wanted_rule pton ntop observed builder rule)"
    using assms push_rule_ops(2) [OF assms] push_rule_ops(2) [OF del(1)]
    by (auto simp: plan_wanted_rule_def ncfg_ownership_may_remove_def Let_def split: option.split) (simp add: open_builder_def)
qed

lemma held_rule_ops:
  assumes "open_builder builder"
  shows "ops_of (plan_held_rule desired builder held) = ops_of builder @ held_ops desired held"
    "open_builder (plan_held_rule desired builder held)"
proof -
  have "list_ex (\<lambda>r. rl_family r = or_family held \<and> rl_priority r = or_priority held) desired \<longleftrightarrow> okey held \<in> rkey ` set desired"
    by (auto simp: rkey_def okey_def list_ex_iff image_iff) metis
  then show "ops_of (plan_held_rule desired builder held) = ops_of builder @ held_ops desired held"
    "open_builder (plan_held_rule desired builder held)"
    using assms push_rule_ops [OF assms] by (simp_all add: plan_held_rule_def held_ops_def ncfg_ownership_may_remove_def Let_def)
qed

lemma wanted_pass_ops:
  "open_builder builder \<Longrightarrow> ops_of (foldl (plan_wanted_rule pton ntop observed) builder desired) =
     ops_of builder @ concat (map (wanted_ops pton ntop (table_of observed)) desired) \<and>
   open_builder (foldl (plan_wanted_rule pton ntop observed) builder desired)"
  by (induction desired arbitrary: builder) (auto simp: wanted_rule_ops)

lemma held_pass_ops:
  "open_builder builder \<Longrightarrow> ops_of (foldl (plan_held_rule desired) builder observed) =
     ops_of builder @ concat (map (held_ops desired) observed)"
  by (induction observed arbitrary: builder) (auto simp: held_rule_ops)

lemma rules_ops:
  assumes "open_builder builder"
  shows "ops_of (ncfg_plan_rules pton ntop desired observed builder) =
    ops_of builder @ concat (map (wanted_ops pton ntop (table_of observed)) desired) @ concat (map (held_ops desired) observed)"
  using wanted_pass_ops [OF assms] held_pass_ops by (simp add: ncfg_plan_rules_def)

subsection \<open>What they do to the table\<close>

lemma run_append: "run_rules (xs @ ys) table = Option.bind (run_rules xs table) (run_rules ys)"
  by (induction xs arbitrary: table) (auto split: Option.bind_split)

lemma installed_back: "or_ownership held = OWNERSHIP_OURS \<Longrightarrow> installed (to_desired held) = held" "rkey (to_desired held) = okey held"
  by (simp_all add: installed_def to_desired_def rkey_def okey_def)

lemma table_key: "table_of observed k = Some held \<Longrightarrow> okey held = k \<and> held \<in> set observed"
  by (auto simp: table_of_def find_Some_iff)

lemma table_member: "distinct (map okey observed) \<Longrightarrow> held \<in> set observed \<Longrightarrow> table_of observed (okey held) = Some held"
  by (induction observed) (auto simp: table_of_def)

lemma no_key: "k \<notin> f ` set xs \<Longrightarrow> find (\<lambda>x. f x = k) xs = None"
  by (induction xs) auto

text \<open>The value one wanted rule leaves at its key.\<close>

definition wanted_at :: "pton \<Rightarrow> ntop \<Rightarrow> rule_table \<Rightarrow> routing_rule \<Rightarrow> observed_rule option" where
  "wanted_at pton ntop table rule =
     (case table (rkey rule) of
        None \<Rightarrow> Some (installed rule)
      | Some held \<Rightarrow>
          if same_rule pton ntop rule held \<or> or_ownership held \<noteq> OWNERSHIP_OURS then Some held else Some (installed rule))"

lemma run_wanted:
  assumes "now (rkey rule) = table_of observed (rkey rule)"
  shows "run_rules (wanted_ops pton ntop (table_of observed) rule) now = Some (now(rkey rule := wanted_at pton ntop (table_of observed) rule))"
proof (cases "table_of observed (rkey rule)")
  case None
  with assms show ?thesis by (simp add: wanted_ops_def wanted_at_def exec_rule_def rule_op_def)
next
  case (Some held)
  with table_key have k: "okey held = rkey rule" by blast
  show ?thesis
  proof (cases "same_rule pton ntop rule held \<or> or_ownership held \<noteq> OWNERSHIP_OURS")
    case True
    with Some assms show ?thesis by (simp add: wanted_ops_def wanted_at_def fun_upd_idem)
  next
    case False
    with Some assms k show ?thesis by (simp add: wanted_ops_def wanted_at_def exec_rule_def rule_op_def installed_back)
  qed
qed

lemma run_wanted_all:
  assumes "distinct (map rkey rules)" "\<And>rule. rule \<in> set rules \<Longrightarrow> now (rkey rule) = table_of observed (rkey rule)"
  shows "run_rules (concat (map (wanted_ops pton ntop (table_of observed)) rules)) now =
    Some (\<lambda>k. case find (\<lambda>rule. rkey rule = k) rules of None \<Rightarrow> now k | Some rule \<Rightarrow> wanted_at pton ntop (table_of observed) rule)"
  using assms
proof (induction rules arbitrary: now)
  case (Cons rule rules)
  let ?now = "now(rkey rule := wanted_at pton ntop (table_of observed) rule)"
  have other: "rkey r \<noteq> rkey rule" if "r \<in> set rules" for r
    using Cons.prems(1) imageI [OF that, of rkey] by auto
  then have "?now (rkey r) = table_of observed (rkey r)" if "r \<in> set rules" for r using Cons.prems(2) that by simp
  note IH = Cons.IH [of ?now, OF _ this]
  have none: "find (\<lambda>r. rkey r = rkey rule) rules = None" using other by (auto simp: find_None_iff)
  have "run_rules (concat (map (wanted_ops pton ntop (table_of observed)) (rule # rules))) now =
      run_rules (concat (map (wanted_ops pton ntop (table_of observed)) rules)) ?now"
    using Cons.prems(2) by (simp add: run_append run_wanted)
  also have "\<dots> = Some (\<lambda>k. case find (\<lambda>rule. rkey rule = k) rules of None \<Rightarrow> ?now k
      | Some rule \<Rightarrow> wanted_at pton ntop (table_of observed) rule)"
    by (rule IH) (use Cons.prems(1) in simp)
  also have "\<dots> = Some (\<lambda>k. case find (\<lambda>rule. rkey rule = k) (rule # rules) of None \<Rightarrow> now k
      | Some rule \<Rightarrow> wanted_at pton ntop (table_of observed) rule)"
    using none by (auto intro!: ext split: option.split)
  finally show ?case .
qed simp

lemma run_held_all:
  assumes "distinct (map okey helds)" "\<And>held. held \<in> set helds \<Longrightarrow> okey held \<notin> rkey ` set desired \<Longrightarrow> now (okey held) = Some held"
  shows "run_rules (concat (map (held_ops desired) helds)) now =
    Some (\<lambda>k. case find (\<lambda>held. okey held = k) helds of
        None \<Rightarrow> now k
      | Some held \<Rightarrow> if or_ownership held = OWNERSHIP_OURS \<and> k \<notin> rkey ` set desired then None else now k)"
  using assms
proof (induction helds arbitrary: now)
  case (Cons held helds)
  have other: "okey h \<noteq> okey held" if "h \<in> set helds" for h
    using Cons.prems(1) imageI [OF that, of okey] by auto
  then have none: "find (\<lambda>h. okey h = okey held) helds = None" by (auto simp: find_None_iff)
  show ?case
  proof (cases "or_ownership held = OWNERSHIP_OURS \<and> okey held \<notin> rkey ` set desired")
    case True
    let ?now = "now(okey held := None)"
    have "?now (okey h) = Some h" if "h \<in> set helds" "okey h \<notin> rkey ` set desired" for h
      using Cons.prems(2) that other by simp
    note IH = Cons.IH [of ?now, OF _ this]
    have "exec_rule (rule_op NCFG_OP_RULE_DEL (to_desired held)) now = Some ?now"
      using True Cons.prems(2) [of held] by (simp add: exec_rule_def rule_op_def installed_back)
    with True have "run_rules (concat (map (held_ops desired) (held # helds))) now = run_rules (concat (map (held_ops desired) helds)) ?now"
      by (simp add: held_ops_def)
    also have "\<dots> = Some (\<lambda>k. case find (\<lambda>held. okey held = k) helds of None \<Rightarrow> ?now k
        | Some held \<Rightarrow> if or_ownership held = OWNERSHIP_OURS \<and> k \<notin> rkey ` set desired then None else ?now k)"
      by (rule IH) (use Cons.prems(1) in simp)
    also have "\<dots> = Some (\<lambda>k. case find (\<lambda>held. okey held = k) (held # helds) of None \<Rightarrow> now k
        | Some held \<Rightarrow> if or_ownership held = OWNERSHIP_OURS \<and> k \<notin> rkey ` set desired then None else now k)"
      using none True by (auto intro!: ext split: option.split)
    finally show ?thesis .
  next
    case False
    then have "held_ops desired held = []" by (auto simp: held_ops_def)
    moreover note Cons.IH [of now] Cons.prems
    ultimately show ?thesis using False none by (auto simp: fun_eq_iff split: option.split)
  qed
qed simp

lemma rules_run:
  assumes "distinct (map rkey desired)" "distinct (map okey observed)"
  shows "run_rules (concat (map (wanted_ops pton ntop (table_of observed)) desired) @ concat (map (held_ops desired) observed)) (table_of observed) =
    Some (rules_target pton ntop desired (table_of observed))"
proof -
  let ?mid = "\<lambda>k. case find (\<lambda>rule. rkey rule = k) desired of None \<Rightarrow> table_of observed k | Some rule \<Rightarrow> wanted_at pton ntop (table_of observed) rule"
  have "?mid (okey held) = Some held" if "held \<in> set observed" "okey held \<notin> rkey ` set desired" for held
  proof -
    have "find (\<lambda>rule. rkey rule = okey held) desired = None" by (rule no_key [OF that(2)])
    then show ?thesis using table_member [OF assms(2) that(1)] by simp
  qed
  note h = run_held_all [OF assms(2) this]
  have "(case find (\<lambda>held. okey held = k) observed of None \<Rightarrow> ?mid k
      | Some held \<Rightarrow> if or_ownership held = OWNERSHIP_OURS \<and> k \<notin> rkey ` set desired then None else ?mid k) =
    rules_target pton ntop desired (table_of observed) k" for k
  proof (cases "find (\<lambda>rule. rkey rule = k) desired")
    case None
    then have "k \<notin> rkey ` set desired" by (auto simp: find_None_iff)
    with None show ?thesis by (simp add: rules_target_def table_of_def split: option.split)
  next
    case (Some rule)
    then have "rkey rule = k" "k \<in> rkey ` set desired" by (auto simp: find_Some_iff)
    with Some show ?thesis by (simp add: rules_target_def wanted_at_def split: option.split)
  qed
  then show ?thesis using h by (simp add: run_append run_wanted_all [OF assms(1)])
qed

lemma same_installed: "same_rule pton ntop rule (installed rule)"
  by (auto simp: same_rule_def installed_def same_address_def ncfg_plan_address_equal_def same_text_def same_number_def
      split: option.split sum.split)

lemma target_quiet:
  assumes "distinct (map rkey desired)" "table_of after = rules_target pton ntop desired table" "distinct (map okey after)"
  shows "concat (map (wanted_ops pton ntop (table_of after)) desired) @ concat (map (held_ops desired) after) = []"
proof -
  have "wanted_ops pton ntop (table_of after) rule = []" if "rule \<in> set desired" for rule
  proof -
    have "find (\<lambda>r. rkey r = rkey rule) desired = Some rule" using assms(1) that by (induction desired) auto
    then show ?thesis
      using same_installed by (auto simp: wanted_ops_def assms(2) rules_target_def split: option.split)
  qed
  moreover have "held_ops desired held = []" if "held \<in> set after" for held
  proof (cases "okey held \<in> rkey ` set desired")
    case False
    then have "find (\<lambda>r. rkey r = okey held) desired = None" by (rule no_key)
    with table_member [OF assms(3) that] show ?thesis
      by (auto simp: held_ops_def assms(2) rules_target_def split: option.splits if_splits)
  qed (simp add: held_ops_def)
  ultimately show ?thesis by simp
qed

subsection \<open>One rule all the way round\<close>

text \<open>What \<^verbatim>\<open>inet_pton\<close> and \<^verbatim>\<open>inet_ntop\<close> promise, at one address; the latter reads no more bytes than the family has.\<close>

definition inet_at :: "pton \<Rightarrow> ntop \<Rightarrow> address \<Rightarrow> bytes \<Rightarrow> bool" where
  "inet_at pton ntop a plain \<longleftrightarrow>
     ntop (family a) (own_bytes a) = Some plain \<and> ntop (family a) (ad_bytes a) = Some plain \<and>
     pton (family a) plain = Some (own_bytes a) \<and> plain \<noteq> [] \<and> length plain < INET6_ADDRSTRLEN \<and>
     0 \<notin> set plain \<and> slash \<notin> set plain \<and> (colon \<in> set plain \<longleftrightarrow> ad_is_ipv6 a)"

definition selector_ok :: "pton \<Rightarrow> ntop \<Rightarrow> rule_family \<Rightarrow> cstring \<Rightarrow> bool" where
  "selector_ok pton ntop fam text =
     (case text of
        None \<Rightarrow> True
      | Some _ \<Rightarrow>
          (case ncfg_address_parse pton text of
             Inl _ \<Rightarrow> False
           | Inr a \<Rightarrow>
               address_ok a \<and> ad_is_ipv6 a = (fam = RULE_FAMILY_INET6) \<and>
               (case ntop (family a) (own_bytes a) of None \<Rightarrow> False | Some plain \<Rightarrow> inet_at pton ntop a plain)))"

definition prefixed :: "pton \<Rightarrow> cstring \<Rightarrow> bool" where
  "prefixed pton text =
     (case text of
        None \<Rightarrow> True
      | Some _ \<Rightarrow> (case ncfg_address_parse pton text of Inl _ \<Rightarrow> False | Inr a \<Rightarrow> ad_has_prefix a))"

definition rule_sendable :: "pton \<Rightarrow> ntop \<Rightarrow> routing_rule \<Rightarrow> bool" where
  "rule_sendable pton ntop rule \<longleftrightarrow>
     selector_ok pton ntop (rl_family rule) (rl_from rule) \<and> selector_ok pton ntop (rl_family rule) (rl_to rule) \<and>
     in_range UINT32_MAX (Some (rl_priority rule)) \<and> in_range UINT32_MAX (rl_table rule) \<and>
     name_ok (rl_iif rule) \<and> name_ok (rl_oif rule) \<and>
     in_range UINT32_MAX (rl_fwmark rule) \<and> in_range UINT32_MAX (rl_fwmask rule) \<and>
     (rl_fwmask rule = None \<or> rl_fwmark rule \<noteq> None) \<and>
     in_range (UINT32_MAX - 1) (rl_suppress_prefixlength rule)"

abbreviation family_byte :: "rule_family \<Rightarrow> byte" where
  "family_byte fam \<equiv> (case fam of RULE_FAMILY_INET \<Rightarrow> of_nat AF_INET | RULE_FAMILY_INET6 \<Rightarrow> of_nat AF_INET6)"

lemma rendered_text:
  assumes "address_ok a" "inet_at pton ntop a plain"
  shows "ncfg_address_render ntop a NCFG_ADDRESS_MAX = Inr (plain @ (if ad_has_prefix a then slash # decimal (ad_prefix a) else []))"
    "ncfg_address_parse pton (Some (plain @ (if ad_has_prefix a then slash # decimal (ad_prefix a) else []))) = Inr a"
  using rendered_parses [of a ntop plain pton] assms by (simp_all add: inet_at_def del: decimal.simps)

lemma selector_back:
  assumes "selector_ok pton ntop fam text"
  shows "\<exists>ip len seen. rule_selector pton text (family_byte fam) = Inr (ip, len) \<and> ip_field ip \<and>
    ip_cidr ntop ip (if ncfg_ops_ip_present ip then len else 0) = Inr seen \<and>
    (same_address pton ntop text seen \<longleftrightarrow> prefixed pton text)"
proof (cases "text")
  case None
  then show ?thesis
    by (simp add: rule_selector_def ip_field_def ip_cidr_def ip_absent_def same_address_def prefixed_def)
next
  case (Some t)
  with assms obtain a plain where a: "ncfg_address_parse pton text = Inr a" "address_ok a" "ad_is_ipv6 a = (fam = RULE_FAMILY_INET6)"
    "inet_at pton ntop a plain"
    by (auto simp: selector_ok_def split: sum.splits option.splits)
  let ?n = "if ad_has_prefix a then ad_prefix a else prefix_max (ad_is_ipv6 a)"
  let ?b = "a\<lparr>ad_has_prefix := True, ad_prefix := ?n\<rparr>" and ?ip = "ncfg_ops_ip_from_address a"
  let ?seen = "plain @ slash # decimal ?n"
  have n: "?n \<le> prefix_max (ad_is_ipv6 a)" using a(2) by (auto simp: address_ok_def)
  then have small: "?n \<le> 128" by (auto simp: prefix_max_def split: if_splits)
  have b: "address_ok ?b" "inet_at pton ntop ?b plain" using a(2,4) n by (simp_all add: address_ok_def inet_at_def)
  note again = rendered_text [OF b, simplified]
  have sel: "rule_selector pton text (family_byte fam) = Inr (?ip, of_nat ?n)"
    using Some a(1,3) by (cases fam) (auto simp: rule_selector_def Let_def ncfg_ops_ip_from_address_def prefix_max_def AF_INET_def AF_INET6_def)
  have whole: "ncfg_ops_ip_present ?ip" "ip_field ?ip"
    using a(2) by (auto simp: ip_field_def ip_whole_def ncfg_ops_ip_present_def ncfg_ops_ip_from_address_def address_ok_def
        AF_INET_def AF_INET6_def AF_UNSPEC_def)
  have un: "unat (of_nat ?n :: byte) = ?n" using small by (simp add: unat_of_nat)
  have "length (decimal ?n) \<le> 3" by (rule parse_prefix_decimal(2) [OF n])
  moreover have "length plain < 46" using a(4) by (simp add: inet_at_def INET6_ADDRSTRLEN_def)
  ultimately have "length ?seen \<le> NCFG_CIDR_TEXT_MAX - 1"
    unfolding NCFG_CIDR_TEXT_MAX_def NCFG_WIRE_IP_TEXT_MAX_def length_append list.size by linarith
  then have len: "snprintf_text NCFG_CIDR_TEXT_MAX ?seen = ?seen" unfolding snprintf_text_def by (rule take_all)
  have "cstr plain = plain" using a(4) by (intro cstr_id) (simp add: inet_at_def)
  moreover have "ncfg_wire_ip_text ntop ?ip NCFG_WIRE_IP_TEXT_MAX = Inr plain" "ip_family ?ip \<noteq> AF_UNSPEC"
    using a(4) by (auto simp: ncfg_wire_ip_text_def inet_at_def ncfg_ops_ip_from_address_def AF_INET_def AF_INET6_def AF_UNSPEC_def)
  ultimately have "ip_cidr ntop ?ip (of_nat ?n) = Inr (Some (snprintf_text NCFG_CIDR_TEXT_MAX (plain @ ascii ''/'' @ decimal ?n)))"
    unfolding ip_cidr_def un by simp
  then have cidr: "ip_cidr ntop ?ip (of_nat ?n) = Inr (Some ?seen)" using len by simp
  have "slash \<notin> set plain" using a(4) by (simp add: inet_at_def)
  then have "plain @ (if ad_has_prefix a then slash # decimal (ad_prefix a) else []) = ?seen \<longleftrightarrow> ad_has_prefix a" by auto
  then have "same_address pton ntop text (Some ?seen) \<longleftrightarrow> prefixed pton text"
    using Some a(1) rendered_text(1) [OF a(2,4)] again
    by (simp add: same_address_def ncfg_plan_address_equal_def ncfg_address_canonical_def prefixed_def del: decimal.simps)
  with sel whole cidr show ?thesis by simp
qed

lemma number_again: "in_range UINT32_MAX v \<Longrightarrow> map_option (\<lambda>w. ucast (ucast w :: 32 word)) v = v"
  by (cases v) (auto simp: in_range_def intro: small_number)

lemma seen_number: "(case map_option ucast v of None \<Rightarrow> None | Some w \<Rightarrow> some_int w) = map_option (\<lambda>w. ucast (ucast w :: 32 word)) v"
  by (cases v) (simp_all add: some_int_def)

lemma build_rule_fields:
  assumes "build_rule ntop r = Inr seen" "ip_cidr ntop (re_from r) (re_from_len r) = Inr f" "ip_cidr ntop (re_to r) (re_to_len r) = Inr t"
  shows "or_from seen = f" "or_to seen = t" "or_priority seen = ucast (re_priority r)"
    "or_family seen = (if re_family r = of_nat AF_INET6 then RULE_FAMILY_INET6 else RULE_FAMILY_INET)"
    "or_iif seen = re_iif r" "or_oif seen = re_oif r"
    "or_fwmark seen = (case re_fwmark r of None \<Rightarrow> None | Some v \<Rightarrow> some_int v)"
    "or_fwmask seen = (case re_fwmask r of None \<Rightarrow> None | Some v \<Rightarrow> some_int v)"
    "or_suppress_prefixlength seen = (case re_suppress_prefixlength r of None \<Rightarrow> None | Some v \<Rightarrow> some_int v)"
    "or_table seen = (if re_table r \<noteq> 0 then some_int (re_table r) else None)"
    "or_l3mdev seen = re_l3mdev r" "or_invert seen = re_invert r"
    "or_ownership seen = (if ucast (re_protocol r) = NCFG_WIRE_RTPROT_NETCFGD then OWNERSHIP_OURS else OWNERSHIP_FOREIGN)"
    "or_action seen = (if re_action r = FR_ACT_BLACKHOLE then RULE_ACTION_BLACKHOLE
       else if re_action r = FR_ACT_UNREACHABLE then RULE_ACTION_UNREACHABLE
       else if re_action r = FR_ACT_PROHIBIT then RULE_ACTION_PROHIBIT else RULE_ACTION_LOOKUP)"
  using assms by (auto simp: build_rule_def)

lemma spec_of_sendable:
  assumes "rule_sendable pton ntop rule"
  shows "\<exists>spec seen. ncfg_kernel_rule_spec pton rule = Inr spec \<and> rule_ok spec \<and> build_rule ntop (rule_seen spec) = Inr seen \<and>
    or_ownership seen = OWNERSHIP_OURS \<and> okey seen = rkey rule \<and>
    (same_rule pton ntop rule seen \<longleftrightarrow>
      prefixed pton (rl_from rule) \<and> prefixed pton (rl_to rule) \<and> (rl_action rule \<noteq> RULE_ACTION_LOOKUP \<or> rl_table rule \<noteq> Some 0))"
proof -
  note ok = assms [unfolded rule_sendable_def]
  obtain src flen f where src: "rule_selector pton (rl_from rule) (family_byte (rl_family rule)) = Inr (src, flen)" "ip_field src"
    "ip_cidr ntop src (if ncfg_ops_ip_present src then flen else 0) = Inr f"
    "same_address pton ntop (rl_from rule) f \<longleftrightarrow> prefixed pton (rl_from rule)"
    using selector_back [of pton ntop "rl_family rule" "rl_from rule"] ok by blast
  obtain dst tlen t where dst: "rule_selector pton (rl_to rule) (family_byte (rl_family rule)) = Inr (dst, tlen)" "ip_field dst"
    "ip_cidr ntop dst (if ncfg_ops_ip_present dst then tlen else 0) = Inr t"
    "same_address pton ntop (rl_to rule) t \<longleftrightarrow> prefixed pton (rl_to rule)"
    using selector_back [of pton ntop "rl_family rule" "rl_to rule"] ok by blast
  let ?spec = "\<lparr>ru_family = family_byte (rl_family rule), ru_priority = ucast (rl_priority rule), ru_table = number 0 (rl_table rule),
     ru_action = rule_action_byte (rl_action rule), ru_from = src, ru_from_len = flen, ru_to = dst, ru_to_len = tlen,
     ru_iif = rl_iif rule, ru_oif = rl_oif rule, ru_fwmark = rl_fwmark rule, ru_fwmask = rl_fwmask rule,
     ru_suppress_prefixlength = rl_suppress_prefixlength rule, ru_l3mdev = rl_l3mdev rule, ru_invert = rl_invert rule, ru_protocol = None\<rparr>"
  have t: "narrow_or 0 (rl_table rule) 0xffffffff ''table'' = Inr (number 0 (rl_table rule))"
    using ok by (intro narrow_or_Inr) (simp add: UINT32_MAX_def)
  have p: "ncfg_ops_narrow (rl_priority rule) 0xffffffff ''priority'' = Inr (ucast (rl_priority rule))"
    using ok by (simp add: ncfg_ops_narrow_def in_range_def UINT32_MAX_def)
  have spec: "ncfg_kernel_rule_spec pton rule = Inr ?spec"
    using ok src(1) dst(1) p t by (auto simp: ncfg_kernel_rule_spec_def Let_def)
  have rule: "rule_ok ?spec" using ok src(2) dst(2) by (simp add: rule_ok_def in_range_def)
  define spec where "spec = ?spec"
  let ?r = "rule_seen spec"
  have c: "ip_cidr ntop (re_from ?r) (re_from_len ?r) = Inr f" "ip_cidr ntop (re_to ?r) (re_to_len ?r) = Inr t"
    using src(3) dst(3) by (simp_all add: rule_seen_def spec_def cong: if_cong)
  have r: "re_priority ?r = ucast (rl_priority rule)" "re_family ?r = family_byte (rl_family rule)" "re_table ?r = number 0 (rl_table rule)"
    "re_action ?r = rule_action_byte (rl_action rule)" "re_iif ?r = map_option cstr (rl_iif rule)" "re_oif ?r = map_option cstr (rl_oif rule)"
    "re_fwmark ?r = map_option ucast (rl_fwmark rule)" "re_fwmask ?r = map_option ucast (rl_fwmask rule)"
    "re_suppress_prefixlength ?r = map_option ucast (rl_suppress_prefixlength rule)" "re_l3mdev ?r = rl_l3mdev rule" "re_invert ?r = rl_invert rule"
    "ucast (re_protocol ?r) = NCFG_WIRE_RTPROT_NETCFGD"
    by (simp_all add: rule_seen_def spec_def number_def NCFG_WIRE_RTPROT_NETCFGD_def)
  obtain seen where seen: "build_rule ntop ?r = Inr seen" by (simp add: build_rule_def c)
  note f = build_rule_fields [OF this c, unfolded r seen_number]
  have "or_action seen = rl_action rule" "or_family seen = rl_family rule"
    unfolding f by (cases "rl_action rule"; simp add: rule_action_byte_def) (cases "rl_family rule"; simp add: AF_INET_def AF_INET6_def)
  moreover have "or_priority seen = rl_priority rule" unfolding f using ok by (intro small_number) (simp_all add: in_range_def)
  moreover have "or_fwmark seen = rl_fwmark rule" "or_fwmask seen = rl_fwmask rule"
    "or_suppress_prefixlength seen = rl_suppress_prefixlength rule"
    unfolding f using ok by (auto intro!: number_again intro: in_range_mono)
  moreover have "or_table seen = (if rl_table rule = Some 0 then None else rl_table rule)"
  proof (cases "rl_table rule")
    case (Some w)
    with ok have "ucast (ucast w :: 32 word) = w" by (intro small_number) (simp_all add: in_range_def)
    with Some show ?thesis unfolding f by (auto simp: number_def some_int_def)
  qed (simp add: f number_def)
  moreover have "map_option cstr (map_option cstr n) = map_option cstr n" for n
    by (cases n) (simp_all add: cstr_def takeWhile_eq_all_conv)
  ultimately have "same_rule pton ntop rule seen \<longleftrightarrow>
      prefixed pton (rl_from rule) \<and> prefixed pton (rl_to rule) \<and> (rl_action rule \<noteq> RULE_ACTION_LOOKUP \<or> rl_table rule \<noteq> Some 0)"
    "or_ownership seen = OWNERSHIP_OURS" "okey seen = rkey rule"
    using src(4) dst(4) by (auto simp: same_rule_def same_text_def same_number_def f(1-6,11-13) okey_def rkey_def)
  with spec rule seen show ?thesis unfolding spec_def by blast
qed

subsection \<open>Properties\<close>

lemma rules_plan:
  assumes "distinct (map rkey desired)" "distinct (map okey observed)" "open_builder builder"
  shows "\<exists>ops. ops_of (ncfg_plan_rules pton ntop desired observed builder) = ops_of builder @ ops \<and>
    run_rules ops (table_of observed) = Some (rules_target pton ntop desired (table_of observed))"
  using rules_ops [OF assms(3)] rules_run [OF assms(1,2)] by blast

lemma rules_plan_again:
  assumes "distinct (map rkey desired)" "table_of after = rules_target pton ntop desired table" "distinct (map okey after)" "open_builder later"
  shows "ops_of (ncfg_plan_rules pton ntop desired after later) = ops_of later"
  using rules_ops [OF assms(4), of pton ntop desired after] target_quiet [OF assms(1-3)] by simp


text \<open>
  C29.  One rule all the way round.  For a rule of the document whose numbers and names the kernel can carry and whose
  selectors are addresses of its family, the executor builds the request; what the request carries is read back,
  and observed, as a rule netcfgd owns at the same family and priority.  The planner takes the observed rule for
  the document's exactly when each selector that is given has a prefix length and a lookup does not name table
  zero: those two spellings are installed, and not recognised afterwards.
\<close>

theorem rule_recognised:
  assumes "rule_sendable pton ntop rule"
  shows "\<exists>out m seen record.
    ncfg_kernel_build_rule pton host (ncfg_buf_init 0) seq (rule_op NCFG_OP_RULE_ADD rule) True = (None, out) \<and>
    carries host out RTM_NEWRULE (NCFG_OPS_ACK_FLAGS OR NLM_F_CREATE OR NLM_F_EXCL) seq m \<and>
    ncfg_dump_rule host (ncfg_buf_text out) (wg_payload m) (wg_payload_length m) = Inr record \<and>
    build_rule ntop record = Inr seen \<and> or_ownership seen = OWNERSHIP_OURS \<and> okey seen = rkey rule \<and>
    (same_rule pton ntop rule seen \<longleftrightarrow>
      prefixed pton (rl_from rule) \<and> prefixed pton (rl_to rule) \<and> (rl_action rule \<noteq> RULE_ACTION_LOOKUP \<or> rl_table rule \<noteq> Some 0))"
proof -
  obtain spec seen where s: "ncfg_kernel_rule_spec pton rule = Inr spec" "rule_ok spec" "build_rule ntop (rule_seen spec) = Inr seen"
    "or_ownership seen = OWNERSHIP_OURS" "okey seen = rkey rule"
    "same_rule pton ntop rule seen \<longleftrightarrow>
      prefixed pton (rl_from rule) \<and> prefixed pton (rl_to rule) \<and> (rl_action rule \<noteq> RULE_ACTION_LOOKUP \<or> rl_table rule \<noteq> Some 0)"
    using spec_of_sendable [OF assms] by blast
  have "ncfg_kernel_build_rule pton host (ncfg_buf_init 0) seq (rule_op NCFG_OP_RULE_ADD rule) True =
      rule_request host (ncfg_buf_init 0) RTM_NEWRULE (NCFG_OPS_ACK_FLAGS OR NLM_F_CREATE OR NLM_F_EXCL) seq spec"
    using s(1) by (simp add: ncfg_kernel_build_rule_def rule_op_def ncfg_ops_add_rule_def)
  with rule_requested [OF s(2)] s(3-6) show ?thesis by metis
qed

definition sample_selector_rule :: "cstring \<Rightarrow> routing_rule" where
  "sample_selector_rule selector =
     \<lparr>rl_id = ascii ''office'', rl_priority = 1000, rl_family = RULE_FAMILY_INET, rl_from = selector, rl_to = None, rl_iif = None,
      rl_oif = None, rl_fwmark = None, rl_fwmask = None, rl_table = Some 300, rl_action = RULE_ACTION_LOOKUP,
      rl_suppress_prefixlength = None, rl_l3mdev = False, rl_invert = False\<rparr>"

text \<open>\<^verbatim>\<open>inet_ntop\<close> for the addresses of the sample, whatever follows them in memory.\<close>

definition sample_ntop_prefix :: ntop where
  "sample_ntop_prefix which bs = sample_ntop which (take (if which = AF_INET6 then 16 else 4) bs)"

theorem rule_recognised_witness:
  "rule_sendable sample_pton sample_ntop_prefix (sample_selector_rule (Some (ascii ''192.168.1.1''))) \<and>
   (\<exists>out m seen record.
    ncfg_kernel_build_rule sample_pton Little_Endian (ncfg_buf_init 0) 7
      (rule_op NCFG_OP_RULE_ADD (sample_selector_rule (Some (ascii ''192.168.1.1'')))) True = (None, out) \<and>
    carries Little_Endian out RTM_NEWRULE (NCFG_OPS_ACK_FLAGS OR NLM_F_CREATE OR NLM_F_EXCL) 7 m \<and>
    ncfg_dump_rule Little_Endian (ncfg_buf_text out) (wg_payload m) (wg_payload_length m) = Inr record \<and>
    build_rule sample_ntop_prefix record = Inr seen \<and>
    \<not> same_rule sample_pton sample_ntop_prefix (sample_selector_rule (Some (ascii ''192.168.1.1''))) seen) \<and>
   (\<exists>out m seen record.
    ncfg_kernel_build_rule sample_pton Little_Endian (ncfg_buf_init 0) 7
      (rule_op NCFG_OP_RULE_ADD (sample_selector_rule (Some (ascii ''192.168.1.1/32'')))) True = (None, out) \<and>
    carries Little_Endian out RTM_NEWRULE (NCFG_OPS_ACK_FLAGS OR NLM_F_CREATE OR NLM_F_EXCL) 7 m \<and>
    ncfg_dump_rule Little_Endian (ncfg_buf_text out) (wg_payload m) (wg_payload_length m) = Inr record \<and>
    build_rule sample_ntop_prefix record = Inr seen \<and>
    same_rule sample_pton sample_ntop_prefix (sample_selector_rule (Some (ascii ''192.168.1.1/32''))) seen)"
proof -
  let ?bare = "sample_selector_rule (Some (ascii ''192.168.1.1''))"
  let ?full = "sample_selector_rule (Some (ascii ''192.168.1.1/32''))"
  have bare: "rule_sendable sample_pton sample_ntop_prefix ?bare" "\<not> prefixed sample_pton (rl_from ?bare)" by code_simp+
  have full: "rule_sendable sample_pton sample_ntop_prefix ?full" "prefixed sample_pton (rl_from ?full)"
    "prefixed sample_pton (rl_to ?full)" "rl_table ?full \<noteq> Some 0" by code_simp+
  show ?thesis
    by (intro conjI bare(1)) (use rule_recognised [OF bare(1), of Little_Endian 7] bare(2) in blast,
      use rule_recognised [OF full(1), of Little_Endian 7] full(2-4) in blast)
qed

definition sample_foreign :: observed_rule where
  "sample_foreign = (installed (sample_selector_rule (Some (ascii ''192.168.1.1/32''))))\<lparr>or_priority := 5, or_ownership := OWNERSHIP_FOREIGN\<rparr>"

definition sample_rules_builder :: rule_builder where
  "sample_rules_builder =
     \<lparr>bd_plan = ncfg_plan_new, bd_locked = [], bd_allow_disruption = [], bd_guards = [], bd_unmanaged = [], bd_declined = [],
      bd_clearing = [], bd_tearing_down = False\<rparr>"


end
