(* ===== verification/Ncfg_Schedule.thy ===== *)
theory Ncfg_Schedule
  imports Ncfg_Value "HOL-Library.Product_Lexorder" "HOL-Library.Signed_Division"
begin

text \<open>
  When a firewall rule applies: \<^verbatim>\<open>c/include/ncfg/schedule.h\<close> and \<^verbatim>\<open>c/src/model/schedule.c\<close>.  A window of the day
  and a set of days, in local time, become pieces of days in UTC, which is what the kernel's clock reads.

  A number of seconds (\<^verbatim>\<open>long\<close>) is an \<^typ>\<open>int\<close>: a window is at most a day long, and an offset that would bring
  the sums near the width of a \<^verbatim>\<open>long\<close> is no offset of any clock.  A pointer into a text is the rest of the text,
  behind which a NUL is read.  \<^verbatim>\<open>sscanf\<close> is undefined for a number its type does not hold; here it has its value.
\<close>

definition NCFG_SCHEDULE_DAY_SECONDS :: int where
  "NCFG_SCHEDULE_DAY_SECONDS = 86400"

definition NCFG_SCHEDULE_PIECES_MAX :: nat where
  "NCFG_SCHEDULE_PIECES_MAX = 28"

definition NCFG_SCHEDULE_PIECE_TEXT :: nat where
  "NCFG_SCHEDULE_PIECE_TEXT = 32"

record schedule_piece =
  sp_day :: int
  sp_from :: int
  sp_to :: int

definition day_words :: "bytes list" where
  "day_words = map ascii [''sun'', ''mon'', ''tue'', ''wed'', ''thu'', ''fri'', ''sat'']"

definition day_names :: "bytes list" where
  "day_names = map ascii [''sunday'', ''monday'', ''tuesday'', ''wednesday'', ''thursday'', ''friday'', ''saturday'']"

subsection \<open>The window of a day\<close>

definition byte_at :: "bytes \<Rightarrow> nat \<Rightarrow> byte" where
  "byte_at p i = (if i < length p then p ! i else 0)"

definition clock_read :: "bytes \<Rightarrow> (int \<times> bytes) option" where
  "clock_read at =
     (let digits = takeWhile is_digit (take 2 at);
          hours = int (decimal_value digits);
          p = drop (length digits) at
      in if digits = [] \<or> byte_at p 0 \<noteq> colon \<or> byte_at p 1 < ch CHR ''0'' \<or> ch CHR ''5'' < byte_at p 1 \<or>
            byte_at p 2 < ch CHR ''0'' \<or> ch CHR ''9'' < byte_at p 2 then None
         else
           let minutes = int (digit_value (byte_at p 1)) * 10 + int (digit_value (byte_at p 2)) in
           if 24 < hours \<or> hours = 24 \<and> minutes \<noteq> 0 then None
           else Some (hours * 3600 + minutes * 60, drop 3 p))"

text \<open>\<^verbatim>\<open>%02ld\<close> of a number that is not negative.\<close>

definition two_digits :: "int \<Rightarrow> bytes" where
  "two_digits v = (if v < 10 then ascii ''0'' else []) @ decimal (nat v)"

definition hours_text :: "int \<Rightarrow> int \<Rightarrow> bytes" where
  "hours_text start end =
     two_digits (start div 3600) @ ascii '':'' @ two_digits (start mod 3600 div 60) @ ascii ''-'' @
     two_digits (end div 3600) @ ascii '':'' @ two_digits (end mod 3600 div 60)"

definition not_a_window :: bytes where
  "not_a_window =
     ascii ''is not a window of the day: write it as `22:00-07:00`, from and until, in the machine's local time''"

definition ncfg_schedule_hours_parse :: "cstring \<Rightarrow> nat \<Rightarrow> bytes + int \<times> int \<times> bytes" where
  "ncfg_schedule_hours_parse text normal_size =
     (case text of
        None \<Rightarrow> Inl not_a_window
      | Some text \<Rightarrow>
     (case clock_read (cstr text) of
        None \<Rightarrow> Inl not_a_window
      | Some (start, at) \<Rightarrow>
          if byte_at at 0 \<noteq> ch CHR ''-'' then Inl not_a_window
          else
     (case clock_read (tl at) of
        None \<Rightarrow> Inl not_a_window
      | Some (end, at) \<Rightarrow>
          if at \<noteq> [] then Inl not_a_window
          else if start = NCFG_SCHEDULE_DAY_SECONDS then
            Inl (ascii ''starts at 24:00, which is the next day's 00:00: write that'')
          else if start = end mod NCFG_SCHEDULE_DAY_SECONDS then
            Inl (ascii ''starts where it ends, which is a window of nothing or of the whole day: for the whole day, leave `hours` out'')
          else
            let end = (if end = 0 then NCFG_SCHEDULE_DAY_SECONDS else end)
            in Inr (start, end, snprintf_text normal_size (hours_text start end)))))"

subsection \<open>Days\<close>

text \<open>The number of a day, and its normal spelling.\<close>

definition ncfg_schedule_day :: "cstring \<Rightarrow> int \<times> cstring" where
  "ncfg_schedule_day word =
     (case word of
        None \<Rightarrow> (-1, None)
      | Some w \<Rightarrow>
          (case find (\<lambda>day. cstr w = day_words ! day \<or> cstr w = day_names ! day) [0..<7] of
             None \<Rightarrow> (-1, None)
           | Some day \<Rightarrow> (int day, Some (day_words ! day))))"

definition ncfg_schedule_day_word :: "int \<Rightarrow> bytes" where
  "ncfg_schedule_day_word day = (if 0 \<le> day \<and> day < 7 then day_words ! nat day else ascii ''any'')"

subsection \<open>The offset\<close>

text \<open>What the file keeps between calls, and what \<^verbatim>\<open>localtime_r\<close> says of this moment, if anything.\<close>

record schedule_zone =
  zn_offset_fixed :: bool
  zn_offset_seconds :: int

definition ncfg_schedule_offset :: "schedule_zone \<Rightarrow> int option \<Rightarrow> int" where
  "ncfg_schedule_offset zone local =
     (if zn_offset_fixed zone then zn_offset_seconds zone
      else case local of None \<Rightarrow> 0 | Some gmtoff \<Rightarrow> gmtoff)"

definition ncfg_schedule_offset_fix :: "schedule_zone \<Rightarrow> bool \<Rightarrow> int \<Rightarrow> schedule_zone" where
  "ncfg_schedule_offset_fix zone fixed seconds = zone\<lparr>zn_offset_fixed := fixed, zn_offset_seconds := seconds\<rparr>"

subsection \<open>Pieces in UTC\<close>

definition whole_days :: "int \<Rightarrow> int" where
  "whole_days seconds =
     (if 0 \<le> seconds then seconds div NCFG_SCHEDULE_DAY_SECONDS
      else - ((- seconds + NCFG_SCHEDULE_DAY_SECONDS - 1) div NCFG_SCHEDULE_DAY_SECONDS))"

definition add_piece :: "nat \<Rightarrow> schedule_piece list \<Rightarrow> int \<Rightarrow> int \<Rightarrow> int \<Rightarrow> bool \<times> schedule_piece list" where
  "add_piece out_cap out day from to =
     (if out_cap \<le> length out then (False, out)
      else (True, out @ [\<lparr>sp_day = day, sp_from = from, sp_to = to\<rparr>]))"

definition to_utc :: "nat \<Rightarrow> int \<Rightarrow> schedule_piece list \<Rightarrow> schedule_piece \<Rightarrow> bool \<times> schedule_piece list" where
  "to_utc out_cap offset out piece =
     (let start = sp_from piece - offset;
          end = sp_to piece - offset;
          shift = whole_days start;
          start = start - shift * NCFG_SCHEDULE_DAY_SECONDS;
          end = end - shift * NCFG_SCHEDULE_DAY_SECONDS;
          day = (if 0 \<le> sp_day piece then ((sp_day piece + shift) smod 7 + 7) smod 7 else sp_day piece)
      in if end \<le> NCFG_SCHEDULE_DAY_SECONDS then add_piece out_cap out day start (end - 1)
         else case add_piece out_cap out day start (NCFG_SCHEDULE_DAY_SECONDS - 1) of
           (False, out) \<Rightarrow> (False, out)
         | (True, out) \<Rightarrow>
             add_piece out_cap out (if 0 \<le> day then (day + 1) smod 7 else -1) 0 (end - NCFG_SCHEDULE_DAY_SECONDS - 1))"

fun all_to_utc :: "nat \<Rightarrow> int \<Rightarrow> schedule_piece list \<Rightarrow> schedule_piece list \<Rightarrow> bool \<times> schedule_piece list" where
  "all_to_utc out_cap offset out [] = (True, out)"
| "all_to_utc out_cap offset out (piece # pieces) =
     (case to_utc out_cap offset out piece of
        (False, out) \<Rightarrow> (False, out)
      | (True, out) \<Rightarrow> all_to_utc out_cap offset out pieces)"

definition piece_order :: "schedule_piece \<Rightarrow> schedule_piece \<Rightarrow> int" where
  "piece_order left right =
     (if sp_day left \<noteq> sp_day right then if sp_day left < sp_day right then -1 else 1
      else if sp_from left \<noteq> sp_from right then if sp_from left < sp_from right then -1 else 1
      else if sp_to left < sp_to right then -1
      else if sp_to right < sp_to left then 1 else 0)"

text \<open>\<^verbatim>\<open>qsort\<close> with that comparison, which tells every two different pieces apart.\<close>

definition piece_key :: "schedule_piece \<Rightarrow> int \<times> int \<times> int" where
  "piece_key piece = (sp_day piece, sp_from piece, sp_to piece)"

definition sort_pieces :: "schedule_piece list \<Rightarrow> schedule_piece list" where
  "sort_pieces pieces = sort_key piece_key pieces"

fun join_pieces :: "schedule_piece \<Rightarrow> schedule_piece list \<Rightarrow> schedule_piece list" where
  "join_pieces held [] = [held]"
| "join_pieces held (piece # pieces) =
     (if sp_day piece = sp_day held \<and> sp_from piece \<le> sp_to held + 1 then
        join_pieces (if sp_to held < sp_to piece then held\<lparr>sp_to := sp_to piece\<rparr> else held) pieces
      else held # join_pieces piece pieces)"

definition add_day :: "32 word \<Rightarrow> cstring \<Rightarrow> 32 word" where
  "add_day chosen word =
     (let day = fst (ncfg_schedule_day word) in if 0 \<le> day then chosen OR push_bit (nat day) 1 else chosen)"

definition day_mask :: "cstring list \<Rightarrow> 32 word" where
  "day_mask days = (let chosen = foldl add_day 0 days in if chosen = 0x7f then 0 else chosen)"

definition mask_days :: "32 word \<Rightarrow> int list" where
  "mask_days chosen = (if chosen = 0 then [-1] else filter (\<lambda>day. chosen AND push_bit (nat day) 1 \<noteq> 0) [0, 1, 2, 3, 4, 5, 6])"

definition local_pieces :: "int \<Rightarrow> int \<Rightarrow> schedule_piece list \<Rightarrow> int \<Rightarrow> schedule_piece list" where
  "local_pieces start end local day =
     (if start < end then snd (add_piece NCFG_SCHEDULE_PIECES_MAX local day start end)
      else
        let local = snd (add_piece NCFG_SCHEDULE_PIECES_MAX local day start NCFG_SCHEDULE_DAY_SECONDS)
        in snd (add_piece NCFG_SCHEDULE_PIECES_MAX local (if 0 \<le> day then (day + 1) smod 7 else -1) 0 end))"

definition expand_window :: "int \<Rightarrow> int \<Rightarrow> cstring list \<Rightarrow> int \<Rightarrow> nat \<Rightarrow> schedule_piece list" where
  "expand_window start end days utc_offset out_cap =
     (case all_to_utc out_cap utc_offset [] (foldl (local_pieces start end) [] (mask_days (day_mask days))) of
        (False, out) \<Rightarrow> []
      | (True, out) \<Rightarrow>
          (case sort_pieces out of
             [] \<Rightarrow> []
           | first # rest \<Rightarrow> join_pieces first rest))"

text \<open>The pieces, of which the code returns the number; none where it returns zero.\<close>

definition ncfg_schedule_expand :: "cstring \<Rightarrow> cstring list \<Rightarrow> int \<Rightarrow> nat \<Rightarrow> schedule_piece list" where
  "ncfg_schedule_expand hours days utc_offset out_cap =
     (case hours of
        None \<Rightarrow> expand_window 0 NCFG_SCHEDULE_DAY_SECONDS days utc_offset out_cap
      | Some _ \<Rightarrow>
          (case ncfg_schedule_hours_parse hours 0 of
             Inl _ \<Rightarrow> []
           | Inr (start, end, _) \<Rightarrow> expand_window start end days utc_offset out_cap))"

subsection \<open>Pieces as text\<close>

definition clock_of :: "int \<Rightarrow> nat \<Rightarrow> bytes" where
  "clock_of seconds out_size =
     snprintf_text out_size
       (two_digits (seconds div 3600) @ ascii '':'' @ two_digits (seconds mod 3600 div 60) @
        (if seconds mod 60 \<noteq> 0 then ascii '':'' @ two_digits (seconds mod 60) else []))"

definition ncfg_schedule_piece_describe :: "schedule_piece \<Rightarrow> nat \<Rightarrow> bytes" where
  "ncfg_schedule_piece_describe piece out_size =
     snprintf_text out_size
       ((if sp_day piece < 0 then ascii ''every day'' else ncfg_schedule_day_word (sp_day piece)) @ ascii '' '' @
        clock_of (sp_from piece) 64 @ ascii ''-'' @ clock_of (sp_to piece) 64 @ ascii '' UTC'')"

definition ncfg_schedule_piece_text :: "schedule_piece \<Rightarrow> nat \<Rightarrow> bytes" where
  "ncfg_schedule_piece_text piece out_size =
     snprintf_text out_size
       ((if sp_day piece < 0 then ascii ''any'' else decimal_int (sp_day piece)) @ ascii '' '' @
        decimal_int (sp_from piece) @ ascii '' '' @ decimal_int (sp_to piece))"

text \<open>\<^verbatim>\<open>sscanf\<close>: a number with the space before it and its sign, and a space of the format, which stands for any.\<close>

definition scan_space :: "bytes \<Rightarrow> bytes" where
  "scan_space text = dropWhile (\<lambda>b. 9 \<le> b \<and> b \<le> 13 \<or> b = 32) text"

definition scan_number :: "bytes \<Rightarrow> (int \<times> bytes) option" where
  "scan_number text =
     (let text = scan_space text;
          negative = (text \<noteq> [] \<and> hd text = ch CHR ''-'');
          text = (if text \<noteq> [] \<and> (hd text = ch CHR ''-'' \<or> hd text = ch CHR ''+'') then tl text else text);
          digits = takeWhile is_digit text;
          v = int (decimal_value digits)
      in if digits = [] then None else Some (if negative then - v else v, dropWhile is_digit text))"

definition scan_range :: "bytes \<Rightarrow> (int \<times> int) option" where
  "scan_range text =
     (case scan_number text of
        None \<Rightarrow> None
      | Some (from, text) \<Rightarrow>
     (case scan_number (scan_space text) of
        None \<Rightarrow> None
      | Some (to, text) \<Rightarrow> if text = [] then Some (from, to) else None))"

definition ncfg_schedule_piece_read :: "cstring \<Rightarrow> schedule_piece option" where
  "ncfg_schedule_piece_read text =
     (case text of
        None \<Rightarrow> None
      | Some text \<Rightarrow>
          let text = cstr text;
              read = (if take 4 text = ascii ''any '' then map_option (\<lambda>span. (-1, span)) (scan_range (drop 4 text))
                else case scan_number text of
                  None \<Rightarrow> None
                | Some (day, rest) \<Rightarrow>
                    (case scan_range (scan_space rest) of
                       None \<Rightarrow> None
                     | Some span \<Rightarrow> if day < 0 \<or> 6 < day then None else Some (day, span)))
          in case read of
               None \<Rightarrow> None
             | Some (day, from, to) \<Rightarrow>
                 if from < 0 \<or> to < from \<or> NCFG_SCHEDULE_DAY_SECONDS \<le> to then None
                 else Some \<lparr>sp_day = day, sp_from = from, sp_to = to\<rparr>)"

end
