(* ===== verification/Ncfg_Schedule_Props.thy ===== *)
theory Ncfg_Schedule_Props
  imports Ncfg_Schedule
begin

text \<open>
  A schedule in UTC against the schedule as it was written: an instant is covered by the pieces exactly when the
  local clock is inside a window that began on a chosen day.  Pieces are in order, apart, inside their day, and
  read as they are written.
\<close>

abbreviation DAY :: int where
  "DAY \<equiv> NCFG_SCHEDULE_DAY_SECONDS"

subsection \<open>What a schedule means\<close>

text \<open>
  An instant is a number of seconds since the midnight that began some Sunday, so that day \<open>k\<close> is weekday
  \<open>k mod 7\<close>, as both clocks count.
\<close>

definition on_day :: "int \<Rightarrow> int \<Rightarrow> bool" where
  "on_day day k \<longleftrightarrow> day < 0 \<or> day = k mod 7"

definition piece_covers :: "schedule_piece \<Rightarrow> int \<Rightarrow> bool" where
  "piece_covers piece t \<longleftrightarrow> on_day (sp_day piece) (t div DAY) \<and> sp_from piece \<le> t mod DAY \<and> t mod DAY \<le> sp_to piece"

definition covers :: "schedule_piece list \<Rightarrow> int \<Rightarrow> bool" where
  "covers pieces t = list_ex (\<lambda>piece. piece_covers piece t) pieces"

definition named_days :: "cstring list \<Rightarrow> int set" where
  "named_days days = {day. 0 \<le> day \<and> day \<in> (\<lambda>word. fst (ncfg_schedule_day word)) ` set days}"

definition chosen_day :: "cstring list \<Rightarrow> int \<Rightarrow> bool" where
  "chosen_day days k \<longleftrightarrow> named_days days = {} \<or> k mod 7 \<in> named_days days"

definition window_length :: "int \<Rightarrow> int \<Rightarrow> int" where
  "window_length start end = (if start < end then end - start else end - start + DAY)"

definition applies :: "int \<Rightarrow> int \<Rightarrow> cstring list \<Rightarrow> int \<Rightarrow> bool" where
  "applies start end days t \<longleftrightarrow>
     (\<exists>k. chosen_day days k \<and> k * DAY + start \<le> t \<and> t < k * DAY + start + window_length start end)"

definition utc_piece_ok :: "schedule_piece \<Rightarrow> bool" where
  "utc_piece_ok piece \<longleftrightarrow>
     -1 \<le> sp_day piece \<and> sp_day piece < 7 \<and> 0 \<le> sp_from piece \<and> sp_from piece \<le> sp_to piece \<and> sp_to piece < DAY"

definition apart :: "schedule_piece \<Rightarrow> schedule_piece \<Rightarrow> bool" where
  "apart p q \<longleftrightarrow> sp_day p < sp_day q \<or> sp_day p = sp_day q \<and> sp_to p + 1 < sp_from q"

subsection \<open>Arithmetic of days\<close>

lemma whole_days_div: "whole_days seconds = seconds div DAY"
proof -
  have "(- seconds + DAY - 1) div DAY = - (seconds div DAY)"
  proof (rule int_div_pos_eq [where r = "DAY - 1 - seconds mod DAY"])
    show "- seconds + DAY - 1 = DAY * - (seconds div DAY) + (DAY - 1 - seconds mod DAY)"
      unfolding mult_minus_right using mult_div_mod_eq [of DAY seconds] by linarith
  qed (simp_all add: NCFG_SCHEDULE_DAY_SECONDS_def)
  then show ?thesis by (simp add: whole_days_def)
qed

lemma smod_nonneg: "0 \<le> (a :: int) \<Longrightarrow> a smod 7 = a mod 7"
  by (simp add: signed_modulo_int_def signed_divide_int_def minus_div_mult_eq_mod sgn_if)

lemma weekday_smod: "((a :: int) smod 7 + 7) smod 7 = a mod 7"
proof (cases "0 \<le> a")
  case True
  then show ?thesis by (simp add: smod_nonneg)
next
  case False
  then have "a smod 7 = - ((- a) mod 7)"
    by (simp add: signed_modulo_int_def signed_divide_int_def minus_div_mult_eq_mod [symmetric])
  moreover have "0 \<le> - ((- a) mod 7) + 7" using pos_mod_bound [of 7 "- a"] by simp
  ultimately show ?thesis by (simp add: smod_nonneg) presburger
qed

lemma in_day:
  assumes "0 \<le> s" "e \<le> DAY"
  shows "(\<exists>k. P k \<and> k * DAY + s \<le> t \<and> t < k * DAY + e) \<longleftrightarrow> P (t div DAY) \<and> s \<le> t mod DAY \<and> t mod DAY < e"
proof
  assume "\<exists>k. P k \<and> k * DAY + s \<le> t \<and> t < k * DAY + e"
  then obtain k where k: "P k" "k * DAY + s \<le> t" "t < k * DAY + e" by blast
  have "t div DAY = k" using k assms by (intro int_div_pos_eq [where r = "t - k * DAY"]) (simp_all add: algebra_simps)
  with k show "P (t div DAY) \<and> s \<le> t mod DAY \<and> t mod DAY < e" using div_mult_mod_eq [of t DAY] by simp
next
  assume "P (t div DAY) \<and> s \<le> t mod DAY \<and> t mod DAY < e"
  then show "\<exists>k. P k \<and> k * DAY + s \<le> t \<and> t < k * DAY + e"
    using div_mult_mod_eq [of t DAY] by (intro exI [of _ "t div DAY"]) linarith
qed

lemma across_days:
  assumes "s \<le> DAY" "DAY \<le> e"
  shows "(\<exists>k. P k \<and> k * DAY + s \<le> t \<and> t < k * DAY + e) \<longleftrightarrow>
    (\<exists>k. P k \<and> k * DAY + s \<le> t \<and> t < k * DAY + DAY) \<or> (\<exists>k. P (k - 1) \<and> k * DAY + 0 \<le> t \<and> t < k * DAY + (e - DAY))"
proof (intro iffI; elim disjE exE conjE)
  fix k
  assume k: "P k" "k * DAY + s \<le> t" "t < k * DAY + e"
  show "(\<exists>k. P k \<and> k * DAY + s \<le> t \<and> t < k * DAY + DAY) \<or> (\<exists>k. P (k - 1) \<and> k * DAY + 0 \<le> t \<and> t < k * DAY + (e - DAY))"
  proof (cases "t < k * DAY + DAY")
    case False
    with k show ?thesis by (intro disjI2 exI [of _ "k + 1"]) (simp add: algebra_simps)
  qed (use k in blast)
next
  fix k
  assume "P k" "k * DAY + s \<le> t" "t < k * DAY + DAY"
  with assms show "\<exists>k. P k \<and> k * DAY + s \<le> t \<and> t < k * DAY + e" by (intro exI [of _ k]) simp
next
  fix k
  assume "P (k - 1)" "k * DAY + 0 \<le> t" "t < k * DAY + (e - DAY)"
  with assms show "\<exists>k. P k \<and> k * DAY + s \<le> t \<and> t < k * DAY + e" by (intro exI [of _ "k - 1"]) (simp add: algebra_simps)
qed

lemma next_weekday:
  assumes "day < 7"
  shows "on_day (if 0 \<le> day then (day + 1) smod 7 else -1) k \<longleftrightarrow> on_day day (k - 1)"
proof (cases "0 \<le> day")
  case True
  have "(day + 1) mod 7 = k mod 7 \<longleftrightarrow> day mod 7 = (k - 1) mod 7" by (simp add: mod_eq_dvd_iff algebra_simps)
  with True assms have "(day + 1) mod 7 = k mod 7 \<longleftrightarrow> day = (k - 1) mod 7" by simp
  with True show ?thesis using pos_mod_sign [of 7 "day + 1"] by (auto simp: on_day_def smod_nonneg)
qed (simp add: on_day_def)

lemma shifted_weekday:
  assumes "day < 7"
  shows "on_day (if 0 \<le> day then ((day + shift) smod 7 + 7) smod 7 else day) (k + shift) \<longleftrightarrow> on_day day k"
proof (cases "0 \<le> day")
  case True
  have "(day + shift) mod 7 = (k + shift) mod 7 \<longleftrightarrow> day mod 7 = k mod 7" by (simp add: mod_eq_dvd_iff)
  with True assms show ?thesis using pos_mod_sign [of 7 "day + shift"] by (auto simp: on_day_def weekday_smod)
qed (simp add: on_day_def)

subsection \<open>One piece in UTC\<close>

text \<open>A piece in local time runs up to its end and not further.\<close>

definition local_covers :: "schedule_piece \<Rightarrow> int \<Rightarrow> bool" where
  "local_covers piece t \<longleftrightarrow> (\<exists>k. on_day (sp_day piece) k \<and> k * DAY + sp_from piece \<le> t \<and> t < k * DAY + sp_to piece)"

definition local_ok :: "schedule_piece \<Rightarrow> bool" where
  "local_ok piece \<longleftrightarrow>
     -1 \<le> sp_day piece \<and> sp_day piece < 7 \<and> 0 \<le> sp_from piece \<and> sp_from piece < sp_to piece \<and> sp_to piece \<le> DAY"

lemma covers_simps [simp]:
  "covers [] t \<longleftrightarrow> False" "covers (p # ps) t \<longleftrightarrow> piece_covers p t \<or> covers ps t" "covers (ps @ qs) t \<longleftrightarrow> covers ps t \<or> covers qs t"
  by (simp_all add: covers_def)

lemma piece_covers_span:
  assumes "0 \<le> s" "e \<le> DAY"
  shows "piece_covers \<lparr>sp_day = day, sp_from = s, sp_to = e - 1\<rparr> t \<longleftrightarrow> (\<exists>k. on_day day k \<and> k * DAY + s \<le> t \<and> t < k * DAY + e)"
  using in_day [OF assms, of "on_day day" t] by (auto simp: piece_covers_def)

lemma add_room: "length out < cap \<Longrightarrow> add_piece cap out day from to = (True, out @ [\<lparr>sp_day = day, sp_from = from, sp_to = to\<rparr>])"
  by (simp add: add_piece_def)

lemma to_utc_one:
  assumes "local_ok piece"
  shows "\<exists>qs. (\<forall>cap out. length out + 2 \<le> cap \<longrightarrow> to_utc cap offset out piece = (True, out @ qs)) \<and>
    qs \<noteq> [] \<and> length qs \<le> 2 \<and> list_all utc_piece_ok qs \<and> (\<forall>t. covers qs t \<longleftrightarrow> local_covers piece (t + offset))"
proof -
  define shift where "shift = whole_days (sp_from piece - offset)"
  define s where "s = sp_from piece - offset - shift * DAY"
  define e where "e = sp_to piece - offset - shift * DAY"
  define day where "day = (if 0 \<le> sp_day piece then ((sp_day piece + shift) smod 7 + 7) smod 7 else sp_day piece)"
  let ?next = "if 0 \<le> day then (day + 1) smod 7 else -1"
  note ok = assms [unfolded local_ok_def]
  have s: "0 \<le> s" "s < DAY"
    using div_mult_mod_eq [of "sp_from piece - offset" DAY] pos_mod_sign [of DAY "sp_from piece - offset"] pos_mod_bound [of DAY "sp_from piece - offset"]
    by (simp_all add: s_def shift_def whole_days_div NCFG_SCHEDULE_DAY_SECONDS_def)
  have e: "s < e" "e \<le> s + DAY" using ok by (simp_all add: s_def e_def)
  have day: "-1 \<le> day" "day < 7" using ok by (auto simp: day_def weekday_smod pos_mod_bound)
  have moved: "local_covers piece (t + offset) \<longleftrightarrow> (\<exists>k. on_day day k \<and> k * DAY + s \<le> t \<and> t < k * DAY + e)" for t
  proof -
    have d: "on_day day (k + shift) \<longleftrightarrow> on_day (sp_day piece) k" for k
      using shifted_weekday [of "sp_day piece" shift k] ok by (simp add: day_def)
    have "local_covers piece (t + offset) \<longleftrightarrow>
        (\<exists>k. on_day day (k + shift) \<and> (k + shift) * DAY + s \<le> t \<and> t < (k + shift) * DAY + e)"
      unfolding local_covers_def d by (intro ex_cong1) (auto simp: s_def e_def algebra_simps)
    also have "\<dots> \<longleftrightarrow> (\<exists>k. on_day day k \<and> k * DAY + s \<le> t \<and> t < k * DAY + e)"
      by (metis diff_add_cancel)
    finally show ?thesis .
  qed
  have unfold: "to_utc cap offset out piece =
      (if e \<le> DAY then add_piece cap out day s (e - 1)
       else case add_piece cap out day s (DAY - 1) of (False, out) \<Rightarrow> (False, out) | (True, out) \<Rightarrow> add_piece cap out ?next 0 (e - DAY - 1))" for cap out
    unfolding to_utc_def Let_def s_def e_def shift_def day_def by (rule refl)
  show ?thesis
  proof (cases "e \<le> DAY")
    case True
    with s e day have "utc_piece_ok \<lparr>sp_day = day, sp_from = s, sp_to = e - 1\<rparr>" by (simp add: utc_piece_ok_def)
    with True piece_covers_span [OF s(1) True] show ?thesis
      by (intro exI [of _ "[\<lparr>sp_day = day, sp_from = s, sp_to = e - 1\<rparr>]"]) (simp add: unfold add_room moved)
  next
    case False
    let ?qs = "[\<lparr>sp_day = day, sp_from = s, sp_to = DAY - 1\<rparr>, \<lparr>sp_day = ?next, sp_from = 0, sp_to = e - DAY - 1\<rparr>]"
    have "0 \<le> (day + 1) mod 7" "(day + 1) mod 7 < 7" by (simp_all add: pos_mod_bound)
    then have n: "-1 \<le> ?next" "?next < 7" by (auto simp: smod_nonneg simp del: pos_mod_sign)
    have "list_all utc_piece_ok ?qs" using False s e day n by (simp add: utc_piece_ok_def)
    moreover have "covers ?qs t \<longleftrightarrow> local_covers piece (t + offset)" for t
    proof -
      have "piece_covers \<lparr>sp_day = ?next, sp_from = 0, sp_to = e - DAY - 1\<rparr> t \<longleftrightarrow>
          (\<exists>k. on_day day (k - 1) \<and> k * DAY + 0 \<le> t \<and> t < k * DAY + (e - DAY))"
        using piece_covers_span [of 0 "e - DAY" ?next t] e s next_weekday [OF day(2)] by simp
      moreover have "piece_covers \<lparr>sp_day = day, sp_from = s, sp_to = DAY - 1\<rparr> t \<longleftrightarrow>
          (\<exists>k. on_day day k \<and> k * DAY + s \<le> t \<and> t < k * DAY + DAY)"
        using piece_covers_span [of s DAY day t] s by simp
      moreover note across_days [of s e "on_day day" t]
      ultimately show ?thesis using False s unfolding moved by simp
    qed
    ultimately show ?thesis using False by (intro exI [of _ ?qs]) (simp add: unfold add_room)
  qed
qed

subsection \<open>The days and the windows\<close>

lemma all_to_utc_covers:
  assumes "list_all local_ok pieces"
  shows "\<exists>qs. (\<forall>cap out. length out + 2 * length pieces \<le> cap \<longrightarrow> all_to_utc cap offset out pieces = (True, out @ qs)) \<and>
    (pieces \<noteq> [] \<longrightarrow> qs \<noteq> []) \<and> length qs \<le> 2 * length pieces \<and> list_all utc_piece_ok qs \<and>
    (\<forall>t. covers qs t \<longleftrightarrow> list_ex (\<lambda>piece. local_covers piece (t + offset)) pieces)"
  using assms
proof (induction pieces)
  case (Cons piece pieces)
  obtain ps where ps: "\<And>cap out. length out + 2 \<le> cap \<Longrightarrow> to_utc cap offset out piece = (True, out @ ps)"
    "ps \<noteq> []" "length ps \<le> 2" "list_all utc_piece_ok ps" "\<And>t. covers ps t \<longleftrightarrow> local_covers piece (t + offset)"
    using to_utc_one [of piece offset] Cons.prems by auto
  obtain qs where qs: "\<And>cap out. length out + 2 * length pieces \<le> cap \<Longrightarrow> all_to_utc cap offset out pieces = (True, out @ qs)"
    "length qs \<le> 2 * length pieces" "list_all utc_piece_ok qs"
    "\<And>t. covers qs t \<longleftrightarrow> list_ex (\<lambda>piece. local_covers piece (t + offset)) pieces"
    using Cons by auto
  show ?case
  proof (intro exI [of _ "ps @ qs"] conjI allI impI)
    fix cap and out :: "schedule_piece list"
    assume room: "length out + 2 * length (piece # pieces) \<le> cap"
    then have "to_utc cap offset out piece = (True, out @ ps)" by (intro ps(1)) simp
    moreover have "all_to_utc cap offset (out @ ps) pieces = (True, (out @ ps) @ qs)" using room ps(3) by (intro qs(1)) simp
    ultimately show "all_to_utc cap offset out (piece # pieces) = (True, out @ ps @ qs)" by simp
  qed (use ps qs in auto)
qed simp

text \<open>The local pieces of one day, as a list of its own.\<close>

definition day_pieces :: "int \<Rightarrow> int \<Rightarrow> int \<Rightarrow> schedule_piece list" where
  "day_pieces start end day = local_pieces start end [] day"

lemma day_pieces_append:
  "length out + 2 \<le> NCFG_SCHEDULE_PIECES_MAX \<Longrightarrow> local_pieces start end out day = out @ day_pieces start end day"
  "length (day_pieces start end day) \<le> 2" "day_pieces start end day \<noteq> []"
  by (simp_all add: day_pieces_def local_pieces_def add_piece_def NCFG_SCHEDULE_PIECES_MAX_def)

lemma fold_pieces:
  "length out + 2 * length days \<le> NCFG_SCHEDULE_PIECES_MAX \<Longrightarrow>
   foldl (local_pieces start end) out days = out @ concat (map (day_pieces start end) days)"
proof (induction days arbitrary: out)
  case (Cons day days)
  have "length (out @ day_pieces start end day) + 2 * length days \<le> NCFG_SCHEDULE_PIECES_MAX"
    using Cons.prems day_pieces_append(2) [of start "end" day] by simp
  with Cons.IH [OF this] Cons.prems show ?case by (simp add: day_pieces_append(1))
qed simp

lemma day_pieces_cover:
  assumes "0 \<le> start" "start < DAY" "0 < end" "end \<le> DAY" "start \<noteq> end" "-1 \<le> day" "day < 7"
  shows "list_all local_ok (day_pieces start end day)"
    "list_ex (\<lambda>piece. local_covers piece t) (day_pieces start end day) \<longleftrightarrow>
      (\<exists>k. on_day day k \<and> k * DAY + start \<le> t \<and> t < k * DAY + start + window_length start end)"
proof -
  let ?next = "if 0 \<le> day then (day + 1) smod 7 else -1"
  have "0 \<le> (day + 1) mod 7" "(day + 1) mod 7 < 7" by (simp_all add: pos_mod_bound)
  then have n: "-1 \<le> ?next" "?next < 7" by (auto simp: smod_nonneg simp del: pos_mod_sign)
  have p: "day_pieces start end day =
      (if start < end then [\<lparr>sp_day = day, sp_from = start, sp_to = end\<rparr>]
       else [\<lparr>sp_day = day, sp_from = start, sp_to = DAY\<rparr>, \<lparr>sp_day = ?next, sp_from = 0, sp_to = end\<rparr>])"
    by (simp add: day_pieces_def local_pieces_def add_piece_def NCFG_SCHEDULE_PIECES_MAX_def)
  show "list_all local_ok (day_pieces start end day)" using assms n unfolding p by (auto simp: local_ok_def)
  show "list_ex (\<lambda>piece. local_covers piece t) (day_pieces start end day) \<longleftrightarrow>
      (\<exists>k. on_day day k \<and> k * DAY + start \<le> t \<and> t < k * DAY + start + window_length start end)"
  proof (cases "start < end")
    case True
    then show ?thesis by (simp add: p local_covers_def window_length_def algebra_simps)
  next
    case False
    have "local_covers \<lparr>sp_day = ?next, sp_from = 0, sp_to = end\<rparr> t \<longleftrightarrow>
        (\<exists>k. on_day day (k - 1) \<and> k * DAY + 0 \<le> t \<and> t < k * DAY + (end + DAY - DAY))"
      by (simp add: local_covers_def next_weekday [OF assms(7)])
    moreover have "local_covers \<lparr>sp_day = day, sp_from = start, sp_to = DAY\<rparr> t \<longleftrightarrow>
        (\<exists>k. on_day day k \<and> k * DAY + start \<le> t \<and> t < k * DAY + DAY)"
      by (simp add: local_covers_def)
    moreover note across_days [of start "end + DAY" "on_day day" t]
    moreover have w: "k * DAY + start + window_length start end = k * DAY + (end + DAY)" for k
      using False by (simp add: window_length_def)
    ultimately show ?thesis unfolding w using False assms by (simp add: p)
  qed
qed

lemma day_range: "fst (ncfg_schedule_day word) < 7"
  by (auto simp: ncfg_schedule_day_def find_Some_iff split: option.split)

lemma named_range: "named_days days \<subseteq> {0..<7}"
  using day_range by (auto simp: named_days_def)

lemma named_simps [simp]:
  "named_days [] = {}"
  "named_days (word # days) = (if 0 \<le> fst (ncfg_schedule_day word) then {fst (ncfg_schedule_day word)} else {}) \<union> named_days days"
  by (auto simp: named_days_def)

lemma bit_add_day: "bit (add_day m word) n \<longleftrightarrow> bit m n \<or> int n = fst (ncfg_schedule_day word)"
  using day_range [of word] by (auto simp: add_day_def Let_def bit_or_iff bit_exp_iff)

lemma bit_days: "bit (foldl add_day m days) n \<longleftrightarrow> bit m n \<or> int n \<in> named_days days"
  by (induction days arbitrary: m) (auto simp: bit_add_day)

lemma mask_values:
  "foldl add_day 0 days = 0x7f \<longleftrightarrow> named_days days = {0..<7}" "foldl add_day 0 days = 0 \<longleftrightarrow> named_days days = {}"
proof -
  have b: "bit (foldl add_day 0 days) n \<longleftrightarrow> int n \<in> named_days days" for n using bit_days [of 0 days n] by simp
  have "(0x7f :: 32 word) = mask 7" by (simp add: mask_eq_exp_minus_1)
  then have "foldl add_day 0 days = 0x7f \<longleftrightarrow> (\<forall>n. int n \<in> named_days days \<longleftrightarrow> n < 7)"
    using named_range [of days] by (fastforce simp: bit_eq_iff b bit_mask_iff)
  also have "\<dots> \<longleftrightarrow> named_days days = {0..<7}"
    using named_range [of days] by (auto simp: set_eq_iff) (metis nat_less_iff int_nat_eq zero_le_imp_eq_int of_nat_less_numeral_iff)
  finally show "foldl add_day 0 days = 0x7f \<longleftrightarrow> named_days days = {0..<7}" .
  show "foldl add_day 0 days = 0 \<longleftrightarrow> named_days days = {}"
    using named_range [of days] zero_le_imp_eq_int by (fastforce simp: bit_eq_iff b)
qed

lemma mask_days_named:
  "mask_days (day_mask days) =
    (if named_days days = {} \<or> named_days days = {0..<7} then [-1] else filter (\<lambda>day. day \<in> named_days days) [0, 1, 2, 3, 4, 5, 6])"
proof (cases "named_days days = {} \<or> named_days days = {0..<7}")
  case True
  with mask_values [of days] show ?thesis by (auto simp: mask_days_def day_mask_def)
next
  case False
  then have "day_mask days = foldl add_day 0 days" "foldl add_day 0 days \<noteq> 0" using mask_values [of days] by (auto simp: day_mask_def)
  moreover have bits: "foldl add_day 0 days AND push_bit (nat day) 1 \<noteq> 0 \<longleftrightarrow> day \<in> named_days days"
    if "day \<in> set [0, 1, 2, 3, 4, 5, 6]" for day
  proof -
    have "0 \<le> day" using that by auto
    with bit_days [of 0 days "nat day"] have "bit (foldl add_day 0 days) (nat day) \<longleftrightarrow> day \<in> named_days days" by simp
    then show ?thesis by (simp only: bit_iff_and_push_bit_not_eq_0)
  qed
  ultimately show ?thesis using False filter_cong [OF refl bits] by (simp only: mask_days_def if_False)
qed

lemma mask_days_chosen:
  "set (mask_days (day_mask days)) \<subseteq> {-1..<7}" "mask_days (day_mask days) \<noteq> []" "length (mask_days (day_mask days)) \<le> 7"
  "list_ex (\<lambda>day. on_day day k) (mask_days (day_mask days)) \<longleftrightarrow> chosen_day days k"
proof -
  let ?week = "[0, 1, 2, 3, 4, 5, 6] :: int list"
  have mem: "d \<in> set ?week" "0 \<le> d" if "d \<in> named_days days" for d using that named_range [of days] by auto
  show "set (mask_days (day_mask days)) \<subseteq> {-1..<7}" "length (mask_days (day_mask days)) \<le> 7" unfolding mask_days_named by auto
  have "filter (\<lambda>day. day \<in> named_days days) ?week \<noteq> []" if "named_days days \<noteq> {}"
    using that mem(1) unfolding filter_empty_conv by blast
  then show "mask_days (day_mask days) \<noteq> []" unfolding mask_days_named by (simp del: filter.simps)
  have some: "list_ex (\<lambda>day. on_day day k) (filter (\<lambda>day. day \<in> named_days days) ?week) \<longleftrightarrow> k mod 7 \<in> named_days days"
    unfolding list_ex_iff set_filter using mem by (force simp: on_day_def simp del: set_simps)
  show "list_ex (\<lambda>day. on_day day k) (mask_days (day_mask days)) \<longleftrightarrow> chosen_day days k"
  proof (cases "named_days days = {} \<or> named_days days = {0..<7}")
    case True
    moreover have "k mod 7 \<in> {0..<7}" by simp
    ultimately show ?thesis by (auto simp: mask_days_named chosen_day_def on_day_def)
  next
    case False
    with some show ?thesis unfolding mask_days_named by (simp del: filter.simps add: chosen_day_def)
  qed
qed

subsection \<open>Sorting and joining\<close>

definition before :: "schedule_piece \<Rightarrow> schedule_piece \<Rightarrow> bool" where
  "before p q \<longleftrightarrow> sp_day p < sp_day q \<or> sp_day p = sp_day q \<and> sp_from p \<le> sp_from q"

lemma before_widened [simp]: "before (if b then p\<lparr>sp_to := v\<rparr> else p) q \<longleftrightarrow> before p q"
  by (simp add: before_def)

lemma piece_order_key: "piece_order p q < 0 \<longleftrightarrow> piece_key p < piece_key q" "piece_order p q = 0 \<longleftrightarrow> p = q"
  by (auto simp: piece_order_def piece_key_def less_prod_def)

lemma sorted_before: "sorted_wrt before (sort_pieces pieces)"
proof -
  have "sorted_wrt (\<lambda>p q. piece_key p \<le> piece_key q) (sort_pieces pieces)"
    using sorted_sort_key [of piece_key pieces] by (simp add: sort_pieces_def sorted_wrt_map)
  then show ?thesis by (rule sorted_wrt_mono_rel [rotated]) (auto simp: piece_key_def before_def less_eq_prod_def)
qed

lemma covers_sorted: "covers (sort_pieces pieces) t = covers pieces t" "list_all P (sort_pieces pieces) = list_all P pieces"
  "length (sort_pieces pieces) = length pieces"
  by (simp_all add: covers_def list_ex_iff list_all_iff sort_pieces_def)

lemma join_later: "sorted_wrt before (held # pieces) \<Longrightarrow> q \<in> set (join_pieces held pieces) \<Longrightarrow> before held q"
proof (induction held pieces rule: join_pieces.induct)
  case (2 held piece pieces)
  show ?case
  proof (cases "sp_day piece = sp_day held \<and> sp_from piece \<le> sp_to held + 1")
    case True
    let ?wide = "if sp_to held < sp_to piece then held\<lparr>sp_to := sp_to piece\<rparr> else held"
    have "sorted_wrt before (?wide # pieces)" using 2(3) by simp
    with 2(1) [OF True] 2(4) True have "before ?wide q" by simp
    then show ?thesis by simp
  next
    case False
    with 2 have "q = held \<or> before piece q" by auto
    with 2(3) show ?thesis by (auto simp: before_def)
  qed
qed (simp add: before_def)

lemma join_apart: "sorted_wrt before (held # pieces) \<Longrightarrow> sorted_wrt apart (join_pieces held pieces)"
proof (induction held pieces rule: join_pieces.induct)
  case (2 held piece pieces)
  show ?case
  proof (cases "sp_day piece = sp_day held \<and> sp_from piece \<le> sp_to held + 1")
    case True
    have "sorted_wrt before ((if sp_to held < sp_to piece then held\<lparr>sp_to := sp_to piece\<rparr> else held) # pieces)"
      using 2(3) by simp
    with 2(1) [OF True] True show ?thesis by simp
  next
    case False
    have "apart held q" if "q \<in> set (join_pieces piece pieces)" for q
    proof -
      have "before piece q" using join_later [OF _ that] 2(3) by simp
      moreover have "before held piece" using 2(3) by simp
      ultimately show ?thesis using False by (auto simp: before_def apart_def)
    qed
    with 2(2) [OF False] 2(3) False show ?thesis by auto
  qed
qed simp

lemma join_covers: "sorted_wrt before (held # pieces) \<Longrightarrow> covers (join_pieces held pieces) t = covers (held # pieces) t"
proof (induction held pieces rule: join_pieces.induct)
  case (2 held piece pieces)
  show ?case
  proof (cases "sp_day piece = sp_day held \<and> sp_from piece \<le> sp_to held + 1")
    case True
    let ?wide = "if sp_to held < sp_to piece then held\<lparr>sp_to := sp_to piece\<rparr> else held"
    have "sorted_wrt before (?wide # pieces)" using 2(3) by simp
    moreover have "piece_covers ?wide t \<longleftrightarrow> piece_covers held t \<or> piece_covers piece t"
      using True 2(3) by (auto simp: piece_covers_def before_def)
    ultimately show ?thesis using 2(1) [OF True] True by auto
  qed (use 2 in auto)
qed simp

lemma join_ok: "list_all utc_piece_ok (held # pieces) \<Longrightarrow> list_all utc_piece_ok (join_pieces held pieces)"
  by (induction held pieces rule: join_pieces.induct) (auto simp: utc_piece_ok_def)

lemma join_length: "length (join_pieces held pieces) \<le> Suc (length pieces)" "join_pieces held pieces \<noteq> []"
  by (induction held pieces rule: join_pieces.induct) auto

lemma length_day_pieces: "length (concat (map (day_pieces start end) days)) \<le> 2 * length days"
proof (induction days)
  case (Cons day days)
  with day_pieces_append(2) [of start "end" day] show ?case by simp
qed simp

lemma locals_cover:
  fixes days
  assumes "0 \<le> start" "start < DAY" "0 < end" "end \<le> DAY" "start \<noteq> end"
  defines "pieces \<equiv> concat (map (day_pieces start end) (mask_days (day_mask days)))"
  shows "foldl (local_pieces start end) [] (mask_days (day_mask days)) = pieces" "pieces \<noteq> []" "length pieces \<le> 14"
    "list_all local_ok pieces" "list_ex (\<lambda>piece. local_covers piece t) pieces \<longleftrightarrow> applies start end days t"
proof -
  let ?days = "mask_days (day_mask days)"
  have d: "-1 \<le> day" "day < 7" if "day \<in> set ?days" for day using that mask_days_chosen(1) [of days] by auto
  have few: "length ?days \<le> 7" by (rule mask_days_chosen(3))
  then show "foldl (local_pieces start end) [] ?days = pieces"
    unfolding pieces_def by (subst fold_pieces) (simp_all add: NCFG_SCHEDULE_PIECES_MAX_def)
  show "length pieces \<le> 14" using length_day_pieces [of start "end" ?days] few unfolding pieces_def by linarith
  show "pieces \<noteq> []" using mask_days_chosen(2) [of days] day_pieces_append(3) by (cases ?days) (simp_all add: pieces_def)
  show "list_all local_ok pieces"
    using day_pieces_cover(1) [OF assms(1-5) d] by (auto simp: pieces_def list_all_iff)
  have "list_ex (\<lambda>piece. local_covers piece t) pieces \<longleftrightarrow> (\<exists>day \<in> set ?days. list_ex (\<lambda>piece. local_covers piece t) (day_pieces start end day))"
    by (auto simp: pieces_def list_ex_iff)
  also have "\<dots> \<longleftrightarrow> (\<exists>day \<in> set ?days. \<exists>k. on_day day k \<and> k * DAY + start \<le> t \<and> t < k * DAY + start + window_length start end)"
    using day_pieces_cover(2) [OF assms(1-5) d] by (intro bex_cong refl) blast
  also have "\<dots> \<longleftrightarrow> (\<exists>k. list_ex (\<lambda>day. on_day day k) ?days \<and> k * DAY + start \<le> t \<and> t < k * DAY + start + window_length start end)"
    by (auto simp: list_ex_iff)
  finally show "list_ex (\<lambda>piece. local_covers piece t) pieces \<longleftrightarrow> applies start end days t"
    by (simp only: mask_days_chosen(4) applies_def)
qed

definition expanded :: "int \<Rightarrow> int \<Rightarrow> cstring list \<Rightarrow> int \<Rightarrow> schedule_piece list \<Rightarrow> bool" where
  "expanded start end days offset pieces \<longleftrightarrow>
     pieces \<noteq> [] \<and> length pieces \<le> NCFG_SCHEDULE_PIECES_MAX \<and> list_all utc_piece_ok pieces \<and> sorted_wrt apart pieces \<and>
     (\<forall>t. covers pieces t \<longleftrightarrow> applies start end days (t + offset))"

lemma expand_window_ok:
  assumes "0 \<le> start" "start < DAY" "0 < end" "end \<le> DAY" "start \<noteq> end" "NCFG_SCHEDULE_PIECES_MAX \<le> cap"
  shows "expanded start end days offset (expand_window start end days offset cap)"
proof -
  note l = locals_cover [OF assms(1-5), where days = days]
  obtain qs where qs: "\<And>cap out. length out + 2 * length (concat (map (day_pieces start end) (mask_days (day_mask days)))) \<le> cap \<Longrightarrow>
      all_to_utc cap offset out (concat (map (day_pieces start end) (mask_days (day_mask days)))) = (True, out @ qs)"
    "qs \<noteq> []" "length qs \<le> 28" "list_all utc_piece_ok qs" "\<And>t. covers qs t \<longleftrightarrow> applies start end days (t + offset)"
    using all_to_utc_covers [OF l(4), of offset] l(2,3,5) by fastforce
  have all: "all_to_utc cap offset [] (foldl (local_pieces start end) [] (mask_days (day_mask days))) = (True, qs)"
    using qs(1) [of "[]" cap] l(1,3) assms(6) by (simp add: NCFG_SCHEDULE_PIECES_MAX_def)
  obtain first rest where sorted: "sort_pieces qs = first # rest"
    using qs(2) covers_sorted(3) [of qs] by (cases "sort_pieces qs") auto
  then have e: "expand_window start end days offset cap = join_pieces first rest" by (simp add: expand_window_def all)
  have b: "sorted_wrt before (first # rest)" using sorted_before [of qs] sorted by simp
  have "length (join_pieces first rest) \<le> 28" using join_length(1) [of first rest] covers_sorted(3) [of qs] sorted qs(3) by simp
  moreover have "list_all utc_piece_ok (join_pieces first rest)" using join_ok [of first rest] covers_sorted(2) [of utc_piece_ok qs] sorted qs(4) by simp
  moreover have "covers (join_pieces first rest) t \<longleftrightarrow> applies start end days (t + offset)" for t
    using join_covers [OF b, of t] covers_sorted(1) [of qs t] sorted qs(5) by simp
  ultimately show ?thesis using join_apart [OF b] join_length(2) by (simp add: expanded_def e NCFG_SCHEDULE_PIECES_MAX_def)
qed

subsection \<open>Reading a window and a piece\<close>

lemma clock_bounds:
  assumes "clock_read at = Some (v, rest)"
  shows "0 \<le> v" "v \<le> DAY"
proof -
  let ?digits = "takeWhile is_digit (take 2 at)"
  let ?hours = "int (decimal_value ?digits)" and ?p = "drop (length ?digits) at"
  let ?minutes = "int (digit_value (byte_at ?p 1)) * 10 + int (digit_value (byte_at ?p 2))"
  have v: "v = ?hours * 3600 + ?minutes * 60" "?hours < 24 \<or> ?hours = 24 \<and> ?minutes = 0" "byte_at ?p 1 \<le> 53" "byte_at ?p 2 \<le> 57"
    using assms unfolding clock_read_def Let_def by (auto simp: not_less split: if_splits)
  have "digit_value (byte_at ?p 1) \<le> 5" "digit_value (byte_at ?p 2) \<le> 9"
    using v(3,4) by (simp_all add: digit_value_def word_le_nat_alt)
  then have "?minutes \<le> 59" "0 \<le> ?minutes" "0 \<le> ?hours" by linarith+
  with v(1,2) obtain h m where "v = h * 3600 + m * 60" "0 \<le> h" "0 \<le> m" "m \<le> 59" "h < 24 \<or> h = 24 \<and> m = 0" by blast
  then show "0 \<le> v" "v \<le> DAY" by (auto simp: NCFG_SCHEDULE_DAY_SECONDS_def)
qed

lemma hours_bounds:
  assumes "ncfg_schedule_hours_parse hours room = Inr (start, end, normal)"
  shows "0 \<le> start" "start < DAY" "0 < end" "end \<le> DAY" "start \<noteq> end"
proof -
  obtain at rest e where c: "clock_read at = Some (start, rest)" "clock_read (tl rest) = Some (e, [])"
    "start \<noteq> DAY" "start \<noteq> e mod DAY" "end = (if e = 0 then DAY else e)"
    using assms by (auto simp: ncfg_schedule_hours_parse_def Let_def split: option.splits if_splits)
  note b = clock_bounds [OF c(1)] clock_bounds [OF c(2)]
  show "0 \<le> start" "start < DAY" "0 < end" "end \<le> DAY" using b c(3,5) by (auto simp: NCFG_SCHEDULE_DAY_SECONDS_def)
  show "start \<noteq> end"
  proof (cases "e < DAY")
    case True
    with b c show ?thesis by (auto split: if_splits)
  next
    case False
    with b c show ?thesis by (auto split: if_splits)
  qed
qed

lemma decimal_first: "\<exists>d ds. decimal n = d # ds \<and> is_digit d"
  using decimal_digits [of "hd (decimal n)" n] by (cases "decimal n") auto

lemma scan_space_decimal: "scan_space (decimal n @ rest) = decimal n @ rest" "scan_space (32 # text) = scan_space text"
  using decimal_first [of n] by (auto simp: scan_space_def is_digit_unat word_le_nat_alt)

lemma scan_decimal:
  assumes "rest = [] \<or> \<not> is_digit (hd rest)"
  shows "scan_number (decimal n @ rest) = Some (int n, rest)"
proof -
  obtain d ds where d: "decimal n = d # ds" "is_digit d" using decimal_first by blast
  then have "d \<noteq> 45" "d \<noteq> 43" by (auto simp: is_digit_def)
  moreover have "takeWhile is_digit (decimal n @ rest) = decimal n" "dropWhile is_digit (decimal n @ rest) = rest"
    using assms decimal_digits [of _ n] by (cases rest; simp add: takeWhile_append dropWhile_append takeWhile_eq_all_conv)+
  moreover have "decimal_value (d # ds) = n" using decimal_value_decimal [of n] by (simp add: d)
  ultimately show ?thesis using scan_space_decimal(1) [of n rest] by (simp add: scan_number_def Let_def d)
qed

lemma length_decimal_5: "n < 100000 \<Longrightarrow> length (decimal n) \<le> 5"
  by (cases "n < 10"; cases "n div 10 < 10"; cases "n div 100 < 10"; cases "n div 1000 < 10")
    (simp_all add: decimal_less_10 decimal_ge_10 div_mult2_eq [symmetric])

lemma scan_two: "scan_range (decimal n @ 32 # decimal m) = Some (int n, int m)"
  using scan_decimal [of "32 # decimal m" n] scan_decimal [of "[]" m] scan_space_decimal(1) [of m "[]"]
  by (simp add: scan_range_def scan_space_decimal(2) is_digit_def)

lemma piece_reads_back:
  assumes "utc_piece_ok piece"
  shows "ncfg_schedule_piece_read (Some (ncfg_schedule_piece_text piece NCFG_SCHEDULE_PIECE_TEXT)) = Some piece"
proof -
  note ok = assms [unfolded utc_piece_ok_def NCFG_SCHEDULE_DAY_SECONDS_def]
  let ?range = "decimal (nat (sp_from piece)) @ 32 # decimal (nat (sp_to piece))"
  have five: "length (decimal (nat (sp_from piece))) \<le> 5" "length (decimal (nat (sp_to piece))) \<le> 5" "length (decimal (nat (sp_day piece))) \<le> 5"
    using ok by (auto intro!: length_decimal_5)
  have z: "0 \<notin> set (decimal n)" for n using decimal_digits [of 0 n] by (auto simp: is_digit_def)
  have two: "scan_range ?range = Some (sp_from piece, sp_to piece)"
    using scan_two [of "nat (sp_from piece)" "nat (sp_to piece)"] ok by simp
  show ?thesis
  proof (cases "sp_day piece < 0")
    case True
    then have "ncfg_schedule_piece_text piece NCFG_SCHEDULE_PIECE_TEXT = ascii ''any '' @ ?range"
      using ok five by (simp add: ncfg_schedule_piece_text_def snprintf_text_def NCFG_SCHEDULE_PIECE_TEXT_def decimal_int_def)
    moreover have "cstr (ascii ''any '' @ ?range) = ascii ''any '' @ ?range" using z by (intro cstr_id) simp
    ultimately show ?thesis
      using True ok two by (simp add: ncfg_schedule_piece_read_def Let_def NCFG_SCHEDULE_DAY_SECONDS_def)
  next
    case False
    let ?text = "decimal (nat (sp_day piece)) @ 32 # ?range"
    have "ncfg_schedule_piece_text piece NCFG_SCHEDULE_PIECE_TEXT = ?text"
      using False ok five by (simp add: ncfg_schedule_piece_text_def snprintf_text_def NCFG_SCHEDULE_PIECE_TEXT_def decimal_int_def)
    moreover have "cstr ?text = ?text" using z by (intro cstr_id) simp
    moreover have "take 4 ?text \<noteq> ascii ''any ''" using decimal_first [of "nat (sp_day piece)"] by (auto simp: is_digit_def)
    moreover have "scan_number ?text = Some (sp_day piece, 32 # ?range)"
      using scan_decimal [of "32 # ?range" "nat (sp_day piece)"] False by (simp add: is_digit_def)
    moreover have "scan_space (32 # ?range) = ?range" using scan_space_decimal by simp
    ultimately show ?thesis
      using False ok two by (simp add: ncfg_schedule_piece_read_def Let_def NCFG_SCHEDULE_DAY_SECONDS_def del: ascii_simps)
  qed
qed

subsection \<open>Properties\<close>

text \<open>
  C32.  A schedule in UTC is the schedule that was written.  For hours that are read, or none for the whole day, for
  any list of days and any offset, and room for 28 pieces, there are pieces, at most 28; each is a day or every day
  with a range inside a day, they are in order, none touches the one before it, and each is read as it
  was written as text.  At every instant of UTC one of them covers the instant exactly when the local clock is inside
  a window that began on a chosen day, however far the window and the offset carry it across midnight or the end
  of the week.
\<close>

theorem schedule_expands:
  assumes "hours = None \<and> start = 0 \<and> end = DAY \<or> ncfg_schedule_hours_parse hours 0 = Inr (start, end, normal)"
    and "NCFG_SCHEDULE_PIECES_MAX \<le> cap"
  shows "expanded start end days offset (ncfg_schedule_expand hours days offset cap) \<and>
    list_all (\<lambda>piece. ncfg_schedule_piece_read (Some (ncfg_schedule_piece_text piece NCFG_SCHEDULE_PIECE_TEXT)) = Some piece)
      (ncfg_schedule_expand hours days offset cap)"
proof -
  have "0 \<le> start" "start < DAY" "0 < end" "end \<le> DAY" "start \<noteq> end"
    using assms(1) hours_bounds [of hours 0 start "end" normal] by (auto simp: NCFG_SCHEDULE_DAY_SECONDS_def)
  then have "expanded start end days offset (expand_window start end days offset cap)" by (rule expand_window_ok) (rule assms(2))
  moreover have "ncfg_schedule_expand hours days offset cap = expand_window start end days offset cap"
    using assms(1) by (cases hours) (auto simp: ncfg_schedule_expand_def ncfg_schedule_hours_parse_def)
  ultimately show ?thesis using piece_reads_back by (auto simp: expanded_def list_all_iff)
qed

theorem schedule_expands_witness:
  "ncfg_schedule_hours_parse (Some (ascii ''22:00-7:30'')) 0 = Inr (79200, 27000, []) \<and>
   expanded 79200 27000 [Some (ascii ''sat'')] 32400 (ncfg_schedule_expand (Some (ascii ''22:00-7:30'')) [Some (ascii ''sat'')] 32400 28) \<and>
   ncfg_schedule_expand (Some (ascii ''22:00-7:30'')) [Some (ascii ''sat'')] 32400 28 =
     [\<lparr>sp_day = 6, sp_from = 46800, sp_to = 80999\<rparr>]"
proof -
  have h: "ncfg_schedule_hours_parse (Some (ascii ''22:00-7:30'')) 0 = Inr (79200, 27000, [])" by code_simp
  moreover have "ncfg_schedule_expand (Some (ascii ''22:00-7:30'')) [Some (ascii ''sat'')] 32400 28 =
      [\<lparr>sp_day = 6, sp_from = 46800, sp_to = 80999\<rparr>]" by code_simp
  moreover note schedule_expands [OF disjI2 [OF h], of 28 "[Some (ascii ''sat'')]" 32400]
  ultimately show ?thesis by (simp add: NCFG_SCHEDULE_PIECES_MAX_def del: ascii_simps)
qed

end
