(* ===== verification/Spec2Isabelle.thy ===== *)
theory Spec2Isabelle
  imports Ncfg_Lex_Values Ncfg_Render Ncfg_Merge_Props Ncfg_Confirm_Run Ncfg_Serve_Props
    Ncfg_Wire_Props Ncfg_Value_Props Ncfg_Dump_Safe Ncfg_Vlan_Props Ncfg_Rules_Props Ncfg_Schedule_Props
begin

text \<open>
  \<^bold>\<open>netcfgd\<close>, a network configuration daemon in C.  It reads a configuration language, compares what
  the configuration asks for with what the machine has, plans the actions that lead from one to the
  other, carries them out with a journal that can be undone, and holds a change in a window that is
  reverted unless somebody confirms it.  Clients talk to it over a socket in lines of JSON.  All paths
  below are under \<^verbatim>\<open>src/\<close>.

  \<^bold>\<open>How the parts fit together.\<close>  Text becomes tokens (\<^verbatim>\<open>lex.c\<close>), a tree (\<^verbatim>\<open>parse.c\<close>), one merged
  configuration (\<^verbatim>\<open>merge.c\<close>) and, by the lowering, a document.  The planner pushes actions through one
  gate (\<^verbatim>\<open>plan/build.c\<close>) into a plan, the engine (\<^verbatim>\<open>apply/apply.c\<close>) runs a plan against an executor and
  keeps a journal, and the window (\<^verbatim>\<open>daemon/confirm.c\<close>) records on disk what would undo it.  A client's
  bytes are framed into lines (\<^verbatim>\<open>proto/frame.c\<close>), a line is read as a request (\<^verbatim>\<open>proto/request.c\<close>), the
  request is judged (\<^verbatim>\<open>daemon/authorize.c\<close>) by who sent it (\<^verbatim>\<open>peer.c\<close>), how it arrived and what it
  carries (\<^verbatim>\<open>privilege.c\<close>), and only then answered (\<^verbatim>\<open>daemon/server.c\<close>).  With the kernel it talks in
  netlink messages (\<^verbatim>\<open>sys/wire.c\<close>): requests that change it (\<^verbatim>\<open>sys/ops.c\<close>, \<^verbatim>\<open>ops_route.c\<close>) and dumps that tell
  what it has (\<^verbatim>\<open>sys/dump.c\<close>, \<^verbatim>\<open>rule.c\<close>).

  \<^bold>\<open>The theories.\<close>

  \<^item> \<open>Ncfg_Prelude\<close>: bytes, C strings, the truncation of \<^verbatim>\<open>snprintf\<close>, decimal printing; the locale
    \<open>sticky_list\<close> for the containers that append or stay failed (interpreted on the journal and on the
    plan's refusals and strandings).
  \<^item> \<open>Ncfg_Buf\<close> (\<^verbatim>\<open>c/src/base/buf.c\<close>): the buffer with its ceiling and its sticky failure.  The locale
    \<open>byte_sink\<close> is what lexer, writer and framer rely on; the buffer is its interpretation.
  \<^item> \<open>Ncfg_Lex\<close>, \<open>Ncfg_Lex_Props\<close>, \<open>Ncfg_Lex_Values\<close> (\<^verbatim>\<open>c/src/compile/lex.c\<close>): the cursor, one function
    per lexer function.  Positions are those of a second pass over the text, spans cover the bytes they
    came from, every call moves on, numbers are exact at 64 bits.
  \<^item> \<open>Ncfg_Render\<close> (the value writers of \<^verbatim>\<open>render.c\<close>): what is quoted reads back as it was, which labels
    may be written bare, and that string tokens are UTF-8.
  \<^item> \<open>Ncfg_Ast\<close>, \<open>Ncfg_Parse\<close>, \<open>Ncfg_Parse_Props\<close>, \<open>Ncfg_Parse_Total\<close> (\<^verbatim>\<open>ast.h\<close>, \<^verbatim>\<open>ast.c\<close>, \<^verbatim>\<open>parse.c\<close>): the
    recursive-descent parser with diagnostics, recovery and the nesting bound.  It returns on every
    input, with a tree exactly when it found no mistake; trees and lists stay below the bound.
  \<^item> \<open>Ncfg_Merge\<close>, \<open>Ncfg_Merge_Props\<close> (\<^verbatim>\<open>merge.c\<close>): the fold of files by precedence, refined by two tables.
  \<^item> \<open>Ncfg_Json\<close>, \<open>Ncfg_Json_Tree\<close>, \<open>Ncfg_Json_Write_Props\<close> (\<^verbatim>\<open>c/src/json/write.c\<close>): the streaming writer
    and an abstract builder of trees it refines: it fails exactly on misuse or lack of room.
  \<^item> \<open>Ncfg_Json_Read\<close>, \<open>Ncfg_Json_Read_Props\<close>, \<open>Ncfg_Json_Leaves\<close>, \<open>Ncfg_Json_Roundtrip\<close>, \<open>Ncfg_Json_Docs\<close>
    (\<^verbatim>\<open>client/ncfg_json.c\<close>): the one-pass reader as a state machine, in bounds on every input, and the
    round trip of every tree the writer can write.
  \<^item> \<open>Ncfg_Frame\<close> (\<^verbatim>\<open>proto/frame.c\<close> and the reading loop of \<^verbatim>\<open>daemon/server.c\<close>): the framer and the loop,
    which refines a specification of the whole stream however it is cut into reads.
  \<^item> \<open>Ncfg_Plan\<close>, \<open>Ncfg_Plan_Props\<close> (\<^verbatim>\<open>plan/action.c\<close>, \<^verbatim>\<open>plan.c\<close>, \<^verbatim>\<open>build.c\<close>, \<^verbatim>\<open>clear.c\<close>): the taxonomy of
    ops, the container and the gate.  Nothing passes the gate that a lock, a guard or an unmanaged
    device forbids, and a plan's own order is an execution order.
  \<^item> \<open>Ncfg_Apply\<close>, \<open>Ncfg_Apply_Props\<close>, \<open>Ncfg_Apply_Json\<close> (\<^verbatim>\<open>apply/apply.c\<close>, \<^verbatim>\<open>journal.c\<close>): running a plan,
    the journal with an allocator that may refuse, the revert and the written journal.  The executor is
    a parameter, as in the code.
  \<^item> \<open>Ncfg_Sha256\<close> (\<^verbatim>\<open>base/sha256.c\<close>): the digest and FIPS 180-4, shown equal.
  \<^item> \<open>Ncfg_Confirm\<close>, \<open>Ncfg_Confirm_Props\<close>, \<open>Ncfg_Confirm_Run\<close> (\<^verbatim>\<open>daemon/confirm.c\<close> and the parts of
    \<^verbatim>\<open>reconcile.c\<close>, \<^verbatim>\<open>state.c\<close> and \<^verbatim>\<open>reconcile_pass.c\<close> that arm, settle and reload): the window, its files and
    the machine of its steps (\<open>confirm_step\<close>).  The locales \<open>saved_value\<close> and \<open>removable_value\<close> state what
    a file that is replaced whole promises; the window file and the record of the last good
    configuration are their interpretations.
  \<^item> \<open>Ncfg_Request\<close>, \<open>Ncfg_Request_Fields\<close>, \<open>Ncfg_Request_Props\<close> (\<^verbatim>\<open>proto/request.c\<close>, \<^verbatim>\<open>common.c\<close>,
    \<^verbatim>\<open>message.c\<close>): every request, written and read.  What is written reads back as its own arm, and what
    is read has no member the protocol does not name.
  \<^item> \<open>Ncfg_Peer\<close> (\<^verbatim>\<open>daemon/peer.c\<close>): ids out of the machine's databases, the groups of a process.
  \<^item> \<open>Ncfg_Authorize\<close> (\<^verbatim>\<open>daemon/privilege.c\<close>, \<^verbatim>\<open>authorize.c\<close>, \<^verbatim>\<open>idempotence.c\<close>): the gate of requests, equal
    to a policy stated without reference to how the code walks a configuration.
  \<^item> \<open>Ncfg_Serve\<close>, \<open>Ncfg_Serve_Props\<close> (\<^verbatim>\<open>daemon/answer.c\<close>, \<^verbatim>\<open>server.c\<close>): a connection from its credentials to
    its end.  It composes framer, reader, gate and answers: nothing reaches the functions behind the
    server but what the gate permits, and what a client writes is served in order as it was written.
  \<^item> \<open>Ncfg_Wire\<close>, \<open>Ncfg_Wire_Props\<close> (\<^verbatim>\<open>sys/wire.c\<close>): netlink framing on a machine of either byte order.
    The locales \<open>bounded_walk\<close> and \<open>confined_walk\<close> state what a walk over untrusted bytes promises, and
    the walks over messages and over attributes are their interpretations; \<open>wire_struct\<close> is the contract
    of an encoder with its decoder, for the header and the three family structs.  Walks end and stay
    inside what was read, requests and structs read back as they were built, and a name off the wire is
    one the JSON writer accepts.
  \<^item> \<open>Ncfg_Value\<close>, \<open>Ncfg_Value_Props\<close> (\<^verbatim>\<open>model/value.c\<close>): the closed sets of words, each an interpretation of
    \<open>closed_set\<close>, so that a word and its value determine each other; addresses, which read back as they
    are written; addresses carved out of a delegated prefix, bit by bit what was asked for; hardware
    addresses, which have one spelling.
  \<^item> \<open>Ncfg_Schedule\<close>, \<open>Ncfg_Schedule_Props\<close> (\<^verbatim>\<open>model/schedule.c\<close>): when a firewall rule applies.  The pieces in UTC
    cover an instant exactly when the local clock is inside a window that began on a chosen day, in order and apart,
    and are read as they are written.
  \<^item> \<open>Ncfg_Uapi\<close>: the numbers of the kernel's headers, as abbreviations.
  \<^item> \<open>Ncfg_Ops\<close>, \<open>Ncfg_Ops_Link\<close> (\<^verbatim>\<open>sys/ops_value.c\<close>, \<^verbatim>\<open>ops_route.c\<close>, \<^verbatim>\<open>ops.c\<close>): the requests about addresses, routes,
    rules, links of every kind with their nests, bridge VLANs, alternative names and tokens.
  \<^item> \<open>Ncfg_Dump\<close>, \<open>Ncfg_Dump_Link\<close> (\<^verbatim>\<open>sys/dump.c\<close>, \<^verbatim>\<open>rule.c\<close>): the readers of what the kernel has.
  \<^item> \<open>Ncfg_Dump_Safe\<close>: no reader looks past its payload, whatever lengths the bytes claim.
  \<^item> \<open>Ncfg_Dump_Props\<close>, \<open>Ncfg_Link_Props\<close>, \<open>Ncfg_Vlan_Props\<close>: builders against readers.  A message is a struct and
    a list of attributes, possibly nested, and a reader over it answers from the list alone; so that an
    address, a route, a rule, a link of any kind and a VLAN are read as they were asked for, and a rule that
    was read is removed with the message the first one would be removed with.  The lemma every builder uses
    (\<open>struct_request\<close>) is proved once in \<open>wire_struct\<close>.
  \<^item> \<open>Ncfg_Rules\<close>, \<open>Ncfg_Rules_Props\<close> (\<^verbatim>\<open>plan/rule.c\<close>, \<^verbatim>\<open>apply/kernel_rule.c\<close>, \<^verbatim>\<open>build_rule\<close> of \<^verbatim>\<open>observe/build.c\<close>):
    routing rules as the document and the observation have them, the planner's pass over them and the request
    the executor builds.  On a kernel that keys a rule on family and priority the pass leads to what the
    document asks for, leaves foreign rules alone, and has nothing to do afterwards; and one rule is followed
    from the document through request, dump and observation to the comparison, which recognises it except
    for two spellings.

  \<^bold>\<open>Conventions.\<close>  A struct is a record, an enumeration a datatype, a union one record of which the tag
  says which fields count.  A byte is \<^typ>\<open>8 word\<close>; \<^verbatim>\<open>int64_t\<close>, \<^verbatim>\<open>uint32_t\<close> and ids keep their width where
  the code can wrap; sizes and offsets are \<^typ>\<open>nat\<close>.  A refusal is the sentence it is reported with, in a
  sum or an option.  Allocation is granted except in the buffer and the journal, which take it as a
  parameter.  What the kernel and other modules do (the clocks, the disk, the sockets, the executor,
  the planner, the reading and hashing of documents) is a parameter.

  \<^bold>\<open>Fuel.\<close>  Three functions carry it: the grammar functions, which are given eight times the length of
  the text and eight more, and are proved never to run out (\<open>parse_total\<close>); \<open>siblings\<close>, the walk over
  the children of a JSON node, which is given the number of nodes; and \<open>doc_tree\<close>, which turns a
  document into a tree for the statement of the round trip only and is given its depth.

  \<^bold>\<open>Not modelled.\<close>  The lowering of the tree to a document and the document model beyond its values and
  its routing rules; the passes of the planner that decide which actions to push, apart from the one over rules; the writers of whole configuration blocks; responses
  that carry documents; the sockets and the gathering of an observation out of dumps; the requests of
  firewalls, queues, radios and WireGuard; the executors, apart from the request for a rule; the accepting of connections with its
  slots and threads, and the permissions of the socket; the loop and passes of the reconciliation apart
  from what touches the window; probes; the command line, the client library and the adapters, which
  are input and output around these parts; the graphical client and the first implementation in Rust,
  which are not C.

  \<^bold>\<open>Plan.\<close>  Next are the patience of the daemon, the requests of firewalls and queues (\<^verbatim>\<open>sys/nft.c\<close>,
  \<^verbatim>\<open>qdisc.c\<close>), the planner's passes over addresses and links, the lowering of a rule, and the responses of the protocol.
\<close>

end
